(* ===== verification/Prelude.thy ===== *)
theory Prelude
  imports Main "HOL-Library.Word"
begin

text \<open>
  Shared vocabulary of the development: the machine integer types of the C sources, the C
  shift and field idioms, the collections of simplification rules the component theories
  extend, and the generic lemmas on words that more than one component uses.

  A C \<open>uint64_t\<close> (and an \<open>int64_t\<close>, kept as its two's complement bit pattern) is a
  \<open>64 word\<close>; \<open>uint32_t\<close>, \<open>uint16_t\<close> and \<open>uint8_t\<close> are \<open>32 word\<close>, \<open>16 word\<close> and
  \<open>8 word\<close>, so that wrap-around and truncation are those of C. Small loop counters, bit
  counts and array indices, which the code keeps in \<open>unsigned\<close> or \<open>size_t\<close> and which never
  come near the width of their type, are \<open>nat\<close>.
\<close>

unbundle bit_operations_syntax

type_synonym u8 = "8 word"
type_synonym u16 = "16 word"
type_synonym u32 = "32 word"
type_synonym u64 = "64 word"
type_synonym u128 = "128 word"

named_theorems field_bounds \<open>bounds of extracted instruction fields\<close>
named_theorems c_simps \<open>the C idioms unfolded to word operations\<close>

subsection \<open>C idioms\<close>

text \<open>\<open>w >> n\<close> and \<open>w << n\<close> of C on unsigned operands, for \<open>n\<close> below the width.\<close>

abbreviation shr :: "'a::len word \<Rightarrow> nat \<Rightarrow> 'a word" where
  "shr w n \<equiv> drop_bit n w"

abbreviation shl :: "'a::len word \<Rightarrow> nat \<Rightarrow> 'a word" where
  "shl w n \<equiv> push_bit n w"

text \<open>\<open>(int64_t)w >> n\<close>, the arithmetic shift of the supported compilers.\<close>

abbreviation sar :: "'a::len word \<Rightarrow> nat \<Rightarrow> 'a word" where
  "sar w n \<equiv> signed_drop_bit n w"

text \<open>
  The conversions of C between the integer types: zero and sign extension and truncation,
  each at the two widths its name gives. An expression of type \<open>uint8_t\<close>, \<open>int\<close> or
  \<open>unsigned\<close> is promoted to 32 bits before any arithmetic, so locals of these types are
  \<open>u32\<close> values in the decoders and executors.
\<close>

abbreviation zext32 :: "u8 \<Rightarrow> u32" where "zext32 w \<equiv> ucast w"
abbreviation zext64 :: "u32 \<Rightarrow> u64" where "zext64 w \<equiv> ucast w"
abbreviation sext64 :: "u32 \<Rightarrow> u64" where "sext64 w \<equiv> scast w"
abbreviation zext128 :: "u64 \<Rightarrow> u128" where "zext128 w \<equiv> ucast w"
abbreviation sext128 :: "u64 \<Rightarrow> u128" where "sext128 w \<equiv> scast w"
abbreviation lo64 :: "u128 \<Rightarrow> u64" where "lo64 w \<equiv> ucast w"
abbreviation lo32 :: "u64 \<Rightarrow> u32" where "lo32 w \<equiv> ucast w"
abbreviation lo8 :: "u32 \<Rightarrow> u8" where "lo8 w \<equiv> ucast w"

text \<open>
  \<open>fld w k m\<close> is \<open>(w >> k) & m\<close>, the shape in which the decoders read every field of
  an instruction word, and \<open>matches w m v\<close> is \<open>(w & m) == v\<close>, their guard. Both are
  constants rather than abbreviations so that a long decoder stays small in a proof.
\<close>

definition fld :: "'a::len word \<Rightarrow> nat \<Rightarrow> 'a word \<Rightarrow> 'a word" where
  [c_simps]: "fld w k m = shr w k AND m"

definition matches :: "'a::len word \<Rightarrow> 'a word \<Rightarrow> 'a word \<Rightarrow> bool" where
  [c_simps]: "matches w m v \<longleftrightarrow> w AND m = v"

text \<open>\<open>flag w k\<close> is \<open>((w >> k) & 1) != 0\<close>.\<close>

definition flag :: "'a::len word \<Rightarrow> nat \<Rightarrow> bool" where
  [c_simps]: "flag w k \<longleftrightarrow> fld w k 1 \<noteq> 0"

text \<open>A C truth value used as a number.\<close>

definition of_flag :: "bool \<Rightarrow> 'a::len word" where
  [c_simps]: "of_flag b = (if b then 1 else 0)"

subsection \<open>Fields\<close>

lemma fld_le: "fld w k m \<le> m"
  by (simp add: fld_def word_and_le1)

lemma unat_fld_le: "unat (fld w k m) \<le> unat m"
  using fld_le by (simp add: word_le_nat_alt)

lemma unat_ucast_le: "unat (ucast (w :: 'a::len word) :: 'b::len word) \<le> unat w"
  by (simp add: unsigned_ucast_eq take_bit_nat_less_eq_self)

lemma unat_ucast_fld_le: "unat (ucast (fld w k m) :: 'b::len word) \<le> unat m"
  using unat_ucast_le[of "fld w k m"] unat_fld_le[of w k m] le_trans by blast

lemma unat_fld5 [field_bounds]: "unat (ucast (fld (w :: u32) k 0x1f) :: u8) < 32"
  using unat_ucast_fld_le[of w k "0x1f", where ?'b = 8] by simp

lemma flag_bit: "flag w k \<longleftrightarrow> bit w k"
proof -
  have "shr w k AND 1 = of_bool (bit w k)"
    by (simp add: and_one_eq mod2_eq_if even_drop_bit_iff_not_bit)
  then show ?thesis by (simp add: flag_def fld_def)
qed

lemma of_flag_le_1: "unat (of_flag b :: 'a::len word) \<le> 1"
  by (cases b) (simp_all add: of_flag_def)

lemma matches_iff: "matches w m v \<Longrightarrow> w AND m = v"
  by (simp add: matches_def)

subsection \<open>Values\<close>

lemma bit_imp_exp_le: "bit (w :: 'a::len word) k \<Longrightarrow> 2 ^ k \<le> unat w"
proof (rule ccontr)
  assume b: "bit w k" and n: "\<not> 2 ^ k \<le> unat w"
  then have "bit (unat w) k" by (simp add: bit_unsigned_iff bit_imp_le_length)
  moreover from n have "take_bit k (unat w) = unat w" by (simp add: take_bit_nat_eq_self)
  ultimately show False by (metis bit_take_bit_iff less_irrefl)
qed

lemma unat_mask_word: "n \<le> LENGTH('a) \<Longrightarrow> unat (mask n :: 'a::len word) = 2 ^ n - 1"
proof -
  assume n: "n \<le> LENGTH('a)"
  have "unat (take_bit n (- 1 :: 'a word)) = take_bit n (mask LENGTH('a))"
    by (simp only: unsigned_take_bit_eq unsigned_minus_1_eq_mask)
  also have "\<dots> = 2 ^ n - 1"
    using n by (simp only: take_bit_of_mask min_absorb1) (simp only: mask_eq_exp_minus_1)
  finally show ?thesis by (simp only: take_bit_minus_one_eq_mask)
qed

lemma take_bit_add_word: "take_bit n (a + take_bit n b) = take_bit n (a + b :: 'a::len word)"
proof -
  have "take_bit (min m n) (x + take_bit (min m n) y) = take_bit (min m n) (x + y)" for x y :: int and m
    by (simp add: take_bit_eq_mod mod_simps)
  then show ?thesis by transfer (simp add: take_bit_take_bit min.commute)
qed

end
