(* ===== verification/Bits.thy ===== *)
theory Bits
  imports Prelude
begin

text \<open>
  The arithmetic helpers at the top of \<open>Sources/ARM64VizNative/ARM64VizNative.c\<close>: masks,
  sign extension, shifts and rotations at a given width, bit and byte reversal, leading zero
  counts, the immediates of logical and bitfield instructions, division, and addition with
  the NZCV flags. Each definition is the C function; the lemmas say what it computes.
\<close>

subsection \<open>Masks and sign extension\<close>

definition mask_for_bits :: "nat \<Rightarrow> u64" where
  "mask_for_bits bits = (if bits = 0 then 0 else if 64 \<le> bits then -1 else shl 1 bits - 1)"

definition sign_bit_for_bits :: "nat \<Rightarrow> u64" where
  "sign_bit_for_bits bits =
     (if bits = 0 then 0 else shl 1 ((if 64 \<le> bits then 64 else bits) - 1))"

definition sign_extend_u64 :: "u64 \<Rightarrow> nat \<Rightarrow> u64" where
  "sign_extend_u64 value bits =
     (if bits = 0 then 0
      else if 64 \<le> bits then value
      else let sign_bit = sign_bit_for_bits bits;
               msk = mask_for_bits bits;
               extended = (value AND msk) XOR sign_bit
           in extended - sign_bit)"

definition decode_scaled_signed_immediate :: "u64 \<Rightarrow> nat \<Rightarrow> u64 \<Rightarrow> u64" where
  "decode_scaled_signed_immediate encoded bits scale = sign_extend_u64 encoded bits * scale"

definition add_signed_offset :: "u64 \<Rightarrow> u64 \<Rightarrow> u64" where
  "add_signed_offset base offset = base + offset"

definition masked_operand :: "u64 \<Rightarrow> nat \<Rightarrow> u64" where
  "masked_operand value bits = (if bits = 64 then value else value AND 0xffffffff)"

definition sign_extend_loaded :: "u64 \<Rightarrow> nat \<Rightarrow> u64" where
  "sign_extend_loaded value bits =
     (if 64 \<le> bits \<or> value AND sign_bit_for_bits bits = 0 then value
      else value OR NOT (mask_for_bits bits))"

definition popcount_u8 :: "u8 \<Rightarrow> u8" where
  "popcount_u8 value0 =
     (let value1 = value0 - (shr value0 1 AND 0x55);
          value2 = (value1 AND 0x33) + (shr value1 2 AND 0x33)
      in (value2 + shr value2 4) AND 0x0f)"

lemma mask_for_bits_eq [simp]: "mask_for_bits n = mask n"
proof (cases "64 \<le> n")
  case True
  then have "(2 :: u64) ^ n = 0" by simp
  with True show ?thesis by (simp add: mask_for_bits_def mask_eq_exp_minus_1)
next
  case False
  then show ?thesis by (simp add: mask_for_bits_def mask_eq_exp_minus_1 push_bit_eq_mult)
qed

lemma sign_bit_for_bits_eq: "0 < n \<Longrightarrow> n \<le> 64 \<Longrightarrow> sign_bit_for_bits n = 2 ^ (n - 1)"
  by (auto simp: sign_bit_for_bits_def push_bit_eq_mult)

lemma bit_sign_bit_for_bits:
  "0 < n \<Longrightarrow> n \<le> 64 \<Longrightarrow> bit (sign_bit_for_bits n) k \<longleftrightarrow> k = n - 1"
  by (auto simp: sign_bit_for_bits_eq bit_exp_iff)

lemma and_sign_bit_eq_0_iff:
  "0 < n \<Longrightarrow> n \<le> 64 \<Longrightarrow> w AND sign_bit_for_bits n = 0 \<longleftrightarrow> \<not> bit w (n - 1)"
  by (simp add: sign_bit_for_bits_eq and_exp_eq_0_iff_not_bit)

lemma take_bit_32_eq: "(value :: u64) AND 0xffffffff = take_bit 32 value"
  by (simp add: take_bit_eq_mask mask_eq_exp_minus_1)

lemma masked_operand_eq: "bits = 32 \<or> bits = 64 \<Longrightarrow> masked_operand value bits = take_bit bits value"
  by (auto simp: masked_operand_def take_bit_32_eq take_bit_word_eq_self)

subsection \<open>Shifts, rotations, reversals and leading counts\<close>

definition rotate_right_width :: "u64 \<Rightarrow> nat \<Rightarrow> nat \<Rightarrow> u64" where
  "rotate_right_width value0 amount0 width =
     (let msk = mask_for_bits width;
          value = value0 AND msk;
          amount = amount0 mod width
      in if amount = 0 then value
         else (shr value amount OR shl value (width - amount)) AND msk)"

definition shifted_register_value :: "u64 \<Rightarrow> nat \<Rightarrow> nat \<Rightarrow> nat \<Rightarrow> u64" where
  "shifted_register_value value0 shift_type amount bits =
     (let msk = mask_for_bits bits;
          value = value0 AND msk
      in if shift_type = 0 then shl value amount AND msk
         else if shift_type = 1 then (if amount = 0 then value else shr value amount)
         else if shift_type = 2 then
           (if amount = 0 then value
            else if bits = 64 then sar value amount AND msk
            else scast (sar (ucast value :: u32) amount) AND msk)
         else if shift_type = 3 then rotate_right_width value amount bits
         else value)"

definition reverse_bits_width :: "u64 \<Rightarrow> nat \<Rightarrow> u64" where
  "reverse_bits_width value0 bits0 =
     (let bits = (if 64 < bits0 then 64 else bits0);
          value = value0 AND mask_for_bits bits;
          result = fold (\<lambda>b result. if shr value b AND 1 \<noteq> 0
                                    then result OR shl 1 (bits - 1 - b) else result) [0..<bits] 0
      in result AND mask_for_bits bits)"

definition reverse_bytes_group :: "u64 \<Rightarrow> nat \<Rightarrow> nat \<Rightarrow> u64" where
  "reverse_bytes_group value0 group_bytes bits0 =
     (let bits = (if 64 < bits0 then 64 else bits0);
          byte_count = bits div 8
      in if group_bytes = 0 \<or> byte_count = 0 \<or> byte_count < group_bytes \<or>
            byte_count mod group_bytes \<noteq> 0
         then value0 AND mask_for_bits bits
         else let value = value0 AND mask_for_bits bits;
                  result = fold (\<lambda>byte_index result.
                     let group_start = (byte_index div group_bytes) * group_bytes;
                         offset_in_group = byte_index - group_start;
                         reversed_index = group_start + group_bytes - 1 - offset_in_group;
                         byte = shr value (byte_index * 8) AND 0xff
                     in result OR shl byte (reversed_index * 8)) [0..<byte_count] 0
              in result AND mask_for_bits bits)"

text \<open>The countdown loops \<open>for (bit = n - 1; bit >= 0; --bit)\<close>, with \<open>bit + 1\<close> as the argument.\<close>

fun clz_loop :: "u64 \<Rightarrow> nat \<Rightarrow> nat \<Rightarrow> nat" where
  "clz_loop value 0 count = count"
| "clz_loop value (Suc b) count =
     (if shr value b AND 1 \<noteq> 0 then count else clz_loop value b (Suc count))"

definition count_leading_zeros_width :: "u64 \<Rightarrow> nat \<Rightarrow> nat" where
  "count_leading_zeros_width value0 bits0 =
     (let bits = (if 64 < bits0 then 64 else bits0);
          value = value0 AND mask_for_bits bits
      in clz_loop value bits 0)"

fun cls_loop :: "u64 \<Rightarrow> u64 \<Rightarrow> nat \<Rightarrow> nat \<Rightarrow> nat" where
  "cls_loop value sign 0 count = count"
| "cls_loop value sign (Suc b) count =
     (if shr value b AND 1 \<noteq> sign then count else cls_loop value sign b (Suc count))"

definition count_leading_sign_bits_width :: "u64 \<Rightarrow> nat \<Rightarrow> nat" where
  "count_leading_sign_bits_width value0 bits0 =
     (let bits = (if 64 < bits0 then 64 else bits0)
      in if bits = 0 then 0
         else let value = value0 AND mask_for_bits bits;
                  sign = shr value (bits - 1) AND 1
              in cls_loop value sign (bits - 1) 0)"

fun highest_set_bit_below :: "u32 \<Rightarrow> nat \<Rightarrow> int" where
  "highest_set_bit_below value 0 = -1"
| "highest_set_bit_below value (Suc b) =
     (if value AND shl 1 b \<noteq> 0 then int b else highest_set_bit_below value b)"

definition highest_set_bit :: "u32 \<Rightarrow> int" where
  "highest_set_bit value = highest_set_bit_below value 32"

definition extended_register_value :: "u64 \<Rightarrow> u8 \<Rightarrow> u64" where
  "extended_register_value value option =
     (if option = 0 then value AND 0xff
      else if option = 1 then value AND 0xffff
      else if option = 2 then value AND 0xffffffff
      else if option = 3 then value
      else if option = 4 then sign_extend_loaded (value AND 0xff) 8
      else if option = 5 then sign_extend_loaded (value AND 0xffff) 16
      else if option = 6 then sign_extend_loaded (value AND 0xffffffff) 32
      else if option = 7 then value
      else value)"

text \<open>C division truncates towards zero: \<open>c_quot\<close> is \<open>a / b\<close> on the signed values.\<close>

definition c_quot :: "int \<Rightarrow> int \<Rightarrow> int" where
  "c_quot a b = sgn a * sgn b * (\<bar>a\<bar> div \<bar>b\<bar>)"

definition signed_divide_width :: "u64 \<Rightarrow> u64 \<Rightarrow> nat \<Rightarrow> u64" where
  "signed_divide_width dividend divisor bits =
     (if bits = 32 then
        let lhs = (ucast dividend :: u32); rhs = (ucast divisor :: u32)
        in if rhs = 0 then 0
           else if lhs = 0x80000000 \<and> rhs = -1 then 0x80000000
           else ucast (word_of_int (c_quot (sint lhs) (sint rhs)) :: u32)
      else if divisor = 0 then 0
      else if dividend = 0x8000000000000000 \<and> divisor = -1 then 0x8000000000000000
      else word_of_int (c_quot (sint dividend) (sint divisor)))"

subsection \<open>Immediates of logical and bitfield instructions\<close>

text \<open>
  \<open>for (shift = 0; shift < bits; shift += size) result |= element << shift\<close>.
\<close>

definition replicate_element :: "u64 \<Rightarrow> nat \<Rightarrow> nat \<Rightarrow> u64" where
  "replicate_element element esize bits =
     fold (\<lambda>shift result. result OR shl element shift)
       (filter (\<lambda>shift. shift mod esize = 0) [0..<bits]) 0"

text \<open>\<open>((unsigned)n << 6) | ((~(unsigned)imms) & 0x3f)\<close>, whose highest set bit is the element length.\<close>

definition encoded_length :: "u8 \<Rightarrow> u8 \<Rightarrow> u32" where
  "encoded_length n imms = shl (ucast n) 6 OR (NOT (ucast imms) AND 0x3f)"

definition decode_logical_immediate :: "u8 \<Rightarrow> u8 \<Rightarrow> u8 \<Rightarrow> nat \<Rightarrow> u64 option" where
  "decode_logical_immediate n immr imms bits =
     (if bits = 32 \<and> n \<noteq> 0 then None
      else let len = highest_set_bit (encoded_length n imms)
      in if len < 1 then None
      else let levels = shl 1 (nat len) - 1 :: u32
      in if ucast imms AND levels = levels then None
      else let esize = 2 ^ nat len
      in if bits < esize then None
      else let set_bits = unat (ucast imms AND levels) + 1;
               rotate = unat (ucast immr AND levels);
               element = rotate_right_width (mask_for_bits set_bits) rotate esize;
               result = replicate_element element esize bits
      in Some (result AND mask_for_bits bits))"

definition decode_bitfield_masks :: "u8 \<Rightarrow> u8 \<Rightarrow> u8 \<Rightarrow> nat \<Rightarrow> (u64 \<times> u64) option" where
  "decode_bitfield_masks n immr imms bits =
     (if (bits = 32 \<and> n \<noteq> 0) \<or> (bits = 64 \<and> n \<noteq> 1) then None
      else let len = highest_set_bit (encoded_length n imms)
      in if len < 1 then None
      else let levels = shl 1 (nat len) - 1 :: u32; esize = 2 ^ nat len
      in if bits < esize then None
      else let set_bits = ucast imms AND levels;
               rotate = ucast immr AND levels;
               diff = (set_bits - rotate) AND levels;
               write_element = rotate_right_width (mask_for_bits (unat (set_bits + 1))) (unat rotate) esize;
               top_element = mask_for_bits (unat (diff + 1));
               write_mask = replicate_element write_element esize bits;
               top_mask = replicate_element top_element esize bits;
               register_mask = mask_for_bits bits
      in Some (write_mask AND register_mask, top_mask AND register_mask))"

definition bitfield_insert :: "u64 \<Rightarrow> u8 \<Rightarrow> u8 \<Rightarrow> nat \<Rightarrow> u64 \<times> u64" where
  "bitfield_insert source immr imms bits =
     (let rotate = unat immr; set_bits = unat imms; register_mask = mask_for_bits bits
      in if rotate \<le> set_bits then
           let width = set_bits - rotate + 1; field_mask = mask_for_bits width
           in (shr source rotate AND field_mask, field_mask)
         else
           let width = set_bits + 1; lsb = bits - rotate;
               field_mask = shl (mask_for_bits width) lsb AND register_mask
           in (shl (source AND mask_for_bits width) lsb AND register_mask, field_mask))"

subsection \<open>Addition with flags, and conditions\<close>

text \<open>The result is the pair of the NZCV flags (in bits 31 to 28) and \<open>*result_out\<close>.\<close>

definition add_with_carry_nzcv :: "u64 \<Rightarrow> u64 \<Rightarrow> bool \<Rightarrow> nat \<Rightarrow> u64 \<times> u64" where
  "add_with_carry_nzcv lhs rhs carry_in bits =
     (let msk = mask_for_bits bits;
          result = (lhs + rhs + of_flag carry_in) AND msk;
          unsigned_sum = (ucast lhs :: u128) + ucast rhs + of_flag carry_in;
          sign = sign_bit_for_bits bits;
          lhs_negative = (lhs AND sign \<noteq> 0);
          rhs_negative = (rhs AND sign \<noteq> 0);
          result_negative = (result AND sign \<noteq> 0);
          flags1 = (if result_negative then 0x80000000 else 0);
          flags2 = (if result = 0 then flags1 OR 0x40000000 else flags1);
          flags3 = (if shr unsigned_sum bits \<noteq> 0 then flags2 OR 0x20000000 else flags2);
          flags4 = (if lhs_negative = rhs_negative \<and> lhs_negative \<noteq> result_negative
                    then flags3 OR 0x10000000 else flags3)
      in (flags4, result))"

definition condition_holds :: "u8 \<Rightarrow> u64 \<Rightarrow> bool" where
  "condition_holds condition pstate =
     (let n = (pstate AND 0x80000000 \<noteq> 0);
          z = (pstate AND 0x40000000 \<noteq> 0);
          c = (pstate AND 0x20000000 \<noteq> 0);
          v = (pstate AND 0x10000000 \<noteq> 0);
          selector = shr condition 1;
          result = (if selector = 0 then z
                    else if selector = 1 then c
                    else if selector = 2 then n
                    else if selector = 3 then v
                    else if selector = 4 then c \<and> \<not> z
                    else if selector = 5 then n = v
                    else if selector = 6 then \<not> z \<and> n = v
                    else if selector = 7 then True
                    else False)
      in if condition AND 1 \<noteq> 0 \<and> condition \<noteq> 0xf then \<not> result else result)"

subsection \<open>What the helpers compute\<close>

lemma bit_fold_or: "bit (fold (\<lambda>k r. r OR g k) xs (r0 :: 'a::len word)) n \<longleftrightarrow> bit r0 n \<or> (\<exists>k \<in> set xs. bit (g k) n)"
  by (induction xs arbitrary: r0) (auto simp: bit_or_iff)

lemma fold_if_or: "fold (\<lambda>k r. if P k then r OR g k else r) xs (r0 :: 'a::len word) =
   fold (\<lambda>k r. r OR (if P k then g k else 0)) xs r0"
  by (induction xs arbitrary: r0) auto

lemma bit_rotate_right_width:
  assumes "0 < w" "w \<le> 64"
  shows "bit (rotate_right_width v n w) k \<longleftrightarrow> k < w \<and> bit v ((k + n) mod w)"
proof (cases "k < w")
  case False
  with assms show ?thesis
    by (auto simp: rotate_right_width_def Let_def bit_simps dest: bit_imp_le_length)
next
  case True
  define m where "m = n mod w"
  have m: "m < w" using assms by (simp add: m_def)
  have eq: "(k + n) mod w = (k + m) mod w" by (simp add: m_def mod_add_right_eq)
  show ?thesis
  proof (cases "k + m < w")
    case T: True
    then have "(k + n) mod w = k + m" by (simp add: eq)
    with True T m assms show ?thesis
      by (auto simp: rotate_right_width_def Let_def m_def[symmetric] bit_simps ac_simps)
  next
    case F: False
    then have "(k + m) mod w = k + m - w" using True m by (simp add: mod_if)
    then have e2: "(k + n) mod w = k + m - w" by (simp add: eq)
    from F True m have "m \<noteq> 0" by simp
    with e2 F True m assms show ?thesis
      by (auto simp: rotate_right_width_def Let_def m_def[symmetric] bit_simps ac_simps dest: bit_imp_le_length)
  qed
qed

lemma bit_reverse_bits_width:
  assumes "bits \<le> 64"
  shows "bit (reverse_bits_width v bits) k \<longleftrightarrow> k < bits \<and> bit v (bits - 1 - k)"
  using assms
  by (auto simp: reverse_bits_width_def Let_def fold_if_or bit_fold_or bit_simps and_one_eq mod2_eq_if even_drop_bit_iff_not_bit split: if_splits)

lemma bit_replicate_element:
  assumes "0 < s" "s dvd n" "n \<le> 64" "\<And>k. bit e k \<Longrightarrow> k < s"
  shows "bit (replicate_element e s n) k \<longleftrightarrow> k < n \<and> bit e (k mod s)"
proof
  assume "bit (replicate_element e s n) k"
  then obtain j where j: "j < n" "j mod s = 0" "j \<le> k" "k < 64" "bit e (k - j)"
    by (auto simp: replicate_element_def bit_fold_or bit_simps)
  from assms(4)[OF j(5)] have lt: "k - j < s" .
  from j have "k = j + (k - j)" by simp
  then have m: "k mod s = k - j" using j(2) lt by (metis mod_add_self1 add.commute add_0 mod_add_right_eq mod_less)
  have "k div s * s = j" using m j(3) by (simp add: minus_mod_eq_div_mult [symmetric])
  moreover have "j + s \<le> n"
    using assms(2) j(1,2) by (metis assms(1) dvd_def dvd_eq_mod_eq_0 less_imp_add_positive mult_less_cancel1 mult_Suc_right Suc_leI add.commute mult_le_mono2)
  ultimately show "k < n \<and> bit e (k mod s)" using lt m j by simp
next
  assume k: "k < n \<and> bit e (k mod s)"
  then have "k div s * s < n" by (metis div_times_less_eq_dividend le_less_trans)
  with k assms(3) show "bit (replicate_element e s n) k"
    by (auto simp: replicate_element_def bit_fold_or bit_simps minus_div_mult_eq_mod
        intro!: bexI[of _ "k div s * s"])
qed

lemma highest_set_bit_below_cases:
  "(highest_set_bit_below v n = -1 \<and> (\<forall>k<n. \<not> bit v k)) \<or>
   (\<exists>b<n. highest_set_bit_below v n = int b \<and> bit v b \<and> (\<forall>k. b < k \<and> k < n \<longrightarrow> \<not> bit v k))" if "n \<le> 32"
  using that
proof (induction n)
  case 0 then show ?case by simp
next
  case (Suc n)
  have "v AND shl 1 n \<noteq> 0 \<longleftrightarrow> bit v n"
    using Suc.prems by (simp add: push_bit_eq_mult and_exp_eq_0_iff_not_bit)
  with Suc show ?case by (auto simp: less_Suc_eq)
qed

lemma xor_exp_eq: "(t :: 'a::len word) XOR 2 ^ m = (if bit t m then t - 2 ^ m else t + 2 ^ m)" if "m < LENGTH('a)"
  using that unset_bit_eq[of m t] set_bit_eq[of m t]
  by (simp flip: flip_bit_eq_xor push_bit_of_1 add: flip_bit_eq_if)

lemma sign_extend_u64_eq: "0 < n \<Longrightarrow> n \<le> 64 \<Longrightarrow> sign_extend_u64 v n = signed_take_bit (n - 1) v"
proof -
  assume a: "0 < n" "n \<le> 64"
  show ?thesis
  proof (cases "n = 64")
    case True then show ?thesis
     by (auto simp: sign_extend_u64_def intro!: bit_word_eqI simp: bit_simps)
  next
    case False
    then obtain m where m: "n = Suc m" "m < 63" using a by (cases n) auto
    have "sign_extend_u64 v n = (take_bit (Suc m) v XOR 2^m) - 2^m"
      using m by (simp add: sign_extend_u64_def Let_def sign_bit_for_bits_eq take_bit_eq_mask)
    also have "\<dots> = signed_take_bit m v"
      using m by (simp add: xor_exp_eq signed_take_bit_eq_take_bit_minus bit_take_bit_iff)
    finally show ?thesis using m by simp
  qed
qed

lemma sign_extend_loaded_eq:
  assumes "0 < n" "n \<le> 64"
  shows "sign_extend_loaded (take_bit n v) n = signed_take_bit (n - 1) v"
proof (rule bit_word_eqI)
  fix k :: nat assume k: "k < LENGTH(64)"
  show "bit (sign_extend_loaded (take_bit n v) n) k = bit (signed_take_bit (n - 1) v) k"
  proof (cases "n - 1 \<le> k \<and> k < n")
    case True
    then have [simp]: "k = n - 1" by linarith
    show ?thesis using assms
      by (auto simp: sign_extend_loaded_def and_sign_bit_eq_0_iff bit_simps min_def)
  next
    case False
    with k assms show ?thesis
      by (auto simp: sign_extend_loaded_def and_sign_bit_eq_0_iff bit_simps min_def not_less not_le)
  qed
qed

subsection \<open>The flags of an addition\<close>

text \<open>
  The signed reading of the low \<open>n\<close> bits of a register, in which the overflow flag and
  the signed conditions are stated.
\<close>

definition sread :: "nat \<Rightarrow> u64 \<Rightarrow> int" where
  "sread n v = (if bit v (n - 1) then int (unat v) - 2 ^ n else int (unat v))"

lemma awc_result: "unat (snd (add_with_carry_nzcv a b c n)) = (unat a + unat b + of_bool c) mod 2 ^ n" if "n \<le> 64"
proof -
  have "unat (a + b + of_flag c) = (unat a + unat b + of_bool c) mod 2 ^ 64"
    by (auto simp: of_flag_def unat_word_ariths mod_simps)
  then have "unat (take_bit n (a + b + of_flag c)) = (unat a + unat b + of_bool c) mod 2 ^ 64 mod 2 ^ n"
    by (simp only: unsigned_take_bit_eq) (simp add: take_bit_eq_mod)
  also have "\<dots> = (unat a + unat b + of_bool c) mod 2 ^ n"
    using that by (simp add: mod_mod_cancel le_imp_power_dvd del: power_numeral)
  finally show ?thesis by (simp add: add_with_carry_nzcv_def Let_def take_bit_eq_mask)
qed

lemma awc_carry:
  "shr ((ucast (a :: u64) :: u128) + ucast (b :: u64) + of_flag c) n \<noteq> 0 \<longleftrightarrow> 2 ^ n \<le> unat a + unat b + of_bool c"
proof -
  have lt: "unat a < 2 ^ 64" "unat b < 2 ^ 64"
    using unsigned_less[of a, where ?'a = nat] unsigned_less[of b, where ?'a = nat] by simp_all
  have "unat ((ucast a :: u128) + ucast b + of_flag c) = unat a + unat b + of_bool c"
    using lt by (auto simp: of_flag_def unat_word_ariths unsigned_ucast_eq take_bit_nat_eq_self)
  then have "unat (shr ((ucast a :: u128) + ucast b + of_flag c) n) = (unat a + unat b + of_bool c) div 2 ^ n"
    by (simp only: unat_drop_bit_eq) (simp add: drop_bit_eq_div)
  then show ?thesis
    by (metis div_eq_0_iff not_less unat_eq_zero power_not_zero zero_neq_numeral unsigned_0)
qed

lemma bit_top_iff:
  assumes "unat (v :: u64) < 2 ^ n" "0 < n" 
  shows "bit v (n - 1) \<longleftrightarrow> 2 ^ (n - 1) \<le> unat v"
proof -
  have "bit v (n - 1) \<longleftrightarrow> bit (unat v) (n - 1)" by (simp add: bit_unsigned_iff)
  also have "\<dots> \<longleftrightarrow> odd (unat v div 2 ^ (n - 1))" by (simp add: bit_iff_odd)
  also have "\<dots> \<longleftrightarrow> 2 ^ (n - 1) \<le> unat v"
  proof -
    have "unat v div 2 ^ (n - 1) < 2" using assms
      by (cases n) (auto simp: less_mult_imp_div_less mult.commute)
    then have "odd (unat v div 2 ^ (n - 1)) \<longleftrightarrow> unat v div 2 ^ (n - 1) \<noteq> 0"
      by (auto simp: less_2_cases_iff)
    then show ?thesis by (simp add: div_eq_0_iff not_less)
  qed
  finally show ?thesis .
qed
lemma overflow_arith:
  fixes A B R H :: nat and c :: bool
  assumes "A < 2 * H" "B < 2 * H"
    and "R = (if A + B + of_bool c < 2 * H then A + B + of_bool c else A + B + of_bool c - 2 * H)"
  shows "((H \<le> A) = (H \<le> B) \<and> (H \<le> A) \<noteq> (H \<le> R)) \<longleftrightarrow>
     (if H \<le> A then int A - 2 * int H else int A) + (if H \<le> B then int B - 2 * int H else int B) + of_bool c
     \<noteq> (if H \<le> R then int R - 2 * int H else int R)"
  using assms by (cases c) (auto simp: of_nat_diff split: if_splits)

lemma carry_arith:
  fixes S R N :: nat
  shows "R = (if S < N then S else S - N) \<Longrightarrow> 0 < N \<Longrightarrow> S \<noteq> R \<longleftrightarrow> N \<le> S"
  by (simp split: if_splits)

lemma bit_exp_u64: "bit ((2 :: u64) ^ m) k \<longleftrightarrow> k = m \<and> m < 64"
  by (auto simp: bit_exp_iff)

lemma flag_bits_code:
  "bit (0x80000000 :: u64) k \<longleftrightarrow> k = 31" "bit (0x40000000 :: u64) k \<longleftrightarrow> k = 30"
  "bit (0x20000000 :: u64) k \<longleftrightarrow> k = 29" "bit (0x10000000 :: u64) k \<longleftrightarrow> k = 28"
  using bit_exp_u64[of 31 k] bit_exp_u64[of 30 k] bit_exp_u64[of 29 k] bit_exp_u64[of 28 k]
  by simp_all

lemma awc_flag_bits:
  assumes r: "add_with_carry_nzcv a b c n = (flags, result)" and n: "n = 32 \<or> n = 64"
  shows "bit flags k \<longleftrightarrow> 
     k = 31 \<and> bit result (n - 1) \<or> k = 30 \<and> result = 0 \<or>
     k = 29 \<and> 2 ^ n \<le> unat a + unat b + of_bool c \<or>
     k = 28 \<and> bit a (n - 1) = bit b (n - 1) \<and> bit a (n - 1) \<noteq> bit result (n - 1)"
proof -
  have n1: "0 < n" "n \<le> 64" using n by auto
  show ?thesis
  using r 
  by (auto simp only: add_with_carry_nzcv_def Let_def and_sign_bit_eq_0_iff[OF n1] awc_carry prod.inject 
      flag_bits_code bit_or_iff bit_0_eq split: if_splits)
qed

lemma awc_flags:
  assumes n: "n = 32 \<or> n = 64" and ab: "unat a < 2 ^ n" "unat b < 2 ^ n"
    and r: "add_with_carry_nzcv a b c n = (flags, result)"
  shows "unat result = (unat a + unat b + of_bool c) mod 2 ^ n"
    "bit flags 31 \<longleftrightarrow> sread n result < 0"
    "bit flags 30 \<longleftrightarrow> result = 0"
    "bit flags 29 \<longleftrightarrow> unat a + unat b + of_bool c \<noteq> unat result"
    "bit flags 28 \<longleftrightarrow> sread n a + sread n b + of_bool c \<noteq> sread n result"
proof -
  show res: "unat result = (unat a + unat b + of_bool c) mod 2 ^ n"
    using awc_result[of n a b c] r n by auto
  then have lt: "unat result < 2 ^ n" by simp
  have n1: "0 < n" "n \<le> 64" using n by auto
  note tops = bit_top_iff[OF ab(1) n1(1)] bit_top_iff[OF ab(2) n1(1)] bit_top_iff[OF lt n1(1)]
  have "int (unat result) < 2 ^ n" using lt by (metis of_nat_less_iff of_nat_numeral of_nat_power)
  then show "bit flags 31 \<longleftrightarrow> sread n result < 0"
    using awc_flag_bits[OF r n, of 31] by (auto simp: sread_def)
  show "bit flags 30 \<longleftrightarrow> result = 0"
    using awc_flag_bits[OF r n, of 30] by simp
  have m: "unat result = (if unat a + unat b + of_bool c < 2 ^ n then unat a + unat b + of_bool c
                        else unat a + unat b + of_bool c - 2 ^ n)"
    using ab n unfolding res by (cases c) (auto simp: mod_if)
  show "bit flags 29 \<longleftrightarrow> unat a + unat b + of_bool c \<noteq> unat result"
    using awc_flag_bits[OF r n, of 29] carry_arith[OF m] by simp
  have p: "(2::nat) ^ n = 2 * 2 ^ (n - 1)" "(2::int) ^ n = 2 * int (2 ^ (n - 1))" using n by auto
  show "bit flags 28 \<longleftrightarrow> sread n a + sread n b + of_bool c \<noteq> sread n result"
    using awc_flag_bits[OF r n, of 28] overflow_arith[OF ab[unfolded p(1)] m[unfolded p(1)]]
    unfolding sread_def tops p(2) by simp
qed

lemma and_flag_bits:
  "(w :: u64) AND 0x80000000 = 0 \<longleftrightarrow> \<not> bit w 31" "w AND 0x40000000 = 0 \<longleftrightarrow> \<not> bit w 30"
  "w AND 0x20000000 = 0 \<longleftrightarrow> \<not> bit w 29" "w AND 0x10000000 = 0 \<longleftrightarrow> \<not> bit w 28"
  using and_exp_eq_0_iff_not_bit[of w 31] and_exp_eq_0_iff_not_bit[of w 30]
    and_exp_eq_0_iff_not_bit[of w 29] and_exp_eq_0_iff_not_bit[of w 28] by simp_all

lemma condition_holds_simps:
  "condition_holds 0 ps \<longleftrightarrow> bit ps 30" "condition_holds 1 ps \<longleftrightarrow> \<not> bit ps 30"
  "condition_holds 2 ps \<longleftrightarrow> bit ps 29" "condition_holds 3 ps \<longleftrightarrow> \<not> bit ps 29"
  "condition_holds 4 ps \<longleftrightarrow> bit ps 31" "condition_holds 5 ps \<longleftrightarrow> \<not> bit ps 31"
  "condition_holds 6 ps \<longleftrightarrow> bit ps 28" "condition_holds 7 ps \<longleftrightarrow> \<not> bit ps 28"
  "condition_holds 8 ps \<longleftrightarrow> bit ps 29 \<and> \<not> bit ps 30"
  "condition_holds 9 ps \<longleftrightarrow> \<not> (bit ps 29 \<and> \<not> bit ps 30)"
  "condition_holds 10 ps \<longleftrightarrow> bit ps 31 = bit ps 28" "condition_holds 11 ps \<longleftrightarrow> bit ps 31 \<noteq> bit ps 28"
  "condition_holds 12 ps \<longleftrightarrow> \<not> bit ps 30 \<and> bit ps 31 = bit ps 28"
  "condition_holds 13 ps \<longleftrightarrow> \<not> (\<not> bit ps 30 \<and> bit ps 31 = bit ps 28)"
  "condition_holds 14 ps" "condition_holds 15 ps"
  by (simp_all add: condition_holds_def Let_def and_flag_bits)

lemma take_bit_unat_self: "unat (b :: u64) < 2 ^ n \<Longrightarrow> take_bit n b = b"
  by (simp add: word_unat_eq_iff unsigned_take_bit_eq take_bit_nat_eq_self)

lemma unat_not_mask:
  assumes "n \<le> 64" "unat (b :: u64) < 2 ^ n"
  shows "unat (NOT b AND mask_for_bits n) = 2 ^ n - 1 - unat b"
proof -
  have "b \<le> mask n" using assms by (simp add: word_le_nat_alt unat_mask_word)
  moreover have "NOT b AND mask_for_bits n = mask n - b"
    using assms by (simp add: take_bit_not_eq_mask_diff take_bit_unat_self flip: take_bit_eq_mask)
  ultimately show ?thesis using assms(1) by (simp add: unat_sub unat_mask_word)
qed

lemma sread_cases:
  assumes "unat v < 2 ^ n" "0 < n"
  shows "sread n v = (if 2 ^ (n - 1) \<le> unat v then int (unat v) - 2 * int (2 ^ (n - 1)) else int (unat v))"
proof -
  have "(2::int) ^ n = 2 * int (2 ^ (n - 1))" using assms(2) by (cases n) auto
  then show ?thesis using bit_top_iff[OF assms] by (simp only: sread_def)
qed

lemma sread_inj:
  assumes "unat a < 2 ^ n" "unat b < 2 ^ n" "0 < n"
  shows "sread n a = sread n b \<longleftrightarrow> a = b"
proof -
  have inj: "(if H \<le> A then int A - 2 * int H else int A) = (if H \<le> B then int B - 2 * int H else int B) \<Longrightarrow> A = B"
    if "A < 2 * H" "B < 2 * H" for A B H :: nat using that by (auto split: if_splits)
  have p: "(2::nat) ^ n = 2 * 2 ^ (n - 1)" using assms(3) by (cases n) auto
  show ?thesis
    using inj[OF assms(1,2)[unfolded p]] sread_cases[OF assms(1,3)] sread_cases[OF assms(2,3)]
    by (metis word_unat_eq_iff)
qed

lemma neg_arith: "X < 2 * H \<Longrightarrow> (if H \<le> X then int X - 2 * int H else int X) < 0 \<longleftrightarrow> \<not> X < H" for X H :: nat
  by auto

lemma cmp_arith:
  fixes A B R H :: nat
  assumes "A < 2 * H" "B < 2 * H" "R = (A + (2 * H - 1 - B) + 1) mod (2 * H)"
  defines "s X \<equiv> (if H \<le> X then int X - 2 * int H else int X)"
  shows "A + (2 * H - 1 - B) + 1 \<noteq> R \<longleftrightarrow> B \<le> A" "R = 0 \<longleftrightarrow> A = B"
    "s (2 * H - 1 - B) = - s B - 1" 
    "((R < H) = (s A + s (2 * H - 1 - B) + 1 = s R)) \<longleftrightarrow> s B \<le> s A"
proof -
  have R: "R = (if B \<le> A then A - B else A + 2 * H - B)"
  proof (cases "B \<le> A")
    case True
    then have "A + (2 * H - 1 - B) + 1 = (A - B) + 2 * H" using assms(1,2) by simp
    moreover have "A - B < 2 * H" using assms(1) by simp
    ultimately show ?thesis using True unfolding assms(3) by (simp only: mod_add_self2 mod_less if_True)
  next
    case False
    then have "A + (2 * H - 1 - B) + 1 = A + 2 * H - B" "A + 2 * H - B < 2 * H" using assms(1,2) by simp_all
    then show ?thesis using False unfolding assms(3) by (simp only: mod_less if_False)
  qed
  show "A + (2 * H - 1 - B) + 1 \<noteq> R \<longleftrightarrow> B \<le> A" "R = 0 \<longleftrightarrow> A = B"
    using assms(1,2) by (auto simp: R)
  show t: "s (2 * H - 1 - B) = - s B - 1"
    using assms(1,2) by (auto simp: s_def of_nat_diff)
  show "((R < H) = (s A + s (2 * H - 1 - B) + 1 = s R)) \<longleftrightarrow> s B \<le> s A"
    unfolding t using assms(1,2) unfolding s_def R 
    by (cases "H \<le> A"; cases "H \<le> B"; cases "B \<le> A") (auto simp: of_nat_diff not_le)
qed

lemma cmp_conditions:
  assumes n: "n = 32 \<or> n = 64" and ab: "unat a < 2 ^ n" "unat b < 2 ^ n"
    and r: "add_with_carry_nzcv a (NOT b AND mask_for_bits n) True n = (flags, result)"
    and ps: "ps AND 0xf0000000 = flags AND 0xf0000000"
  shows "(condition_holds 0 ps \<longleftrightarrow> a = b) \<and> (condition_holds 1 ps \<longleftrightarrow> a \<noteq> b) \<and>
    (condition_holds 2 ps \<longleftrightarrow> b \<le> a) \<and> (condition_holds 3 ps \<longleftrightarrow> a < b) \<and>
    (condition_holds 8 ps \<longleftrightarrow> b < a) \<and> (condition_holds 9 ps \<longleftrightarrow> a \<le> b) \<and>
    (condition_holds 10 ps \<longleftrightarrow> sread n b \<le> sread n a) \<and> (condition_holds 11 ps \<longleftrightarrow> sread n a < sread n b) \<and>
    (condition_holds 12 ps \<longleftrightarrow> sread n b < sread n a) \<and> (condition_holds 13 ps \<longleftrightarrow> sread n a \<le> sread n b)"
proof -
  define b' where "b' = NOT b AND mask_for_bits n"
  have n1: "n \<le> 64" "0 < n" using n by auto
  have nb: "unat b' = 2 ^ n - 1 - unat b" unfolding b'_def by (rule unat_not_mask[OF n1(1) ab(2)])
  then have nlt: "unat b' < 2 ^ n" using ab(2) by simp
  note fl = awc_flags[OF n ab(1) nlt r[folded b'_def]]
  have ps': "bit ps k = bit flags k" if "k \<in> {28, 29, 30, 31}" for k
  proof -
    have "bit (0xf0000000 :: u64) k" using that by auto
    then show ?thesis using ps by (metis bit_and_iff)
  qed
  have lt: "unat result < 2 ^ n" using fl(1) by simp
  have p: "(2::nat) ^ n = 2 * 2 ^ (n - 1)" "(2::int) ^ n = 2 * int (2 ^ (n - 1))" using n by auto
  have R: "unat result = (unat a + (2 * 2 ^ (n - 1) - 1 - unat b) + 1) mod (2 * 2 ^ (n - 1))"
    using fl(1) unfolding nb p by simp
  note ca = cmp_arith[OF ab[unfolded p(1)] R]
  note tops = bit_top_iff[OF ab(1) n1(2)] bit_top_iff[OF ab(2) n1(2)] bit_top_iff[OF lt n1(2)] bit_top_iff[OF nlt n1(2)]
  have c29: "bit ps 29 \<longleftrightarrow> b \<le> a"
    using fl(4) ca(1) unfolding nb p ps'[of 29, simplified] word_le_nat_alt by (simp only: of_bool_eq)
  have c30: "bit ps 30 \<longleftrightarrow> a = b"
    using fl(3) ca(2) unfolding ps'[of 30, simplified] by (simp only: word_unat_eq_iff unsigned_0)
  have "bit ps 31 = bit ps 28 \<longleftrightarrow> sread n b \<le> sread n a"
  proof -
    note sr = sread_cases[OF _ n1(2)]
    have "sread n result < 0 \<longleftrightarrow> \<not> unat result < 2 ^ (n - 1)"
      using lt unfolding sr[OF lt] p by (rule neg_arith)
    then show ?thesis
      using ca(4) fl(2,5) unfolding ps'[of 31, simplified] ps'[of 28, simplified] 
        sr[OF ab(1)] sr[OF ab(2)] sr[OF lt] sr[OF nlt] nb p by auto
  qed
  moreover have "sread n a = sread n b \<longleftrightarrow> a = b"
    using sread_inj[OF ab] n1 by blast
  ultimately show ?thesis
    using c29 c30 by (auto simp: condition_holds_simps not_le less_le)
qed

subsection \<open>Logical and bitfield immediates\<close>

lemma encoded_length_bits:
  "bit (encoded_length n imms) k \<longleftrightarrow> (6 \<le> k \<and> k < 14 \<and> bit n (k - 6)) \<or> (k < 6 \<and> \<not> bit imms k)"
proof -
  have m: "(0x3f :: u32) = mask 6" by (simp add: mask_eq_exp_minus_1)
  show ?thesis unfolding encoded_length_def m
    by (auto simp: bit_simps dest: bit_imp_le_length)
qed

lemma highest_set_bit_encoded:
  assumes "n = 0 \<or> n = 1" "highest_set_bit (encoded_length n imms) = int len"
  shows "len \<le> 6" "len = 6 \<longleftrightarrow> n = 1"
proof -
  from assms(2) have b: "bit (encoded_length n imms) len" "\<forall>k. len < k \<and> k < 32 \<longrightarrow> \<not> bit (encoded_length n imms) k"
    using highest_set_bit_below_cases[of 32 "encoded_length n imms"] by (auto simp: highest_set_bit_def)
  then show "len \<le> 6" "len = 6 \<longleftrightarrow> n = 1" using assms(1)
    by (auto simp: encoded_length_bits bit_1_iff)
qed

lemma levels_eq: "(shl 1 len - 1 :: u32) = mask len"
  by (simp add: mask_eq_exp_minus_1 push_bit_eq_mult)

lemma unat_and_levels: "unat ((ucast (x :: u8) :: u32) AND (shl 1 len - 1)) = unat x mod 2 ^ len"
proof -
  have "unat x < 2 ^ 32" using unsigned_less[of x, where ?'a = nat] by simp
  then have "unat (ucast x :: u32) = unat x"
    by (simp add: unsigned_ucast_eq take_bit_nat_eq_self)
  then show ?thesis
    unfolding levels_eq take_bit_eq_mask[symmetric] unsigned_take_bit_eq
    by (simp add: take_bit_eq_mod)
qed

lemma bit_logical_element:
  assumes "0 < es" "es \<le> 64" "es dvd bits" "bits \<le> 64" "s \<le> es"
  shows "bit (replicate_element (rotate_right_width (mask_for_bits s) r es) es bits AND mask_for_bits bits) k
    \<longleftrightarrow> k < bits \<and> (k + r) mod es < s"
proof -
  have "bit (replicate_element (rotate_right_width (mask_for_bits s) r es) es bits AND mask_for_bits bits) k
      \<longleftrightarrow> k < bits \<and> bit (rotate_right_width (mask s) r es) (k mod es)"
    using assms by (subst bit_and_iff, subst bit_replicate_element) (auto simp: bit_rotate_right_width bit_simps)
  also have "\<dots> \<longleftrightarrow> k < bits \<and> (k mod es + r) mod es < s"
    using assms by (subst bit_rotate_right_width) (auto simp: bit_simps)
  finally show ?thesis by (simp add: mod_add_left_eq)
qed

lemma decode_logical_immediate_run:
  assumes "bits = 32 \<or> bits = 64" "n = 0 \<or> n = 1" "decode_logical_immediate n immr imms bits = Some v"
  obtains esize s r where "esize \<in> {2, 4, 8, 16, 32, 64}" "esize \<le> bits" "0 < s" "s < esize" "r < esize"
    "\<And>k. bit v k \<longleftrightarrow> k < bits \<and> (k + r) mod esize < s"
proof -
  define levels where "levels l = (shl 1 l - 1 :: u32)" for l
  define len where "len = nat (highest_set_bit (encoded_length n imms))"
  from assms(3) have len: "highest_set_bit (encoded_length n imms) = int len" "0 < len"
    and ne: "ucast imms AND levels len \<noteq> levels len" and le: "2 ^ len \<le> bits"
    and v: "v = replicate_element (rotate_right_width (mask_for_bits (unat (ucast imms AND levels len) + 1))
                 (unat (ucast immr AND levels len)) (2 ^ len)) (2 ^ len) bits AND mask_for_bits bits"
    by (auto simp: decode_logical_immediate_def Let_def len_def levels_def split: if_splits)
  note l6 = highest_set_bit_encoded[OF assms(2) len(1)]
  define s r where "s = unat (ucast imms AND levels len) + 1" and "r = unat (ucast immr AND levels len)"
  have s: "s = unat imms mod 2 ^ len + 1" and r: "r = unat immr mod 2 ^ len"
    using unat_and_levels by (auto simp: s_def r_def levels_def)
  have es: "(2::nat) ^ len \<in> {2, 4, 8, 16, 32, 64}" using l6 len(2) 
    by (auto simp: le_Suc_eq numeral_eq_Suc)
  have "unat (levels len) = 2 ^ len - 1"
    using l6(1) by (simp only: levels_def levels_eq) (rule unat_mask_word, simp)
  then have "s \<noteq> 2 ^ len" using ne by (auto simp: s_def word_unat_eq_iff)
  then have s2: "0 < s" "s < 2 ^ len" using s mod_less_divisor[of "2 ^ len" "unat imms"]
    by (auto simp del: mod_less_divisor)
  have dv: "2 ^ len dvd bits" using le assms(1) es by auto
  have "bit v k \<longleftrightarrow> k < bits \<and> (k + r) mod 2 ^ len < s" for k
    unfolding v s_def[symmetric] r_def[symmetric] using assms(1) dv es s2
    by (intro bit_logical_element) auto
  with that[of "2 ^ len" s r] es le s2 r show thesis by simp
qed

text \<open>
  The encoding of a run: the size of the element is written in unary above the run length
  in \<open>imms\<close>, with \<open>n\<close> as its seventh digit.
\<close>

definition run_imms :: "nat \<Rightarrow> nat \<Rightarrow> u8" where
  "run_imms len s = word_of_nat ((if len = 6 then 0 else 64 - 2 ^ (len + 1)) + (s - 1))"

lemma highest_set_bit_below_eqI:
  "l < m \<Longrightarrow> m \<le> 32 \<Longrightarrow> bit v l \<Longrightarrow> (\<And>k. l < k \<Longrightarrow> k < 32 \<Longrightarrow> \<not> bit v k) \<Longrightarrow> highest_set_bit_below v m = int l"
proof (induction m)
  case (Suc m)
  then show ?case
    by (cases "l = m") (auto simp: and_exp_eq_0_iff_not_bit push_bit_of_1)
qed simp

lemma bit_run_imms:
  assumes "t < 2 ^ len" "len \<in> {1, 2, 3, 4, 5, 6}" "k < 6"
  shows "unat (word_of_nat ((if len = 6 then 0 else 64 - 2 ^ (len + 1)) + t) :: u8) mod 2 ^ len = t"
    "len \<le> k \<Longrightarrow> bit (word_of_nat ((if len = 6 then 0 else 64 - 2 ^ (len + 1)) + t) :: u8) k \<longleftrightarrow> len < k"
proof -
  define v where "v = (if len = 6 then 0 else 64 - 2 ^ (len + 1)) + t"
  have "v < 2 ^ 8" using assms(1,2) by (auto simp: v_def)
  then have v: "unat (word_of_nat v :: u8) = v" by (simp add: unat_of_nat)
  have bv: "bit (word_of_nat v :: u8) k \<longleftrightarrow> odd (v div 2 ^ k)"
    using bit_unsigned_iff[of "word_of_nat v :: u8" k, where ?'a = nat] unfolding v
    by (auto simp: bit_iff_odd dest: bit_imp_le_length)
  define q where "q = (if len = 6 then 0 else 2 ^ (6 - len) - 2 :: nat)"
  have vq: "v = t + q * 2 ^ len" using assms(2) by (auto simp: v_def q_def)
  have "v mod 2 ^ len = t" unfolding vq mod_mult_self1 by (rule mod_less[OF assms(1)])
  then show "unat (word_of_nat ((if len = 6 then 0 else 64 - 2 ^ (len + 1)) + t) :: u8) mod 2 ^ len = t"
    unfolding v_def[symmetric] v .
  have vd: "v div 2 ^ len = q" using assms(1) unfolding vq by simp
  assume le: "len \<le> k"
  then have "v div 2 ^ k = q div 2 ^ (k - len)"
    by (simp add: div_mult2_eq[symmetric] flip: vd power_add)
  moreover have "k \<in> {0, 1, 2, 3, 4, 5}" using assms(3) by auto
  ultimately show "bit (word_of_nat ((if len = 6 then 0 else 64 - 2 ^ (len + 1)) + t) :: u8) k \<longleftrightarrow> len < k"
    unfolding v_def[symmetric] bv using assms(2) le unfolding q_def by auto
qed

lemma run_imms:
  assumes "0 < len" "len \<le> 6" "0 < s" "s < 2 ^ len"
  shows "highest_set_bit (encoded_length (if len = 6 then 1 else 0) (run_imms len s)) = int len"
    "unat (run_imms len s) mod 2 ^ len = s - 1"
proof -
  have l: "len \<in> {1, 2, 3, 4, 5, 6}" using assms by auto
  have t: "s - 1 < 2 ^ len" using assms by simp
  note b = bit_run_imms[OF t l, folded run_imms_def]
  show "unat (run_imms len s) mod 2 ^ len = s - 1" by (rule b(1)[of 0]) simp
  show "highest_set_bit (encoded_length (if len = 6 then 1 else 0) (run_imms len s)) = int len"
    unfolding highest_set_bit_def
    using b(2) assms(2) by (intro highest_set_bit_below_eqI) (auto simp: encoded_length_bits bit_1_iff)
qed

lemma decode_run_imms:
  assumes "bits = 32 \<or> bits = 64" "0 < len" "2 ^ len \<le> bits" "0 < s" "s < 2 ^ len" "r < 2 ^ len"
  shows "decode_logical_immediate (if len = 6 then 1 else 0) (word_of_nat r) (run_imms len s) bits =
    Some (replicate_element (rotate_right_width (mask_for_bits s) r (2 ^ len)) (2 ^ len) bits AND mask_for_bits bits)"
proof -
  have l6: "len \<le> 6" using assms(1,3) power_increasing_iff[of "2::nat" len 6] by auto
  then have e: "2 ^ len \<le> (64 :: nat)" using power_increasing[of len 6 "2::nat"] by simp
  have l5: "len \<noteq> 6" if "bits = 32" using that assms(3) by auto
  note ri = run_imms[OF assms(2) l6 assms(4,5)]
  have r: "unat (word_of_nat r :: u8) mod 2 ^ len = r"
    using assms(6) e by (simp add: unat_of_nat mod_less)
  have ne: "ucast (run_imms len s) AND (shl 1 len - 1) \<noteq> (shl 1 len - 1 :: u32)"
  proof
    assume "ucast (run_imms len s) AND (shl 1 len - 1) = (shl 1 len - 1 :: u32)"
    then have "s - 1 = unat (mask len :: u32)"
      using unat_and_levels[of "run_imms len s" len] ri by (simp only: levels_eq)
    then show False using unat_mask_word[of len, where ?'a = 32] l6 assms(4,5) by simp
  qed
  define n :: u8 where "n = (if len = 6 then 1 else 0)"
  have n: "\<not> (bits = 32 \<and> n \<noteq> 0)" using l5 by (simp add: n_def)
  have s1: "s - 1 + 1 = s" using assms(4) by simp
  have ri': "highest_set_bit (encoded_length n (run_imms len s)) = int len" "unat (run_imms len s) mod 2 ^ len = s - 1"
    using ri by (simp_all only: n_def)
  have l1: "\<not> int len < 1" "\<not> bits < 2 ^ len" using assms(2,3) by simp_all
  show ?thesis unfolding n_def[symmetric] decode_logical_immediate_def Let_def ri'(1) nat_int unat_and_levels
      if_not_P[OF n] if_not_P[OF l1(1)] if_not_P[OF l1(2)] if_not_P[OF ne] ri'(2) r s1 by (rule refl)
qed

lemma take_bit_diff_small:
  fixes A B :: u32
  assumes "len \<le> 6" "unat A < 2 ^ len" "unat B < 2 ^ len"
  shows "unat (take_bit len (A - B)) = (if unat B \<le> unat A then unat A - unat B else 2 ^ len + unat A - unat B)"
proof (cases "B \<le> A")
  case True
  then have "unat (A - B) = unat A - unat B" by (rule unat_sub)
  then show ?thesis using True assms
    by (simp add: unsigned_take_bit_eq take_bit_nat_eq_self word_le_nat_alt)
next
  case False
  then have lt: "unat A < unat B" by (simp add: word_le_nat_alt)
  have "unat B < 2 ^ 32" using unsigned_less[of B, where ?'a = nat] by simp
  then have "unat (A - B) = 2 ^ 32 - unat B + unat A" 
    using lt by (simp add: unat_sub_if')
  moreover have "(2::nat) ^ 32 = 2 ^ len * 2 ^ (32 - len)" using assms(1) by (simp flip: power_add)
  moreover obtain m where "(2::nat) ^ (32 - len) = Suc m" by (metis not0_implies_Suc power_not_zero zero_neq_numeral)
  ultimately have "unat (A - B) = (2 ^ len + unat A - unat B) + 2 ^ len * m"
    using assms lt by simp
  moreover have "2 ^ len + unat A - unat B < 2 ^ len" using lt assms by linarith
  ultimately show ?thesis using lt
    by (simp only: unsigned_take_bit_eq) (simp only: take_bit_eq_mod mod_mult_self2 mod_less not_le if_False
      iffD2[OF not_le])
qed

lemma decode_bitfield_masks_bits:
  assumes "bits = 32 \<or> bits = 64" "unat immr < bits" "unat imms < bits"
    "decode_bitfield_masks n immr imms bits = Some (wm, tm)"
  defines "S \<equiv> unat imms" and "R \<equiv> unat immr"
  shows "bit wm k \<longleftrightarrow> k < bits \<and> (k + R) mod bits \<le> S"
    "bit tm k \<longleftrightarrow> k < bits \<and> k \<le> (if R \<le> S then S - R else bits + S - R)"
proof -
  define levels where "levels l = (shl 1 l - 1 :: u32)" for l
  define len where "len = nat (highest_set_bit (encoded_length n imms))"
  define rt where "rt = (ucast imms AND levels len) - (ucast immr AND levels len)"
  have SR: "S < bits" "R < bits" using assms(2,3) by (simp_all add: S_def R_def)
  from assms(4) have n: "n = (if bits = 64 then 1 else 0)" using assms(1)
    by (auto simp: decode_bitfield_masks_def split: if_splits)
  from assms(4) have len: "highest_set_bit (encoded_length n imms) = int len" "0 < len" and le: "2 ^ len \<le> bits"
    and wm: "wm = replicate_element (rotate_right_width (mask_for_bits (unat ((ucast imms AND levels len) + 1)))
                 (unat (ucast immr AND levels len)) (2 ^ len)) (2 ^ len) bits AND mask_for_bits bits"
    and tm: "tm = replicate_element (mask_for_bits (unat ((rt AND levels len) + 1))) (2 ^ len) bits AND mask_for_bits bits"
    by (auto simp: decode_bitfield_masks_def Let_def len_def levels_def rt_def split: if_splits)
  have b: "bit (encoded_length n imms) len" "\<forall>k. len < k \<and> k < 32 \<longrightarrow> \<not> bit (encoded_length n imms) k"
    using highest_set_bit_below_cases[of 32 "encoded_length n imms"] len(1) by (auto simp: highest_set_bit_def)
  have es: "2 ^ len = bits"
  proof (cases "bits = 64")
    case True
    then show ?thesis using highest_set_bit_encoded[OF _ len(1)] n by simp
  next
    case False
    then have "bits = 32" "n = 0" using assms(1) n by auto
    then have "\<not> bit imms 5" using SR(1) bit_imp_exp_le[of imms 5] by (auto simp: S_def)
    then have "bit (encoded_length n imms) 5" by (simp add: encoded_length_bits)
    then have "5 \<le> len" using b(2) by (metis not_le numeral_less_iff semiring_norm(76,78,81))
    moreover have "len < 6" using b(1) \<open>n = 0\<close> by (auto simp: encoded_length_bits)
    ultimately have "len = 5" by simp
    then show ?thesis using \<open>bits = 32\<close> by simp
  qed
  have lv: "unat (ucast (x :: u8) AND levels len) = unat x" if "unat x < bits" for x
    using that unat_and_levels[of x len] by (simp add: levels_def es)
  have lv': "unat (take_bit len (ucast (x :: u8) :: u32)) = unat x" if "unat x < bits" for x
    using lv[OF that] by (simp only: levels_def[of len, unfolded levels_eq] take_bit_eq_mask)
  have S1: "unat ((ucast imms AND levels len) + 1) = S + 1"
    using lv[OF assms(3)] SR assms(1) by (auto simp: unat_word_ariths S_def)
  have "len \<le> 6" using es assms(1) power_increasing_iff[of "2::nat" len 6] by auto
  then have "unat (rt AND levels len) = (if R \<le> S then S - R else bits + S - R)"
    using take_bit_diff_small[of len "ucast imms AND levels len" "ucast immr AND levels len"] SR
    unfolding rt_def by (simp only: levels_def[of len, unfolded levels_eq] take_bit_eq_mask[symmetric])
      (simp add: lv'[OF assms(2)] lv'[OF assms(3)] es S_def R_def)
  then have T1: "unat ((rt AND levels len) + 1) = (if R \<le> S then S - R else bits + S - R) + 1"
    using SR assms(1) by (auto simp: unat_word_ariths)
  have bb: "0 < bits" "bits \<le> 64" using assms(1) by auto
  have "(k + unat immr) mod bits < 64" using bb by (meson mod_less_divisor less_le_trans)
  then show "bit wm k \<longleftrightarrow> k < bits \<and> (k + R) mod bits \<le> S"
    unfolding wm S1 lv[OF assms(2)] es R_def using bb
    by (subst bit_and_iff, subst bit_replicate_element) (auto simp: bit_rotate_right_width bit_simps)
  show "bit tm k \<longleftrightarrow> k < bits \<and> k \<le> (if R \<le> S then S - R else bits + S - R)"
    unfolding tm T1 es using bb SR 
    by (subst bit_and_iff, subst bit_replicate_element) (auto simp: bit_simps split: if_splits)
qed

lemma bitfield_region:
  fixes k R S b :: nat
  assumes "R < b" "S < b"
  shows "(k < b \<and> (k + R) mod b \<le> S) \<and> (k < b \<and> k \<le> (if R \<le> S then S - R else b + S - R)) \<longleftrightarrow>
     (if R \<le> S then k \<le> S - R else b - R \<le> k \<and> k < b - R + (S + 1))"
proof -
  have "(k + R) mod b = (if k + R < b then k + R else k + R - b)" if "k < b"
    using that assms by (auto simp: mod_if)
  then show ?thesis using assms
    by (cases "k < b"; cases "k + R < b"; cases "R \<le> S") (simp_all, linarith+)
qed

lemma bitfield_masks_insert:
  assumes b: "bits = 32 \<or> bits = 64" "unat immr < bits" "unat imms < bits"
    and d: "decode_bitfield_masks n immr imms bits = Some (wm, tm)"
    and s: "take_bit bits source = source"
  shows "rotate_right_width source (unat immr) bits AND wm AND tm = fst (bitfield_insert source immr imms bits)
    \<and> wm AND tm = snd (bitfield_insert source immr imms bits)"
proof -
  define S R where "S = unat imms" and "R = unat immr"
  note m = decode_bitfield_masks_bits[OF b d, folded S_def R_def]
  have SR: "S < bits" "R < bits" "0 < bits" "bits \<le> 64" using b by (auto simp: S_def R_def)
  have src: "bit source k \<Longrightarrow> k < bits" for k using s by (metis bit_take_bit_iff)
  have both: "bit (wm AND tm) k \<longleftrightarrow> (if R \<le> S then k \<le> S - R else bits - R \<le> k \<and> k < bits - R + (S + 1))" for k
    using bitfield_region[OF SR(2,1), of k] by (simp only: bit_and_iff m)
  have "wm AND tm = snd (bitfield_insert source immr imms bits)"
    using SR by (intro bit_word_eqI, unfold both)
      (auto simp: bitfield_insert_def Let_def bit_simps S_def[symmetric] R_def[symmetric])
  moreover have "rotate_right_width source R bits AND (wm AND tm) = fst (bitfield_insert source immr imms bits)"
  proof (rule bit_word_eqI)
    fix k
    have md: "(k + R) mod bits = (if k + R < bits then k + R else k + R - bits)" if "k < bits"
      using that SR by (auto simp: mod_if)
    note lhs = bit_and_iff[of "rotate_right_width source R bits" "wm AND tm" k]
      bit_rotate_right_width[OF SR(3,4), of source R k] both[of k]
    have msk: "bit (mask m :: u64) j \<longleftrightarrow> j < 64 \<and> j < m" for m j by (auto simp: bit_mask_iff)
    show "bit (rotate_right_width source R bits AND (wm AND tm)) k
        = bit (fst (bitfield_insert source immr imms bits)) k"
    proof (cases "R \<le> S")
      case True
      then have "fst (bitfield_insert source immr imms bits) = shr source R AND mask (S - R + 1)"
        by (simp add: bitfield_insert_def Let_def S_def R_def)
      then have rhs: "bit (fst (bitfield_insert source immr imms bits)) k \<longleftrightarrow> bit source (R + k) \<and> k < 64 \<and> k < S - R + 1"
        by (simp only: bit_and_iff bit_drop_bit_eq msk o_apply)
      show ?thesis
      proof (cases "k \<le> S - R")
        case r: True
        then have "k < bits" "k + R < bits" using SR True by auto
        then show ?thesis using md r True SR unfolding lhs rhs by (simp add: add.commute)
      next
        case False
        then show ?thesis using True unfolding lhs rhs by simp
      qed
    next
      case False
      then have "fst (bitfield_insert source immr imms bits) = shl (source AND mask (S + 1)) (bits - R) AND mask bits"
        by (simp add: bitfield_insert_def Let_def S_def R_def)
      then have rhs: "bit (fst (bitfield_insert source immr imms bits)) k \<longleftrightarrow>
          k < bits \<and> k < 64 \<and> bits - R \<le> k \<and> bit source (k - (bits - R)) \<and> k - (bits - R) < S + 1"
        by (auto simp: bit_simps msk dest: bit_imp_le_length)
      show ?thesis
      proof (cases "bits - R \<le> k \<and> k < bits - R + (S + 1)")
        case r: True
        then have "k < bits" "\<not> k + R < bits" "k + R - bits = k - (bits - R)" using SR False by auto
        then show ?thesis using md r False SR unfolding lhs rhs by auto
      next
        case n: False
        then show ?thesis using False unfolding lhs rhs by auto
      qed
    qed
  qed
  ultimately show ?thesis by (simp add: and.assoc R_def)
qed

subsection \<open>The counting loops\<close>

lemma bit_test: "shr (v :: u64) b AND 1 \<noteq> 0 \<longleftrightarrow> bit v b"
  using flag_bit[of v b] by (simp add: flag_def fld_def)

lemma clz_loop_spec:
  "\<exists>c. clz_loop v b n = n + c \<and> c \<le> b \<and> (\<forall>k. b - c \<le> k \<and> k < b \<longrightarrow> \<not> bit v k) \<and> (c < b \<longrightarrow> bit v (b - 1 - c))"
proof (induction b arbitrary: n)
  case (Suc b)
  show ?case
  proof (cases "bit v b")
    case True
    then show ?thesis by (intro exI[of _ 0]) (auto simp: bit_test)
  next
    case False
    obtain c where "clz_loop v b (Suc n) = Suc n + c" "c \<le> b"
      "\<forall>k. b - c \<le> k \<and> k < b \<longrightarrow> \<not> bit v k" "c < b \<longrightarrow> bit v (b - 1 - c)"
      using Suc.IH[of "Suc n"] by blast
    then show ?thesis using False
      by (intro exI[of _ "Suc c"]) (auto simp: bit_test less_Suc_eq)
  qed
qed simp

lemma cls_loop_spec:
  "\<exists>c. cls_loop v s b n = n + c \<and> c \<le> b \<and> (\<forall>k. b - c \<le> k \<and> k < b \<longrightarrow> shr v k AND 1 = s)
     \<and> (c < b \<longrightarrow> shr v (b - 1 - c) AND 1 \<noteq> s)"
proof -
  define P where "P k = (shr v k AND 1 = s)" for k
  have step: "cls_loop v s (Suc b) n = (if P b then cls_loop v s b (Suc n) else n)" for b n
    by (simp add: P_def)
  have "\<exists>c. cls_loop v s b n = n + c \<and> c \<le> b \<and> (\<forall>k. b - c \<le> k \<and> k < b \<longrightarrow> P k) \<and> (c < b \<longrightarrow> \<not> P (b - 1 - c))"
  proof (induction b arbitrary: n)
    case (Suc b)
    show ?case
    proof (cases "P b")
      case False
      then show ?thesis unfolding step by (intro exI[of _ 0]) auto
    next
      case True
      obtain c where "cls_loop v s b (Suc n) = Suc n + c" "c \<le> b"
        "\<forall>k. b - c \<le> k \<and> k < b \<longrightarrow> P k" "c < b \<longrightarrow> \<not> P (b - 1 - c)"
        using Suc.IH[of "Suc n"] by blast
      then show ?thesis using True unfolding step
        by (intro exI[of _ "Suc c"]) (auto simp: less_Suc_eq)
    qed
  qed simp
  then show ?thesis by (simp only: P_def)
qed

lemma and1_eq: "(shr (v :: u64) j AND 1 = shr v k AND 1) \<longleftrightarrow> (bit v j = bit v k)"
  by (simp add: and_one_eq mod2_eq_if even_drop_bit_iff_not_bit)

subsection \<open>Properties\<close>

text \<open>
  C33: the immediates of the logical instructions are exactly the bit patterns the
  architecture promises. A 32 or 64 bit value is produced by some encoding
  \<open>(N, immr, imms)\<close> precisely when it repeats an element of 2, 4, 8, 16, 32 or 64 bits
  which is a non-empty, non-full run of ones rotated right by less than its size; every
  other encoding is rejected.
\<close>

theorem logical_immediates_are_rotated_runs:
  assumes "bits = 32 \<or> bits = 64"
  shows "(\<exists>n immr imms. (n = 0 \<or> n = 1) \<and> decode_logical_immediate n immr imms bits = Some v) \<longleftrightarrow>
    (\<exists>esize s r. esize \<in> {2, 4, 8, 16, 32, 64} \<and> esize \<le> bits \<and> 0 < s \<and> s < esize \<and> r < esize \<and>
       (\<forall>k. bit v k = (k < bits \<and> (k + r) mod esize < s)))"
proof
  assume "\<exists>n immr imms. (n = 0 \<or> n = 1) \<and> decode_logical_immediate n immr imms bits = Some v"
  then show "\<exists>esize s r. esize \<in> {2, 4, 8, 16, 32, 64} \<and> esize \<le> bits \<and> 0 < s \<and> s < esize \<and> r < esize \<and>
       (\<forall>k. bit v k = (k < bits \<and> (k + r) mod esize < s))"
    by (metis decode_logical_immediate_run[OF assms])
next
  assume "\<exists>esize s r. esize \<in> {2, 4, 8, 16, 32, 64} \<and> esize \<le> bits \<and> 0 < s \<and> s < esize \<and> r < esize \<and>
       (\<forall>k. bit v k = (k < bits \<and> (k + r) mod esize < s))"
  then obtain esize s r where e: "esize \<in> {2, 4, 8, 16, 32, 64}" "esize \<le> bits"
    and s: "0 < s" "s < esize" "r < esize" and v: "\<And>k. bit v k = (k < bits \<and> (k + r) mod esize < s)" by blast
  have "\<exists>len. 0 < len \<and> esize = 2 ^ len"
    using e(1) by (auto intro: exI[of _ 1] exI[of _ 2] exI[of _ 3] exI[of _ 4] exI[of _ 5] exI[of _ 6])
  then obtain len where len: "0 < len" "esize = 2 ^ len" by blast
  have "esize dvd bits" using e assms by auto
  then have "v = replicate_element (rotate_right_width (mask_for_bits s) r (2 ^ len)) (2 ^ len) bits AND mask_for_bits bits"
  proof (intro bit_word_eqI)
    fix k
    have le: "0 < esize" "esize \<le> 64" "bits \<le> 64" "s \<le> esize" using e(2) s assms by auto
    show "bit v k = bit (replicate_element (rotate_right_width (mask_for_bits s) r (2 ^ len)) (2 ^ len) bits AND mask_for_bits bits) k"
      using bit_logical_element[OF le(1,2) \<open>esize dvd bits\<close> le(3,4), of r k] unfolding len(2)
      by (simp only: v[unfolded len(2)])
  qed
  then have "decode_logical_immediate (if len = 6 then 1 else 0) (word_of_nat r) (run_imms len s) bits = Some v"
    using decode_run_imms[OF assms len(1), of s r] e(2) s unfolding len(2) by simp
  then show "\<exists>n immr imms. (n = 0 \<or> n = 1) \<and> decode_logical_immediate n immr imms bits = Some v"
    by (intro exI conjI) (auto split: if_splits)
qed

theorem logical_immediates_are_rotated_runs_witness:
  "\<exists>esize s r. esize \<in> {2, 4, 8, 16, 32, 64} \<and> esize \<le> 32 \<and> 0 < s \<and> s < esize \<and> r < esize \<and>
     (\<forall>k. bit (0x00ff00ff :: u64) k = (k < 32 \<and> (k + r) mod esize < s))"
proof -
  have "decode_logical_immediate 0 0 0x27 32 = Some 0x00ff00ff" by code_simp
  then show ?thesis using logical_immediates_are_rotated_runs[of 32 "0x00ff00ff"] by blast
qed

text \<open>
  C35: \<open>CLZ\<close> and \<open>CLS\<close> count what their names say. At width \<open>n\<close> the first is the number of
  zeros above the highest set bit, the second the number of bits below the sign bit that
  repeat it before the first one that differs.
\<close>

theorem leading_counts_correct:
  fixes v :: u64
  assumes "0 < n" "n \<le> 64"
  defines "c \<equiv> count_leading_zeros_width v n" and "s \<equiv> count_leading_sign_bits_width v n"
  shows "c \<le> n \<and> (\<forall>k. n - c \<le> k \<and> k < n \<longrightarrow> \<not> bit v k) \<and> (c < n \<longrightarrow> bit v (n - 1 - c)) \<and>
    s < n \<and> (\<forall>k. n - 1 - s \<le> k \<and> k < n \<longrightarrow> bit v k = bit v (n - 1)) \<and>
    (s < n - 1 \<longrightarrow> bit v (n - 2 - s) \<noteq> bit v (n - 1))"
proof -
  define w where "w = v AND mask_for_bits n"
  have m: "bit w k \<longleftrightarrow> k < n \<and> bit v k" for k
    using assms(2) by (auto simp: w_def bit_simps dest: bit_imp_le_length)
  obtain c' where "c = c'" "c' \<le> n" "\<forall>k. n - c' \<le> k \<and> k < n \<longrightarrow> \<not> bit w k"
    "c' < n \<longrightarrow> bit w (n - 1 - c')"
    using clz_loop_spec[of w n 0] assms(2)
    by (auto simp: c_def count_leading_zeros_width_def w_def)
  then have c: "c \<le> n \<and> (\<forall>k. n - c \<le> k \<and> k < n \<longrightarrow> \<not> bit v k) \<and> (c < n \<longrightarrow> bit v (n - 1 - c))"
    by (auto simp: m)
  have "s = cls_loop w (shr w (n - 1) AND 1) (n - 1) 0"
    using assms(1,2) by (simp add: s_def count_leading_sign_bits_width_def w_def Let_def)
  then obtain s' where s: "s = s'" "s' \<le> n - 1"
    "\<forall>k. n - 1 - s' \<le> k \<and> k < n - 1 \<longrightarrow> bit w k = bit w (n - 1)"
    "s' < n - 1 \<longrightarrow> bit w (n - 1 - 1 - s') \<noteq> bit w (n - 1)"
    using cls_loop_spec[of w "shr w (n - 1) AND 1" "n - 1" 0] unfolding and1_eq by auto
  have k: "k < n \<longleftrightarrow> k < n - 1 \<or> k = n - 1" for k using assms(1) by auto
  have n2: "n - 1 - 1 - s = n - 2 - s" "n - 2 - s < n" "n - 1 < n" using assms(1) by auto
  have "s < n \<and> (\<forall>k. n - 1 - s \<le> k \<and> k < n \<longrightarrow> bit v k = bit v (n - 1)) \<and>
    (s < n - 1 \<longrightarrow> bit v (n - 2 - s) \<noteq> bit v (n - 1))"
    using s assms(1) n2 unfolding m s(1)[symmetric] k by auto
  with c show ?thesis by blast
qed

theorem leading_counts_correct_witness:
  "count_leading_zeros_width 0x00ff 16 = 8 \<and> \<not> bit (0x00ff :: u64) 8"
proof -
  have c: "count_leading_zeros_width 0x00ff 16 = 8" by code_simp
  show ?thesis using leading_counts_correct[of 16 "0x00ff"] unfolding c by simp
qed

text \<open>
  C34: addition with carry and its flags. For operands of 32 or 64 bits the result is the sum
  modulo \<open>2 ^ n\<close>, and N, Z, C and V say that the result reads negative, is zero, wrapped as
  an unsigned sum, and differs from the sum of the signed readings.
\<close>

theorem add_with_carry_correct:
  assumes "n = 32 \<or> n = 64" "unat a < 2 ^ n" "unat b < 2 ^ n"
    "add_with_carry_nzcv a b c n = (flags, result)"
  shows "unat result = (unat a + unat b + of_bool c) mod 2 ^ n \<and>
    (bit flags 31 \<longleftrightarrow> sread n result < 0) \<and> (bit flags 30 \<longleftrightarrow> result = 0) \<and>
    (bit flags 29 \<longleftrightarrow> unat a + unat b + of_bool c \<noteq> unat result) \<and>
    (bit flags 28 \<longleftrightarrow> sread n a + sread n b + of_bool c \<noteq> sread n result) \<and>
    (\<forall>k. bit flags k \<longrightarrow> k \<in> {28, 29, 30, 31})"
  using awc_flags[OF assms] awc_flag_bits[OF assms(4,1)] by blast

theorem add_with_carry_correct_witness:
  "add_with_carry_nzcv 0x7fffffff 1 False 32 = (0x90000000, 0x80000000) \<and>
   sread 32 0x7fffffff + sread 32 1 + of_bool False \<noteq> sread 32 0x80000000"
proof -
  have e: "add_with_carry_nzcv 0x7fffffff 1 False 32 = (0x90000000, 0x80000000)" by code_simp
  have "bit (0x90000000 :: u64) 28" by simp
  then show ?thesis using add_with_carry_correct[OF _ _ _ e] e by simp
qed

text \<open>
  C36: the two implementations of the bitfield moves agree. Where the decoder's masks
  \<open>wmask\<close> and \<open>tmask\<close> exist, \<open>ROR(source, immr) AND wmask AND tmask\<close> is the field that
  \<open>bitfield_insert\<close> extracts or positions, and \<open>wmask AND tmask\<close> is the mask of the bits it
  writes.
\<close>

theorem bitfield_masks_agree_with_insert:
  assumes "bits = 32 \<or> bits = 64" "unat immr < bits" "unat imms < bits"
    "decode_bitfield_masks n immr imms bits = Some (wm, tm)" "take_bit bits source = source"
  shows "rotate_right_width source (unat immr) bits AND wm AND tm = fst (bitfield_insert source immr imms bits)
    \<and> wm AND tm = snd (bitfield_insert source immr imms bits)"
  by (rule bitfield_masks_insert[OF assms])

theorem bitfield_masks_agree_with_insert_witness:
  "decode_bitfield_masks 0 8 15 32 = Some (0xff0000ff, 0xff) \<and>
   rotate_right_width 0x1234 8 32 AND 0xff0000ff AND 0xff = fst (bitfield_insert 0x1234 8 15 32)"
proof -
  have e: "decode_bitfield_masks 0 8 15 32 = Some (0xff0000ff, 0xff)" by code_simp
  have s: "take_bit 32 (0x1234 :: u64) = 0x1234" by code_simp
  show ?thesis using bitfield_masks_agree_with_insert[OF _ _ _ e s] e by simp
qed

end
