(* ===== verification/Cpu.thy ===== *)
theory Cpu
  imports Bits
begin

text \<open>
  The processor state and the decoded instruction of
  \<open>Sources/ARM64VizNative/include/ARM64VizNative.h\<close>, and the register and vector element
  accessors at the top of \<open>ARM64VizNative.c\<close>. The C arrays \<open>x[31]\<close> and \<open>v[32]\<close> are
  functions on indices; the decoder's invariants (theory \<open>Decode\<close>) show that no index out
  of range is ever used.
\<close>

subsection \<open>State\<close>

record vreg =
  v_low :: u64
  v_high :: u64

record cpu =
  c_x :: "nat \<Rightarrow> u64"
  c_v :: "nat \<Rightarrow> vreg"
  c_sp :: u64
  c_pc :: u64
  c_pstate :: u64
  c_fpcr :: u64
  c_fpsr :: u64
  c_exclusive_address :: u64
  c_exclusive_generation :: u64
  c_exclusive_size :: u8
  c_exclusive_valid :: u8
  c_halted :: u8

text \<open>
  \<open>AVZNativeInstruction\<close>. The field names of the code carry a prefix: \<open>c_\<close> in
  \<open>AVZNativeCPU\<close>, \<open>v_\<close> in a vector register, \<open>i_\<close> in an instruction.
\<close>

record instr =
  i_raw :: u32
  i_kind :: u16
  i_rd :: u8
  i_rn :: u8
  i_rm :: u8
  i_rt :: u8
  i_width :: u8
  i_bits :: u8
  i_flags :: u8
  i_condition :: u8
  i_shift_type :: u8
  i_shift_amount :: u8
  i_immediate :: u64
  i_immediate2 :: u64

subsection \<open>Instruction kinds\<close>

abbreviation AVZ_NATIVE_OP_NOP :: u16 where "AVZ_NATIVE_OP_NOP \<equiv> 1"
abbreviation AVZ_NATIVE_OP_HALT :: u16 where "AVZ_NATIVE_OP_HALT \<equiv> 2"
abbreviation AVZ_NATIVE_OP_ADR :: u16 where "AVZ_NATIVE_OP_ADR \<equiv> 3"
abbreviation AVZ_NATIVE_OP_CBZ :: u16 where "AVZ_NATIVE_OP_CBZ \<equiv> 4"
abbreviation AVZ_NATIVE_OP_TBZ :: u16 where "AVZ_NATIVE_OP_TBZ \<equiv> 5"
abbreviation AVZ_NATIVE_OP_BCOND :: u16 where "AVZ_NATIVE_OP_BCOND \<equiv> 6"
abbreviation AVZ_NATIVE_OP_ADD_SUB_IMMEDIATE :: u16 where "AVZ_NATIVE_OP_ADD_SUB_IMMEDIATE \<equiv> 7"
abbreviation AVZ_NATIVE_OP_MOVE_WIDE :: u16 where "AVZ_NATIVE_OP_MOVE_WIDE \<equiv> 8"
abbreviation AVZ_NATIVE_OP_ADD_SUB_SHIFTED_REGISTER :: u16 where "AVZ_NATIVE_OP_ADD_SUB_SHIFTED_REGISTER \<equiv> 9"
abbreviation AVZ_NATIVE_OP_BRANCH :: u16 where "AVZ_NATIVE_OP_BRANCH \<equiv> 10"
abbreviation AVZ_NATIVE_OP_LOAD_STORE_UNSIGNED_IMMEDIATE :: u16 where "AVZ_NATIVE_OP_LOAD_STORE_UNSIGNED_IMMEDIATE \<equiv> 11"
abbreviation AVZ_NATIVE_OP_LOAD_STORE_SIGNED_IMMEDIATE :: u16 where "AVZ_NATIVE_OP_LOAD_STORE_SIGNED_IMMEDIATE \<equiv> 12"
abbreviation AVZ_NATIVE_OP_LOAD_STORE_REGISTER_OFFSET :: u16 where "AVZ_NATIVE_OP_LOAD_STORE_REGISTER_OFFSET \<equiv> 13"
abbreviation AVZ_NATIVE_OP_LOAD_STORE_PAIR :: u16 where "AVZ_NATIVE_OP_LOAD_STORE_PAIR \<equiv> 14"
abbreviation AVZ_NATIVE_OP_LOGICAL_SHIFTED_REGISTER :: u16 where "AVZ_NATIVE_OP_LOGICAL_SHIFTED_REGISTER \<equiv> 15"
abbreviation AVZ_NATIVE_OP_LOGICAL_IMMEDIATE :: u16 where "AVZ_NATIVE_OP_LOGICAL_IMMEDIATE \<equiv> 16"
abbreviation AVZ_NATIVE_OP_REGISTER_BRANCH :: u16 where "AVZ_NATIVE_OP_REGISTER_BRANCH \<equiv> 17"
abbreviation AVZ_NATIVE_OP_CONDITIONAL_SELECT :: u16 where "AVZ_NATIVE_OP_CONDITIONAL_SELECT \<equiv> 18"
abbreviation AVZ_NATIVE_OP_BITFIELD_MOVE :: u16 where "AVZ_NATIVE_OP_BITFIELD_MOVE \<equiv> 19"
abbreviation AVZ_NATIVE_OP_DATA_PROCESSING_ONE_SOURCE :: u16 where "AVZ_NATIVE_OP_DATA_PROCESSING_ONE_SOURCE \<equiv> 20"
abbreviation AVZ_NATIVE_OP_DATA_PROCESSING_TWO_SOURCE :: u16 where "AVZ_NATIVE_OP_DATA_PROCESSING_TWO_SOURCE \<equiv> 21"
abbreviation AVZ_NATIVE_OP_LOAD_LITERAL :: u16 where "AVZ_NATIVE_OP_LOAD_LITERAL \<equiv> 22"
abbreviation AVZ_NATIVE_OP_CONDITIONAL_COMPARE_REGISTER :: u16 where "AVZ_NATIVE_OP_CONDITIONAL_COMPARE_REGISTER \<equiv> 23"
abbreviation AVZ_NATIVE_OP_CONDITIONAL_COMPARE_IMMEDIATE :: u16 where "AVZ_NATIVE_OP_CONDITIONAL_COMPARE_IMMEDIATE \<equiv> 24"
abbreviation AVZ_NATIVE_OP_ADD_SUB_EXTENDED_REGISTER :: u16 where "AVZ_NATIVE_OP_ADD_SUB_EXTENDED_REGISTER \<equiv> 25"
abbreviation AVZ_NATIVE_OP_MULTIPLY_ADD_SUBTRACT :: u16 where "AVZ_NATIVE_OP_MULTIPLY_ADD_SUBTRACT \<equiv> 26"
abbreviation AVZ_NATIVE_OP_SIGNED_MULTIPLY_LONG_ADD_SUBTRACT :: u16 where "AVZ_NATIVE_OP_SIGNED_MULTIPLY_LONG_ADD_SUBTRACT \<equiv> 27"
abbreviation AVZ_NATIVE_OP_UNSIGNED_MULTIPLY_LONG_ADD_SUBTRACT :: u16 where "AVZ_NATIVE_OP_UNSIGNED_MULTIPLY_LONG_ADD_SUBTRACT \<equiv> 28"
abbreviation AVZ_NATIVE_OP_LOAD_ACQUIRE_STORE_RELEASE :: u16 where "AVZ_NATIVE_OP_LOAD_ACQUIRE_STORE_RELEASE \<equiv> 29"
abbreviation AVZ_NATIVE_OP_ADD_SUB_CARRY :: u16 where "AVZ_NATIVE_OP_ADD_SUB_CARRY \<equiv> 30"
abbreviation AVZ_NATIVE_OP_EXTRACT_REGISTER :: u16 where "AVZ_NATIVE_OP_EXTRACT_REGISTER \<equiv> 31"
abbreviation AVZ_NATIVE_OP_SIGNED_MULTIPLY_HIGH :: u16 where "AVZ_NATIVE_OP_SIGNED_MULTIPLY_HIGH \<equiv> 32"
abbreviation AVZ_NATIVE_OP_UNSIGNED_MULTIPLY_HIGH :: u16 where "AVZ_NATIVE_OP_UNSIGNED_MULTIPLY_HIGH \<equiv> 33"
abbreviation AVZ_NATIVE_OP_SIMD_MOVE_VECTOR_ELEMENT_TO_GENERAL :: u16 where "AVZ_NATIVE_OP_SIMD_MOVE_VECTOR_ELEMENT_TO_GENERAL \<equiv> 34"
abbreviation AVZ_NATIVE_OP_FP_SCALAR_GENERAL_MOVE :: u16 where "AVZ_NATIVE_OP_FP_SCALAR_GENERAL_MOVE \<equiv> 35"
abbreviation AVZ_NATIVE_OP_FP_SCALAR_REGISTER_MOVE :: u16 where "AVZ_NATIVE_OP_FP_SCALAR_REGISTER_MOVE \<equiv> 36"
abbreviation AVZ_NATIVE_OP_SIMD_SCALAR_SIGNED_INTEGER_TO_FP :: u16 where "AVZ_NATIVE_OP_SIMD_SCALAR_SIGNED_INTEGER_TO_FP \<equiv> 37"
abbreviation AVZ_NATIVE_OP_SIMD_INSERT_GENERAL_TO_ELEMENT :: u16 where "AVZ_NATIVE_OP_SIMD_INSERT_GENERAL_TO_ELEMENT \<equiv> 38"
abbreviation AVZ_NATIVE_OP_SIMD_SIGNED_SHIFT_LONG_S_TO_D :: u16 where "AVZ_NATIVE_OP_SIMD_SIGNED_SHIFT_LONG_S_TO_D \<equiv> 39"
abbreviation AVZ_NATIVE_OP_SIMD_ADD_VECTOR :: u16 where "AVZ_NATIVE_OP_SIMD_ADD_VECTOR \<equiv> 40"
abbreviation AVZ_NATIVE_OP_SIMD_DUPLICATE_GENERAL :: u16 where "AVZ_NATIVE_OP_SIMD_DUPLICATE_GENERAL \<equiv> 41"
abbreviation AVZ_NATIVE_OP_SIMD_MOVI_ZERO :: u16 where "AVZ_NATIVE_OP_SIMD_MOVI_ZERO \<equiv> 42"
abbreviation AVZ_NATIVE_OP_SIMD_MOVI_BYTE :: u16 where "AVZ_NATIVE_OP_SIMD_MOVI_BYTE \<equiv> 43"
abbreviation AVZ_NATIVE_OP_SIMD_MVNI_IMMEDIATE :: u16 where "AVZ_NATIVE_OP_SIMD_MVNI_IMMEDIATE \<equiv> 44"
abbreviation AVZ_NATIVE_OP_SIMD_MOVI_D_IMMEDIATE :: u16 where "AVZ_NATIVE_OP_SIMD_MOVI_D_IMMEDIATE \<equiv> 45"
abbreviation AVZ_NATIVE_OP_SIMD_TABLE_LOOKUP :: u16 where "AVZ_NATIVE_OP_SIMD_TABLE_LOOKUP \<equiv> 46"
abbreviation AVZ_NATIVE_OP_SIMD_PERMUTE_TWO_VECTOR :: u16 where "AVZ_NATIVE_OP_SIMD_PERMUTE_TWO_VECTOR \<equiv> 47"
abbreviation AVZ_NATIVE_OP_LOAD_STORE_EXCLUSIVE :: u16 where "AVZ_NATIVE_OP_LOAD_STORE_EXCLUSIVE \<equiv> 48"
abbreviation AVZ_NATIVE_OP_LOAD_STORE_EXCLUSIVE_PAIR :: u16 where "AVZ_NATIVE_OP_LOAD_STORE_EXCLUSIVE_PAIR \<equiv> 49"
abbreviation AVZ_NATIVE_OP_SIMD_FP_LOAD_STORE_IMMEDIATE :: u16 where "AVZ_NATIVE_OP_SIMD_FP_LOAD_STORE_IMMEDIATE \<equiv> 50"
abbreviation AVZ_NATIVE_OP_SIMD_FP_LOAD_STORE_PAIR :: u16 where "AVZ_NATIVE_OP_SIMD_FP_LOAD_STORE_PAIR \<equiv> 51"
abbreviation AVZ_NATIVE_OP_FP_INTEGER_TO_SCALAR_FP :: u16 where "AVZ_NATIVE_OP_FP_INTEGER_TO_SCALAR_FP \<equiv> 52"
abbreviation AVZ_NATIVE_OP_FP_SCALAR_ARITHMETIC :: u16 where "AVZ_NATIVE_OP_FP_SCALAR_ARITHMETIC \<equiv> 53"
abbreviation AVZ_NATIVE_OP_FP_SCALAR_CONDITIONAL_SELECT :: u16 where "AVZ_NATIVE_OP_FP_SCALAR_CONDITIONAL_SELECT \<equiv> 54"
abbreviation AVZ_NATIVE_OP_FP_SCALAR_COMPARE :: u16 where "AVZ_NATIVE_OP_FP_SCALAR_COMPARE \<equiv> 55"
abbreviation AVZ_NATIVE_OP_FP_SCALAR_CONVERT_TO_INTEGER :: u16 where "AVZ_NATIVE_OP_FP_SCALAR_CONVERT_TO_INTEGER \<equiv> 56"
abbreviation AVZ_NATIVE_OP_SIMD_COMPARE_EQUAL_VECTOR :: u16 where "AVZ_NATIVE_OP_SIMD_COMPARE_EQUAL_VECTOR \<equiv> 57"
abbreviation AVZ_NATIVE_OP_SIMD_COUNT_SET_BITS :: u16 where "AVZ_NATIVE_OP_SIMD_COUNT_SET_BITS \<equiv> 58"
abbreviation AVZ_NATIVE_OP_SIMD_ORR_VECTOR :: u16 where "AVZ_NATIVE_OP_SIMD_ORR_VECTOR \<equiv> 59"
abbreviation AVZ_NATIVE_OP_FP_SCALAR_IMMEDIATE_MOVE :: u16 where "AVZ_NATIVE_OP_FP_SCALAR_IMMEDIATE_MOVE \<equiv> 60"
abbreviation AVZ_NATIVE_OP_SIMD_UNSIGNED_MAX_PAIRWISE :: u16 where "AVZ_NATIVE_OP_SIMD_UNSIGNED_MAX_PAIRWISE \<equiv> 61"
abbreviation AVZ_NATIVE_OP_SIMD_MOVI_WORD_IMMEDIATE :: u16 where "AVZ_NATIVE_OP_SIMD_MOVI_WORD_IMMEDIATE \<equiv> 62"
abbreviation AVZ_NATIVE_OP_SIMD_FP_LOAD_STORE_REGISTER_OFFSET :: u16 where "AVZ_NATIVE_OP_SIMD_FP_LOAD_STORE_REGISTER_OFFSET \<equiv> 63"
abbreviation AVZ_NATIVE_OP_FP_SCALAR_CONVERT_PRECISION :: u16 where "AVZ_NATIVE_OP_FP_SCALAR_CONVERT_PRECISION \<equiv> 64"
abbreviation AVZ_NATIVE_OP_SIMD_LOAD_STORE_SINGLE_STRUCTURE_LANE :: u16 where "AVZ_NATIVE_OP_SIMD_LOAD_STORE_SINGLE_STRUCTURE_LANE \<equiv> 65"
abbreviation AVZ_NATIVE_OP_SYSTEM_REGISTER_READ :: u16 where "AVZ_NATIVE_OP_SYSTEM_REGISTER_READ \<equiv> 66"
abbreviation AVZ_NATIVE_OP_SYSTEM_REGISTER_WRITE :: u16 where "AVZ_NATIVE_OP_SYSTEM_REGISTER_WRITE \<equiv> 67"
abbreviation AVZ_NATIVE_OP_BARRIER :: u16 where "AVZ_NATIVE_OP_BARRIER \<equiv> 68"
abbreviation AVZ_NATIVE_OP_SYSTEM_INSTRUCTION :: u16 where "AVZ_NATIVE_OP_SYSTEM_INSTRUCTION \<equiv> 69"
abbreviation AVZ_NATIVE_OP_EXCEPTION_RETURN :: u16 where "AVZ_NATIVE_OP_EXCEPTION_RETURN \<equiv> 70"
abbreviation AVZ_NATIVE_OP_PSTATE_IMMEDIATE :: u16 where "AVZ_NATIVE_OP_PSTATE_IMMEDIATE \<equiv> 71"
abbreviation AVZ_NATIVE_OP_SYNCHRONOUS_EXCEPTION :: u16 where "AVZ_NATIVE_OP_SYNCHRONOUS_EXCEPTION \<equiv> 72"
abbreviation AVZ_NATIVE_OP_WAIT :: u16 where "AVZ_NATIVE_OP_WAIT \<equiv> 73"
abbreviation AVZ_NATIVE_OP_SIMD_LOAD_STORE_MULTIPLE_STRUCTURE :: u16 where "AVZ_NATIVE_OP_SIMD_LOAD_STORE_MULTIPLE_STRUCTURE \<equiv> 74"
abbreviation AVZ_NATIVE_OP_SIMD_DUPLICATE_VECTOR_ELEMENT :: u16 where "AVZ_NATIVE_OP_SIMD_DUPLICATE_VECTOR_ELEMENT \<equiv> 75"
abbreviation AVZ_NATIVE_OP_SIMD_SCALAR_SHIFT_LEFT_IMMEDIATE :: u16 where "AVZ_NATIVE_OP_SIMD_SCALAR_SHIFT_LEFT_IMMEDIATE \<equiv> 76"
abbreviation AVZ_NATIVE_OP_SIMD_ADD_ACROSS_VECTOR :: u16 where "AVZ_NATIVE_OP_SIMD_ADD_ACROSS_VECTOR \<equiv> 77"
abbreviation AVZ_NATIVE_OP_FP_SCALAR_FUSED_MULTIPLY_ADD :: u16 where "AVZ_NATIVE_OP_FP_SCALAR_FUSED_MULTIPLY_ADD \<equiv> 78"
abbreviation AVZ_NATIVE_OP_FP_SCALAR_UNARY :: u16 where "AVZ_NATIVE_OP_FP_SCALAR_UNARY \<equiv> 79"
abbreviation AVZ_NATIVE_OP_SIMD_SCALAR_FP_ABSOLUTE_DIFFERENCE :: u16 where "AVZ_NATIVE_OP_SIMD_SCALAR_FP_ABSOLUTE_DIFFERENCE \<equiv> 80"
abbreviation AVZ_NATIVE_OP_SIMD_FP_IMMEDIATE_MOVE :: u16 where "AVZ_NATIVE_OP_SIMD_FP_IMMEDIATE_MOVE \<equiv> 81"
abbreviation AVZ_NATIVE_OP_FP_SCALAR_NEGATED_MULTIPLY :: u16 where "AVZ_NATIVE_OP_FP_SCALAR_NEGATED_MULTIPLY \<equiv> 82"
abbreviation AVZ_NATIVE_OP_SIMD_PAIRWISE_ADD_LONG :: u16 where "AVZ_NATIVE_OP_SIMD_PAIRWISE_ADD_LONG \<equiv> 83"
abbreviation AVZ_NATIVE_OP_FP_SCALAR_CONDITIONAL_COMPARE :: u16 where "AVZ_NATIVE_OP_FP_SCALAR_CONDITIONAL_COMPARE \<equiv> 84"
abbreviation AVZ_NATIVE_OP_FP_SCALAR_ROUND_INTEGRAL :: u16 where "AVZ_NATIVE_OP_FP_SCALAR_ROUND_INTEGRAL \<equiv> 85"
abbreviation AVZ_NATIVE_OP_SIMD_INTEGER_NEGATE :: u16 where "AVZ_NATIVE_OP_SIMD_INTEGER_NEGATE \<equiv> 86"
abbreviation AVZ_NATIVE_OP_SIMD_SHIFT_LEFT_IMMEDIATE :: u16 where "AVZ_NATIVE_OP_SIMD_SHIFT_LEFT_IMMEDIATE \<equiv> 87"
abbreviation AVZ_NATIVE_OP_SIMD_MULTIPLY_LONG :: u16 where "AVZ_NATIVE_OP_SIMD_MULTIPLY_LONG \<equiv> 88"
abbreviation AVZ_NATIVE_OP_SIMD_NARROW_HIGH :: u16 where "AVZ_NATIVE_OP_SIMD_NARROW_HIGH \<equiv> 89"
abbreviation AVZ_NATIVE_OP_SIMD_BITWISE_NOT :: u16 where "AVZ_NATIVE_OP_SIMD_BITWISE_NOT \<equiv> 90"
abbreviation AVZ_NATIVE_OP_SIMD_SATURATING_ADD_SUBTRACT :: u16 where "AVZ_NATIVE_OP_SIMD_SATURATING_ADD_SUBTRACT \<equiv> 91"
abbreviation AVZ_NATIVE_OP_SIMD_SHIFT_RIGHT_IMMEDIATE :: u16 where "AVZ_NATIVE_OP_SIMD_SHIFT_RIGHT_IMMEDIATE \<equiv> 92"
abbreviation AVZ_NATIVE_OP_SIMD_INSERT_VECTOR_ELEMENT :: u16 where "AVZ_NATIVE_OP_SIMD_INSERT_VECTOR_ELEMENT \<equiv> 93"
abbreviation AVZ_NATIVE_OP_SIMD_UNSIGNED_SHIFT_REGISTER :: u16 where "AVZ_NATIVE_OP_SIMD_UNSIGNED_SHIFT_REGISTER \<equiv> 94"
abbreviation AVZ_NATIVE_OP_FP_SCALAR_MINMAX :: u16 where "AVZ_NATIVE_OP_FP_SCALAR_MINMAX \<equiv> 95"
abbreviation AVZ_NATIVE_OP_SIMD_INTEGER_MINMAX :: u16 where "AVZ_NATIVE_OP_SIMD_INTEGER_MINMAX \<equiv> 96"
abbreviation AVZ_NATIVE_OP_SIMD_REVERSE_ELEMENTS :: u16 where "AVZ_NATIVE_OP_SIMD_REVERSE_ELEMENTS \<equiv> 97"
abbreviation AVZ_NATIVE_OP_SIMD_EXTRACT_VECTOR :: u16 where "AVZ_NATIVE_OP_SIMD_EXTRACT_VECTOR \<equiv> 98"
abbreviation AVZ_NATIVE_OP_SIMD_FP_CONVERT_NARROW_WIDEN :: u16 where "AVZ_NATIVE_OP_SIMD_FP_CONVERT_NARROW_WIDEN \<equiv> 99"
abbreviation AVZ_NATIVE_OP_SIMD_FP_COMPARE_VECTOR :: u16 where "AVZ_NATIVE_OP_SIMD_FP_COMPARE_VECTOR \<equiv> 100"
abbreviation AVZ_NATIVE_OP_SIMD_PAIRWISE_ADD :: u16 where "AVZ_NATIVE_OP_SIMD_PAIRWISE_ADD \<equiv> 101"
abbreviation AVZ_NATIVE_OP_FP_RECIPROCAL_ESTIMATE :: u16 where "AVZ_NATIVE_OP_FP_RECIPROCAL_ESTIMATE \<equiv> 102"
abbreviation AVZ_NATIVE_OP_FP_RECIPROCAL_STEP :: u16 where "AVZ_NATIVE_OP_FP_RECIPROCAL_STEP \<equiv> 103"
abbreviation AVZ_NATIVE_OP_SIMD_FP_CONVERT_TO_INTEGER :: u16 where "AVZ_NATIVE_OP_SIMD_FP_CONVERT_TO_INTEGER \<equiv> 104"
abbreviation AVZ_NATIVE_OP_SIMD_COUNT_LEADING_ZEROS :: u16 where "AVZ_NATIVE_OP_SIMD_COUNT_LEADING_ZEROS \<equiv> 105"
abbreviation AVZ_NATIVE_OP_COUNT :: u16 where "AVZ_NATIVE_OP_COUNT \<equiv> 106"

subsection \<open>Registers\<close>

text \<open>Index 31 reads as zero and ignores writes, or names the stack pointer as a base register.\<close>

definition read_register :: "cpu \<Rightarrow> nat \<Rightarrow> u64" where
  "read_register cpu index = (if index = 31 then 0 else c_x cpu index)"

definition read_base_register :: "cpu \<Rightarrow> nat \<Rightarrow> u64" where
  "read_base_register cpu index = (if index = 31 then c_sp cpu else c_x cpu index)"

definition set_x :: "nat \<Rightarrow> u64 \<Rightarrow> cpu \<Rightarrow> cpu" where
  "set_x index value cpu = cpu\<lparr>c_x := (c_x cpu)(index := value)\<rparr>"

definition write_register :: "nat \<Rightarrow> u64 \<Rightarrow> cpu \<Rightarrow> cpu" where
  "write_register index value cpu = (if index \<noteq> 31 then set_x index value cpu else cpu)"

definition write_base_register :: "nat \<Rightarrow> u64 \<Rightarrow> cpu \<Rightarrow> cpu" where
  "write_base_register index value cpu =
     (if index = 31 then cpu\<lparr>c_sp := value\<rparr> else set_x index value cpu)"

definition clear_exclusive_reservation :: "cpu \<Rightarrow> cpu" where
  "clear_exclusive_reservation cpu = cpu\<lparr>c_exclusive_address := 0, c_exclusive_generation := 0,
     c_exclusive_size := 0, c_exclusive_valid := 0\<rparr>"

lemma read_write_register:
  "read_register (write_register i a c) j = (if i = j \<and> i \<noteq> 31 then a else read_register c j)"
  by (simp add: read_register_def write_register_def set_x_def)

lemma read_write_base_register:
  "read_base_register (write_base_register i a c) j = (if i = j then a else read_base_register c j)"
  by (simp add: read_base_register_def write_base_register_def set_x_def)

lemma write_register_other [simp]:
  "c_v (write_register i a c) = c_v c" "c_sp (write_register i a c) = c_sp c"
  "c_pc (write_register i a c) = c_pc c" "c_pstate (write_register i a c) = c_pstate c"
  "c_fpcr (write_register i a c) = c_fpcr c" "c_fpsr (write_register i a c) = c_fpsr c"
  "c_halted (write_register i a c) = c_halted c"
  "c_exclusive_valid (write_register i a c) = c_exclusive_valid c"
  by (simp_all add: write_register_def set_x_def)

subsection \<open>Vector elements\<close>

definition set_v :: "nat \<Rightarrow> vreg \<Rightarrow> cpu \<Rightarrow> cpu" where
  "set_v index value cpu = cpu\<lparr>c_v := (c_v cpu)(index := value)\<rparr>"

definition read_vector_element :: "cpu \<Rightarrow> nat \<Rightarrow> nat \<Rightarrow> nat \<Rightarrow> u64" where
  "read_vector_element cpu vector lane element_bits =
     (let bit_offset = lane * element_bits;
          lane_mask = mask_for_bits element_bits
      in if bit_offset < 64 then shr (v_low (c_v cpu vector)) bit_offset AND lane_mask
         else shr (v_high (c_v cpu vector)) (bit_offset - 64) AND lane_mask)"

definition write_vector_element :: "vreg \<Rightarrow> nat \<Rightarrow> nat \<Rightarrow> u64 \<Rightarrow> vreg" where
  "write_vector_element vector lane element_bits value =
     (let bit_offset = lane * element_bits;
          lane_mask = mask_for_bits element_bits;
          masked_value = value AND lane_mask
      in if bit_offset < 64 then
           let shifted_mask = shl lane_mask bit_offset
           in vector\<lparr>v_low := (v_low vector AND NOT shifted_mask) OR shl masked_value bit_offset\<rparr>
         else
           let high_offset = bit_offset - 64;
               shifted_mask = shl lane_mask high_offset
           in vector\<lparr>v_high := (v_high vector AND NOT shifted_mask) OR shl masked_value high_offset\<rparr>)"

definition vector_element_to_general :: "cpu \<Rightarrow> instr \<Rightarrow> u64" where
  "vector_element_to_general cpu instruction =
     (let value = read_vector_element cpu (unat (i_rn instruction))
                    (unat (i_condition instruction)) (unat (i_bits instruction))
      in if i_flags instruction AND 1 \<noteq> 0 then
           let value = sign_extend_u64 value (unat (i_bits instruction))
           in if i_flags instruction AND 2 = 0 then value AND 0xffffffff else value
         else value)"

end
