(* ===== verification/DecodeBase.thy ===== *)
theory DecodeBase
  imports Cpu
begin

text \<open>
  What the parts of the decoder \<open>avz_native_decode_instruction\<close> share. The C function is one
  long sequence of blocks, each guarded by a mask-and-compare of the instruction word; a
  block fills in \<open>decoded\<close> and returns 1, returns 0, or lets control reach the next block.
  Each block (each \<open>if\<close>, and each group of labels of a \<open>switch\<close>) is a definition of the
  theories \<open>DecodeScalar\<close>, \<open>DecodeVector\<close>, \<open>DecodeFloat\<close> and \<open>DecodeVector2\<close>, with one of
  the three outcomes below. This theory also holds the helpers for the modified immediates
  of the vector instructions.
\<close>

subsection \<open>Outcomes\<close>

datatype outcome = Fall | Reject | Accept instr

text \<open>The zeroed \<open>*decoded\<close> with which every block starts.\<close>

definition instr_init :: "u32 \<Rightarrow> instr" where
  "instr_init w = \<lparr>i_raw = w, i_kind = 0, i_rd = 0, i_rn = 0, i_rm = 0, i_rt = 0, i_width = 0,
     i_bits = 0, i_flags = 0, i_condition = 0, i_shift_type = 0, i_shift_amount = 0,
     i_immediate = 0, i_immediate2 = 0\<rparr>"

lemma instr_init_simps [simp]:
  "i_raw (instr_init w) = w" "i_kind (instr_init w) = 0" "i_rd (instr_init w) = 0"
  "i_rn (instr_init w) = 0" "i_rm (instr_init w) = 0" "i_rt (instr_init w) = 0"
  "i_width (instr_init w) = 0" "i_bits (instr_init w) = 0" "i_flags (instr_init w) = 0"
  "i_condition (instr_init w) = 0" "i_shift_type (instr_init w) = 0"
  "i_shift_amount (instr_init w) = 0" "i_immediate (instr_init w) = 0"
  "i_immediate2 (instr_init w) = 0"
  by (simp_all add: instr_init_def)

text \<open>The blocks in order: the first that does not fall through decides; past the last is \<open>return 0\<close>.\<close>

fun first_outcome :: "(u32 \<Rightarrow> outcome) list \<Rightarrow> u32 \<Rightarrow> instr option" where
  "first_outcome [] w = None"
| "first_outcome (f # fs) w =
     (case f w of Fall \<Rightarrow> first_outcome fs w | Reject \<Rightarrow> None | Accept d \<Rightarrow> Some d)"

text \<open>
  \<open>while (((value >> trailing) & 1) == 0) trailing++;\<close> from 0. The guards before it exclude
  \<open>value = 0\<close>, and 32 steps then suffice.
\<close>

fun trailing_zeros_loop :: "nat \<Rightarrow> u32 \<Rightarrow> nat \<Rightarrow> nat" where
  "trailing_zeros_loop 0 w trailing = trailing"
| "trailing_zeros_loop (Suc fuel) w trailing =
     (if fld w trailing 1 = 0 then trailing_zeros_loop fuel w (trailing + 1) else trailing)"

definition trailing_zeros :: "u32 \<Rightarrow> nat" where
  "trailing_zeros w = trailing_zeros_loop 32 w 0"

lemma trailing_zeros_loop_spec:
  "\<exists>k<fuel. bit w (t + k) \<Longrightarrow>
   bit w (trailing_zeros_loop fuel w t) \<and> t \<le> trailing_zeros_loop fuel w t \<and>
   (\<forall>j. t \<le> j \<and> j < trailing_zeros_loop fuel w t \<longrightarrow> \<not> bit w j)"
proof (induction fuel arbitrary: t)
  case (Suc fuel)
  show ?case
  proof (cases "bit w t")
    case True
    then show ?thesis using flag_bit[of w t] by (auto simp: flag_def)
  next
    case False
    from Suc.prems obtain k where k: "k < Suc fuel" "bit w (t + k)" by blast
    with False have "k \<noteq> 0" by (metis add_0_right)
    then obtain m where "k = Suc m" by (metis not0_implies_Suc)
    with k have "\<exists>k<fuel. bit w (Suc t + k)" by auto
    from Suc.IH[OF this] show ?thesis using False flag_bit[of w t]
      by (simp add: flag_def) (metis Suc_leI le_neq_implies_less le_less_trans less_imp_le nat_less_le not_less_eq_eq)
  qed
qed simp

lemma trailing_zeros:
  assumes "w \<noteq> 0"
  shows "bit w (trailing_zeros w)" "j < trailing_zeros w \<Longrightarrow> \<not> bit w j"
proof -
  obtain k where "bit w k" using assms by (metis bit_eqI bit_0_eq bot_apply bot_bool_def)
  moreover then have "k < 32" using bit_imp_le_length by fastforce
  ultimately have "\<exists>k<32. bit w (0 + k)" by auto
  from trailing_zeros_loop_spec[OF this]
  show "bit w (trailing_zeros w)" "j < trailing_zeros w \<Longrightarrow> \<not> bit w j"
    by (simp_all add: trailing_zeros_def)
qed

subsection \<open>Modified immediates\<close>

text \<open>\<open>(((instruction >> 16) & 7) << 5) | ((instruction >> 5) & 0x1f)\<close>.\<close>

definition modified_imm8 :: "u32 \<Rightarrow> u32" where
  "modified_imm8 w = shl (fld w 16 7) 5 OR fld w 5 0x1f"

definition is_simd_modified_immediate :: "u32 \<Rightarrow> bool" where
  "is_simd_modified_immediate w \<longleftrightarrow> matches w 0x9ff80400 0x0f000400"

definition decode_simd_movi_zero :: "u32 \<Rightarrow> bool" where
  "decode_simd_movi_zero w =
     (if \<not> is_simd_modified_immediate w then False
      else let op1 = fld w 29 1; cmode = fld w 12 0xf; o2 = fld w 11 1; imm8 = modified_imm8 w
      in if o2 \<noteq> 0 \<or> imm8 \<noteq> 0 then False
      else if op1 = 0 then
        (cmode \<le> 0xa \<and> cmode AND 1 = 0) \<or> cmode = 0xc \<or> cmode = 0xd \<or> cmode = 0xe
      else cmode = 0xe)"

definition decode_simd_movi_byte :: "u32 \<Rightarrow> (u64 \<times> bool) option" where
  "decode_simd_movi_byte w =
     (if \<not> is_simd_modified_immediate w then None
      else let op1 = fld w 29 1; cmode = fld w 12 0xf; o2 = fld w 11 1
      in if op1 \<noteq> 0 \<or> cmode \<noteq> 0xe \<or> o2 \<noteq> 0 then None
      else Some (zext64 (modified_imm8 w), flag w 30))"

definition decode_simd_movi_word_immediate :: "u32 \<Rightarrow> (u64 \<times> u32 \<times> bool) option" where
  "decode_simd_movi_word_immediate w =
     (if \<not> is_simd_modified_immediate w then None
      else let op1 = fld w 29 1; cmode = fld w 12 0xf; o2 = fld w 11 1
      in if op1 \<noteq> 0 \<or> o2 \<noteq> 0 then None
      else let imm8 = modified_imm8 w
      in if cmode \<le> 6 \<and> cmode AND 1 = 0 then
           Some (zext64 (shl imm8 (unat (shr cmode 1 * 8))), 32, flag w 30)
         else if cmode = 8 \<or> cmode = 10 then
           Some (zext64 (shl imm8 (if cmode = 8 then 0 else 8) AND 0xffff), 16, flag w 30)
         else if cmode = 12 \<or> cmode = 13 then
           let sft = (if cmode = 12 then 8 else 16)
           in Some (zext64 (shl imm8 sft OR (shl 1 sft - 1)), 32, flag w 30)
         else None)"

definition decode_simd_logical_word_immediate :: "u32 \<Rightarrow> (u64 \<times> u32 \<times> bool \<times> bool) option" where
  "decode_simd_logical_word_immediate w =
     (if \<not> is_simd_modified_immediate w then None
      else let op1 = fld w 29 1; cmode = fld w 12 0xf; o2 = fld w 11 1
      in if o2 \<noteq> 0 \<or> cmode AND 1 = 0 \<or> 11 < cmode then None
      else let imm8 = modified_imm8 w
      in if cmode \<le> 7 then
           Some (zext64 (shl imm8 (unat (shr cmode 1 * 8))), 32, flag w 30, op1 \<noteq> 0)
         else
           Some (zext64 (shl imm8 (if cmode = 9 then 0 else 8) AND 0xffff), 16, flag w 30, op1 \<noteq> 0))"

definition expand_simd_movi_d_immediate :: "u32 \<Rightarrow> u64" where
  "expand_simd_movi_d_immediate imm8 =
     fold (\<lambda>byt value. if imm8 AND shl 1 byt \<noteq> 0 then value OR shl 0xff (byt * 8) else value)
       [0..<8] 0"

definition expand_fp_immediate_bits :: "u32 \<Rightarrow> nat \<Rightarrow> u64" where
  "expand_fp_immediate_bits imm8 bits =
     (let immediate = zext64 imm8 AND 0xff;
          sign = shr immediate 7;
          repeated = fld immediate 6 1;
          exponent_low = fld immediate 4 3;
          fraction = immediate AND 0xf
      in if bits = 64 then
           let exponent = shl (repeated XOR 1) 10 OR (if repeated \<noteq> 0 then 0x3fc else 0) OR exponent_low
           in shl sign 63 OR shl exponent 52 OR shl fraction 48
         else if bits = 32 then
           let exponent = shl (repeated XOR 1) 7 OR (if repeated \<noteq> 0 then 0x7c else 0) OR exponent_low
           in shl sign 31 OR shl exponent 23 OR shl fraction 19
         else 0)"

definition decode_simd_fp_immediate :: "u32 \<Rightarrow> (u64 \<times> u32 \<times> bool) option" where
  "decode_simd_fp_immediate w =
     (if \<not> is_simd_modified_immediate w then None
      else let q = fld w 30 1; op1 = fld w 29 1; cmode = fld w 12 0xf; o2 = fld w 11 1
      in if cmode \<noteq> 0xf \<or> o2 \<noteq> 0 \<or> (op1 \<noteq> 0 \<and> q = 0) then None
      else let bits = (if op1 \<noteq> 0 then 64 else 32); imm8 = modified_imm8 w
      in Some (expand_fp_immediate_bits imm8 (unat bits), bits, q \<noteq> 0))"

definition decode_simd_movi_d_immediate :: "u32 \<Rightarrow> (u64 \<times> bool) option" where
  "decode_simd_movi_d_immediate w =
     (if \<not> is_simd_modified_immediate w then None
      else let op1 = fld w 29 1; cmode = fld w 12 0xf; o2 = fld w 11 1; imm8 = modified_imm8 w
      in if op1 \<noteq> 1 \<or> cmode \<noteq> 0xe \<or> o2 \<noteq> 0 then None
      else Some (expand_simd_movi_d_immediate imm8, flag w 30))"

definition decode_simd_mvni_immediate :: "u32 \<Rightarrow> (u64 \<times> u32 \<times> bool) option" where
  "decode_simd_mvni_immediate w =
     (if \<not> is_simd_modified_immediate w then None
      else let op1 = fld w 29 1; cmode = fld w 12 0xf; o2 = fld w 11 1;
               imm8 = zext64 (modified_imm8 w)
      in if op1 \<noteq> 1 \<or> o2 \<noteq> 0 then None
      else if cmode \<in> {0, 2, 4, 6} then
        let sft = unat (cmode div 2 * 8)
        in Some (zext64 (0xffffffff XOR lo32 (shl imm8 sft)), 32, flag w 30)
      else if cmode \<in> {8, 0xa} then
        let sft = (if cmode = 8 then 0 else 8)
        in Some (zext64 (0xffff XOR (lo32 (shl imm8 sft) AND 0xffff)), 16, flag w 30)
      else if cmode \<in> {0xc, 0xd} then
        let sft = (if cmode = 0xc then 8 else 16);
            shifted_ones = lo32 (shl imm8 sft) OR (shl 1 sft - 1)
        in Some (zext64 (NOT shifted_ones), 32, flag w 30)
      else None)"

subsection \<open>Well-formed instructions\<close>

text \<open>A property of the instruction a block accepts, and the rules that walk through a block.\<close>

definition outcome_ok :: "(instr \<Rightarrow> bool) \<Rightarrow> outcome \<Rightarrow> bool" where
  "outcome_ok P r = (case r of Accept d \<Rightarrow> P d | _ \<Rightarrow> True)"

lemma outcome_ok_simps [simp]: "outcome_ok P Fall" "outcome_ok P Reject" "outcome_ok P (Accept d) = P d"
  by (simp_all add: outcome_ok_def)

lemma outcome_ok_if: "(c \<Longrightarrow> outcome_ok P a) \<Longrightarrow> (\<not> c \<Longrightarrow> outcome_ok P b) \<Longrightarrow> outcome_ok P (if c then a else b)"
  by simp

lemma outcome_ok_let: "(\<And>x. x = e \<Longrightarrow> outcome_ok P (f x)) \<Longrightarrow> outcome_ok P (Let e f)"
  by (simp add: Let_def)

lemma outcome_ok_opt: "outcome_ok P a \<Longrightarrow> (\<And>x. r = Some x \<Longrightarrow> outcome_ok P (f x)) \<Longrightarrow> outcome_ok P (case r of None \<Rightarrow> a | Some x \<Rightarrow> f x)"
  by (cases r) auto

lemma outcome_ok_prod: "(\<And>x y. r = (x, y) \<Longrightarrow> outcome_ok P (f x y)) \<Longrightarrow> outcome_ok P (case r of (x, y) \<Rightarrow> f x y)"
  by (cases r) auto

lemmas outcome_ok_rules = outcome_ok_if outcome_ok_let outcome_ok_opt outcome_ok_prod

text \<open>The integer instructions that work at 32 or 64 bits.\<close>

definition general_kinds :: "u16 list" where
  "general_kinds = [AVZ_NATIVE_OP_CBZ, AVZ_NATIVE_OP_ADD_SUB_IMMEDIATE, AVZ_NATIVE_OP_MOVE_WIDE,
     AVZ_NATIVE_OP_ADD_SUB_SHIFTED_REGISTER, AVZ_NATIVE_OP_LOGICAL_SHIFTED_REGISTER,
     AVZ_NATIVE_OP_LOGICAL_IMMEDIATE, AVZ_NATIVE_OP_CONDITIONAL_SELECT, AVZ_NATIVE_OP_BITFIELD_MOVE,
     AVZ_NATIVE_OP_DATA_PROCESSING_ONE_SOURCE, AVZ_NATIVE_OP_DATA_PROCESSING_TWO_SOURCE,
     AVZ_NATIVE_OP_CONDITIONAL_COMPARE_REGISTER, AVZ_NATIVE_OP_CONDITIONAL_COMPARE_IMMEDIATE,
     AVZ_NATIVE_OP_ADD_SUB_EXTENDED_REGISTER, AVZ_NATIVE_OP_MULTIPLY_ADD_SUBTRACT,
     AVZ_NATIVE_OP_ADD_SUB_CARRY, AVZ_NATIVE_OP_EXTRACT_REGISTER]"

definition width_ok :: "u8 \<Rightarrow> bool" where
  "width_ok n \<longleftrightarrow> n = 0 \<or> n = 1 \<or> n = 2 \<or> n = 4 \<or> n = 8 \<or> n = 16"

text \<open>
  What the executors rely on in an instruction: register numbers below 32, a kind of the
  enumeration, an access width of at most 16 bytes, 32 or 64 operand bits where the code
  distinguishes only those, and shift amounts below the operand width, so that no C shift
  is out of range.
\<close>

definition instr_wf :: "u32 \<Rightarrow> instr \<Rightarrow> bool" where
  "instr_wf w d \<longleftrightarrow> i_raw d = w \<and> i_rd d \<le> 31 \<and> i_rn d \<le> 31 \<and> i_rm d \<le> 31 \<and> i_rt d \<le> 31 \<and>
     0 < i_kind d \<and> i_kind d < AVZ_NATIVE_OP_COUNT \<and> width_ok (i_width d) \<and>
     (i_kind d \<in> set general_kinds \<longrightarrow> i_bits d = 32 \<or> i_bits d = 64) \<and>
     (i_kind d \<in> {AVZ_NATIVE_OP_ADD_SUB_SHIFTED_REGISTER, AVZ_NATIVE_OP_LOGICAL_SHIFTED_REGISTER,
        AVZ_NATIVE_OP_EXTRACT_REGISTER, AVZ_NATIVE_OP_MOVE_WIDE} \<longrightarrow> i_shift_amount d < i_bits d)"

lemma lo8_fld5: "lo8 (fld (w :: u32) k 0x1f) \<le> 31"
  using unat_fld5[of w k] by (simp add: word_le_nat_alt)

lemma lo8_and5: "lo8 ((w :: u32) AND 0x1f) \<le> 31"
  using lo8_fld5[of w 0] by (simp add: fld_def)

lemma fld_2_cases: "fld (w :: u32) k 3 \<in> {0, 1, 2, 3}"
proof -
  have "unat (fld w k 3) \<le> 3" using unat_fld_le[of w k 3] by simp
  then have "unat (fld w k 3) \<in> {0, 1, 2, 3}" by auto
  then show ?thesis by (auto simp: word_unat_eq_iff)
qed

lemma unat_lo8: "unat (w :: u32) < 256 \<Longrightarrow> unat (lo8 w) = unat w"
  by (simp add: unsigned_ucast_eq take_bit_nat_eq_self)

lemma fld6_less: "unat (fld (w :: u32) k 0x3f) < 64"
  using unat_fld_le[of w k "0x3f"] by simp

lemma lo8_less_32: "lo8 (fld (w :: u32) k 0x3f) < 32 \<longleftrightarrow> fld w k 0x3f < 32"
  using fld6_less[of w k] by (simp add: word_less_nat_alt unat_lo8)

lemma lo8_less_64: "lo8 (fld (w :: u32) k 0x3f) < 64"
  using fld6_less[of w k] by (simp add: word_less_nat_alt unat_lo8)

lemma width_ok_simps: "width_ok 0" "width_ok 1" "width_ok 2" "width_ok 4" "width_ok 8" "width_ok 16"
  by (simp_all add: width_ok_def)

lemma width_ok_small: "n \<le> 4 \<Longrightarrow> width_ok (lo8 (2 ^ unat n))" "\<not> 4 < n \<Longrightarrow> width_ok (lo8 (2 ^ unat n))" for n :: u32
proof -
  show "n \<le> 4 \<Longrightarrow> width_ok (lo8 (2 ^ unat n))"
  proof -
    assume "n \<le> 4"
    then have "unat n \<le> 4" by (simp add: word_le_nat_alt)
    then have "unat n = 0 \<or> unat n = 1 \<or> unat n = 2 \<or> unat n = 3 \<or> unat n = 4" by linarith
    then show ?thesis by (auto simp: width_ok_def)
  qed
  then show "\<not> 4 < n \<Longrightarrow> width_ok (lo8 (2 ^ unat n))" by (simp add: not_less)
qed

lemma width_ok_log2: "width_ok (lo8 (2 ^ unat (fld (w :: u32) k 3)))"
  using fld_2_cases[of w k] by (auto simp: width_ok_def)

lemma fld_masked: "fld (w :: u32) 30 3 = fld (w AND 0xffc00000) 30 3"
  by (simp add: fld_def drop_bit_and and.assoc)

lemma unat_or_less: "unat a < 2 ^ n \<Longrightarrow> unat b < 2 ^ n \<Longrightarrow> unat (a OR b) < 2 ^ n" for a b :: "'a::len word"
  by (metis unsigned_or_eq take_bit_nat_eq_self_iff take_bit_or)

lemma unat_and_less: "unat b < 2 ^ n \<Longrightarrow> unat (a AND b) < 2 ^ n" for a b :: "'a::len word"
  using word_and_le1[of a b] by (simp add: word_le_nat_alt)

lemma lo8_le_31: "unat w < 32 \<Longrightarrow> lo8 w \<le> 31"
  by (simp add: word_le_nat_alt unat_lo8)

lemma structure_count: "lo8 ((x AND 2 OR fld w k 1) + 1) \<le> 31"
proof -
  have "unat (x AND 2) < 2 ^ 2" by (rule unat_and_less) simp
  moreover have "unat (fld w k 1) < 2 ^ 2" using unat_fld_le[of w k 1] by simp
  ultimately have "unat (x AND 2 OR fld w k 1) < 2 ^ 2" by (rule unat_or_less)
  then show ?thesis by (intro lo8_le_31) (simp add: unat_word_ariths)
qed

lemma element_rm: "lo8 (fld w 16 0xf OR shl (fld w 20 1) 4) \<le> 31" "lo8 (fld w 16 0xf) \<le> 31"
proof -
  have a: "unat (fld w 16 0xf) < 2 ^ 5" using unat_fld_le[of w 16 "0xf"] by simp
  have "unat (fld w 20 1) \<le> 1" using unat_fld_le[of w 20 1] by simp
  then have "fld w 20 1 = 0 \<or> fld w 20 1 = 1" by (auto simp: word_unat_eq_iff le_Suc_eq)
  then have "unat (shl (fld w 20 1) 4) < 2 ^ 5" by auto
  with a have "unat (fld w 16 0xf OR shl (fld w 20 1) 4) < 2 ^ 5" by (rule unat_or_less)
  then show "lo8 (fld w 16 0xf OR shl (fld w 20 1) 4) \<le> 31" by (intro lo8_le_31) simp
  from a show "lo8 (fld w 16 0xf) \<le> 31" by (intro lo8_le_31) simp
qed

lemma move_wide_shift: "lo8 (fld (w :: u32) k 3 * 16) < 64" "\<not> 1 < fld w k 3 \<Longrightarrow> lo8 (fld w k 3 * 16) < 32"
  using fld_2_cases[of w k] by auto

lemmas wf_simps = instr_wf_def general_kinds_def lo8_fld5 lo8_and5 width_ok_simps width_ok_small width_ok_log2 lo8_less_32 lo8_less_64

end
