(* ===== verification/DecodeScalar.thy ===== *)
theory DecodeScalar
  imports DecodeBase
begin

text \<open>
  The decoder's blocks for the system, branch, integer and load/store classes, in the order
  of \<open>avz_native_decode_instruction\<close> (\<open>ARM64VizNative.c\<close>, the first 700 lines of the
  function). A local of a C integer type narrower than 64 bits is a \<open>u32\<close>; one that only
  ever holds a truth value is a \<open>bool\<close>.
\<close>

definition dec_wait :: "u32 \<Rightarrow> outcome" where
  "dec_wait w =
     (if w = 0xd503205f \<or> w = 0xd503207f then
        Accept ((instr_init w)\<lparr>i_kind := AVZ_NATIVE_OP_WAIT,
            i_flags := lo8 (of_flag (w = 0xd503207f))\<rparr>)
      else Fall)"

definition dec_nop :: "u32 \<Rightarrow> outcome" where
  "dec_nop w =
     (if w = 0xd503201f \<or> w = 0xd503209f \<or> w = 0xd50320bf \<or> matches w 0xfffff01f 0xd503201f then
        Accept ((instr_init w)\<lparr>i_kind := AVZ_NATIVE_OP_NOP\<rparr>)
      else Fall)"

definition dec_barrier :: "u32 \<Rightarrow> outcome" where
  "dec_barrier w =
     (if matches w 0xfffff0ff 0xd503309f \<or> matches w 0xfffff0ff 0xd50330bf \<or>
         matches w 0xfffff0ff 0xd50330df then
        Accept ((instr_init w)\<lparr>i_kind := AVZ_NATIVE_OP_BARRIER, i_flags := lo8 (fld w 5 0x7)\<rparr>)
      else Fall)"

definition dec_pstate_immediate :: "u32 \<Rightarrow> outcome" where
  "dec_pstate_immediate w =
     (if matches w 0xfffff01f 0xd503401f then
        let operation = fld w 5 0x7 in
        if operation \<noteq> 0x6 \<and> operation \<noteq> 0x7 then Reject
        else
        Accept ((instr_init w)\<lparr>i_kind := AVZ_NATIVE_OP_PSTATE_IMMEDIATE,
            i_flags := lo8 operation, i_immediate := zext64 (shl (fld w 8 0xf) 6)\<rparr>)
      else Fall)"

definition dec_halt :: "u32 \<Rightarrow> outcome" where
  "dec_halt w =
     (if matches w 0xffe0001f 0xd4400000 then
        Accept ((instr_init w)\<lparr>i_kind := AVZ_NATIVE_OP_HALT\<rparr>)
      else Fall)"

definition dec_exception_return :: "u32 \<Rightarrow> outcome" where
  "dec_exception_return w =
     (if w = 0xd69f03e0 then
        Accept ((instr_init w)\<lparr>i_kind := AVZ_NATIVE_OP_EXCEPTION_RETURN\<rparr>)
      else Fall)"

definition dec_synchronous_exception :: "u32 \<Rightarrow> outcome" where
  "dec_synchronous_exception w =
     (if matches w 0xffe0001f 0xd4000001 \<or> matches w 0xffe0001f 0xd4000002 \<or>
         matches w 0xffe0001f 0xd4000003 \<or> matches w 0xffe0001f 0xd4200000 then
        Accept ((instr_init w)\<lparr>i_kind := AVZ_NATIVE_OP_SYNCHRONOUS_EXCEPTION\<rparr>)
      else Fall)"

definition dec_system_register_read :: "u32 \<Rightarrow> outcome" where
  "dec_system_register_read w =
     (if matches w 0xfff00000 0xd5300000 then
        Accept ((instr_init w)\<lparr>i_kind := AVZ_NATIVE_OP_SYSTEM_REGISTER_READ,
            i_rt := lo8 (w AND 0x1f)\<rparr>)
      else Fall)"

definition dec_system_register_write :: "u32 \<Rightarrow> outcome" where
  "dec_system_register_write w =
     (if matches w 0xfff00000 0xd5100000 then
        Accept ((instr_init w)\<lparr>i_kind := AVZ_NATIVE_OP_SYSTEM_REGISTER_WRITE,
            i_rt := lo8 (w AND 0x1f)\<rparr>)
      else Fall)"

definition dec_system_instruction :: "u32 \<Rightarrow> outcome" where
  "dec_system_instruction w =
     (if matches w 0xfff80000 0xd5080000 then
        Accept ((instr_init w)\<lparr>i_kind := AVZ_NATIVE_OP_SYSTEM_INSTRUCTION,
            i_rt := lo8 (w AND 0x1f)\<rparr>)
      else Fall)"

definition dec_adr :: "u32 \<Rightarrow> outcome" where
  "dec_adr w =
     (if matches w 0x9f000000 0x10000000 \<or> matches w 0x9f000000 0x90000000 then
        let page = matches w 0x9f000000 0x90000000;
            immlo = zext64 (fld w 29 3);
            immhi = zext64 (fld w 5 0x7ffff);
            offset = sign_extend_u64 (shl immhi 2 OR immlo) 21 in
        Accept ((instr_init w)\<lparr>i_kind := AVZ_NATIVE_OP_ADR, i_rd := lo8 (w AND 0x1f),
            i_flags := lo8 (of_flag page),
            i_immediate := if page then offset * 4096 else offset\<rparr>)
      else Fall)"

definition dec_cbz :: "u32 \<Rightarrow> outcome" where
  "dec_cbz w =
     (if matches w 0x7e000000 0x34000000 then
        Accept ((instr_init w)\<lparr>i_kind := AVZ_NATIVE_OP_CBZ, i_rt := lo8 (w AND 0x1f),
            i_bits := lo8 (if flag w 31 then 64 else 32), i_flags := lo8 (of_flag (flag w 24)),
            i_immediate := decode_scaled_signed_immediate (zext64 (fld w 5 0x7ffff)) 19 4\<rparr>)
      else Fall)"

definition dec_tbz :: "u32 \<Rightarrow> outcome" where
  "dec_tbz w =
     (if matches w 0x7e000000 0x36000000 then
        Accept ((instr_init w)\<lparr>i_kind := AVZ_NATIVE_OP_TBZ, i_rt := lo8 (w AND 0x1f),
            i_shift_amount := lo8 (shl (fld w 31 1) 5 OR fld w 19 0x1f),
            i_flags := lo8 (of_flag (flag w 24)),
            i_immediate := decode_scaled_signed_immediate (zext64 (fld w 5 0x3fff)) 14 4\<rparr>)
      else Fall)"

definition dec_bcond :: "u32 \<Rightarrow> outcome" where
  "dec_bcond w =
     (if matches w 0xff000010 0x54000000 then
        Accept ((instr_init w)\<lparr>i_kind := AVZ_NATIVE_OP_BCOND, i_condition := lo8 (w AND 0xf),
            i_immediate := decode_scaled_signed_immediate (zext64 (fld w 5 0x7ffff)) 19 4\<rparr>)
      else Fall)"

definition dec_conditional_compare_register :: "u32 \<Rightarrow> outcome" where
  "dec_conditional_compare_register w =
     (if matches w 0x3fe00c10 0x3a400000 then
        Accept ((instr_init w)\<lparr>i_kind := AVZ_NATIVE_OP_CONDITIONAL_COMPARE_REGISTER,
            i_rn := lo8 (fld w 5 0x1f), i_rm := lo8 (fld w 16 0x1f),
            i_bits := lo8 (if flag w 31 then 64 else 32), i_condition := lo8 (fld w 12 0xf),
            i_flags := lo8 (fld w 30 1), i_immediate := zext64 (shl (w AND 0xf) 28)\<rparr>)
      else Fall)"

definition dec_conditional_compare_immediate :: "u32 \<Rightarrow> outcome" where
  "dec_conditional_compare_immediate w =
     (if matches w 0x3fe00c10 0x3a400800 then
        Accept ((instr_init w)\<lparr>i_kind := AVZ_NATIVE_OP_CONDITIONAL_COMPARE_IMMEDIATE,
            i_rn := lo8 (fld w 5 0x1f), i_bits := lo8 (if flag w 31 then 64 else 32),
            i_condition := lo8 (fld w 12 0xf), i_flags := lo8 (fld w 30 1),
            i_immediate := zext64 (fld w 16 0x1f), i_immediate2 := zext64 (shl (w AND 0xf) 28)\<rparr>)
      else Fall)"

definition dec_conditional_select :: "u32 \<Rightarrow> outcome" where
  "dec_conditional_select w =
     (if matches w 0x1fe00800 0x1a800000 then
        let operation = fld w 10 3 in
        if 1 < operation then Reject
        else
        Accept ((instr_init w)\<lparr>i_kind := AVZ_NATIVE_OP_CONDITIONAL_SELECT,
            i_rd := lo8 (w AND 0x1f), i_rn := lo8 (fld w 5 0x1f), i_rm := lo8 (fld w 16 0x1f),
            i_bits := lo8 (if flag w 31 then 64 else 32), i_condition := lo8 (fld w 12 0xf),
            i_flags := lo8 (operation OR (if flag w 30 then 4 else 0))\<rparr>)
      else Fall)"

definition dec_add_sub_shifted_register :: "u32 \<Rightarrow> outcome" where
  "dec_add_sub_shifted_register w =
     (if matches w 0x1f200000 0x0b000000 then
        let is_64 = flag w 31;
            shift_amount = fld w 10 0x3f in
        if \<not> is_64 \<and> 32 \<le> shift_amount then Reject
        else
        if fld w 22 3 \<le> 2 then
          Accept ((instr_init w)\<lparr>i_kind := AVZ_NATIVE_OP_ADD_SUB_SHIFTED_REGISTER,
              i_rd := lo8 (w AND 0x1f), i_rn := lo8 (fld w 5 0x1f),
              i_rm := lo8 (fld w 16 0x1f), i_bits := lo8 (if is_64 then 64 else 32),
              i_shift_type := lo8 (fld w 22 3), i_shift_amount := lo8 shift_amount,
              i_flags := lo8 (of_flag (flag w 30) OR (if flag w 29 then 2 else 0))\<rparr>)
        else Reject
      else Fall)"

definition dec_add_sub_carry :: "u32 \<Rightarrow> outcome" where
  "dec_add_sub_carry w =
     (if matches w 0x1fe0fc00 0x1a000000 then
        Accept ((instr_init w)\<lparr>i_kind := AVZ_NATIVE_OP_ADD_SUB_CARRY, i_rd := lo8 (w AND 0x1f),
            i_rn := lo8 (fld w 5 0x1f), i_rm := lo8 (fld w 16 0x1f),
            i_bits := lo8 (if flag w 31 then 64 else 32),
            i_flags := lo8 (of_flag (flag w 30) OR (if flag w 29 then 2 else 0))\<rparr>)
      else Fall)"

definition dec_logical_shifted_register :: "u32 \<Rightarrow> outcome" where
  "dec_logical_shifted_register w =
     (if matches w 0x1f000000 0x0a000000 then
        let is_64 = flag w 31;
            shift_amount = fld w 10 0x3f;
            shift_type = fld w 22 3 in
        if \<not> is_64 \<and> 32 \<le> shift_amount then Reject
        else
        Accept ((instr_init w)\<lparr>i_kind := AVZ_NATIVE_OP_LOGICAL_SHIFTED_REGISTER,
            i_rd := lo8 (w AND 0x1f), i_rn := lo8 (fld w 5 0x1f), i_rm := lo8 (fld w 16 0x1f),
            i_bits := lo8 (if is_64 then 64 else 32), i_shift_type := lo8 shift_type,
            i_shift_amount := lo8 shift_amount,
            i_flags := lo8 (fld w 29 3 OR (if flag w 21 then 4 else 0))\<rparr>)
      else Fall)"

definition dec_extract_register :: "u32 \<Rightarrow> outcome" where
  "dec_extract_register w =
     (if matches w 0x7fa00000 0x13800000 then
        let is_64 = flag w 31;
            bits = (if is_64 then 64 else 32 :: u32);
            n = fld w 22 1;
            lsb = fld w 10 0x3f in
        if (n \<noteq> 0) \<noteq> is_64 \<or> bits \<le> lsb then Reject
        else
        Accept ((instr_init w)\<lparr>i_kind := AVZ_NATIVE_OP_EXTRACT_REGISTER,
            i_rd := lo8 (w AND 0x1f), i_rn := lo8 (fld w 5 0x1f), i_rm := lo8 (fld w 16 0x1f),
            i_bits := lo8 bits, i_shift_amount := lo8 lsb\<rparr>)
      else Fall)"

definition dec_logical_immediate :: "u32 \<Rightarrow> outcome" where
  "dec_logical_immediate w =
     (if matches w 0x1f800000 0x12000000 then
        let is_64 = flag w 31;
            bits = (if is_64 then 64 else 32 :: u32) in
        (case decode_logical_immediate (lo8 (fld w 22 1)) (lo8 (fld w 16 0x3f)) (lo8 (fld w 10 0x3f)) (unat bits) of
           None \<Rightarrow>
             Reject
         | Some immediate \<Rightarrow>
             Accept ((instr_init w)\<lparr>i_kind := AVZ_NATIVE_OP_LOGICAL_IMMEDIATE,
                 i_rd := lo8 (w AND 0x1f), i_rn := lo8 (fld w 5 0x1f), i_bits := lo8 bits,
                 i_flags := lo8 (fld w 29 3), i_immediate := immediate\<rparr>))
      else Fall)"

definition dec_register_branch :: "u32 \<Rightarrow> outcome" where
  "dec_register_branch w =
     (if matches w 0xfffffc1f 0xd65f0000 \<or> matches w 0xfffffc1f 0xd61f0000 \<or>
         matches w 0xfffffc1f 0xd63f0000 then
        Accept ((instr_init w)\<lparr>i_kind := AVZ_NATIVE_OP_REGISTER_BRANCH,
            i_rn := lo8 (fld w 5 0x1f),
            i_flags := lo8 (of_flag (matches w 0xfffffc1f 0xd63f0000))\<rparr>)
      else Fall)"

definition dec_bitfield_move :: "u32 \<Rightarrow> outcome" where
  "dec_bitfield_move w =
     (if matches w 0x1f800000 0x13000000 then
        let is_64 = flag w 31;
            bits = (if is_64 then 64 else 32 :: u32);
            opcode = fld w 29 3;
            n = fld w 22 1;
            immr = fld w 16 0x3f;
            imms = fld w 10 0x3f in
        if opcode = 3 then Reject
        else
        (case decode_bitfield_masks (lo8 n) (lo8 immr) (lo8 imms) (unat bits) of
           None \<Rightarrow>
             Reject
         | Some (write_mask, top_mask) \<Rightarrow>
             Accept ((instr_init w)\<lparr>i_kind := AVZ_NATIVE_OP_BITFIELD_MOVE,
                 i_rd := lo8 (w AND 0x1f), i_rn := lo8 (fld w 5 0x1f), i_bits := lo8 bits,
                 i_flags := lo8 opcode, i_shift_amount := lo8 immr, i_condition := lo8 imms,
                 i_immediate := write_mask, i_immediate2 := top_mask\<rparr>))
      else Fall)"

definition dec_data_processing_one_source :: "u32 \<Rightarrow> outcome" where
  "dec_data_processing_one_source w =
     (if matches w 0x5fe00000 0x5ac00000 then
        let is_64 = flag w 31;
            opcode = fld w 10 0x3f in
        if \<not> (opcode = 0x00 \<or> opcode = 0x01 \<or> opcode = 0x02 \<or> (opcode = 0x03 \<and> is_64) \<or>
            opcode = 0x04 \<or> opcode = 0x05) then Reject
        else
        Accept ((instr_init w)\<lparr>i_kind := AVZ_NATIVE_OP_DATA_PROCESSING_ONE_SOURCE,
            i_rd := lo8 (w AND 0x1f), i_rn := lo8 (fld w 5 0x1f),
            i_bits := lo8 (if is_64 then 64 else 32), i_flags := lo8 opcode\<rparr>)
      else Fall)"

definition dec_data_processing_two_source :: "u32 \<Rightarrow> outcome" where
  "dec_data_processing_two_source w =
     (if matches w 0x7fe0c000 0x1ac00000 then
        let opcode = fld w 10 0x3f in
        if \<not> (opcode = 0x02 \<or> opcode = 0x03 \<or> opcode = 0x08 \<or> opcode = 0x09 \<or> opcode = 0x0a \<or>
            opcode = 0x0b) then Reject
        else
        Accept ((instr_init w)\<lparr>i_kind := AVZ_NATIVE_OP_DATA_PROCESSING_TWO_SOURCE,
            i_rd := lo8 (w AND 0x1f), i_rn := lo8 (fld w 5 0x1f), i_rm := lo8 (fld w 16 0x1f),
            i_bits := lo8 (if flag w 31 then 64 else 32), i_flags := lo8 opcode\<rparr>)
      else Fall)"

definition dec_multiply_add_subtract :: "u32 \<Rightarrow> outcome" where
  "dec_multiply_add_subtract w =
     (if matches w 0x7fe00000 0x1b000000 then
        Accept ((instr_init w)\<lparr>i_kind := AVZ_NATIVE_OP_MULTIPLY_ADD_SUBTRACT,
            i_rd := lo8 (w AND 0x1f), i_rn := lo8 (fld w 5 0x1f), i_rm := lo8 (fld w 16 0x1f),
            i_rt := lo8 (fld w 10 0x1f), i_bits := lo8 (if flag w 31 then 64 else 32),
            i_flags := lo8 (of_flag (flag w 15))\<rparr>)
      else Fall)"

definition dec_signed_multiply_long_add_subtract :: "u32 \<Rightarrow> outcome" where
  "dec_signed_multiply_long_add_subtract w =
     (if matches w 0x7fe00000 0x1b200000 then
        Accept ((instr_init w)\<lparr>i_kind := AVZ_NATIVE_OP_SIGNED_MULTIPLY_LONG_ADD_SUBTRACT,
            i_rd := lo8 (w AND 0x1f), i_rn := lo8 (fld w 5 0x1f), i_rm := lo8 (fld w 16 0x1f),
            i_rt := lo8 (fld w 10 0x1f), i_flags := lo8 (of_flag (flag w 15))\<rparr>)
      else Fall)"

definition dec_unsigned_multiply_long_add_subtract :: "u32 \<Rightarrow> outcome" where
  "dec_unsigned_multiply_long_add_subtract w =
     (if matches w 0x7fe00000 0x1ba00000 then
        Accept ((instr_init w)\<lparr>i_kind := AVZ_NATIVE_OP_UNSIGNED_MULTIPLY_LONG_ADD_SUBTRACT,
            i_rd := lo8 (w AND 0x1f), i_rn := lo8 (fld w 5 0x1f), i_rm := lo8 (fld w 16 0x1f),
            i_rt := lo8 (fld w 10 0x1f), i_flags := lo8 (of_flag (flag w 15))\<rparr>)
      else Fall)"

definition dec_signed_multiply_high :: "u32 \<Rightarrow> outcome" where
  "dec_signed_multiply_high w =
     (if matches w 0xffe0fc00 0x9b407c00 then
        Accept ((instr_init w)\<lparr>i_kind := AVZ_NATIVE_OP_SIGNED_MULTIPLY_HIGH,
            i_rd := lo8 (w AND 0x1f), i_rn := lo8 (fld w 5 0x1f), i_rm := lo8 (fld w 16 0x1f)\<rparr>)
      else Fall)"

definition dec_unsigned_multiply_high :: "u32 \<Rightarrow> outcome" where
  "dec_unsigned_multiply_high w =
     (if matches w 0xffe0fc00 0x9bc07c00 then
        Accept ((instr_init w)\<lparr>i_kind := AVZ_NATIVE_OP_UNSIGNED_MULTIPLY_HIGH,
            i_rd := lo8 (w AND 0x1f), i_rn := lo8 (fld w 5 0x1f), i_rm := lo8 (fld w 16 0x1f)\<rparr>)
      else Fall)"

definition dec_add_sub_extended_register :: "u32 \<Rightarrow> outcome" where
  "dec_add_sub_extended_register w =
     (if matches w 0x1f200000 0x0b200000 then
        let sft = fld w 10 7 in
        if 4 < sft then Reject
        else
        Accept ((instr_init w)\<lparr>i_kind := AVZ_NATIVE_OP_ADD_SUB_EXTENDED_REGISTER,
            i_rd := lo8 (w AND 0x1f), i_rn := lo8 (fld w 5 0x1f), i_rm := lo8 (fld w 16 0x1f),
            i_bits := lo8 (if flag w 31 then 64 else 32), i_condition := lo8 (fld w 13 7),
            i_shift_amount := lo8 sft,
            i_flags := lo8 (of_flag (flag w 30) OR (if flag w 29 then 2 else 0))\<rparr>)
      else Fall)"

definition dec_load_literal :: "u32 \<Rightarrow> outcome" where
  "dec_load_literal w =
     (if matches w 0x3b000000 0x18000000 then
        Accept ((instr_init w)\<lparr>i_kind := AVZ_NATIVE_OP_LOAD_LITERAL, i_rt := lo8 (w AND 0x1f),
            i_flags := lo8 (fld w 30 3),
            i_immediate := decode_scaled_signed_immediate (zext64 (fld w 5 0x7ffff)) 19 4,
            i_width := lo8 (if fld w 30 3 = 1 then 8 else 4),
            i_bits := lo8 ((if fld w 30 3 = 1 then 8 else 4) * 8)\<rparr>)
      else Fall)"

definition dec_move_wide :: "u32 \<Rightarrow> outcome" where
  "dec_move_wide w =
     (if matches w 0x1f800000 0x12800000 then
        let is_64 = flag w 31;
            opcode = fld w 29 3;
            hw = fld w 21 3 in
        if (\<not> is_64 \<and> 1 < hw) \<or> opcode = 1 then Reject
        else
        Accept ((instr_init w)\<lparr>i_kind := AVZ_NATIVE_OP_MOVE_WIDE, i_rd := lo8 (w AND 0x1f),
            i_bits := lo8 (if is_64 then 64 else 32), i_flags := lo8 opcode,
            i_shift_amount := lo8 (hw * 16),
            i_immediate := shl (zext64 (fld w 5 0xffff)) (unat (hw * 16))\<rparr>)
      else Fall)"

definition dec_add_sub_immediate :: "u32 \<Rightarrow> outcome" where
  "dec_add_sub_immediate w =
     (if matches w 0x1f000000 0x11000000 then
        let is_64 = flag w 31;
            imm = zext64 (fld w 10 0xfff);
            sft = (if fld w 22 3 = 1 then 12 else 0 :: u32) in
        Accept ((instr_init w)\<lparr>i_kind := AVZ_NATIVE_OP_ADD_SUB_IMMEDIATE,
            i_rd := lo8 (w AND 0x1f), i_rn := lo8 (fld w 5 0x1f),
            i_bits := lo8 (if is_64 then 64 else 32),
            i_flags := lo8 (of_flag (flag w 30) OR (if flag w 29 then 2 else 0)),
            i_immediate := shl imm (unat sft)\<rparr>)
      else Fall)"

definition dec_load_store_unsigned_immediate :: "u32 \<Rightarrow> outcome" where
  "dec_load_store_unsigned_immediate w =
     (if w AND 0xffc00000 \<in> {0x39000000, 0x39400000, 0x39800000, 0x39c00000, 0x79000000,
         0x79400000, 0x79800000, 0x79c00000, 0xb9000000, 0xb9400000, 0xb9800000, 0xf9000000,
         0xf9400000, 0xf9800000} then
        let masked = w AND 0xffc00000 in
        if masked = 0xf9800000 then
          Accept ((instr_init w)\<lparr>i_kind := AVZ_NATIVE_OP_NOP\<rparr>)
        else
        let sz = fld w 30 3;
            width = shl 1 (unat sz);
            sign_extend = False;
            result32 = False;
            is_load = flag w 22;
            imm12 = zext64 (fld w 10 0xfff) in
        let (sign_extend, is_load, result32) =
              if masked \<in> {0x39800000, 0x79800000, 0xb9800000} then (True, True, result32)
              else if masked \<in> {0x39c00000, 0x79c00000} then (True, True, True)
              else (sign_extend, is_load, result32) in
        Accept ((instr_init w)\<lparr>i_kind := AVZ_NATIVE_OP_LOAD_STORE_UNSIGNED_IMMEDIATE,
            i_rt := lo8 (w AND 0x1f), i_rn := lo8 (fld w 5 0x1f), i_width := lo8 width,
            i_bits := lo8 (width * 8),
            i_flags := lo8 (of_flag is_load OR (if sign_extend then 2 else 0) OR
                (if result32 then 4 else 0)),
            i_immediate := imm12 * zext64 width\<rparr>)
      else Fall)"

definition dec_simd_fp_load_store_immediate :: "u32 \<Rightarrow> outcome" where
  "dec_simd_fp_load_store_immediate w =
     (if matches w 0x3b000000 0x38000000 then
        let vector = fld w 26 1;
            sz = fld w 30 3;
            opcode = fld w 22 3;
            mode = fld w 10 3;
            scl = sz OR shl (opcode AND 2) 1 in
        if vector \<noteq> 0 \<and> scl \<le> 4 \<and> mode \<noteq> 2 then
          let imm9 = sign_extend_u64 (zext64 (fld w 12 0x1ff)) 9;
              address_offset = imm9;
              writeback_offset = 0;
              writeback = False in
          let (address_offset, writeback_offset, writeback) =
                if mode = 1 then (0, imm9, True)
                else if mode = 3 then (address_offset, imm9, True)
                else (address_offset, writeback_offset, writeback) in
          Accept ((instr_init w)\<lparr>i_kind := AVZ_NATIVE_OP_SIMD_FP_LOAD_STORE_IMMEDIATE,
              i_rt := lo8 (w AND 0x1f), i_rn := lo8 (fld w 5 0x1f),
              i_width := lo8 (shl 1 (unat scl)), i_bits := lo8 (shl 1 (unat scl) * 8),
              i_flags := lo8 (of_flag (opcode AND 1 \<noteq> 0) OR (if writeback then 8 else 0)),
              i_immediate := address_offset, i_immediate2 := writeback_offset\<rparr>)
        else Fall
      else Fall)"

definition dec_load_store_signed_immediate :: "u32 \<Rightarrow> outcome" where
  "dec_load_store_signed_immediate w =
     (if \<not> flag w 26 \<and> matches w 0x3b000000 0x38000000 \<and> \<not> matches w 0x3b200c00 0x38200800 then
        let sz = fld w 30 3;
            opcode = fld w 22 3;
            imm9 = sign_extend_u64 (zext64 (fld w 12 0x1ff)) 9;
            mode = fld w 10 3;
            width = shl 1 (unat sz);
            writeback_offset = 0;
            writeback = False in
        if opcode = 2 \<and> sz = 3 \<and> mode = 0 then
          Accept ((instr_init w)\<lparr>i_kind := AVZ_NATIVE_OP_NOP\<rparr>)
        else
        if mode \<in> {0, 2} \<or> mode = 1 \<or> mode = 3 then
          let (address_offset, writeback_offset, writeback) =
                if mode \<in> {0, 2} then (imm9, writeback_offset, writeback)
                else if mode = 1 then (0, imm9, True)
                else (imm9, imm9, True) in
          if opcode = 2 \<and> 2 < sz then Reject
          else
          if opcode = 3 \<and> 1 < sz then Reject
          else
          Accept ((instr_init w)\<lparr>i_kind := AVZ_NATIVE_OP_LOAD_STORE_SIGNED_IMMEDIATE,
              i_rt := lo8 (w AND 0x1f), i_rn := lo8 (fld w 5 0x1f), i_width := lo8 width,
              i_bits := lo8 (width * 8),
              i_flags := lo8 (of_flag (opcode \<noteq> 0) OR (if 2 \<le> opcode then 2 else 0) OR
                  (if opcode = 3 then 4 else 0) OR (if writeback then 8 else 0)),
              i_immediate := address_offset, i_immediate2 := writeback_offset\<rparr>)
        else Reject
      else Fall)"

definition dec_simd_fp_load_store_register_offset :: "u32 \<Rightarrow> outcome" where
  "dec_simd_fp_load_store_register_offset w =
     (if matches w 0x3f200c00 0x3c200800 then
        let sz = fld w 30 3;
            opcode = fld w 22 3;
            option = fld w 13 7;
            scl = sz OR shl (opcode AND 2) 1 in
        if \<not> (option = 2 \<or> option = 3 \<or> option = 6 \<or> option = 7) \<or> 4 < scl then Reject
        else
        Accept ((instr_init w)\<lparr>i_kind := AVZ_NATIVE_OP_SIMD_FP_LOAD_STORE_REGISTER_OFFSET,
            i_rt := lo8 (w AND 0x1f), i_rn := lo8 (fld w 5 0x1f), i_rm := lo8 (fld w 16 0x1f),
            i_width := lo8 (shl 1 (unat scl)), i_bits := lo8 (shl 1 (unat scl) * 8),
            i_condition := lo8 option, i_shift_amount := lo8 (if flag w 12 then scl else 0),
            i_flags := lo8 (opcode AND 1)\<rparr>)
      else Fall)"

definition dec_load_store_register_offset :: "u32 \<Rightarrow> outcome" where
  "dec_load_store_register_offset w =
     (if matches w 0x3b200c00 0x38200800 then
        let sz = fld w 30 3;
            opcode = fld w 22 3;
            option = fld w 13 7;
            sft = if flag w 12 then sz else 0;
            width = shl 1 (unat sz) in
        if \<not> (option = 2 \<or> option = 3 \<or> option = 6 \<or> option = 7) then Reject
        else
        if opcode = 2 \<and> sz = 3 then
          Accept ((instr_init w)\<lparr>i_kind := AVZ_NATIVE_OP_NOP\<rparr>)
        else
        if opcode = 2 \<and> 2 < sz then Reject
        else
        if opcode = 3 \<and> 1 < sz then Reject
        else
        Accept ((instr_init w)\<lparr>i_kind := AVZ_NATIVE_OP_LOAD_STORE_REGISTER_OFFSET,
            i_rt := lo8 (w AND 0x1f), i_rn := lo8 (fld w 5 0x1f), i_rm := lo8 (fld w 16 0x1f),
            i_width := lo8 width, i_bits := lo8 (width * 8), i_condition := lo8 option,
            i_shift_amount := lo8 sft,
            i_flags := lo8 (of_flag (opcode \<noteq> 0) OR (if 2 \<le> opcode then 2 else 0) OR
                (if opcode = 3 then 4 else 0))\<rparr>)
      else Fall)"

definition dec_load_acquire_store_release :: "u32 \<Rightarrow> outcome" where
  "dec_load_acquire_store_release w =
     (if matches w 0x3fa0fc00 0x0880fc00 then
        let sz = fld w 30 3;
            rs = fld w 16 0x1f in
        if rs \<noteq> 31 then Reject
        else
        Accept ((instr_init w)\<lparr>i_kind := AVZ_NATIVE_OP_LOAD_ACQUIRE_STORE_RELEASE,
            i_rt := lo8 (w AND 0x1f), i_rn := lo8 (fld w 5 0x1f),
            i_width := lo8 (shl 1 (unat sz)), i_bits := lo8 (shl 1 (unat sz) * 8),
            i_flags := lo8 (of_flag (flag w 22))\<rparr>)
      else Fall)"

definition dec_load_store_exclusive :: "u32 \<Rightarrow> outcome" where
  "dec_load_store_exclusive w =
     (if matches w 0x3fa07c00 0x08007c00 then
        let sz = fld w 30 3;
            rs = fld w 16 0x1f;
            is_load = flag w 22 in
        if is_load \<and> rs \<noteq> 31 then Reject
        else
        Accept ((instr_init w)\<lparr>i_kind := AVZ_NATIVE_OP_LOAD_STORE_EXCLUSIVE,
            i_rt := lo8 (w AND 0x1f), i_rn := lo8 (fld w 5 0x1f), i_rd := lo8 rs,
            i_width := lo8 (shl 1 (unat sz)), i_bits := lo8 (shl 1 (unat sz) * 8),
            i_flags := lo8 (of_flag is_load OR (if flag w 15 then 2 else 0))\<rparr>)
      else Fall)"

definition dec_load_store_exclusive_pair :: "u32 \<Rightarrow> outcome" where
  "dec_load_store_exclusive_pair w =
     (if matches w 0x3fa00000 0x08200000 then
        let sz = fld w 30 3;
            rs = fld w 16 0x1f;
            is_load = flag w 22 in
        if sz < 2 \<or> (is_load \<and> rs \<noteq> 31) then Reject
        else
        Accept ((instr_init w)\<lparr>i_kind := AVZ_NATIVE_OP_LOAD_STORE_EXCLUSIVE_PAIR,
            i_rt := lo8 (w AND 0x1f), i_rd := lo8 (fld w 10 0x1f), i_rn := lo8 (fld w 5 0x1f),
            i_rm := lo8 rs, i_width := lo8 (if sz = 2 then 4 else 8),
            i_bits := lo8 ((if sz = 2 then 4 else 8) * 8),
            i_flags := lo8 (of_flag is_load OR (if flag w 15 then 2 else 0))\<rparr>)
      else Fall)"

definition dec_simd_fp_load_store_immediate_2 :: "u32 \<Rightarrow> outcome" where
  "dec_simd_fp_load_store_immediate_2 w =
     (if w AND 0xffc00000 \<in> {0x3d000000, 0x3d400000, 0x7d000000, 0x7d400000, 0xbd000000,
         0xbd400000, 0xfd000000, 0xfd400000, 0x3d800000, 0x3dc00000} then
        let masked = w AND 0xffc00000;
            width = 1 in
        let width =
              if masked = 0x7d000000 \<or> masked = 0x7d400000 then 2
              else if masked = 0xbd000000 \<or> masked = 0xbd400000 then 4
              else if masked = 0xfd000000 \<or> masked = 0xfd400000 then 8
              else if masked = 0x3d800000 \<or> masked = 0x3dc00000 then 16
              else width in
        Accept ((instr_init w)\<lparr>i_kind := AVZ_NATIVE_OP_SIMD_FP_LOAD_STORE_IMMEDIATE,
            i_rt := lo8 (w AND 0x1f), i_rn := lo8 (fld w 5 0x1f), i_width := lo8 width,
            i_bits := lo8 (width * 8),
            i_flags := lo8 (of_flag (masked AND 0x00400000 \<noteq> 0)),
            i_immediate := zext64 (fld w 10 0xfff) * zext64 width\<rparr>)
      else Fall)"

subsection \<open>Well-formedness\<close>

text \<open>The blocks of this theory, in the order of the code.\<close>

definition scalar_blocks :: "(u32 \<Rightarrow> outcome) list" where
  "scalar_blocks =
     [dec_wait, dec_nop, dec_barrier, dec_pstate_immediate, dec_halt, dec_exception_return,
     dec_synchronous_exception, dec_system_register_read, dec_system_register_write,
     dec_system_instruction, dec_adr, dec_cbz, dec_tbz, dec_bcond,
     dec_conditional_compare_register, dec_conditional_compare_immediate, dec_conditional_select,
     dec_add_sub_shifted_register, dec_add_sub_carry, dec_logical_shifted_register,
     dec_extract_register, dec_logical_immediate, dec_register_branch, dec_bitfield_move,
     dec_data_processing_one_source, dec_data_processing_two_source, dec_multiply_add_subtract,
     dec_signed_multiply_long_add_subtract, dec_unsigned_multiply_long_add_subtract,
     dec_signed_multiply_high, dec_unsigned_multiply_high, dec_add_sub_extended_register,
     dec_load_literal, dec_move_wide, dec_add_sub_immediate, dec_load_store_unsigned_immediate,
     dec_simd_fp_load_store_immediate, dec_load_store_signed_immediate,
     dec_simd_fp_load_store_register_offset, dec_load_store_register_offset,
     dec_load_acquire_store_release, dec_load_store_exclusive, dec_load_store_exclusive_pair,
     dec_simd_fp_load_store_immediate_2]"

lemmas scalar_block_defs =
  dec_wait_def dec_nop_def dec_barrier_def dec_pstate_immediate_def dec_halt_def
  dec_exception_return_def dec_synchronous_exception_def dec_system_register_read_def
  dec_system_register_write_def dec_system_instruction_def dec_adr_def dec_cbz_def dec_tbz_def
  dec_bcond_def dec_conditional_compare_register_def dec_conditional_compare_immediate_def
  dec_conditional_select_def dec_add_sub_shifted_register_def dec_add_sub_carry_def
  dec_logical_shifted_register_def dec_extract_register_def dec_logical_immediate_def
  dec_register_branch_def dec_bitfield_move_def dec_data_processing_one_source_def
  dec_data_processing_two_source_def dec_multiply_add_subtract_def
  dec_signed_multiply_long_add_subtract_def dec_unsigned_multiply_long_add_subtract_def
  dec_signed_multiply_high_def dec_unsigned_multiply_high_def dec_add_sub_extended_register_def
  dec_load_literal_def dec_move_wide_def dec_add_sub_immediate_def
  dec_load_store_unsigned_immediate_def dec_simd_fp_load_store_immediate_def
  dec_load_store_signed_immediate_def dec_simd_fp_load_store_register_offset_def
  dec_load_store_register_offset_def dec_load_acquire_store_release_def
  dec_load_store_exclusive_def dec_load_store_exclusive_pair_def
  dec_simd_fp_load_store_immediate_2_def

lemma dec_add_sub_shifted_register_wf: "outcome_ok (instr_wf w) (dec_add_sub_shifted_register w)"
  unfolding dec_add_sub_shifted_register_def
  by (intro outcome_ok_rules; clarsimp simp: wf_simps move_wide_shift split: if_splits;
      auto simp: move_wide_shift not_less not_le)

lemma dec_logical_shifted_register_wf: "outcome_ok (instr_wf w) (dec_logical_shifted_register w)"
  unfolding dec_logical_shifted_register_def
  by (intro outcome_ok_rules; clarsimp simp: wf_simps move_wide_shift split: if_splits;
      auto simp: move_wide_shift not_less not_le)

lemma dec_extract_register_wf: "outcome_ok (instr_wf w) (dec_extract_register w)"
  unfolding dec_extract_register_def
  by (intro outcome_ok_rules; clarsimp simp: wf_simps move_wide_shift split: if_splits;
      auto simp: move_wide_shift not_less not_le)

lemma dec_move_wide_wf: "outcome_ok (instr_wf w) (dec_move_wide w)"
  unfolding dec_move_wide_def
  by (intro outcome_ok_rules; clarsimp simp: wf_simps move_wide_shift split: if_splits;
      auto simp: move_wide_shift not_less not_le)

lemma scalar_blocks_wf: "list_all (\<lambda>f. outcome_ok (instr_wf w) (f w)) scalar_blocks"
  unfolding scalar_blocks_def list.pred_inject
  by (intro conjI list.pred_inject(1) dec_add_sub_shifted_register_wf dec_logical_shifted_register_wf dec_extract_register_wf dec_move_wide_wf;
      unfold scalar_block_defs; intro outcome_ok_rules; simp add: wf_simps)

end
