(* ===== verification/DecodeVector.thy ===== *)
theory DecodeVector
  imports DecodeBase
begin

text \<open>
  The decoder's blocks for the vector element moves, the immediate shifts, the across-lane
  reductions and the structure loads and stores.
\<close>

definition dec_simd_move_vector_element_to_general :: "u32 \<Rightarrow> outcome" where
  "dec_simd_move_vector_element_to_general w =
     (if matches w 0xbfe0fc00 0x0e003c00 \<or> matches w 0xbfe0fc00 0x0e002c00 then
        let imm5 = fld w 16 0x1f;
            q = fld w 30 1;
            signed_move = \<not> flag w 12 in
        if imm5 = 0 then Reject
        else
        let trailing = trailing_zeros imm5;
            element_bits = shl 8 trailing;
            lane = shr imm5 (trailing + 1) in
        if (if signed_move then (if q \<noteq> 0 then 64 else 32) \<le> element_bits else 64 < element_bits \<or>
            (element_bits = 64) \<noteq> (q \<noteq> 0)) then Reject
        else
        Accept ((instr_init w)\<lparr>i_kind := AVZ_NATIVE_OP_SIMD_MOVE_VECTOR_ELEMENT_TO_GENERAL,
            i_rd := lo8 (w AND 0x1f), i_rn := lo8 (fld w 5 0x1f), i_bits := lo8 element_bits,
            i_condition := lo8 lane, i_flags := lo8 (of_flag signed_move OR shl q 1)\<rparr>)
      else Fall)"

definition dec_simd_duplicate_vector_element :: "u32 \<Rightarrow> outcome" where
  "dec_simd_duplicate_vector_element w =
     (if matches w 0xffe0fc00 0x5e000400 then
        let imm5 = fld w 16 0x1f in
        if imm5 = 0 then Reject
        else
        let trailing = trailing_zeros imm5;
            element_bits = shl 8 trailing;
            lane = shr imm5 (trailing + 1) in
        if 64 < element_bits \<or> 128 div element_bits \<le> lane then Reject
        else
        Accept ((instr_init w)\<lparr>i_kind := AVZ_NATIVE_OP_SIMD_DUPLICATE_VECTOR_ELEMENT,
            i_rd := lo8 (w AND 0x1f), i_rn := lo8 (fld w 5 0x1f), i_bits := lo8 element_bits,
            i_condition := lo8 lane, i_flags := 2\<rparr>)
      else Fall)"

definition dec_simd_duplicate_vector_element_2 :: "u32 \<Rightarrow> outcome" where
  "dec_simd_duplicate_vector_element_2 w =
     (if matches w 0xbf20fc00 0x0e000400 then
        let imm5 = fld w 16 0x1f;
            q = fld w 30 1 in
        if imm5 = 0 then Reject
        else
        let trailing = trailing_zeros imm5;
            element_bits = shl 8 trailing;
            lane = shr imm5 (trailing + 1);
            vector_bits = (if q \<noteq> 0 then 128 else 64 :: u32) in
        if 64 < element_bits \<or> vector_bits < element_bits \<or> 128 div element_bits \<le> lane then Reject
        else
        Accept ((instr_init w)\<lparr>i_kind := AVZ_NATIVE_OP_SIMD_DUPLICATE_VECTOR_ELEMENT,
            i_rd := lo8 (w AND 0x1f), i_rn := lo8 (fld w 5 0x1f), i_bits := lo8 element_bits,
            i_condition := lo8 lane, i_flags := lo8 q\<rparr>)
      else Fall)"

definition dec_simd_scalar_shift_left_immediate :: "u32 \<Rightarrow> outcome" where
  "dec_simd_scalar_shift_left_immediate w =
     (if matches w 0xff80fc00 0x5f005400 then
        let encoded_shift = fld w 16 0x7f in
        if encoded_shift < 64 then Reject
        else
        Accept ((instr_init w)\<lparr>i_kind := AVZ_NATIVE_OP_SIMD_SCALAR_SHIFT_LEFT_IMMEDIATE,
            i_rd := lo8 (w AND 0x1f), i_rn := lo8 (fld w 5 0x1f), i_bits := 64,
            i_shift_amount := lo8 (encoded_shift - 64)\<rparr>)
      else Fall)"

definition dec_simd_shift_left_immediate :: "u32 \<Rightarrow> outcome" where
  "dec_simd_shift_left_immediate w =
     (if w AND 0x00780000 \<noteq> 0 \<and> (matches w 0xbf80fc00 0x0f005400 \<or>
         matches w 0xbf80fc00 0x2f005400) then
        let encoded_shift = fld w 16 0x7f;
            q = fld w 30 1 in
        if encoded_shift < 8 then Reject
        else
        let element_bits = 64 in
        let element_bits =
              if encoded_shift < 16 then 8
              else if encoded_shift < 32 then 16
              else if encoded_shift < 64 then 32
              else element_bits in
        if element_bits = 64 \<and> q = 0 then Reject
        else
        Accept ((instr_init w)\<lparr>i_kind := AVZ_NATIVE_OP_SIMD_SHIFT_LEFT_IMMEDIATE,
            i_rd := lo8 (w AND 0x1f), i_rn := lo8 (fld w 5 0x1f), i_bits := lo8 element_bits,
            i_shift_amount := lo8 (encoded_shift - element_bits),
            i_flags := lo8 (q OR (if flag w 29 then 2 else 0))\<rparr>)
      else Fall)"

definition dec_simd_narrow_high :: "u32 \<Rightarrow> outcome" where
  "dec_simd_narrow_high w =
     (if matches w 0xbf80f400 0x0f008400 then
        let encoded_shift = fld w 16 0x7f;
            source_bits = 0 in
        let source_bits =
              if 8 \<le> encoded_shift \<and> encoded_shift < 16 then 16
              else if 16 \<le> encoded_shift \<and> encoded_shift < 32 then 32
              else if 32 \<le> encoded_shift \<and> encoded_shift < 64 then 64
              else source_bits in
        if source_bits \<noteq> 0 then
          Accept ((instr_init w)\<lparr>i_kind := AVZ_NATIVE_OP_SIMD_NARROW_HIGH,
              i_rd := lo8 (w AND 0x1f), i_rn := lo8 (fld w 5 0x1f), i_bits := lo8 source_bits,
              i_shift_amount := lo8 (source_bits - encoded_shift),
              i_flags := lo8 (8 OR fld w 30 1 OR (if flag w 11 then 16 else 0))\<rparr>)
        else Fall
      else Fall)"

definition dec_simd_shift_right_immediate :: "u32 \<Rightarrow> outcome" where
  "dec_simd_shift_right_immediate w =
    (let scalar_masked = w AND 0xdf80fc00;
         vector_masked = w AND 0x9f80fc00;
         is_scalar = scalar_masked = 0x5f000400 \<or> scalar_masked = 0x5f001400 \<or>
             scalar_masked = 0x5f002400 \<or> scalar_masked = 0x5f003400;
         is_vector = vector_masked = 0x0f000400 \<or> vector_masked = 0x0f001400 \<or>
             vector_masked = 0x0f002400 \<or> vector_masked = 0x0f003400 \<or> vector_masked = 0x0f004400 in
     if is_scalar \<or> is_vector then
       let encoded_shift = fld w 16 0x7f;
           element_bits = 64 in
       let element_bits =
             if encoded_shift < 8 then 0
             else if encoded_shift < 16 then 8
             else if encoded_shift < 32 then 16
             else if encoded_shift < 64 then 32
             else element_bits in
       let q = fld w 30 1 in
       if element_bits \<noteq> 0 \<and> (\<not> is_scalar \<or> element_bits = 64) \<and> (\<not> is_vector \<or> element_bits \<noteq> 64 \<or>
           q \<noteq> 0) then
         let operation = if is_scalar then scalar_masked else vector_masked in
         Accept ((instr_init w)\<lparr>i_kind := AVZ_NATIVE_OP_SIMD_SHIFT_RIGHT_IMMEDIATE,
             i_rd := lo8 (w AND 0x1f), i_rn := lo8 (fld w 5 0x1f), i_bits := lo8 element_bits,
             i_shift_amount := lo8 ((element_bits * 2) - encoded_shift),
             i_flags := lo8 (of_flag (is_vector \<and> q \<noteq> 0) OR (if flag w 29 then 2 else 0) OR
                 (if is_scalar then 4 else 0) OR (if operation = 0x0f004400 then 8 else 0) OR
                 (if operation = 0x0f002400 \<or> operation = 0x0f003400 \<or> operation = 0x5f002400 \<or>
                 operation = 0x5f003400 then 16 else 0) OR (if operation = 0x0f001400 \<or>
                 operation = 0x0f003400 \<or> operation = 0x5f001400 \<or>
                 operation = 0x5f003400 then 32 else 0))\<rparr>)
       else Fall
     else Fall)"

definition dec_simd_add_across_vector :: "u32 \<Rightarrow> outcome" where
  "dec_simd_add_across_vector w =
     (if matches w 0x9f3efc00 0x0e30a800 then
        let q = fld w 30 1;
            sz = fld w 22 3 in
        if 2 < sz \<or> (sz = 2 \<and> q = 0) then Reject
        else
        Accept ((instr_init w)\<lparr>i_kind := AVZ_NATIVE_OP_SIMD_ADD_ACROSS_VECTOR,
            i_rd := lo8 (w AND 0x1f), i_rn := lo8 (fld w 5 0x1f),
            i_bits := lo8 (shl 8 (unat sz)),
            i_flags := lo8 (q OR (if flag w 29 then 4 else 0) OR 8 OR
                (if flag w 16 then 16 else 0))\<rparr>)
      else Fall)"

definition dec_simd_add_across_vector_2 :: "u32 \<Rightarrow> outcome" where
  "dec_simd_add_across_vector_2 w =
     (if matches w 0xbf3ffc00 0x0e31b800 then
        let q = fld w 30 1;
            sz = fld w 22 3 in
        if 2 < sz \<or> (sz = 2 \<and> q = 0) then Reject
        else
        Accept ((instr_init w)\<lparr>i_kind := AVZ_NATIVE_OP_SIMD_ADD_ACROSS_VECTOR,
            i_rd := lo8 (w AND 0x1f), i_rn := lo8 (fld w 5 0x1f),
            i_bits := lo8 (shl 8 (unat sz)), i_flags := lo8 q\<rparr>)
      else Fall)"

definition dec_simd_add_across_vector_3 :: "u32 \<Rightarrow> outcome" where
  "dec_simd_add_across_vector_3 w =
     (if matches w 0x9f3ffc00 0x0e303800 then
        let q = fld w 30 1;
            sz = fld w 22 3 in
        if 2 < sz \<or> (sz = 2 \<and> q = 0) then Reject
        else
        Accept ((instr_init w)\<lparr>i_kind := AVZ_NATIVE_OP_SIMD_ADD_ACROSS_VECTOR,
            i_rd := lo8 (w AND 0x1f), i_rn := lo8 (fld w 5 0x1f),
            i_bits := lo8 (shl 8 (unat sz)),
            i_flags := lo8 (q OR 2 OR (if flag w 29 then 4 else 0))\<rparr>)
      else Fall)"

definition dec_simd_pairwise_add_long :: "u32 \<Rightarrow> outcome" where
  "dec_simd_pairwise_add_long w =
     (if matches w 0x9f3fbc00 0x0e202800 then
        let sz = fld w 22 3 in
        if 2 < sz then Reject
        else
        Accept ((instr_init w)\<lparr>i_kind := AVZ_NATIVE_OP_SIMD_PAIRWISE_ADD_LONG,
            i_rd := lo8 (w AND 0x1f), i_rn := lo8 (fld w 5 0x1f),
            i_bits := lo8 (shl 8 (unat sz)),
            i_flags := lo8 (of_flag (flag w 30) OR (if flag w 29 then 2 else 0) OR
                (if flag w 14 then 4 else 0))\<rparr>)
      else Fall)"

definition dec_simd_load_store_single_structure_lane :: "u32 \<Rightarrow> outcome" where
  "dec_simd_load_store_single_structure_lane w =
     (if matches w 0xbf000000 0x0d000000 then
        let post_index = fld w 23 1;
            offset_register = fld w 16 0x1f;
            opcode = fld w 13 7;
            s = fld w 12 1;
            sz = fld w 10 3;
            q = fld w 30 1;
            structure_count = shl (opcode AND 1) 1 OR fld w 21 1 in
        let structure_count = structure_count + 1 in
        let scl = shr opcode 1;
            replicates = scl = 3 in
        if post_index = 0 \<and> offset_register \<noteq> 0 then Reject
        else
        if replicates \<and> (\<not> flag w 22 \<or> s \<noteq> 0) then Reject
        else
        if replicates \<or> scl = 0 \<or> (scl = 1 \<and> sz AND 1 = 0) \<or> (scl = 2 \<and> sz = 0) \<or> (scl = 2 \<and>
            sz = 1 \<and> s = 0) then
          let (width, lane) =
                if replicates then (shl 1 (unat sz), 0)
                else if scl = 0 then (1, shl q 3 OR shl s 2 OR sz)
                else if scl = 1 \<and> sz AND 1 = 0 then (2, shl q 2 OR shl s 1 OR shr sz 1)
                else if scl = 2 \<and> sz = 0 then (4, shl q 1 OR s)
                else (8, q) in
          Accept ((instr_init w)\<lparr>i_kind := AVZ_NATIVE_OP_SIMD_LOAD_STORE_SINGLE_STRUCTURE_LANE,
              i_rd := lo8 structure_count, i_rt := lo8 (w AND 0x1f),
              i_rn := lo8 (fld w 5 0x1f), i_rm := lo8 offset_register, i_width := lo8 width,
              i_bits := lo8 (width * 8), i_condition := lo8 lane,
              i_flags := lo8 (of_flag (flag w 22) OR (if replicates then 32 else 0) OR
                  (if q \<noteq> 0 then 64 else 0) OR (if post_index \<noteq> 0 then 8 else 0) OR
                  (if post_index \<noteq> 0 \<and> offset_register \<noteq> 31 then 16 else 0))\<rparr>)
        else Reject
      else Fall)"

definition dec_simd_load_store_multiple_structure :: "u32 \<Rightarrow> outcome" where
  "dec_simd_load_store_multiple_structure w =
     (if matches w 0xbf200000 0x0c000000 then
        let post_index = fld w 23 1;
            offset_register = fld w 16 0x1f;
            opcode = fld w 12 0xf in
        if opcode = 0 \<or> opcode = 4 \<or> opcode = 8 \<or> opcode = 7 \<or> opcode = 10 \<or> opcode = 6 \<or>
            opcode = 2 then
          let register_count =
                if opcode = 0 then 4
                else if opcode = 4 then 3
                else if opcode = 8 then 2
                else if opcode = 7 then 1
                else if opcode = 10 then 2
                else if opcode = 6 then 3
                else 4 in
          if post_index = 0 \<and> offset_register \<noteq> 0 then Reject
          else
          Accept ((instr_init w)\<lparr>i_kind := AVZ_NATIVE_OP_SIMD_LOAD_STORE_MULTIPLE_STRUCTURE,
              i_rt := lo8 (w AND 0x1f), i_rn := lo8 (fld w 5 0x1f),
              i_rm := lo8 offset_register, i_width := lo8 (if flag w 30 then 16 else 8),
              i_bits := lo8 (shl 8 (unat (fld w 10 3))), i_condition := lo8 register_count,
              i_flags := lo8 (of_flag (flag w 22) OR (if post_index \<noteq> 0 then 8 else 0) OR
                  (if post_index \<noteq> 0 \<and> offset_register \<noteq> 31 then 16 else 0) OR (if opcode = 0 \<or>
                  opcode = 4 \<or> opcode = 8 then 32 else 0))\<rparr>)
        else Reject
      else Fall)"

subsection \<open>Well-formedness\<close>

text \<open>The blocks of this theory, in the order of the code.\<close>

definition vector_blocks :: "(u32 \<Rightarrow> outcome) list" where
  "vector_blocks =
     [dec_simd_move_vector_element_to_general, dec_simd_duplicate_vector_element,
     dec_simd_duplicate_vector_element_2, dec_simd_scalar_shift_left_immediate,
     dec_simd_shift_left_immediate, dec_simd_narrow_high, dec_simd_shift_right_immediate,
     dec_simd_add_across_vector, dec_simd_add_across_vector_2, dec_simd_add_across_vector_3,
     dec_simd_pairwise_add_long, dec_simd_load_store_single_structure_lane,
     dec_simd_load_store_multiple_structure]"

lemmas vector_block_defs =
  dec_simd_move_vector_element_to_general_def dec_simd_duplicate_vector_element_def
  dec_simd_duplicate_vector_element_2_def dec_simd_scalar_shift_left_immediate_def
  dec_simd_shift_left_immediate_def dec_simd_narrow_high_def dec_simd_shift_right_immediate_def
  dec_simd_add_across_vector_def dec_simd_add_across_vector_2_def
  dec_simd_add_across_vector_3_def dec_simd_pairwise_add_long_def
  dec_simd_load_store_single_structure_lane_def dec_simd_load_store_multiple_structure_def

lemma dec_simd_load_store_single_structure_lane_wf: "outcome_ok (instr_wf w) (dec_simd_load_store_single_structure_lane w)"
  unfolding dec_simd_load_store_single_structure_lane_def
  by (intro outcome_ok_rules;
      clarsimp simp: wf_simps structure_count element_rm element_rm[simplified] split: if_splits)

lemma vector_blocks_wf: "list_all (\<lambda>f. outcome_ok (instr_wf w) (f w)) vector_blocks"
  unfolding vector_blocks_def list.pred_inject
  by (intro conjI list.pred_inject(1) dec_simd_load_store_single_structure_lane_wf;
      unfold vector_block_defs; intro outcome_ok_rules; simp add: wf_simps)

end
