(* ===== verification/DecodeFloat.thy ===== *)
theory DecodeFloat
  imports DecodeBase
begin

text \<open>
  The decoder's blocks for the scalar and vector floating point classes. Only the decoding
  is modelled: the arithmetic of these instructions is not (see the header of the root theory).
\<close>

definition dec_fp_scalar_general_move :: "u32 \<Rightarrow> outcome" where
  "dec_fp_scalar_general_move w =
     (if matches w 0xfffffc00 0x1e270000 then
        Accept ((instr_init w)\<lparr>i_kind := AVZ_NATIVE_OP_FP_SCALAR_GENERAL_MOVE,
            i_rd := lo8 (w AND 0x1f), i_rn := lo8 (fld w 5 0x1f), i_flags := 0\<rparr>)
      else Fall)"

definition dec_fp_scalar_general_move_2 :: "u32 \<Rightarrow> outcome" where
  "dec_fp_scalar_general_move_2 w =
     (if matches w 0xfffffc00 0x1e260000 then
        Accept ((instr_init w)\<lparr>i_kind := AVZ_NATIVE_OP_FP_SCALAR_GENERAL_MOVE,
            i_rd := lo8 (w AND 0x1f), i_rn := lo8 (fld w 5 0x1f), i_flags := 1\<rparr>)
      else Fall)"

definition dec_fp_scalar_general_move_3 :: "u32 \<Rightarrow> outcome" where
  "dec_fp_scalar_general_move_3 w =
     (if matches w 0xfffffc00 0x9e670000 then
        Accept ((instr_init w)\<lparr>i_kind := AVZ_NATIVE_OP_FP_SCALAR_GENERAL_MOVE,
            i_rd := lo8 (w AND 0x1f), i_rn := lo8 (fld w 5 0x1f), i_flags := 2\<rparr>)
      else Fall)"

definition dec_fp_scalar_general_move_4 :: "u32 \<Rightarrow> outcome" where
  "dec_fp_scalar_general_move_4 w =
     (if matches w 0xfffffc00 0x9e660000 then
        Accept ((instr_init w)\<lparr>i_kind := AVZ_NATIVE_OP_FP_SCALAR_GENERAL_MOVE,
            i_rd := lo8 (w AND 0x1f), i_rn := lo8 (fld w 5 0x1f), i_flags := 3\<rparr>)
      else Fall)"

definition dec_fp_scalar_general_move_5 :: "u32 \<Rightarrow> outcome" where
  "dec_fp_scalar_general_move_5 w =
     (if matches w 0xfffffc00 0x9eaf0000 then
        Accept ((instr_init w)\<lparr>i_kind := AVZ_NATIVE_OP_FP_SCALAR_GENERAL_MOVE,
            i_rd := lo8 (w AND 0x1f), i_rn := lo8 (fld w 5 0x1f), i_flags := 4\<rparr>)
      else Fall)"

definition dec_fp_scalar_general_move_6 :: "u32 \<Rightarrow> outcome" where
  "dec_fp_scalar_general_move_6 w =
     (if matches w 0xfffffc00 0x9eae0000 then
        Accept ((instr_init w)\<lparr>i_kind := AVZ_NATIVE_OP_FP_SCALAR_GENERAL_MOVE,
            i_rd := lo8 (w AND 0x1f), i_rn := lo8 (fld w 5 0x1f), i_flags := 5\<rparr>)
      else Fall)"

definition dec_fp_scalar_register_move :: "u32 \<Rightarrow> outcome" where
  "dec_fp_scalar_register_move w =
     (if w AND 0xfffffc00 \<in> {0x1e204000, 0x1e604000} then
        Accept ((instr_init w)\<lparr>i_kind := AVZ_NATIVE_OP_FP_SCALAR_REGISTER_MOVE,
            i_rd := lo8 (w AND 0x1f), i_rn := lo8 (fld w 5 0x1f),
            i_flags := lo8 (of_flag (flag w 22))\<rparr>)
      else Fall)"

definition dec_fp_scalar_convert_precision :: "u32 \<Rightarrow> outcome" where
  "dec_fp_scalar_convert_precision w =
     (if matches w 0xfffffc00 0x1e624000 then
        Accept ((instr_init w)\<lparr>i_kind := AVZ_NATIVE_OP_FP_SCALAR_CONVERT_PRECISION,
            i_rd := lo8 (w AND 0x1f), i_rn := lo8 (fld w 5 0x1f), i_flags := 0\<rparr>)
      else Fall)"

definition dec_fp_scalar_convert_precision_2 :: "u32 \<Rightarrow> outcome" where
  "dec_fp_scalar_convert_precision_2 w =
     (if matches w 0xfffffc00 0x1e22c000 then
        Accept ((instr_init w)\<lparr>i_kind := AVZ_NATIVE_OP_FP_SCALAR_CONVERT_PRECISION,
            i_rd := lo8 (w AND 0x1f), i_rn := lo8 (fld w 5 0x1f), i_flags := 1\<rparr>)
      else Fall)"

definition dec_fp_scalar_unary :: "u32 \<Rightarrow> outcome" where
  "dec_fp_scalar_unary w =
     (if w AND 0xfffffc00 \<in> {0x1e20c000, 0x1e60c000, 0x1e214000, 0x1e614000, 0x1e21c000,
         0x1e61c000} then
        let masked = w AND 0xfffffc00;
            operation = 0 in
        let operation =
              if masked = 0x1e214000 \<or> masked = 0x1e614000 then 1
              else if masked = 0x1e21c000 \<or> masked = 0x1e61c000 then 2
              else operation in
        Accept ((instr_init w)\<lparr>i_kind := AVZ_NATIVE_OP_FP_SCALAR_UNARY,
            i_rd := lo8 (w AND 0x1f), i_rn := lo8 (fld w 5 0x1f),
            i_flags := lo8 (operation OR (if flag w 22 then 4 else 0))\<rparr>)
      else Fall)"

definition dec_fp_scalar_round_integral :: "u32 \<Rightarrow> outcome" where
  "dec_fp_scalar_round_integral w =
     (if w AND 0xfffffc00 \<in> {0x1e244000, 0x1e644000, 0x1e24c000, 0x1e64c000, 0x1e254000,
         0x1e654000, 0x1e25c000, 0x1e65c000, 0x1e264000, 0x1e664000, 0x1e274000, 0x1e674000,
         0x1e27c000, 0x1e67c000} then
        let masked = w AND 0xfffffc00 in
        let operation =
              if masked = 0x1e244000 \<or> masked = 0x1e644000 then 1
              else if masked = 0x1e24c000 \<or> masked = 0x1e64c000 then 2
              else if masked = 0x1e254000 \<or> masked = 0x1e654000 then 3
              else if masked = 0x1e25c000 \<or> masked = 0x1e65c000 then 0
              else if masked = 0x1e264000 \<or> masked = 0x1e664000 then 4
              else 5 in
        Accept ((instr_init w)\<lparr>i_kind := AVZ_NATIVE_OP_FP_SCALAR_ROUND_INTEGRAL,
            i_rd := lo8 (w AND 0x1f), i_rn := lo8 (fld w 5 0x1f),
            i_flags := lo8 (operation OR (if flag w 22 then 8 else 0))\<rparr>)
      else Fall)"

definition dec_simd_scalar_signed_integer_to_fp :: "u32 \<Rightarrow> outcome" where
  "dec_simd_scalar_signed_integer_to_fp w =
     (if w AND 0xfffffc00 \<in> {0x5e21d800, 0x5e61d800, 0x7e21d800, 0x7e61d800} then
        Accept ((instr_init w)\<lparr>i_kind := AVZ_NATIVE_OP_SIMD_SCALAR_SIGNED_INTEGER_TO_FP,
            i_rd := lo8 (w AND 0x1f), i_rn := lo8 (fld w 5 0x1f),
            i_flags := lo8 (of_flag (flag w 22) OR (if flag w 29 then 2 else 0))\<rparr>)
      else Fall)"

definition dec_simd_fp_convert_narrow_widen :: "u32 \<Rightarrow> outcome" where
  "dec_simd_fp_convert_narrow_widen w =
     (if w AND 0xbffffc00 \<in> {0x0e616800, 0x0e617800} then
        Accept ((instr_init w)\<lparr>i_kind := AVZ_NATIVE_OP_SIMD_FP_CONVERT_NARROW_WIDEN,
            i_rd := lo8 (w AND 0x1f), i_rn := lo8 (fld w 5 0x1f),
            i_flags := lo8 (of_flag (w AND 0x00001000 \<noteq> 0) OR (if flag w 30 then 2 else 0))\<rparr>)
      else Fall)"

definition dec_simd_scalar_signed_integer_to_fp_2 :: "u32 \<Rightarrow> outcome" where
  "dec_simd_scalar_signed_integer_to_fp_2 w =
     (if w AND 0xbffffc00 \<in> {0x0e21d800, 0x0e61d800, 0x2e21d800, 0x2e61d800} then
        let q = fld w 30 1;
            is_double = fld w 22 1 in
        if is_double \<noteq> 0 \<and> q = 0 then Reject
        else
        Accept ((instr_init w)\<lparr>i_kind := AVZ_NATIVE_OP_SIMD_SCALAR_SIGNED_INTEGER_TO_FP,
            i_rd := lo8 (w AND 0x1f), i_rn := lo8 (fld w 5 0x1f),
            i_flags := lo8 (is_double OR (if flag w 29 then 2 else 0) OR 4 OR shl q 3)\<rparr>)
      else Fall)"

definition dec_fp_scalar_immediate_move :: "u32 \<Rightarrow> outcome" where
  "dec_fp_scalar_immediate_move w =
     (if matches w 0xffe01fe0 0x1e201000 \<or> matches w 0xffe01fe0 0x1e601000 then
        Accept ((instr_init w)\<lparr>i_kind := AVZ_NATIVE_OP_FP_SCALAR_IMMEDIATE_MOVE,
            i_rd := lo8 (w AND 0x1f), i_immediate := zext64 (fld w 13 0xff),
            i_flags := lo8 (of_flag (flag w 22))\<rparr>)
      else Fall)"

definition dec_fp_integer_to_scalar_fp :: "u32 \<Rightarrow> outcome" where
  "dec_fp_integer_to_scalar_fp w =
     (if w AND 0x7f3f0000 \<in> {0x1e020000, 0x1e030000} then
        let source_bits = (if flag w 31 then 64 else 32 :: u32);
            fractional_bits = 64 - fld w 10 0x3f in
        if fractional_bits = 0 \<or> source_bits < fractional_bits then Reject
        else
        Accept ((instr_init w)\<lparr>i_kind := AVZ_NATIVE_OP_FP_INTEGER_TO_SCALAR_FP,
            i_rd := lo8 (w AND 0x1f), i_rn := lo8 (fld w 5 0x1f),
            i_shift_amount := lo8 (fractional_bits AND 0xff),
            i_flags := lo8 (of_flag (flag w 22) OR (if flag w 31 then 2 else 0) OR
                (if flag w 16 then 4 else 0))\<rparr>)
      else Fall)"

definition dec_fp_integer_to_scalar_fp_2 :: "u32 \<Rightarrow> outcome" where
  "dec_fp_integer_to_scalar_fp_2 w =
     (if w AND 0x7fbffc00 \<in> {0x1e220000, 0x1e230000} then
        Accept ((instr_init w)\<lparr>i_kind := AVZ_NATIVE_OP_FP_INTEGER_TO_SCALAR_FP,
            i_rd := lo8 (w AND 0x1f), i_rn := lo8 (fld w 5 0x1f),
            i_flags := lo8 (of_flag (flag w 22) OR (if flag w 31 then 2 else 0) OR
                (if flag w 16 then 4 else 0))\<rparr>)
      else Fall)"

definition dec_fp_scalar_fused_multiply_add :: "u32 \<Rightarrow> outcome" where
  "dec_fp_scalar_fused_multiply_add w =
     (if matches w 0xff800000 0x1f000000 then
        Accept ((instr_init w)\<lparr>i_kind := AVZ_NATIVE_OP_FP_SCALAR_FUSED_MULTIPLY_ADD,
            i_rd := lo8 (w AND 0x1f), i_rn := lo8 (fld w 5 0x1f), i_rt := lo8 (fld w 10 0x1f),
            i_rm := lo8 (fld w 16 0x1f),
            i_flags := lo8 (of_flag (flag w 15) OR (if flag w 21 then 2 else 0) OR
                (if flag w 22 then 4 else 0))\<rparr>)
      else Fall)"

definition dec_simd_scalar_fp_absolute_difference :: "u32 \<Rightarrow> outcome" where
  "dec_simd_scalar_fp_absolute_difference w =
     (if matches w 0xbfa0fc00 0x2ea0d400 then
        let q = fld w 30 1;
            is_double = fld w 22 1 in
        if is_double \<noteq> 0 \<and> q = 0 then Reject
        else
        Accept ((instr_init w)\<lparr>i_kind := AVZ_NATIVE_OP_SIMD_SCALAR_FP_ABSOLUTE_DIFFERENCE,
            i_rd := lo8 (w AND 0x1f), i_rn := lo8 (fld w 5 0x1f), i_rm := lo8 (fld w 16 0x1f),
            i_flags := lo8 (is_double OR 2 OR shl q 2)\<rparr>)
      else Fall)"

definition dec_simd_scalar_fp_absolute_difference_2 :: "u32 \<Rightarrow> outcome" where
  "dec_simd_scalar_fp_absolute_difference_2 w =
     (if w AND 0xffe0fc00 \<in> {0x7ea0d400, 0x7ee0d400} then
        Accept ((instr_init w)\<lparr>i_kind := AVZ_NATIVE_OP_SIMD_SCALAR_FP_ABSOLUTE_DIFFERENCE,
            i_rd := lo8 (w AND 0x1f), i_rn := lo8 (fld w 5 0x1f), i_rm := lo8 (fld w 16 0x1f),
            i_flags := lo8 (of_flag (flag w 22))\<rparr>)
      else Fall)"

definition dec_simd_integer_minmax :: "u32 \<Rightarrow> outcome" where
  "dec_simd_integer_minmax w =
     (if matches w 0x9f20f400 0x0e206400 then
        let sz = fld w 22 3 in
        if sz = 3 then Reject
        else
        Accept ((instr_init w)\<lparr>i_kind := AVZ_NATIVE_OP_SIMD_INTEGER_MINMAX,
            i_rd := lo8 (w AND 0x1f), i_rn := lo8 (fld w 5 0x1f), i_rm := lo8 (fld w 16 0x1f),
            i_bits := lo8 (shl 8 (unat sz)),
            i_flags := lo8 (fld w 30 1 OR (if flag w 29 then 2 else 0) OR
                (if flag w 11 then 4 else 0))\<rparr>)
      else Fall)"

definition dec_fp_scalar_arithmetic :: "u32 \<Rightarrow> outcome" where
  "dec_fp_scalar_arithmetic w =
     (if matches w 0xffbffc00 0x7e30d800 then
        let is_double = fld w 22 1 in
        Accept ((instr_init w)\<lparr>i_kind := AVZ_NATIVE_OP_FP_SCALAR_ARITHMETIC,
            i_rd := lo8 (w AND 0x1f), i_rn := lo8 (fld w 5 0x1f), i_rm := lo8 (fld w 5 0x1f),
            i_bits := lo8 (if is_double \<noteq> 0 then 64 else 32), i_condition := 1,
            i_flags := lo8 (32 OR shl is_double 2)\<rparr>)
      else Fall)"

definition dec_fp_scalar_minmax :: "u32 \<Rightarrow> outcome" where
  "dec_fp_scalar_minmax w =
     (if w AND 0xbfa0fc00 \<in> {0x0e20c400, 0x0ea0c400, 0x0e20f400, 0x0ea0f400} then
        let masked = w AND 0xbfa0fc00;
            operation = (if masked = 0x0e20c400 then 0 else if masked = 0x0ea0c400 then 1
                else if masked = 0x0e20f400 then 2 else 3 :: u32);
            q = fld w 30 1;
            is_double = fld w 22 1 in
        if is_double \<noteq> 0 \<and> q = 0 then Reject
        else
        Accept ((instr_init w)\<lparr>i_kind := AVZ_NATIVE_OP_FP_SCALAR_MINMAX,
            i_rd := lo8 (w AND 0x1f), i_rn := lo8 (fld w 5 0x1f), i_rm := lo8 (fld w 16 0x1f),
            i_flags := lo8 (operation OR shl is_double 2 OR 8 OR shl q 4)\<rparr>)
      else Fall)"

definition dec_fp_reciprocal_estimate :: "u32 \<Rightarrow> outcome" where
  "dec_fp_reciprocal_estimate w =
     (if w AND 0xbfbffc00 \<in> {0x0ea1d800, 0x2ea1d800} then
        let q = fld w 30 1;
            is_double = fld w 22 1 in
        if is_double \<noteq> 0 \<and> q = 0 then Reject
        else
        Accept ((instr_init w)\<lparr>i_kind := AVZ_NATIVE_OP_FP_RECIPROCAL_ESTIMATE,
            i_rd := lo8 (w AND 0x1f), i_rn := lo8 (fld w 5 0x1f),
            i_flags := lo8 (of_flag (flag w 29) OR shl is_double 1 OR 4 OR shl q 3)\<rparr>)
      else Fall)"

definition dec_fp_reciprocal_estimate_2 :: "u32 \<Rightarrow> outcome" where
  "dec_fp_reciprocal_estimate_2 w =
     (if w AND 0xffbffc00 \<in> {0x5ea1d800, 0x7ea1d800} then
        Accept ((instr_init w)\<lparr>i_kind := AVZ_NATIVE_OP_FP_RECIPROCAL_ESTIMATE,
            i_rd := lo8 (w AND 0x1f), i_rn := lo8 (fld w 5 0x1f),
            i_flags := lo8 (of_flag (flag w 29) OR (if flag w 22 then 2 else 0))\<rparr>)
      else Fall)"

definition dec_fp_reciprocal_step :: "u32 \<Rightarrow> outcome" where
  "dec_fp_reciprocal_step w =
     (if w AND 0xbfa0fc00 \<in> {0x0e20fc00, 0x0ea0fc00} then
        let q = fld w 30 1;
            is_double = fld w 22 1 in
        if is_double \<noteq> 0 \<and> q = 0 then Reject
        else
        Accept ((instr_init w)\<lparr>i_kind := AVZ_NATIVE_OP_FP_RECIPROCAL_STEP,
            i_rd := lo8 (w AND 0x1f), i_rn := lo8 (fld w 5 0x1f), i_rm := lo8 (fld w 16 0x1f),
            i_flags := lo8 (of_flag (flag w 23) OR shl is_double 1 OR 4 OR shl q 3)\<rparr>)
      else Fall)"

definition dec_fp_reciprocal_step_2 :: "u32 \<Rightarrow> outcome" where
  "dec_fp_reciprocal_step_2 w =
     (if w AND 0xffa0fc00 \<in> {0x5e20fc00, 0x5ea0fc00} then
        Accept ((instr_init w)\<lparr>i_kind := AVZ_NATIVE_OP_FP_RECIPROCAL_STEP,
            i_rd := lo8 (w AND 0x1f), i_rn := lo8 (fld w 5 0x1f), i_rm := lo8 (fld w 16 0x1f),
            i_flags := lo8 (of_flag (flag w 23) OR (if flag w 22 then 2 else 0))\<rparr>)
      else Fall)"

definition dec_fp_scalar_fused_multiply_add_2 :: "u32 \<Rightarrow> outcome" where
  "dec_fp_scalar_fused_multiply_add_2 w =
     (if w AND 0xbfa0fc00 \<in> {0x0e20cc00, 0x0ea0cc00} then
        let q = fld w 30 1;
            is_double = fld w 22 1 in
        if is_double \<noteq> 0 \<and> q = 0 then Reject
        else
        Accept ((instr_init w)\<lparr>i_kind := AVZ_NATIVE_OP_FP_SCALAR_FUSED_MULTIPLY_ADD,
            i_rd := lo8 (w AND 0x1f), i_rn := lo8 (fld w 5 0x1f), i_rm := lo8 (fld w 16 0x1f),
            i_rt := lo8 (w AND 0x1f), i_bits := lo8 (if is_double \<noteq> 0 then 64 else 32),
            i_flags := lo8 (of_flag (flag w 23) OR shl is_double 2 OR 8 OR shl q 4)\<rparr>)
      else Fall)"

definition dec_fp_scalar_unary_2 :: "u32 \<Rightarrow> outcome" where
  "dec_fp_scalar_unary_2 w =
     (if w AND 0xbfbffc00 \<in> {0x0ea0f800, 0x2ea0f800, 0x2ea1f800} then
        let masked = w AND 0xbfbffc00;
            operation = (if masked = 0x0ea0f800 then 0
                else if masked = 0x2ea0f800 then 1 else 2 :: u32);
            q = fld w 30 1;
            is_double = fld w 22 1 in
        if is_double \<noteq> 0 \<and> q = 0 then Reject
        else
        Accept ((instr_init w)\<lparr>i_kind := AVZ_NATIVE_OP_FP_SCALAR_UNARY,
            i_rd := lo8 (w AND 0x1f), i_rn := lo8 (fld w 5 0x1f),
            i_bits := lo8 (if is_double \<noteq> 0 then 64 else 32),
            i_flags := lo8 (operation OR shl is_double 2 OR 8 OR shl q 4)\<rparr>)
      else Fall)"

definition dec_fp_scalar_fused_multiply_add_3 :: "u32 \<Rightarrow> outcome" where
  "dec_fp_scalar_fused_multiply_add_3 w =
     (if matches w 0xbf00b400 0x0f001000 then
        let q = fld w 30 1;
            sz = fld w 22 3;
            l = fld w 21 1;
            h = fld w 11 1;
            element_bits = 0;
            source_lane = 0 in
        let (element_bits, source_lane) =
              if sz = 2 then (32, shl h 1 OR l)
              else if sz = 3 \<and> q \<noteq> 0 \<and> l = 0 then (64, h)
              else (element_bits, source_lane) in
        if element_bits \<noteq> 0 then
          Accept ((instr_init w)\<lparr>i_kind := AVZ_NATIVE_OP_FP_SCALAR_FUSED_MULTIPLY_ADD,
              i_rd := lo8 (w AND 0x1f), i_rn := lo8 (fld w 5 0x1f),
              i_rm := lo8 (fld w 16 0x1f), i_rt := lo8 (w AND 0x1f),
              i_bits := lo8 element_bits, i_condition := lo8 source_lane,
              i_flags := lo8 (of_flag (flag w 14) OR (if element_bits = 64 then 4 else 0) OR 8 OR
                  shl q 4 OR 32)\<rparr>)
        else Fall
      else Fall)"

definition dec_fp_scalar_arithmetic_2 :: "u32 \<Rightarrow> outcome" where
  "dec_fp_scalar_arithmetic_2 w =
     (if matches w 0xbf80f400 0x0f809000 \<or> matches w 0xff80f400 0x5f809000 then
        let scalar = fld w 28 1;
            q = fld w 30 1;
            sz = fld w 22 3;
            l = fld w 21 1;
            h = fld w 11 1;
            element_bits = 0;
            source_lane = 0 in
        let (element_bits, source_lane) =
              if sz = 2 then (32, shl h 1 OR l)
              else if sz = 3 \<and> (scalar \<noteq> 0 \<or> q \<noteq> 0) \<and> l = 0 then (64, h)
              else (element_bits, source_lane) in
        if element_bits \<noteq> 0 then
          Accept ((instr_init w)\<lparr>i_kind := AVZ_NATIVE_OP_FP_SCALAR_ARITHMETIC,
              i_rd := lo8 (w AND 0x1f), i_rn := lo8 (fld w 5 0x1f),
              i_rm := lo8 (fld w 16 0x1f), i_bits := lo8 element_bits,
              i_condition := lo8 source_lane,
              i_flags := lo8 (2 OR (if element_bits = 64 then 4 else 0) OR
                  (if scalar \<noteq> 0 then 0 else 8 OR shl q 4) OR 32)\<rparr>)
        else Fall
      else Fall)"

definition dec_fp_scalar_arithmetic_3 :: "u32 \<Rightarrow> outcome" where
  "dec_fp_scalar_arithmetic_3 w =
     (if w AND 0xbfa0fc00 \<in> {0x0e20d400, 0x0ea0d400, 0x2e20dc00, 0x2e20fc00} then
        let masked = w AND 0xbfa0fc00;
            operation = (if masked = 0x0e20d400 then 0 else if masked = 0x0ea0d400 then 1
                else if masked = 0x2e20dc00 then 2 else 3 :: u32);
            q = fld w 30 1;
            is_double = fld w 22 1 in
        if is_double \<noteq> 0 \<and> q = 0 then Reject
        else
        Accept ((instr_init w)\<lparr>i_kind := AVZ_NATIVE_OP_FP_SCALAR_ARITHMETIC,
            i_rd := lo8 (w AND 0x1f), i_rn := lo8 (fld w 5 0x1f), i_rm := lo8 (fld w 16 0x1f),
            i_flags := lo8 (operation OR shl is_double 2 OR 8 OR shl q 4)\<rparr>)
      else Fall)"

definition dec_fp_scalar_arithmetic_4 :: "u32 \<Rightarrow> outcome" where
  "dec_fp_scalar_arithmetic_4 w =
     (if w AND 0xffe0fc00 \<in> {0x1e202800, 0x1e602800, 0x1e203800, 0x1e603800, 0x1e200800,
         0x1e600800, 0x1e201800, 0x1e601800} then
        let operation = 0;
            masked = w AND 0xffe0fc00 in
        let operation =
              if masked = 0x1e203800 \<or> masked = 0x1e603800 then 1
              else if masked = 0x1e200800 \<or> masked = 0x1e600800 then 2
              else if masked = 0x1e201800 \<or> masked = 0x1e601800 then 3
              else operation in
        Accept ((instr_init w)\<lparr>i_kind := AVZ_NATIVE_OP_FP_SCALAR_ARITHMETIC,
            i_rd := lo8 (w AND 0x1f), i_rn := lo8 (fld w 5 0x1f), i_rm := lo8 (fld w 16 0x1f),
            i_flags := lo8 (operation OR (if flag w 22 then 4 else 0))\<rparr>)
      else Fall)"

definition dec_fp_scalar_minmax_2 :: "u32 \<Rightarrow> outcome" where
  "dec_fp_scalar_minmax_2 w =
     (if w AND 0xffe0fc00 \<in> {0x1e206800, 0x1e606800, 0x1e207800, 0x1e607800, 0x1e204800,
         0x1e604800, 0x1e205800, 0x1e605800} then
        let masked = w AND 0xffe0fc00 in
        let operation =
              if masked = 0x1e206800 \<or> masked = 0x1e606800 then 0
              else if masked = 0x1e207800 \<or> masked = 0x1e607800 then 1
              else if masked = 0x1e204800 \<or> masked = 0x1e604800 then 2
              else 3 in
        Accept ((instr_init w)\<lparr>i_kind := AVZ_NATIVE_OP_FP_SCALAR_MINMAX,
            i_rd := lo8 (w AND 0x1f), i_rn := lo8 (fld w 5 0x1f), i_rm := lo8 (fld w 16 0x1f),
            i_flags := lo8 (operation OR (if flag w 22 then 4 else 0))\<rparr>)
      else Fall)"

definition dec_fp_scalar_negated_multiply :: "u32 \<Rightarrow> outcome" where
  "dec_fp_scalar_negated_multiply w =
     (if w AND 0xffe0fc00 \<in> {0x1e208800, 0x1e608800} then
        Accept ((instr_init w)\<lparr>i_kind := AVZ_NATIVE_OP_FP_SCALAR_NEGATED_MULTIPLY,
            i_rd := lo8 (w AND 0x1f), i_rn := lo8 (fld w 5 0x1f), i_rm := lo8 (fld w 16 0x1f),
            i_flags := lo8 (of_flag (flag w 22))\<rparr>)
      else Fall)"

definition dec_fp_scalar_conditional_select :: "u32 \<Rightarrow> outcome" where
  "dec_fp_scalar_conditional_select w =
     (if matches w 0xffe00c00 0x1e200c00 \<or> matches w 0xffe00c00 0x1e600c00 then
        Accept ((instr_init w)\<lparr>i_kind := AVZ_NATIVE_OP_FP_SCALAR_CONDITIONAL_SELECT,
            i_rd := lo8 (w AND 0x1f), i_rn := lo8 (fld w 5 0x1f), i_rm := lo8 (fld w 16 0x1f),
            i_condition := lo8 (fld w 12 0xf), i_flags := lo8 (of_flag (flag w 22))\<rparr>)
      else Fall)"

definition dec_fp_scalar_conditional_compare :: "u32 \<Rightarrow> outcome" where
  "dec_fp_scalar_conditional_compare w =
     (if matches w 0xff200c00 0x1e200400 then
        Accept ((instr_init w)\<lparr>i_kind := AVZ_NATIVE_OP_FP_SCALAR_CONDITIONAL_COMPARE,
            i_rn := lo8 (fld w 5 0x1f), i_rm := lo8 (fld w 16 0x1f),
            i_condition := lo8 (fld w 12 0xf), i_immediate := zext64 (w AND 0xf),
            i_flags := lo8 (of_flag (flag w 22) OR (if flag w 4 then 2 else 0))\<rparr>)
      else Fall)"

definition dec_fp_scalar_compare :: "u32 \<Rightarrow> outcome" where
  "dec_fp_scalar_compare w =
     (if w AND 0xffe0fc1f \<in> {0x1e202008, 0x1e202018, 0x1e602008, 0x1e602018} then
        Accept ((instr_init w)\<lparr>i_kind := AVZ_NATIVE_OP_FP_SCALAR_COMPARE,
            i_rn := lo8 (fld w 5 0x1f), i_flags := lo8 (of_flag (flag w 22) OR 2)\<rparr>)
      else Fall)"

definition dec_fp_scalar_compare_2 :: "u32 \<Rightarrow> outcome" where
  "dec_fp_scalar_compare_2 w =
     (if w AND 0xffe0fc1f \<in> {0x1e202000, 0x1e202010, 0x1e602000, 0x1e602010} then
        Accept ((instr_init w)\<lparr>i_kind := AVZ_NATIVE_OP_FP_SCALAR_COMPARE,
            i_rn := lo8 (fld w 5 0x1f), i_rm := lo8 (fld w 16 0x1f),
            i_flags := lo8 (of_flag (flag w 22))\<rparr>)
      else Fall)"

definition dec_fp_scalar_convert_to_integer :: "u32 \<Rightarrow> outcome" where
  "dec_fp_scalar_convert_to_integer w =
     (if w AND 0x7f3f0000 \<in> {0x1e180000, 0x1e190000} then
        let destination_bits = (if flag w 31 then 64 else 32 :: u32);
            fractional_bits = 64 - fld w 10 0x3f in
        if fractional_bits = 0 \<or> destination_bits < fractional_bits then Reject
        else
        Accept ((instr_init w)\<lparr>i_kind := AVZ_NATIVE_OP_FP_SCALAR_CONVERT_TO_INTEGER,
            i_rd := lo8 (w AND 0x1f), i_rn := lo8 (fld w 5 0x1f),
            i_bits := lo8 destination_bits, i_shift_amount := lo8 (fractional_bits AND 0xff),
            i_flags := lo8 (of_flag (flag w 22) OR (if flag w 16 then 4 else 0))\<rparr>)
      else Fall)"

definition dec_fp_scalar_convert_to_integer_2 :: "u32 \<Rightarrow> outcome" where
  "dec_fp_scalar_convert_to_integer_2 w =
     (if w AND 0x7f3ffc00 \<in> {0x1e200000, 0x1e210000, 0x1e280000, 0x1e290000, 0x1e300000,
         0x1e310000, 0x1e240000, 0x1e250000, 0x1e380000, 0x1e390000} then
        let masked = w AND 0x7f3ffc00 in
        let rounding_mode =
              if masked = 0x1e200000 \<or> masked = 0x1e210000 then 1
              else if masked = 0x1e280000 \<or> masked = 0x1e290000 then 2
              else if masked = 0x1e300000 \<or> masked = 0x1e310000 then 3
              else if masked = 0x1e240000 \<or> masked = 0x1e250000 then 4
              else 0 in
        Accept ((instr_init w)\<lparr>i_kind := AVZ_NATIVE_OP_FP_SCALAR_CONVERT_TO_INTEGER,
            i_rd := lo8 (w AND 0x1f), i_rn := lo8 (fld w 5 0x1f),
            i_bits := lo8 (if flag w 31 then 64 else 32),
            i_flags := lo8 (of_flag (flag w 22) OR (if flag w 16 then 4 else 0) OR
                shl rounding_mode 4)\<rparr>)
      else Fall)"

definition dec_fp_scalar_convert_to_integer_3 :: "u32 \<Rightarrow> outcome" where
  "dec_fp_scalar_convert_to_integer_3 w =
     (if w AND 0xfffffc00 \<in> {0x5ea1b800, 0x5ee1b800} then
        Accept ((instr_init w)\<lparr>i_kind := AVZ_NATIVE_OP_FP_SCALAR_CONVERT_TO_INTEGER,
            i_rd := lo8 (w AND 0x1f), i_rn := lo8 (fld w 5 0x1f),
            i_bits := lo8 (if flag w 22 then 64 else 32),
            i_flags := lo8 (of_flag (flag w 22) OR 8)\<rparr>)
      else Fall)"

definition dec_fp_scalar_convert_to_integer_4 :: "u32 \<Rightarrow> outcome" where
  "dec_fp_scalar_convert_to_integer_4 w =
     (if w AND 0xfffffc00 \<in> {0x7ea1b800, 0x7ee1b800} then
        Accept ((instr_init w)\<lparr>i_kind := AVZ_NATIVE_OP_FP_SCALAR_CONVERT_TO_INTEGER,
            i_rd := lo8 (w AND 0x1f), i_rn := lo8 (fld w 5 0x1f),
            i_bits := lo8 (if flag w 22 then 64 else 32),
            i_flags := lo8 (of_flag (flag w 22) OR 4 OR 8)\<rparr>)
      else Fall)"

definition dec_fp_scalar_convert_to_integer_5 :: "u32 \<Rightarrow> outcome" where
  "dec_fp_scalar_convert_to_integer_5 w =
     (if w AND 0xfffffc00 \<in> {0x1e390000, 0x1e790000, 0x9e390000, 0x9e790000} then
        Accept ((instr_init w)\<lparr>i_kind := AVZ_NATIVE_OP_FP_SCALAR_CONVERT_TO_INTEGER,
            i_rd := lo8 (w AND 0x1f), i_rn := lo8 (fld w 5 0x1f),
            i_bits := lo8 (if flag w 31 then 64 else 32),
            i_flags := lo8 (of_flag (flag w 22) OR 4)\<rparr>)
      else Fall)"

definition dec_fp_scalar_convert_to_integer_6 :: "u32 \<Rightarrow> outcome" where
  "dec_fp_scalar_convert_to_integer_6 w =
     (if w AND 0xfffffc00 \<in> {0x1e380000, 0x1e780000, 0x9e380000, 0x9e780000} then
        Accept ((instr_init w)\<lparr>i_kind := AVZ_NATIVE_OP_FP_SCALAR_CONVERT_TO_INTEGER,
            i_rd := lo8 (w AND 0x1f), i_rn := lo8 (fld w 5 0x1f),
            i_bits := lo8 (if flag w 31 then 64 else 32), i_flags := lo8 (of_flag (flag w 22))\<rparr>)
      else Fall)"

definition dec_simd_fp_convert_to_integer :: "u32 \<Rightarrow> outcome" where
  "dec_simd_fp_convert_to_integer w =
     (if w AND 0x9fbffc00 \<in> {0x0e21a800, 0x0ea1a800, 0x0e21b800, 0x0ea1b800, 0x0e21c800} then
        let masked = w AND 0x9fbffc00;
            rounding_mode = (if masked = 0x0e21a800 then 1 else if masked = 0x0ea1a800 then 2
                else if masked = 0x0e21b800 then 3
                else if masked = 0x0ea1b800 then 0 else 4 :: u32);
            q = fld w 30 1;
            is_double = fld w 22 1 in
        if is_double \<noteq> 0 \<and> q = 0 then Reject
        else
        Accept ((instr_init w)\<lparr>i_kind := AVZ_NATIVE_OP_SIMD_FP_CONVERT_TO_INTEGER,
            i_rd := lo8 (w AND 0x1f), i_rn := lo8 (fld w 5 0x1f),
            i_bits := lo8 (if is_double \<noteq> 0 then 64 else 32),
            i_flags := lo8 (is_double OR (if flag w 29 then 2 else 0) OR shl q 2 OR
                shl rounding_mode 3)\<rparr>)
      else Fall)"

subsection \<open>Well-formedness\<close>

text \<open>The blocks of this theory, in the order of the code.\<close>

definition float_blocks :: "(u32 \<Rightarrow> outcome) list" where
  "float_blocks =
     [dec_fp_scalar_general_move, dec_fp_scalar_general_move_2, dec_fp_scalar_general_move_3,
     dec_fp_scalar_general_move_4, dec_fp_scalar_general_move_5, dec_fp_scalar_general_move_6,
     dec_fp_scalar_register_move, dec_fp_scalar_convert_precision,
     dec_fp_scalar_convert_precision_2, dec_fp_scalar_unary, dec_fp_scalar_round_integral,
     dec_simd_scalar_signed_integer_to_fp, dec_simd_fp_convert_narrow_widen,
     dec_simd_scalar_signed_integer_to_fp_2, dec_fp_scalar_immediate_move,
     dec_fp_integer_to_scalar_fp, dec_fp_integer_to_scalar_fp_2,
     dec_fp_scalar_fused_multiply_add, dec_simd_scalar_fp_absolute_difference,
     dec_simd_scalar_fp_absolute_difference_2, dec_simd_integer_minmax, dec_fp_scalar_arithmetic,
     dec_fp_scalar_minmax, dec_fp_reciprocal_estimate, dec_fp_reciprocal_estimate_2,
     dec_fp_reciprocal_step, dec_fp_reciprocal_step_2, dec_fp_scalar_fused_multiply_add_2,
     dec_fp_scalar_unary_2, dec_fp_scalar_fused_multiply_add_3, dec_fp_scalar_arithmetic_2,
     dec_fp_scalar_arithmetic_3, dec_fp_scalar_arithmetic_4, dec_fp_scalar_minmax_2,
     dec_fp_scalar_negated_multiply, dec_fp_scalar_conditional_select,
     dec_fp_scalar_conditional_compare, dec_fp_scalar_compare, dec_fp_scalar_compare_2,
     dec_fp_scalar_convert_to_integer, dec_fp_scalar_convert_to_integer_2,
     dec_fp_scalar_convert_to_integer_3, dec_fp_scalar_convert_to_integer_4,
     dec_fp_scalar_convert_to_integer_5, dec_fp_scalar_convert_to_integer_6,
     dec_simd_fp_convert_to_integer]"

lemmas float_block_defs =
  dec_fp_scalar_general_move_def dec_fp_scalar_general_move_2_def
  dec_fp_scalar_general_move_3_def dec_fp_scalar_general_move_4_def
  dec_fp_scalar_general_move_5_def dec_fp_scalar_general_move_6_def
  dec_fp_scalar_register_move_def dec_fp_scalar_convert_precision_def
  dec_fp_scalar_convert_precision_2_def dec_fp_scalar_unary_def dec_fp_scalar_round_integral_def
  dec_simd_scalar_signed_integer_to_fp_def dec_simd_fp_convert_narrow_widen_def
  dec_simd_scalar_signed_integer_to_fp_2_def dec_fp_scalar_immediate_move_def
  dec_fp_integer_to_scalar_fp_def dec_fp_integer_to_scalar_fp_2_def
  dec_fp_scalar_fused_multiply_add_def dec_simd_scalar_fp_absolute_difference_def
  dec_simd_scalar_fp_absolute_difference_2_def dec_simd_integer_minmax_def
  dec_fp_scalar_arithmetic_def dec_fp_scalar_minmax_def dec_fp_reciprocal_estimate_def
  dec_fp_reciprocal_estimate_2_def dec_fp_reciprocal_step_def dec_fp_reciprocal_step_2_def
  dec_fp_scalar_fused_multiply_add_2_def dec_fp_scalar_unary_2_def
  dec_fp_scalar_fused_multiply_add_3_def dec_fp_scalar_arithmetic_2_def
  dec_fp_scalar_arithmetic_3_def dec_fp_scalar_arithmetic_4_def dec_fp_scalar_minmax_2_def
  dec_fp_scalar_negated_multiply_def dec_fp_scalar_conditional_select_def
  dec_fp_scalar_conditional_compare_def dec_fp_scalar_compare_def dec_fp_scalar_compare_2_def
  dec_fp_scalar_convert_to_integer_def dec_fp_scalar_convert_to_integer_2_def
  dec_fp_scalar_convert_to_integer_3_def dec_fp_scalar_convert_to_integer_4_def
  dec_fp_scalar_convert_to_integer_5_def dec_fp_scalar_convert_to_integer_6_def
  dec_simd_fp_convert_to_integer_def

lemma float_blocks_wf: "list_all (\<lambda>f. outcome_ok (instr_wf w) (f w)) float_blocks"
  unfolding float_blocks_def list.pred_inject
  by (intro conjI list.pred_inject(1);
      unfold float_block_defs; intro outcome_ok_rules; simp add: wf_simps)

end
