(* ===== verification/DecodeVector2.thy ===== *)
theory DecodeVector2
  imports DecodeBase
begin

text \<open>
  The remaining vector blocks of the decoder, the load/store pairs and the unconditional
  branch, which the C function tests last.
\<close>

definition dec_simd_insert_general_to_element :: "u32 \<Rightarrow> outcome" where
  "dec_simd_insert_general_to_element w =
     (if matches w 0xffe0fc00 0x4e001c00 then
        let imm5 = fld w 16 0x1f in
        if imm5 = 0 then Reject
        else
        let trailing = trailing_zeros imm5;
            element_bits = shl 8 trailing;
            lane = shr imm5 (trailing + 1) in
        if 64 < element_bits \<or> 128 div element_bits \<le> lane then Reject
        else
        Accept ((instr_init w)\<lparr>i_kind := AVZ_NATIVE_OP_SIMD_INSERT_GENERAL_TO_ELEMENT,
            i_rd := lo8 (w AND 0x1f), i_rn := lo8 (fld w 5 0x1f), i_bits := lo8 element_bits,
            i_condition := lo8 lane\<rparr>)
      else Fall)"

definition dec_simd_insert_vector_element :: "u32 \<Rightarrow> outcome" where
  "dec_simd_insert_vector_element w =
     (if matches w 0xff208400 0x6e000400 then
        let imm5 = fld w 16 0x1f;
            imm4 = fld w 11 0x0f in
        if imm5 = 0 then Reject
        else
        let trailing = trailing_zeros imm5;
            element_bits = shl 8 trailing;
            destination_lane = shr imm5 (trailing + 1);
            source_lane = shr imm4 trailing;
            lane_count = 128 div element_bits in
        if 64 < element_bits \<or> imm4 AND (shl 1 trailing - 1) \<noteq> 0 \<or> lane_count \<le> destination_lane \<or>
            lane_count \<le> source_lane then Reject
        else
        Accept ((instr_init w)\<lparr>i_kind := AVZ_NATIVE_OP_SIMD_INSERT_VECTOR_ELEMENT,
            i_rd := lo8 (w AND 0x1f), i_rn := lo8 (fld w 5 0x1f), i_bits := lo8 element_bits,
            i_condition := lo8 destination_lane, i_shift_amount := lo8 source_lane\<rparr>)
      else Fall)"

definition dec_simd_signed_shift_long_s_to_d :: "u32 \<Rightarrow> outcome" where
  "dec_simd_signed_shift_long_s_to_d w =
     (if matches w 0x9f80fc00 0x0f00a400 then
        let encoded_shift = fld w 16 0x7f;
            source_bits = 0 in
        let source_bits =
              if 32 \<le> encoded_shift \<and> encoded_shift < 64 then 32
              else if 16 \<le> encoded_shift \<and> encoded_shift < 32 then 16
              else if 8 \<le> encoded_shift \<and> encoded_shift < 16 then 8
              else source_bits in
        if source_bits \<noteq> 0 then
          let sft = encoded_shift - source_bits;
              source_lane_count = 64 div source_bits;
              upper_half = fld w 30 1 in
          let bits_field =
                if \<not> (source_bits = 32 \<and> sft < 8) then source_bits
                else 0 in
          Accept ((instr_init w)\<lparr>i_kind := AVZ_NATIVE_OP_SIMD_SIGNED_SHIFT_LONG_S_TO_D,
              i_rd := lo8 (w AND 0x1f), i_rn := lo8 (fld w 5 0x1f),
              i_flags := lo8 (fld w 29 1), i_shift_amount := lo8 (sft AND 0xff),
              i_condition := lo8 (if upper_half \<noteq> 0 then source_lane_count else 0),
              i_bits := lo8 bits_field\<rparr>)
        else Fall
      else Fall)"

definition dec_simd_signed_shift_long_s_to_d_2 :: "u32 \<Rightarrow> outcome" where
  "dec_simd_signed_shift_long_s_to_d_2 w =
     (if matches w 0xbf20fc00 0x2e203800 then
        let sz = fld w 22 3 in
        if sz < 3 then
          let source_bits = shl 8 (unat sz);
              source_lane_count = 64 div source_bits;
              upper_half = fld w 30 1 in
          Accept ((instr_init w)\<lparr>i_kind := AVZ_NATIVE_OP_SIMD_SIGNED_SHIFT_LONG_S_TO_D,
              i_rd := lo8 (w AND 0x1f), i_rn := lo8 (fld w 5 0x1f), i_bits := lo8 source_bits,
              i_flags := 1, i_shift_amount := lo8 source_bits,
              i_condition := lo8 (if upper_half \<noteq> 0 then source_lane_count else 0)\<rparr>)
        else Fall
      else Fall)"

definition dec_simd_extract_vector :: "u32 \<Rightarrow> outcome" where
  "dec_simd_extract_vector w =
     (if matches w 0xbfe08400 0x2e000000 then
        let q = fld w 30 1;
            byte_offset = fld w 11 0x0f in
        if q = 0 \<and> 8 \<le> byte_offset then Reject
        else
        Accept ((instr_init w)\<lparr>i_kind := AVZ_NATIVE_OP_SIMD_EXTRACT_VECTOR,
            i_rd := lo8 (w AND 0x1f), i_rn := lo8 (fld w 5 0x1f), i_rm := lo8 (fld w 16 0x1f),
            i_shift_amount := lo8 byte_offset, i_flags := lo8 q\<rparr>)
      else Fall)"

definition dec_simd_table_lookup :: "u32 \<Rightarrow> outcome" where
  "dec_simd_table_lookup w =
     (if matches w 0xbfe08c00 0x0e000000 then
        Accept ((instr_init w)\<lparr>i_kind := AVZ_NATIVE_OP_SIMD_TABLE_LOOKUP,
            i_rd := lo8 (w AND 0x1f), i_rn := lo8 (fld w 5 0x1f), i_rm := lo8 (fld w 16 0x1f),
            i_condition := lo8 (fld w 13 3 + 1),
            i_flags := lo8 (of_flag (flag w 30) OR (if flag w 12 then 2 else 0))\<rparr>)
      else Fall)"

definition dec_simd_permute_two_vector :: "u32 \<Rightarrow> outcome" where
  "dec_simd_permute_two_vector w =
     (if matches w 0xbf200c00 0x0e000800 then
        let opc = fld w 12 7;
            q = fld w 30 1;
            sz = fld w 22 3;
            element_bits = shl 8 (unat sz);
            vector_bits = (if q \<noteq> 0 then 128 else 64 :: u32) in
        if opc = 0 \<or> opc = 4 \<or> vector_bits div 2 < element_bits then Reject
        else
        Accept ((instr_init w)\<lparr>i_kind := AVZ_NATIVE_OP_SIMD_PERMUTE_TWO_VECTOR,
            i_rd := lo8 (w AND 0x1f), i_rn := lo8 (fld w 5 0x1f), i_rm := lo8 (fld w 16 0x1f),
            i_bits := lo8 element_bits, i_flags := lo8 opc, i_condition := lo8 q\<rparr>)
      else Fall)"

definition dec_simd_add_vector :: "u32 \<Rightarrow> outcome" where
  "dec_simd_add_vector w =
     (if matches w 0x9f20cc00 0x0e200000 then
        let sz = fld w 22 3 in
        if 2 < sz then Reject
        else
        Accept ((instr_init w)\<lparr>i_kind := AVZ_NATIVE_OP_SIMD_ADD_VECTOR,
            i_rd := lo8 (w AND 0x1f), i_rn := lo8 (fld w 5 0x1f), i_rm := lo8 (fld w 16 0x1f),
            i_bits := lo8 (shl 8 (unat sz)),
            i_flags := lo8 (of_flag (flag w 30) OR (if flag w 13 then 2 else 0) OR 4 OR
                (if flag w 29 then 8 else 0) OR (if flag w 12 then 16 else 0))\<rparr>)
      else Fall)"

definition dec_simd_add_vector_2 :: "u32 \<Rightarrow> outcome" where
  "dec_simd_add_vector_2 w =
     (if matches w 0x9f20f400 0x0e207400 then
        let sz = fld w 22 3 in
        if sz = 3 then Reject
        else
        Accept ((instr_init w)\<lparr>i_kind := AVZ_NATIVE_OP_SIMD_ADD_VECTOR,
            i_rd := lo8 (w AND 0x1f), i_rn := lo8 (fld w 5 0x1f), i_rm := lo8 (fld w 16 0x1f),
            i_bits := lo8 (shl 8 (unat sz)),
            i_flags := lo8 (32 OR fld w 30 1 OR shl (fld w 29 1) 6 OR shl (fld w 11 1) 7)\<rparr>)
      else Fall)"

definition dec_simd_add_vector_3 :: "u32 \<Rightarrow> outcome" where
  "dec_simd_add_vector_3 w =
     (if matches w 0xdf20fc00 0x5e208400 then
        let sz = fld w 22 3 in
        if sz \<noteq> 3 then Reject
        else
        Accept ((instr_init w)\<lparr>i_kind := AVZ_NATIVE_OP_SIMD_ADD_VECTOR,
            i_rd := lo8 (w AND 0x1f), i_rn := lo8 (fld w 5 0x1f), i_rm := lo8 (fld w 16 0x1f),
            i_bits := 64, i_flags := lo8 (if flag w 29 then 2 else 0)\<rparr>)
      else Fall)"

definition dec_simd_add_vector_4 :: "u32 \<Rightarrow> outcome" where
  "dec_simd_add_vector_4 w =
     (if matches w 0x9f20fc00 0x0e208400 then
        let q = fld w 30 1;
            sub = fld w 29 1;
            sz = fld w 22 3;
            element_bits = shl 8 (unat sz) in
        if 64 < element_bits \<or> (element_bits = 64 \<and> q = 0) then Reject
        else
        Accept ((instr_init w)\<lparr>i_kind := AVZ_NATIVE_OP_SIMD_ADD_VECTOR,
            i_rd := lo8 (w AND 0x1f), i_rn := lo8 (fld w 5 0x1f), i_rm := lo8 (fld w 16 0x1f),
            i_bits := lo8 element_bits, i_flags := lo8 (q OR shl sub 1)\<rparr>)
      else Fall)"

definition dec_simd_unsigned_shift_register :: "u32 \<Rightarrow> outcome" where
  "dec_simd_unsigned_shift_register w =
     (if matches w 0xdf20fc00 0x5e204400 then
        if fld w 22 3 \<noteq> 3 then Reject
        else
        Accept ((instr_init w)\<lparr>i_kind := AVZ_NATIVE_OP_SIMD_UNSIGNED_SHIFT_REGISTER,
            i_rd := lo8 (w AND 0x1f), i_rn := lo8 (fld w 5 0x1f), i_rm := lo8 (fld w 16 0x1f),
            i_bits := 64, i_flags := lo8 (if w AND 0x20000000 \<noteq> 0 then 0 else 2)\<rparr>)
      else Fall)"

definition dec_simd_unsigned_shift_register_2 :: "u32 \<Rightarrow> outcome" where
  "dec_simd_unsigned_shift_register_2 w =
     (if matches w 0x9f20fc00 0x0e204400 then
        let q = fld w 30 1;
            sz = fld w 22 3;
            element_bits = shl 8 (unat sz) in
        if 64 < element_bits \<or> (element_bits = 64 \<and> q = 0) then Reject
        else
        Accept ((instr_init w)\<lparr>i_kind := AVZ_NATIVE_OP_SIMD_UNSIGNED_SHIFT_REGISTER,
            i_rd := lo8 (w AND 0x1f), i_rn := lo8 (fld w 5 0x1f), i_rm := lo8 (fld w 16 0x1f),
            i_bits := lo8 element_bits,
            i_flags := lo8 (q OR (if w AND 0x20000000 \<noteq> 0 then 0 else 2))\<rparr>)
      else Fall)"

definition dec_fp_scalar_round_integral_2 :: "u32 \<Rightarrow> outcome" where
  "dec_fp_scalar_round_integral_2 w =
     (if w AND 0xbfbffc00 \<in> {0x0e218800, 0x0ea18800, 0x0e219800, 0x0ea19800, 0x2e218800,
         0x2e219800, 0x2ea19800} then
        let masked = w AND 0xbfbffc00 in
        let operation =
              if masked = 0x0e218800 then 1
              else if masked = 0x0ea18800 then 2
              else if masked = 0x0e219800 then 3
              else if masked = 0x0ea19800 then 0
              else if masked = 0x2e218800 then 4
              else 5 in
        let q = fld w 30 1;
            is_double = fld w 22 1 in
        if is_double \<noteq> 0 \<and> q = 0 then Reject
        else
        Accept ((instr_init w)\<lparr>i_kind := AVZ_NATIVE_OP_FP_SCALAR_ROUND_INTEGRAL,
            i_rd := lo8 (w AND 0x1f), i_rn := lo8 (fld w 5 0x1f),
            i_flags := lo8 (operation OR shl is_double 3 OR 16 OR shl q 5)\<rparr>)
      else Fall)"

definition dec_simd_reverse_elements :: "u32 \<Rightarrow> outcome" where
  "dec_simd_reverse_elements w =
    (let masked = w AND 0xbf3ffc00;
         container_bits = 0;
         maximum_size = 0 in
     let (container_bits, maximum_size) =
           if masked = 0x0e201800 then (16, 0)
           else if masked = 0x2e200800 then (32, 1)
           else if masked = 0x0e200800 then (64, 2)
           else (container_bits, maximum_size) in
     if container_bits \<noteq> 0 then
       let sz = fld w 22 3 in
       if maximum_size < sz then Reject
       else
       Accept ((instr_init w)\<lparr>i_kind := AVZ_NATIVE_OP_SIMD_REVERSE_ELEMENTS,
           i_rd := lo8 (w AND 0x1f), i_rn := lo8 (fld w 5 0x1f),
           i_bits := lo8 (shl 8 (unat sz)), i_shift_amount := lo8 container_bits,
           i_flags := lo8 (fld w 30 1)\<rparr>)
     else Fall)"

definition dec_simd_compare_equal_vector :: "u32 \<Rightarrow> outcome" where
  "dec_simd_compare_equal_vector w =
     (if matches w 0x9f20fc00 0x0e208c00 then
        let q = fld w 30 1;
            test_bits = \<not> flag w 29;
            sz = fld w 22 3;
            element_bits = shl 8 (unat sz) in
        if 64 < element_bits \<or> (element_bits = 64 \<and> q = 0) then Reject
        else
        Accept ((instr_init w)\<lparr>i_kind := AVZ_NATIVE_OP_SIMD_COMPARE_EQUAL_VECTOR,
            i_rd := lo8 (w AND 0x1f), i_rn := lo8 (fld w 5 0x1f), i_rm := lo8 (fld w 16 0x1f),
            i_bits := lo8 element_bits, i_flags := lo8 (q OR shl (of_flag test_bits) 1)\<rparr>)
      else Fall)"

definition dec_simd_compare_equal_vector_2 :: "u32 \<Rightarrow> outcome" where
  "dec_simd_compare_equal_vector_2 w =
     (if w AND 0xbf20fc00 \<in> {0x0e209800, 0x0e208800, 0x2e208800, 0x0e20a800, 0x2e209800} then
        let masked = w AND 0xbf20fc00 in
        let comparison =
              if masked = 0x0e209800 then 4
              else if masked = 0x0e208800 then 5
              else if masked = 0x2e208800 then 6
              else if masked = 0x0e20a800 then 7
              else 8 in
        let q = fld w 30 1;
            element_bits = shl 8 (unat (fld w 22 3)) in
        if 64 < element_bits \<or> (element_bits = 64 \<and> q = 0) then Reject
        else
        Accept ((instr_init w)\<lparr>i_kind := AVZ_NATIVE_OP_SIMD_COMPARE_EQUAL_VECTOR,
            i_rd := lo8 (w AND 0x1f), i_rn := lo8 (fld w 5 0x1f), i_bits := lo8 element_bits,
            i_flags := lo8 (q OR shl comparison 1)\<rparr>)
      else Fall)"

definition dec_simd_compare_equal_vector_3 :: "u32 \<Rightarrow> outcome" where
  "dec_simd_compare_equal_vector_3 w =
     (if w AND 0xfffffc00 \<in> {0x5ee09800, 0x5ee08800, 0x7ee08800, 0x5ee0a800, 0x7ee09800} then
        let masked = w AND 0xfffffc00 in
        let comparison =
              if masked = 0x5ee09800 then 4
              else if masked = 0x5ee08800 then 5
              else if masked = 0x7ee08800 then 6
              else if masked = 0x5ee0a800 then 7
              else 8 in
        Accept ((instr_init w)\<lparr>i_kind := AVZ_NATIVE_OP_SIMD_COMPARE_EQUAL_VECTOR,
            i_rd := lo8 (w AND 0x1f), i_rn := lo8 (fld w 5 0x1f), i_bits := 64,
            i_flags := lo8 (shl comparison 1)\<rparr>)
      else Fall)"

definition dec_simd_compare_equal_vector_4 :: "u32 \<Rightarrow> outcome" where
  "dec_simd_compare_equal_vector_4 w =
     (if matches w 0x9f20f400 0x0e203400 then
        let q = fld w 30 1;
            compare_or_same = fld w 11 1;
            is_unsigned = fld w 29 1;
            sz = fld w 22 3;
            element_bits = shl 8 (unat sz) in
        if 64 < element_bits \<or> (element_bits = 64 \<and> q = 0) then Reject
        else
        let comparison = if is_unsigned \<noteq> 0 then 2 + compare_or_same else 9 + compare_or_same in
        Accept ((instr_init w)\<lparr>i_kind := AVZ_NATIVE_OP_SIMD_COMPARE_EQUAL_VECTOR,
            i_rd := lo8 (w AND 0x1f), i_rn := lo8 (fld w 5 0x1f), i_rm := lo8 (fld w 16 0x1f),
            i_bits := lo8 element_bits, i_flags := lo8 (q OR shl comparison 1)\<rparr>)
      else Fall)"

definition dec_simd_fp_compare_vector :: "u32 \<Rightarrow> outcome" where
  "dec_simd_fp_compare_vector w =
     (if w AND 0xbfa0fc00 \<in> {0x0e20e400, 0x2ea0e400, 0x2e20e400, 0x2ea0ec00, 0x2e20ec00} then
        let masked = w AND 0xbfa0fc00 in
        let comparison =
              if masked = 0x0e20e400 then 0
              else if masked = 0x2ea0e400 then 1
              else if masked = 0x2e20e400 then 2
              else if masked = 0x2ea0ec00 then 3
              else 4 in
        let q = fld w 30 1;
            element_bits = (if flag w 22 then 64 else 32 :: u32) in
        if element_bits = 64 \<and> q = 0 then Reject
        else
        Accept ((instr_init w)\<lparr>i_kind := AVZ_NATIVE_OP_SIMD_FP_COMPARE_VECTOR,
            i_rd := lo8 (w AND 0x1f), i_rn := lo8 (fld w 5 0x1f), i_rm := lo8 (fld w 16 0x1f),
            i_bits := lo8 element_bits, i_flags := lo8 (q OR shl comparison 1)\<rparr>)
      else Fall)"

definition dec_simd_fp_compare_vector_2 :: "u32 \<Rightarrow> outcome" where
  "dec_simd_fp_compare_vector_2 w =
     (if w AND 0xbfbffc00 \<in> {0x0ea0d800, 0x0ea0c800, 0x2ea0c800, 0x0ea0e800, 0x2ea0d800} then
        let masked = w AND 0xbfbffc00 in
        let comparison =
              if masked = 0x0ea0d800 then 5
              else if masked = 0x0ea0c800 then 6
              else if masked = 0x2ea0c800 then 7
              else if masked = 0x0ea0e800 then 8
              else 9 in
        let q = fld w 30 1;
            element_bits = (if flag w 22 then 64 else 32 :: u32) in
        if element_bits = 64 \<and> q = 0 then Reject
        else
        Accept ((instr_init w)\<lparr>i_kind := AVZ_NATIVE_OP_SIMD_FP_COMPARE_VECTOR,
            i_rd := lo8 (w AND 0x1f), i_rn := lo8 (fld w 5 0x1f), i_rm := 0,
            i_bits := lo8 element_bits, i_flags := lo8 (q OR shl comparison 1)\<rparr>)
      else Fall)"

definition dec_simd_count_set_bits :: "u32 \<Rightarrow> outcome" where
  "dec_simd_count_set_bits w =
     (if matches w 0xbffffc00 0x0e205800 then
        Accept ((instr_init w)\<lparr>i_kind := AVZ_NATIVE_OP_SIMD_COUNT_SET_BITS,
            i_rd := lo8 (w AND 0x1f), i_rn := lo8 (fld w 5 0x1f), i_bits := 8,
            i_flags := lo8 (fld w 30 1)\<rparr>)
      else Fall)"

definition dec_simd_count_leading_zeros :: "u32 \<Rightarrow> outcome" where
  "dec_simd_count_leading_zeros w =
     (if matches w 0xbf3ffc00 0x2e204800 then
        let q = fld w 30 1;
            element_bits = shl 8 (unat (fld w 22 3)) in
        if 32 < element_bits then Reject
        else
        Accept ((instr_init w)\<lparr>i_kind := AVZ_NATIVE_OP_SIMD_COUNT_LEADING_ZEROS,
            i_rd := lo8 (w AND 0x1f), i_rn := lo8 (fld w 5 0x1f), i_bits := lo8 element_bits,
            i_flags := lo8 q\<rparr>)
      else Fall)"

definition dec_simd_bitwise_not :: "u32 \<Rightarrow> outcome" where
  "dec_simd_bitwise_not w =
     (if matches w 0xbffffc00 0x2e205800 then
        Accept ((instr_init w)\<lparr>i_kind := AVZ_NATIVE_OP_SIMD_BITWISE_NOT,
            i_rd := lo8 (w AND 0x1f), i_rn := lo8 (fld w 5 0x1f), i_flags := lo8 (fld w 30 1)\<rparr>)
      else Fall)"

definition dec_simd_integer_negate :: "u32 \<Rightarrow> outcome" where
  "dec_simd_integer_negate w =
     (if matches w 0xdffffc00 0x5ee0b800 then
        Accept ((instr_init w)\<lparr>i_kind := AVZ_NATIVE_OP_SIMD_INTEGER_NEGATE,
            i_rd := lo8 (w AND 0x1f), i_rn := lo8 (fld w 5 0x1f), i_bits := 64,
            i_flags := lo8 (2 OR (if w AND 0x20000000 \<noteq> 0 then 0 else 4))\<rparr>)
      else Fall)"

definition dec_simd_integer_negate_2 :: "u32 \<Rightarrow> outcome" where
  "dec_simd_integer_negate_2 w =
     (if matches w 0x9f3ffc00 0x0e20b800 then
        let q = fld w 30 1;
            element_bits = shl 8 (unat (fld w 22 3)) in
        if 64 < element_bits \<or> (element_bits = 64 \<and> q = 0) then Reject
        else
        Accept ((instr_init w)\<lparr>i_kind := AVZ_NATIVE_OP_SIMD_INTEGER_NEGATE,
            i_rd := lo8 (w AND 0x1f), i_rn := lo8 (fld w 5 0x1f), i_bits := lo8 element_bits,
            i_flags := lo8 (q OR (if w AND 0x20000000 \<noteq> 0 then 0 else 4))\<rparr>)
      else Fall)"

definition dec_simd_multiply_long :: "u32 \<Rightarrow> outcome" where
  "dec_simd_multiply_long w =
     (if matches w 0x9f20dc00 0x0e208000 then
        let sz = fld w 22 3 in
        if 2 < sz then Reject
        else
        Accept ((instr_init w)\<lparr>i_kind := AVZ_NATIVE_OP_SIMD_MULTIPLY_LONG,
            i_rd := lo8 (w AND 0x1f), i_rn := lo8 (fld w 5 0x1f), i_rm := lo8 (fld w 16 0x1f),
            i_bits := lo8 (shl 8 (unat sz)),
            i_flags := lo8 (of_flag (flag w 30) OR (if flag w 29 then 2 else 0) OR 8 OR
                (if flag w 13 then 16 else 0))\<rparr>)
      else Fall)"

definition dec_simd_multiply_long_2 :: "u32 \<Rightarrow> outcome" where
  "dec_simd_multiply_long_2 w =
    (let masked = w AND 0x9f00f400 in
     if masked = 0x0f00a000 \<or> masked = 0x0f002000 \<or> masked = 0x0f006000 then
       let sz = fld w 22 3;
           l = fld w 21 1;
           m = fld w 20 1;
           h = fld w 11 1;
           rm = fld w 16 0x0f in
       if sz = 1 \<or> sz = 2 then
         let (source_lane, rm) =
               if sz = 1 then (shl h 2 OR shl l 1 OR m, rm)
               else (shl h 1 OR l, rm OR shl m 4) in
         let accumulates = masked \<noteq> 0x0f00a000;
             subtracts = masked = 0x0f006000 in
         Accept ((instr_init w)\<lparr>i_kind := AVZ_NATIVE_OP_SIMD_MULTIPLY_LONG,
             i_rd := lo8 (w AND 0x1f), i_rn := lo8 (fld w 5 0x1f), i_rm := lo8 rm,
             i_bits := lo8 (shl 8 (unat sz)), i_condition := lo8 source_lane,
             i_flags := lo8 (of_flag (flag w 30) OR (if flag w 29 then 2 else 0) OR
                 (if accumulates then 8 else 0) OR (if subtracts then 16 else 0) OR 64)\<rparr>)
       else Reject
     else Fall)"

definition dec_simd_multiply_long_3 :: "u32 \<Rightarrow> outcome" where
  "dec_simd_multiply_long_3 w =
     (if matches w 0x9f20fc00 0x0e209400 then
        let q = fld w 30 1;
            sz = fld w 22 3;
            sub = fld w 29 1 in
        if 2 < sz then Reject
        else
        Accept ((instr_init w)\<lparr>i_kind := AVZ_NATIVE_OP_SIMD_MULTIPLY_LONG,
            i_rd := lo8 (w AND 0x1f), i_rn := lo8 (fld w 5 0x1f), i_rm := lo8 (fld w 16 0x1f),
            i_bits := lo8 (shl 8 (unat sz)),
            i_flags := lo8 (4 OR shl q 3 OR shl (if sub \<noteq> 0 then 2 else 1) 4)\<rparr>)
      else Fall)"

definition dec_simd_multiply_long_4 :: "u32 \<Rightarrow> outcome" where
  "dec_simd_multiply_long_4 w =
     (if matches w 0xbf00f400 0x0f008000 \<or> matches w 0xbf00b400 0x2f000000 then
        let q = fld w 30 1;
            sz = fld w 22 3;
            l = fld w 21 1;
            m = fld w 20 1;
            h = fld w 11 1;
            rm = fld w 16 0x0f in
        if sz = 1 \<or> sz = 2 then
          let (source_lane, rm) =
                if sz = 1 then (shl h 2 OR shl l 1 OR m, rm)
                else (shl h 1 OR l, rm OR shl m 4) in
          let operation =
                if \<not> flag w 29 then 0
                else if flag w 14 then 2 else 1 in
          Accept ((instr_init w)\<lparr>i_kind := AVZ_NATIVE_OP_SIMD_MULTIPLY_LONG,
              i_rd := lo8 (w AND 0x1f), i_rn := lo8 (fld w 5 0x1f), i_rm := lo8 rm,
              i_bits := lo8 (shl 8 (unat sz)), i_condition := lo8 source_lane,
              i_flags := lo8 (4 OR shl q 3 OR shl operation 4 OR 64)\<rparr>)
        else Reject
      else Fall)"

definition dec_simd_multiply_long_5 :: "u32 \<Rightarrow> outcome" where
  "dec_simd_multiply_long_5 w =
     (if matches w 0xbf20fc00 0x0e209c00 then
        let q = fld w 30 1;
            sz = fld w 22 3 in
        if 2 < sz then Reject
        else
        Accept ((instr_init w)\<lparr>i_kind := AVZ_NATIVE_OP_SIMD_MULTIPLY_LONG,
            i_rd := lo8 (w AND 0x1f), i_rn := lo8 (fld w 5 0x1f), i_rm := lo8 (fld w 16 0x1f),
            i_bits := lo8 (shl 8 (unat sz)), i_flags := lo8 (4 OR shl q 3)\<rparr>)
      else Fall)"

definition dec_simd_multiply_long_6 :: "u32 \<Rightarrow> outcome" where
  "dec_simd_multiply_long_6 w =
     (if matches w 0x9f20fc00 0x0e20c000 then
        let sz = fld w 22 3 in
        if 2 < sz then Reject
        else
        Accept ((instr_init w)\<lparr>i_kind := AVZ_NATIVE_OP_SIMD_MULTIPLY_LONG,
            i_rd := lo8 (w AND 0x1f), i_rn := lo8 (fld w 5 0x1f), i_rm := lo8 (fld w 16 0x1f),
            i_bits := lo8 (shl 8 (unat sz)),
            i_flags := lo8 (of_flag (flag w 30) OR (if flag w 29 then 2 else 0))\<rparr>)
      else Fall)"

definition dec_simd_narrow_high_2 :: "u32 \<Rightarrow> outcome" where
  "dec_simd_narrow_high_2 w =
     (if w AND 0xbf80f400 \<in> {0x0f009400, 0x2f009400, 0x2f008400, 0x1f009400, 0x3f009400,
         0x3f008400} then
        let encoded = fld w 16 0x7f;
            scalar = fld w 28 1 in
        if encoded < 8 then
          Fall
        else
        if 64 \<le> encoded \<or> (scalar \<noteq> 0 \<and> w AND 0x40000000 = 0) then Reject
        else
        let source_bits = (if encoded < 16 then 16 else if encoded < 32 then 32 else 64 :: u32) in
        Accept ((instr_init w)\<lparr>i_kind := AVZ_NATIVE_OP_SIMD_NARROW_HIGH,
            i_rd := lo8 (w AND 0x1f), i_rn := lo8 (fld w 5 0x1f), i_bits := lo8 source_bits,
            i_shift_amount := lo8 (source_bits - encoded),
            i_condition := lo8 (if w AND 0x1000 = 0 then 0 else if flag w 29 then 2 else 1),
            i_flags := lo8 (64 OR 16 OR shl (fld w 11 1) 3 OR
                (if scalar \<noteq> 0 then 128 else fld w 30 1))\<rparr>)
      else Fall)"

definition dec_simd_narrow_high_3 :: "u32 \<Rightarrow> outcome" where
  "dec_simd_narrow_high_3 w =
     (if w AND 0xbf3ffc00 \<in> {0x2e212800, 0x0e214800, 0x2e214800, 0x3e212800, 0x1e214800,
         0x3e214800} then
        let sz = fld w 22 3;
            scalar = fld w 28 1 in
        if sz = 3 \<or> (scalar \<noteq> 0 \<and> w AND 0x40000000 = 0) then Reject
        else
        Accept ((instr_init w)\<lparr>i_kind := AVZ_NATIVE_OP_SIMD_NARROW_HIGH,
            i_rd := lo8 (w AND 0x1f), i_rn := lo8 (fld w 5 0x1f),
            i_bits := lo8 (shl 16 (unat sz)),
            i_condition := lo8 (if matches w 0x6000 0x2000 then 0 else if flag w 29 then 2 else 1),
            i_flags := lo8 (64 OR (if scalar \<noteq> 0 then 128 else fld w 30 1))\<rparr>)
      else Fall)"

definition dec_simd_narrow_high_4 :: "u32 \<Rightarrow> outcome" where
  "dec_simd_narrow_high_4 w =
     (if matches w 0xbf3ffc00 0x0e212800 then
        let sz = fld w 22 3 in
        if 2 < sz then Reject
        else
        Accept ((instr_init w)\<lparr>i_kind := AVZ_NATIVE_OP_SIMD_NARROW_HIGH,
            i_rd := lo8 (w AND 0x1f), i_rn := lo8 (fld w 5 0x1f),
            i_bits := lo8 (shl 16 (unat sz)), i_flags := lo8 (32 OR fld w 30 1)\<rparr>)
      else Fall)"

definition dec_simd_narrow_high_5 :: "u32 \<Rightarrow> outcome" where
  "dec_simd_narrow_high_5 w =
     (if matches w 0x9f20dc00 0x0e204000 then
        let sz = fld w 22 3 in
        if 2 < sz then Reject
        else
        Accept ((instr_init w)\<lparr>i_kind := AVZ_NATIVE_OP_SIMD_NARROW_HIGH,
            i_rd := lo8 (w AND 0x1f), i_rn := lo8 (fld w 5 0x1f), i_rm := lo8 (fld w 16 0x1f),
            i_bits := lo8 (shl 16 (unat sz)),
            i_flags := lo8 (of_flag (flag w 30) OR (if flag w 29 then 2 else 0) OR
                (if flag w 13 then 4 else 0))\<rparr>)
      else Fall)"

definition dec_simd_saturating_add_subtract :: "u32 \<Rightarrow> outcome" where
  "dec_simd_saturating_add_subtract w =
     (if matches w 0xdf20dc00 0x5e200c00 then
        let sz = fld w 22 3 in
        Accept ((instr_init w)\<lparr>i_kind := AVZ_NATIVE_OP_SIMD_SATURATING_ADD_SUBTRACT,
            i_rd := lo8 (w AND 0x1f), i_rn := lo8 (fld w 5 0x1f), i_rm := lo8 (fld w 16 0x1f),
            i_bits := lo8 (shl 8 (unat sz)),
            i_flags := lo8 (8 OR (if flag w 29 then 2 else 0) OR (if flag w 13 then 4 else 0))\<rparr>)
      else Fall)"

definition dec_simd_saturating_add_subtract_2 :: "u32 \<Rightarrow> outcome" where
  "dec_simd_saturating_add_subtract_2 w =
     (if matches w 0x9f20dc00 0x0e200c00 then
        let sz = fld w 22 3;
            q = fld w 30 1;
            element_bits = shl 8 (unat sz) in
        if 64 < element_bits \<or> (element_bits = 64 \<and> q = 0) then Reject
        else
        Accept ((instr_init w)\<lparr>i_kind := AVZ_NATIVE_OP_SIMD_SATURATING_ADD_SUBTRACT,
            i_rd := lo8 (w AND 0x1f), i_rn := lo8 (fld w 5 0x1f), i_rm := lo8 (fld w 16 0x1f),
            i_bits := lo8 element_bits,
            i_flags := lo8 (q OR (if flag w 29 then 2 else 0) OR (if flag w 13 then 4 else 0))\<rparr>)
      else Fall)"

definition dec_simd_orr_vector :: "u32 \<Rightarrow> outcome" where
  "dec_simd_orr_vector w =
     (if matches w 0xbfe0fc00 0x0ea01c00 then
        Accept ((instr_init w)\<lparr>i_kind := AVZ_NATIVE_OP_SIMD_ORR_VECTOR,
            i_rd := lo8 (w AND 0x1f), i_rn := lo8 (fld w 5 0x1f), i_rm := lo8 (fld w 16 0x1f),
            i_flags := lo8 (fld w 30 1)\<rparr>)
      else Fall)"

definition dec_simd_orr_vector_2 :: "u32 \<Rightarrow> outcome" where
  "dec_simd_orr_vector_2 w =
     (if matches w 0xbfe0fc00 0x0e201c00 \<or> matches w 0xbfe0fc00 0x0e601c00 \<or>
         matches w 0xbfe0fc00 0x0ee01c00 then
        let masked = w AND 0xbfe0fc00;
            operation = (if masked = 0x0e201c00 then 5
                else if masked = 0x0e601c00 then 6 else 7 :: u32) in
        Accept ((instr_init w)\<lparr>i_kind := AVZ_NATIVE_OP_SIMD_ORR_VECTOR,
            i_rd := lo8 (w AND 0x1f), i_rn := lo8 (fld w 5 0x1f), i_rm := lo8 (fld w 16 0x1f),
            i_flags := lo8 (fld w 30 1 OR shl operation 1)\<rparr>)
      else Fall)"

definition dec_simd_orr_vector_3 :: "u32 \<Rightarrow> outcome" where
  "dec_simd_orr_vector_3 w =
     (if matches w 0xbfe0fc00 0x2e201c00 then
        Accept ((instr_init w)\<lparr>i_kind := AVZ_NATIVE_OP_SIMD_ORR_VECTOR,
            i_rd := lo8 (w AND 0x1f), i_rn := lo8 (fld w 5 0x1f), i_rm := lo8 (fld w 16 0x1f),
            i_flags := lo8 (fld w 30 1 OR 2)\<rparr>)
      else Fall)"

definition dec_simd_orr_vector_4 :: "u32 \<Rightarrow> outcome" where
  "dec_simd_orr_vector_4 w =
     (if matches w 0xbf20fc00 0x2e201c00 then
        let opcode = fld w 21 7 in
        if opcode \<noteq> 3 \<and> opcode \<noteq> 5 \<and> opcode \<noteq> 7 then Reject
        else
        Accept ((instr_init w)\<lparr>i_kind := AVZ_NATIVE_OP_SIMD_ORR_VECTOR,
            i_rd := lo8 (w AND 0x1f), i_rn := lo8 (fld w 5 0x1f), i_rm := lo8 (fld w 16 0x1f),
            i_flags := lo8 (fld w 30 1 OR shl ((opcode + 1) div 2) 1)\<rparr>)
      else Fall)"

definition dec_simd_unsigned_max_pairwise :: "u32 \<Rightarrow> outcome" where
  "dec_simd_unsigned_max_pairwise w =
     (if matches w 0xbf20fc00 0x2e20a400 then
        let element_bits = shl 8 (unat (fld w 22 3)) in
        if 32 < element_bits then Reject
        else
        Accept ((instr_init w)\<lparr>i_kind := AVZ_NATIVE_OP_SIMD_UNSIGNED_MAX_PAIRWISE,
            i_rd := lo8 (w AND 0x1f), i_rn := lo8 (fld w 5 0x1f), i_rm := lo8 (fld w 16 0x1f),
            i_bits := lo8 element_bits, i_flags := lo8 (fld w 30 1)\<rparr>)
      else Fall)"

definition dec_simd_duplicate_general :: "u32 \<Rightarrow> outcome" where
  "dec_simd_duplicate_general w =
     (if matches w 0xbfe0fc00 0x0e000c00 then
        let imm5 = fld w 16 0x1f in
        if imm5 = 0 then Reject
        else
        let trailing = trailing_zeros imm5;
            element_bits = shl 8 trailing;
            writes_full_vector = flag w 30 in
        if 64 < element_bits \<or> (\<not> writes_full_vector \<and> 64 \<le> element_bits) then Reject
        else
        Accept ((instr_init w)\<lparr>i_kind := AVZ_NATIVE_OP_SIMD_DUPLICATE_GENERAL,
            i_rd := lo8 (w AND 0x1f), i_rn := lo8 (fld w 5 0x1f), i_bits := lo8 element_bits,
            i_flags := lo8 (of_flag writes_full_vector)\<rparr>)
      else Fall)"

definition dec_simd_movi_zero :: "u32 \<Rightarrow> outcome" where
  "dec_simd_movi_zero w =
     (if decode_simd_movi_zero w then
        Accept ((instr_init w)\<lparr>i_kind := AVZ_NATIVE_OP_SIMD_MOVI_ZERO,
            i_rd := lo8 (w AND 0x1f)\<rparr>)
      else Fall)"

definition dec_simd_fp_immediate_move :: "u32 \<Rightarrow> outcome" where
  "dec_simd_fp_immediate_move w =
    ((case decode_simd_fp_immediate w of
        None \<Rightarrow>
          Fall
      | Some (val, element_bits, writes_full_vector) \<Rightarrow>
          Accept ((instr_init w)\<lparr>i_kind := AVZ_NATIVE_OP_SIMD_FP_IMMEDIATE_MOVE,
              i_rd := lo8 (w AND 0x1f), i_bits := lo8 element_bits,
              i_flags := lo8 (of_flag writes_full_vector), i_immediate := val\<rparr>)))"

definition dec_simd_movi_word_immediate :: "u32 \<Rightarrow> outcome" where
  "dec_simd_movi_word_immediate w =
    ((case decode_simd_logical_word_immediate w of
        None \<Rightarrow>
          Fall
      | Some (val, element_bits, writes_full_vector, is_bic) \<Rightarrow>
          Accept ((instr_init w)\<lparr>i_kind := AVZ_NATIVE_OP_SIMD_MOVI_WORD_IMMEDIATE,
              i_rd := lo8 (w AND 0x1f), i_bits := lo8 element_bits,
              i_flags := lo8 (of_flag writes_full_vector OR (if is_bic then 4 else 2)),
              i_immediate := val\<rparr>)))"

definition dec_simd_movi_word_immediate_2 :: "u32 \<Rightarrow> outcome" where
  "dec_simd_movi_word_immediate_2 w =
    ((case decode_simd_movi_word_immediate w of
        None \<Rightarrow>
          Fall
      | Some (val, element_bits, writes_full_vector) \<Rightarrow>
          Accept ((instr_init w)\<lparr>i_kind := AVZ_NATIVE_OP_SIMD_MOVI_WORD_IMMEDIATE,
              i_rd := lo8 (w AND 0x1f), i_bits := lo8 element_bits,
              i_flags := lo8 (of_flag writes_full_vector), i_immediate := val\<rparr>)))"

definition dec_simd_movi_byte :: "u32 \<Rightarrow> outcome" where
  "dec_simd_movi_byte w =
    ((case decode_simd_movi_byte w of
        None \<Rightarrow>
          Fall
      | Some (byt, writes_full_vector) \<Rightarrow>
          Accept ((instr_init w)\<lparr>i_kind := AVZ_NATIVE_OP_SIMD_MOVI_BYTE,
              i_rd := lo8 (w AND 0x1f), i_immediate := byt,
              i_flags := lo8 (of_flag writes_full_vector)\<rparr>)))"

definition dec_simd_movi_d_immediate :: "u32 \<Rightarrow> outcome" where
  "dec_simd_movi_d_immediate w =
    ((case decode_simd_movi_d_immediate w of
        None \<Rightarrow>
          Fall
      | Some (val, writes_full_vector) \<Rightarrow>
          Accept ((instr_init w)\<lparr>i_kind := AVZ_NATIVE_OP_SIMD_MOVI_D_IMMEDIATE,
              i_rd := lo8 (w AND 0x1f), i_bits := 64,
              i_flags := lo8 (of_flag writes_full_vector), i_immediate := val\<rparr>)))"

definition dec_simd_mvni_immediate :: "u32 \<Rightarrow> outcome" where
  "dec_simd_mvni_immediate w =
    ((case decode_simd_mvni_immediate w of
        None \<Rightarrow>
          Fall
      | Some (val, element_bits, writes_full_vector) \<Rightarrow>
          Accept ((instr_init w)\<lparr>i_kind := AVZ_NATIVE_OP_SIMD_MVNI_IMMEDIATE,
              i_rd := lo8 (w AND 0x1f), i_bits := lo8 element_bits,
              i_flags := lo8 (of_flag writes_full_vector), i_immediate := val\<rparr>)))"

definition dec_simd_fp_load_store_pair :: "u32 \<Rightarrow> outcome" where
  "dec_simd_fp_load_store_pair w =
     (if w AND 0xffc00000 \<in> {0x2c800000, 0x2cc00000, 0x2d000000, 0x2d400000, 0x2d800000,
         0x2dc00000, 0x6c800000, 0x6cc00000, 0x6d000000, 0x6d400000, 0x6d800000, 0x6dc00000,
         0xac800000, 0xacc00000, 0xad000000, 0xad400000, 0xad800000, 0xadc00000} then
        let masked = w AND 0xffc00000;
            is_ld = masked AND 0x00400000 \<noteq> 0;
            width = shl 4 (unat (fld w 30 3));
            writeback = masked = 0x2c800000 \<or> masked = 0x2cc00000 \<or> masked = 0x2d800000 \<or>
                masked = 0x2dc00000 \<or> masked = 0x6c800000 \<or> masked = 0x6cc00000 \<or>
                masked = 0x6d800000 \<or> masked = 0x6dc00000 \<or> masked = 0xac800000 \<or>
                masked = 0xacc00000 \<or> masked = 0xad800000 \<or> masked = 0xadc00000;
            post_index = masked = 0x2c800000 \<or> masked = 0x2cc00000 \<or> masked = 0x6c800000 \<or>
                masked = 0x6cc00000 \<or> masked = 0xac800000 \<or> masked = 0xacc00000;
            imm7 = sign_extend_u64 (zext64 (fld w 15 0x7f)) 7;
            offset = imm7 * zext64 width in
        Accept ((instr_init w)\<lparr>i_kind := AVZ_NATIVE_OP_SIMD_FP_LOAD_STORE_PAIR,
            i_rt := lo8 (w AND 0x1f), i_rd := lo8 (fld w 10 0x1f), i_rn := lo8 (fld w 5 0x1f),
            i_width := lo8 width, i_bits := lo8 (width * 8),
            i_flags := lo8 (of_flag is_ld OR (if writeback then 8 else 0)),
            i_immediate := if post_index then 0 else offset, i_immediate2 := offset\<rparr>)
      else Fall)"

definition dec_load_store_pair :: "u32 \<Rightarrow> outcome" where
  "dec_load_store_pair w =
     (if w AND 0xffc00000 \<in> {0x28000000, 0x28400000, 0x28800000, 0x28c00000, 0x29000000,
         0x29400000, 0x29800000, 0x29c00000, 0x68c00000, 0x69400000, 0x69c00000, 0xa8000000,
         0xa8400000, 0xa8800000, 0xa8c00000, 0xa9000000, 0xa9400000, 0xa9800000, 0xa9c00000} then
        let masked = w AND 0xffc00000;
            is_ld = masked AND 0x00400000 \<noteq> 0;
            width = (if masked AND 0x80000000 \<noteq> 0 then 8 else 4 :: u32);
            sign_extend_words = masked = 0x68c00000 \<or> masked = 0x69400000 \<or> masked = 0x69c00000;
            writeback = masked = 0x28800000 \<or> masked = 0x28c00000 \<or> masked = 0x29800000 \<or>
                masked = 0x29c00000 \<or> masked = 0x68c00000 \<or> masked = 0x69c00000 \<or>
                masked = 0xa8800000 \<or> masked = 0xa8c00000 \<or> masked = 0xa9800000 \<or>
                masked = 0xa9c00000;
            post_index = masked = 0x28800000 \<or> masked = 0x28c00000 \<or> masked = 0x68c00000 \<or>
                masked = 0xa8800000 \<or> masked = 0xa8c00000;
            imm7 = sign_extend_u64 (zext64 (fld w 15 0x7f)) 7;
            offset = imm7 * zext64 width in
        Accept ((instr_init w)\<lparr>i_kind := AVZ_NATIVE_OP_LOAD_STORE_PAIR,
            i_rt := lo8 (w AND 0x1f), i_rd := lo8 (fld w 10 0x1f), i_rn := lo8 (fld w 5 0x1f),
            i_width := lo8 width, i_bits := lo8 (width * 8),
            i_flags := lo8 (of_flag is_ld OR (if sign_extend_words then 2 else 0) OR
                (if writeback then 8 else 0)),
            i_immediate := if post_index then 0 else offset, i_immediate2 := offset\<rparr>)
      else Fall)"

definition dec_simd_pairwise_add :: "u32 \<Rightarrow> outcome" where
  "dec_simd_pairwise_add w =
     (if matches w 0xfffffc00 0x5ef1b800 then
        Accept ((instr_init w)\<lparr>i_kind := AVZ_NATIVE_OP_SIMD_PAIRWISE_ADD,
            i_rd := lo8 (w AND 0x1f), i_rn := lo8 (fld w 5 0x1f), i_rm := 0, i_bits := 64,
            i_flags := 2\<rparr>)
      else Fall)"

definition dec_simd_pairwise_add_2 :: "u32 \<Rightarrow> outcome" where
  "dec_simd_pairwise_add_2 w =
     (if matches w 0xbf20fc00 0x0e20bc00 then
        let q = fld w 30 1;
            sz = fld w 22 3 in
        if sz = 3 \<and> q = 0 then Reject
        else
        Accept ((instr_init w)\<lparr>i_kind := AVZ_NATIVE_OP_SIMD_PAIRWISE_ADD,
            i_rd := lo8 (w AND 0x1f), i_rn := lo8 (fld w 5 0x1f), i_rm := lo8 (fld w 16 0x1f),
            i_bits := lo8 (shl 8 (unat sz)), i_flags := lo8 q\<rparr>)
      else Fall)"

definition dec_branch :: "u32 \<Rightarrow> outcome" where
  "dec_branch w =
     (if matches w 0xfc000000 0x14000000 \<or> matches w 0xfc000000 0x94000000 then
        Accept ((instr_init w)\<lparr>i_kind := AVZ_NATIVE_OP_BRANCH,
            i_flags := lo8 (of_flag (matches w 0xfc000000 0x94000000)),
            i_immediate := decode_scaled_signed_immediate (zext64 (w AND 0x03ffffff)) 26 4\<rparr>)
      else Fall)"

subsection \<open>Well-formedness\<close>

text \<open>The blocks of this theory, in the order of the code.\<close>

definition vector2_blocks :: "(u32 \<Rightarrow> outcome) list" where
  "vector2_blocks =
     [dec_simd_insert_general_to_element, dec_simd_insert_vector_element,
     dec_simd_signed_shift_long_s_to_d, dec_simd_signed_shift_long_s_to_d_2,
     dec_simd_extract_vector, dec_simd_table_lookup, dec_simd_permute_two_vector,
     dec_simd_add_vector, dec_simd_add_vector_2, dec_simd_add_vector_3, dec_simd_add_vector_4,
     dec_simd_unsigned_shift_register, dec_simd_unsigned_shift_register_2,
     dec_fp_scalar_round_integral_2, dec_simd_reverse_elements, dec_simd_compare_equal_vector,
     dec_simd_compare_equal_vector_2, dec_simd_compare_equal_vector_3,
     dec_simd_compare_equal_vector_4, dec_simd_fp_compare_vector, dec_simd_fp_compare_vector_2,
     dec_simd_count_set_bits, dec_simd_count_leading_zeros, dec_simd_bitwise_not,
     dec_simd_integer_negate, dec_simd_integer_negate_2, dec_simd_multiply_long,
     dec_simd_multiply_long_2, dec_simd_multiply_long_3, dec_simd_multiply_long_4,
     dec_simd_multiply_long_5, dec_simd_multiply_long_6, dec_simd_narrow_high_2,
     dec_simd_narrow_high_3, dec_simd_narrow_high_4, dec_simd_narrow_high_5,
     dec_simd_saturating_add_subtract, dec_simd_saturating_add_subtract_2, dec_simd_orr_vector,
     dec_simd_orr_vector_2, dec_simd_orr_vector_3, dec_simd_orr_vector_4,
     dec_simd_unsigned_max_pairwise, dec_simd_duplicate_general, dec_simd_movi_zero,
     dec_simd_fp_immediate_move, dec_simd_movi_word_immediate, dec_simd_movi_word_immediate_2,
     dec_simd_movi_byte, dec_simd_movi_d_immediate, dec_simd_mvni_immediate,
     dec_simd_fp_load_store_pair, dec_load_store_pair, dec_simd_pairwise_add,
     dec_simd_pairwise_add_2, dec_branch]"

lemmas vector2_block_defs =
  dec_simd_insert_general_to_element_def dec_simd_insert_vector_element_def
  dec_simd_signed_shift_long_s_to_d_def dec_simd_signed_shift_long_s_to_d_2_def
  dec_simd_extract_vector_def dec_simd_table_lookup_def dec_simd_permute_two_vector_def
  dec_simd_add_vector_def dec_simd_add_vector_2_def dec_simd_add_vector_3_def
  dec_simd_add_vector_4_def dec_simd_unsigned_shift_register_def
  dec_simd_unsigned_shift_register_2_def dec_fp_scalar_round_integral_2_def
  dec_simd_reverse_elements_def dec_simd_compare_equal_vector_def
  dec_simd_compare_equal_vector_2_def dec_simd_compare_equal_vector_3_def
  dec_simd_compare_equal_vector_4_def dec_simd_fp_compare_vector_def
  dec_simd_fp_compare_vector_2_def dec_simd_count_set_bits_def dec_simd_count_leading_zeros_def
  dec_simd_bitwise_not_def dec_simd_integer_negate_def dec_simd_integer_negate_2_def
  dec_simd_multiply_long_def dec_simd_multiply_long_2_def dec_simd_multiply_long_3_def
  dec_simd_multiply_long_4_def dec_simd_multiply_long_5_def dec_simd_multiply_long_6_def
  dec_simd_narrow_high_2_def dec_simd_narrow_high_3_def dec_simd_narrow_high_4_def
  dec_simd_narrow_high_5_def dec_simd_saturating_add_subtract_def
  dec_simd_saturating_add_subtract_2_def dec_simd_orr_vector_def dec_simd_orr_vector_2_def
  dec_simd_orr_vector_3_def dec_simd_orr_vector_4_def dec_simd_unsigned_max_pairwise_def
  dec_simd_duplicate_general_def dec_simd_movi_zero_def dec_simd_fp_immediate_move_def
  dec_simd_movi_word_immediate_def dec_simd_movi_word_immediate_2_def dec_simd_movi_byte_def
  dec_simd_movi_d_immediate_def dec_simd_mvni_immediate_def dec_simd_fp_load_store_pair_def
  dec_load_store_pair_def dec_simd_pairwise_add_def dec_simd_pairwise_add_2_def dec_branch_def

lemma dec_simd_multiply_long_2_wf: "outcome_ok (instr_wf w) (dec_simd_multiply_long_2 w)"
  unfolding dec_simd_multiply_long_2_def
  by (intro outcome_ok_rules;
      clarsimp simp: wf_simps structure_count element_rm element_rm[simplified] split: if_splits)

lemma dec_simd_multiply_long_4_wf: "outcome_ok (instr_wf w) (dec_simd_multiply_long_4 w)"
  unfolding dec_simd_multiply_long_4_def
  by (intro outcome_ok_rules;
      clarsimp simp: wf_simps structure_count element_rm element_rm[simplified] split: if_splits)

lemma dec_simd_fp_load_store_pair_wf: "outcome_ok (instr_wf w) (dec_simd_fp_load_store_pair w)"
  unfolding dec_simd_fp_load_store_pair_def
  by (intro outcome_ok_rules; clarsimp simp: wf_simps; subst fld_masked; elim disjE;
      simp add: fld_def width_ok_def)

lemma vector2_blocks_wf: "list_all (\<lambda>f. outcome_ok (instr_wf w) (f w)) vector2_blocks"
  unfolding vector2_blocks_def list.pred_inject
  by (intro conjI list.pred_inject(1) dec_simd_multiply_long_2_wf dec_simd_multiply_long_4_wf dec_simd_fp_load_store_pair_wf;
      unfold vector2_block_defs; intro outcome_ok_rules; simp add: wf_simps)

end
