(* ===== verification/Decode.thy ===== *)
theory Decode
  imports DecodeScalar DecodeVector DecodeFloat DecodeVector2
begin

text \<open>
  The decoder \<open>avz_native_decode_instruction\<close> as the sequence of its blocks, the invariant
  of the instructions it produces, and its dispatch: which block an instruction word reaches.
  The dispatch is proved through a table of the mask-and-value pairs that are necessary for
  each block to act; a class of the architecture whose pattern clashes with every other
  block's pairs is decoded by its own block alone.
\<close>

subsection \<open>The decoder\<close>

definition decoder_blocks :: "(u32 \<Rightarrow> outcome) list" where
  "decoder_blocks = scalar_blocks @ vector_blocks @ float_blocks @ vector2_blocks"

definition avz_native_decode_instruction :: "u32 \<Rightarrow> instr option" where
  "avz_native_decode_instruction instruction = first_outcome decoder_blocks instruction"

definition avz_native_instruction_supported :: "u32 \<Rightarrow> bool" where
  "avz_native_instruction_supported instruction =
     (avz_native_decode_instruction instruction \<noteq> None)"

lemma first_outcome_ok:
  "list_all (\<lambda>f. outcome_ok P (f w)) fs \<Longrightarrow> first_outcome fs w = Some d \<Longrightarrow> P d"
proof (induction fs)
  case (Cons f fs)
  then show ?case by (cases "f w") auto
qed simp

lemma decode_wf:
  assumes "avz_native_decode_instruction w = Some d"
  shows "instr_wf w d"
proof -
  have "list_all (\<lambda>f. outcome_ok (instr_wf w) (f w)) decoder_blocks"
    unfolding decoder_blocks_def list_all_append
    using scalar_blocks_wf vector_blocks_wf float_blocks_wf vector2_blocks_wf by simp
  with assms show ?thesis unfolding avz_native_decode_instruction_def by (rule first_outcome_ok[rotated])
qed

subsection \<open>Guards\<close>

text \<open>
  For each block the pairs \<open>(mask, value)\<close> one of which an instruction word has to match
  before the block does anything but fall through.
\<close>

definition scalar_guards :: "(int \<times> int) list list" where
  "scalar_guards = [
     [(0xffffffff, 0xd503205f), (0xffffffff, 0xd503207f)],
     [(0xffffffff, 0xd503201f), (0xffffffff, 0xd503209f), (0xffffffff, 0xd50320bf), (0xfffff01f, 0xd503201f)],
     [(0xfffff0ff, 0xd503309f), (0xfffff0ff, 0xd50330bf), (0xfffff0ff, 0xd50330df)],
     [(0xfffff01f, 0xd503401f)], [(0xffe0001f, 0xd4400000)], [(0xffffffff, 0xd69f03e0)],
     [(0xffe0001f, 0xd4000001), (0xffe0001f, 0xd4000002), (0xffe0001f, 0xd4000003), (0xffe0001f, 0xd4200000)],
     [(0xfff00000, 0xd5300000)], [(0xfff00000, 0xd5100000)], [(0xfff80000, 0xd5080000)],
     [(0x9f000000, 0x10000000), (0x9f000000, 0x90000000)], [(0x7e000000, 0x34000000)],
     [(0x7e000000, 0x36000000)], [(0xff000010, 0x54000000)], [(0x3fe00c10, 0x3a400000)],
     [(0x3fe00c10, 0x3a400800)], [(0x1fe00800, 0x1a800000)], [(0x1f200000, 0x0b000000)],
     [(0x1fe0fc00, 0x1a000000)], [(0x1f000000, 0x0a000000)], [(0x7fa00000, 0x13800000)],
     [(0x1f800000, 0x12000000)],
     [(0xfffffc1f, 0xd65f0000), (0xfffffc1f, 0xd61f0000), (0xfffffc1f, 0xd63f0000)],
     [(0x1f800000, 0x13000000)], [(0x5fe00000, 0x5ac00000)], [(0x7fe0c000, 0x1ac00000)],
     [(0x7fe00000, 0x1b000000)], [(0x7fe00000, 0x1b200000)], [(0x7fe00000, 0x1ba00000)],
     [(0xffe0fc00, 0x9b407c00)], [(0xffe0fc00, 0x9bc07c00)], [(0x1f200000, 0x0b200000)],
     [(0x3b000000, 0x18000000)], [(0x1f800000, 0x12800000)], [(0x1f000000, 0x11000000)],
     [(0x3f000000, 0x39000000)], [(0x3f000000, 0x3c000000)], [(0x3f000000, 0x38000000)],
     [(0x3f200c00, 0x3c200800)], [(0x3b200c00, 0x38200800)], [(0x3fa0fc00, 0x0880fc00)],
     [(0x3fa07c00, 0x08007c00)], [(0x3fa00000, 0x08200000)], [(0x3f000000, 0x3d000000)]]"

definition vector_guards :: "(int \<times> int) list list" where
  "vector_guards = [
     [(0xbfe0fc00, 0x0e003c00), (0xbfe0fc00, 0x0e002c00)], [(0xffe0fc00, 0x5e000400)],
     [(0xbf20fc00, 0x0e000400)], [(0xff80fc00, 0x5f005400)],
     [(0xbf80fc00, 0x0f005400), (0xbf80fc00, 0x2f005400)], [(0xbf80f400, 0x0f008400)],
     [(0xdf80fc00, 0x5f000400), (0xdf80fc00, 0x5f001400), (0xdf80fc00, 0x5f002400), (0xdf80fc00, 0x5f003400), (0x9f80fc00, 0x0f000400), (0x9f80fc00, 0x0f001400), (0x9f80fc00, 0x0f002400), (0x9f80fc00, 0x0f003400), (0x9f80fc00, 0x0f004400)],
     [(0x9f3efc00, 0x0e30a800)], [(0xbf3ffc00, 0x0e31b800)], [(0x9f3ffc00, 0x0e303800)],
     [(0x9f3fbc00, 0x0e202800)], [(0xbf000000, 0x0d000000)], [(0xbf200000, 0x0c000000)]]"

definition float_guards :: "(int \<times> int) list list" where
  "float_guards = [
     [(0xfffffc00, 0x1e270000)], [(0xfffffc00, 0x1e260000)], [(0xfffffc00, 0x9e670000)],
     [(0xfffffc00, 0x9e660000)], [(0xfffffc00, 0x9eaf0000)], [(0xfffffc00, 0x9eae0000)],
     [(0xfffffc00, 0x1e204000), (0xfffffc00, 0x1e604000)], [(0xfffffc00, 0x1e624000)],
     [(0xfffffc00, 0x1e22c000)],
     [(0xfffffc00, 0x1e20c000), (0xfffffc00, 0x1e60c000), (0xfffffc00, 0x1e214000), (0xfffffc00, 0x1e614000), (0xfffffc00, 0x1e21c000), (0xfffffc00, 0x1e61c000)],
     [(0xfffffc00, 0x1e244000), (0xfffffc00, 0x1e644000), (0xfffffc00, 0x1e24c000), (0xfffffc00, 0x1e64c000), (0xfffffc00, 0x1e254000), (0xfffffc00, 0x1e654000), (0xfffffc00, 0x1e25c000), (0xfffffc00, 0x1e65c000), (0xfffffc00, 0x1e264000), (0xfffffc00, 0x1e664000), (0xfffffc00, 0x1e274000), (0xfffffc00, 0x1e674000), (0xfffffc00, 0x1e27c000), (0xfffffc00, 0x1e67c000)],
     [(0xfffffc00, 0x5e21d800), (0xfffffc00, 0x5e61d800), (0xfffffc00, 0x7e21d800), (0xfffffc00, 0x7e61d800)],
     [(0xbffffc00, 0x0e616800), (0xbffffc00, 0x0e617800)],
     [(0xbffffc00, 0x0e21d800), (0xbffffc00, 0x0e61d800), (0xbffffc00, 0x2e21d800), (0xbffffc00, 0x2e61d800)],
     [(0xffe01fe0, 0x1e201000), (0xffe01fe0, 0x1e601000)],
     [(0x7f3f0000, 0x1e020000), (0x7f3f0000, 0x1e030000)],
     [(0x7fbffc00, 0x1e220000), (0x7fbffc00, 0x1e230000)], [(0xff800000, 0x1f000000)],
     [(0xbfa0fc00, 0x2ea0d400)], [(0xffe0fc00, 0x7ea0d400), (0xffe0fc00, 0x7ee0d400)],
     [(0x9f20f400, 0x0e206400)], [(0xffbffc00, 0x7e30d800)],
     [(0xbfa0fc00, 0x0e20c400), (0xbfa0fc00, 0x0ea0c400), (0xbfa0fc00, 0x0e20f400), (0xbfa0fc00, 0x0ea0f400)],
     [(0xbfbffc00, 0x0ea1d800), (0xbfbffc00, 0x2ea1d800)],
     [(0xffbffc00, 0x5ea1d800), (0xffbffc00, 0x7ea1d800)],
     [(0xbfa0fc00, 0x0e20fc00), (0xbfa0fc00, 0x0ea0fc00)],
     [(0xffa0fc00, 0x5e20fc00), (0xffa0fc00, 0x5ea0fc00)],
     [(0xbfa0fc00, 0x0e20cc00), (0xbfa0fc00, 0x0ea0cc00)],
     [(0xbfbffc00, 0x0ea0f800), (0xbfbffc00, 0x2ea0f800), (0xbfbffc00, 0x2ea1f800)],
     [(0xbf00b400, 0x0f001000)], [(0xbf80f400, 0x0f809000), (0xff80f400, 0x5f809000)],
     [(0xbfa0fc00, 0x0e20d400), (0xbfa0fc00, 0x0ea0d400), (0xbfa0fc00, 0x2e20dc00), (0xbfa0fc00, 0x2e20fc00)],
     [(0xffe0fc00, 0x1e202800), (0xffe0fc00, 0x1e602800), (0xffe0fc00, 0x1e203800), (0xffe0fc00, 0x1e603800), (0xffe0fc00, 0x1e200800), (0xffe0fc00, 0x1e600800), (0xffe0fc00, 0x1e201800), (0xffe0fc00, 0x1e601800)],
     [(0xffe0fc00, 0x1e206800), (0xffe0fc00, 0x1e606800), (0xffe0fc00, 0x1e207800), (0xffe0fc00, 0x1e607800), (0xffe0fc00, 0x1e204800), (0xffe0fc00, 0x1e604800), (0xffe0fc00, 0x1e205800), (0xffe0fc00, 0x1e605800)],
     [(0xffe0fc00, 0x1e208800), (0xffe0fc00, 0x1e608800)],
     [(0xffe00c00, 0x1e200c00), (0xffe00c00, 0x1e600c00)], [(0xff200c00, 0x1e200400)],
     [(0xffe0fc1f, 0x1e202008), (0xffe0fc1f, 0x1e202018), (0xffe0fc1f, 0x1e602008), (0xffe0fc1f, 0x1e602018)],
     [(0xffe0fc1f, 0x1e202000), (0xffe0fc1f, 0x1e202010), (0xffe0fc1f, 0x1e602000), (0xffe0fc1f, 0x1e602010)],
     [(0x7f3f0000, 0x1e180000), (0x7f3f0000, 0x1e190000)],
     [(0x7f3ffc00, 0x1e200000), (0x7f3ffc00, 0x1e210000), (0x7f3ffc00, 0x1e280000), (0x7f3ffc00, 0x1e290000), (0x7f3ffc00, 0x1e300000), (0x7f3ffc00, 0x1e310000), (0x7f3ffc00, 0x1e240000), (0x7f3ffc00, 0x1e250000), (0x7f3ffc00, 0x1e380000), (0x7f3ffc00, 0x1e390000)],
     [(0xfffffc00, 0x5ea1b800), (0xfffffc00, 0x5ee1b800)],
     [(0xfffffc00, 0x7ea1b800), (0xfffffc00, 0x7ee1b800)],
     [(0xfffffc00, 0x1e390000), (0xfffffc00, 0x1e790000), (0xfffffc00, 0x9e390000), (0xfffffc00, 0x9e790000)],
     [(0xfffffc00, 0x1e380000), (0xfffffc00, 0x1e780000), (0xfffffc00, 0x9e380000), (0xfffffc00, 0x9e780000)],
     [(0x9fbffc00, 0x0e21a800), (0x9fbffc00, 0x0ea1a800), (0x9fbffc00, 0x0e21b800), (0x9fbffc00, 0x0ea1b800), (0x9fbffc00, 0x0e21c800)]]"

definition vector2_guards :: "(int \<times> int) list list" where
  "vector2_guards = [
     [(0xffe0fc00, 0x4e001c00)], [(0xff208400, 0x6e000400)], [(0x9f80fc00, 0x0f00a400)],
     [(0xbf20fc00, 0x2e203800)], [(0xbfe08400, 0x2e000000)], [(0xbfe08c00, 0x0e000000)],
     [(0xbf200c00, 0x0e000800)], [(0x9f20cc00, 0x0e200000)], [(0x9f20f400, 0x0e207400)],
     [(0xdf20fc00, 0x5e208400)], [(0x9f20fc00, 0x0e208400)], [(0xdf20fc00, 0x5e204400)],
     [(0x9f20fc00, 0x0e204400)],
     [(0xbfbffc00, 0x0e218800), (0xbfbffc00, 0x0ea18800), (0xbfbffc00, 0x0e219800), (0xbfbffc00, 0x0ea19800), (0xbfbffc00, 0x2e218800), (0xbfbffc00, 0x2e219800), (0xbfbffc00, 0x2ea19800)],
     [(0xbf3ffc00, 0x0e201800), (0xbf3ffc00, 0x2e200800), (0xbf3ffc00, 0x0e200800)],
     [(0x9f20fc00, 0x0e208c00)],
     [(0xbf20fc00, 0x0e209800), (0xbf20fc00, 0x0e208800), (0xbf20fc00, 0x2e208800), (0xbf20fc00, 0x0e20a800), (0xbf20fc00, 0x2e209800)],
     [(0xfffffc00, 0x5ee09800), (0xfffffc00, 0x5ee08800), (0xfffffc00, 0x7ee08800), (0xfffffc00, 0x5ee0a800), (0xfffffc00, 0x7ee09800)],
     [(0x9f20f400, 0x0e203400)],
     [(0xbfa0fc00, 0x0e20e400), (0xbfa0fc00, 0x2ea0e400), (0xbfa0fc00, 0x2e20e400), (0xbfa0fc00, 0x2ea0ec00), (0xbfa0fc00, 0x2e20ec00)],
     [(0xbfbffc00, 0x0ea0d800), (0xbfbffc00, 0x0ea0c800), (0xbfbffc00, 0x2ea0c800), (0xbfbffc00, 0x0ea0e800), (0xbfbffc00, 0x2ea0d800)],
     [(0xbffffc00, 0x0e205800)], [(0xbf3ffc00, 0x2e204800)], [(0xbffffc00, 0x2e205800)],
     [(0xdffffc00, 0x5ee0b800)], [(0x9f3ffc00, 0x0e20b800)], [(0x9f20dc00, 0x0e208000)],
     [(0x9f00f400, 0x0f00a000), (0x9f00f400, 0x0f002000), (0x9f00f400, 0x0f006000)],
     [(0x9f20fc00, 0x0e209400)], [(0xbf00f400, 0x0f008000), (0xbf00b400, 0x2f000000)],
     [(0xbf20fc00, 0x0e209c00)], [(0x9f20fc00, 0x0e20c000)],
     [(0xbf80f400, 0x0f009400), (0xbf80f400, 0x2f009400), (0xbf80f400, 0x2f008400), (0xbf80f400, 0x1f009400), (0xbf80f400, 0x3f009400), (0xbf80f400, 0x3f008400)],
     [(0xbf3ffc00, 0x2e212800), (0xbf3ffc00, 0x0e214800), (0xbf3ffc00, 0x2e214800), (0xbf3ffc00, 0x3e212800), (0xbf3ffc00, 0x1e214800), (0xbf3ffc00, 0x3e214800)],
     [(0xbf3ffc00, 0x0e212800)], [(0x9f20dc00, 0x0e204000)], [(0xdf20dc00, 0x5e200c00)],
     [(0x9f20dc00, 0x0e200c00)], [(0xbfe0fc00, 0x0ea01c00)],
     [(0xbfe0fc00, 0x0e201c00), (0xbfe0fc00, 0x0e601c00), (0xbfe0fc00, 0x0ee01c00)],
     [(0xbfe0fc00, 0x2e201c00)], [(0xbf20fc00, 0x2e201c00)], [(0xbf20fc00, 0x2e20a400)],
     [(0xbfe0fc00, 0x0e000c00)], [(0x9ff80400, 0x0f000400)], [(0x9ff80400, 0x0f000400)],
     [(0x9ff80400, 0x0f000400)], [(0x9ff80400, 0x0f000400)], [(0x9ff80400, 0x0f000400)],
     [(0x9ff80400, 0x0f000400)], [(0x9ff80400, 0x0f000400)],
     [(0xffc00000, 0x2c800000), (0xffc00000, 0x2cc00000), (0xffc00000, 0x2d000000), (0xffc00000, 0x2d400000), (0xffc00000, 0x2d800000), (0xffc00000, 0x2dc00000), (0xffc00000, 0x6c800000), (0xffc00000, 0x6cc00000), (0xffc00000, 0x6d000000), (0xffc00000, 0x6d400000), (0xffc00000, 0x6d800000), (0xffc00000, 0x6dc00000), (0xffc00000, 0xac800000), (0xffc00000, 0xacc00000), (0xffc00000, 0xad000000), (0xffc00000, 0xad400000), (0xffc00000, 0xad800000), (0xffc00000, 0xadc00000)],
     [(0x3e000000, 0x28000000)], [(0xfffffc00, 0x5ef1b800)], [(0xbf20fc00, 0x0e20bc00)],
     [(0xfc000000, 0x14000000), (0xfc000000, 0x94000000)]]"

definition guarded :: "u32 \<Rightarrow> (u32 \<Rightarrow> outcome) \<Rightarrow> (int \<times> int) list \<Rightarrow> bool" where
  "guarded w f gs \<longleftrightarrow> f w \<noteq> Fall \<longrightarrow> list_ex (\<lambda>(m, v). matches w (word_of_int m) (word_of_int v)) gs"

lemma guardedI:
  "(list_all (\<lambda>(m, v). w AND word_of_int m \<noteq> word_of_int v) gs \<Longrightarrow> f w = Fall) \<Longrightarrow> guarded w f gs"
  unfolding guarded_def matches_def by (auto simp: list_ex_iff list_all_iff)

lemma and_all: "(w :: u32) AND 0xffffffff = w"
proof -
  have "(0xffffffff :: u32) = - 1" by simp
  then show ?thesis by (simp only: and.right_neutral)
qed

lemma matches_part: "matches w m v \<Longrightarrow> m AND n = n \<Longrightarrow> matches w n (v AND n)"
  by (metis and.assoc matches_def)

lemma load_store_class:
  assumes "matches (w :: u32) 0x3b000000 0x38000000"
  shows "flag w 26 \<Longrightarrow> matches w 0x3f000000 0x3c000000"
    "\<not> flag w 26 \<Longrightarrow> matches w 0x3f000000 0x38000000" "fld w 26 1 \<noteq> 0 \<longleftrightarrow> flag w 26"
proof -
  have m: "w AND 0x3f000000 = (w AND 0x3b000000) OR (w AND 0x04000000)" for w :: u32
    by (simp add: bit.conj_disj_distrib[symmetric])
  have "w AND 2 ^ 26 = (if bit w 26 then 2 ^ 26 else 0)"
    by (rule bit_word_eqI) (auto simp only: bit_and_iff bit_exp_iff bit_0_eq split: if_splits)
  then have b: "w AND 0x04000000 = (if bit w 26 then 0x04000000 else 0)" by simp
  show "flag w 26 \<Longrightarrow> matches w 0x3f000000 0x3c000000"
    "\<not> flag w 26 \<Longrightarrow> matches w 0x3f000000 0x38000000"
    using assms unfolding matches_def m[of w] b flag_bit by auto
  show "fld w 26 1 \<noteq> 0 \<longleftrightarrow> flag w 26" by (simp add: flag_def)
qed

lemma guarded_fp_load_store:
  "guarded w dec_simd_fp_load_store_immediate [(0x3f000000, 0x3c000000)]"
proof (rule guardedI)
  assume "list_all (\<lambda>(m, v). w AND word_of_int m \<noteq> word_of_int v) [(0x3f000000, 0x3c000000)]"
  then have "\<not> matches w 0x3f000000 0x3c000000" by (simp add: matches_def)
  then have "matches w 0x3b000000 0x38000000 \<Longrightarrow> fld w 26 1 = 0"
    using load_store_class[of w] by blast
  then show "dec_simd_fp_load_store_immediate w = Fall"
    by (auto simp: dec_simd_fp_load_store_immediate_def)
qed

lemma guarded_load_store:
  "guarded w dec_load_store_signed_immediate [(0x3f000000, 0x38000000)]"
proof (rule guardedI)
  assume "list_all (\<lambda>(m, v). w AND word_of_int m \<noteq> word_of_int v) [(0x3f000000, 0x38000000)]"
  then have "\<not> matches w 0x3f000000 0x38000000" by (simp add: matches_def)
  then have "matches w 0x3b000000 0x38000000 \<Longrightarrow> flag w 26"
    using load_store_class[of w] by blast
  then show "dec_load_store_signed_immediate w = Fall"
    by (auto simp: dec_load_store_signed_immediate_def)
qed

lemma guarded_part:
  assumes "guarded w f gs" "list_all (\<lambda>(m, v). m AND n = n \<and> v AND n = u) gs"
  shows "guarded w f [(n, u)]"
proof -
  have "matches w (word_of_int n) (word_of_int u)" if g: "f w \<noteq> Fall"
  proof -
    obtain m v where mv: "(m, v) \<in> set gs" "matches w (word_of_int m) (word_of_int v)"
      using assms(1) g by (auto simp: guarded_def list_ex_iff)
    then have "m AND n = n" "v AND n = u" using assms(2) by (auto simp: list_all_iff)
    then have "(word_of_int m :: u32) AND word_of_int n = word_of_int n"
      "(word_of_int v :: u32) AND word_of_int n = word_of_int u"
      by (simp_all only: flip: of_int_and_eq)
    with matches_part[OF mv(2), of "word_of_int n"] show ?thesis by metis
  qed
  then show ?thesis by (simp add: guarded_def)
qed

lemma guarded_unsigned_immediate:
  "guarded w dec_load_store_unsigned_immediate [(0x3f000000, 0x39000000)]"
  by (rule guarded_part[of w _ 
    "map (Pair 0xffc00000)
      [0x39000000, 0x39400000, 0x39800000, 0x39c00000, 0x79000000, 0x79400000, 0x79800000,
      0x79c00000, 0xb9000000, 0xb9400000, 0xb9800000, 0xf9000000, 0xf9400000, 0xf9800000]"], rule guardedI)
    (simp_all add: dec_load_store_unsigned_immediate_def)

lemma guarded_simd_unsigned_immediate:
  "guarded w dec_simd_fp_load_store_immediate_2 [(0x3f000000, 0x3d000000)]"
  by (rule guarded_part[of w _ 
    "map (Pair 0xffc00000)
      [0x3d000000, 0x3d400000, 0x7d000000, 0x7d400000, 0xbd000000, 0xbd400000, 0xfd000000,
      0xfd400000, 0x3d800000, 0x3dc00000]"], rule guardedI)
    (simp_all add: dec_simd_fp_load_store_immediate_2_def)

lemma guarded_pair:
  "guarded w dec_load_store_pair [(0x3e000000, 0x28000000)]"
  by (rule guarded_part[of w _ 
    "map (Pair 0xffc00000)
      [0x28000000, 0x28400000, 0x28800000, 0x28c00000, 0x29000000, 0x29400000, 0x29800000,
      0x29c00000, 0x68c00000, 0x69400000, 0x69c00000, 0xa8000000, 0xa8400000, 0xa8800000,
      0xa8c00000, 0xa9000000, 0xa9400000, 0xa9800000, 0xa9c00000]"], rule guardedI)
    (simp_all add: dec_load_store_pair_def)

lemmas modified_immediate_defs = is_simd_modified_immediate_def decode_simd_movi_zero_def
  decode_simd_movi_byte_def decode_simd_movi_word_immediate_def
  decode_simd_logical_word_immediate_def decode_simd_fp_immediate_def
  decode_simd_movi_d_immediate_def decode_simd_mvni_immediate_def

lemma scalar_guarded: "list_all2 (guarded w) scalar_blocks scalar_guards"
  unfolding scalar_blocks_def scalar_guards_def list_all2_Cons list_all2_Nil
  by (intro conjI refl guarded_fp_load_store guarded_load_store guarded_unsigned_immediate guarded_simd_unsigned_immediate; rule guardedI; unfold scalar_block_defs;
      simp add: and_all matches_def modified_immediate_defs)

lemma vector_guarded: "list_all2 (guarded w) vector_blocks vector_guards"
  unfolding vector_blocks_def vector_guards_def list_all2_Cons list_all2_Nil
  by (intro conjI refl; rule guardedI; unfold vector_block_defs;
      simp add: and_all matches_def modified_immediate_defs)

lemma float_guarded: "list_all2 (guarded w) float_blocks float_guards"
  unfolding float_blocks_def float_guards_def list_all2_Cons list_all2_Nil
  by (intro conjI refl; rule guardedI; unfold float_block_defs;
      simp add: and_all matches_def modified_immediate_defs)

lemma vector2_guarded: "list_all2 (guarded w) vector2_blocks vector2_guards"
  unfolding vector2_blocks_def vector2_guards_def list_all2_Cons list_all2_Nil
  by (intro conjI refl guarded_pair; rule guardedI; unfold vector2_block_defs;
      simp add: and_all matches_def modified_immediate_defs)

subsection \<open>Dispatch\<close>

text \<open>Two patterns clash when some bit both fix has different values in them.\<close>

definition clash :: "int \<times> int \<Rightarrow> int \<times> int \<Rightarrow> bool" where
  "clash p q = (take_bit 32 ((snd p XOR snd q) AND fst p AND fst q) \<noteq> 0)"

lemma clash_disjoint:
  assumes "clash (m, v) (n, u)" "matches w (word_of_int m) (word_of_int v)"
  shows "\<not> matches (w :: u32) (word_of_int n) (word_of_int u)"
proof
  assume "matches w (word_of_int n) (word_of_int u)"
  with assms(2) have "(word_of_int v XOR word_of_int u) AND word_of_int m AND word_of_int n
      = ((w AND word_of_int m) XOR (w AND word_of_int n)) AND word_of_int m AND word_of_int n"
    by (simp add: matches_def)
  also have "\<dots> = 0" by (rule bit_word_eqI) (auto simp: bit_simps)
  finally have "(word_of_int ((v XOR u) AND m AND n) :: u32) = 0"
    by (simp only: of_int_and_eq of_int_xor_eq)
  then have "(word_of_int ((v XOR u) AND m AND n) :: u32) = word_of_int 0" by simp
  then have "take_bit 32 ((v XOR u) AND m AND n) = 0" unfolding word_of_int_eq_iff by simp
  then show False using assms(1) by (simp add: clash_def)
qed

lemma guarded_falls:
  assumes "list_all2 (guarded w) fs gss" "list_all (list_all (clash (m, v))) gss"
    "matches w (word_of_int m) (word_of_int v)"
  shows "first_outcome (fs @ hs) w = first_outcome hs w"
  using assms(1,2)
proof (induction rule: list_all2_induct)
  case (Cons f fs gs gss)
  have "\<not> list_ex (\<lambda>(n, u). matches w (word_of_int n) (word_of_int u)) gs"
    using Cons.prems clash_disjoint[OF _ assms(3)] by (auto simp: list_ex_iff list_all_iff)
  then have "f w = Fall" using Cons.hyps(1) by (auto simp: guarded_def)
  then show ?case using Cons by simp
qed simp

text \<open>
  Every vector and floating point block acts only on words whose bits 27 and 26 are both
  set. The other blocks are the core of the decoder.
\<close>

definition simd_space :: "int \<times> int" where
  "simd_space = (0x0c000000, 0x0c000000)"

definition core_blocks :: "(u32 \<Rightarrow> outcome) list" where
  "core_blocks = scalar_blocks @ [dec_load_store_pair, dec_branch]"

definition core_guards :: "(int \<times> int) list list" where
  "core_guards = scalar_guards @
     [[(0x3e000000, 0x28000000)],
      [(0xfc000000, 0x14000000), (0xfc000000, 0x94000000)]]"

definition within_simd :: "int \<times> int \<Rightarrow> bool" where
  "within_simd p = (fst p AND 0x0c000000 = 0x0c000000 \<and> snd p AND 0x0c000000 = 0x0c000000)"

lemma within_simd_matches:
  assumes "within_simd (n, u)" "matches (w :: u32) (word_of_int n) (word_of_int u)"
  shows "matches w (word_of_int 0x0c000000) (word_of_int 0x0c000000)"
proof -
  have "(word_of_int n :: u32) AND word_of_int 0x0c000000 = word_of_int 0x0c000000"
    "(word_of_int u :: u32) AND word_of_int 0x0c000000 = word_of_int 0x0c000000"
    using assms(1) by (simp_all only: within_simd_def fst_conv snd_conv flip: of_int_and_eq)
  then show ?thesis using assms(2) unfolding matches_def by (metis and.assoc)
qed

lemma simd_falls:
  assumes "list_all2 (guarded w) fs gss" "list_all (list_all within_simd) gss" "clash (m, v) simd_space"
    "matches w (word_of_int m) (word_of_int v)"
  shows "first_outcome (fs @ hs) w = first_outcome hs w"
  using assms(1,2)
proof (induction rule: list_all2_induct)
  case (Cons f fs gs gss)
  have "\<not> matches w (word_of_int 0x0c000000) (word_of_int 0x0c000000)"
    using clash_disjoint[OF assms(3)[unfolded simd_space_def] assms(4)] .
  then have "\<not> list_ex (\<lambda>(n, u). matches w (word_of_int n) (word_of_int u)) gs"
    using Cons.prems within_simd_matches by (fastforce simp: list_ex_iff list_all_iff)
  then have "f w = Fall" using Cons.hyps(1) by (auto simp: guarded_def)
  then show ?case using Cons by simp
qed simp

lemma guards_within_simd:
  "list_all (list_all within_simd) vector_guards" "list_all (list_all within_simd) float_guards"
  "list_all (list_all within_simd) (take 52 vector2_guards)"
  "list_all (list_all within_simd) (take 2 (drop 53 vector2_guards))"
  by code_simp+

lemma core_decode:
  assumes "clash (m, v) simd_space" "matches w (word_of_int m) (word_of_int v)"
  shows "avz_native_decode_instruction w = first_outcome core_blocks w"
proof -
  have split: "vector2_blocks = take 52 vector2_blocks @ [dec_load_store_pair] @
      take 2 (drop 53 vector2_blocks) @ [dec_branch]"
    by (simp add: vector2_blocks_def)
  have "first_outcome (dec_load_store_pair # take 2 (drop 53 vector2_blocks) @ [dec_branch]) w
      = first_outcome [dec_load_store_pair, dec_branch] w"
    using simd_falls[OF _ guards_within_simd(4) assms, of "take 2 (drop 53 vector2_blocks)" "[dec_branch]"]
      list_all2_takeI[OF list_all2_dropI[OF vector2_guarded]]
    by (auto split: outcome.splits)
  then have v2: "first_outcome vector2_blocks w = first_outcome [dec_load_store_pair, dec_branch] w"
    using simd_falls[OF list_all2_takeI[OF vector2_guarded] guards_within_simd(3) assms]
    by (subst split) (simp del: first_outcome.simps)
  have "first_outcome (fs @ vector_blocks @ float_blocks @ vector2_blocks) w =
      first_outcome (fs @ [dec_load_store_pair, dec_branch]) w" for fs
  proof (induction fs)
    case Nil
    show ?case
      using simd_falls[OF vector_guarded guards_within_simd(1) assms, of "float_blocks @ vector2_blocks"]
        simd_falls[OF float_guarded guards_within_simd(2) assms, of vector2_blocks] v2 by simp
  next
    case (Cons f fs)
    then show ?case by (simp split: outcome.splits)
  qed
  then show ?thesis
    by (simp add: avz_native_decode_instruction_def decoder_blocks_def core_blocks_def)
qed

lemma core_guarded: "list_all2 (guarded w) core_blocks core_guards"
proof -
  have "list_all2 (guarded w) (drop 52 vector2_blocks) (drop 52 vector2_guards)"
    by (rule list_all2_dropI[OF vector2_guarded])
  then have "list_all2 (guarded w) [dec_load_store_pair, dec_branch] (drop (length scalar_guards) core_guards)"
    by (simp add: vector2_blocks_def vector2_guards_def core_guards_def)
  then show ?thesis
    using scalar_guarded unfolding core_blocks_def core_guards_def by (simp add: list_all2_appendI)
qed

text \<open>Pattern \<open>p\<close> clashes with the vector space and the guards of every core block but the \<open>i\<close>-th.\<close>

definition exclusive :: "int \<times> int \<Rightarrow> nat \<Rightarrow> bool" where
  "exclusive p i = (clash p simd_space \<and>
     list_all (list_all (clash p)) (take i core_guards) \<and>
     list_all (list_all (clash p)) (drop (Suc i) core_guards))"

lemma exclusive_dispatch:
  assumes "exclusive (m, v) i" "i < length core_blocks" "matches w (word_of_int m) (word_of_int v)"
  shows "avz_native_decode_instruction w = first_outcome [core_blocks ! i] w"
proof -
  note ex = assms(1)[unfolded exclusive_def]
  have a: "list_all2 (guarded w) (take i core_blocks) (take i core_guards)"
    "list_all2 (guarded w) (drop (Suc i) core_blocks) (drop (Suc i) core_guards)"
    using core_guarded by (auto intro: list_all2_takeI list_all2_dropI)
  have "core_blocks = take i core_blocks @ core_blocks ! i # drop (Suc i) core_blocks"
    using assms(2) by (simp add: id_take_nth_drop)
  then have "first_outcome core_blocks w =
      first_outcome (core_blocks ! i # drop (Suc i) core_blocks @ []) w"
    using guarded_falls[OF a(1) _ assms(3)] ex by (metis append_Nil2)
  also have "\<dots> = first_outcome [core_blocks ! i] w"
    using guarded_falls[OF a(2) _ assms(3), of "[]"] ex by (auto split: outcome.splits)
  finally show ?thesis using core_decode[OF conjunct1[OF ex] assms(3)] by simp
qed

text \<open>
  The classes of the architecture that the interpreter supports in its integer core: the
  mask and value that identify each class, and the block that has to decode it.
\<close>

definition class_table :: "(int \<times> int \<times> (u32 \<Rightarrow> outcome)) list" where
  "class_table = [
     (0x1f000000, 0x10000000, dec_adr),
     (0x7e000000, 0x34000000, dec_cbz),
     (0x7e000000, 0x36000000, dec_tbz),
     (0xff000010, 0x54000000, dec_bcond),
     (0x7c000000, 0x14000000, dec_branch),
     (0x1f000000, 0x11000000, dec_add_sub_immediate),
     (0x1f800000, 0x12000000, dec_logical_immediate),
     (0x1f800000, 0x12800000, dec_move_wide),
     (0x1f800000, 0x13000000, dec_bitfield_move),
     (0x7fa00000, 0x13800000, dec_extract_register),
     (0x1f000000, 0x0a000000, dec_logical_shifted_register),
     (0x1f200000, 0x0b000000, dec_add_sub_shifted_register),
     (0x1fe00000, 0x0b200000, dec_add_sub_extended_register),
     (0x1fe0fc00, 0x1a000000, dec_add_sub_carry),
     (0x3fe00c10, 0x3a400000, dec_conditional_compare_register),
     (0x3fe00c10, 0x3a400800, dec_conditional_compare_immediate),
     (0x3fe00800, 0x1a800000, dec_conditional_select),
     (0x7fe0c000, 0x1ac00000, dec_data_processing_two_source),
     (0x5fe00000, 0x5ac00000, dec_data_processing_one_source),
     (0x7fe00000, 0x1b000000, dec_multiply_add_subtract),
     (0xffe00000, 0x9b200000, dec_signed_multiply_long_add_subtract),
     (0xffe00000, 0x9ba00000, dec_unsigned_multiply_long_add_subtract),
     (0xffe0fc00, 0x9b407c00, dec_signed_multiply_high),
     (0xffe0fc00, 0x9bc07c00, dec_unsigned_multiply_high),
     (0x3f000000, 0x18000000, dec_load_literal),
     (0x3f000000, 0x39000000, dec_load_store_unsigned_immediate),
     (0x3f200000, 0x38000000, dec_load_store_signed_immediate),
     (0x3e000000, 0x28000000, dec_load_store_pair),
     (0x3fa0fc00, 0x0880fc00, dec_load_acquire_store_release),
     (0x3fa07c00, 0x08007c00, dec_load_store_exclusive),
     (0x3fa00000, 0x08200000, dec_load_store_exclusive_pair),
     (0xfff00000, 0xd5300000, dec_system_register_read),
     (0xfff00000, 0xd5100000, dec_system_register_write),
     (0xfff80000, 0xd5080000, dec_system_instruction)]"

text \<open>The position of each entry's block in the core.\<close>

definition class_positions :: "nat list" where
  "class_positions = [10, 11, 12, 13, 45, 34, 21, 33, 23, 20, 19, 17, 31, 18, 14, 15, 16, 25, 24, 26, 27, 28, 29, 30, 32, 35, 37, 44, 40, 41, 42, 7, 8, 9]"

lemma class_positions_exclusive:
  "list_all2 (\<lambda>(m, v, f) i. exclusive (m, v) i) class_table class_positions"
  unfolding class_table_def class_positions_def list_all2_Cons list_all2_Nil prod.case
  by (intro conjI refl; code_simp)

lemma class_positions_blocks:
  "list_all2 (\<lambda>(m, v, f) i. i < length core_blocks \<and> core_blocks ! i = f) class_table class_positions"
  unfolding class_table_def class_positions_def list_all2_Cons list_all2_Nil prod.case
    core_blocks_def scalar_blocks_def
  by (intro conjI refl; simp)

lemma class_dispatch:
  assumes "(m, v, f) \<in> set class_table" "matches w (word_of_int m) (word_of_int v)"
  shows "avz_native_decode_instruction w = first_outcome [f] w"
proof -
  obtain j where j: "j < length class_table" "class_table ! j = (m, v, f)"
    using assms(1) by (auto simp: in_set_conv_nth)
  then have "exclusive (m, v) (class_positions ! j)" "class_positions ! j < length core_blocks"
    "core_blocks ! (class_positions ! j) = f"
    using list_all2_nthD[OF class_positions_exclusive j(1)] list_all2_nthD[OF class_positions_blocks j(1)]
    by simp_all
  then show ?thesis using exclusive_dispatch[OF _ _ assms(2)] by blast
qed
subsection \<open>Branch offsets\<close>

lemma signed_take_bit_word_of_int: "n < 64 \<Longrightarrow> signed_take_bit n (word_of_int k :: u64) = word_of_int (signed_take_bit n k)"
  by (rule bit_word_eqI) (auto simp: bit_signed_take_bit_iff bit_simps min_def)

lemma decode_scaled_round_trip:
  assumes "0 < n" "n \<le> 32" "- (2 ^ (n - 1)) \<le> k" "k < 2 ^ (n - 1)"
  shows "decode_scaled_signed_immediate (zext64 (take_bit n (word_of_int k))) n s = word_of_int k * s"
proof -
  have "zext64 (take_bit n (word_of_int k)) = take_bit n (word_of_int k)"
    using assms(2) by (intro bit_word_eqI) (auto simp: bit_simps)
  then have "sign_extend_u64 (zext64 (take_bit n (word_of_int k))) n = signed_take_bit (n - 1) (word_of_int k)"
    using assms(1,2) by (simp add: sign_extend_u64_eq) (intro bit_word_eqI; auto simp: bit_simps min_def)
  also have "\<dots> = word_of_int k"
    using assms by (simp add: signed_take_bit_word_of_int signed_take_bit_int_eq_self)
  finally show ?thesis by (simp add: decode_scaled_signed_immediate_def)
qed

definition encode_branch :: "bool \<Rightarrow> int \<Rightarrow> u32" where
  "encode_branch link k = (if link then 0x94000000 else 0x14000000) OR (word_of_int k AND 0x03ffffff)"

lemma encode_branch_fields:
  "encode_branch link k AND 0x7c000000 = 0x14000000"
  "matches (encode_branch link k) 0xfc000000 0x94000000 \<longleftrightarrow> link"
  "matches (encode_branch link k) 0xfc000000 0x14000000 \<longleftrightarrow> \<not> link"
  "encode_branch link k AND 0x03ffffff = take_bit 26 (word_of_int k)"
  by (simp_all add: encode_branch_def matches_def bit.conj_disj_distrib2 and.assoc take_bit_eq_mask mask_eq_exp_minus_1)
lemma branch_decodes:
  assumes "- (2 ^ 25) \<le> k" "k < 2 ^ 25"
  shows "avz_native_decode_instruction (encode_branch link k) =
    Some ((instr_init (encode_branch link k))\<lparr>i_kind := AVZ_NATIVE_OP_BRANCH,
      i_flags := of_flag link, i_immediate := word_of_int (4 * k)\<rparr>)"
proof -
  have "(0x7c000000, 0x14000000, dec_branch) \<in> set class_table" by (simp add: class_table_def)
  from class_dispatch[OF this, of "encode_branch link k"] have
    "avz_native_decode_instruction (encode_branch link k) = first_outcome [dec_branch] (encode_branch link k)"
    using encode_branch_fields(1)[of link k] by (simp add: matches_def)
  moreover have "decode_scaled_signed_immediate (zext64 (take_bit 26 (word_of_int k))) 26 4 = word_of_int (4 * k)"
    using decode_scaled_round_trip[of 26 k 4] assms by (simp add: mult.commute)
  moreover have "lo8 (of_flag link) = of_flag link" by (simp add: of_flag_def)
  ultimately show ?thesis
    by (simp add: dec_branch_def encode_branch_fields del: of_int_mult)
qed

subsection \<open>Encodings that reach the wrong block\<close>

text \<open>
  The guard of the integer literal load leaves bit 26 out of its mask, and that of the
  unscaled load/store leaves out bit 21. The two lemmas below are what follows for the
  literal loads of vector registers and for the atomic read-modify-write instructions.
\<close>

lemma fld_matches:
  assumes "matches (w :: u32) m v" "shl n k AND m = shl n k" "shr (shl n k) k = n"
  shows "fld w k n = fld v k n"
proof (rule bit_word_eqI)
  fix j
  have "bit n j \<Longrightarrow> bit m (k + j)"
    using arg_cong[OF assms(2), of "\<lambda>x. bit x (k + j)"] arg_cong[OF assms(3), of "\<lambda>x. bit x j"]
    by (auto simp: bit_simps)
  moreover have "bit v (k + j) \<longleftrightarrow> bit w (k + j) \<and> bit m (k + j)"
    using assms(1) by (auto simp: matches_def bit_and_iff)
  ultimately show "bit (fld w k n) j = bit (fld v k n) j"
    by (auto simp: fld_def bit_simps)
qed

lemma simd_literal_decodes_as_integer:
  assumes "matches w 0x3f000000 0x1c000000"
  shows "\<exists>d. avz_native_decode_instruction w = Some d \<and> i_kind d = AVZ_NATIVE_OP_LOAD_LITERAL \<and> i_rt d = lo8 (w AND 0x1f)"
proof -
  have "list_all (list_all (clash (0x3f000000, 0x1c000000))) (take 32 scalar_guards)" by code_simp
  from guarded_falls[OF list_all2_takeI[OF scalar_guarded] this, of w]
  have f: "first_outcome (take 32 scalar_blocks @ hs) w = first_outcome hs w" for hs using assms by simp
  have "avz_native_decode_instruction w = first_outcome (take 32 scalar_blocks @ dec_load_literal #
      (drop 33 scalar_blocks @ vector_blocks @ float_blocks @ vector2_blocks)) w"
    unfolding avz_native_decode_instruction_def decoder_blocks_def
    by (simp add: scalar_blocks_def del: first_outcome.simps)
  moreover have "matches w 0x3b000000 0x18000000" using matches_part[OF assms, of "0x3b000000"] by simp
  ultimately show ?thesis unfolding f by (simp add: dec_load_literal_def)
qed

lemma atomic_add_decodes_as_store:
  assumes "matches w 0xffe0fc00 0xf8200000"
  shows "\<exists>d. avz_native_decode_instruction w = Some d \<and>
    i_kind d = AVZ_NATIVE_OP_LOAD_STORE_SIGNED_IMMEDIATE \<and> i_flags d = 0 \<and> i_width d = 8"
proof -
  have "exclusive (0x3f200c00, 0x38200000) 37" by code_simp
  moreover have "37 < length core_blocks" "core_blocks ! 37 = dec_load_store_signed_immediate"
    by (simp_all add: core_blocks_def scalar_blocks_def)
  moreover have m: "matches w 0x3f200c00 0x38200000" using matches_part[OF assms, of "0x3f200c00"] by simp
  ultimately have "avz_native_decode_instruction w = first_outcome [dec_load_store_signed_immediate] w"
    using exclusive_dispatch[of "0x3f200c00" "0x38200000" 37 w] by simp
  moreover have "fld w 30 3 = 3" "fld w 22 3 = 0" "fld w 10 3 = 0" "fld w 26 1 = 0"
    by (subst fld_matches[OF assms]; simp add: fld_def)+
  moreover have "matches w 0x3b000000 0x38000000" "\<not> matches w 0x3b200c00 0x38200800"
    using matches_part[OF assms, of "0x3b000000"] matches_part[OF assms, of "0x3b200c00"]
    by (simp_all add: matches_def)
  ultimately show ?thesis by (simp add: dec_load_store_signed_immediate_def of_flag_def flag_def)
qed

subsection \<open>Properties\<close>

text \<open>
  C37: every instruction the decoder accepts is well formed. Its register numbers are below
  32, so that no access to \<open>x[31]\<close> or \<open>v[32]\<close> is out of bounds once 31 is handled; its kind
  is one of the enumeration; its width is at most 16 bytes; the integer instructions have
  32 or 64 operand bits; and the shift amounts of the shifted-register, extract and
  move-wide forms are below the operand width, so that no C shift is undefined.
\<close>

theorem decoded_instructions_well_formed:
  assumes "avz_native_decode_instruction w = Some d"
  shows "i_raw d = w \<and> i_rd d \<le> 31 \<and> i_rn d \<le> 31 \<and> i_rm d \<le> 31 \<and> i_rt d \<le> 31 \<and>
    0 < i_kind d \<and> i_kind d < AVZ_NATIVE_OP_COUNT \<and> i_width d \<in> {0, 1, 2, 4, 8, 16} \<and>
    (i_kind d \<in> set general_kinds \<longrightarrow> i_bits d = 32 \<or> i_bits d = 64) \<and>
    (i_kind d \<in> {AVZ_NATIVE_OP_ADD_SUB_SHIFTED_REGISTER, AVZ_NATIVE_OP_LOGICAL_SHIFTED_REGISTER,
        AVZ_NATIVE_OP_EXTRACT_REGISTER, AVZ_NATIVE_OP_MOVE_WIDE} \<longrightarrow> i_shift_amount d < i_bits d)"
  using decode_wf[OF assms] by (simp add: instr_wf_def width_ok_def)

theorem decoded_instructions_well_formed_witness:
  "\<exists>d. avz_native_decode_instruction 0x8b020820 = Some d \<and> i_shift_amount d < i_bits d \<and>
     i_kind d = AVZ_NATIVE_OP_ADD_SUB_SHIFTED_REGISTER"
proof -
  let ?d = "(instr_init 0x8b020820)\<lparr>i_kind := AVZ_NATIVE_OP_ADD_SUB_SHIFTED_REGISTER, i_rn := 1,
     i_rm := 2, i_bits := 64, i_shift_amount := 2\<rparr>"
  have d: "avz_native_decode_instruction 0x8b020820 = Some ?d" by code_simp
  then show ?thesis using decoded_instructions_well_formed[OF d] by simp
qed

text \<open>
  C38: the order of the decoder's 159 blocks does not matter for the integer classes of the
  architecture. An instruction word that matches the mask and value of a class of
  \<open>class_table\<close> is decoded exactly as the block written for that class decodes it, and
  rejected when that block does not accept it: no earlier block shadows it and no later
  block picks it up.
\<close>

theorem decoder_dispatches_classes:
  assumes "(m, v, f) \<in> set class_table" "w AND word_of_int m = word_of_int v"
  shows "avz_native_decode_instruction w = (case f w of Accept d \<Rightarrow> Some d | _ \<Rightarrow> None)"
  using class_dispatch[OF assms(1)] assms(2) by (simp add: matches_def split: outcome.splits)

theorem decoder_dispatches_classes_witness:
  "avz_native_decode_instruction 0x91000421 = (case dec_add_sub_immediate 0x91000421 of Accept d \<Rightarrow> Some d | _ \<Rightarrow> None)"
  by (rule decoder_dispatches_classes[where m = "0x1f000000" and v = "0x11000000"]) (simp_all add: class_table_def)

text \<open>
  C39: branch offsets round-trip. The encoding of \<open>B\<close> or \<open>BL\<close> with a signed word offset \<open>k\<close> in
  the architectural range decodes to a branch by exactly \<open>4 * k\<close> bytes, with the link flag
  as encoded.
\<close>

theorem branch_round_trip:
  assumes "- (2 ^ 25) \<le> k" "k < 2 ^ 25"
  shows "avz_native_decode_instruction (encode_branch link k) =
    Some ((instr_init (encode_branch link k))\<lparr>i_kind := AVZ_NATIVE_OP_BRANCH,
      i_flags := of_flag link, i_immediate := word_of_int (4 * k)\<rparr>)"
  by (rule branch_decodes[OF assms])

theorem branch_round_trip_witness:
  "avz_native_decode_instruction 0x97ffffff = Some ((instr_init 0x97ffffff)\<lparr>i_kind := AVZ_NATIVE_OP_BRANCH,
     i_flags := 1, i_immediate := - 4\<rparr>)"
proof -
  have "encode_branch True (- 1) = 0x97ffffff" by code_simp
  then show ?thesis using branch_round_trip[of "- 1" True] by (simp add: of_flag_def)
qed

end
