(* ===== verification/ExecInteger.thy ===== *)
theory ExecInteger
  imports Cpu
begin

text \<open>
  The cases of \<open>execute_decoded_instruction\<close> (\<open>ARM64VizNative.c\<close>) that only read and write
  the processor state: control flow, integer arithmetic, logic, bit fields and multiplication.
  Each is a function \<open>exec_*\<close> of the decoded instruction and the state. \<open>Some\<close> of the new
  state is the code's \<open>return 1\<close>; \<open>None\<close> is \<open>return 0\<close>, which these cases only do before
  they have changed anything.
\<close>

abbreviation reg_d :: "instr \<Rightarrow> nat" where "reg_d i \<equiv> unat (i_rd i)"
abbreviation reg_n :: "instr \<Rightarrow> nat" where "reg_n i \<equiv> unat (i_rn i)"
abbreviation reg_m :: "instr \<Rightarrow> nat" where "reg_m i \<equiv> unat (i_rm i)"
abbreviation reg_t :: "instr \<Rightarrow> nat" where "reg_t i \<equiv> unat (i_rt i)"

text \<open>\<open>cpu->pstate = (cpu->pstate & ~0xf0000000) | (flags & 0xf0000000)\<close>\<close>

definition set_nzcv :: "u64 \<Rightarrow> cpu \<Rightarrow> cpu" where
  "set_nzcv flags cpu =
     cpu\<lparr>c_pstate := (c_pstate cpu AND 0xffffffff0fffffff) OR (flags AND 0xf0000000)\<rparr>"

subsection \<open>System and control flow\<close>

definition exec_nop :: "instr \<Rightarrow> cpu \<Rightarrow> cpu option" where
  "exec_nop i cpu = Some (cpu\<lparr>c_pc := c_pc cpu + 4\<rparr>)"

definition exec_halt :: "instr \<Rightarrow> cpu \<Rightarrow> cpu option" where
  "exec_halt i cpu = Some (cpu\<lparr>c_pc := c_pc cpu + 4, c_halted := 1\<rparr>)"

text \<open>The fence of \<open>BARRIER\<close> orders host memory accesses and has no effect on one thread.\<close>

definition exec_barrier :: "instr \<Rightarrow> cpu \<Rightarrow> cpu option" where
  "exec_barrier i cpu = Some (cpu\<lparr>c_pc := c_pc cpu + 4\<rparr>)"

definition exec_pstate_immediate :: "instr \<Rightarrow> cpu \<Rightarrow> cpu option" where
  "exec_pstate_immediate i cpu =
    (let pc = c_pc cpu;
         cpu = if i_flags i = 6 then cpu\<lparr>c_pstate := c_pstate cpu OR i_immediate i\<rparr>
               else cpu\<lparr>c_pstate := c_pstate cpu AND NOT (i_immediate i)\<rparr>
     in Some (cpu\<lparr>c_pc := pc + 4\<rparr>))"

definition exec_adr :: "instr \<Rightarrow> cpu \<Rightarrow> cpu option" where
  "exec_adr i cpu =
    (let pc = c_pc cpu;
         base = if i_flags i AND 1 \<noteq> 0 then pc AND 0xfffffffffffff000 else pc;
         cpu = write_register (reg_d i) (add_signed_offset base (i_immediate i)) cpu
     in Some (cpu\<lparr>c_pc := pc + 4\<rparr>))"

definition exec_cbz :: "instr \<Rightarrow> cpu \<Rightarrow> cpu option" where
  "exec_cbz i cpu =
    (let pc = c_pc cpu;
         val = if i_bits i = 64 then read_register cpu (reg_t i)
               else read_register cpu (reg_t i) AND 0xffffffff;
         branch_non_zero = (i_flags i AND 1 \<noteq> 0)
     in Some (cpu\<lparr>c_pc := if (val \<noteq> 0) = branch_non_zero
                           then add_signed_offset pc (i_immediate i) else pc + 4\<rparr>))"

definition exec_tbz :: "instr \<Rightarrow> cpu \<Rightarrow> cpu option" where
  "exec_tbz i cpu =
    (let pc = c_pc cpu;
         bit_set = (shr (read_register cpu (reg_t i)) (unat (i_shift_amount i)) AND 1 \<noteq> 0);
         branch_non_zero = (i_flags i AND 1 \<noteq> 0)
     in Some (cpu\<lparr>c_pc := if bit_set = branch_non_zero
                           then add_signed_offset pc (i_immediate i) else pc + 4\<rparr>))"

definition exec_bcond :: "instr \<Rightarrow> cpu \<Rightarrow> cpu option" where
  "exec_bcond i cpu =
    (let pc = c_pc cpu
     in Some (cpu\<lparr>c_pc := if condition_holds (i_condition i) (c_pstate cpu)
                           then add_signed_offset pc (i_immediate i) else pc + 4\<rparr>))"

text \<open>A \<open>BLR x30\<close> reads its target before the link register is written.\<close>

definition exec_register_branch :: "instr \<Rightarrow> cpu \<Rightarrow> cpu option" where
  "exec_register_branch i cpu =
    (let pc = c_pc cpu;
         target = read_register cpu (reg_n i);
         cpu = if i_flags i AND 1 \<noteq> 0 then set_x 30 (pc + 4) cpu else cpu
     in Some (cpu\<lparr>c_pc := target\<rparr>))"

definition exec_branch :: "instr \<Rightarrow> cpu \<Rightarrow> cpu option" where
  "exec_branch i cpu =
    (let pc = c_pc cpu;
         cpu = if i_flags i AND 1 \<noteq> 0 then set_x 30 (pc + 4) cpu else cpu
     in Some (cpu\<lparr>c_pc := add_signed_offset pc (i_immediate i)\<rparr>))"

subsection \<open>Addition, subtraction and comparison\<close>

definition exec_conditional_compare_register :: "instr \<Rightarrow> cpu \<Rightarrow> cpu option" where
  "exec_conditional_compare_register i cpu =
    (let pc = c_pc cpu;
         bits = unat (i_bits i);
         flags =
           if condition_holds (i_condition i) (c_pstate cpu) then
             (let lhs = masked_operand (read_register cpu (reg_n i)) bits;
                  rhs = masked_operand (read_register cpu (reg_m i)) bits;
                  rhs = if i_flags i AND 1 \<noteq> 0 then NOT rhs AND mask_for_bits bits else rhs;
                  (flags, result) = add_with_carry_nzcv lhs rhs (i_flags i AND 1 \<noteq> 0) bits
              in flags)
           else i_immediate i
     in Some ((set_nzcv flags cpu)\<lparr>c_pc := pc + 4\<rparr>))"

definition exec_conditional_compare_immediate :: "instr \<Rightarrow> cpu \<Rightarrow> cpu option" where
  "exec_conditional_compare_immediate i cpu =
    (let pc = c_pc cpu;
         bits = unat (i_bits i);
         flags =
           if condition_holds (i_condition i) (c_pstate cpu) then
             (let lhs = masked_operand (read_register cpu (reg_n i)) bits;
                  rhs = masked_operand (i_immediate i) bits;
                  rhs = if i_flags i AND 1 \<noteq> 0 then NOT rhs AND mask_for_bits bits else rhs;
                  (flags, result) = add_with_carry_nzcv lhs rhs (i_flags i AND 1 \<noteq> 0) bits
              in flags)
           else i_immediate2 i
     in Some ((set_nzcv flags cpu)\<lparr>c_pc := pc + 4\<rparr>))"

definition exec_add_sub_immediate :: "instr \<Rightarrow> cpu \<Rightarrow> cpu option" where
  "exec_add_sub_immediate i cpu =
    (let pc = c_pc cpu;
         bits = unat (i_bits i);
         subtract = (i_flags i AND 1 \<noteq> 0);
         set_flags = (i_flags i AND 2 \<noteq> 0);
         lhs = masked_operand (read_base_register cpu (reg_n i)) bits;
         rhs = masked_operand (i_immediate i) bits;
         rhs = if subtract then NOT rhs AND mask_for_bits bits else rhs;
         (flags, result) = add_with_carry_nzcv lhs rhs subtract bits;
         cpu = if set_flags then write_register (reg_d i) result (set_nzcv flags cpu)
               else write_base_register (reg_d i) result cpu
     in Some (cpu\<lparr>c_pc := pc + 4\<rparr>))"

definition exec_move_wide :: "instr \<Rightarrow> cpu \<Rightarrow> cpu option" where
  "exec_move_wide i cpu =
    (let pc = c_pc cpu;
         bits = unat (i_bits i);
         msk = mask_for_bits bits;
         imm = i_immediate i;
         result =
           if i_flags i = 0 then Some (NOT imm AND msk)
           else if i_flags i = 2 then Some (imm AND msk)
           else if i_flags i = 3 then
             (let field_mask = shl 0xffff (unat (i_shift_amount i)) AND msk;
                  val = (read_register cpu (reg_d i) AND NOT field_mask) OR (imm AND field_mask)
              in Some (val AND msk))
           else None
     in case result of
          None \<Rightarrow> None
        | Some val \<Rightarrow> Some ((write_register (reg_d i) val cpu)\<lparr>c_pc := pc + 4\<rparr>))"

definition exec_add_sub_shifted_register :: "instr \<Rightarrow> cpu \<Rightarrow> cpu option" where
  "exec_add_sub_shifted_register i cpu =
    (let pc = c_pc cpu;
         bits = unat (i_bits i);
         msk = mask_for_bits bits;
         amount = unat (i_shift_amount i);
         lhs = masked_operand (read_register cpu (reg_n i)) bits;
         rhs = masked_operand (read_register cpu (reg_m i)) bits;
         shifted =
           if i_shift_type i = 0 then Some (shl rhs amount AND msk)
           else if i_shift_type i = 1 then Some (shr rhs amount)
           else if i_shift_type i = 2 then
             (let rhs = if amount > 0 then
                          (if bits = 64 then sar rhs amount else sext64 (sar (lo32 rhs) amount))
                        else rhs
              in Some (rhs AND msk))
           else None
     in case shifted of
          None \<Rightarrow> None
        | Some rhs \<Rightarrow>
            let subtract = (i_flags i AND 1 \<noteq> 0);
                set_flags = (i_flags i AND 2 \<noteq> 0);
                rhs = if subtract then NOT rhs AND msk else rhs;
                (flags, result) = add_with_carry_nzcv lhs rhs subtract bits;
                cpu = if set_flags then set_nzcv flags cpu else cpu;
                cpu = write_register (reg_d i) result cpu
            in Some (cpu\<lparr>c_pc := pc + 4\<rparr>))"

definition exec_add_sub_carry :: "instr \<Rightarrow> cpu \<Rightarrow> cpu option" where
  "exec_add_sub_carry i cpu =
    (let pc = c_pc cpu;
         bits = unat (i_bits i);
         msk = mask_for_bits bits;
         lhs = masked_operand (read_register cpu (reg_n i)) bits;
         rhs = masked_operand (read_register cpu (reg_m i)) bits;
         subtract = (i_flags i AND 1 \<noteq> 0);
         set_flags = (i_flags i AND 2 \<noteq> 0);
         carry_in = (c_pstate cpu AND 0x20000000 \<noteq> 0);
         rhs = if subtract then NOT rhs AND msk else rhs;
         (flags, result) = add_with_carry_nzcv lhs rhs carry_in bits;
         cpu = if set_flags then set_nzcv flags cpu else cpu;
         cpu = write_register (reg_d i) result cpu
     in Some (cpu\<lparr>c_pc := pc + 4\<rparr>))"

definition exec_add_sub_extended_register :: "instr \<Rightarrow> cpu \<Rightarrow> cpu option" where
  "exec_add_sub_extended_register i cpu =
    (let pc = c_pc cpu;
         bits = unat (i_bits i);
         msk = mask_for_bits bits;
         lhs = masked_operand (read_base_register cpu (reg_n i)) bits;
         rhs = masked_operand
                 (shl (extended_register_value (read_register cpu (reg_m i)) (i_condition i))
                      (unat (i_shift_amount i))) bits;
         subtract = (i_flags i AND 1 \<noteq> 0);
         set_flags = (i_flags i AND 2 \<noteq> 0);
         rhs = if subtract then NOT rhs AND msk else rhs;
         (flags, result) = add_with_carry_nzcv lhs rhs subtract bits;
         cpu = if set_flags then write_register (reg_d i) result (set_nzcv flags cpu)
               else write_base_register (reg_d i) result cpu
     in Some (cpu\<lparr>c_pc := pc + 4\<rparr>))"

subsection \<open>Logic, bit fields and selection\<close>

text \<open>The flags of \<open>ANDS\<close>: C and V are cleared.\<close>

definition set_logical_flags :: "u64 \<Rightarrow> nat \<Rightarrow> cpu \<Rightarrow> cpu" where
  "set_logical_flags result bits cpu =
    (let cpu = cpu\<lparr>c_pstate := c_pstate cpu AND 0xffffffff0fffffff\<rparr>;
         cpu = if result AND sign_bit_for_bits bits \<noteq> 0
               then cpu\<lparr>c_pstate := c_pstate cpu OR 0x80000000\<rparr> else cpu
     in if result = 0 then cpu\<lparr>c_pstate := c_pstate cpu OR 0x40000000\<rparr> else cpu)"

text \<open>The switch on \<open>flags & 3\<close>, shared by the shifted-register and the immediate form.\<close>

definition logical_result :: "u8 \<Rightarrow> u64 \<Rightarrow> u64 \<Rightarrow> u64" where
  "logical_result opcode lhs rhs =
    (if opcode = 0 then lhs AND rhs
     else if opcode = 1 then lhs OR rhs
     else if opcode = 2 then lhs XOR rhs
     else lhs AND rhs)"

definition exec_logical_shifted_register :: "instr \<Rightarrow> cpu \<Rightarrow> cpu option" where
  "exec_logical_shifted_register i cpu =
    (let pc = c_pc cpu;
         bits = unat (i_bits i);
         msk = mask_for_bits bits;
         lhs = masked_operand (read_register cpu (reg_n i)) bits;
         rhs = shifted_register_value (read_register cpu (reg_m i)) (unat (i_shift_type i))
                 (unat (i_shift_amount i)) bits;
         opcode = i_flags i AND 3;
         rhs = if i_flags i AND 4 \<noteq> 0 then NOT rhs AND msk else rhs;
         result = logical_result opcode lhs rhs;
         cpu = if opcode = 3 then set_logical_flags result bits cpu else cpu;
         cpu = write_register (reg_d i) (result AND msk) cpu
     in Some (cpu\<lparr>c_pc := pc + 4\<rparr>))"

definition exec_logical_immediate :: "instr \<Rightarrow> cpu \<Rightarrow> cpu option" where
  "exec_logical_immediate i cpu =
    (let pc = c_pc cpu;
         bits = unat (i_bits i);
         msk = mask_for_bits bits;
         lhs = masked_operand (read_register cpu (reg_n i)) bits;
         imm = i_immediate i AND msk;
         opcode = i_flags i AND 3;
         result = logical_result opcode lhs imm;
         cpu = if opcode = 3
               then write_register (reg_d i) (result AND msk) (set_logical_flags result bits cpu)
               else write_base_register (reg_d i) (result AND msk) cpu
     in Some (cpu\<lparr>c_pc := pc + 4\<rparr>))"

definition exec_extract_register :: "instr \<Rightarrow> cpu \<Rightarrow> cpu option" where
  "exec_extract_register i cpu =
    (let pc = c_pc cpu;
         bits = unat (i_bits i);
         lsb = unat (i_shift_amount i);
         msk = mask_for_bits bits;
         low = masked_operand (read_register cpu (reg_m i)) bits;
         high = masked_operand (read_register cpu (reg_n i)) bits;
         result = if lsb = 0 then low else (shl high (bits - lsb) OR shr low lsb) AND msk;
         cpu = write_register (reg_d i) result cpu
     in Some (cpu\<lparr>c_pc := pc + 4\<rparr>))"

definition exec_conditional_select :: "instr \<Rightarrow> cpu \<Rightarrow> cpu option" where
  "exec_conditional_select i cpu =
    (let pc = c_pc cpu;
         bits = unat (i_bits i);
         operation = i_flags i AND 3;
         invert_or_negate = (i_flags i AND 4 \<noteq> 0);
         selected =
           if condition_holds (i_condition i) (c_pstate cpu)
           then Some (read_register cpu (reg_n i))
           else
             (let fallback = read_register cpu (reg_m i)
              in if operation = 0 then Some (if invert_or_negate then NOT fallback else fallback)
                 else if operation = 1 then
                   Some (if invert_or_negate then 0 - fallback else fallback + 1)
                 else None)
     in case selected of
          None \<Rightarrow> None
        | Some val \<Rightarrow>
            let cpu = write_register (reg_d i) (masked_operand val bits) cpu
            in Some (cpu\<lparr>c_pc := pc + 4\<rparr>))"

definition exec_bitfield_move :: "instr \<Rightarrow> cpu \<Rightarrow> cpu option" where
  "exec_bitfield_move i cpu =
    (let pc = c_pc cpu;
         bits = unat (i_bits i);
         msk = mask_for_bits bits;
         opcode = i_flags i AND 3;
         immr = i_shift_amount i;
         imms = i_condition i;
         source = masked_operand (read_register cpu (reg_n i)) bits;
         rotated = rotate_right_width source (unat immr) bits;
         write_mask = i_immediate i AND msk;
         top_mask = i_immediate2 i AND msk;
         result =
           if opcode = 0 then
             (let part = rotated AND write_mask AND top_mask;
                  sign_bit = shr source (unat (zext32 imms AND (word_of_nat bits - 1))) AND 1;
                  sign_fill = if sign_bit \<noteq> 0 then msk else 0
              in Some ((sign_fill AND NOT top_mask) OR part))
           else if opcode = 1 then
             (let (insert_value, insert_mask) = bitfield_insert source immr imms bits
              in Some ((read_register cpu (reg_d i) AND NOT insert_mask AND msk) OR
                       (insert_value AND insert_mask)))
           else if opcode = 2 then Some (rotated AND write_mask AND top_mask)
           else None
     in case result of
          None \<Rightarrow> None
        | Some result \<Rightarrow>
            let cpu = write_register (reg_d i) (result AND msk) cpu
            in Some (cpu\<lparr>c_pc := pc + 4\<rparr>))"

subsection \<open>One and two source operations\<close>

definition exec_data_processing_one_source :: "instr \<Rightarrow> cpu \<Rightarrow> cpu option" where
  "exec_data_processing_one_source i cpu =
    (let pc = c_pc cpu;
         bits = unat (i_bits i);
         source = masked_operand (read_register cpu (reg_n i)) bits;
         result =
           if i_flags i = 0 then Some (reverse_bits_width source bits)
           else if i_flags i = 1 then Some (reverse_bytes_group source 2 bits)
           else if i_flags i = 2 then Some (reverse_bytes_group source 4 bits)
           else if i_flags i = 3 then
             (if bits \<noteq> 64 then None else Some (reverse_bytes_group source 8 bits))
           else if i_flags i = 4 then Some (word_of_nat (count_leading_zeros_width source bits))
           else if i_flags i = 5 then
             Some (word_of_nat (count_leading_sign_bits_width source bits))
           else None
     in case result of
          None \<Rightarrow> None
        | Some result \<Rightarrow> Some ((write_register (reg_d i) result cpu)\<lparr>c_pc := pc + 4\<rparr>))"

definition exec_data_processing_two_source :: "instr \<Rightarrow> cpu \<Rightarrow> cpu option" where
  "exec_data_processing_two_source i cpu =
    (let pc = c_pc cpu;
         bits = unat (i_bits i);
         source = read_register cpu (reg_n i);
         rhs = read_register cpu (reg_m i);
         amount = rhs AND zext64 (word_of_nat bits - 1);
         result =
           if i_flags i = 0x02 then
             (let source = masked_operand source bits;
                  rhs = masked_operand rhs bits
              in Some (if rhs = 0 then 0 else source div rhs))
           else if i_flags i = 0x03 then Some (signed_divide_width source rhs bits)
           else if i_flags i = 0x08 then
             Some (shifted_register_value source 0 (unat (amount AND 0xff)) bits)
           else if i_flags i = 0x09 then
             Some (shifted_register_value source 1 (unat (amount AND 0xff)) bits)
           else if i_flags i = 0x0a then
             Some (shifted_register_value source 2 (unat (amount AND 0xff)) bits)
           else if i_flags i = 0x0b then Some (rotate_right_width source (unat (lo32 amount)) bits)
           else None
     in case result of
          None \<Rightarrow> None
        | Some result \<Rightarrow>
            let cpu = write_register (reg_d i) (masked_operand result bits) cpu
            in Some (cpu\<lparr>c_pc := pc + 4\<rparr>))"

subsection \<open>Multiplication\<close>

definition exec_multiply_add_subtract :: "instr \<Rightarrow> cpu \<Rightarrow> cpu option" where
  "exec_multiply_add_subtract i cpu =
    (let pc = c_pc cpu;
         bits = unat (i_bits i);
         lhs = masked_operand (read_register cpu (reg_n i)) bits;
         rhs = masked_operand (read_register cpu (reg_m i)) bits;
         addend = masked_operand (read_register cpu (reg_t i)) bits;
         product = (lhs * rhs) AND mask_for_bits bits;
         result = if i_flags i AND 1 \<noteq> 0 then addend - product else addend + product;
         cpu = write_register (reg_d i) (masked_operand result bits) cpu
     in Some (cpu\<lparr>c_pc := pc + 4\<rparr>))"

definition exec_signed_multiply_long_add_subtract :: "instr \<Rightarrow> cpu \<Rightarrow> cpu option" where
  "exec_signed_multiply_long_add_subtract i cpu =
    (let pc = c_pc cpu;
         lhs = sext64 (lo32 (read_register cpu (reg_n i)));
         rhs = sext64 (lo32 (read_register cpu (reg_m i)));
         addend = read_register cpu (reg_t i);
         product = lhs * rhs;
         result = if i_flags i AND 1 \<noteq> 0 then addend - product else addend + product;
         cpu = write_register (reg_d i) result cpu
     in Some (cpu\<lparr>c_pc := pc + 4\<rparr>))"

definition exec_unsigned_multiply_long_add_subtract :: "instr \<Rightarrow> cpu \<Rightarrow> cpu option" where
  "exec_unsigned_multiply_long_add_subtract i cpu =
    (let pc = c_pc cpu;
         lhs = read_register cpu (reg_n i) AND 0xffffffff;
         rhs = read_register cpu (reg_m i) AND 0xffffffff;
         addend = read_register cpu (reg_t i);
         product = lhs * rhs;
         result = if i_flags i AND 1 \<noteq> 0 then addend - product else addend + product;
         cpu = write_register (reg_d i) result cpu
     in Some (cpu\<lparr>c_pc := pc + 4\<rparr>))"

definition exec_signed_multiply_high :: "instr \<Rightarrow> cpu \<Rightarrow> cpu option" where
  "exec_signed_multiply_high i cpu =
    (let pc = c_pc cpu;
         lhs = read_register cpu (reg_n i);
         rhs = read_register cpu (reg_m i);
         product = sext128 lhs * sext128 rhs;
         cpu = write_register (reg_d i) (lo64 (sar product 64)) cpu
     in Some (cpu\<lparr>c_pc := pc + 4\<rparr>))"

definition exec_unsigned_multiply_high :: "instr \<Rightarrow> cpu \<Rightarrow> cpu option" where
  "exec_unsigned_multiply_high i cpu =
    (let pc = c_pc cpu;
         lhs = read_register cpu (reg_n i);
         rhs = read_register cpu (reg_m i);
         product = zext128 lhs * zext128 rhs;
         cpu = write_register (reg_d i) (lo64 (shr product 64)) cpu
     in Some (cpu\<lparr>c_pc := pc + 4\<rparr>))"

subsection \<open>Moves between the register files\<close>

definition exec_simd_move_vector_element_to_general :: "instr \<Rightarrow> cpu \<Rightarrow> cpu option" where
  "exec_simd_move_vector_element_to_general i cpu =
    (let pc = c_pc cpu;
         cpu = write_register (reg_d i) (vector_element_to_general cpu i) cpu
     in Some (cpu\<lparr>c_pc := pc + 4\<rparr>))"

definition exec_fp_scalar_general_move :: "instr \<Rightarrow> cpu \<Rightarrow> cpu option" where
  "exec_fp_scalar_general_move i cpu =
    (let pc = c_pc cpu;
         moved =
           if i_flags i = 0 then
             Some (set_v (reg_d i)
               \<lparr>v_low = read_register cpu (reg_n i) AND 0xffffffff, v_high = 0\<rparr> cpu)
           else if i_flags i = 1 then
             Some (write_register (reg_d i) (v_low (c_v cpu (reg_n i)) AND 0xffffffff) cpu)
           else if i_flags i = 2 then
             Some (set_v (reg_d i) \<lparr>v_low = read_register cpu (reg_n i), v_high = 0\<rparr> cpu)
           else if i_flags i = 3 then
             Some (write_register (reg_d i) (v_low (c_v cpu (reg_n i))) cpu)
           else if i_flags i = 4 then
             Some (set_v (reg_d i)
               ((c_v cpu (reg_d i))\<lparr>v_high := read_register cpu (reg_n i)\<rparr>) cpu)
           else if i_flags i = 5 then
             Some (write_register (reg_d i) (v_high (c_v cpu (reg_n i))) cpu)
           else None
     in case moved of
          None \<Rightarrow> None
        | Some cpu \<Rightarrow> Some (cpu\<lparr>c_pc := pc + 4\<rparr>))"

definition exec_fp_scalar_register_move :: "instr \<Rightarrow> cpu \<Rightarrow> cpu option" where
  "exec_fp_scalar_register_move i cpu =
    (let pc = c_pc cpu;
         low = v_low (c_v cpu (reg_n i));
         cpu = if i_flags i AND 1 \<noteq> 0 then set_v (reg_d i) \<lparr>v_low = low, v_high = 0\<rparr> cpu
               else set_v (reg_d i) \<lparr>v_low = low AND 0xffffffff, v_high = 0\<rparr> cpu
     in Some (cpu\<lparr>c_pc := pc + 4\<rparr>))"

end
