(* ===== verification/ExecMemory.thy ===== *)
theory ExecMemory
  imports ExecInteger
begin

text \<open>
  The cases of \<open>execute_decoded_instruction\<close> that call out of the processor: loads, stores,
  pairs, exclusives, system registers, exceptions and \<open>WFE\<close>/\<open>WFI\<close>. The callback pointers and
  the \<open>void *memory_context\<close> of the code are a record over a type \<open>'m\<close> of memory contexts;
  a null pointer is \<open>None\<close>. A callback takes the context and returns its result with the
  context after the call; an out parameter is part of the result.
\<close>

subsection \<open>The interface to memory and devices\<close>

text \<open>
  The functions of \<open>ARM64VizGuestMemory.c\<close> that the interpreter calls directly when
  \<open>uses_fast_memory_context\<close> is set. The exclusive accesses carry the generation recorded in
  the processor; an exclusive write answers 1 (stored), 0 (lost) or a negative number (fault).
\<close>

record 'm fast_memory =
  f_try_read_hot :: "'m \<Rightarrow> u64 \<Rightarrow> u8 \<Rightarrow> u64 option \<times> 'm"
  f_read :: "'m \<Rightarrow> u64 \<Rightarrow> u8 \<Rightarrow> u64 option \<times> 'm"
  f_try_write_hot :: "'m \<Rightarrow> u64 \<Rightarrow> u8 \<Rightarrow> u64 \<Rightarrow> bool \<times> 'm"
  f_write :: "'m \<Rightarrow> u64 \<Rightarrow> u8 \<Rightarrow> u64 \<Rightarrow> bool \<times> 'm"
  f_read_pair :: "'m \<Rightarrow> u64 \<Rightarrow> u8 \<Rightarrow> (u64 \<times> u64) option \<times> 'm"
  f_write_pair :: "'m \<Rightarrow> u64 \<Rightarrow> u8 \<Rightarrow> u64 \<Rightarrow> u64 \<Rightarrow> bool \<times> 'm"
  f_exclusive_read :: "'m \<Rightarrow> u64 \<Rightarrow> u8 \<Rightarrow> u64 \<Rightarrow> u64 option \<times> u64 \<times> 'm"
  f_exclusive_write :: "'m \<Rightarrow> u64 \<Rightarrow> u8 \<Rightarrow> u64 \<Rightarrow> u64 \<Rightarrow> int \<times> 'm"
  f_exclusive_read_pair :: "'m \<Rightarrow> u64 \<Rightarrow> u8 \<Rightarrow> u64 \<Rightarrow> (u64 \<times> u64) option \<times> u64 \<times> 'm"
  f_exclusive_write_pair :: "'m \<Rightarrow> u64 \<Rightarrow> u8 \<Rightarrow> u64 \<Rightarrow> u64 \<Rightarrow> u64 \<Rightarrow> int \<times> 'm"
  f_read_bytes :: "'m \<Rightarrow> u64 \<Rightarrow> nat \<Rightarrow> u8 list option \<times> 'm"
  f_write_bytes :: "'m \<Rightarrow> u64 \<Rightarrow> u8 list \<Rightarrow> bool \<times> 'm"

text \<open>
  \<open>k_fast_read_register\<close> and \<open>k_fast_write_register\<close> say that the callback pointer is
  \<open>avz_native_fast_read_system_register\<close> and \<open>avz_native_fast_write_system_register\<close>, which
  the executor compares it with; \<open>k_fast_read_memory\<close> and \<open>k_fast_write_memory\<close> say the same
  of \<open>avz_native_fast_memory_read\<close> and \<open>avz_native_fast_memory_write\<close>.
\<close>

record 'm callbacks =
  k_fast_read_memory :: bool
  k_fast_write_memory :: bool
  k_fill_memory :: "('m \<Rightarrow> u64 \<Rightarrow> u64 \<Rightarrow> u64 \<Rightarrow> u8 \<Rightarrow> bool \<times> 'm) option"
  k_read_memory :: "('m \<Rightarrow> u64 \<Rightarrow> u8 \<Rightarrow> u64 option \<times> 'm) option"
  k_write_memory :: "('m \<Rightarrow> u64 \<Rightarrow> u8 \<Rightarrow> u64 \<Rightarrow> bool \<times> 'm) option"
  k_can_access_memory :: "('m \<Rightarrow> u64 \<Rightarrow> u8 \<Rightarrow> bool \<Rightarrow> bool \<times> 'm) option"
  k_read_system_register :: "('m \<Rightarrow> u32 \<Rightarrow> u64 \<Rightarrow> u64 \<Rightarrow> u64 \<Rightarrow> u64 option \<times> 'm) option"
  k_fast_read_register :: bool
  k_write_system_register ::
    "('m \<Rightarrow> u32 \<Rightarrow> u64 \<Rightarrow> u64 \<Rightarrow> u64 \<Rightarrow> u64 \<Rightarrow> bool \<times> u64 \<times> u64 \<times> 'm) option"
  k_fast_write_register :: bool
  k_system_instruction :: "('m \<Rightarrow> u32 \<Rightarrow> u64 \<Rightarrow> bool \<times> 'm) option"
  k_exception_return :: "('m \<Rightarrow> u64 \<Rightarrow> u64 \<Rightarrow> u64 \<Rightarrow> bool \<times> u64 \<times> u64 \<times> u64 \<times> 'm) option"
  k_synchronous_exception :: "('m \<Rightarrow> u32 \<Rightarrow> (nat \<Rightarrow> u64) \<Rightarrow> u64 \<Rightarrow> u64 \<Rightarrow> u64 \<Rightarrow>
    bool \<times> (nat \<Rightarrow> u64) \<times> u64 \<times> u64 \<times> u64 \<times> 'm) option"
  k_wait :: "('m \<Rightarrow> u32 \<Rightarrow> u64 \<Rightarrow> bool \<times> u64 \<times> 'm) option"
  k_uses_fast_memory_context :: bool
  k_fast :: "'m fast_memory"

text \<open>Callbacks that are all null, from which the examples build theirs.\<close>

definition no_fast_memory :: "'m fast_memory" where
  "no_fast_memory = \<lparr>f_try_read_hot = \<lambda>m _ _. (None, m), f_read = \<lambda>m _ _. (None, m),
     f_try_write_hot = \<lambda>m _ _ _. (False, m), f_write = \<lambda>m _ _ _. (False, m),
     f_read_pair = \<lambda>m _ _. (None, m), f_write_pair = \<lambda>m _ _ _ _. (False, m),
     f_exclusive_read = \<lambda>m _ _ g. (None, g, m), f_exclusive_write = \<lambda>m _ _ _ _. (- 1, m),
     f_exclusive_read_pair = \<lambda>m _ _ g. (None, g, m), f_exclusive_write_pair = \<lambda>m _ _ _ _ _. (- 1, m),
     f_read_bytes = \<lambda>m _ _. (None, m), f_write_bytes = \<lambda>m _ _. (False, m)\<rparr>"

definition no_callbacks :: "'m callbacks" where
  "no_callbacks = \<lparr>k_fast_read_memory = False, k_fast_write_memory = False,
     k_fill_memory = None, k_read_memory = None, k_write_memory = None,
     k_can_access_memory = None, k_read_system_register = None, k_fast_read_register = False,
     k_write_system_register = None, k_fast_write_register = False, k_system_instruction = None,
     k_exception_return = None, k_synchronous_exception = None, k_wait = None,
     k_uses_fast_memory_context = False, k_fast = no_fast_memory\<rparr>"

text \<open>The result of a case: whether it returned 1, and the two states afterwards.\<close>

type_synonym 'm step = "bool \<times> cpu \<times> 'm"

definition register_step :: "(instr \<Rightarrow> cpu \<Rightarrow> cpu option) \<Rightarrow> instr \<Rightarrow> cpu \<Rightarrow> 'm \<Rightarrow> 'm step" where
  "register_step f i cpu m = (case f i cpu of Some cpu' \<Rightarrow> (True, cpu', m) | None \<Rightarrow> (False, cpu, m))"

definition avz_native_dispatch_memory_read ::
  "'m callbacks \<Rightarrow> 'm \<Rightarrow> u64 \<Rightarrow> u8 \<Rightarrow> u64 option \<times> 'm" where
  "avz_native_dispatch_memory_read k m address width =
    (if k_uses_fast_memory_context k then
       (case f_try_read_hot (k_fast k) m address width of
          (Some v, m) \<Rightarrow> (Some v, m)
        | (None, m) \<Rightarrow> f_read (k_fast k) m address width)
     else
       (case k_read_memory k of
          None \<Rightarrow> (None, m)
        | Some read \<Rightarrow> read m address width))"

definition avz_native_dispatch_memory_write ::
  "'m callbacks \<Rightarrow> 'm \<Rightarrow> u64 \<Rightarrow> u8 \<Rightarrow> u64 \<Rightarrow> bool \<times> 'm" where
  "avz_native_dispatch_memory_write k m address width v =
    (if k_uses_fast_memory_context k then
       (case f_try_write_hot (k_fast k) m address width v of
          (True, m) \<Rightarrow> (True, m)
        | (False, m) \<Rightarrow> f_write (k_fast k) m address width v)
     else
       (case k_write_memory k of
          None \<Rightarrow> (False, m)
        | Some write \<Rightarrow> write m address width v))"

subsection \<open>Loads and stores\<close>

definition exec_load_literal :: "'m callbacks \<Rightarrow> instr \<Rightarrow> cpu \<Rightarrow> 'm \<Rightarrow> 'm step" where
  "exec_load_literal k i cpu m =
    (let pc = c_pc cpu in
     if i_flags i = 3 then (True, cpu\<lparr>c_pc := pc + 4\<rparr>, m)
     else
       case avz_native_dispatch_memory_read k m (add_signed_offset pc (i_immediate i)) (i_width i) of
         (None, m) \<Rightarrow> (False, cpu, m)
       | (Some loaded, m) \<Rightarrow>
           let loaded = if i_flags i = 2 then sign_extend_loaded loaded 32 else loaded;
               cpu = write_register (reg_t i) loaded cpu
           in (True, cpu\<lparr>c_pc := pc + 4\<rparr>, m))"

text \<open>The sign extension a load asks for with bits 1 and 2 of its flags.\<close>

definition extend_loaded :: "instr \<Rightarrow> u64 \<Rightarrow> u64" where
  "extend_loaded i loaded =
    (if i_flags i AND 2 \<noteq> 0 then
       (let loaded = sign_extend_loaded loaded (unat (i_bits i))
        in if i_flags i AND 4 \<noteq> 0 then loaded AND 0xffffffff else loaded)
     else loaded)"

text \<open>The part that the three single-register addressing forms share, up to write-back.\<close>

definition load_or_store :: "'m callbacks \<Rightarrow> u64 \<Rightarrow> instr \<Rightarrow> cpu \<Rightarrow> 'm \<Rightarrow> 'm step" where
  "load_or_store k address i cpu m =
    (if i_flags i AND 1 \<noteq> 0 then
       (case avz_native_dispatch_memory_read k m address (i_width i) of
          (None, m) \<Rightarrow> (False, cpu, m)
        | (Some loaded, m) \<Rightarrow> (True, write_register (reg_t i) (extend_loaded i loaded) cpu, m))
     else
       (case avz_native_dispatch_memory_write k m address (i_width i)
               (read_register cpu (reg_t i) AND mask_for_bits (unat (i_bits i))) of
          (False, m) \<Rightarrow> (False, cpu, m)
        | (True, m) \<Rightarrow> (True, clear_exclusive_reservation cpu, m)))"

definition exec_load_store_unsigned_immediate :: "'m callbacks \<Rightarrow> instr \<Rightarrow> cpu \<Rightarrow> 'm \<Rightarrow> 'm step" where
  "exec_load_store_unsigned_immediate k i cpu m =
    (let pc = c_pc cpu;
         address = read_base_register cpu (reg_n i) + i_immediate i
     in case load_or_store k address i cpu m of
          (False, cpu, m) \<Rightarrow> (False, cpu, m)
        | (True, cpu, m) \<Rightarrow> (True, cpu\<lparr>c_pc := pc + 4\<rparr>, m))"

definition exec_load_store_signed_immediate :: "'m callbacks \<Rightarrow> instr \<Rightarrow> cpu \<Rightarrow> 'm \<Rightarrow> 'm step" where
  "exec_load_store_signed_immediate k i cpu m =
    (let pc = c_pc cpu;
         base = read_base_register cpu (reg_n i);
         address = add_signed_offset base (i_immediate i)
     in case load_or_store k address i cpu m of
          (False, cpu, m) \<Rightarrow> (False, cpu, m)
        | (True, cpu, m) \<Rightarrow>
            let cpu = if i_flags i AND 8 \<noteq> 0
                      then write_base_register (reg_n i) (add_signed_offset base (i_immediate2 i)) cpu
                      else cpu
            in (True, cpu\<lparr>c_pc := pc + 4\<rparr>, m))"

definition exec_load_store_register_offset :: "'m callbacks \<Rightarrow> instr \<Rightarrow> cpu \<Rightarrow> 'm \<Rightarrow> 'm step" where
  "exec_load_store_register_offset k i cpu m =
    (let pc = c_pc cpu;
         offset = shl (extended_register_value (read_register cpu (reg_m i)) (i_condition i))
                      (unat (i_shift_amount i));
         address = read_base_register cpu (reg_n i) + offset
     in case load_or_store k address i cpu m of
          (False, cpu, m) \<Rightarrow> (False, cpu, m)
        | (True, cpu, m) \<Rightarrow> (True, cpu\<lparr>c_pc := pc + 4\<rparr>, m))"

definition exec_load_acquire_store_release :: "'m callbacks \<Rightarrow> instr \<Rightarrow> cpu \<Rightarrow> 'm \<Rightarrow> 'm step" where
  "exec_load_acquire_store_release k i cpu m =
    (let pc = c_pc cpu;
         address = read_base_register cpu (reg_n i) in
     if i_flags i AND 1 \<noteq> 0 then
       (case avz_native_dispatch_memory_read k m address (i_width i) of
          (None, m) \<Rightarrow> (False, cpu, m)
        | (Some loaded, m) \<Rightarrow> (True, (write_register (reg_t i) loaded cpu)\<lparr>c_pc := pc + 4\<rparr>, m))
     else
       (case avz_native_dispatch_memory_write k m address (i_width i)
               (read_register cpu (reg_t i) AND mask_for_bits (unat (i_bits i))) of
          (False, m) \<Rightarrow> (False, cpu, m)
        | (True, m) \<Rightarrow> (True, (clear_exclusive_reservation cpu)\<lparr>c_pc := pc + 4\<rparr>, m)))"

subsection \<open>Pairs\<close>

text \<open>
  The slow path of a pair checks both halves with \<open>can_access_memory\<close> before it touches
  either; the first failure of the five calls ends it.
\<close>

definition can_access :: "'m callbacks \<Rightarrow> 'm \<Rightarrow> u64 \<Rightarrow> u8 \<Rightarrow> bool \<Rightarrow> bool \<times> 'm" where
  "can_access k m address width is_write =
    (case k_can_access_memory k of
       None \<Rightarrow> (False, m)
     | Some can \<Rightarrow> can m address width is_write)"

definition slow_read :: "'m callbacks \<Rightarrow> 'm \<Rightarrow> u64 \<Rightarrow> u8 \<Rightarrow> u64 option \<times> 'm" where
  "slow_read k m address width =
    (case k_read_memory k of None \<Rightarrow> (None, m) | Some read \<Rightarrow> read m address width)"

definition slow_write :: "'m callbacks \<Rightarrow> 'm \<Rightarrow> u64 \<Rightarrow> u8 \<Rightarrow> u64 \<Rightarrow> bool \<times> 'm" where
  "slow_write k m address width v =
    (case k_write_memory k of None \<Rightarrow> (False, m) | Some write \<Rightarrow> write m address width v)"

definition read_both :: "'m callbacks \<Rightarrow> 'm \<Rightarrow> u64 \<Rightarrow> u64 \<Rightarrow> u8 \<Rightarrow> (u64 \<times> u64) option \<times> 'm" where
  "read_both k m first_address second_address width =
    (case slow_read k m first_address width of
       (None, m) \<Rightarrow> (None, m)
     | (Some first, m) \<Rightarrow>
         (case slow_read k m second_address width of
            (None, m) \<Rightarrow> (None, m)
          | (Some second, m) \<Rightarrow> (Some (first, second), m)))"

definition write_both :: "'m callbacks \<Rightarrow> 'm \<Rightarrow> u64 \<Rightarrow> u64 \<Rightarrow> u8 \<Rightarrow> u64 \<Rightarrow> u64 \<Rightarrow> bool \<times> 'm" where
  "write_both k m first_address second_address width first second =
    (case slow_write k m first_address width first of
       (False, m) \<Rightarrow> (False, m)
     | (True, m) \<Rightarrow> slow_write k m second_address width second)"

definition can_access_both :: "'m callbacks \<Rightarrow> 'm \<Rightarrow> u64 \<Rightarrow> u64 \<Rightarrow> u8 \<Rightarrow> bool \<Rightarrow> bool \<times> 'm" where
  "can_access_both k m first_address second_address width is_write =
    (case can_access k m first_address width is_write of
       (False, m) \<Rightarrow> (False, m)
     | (True, m) \<Rightarrow> can_access k m second_address width is_write)"

definition slow_read_pair :: "'m callbacks \<Rightarrow> 'm \<Rightarrow> u64 \<Rightarrow> u64 \<Rightarrow> u8 \<Rightarrow> (u64 \<times> u64) option \<times> 'm" where
  "slow_read_pair k m first_address second_address width =
    (case can_access_both k m first_address second_address width False of
       (False, m) \<Rightarrow> (None, m)
     | (True, m) \<Rightarrow> read_both k m first_address second_address width)"

definition slow_write_pair ::
  "'m callbacks \<Rightarrow> 'm \<Rightarrow> u64 \<Rightarrow> u64 \<Rightarrow> u8 \<Rightarrow> u64 \<Rightarrow> u64 \<Rightarrow> bool \<times> 'm" where
  "slow_write_pair k m first_address second_address width first second =
    (case can_access_both k m first_address second_address width True of
       (False, m) \<Rightarrow> (False, m)
     | (True, m) \<Rightarrow> write_both k m first_address second_address width first second)"

definition exec_load_store_pair :: "'m callbacks \<Rightarrow> instr \<Rightarrow> cpu \<Rightarrow> 'm \<Rightarrow> 'm step" where
  "exec_load_store_pair k i cpu m =
    (let pc = c_pc cpu;
         base = read_base_register cpu (reg_n i);
         first_address = add_signed_offset base (i_immediate i);
         second_address = first_address + zext64 (zext32 (i_width i));
         accessed =
           if i_flags i AND 1 \<noteq> 0 then
             (let (fast_pair, m) =
                    if k_uses_fast_memory_context k
                    then f_read_pair (k_fast k) m first_address (i_width i) else (None, m);
                  (loaded, m) =
                    case fast_pair of
                      Some pair \<Rightarrow> (Some pair, m)
                    | None \<Rightarrow> slow_read_pair k m first_address second_address (i_width i)
              in case loaded of
                   None \<Rightarrow> (False, cpu, m)
                 | Some (first, second) \<Rightarrow>
                     let ext = (\<lambda>v. if i_flags i AND 2 \<noteq> 0 then sign_extend_loaded v 32 else v);
                         cpu = write_register (reg_t i) (ext first) cpu;
                         cpu = write_register (reg_d i) (ext second) cpu
                     in (True, cpu, m))
           else
             (let msk = mask_for_bits (unat (i_bits i));
                  first = read_register cpu (reg_t i) AND msk;
                  second = read_register cpu (reg_d i) AND msk;
                  (fast_pair, m) =
                    if k_uses_fast_memory_context k
                    then f_write_pair (k_fast k) m first_address (i_width i) first second
                    else (False, m);
                  (stored, m) =
                    if fast_pair then (True, m)
                    else slow_write_pair k m first_address second_address (i_width i) first second
              in if stored then (True, clear_exclusive_reservation cpu, m) else (False, cpu, m))
     in case accessed of
          (False, cpu, m) \<Rightarrow> (False, cpu, m)
        | (True, cpu, m) \<Rightarrow>
            let cpu = if i_flags i AND 8 \<noteq> 0
                      then write_base_register (reg_n i) (add_signed_offset base (i_immediate2 i)) cpu
                      else cpu
            in (True, cpu\<lparr>c_pc := pc + 4\<rparr>, m))"

subsection \<open>Exclusives\<close>

text \<open>The reservation a load exclusive leaves behind, and the test a store exclusive makes.\<close>

definition reserve :: "u64 \<Rightarrow> u8 \<Rightarrow> cpu \<Rightarrow> cpu" where
  "reserve address width cpu =
     cpu\<lparr>c_exclusive_address := address, c_exclusive_size := width, c_exclusive_valid := 1\<rparr>"

definition reservation_matches :: "u64 \<Rightarrow> u8 \<Rightarrow> cpu \<Rightarrow> bool" where
  "reservation_matches address width cpu =
     (c_exclusive_valid cpu \<noteq> 0 \<and> c_exclusive_address cpu = address \<and> c_exclusive_size cpu = width)"

definition exec_load_store_exclusive :: "'m callbacks \<Rightarrow> instr \<Rightarrow> cpu \<Rightarrow> 'm \<Rightarrow> 'm step" where
  "exec_load_store_exclusive k i cpu m =
    (let pc = c_pc cpu;
         address = read_base_register cpu (reg_n i);
         msk = mask_for_bits (unat (i_bits i)) in
     if i_flags i AND 1 \<noteq> 0 then
       (let (loaded, generation, m) =
              if k_uses_fast_memory_context k
              then f_exclusive_read (k_fast k) m address (i_width i) (c_exclusive_generation cpu)
              else (let (loaded, m) = slow_read k m address (i_width i)
                    in (loaded, c_exclusive_generation cpu, m));
            cpu = cpu\<lparr>c_exclusive_generation := generation\<rparr>
        in case loaded of
             None \<Rightarrow> (False, cpu, m)
           | Some v \<Rightarrow>
               let cpu = reserve address (i_width i) (write_register (reg_t i) (v AND msk) cpu)
               in (True, cpu\<lparr>c_pc := pc + 4\<rparr>, m))
     else
       (let store_value = read_register cpu (reg_t i) AND msk;
            (answer, m) =
              if \<not> reservation_matches address (i_width i) cpu then (0, m)
              else if k_uses_fast_memory_context k
              then f_exclusive_write (k_fast k) m address (i_width i) store_value
                     (c_exclusive_generation cpu)
              else (let (stored, m) = slow_write k m address (i_width i) store_value
                    in (if stored then 1 else - 1, m))
        in if answer < 0 then (False, cpu, m)
           else
             let cpu = write_register (reg_d i) (if answer \<noteq> 0 then 0 else 1) cpu;
                 cpu = clear_exclusive_reservation cpu
             in (True, cpu\<lparr>c_pc := pc + 4\<rparr>, m)))"

definition exec_load_store_exclusive_pair :: "'m callbacks \<Rightarrow> instr \<Rightarrow> cpu \<Rightarrow> 'm \<Rightarrow> 'm step" where
  "exec_load_store_exclusive_pair k i cpu m =
    (let pc = c_pc cpu;
         address = read_base_register cpu (reg_n i);
         second_address = address + zext64 (zext32 (i_width i));
         reservation_size = i_width i * 2;
         msk = mask_for_bits (unat (i_bits i)) in
     if i_flags i AND 1 \<noteq> 0 then
       (let (loaded, generation, m) =
              if k_uses_fast_memory_context k
              then f_exclusive_read_pair (k_fast k) m address (i_width i) (c_exclusive_generation cpu)
              else (let (loaded, m) = read_both k m address second_address (i_width i)
                    in (loaded, c_exclusive_generation cpu, m));
            cpu = cpu\<lparr>c_exclusive_generation := generation\<rparr>
        in case loaded of
             None \<Rightarrow> (False, cpu, m)
           | Some (first, second) \<Rightarrow>
               let cpu = write_register (reg_t i) (first AND msk) cpu;
                   cpu = write_register (reg_d i) (second AND msk) cpu;
                   cpu = reserve address reservation_size cpu
               in (True, cpu\<lparr>c_pc := pc + 4\<rparr>, m))
     else
       (let first_value = read_register cpu (reg_t i) AND msk;
            second_value = read_register cpu (reg_d i) AND msk;
            (answer, m) =
              if \<not> reservation_matches address reservation_size cpu then (0, m)
              else if k_uses_fast_memory_context k
              then f_exclusive_write_pair (k_fast k) m address (i_width i) first_value second_value
                     (c_exclusive_generation cpu)
              else (let (stored, m) =
                          write_both k m address second_address (i_width i) first_value second_value
                    in (if stored then 1 else - 1, m))
        in if answer < 0 then (False, cpu, m)
           else
             let cpu = write_register (reg_m i) (if answer \<noteq> 0 then 0 else 1) cpu;
                 cpu = clear_exclusive_reservation cpu
             in (True, cpu\<lparr>c_pc := pc + 4\<rparr>, m)))"

subsection \<open>System registers, exceptions and waiting\<close>

definition decoded_system_register_key :: "u32 \<Rightarrow> u16" where
  "decoded_system_register_key raw =
     ucast (shl (fld raw 19 0x3) 14 OR shl (fld raw 16 0x7) 11 OR
       shl (fld raw 12 0xf) 7 OR shl (fld raw 8 0xf) 3 OR fld raw 5 0x7)"

text \<open>The registers that the executor answers itself.\<close>

abbreviation KEY_CURRENT_EL :: u16 where "KEY_CURRENT_EL \<equiv> 0xc212"
abbreviation KEY_NZCV :: u16 where "KEY_NZCV \<equiv> 0xda10"
abbreviation KEY_DAIF :: u16 where "KEY_DAIF \<equiv> 0xda11"
abbreviation KEY_FPCR :: u16 where "KEY_FPCR \<equiv> 0xda20"
abbreviation KEY_FPSR :: u16 where "KEY_FPSR \<equiv> 0xda21"

definition exec_system_register_read :: "'m callbacks \<Rightarrow> instr \<Rightarrow> cpu \<Rightarrow> 'm \<Rightarrow> 'm step" where
  "exec_system_register_read k i cpu m =
    (let pc = c_pc cpu;
         use_local = k_read_system_register k = None \<or> k_fast_read_register k;
         key = if use_local then decoded_system_register_key (i_raw i) else 0xffff;
         (answer, m) =
           if key = KEY_CURRENT_EL then (Some (c_pstate cpu AND 0xc), m)
           else if key = KEY_NZCV then (Some (c_pstate cpu AND 0xf0000000), m)
           else if key = KEY_DAIF then (Some (c_pstate cpu AND 0x3c0), m)
           else if key = KEY_FPCR then (Some (c_fpcr cpu), m)
           else if key = KEY_FPSR then (Some (c_fpsr cpu), m)
           else
             (case k_read_system_register k of
                None \<Rightarrow> (None, m)
              | Some read \<Rightarrow> read m (i_raw i) pc (c_pstate cpu) (c_sp cpu))
     in case answer of
          None \<Rightarrow> (False, cpu, m)
        | Some v \<Rightarrow> (True, (write_register (reg_t i) v cpu)\<lparr>c_pc := pc + 4\<rparr>, m))"

definition exec_system_register_write :: "'m callbacks \<Rightarrow> instr \<Rightarrow> cpu \<Rightarrow> 'm \<Rightarrow> 'm step" where
  "exec_system_register_write k i cpu m =
    (let pc = c_pc cpu;
         v = read_register cpu (reg_t i);
         use_local = k_write_system_register k = None \<or> k_fast_write_register k;
         key = if use_local then decoded_system_register_key (i_raw i) else 0xffff;
         (accepted, cpu, m) =
           if key = KEY_CURRENT_EL then (True, cpu, m)
           else if key = KEY_NZCV then
             (True, cpu\<lparr>c_pstate := (c_pstate cpu AND 0xffffffff0fffffff) OR (v AND 0xf0000000)\<rparr>, m)
           else if key = KEY_DAIF then
             (True, cpu\<lparr>c_pstate := (c_pstate cpu AND NOT 0x3c0) OR (v AND 0x3c0)\<rparr>, m)
           else if key = KEY_FPCR then (True, cpu\<lparr>c_fpcr := v\<rparr>, m)
           else if key = KEY_FPSR then (True, cpu\<lparr>c_fpsr := v\<rparr>, m)
           else
             (case k_write_system_register k of
                None \<Rightarrow> (False, cpu, m)
              | Some write \<Rightarrow>
                  let (accepted, pstate, sp, m) =
                        write m (i_raw i) pc v (c_pstate cpu) (c_sp cpu)
                  in (accepted, cpu\<lparr>c_pstate := pstate, c_sp := sp\<rparr>, m))
     in if accepted then (True, cpu\<lparr>c_pc := pc + 4\<rparr>, m) else (False, cpu, m))"

definition exec_system_instruction :: "'m callbacks \<Rightarrow> instr \<Rightarrow> cpu \<Rightarrow> 'm \<Rightarrow> 'm step" where
  "exec_system_instruction k i cpu m =
    (let pc = c_pc cpu in
     case k_system_instruction k of
       None \<Rightarrow> (False, cpu, m)
     | Some run \<Rightarrow>
         let (completed, m) = run m (i_raw i) (read_register cpu (reg_t i))
         in if completed then (True, cpu\<lparr>c_pc := pc + 4\<rparr>, m) else (False, cpu, m))"

definition exec_exception_return :: "'m callbacks \<Rightarrow> instr \<Rightarrow> cpu \<Rightarrow> 'm \<Rightarrow> 'm step" where
  "exec_exception_return k i cpu m =
    (case k_exception_return k of
       None \<Rightarrow> (False, cpu, m)
     | Some eret \<Rightarrow>
         let (completed, pstate, sp, pc, m) = eret m (c_pstate cpu) (c_sp cpu) (c_pc cpu)
         in (completed, cpu\<lparr>c_pstate := pstate, c_sp := sp, c_pc := pc\<rparr>, m))"

definition exec_synchronous_exception :: "'m callbacks \<Rightarrow> instr \<Rightarrow> cpu \<Rightarrow> 'm \<Rightarrow> 'm step" where
  "exec_synchronous_exception k i cpu m =
    (case k_synchronous_exception k of
       None \<Rightarrow> (False, cpu, m)
     | Some raise \<Rightarrow>
         let (completed, x, pstate, sp, pc, m) =
               raise m (i_raw i) (c_x cpu) (c_pstate cpu) (c_sp cpu) (c_pc cpu);
             cpu = cpu\<lparr>c_x := x, c_pstate := pstate, c_sp := sp, c_pc := pc\<rparr>
         in if completed then (True, clear_exclusive_reservation cpu, m) else (False, cpu, m))"

definition exec_wait :: "'m callbacks \<Rightarrow> instr \<Rightarrow> cpu \<Rightarrow> 'm \<Rightarrow> 'm step" where
  "exec_wait k i cpu m =
    (case k_wait k of
       None \<Rightarrow> (False, cpu, m)
     | Some wait \<Rightarrow>
         let (completed, pc, m) = wait m (i_raw i) (c_pc cpu) in (completed, cpu\<lparr>c_pc := pc\<rparr>, m))"

end
