(* ===== verification/Execute.thy ===== *)
theory Execute
  imports ExecMemory
begin

text \<open>
  \<open>execute_decoded_instruction\<close>: the switch over the kind of the decoded instruction. The
  vector and floating-point kinds are a parameter \<open>vec\<close> of the executor: what is proved here
  about the other kinds holds whatever those cases do.
\<close>

definition register_cases :: "(u16 \<times> (instr \<Rightarrow> cpu \<Rightarrow> cpu option)) list" where
  "register_cases = [
     (AVZ_NATIVE_OP_NOP, exec_nop),
     (AVZ_NATIVE_OP_HALT, exec_halt),
     (AVZ_NATIVE_OP_BARRIER, exec_barrier),
     (AVZ_NATIVE_OP_PSTATE_IMMEDIATE, exec_pstate_immediate),
     (AVZ_NATIVE_OP_ADR, exec_adr),
     (AVZ_NATIVE_OP_CBZ, exec_cbz),
     (AVZ_NATIVE_OP_TBZ, exec_tbz),
     (AVZ_NATIVE_OP_BCOND, exec_bcond),
     (AVZ_NATIVE_OP_CONDITIONAL_COMPARE_REGISTER, exec_conditional_compare_register),
     (AVZ_NATIVE_OP_CONDITIONAL_COMPARE_IMMEDIATE, exec_conditional_compare_immediate),
     (AVZ_NATIVE_OP_ADD_SUB_IMMEDIATE, exec_add_sub_immediate),
     (AVZ_NATIVE_OP_MOVE_WIDE, exec_move_wide),
     (AVZ_NATIVE_OP_ADD_SUB_SHIFTED_REGISTER, exec_add_sub_shifted_register),
     (AVZ_NATIVE_OP_ADD_SUB_CARRY, exec_add_sub_carry),
     (AVZ_NATIVE_OP_ADD_SUB_EXTENDED_REGISTER, exec_add_sub_extended_register),
     (AVZ_NATIVE_OP_LOGICAL_SHIFTED_REGISTER, exec_logical_shifted_register),
     (AVZ_NATIVE_OP_EXTRACT_REGISTER, exec_extract_register),
     (AVZ_NATIVE_OP_LOGICAL_IMMEDIATE, exec_logical_immediate),
     (AVZ_NATIVE_OP_REGISTER_BRANCH, exec_register_branch),
     (AVZ_NATIVE_OP_CONDITIONAL_SELECT, exec_conditional_select),
     (AVZ_NATIVE_OP_BITFIELD_MOVE, exec_bitfield_move),
     (AVZ_NATIVE_OP_DATA_PROCESSING_ONE_SOURCE, exec_data_processing_one_source),
     (AVZ_NATIVE_OP_DATA_PROCESSING_TWO_SOURCE, exec_data_processing_two_source),
     (AVZ_NATIVE_OP_MULTIPLY_ADD_SUBTRACT, exec_multiply_add_subtract),
     (AVZ_NATIVE_OP_SIGNED_MULTIPLY_LONG_ADD_SUBTRACT, exec_signed_multiply_long_add_subtract),
     (AVZ_NATIVE_OP_UNSIGNED_MULTIPLY_LONG_ADD_SUBTRACT, exec_unsigned_multiply_long_add_subtract),
     (AVZ_NATIVE_OP_SIGNED_MULTIPLY_HIGH, exec_signed_multiply_high),
     (AVZ_NATIVE_OP_UNSIGNED_MULTIPLY_HIGH, exec_unsigned_multiply_high),
     (AVZ_NATIVE_OP_BRANCH, exec_branch),
     (AVZ_NATIVE_OP_SIMD_MOVE_VECTOR_ELEMENT_TO_GENERAL, exec_simd_move_vector_element_to_general),
     (AVZ_NATIVE_OP_FP_SCALAR_GENERAL_MOVE, exec_fp_scalar_general_move),
     (AVZ_NATIVE_OP_FP_SCALAR_REGISTER_MOVE, exec_fp_scalar_register_move)]"

definition callback_cases :: "(u16 \<times> ('m callbacks \<Rightarrow> instr \<Rightarrow> cpu \<Rightarrow> 'm \<Rightarrow> 'm step)) list" where
  "callback_cases = [
     (AVZ_NATIVE_OP_SYSTEM_REGISTER_READ, exec_system_register_read),
     (AVZ_NATIVE_OP_SYSTEM_REGISTER_WRITE, exec_system_register_write),
     (AVZ_NATIVE_OP_SYSTEM_INSTRUCTION, exec_system_instruction),
     (AVZ_NATIVE_OP_EXCEPTION_RETURN, exec_exception_return),
     (AVZ_NATIVE_OP_SYNCHRONOUS_EXCEPTION, exec_synchronous_exception),
     (AVZ_NATIVE_OP_WAIT, exec_wait),
     (AVZ_NATIVE_OP_LOAD_LITERAL, exec_load_literal),
     (AVZ_NATIVE_OP_LOAD_STORE_UNSIGNED_IMMEDIATE, exec_load_store_unsigned_immediate),
     (AVZ_NATIVE_OP_LOAD_STORE_SIGNED_IMMEDIATE, exec_load_store_signed_immediate),
     (AVZ_NATIVE_OP_LOAD_STORE_REGISTER_OFFSET, exec_load_store_register_offset),
     (AVZ_NATIVE_OP_LOAD_STORE_PAIR, exec_load_store_pair),
     (AVZ_NATIVE_OP_LOAD_ACQUIRE_STORE_RELEASE, exec_load_acquire_store_release),
     (AVZ_NATIVE_OP_LOAD_STORE_EXCLUSIVE, exec_load_store_exclusive),
     (AVZ_NATIVE_OP_LOAD_STORE_EXCLUSIVE_PAIR, exec_load_store_exclusive_pair)]"

definition execute_decoded_instruction ::
  "('m callbacks \<Rightarrow> instr \<Rightarrow> cpu \<Rightarrow> 'm \<Rightarrow> 'm step) \<Rightarrow> 'm callbacks \<Rightarrow> instr \<Rightarrow> cpu \<Rightarrow> 'm \<Rightarrow> 'm step" where
  "execute_decoded_instruction vec k i cpu m =
    (case map_of register_cases (i_kind i) of
       Some f \<Rightarrow> register_step f i cpu m
     | None \<Rightarrow>
         (case map_of callback_cases (i_kind i) of
            Some f \<Rightarrow> f k i cpu m
          | None \<Rightarrow>
              if 0 < i_kind i \<and> i_kind i < AVZ_NATIVE_OP_COUNT then vec k i cpu m
              else (False, cpu, m)))"

end
