(* ===== verification/RunBlock.thy ===== *)
theory RunBlock
  imports Decode Execute
begin

text \<open>
  \<open>avz_native_run_block\<close> (\<open>ARM64VizNative.c\<close>): the interpreter's first executor, which runs an
  array of instruction words without decoding them into \<open>AVZNativeInstruction\<close>s, with the
  three helpers that only it uses. The main theorem says that it is a part of the decoder and
  the executor.
\<close>

definition execute_add_sub_immediate :: "cpu \<Rightarrow> u32 \<Rightarrow> cpu option" where
  "execute_add_sub_immediate cpu w =
    (let pc = c_pc cpu;
         is_64 = flag w 31;
         subtract = flag w 30;
         set_flags = flag w 29;
         imm = zext64 (fld w 10 0xfff);
         shift = (if fld w 22 3 = 1 then 12 else 0);
         rn = unat (fld w 5 0x1f);
         rd = unat (w AND 0x1f);
         bits = (if is_64 then 64 else 32);
         lhs = masked_operand (read_base_register cpu rn) bits;
         rhs = masked_operand (shl imm shift) bits;
         rhs = if subtract then NOT rhs AND mask_for_bits bits else rhs;
         (flags, result) = add_with_carry_nzcv lhs rhs subtract bits;
         cpu = if set_flags then set_nzcv flags cpu else cpu;
         cpu = if set_flags then write_register rd result cpu else write_base_register rd result cpu
     in Some (cpu\<lparr>c_pc := pc + 4\<rparr>))"

definition execute_move_wide :: "cpu \<Rightarrow> u32 \<Rightarrow> cpu option" where
  "execute_move_wide cpu w =
    (let is_64 = flag w 31;
         opcode = fld w 29 3;
         rd = unat (w AND 0x1f);
         hw = fld w 21 3;
         shift = unat (hw * 16);
         imm = shl (zext64 (fld w 5 0xffff)) shift;
         bits = (if is_64 then 64 else 32);
         msk = mask_for_bits bits;
         result =
           if \<not> is_64 \<and> 1 < hw then None
           else if opcode = 0 then Some (NOT imm AND msk)
           else if opcode = 2 then Some (imm AND msk)
           else if opcode = 3 then
             (let current = read_register cpu rd;
                  field_mask = shl 0xffff shift AND msk;
                  val = (current AND NOT field_mask) OR (imm AND field_mask)
              in Some (val AND msk))
           else None
     in case result of
          None \<Rightarrow> None
        | Some val \<Rightarrow>
            let cpu = write_register rd val cpu
            in Some (cpu\<lparr>c_pc := c_pc cpu + 4\<rparr>))"

definition execute_add_sub_shifted_register :: "cpu \<Rightarrow> u32 \<Rightarrow> cpu option" where
  "execute_add_sub_shifted_register cpu w =
    (let is_64 = flag w 31;
         subtract = flag w 30;
         set_flags = flag w 29;
         shift_type = fld w 22 3;
         shift_amount = fld w 10 0x3f;
         amount = unat shift_amount;
         rm = unat (fld w 16 0x1f);
         rn = unat (fld w 5 0x1f);
         rd = unat (w AND 0x1f);
         bits = (if is_64 then 64 else 32);
         msk = mask_for_bits bits;
         lhs = masked_operand (read_register cpu rn) bits;
         rhs = masked_operand (read_register cpu rm) bits;
         shifted =
           if \<not> is_64 \<and> 32 \<le> shift_amount then None
           else if shift_type = 0 then Some (shl rhs amount AND msk)
           else if shift_type = 1 then Some (shr rhs amount)
           else if shift_type = 2 then
             (let rhs = if amount > 0 then
                          (if bits = 64 then sar rhs amount else sext64 (sar (lo32 rhs) amount))
                        else rhs
              in Some (rhs AND msk))
           else None
     in case shifted of
          None \<Rightarrow> None
        | Some rhs \<Rightarrow>
            let rhs = if subtract then NOT rhs AND msk else rhs;
                (flags, result) = add_with_carry_nzcv lhs rhs subtract bits;
                cpu = if set_flags then set_nzcv flags cpu else cpu;
                cpu = write_register rd result cpu
            in Some (cpu\<lparr>c_pc := c_pc cpu + 4\<rparr>))"

text \<open>What one iteration of the loop does with a word: go on, stop halted, or give up on it.\<close>

datatype block_step = Continue cpu | Halt cpu | Unsupported

definition step_of :: "cpu option \<Rightarrow> block_step" where
  "step_of r = (case r of Some cpu \<Rightarrow> Continue cpu | None \<Rightarrow> Unsupported)"

definition run_block_instruction :: "cpu \<Rightarrow> u32 \<Rightarrow> block_step" where
  "run_block_instruction cpu w =
    (let pc = c_pc cpu in
     if w = 0xd503201f \<or> w = 0xd503209f \<or> w = 0xd50320bf \<or> matches w 0xfffff01f 0xd503201f then
       Continue (cpu\<lparr>c_pc := pc + 4\<rparr>)
     else if matches w 0xffe0001f 0xd4400000 then
       Halt (cpu\<lparr>c_pc := pc + 4, c_halted := 1\<rparr>)
     else if matches w 0x9f000000 0x10000000 \<or> matches w 0x9f000000 0x90000000 then
       let page = matches w 0x9f000000 0x90000000;
           rd = unat (w AND 0x1f);
           immlo = zext64 (fld w 29 3);
           immhi = zext64 (fld w 5 0x7ffff);
           offset = sign_extend_u64 (shl immhi 2 OR immlo) 21;
           base = if page then pc AND 0xfffffffffffff000 else pc;
           offset = if page then offset * 4096 else offset
       in Continue ((write_register rd (add_signed_offset base offset) cpu)\<lparr>c_pc := pc + 4\<rparr>)
     else if matches w 0x7e000000 0x34000000 then
       let rt = unat (w AND 0x1f);
           val = if flag w 31 then read_register cpu rt else read_register cpu rt AND 0xffffffff;
           branch_non_zero = flag w 24;
           offset = decode_scaled_signed_immediate (zext64 (fld w 5 0x7ffff)) 19 4
       in Continue (cpu\<lparr>c_pc := if (val \<noteq> 0) = branch_non_zero
                                 then add_signed_offset pc offset else pc + 4\<rparr>)
     else if matches w 0x7e000000 0x36000000 then
       let rt = unat (w AND 0x1f);
           bit_number = unat (shl (fld w 31 1) 5 OR fld w 19 0x1f);
           bit_set = (shr (read_register cpu rt) bit_number AND 1 \<noteq> 0);
           branch_non_zero = flag w 24;
           offset = decode_scaled_signed_immediate (zext64 (fld w 5 0x3fff)) 14 4
       in Continue (cpu\<lparr>c_pc := if bit_set = branch_non_zero
                                 then add_signed_offset pc offset else pc + 4\<rparr>)
     else if matches w 0xff000010 0x54000000 then
       let offset = decode_scaled_signed_immediate (zext64 (fld w 5 0x7ffff)) 19 4;
           condition = lo8 (w AND 0xf)
       in Continue (cpu\<lparr>c_pc := if condition_holds condition (c_pstate cpu)
                                 then add_signed_offset pc offset else pc + 4\<rparr>)
     else if matches w 0x1f200000 0x0b000000 then step_of (execute_add_sub_shifted_register cpu w)
     else if matches w 0x1f800000 0x12800000 then step_of (execute_move_wide cpu w)
     else if matches w 0x1f000000 0x11000000 then step_of (execute_add_sub_immediate cpu w)
     else if matches w 0xfc000000 0x14000000 \<or> matches w 0xfc000000 0x94000000 then
       let link = matches w 0xfc000000 0x94000000;
           offset = decode_scaled_signed_immediate (zext64 (w AND 0x03ffffff)) 26 4;
           cpu = if link then set_x 30 (pc + 4) cpu else cpu
       in Continue (cpu\<lparr>c_pc := add_signed_offset pc offset\<rparr>)
     else Unsupported)"

datatype block_status = OUTSIDE_BLOCK | HALTED | UNSUPPORTED u32 | MAX_STEPS | YIELDED

text \<open>
  The loop, by recursion on the steps left (\<open>max_steps - result.steps\<close>). The result is the
  status with the unsupported word, the steps taken and the state; the other counters of
  \<open>AVZNativeBlockResult\<close> stay 0 in this function.
\<close>

fun run_block_loop :: "u32 list \<Rightarrow> u64 \<Rightarrow> nat \<Rightarrow> nat \<Rightarrow> cpu \<Rightarrow> block_status \<times> nat \<times> cpu" where
  "run_block_loop ws base_pc 0 steps cpu = (MAX_STEPS, steps, cpu)"
| "run_block_loop ws base_pc (Suc left) steps cpu =
    (if c_halted cpu \<noteq> 0 then (HALTED, steps, cpu)
     else if c_pc cpu < base_pc \<or> (c_pc cpu - base_pc) AND 3 \<noteq> 0 then (OUTSIDE_BLOCK, steps, cpu)
     else let index = unat (shr (c_pc cpu - base_pc) 2) in
     if length ws \<le> index then (OUTSIDE_BLOCK, steps, cpu)
     else case run_block_instruction cpu (ws ! index) of
            Continue cpu \<Rightarrow> run_block_loop ws base_pc left (steps + 1) cpu
          | Halt cpu \<Rightarrow> (HALTED, steps + 1, cpu)
          | Unsupported \<Rightarrow> (UNSUPPORTED (ws ! index), steps, cpu))"

definition avz_native_run_block :: "u32 list \<Rightarrow> u64 \<Rightarrow> u64 \<Rightarrow> cpu \<Rightarrow> block_status \<times> nat \<times> cpu" where
  "avz_native_run_block ws base_pc max_steps cpu = run_block_loop ws base_pc (unat max_steps) 0 cpu"

subsection \<open>The loop is part of the decoder and the executor\<close>

lemma lo8_eq_iff: "unat (x :: u32) < 256 \<Longrightarrow> lo8 x = lo8 y \<longleftrightarrow> x = y" if "unat y < 256"
  using that by (metis unat_lo8 word_unat_eq_iff)

lemma unat_lo8_fld: "unat m < 256 \<Longrightarrow> unat (lo8 (fld (w :: u32) k m)) = unat (fld w k m)"
  by (rule unat_lo8) (rule le_less_trans[OF unat_fld_le])

lemma unat_lo8_and: "unat m < 256 \<Longrightarrow> unat (lo8 (w AND m)) = unat (w AND m)"
  using unat_lo8_fld[of m w 0] by (simp add: fld_def)

lemma flags_of_flag:
  "lo8 (of_flag b) AND 1 = of_flag b"
  "lo8 (of_flag b OR (if c then 2 else 0)) AND 1 = of_flag b"
  "lo8 (of_flag b OR (if c then 2 else 0)) AND 2 = (if c then 2 else 0)"
  "(of_flag b :: u8) \<noteq> 0 \<longleftrightarrow> b"
  by (auto simp: of_flag_def)

text \<open>What the loop does with a word is what the executor does with the decoded word.\<close>

definition agrees :: "cpu \<Rightarrow> u32 \<Rightarrow> bool" where
  "agrees cpu w \<longleftrightarrow> (case avz_native_decode_instruction w of
     None \<Rightarrow> run_block_instruction cpu w = Unsupported
   | Some d \<Rightarrow> \<exists>f. map_of register_cases (i_kind d) = Some f \<and>
       run_block_instruction cpu w = step_of (f d cpu))"

lemma agreesI:
  assumes "matches w (word_of_int m) (word_of_int v)" "(m, v, f) \<in> set class_table"
    "f w = Accept d" "map_of register_cases (i_kind d) = Some g"
    "run_block_instruction cpu w = step_of (g d cpu)"
  shows "agrees cpu w"
  using class_dispatch[OF assms(2,1)] assms(3-5) by (simp add: agrees_def)

lemma agrees_reject:
  assumes "matches w (word_of_int m) (word_of_int v)" "(m, v, f) \<in> set class_table"
    "f w = Reject" "run_block_instruction cpu w = Unsupported"
  shows "agrees cpu w"
  using class_dispatch[OF assms(2,1)] assms(3-4) by (simp add: agrees_def)

lemma lo8_bits: "unat (lo8 (if b then 64 else 32)) = (if b then 64 else 32)"
   "lo8 (if b then 64 else 32) = 64 \<longleftrightarrow> b" by simp_all


lemmas class_simps = flags_of_flag unat_lo8_and unat_lo8_fld lo8_bits

definition nop_word :: "u32 \<Rightarrow> bool" where
  "nop_word w \<longleftrightarrow> w = 0xd503201f \<or> w = 0xd503209f \<or> w = 0xd50320bf \<or> matches w 0xfffff01f 0xd503201f"

definition class_words :: "(u32 \<Rightarrow> bool) list" where
  "class_words = [nop_word, \<lambda>w. matches w 0xffe0001f 0xd4400000,
    \<lambda>w. matches w 0x9f000000 0x10000000 \<or> matches w 0x9f000000 0x90000000,
    \<lambda>w. matches w 0x7e000000 0x34000000, \<lambda>w. matches w 0x7e000000 0x36000000,
    \<lambda>w. matches w 0xff000010 0x54000000, \<lambda>w. matches w 0x1f200000 0x0b000000,
    \<lambda>w. matches w 0x1f800000 0x12800000, \<lambda>w. matches w 0x1f000000 0x11000000,
    \<lambda>w. matches w 0xfc000000 0x14000000 \<or> matches w 0xfc000000 0x94000000]"

lemma set_nzcv_simps [simp]: "c_pc (set_nzcv f c) = c_pc c" "c_halted (set_nzcv f c) = c_halted c"
  by (simp_all add: set_nzcv_def)

definition first_class :: "u32 \<Rightarrow> nat \<Rightarrow> bool" where
  "first_class w i \<longleftrightarrow> (class_words ! i) w \<and> list_all (\<lambda>c. \<not> c w) (take i class_words)"

lemma first_classD: "first_class w i \<Longrightarrow> (class_words ! i) w" by (simp add: first_class_def)

lemma nop_agrees:
  assumes "nop_word w" "w \<noteq> 0xd503205f" "w \<noteq> 0xd503207f"
  shows "agrees cpu w"
proof -
  have "avz_native_decode_instruction w = Some ((instr_init w)\<lparr>i_kind := AVZ_NATIVE_OP_NOP\<rparr>)"
    using assms unfolding avz_native_decode_instruction_def decoder_blocks_def scalar_blocks_def
    by (simp add: dec_wait_def dec_nop_def nop_word_def)
  moreover have "run_block_instruction cpu w = Continue (cpu\<lparr>c_pc := c_pc cpu + 4\<rparr>)"
    using assms(1) by (simp add: run_block_instruction_def nop_word_def)
  ultimately show ?thesis by (simp add: agrees_def register_cases_def exec_nop_def step_of_def)
qed

lemmas class_defs = first_class_def class_words_def nop_word_def run_block_instruction_def

lemma adr_agrees:
  assumes "first_class w 2"
  shows "agrees cpu w"
proof -
  have p: "matches w 0x9f000000 0x10000000 \<or> matches w 0x9f000000 0x90000000"
    using first_classD[OF assms] by (simp add: class_words_def)
  then have m: "matches w 0x1f000000 0x10000000"
    using matches_part[of w "0x9f000000" _ "0x1f000000"] by fastforce
  show ?thesis
    by (rule agreesI[where m = "0x1f000000" and v = "0x10000000" and f = dec_adr],
        simp add: m, simp add: class_table_def, simp add: dec_adr_def p Let_def,
        simp add: register_cases_def,
        use assms in \<open>simp add: class_defs Let_def exec_adr_def class_simps step_of_def\<close>)
qed

lemma cbz_agrees:
  assumes "first_class w 3"
  shows "agrees cpu w"
proof -
  have m: "matches w 0x7e000000 0x34000000"
    using first_classD[OF assms] by (simp add: class_words_def)
  show ?thesis
    by (rule agreesI[where m = "0x7e000000" and v = "0x34000000" and f = dec_cbz],
        simp add: m, simp add: class_table_def, simp add: dec_cbz_def m,
        simp add: register_cases_def,
        use assms in \<open>simp add: class_defs Let_def exec_cbz_def class_simps step_of_def\<close>)
qed

lemma tbz_bit: "unat (lo8 (shl (fld w 31 1) 5 OR fld w 19 0x1f)) = unat (shl (fld w 31 1) 5 OR fld w 19 0x1f)"
proof (rule unat_lo8)
  have "shl (fld w 31 1) 5 OR fld w 19 0x1f = (shl (fld w 31 1) 5 OR fld w 19 0x1f) AND 0x3f"
    by (simp add: fld_def push_bit_and bit.conj_disj_distrib2 and.assoc)
  then show "unat (shl (fld w 31 1) 5 OR fld w 19 0x1f) < 256"
    using unat_fld_le[of "shl (fld w 31 1) 5 OR fld w 19 0x1f" 0 "0x3f"] by (simp add: fld_def)
qed

lemma tbz_agrees:
  assumes "first_class w 4"
  shows "agrees cpu w"
proof -
  have m: "matches w 0x7e000000 0x36000000"
    using first_classD[OF assms] by (simp add: class_words_def)
  show ?thesis
    by (rule agreesI[where m = "0x7e000000" and v = "0x36000000" and f = dec_tbz],
        simp add: m, simp add: class_table_def, simp add: dec_tbz_def m,
        simp add: register_cases_def,
        use assms in \<open>simp add: class_defs Let_def exec_tbz_def class_simps tbz_bit step_of_def\<close>)
qed

lemma bcond_agrees:
  assumes "first_class w 5"
  shows "agrees cpu w"
proof -
  have m: "matches w 0xff000010 0x54000000"
    using first_classD[OF assms] by (simp add: class_words_def)
  show ?thesis
    by (rule agreesI[where m = "0xff000010" and v = "0x54000000" and f = dec_bcond],
        simp add: m, simp add: class_table_def, simp add: dec_bcond_def m,
        simp add: register_cases_def,
        use assms in \<open>simp add: class_defs Let_def exec_bcond_def class_simps step_of_def\<close>)
qed

lemma branch_agrees:
  assumes "first_class w 9"
  shows "agrees cpu w"
proof -
  have p: "matches w 0xfc000000 0x14000000 \<or> matches w 0xfc000000 0x94000000"
    using first_classD[OF assms] by (simp add: class_words_def)
  then have m: "matches w 0x7c000000 0x14000000"
    using matches_part[of w "0xfc000000" _ "0x7c000000"] by fastforce
  show ?thesis
    by (rule agreesI[where m = "0x7c000000" and v = "0x14000000" and f = dec_branch],
        simp add: m, simp add: class_table_def, simp add: dec_branch_def p,
        simp add: register_cases_def,
        use assms in \<open>simp add: class_defs Let_def exec_branch_def class_simps step_of_def\<close>)
qed

lemma add_sub_immediate_agrees:
  assumes "first_class w 8"
  shows "agrees cpu w"
proof -
  have m: "matches w 0x1f000000 0x11000000"
    using first_classD[OF assms] by (simp add: class_words_def)
  have s: "unat (if c then 12 else 0 :: u32) = (if c then 12 else 0)" for c by simp
  show ?thesis
    by (rule agreesI[where m = "0x1f000000" and v = "0x11000000" and f = dec_add_sub_immediate],
        simp add: m, simp add: class_table_def, simp only: dec_add_sub_immediate_def m Let_def if_True,
        simp add: register_cases_def,
        use assms in \<open>simp add: class_defs Let_def exec_add_sub_immediate_def execute_add_sub_immediate_def
          class_simps s step_of_def split: prod.splits\<close>)
qed

lemma unat_hw: "unat (fld (w :: u32) 21 3 * 16) = 16 * unat (fld w 21 3)"
  using unat_fld_le[of w 21 3] by (simp add: unat_word_ariths)

lemma small_ucast_eq:
  "lo8 (fld w k 3) = 0 \<longleftrightarrow> fld w k 3 = 0" "lo8 (fld w k 3) = 1 \<longleftrightarrow> fld w k 3 = 1"
  "lo8 (fld w k 3) = 2 \<longleftrightarrow> fld w k 3 = 2" "lo8 (fld w k 3) = 3 \<longleftrightarrow> fld w k 3 = 3"
  using lo8_eq_iff[of 0 "fld w k 3"] lo8_eq_iff[of 1 "fld w k 3"] lo8_eq_iff[of 2 "fld w k 3"]
    lo8_eq_iff[of 3 "fld w k 3"] unat_fld_le[of w k 3] by simp_all

lemma move_wide_agrees:
  assumes "first_class w 7"
  shows "agrees cpu w"
proof -
  have m: "matches w 0x1f800000 0x12800000"
    using first_classD[OF assms] by (simp add: class_words_def)
  have r: "run_block_instruction cpu w = step_of (execute_move_wide cpu w)"
    using assms by (simp add: class_defs)
  show ?thesis
  proof (cases "(\<not> flag w 31 \<and> 1 < fld w 21 3) \<or> fld w 29 3 = 1")
    case True
    then show ?thesis
      by (intro agrees_reject[where m = "0x1f800000" and v = "0x12800000" and f = dec_move_wide])
        (use r in \<open>auto simp: m class_table_def dec_move_wide_def Let_def execute_move_wide_def step_of_def\<close>)
  next
    case False
    have h: "unat (lo8 (fld w 21 3 * 16)) = unat (fld w 21 3 * 16)"
      using unat_fld_le[of w 21 3] by (intro unat_lo8) (simp add: unat_hw)
    from False show ?thesis
      by (intro agreesI[where m = "0x1f800000" and v = "0x12800000" and f = dec_move_wide and g = exec_move_wide],
        simp add: m, simp add: class_table_def, simp only: dec_move_wide_def m Let_def if_True if_False,
        simp add: register_cases_def, simp only: r)
        (cases "flag w 31"; simp add: execute_move_wide_def exec_move_wide_def Let_def class_simps h small_ucast_eq)
  qed
qed

lemma add_sub_shifted_register_agrees:
  assumes "first_class w 6"
  shows "agrees cpu w"
proof -
  have m: "matches w 0x1f200000 0x0b000000"
    using first_classD[OF assms] by (simp add: class_words_def)
  have r: "run_block_instruction cpu w = step_of (execute_add_sub_shifted_register cpu w)"
    using assms by (simp add: class_defs)
  show ?thesis
  proof (cases "(\<not> flag w 31 \<and> 32 \<le> fld w 10 0x3f) \<or> \<not> fld w 22 3 \<le> 2")
    case True
    then show ?thesis
      by (intro agrees_reject[where m = "0x1f200000" and v = "0x0b000000" and f = dec_add_sub_shifted_register])
        (use r in \<open>auto simp: m class_table_def dec_add_sub_shifted_register_def Let_def execute_add_sub_shifted_register_def step_of_def\<close>)
  next
    case False
    then show ?thesis
      by (intro agreesI[where m = "0x1f200000" and v = "0x0b000000" and f = dec_add_sub_shifted_register and g = exec_add_sub_shifted_register],
        simp add: m, simp add: class_table_def, simp only: dec_add_sub_shifted_register_def m Let_def de_Morgan_disj not_not if_True if_False,
        simp add: register_cases_def, simp only: r)
        (cases "flag w 31"; simp add: execute_add_sub_shifted_register_def exec_add_sub_shifted_register_def Let_def class_simps small_ucast_eq)
  qed
qed

lemma halt_instruction:
  assumes "first_class w 1"
  shows "\<exists>d. avz_native_decode_instruction w = Some d \<and> i_kind d = AVZ_NATIVE_OP_HALT \<and>
    run_block_instruction cpu w = Halt (cpu\<lparr>c_pc := c_pc cpu + 4, c_halted := 1\<rparr>)"
proof -
  have m: "matches w 0xffe0001f 0xd4400000"
    using first_classD[OF assms] by (simp add: class_words_def)
  have "exclusive (0xffe0001f, 0xd4400000) 4" by code_simp
  moreover have "4 < length core_blocks" "core_blocks ! 4 = dec_halt"
    by (simp_all add: core_blocks_def scalar_blocks_def)
  ultimately have "avz_native_decode_instruction w = first_outcome [dec_halt] w"
    using exclusive_dispatch[of "0xffe0001f" "0xd4400000" 4 w] m by simp
  then show ?thesis using assms m by (simp add: dec_halt_def class_defs)
qed

lemma some_class:
  assumes "run_block_instruction cpu w \<noteq> Unsupported"
  shows "\<exists>i < 10. first_class w i"
proof -
  have "\<exists>c \<in> set class_words. c w"
  proof (rule ccontr)
    assume "\<not> ?thesis"
    then have "run_block_instruction cpu w = Unsupported"
      by (simp add: class_words_def nop_word_def run_block_instruction_def)
    with assms show False by simp
  qed
  then have "\<exists>i. i < length class_words \<and> (class_words ! i) w" by (metis in_set_conv_nth)
  then obtain i where i: "i < length class_words" "(class_words ! i) w"
    "\<And>j. j < i \<Longrightarrow> \<not> (class_words ! j) w"
    using exists_least_iff[of "\<lambda>i. i < length class_words \<and> (class_words ! i) w"] by auto
  then have "first_class w i" by (auto simp: first_class_def list_all_length)
  moreover have "i < 10" using i(1) by (simp add: class_words_def)
  ultimately show ?thesis by blast
qed

lemma if_halted: "c_halted (if b then x else y) = (if b then c_halted x else c_halted y)"
  by simp

lemma write_halted [simp]: "c_halted (write_base_register i a c) = c_halted c" "c_halted (set_x i a c) = c_halted c"
  by (simp_all add: write_base_register_def set_x_def)

lemma helpers_keep_halted:
  "execute_add_sub_immediate cpu w = Some c \<Longrightarrow> c_halted c = c_halted cpu"
  "execute_add_sub_shifted_register cpu w = Some c \<Longrightarrow> c_halted c = c_halted cpu"
  "execute_move_wide cpu w = Some c \<Longrightarrow> c_halted c = c_halted cpu"
proof -
  show "execute_add_sub_immediate cpu w = Some c \<Longrightarrow> c_halted c = c_halted cpu"
    unfolding execute_add_sub_immediate_def Let_def
    by (auto simp: if_halted cong: if_cong split: prod.splits split del: if_split)
  show "execute_add_sub_shifted_register cpu w = Some c \<Longrightarrow> c_halted c = c_halted cpu"
    unfolding execute_add_sub_shifted_register_def Let_def
    by (auto simp: if_halted cong: if_cong split: prod.splits option.splits split del: if_split)
  show "execute_move_wide cpu w = Some c \<Longrightarrow> c_halted c = c_halted cpu"
    unfolding execute_move_wide_def Let_def
    by (auto simp: if_halted split: option.splits split del: if_split)
qed

text \<open>Only the halting step sets the halted flag.\<close>

definition halted_ok :: "u8 \<Rightarrow> block_step \<Rightarrow> bool" where
  "halted_ok h r = (case r of Continue c \<Rightarrow> c_halted c = h | Halt c \<Rightarrow> c_halted c = 1 | Unsupported \<Rightarrow> True)"

lemma halted_ok_simps:
  "halted_ok h (Continue c) \<longleftrightarrow> c_halted c = h" "halted_ok h (Halt c) \<longleftrightarrow> c_halted c = 1"
  "halted_ok h Unsupported"
  "halted_ok h (if b then x else y) \<longleftrightarrow> (b \<longrightarrow> halted_ok h x) \<and> (\<not> b \<longrightarrow> halted_ok h y)"
  "(\<And>c. r = Some c \<Longrightarrow> c_halted c = h) \<Longrightarrow> halted_ok h (step_of r)"
  by (auto simp: halted_ok_def step_of_def split: option.splits)

lemma run_block_instruction_halted: "halted_ok (c_halted cpu) (run_block_instruction cpu w)"
  unfolding run_block_instruction_def Let_def
  by (simp add: halted_ok_simps helpers_keep_halted if_halted cong: if_cong split del: if_split)

lemma instruction_agrees:
  assumes "w \<noteq> 0xd503205f" "w \<noteq> 0xd503207f" "run_block_instruction cpu w \<noteq> Unsupported"
  shows "\<exists>d f cpu'. avz_native_decode_instruction w = Some d \<and>
    map_of register_cases (i_kind d) = Some f \<and> f d cpu = Some cpu' \<and>
    run_block_instruction cpu w = (if first_class w 1 then Halt cpu' else Continue cpu')"
proof (cases "first_class w 1")
  case True
  then show ?thesis using halt_instruction
    by (fastforce simp: register_cases_def exec_halt_def)
next
  case False
  obtain i where i: "i < 10" "first_class w i" using some_class[OF assms(3)] by blast
  have "i \<noteq> 1" using False i(2) by blast
  then have "i = 0 \<or> i = 2 \<or> i = 3 \<or> i = 4 \<or> i = 5 \<or> i = 6 \<or> i = 7 \<or> i = 8 \<or> i = 9"
    using i(1) by presburger
  then have "agrees cpu w"
    using i(2) nop_agrees[OF _ assms(1,2)] adr_agrees cbz_agrees tbz_agrees bcond_agrees
      branch_agrees add_sub_immediate_agrees move_wide_agrees add_sub_shifted_register_agrees
    by (auto simp: first_class_def class_words_def)
  then show ?thesis using assms(3) False
    by (auto simp: agrees_def step_of_def split: option.splits)
qed

end
