(* ===== verification/GuestMemory.thy ===== *)
theory GuestMemory
  imports Prelude
begin

text \<open>
  The guest RAM shared by all processors and devices: \<open>AVZGuestMemory\<close> of
  \<open>ARM64VizGuestMemoryInternal.h\<close> with the operations of \<open>ARM64VizGuestMemory.c\<close> that read and
  write its bytes and its bookkeeping: dirty epochs, code pages and write generations, host
  and bulk-reader observations, and the global exclusive monitor.

  Offsets, page and granule numbers and byte counts (\<open>size_t\<close>) are \<open>nat\<close>: the range check
  that guards every operation keeps them below the size of the RAM. Every operation runs
  under the page locks of its range, so it is one step here; the atomic counters it bumps
  are \<open>u64\<close> with their wrap-around. The null checks on the handle have no counterpart.
\<close>

subsection \<open>State\<close>

text \<open>\<open>AVZNativeTLBI\<close>: one invalidation of translations, by address, by ASID or of everything.\<close>

record tlbi =
  tlbi_virtual_address :: u64
  tlbi_asid :: u16
  tlbi_kind :: u8
  tlbi_broadcast :: u8

abbreviation TLBI_ALL :: u8 where "TLBI_ALL \<equiv> 0"
abbreviation TLBI_VA_ASID :: u8 where "TLBI_VA_ASID \<equiv> 1"
abbreviation TLBI_ASID :: u8 where "TLBI_ASID \<equiv> 2"
abbreviation TLBI_VA_ALL_ASIDS :: u8 where "TLBI_VA_ALL_ASIDS \<equiv> 3"

definition empty_tlbi :: tlbi where
  "empty_tlbi = \<lparr>tlbi_virtual_address = 0, tlbi_asid = 0, tlbi_kind = TLBI_ALL, tlbi_broadcast = 0\<rparr>"

record guest_memory =
  g_bytes :: "nat \<Rightarrow> u8"
  g_size :: nat
  g_page_epochs :: "nat \<Rightarrow> u64"
  g_page_write_generations :: "nat \<Rightarrow> u64"
  g_page_exclusive_observation_epochs :: "nat \<Rightarrow> u64"
  g_host_page_observations :: "nat \<Rightarrow> u8"
  g_bulk_read_page_observations :: "nat \<Rightarrow> u8"
  g_page_observation_flags :: "nat \<Rightarrow> u8"
  g_exclusive_write_generations :: "nat \<Rightarrow> u64"
  g_exclusive_observations :: "nat \<Rightarrow> u8"
  g_exclusive_slot_mask :: u64
  g_page_count :: nat
  g_current_epoch :: u64
  g_current_write_generation :: u64
  g_code_mutation_epoch :: u64
  g_translation_epoch :: u64
  g_translation_journal :: "nat \<Rightarrow> tlbi"
  g_exclusive_reads :: u64
  g_exclusive_nonzero_reads :: u64
  g_exclusive_write_successes :: u64
  g_exclusive_write_conflicts :: u64
  g_code_page_bits :: "nat \<Rightarrow> u8"

abbreviation PAGE_SHIFT :: nat where "PAGE_SHIFT \<equiv> 12"
abbreviation GRANULE_SHIFT :: nat where "GRANULE_SHIFT \<equiv> 4"
abbreviation page_of :: "nat \<Rightarrow> nat" where "page_of offset \<equiv> drop_bit PAGE_SHIFT offset"
abbreviation granule_of :: "nat \<Rightarrow> nat" where "granule_of offset \<equiv> drop_bit GRANULE_SHIFT offset"

abbreviation OBSERVATION_HOST :: u8 where "OBSERVATION_HOST \<equiv> 1"
abbreviation OBSERVATION_BULK_READER :: u8 where "OBSERVATION_BULK_READER \<equiv> 2"
abbreviation OBSERVATION_EXCLUSIVE :: u8 where "OBSERVATION_EXCLUSIVE \<equiv> 4"

text \<open>The loops \<open>for (page = first; page <= last; page++)\<close>.\<close>

definition for_each :: "nat \<Rightarrow> nat \<Rightarrow> (nat \<Rightarrow> 's \<Rightarrow> 's) \<Rightarrow> 's \<Rightarrow> 's" where
  "for_each lo hi body s = fold body [lo ..< Suc hi] s"

definition exists_page :: "nat \<Rightarrow> nat \<Rightarrow> (nat \<Rightarrow> bool) \<Rightarrow> bool" where
  "exists_page lo hi p = list_ex p [lo ..< Suc hi]"

definition store_pages :: "nat \<Rightarrow> nat \<Rightarrow> 'a \<Rightarrow> (nat \<Rightarrow> 'a) \<Rightarrow> nat \<Rightarrow> 'a" where
  "store_pages lo hi v = for_each lo hi (\<lambda>page f. f(page := v))"

definition or_pages :: "nat \<Rightarrow> nat \<Rightarrow> u8 \<Rightarrow> (nat \<Rightarrow> u8) \<Rightarrow> nat \<Rightarrow> u8" where
  "or_pages lo hi v = for_each lo hi (\<lambda>page f. f(page := f page OR v))"

text \<open>\<open>byte_count != 0 && offset < size && byte_count <= size - offset\<close>\<close>

definition in_range :: "guest_memory \<Rightarrow> nat \<Rightarrow> nat \<Rightarrow> bool" where
  "in_range memory offset byte_count =
     (byte_count \<noteq> 0 \<and> offset < g_size memory \<and> byte_count \<le> g_size memory - offset)"

definition avz_guest_memory_page_range :: "guest_memory \<Rightarrow> nat \<Rightarrow> nat \<Rightarrow> (nat \<times> nat) option" where
  "avz_guest_memory_page_range memory offset byte_count =
     (if in_range memory offset byte_count
      then Some (page_of offset, page_of (offset + byte_count - 1)) else None)"

subsection \<open>Creation\<close>

text \<open>The loop doubles the shift; six rounds spread the top bit over 64 bits.\<close>

definition avz_next_power_of_two :: "u64 \<Rightarrow> u64" where
  "avz_next_power_of_two v =
     (if v \<le> 1 then 1
      else let v = fold (\<lambda>shift v. v OR shr v shift) [1, 2, 4, 8, 16, 32] (v - 1)
           in if v = - 1 then 0 else v + 1)"

text \<open>\<open>avz_guest_memory_create\<close> where every allocation succeeds.\<close>

definition avz_guest_memory_create :: "nat \<Rightarrow> guest_memory option" where
  "avz_guest_memory_create byte_size =
     (if byte_size = 0 \<or> byte_size > 2 ^ 64 - 1 - 4095 then None
      else
        let page_count = page_of (byte_size + 4095);
            requested_exclusive_slots = max (page_count * 8) 8192;
            exclusive_slot_count = avz_next_power_of_two (word_of_nat requested_exclusive_slots)
        in if page_count > (2 ^ 64 - 1) div 8 \<or> exclusive_slot_count = 0 then None
           else Some \<lparr>g_bytes = \<lambda>_. 0, g_size = byte_size, g_page_epochs = \<lambda>_. 0,
             g_page_write_generations = \<lambda>_. 0, g_page_exclusive_observation_epochs = \<lambda>_. 0,
             g_host_page_observations = \<lambda>_. 0, g_bulk_read_page_observations = \<lambda>_. 0,
             g_page_observation_flags = \<lambda>_. 0, g_exclusive_write_generations = \<lambda>_. 0,
             g_exclusive_observations = \<lambda>_. 0,
             g_exclusive_slot_mask = exclusive_slot_count - 1, g_page_count = page_count,
             g_current_epoch = 1, g_current_write_generation = 1, g_code_mutation_epoch = 1,
             g_translation_epoch = 1, g_translation_journal = \<lambda>_. empty_tlbi,
             g_exclusive_reads = 0, g_exclusive_nonzero_reads = 0,
             g_exclusive_write_successes = 0, g_exclusive_write_conflicts = 0,
             g_code_page_bits = \<lambda>_. 0\<rparr>)"

subsection \<open>Observations\<close>

definition avz_guest_memory_range_may_have_observation ::
  "guest_memory \<Rightarrow> nat \<Rightarrow> nat \<Rightarrow> u8 \<Rightarrow> bool" where
  "avz_guest_memory_range_may_have_observation memory offset byte_count msk =
     (case avz_guest_memory_page_range memory offset byte_count of
        None \<Rightarrow> True
      | Some (lo, hi) \<Rightarrow>
          exists_page lo hi (\<lambda>page. g_page_observation_flags memory page AND msk \<noteq> 0))"

definition avz_guest_memory_note_host_observation ::
  "nat \<Rightarrow> nat \<Rightarrow> guest_memory \<Rightarrow> guest_memory" where
  "avz_guest_memory_note_host_observation offset byte_count memory =
     (case avz_guest_memory_page_range memory offset byte_count of
        None \<Rightarrow> memory
      | Some (lo, hi) \<Rightarrow>
          memory\<lparr>g_host_page_observations :=
                   store_pages lo hi 1 (g_host_page_observations memory),
                 g_page_observation_flags :=
                   or_pages lo hi OBSERVATION_HOST (g_page_observation_flags memory)\<rparr>)"

definition avz_guest_memory_range_has_host_observer :: "guest_memory \<Rightarrow> nat \<Rightarrow> nat \<Rightarrow> bool" where
  "avz_guest_memory_range_has_host_observer memory offset byte_count =
     (case avz_guest_memory_page_range memory offset byte_count of
        None \<Rightarrow> False
      | Some (lo, hi) \<Rightarrow> exists_page lo hi (\<lambda>page. g_host_page_observations memory page \<noteq> 0))"

definition avz_guest_memory_note_bulk_read :: "nat \<Rightarrow> nat \<Rightarrow> guest_memory \<Rightarrow> guest_memory" where
  "avz_guest_memory_note_bulk_read offset byte_count memory =
     (case avz_guest_memory_page_range memory offset byte_count of
        None \<Rightarrow> memory
      | Some (lo, hi) \<Rightarrow>
          memory\<lparr>g_bulk_read_page_observations :=
                   store_pages lo hi 1 (g_bulk_read_page_observations memory),
                 g_page_observation_flags :=
                   or_pages lo hi OBSERVATION_BULK_READER (g_page_observation_flags memory)\<rparr>)"

definition avz_guest_memory_range_has_bulk_reader :: "guest_memory \<Rightarrow> nat \<Rightarrow> nat \<Rightarrow> bool" where
  "avz_guest_memory_range_has_bulk_reader memory offset byte_count =
     (case avz_guest_memory_page_range memory offset byte_count of
        None \<Rightarrow> False
      | Some (lo, hi) \<Rightarrow>
          exists_page lo hi (\<lambda>page. g_bulk_read_page_observations memory page \<noteq> 0))"

subsection \<open>Code pages and generations\<close>

text \<open>\<open>physical - ram_base\<close> as an offset, where the address is not below the base.\<close>

definition ram_offset :: "u64 \<Rightarrow> u64 \<Rightarrow> nat option" where
  "ram_offset physical ram_base = (if physical < ram_base then None else Some (unat (physical - ram_base)))"

definition is_code_page :: "guest_memory \<Rightarrow> nat \<Rightarrow> bool" where
  "is_code_page memory page =
     (g_code_page_bits memory (drop_bit 3 page) AND shl 1 (page mod 8) \<noteq> 0)"

definition avz_guest_memory_mark_code_page :: "u64 \<Rightarrow> u64 \<Rightarrow> guest_memory \<Rightarrow> guest_memory" where
  "avz_guest_memory_mark_code_page physical_page ram_base memory =
     (case ram_offset physical_page ram_base of
        None \<Rightarrow> memory
      | Some offset \<Rightarrow>
          if offset \<ge> g_size memory then memory
          else let page = page_of offset;
                   bits = g_code_page_bits memory
               in memory\<lparr>g_code_page_bits :=
                    bits(drop_bit 3 page := bits (drop_bit 3 page) OR shl 1 (page mod 8))\<rparr>)"

definition avz_guest_memory_range_may_contain_code ::
  "guest_memory \<Rightarrow> u64 \<Rightarrow> nat \<Rightarrow> u64 \<Rightarrow> bool" where
  "avz_guest_memory_range_may_contain_code memory physical byte_count ram_base =
     (case ram_offset physical ram_base of
        None \<Rightarrow> False
      | Some offset \<Rightarrow>
          in_range memory offset byte_count \<and>
          exists_page (page_of offset) (page_of (offset + byte_count - 1)) (is_code_page memory))"

definition avz_guest_memory_advance_code_mutation_epoch :: "guest_memory \<Rightarrow> guest_memory" where
  "avz_guest_memory_advance_code_mutation_epoch memory =
     (let epoch = g_code_mutation_epoch memory + 1
      in memory\<lparr>g_code_mutation_epoch := if epoch = 0 then 1 else epoch\<rparr>)"

text \<open>A ticket counter that skips 0, which stands for ``never written''.\<close>

definition avz_guest_memory_next_write_generation :: "guest_memory \<Rightarrow> u64 \<times> guest_memory" where
  "avz_guest_memory_next_write_generation memory =
     (let generation = g_current_write_generation memory + 1;
          generation = if generation = 0 then 1 else generation
      in (generation, memory\<lparr>g_current_write_generation := generation\<rparr>))"

definition avz_guest_memory_note_page_write_generation ::
  "nat \<Rightarrow> nat \<Rightarrow> guest_memory \<Rightarrow> guest_memory" where
  "avz_guest_memory_note_page_write_generation offset byte_count memory =
     (if \<not> in_range memory offset byte_count then memory
      else let (generation, memory) = avz_guest_memory_next_write_generation memory
           in memory\<lparr>g_page_write_generations :=
                store_pages (page_of offset) (page_of (offset + byte_count - 1)) generation
                  (g_page_write_generations memory)\<rparr>)"

definition avz_guest_memory_page_generation ::
  "guest_memory \<Rightarrow> u64 \<Rightarrow> u64 \<Rightarrow> nat \<Rightarrow> u64" where
  "avz_guest_memory_page_generation memory physical ram_base byte_count =
     (case ram_offset physical ram_base of
        None \<Rightarrow> 0
      | Some offset \<Rightarrow>
          if \<not> in_range memory offset byte_count then 0
          else for_each (page_of offset) (page_of (offset + byte_count - 1))
                 (\<lambda>page generation. let candidate = g_page_write_generations memory page
                    in if candidate > generation then candidate else generation) 0)"

definition avz_guest_memory_page_write_generation :: "guest_memory \<Rightarrow> u64 \<Rightarrow> u64 \<Rightarrow> u64" where
  "avz_guest_memory_page_write_generation memory physical_page ram_base =
     avz_guest_memory_page_generation memory physical_page ram_base 4096"

subsection \<open>Translation invalidations\<close>

definition avz_native_decode_tlbi :: "u32 \<Rightarrow> u64 \<Rightarrow> u64 \<Rightarrow> tlbi" where
  "avz_native_decode_tlbi instruction operand tcr_el1 =
     (let result = empty_tlbi\<lparr>tlbi_broadcast := 1\<rparr>;
          crm = shr instruction 8 AND 15;
          op2 = shr instruction 5 AND 7
      in if instruction AND 0xfff8f000 \<noteq> 0xd5088000 \<or> shr instruction 16 AND 7 \<noteq> 0 \<or>
           (crm \<noteq> 7 \<and> crm \<noteq> 3 \<and> crm \<noteq> 1) \<or> op2 = 4 \<or> op2 = 6 then result
         else
           let asid = ucast (shr operand 48) :: u16;
               asid = (if tcr_el1 AND shl 1 36 = 0 then asid AND 0xff else asid);
               result = \<lparr>tlbi_virtual_address = shl (operand AND 0x00000fffffffffff) 12,
                         tlbi_asid = asid, tlbi_kind = TLBI_ALL,
                         tlbi_broadcast = (if crm \<noteq> 7 then 1 else 0)\<rparr>
           in if op2 = 1 \<or> op2 = 5 then result\<lparr>tlbi_kind := TLBI_VA_ASID\<rparr>
              else if op2 = 2 then result\<lparr>tlbi_kind := TLBI_ASID\<rparr>
              else if op2 = 3 \<or> op2 = 7 then result\<lparr>tlbi_kind := TLBI_VA_ALL_ASIDS\<rparr>
              else result)"

text \<open>Every processor finds the published invalidations in a ring of the last 64.\<close>

definition avz_guest_memory_publish_tlbi :: "tlbi \<Rightarrow> guest_memory \<Rightarrow> guest_memory" where
  "avz_guest_memory_publish_tlbi invalidation memory =
     (let epoch = g_translation_epoch memory + 1;
          (epoch, invalidation) =
            (if epoch = 0 then (1, invalidation\<lparr>tlbi_kind := TLBI_ALL\<rparr>) else (epoch, invalidation))
      in memory\<lparr>g_translation_journal :=
                  (g_translation_journal memory)(unat (epoch mod 64) := invalidation),
                g_translation_epoch := epoch\<rparr>)"

definition avz_guest_memory_invalidate_translations :: "guest_memory \<Rightarrow> guest_memory" where
  "avz_guest_memory_invalidate_translations =
     avz_guest_memory_publish_tlbi (empty_tlbi\<lparr>tlbi_kind := TLBI_ALL, tlbi_broadcast := 1\<rparr>)"

subsection \<open>The exclusive monitor\<close>

text \<open>
  A granule of 16 bytes hashes to a slot; a slot remembers whether a load exclusive has ever
  observed one of its granules, and the ticket of the last write to one of them since.
\<close>

definition avz_guest_memory_exclusive_slot :: "guest_memory \<Rightarrow> nat \<Rightarrow> nat" where
  "avz_guest_memory_exclusive_slot memory granule =
     (let v = word_of_nat granule :: u64;
          v = v XOR shr v 30;
          v = v * 0xbf58476d1ce4e5b9;
          v = v XOR shr v 27;
          v = v * 0x94d049bb133111eb;
          v = v XOR shr v 31
      in unat (v AND g_exclusive_slot_mask memory))"

definition avz_guest_memory_note_exclusive_observation ::
  "nat \<Rightarrow> nat \<Rightarrow> guest_memory \<Rightarrow> guest_memory" where
  "avz_guest_memory_note_exclusive_observation offset byte_count memory =
     (if \<not> in_range memory offset byte_count then memory
      else
        let first_page = page_of offset;
            last_page = page_of (offset + byte_count - 1);
            first_granule = granule_of offset;
            last_granule = granule_of (offset + byte_count - 1)
        in memory\<lparr>
             g_page_exclusive_observation_epochs :=
               store_pages first_page last_page 1 (g_page_exclusive_observation_epochs memory),
             g_page_observation_flags :=
               or_pages first_page last_page OBSERVATION_EXCLUSIVE (g_page_observation_flags memory),
             g_exclusive_observations :=
               for_each first_granule last_granule
                 (\<lambda>granule f. f(avz_guest_memory_exclusive_slot memory granule := 1))
                 (g_exclusive_observations memory)\<rparr>)"

text \<open>
  One granule of the write notification. The ticket is drawn at the first observed granule;
  \<open>generation = 0\<close> means that none has been drawn yet.
\<close>

definition note_granule_write :: "nat \<Rightarrow> u64 \<times> guest_memory \<Rightarrow> u64 \<times> guest_memory" where
  "note_granule_write granule = (\<lambda>(generation, memory).
     let slot = avz_guest_memory_exclusive_slot memory granule in
     if g_exclusive_observations memory slot = 0 then (generation, memory)
     else
       let (generation, memory) =
             if generation = 0 then avz_guest_memory_next_write_generation memory
             else (generation, memory)
       in (generation, memory\<lparr>g_exclusive_write_generations :=
             (g_exclusive_write_generations memory)(slot := generation)\<rparr>))"

text \<open>The granules of one page that the written range covers; 256 granules make a page.\<close>

definition note_page_granules :: "nat \<Rightarrow> nat \<Rightarrow> nat \<Rightarrow> u64 \<times> guest_memory \<Rightarrow> u64 \<times> guest_memory" where
  "note_page_granules first_granule last_granule page s =
     (if g_page_exclusive_observation_epochs (snd s) page = 0 then s
      else for_each (max first_granule (page * 256)) (min last_granule (page * 256 + 255))
             note_granule_write s)"

definition avz_guest_memory_note_exclusive_write_generation ::
  "nat \<Rightarrow> nat \<Rightarrow> guest_memory \<Rightarrow> guest_memory" where
  "avz_guest_memory_note_exclusive_write_generation offset byte_count memory =
     (if \<not> in_range memory offset byte_count then memory
      else
        let first_granule = granule_of offset;
            last_granule = granule_of (offset + byte_count - 1)
        in snd (for_each (first_granule div 256) (last_granule div 256)
                  (note_page_granules first_granule last_granule) (0, memory)))"

definition avz_guest_memory_range_has_exclusive_observer :: "guest_memory \<Rightarrow> nat \<Rightarrow> nat \<Rightarrow> bool" where
  "avz_guest_memory_range_has_exclusive_observer memory offset byte_count =
     (if \<not> in_range memory offset byte_count then True
      else
        let first_granule = granule_of offset;
            last_granule = granule_of (offset + byte_count - 1)
        in exists_page (first_granule div 256) (last_granule div 256)
             (\<lambda>page. g_page_exclusive_observation_epochs memory page \<noteq> 0 \<and>
                exists_page (max first_granule (page * 256)) (min last_granule (page * 256 + 255))
                  (\<lambda>granule. g_exclusive_observations memory
                     (avz_guest_memory_exclusive_slot memory granule) \<noteq> 0)))"

definition avz_guest_memory_range_requires_serialization :: "guest_memory \<Rightarrow> nat \<Rightarrow> nat \<Rightarrow> bool" where
  "avz_guest_memory_range_requires_serialization memory offset byte_count =
     (avz_guest_memory_range_has_host_observer memory offset byte_count \<or>
      avz_guest_memory_range_has_bulk_reader memory offset byte_count \<or>
      avz_guest_memory_range_has_exclusive_observer memory offset byte_count)"

definition avz_guest_memory_exclusive_write_generation ::
  "guest_memory \<Rightarrow> u64 \<Rightarrow> u64 \<Rightarrow> nat \<Rightarrow> u64" where
  "avz_guest_memory_exclusive_write_generation memory physical ram_base byte_count =
     (case ram_offset physical ram_base of
        None \<Rightarrow> 0
      | Some offset \<Rightarrow>
          if \<not> in_range memory offset byte_count then 0
          else for_each (granule_of offset) (granule_of (offset + byte_count - 1))
                 (\<lambda>granule generation.
                    let candidate = g_exclusive_write_generations memory
                                      (avz_guest_memory_exclusive_slot memory granule)
                    in if candidate > generation then candidate else generation) 0)"

subsection \<open>Dirty pages\<close>

definition avz_guest_memory_mark_dirty :: "nat \<Rightarrow> nat \<Rightarrow> guest_memory \<Rightarrow> guest_memory" where
  "avz_guest_memory_mark_dirty offset byte_count memory =
     (if \<not> in_range memory offset byte_count then memory
      else memory\<lparr>g_page_epochs :=
             store_pages (page_of offset) (page_of (offset + byte_count - 1))
               (g_current_epoch memory) (g_page_epochs memory)\<rparr>)"

text \<open>The compare-and-swap loop ends with the epoch it completed; the last epoch is sticky.\<close>

definition avz_guest_memory_advance_dirty_epoch :: "guest_memory \<Rightarrow> u64 \<times> guest_memory" where
  "avz_guest_memory_advance_dirty_epoch memory =
     (let completed = g_current_epoch memory
      in if completed = - 1 then (completed, memory)
         else (completed, memory\<lparr>g_current_epoch := completed + 1\<rparr>))"

definition page_dirty_between :: "guest_memory \<Rightarrow> u64 \<Rightarrow> u64 \<Rightarrow> nat \<Rightarrow> bool" where
  "page_dirty_between memory after_epoch through_epoch page =
     (after_epoch < g_page_epochs memory page \<and> g_page_epochs memory page \<le> through_epoch)"

text \<open>The inner loop: the first page from \<open>page\<close> on that ends the run.\<close>

function dirty_run_end :: "(nat \<Rightarrow> bool) \<Rightarrow> nat \<Rightarrow> nat \<Rightarrow> nat" where
  "dirty_run_end dirty last_page page =
     (if page > last_page then page
      else if dirty page then dirty_run_end dirty last_page (Suc page)
      else page)"
  by pat_completeness auto
termination by (relation "measure (\<lambda>(_, last_page, page). Suc last_page - page)") auto

declare dirty_run_end.simps [simp del]

lemma dirty_run_end_ge: "page \<le> dirty_run_end dirty last_page page"
proof (induction dirty last_page page rule: dirty_run_end.induct)
  case (1 dirty last_page page)
  then show ?case by (subst dirty_run_end.simps) force
qed

text \<open>
  The outer loop with the ranges found so far; \<open>None\<close> when the array is full, where the code
  answers the whole request as one range.
\<close>

function dirty_ranges_loop ::
  "(nat \<Rightarrow> bool) \<Rightarrow> nat \<Rightarrow> nat \<Rightarrow> nat \<Rightarrow> nat \<Rightarrow> nat \<Rightarrow> (nat \<times> nat) list \<Rightarrow> (nat \<times> nat) list option" where
  "dirty_ranges_loop dirty last_page offset requested_end range_capacity page ranges =
     (if page > last_page then Some ranges
      else if \<not> dirty page then
        dirty_ranges_loop dirty last_page offset requested_end range_capacity (Suc page) ranges
      else
        let run_end_page = dirty_run_end dirty last_page (Suc page);
            run_start = push_bit PAGE_SHIFT page;
            run_end = push_bit PAGE_SHIFT run_end_page;
            clipped_start = (if run_start > offset then run_start else offset);
            clipped_end = (if run_end < requested_end then run_end else requested_end)
        in if length ranges = range_capacity then None
           else dirty_ranges_loop dirty last_page offset requested_end range_capacity run_end_page
                  (ranges @ [(clipped_start, clipped_end - clipped_start)]))"
  by pat_completeness auto
termination
  by (relation "measure (\<lambda>(_, last_page, _, _, _, page, _). Suc last_page - page)")
    (auto intro!: diff_less_mono2 simp: less_Suc_eq_le dest: order.trans[OF dirty_run_end_ge]
      intro: less_le_trans[OF lessI dirty_run_end_ge])

declare dirty_ranges_loop.simps [simp del]

definition avz_guest_memory_dirty_ranges ::
  "guest_memory \<Rightarrow> nat \<Rightarrow> nat \<Rightarrow> u64 \<Rightarrow> u64 \<Rightarrow> nat \<Rightarrow> (nat \<times> nat) list" where
  "avz_guest_memory_dirty_ranges memory offset byte_count after_epoch through_epoch range_capacity =
     (if range_capacity = 0 \<or> \<not> in_range memory offset byte_count \<or> through_epoch < after_epoch
      then []
      else
        let requested_end = offset + byte_count
        in case dirty_ranges_loop (page_dirty_between memory after_epoch through_epoch)
                  (page_of (requested_end - 1)) offset requested_end range_capacity
                  (page_of offset) [] of
             None \<Rightarrow> [(offset, byte_count)]
           | Some ranges \<Rightarrow> ranges)"

subsection \<open>Write notifications\<close>

definition note_code_write :: "nat \<Rightarrow> nat \<Rightarrow> guest_memory \<Rightarrow> guest_memory" where
  "note_code_write offset byte_count memory =
     avz_guest_memory_advance_code_mutation_epoch
       (avz_guest_memory_note_page_write_generation offset byte_count memory)"

definition avz_guest_memory_note_write :: "nat \<Rightarrow> nat \<Rightarrow> guest_memory \<Rightarrow> guest_memory" where
  "avz_guest_memory_note_write offset byte_count memory =
     (if \<not> in_range memory offset byte_count then memory
      else
        let touches_code =
              avz_guest_memory_range_may_contain_code memory (word_of_nat offset) byte_count 0;
            memory = avz_guest_memory_mark_dirty offset byte_count memory;
            memory = avz_guest_memory_note_exclusive_write_generation offset byte_count memory
        in if touches_code then note_code_write offset byte_count memory else memory)"

definition avz_guest_memory_note_device_write :: "nat \<Rightarrow> nat \<Rightarrow> guest_memory \<Rightarrow> guest_memory" where
  "avz_guest_memory_note_device_write offset byte_count memory =
     (if \<not> in_range memory offset byte_count then memory
      else
        let memory = avz_guest_memory_note_host_observation offset byte_count memory;
            touches_code =
              avz_guest_memory_range_may_contain_code memory (word_of_nat offset) byte_count 0;
            memory = avz_guest_memory_note_exclusive_write_generation offset byte_count memory
        in if touches_code then note_code_write offset byte_count memory else memory)"

definition avz_guest_memory_dma_write_owned_complete ::
  "nat \<Rightarrow> nat \<Rightarrow> guest_memory \<Rightarrow> guest_memory" where
  "avz_guest_memory_dma_write_owned_complete offset byte_count memory =
     (if \<not> in_range memory offset byte_count then memory
      else
        let memory = avz_guest_memory_note_exclusive_write_generation offset byte_count memory
        in if avz_guest_memory_range_may_contain_code memory (word_of_nat offset) byte_count 0
           then note_code_write offset byte_count memory else memory)"

subsection \<open>Loads and stores\<close>

text \<open>
  The aligned atomic accesses of the code read and write the same little-endian bytes as its
  byte loops; the widths are 1, 2, 4 and 8.
\<close>

definition avz_fast_load :: "(nat \<Rightarrow> u8) \<Rightarrow> nat \<Rightarrow> nat \<Rightarrow> u64" where
  "avz_fast_load bytes address width =
     fold (\<lambda>offset v. v OR shl (ucast (bytes (address + offset))) (offset * 8)) [0 ..< width] 0"

definition avz_fast_store_value :: "nat \<Rightarrow> nat \<Rightarrow> u64 \<Rightarrow> (nat \<Rightarrow> u8) \<Rightarrow> nat \<Rightarrow> u8" where
  "avz_fast_store_value address width v bytes =
     fold (\<lambda>offset bytes. bytes(address + offset := ucast (shr v (offset * 8)))) [0 ..< width] bytes"

definition store_bytes :: "nat \<Rightarrow> u8 list \<Rightarrow> (nat \<Rightarrow> u8) \<Rightarrow> nat \<Rightarrow> u8" where
  "store_bytes address source bytes =
     fold (\<lambda>offset bytes. bytes(address + offset := source ! offset)) [0 ..< length source] bytes"

definition avz_guest_memory_load_u16_acquire :: "guest_memory \<Rightarrow> nat \<Rightarrow> u16 option" where
  "avz_guest_memory_load_u16_acquire memory offset =
     (if offset > g_size memory \<or> 2 > g_size memory - offset \<or> offset mod 2 \<noteq> 0 then None
      else Some (ucast (avz_fast_load (g_bytes memory) offset 2)))"

definition avz_guest_memory_store_u16_release :: "nat \<Rightarrow> u16 \<Rightarrow> guest_memory \<Rightarrow> bool \<times> guest_memory" where
  "avz_guest_memory_store_u16_release offset v memory =
     (if offset > g_size memory \<or> 2 > g_size memory - offset \<or> offset mod 2 \<noteq> 0 then (False, memory)
      else
        let memory = avz_guest_memory_note_write offset 2 memory
        in (True, memory\<lparr>g_bytes := avz_fast_store_value offset 2 (ucast v) (g_bytes memory)\<rparr>))"

definition avz_guest_memory_dma_read_owned :: "guest_memory \<Rightarrow> nat \<Rightarrow> nat \<Rightarrow> u8 list option" where
  "avz_guest_memory_dma_read_owned memory offset byte_count =
     (if \<not> in_range memory offset byte_count then None
      else Some (map (g_bytes memory) [offset ..< offset + byte_count]))"

definition avz_guest_memory_dma_write_owned :: "nat \<Rightarrow> u8 list \<Rightarrow> guest_memory \<Rightarrow> bool \<times> guest_memory" where
  "avz_guest_memory_dma_write_owned offset source memory =
     (if \<not> in_range memory offset (length source) then (False, memory)
      else
        let memory = memory\<lparr>g_bytes := store_bytes offset source (g_bytes memory)\<rparr>
        in (True, avz_guest_memory_dma_write_owned_complete offset (length source) memory))"

subsection \<open>Processor stores\<close>

text \<open>
  Each processor remembers the pages it has already marked in the current epoch in a direct
  mapped table (\<open>dirty_hot\<close> of the fast path) and skips the shared store for them.
\<close>

record dirty_hot_entry =
  d_page :: nat
  d_epoch :: u64
  d_valid :: u8

definition mark_dirty_page ::
  "u64 \<Rightarrow> nat \<Rightarrow> (nat \<Rightarrow> dirty_hot_entry) \<times> guest_memory \<Rightarrow> (nat \<Rightarrow> dirty_hot_entry) \<times> guest_memory" where
  "mark_dirty_page epoch page = (\<lambda>(hot, memory).
     let slot = page mod 4096;
         entry = hot slot
     in if d_valid entry \<noteq> 0 \<and> d_page entry = page \<and> d_epoch entry = epoch then (hot, memory)
        else (hot(slot := \<lparr>d_page = page, d_epoch = epoch, d_valid = 1\<rparr>),
              memory\<lparr>g_page_epochs := (g_page_epochs memory)(page := epoch)\<rparr>))"

text \<open>
  \<open>avz_fast_mark_dirty\<close>; the result says whether a code page was written. The per-page test
  \<open>page_contains_code\<close> asks for one byte at the page's own address.
\<close>

definition avz_fast_mark_dirty ::
  "u64 \<Rightarrow> u64 \<Rightarrow> nat \<Rightarrow> (nat \<Rightarrow> dirty_hot_entry) \<Rightarrow> guest_memory \<Rightarrow>
   bool \<times> (nat \<Rightarrow> dirty_hot_entry) \<times> guest_memory" where
  "avz_fast_mark_dirty ram_base physical byte_count hot memory =
     (case ram_offset physical ram_base of
        None \<Rightarrow> (False, hot, memory)
      | Some offset \<Rightarrow>
          if \<not> in_range memory offset byte_count then (False, hot, memory)
          else
            let first_page = page_of offset;
                last_page = page_of (offset + byte_count - 1);
                epoch = g_current_epoch memory;
                mutated_code = exists_page first_page last_page
                  (\<lambda>page. avz_guest_memory_range_may_contain_code memory
                     (ram_base + push_bit PAGE_SHIFT (word_of_nat page)) 1 ram_base);
                (hot, memory) = for_each first_page last_page (mark_dirty_page epoch) (hot, memory);
                memory = avz_guest_memory_note_exclusive_write_generation offset byte_count memory
            in (mutated_code, hot,
                if mutated_code then note_code_write offset byte_count memory else memory))"

text \<open>
  \<open>avz_fast_store\<close> on RAM that belongs to the guest memory (\<open>host_address\<close> is
  \<open>bytes + (physical_address - ram_base)\<close>); the flag is passed on to the block cache.
\<close>

definition avz_fast_store ::
  "u64 \<Rightarrow> u64 \<Rightarrow> nat \<Rightarrow> u64 \<Rightarrow> (nat \<Rightarrow> dirty_hot_entry) \<Rightarrow> guest_memory \<Rightarrow>
   bool \<times> (nat \<Rightarrow> dirty_hot_entry) \<times> guest_memory" where
  "avz_fast_store ram_base physical width v hot memory =
     (let offset = (case ram_offset physical ram_base of None \<Rightarrow> 0 | Some offset \<Rightarrow> offset)
      in avz_fast_mark_dirty ram_base physical width hot
           (memory\<lparr>g_bytes := avz_fast_store_value offset width v (g_bytes memory)\<rparr>))"

subsection \<open>Exclusive accesses\<close>

definition avz_guest_memory_valid_exclusive_range :: "guest_memory \<Rightarrow> nat \<Rightarrow> nat \<Rightarrow> nat \<Rightarrow> bool" where
  "avz_guest_memory_valid_exclusive_range memory offset width element_count =
     (width \<in> {1, 2, 4, 8} \<and> element_count \<noteq> 0 \<and>
      offset \<le> g_size memory \<and> width * element_count \<le> g_size memory - offset)"

definition avz_guest_memory_exclusive_read ::
  "nat \<Rightarrow> nat \<Rightarrow> guest_memory \<Rightarrow> (u64 \<times> u64) option \<times> guest_memory" where
  "avz_guest_memory_exclusive_read offset width memory =
     (if \<not> avz_guest_memory_valid_exclusive_range memory offset width 1 then (None, memory)
      else
        let memory = avz_guest_memory_note_exclusive_observation offset width memory;
            v = avz_fast_load (g_bytes memory) offset width;
            generation =
              avz_guest_memory_exclusive_write_generation memory (word_of_nat offset) 0 width;
            memory = memory\<lparr>g_exclusive_reads := g_exclusive_reads memory + 1\<rparr>;
            memory = if v \<noteq> 0
              then memory\<lparr>g_exclusive_nonzero_reads := g_exclusive_nonzero_reads memory + 1\<rparr>
              else memory
        in (Some (v, generation), memory))"

definition avz_guest_memory_exclusive_read_pair ::
  "nat \<Rightarrow> nat \<Rightarrow> guest_memory \<Rightarrow> (u64 \<times> u64 \<times> u64) option \<times> guest_memory" where
  "avz_guest_memory_exclusive_read_pair offset width memory =
     (if \<not> avz_guest_memory_valid_exclusive_range memory offset width 2 then (None, memory)
      else
        let byte_count = width * 2;
            memory = avz_guest_memory_note_exclusive_observation offset byte_count memory;
            first = avz_fast_load (g_bytes memory) offset width;
            second = avz_fast_load (g_bytes memory) (offset + width) width;
            generation =
              avz_guest_memory_exclusive_write_generation memory (word_of_nat offset) 0 byte_count;
            memory = memory\<lparr>g_exclusive_reads := g_exclusive_reads memory + 1\<rparr>
        in (Some (first, second, generation), memory))"

text \<open>The answers of a store exclusive: refused, lost to another writer, or done.\<close>

datatype exclusive_result = Invalid | Conflict | Stored

definition avz_guest_memory_exclusive_write ::
  "nat \<Rightarrow> nat \<Rightarrow> u64 \<Rightarrow> u64 \<Rightarrow> guest_memory \<Rightarrow> exclusive_result \<times> guest_memory" where
  "avz_guest_memory_exclusive_write offset width v expected_generation memory =
     (if \<not> avz_guest_memory_valid_exclusive_range memory offset width 1 then (Invalid, memory)
      else if avz_guest_memory_exclusive_write_generation memory (word_of_nat offset) 0 width
                \<noteq> expected_generation then
        (Conflict, memory\<lparr>g_exclusive_write_conflicts := g_exclusive_write_conflicts memory + 1\<rparr>)
      else
        let memory = memory\<lparr>g_bytes := avz_fast_store_value offset width v (g_bytes memory)\<rparr>;
            memory = avz_guest_memory_note_write offset width memory
        in (Stored, memory\<lparr>g_exclusive_write_successes := g_exclusive_write_successes memory + 1\<rparr>))"

definition avz_guest_memory_exclusive_write_pair ::
  "nat \<Rightarrow> nat \<Rightarrow> u64 \<Rightarrow> u64 \<Rightarrow> u64 \<Rightarrow> guest_memory \<Rightarrow> exclusive_result \<times> guest_memory" where
  "avz_guest_memory_exclusive_write_pair offset width first second expected_generation memory =
     (if \<not> avz_guest_memory_valid_exclusive_range memory offset width 2 then (Invalid, memory)
      else if avz_guest_memory_exclusive_write_generation memory (word_of_nat offset) 0 (width * 2)
                \<noteq> expected_generation then
        (Conflict, memory\<lparr>g_exclusive_write_conflicts := g_exclusive_write_conflicts memory + 1\<rparr>)
      else
        let bytes = avz_fast_store_value offset width first (g_bytes memory);
            bytes = avz_fast_store_value (offset + width) width second bytes;
            memory = avz_guest_memory_note_write offset (width * 2) (memory\<lparr>g_bytes := bytes\<rparr>)
        in (Stored, memory\<lparr>g_exclusive_write_successes := g_exclusive_write_successes memory + 1\<rparr>))"

subsection \<open>The loops over pages\<close>

lemma for_each_induct:
  assumes "P s" "\<And>k s. lo \<le> k \<Longrightarrow> k \<le> hi \<Longrightarrow> P s \<Longrightarrow> P (body k s)"
  shows "P (for_each lo hi body s)"
proof -
  have "\<forall>k \<in> set ks. lo \<le> k \<and> k \<le> hi \<Longrightarrow> P s \<Longrightarrow> P (fold body ks s)" for ks s
    by (induction ks arbitrary: s) (auto intro: assms(2))
  then show ?thesis using assms(1) by (simp add: for_each_def less_Suc_eq_le del: upt_Suc)
qed

lemma fold_upd: "fold (\<lambda>k f. f(h k := v)) ks f = (\<lambda>x. if x \<in> h ` set ks then v else f x)"
  by (induction ks arbitrary: f) (auto simp: fun_eq_iff)

lemma store_pages_apply [simp]:
  "store_pages lo hi v f x = (if lo \<le> x \<and> x \<le> hi then v else f x)"
  using fold_upd[of id v "[lo ..< Suc hi]" f] by (auto simp: store_pages_def for_each_def less_Suc_eq_le simp del: upt_Suc)

lemma for_each_upd:
  "for_each lo hi (\<lambda>k f. f(h k := v)) f x = (if \<exists>k. lo \<le> k \<and> k \<le> hi \<and> h k = x then v else f x)"
  by (auto simp: for_each_def fold_upd less_Suc_eq_le simp del: upt_Suc)

lemma exists_page_iff [simp]: "exists_page lo hi p \<longleftrightarrow> (\<exists>k. lo \<le> k \<and> k \<le> hi \<and> p k)"
  by (auto simp: exists_page_def list_ex_iff less_Suc_eq_le simp del: upt_Suc)

lemma or_pages_apply: 
  "or_pages lo hi v f x = (if lo \<le> x \<and> x \<le> hi then f x OR v else f x)"
proof -
  have "fold (\<lambda>k f. f(k := f k OR v)) ks f = (\<lambda>x. if x \<in> set ks then f x OR v else f x)" for ks
    by (induction ks arbitrary: f) (auto simp: fun_eq_iff or.assoc)
  then show ?thesis by (auto simp: or_pages_def for_each_def less_Suc_eq_le simp del: upt_Suc)
qed

text \<open>The bits of a little-endian load.\<close>

lemma bit_fast_load:
  "8 * w \<le> 64 \<Longrightarrow> bit (avz_fast_load b o1 w) n \<longleftrightarrow> n < 8 * w \<and> bit (b (o1 + n div 8)) (n mod 8)"
proof (induction w)
  case (Suc w)
  have "avz_fast_load b o1 (Suc w) = avz_fast_load b o1 w OR shl (ucast (b (o1 + w))) (w * 8)"
    by (simp add: avz_fast_load_def)
  moreover have "n < 8 * w \<or> 8 * w \<le> n \<and> n < 8 * Suc w \<and> n div 8 = w \<and> n mod 8 = n - w * 8 \<or> 8 * Suc w \<le> n"
  proof -
    have "n div 8 = w \<and> n mod 8 = n - w * 8" if "8 * w \<le> n" "n < 8 * Suc w"
    proof -
      from that have "n div 8 = w" by (intro div_nat_eqI) simp_all
      then show ?thesis by (simp add: modulo_nat_def mult.commute)
    qed
    then show ?thesis by linarith
  qed
  ultimately show ?case using Suc
    by (auto simp: bit_or_iff bit_push_bit_iff bit_ucast_iff bit_imp_le_length dest: bit_imp_le_length)
qed (simp add: avz_fast_load_def)

end
