(* ===== verification/ExclusiveMonitor.thy ===== *)
theory ExclusiveMonitor
  imports GuestMemory
begin

text \<open>
  The global exclusive monitor of the guest memory as an interface. A load exclusive arms a
  range and remembers its generation; a store exclusive succeeds only if the generation is
  still the same. The locale states what a monitor promises about any sequence of operations
  on the memory and proves that then no operation in between has touched the range; it is
  interpreted on the operations of \<open>ARM64VizGuestMemory.c\<close>.
\<close>

lemma all_less_Suc_split: "(\<forall>i < Suc n. P i) \<longleftrightarrow> P 0 \<and> (\<forall>i < n. P (Suc i))"
  by (auto simp: less_Suc_eq_0_disj)

subsection \<open>The interface\<close>

locale exclusive_monitor =
  fixes step :: "'op \<Rightarrow> 's \<Rightarrow> 's"
    and room :: "nat \<Rightarrow> 's \<Rightarrow> bool"
    and armed :: "'s \<Rightarrow> 'r \<Rightarrow> bool"
    and generation :: "'s \<Rightarrow> 'r \<Rightarrow> u64"
    and content :: "'s \<Rightarrow> 'r \<Rightarrow> 'v"
    and hits :: "'op \<Rightarrow> 's \<Rightarrow> 'r \<Rightarrow> bool"
  assumes room_step: "room (Suc n) s \<Longrightarrow> room n (step op s)"
    and armed_step: "room (Suc n) s \<Longrightarrow> armed s r \<Longrightarrow> armed (step op s) r"
    and generation_step: "room (Suc n) s \<Longrightarrow> armed s r \<Longrightarrow> generation s r \<le> generation (step op s) r"
    and hit_step: "room (Suc n) s \<Longrightarrow> armed s r \<Longrightarrow> hits op s r \<Longrightarrow>
      generation s r < generation (step op s) r"
    and miss_step: "room (Suc n) s \<Longrightarrow> armed s r \<Longrightarrow> \<not> hits op s r \<Longrightarrow>
      content (step op s) r = content s r"
begin

lemma generation_run:
  "room (length ops) s \<Longrightarrow> armed s r \<Longrightarrow> generation s r \<le> generation (fold step ops s) r"
proof (induction ops arbitrary: s)
  case (Cons op ops)
  then show ?case
    using generation_step[of "length ops" s r op] room_step[of "length ops" s op]
      armed_step[of "length ops" s r op] order.trans by fastforce
qed simp

lemma unchanged_generation:
  "room (length ops) s \<Longrightarrow> armed s r \<Longrightarrow> generation (fold step ops s) r = generation s r \<Longrightarrow>
   (\<forall>i < length ops. \<not> hits (ops ! i) (fold step (take i ops) s) r) \<and>
   content (fold step ops s) r = content s r"
proof (induction ops arbitrary: s)
  case (Cons op ops)
  have r: "room (Suc (length ops)) s" using Cons.prems(1) by simp
  have le: "generation (step op s) r \<le> generation s r"
    using generation_run[OF room_step[OF r, of op] armed_step[OF r Cons.prems(2)]] Cons.prems(3) by simp
  then have nh: "\<not> hits op s r" using hit_step[OF r Cons.prems(2)] by fastforce
  have "generation (step op s) r = generation s r"
    using le generation_step[OF r Cons.prems(2)] by (simp add: order.antisym)
  then show ?case
    using Cons.IH[OF room_step[OF r, of op] armed_step[OF r Cons.prems(2)]] Cons.prems(3)
      nh miss_step[OF r Cons.prems(2) nh] by (simp add: all_less_Suc_split)
qed simp

end

subsection \<open>The write notification in closed form\<close>

text \<open>The ticket that the counter gives next.\<close>

definition next_ticket :: "guest_memory \<Rightarrow> u64" where
  "next_ticket memory = (if g_current_write_generation memory + 1 = 0 then 1
     else g_current_write_generation memory + 1)"

lemma next_ticket: "avz_guest_memory_next_write_generation m =
    (next_ticket m, m\<lparr>g_current_write_generation := next_ticket m\<rparr>)" "next_ticket m \<noteq> 0"
  by (auto simp: avz_guest_memory_next_write_generation_def next_ticket_def Let_def)

definition observed_slot :: "guest_memory \<Rightarrow> nat \<Rightarrow> bool" where
  "observed_slot m granule \<longleftrightarrow> g_exclusive_observations m (avz_guest_memory_exclusive_slot m granule) \<noteq> 0"

text \<open>The state after the granules of the list have been notified with the ticket \<open>t\<close>.\<close>

definition notified :: "nat set \<Rightarrow> guest_memory \<Rightarrow> guest_memory" where
  "notified granules m = (if \<exists>g \<in> granules. observed_slot m g then
     m\<lparr>g_current_write_generation := next_ticket m,
       g_exclusive_write_generations := (\<lambda>x. if \<exists>g \<in> granules. observed_slot m g \<and>
            avz_guest_memory_exclusive_slot m g = x then next_ticket m
          else g_exclusive_write_generations m x)\<rparr> else m)"

lemma slot_cong: "g_exclusive_slot_mask m = g_exclusive_slot_mask m' \<Longrightarrow>
   avz_guest_memory_exclusive_slot m = avz_guest_memory_exclusive_slot m'"
  by (simp add: avz_guest_memory_exclusive_slot_def fun_eq_iff Let_def)

lemma fold_note_granule_write:
  "fold note_granule_write gs (0, m) =
    (if \<exists>g \<in> set gs. observed_slot m g then next_ticket m else 0, notified (set gs) m)"
proof (induction gs rule: rev_induct)
  case (snoc g gs)
  have [simp]: "avz_guest_memory_exclusive_slot (notified (set gs) m) = avz_guest_memory_exclusive_slot m"
    by (rule slot_cong) (simp add: notified_def)
  have [simp]: "g_exclusive_observations (notified (set gs) m) = g_exclusive_observations m"
    by (simp add: notified_def)
  have n: "notified (set (gs @ [g])) m =
    (if observed_slot m g then
       (let m' = (if \<exists>g \<in> set gs. observed_slot m g then notified (set gs) m
                  else m\<lparr>g_current_write_generation := next_ticket m\<rparr>)
        in m'\<lparr>g_exclusive_write_generations := (g_exclusive_write_generations m')
               (avz_guest_memory_exclusive_slot m g := next_ticket m)\<rparr>)
     else notified (set gs) m)"
    by (auto simp: notified_def Let_def fun_eq_iff)
  have nn: "\<not> (\<exists>g \<in> set gs. observed_slot m g) \<Longrightarrow> notified (set gs) m = m" by (simp add: notified_def)
  show ?case
  proof (cases "observed_slot m g")
    case True
    then show ?thesis using snoc nn unfolding n
      by (cases "\<exists>g \<in> set gs. observed_slot m g")
        (simp_all add: note_granule_write_def Let_def next_ticket observed_slot_def)
  next
    case False
    then show ?thesis using snoc unfolding n
      by (simp add: note_granule_write_def Let_def observed_slot_def)
  qed
qed (simp add: notified_def)

lemma notified_simps [simp]:
  "g_bytes (notified G m) = g_bytes m" "g_size (notified G m) = g_size m"
  "g_page_epochs (notified G m) = g_page_epochs m" "g_exclusive_observations (notified G m) = g_exclusive_observations m"
  "g_page_exclusive_observation_epochs (notified G m) = g_page_exclusive_observation_epochs m"
  "g_exclusive_slot_mask (notified G m) = g_exclusive_slot_mask m"
  "g_code_page_bits (notified G m) = g_code_page_bits m"
  "g_current_epoch (notified G m) = g_current_epoch m"
  by (simp_all add: notified_def)

text \<open>The granules of a range that lie in pages with an exclusive observer.\<close>

definition watched_granules :: "guest_memory \<Rightarrow> nat \<Rightarrow> nat \<Rightarrow> nat set" where
  "watched_granules m offset byte_count = {g. granule_of offset \<le> g \<and> g \<le> granule_of (offset + byte_count - 1) \<and>
     g_page_exclusive_observation_epochs m (g div 256) \<noteq> 0}"

lemma fold_note_pages:
  fixes gran :: "nat \<Rightarrow> nat list"
  shows "fold (\<lambda>page s. if g_page_exclusive_observation_epochs (snd s) page = 0 then s
      else fold note_granule_write (gran page) s) pages (0, m) =
    fold note_granule_write (concat (map (\<lambda>page. if g_page_exclusive_observation_epochs m page = 0 then []
      else gran page) pages)) (0, m)"
proof (induction pages rule: rev_induct)
  case (snoc page pages)
  show ?case using snoc by (simp add: fold_note_granule_write del: fold_simps)
qed simp

lemma note_exclusive_closed:
  assumes "in_range m offset byte_count"
  shows "avz_guest_memory_note_exclusive_write_generation offset byte_count m =
    notified (watched_granules m offset byte_count) m"
proof -
  let ?f = "granule_of offset" and ?l = "granule_of (offset + byte_count - 1)"
  let ?gran = "\<lambda>page. [max ?f (page * 256) ..< Suc (min ?l (page * 256 + 255))]"
  let ?gs = "concat (map (\<lambda>page. if g_page_exclusive_observation_epochs m page = 0 then []
      else ?gran page) [?f div 256 ..< Suc (?l div 256)])"
  have s: "set ?gs = watched_granules m offset byte_count"
  proof (intro set_eqI iffI)
    fix g assume "g \<in> set ?gs"
    then obtain page where p: "g_page_exclusive_observation_epochs m page \<noteq> 0"
      "max ?f (page * 256) \<le> g" "g \<le> min ?l (page * 256 + 255)"
      by (auto simp: less_Suc_eq_le simp del: upt_Suc split: if_splits)
    then have "g div 256 = page" by (intro div_nat_eqI) simp_all
    then show "g \<in> watched_granules m offset byte_count" using p by (auto simp: watched_granules_def)
  next
    fix g assume g: "g \<in> watched_granules m offset byte_count"
    then have "g div 256 \<in> set [?f div 256 ..< Suc (?l div 256)]"
      by (auto simp: watched_granules_def less_Suc_eq_le div_le_mono simp del: upt_Suc)
    moreover have "g \<in> set (?gran (g div 256))"
      using g by (auto simp: watched_granules_def less_Suc_eq_le simp del: upt_Suc)
    ultimately show "g \<in> set ?gs" using g 
      unfolding set_concat set_map by (intro UN_I[OF imageI]) (auto simp: watched_granules_def simp del: upt_Suc)
  qed
  have "avz_guest_memory_note_exclusive_write_generation offset byte_count m =
     snd (fold note_granule_write ?gs (0, m))"
    using assms unfolding avz_guest_memory_note_exclusive_write_generation_def Let_def for_each_def note_page_granules_def
    by (simp add: fold_note_pages del: upt_Suc)
  then show ?thesis unfolding fold_note_granule_write s by simp
qed

subsection \<open>Write generations only grow\<close>

definition max_over :: "nat \<Rightarrow> nat \<Rightarrow> (nat \<Rightarrow> u64) \<Rightarrow> u64" where
  "max_over lo hi f = for_each lo hi (\<lambda>k acc. let c = f k in if c > acc then c else acc) 0"

lemma max_over_bounds:
  "(\<And>k. lo \<le> k \<Longrightarrow> k \<le> hi \<Longrightarrow> f k \<le> t) \<Longrightarrow> max_over lo hi f \<le> t"
  "lo \<le> k \<Longrightarrow> k \<le> hi \<Longrightarrow> f k \<le> max_over lo hi f"
proof -
  have u: "\<forall>k \<in> set ks. f k \<le> t \<Longrightarrow> acc \<le> t \<Longrightarrow> fold (\<lambda>k acc. let c = f k in if c > acc then c else acc) ks acc \<le> t" for ks acc t
    by (induction ks arbitrary: acc) (auto simp: Let_def)
  have m: "acc \<le> fold (\<lambda>k acc. let c = f k in if c > acc then c else acc) ks acc" for ks acc
  proof (induction ks arbitrary: acc)
    case (Cons k ks)
    from Cons[of "if f k > acc then f k else acc"] show ?case by (auto simp: Let_def)
  qed simp
  have l: "k \<in> set ks \<Longrightarrow> f k \<le> fold (\<lambda>k acc. let c = f k in if c > acc then c else acc) ks acc" for ks acc
  proof (induction ks arbitrary: acc)
    case (Cons j ks)
    let ?a = "if f j > acc then f j else acc"
    have "f j \<le> fold (\<lambda>k acc. let c = f k in if c > acc then c else acc) ks ?a"
      by (rule order.trans[OF _ m]) (simp add: not_less)
    then show ?case using Cons.prems Cons.IH[of ?a] by (cases "k = j") (simp_all add: Let_def)
  qed simp
  show "(\<And>k. lo \<le> k \<Longrightarrow> k \<le> hi \<Longrightarrow> f k \<le> t) \<Longrightarrow> max_over lo hi f \<le> t"
    unfolding max_over_def for_each_def by (rule u) (auto simp: less_Suc_eq_le simp del: upt_Suc)
  show "lo \<le> k \<Longrightarrow> k \<le> hi \<Longrightarrow> f k \<le> max_over lo hi f"
    unfolding max_over_def for_each_def by (rule l) (auto simp: less_Suc_eq_le simp del: upt_Suc)
qed

lemma ram_offset_0: "offset < 2 ^ 64 \<Longrightarrow> ram_offset (word_of_nat offset) 0 = Some offset"
  by (simp add: ram_offset_def unsigned_of_nat take_bit_nat_eq_self)

lemma exclusive_generation_max:
  "in_range m offset byte_count \<Longrightarrow> g_size m < 2 ^ 64 \<Longrightarrow>
   avz_guest_memory_exclusive_write_generation m (word_of_nat offset) 0 byte_count =
   max_over (granule_of offset) (granule_of (offset + byte_count - 1))
     (\<lambda>g. g_exclusive_write_generations m (avz_guest_memory_exclusive_slot m g))"
  unfolding avz_guest_memory_exclusive_write_generation_def max_over_def Let_def
  by (subst ram_offset_0) (auto simp: in_range_def)

text \<open>No ticket has been drawn twice, and the counter has room for \<open>k\<close> more.\<close>

definition tickets :: "nat \<Rightarrow> guest_memory \<Rightarrow> bool" where
  "tickets k m \<longleftrightarrow> (\<forall>x. g_exclusive_write_generations m x \<le> g_current_write_generation m) \<and>
     unat (g_current_write_generation m) + k < 2 ^ 64 \<and> g_size m < 2 ^ 64"

definition watched :: "guest_memory \<Rightarrow> nat \<Rightarrow> bool" where
  "watched m g \<longleftrightarrow> observed_slot m g \<and> g_page_exclusive_observation_epochs m (g div 256) \<noteq> 0"

text \<open>
  An operation that may write the bytes \<open>W\<close> and draws at most \<open>k\<close> tickets: what it may do to
  the monitor. Each written granule that is watched gets a ticket above all earlier ones.
\<close>

definition advances :: "nat \<Rightarrow> nat set \<Rightarrow> guest_memory \<Rightarrow> guest_memory \<Rightarrow> bool" where
  "advances k W m m' \<longleftrightarrow>
     (\<forall>a. a \<notin> W \<longrightarrow> g_bytes m' a = g_bytes m a) \<and>
     g_size m' = g_size m \<and> g_exclusive_slot_mask m' = g_exclusive_slot_mask m \<and>
     (\<forall>x. g_exclusive_observations m x \<noteq> 0 \<longrightarrow> g_exclusive_observations m' x \<noteq> 0) \<and>
     (\<forall>p. g_page_exclusive_observation_epochs m p \<noteq> 0 \<longrightarrow> g_page_exclusive_observation_epochs m' p \<noteq> 0) \<and>
     g_current_write_generation m \<le> g_current_write_generation m' \<and>
     unat (g_current_write_generation m') \<le> unat (g_current_write_generation m) + k \<and>
     (\<forall>x. g_exclusive_write_generations m x \<le> g_exclusive_write_generations m' x \<and>
          g_exclusive_write_generations m' x \<le> g_current_write_generation m') \<and>
     (\<forall>a \<in> W. watched m (granule_of a) \<longrightarrow> g_current_write_generation m <
        g_exclusive_write_generations m' (avz_guest_memory_exclusive_slot m (granule_of a)))"

lemma advances_refl: "tickets k m \<Longrightarrow> advances 0 {} m m"
  by (simp add: advances_def tickets_def)

lemma advances_trans:
  "advances k V m m' \<Longrightarrow> advances j W m' m'' \<Longrightarrow> advances (k + j) (V \<union> W) m m''"
proof -
  assume a: "advances k V m m'" and b: "advances j W m' m''"
  have s: "avz_guest_memory_exclusive_slot m' = avz_guest_memory_exclusive_slot m"
    using a by (intro slot_cong) (simp add: advances_def)
  have w: "watched m g \<Longrightarrow> watched m' g" for g
    using a by (auto simp: watched_def observed_slot_def advances_def s)
  show ?thesis unfolding advances_def
    using a b w unfolding advances_def s by (intro conjI allI ballI impI) (fastforce intro: order.trans le_less_trans less_le_trans)+
qed

lemma advances_tickets: "advances k W m m' \<Longrightarrow> tickets (k + j) m \<Longrightarrow> tickets j m'"
  by (auto simp: advances_def tickets_def)


lemma advances_bytes:
  "advances k W m m' \<Longrightarrow> (\<And>a. a \<notin> W \<Longrightarrow> b a = g_bytes m a) \<Longrightarrow> advances k W m (m'\<lparr>g_bytes := b\<rparr>)"
  by (auto simp: advances_def avz_guest_memory_exclusive_slot_def Let_def)

text \<open>The operations that touch neither the bytes nor the monitor.\<close>

definition same_monitor :: "guest_memory \<Rightarrow> guest_memory \<Rightarrow> bool" where
  "same_monitor m m' \<longleftrightarrow> g_bytes m' = g_bytes m \<and> g_size m' = g_size m \<and>
     g_exclusive_slot_mask m' = g_exclusive_slot_mask m \<and>
     g_exclusive_observations m' = g_exclusive_observations m \<and>
     g_page_exclusive_observation_epochs m' = g_page_exclusive_observation_epochs m \<and>
     g_current_write_generation m' = g_current_write_generation m \<and>
     g_exclusive_write_generations m' = g_exclusive_write_generations m"

lemma same_advances: "same_monitor m m' \<Longrightarrow> tickets k m \<Longrightarrow> advances 0 {} m m'"
  by (auto simp: same_monitor_def advances_def tickets_def)

lemma same_monitor_ops:
  "same_monitor m (avz_guest_memory_note_host_observation o1 n m)"
  "same_monitor m (avz_guest_memory_note_bulk_read o1 n m)"
  "same_monitor m (avz_guest_memory_mark_code_page p b m)"
  "same_monitor m (avz_guest_memory_mark_dirty o1 n m)"
  "same_monitor m (snd (avz_guest_memory_advance_dirty_epoch m))"
  "same_monitor m (avz_guest_memory_advance_code_mutation_epoch m)"
  by (auto simp: same_monitor_def avz_guest_memory_note_host_observation_def avz_guest_memory_note_bulk_read_def
    avz_guest_memory_mark_code_page_def avz_guest_memory_mark_dirty_def avz_guest_memory_advance_dirty_epoch_def
    avz_guest_memory_advance_code_mutation_epoch_def Let_def split: option.splits)

lemma next_ticket_grows: "tickets (Suc k) m \<Longrightarrow> next_ticket m = g_current_write_generation m + 1 \<and>
   unat (next_ticket m) = Suc (unat (g_current_write_generation m))"
proof -
  assume "tickets (Suc k) m"
  then have "unat (g_current_write_generation m) + 1 < 2 ^ 64" by (simp add: tickets_def)
  then have u: "unat (g_current_write_generation m + 1) = Suc (unat (g_current_write_generation m))"
    by (simp add: unat_word_ariths)
  then have "g_current_write_generation m + 1 \<noteq> 0" by (metis nat.simps(3) unsigned_0)
  then show ?thesis using u by (simp add: next_ticket_def)
qed

lemma note_page_generation_advances:
  assumes "tickets (Suc k) m"
  shows "advances 1 {} m (avz_guest_memory_note_page_write_generation o1 n m)"
  using assms next_ticket_grows[OF assms]
  by (auto simp: advances_def avz_guest_memory_note_page_write_generation_def next_ticket Let_def tickets_def
      word_le_nat_alt le_SucI)

lemma note_code_write_advances:
  assumes "tickets (Suc k) m"
  shows "advances 1 {} m (note_code_write o1 n m)"
  using advances_trans[OF note_page_generation_advances[OF assms]
      same_advances[OF same_monitor_ops(6) advances_tickets[OF note_page_generation_advances[OF assms]]]] assms
  by (auto simp: note_code_write_def)

definition byte_range :: "nat \<Rightarrow> nat \<Rightarrow> nat set" where
  "byte_range offset n = {offset ..< offset + n}"

lemma note_exclusive_advances:
  assumes "tickets (Suc k) m"
  shows "advances 1 (if in_range m o1 n then byte_range o1 n else {}) m
    (avz_guest_memory_note_exclusive_write_generation o1 n m)"
proof (cases "in_range m o1 n")
  case True
  have w: "granule_of a \<in> watched_granules m o1 n" if "a \<in> byte_range o1 n" "watched m (granule_of a)" for a
    using that by (auto simp: watched_granules_def byte_range_def watched_def drop_bit_eq_div div_le_mono)
  note t = next_ticket_grows[OF assms]
  have less: "g_current_write_generation m < next_ticket m" using t unfolding word_less_nat_alt by linarith
  have "avz_guest_memory_exclusive_slot (notified G m) = avz_guest_memory_exclusive_slot m" for G
    by (rule slot_cong) simp
  moreover have "advances 1 (byte_range o1 n) m (notified (watched_granules m o1 n) m)"
    unfolding advances_def
    using assms t less w by (auto simp: notified_def tickets_def watched_def word_le_nat_alt le_SucI)
  ultimately show ?thesis using True by (simp add: note_exclusive_closed)
next
  case False
  then show ?thesis using same_advances[of m m, OF _ assms]
    by (auto simp: avz_guest_memory_note_exclusive_write_generation_def same_monitor_def advances_def)
qed

subsection \<open>The operations on the guest memory\<close>

text \<open>
  Everything that processors and devices do to the shared memory. A processor's store comes
  with its own table of marked pages, in whatever state it is.
\<close>

datatype memory_op =
    Exclusive_Read nat nat
  | Exclusive_Read_Pair nat nat
  | Exclusive_Write nat nat u64 u64
  | Exclusive_Write_Pair nat nat u64 u64 u64
  | Cpu_Store "nat \<Rightarrow> dirty_hot_entry" nat nat u64
  | Store_U16 nat u16
  | Dma_Write nat "u8 list"
  | Note_Write nat nat
  | Note_Device_Write nat nat
  | Note_Bulk_Read nat nat
  | Mark_Dirty nat nat
  | Mark_Code_Page u64 u64
  | Advance_Dirty_Epoch

fun memory_step :: "memory_op \<Rightarrow> guest_memory \<Rightarrow> guest_memory" where
  "memory_step (Exclusive_Read offset width) m = snd (avz_guest_memory_exclusive_read offset width m)"
| "memory_step (Exclusive_Read_Pair offset width) m =
     snd (avz_guest_memory_exclusive_read_pair offset width m)"
| "memory_step (Exclusive_Write offset width v g) m =
     snd (avz_guest_memory_exclusive_write offset width v g m)"
| "memory_step (Exclusive_Write_Pair offset width v v' g) m =
     snd (avz_guest_memory_exclusive_write_pair offset width v v' g m)"
| "memory_step (Cpu_Store hot offset width v) m =
     (if in_range m offset width then snd (snd (avz_fast_store 0 (word_of_nat offset) width v hot m)) else m)"
| "memory_step (Store_U16 offset v) m = snd (avz_guest_memory_store_u16_release offset v m)"
| "memory_step (Dma_Write offset source) m = snd (avz_guest_memory_dma_write_owned offset source m)"
| "memory_step (Note_Write offset n) m = avz_guest_memory_note_write offset n m"
| "memory_step (Note_Device_Write offset n) m = avz_guest_memory_note_device_write offset n m"
| "memory_step (Note_Bulk_Read offset n) m = avz_guest_memory_note_bulk_read offset n m"
| "memory_step (Mark_Dirty offset n) m = avz_guest_memory_mark_dirty offset n m"
| "memory_step (Mark_Code_Page page base) m = avz_guest_memory_mark_code_page page base m"
| "memory_step Advance_Dirty_Epoch m = snd (avz_guest_memory_advance_dirty_epoch m)"

definition range_of :: "guest_memory \<Rightarrow> nat \<Rightarrow> nat \<Rightarrow> nat set" where
  "range_of m offset n = (if in_range m offset n then byte_range offset n else {})"

text \<open>The bytes an operation writes, or that it announces as written.\<close>

fun written :: "memory_op \<Rightarrow> guest_memory \<Rightarrow> nat set" where
  "written (Exclusive_Write offset width v g) m =
     (if fst (avz_guest_memory_exclusive_write offset width v g m) = Stored
      then range_of m offset width else {})"
| "written (Exclusive_Write_Pair offset width v v' g) m =
     (if fst (avz_guest_memory_exclusive_write_pair offset width v v' g m) = Stored
      then range_of m offset (width * 2) else {})"
| "written (Cpu_Store hot offset width v) m = range_of m offset width"
| "written (Store_U16 offset v) m =
     (if fst (avz_guest_memory_store_u16_release offset v m) then range_of m offset 2 else {})"
| "written (Dma_Write offset source) m = range_of m offset (length source)"
| "written (Note_Write offset n) m = range_of m offset n"
| "written (Note_Device_Write offset n) m = range_of m offset n"
| "written _ m = {}"

end
