(* ===== verification/ExclusiveAtomicity.thy ===== *)
theory ExclusiveAtomicity
  imports ExclusiveMonitor
begin

text \<open>
  Every operation on the guest memory advances the exclusive monitor: it keeps what has been
  observed and moves the generation of each observed granule it writes. So the memory is an
  instance of the monitor interface, and a store exclusive that succeeds is atomic.
\<close>

subsection \<open>Every operation advances the monitor\<close>


lemma store_value_outside: "a \<notin> byte_range address width \<Longrightarrow> avz_fast_store_value address width v b a = b a"
proof -
  have "\<forall>k \<in> set ks. k < width \<Longrightarrow> a \<notin> byte_range address width \<Longrightarrow>
    fold (\<lambda>offset b. b(address + offset := f offset)) ks b a = b a" for ks f
    by (induction ks arbitrary: b) (auto simp: byte_range_def)
  from this[of "[0 ..< width]"] show "a \<notin> byte_range address width \<Longrightarrow> avz_fast_store_value address width v b a = b a"
    by (simp add: avz_fast_store_value_def)
qed

lemma store_bytes_outside: "a \<notin> byte_range address (length bs) \<Longrightarrow> store_bytes address bs b a = b a"
proof -
  have "\<forall>k \<in> set ks. k < length bs \<Longrightarrow> a \<notin> byte_range address (length bs) \<Longrightarrow>
    fold (\<lambda>offset b. b(address + offset := f offset)) ks b a = b a" for ks f
    by (induction ks arbitrary: b) (auto simp: byte_range_def)
  from this[of "[0 ..< length bs]"] show "a \<notin> byte_range address (length bs) \<Longrightarrow> store_bytes address bs b a = b a"
    by (simp add: store_bytes_def)
qed

lemma advances_mono: "advances k W m m' \<Longrightarrow> k \<le> j \<Longrightarrow> advances j W m m'"
  by (auto simp: advances_def)

lemma advances_comp:
  assumes "advances k V m m'" "tickets (k + j) m" "tickets j m' \<Longrightarrow> advances i W m' m''"
  shows "advances (k + i) (V \<union> W) m m''"
  by (rule advances_trans[OF assms(1) assms(3)[OF advances_tickets[OF assms(1,2)]]])

text \<open>The common tail of the notifications: the monitor, then the code bookkeeping if needed.\<close>

lemma notify_advances:
  assumes "tickets 2 m"
  shows "advances 2 (range_of m o1 n) m
    (let m' = avz_guest_memory_note_exclusive_write_generation o1 n m
     in if b m' then note_code_write o2 n2 m' else m')"
proof -
  let ?m = "avz_guest_memory_note_exclusive_write_generation o1 n m"
  have a: "advances 1 (range_of m o1 n) m ?m"
    unfolding range_of_def using assms by (intro note_exclusive_advances[of 1]) (simp add: numeral_2_eq_2)
  have t: "tickets (Suc 0) ?m" using advances_tickets[OF a, of 1] assms by (simp add: numeral_2_eq_2)
  have "advances (1 + 1) (range_of m o1 n \<union> {}) m (note_code_write o2 n2 ?m)"
    by (rule advances_trans[OF a note_code_write_advances[OF t]])
  then show ?thesis using advances_mono[OF a, of 2] by (simp add: Let_def numeral_2_eq_2)
qed

lemma advances_same:
  assumes "same_monitor m m'" "tickets k m" "tickets k m' \<Longrightarrow> advances j W m' m''"
  shows "advances j W m m''"
  using advances_trans[OF same_advances[OF assms(1,2)] assms(3)] advances_tickets[OF same_advances[OF assms(1,2)], of k] assms(2)
  by simp

lemma range_of_cong: "g_size m = g_size m' \<Longrightarrow> range_of m = range_of m'"
  by (auto simp: range_of_def in_range_def fun_eq_iff)

lemma note_write_advances:
  assumes "tickets 2 m"
  shows "advances 2 (range_of m o1 n) m (avz_guest_memory_note_write o1 n m)"
proof (cases "in_range m o1 n")
  case True
  let ?d = "avz_guest_memory_mark_dirty o1 n m"
  have r: "range_of ?d = range_of m"
    using same_monitor_ops(4)[of m o1 n] by (intro range_of_cong) (simp add: same_monitor_def)
  show ?thesis
    by (rule advances_same[OF same_monitor_ops(4)[of m o1 n] assms])
      (use True notify_advances[of ?d o1 n "\<lambda>_. avz_guest_memory_range_may_contain_code m (word_of_nat o1) n 0" o1 n]
       in \<open>simp add: avz_guest_memory_note_write_def Let_def r\<close>)
next
  case False
  then show ?thesis using advances_mono[OF advances_refl[OF assms], of 2]
    by (simp add: avz_guest_memory_note_write_def range_of_def)
qed

lemma note_device_write_advances:
  assumes "tickets 2 m"
  shows "advances 2 (range_of m o1 n) m (avz_guest_memory_note_device_write o1 n m)"
proof (cases "in_range m o1 n")
  case True
  let ?d = "avz_guest_memory_note_host_observation o1 n m"
  have r: "range_of ?d = range_of m"
    using same_monitor_ops(1)[of m o1 n] by (intro range_of_cong) (simp add: same_monitor_def)
  show ?thesis
    by (rule advances_same[OF same_monitor_ops(1)[of m o1 n] assms])
      (use True notify_advances[of ?d o1 n "\<lambda>_. avz_guest_memory_range_may_contain_code ?d (word_of_nat o1) n 0" o1 n]
       in \<open>simp add: avz_guest_memory_note_device_write_def Let_def r\<close>)
next
  case False
  then show ?thesis using advances_mono[OF advances_refl[OF assms], of 2]
    by (simp add: avz_guest_memory_note_device_write_def range_of_def)
qed

lemma dma_complete_advances:
  assumes "tickets 2 m"
  shows "advances 2 (range_of m o1 n) m (avz_guest_memory_dma_write_owned_complete o1 n m)"
proof (cases "in_range m o1 n")
  case True
  then show ?thesis
    using notify_advances[OF assms, of o1 n "\<lambda>m. avz_guest_memory_range_may_contain_code m (word_of_nat o1) n 0" o1 n]
    by (simp add: avz_guest_memory_dma_write_owned_complete_def)
next
  case False
  then show ?thesis using advances_mono[OF advances_refl[OF assms], of 2]
    by (simp add: avz_guest_memory_dma_write_owned_complete_def range_of_def)
qed

text \<open>Writing the bytes of the range first makes no difference to the monitor.\<close>

lemma advances_bytes_first:
  assumes "advances k W (m\<lparr>g_bytes := b\<rparr>) m'" "\<And>a. a \<notin> W \<Longrightarrow> b a = g_bytes m a"
  shows "advances k W m m'"
proof -
  have "avz_guest_memory_exclusive_slot (m\<lparr>g_bytes := b\<rparr>) = avz_guest_memory_exclusive_slot m"
    by (rule slot_cong) simp
  then show ?thesis using assms by (auto simp: advances_def watched_def observed_slot_def)
qed

lemma tickets_bytes [simp]: "tickets k (m\<lparr>g_bytes := b\<rparr>) = tickets k m" by (simp add: tickets_def)
lemma range_of_bytes [simp]: "range_of (m\<lparr>g_bytes := b\<rparr>) = range_of m" by (rule range_of_cong) simp

lemma mark_dirty_pages_same:
  "same_monitor m (snd (for_each lo hi (mark_dirty_page e) (hot, m)))"
proof (rule for_each_induct[where P = "\<lambda>s. same_monitor m (snd s)"])
  fix k and s :: "(nat \<Rightarrow> dirty_hot_entry) \<times> guest_memory" assume "same_monitor m (snd s)"
  then show "same_monitor m (snd (mark_dirty_page e k s))"
    by (cases s) (simp add: mark_dirty_page_def same_monitor_def Let_def)
qed (simp add: same_monitor_def)

lemma fast_mark_dirty_advances:
  assumes "tickets 2 m" "in_range m o1 n"
  shows "advances 2 (range_of m o1 n) m (snd (snd (avz_fast_mark_dirty 0 (word_of_nat o1) n hot m)))"
proof -
  obtain hot' d where d: "for_each (page_of o1) (page_of (o1 + n - 1)) (mark_dirty_page (g_current_epoch m)) (hot, m) = (hot', d)"
    by fastforce
  have s: "same_monitor m d" by (metis mark_dirty_pages_same d snd_conv)
  have r: "range_of d = range_of m" using s by (intro range_of_cong) (simp add: same_monitor_def)
  have o: "o1 < 2 ^ 64" using assms by (auto simp: tickets_def in_range_def)
  show ?thesis
  proof (rule advances_same[OF s assms(1)])
    assume "tickets 2 d"
    then show "advances 2 (range_of m o1 n) d (snd (snd (avz_fast_mark_dirty 0 (word_of_nat o1) n hot m)))"
      using notify_advances[of d o1 n "\<lambda>_. b" o1 n for b] assms(2) d r
      by (simp add: avz_fast_mark_dirty_def ram_offset_0[OF o] Let_def)
  qed
qed

lemma note_observation_advances:
  assumes "tickets k m"
  shows "advances 0 {} m (avz_guest_memory_note_exclusive_observation o1 n m)"
  using assms by (auto simp: advances_def avz_guest_memory_note_exclusive_observation_def Let_def tickets_def for_each_upd)


lemma valid_exclusive_in_range:
  "avz_guest_memory_valid_exclusive_range m o1 w c \<Longrightarrow> in_range m o1 (w * c)"
  by (auto simp: avz_guest_memory_valid_exclusive_range_def in_range_def)

lemma exclusive_read_advances:
  assumes "tickets k m"
  shows "advances 0 {} m (snd (avz_guest_memory_exclusive_read o1 w m))"
    "advances 0 {} m (snd (avz_guest_memory_exclusive_read_pair o1 w m))"
  using note_observation_advances[OF assms, of o1 w] note_observation_advances[OF assms, of o1 "w * 2"]
    advances_refl[OF assms]
  by (auto simp: avz_guest_memory_exclusive_read_def avz_guest_memory_exclusive_read_pair_def Let_def
    advances_def avz_guest_memory_exclusive_slot_def)

lemma advances_statistics:
  "advances k W m m' \<Longrightarrow> advances k W m (m'\<lparr>g_exclusive_write_successes := c\<rparr>)"
  "advances k W m m' \<Longrightarrow> advances k W m (m'\<lparr>g_exclusive_write_conflicts := c\<rparr>)"
  by (auto simp: advances_def avz_guest_memory_exclusive_slot_def Let_def)

lemma exclusive_write_advances:
  assumes "tickets 2 m"
  shows "advances 2 (written (Exclusive_Write o1 w v g) m) m (snd (avz_guest_memory_exclusive_write o1 w v g m))"
proof -
  note idle = advances_mono[OF advances_refl[OF assms], of 2]
  let ?b = "avz_fast_store_value o1 w v (g_bytes m)"
  have "advances 2 (range_of m o1 w) m (avz_guest_memory_note_write o1 w (m\<lparr>g_bytes := ?b\<rparr>))"
    if "avz_guest_memory_valid_exclusive_range m o1 w 1"
    using note_write_advances[of "m\<lparr>g_bytes := ?b\<rparr>" o1 w] assms valid_exclusive_in_range[OF that]
    by - (rule advances_bytes_first[where b = ?b], auto simp: range_of_def store_value_outside)
  then show ?thesis
    using idle advances_statistics by (auto simp: avz_guest_memory_exclusive_write_def Let_def)
qed

lemma exclusive_write_pair_advances:
  assumes "tickets 2 m"
  shows "advances 2 (written (Exclusive_Write_Pair o1 w v v' g) m) m
    (snd (avz_guest_memory_exclusive_write_pair o1 w v v' g m))"
proof -
  note idle = advances_mono[OF advances_refl[OF assms], of 2]
  let ?b = "avz_fast_store_value (o1 + w) w v' (avz_fast_store_value o1 w v (g_bytes m))"
  have o: "a \<notin> byte_range o1 (w * 2) \<Longrightarrow> ?b a = g_bytes m a" for a
  proof -
    assume "a \<notin> byte_range o1 (w * 2)"
    then have "a \<notin> byte_range (o1 + w) w" "a \<notin> byte_range o1 w" by (auto simp: byte_range_def)
    then show ?thesis by (simp add: store_value_outside)
  qed
  have "advances 2 (range_of m o1 (w * 2)) m (avz_guest_memory_note_write o1 (w * 2) (m\<lparr>g_bytes := ?b\<rparr>))"
    if "avz_guest_memory_valid_exclusive_range m o1 w 2"
    using note_write_advances[of "m\<lparr>g_bytes := ?b\<rparr>" o1 "w * 2"] assms valid_exclusive_in_range[OF that] o
    by - (rule advances_bytes_first[where b = ?b], auto simp: range_of_def)
  then show ?thesis
    using idle advances_statistics by (auto simp: avz_guest_memory_exclusive_write_pair_def Let_def)
qed

lemma note_write_bytes: "g_bytes (avz_guest_memory_note_write o1 n m) = g_bytes m"
proof -
  have "g_bytes (avz_guest_memory_note_exclusive_write_generation o1 n m) = g_bytes m" for m
  proof (cases "in_range m o1 n")
    case True
    then show ?thesis by (simp add: note_exclusive_closed)
  next
    case False
    then show ?thesis by (auto simp: avz_guest_memory_note_exclusive_write_generation_def)
  qed
  moreover have "g_bytes (note_code_write o1 n m) = g_bytes m" for m
    by (simp add: note_code_write_def avz_guest_memory_advance_code_mutation_epoch_def
      avz_guest_memory_note_page_write_generation_def next_ticket Let_def)
  ultimately show ?thesis
    by (simp add: avz_guest_memory_note_write_def avz_guest_memory_mark_dirty_def Let_def)
qed

lemma store_u16_advances:
  assumes "tickets 2 m"
  shows "advances 2 (written (Store_U16 o1 v) m) m (snd (avz_guest_memory_store_u16_release o1 v m))"
proof (cases "fst (avz_guest_memory_store_u16_release o1 v m)")
  case True
  then have "in_range m o1 2"
    by (auto simp: avz_guest_memory_store_u16_release_def in_range_def split: if_splits)
  then show ?thesis using True note_write_advances[OF assms, of o1 2]
    by (auto simp: avz_guest_memory_store_u16_release_def Let_def range_of_def store_value_outside note_write_bytes
      intro!: advances_bytes split: if_splits)
next
  case False
  then show ?thesis using advances_mono[OF advances_refl[OF assms], of 2]
    by (auto simp: avz_guest_memory_store_u16_release_def Let_def split: if_splits)
qed

lemma dma_write_advances:
  assumes "tickets 2 m"
  shows "advances 2 (written (Dma_Write o1 src) m) m (snd (avz_guest_memory_dma_write_owned o1 src m))"
proof -
  let ?b = "store_bytes o1 src (g_bytes m)"
  have "advances 2 (range_of m o1 (length src)) m
      (avz_guest_memory_dma_write_owned_complete o1 (length src) (m\<lparr>g_bytes := ?b\<rparr>))" if "in_range m o1 (length src)"
    using dma_complete_advances[of "m\<lparr>g_bytes := ?b\<rparr>" o1 "length src"] assms that
    by - (rule advances_bytes_first[where b = ?b], auto simp: range_of_def store_bytes_outside)
  then show ?thesis using advances_mono[OF advances_refl[OF assms], of 2]
    by (auto simp: avz_guest_memory_dma_write_owned_def Let_def range_of_def)
qed

lemma cpu_store_advances:
  assumes "tickets 2 m"
  shows "advances 2 (written (Cpu_Store hot o1 w v) m) m (memory_step (Cpu_Store hot o1 w v) m)"
proof (cases "in_range m o1 w")
  case True
  let ?b = "avz_fast_store_value o1 w v (g_bytes m)"
  have o: "o1 < 2 ^ 64" using assms True by (auto simp: tickets_def in_range_def)
  have "advances 2 (range_of m o1 w) m
      (snd (snd (avz_fast_mark_dirty 0 (word_of_nat o1) w hot (m\<lparr>g_bytes := ?b\<rparr>))))"
    using fast_mark_dirty_advances[of "m\<lparr>g_bytes := ?b\<rparr>" o1 w hot] assms True
    by - (rule advances_bytes_first[where b = ?b], auto simp: range_of_def in_range_def store_value_outside)
  then show ?thesis using True by (simp add: avz_fast_store_def ram_offset_0[OF o] Let_def)
next
  case False
  then show ?thesis using advances_mono[OF advances_refl[OF assms], of 2] by (simp add: range_of_def)
qed

lemma memory_step_advances:
  assumes "tickets 2 m"
  shows "advances 2 (written op m) m (memory_step op m)"
proof -
  note idle = advances_mono[OF same_advances[OF same_monitor_ops(2) assms], of 2]
    advances_mono[OF same_advances[OF same_monitor_ops(3) assms], of 2]
    advances_mono[OF same_advances[OF same_monitor_ops(4) assms], of 2]
    advances_mono[OF same_advances[OF same_monitor_ops(5) assms], of 2]
    advances_mono[OF exclusive_read_advances(1)[OF assms], of 2]
    advances_mono[OF exclusive_read_advances(2)[OF assms], of 2]
  show ?thesis
    using idle exclusive_write_advances[OF assms] exclusive_write_pair_advances[OF assms] store_u16_advances[OF assms]
      dma_write_advances[OF assms] cpu_store_advances[OF assms] note_write_advances[OF assms]
      note_device_write_advances[OF assms]
    by (cases op) (simp_all del: written.simps(1,2,3,4,5) memory_step.simps(5))
qed


subsection \<open>The memory is an exclusive monitor\<close>

type_synonym span = "nat \<times> nat"

definition monitor_armed :: "guest_memory \<Rightarrow> span \<Rightarrow> bool" where
  "monitor_armed m = (\<lambda>(o1, n). in_range m o1 n \<and>
     (\<forall>g. granule_of o1 \<le> g \<and> g \<le> granule_of (o1 + n - 1) \<longrightarrow> watched m g))"

definition span_generation :: "guest_memory \<Rightarrow> span \<Rightarrow> u64" where
  "span_generation m = (\<lambda>(o1, n). avz_guest_memory_exclusive_write_generation m (word_of_nat o1) 0 n)"

definition span_content :: "guest_memory \<Rightarrow> span \<Rightarrow> u8 list" where
  "span_content m = (\<lambda>(o1, n). map (g_bytes m) [o1 ..< o1 + n])"

definition span_hit :: "memory_op \<Rightarrow> guest_memory \<Rightarrow> span \<Rightarrow> bool" where
  "span_hit op m = (\<lambda>(o1, n). written op m \<inter> byte_range o1 n \<noteq> {})"

lemma advances_facts:
  assumes "advances k W m m'"
  shows "g_size m' = g_size m" "avz_guest_memory_exclusive_slot m' = avz_guest_memory_exclusive_slot m"
    "in_range m' = in_range m" "watched m g \<Longrightarrow> watched m' g"
    "g_exclusive_write_generations m x \<le> g_exclusive_write_generations m' x"
proof -
  show a: "avz_guest_memory_exclusive_slot m' = avz_guest_memory_exclusive_slot m"
    using assms by (intro slot_cong) (simp add: advances_def)
  show "g_size m' = g_size m" "in_range m' = in_range m" "watched m g \<Longrightarrow> watched m' g"
    "g_exclusive_write_generations m x \<le> g_exclusive_write_generations m' x"
    using assms by (auto simp: advances_def in_range_def fun_eq_iff watched_def observed_slot_def a)
qed

lemma span_generation_max:
  "monitor_armed m (o1, n) \<Longrightarrow> tickets k m \<Longrightarrow> span_generation m (o1, n) =
   max_over (granule_of o1) (granule_of (o1 + n - 1))
     (\<lambda>g. g_exclusive_write_generations m (avz_guest_memory_exclusive_slot m g))"
  by (simp add: span_generation_def monitor_armed_def exclusive_generation_max tickets_def)

lemma armed_advances: "advances k W m m' \<Longrightarrow> monitor_armed m r \<Longrightarrow> monitor_armed m' r"
  using advances_facts(3,4) by (fastforce simp: monitor_armed_def split: prod.splits)

lemma generation_advances:
  assumes "advances k W m m'" "monitor_armed m r" "tickets j m" "tickets i m'"
  shows "span_generation m r \<le> span_generation m' r"
proof (cases r)
  case (Pair o1 n)
  show ?thesis
    using assms(2) armed_advances[OF assms(1,2)] assms(3,4) advances_facts(2,5)[OF assms(1)] unfolding Pair
    by (simp add: span_generation_max) (rule max_over_bounds(1), rule order.trans, assumption, rule max_over_bounds(2))
qed

lemma hit_advances:
  assumes "advances k W m m'" "monitor_armed m (o1, n)" "tickets j m" "tickets i m'"
    "a \<in> W" "a \<in> byte_range o1 n"
  shows "span_generation m (o1, n) < span_generation m' (o1, n)"
proof -
  have g: "granule_of o1 \<le> granule_of a" "granule_of a \<le> granule_of (o1 + n - 1)"
    using assms(6) by (auto simp: byte_range_def drop_bit_eq_div div_le_mono)
  then have "watched m (granule_of a)" using assms(2) by (auto simp: monitor_armed_def)
  then have less: "g_current_write_generation m <
      g_exclusive_write_generations m' (avz_guest_memory_exclusive_slot m (granule_of a))"
    using assms(1,5) by (simp add: advances_def)
  have "span_generation m (o1, n) \<le> g_current_write_generation m"
    using assms(3) by (simp add: span_generation_max[OF assms(2,3)] tickets_def max_over_bounds(1))
  moreover have "g_exclusive_write_generations m' (avz_guest_memory_exclusive_slot m (granule_of a))
      \<le> span_generation m' (o1, n)"
    using g by (simp add: span_generation_max[OF armed_advances[OF assms(1,2)] assms(4)]
        advances_facts(2)[OF assms(1)]) (rule max_over_bounds(2)[where k = "granule_of a"])
  ultimately show ?thesis using less by order
qed

interpretation guest_monitor: exclusive_monitor memory_step "\<lambda>n. tickets (2 * n)" monitor_armed
  span_generation span_content span_hit
proof
  fix n op m and r :: span
  assume t: "tickets (2 * Suc n) m"
  have t2: "tickets 2 m" using t by (simp add: tickets_def)
  note a = memory_step_advances[OF t2, of op]
  show t': "tickets (2 * n) (memory_step op m)"
    by (rule advances_tickets[OF a]) (use t in simp)
  assume r: "monitor_armed m r"
  show "monitor_armed (memory_step op m) r" by (rule armed_advances[OF a r])
  show "span_generation m r \<le> span_generation (memory_step op m) r"
    by (rule generation_advances[OF a r t2 t'])
  show "span_hit op m r \<Longrightarrow> span_generation m r < span_generation (memory_step op m) r"
    using hit_advances[OF a _ t2 t'] r by (fastforce simp: span_hit_def split: prod.splits)
  show "\<not> span_hit op m r \<Longrightarrow> span_content (memory_step op m) r = span_content m r"
    using a by (auto simp: span_hit_def span_content_def byte_range_def advances_def split: prod.splits)
qed

subsection \<open>Reading and arming\<close>

lemma load_word_content:
  "span_content m (o1, w) = span_content m' (o1, w) \<Longrightarrow>
   avz_fast_load (g_bytes m) o1 w = avz_fast_load (g_bytes m') o1 w"
  unfolding avz_fast_load_def span_content_def
  by (rule fold_cong) (auto simp: map_eq_conv dest: bspec[where x = "o1 + x" for x])

lemma observation_arms:
  assumes "in_range m o1 n"
  shows "monitor_armed (avz_guest_memory_note_exclusive_observation o1 n m) (o1, n)"
proof -
  let ?m = "avz_guest_memory_note_exclusive_observation o1 n m"
  have s: "avz_guest_memory_exclusive_slot ?m = avz_guest_memory_exclusive_slot m"
    by (rule slot_cong) (simp add: avz_guest_memory_note_exclusive_observation_def Let_def)
  have "page_of a = granule_of a div 256" for a :: nat
    by (simp add: drop_bit_eq_div div_mult2_eq[symmetric])
  then show ?thesis using assms s
    by (auto simp: monitor_armed_def in_range_def watched_def observed_slot_def for_each_upd div_le_mono
        avz_guest_memory_note_exclusive_observation_def Let_def)
qed


lemma exclusive_read_SomeD:
  assumes "avz_guest_memory_exclusive_read o1 w m = (Some (v, g), m1)" "tickets k m"
  shows "monitor_armed m1 (o1, w)" "v = avz_fast_load (g_bytes m1) o1 w" "g = span_generation m1 (o1, w)"
    "tickets k m1" "g_bytes m1 = g_bytes m" "w \<in> {1, 2, 4, 8}" "in_range m1 o1 w"
proof -
  have val: "avz_guest_memory_valid_exclusive_range m o1 w 1"
    using assms(1) by (auto simp: avz_guest_memory_exclusive_read_def split: if_splits)
  then show "w \<in> {1, 2, 4, 8}" by (simp add: avz_guest_memory_valid_exclusive_range_def)
  have r: "in_range m o1 w" using valid_exclusive_in_range[OF val] by simp
  let ?m = "avz_guest_memory_note_exclusive_observation o1 w m"
  have "m1 = ?m\<lparr>g_exclusive_reads := g_exclusive_reads m1, g_exclusive_nonzero_reads := g_exclusive_nonzero_reads m1\<rparr>"
    using assms(1) val by (auto simp: avz_guest_memory_exclusive_read_def Let_def split: if_splits)
  then have m1: "\<exists>c d. m1 = ?m\<lparr>g_exclusive_reads := c, g_exclusive_nonzero_reads := d\<rparr>" by blast
  have b: "g_bytes ?m = g_bytes m" by (simp add: avz_guest_memory_note_exclusive_observation_def Let_def)
  then show "g_bytes m1 = g_bytes m" using m1 by auto
  show "v = avz_fast_load (g_bytes m1) o1 w" 
    using assms(1) val by (auto simp: avz_guest_memory_exclusive_read_def Let_def split: if_splits)
  have same: "monitor_armed (m\<lparr>g_exclusive_reads := c, g_exclusive_nonzero_reads := d\<rparr>) = monitor_armed m"
      "span_generation (m\<lparr>g_exclusive_reads := c, g_exclusive_nonzero_reads := d\<rparr>) = span_generation m"
      "in_range (m\<lparr>g_exclusive_reads := c, g_exclusive_nonzero_reads := d\<rparr>) = in_range m" for c d m
    by (auto simp: monitor_armed_def span_generation_def in_range_def watched_def observed_slot_def fun_eq_iff
      avz_guest_memory_exclusive_write_generation_def slot_cong[of "m\<lparr>g_exclusive_reads := c, g_exclusive_nonzero_reads := d\<rparr>" m]
      split: option.splits)
  have "g = span_generation ?m (o1, w)"
    using assms(1) val by (auto simp: avz_guest_memory_exclusive_read_def span_generation_def Let_def split: if_splits)
  then show "g = span_generation m1 (o1, w)" using m1 same(2) by auto
  show "monitor_armed m1 (o1, w)" using m1 observation_arms[OF r] same(1) by auto
  then show "in_range m1 o1 w" by (simp add: monitor_armed_def)
  show "tickets k m1"
    using advances_tickets[of 0 "{}" m m1 k] exclusive_read_advances(1)[OF assms(2), of o1 w] assms(1,2) by simp
qed

subsection \<open>Bytes of a word\<close>

lemma store_value_at:
  "avz_fast_store_value o1 w v b a = (if a \<in> byte_range o1 w then ucast (shr v ((a - o1) * 8)) else b a)"
proof (induction w)
  case (Suc w)
  have "avz_fast_store_value o1 (Suc w) v b = (avz_fast_store_value o1 w v b)(o1 + w := ucast (shr v (w * 8)))"
    by (simp add: avz_fast_store_value_def)
  then show ?case using Suc by (auto simp: byte_range_def)
qed (simp add: avz_fast_store_value_def byte_range_def)

lemma load_store_value:
  assumes "8 * w \<le> 64"
  shows "avz_fast_load (avz_fast_store_value o1 w v b) o1 w = v AND mask (8 * w)"
  by (rule bit_eqI) (use assms in \<open>auto simp: bit_fast_load store_value_at byte_range_def bit_and_iff
    bit_mask_iff bit_ucast_iff bit_drop_bit_eq\<close>)

subsection \<open>A store exclusive that succeeds is atomic\<close>

lemma exclusive_write_StoredD:
  assumes "avz_guest_memory_exclusive_write o1 w v g m = (Stored, m')"
  shows "span_generation m (o1, w) = g" "g_bytes m' = avz_fast_store_value o1 w v (g_bytes m)"
    "w \<in> {1, 2, 4, 8}"
  using assms by (auto simp: avz_guest_memory_exclusive_write_def Let_def span_generation_def note_write_bytes
    avz_guest_memory_valid_exclusive_range_def split: if_splits)

text \<open>
  C10: A store exclusive that succeeds is atomic. Whatever processors and devices do to the
  memory after a load exclusive, if the store exclusive with the generation of that load
  succeeds, then no operation in between wrote a byte of the word, the word still has the
  value that was loaded, and afterwards it has the stored value and no other byte changed. The
  write counter must have room for the operations (two tickets each).
\<close>
theorem store_exclusive_is_atomic:
  assumes "tickets (2 * length ops) m"
    and "avz_guest_memory_exclusive_read o1 w m = (Some (v, g), m1)"
    and "avz_guest_memory_exclusive_write o1 w v' g (fold memory_step ops m1) = (Stored, m3)"
  shows "(\<forall>i < length ops. written (ops ! i) (fold memory_step (take i ops) m1) \<inter> byte_range o1 w = {}) \<and>
    avz_fast_load (g_bytes (fold memory_step ops m1)) o1 w = v \<and>
    avz_fast_load (g_bytes m3) o1 w = v' AND mask (8 * w) \<and>
    (\<forall>a. a \<notin> byte_range o1 w \<longrightarrow> g_bytes m3 a = g_bytes (fold memory_step ops m1) a)"
proof -
  note r = exclusive_read_SomeD[OF assms(2,1)] and s = exclusive_write_StoredD[OF assms(3)]
  have u: "(\<forall>i < length ops. \<not> span_hit (ops ! i) (fold memory_step (take i ops) m1) (o1, w)) \<and>
      span_content (fold memory_step ops m1) (o1, w) = span_content m1 (o1, w)"
    using guest_monitor.unchanged_generation[OF r(4) r(1)] s(1) r(3) by simp
  have w: "8 * w \<le> 64" using r(6) by auto
  show ?thesis
    using u load_word_content[of "fold memory_step ops m1" o1 w m1] r(2) w
    by (simp add: span_hit_def s(2) load_store_value store_value_outside)
qed


lemma exclusive_write_valid:
  assumes "avz_guest_memory_valid_exclusive_range m o1 w 1" "span_generation m (o1, w) = g"
  shows "fst (avz_guest_memory_exclusive_write o1 w v g m) = Stored"
  using assms by (simp add: avz_guest_memory_exclusive_write_def span_generation_def Let_def)

lemma in_range_written: "in_range m o1 n \<Longrightarrow> byte_range o1 n \<noteq> {}"
  by (auto simp: in_range_def byte_range_def)

lemma range_of_empty: "range_of m o1 n = {} \<Longrightarrow> \<not> in_range m o1 n"
  using in_range_written by (auto simp: range_of_def)

definition same_tickets :: "guest_memory \<Rightarrow> guest_memory \<Rightarrow> bool" where
  "same_tickets m m' \<longleftrightarrow> g_size m' = g_size m \<and> g_exclusive_slot_mask m' = g_exclusive_slot_mask m \<and>
     g_exclusive_write_generations m' = g_exclusive_write_generations m"

lemma silent_step:
  assumes "written op m = {}"
  shows "same_tickets m (memory_step op m)"
proof (cases op)
  case (Exclusive_Write o1 w v g)
  then show ?thesis using assms valid_exclusive_in_range[of m o1 w 1] range_of_empty[of m o1 w]
    by (auto simp: avz_guest_memory_exclusive_write_def Let_def same_tickets_def split: if_splits)
next
  case (Exclusive_Write_Pair o1 w v v' g)
  then show ?thesis using assms valid_exclusive_in_range[of m o1 w 2] range_of_empty[of m o1 "w * 2"]
    by (auto simp: avz_guest_memory_exclusive_write_pair_def Let_def same_tickets_def split: if_splits)
next
  case (Store_U16 o1 v)
  then show ?thesis using assms range_of_empty[of m o1 2]
    by (auto simp: avz_guest_memory_store_u16_release_def Let_def same_tickets_def in_range_def split: if_splits)
qed (use assms same_monitor_ops in \<open>auto simp: same_tickets_def avz_guest_memory_exclusive_read_def Let_def
    avz_guest_memory_exclusive_read_pair_def avz_guest_memory_note_exclusive_observation_def
    avz_guest_memory_dma_write_owned_def avz_guest_memory_note_write_def avz_guest_memory_note_device_write_def
    same_monitor_def dest!: range_of_empty\<close>)

lemma same_tickets_generation: "same_tickets m m' \<Longrightarrow> span_generation m' = span_generation m"
  using slot_cong[of m' m]
  by (auto simp: same_tickets_def span_generation_def fun_eq_iff avz_guest_memory_exclusive_write_generation_def
      in_range_def split: option.splits)

text \<open>
  An operation that writes the bytes \<open>W\<close> leaves the generations alone of all slots but those of
  the granules of \<open>W\<close>; several granules can share a slot.
\<close>

definition slots_of :: "guest_memory \<Rightarrow> nat set \<Rightarrow> nat set" where
  "slots_of m W = (\<lambda>a. avz_guest_memory_exclusive_slot m (granule_of a)) ` W"

definition confined :: "nat set \<Rightarrow> guest_memory \<Rightarrow> guest_memory \<Rightarrow> bool" where
  "confined W m m' \<longleftrightarrow> g_size m' = g_size m \<and> g_exclusive_slot_mask m' = g_exclusive_slot_mask m \<and>
     (\<forall>x. x \<notin> slots_of m W \<longrightarrow> g_exclusive_write_generations m' x = g_exclusive_write_generations m x)"

lemma confined_same: "same_tickets m m' \<Longrightarrow> confined W m m'"
  by (simp add: same_tickets_def confined_def)

lemma same_tickets_refl [simp]: "same_tickets m m"
  by (simp add: same_tickets_def)

lemma same_tickets_trans: "same_tickets a b \<Longrightarrow> same_tickets b c \<Longrightarrow> same_tickets a c"
  by (simp add: same_tickets_def)

lemma same_tickets_range: "same_tickets m m' \<Longrightarrow> range_of m' = range_of m"
  by (intro range_of_cong) (simp add: same_tickets_def)

lemma granule_in_range:
  assumes "in_range m o1 n" "granule_of o1 \<le> g" "g \<le> granule_of (o1 + n - 1)"
  shows "\<exists>a \<in> byte_range o1 n. granule_of a = g"
proof -
  have g: "o1 div 16 \<le> g" "g \<le> (o1 + n - 1) div 16" and n: "0 < n"
    using assms by (auto simp: drop_bit_eq_div in_range_def)
  let ?a = "max o1 (g * 16)"
  have "?a div 16 = g"
  proof (cases "o1 \<le> g * 16")
    case False
    then have "g \<le> o1 div 16" by (simp add: less_eq_div_iff_mult_less_eq)
    with g(1) False show ?thesis by (simp add: max_def)
  qed (simp add: max_def)
  moreover have "g * 16 \<le> o1 + n - 1" using g(2) by (simp add: less_eq_div_iff_mult_less_eq)
  then have "?a \<in> byte_range o1 n" using n by (auto simp: byte_range_def)
  ultimately show ?thesis by (intro bexI[of _ ?a]) (simp_all add: drop_bit_eq_div)
qed

lemma note_exclusive_confined: "confined (range_of m o1 n) m (avz_guest_memory_note_exclusive_write_generation o1 n m)"
proof (cases "in_range m o1 n")
  case True
  have "\<exists>a \<in> byte_range o1 n. granule_of a = g" if "g \<in> watched_granules m o1 n" for g
    using granule_in_range[OF True, of g] that by (simp add: watched_granules_def)
  then show ?thesis
    using True by (auto simp: confined_def note_exclusive_closed notified_def slots_of_def range_of_def image_iff)
qed (simp add: avz_guest_memory_note_exclusive_write_generation_def confined_same)

text \<open>All operations are a notification of the monitor between steps that do not touch it.\<close>

lemma confined_note:
  assumes "same_tickets m m1" "same_tickets (avz_guest_memory_note_exclusive_write_generation o1 n m1) m'"
  shows "confined (range_of m o1 n) m m'"
proof -
  have "avz_guest_memory_exclusive_slot m1 = avz_guest_memory_exclusive_slot m"
    using assms(1) by (intro slot_cong) (simp add: same_tickets_def)
  then have "slots_of m1 = slots_of m" by (simp add: slots_of_def fun_eq_iff)
  with note_exclusive_confined[of m1 o1 n] have "confined (range_of m o1 n) m (avz_guest_memory_note_exclusive_write_generation o1 n m1)"
    using assms(1) unfolding confined_def same_tickets_range[OF assms(1)] by (simp add: same_tickets_def)
  then show ?thesis using assms(2) by (simp add: confined_def same_tickets_def)
qed

lemma code_write_tickets: "same_tickets m (note_code_write o1 n m)"
  by (simp add: same_tickets_def note_code_write_def avz_guest_memory_advance_code_mutation_epoch_def
      avz_guest_memory_note_page_write_generation_def next_ticket Let_def)

lemma same_monitor_tickets: "same_monitor m m' \<Longrightarrow> same_tickets m m'"
  by (simp add: same_monitor_def same_tickets_def)

lemma notify_confined:
  assumes "same_tickets m m1"
  shows "confined (range_of m o1 n) m
    (let m' = avz_guest_memory_note_exclusive_write_generation o1 n m1
     in if b m' then note_code_write o2 n2 m' else m')"
  using confined_note[OF assms, of o1 n] code_write_tickets by (simp add: Let_def)

lemma note_write_confined:
  assumes "same_tickets m m1"
  shows "confined (range_of m o1 n) m (avz_guest_memory_note_write o1 n m1)"
  using notify_confined[OF same_tickets_trans[OF assms same_monitor_tickets[OF same_monitor_ops(4)[of m1 o1 n]]],
      of o1 n "\<lambda>_. avz_guest_memory_range_may_contain_code m1 (word_of_nat o1) n 0" o1 n] confined_same[OF assms]
  by (simp add: avz_guest_memory_note_write_def Let_def)

lemma confined_tickets: "confined W m m' \<Longrightarrow> same_tickets m' m'' \<Longrightarrow> confined W m m''"
  by (simp add: confined_def same_tickets_def)

lemma bytes_tickets: "same_tickets m (m\<lparr>g_bytes := b\<rparr>)"
  by (simp add: same_tickets_def)

lemma step_confined:
  assumes "g_size m < 2 ^ 64"
  shows "confined (written op m) m (memory_step op m)"
proof (cases "written op m = {}")
  case True
  then show ?thesis by (intro confined_same silent_step)
next
  case False
  then show ?thesis
  proof (cases op)
    case (Exclusive_Write o1 w v g)
    note n = note_write_confined[OF bytes_tickets[of m "avz_fast_store_value o1 w v (g_bytes m)"], of o1 w]
    show ?thesis using False Exclusive_Write n
      by (auto simp: avz_guest_memory_exclusive_write_def Let_def intro: confined_tickets[OF n] simp: same_tickets_def split: if_splits)
  next
    case (Exclusive_Write_Pair o1 w v v' g)
    note n = note_write_confined[OF bytes_tickets[of m "avz_fast_store_value (o1 + w) w v' (avz_fast_store_value o1 w v (g_bytes m))"], of o1 "w * 2"]
    show ?thesis using False Exclusive_Write_Pair n
      by (auto simp: avz_guest_memory_exclusive_write_pair_def Let_def intro: confined_tickets[OF n] simp: same_tickets_def split: if_splits)
  next
    case (Cpu_Store hot o1 w v)
    have r: "in_range m o1 w" using False Cpu_Store by (auto simp: range_of_def split: if_splits)
    then have o: "o1 < 2 ^ 64" using assms by (auto simp: in_range_def)
    let ?m = "m\<lparr>g_bytes := avz_fast_store_value o1 w v (g_bytes m)\<rparr>"
    obtain hot' d where d: "for_each (page_of o1) (page_of (o1 + w - 1)) (mark_dirty_page (g_current_epoch ?m)) (hot, ?m) = (hot', d)"
      by fastforce
    have "same_tickets ?m d" by (metis mark_dirty_pages_same d snd_conv same_monitor_tickets)
    then have t: "same_tickets m d" using same_tickets_trans[OF bytes_tickets] by blast
    show ?thesis
      using r d Cpu_Store confined_note[OF t same_tickets_refl, of o1 w] confined_note[OF t code_write_tickets, of o1 w]
      by (auto simp: avz_fast_store_def avz_fast_mark_dirty_def ram_offset_0[OF o] Let_def in_range_def)
  next
    case (Store_U16 o1 v)
    then show ?thesis using False confined_tickets[OF note_write_confined[OF same_tickets_refl] bytes_tickets, of m o1 2]
      by (auto simp: avz_guest_memory_store_u16_release_def Let_def split: if_splits)
  next
    case (Dma_Write o1 src)
    note t = bytes_tickets[of m "store_bytes o1 src (g_bytes m)"]
    show ?thesis
      using Dma_Write False confined_note[OF t same_tickets_refl, of o1 "length src"] confined_note[OF t code_write_tickets, of o1 "length src"]
      by (auto simp: avz_guest_memory_dma_write_owned_def avz_guest_memory_dma_write_owned_complete_def Let_def range_of_def
          in_range_def split: if_splits)
  next
    case (Note_Write o1 n)
    then show ?thesis using note_write_confined[OF same_tickets_refl] by simp
  next
    case (Note_Device_Write o1 n)
    note t = same_monitor_tickets[OF same_monitor_ops(1)[of m o1 n]]
    show ?thesis
      using Note_Device_Write False confined_note[OF t same_tickets_refl, of o1 n] confined_note[OF t code_write_tickets, of o1 n]
      by (auto simp: avz_guest_memory_note_device_write_def Let_def range_of_def split: if_splits)
  qed simp_all
qed

lemma generation_of_slots:
  assumes "g_size m' = g_size m" "g_exclusive_slot_mask m' = g_exclusive_slot_mask m" "g_size m < 2 ^ 64" "in_range m o1 w"
    "\<forall>x \<in> slots_of m (byte_range o1 w). g_exclusive_write_generations m' x = g_exclusive_write_generations m x"
  shows "span_generation m' (o1, w) = span_generation m (o1, w)"
proof -
  have s: "avz_guest_memory_exclusive_slot m' = avz_guest_memory_exclusive_slot m" using assms(2) by (rule slot_cong)
  have r: "in_range m' o1 w" using assms(1,4) by (simp add: in_range_def)
  have o: "o1 < 2 ^ 64" using assms(3,4) by (auto simp: in_range_def)
  have "for_each (granule_of o1) (granule_of (o1 + w - 1)) (\<lambda>granule generation.
      let candidate = g_exclusive_write_generations m' (avz_guest_memory_exclusive_slot m granule)
      in if candidate > generation then candidate else generation) 0 =
    for_each (granule_of o1) (granule_of (o1 + w - 1)) (\<lambda>granule generation.
      let candidate = g_exclusive_write_generations m (avz_guest_memory_exclusive_slot m granule)
      in if candidate > generation then candidate else generation) 0"
    unfolding for_each_def
  proof (intro fold_cong refl ext)
    fix g x assume "g \<in> set [granule_of o1 ..< Suc (granule_of (o1 + w - 1))]"
    then have "granule_of o1 \<le> g" "g \<le> granule_of (o1 + w - 1)" by (simp_all add: less_Suc_eq_le del: upt_Suc)
    from granule_in_range[OF assms(4) this] have "avz_guest_memory_exclusive_slot m g \<in> slots_of m (byte_range o1 w)"
      by (auto simp: slots_of_def)
    then show "(let candidate = g_exclusive_write_generations m' (avz_guest_memory_exclusive_slot m g)
        in if candidate > x then candidate else x) =
      (let candidate = g_exclusive_write_generations m (avz_guest_memory_exclusive_slot m g)
        in if candidate > x then candidate else x)" using assms(5) by simp
  qed
  then show ?thesis
    using r assms(4) by (simp add: span_generation_def avz_guest_memory_exclusive_write_generation_def ram_offset_0[OF o] s)
qed

text \<open>A run whose writes stay out of the slots of a range keeps the generation of the range.\<close>

lemma confined_run:
  assumes "g_size m < 2 ^ 64"
    "\<And>i. i < length ops \<Longrightarrow> slots_of m (written (ops ! i) (fold memory_step (take i ops) m)) \<inter> X = {}"
  shows "g_size (fold memory_step ops m) = g_size m \<and> g_exclusive_slot_mask (fold memory_step ops m) = g_exclusive_slot_mask m \<and>
    (\<forall>x \<in> X. g_exclusive_write_generations (fold memory_step ops m) x = g_exclusive_write_generations m x)"
  using assms
proof (induction ops arbitrary: m)
  case (Cons op ops)
  note c = step_confined[OF Cons.prems(1), of op]
  then have "slots_of (memory_step op m) = slots_of m"
    using slot_cong[of "memory_step op m" m] by (simp add: confined_def slots_of_def fun_eq_iff)
  with Cons.prems(2)[of "Suc _"] Cons.prems(1) c
  have "g_size (fold memory_step ops (memory_step op m)) = g_size (memory_step op m) \<and>
      g_exclusive_slot_mask (fold memory_step ops (memory_step op m)) = g_exclusive_slot_mask (memory_step op m) \<and>
      (\<forall>x \<in> X. g_exclusive_write_generations (fold memory_step ops (memory_step op m)) x =
        g_exclusive_write_generations (memory_step op m) x)"
    by (intro Cons.IH) (simp_all add: confined_def)
  moreover have "\<forall>x \<in> X. g_exclusive_write_generations (memory_step op m) x = g_exclusive_write_generations m x"
    using c Cons.prems(2)[of 0] by (auto simp: confined_def)
  ultimately show ?case using c by (simp add: confined_def)
qed simp

text \<open>
  C29: A store exclusive without interference succeeds. Let the load exclusive have answered, and
  let no operation after it have written into a granule of 16 bytes that has the same slot of the
  monitor as a granule of the word; each granule has one slot, but granules can share one. Then
  the store exclusive with the generation of the load is carried out, whatever else was written,
  observed, read, marked or attempted in between. Each operation is one atomic step.
\<close>
theorem store_exclusive_succeeds:
  assumes "tickets 0 m" "avz_guest_memory_exclusive_read o1 w m = (Some (v, g), m1)"
    and "\<And>i. i < length ops \<Longrightarrow>
      slots_of m1 (written (ops ! i) (fold memory_step (take i ops) m1)) \<inter> slots_of m1 (byte_range o1 w) = {}"
  shows "fst (avz_guest_memory_exclusive_write o1 w v' g (fold memory_step ops m1)) = Stored"
proof (rule exclusive_write_valid)
  note r = exclusive_read_SomeD[OF assms(2,1)]
  have size: "g_size m1 < 2 ^ 64" using r(4) by (simp add: tickets_def)
  note c = confined_run[OF size assms(3)]
  show "span_generation (fold memory_step ops m1) (o1, w) = g"
    using generation_of_slots[of "fold memory_step ops m1" m1 o1 w] c size r(3,7) by simp
  show "avz_guest_memory_valid_exclusive_range (fold memory_step ops m1) o1 w 1"
    using c r(6,7) by (auto simp: avz_guest_memory_valid_exclusive_range_def in_range_def)
qed

lemma create_tickets:
  assumes "avz_guest_memory_create n = Some m"
  shows "tickets (2 ^ 64 - 2) m" "g_size m = n" "0 < n"
  using assms by (auto simp: avz_guest_memory_create_def Let_def tickets_def split: if_splits)

text \<open>
  C30: The write counter dominates. From the creation of the memory on, whatever processors and
  devices do, no granule carries a generation above the counter, and each operation draws at
  most two tickets, so the counter does not wrap within the first 2^63 - 1 operations.
\<close>
theorem write_counter_dominates:
  assumes "avz_guest_memory_create n = Some m" "length ops < 2 ^ 63"
  shows "(\<forall>x. g_exclusive_write_generations (fold memory_step ops m) x
        \<le> g_current_write_generation (fold memory_step ops m)) \<and>
     unat (g_current_write_generation (fold memory_step ops m)) \<le> 1 + 2 * length ops \<and>
     g_size (fold memory_step ops m) = n"
proof -
  have run: "tickets (2 * length ops) m' \<Longrightarrow> tickets 0 (fold memory_step ops m') \<and>
      unat (g_current_write_generation (fold memory_step ops m')) \<le>
        unat (g_current_write_generation m') + 2 * length ops \<and> g_size (fold memory_step ops m') = g_size m'" for m'
  proof (induction ops arbitrary: m')
    case (Cons op ops)
    have t: "tickets 2 m'" using Cons.prems by (simp add: tickets_def)
    note a = memory_step_advances[OF t, of op]
    have "tickets (2 * length ops) (memory_step op m')"
      using advances_tickets[OF a] Cons.prems by simp
    from Cons.IH[OF this] a show ?case by (auto simp: advances_def)
  qed simp
  have t: "tickets (2 * length ops) m"
    using create_tickets(1)[OF assms(1)] assms(2) by (simp add: tickets_def)
  have c: "g_current_write_generation m = 1"
    using assms(1) by (auto simp: avz_guest_memory_create_def Let_def split: if_splits)
  show ?thesis using run[OF t] create_tickets(2)[OF assms(1)] c by (simp add: tickets_def)
qed

definition demo_memory :: guest_memory where
  "demo_memory = the (avz_guest_memory_create 4096)"

lemma demo_slots: "avz_next_power_of_two 8192 = 8192" by code_simp

lemma demo_created: "avz_guest_memory_create 4096 = Some demo_memory"
proof -
  have "avz_guest_memory_create 4096 \<noteq> None"
    by (simp add: avz_guest_memory_create_def demo_slots drop_bit_eq_div)
  then show ?thesis by (simp add: demo_memory_def)
qed

lemma demo_tickets: "k < 2 ^ 64 - 1 \<Longrightarrow> tickets k demo_memory"
  using create_tickets(1)[OF demo_created] by (simp add: tickets_def)

theorem write_counter_dominates_witness:
  "unat (g_current_write_generation (fold memory_step [Exclusive_Read 16 8, Note_Write 16 8] demo_memory)) \<le> 5"
  using write_counter_dominates[OF demo_created, of "[Exclusive_Read 16 8, Note_Write 16 8]"] by simp

definition demo_read :: "(u64 \<times> u64) option \<times> guest_memory" where
  "demo_read = avz_guest_memory_exclusive_read 16 8 demo_memory"

lemma demo_fields:
  "g_size demo_memory = 4096" "g_bytes demo_memory = (\<lambda>_. 0)" "g_exclusive_slot_mask demo_memory = 8191"
  "g_exclusive_write_generations demo_memory = (\<lambda>_. 0)" "g_exclusive_observations demo_memory = (\<lambda>_. 0)"
  "g_page_exclusive_observation_epochs demo_memory = (\<lambda>_. 0)" "g_code_page_bits demo_memory = (\<lambda>_. 0)"
  by (simp_all add: demo_memory_def avz_guest_memory_create_def demo_slots drop_bit_eq_div)

lemmas demo_eval = demo_fields avz_guest_memory_exclusive_read_def avz_guest_memory_valid_exclusive_range_def
  avz_fast_load_def avz_guest_memory_exclusive_write_generation_def ram_offset_def for_each_def in_range_def
  avz_guest_memory_note_exclusive_observation_def avz_guest_memory_exclusive_slot_def

lemma fold_skip: "fold (\<lambda>k s. s) ks s = s"
  by (induction ks) simp_all

lemma demo_read: "demo_read = (Some (0, 0), snd demo_read)"
proof -
  have "fst demo_read = Some (0, 0)" by (simp add: demo_read_def demo_eval fold_skip Let_def)
  then show ?thesis by (simp add: prod_eq_iff)
qed

lemma demo_write: "fst (avz_guest_memory_exclusive_write 16 8 5 0 (memory_step (Dma_Write 64 [7]) (snd demo_read))) = Stored"
proof (rule exclusive_write_valid)
  let ?m = "memory_step (Dma_Write 64 [7]) (snd demo_read)"
  have "same_tickets demo_memory ?m"
    by (simp add: demo_read_def demo_eval fold_skip Let_def avz_guest_memory_dma_write_owned_def same_tickets_def
      avz_guest_memory_dma_write_owned_complete_def avz_guest_memory_note_exclusive_write_generation_def
      note_page_granules_def note_granule_write_def avz_guest_memory_range_may_contain_code_def is_code_page_def)
  then show "span_generation ?m (16, 8) = 0" "avz_guest_memory_valid_exclusive_range ?m 16 8 1"
    by (simp_all add: same_tickets_generation)
      (simp_all add: span_generation_def same_tickets_def demo_eval)
qed

theorem store_exclusive_is_atomic_witness:
  "avz_fast_load (g_bytes (snd (avz_guest_memory_exclusive_write 16 8 5 0
     (fold memory_step [Dma_Write 64 [7]] (snd demo_read))))) 16 8 = 5 AND mask (8 * 8)"
proof -
  let ?w = "avz_guest_memory_exclusive_write 16 8 5 0 (fold memory_step [Dma_Write 64 [7]] (snd demo_read))"
  have "?w = (Stored, snd ?w)" using demo_write by (simp add: prod_eq_iff)
  from store_exclusive_is_atomic[OF demo_tickets demo_read[unfolded demo_read_def], folded demo_read_def, OF _ this]
  show ?thesis by simp
qed

text \<open>A transfer of a device to another granule, with another slot, does not disturb the store.\<close>

theorem store_exclusive_succeeds_witness:
  "fst (avz_guest_memory_exclusive_write 16 8 5 0
     (fold memory_step [Advance_Dirty_Epoch, Dma_Write 64 [7]] (snd demo_read))) = Stored"
proof -
  have s: "avz_guest_memory_exclusive_slot (snd demo_read) = avz_guest_memory_exclusive_slot demo_memory"
    by (rule slot_cong) (simp add: demo_read_def demo_eval fold_skip Let_def)
  have d: "avz_guest_memory_exclusive_slot demo_memory 1 \<noteq> avz_guest_memory_exclusive_slot demo_memory 4"
    by (simp add: avz_guest_memory_exclusive_slot_def demo_fields Let_def)
  have g: "granule_of a = 1" if "a \<in> byte_range 16 8" for a
    using that by (auto simp: byte_range_def drop_bit_eq_div intro: div_nat_eqI)
  have misses: "slots_of (snd demo_read) {64} \<inter> slots_of (snd demo_read) (byte_range 16 8) = {}"
  proof -
    have "slots_of (snd demo_read) (byte_range 16 8) \<subseteq> {avz_guest_memory_exclusive_slot demo_memory 1}"
      by (auto simp: slots_of_def s g simp del: One_nat_def)
    moreover have "slots_of (snd demo_read) {64} = {avz_guest_memory_exclusive_slot demo_memory 4}"
      by (simp add: slots_of_def s drop_bit_eq_div)
    ultimately show ?thesis using d by auto
  qed
  show ?thesis
  proof (rule store_exclusive_succeeds[OF demo_tickets demo_read[unfolded demo_read_def], folded demo_read_def])
    fix i :: nat assume "i < length [Advance_Dirty_Epoch, Dma_Write 64 [7]]"
    then consider "i = 0" | "i = 1" by fastforce
    then show "slots_of (snd demo_read) (written ([Advance_Dirty_Epoch, Dma_Write 64 [7]] ! i)
        (fold memory_step (take i [Advance_Dirty_Epoch, Dma_Write 64 [7]]) (snd demo_read))) \<inter>
        slots_of (snd demo_read) (byte_range 16 8) = {}"
    proof cases
      case 2
      have "written (Dma_Write 64 [7]) m \<subseteq> {64}" for m by (auto simp: range_of_def byte_range_def)
      with misses 2 show ?thesis by (fastforce simp: slots_of_def)
    qed (simp add: slots_of_def)
  qed simp
qed

end
