(* ===== verification/DirtyTracking.thy ===== *)
theory DirtyTracking
  imports ExclusiveAtomicity
begin

text \<open>
  Dirty page tracking: what a query for the pages written between two epochs answers, why the
  per-processor tables of marked pages lose no write when every operation is one step, and how
  a mark made after its epoch is over is lost.
\<close>

subsection \<open>The answer of a query\<close>

lemma dirty_run_end_spec:
  "(\<forall>k. page \<le> k \<and> k < dirty_run_end dirty last_page page \<longrightarrow> dirty k) \<and>
   dirty_run_end dirty last_page page \<le> max page (Suc last_page) \<and>
   (dirty_run_end dirty last_page page \<le> last_page \<longrightarrow> \<not> dirty (dirty_run_end dirty last_page page))"
proof (induction dirty last_page page rule: dirty_run_end.induct)
  case (1 dirty last_page page)
  show ?case
  proof (cases "page \<le> last_page \<and> dirty page")
    case True
    then have s: "dirty_run_end dirty last_page page = dirty_run_end dirty last_page (Suc page)"
      by (subst dirty_run_end.simps) simp
    have "\<not> last_page < page" using True by simp
    note ih = 1[OF this]
    show ?thesis using ih True unfolding s by (auto simp: Suc_le_eq) (metis le_less)+
  next
    case False
    then have "dirty_run_end dirty last_page page = page" by (subst dirty_run_end.simps) auto
    then show ?thesis using False by auto
  qed
qed

text \<open>A list of ranges in order, with a gap between neighbours, within bounds, all non-empty.\<close>

definition apart :: "(nat \<times> nat) list \<Rightarrow> bool" where
  "apart = sorted_wrt (\<lambda>(s, n) (s', n'). s + n < s')"

definition covers :: "(nat \<times> nat) list \<Rightarrow> nat \<Rightarrow> bool" where
  "covers ranges a \<longleftrightarrow> (\<exists>(s, n) \<in> set ranges. s \<le> a \<and> a < s + n)"

lemma covers_simps [simp]: "\<not> covers [] a" "covers (x # xs) a \<longleftrightarrow> fst x \<le> a \<and> a < fst x + snd x \<or> covers xs a"
  by (auto simp: covers_def split: prod.splits)

lemma page_bounds: "page_of a = p \<longleftrightarrow> p * 4096 \<le> a \<and> a < Suc p * 4096"
  by (auto simp: drop_bit_eq_div intro: div_nat_eqI) 

lemma page_le: "p \<le> page_of a \<longleftrightarrow> p * 4096 \<le> a" "page_of a < p \<longleftrightarrow> a < p * 4096"
proof -
  show a: "p \<le> page_of a \<longleftrightarrow> p * 4096 \<le> a" by (simp add: drop_bit_eq_div less_eq_div_iff_mult_less_eq)
  show "page_of a < p \<longleftrightarrow> a < p * 4096" using a by linarith
qed

text \<open>What the loop still has to add when it stands at a page.\<close>

definition ranges_from :: "(nat \<Rightarrow> bool) \<Rightarrow> nat \<Rightarrow> nat \<Rightarrow> nat \<Rightarrow> (nat \<times> nat) list \<Rightarrow> bool" where
  "ranges_from dirty o1 e page new \<longleftrightarrow> apart new \<and>
    (\<forall>(s, n) \<in> set new. 0 < n \<and> o1 \<le> s \<and> page * 4096 \<le> s + (o1 - page * 4096) \<and> s + n \<le> e) \<and>
    (\<forall>a. o1 \<le> a \<and> a < e \<and> page \<le> page_of a \<longrightarrow> covers new a = dirty (page_of a))"

lemma ranges_from_clean:
  assumes "ranges_from dirty o1 e (Suc page) new" "\<not> dirty page" "page_of o1 \<le> page"
  shows "ranges_from dirty o1 e page new"
proof -
  have o: "o1 < Suc page * 4096" using assms(3) page_le(2)[of o1 "Suc page"] by simp
  have "covers new a = dirty (page_of a)" if "o1 \<le> a" "a < e" "page \<le> page_of a" for a
  proof (cases "page_of a = page")
    case True
    then have "a < Suc page * 4096" by (simp only: page_bounds)
    then have "\<not> covers new a" using assms(1) o by (fastforce simp: covers_def ranges_from_def)
    then show ?thesis using True assms(2) by simp
  next
    case False
    then show ?thesis using assms(1) that by (simp add: ranges_from_def)
  qed
  then show ?thesis using assms(1) o unfolding ranges_from_def by fastforce
qed

lemma ranges_from_run:
  assumes "ranges_from dirty o1 e r new" "Suc page \<le> r" "\<forall>k. page \<le> k \<and> k < r \<longrightarrow> dirty k"
    "r * 4096 < e \<longrightarrow> \<not> dirty r" "page_of o1 \<le> page" "page * 4096 < e" "o1 < e"
  shows "ranges_from dirty o1 e page ((max (page * 4096) o1, min (r * 4096) e - max (page * 4096) o1) # new)"
proof -
  let ?s = "max (page * 4096) o1" and ?e = "min (r * 4096) e"
  have o: "o1 < Suc page * 4096" using assms(5) page_le(2)[of o1 "Suc page"] by simp
  have r: "Suc page * 4096 \<le> r * 4096" using assms(2) by simp
  have se: "?s < ?e" using o r assms(6,7) by auto
  have gap: "?e < s" if "(s, n) \<in> set new" for s n
  proof -
    have s: "r * 4096 \<le> s" "0 < n" "s + n \<le> e" "o1 \<le> s" using assms(1) that o r by (auto simp: ranges_from_def)
    then have "\<not> dirty r" using assms(4) by simp
    moreover have "covers new s" using that s by (auto simp: covers_def)
    then have "dirty (page_of s)" using assms(1) s by (auto simp: ranges_from_def page_le)
    ultimately have "page_of s \<noteq> r" by auto
    then have "r * 4096 \<noteq> s" by (auto simp: drop_bit_eq_div)
    then show ?thesis using s by simp
  qed
  have c: "covers ((?s, ?e - ?s) # new) a = dirty (page_of a)" if "o1 \<le> a" "a < e" "page \<le> page_of a" for a
  proof (cases "page_of a < r")
    case True
    then have "dirty (page_of a)" "?s \<le> a" "a < ?e" using assms(3) that by (auto simp: page_le)
    then show ?thesis using se by auto
  next
    case False
    then have "covers new a = dirty (page_of a)" "?e \<le> a" using assms(1) that by (auto simp: ranges_from_def page_le)
    then show ?thesis using se by auto
  qed
  show ?thesis unfolding ranges_from_def
  proof (intro conjI)
    show "apart ((?s, ?e - ?s) # new)" using gap se assms(1) by (auto simp: apart_def ranges_from_def)
    show "\<forall>(s, n)\<in>set ((?s, ?e - ?s) # new). 0 < n \<and> o1 \<le> s \<and> page * 4096 \<le> s + (o1 - page * 4096) \<and> s + n \<le> e"
      using se assms(1,2) by (fastforce simp: ranges_from_def)
  qed (use c in blast)
qed

lemma dirty_loop_spec:
  assumes "dirty_ranges_loop dirty last_page o1 e cap page ranges = Some result"
    "last_page = page_of (e - 1)" "o1 < e" "page_of o1 \<le> page" "length ranges \<le> cap"
  shows "\<exists>new. result = ranges @ new \<and> length result \<le> cap \<and> ranges_from dirty o1 e page new"
  using assms
proof (induction dirty last_page o1 e cap page ranges rule: dirty_ranges_loop.induct)
  case (1 dirty last_page o1 e cap page ranges)
  note unf = dirty_ranges_loop.simps[of dirty last_page o1 e cap page ranges]
  consider (stop) "last_page < page" | (clean) "\<not> last_page < page" "\<not> dirty page" | (run) "\<not> last_page < page" "dirty page"
    by linarith
  then show ?case
  proof cases
    case stop
    then have r: "result = ranges" using 1(3) unf by simp
    have "\<not> page \<le> page_of a" if "a < e" for a
    proof -
      have "page_of a \<le> page_of (e - 1)" using that by (simp add: drop_bit_eq_div div_le_mono)
      then show ?thesis using stop 1(4) by simp
    qed
    then show ?thesis using 1(7) unfolding r by (auto simp: apart_def ranges_from_def)
  next
    case clean
    then have "dirty_ranges_loop dirty last_page o1 e cap (Suc page) ranges = Some result"
      using 1(3) unf by simp
    from 1(1)[OF clean this 1(4,5) _ 1(7)] obtain new where
      "result = ranges @ new" "length result \<le> cap" "ranges_from dirty o1 e (Suc page) new"
      using 1(6) by auto
    then show ?thesis using ranges_from_clean[of dirty o1 e page] clean(2) 1(6) by blast
  next
    case run
    let ?r = "dirty_run_end dirty last_page (Suc page)"
    let ?x = "(max (page * 4096) o1, min (?r * 4096) e - max (page * 4096) o1)"
    have sv: "(if push_bit PAGE_SHIFT page > o1 then push_bit PAGE_SHIFT page else o1) = max (page * 4096) o1"
      "(if push_bit PAGE_SHIFT ?r < e then push_bit PAGE_SHIFT ?r else e) = min (?r * 4096) e"
      by (auto simp: push_bit_eq_mult max_def min_def)
    have l: "length ranges \<noteq> cap" using run 1(3) unf by (auto simp: Let_def)
    have rec: "dirty_ranges_loop dirty last_page o1 e cap ?r (ranges @ [?x]) = Some result"
      using run 1(3) unf l by (simp add: Let_def sv)
    note spec = dirty_run_end_spec[of "Suc page" dirty last_page] and ge = dirty_run_end_ge[of "Suc page" dirty last_page]
    have pg: "page * 4096 < e" using run(1) 1(4,5) page_le(1)[of page "e - 1"] by linarith
    have nn: "\<not> \<not> dirty page" using run by simp
    have "\<exists>new. result = (ranges @ [?x]) @ new \<and> length result \<le> cap \<and> ranges_from dirty o1 e ?r new"
      by (rule 1(2)[OF run(1) nn refl refl refl refl refl l, unfolded sv, OF rec 1(4,5)]) (use 1(6,7) l ge in auto)
    then obtain new where n: "result = ranges @ (?x # new)" "length result \<le> cap" "ranges_from dirty o1 e ?r new" by auto
    have "ranges_from dirty o1 e page (?x # new)"
    proof (rule ranges_from_run[OF n(3) ge _ _ 1(6) pg 1(5)])
      show "\<forall>k. page \<le> k \<and> k < ?r \<longrightarrow> dirty k" using spec run(2) by (metis Suc_leI le_neq_implies_less)
      show "?r * 4096 < e \<longrightarrow> \<not> dirty ?r"
      proof
        assume "?r * 4096 < e"
        then have "?r \<le> last_page" using 1(4) page_le(1)[of ?r "e - 1"] by simp
        then show "\<not> dirty ?r" using spec by blast
      qed
    qed
    then show ?thesis using n by blast
  qed
qed

text \<open>The ranges that the query would report if the caller had room for any number of them.\<close>

definition runs_of :: "(nat \<Rightarrow> bool) \<Rightarrow> nat \<Rightarrow> nat \<Rightarrow> (nat \<times> nat) list \<Rightarrow> bool" where
  "runs_of dirty o1 n runs \<longleftrightarrow> apart runs \<and> (\<forall>(s, k) \<in> set runs. 0 < k \<and> o1 \<le> s \<and> s + k \<le> o1 + n) \<and>
     (\<forall>a \<in> byte_range o1 n. covers runs a = dirty (page_of a))"

lemma dirty_loop_length:
  "dirty_ranges_loop dirty last_page o1 e cap page ranges = Some full \<Longrightarrow> length ranges \<le> length full"
proof (induction dirty last_page o1 e cap page ranges rule: dirty_ranges_loop.induct)
  case (1 dirty last_page o1 e cap page ranges)
  show ?case
    using 1(3) 1(1,2)
    by (subst (asm) dirty_ranges_loop.simps) (force simp: Let_def split: if_splits)
qed

text \<open>With enough room the query never gives up.\<close>

lemma dirty_loop_room:
  assumes "length ranges + (Suc last_page - page) < cap"
  shows "dirty_ranges_loop dirty last_page o1 e cap page ranges \<noteq> None"
  using assms
proof (induction dirty last_page o1 e cap page ranges rule: dirty_ranges_loop.induct)
  case (1 dirty last_page o1 e cap page ranges)
  note ge = dirty_run_end_ge[of "Suc page" dirty last_page]
  show ?case
    using 1(3) 1(1,2) ge
    by (subst dirty_ranges_loop.simps) (auto simp: Let_def)
qed

lemma dirty_loop_capacity:
  assumes "dirty_ranges_loop dirty last_page o1 e cap page ranges = Some full" "length ranges \<le> cap'" "cap' \<le> cap"
  shows "dirty_ranges_loop dirty last_page o1 e cap' page ranges = (if length full \<le> cap' then Some full else None)"
  using assms
proof (induction dirty last_page o1 e cap page ranges rule: dirty_ranges_loop.induct)
  case (1 dirty last_page o1 e cap page ranges)
  note unf = dirty_ranges_loop.simps[of dirty last_page o1 e cap page ranges]
  note unf' = dirty_ranges_loop.simps[of dirty last_page o1 e cap' page ranges]
  consider (stop) "last_page < page" | (clean) "\<not> last_page < page" "\<not> dirty page" | (run) "\<not> last_page < page" "dirty page"
    by linarith
  then show ?case
  proof cases
    case stop
    then show ?thesis using 1(3,4) unf unf' by simp
  next
    case clean
    then have "dirty_ranges_loop dirty last_page o1 e cap (Suc page) ranges = Some full" using 1(3) unf by simp
    from 1(1)[OF clean this 1(4,5)] show ?thesis using clean unf' by simp
  next
    case run
    then have l: "length ranges \<noteq> cap" using 1(3) unf by (auto simp: Let_def)
    let ?r = "dirty_run_end dirty last_page (Suc page)"
    let ?s = "if push_bit PAGE_SHIFT page > o1 then push_bit PAGE_SHIFT page else o1"
    let ?e = "if push_bit PAGE_SHIFT ?r < e then push_bit PAGE_SHIFT ?r else e"
    have rec: "dirty_ranges_loop dirty last_page o1 e cap ?r (ranges @ [(?s, ?e - ?s)]) = Some full"
      using run 1(3) unf l by (simp add: Let_def)
    show ?thesis
    proof (cases "length ranges = cap'")
      case True
      have "length (ranges @ [(?s, ?e - ?s)]) \<le> length full" using dirty_loop_length[OF rec] .
      then show ?thesis using True run unf' by (simp add: Let_def)
    next
      case False
      have nn: "\<not> \<not> dirty page" using run by simp
      have "dirty_ranges_loop dirty last_page o1 e cap' ?r (ranges @ [(?s, ?e - ?s)]) = (if length full \<le> cap' then Some full else None)"
        by (rule 1(2)[OF run(1) nn refl refl refl refl refl l rec]) (use False 1(4,5) in auto)
      then show ?thesis using run False unf' by (simp add: Let_def)
    qed
  qed
qed

lemma apart_covers_ge:
  assumes "apart ((s, k) # rs)" "covers rs a" shows "s + k < a"
proof -
  from assms(2) obtain s' k' where "(s', k') \<in> set rs" "s' \<le> a" by (auto simp: covers_def)
  moreover from this assms(1) have "s + k < s'" by (auto simp: apart_def)
  ultimately show ?thesis by simp
qed

text \<open>Runs with gaps between them are determined by what they cover.\<close>

lemma apart_unique:
  assumes "apart xs" "apart ys" "\<forall>(s, k) \<in> set xs. 0 < k" "\<forall>(s, k) \<in> set ys. 0 < k" "covers xs = covers ys"
  shows "xs = ys"
  using assms
proof (induction xs arbitrary: ys)
  case Nil
  show ?case
  proof (cases ys)
    case (Cons y ys')
    then have "covers ys (fst y)" using Nil.prems(4) by (cases y) simp
    then show ?thesis using Nil.prems(5) by (metis covers_simps(1))
  qed simp
next
  case (Cons x xs)
  obtain s k where x: "x = (s, k)" by fastforce
  have "covers (x # xs) s" using Cons.prems(3) x by simp
  then obtain y ys' where ys: "ys = y # ys'" using Cons.prems(5) by (cases ys) auto
  obtain s' k' where y: "y = (s', k')" by fastforce
  have pos: "0 < k" "0 < k'" using Cons.prems(3,4) x y ys by simp_all
  have gx: "s + k < a" if "covers xs a" for a using apart_covers_ge[of s k xs a] Cons.prems(1) x that by simp
  have gy: "s' + k' < a" if "covers ys' a" for a using apart_covers_ge[of s' k' ys' a] Cons.prems(2) y ys that by simp
  have eq: "(s \<le> a \<and> a < s + k \<or> covers xs a) = (s' \<le> a \<and> a < s' + k' \<or> covers ys' a)" for a
    using fun_cong[OF Cons.prems(5), of a] x y ys by simp
  have s: "s = s'"
    using eq[of s] eq[of s'] gx[of s'] gy[of s] pos by (cases "s < s'") auto
  have k: "k = k'"
    using eq[of "s + k"] eq[of "s + k'"] gx[of "s + k"] gy[of "s + k'"] s by (cases "k < k'") auto
  have "covers xs = covers ys'"
  proof
    fix a
    show "covers xs a = covers ys' a" using eq[of a] gx[of a] gy[of a] s k by auto
  qed
  moreover have "apart xs" "apart ys'" using Cons.prems(1,2) x ys by (auto simp: apart_def)
  ultimately have "xs = ys'" using Cons.IH[of ys'] Cons.prems(3,4) ys by simp
  then show ?case using s k x y ys by simp
qed

lemma runs_unique:
  assumes "runs_of dirty o1 n rs" "runs_of dirty o1 n rs'" shows "rs = rs'"
proof (rule apart_unique)
  show "covers rs = covers rs'"
  proof
    fix a
    show "covers rs a = covers rs' a"
    proof (cases "a \<in> byte_range o1 n")
      case False
      then have "\<not> covers rs a" "\<not> covers rs' a"
        using assms by (fastforce simp: runs_of_def covers_def byte_range_def)+
      then show ?thesis by simp
    qed (use assms in \<open>simp add: runs_of_def\<close>)
  qed
qed (use assms in \<open>auto simp: runs_of_def\<close>)

lemma dirty_ranges_answer:
  assumes "in_range m o1 n" "0 < cap" "after \<le> through"
  shows "\<exists>runs. runs_of (page_dirty_between m after through) o1 n runs \<and>
    avz_guest_memory_dirty_ranges m o1 n after through cap = (if length runs \<le> cap then runs else [(o1, n)])"
proof -
  let ?dirty = "page_dirty_between m after through"
  let ?loop = "\<lambda>cap. dirty_ranges_loop ?dirty (page_of (o1 + n - 1)) o1 (o1 + n) cap (page_of o1) []"
  let ?cap = "cap + Suc (page_of (o1 + n - 1)) + 1"
  have n: "0 < n" using assms(1) by (simp add: in_range_def)
  have "?loop ?cap \<noteq> None"
    using dirty_loop_room[of "[]" "page_of (o1 + n - 1)" "page_of o1" ?cap ?dirty o1 "o1 + n"] by simp
  then obtain runs where full: "?loop ?cap = Some runs" by (auto simp only: not_None_eq)
  have r: "ranges_from ?dirty o1 (o1 + n) (page_of o1) runs" using dirty_loop_spec[OF full] n by auto
  have "covers runs a = ?dirty (page_of a)" if "a \<in> byte_range o1 n" for a
  proof -
    have "page_of o1 \<le> page_of a" using that by (simp add: byte_range_def drop_bit_eq_div div_le_mono)
    with r that show ?thesis by (simp add: ranges_from_def byte_range_def)
  qed
  moreover have "\<forall>(s, k) \<in> set runs. 0 < k \<and> o1 \<le> s \<and> s + k \<le> o1 + n"
    using r unfolding ranges_from_def by fast
  moreover have "apart runs" using r by (simp add: ranges_from_def)
  ultimately have runs: "runs_of ?dirty o1 n runs" by (simp add: runs_of_def)
  have "?loop cap = (if length runs \<le> cap then Some runs else None)"
    by (rule dirty_loop_capacity[OF full]) simp_all
  then have answer: "avz_guest_memory_dirty_ranges m o1 n after through cap = (if length runs \<le> cap then runs else [(o1, n)])"
    using assms by (auto simp: avz_guest_memory_dirty_ranges_def Let_def)
  with runs show ?thesis by (intro exI conjI)
qed

lemma dirty_page_reported:
  assumes "in_range m o1 n" "0 < cap" "after \<le> through" "x \<in> byte_range o1 n"
    "page_dirty_between m after through (page_of x)"
  shows "covers (avz_guest_memory_dirty_ranges m o1 n after through cap) x"
proof -
  obtain runs where "runs_of (page_dirty_between m after through) o1 n runs"
    "avz_guest_memory_dirty_ranges m o1 n after through cap = (if length runs \<le> cap then runs else [(o1, n)])"
    using dirty_ranges_answer[OF assms(1-3)] by (elim exE conjE)
  then show ?thesis using assms(4,5) by (simp add: runs_of_def) (simp add: byte_range_def)
qed

text \<open>
  C24: A query for dirty pages is answered exactly. There is one list of non-empty ranges in
  order, with gaps between them and inside the request, that covers a byte of the request
  exactly when its page was marked in the asked epochs. The answer is that list when it fits
  into the room of the caller, and the whole request when it does not, and only then.
\<close>
theorem dirty_ranges_exact:
  assumes "in_range m o1 n" "0 < cap" "after \<le> through"
  shows "\<exists>runs. (\<forall>rs. runs_of (page_dirty_between m after through) o1 n rs \<longleftrightarrow> rs = runs) \<and>
    avz_guest_memory_dirty_ranges m o1 n after through cap = (if length runs \<le> cap then runs else [(o1, n)])"
proof -
  obtain runs where runs: "runs_of (page_dirty_between m after through) o1 n runs"
    and answer: "avz_guest_memory_dirty_ranges m o1 n after through cap = (if length runs \<le> cap then runs else [(o1, n)])"
    using dirty_ranges_answer[OF assms] by (elim exE conjE)
  have "\<forall>rs. runs_of (page_dirty_between m after through) o1 n rs \<longleftrightarrow> rs = runs"
    using runs runs_unique[OF runs] by blast
  with answer show ?thesis by (intro exI conjI)
qed

text \<open>Of three pages the first and the last are dirty: two ranges when there is room for two.\<close>

definition striped_memory :: guest_memory where
  "striped_memory = demo_memory\<lparr>g_size := 12288, g_page_epochs := (\<lambda>p. if p = 1 then 0 else 3)\<rparr>"

theorem dirty_ranges_exact_witness:
  "avz_guest_memory_dirty_ranges striped_memory 0 12288 2 5 2 = [(0, 4096), (8192, 4096)] \<and>
   avz_guest_memory_dirty_ranges striped_memory 0 12288 2 5 1 = [(0, 12288)]"
proof -
  have r: "in_range striped_memory 0 12288" by (simp add: in_range_def striped_memory_def)
  have "covers [(0, 4096), (8192, 4096)] a = page_dirty_between striped_memory 2 5 (page_of a)"
    if "a \<in> byte_range 0 12288" for a
  proof -
    have "page_of a = 1 \<longleftrightarrow> 4096 \<le> a \<and> a < 8192" using page_bounds[of a 1] by simp
    then have "page_dirty_between striped_memory 2 5 (page_of a) \<longleftrightarrow> \<not> (4096 \<le> a \<and> a < 8192)"
      by (simp only: page_dirty_between_def striped_memory_def guest_memory.simps) simp
    then show ?thesis using that by (auto simp: byte_range_def)
  qed
  then have runs: "runs_of (page_dirty_between striped_memory 2 5) 0 12288 [(0, 4096), (8192, 4096)]"
    by (simp add: runs_of_def apart_def)
  have "avz_guest_memory_dirty_ranges striped_memory 0 12288 2 5 cap =
      (if 2 \<le> cap then [(0, 4096), (8192, 4096)] else [(0, 12288)])" if "0 < cap" for cap
  proof -
    note exact = dirty_ranges_exact[OF r that, of 2 5]
    have "(2 :: u64) \<le> 5" by simp
    from exact[OF this] obtain rs where u: "\<forall>rs'. runs_of (page_dirty_between striped_memory 2 5) 0 12288 rs' \<longleftrightarrow> rs' = rs"
      and e: "avz_guest_memory_dirty_ranges striped_memory 0 12288 2 5 cap = (if length rs \<le> cap then rs else [(0, 12288)])"
      by (elim exE conjE)
    have "rs = [(0, 4096), (8192, 4096)]" using u runs by simp
    then show ?thesis using e by simp
  qed
  from this[of 1] this[of 2] show ?thesis by simp
qed

subsection \<open>Marking pages\<close>

text \<open>
  The processors, each with its table of marked pages (\<open>dirty_hot\<close>), around the shared memory.
\<close>

record machine =
  m_memory :: guest_memory
  m_hot :: "nat \<Rightarrow> nat \<Rightarrow> dirty_hot_entry"

datatype machine_op = Processor_Store nat nat nat u64 | Shared memory_op

fun machine_step :: "machine_op \<Rightarrow> machine \<Rightarrow> machine" where
  "machine_step (Processor_Store cpu offset width v) s =
     (if in_range (m_memory s) offset width then
        let (_, hot, memory) = avz_fast_store 0 (word_of_nat offset) width v (m_hot s cpu) (m_memory s)
        in s\<lparr>m_memory := memory, m_hot := (m_hot s)(cpu := hot)\<rparr>
      else s)"
| "machine_step (Shared op) s = s\<lparr>m_memory := memory_step op (m_memory s)\<rparr>"

text \<open>
  The operations whose writes are announced as dirty pages: all but the device transfers, which
  the display is told of in other ways. A processor's store is made with its own table.
\<close>

fun marks_pages :: "machine_op \<Rightarrow> bool" where
  "marks_pages (Shared (Dma_Write _ _)) = False"
| "marks_pages (Shared (Cpu_Store _ _ _ _)) = False"
| "marks_pages _ = True"

definition epochs_ordered :: "guest_memory \<Rightarrow> bool" where
  "epochs_ordered m \<longleftrightarrow> (\<forall>p. g_page_epochs m p \<le> g_current_epoch m) \<and> g_size m < 2 ^ 64"

definition hot_sound :: "(nat \<Rightarrow> dirty_hot_entry) \<Rightarrow> guest_memory \<Rightarrow> bool" where
  "hot_sound hot m \<longleftrightarrow> (\<forall>slot. d_valid (hot slot) \<noteq> 0 \<longrightarrow> d_epoch (hot slot) \<le> g_page_epochs m (d_page (hot slot)))"

text \<open>The bytes may change inside the set; every changed page carries the epoch at least.\<close>

definition marked :: "nat set \<Rightarrow> guest_memory \<Rightarrow> guest_memory \<Rightarrow> bool" where
  "marked W m m' \<longleftrightarrow> (\<forall>a. a \<notin> W \<longrightarrow> g_bytes m' a = g_bytes m a) \<and> g_size m' = g_size m \<and>
     g_current_epoch m \<le> g_current_epoch m' \<and>
     (\<forall>p. g_page_epochs m p \<le> g_page_epochs m' p \<and> g_page_epochs m' p \<le> g_current_epoch m') \<and>
     (\<forall>a \<in> W. g_current_epoch m \<le> g_page_epochs m' (page_of a))"

lemma marked_refl: "epochs_ordered m \<Longrightarrow> marked {} m m"
  by (simp add: marked_def epochs_ordered_def)

lemma marked_ordered: "marked W m m' \<Longrightarrow> epochs_ordered m \<Longrightarrow> epochs_ordered m'"
  by (simp add: marked_def epochs_ordered_def)

lemma marked_trans:
  assumes "marked V m m'" "marked W m' m''" shows "marked (V \<union> W) m m''"
proof -
  have "g_page_epochs m p \<le> g_page_epochs m'' p" "g_page_epochs m' p \<le> g_page_epochs m'' p" for p
    using assms unfolding marked_def by (meson order.trans)+
  moreover have "g_current_epoch m \<le> g_page_epochs m'' (page_of a)" if "a \<in> V \<union> W" for a
    using that assms unfolding marked_def by (meson UnE order.trans)
  moreover have "g_current_epoch m \<le> g_current_epoch m''" using assms unfolding marked_def by (meson order.trans)
  ultimately show ?thesis using assms unfolding marked_def by simp
qed

lemma marked_hot: "marked W m m' \<Longrightarrow> hot_sound hot m \<Longrightarrow> hot_sound hot m'"
  unfolding marked_def hot_sound_def by (meson order.trans)

text \<open>The operations that change neither bytes nor epochs.\<close>

definition same_epochs :: "guest_memory \<Rightarrow> guest_memory \<Rightarrow> bool" where
  "same_epochs m m' \<longleftrightarrow> g_bytes m' = g_bytes m \<and> g_size m' = g_size m \<and> g_page_epochs m' = g_page_epochs m \<and>
     g_current_epoch m' = g_current_epoch m"

lemma same_epochs_trans [trans]: "same_epochs m m' \<Longrightarrow> same_epochs m' m'' \<Longrightarrow> same_epochs m m''"
  by (simp add: same_epochs_def)

lemma same_epochs_marked: "same_epochs m m' \<Longrightarrow> epochs_ordered m \<Longrightarrow> marked {} m m'"
  by (simp add: same_epochs_def marked_def epochs_ordered_def)

lemma marked_same_epochs: "marked W m m' \<Longrightarrow> same_epochs m' m'' \<Longrightarrow> marked W m m''"
  by (simp add: same_epochs_def marked_def)

lemma same_epochs_ops:
  "same_epochs m (avz_guest_memory_note_host_observation o1 n m)"
  "same_epochs m (avz_guest_memory_note_bulk_read o1 n m)"
  "same_epochs m (avz_guest_memory_mark_code_page a b m)"
  "same_epochs m (avz_guest_memory_note_exclusive_write_generation o1 n m)"
  "same_epochs m (note_code_write o1 n m)"
  "same_epochs m (avz_guest_memory_note_exclusive_observation o1 n m)"
proof -
  show "same_epochs m (avz_guest_memory_note_exclusive_write_generation o1 n m)"
  proof (cases "in_range m o1 n")
    case True
    then show ?thesis by (simp add: note_exclusive_closed same_epochs_def)
  next
    case False
    then show ?thesis by (auto simp: avz_guest_memory_note_exclusive_write_generation_def same_epochs_def)
  qed
qed (auto simp: same_epochs_def avz_guest_memory_note_host_observation_def avz_guest_memory_note_bulk_read_def
    avz_guest_memory_mark_code_page_def note_code_write_def avz_guest_memory_advance_code_mutation_epoch_def
    avz_guest_memory_note_page_write_generation_def next_ticket avz_guest_memory_note_exclusive_observation_def
    Let_def split: option.splits)

lemma same_epochs_notify:
  "same_epochs m (let m' = avz_guest_memory_note_exclusive_write_generation o1 n m
     in if b m' then note_code_write o2 n2 m' else m')"
  using same_epochs_ops(4)[of m o1 n] same_epochs_ops(5) same_epochs_trans by (auto simp: Let_def)

lemma page_of_range: "a \<in> byte_range o1 n \<Longrightarrow> page_of o1 \<le> page_of a \<and> page_of a \<le> page_of (o1 + n - 1)"
  by (auto simp: byte_range_def drop_bit_eq_div div_le_mono)

lemma mark_dirty_marked:
  assumes "epochs_ordered m" "in_range m o1 n"
  shows "marked (byte_range o1 n) m (avz_guest_memory_mark_dirty o1 n m)"
  using assms page_of_range[of _ o1 n]
  by (auto simp: marked_def avz_guest_memory_mark_dirty_def epochs_ordered_def)

lemma note_write_marked:
  assumes "epochs_ordered m"
  shows "marked (range_of m o1 n) m (avz_guest_memory_note_write o1 n m)"
proof (cases "in_range m o1 n")
  case True
  then show ?thesis
    using marked_same_epochs[OF mark_dirty_marked[OF assms True] same_epochs_notify[of _ o1 n
        "\<lambda>_. avz_guest_memory_range_may_contain_code m (word_of_nat o1) n 0" o1 n]]
    by (simp add: avz_guest_memory_note_write_def range_of_def Let_def)
next
  case False
  then show ?thesis using marked_refl[OF assms] by (simp add: avz_guest_memory_note_write_def range_of_def)
qed

lemma marked_bytes_first:
  "marked W (m\<lparr>g_bytes := b\<rparr>) m' \<Longrightarrow> (\<And>a. a \<notin> W \<Longrightarrow> b a = g_bytes m a) \<Longrightarrow> marked W m m'"
  by (simp add: marked_def)

lemma marked_bytes: "marked W m m' \<Longrightarrow> (\<And>a. a \<notin> W \<Longrightarrow> b a = g_bytes m a) \<Longrightarrow> marked W m (m'\<lparr>g_bytes := b\<rparr>)"
  by (simp add: marked_def)

lemma marked_statistics [simp]:
  "marked W m (m'\<lparr>g_exclusive_write_successes := c\<rparr>) = marked W m m'"
  "marked W m (m'\<lparr>g_exclusive_write_conflicts := c\<rparr>) = marked W m m'"
  "marked W m (m'\<lparr>g_exclusive_reads := c\<rparr>) = marked W m m'"
  "marked W m (m'\<lparr>g_exclusive_nonzero_reads := c\<rparr>) = marked W m m'"
  by (simp_all add: marked_def)

lemma word_less_inc: "(a :: u64) \<noteq> - 1 \<Longrightarrow> a < a + 1"
proof -
  assume "a \<noteq> - 1"
  then have "1 + a \<noteq> 0" by (metis add.commute eq_neg_iff_add_eq_0)
  then show ?thesis using unatSuc[of a] by (simp add: word_less_nat_alt add.commute)
qed

lemma epochs_ordered_bytes [simp]: "epochs_ordered (m\<lparr>g_bytes := b\<rparr>) = epochs_ordered m"
  by (simp add: epochs_ordered_def)

text \<open>A processor's own table lets it skip a page only when the page carries the epoch already.\<close>

lemma mark_pages_marked:
  assumes "epochs_ordered m" "hot_sound hot m"
    "for_each lo hi (mark_dirty_page (g_current_epoch m)) (hot, m) = (hot', m')"
  shows "marked {a. lo \<le> page_of a \<and> page_of a \<le> hi} m m' \<and> hot_sound hot' m' \<and> g_bytes m' = g_bytes m"
proof -
  have run: "marked {a. page_of a \<in> set ps} m (snd (fold (mark_dirty_page (g_current_epoch m)) ps (hot, m))) \<and>
      hot_sound (fst (fold (mark_dirty_page (g_current_epoch m)) ps (hot, m)))
        (snd (fold (mark_dirty_page (g_current_epoch m)) ps (hot, m))) \<and>
      same_epochs m ((snd (fold (mark_dirty_page (g_current_epoch m)) ps (hot, m)))\<lparr>g_page_epochs := g_page_epochs m\<rparr>)" for ps
  proof (induction ps rule: rev_induct)
    case Nil
    show ?case using marked_refl[OF assms(1)] assms(2) by (simp add: same_epochs_def)
  next
    case (snoc p ps)
    obtain h d where hd: "fold (mark_dirty_page (g_current_epoch m)) ps (hot, m) = (h, d)" by fastforce
    obtain h' d' where hd': "mark_dirty_page (g_current_epoch m) p (h, d) = (h', d')" by fastforce
    have e: "fold (mark_dirty_page (g_current_epoch m)) (ps @ [p]) (hot, m) = (h', d')" by (simp add: hd hd')
    have ih: "marked {a. page_of a \<in> set ps} m d" "hot_sound h d" "same_epochs m (d\<lparr>g_page_epochs := g_page_epochs m\<rparr>)"
      using snoc unfolding hd by simp_all
    show ?case
    proof (cases "d_valid (h (p mod 4096)) \<noteq> 0 \<and> d_page (h (p mod 4096)) = p \<and> d_epoch (h (p mod 4096)) = g_current_epoch m")
      case True
      then have "h' = h" "d' = d" using hd' by (simp_all add: mark_dirty_page_def)
      moreover have "g_current_epoch m \<le> g_page_epochs d p" using ih(2) True unfolding hot_sound_def by metis
      ultimately show ?thesis unfolding e using ih by (auto simp: marked_def)
    next
      case False
      then have d: "h' = h(p mod 4096 := \<lparr>d_page = p, d_epoch = g_current_epoch m, d_valid = 1\<rparr>)"
        "d' = d\<lparr>g_page_epochs := (g_page_epochs d)(p := g_current_epoch m)\<rparr>"
        using hd' by (simp_all add: mark_dirty_page_def Let_def split: if_splits)
      have u: "g_page_epochs d q \<le> g_current_epoch m" "g_page_epochs m q \<le> g_page_epochs d q" for q
        using ih(1,3) by (simp_all add: marked_def same_epochs_def)
      have "g_page_epochs m p \<le> g_current_epoch m" using u order.trans by blast
      moreover have "d_epoch (h slot) \<le> g_current_epoch m" if "d_valid (h slot) \<noteq> 0" for slot
        using ih(2) u(1) that order.trans unfolding hot_sound_def by blast
      ultimately show ?thesis unfolding e using ih unfolding d
        by (auto simp: marked_def hot_sound_def same_epochs_def)
    qed
  qed
  show ?thesis using run[of "[lo ..< Suc hi]"] assms(3)
    by (simp add: for_each_def same_epochs_def less_Suc_eq_le del: upt_Suc)
qed

lemma fast_store_marked:
  assumes "epochs_ordered m" "hot_sound hot m" "in_range m o1 w"
    "avz_fast_store 0 (word_of_nat o1) w v hot m = (c, hot', m')"
  shows "marked (byte_range o1 w) m m' \<and> hot_sound hot' m' \<and> g_bytes m' = avz_fast_store_value o1 w v (g_bytes m)"
proof -
  let ?m = "m\<lparr>g_bytes := avz_fast_store_value o1 w v (g_bytes m)\<rparr>"
  have o: "o1 < 2 ^ 64" using assms(1,3) by (auto simp: epochs_ordered_def in_range_def)
  have r: "in_range ?m o1 w" using assms(3) by (simp add: in_range_def)
  obtain h d where hd: "for_each (page_of o1) (page_of (o1 + w - 1)) (mark_dirty_page (g_current_epoch ?m)) (hot, ?m) = (h, d)"
    by fastforce
  have hs: "hot_sound hot ?m" using assms(2) by (simp add: hot_sound_def)
  from mark_pages_marked[OF _ hs hd] assms(1) have
    md: "marked {a. page_of o1 \<le> page_of a \<and> page_of a \<le> page_of (o1 + w - 1)} ?m d" "hot_sound h d"
      "g_bytes d = g_bytes ?m" by simp_all
  have "marked (byte_range o1 w) ?m d" using md(1,3) page_of_range[of _ o1 w] by (auto simp: marked_def)
  moreover have e: "same_epochs d m'" "hot' = h"
    using same_epochs_notify[of d o1 w "\<lambda>_. c" o1 w] assms(4) r hd
    by (auto simp: avz_fast_store_def avz_fast_mark_dirty_def ram_offset_0[OF o] Let_def)
  ultimately have k: "marked (byte_range o1 w) ?m m'" by (metis marked_same_epochs)
  have "marked (byte_range o1 w) m m'"
    by (rule marked_bytes_first[OF k]) (simp add: store_value_outside)
  moreover have "hot_sound hot' m'" using e md(2) by (simp add: hot_sound_def same_epochs_def)
  ultimately show ?thesis using e(1) md(3) by (simp add: same_epochs_def)
qed

subsection \<open>No write is lost\<close>

definition machine_ok :: "machine \<Rightarrow> bool" where
  "machine_ok s \<longleftrightarrow> epochs_ordered (m_memory s) \<and> (\<forall>cpu. hot_sound (m_hot s cpu) (m_memory s))"

lemma exclusive_write_marked:
  assumes "epochs_ordered m"
  shows "\<exists>W. marked W m (snd (avz_guest_memory_exclusive_write o1 w v g m))"
    "\<exists>W. marked W m (snd (avz_guest_memory_exclusive_write_pair o1 w v v' g m))"
proof -
  have w: "\<exists>W. marked W m (avz_guest_memory_note_write o1 n (m\<lparr>g_bytes := b\<rparr>))"
    if "\<And>a. a \<notin> byte_range o1 n \<Longrightarrow> b a = g_bytes m a" "in_range m o1 n" for n b
    using note_write_marked[of "m\<lparr>g_bytes := b\<rparr>" o1 n] assms that
    by - (rule exI[where x = "byte_range o1 n"], rule marked_bytes_first[where b = b], simp_all add: range_of_def)
  have r: "\<exists>W. marked W m m" using marked_refl[OF assms] by blast
  show "\<exists>W. marked W m (snd (avz_guest_memory_exclusive_write o1 w v g m))"
  proof (cases "avz_guest_memory_valid_exclusive_range m o1 w 1")
    case True
    then have "in_range m o1 w" using valid_exclusive_in_range[OF True] by simp
    from w[of w "avz_fast_store_value o1 w v (g_bytes m)", OF store_value_outside this] r True show ?thesis by (simp add: avz_guest_memory_exclusive_write_def Let_def)
  qed (use r in \<open>simp add: avz_guest_memory_exclusive_write_def\<close>)
  have o: "avz_fast_store_value (o1 + w) w v' (avz_fast_store_value o1 w v (g_bytes m)) a = g_bytes m a"
    if "a \<notin> byte_range o1 (w * 2)" for a
  proof -
    have "a \<notin> byte_range (o1 + w) w" "a \<notin> byte_range o1 w" using that by (auto simp: byte_range_def)
    then show ?thesis by (simp add: store_value_outside)
  qed
  show "\<exists>W. marked W m (snd (avz_guest_memory_exclusive_write_pair o1 w v v' g m))"
  proof (cases "avz_guest_memory_valid_exclusive_range m o1 w 2")
    case True
    from w[OF o valid_exclusive_in_range[OF True]] r True show ?thesis
      by (simp add: avz_guest_memory_exclusive_write_pair_def Let_def)
  qed (use r in \<open>simp add: avz_guest_memory_exclusive_write_pair_def\<close>)
qed

lemma memory_step_marked:
  assumes "epochs_ordered m" "marks_pages (Shared op)"
  shows "\<exists>W. marked W m (memory_step op m)"
proof (cases op)
  case (Store_U16 o1 v)
  have "\<exists>W. marked W m ((avz_guest_memory_note_write o1 2 m)\<lparr>g_bytes :=
      avz_fast_store_value o1 2 (ucast v) (g_bytes (avz_guest_memory_note_write o1 2 m))\<rparr>)" if "in_range m o1 2"
    using note_write_marked[OF assms(1), of o1 2] that
    by (intro exI[where x = "byte_range o1 2"] marked_bytes) (simp_all add: range_of_def note_write_bytes store_value_outside)
  then show ?thesis using Store_U16 marked_refl[OF assms(1)]
    by (auto simp: avz_guest_memory_store_u16_release_def Let_def in_range_def)
next
  case (Exclusive_Write o1 w v g)
  then show ?thesis using exclusive_write_marked(1)[OF assms(1)] by simp
next
  case (Exclusive_Write_Pair o1 w v v' g)
  then show ?thesis using exclusive_write_marked(2)[OF assms(1)] by simp
next
  case (Note_Write o1 n)
  then show ?thesis using note_write_marked[OF assms(1)] by auto
next
  case (Note_Device_Write o1 n)
  have "same_epochs m (avz_guest_memory_note_device_write o1 n m)"
    using same_epochs_trans[OF same_epochs_ops(1)[of m o1 n] same_epochs_notify[of _ o1 n
       "\<lambda>_. avz_guest_memory_range_may_contain_code (avz_guest_memory_note_host_observation o1 n m) (word_of_nat o1) n 0" o1 n]]
    by (auto simp: avz_guest_memory_note_device_write_def Let_def same_epochs_def)
  then show ?thesis using Note_Device_Write same_epochs_marked[OF _ assms(1)] by auto
next
  case (Mark_Dirty o1 n)
  then show ?thesis using mark_dirty_marked[OF assms(1)] marked_refl[OF assms(1)]
    by (cases "in_range m o1 n") (auto simp: avz_guest_memory_mark_dirty_def)
next
  case (Exclusive_Read o1 w)
  then show ?thesis using same_epochs_ops(6)[of m o1 w] assms(1)
    by (intro exI[where x = "{}"] same_epochs_marked)
      (auto simp: avz_guest_memory_exclusive_read_def Let_def same_epochs_def)
next
  case (Exclusive_Read_Pair o1 w)
  then show ?thesis using same_epochs_ops(6)[of m o1 "w * 2"] assms(1)
    by (intro exI[where x = "{}"] same_epochs_marked)
      (auto simp: avz_guest_memory_exclusive_read_pair_def Let_def same_epochs_def)
next
  case Advance_Dirty_Epoch
  have "g_current_epoch m \<le> g_current_epoch m + 1" if "g_current_epoch m \<noteq> - 1"
    using word_less_inc[OF that] by simp
  then show ?thesis using Advance_Dirty_Epoch assms(1)
    by (intro exI[where x = "{}"]) (auto simp: avz_guest_memory_advance_dirty_epoch_def marked_def epochs_ordered_def
      Let_def intro: order.trans)
next
  case (Mark_Code_Page a b)
  then show ?thesis using same_epochs_marked[OF same_epochs_ops(3) assms(1)] by auto
qed (use assms same_epochs_ops(2)[of m] in \<open>auto intro: same_epochs_marked\<close>)

lemma machine_step_marked:
  assumes "machine_ok s" "marks_pages op"
  shows "machine_ok (machine_step op s) \<and> (\<exists>W. marked W (m_memory s) (m_memory (machine_step op s)))"
proof (cases op)
  case (Processor_Store cpu o1 w v)
  obtain c h m where f: "avz_fast_store 0 (word_of_nat o1) w v (m_hot s cpu) (m_memory s) = (c, h, m)"
    by (metis prod.exhaust)
  show ?thesis
  proof (cases "in_range (m_memory s) o1 w")
    case True
    from assms(1) have "epochs_ordered (m_memory s)" "hot_sound (m_hot s cpu) (m_memory s)" by (simp_all add: machine_ok_def)
    note k = fast_store_marked[OF this True f]
    then show ?thesis using assms(1) Processor_Store True f marked_hot marked_ordered
      by (fastforce simp: machine_ok_def)
  next
    case False
    then show ?thesis using assms(1) Processor_Store marked_refl by (auto simp: machine_ok_def)
  qed
next
  case (Shared mop)
  then show ?thesis using memory_step_marked[of "m_memory s" mop] assms marked_hot marked_ordered
    by (fastforce simp: machine_ok_def)
qed

lemma machine_run_marked:
  assumes "machine_ok s" "\<forall>op \<in> set ops. marks_pages op"
  shows "machine_ok (fold machine_step ops s) \<and> (\<exists>W. marked W (m_memory s) (m_memory (fold machine_step ops s)))"
  using assms
proof (induction ops arbitrary: s)
  case Nil
  then show ?case using marked_refl by (auto simp: machine_ok_def)
next
  case (Cons op ops)
  have o: "machine_ok (machine_step op s)" "\<exists>W. marked W (m_memory s) (m_memory (machine_step op s))"
    using machine_step_marked[OF Cons.prems(1)] Cons.prems(2) by simp_all
  then show ?case using Cons.IH[OF o(1)] Cons.prems(2) by (auto dest: marked_trans)
qed

text \<open>
  C31: The tables of marked pages are sound. In every sequence of stores of processors,
  announcements of devices and collections, each of them taken as one atomic step, an entry of a
  processor's table never claims more than the shared page says: the page carries the entry's
  epoch or a later one, and no page is ahead of the current epoch. The code does not make a store
  and its mark atomic; what an epoch that ends between the two does is the lemma
  \<open>late_mark_breaks_the_other_table\<close>.
\<close>
theorem hot_tables_sound:
  assumes "machine_ok s" "\<forall>op \<in> set ops. marks_pages op"
  shows "machine_ok (fold machine_step ops s)"
  using machine_run_marked[OF assms] by blast

text \<open>
  C23: No write is lost to the display, as long as each operation is one atomic step. Take the
  epoch \<open>a\<close> that one collection completed and the epoch \<open>b\<close> completed by a later one. Any byte of
  the request that processors changed in between, by plain or exclusive stores, is in the ranges
  that the query for \<open>(a, b]\<close> answers, even though each processor skips the pages its own table
  remembers. The code reads the epoch and marks the page in separate steps; a collection between
  the two can lose the write (lemma \<open>late_mark_is_missed\<close>).
\<close>
theorem no_write_is_lost:
  assumes "machine_ok s" "\<forall>op \<in> set ops. marks_pages op"
    and "avz_guest_memory_advance_dirty_epoch (m_memory s) = (a, m1)" "a \<noteq> - 1"
    and "s2 = fold machine_step ops (s\<lparr>m_memory := m1\<rparr>)"
    and "avz_guest_memory_advance_dirty_epoch (m_memory s2) = (b, m3)"
    and "in_range m3 o1 n" "0 < cap" "x \<in> byte_range o1 n" "g_bytes (m_memory s2) x \<noteq> g_bytes m1 x"
  shows "covers (avz_guest_memory_dirty_ranges m3 o1 n a b cap) x"
proof -
  let ?s = "s\<lparr>m_memory := m1\<rparr>"
  have s1: "?s = machine_step (Shared Advance_Dirty_Epoch) s" using assms(3) by simp
  have ok: "machine_ok ?s" unfolding s1 using machine_step_marked[OF assms(1), of "Shared Advance_Dirty_Epoch"] by simp
  obtain W where w: "marked W m1 (m_memory s2)" using machine_run_marked[OF ok assms(2)] assms(5) by auto
  have x: "x \<in> W" using w assms(10) by (auto simp: marked_def)
  have m1: "g_current_epoch m1 = a + 1"
    using assms(3,4) by (auto simp: avz_guest_memory_advance_dirty_epoch_def Let_def split: if_splits)
  note a = word_less_inc[OF assms(4)]
  have b: "b = g_current_epoch (m_memory s2)" "g_page_epochs m3 = g_page_epochs (m_memory s2)"
    using assms(6) by (auto simp: avz_guest_memory_advance_dirty_epoch_def Let_def split: if_splits)
  have "a + 1 \<le> g_page_epochs m3 (page_of x)" "g_page_epochs m3 (page_of x) \<le> b"
    using w x m1 b by (auto simp: marked_def)
  then have "page_dirty_between m3 a b (page_of x)" "a \<le> b" using a by (auto simp: page_dirty_between_def)
  then show ?thesis using dirty_page_reported[OF assms(7,8)] assms(9) by blast
qed

text \<open>
  Witness state: two processors with empty tables around a fresh memory; processor 0 stores a
  byte, the display collects, processor 1 stores another byte of the same page.
\<close>

definition demo_machine :: machine where
  "demo_machine = \<lparr>m_memory = demo_memory, m_hot = (\<lambda>_ _. \<lparr>d_page = 0, d_epoch = 0, d_valid = 0\<rparr>)\<rparr>"

lemma demo_epochs: "g_page_epochs demo_memory = (\<lambda>_. 0)" "g_current_epoch demo_memory = 1"
  by (simp_all add: demo_memory_def avz_guest_memory_create_def demo_slots drop_bit_eq_div)

lemma demo_machine_ok: "machine_ok demo_machine"
  by (simp add: machine_ok_def demo_machine_def epochs_ordered_def hot_sound_def demo_fields demo_epochs)

theorem hot_tables_sound_witness:
  "machine_ok (fold machine_step [Processor_Store 0 16 1 9, Shared Advance_Dirty_Epoch, Processor_Store 1 17 1 8] demo_machine)"
  by (rule hot_tables_sound[OF demo_machine_ok]) simp

definition demo_collected :: machine where
  "demo_collected = demo_machine\<lparr>m_memory := snd (avz_guest_memory_advance_dirty_epoch demo_memory)\<rparr>"

theorem no_write_is_lost_witness:
  "\<exists>b m3. avz_guest_memory_advance_dirty_epoch (m_memory (fold machine_step [Processor_Store 0 16 1 9] demo_collected)) = (b, m3) \<and>
     covers (avz_guest_memory_dirty_ranges m3 0 4096 1 b 4) 16"
proof -
  let ?s2 = "fold machine_step [Processor_Store 0 16 1 9] demo_collected"
  let ?b = "avz_guest_memory_advance_dirty_epoch (m_memory ?s2)"
  have a: "avz_guest_memory_advance_dirty_epoch (m_memory demo_machine) = (1, m_memory demo_collected)"
    by (simp add: demo_machine_def demo_collected_def avz_guest_memory_advance_dirty_epoch_def demo_epochs)
  have c: "?s2 = fold machine_step [Processor_Store 0 16 1 9] (demo_machine\<lparr>m_memory := m_memory demo_collected\<rparr>)"
    by (simp add: demo_collected_def)
  obtain W where w: "marked W (m_memory demo_machine) (m_memory (fold machine_step
      [Shared Advance_Dirty_Epoch, Processor_Store 0 16 1 9] demo_machine))"
    using machine_run_marked[OF demo_machine_ok] by (metis empty_iff empty_set list.set_cases marks_pages.simps set_ConsD)
  then have "g_size (m_memory ?s2) = 4096"
    by (simp add: marked_def demo_machine_def demo_collected_def demo_fields)
  then have r: "in_range (snd ?b) 0 4096"
    by (simp add: in_range_def avz_guest_memory_advance_dirty_epoch_def Let_def)
  have mm: "m_memory demo_collected = demo_memory\<lparr>g_current_epoch := 2\<rparr>"
    by (simp add: demo_collected_def avz_guest_memory_advance_dirty_epoch_def Let_def demo_epochs)
  obtain cc h m where f: "avz_fast_store 0 (word_of_nat 16) 1 9 (m_hot demo_collected 0) (m_memory demo_collected) = (cc, h, m)"
    by (metis prod.exhaust)
  have ri: "in_range (m_memory demo_collected) 16 1" by (simp add: mm in_range_def demo_fields)
  have "g_bytes m = avz_fast_store_value 16 1 9 (g_bytes (m_memory demo_collected))"
  proof -
    have "epochs_ordered (m_memory demo_collected)" unfolding mm by (simp add: epochs_ordered_def demo_epochs demo_fields)
    moreover have "hot_sound (m_hot demo_collected 0) (m_memory demo_collected)"
      by (simp add: hot_sound_def demo_collected_def demo_machine_def)
    ultimately show ?thesis using fast_store_marked[OF _ _ ri f] by simp
  qed
  then have "g_bytes (m_memory ?s2) 16 = 9" using ri f by (simp add: store_value_at byte_range_def)
  moreover have "g_bytes (m_memory demo_collected) 16 = 0"
    by (simp add: demo_collected_def avz_guest_memory_advance_dirty_epoch_def Let_def demo_fields)
  ultimately have x: "g_bytes (m_memory ?s2) 16 \<noteq> g_bytes (m_memory demo_collected) 16" by simp
  have "covers (avz_guest_memory_dirty_ranges (snd ?b) 0 4096 1 (fst ?b) 4) 16"
    by (rule no_write_is_lost[OF demo_machine_ok _ a _ c prod.collapse[symmetric] r _ _ x]) (simp_all add: byte_range_def)
  then show ?thesis by (metis prod.collapse)
qed

subsection \<open>Marking late\<close>

text \<open>
  The notification reads the current epoch, and marks the page with it afterwards, without a
  lock that the collector takes. When the collector completes the epoch in between, the page
  gets an epoch that no later query asks for; and when another processor has marked the page in
  the new epoch already, the late mark undoes it, while that processor's table keeps claiming it.
\<close>

lemma late_mark_is_missed:
  assumes "epoch = g_current_epoch m" "avz_guest_memory_advance_dirty_epoch m = (a, m1)"
    and "d_valid (hot (page mod 4096)) = 0" "mark_dirty_page epoch page (hot, m1) = (hot', m2)"
  shows "\<not> page_dirty_between m2 a b page"
  using assms by (auto simp: mark_dirty_page_def avz_guest_memory_advance_dirty_epoch_def Let_def
    page_dirty_between_def split: if_splits)

lemma late_mark_breaks_the_other_table:
  assumes "epoch = g_current_epoch m" "epoch \<noteq> - 1" "avz_guest_memory_advance_dirty_epoch m = (a, m1)"
    and "mark_dirty_page (g_current_epoch m1) page (hot1, m1) = (hot1', m2)"
    and "d_valid (hot0 (page mod 4096)) = 0" "d_valid (hot1 (page mod 4096)) = 0"
    and "mark_dirty_page epoch page (hot0, m2) = (hot0', m3)"
  shows "\<not> hot_sound hot1' m3"
proof -
  have "g_current_epoch m1 = epoch + 1"
    using assms(1-3) by (auto simp: avz_guest_memory_advance_dirty_epoch_def Let_def)
  moreover have "hot1' (page mod 4096) = \<lparr>d_page = page, d_epoch = g_current_epoch m1, d_valid = 1\<rparr>"
    using assms(4,6) by (auto simp: mark_dirty_page_def Let_def)
  moreover have "g_page_epochs m3 page = epoch"
    using assms(5,7) by (auto simp: mark_dirty_page_def Let_def)
  ultimately show ?thesis using word_less_inc[OF assms(2)]
    unfolding hot_sound_def by (auto intro!: exI[where x = "page mod 4096"] simp: not_le)
qed

end
