(* ===== verification/SemanticLoops.thy ===== *)
theory SemanticLoops
  imports RunBlock
begin

text \<open>
  The semantic fast paths of \<open>ARM64VizNative.c\<close>: instruction sequences that compiled guest
  code repeats often (a PLT thunk, a string scan, a hash loop, a hash chain walk, a memory
  compare, a fill loop) are recognised by their shape or by their raw words and executed in one
  step. This theory has the recognisers and the step each performs; the theories after it prove
  that the step is what the interpreter would have done.

  A result is \<open>Some n\<close> for the code's \<open>return 1\<close> with \<open>n\<close> executed steps and \<open>None\<close> for
  \<open>return 0\<close>; the memory context is returned in both cases, because a callback may have run.
  Step counts and byte counts (\<open>uint64_t\<close> bounded by the step budget) are \<open>nat\<close>.
\<close>

type_synonym 'm fast_step = "nat option \<times> cpu \<times> 'm"

subsection \<open>The PLT thunk\<close>

definition avz_native_is_elf_plt_thunk_shape :: "instr list \<Rightarrow> bool" where
  "avz_native_is_elf_plt_thunk_shape is =
    (length is = 4 \<and>
     (let adrp = is ! 0; load = is ! 1; add = is ! 2; branch = is ! 3;
          base_register = i_rd adrp; target_register = i_rt load
      in i_kind adrp = AVZ_NATIVE_OP_ADR \<and> i_flags adrp AND 1 \<noteq> 0 \<and> base_register < 31 \<and>
         i_kind load = AVZ_NATIVE_OP_LOAD_STORE_UNSIGNED_IMMEDIATE \<and> i_flags load = 1 \<and>
         i_width load = 8 \<and> i_rn load = base_register \<and> target_register < 31 \<and>
         target_register \<noteq> base_register \<and>
         i_kind add = AVZ_NATIVE_OP_ADD_SUB_IMMEDIATE \<and> i_flags add = 0 \<and> i_bits add = 64 \<and>
         i_rn add = base_register \<and> i_rd add = base_register \<and>
         i_kind branch = AVZ_NATIVE_OP_REGISTER_BRANCH \<and> i_flags branch = 0 \<and>
         i_rn branch = target_register))"

text \<open>The executor repeats the conditions of the shape; the budget must allow all four steps.\<close>

definition try_execute_elf_plt_thunk ::
  "'m callbacks \<Rightarrow> instr list \<Rightarrow> nat \<Rightarrow> cpu \<Rightarrow> 'm \<Rightarrow> 'm fast_step" where
  "try_execute_elf_plt_thunk k is remaining_steps cpu m =
    (if \<not> avz_native_is_elf_plt_thunk_shape is \<or> remaining_steps < 4 then (None, cpu, m)
     else
       let adrp = is ! 0; load = is ! 1; add = is ! 2;
           base_register = unat (i_rd adrp);
           target_register = reg_t load;
           initial_pc = c_pc cpu;
           page = add_signed_offset (initial_pc AND NOT 0xfff) (i_immediate adrp);
           load_address = page + i_immediate load
       in case avz_native_dispatch_memory_read
                 (k\<lparr>k_uses_fast_memory_context := k_fast_read_memory k\<rparr>) m load_address 8 of
            (None, m) \<Rightarrow>
              (Some 1, (write_register base_register page cpu)\<lparr>c_pc := initial_pc + 4\<rparr>, m)
          | (Some target, m) \<Rightarrow>
              let cpu = write_register target_register target cpu;
                  cpu = write_register base_register (page + i_immediate add) cpu
              in (Some 4, cpu\<lparr>c_pc := target\<rparr>, m))"

subsection \<open>The byte string scan\<close>

definition byte_string_scan_words :: "u32 list" where
  "byte_string_scan_words = [0x91000421, 0x39400022, 0x35ffffc2]"

text \<open>The bytes left in the page at an address: \<open>4096 - (address & 4095)\<close>.\<close>

definition page_bytes :: "u64 \<Rightarrow> nat" where
  "page_bytes address = 4096 - unat (address AND 4095)"

text \<open>
  The loop over the snapshot: the number of bytes consumed, the last one, and whether it was
  the terminator.
\<close>

fun scan_bytes :: "u8 list \<Rightarrow> nat \<Rightarrow> u8 \<Rightarrow> nat \<times> u8 \<times> bool" where
  "scan_bytes [] completed current = (completed, current, False)"
| "scan_bytes (b # bs) completed current =
    (if b = 0 then (completed + 1, b, True) else scan_bytes bs (completed + 1) b)"

definition try_execute_byte_string_scan_loop ::
  "'m callbacks \<Rightarrow> instr list \<Rightarrow> u64 \<Rightarrow> nat \<Rightarrow> cpu \<Rightarrow> 'm \<Rightarrow> 'm fast_step" where
  "try_execute_byte_string_scan_loop k is base_pc remaining_steps cpu m =
    (if remaining_steps < 3 \<or> \<not> k_fast_read_memory k \<or> c_pc cpu \<noteq> base_pc \<or>
        map i_raw is \<noteq> byte_string_scan_words then (None, cpu, m)
     else
       let cursor = read_register cpu 1 in
       if cursor = - 1 then (None, cpu, m)
       else
         let first_address = cursor + 1;
             iterations = min (min (remaining_steps div 3) 64) (page_bytes first_address)
         in case f_read_bytes (k_fast k) m first_address iterations of
              (None, m) \<Rightarrow> (None, cpu, m)
            | (Some bytes, m) \<Rightarrow>
                let (completed, current, completed_string) = scan_bytes bytes 0 0;
                    cpu = write_register 1 (cursor + word_of_nat completed) cpu;
                    cpu = write_register 2 (ucast current) cpu
                in (Some (completed * 3),
                    cpu\<lparr>c_pc := if completed_string then base_pc + 0x0c else base_pc\<rparr>, m))"

subsection \<open>The GLib string hash\<close>

definition glib_djb2_words :: "u32 list" where
  "glib_djb2_words = [0x11000718, 0x0b1a175a, 0x0b22835a, 0x38784822, 0x35ffff82]"

record djb2_state =
  j_index :: u32
  j_hash :: u32
  j_current :: u8

fun djb2_loop :: "u8 list \<Rightarrow> nat \<Rightarrow> djb2_state \<Rightarrow> nat \<times> djb2_state \<times> bool" where
  "djb2_loop [] completed s = (completed, s, False)"
| "djb2_loop (b # bs) completed s =
    (let s = \<lparr>j_index = j_index s + 1,
              j_hash = j_hash s * 33 + scast (j_current s), j_current = b\<rparr>
     in if b = 0 then (completed + 1, s, True) else djb2_loop bs (completed + 1) s)"

definition try_execute_glib_djb2_string_hash_loop ::
  "'m callbacks \<Rightarrow> instr list \<Rightarrow> u64 \<Rightarrow> nat \<Rightarrow> cpu \<Rightarrow> 'm \<Rightarrow> 'm fast_step" where
  "try_execute_glib_djb2_string_hash_loop k is base_pc remaining_steps cpu m =
    (if remaining_steps < 5 \<or> \<not> k_fast_read_memory k \<or> c_pc cpu \<noteq> base_pc \<or>
        map i_raw is \<noteq> glib_djb2_words then (None, cpu, m)
     else
       let string_address = read_register cpu 1;
           string_index = lo32 (read_register cpu 24);
           next_address = string_address + zext64 string_index + 1
       in if next_address < string_address then (None, cpu, m)
       else
         let iterations = min (min (remaining_steps div 5) 64) (page_bytes next_address)
         in case f_read_bytes (k_fast k) m next_address iterations of
              (None, m) \<Rightarrow> (None, cpu, m)
            | (Some next_bytes, m) \<Rightarrow>
                let (completed, s, completed_string) =
                      djb2_loop next_bytes 0 \<lparr>j_index = string_index,
                        j_hash = lo32 (read_register cpu 26), j_current = ucast (read_register cpu 2)\<rparr>;
                    cpu = write_register 24 (zext64 (j_index s)) cpu;
                    cpu = write_register 26 (zext64 (j_hash s)) cpu;
                    cpu = write_register 2 (ucast (j_current s)) cpu
                in (Some (completed * 5),
                    cpu\<lparr>c_pc := if completed_string then base_pc + 0x14 else base_pc\<rparr>, m))"

subsection \<open>The fill loop of store pairs\<close>

text \<open>
  The scan of the stores: the running offset of the base register and the range of bytes they
  cover, relative to the base at the loop's head. The stores must be adjacent and in order.
\<close>

fun store_pair_scan ::
  "u8 \<Rightarrow> u8 \<Rightarrow> instr list \<Rightarrow> u64 \<Rightarrow> (u64 \<times> u64) option \<Rightarrow> (u64 \<times> (u64 \<times> u64) option) option" where
  "store_pair_scan base_register fill_register [] relative_base span = Some (relative_base, span)"
| "store_pair_scan base_register fill_register (store # stores) relative_base span =
    (if i_kind store \<noteq> AVZ_NATIVE_OP_LOAD_STORE_PAIR \<or> i_flags store AND 1 \<noteq> 0 \<or>
        i_width store \<noteq> 8 \<or> i_bits store \<noteq> 64 \<or> i_rn store \<noteq> base_register \<or>
        i_rt store \<noteq> fill_register \<or> i_rd store \<noteq> fill_register then None
     else
       let first = relative_base + i_immediate store;
           stop = first + 16;
           next_base = (if i_flags store AND 8 \<noteq> 0 then relative_base + i_immediate2 store
                        else relative_base)
       in if sint stop \<le> sint first then None
          else case span of
                 None \<Rightarrow>
                   store_pair_scan base_register fill_register stores next_base (Some (first, stop))
               | Some (range_start, range_end) \<Rightarrow>
                   if first = range_end then
                     store_pair_scan base_register fill_register stores next_base
                       (Some (range_start, stop))
                   else None)"

text \<open>
  The loop that predicts how often the stores run: the iterations, the counter and the state
  of the flags after the last one, and whether the branch fell through.
\<close>

fun fill_iterations :: "u64 \<Rightarrow> u8 \<Rightarrow> nat \<Rightarrow> nat \<Rightarrow> u64 \<Rightarrow> u64 \<Rightarrow> nat \<times> u64 \<times> u64 \<times> bool" where
  "fill_iterations decrement condition 0 iterations counter pstate = (iterations, counter, pstate, False)"
| "fill_iterations decrement condition (Suc left) iterations counter pstate =
    (let (flags, result_value) = add_with_carry_nzcv counter (NOT decrement) True 64;
         final_pstate = (pstate AND 0xffffffff0fffffff) OR (flags AND 0xf0000000)
     in if condition_holds condition final_pstate
        then fill_iterations decrement condition left (iterations + 1) result_value final_pstate
        else (iterations + 1, result_value, final_pstate, True))"

definition try_execute_store_pair_fill_loop ::
  "'m callbacks \<Rightarrow> instr list \<Rightarrow> u64 \<Rightarrow> nat \<Rightarrow> cpu \<Rightarrow> 'm \<Rightarrow> 'm fast_step" where
  "try_execute_store_pair_fill_loop k is base_pc remaining_steps cpu m =
    (case k_fill_memory k of
       None \<Rightarrow> (None, cpu, m)
     | Some fill_memory \<Rightarrow>
    if remaining_steps = 0 \<or> c_pc cpu \<noteq> base_pc \<or> length is < 3 then (None, cpu, m)
    else
      let subtract = is ! (length is - 2);
          branch = is ! (length is - 1);
          branch_pc = base_pc + (word_of_nat (length is) - 1) * 4
      in if i_kind branch \<noteq> AVZ_NATIVE_OP_BCOND \<or> branch_pc + i_immediate branch \<noteq> base_pc \<or>
            i_kind subtract \<noteq> AVZ_NATIVE_OP_ADD_SUB_IMMEDIATE \<or> i_flags subtract AND 3 \<noteq> 3 \<or>
            i_rd subtract \<noteq> i_rn subtract \<or> i_bits subtract \<noteq> 64 \<or>
            sint (i_immediate subtract) \<le> 0 then (None, cpu, m)
      else
        let base_register = i_rn (is ! 0);
            fill_register = i_rt (is ! 0)
        in if i_width (is ! 0) \<noteq> 8 \<or> fill_register = base_register \<or>
              i_rd subtract = base_register then (None, cpu, m)
        else case store_pair_scan base_register fill_register (take (length is - 2) is) 0 None of
          None \<Rightarrow> (None, cpu, m)
        | Some (_, None) \<Rightarrow> (None, cpu, m)
        | Some (relative_base, Some (range_start, range_end)) \<Rightarrow>
            if sint range_end \<le> sint range_start \<or> sint relative_base \<le> 0 \<or>
               range_start + relative_base \<noteq> range_end then (None, cpu, m)
            else
              let max_iterations = remaining_steps div length is in
              if max_iterations = 0 then (None, cpu, m)
              else
                let (iterations, final_counter, final_pstate, fell_through) =
                      fill_iterations (i_immediate subtract) (i_condition branch) max_iterations 0
                        (read_register cpu (reg_n subtract)) (c_pstate cpu);
                    bytes_per_iteration = range_end - range_start
                in if bytes_per_iteration = 0 \<or> int iterations > (2 ^ 64 - 1) div uint bytes_per_iteration
                   then (None, cpu, m)
                   else
                     let base = read_base_register cpu (unat base_register);
                         pattern = read_register cpu (unat fill_register) AND mask_for_bits 64
                     in case fill_memory m (base + range_start)
                               (word_of_nat iterations * bytes_per_iteration) pattern 8 of
                          (False, m) \<Rightarrow> (None, cpu, m)
                        | (True, m) \<Rightarrow>
                            let cpu = clear_exclusive_reservation cpu;
                                cpu = write_base_register (unat base_register)
                                        (base + relative_base * word_of_nat iterations) cpu;
                                cpu = write_register (reg_d subtract) final_counter cpu
                            in (Some (iterations * length is),
                                cpu\<lparr>c_pstate := final_pstate,
                                    c_pc := if fell_through then branch_pc + 4 else base_pc\<rparr>, m))"

end
