(* ===== verification/BlockEngine.thy ===== *)
theory BlockEngine
  imports SemanticLoops
begin

text \<open>
  The two portable engines for a decoded block in \<open>ARM64VizNative.c\<close>:
  \<open>avz_native_run_decoded_block_registers\<close>, which tries the store pair fill loop before every
  instruction, and \<open>avz_native_run_decoded_block_full_generic\<close>, which only interprets. Both run
  until the step budget is spent, the processor halts, the program counter leaves the block or an
  instruction is refused.
\<close>

type_synonym 'm executor = "'m callbacks \<Rightarrow> instr \<Rightarrow> cpu \<Rightarrow> 'm \<Rightarrow> 'm step"

record block_result =
  r_steps :: nat
  r_fast_path_steps :: nat
  r_fast_path_hits :: nat
  r_status :: block_status

subsection \<open>Fetching in a block\<close>

text \<open>\<open>(cpu.pc - base_pc) >> 2\<close>, where the program counter is at an instruction of the block.\<close>

definition block_fetch :: "instr list \<Rightarrow> u64 \<Rightarrow> u64 \<Rightarrow> instr option" where
  "block_fetch is base_pc pc =
    (if pc < base_pc \<or> (pc - base_pc) AND 3 \<noteq> 0 then None
     else let index = unat (shr (pc - base_pc) 2)
          in if length is \<le> index then None else Some (is ! index))"

subsection \<open>The fill loop makes progress\<close>

lemma fill_iterations_bound:
  "fill_iterations d c left n counter p = (iterations, counter', p', f) \<Longrightarrow>
   n \<le> iterations \<and> iterations \<le> n + left \<and> (0 < left \<longrightarrow> n < iterations)"
proof (induction d c left n counter p rule: fill_iterations.induct)
  case (2 d c left n counter p)
  then show ?case by (fastforce simp: Let_def split: prod.splits if_splits)
qed simp

lemma fill_loop_steps:
  assumes "try_execute_store_pair_fill_loop k is base_pc remaining cpu m = (Some n, cpu', m')"
  shows "0 < n \<and> n \<le> remaining"
proof -
  let ?max = "remaining div length is"
  obtain d c x p it cf pf f where it: "fill_iterations d c ?max 0 x p = (it, cf, pf, f)" "?max \<noteq> 0"
    "n = it * length is" "3 \<le> length is"
    using assms by (auto simp: try_execute_store_pair_fill_loop_def Let_def split: option.splits if_splits prod.splits bool.splits)
  then have "0 < it" "it \<le> ?max" using fill_iterations_bound[OF it(1)] by auto
  then have "it * length is \<le> ?max * length is" by simp
  also have "\<dots> \<le> remaining" by simp
  finally show ?thesis using it(3,4) \<open>0 < it\<close> by auto
qed

subsection \<open>The engine with the fill loop\<close>

function decoded_block_loop ::
  "'m executor \<Rightarrow> 'm callbacks \<Rightarrow> instr list \<Rightarrow> u64 \<Rightarrow> nat \<Rightarrow> block_result \<Rightarrow> cpu \<Rightarrow> 'm \<Rightarrow>
   block_result \<times> cpu \<times> 'm" where
  "decoded_block_loop vec k is base_pc left result cpu m =
    (if left = 0 then (result\<lparr>r_status := MAX_STEPS\<rparr>, cpu, m)
     else if c_halted cpu \<noteq> 0 then (result\<lparr>r_status := HALTED\<rparr>, cpu, m)
     else case block_fetch is base_pc (c_pc cpu) of
            None \<Rightarrow> (result\<lparr>r_status := OUTSIDE_BLOCK\<rparr>, cpu, m)
          | Some instruction \<Rightarrow>
              (case try_execute_store_pair_fill_loop k is base_pc left cpu m of
                 (Some fast_steps, cpu, m) \<Rightarrow>
                   decoded_block_loop vec k is base_pc (left - fast_steps)
                     (result\<lparr>r_steps := r_steps result + fast_steps,
                             r_fast_path_steps := r_fast_path_steps result + fast_steps,
                             r_fast_path_hits := r_fast_path_hits result + 1\<rparr>) cpu m
               | (None, cpu, m) \<Rightarrow>
                   (case execute_decoded_instruction vec k instruction cpu m of
                      (False, cpu, m) \<Rightarrow>
                        (result\<lparr>r_status := UNSUPPORTED (i_raw instruction)\<rparr>, cpu, m)
                    | (True, cpu, m) \<Rightarrow>
                        let result = result\<lparr>r_steps := r_steps result + 1\<rparr>
                        in if c_halted cpu \<noteq> 0 then (result\<lparr>r_status := HALTED\<rparr>, cpu, m)
                           else decoded_block_loop vec k is base_pc (left - 1) result cpu m)))"
  by pat_completeness auto
termination
  by (relation "measure (\<lambda>(_, _, _, _, left, _). left)")
    (auto dest!: fill_loop_steps sym[of "(Some _, _)"])

declare decoded_block_loop.simps [simp del]

abbreviation empty_result :: block_result where
  "empty_result \<equiv> \<lparr>r_steps = 0, r_fast_path_steps = 0, r_fast_path_hits = 0, r_status = OUTSIDE_BLOCK\<rparr>"

text \<open>
  The call gets the integer registers only: the others start at zero and are dropped at the end,
  and the callbacks for system registers, exceptions and waiting are null.
\<close>

definition integer_callbacks :: "'m callbacks \<Rightarrow> 'm callbacks" where
  "integer_callbacks k = k\<lparr>k_read_system_register := None, k_write_system_register := None,
     k_system_instruction := None, k_exception_return := None, k_synchronous_exception := None,
     k_wait := None, k_uses_fast_memory_context := False\<rparr>"

definition integer_registers :: "cpu \<Rightarrow> cpu" where
  "integer_registers cpu = cpu\<lparr>c_v := (\<lambda>_. \<lparr>v_low = 0, v_high = 0\<rparr>), c_fpcr := 0, c_fpsr := 0,
     c_exclusive_address := 0, c_exclusive_generation := 0, c_exclusive_size := 0,
     c_exclusive_valid := 0\<rparr>"

definition store_integer_registers :: "cpu \<Rightarrow> cpu \<Rightarrow> cpu" where
  "store_integer_registers cpu registers = registers\<lparr>c_x := c_x cpu, c_sp := c_sp cpu,
     c_pc := c_pc cpu, c_pstate := c_pstate cpu, c_halted := c_halted cpu\<rparr>"

definition avz_native_run_decoded_block_registers ::
  "'m executor \<Rightarrow> 'm callbacks \<Rightarrow> instr list \<Rightarrow> u64 \<Rightarrow> u64 \<Rightarrow> cpu \<Rightarrow> 'm \<Rightarrow> block_result \<times> cpu \<times> 'm" where
  "avz_native_run_decoded_block_registers vec k is base_pc max_steps registers m =
    (let (result, cpu, m) = decoded_block_loop vec (integer_callbacks k) is base_pc (unat max_steps)
           empty_result (integer_registers registers) m
     in (result, store_integer_registers cpu registers, m))"

text \<open>The same for the words of a block that is not decoded yet.\<close>

definition avz_native_run_block_registers ::
  "u32 list \<Rightarrow> u64 \<Rightarrow> u64 \<Rightarrow> cpu \<Rightarrow> block_status \<times> nat \<times> cpu" where
  "avz_native_run_block_registers ws base_pc max_steps registers =
    (let (status, steps, cpu) = avz_native_run_block ws base_pc max_steps
           (registers\<lparr>c_fpcr := 0, c_fpsr := 0, c_exclusive_address := 0, c_exclusive_generation := 0,
              c_exclusive_size := 0, c_exclusive_valid := 0\<rparr>)
     in (status, steps, store_integer_registers cpu registers))"

subsection \<open>The generic engine\<close>

text \<open>
  It tests the result of the executor against \<open>AVZ_NATIVE_WAIT_YIELD\<close>. The case of the wait
  instructions answers \<open>wait != 0 && wait(...)\<close>, which is 0 or 1 whatever the callback answers, so
  that \<open>exec_wait\<close> only asks the callback whether its answer is zero.
\<close>

abbreviation AVZ_NATIVE_WAIT_YIELD :: nat where "AVZ_NATIVE_WAIT_YIELD \<equiv> 2"

fun full_generic_loop ::
  "'m executor \<Rightarrow> 'm callbacks \<Rightarrow> instr list \<Rightarrow> u64 \<Rightarrow> nat \<Rightarrow> nat \<Rightarrow> cpu \<Rightarrow> 'm \<Rightarrow>
   block_status \<times> nat \<times> cpu \<times> 'm" where
  "full_generic_loop vec k is base_pc 0 steps cpu m = (MAX_STEPS, steps, cpu, m)"
| "full_generic_loop vec k is base_pc (Suc left) steps cpu m =
    (if c_halted cpu \<noteq> 0 then (HALTED, steps, cpu, m)
     else case block_fetch is base_pc (c_pc cpu) of
            None \<Rightarrow> (OUTSIDE_BLOCK, steps, cpu, m)
          | Some instruction \<Rightarrow>
              let (executed, cpu, m) = execute_decoded_instruction vec k instruction cpu m;
                  execution_status = (if executed then 1 else 0)
              in if execution_status = 0 then (UNSUPPORTED (i_raw instruction), steps, cpu, m)
                 else if execution_status = AVZ_NATIVE_WAIT_YIELD then (YIELDED, steps + 1, cpu, m)
                 else full_generic_loop vec k is base_pc left (steps + 1) cpu m)"

text \<open>
  The registers are copied in and out whole; the generation of the reservation is not part of
  them and starts at zero.
\<close>

definition avz_native_run_decoded_block_full_generic ::
  "'m executor \<Rightarrow> 'm callbacks \<Rightarrow> instr list \<Rightarrow> u64 \<Rightarrow> u64 \<Rightarrow> cpu \<Rightarrow> 'm \<Rightarrow>
   block_status \<times> nat \<times> cpu \<times> 'm" where
  "avz_native_run_decoded_block_full_generic vec k is base_pc max_steps registers m =
    (let (status, steps, cpu, m) =
           full_generic_loop vec (k\<lparr>k_uses_fast_memory_context := False\<rparr>) is base_pc (unat max_steps) 0
             (registers\<lparr>c_exclusive_generation := 0\<rparr>) m
     in (status, steps, cpu\<lparr>c_exclusive_generation := c_exclusive_generation registers\<rparr>, m))"

subsection \<open>Bounds\<close>

text \<open>
  What a run of \<open>decoded_block_loop\<close> with \<open>n\<close> steps left adds to the counters \<open>r\<close> it starts from.
\<close>

definition within_budget :: "instr list \<Rightarrow> u64 \<Rightarrow> nat \<Rightarrow> block_result \<Rightarrow> block_result \<times> cpu \<times> 'm \<Rightarrow> bool" where
  "within_budget is base_pc n r = (\<lambda>(result, cpu, _).
      r_steps result \<le> n + r_steps r \<and> r_steps r \<le> r_steps result \<and>
      (r_fast_path_steps r \<le> r_steps r \<longrightarrow> r_fast_path_steps result \<le> r_steps result) \<and>
      (r_fast_path_hits r \<le> r_fast_path_steps r \<longrightarrow> r_fast_path_hits result \<le> r_fast_path_steps result) \<and>
      (r_status result = MAX_STEPS \<longrightarrow> r_steps result = n + r_steps r) \<and>
      (r_status result = HALTED \<longrightarrow> c_halted cpu \<noteq> 0) \<and>
      (r_status result = OUTSIDE_BLOCK \<longrightarrow> block_fetch is base_pc (c_pc cpu) = None))"

lemma decoded_block_loop_within_budget:
  "within_budget is base_pc left r (decoded_block_loop vec k is base_pc left r cpu m)"
proof (induction left arbitrary: r cpu m rule: less_induct)
  case (less left)
  note unf = decoded_block_loop.simps[of vec k "is" base_pc left r cpu m]
  show ?case
  proof (cases "left = 0 \<or> c_halted cpu \<noteq> 0 \<or> block_fetch is base_pc (c_pc cpu) = None")
    case True
    then show ?thesis by (subst unf) (auto simp: within_budget_def)
  next
    case False
    then obtain i where i: "block_fetch is base_pc (c_pc cpu) = Some i" "left \<noteq> 0" "c_halted cpu = 0" by auto
    obtain fast cpu1 m1 where f: "try_execute_store_pair_fill_loop k is base_pc left cpu m = (fast, cpu1, m1)"
      by (metis prod.exhaust)
    show ?thesis
    proof (cases fast)
      case (Some n)
      then have n: "0 < n \<and> n \<le> left" using fill_loop_steps[OF f[unfolded Some]] by simp
      let ?r = "r\<lparr>r_steps := r_steps r + n, r_fast_path_steps := r_fast_path_steps r + n,
                   r_fast_path_hits := r_fast_path_hits r + 1\<rparr>"
      have "decoded_block_loop vec k is base_pc left r cpu m = decoded_block_loop vec k is base_pc (left - n) ?r cpu1 m1"
        by (subst unf) (simp add: i f Some)
      moreover have "left - n < left" using n i(2) by simp
      from less.IH[OF this, of ?r cpu1 m1] have "within_budget is base_pc (left - n) ?r (decoded_block_loop vec k is base_pc (left - n) ?r cpu1 m1)" .
      ultimately show ?thesis using n by (cases "decoded_block_loop vec k is base_pc (left - n) ?r cpu1 m1") (simp add: within_budget_def)
    next
      case None
      obtain ok cpu2 m2 where e: "execute_decoded_instruction vec k i cpu1 m1 = (ok, cpu2, m2)"
        by (metis prod.exhaust)
      let ?r = "r\<lparr>r_steps := r_steps r + 1\<rparr>"
      have "decoded_block_loop vec k is base_pc left r cpu m =
          (if \<not> ok then (r\<lparr>r_status := UNSUPPORTED (i_raw i)\<rparr>, cpu2, m2)
           else if c_halted cpu2 \<noteq> 0 then (?r\<lparr>r_status := HALTED\<rparr>, cpu2, m2)
           else decoded_block_loop vec k is base_pc (left - 1) ?r cpu2 m2)"
        by (subst unf) (simp add: i f None e split: bool.splits)
      moreover have "left - 1 < left" using i(2) by simp
      from less.IH[OF this, of ?r cpu2 m2] have "within_budget is base_pc (left - 1) ?r (decoded_block_loop vec k is base_pc (left - 1) ?r cpu2 m2)" .
      ultimately show ?thesis using i(2) by (cases "decoded_block_loop vec k is base_pc (left - 1) ?r cpu2 m2") (simp add: within_budget_def)
    qed
  qed
qed

text \<open>
  C32: A decoded block never runs past its budget. The loop ends; the steps it reports do not
  exceed the limit and reach it exactly when the status says so, the fast path accounts for a
  part of them, and a halted status means a halted processor.
\<close>
theorem decoded_block_within_budget:
  fixes vec :: "'m executor"
  shows "case avz_native_run_decoded_block_registers vec k is base_pc max_steps registers m of
     (result, cpu, m') \<Rightarrow> r_steps result \<le> unat max_steps \<and> r_fast_path_steps result \<le> r_steps result \<and>
       r_fast_path_hits result \<le> r_fast_path_steps result \<and>
       (r_status result = MAX_STEPS \<longrightarrow> r_steps result = unat max_steps) \<and>
       (r_status result = HALTED \<longrightarrow> c_halted cpu \<noteq> 0) \<and>
       (r_status result = OUTSIDE_BLOCK \<longrightarrow> block_fetch is base_pc (c_pc cpu) = None)"
  using decoded_block_loop_within_budget[of "is" base_pc "unat max_steps" empty_result vec "integer_callbacks k"
    "integer_registers registers" m]
  by (simp add: avz_native_run_decoded_block_registers_def within_budget_def Let_def store_integer_registers_def
    split: prod.splits)

subsection \<open>The undecoded interpreter is a part of the engine\<close>

lemma set_nzcv_other: "set_nzcv f (c\<lparr>c_v := v\<rparr>) = (set_nzcv f c)\<lparr>c_v := v\<rparr>"
  by (simp add: set_nzcv_def)

lemma no_fill: "k_fill_memory k = None \<Longrightarrow> try_execute_store_pair_fill_loop k is base_pc left cpu m = (None, cpu, m)"
  by (simp add: try_execute_store_pair_fill_loop_def)

lemma halt_step_halts:
  assumes "run_block_instruction cpu w = Halt c" shows "c_halted c = 1"
  using run_block_instruction_halted[of cpu w] assms by (simp add: halted_ok_simps)

lemma continue_step_halted:
  assumes "run_block_instruction cpu w = Continue c" shows "c_halted c = c_halted cpu"
  using run_block_instruction_halted[of cpu w] assms by (simp add: halted_ok_simps)

text \<open>What the first engine does with a word it accepts is what the decoder and the executor do.\<close>

lemma run_block_step_decodes:
  fixes vec :: "'m executor"
  assumes "w \<noteq> 0xd503205f" "w \<noteq> 0xd503207f" "run_block_instruction cpu w \<noteq> Unsupported"
  shows "\<exists>d cpu'. avz_native_decode_instruction w = Some d \<and>
    execute_decoded_instruction vec k d cpu m = (True, cpu', m) \<and>
    (run_block_instruction cpu w = Continue cpu' \<or> run_block_instruction cpu w = Halt cpu')"
  using instruction_agrees[OF assms]
  by (fastforce simp: execute_decoded_instruction_def register_step_def)

lemma fetch_decoded:
  assumes "map avz_native_decode_instruction ws = map Some is"
  shows "block_fetch is base_pc pc =
    (if pc < base_pc \<or> (pc - base_pc) AND 3 \<noteq> 0 then None
     else if length ws \<le> unat (shr (pc - base_pc) 2) then None
     else avz_native_decode_instruction (ws ! unat (shr (pc - base_pc) 2)))"
proof -
  have l: "length ws = length is" using map_eq_imp_length_eq[OF assms] .
  have "j < length is \<Longrightarrow> avz_native_decode_instruction (ws ! j) = Some (is ! j)" for j
    using assms l by (metis nth_map)
  then show ?thesis using l by (auto simp: block_fetch_def Let_def)
qed

text \<open>The loops agree from every state.\<close>

lemma run_block_refines_loop:
  fixes vec :: "'m executor"
  assumes "map avz_native_decode_instruction ws = map Some is"
    and "\<forall>w \<in> set ws. w \<noteq> 0xd503205f \<and> w \<noteq> 0xd503207f" and "k_fill_memory k = None"
    and "avz_native_run_block ws base_pc max_steps cpu = (status, steps, cpu')" "\<forall>w. status \<noteq> UNSUPPORTED w"
  shows "decoded_block_loop vec k is base_pc (unat max_steps) empty_result cpu m =
    (empty_result\<lparr>r_steps := steps, r_status := status\<rparr>, cpu', m)"
proof -
  have "run_block_loop ws base_pc left n cpu = (status, steps, cpu') \<Longrightarrow> r_steps r = n \<Longrightarrow>
      decoded_block_loop vec k is base_pc left r cpu m = (r\<lparr>r_steps := steps, r_status := status\<rparr>, cpu', m)" for left n cpu r
  proof (induction left arbitrary: n cpu r)
    case 0
    then show ?case by (subst decoded_block_loop.simps) (auto simp: no_fill assms(3))
  next
    case (Suc left)
    note unf = decoded_block_loop.simps[of vec k "is" base_pc "Suc left" r cpu m]
    let ?j = "unat (shr (c_pc cpu - base_pc) 2)"
    consider (halted) "c_halted cpu \<noteq> 0"
      | (outside) "c_halted cpu = 0" "c_pc cpu < base_pc \<or> (c_pc cpu - base_pc) AND 3 \<noteq> 0 \<or> length ws \<le> ?j"
      | (inside) "c_halted cpu = 0" "\<not> (c_pc cpu < base_pc \<or> (c_pc cpu - base_pc) AND 3 \<noteq> 0)" "?j < length ws"
      by linarith
    then show ?case
    proof cases
      case halted
      then show ?thesis using Suc.prems by (subst unf) auto
    next
      case outside
      then show ?thesis using Suc.prems by (subst unf) (auto simp: fetch_decoded[OF assms(1)] Let_def)
    next
      case inside
      let ?w = "ws ! ?j"
      have w: "?w \<noteq> 0xd503205f" "?w \<noteq> 0xd503207f" using assms(2) inside(3) by (simp_all add: nth_mem)
      have u: "run_block_instruction cpu ?w \<noteq> Unsupported"
        using Suc.prems(1) inside assms(5) by (auto simp: Let_def)
      from run_block_step_decodes[OF w u, of vec k m] obtain d c where d:
        "avz_native_decode_instruction ?w = Some d" "execute_decoded_instruction vec k d cpu m = (True, c, m)"
        "run_block_instruction cpu ?w = Continue c \<or> run_block_instruction cpu ?w = Halt c" by blast
      have f: "block_fetch is base_pc (c_pc cpu) = Some d" using inside d(1) by (simp add: fetch_decoded[OF assms(1)])
      have step: "decoded_block_loop vec k is base_pc (Suc left) r cpu m =
          (if c_halted c \<noteq> 0 then (r\<lparr>r_steps := r_steps r + 1, r_status := HALTED\<rparr>, c, m)
           else decoded_block_loop vec k is base_pc left (r\<lparr>r_steps := r_steps r + 1\<rparr>) c m)"
        by (subst unf) (simp add: inside(1) f no_fill assms(3) d(2) Let_def)
      show ?thesis
      proof (cases "run_block_instruction cpu ?w = Halt c")
        case True
        then show ?thesis using Suc.prems inside halt_step_halts[OF True] unfolding step by (simp add: Let_def)
      next
        case False
        then have c: "run_block_instruction cpu ?w = Continue c" using d(3) by simp
        have "run_block_loop ws base_pc left (n + 1) c = (status, steps, cpu')"
          using Suc.prems(1) inside c by (simp add: Let_def)
        from Suc.IH[OF this, of "r\<lparr>r_steps := r_steps r + 1\<rparr>"] Suc.prems(2) show ?thesis
          unfolding step using continue_step_halted[OF c] inside(1) by simp
      qed
    qed
  qed
  from this[OF assms(4)[unfolded avz_native_run_block_def], of empty_result] show ?thesis by simp
qed

text \<open>
  The words that the first engine runs do not touch the vectors, which its entry point for the
  integer registers leaves uninitialised.
\<close>

definition set_vectors :: "(nat \<Rightarrow> vreg) \<Rightarrow> block_step \<Rightarrow> block_step" where
  "set_vectors v r = (case r of Continue c \<Rightarrow> Continue (c\<lparr>c_v := v\<rparr>) | Halt c \<Rightarrow> Halt (c\<lparr>c_v := v\<rparr>) | Unsupported \<Rightarrow> Unsupported)"

lemma set_vectors_simps:
  "set_vectors v (Continue c) = Continue (c\<lparr>c_v := v\<rparr>)" "set_vectors v (Halt c) = Halt (c\<lparr>c_v := v\<rparr>)"
  "set_vectors v Unsupported = Unsupported"
  "set_vectors v (if b then x else y) = (if b then set_vectors v x else set_vectors v y)"
  "set_vectors v (step_of r) = step_of (map_option (c_v_update (\<lambda>_. v)) r)"
  by (simp_all add: set_vectors_def step_of_def split: option.splits)

lemma vectors_commute:
  "read_register (c\<lparr>c_v := v\<rparr>) i = read_register c i" "read_base_register (c\<lparr>c_v := v\<rparr>) i = read_base_register c i"
  "write_register i a (c\<lparr>c_v := v\<rparr>) = (write_register i a c)\<lparr>c_v := v\<rparr>"
  "write_base_register i a (c\<lparr>c_v := v\<rparr>) = (write_base_register i a c)\<lparr>c_v := v\<rparr>"
  "set_x i a (c\<lparr>c_v := v\<rparr>) = (set_x i a c)\<lparr>c_v := v\<rparr>"
  "c\<lparr>c_pc := p, c_v := v\<rparr> = c\<lparr>c_v := v, c_pc := p\<rparr>"
  "c\<lparr>c_pc := p, c_halted := h, c_v := v\<rparr> = c\<lparr>c_v := v, c_pc := p, c_halted := h\<rparr>"
  by (simp_all add: read_register_def read_base_register_def write_register_def write_base_register_def set_x_def)

lemma if_vectors: "(if b then c\<lparr>c_v := v\<rparr> else d\<lparr>c_v := v\<rparr>) = (if b then c else d)\<lparr>c_v := v\<rparr>"
  by simp

lemma helpers_vectors:
  "execute_add_sub_immediate (cpu\<lparr>c_v := v\<rparr>) w = map_option (c_v_update (\<lambda>_. v)) (execute_add_sub_immediate cpu w)"
  "execute_add_sub_shifted_register (cpu\<lparr>c_v := v\<rparr>) w = map_option (c_v_update (\<lambda>_. v)) (execute_add_sub_shifted_register cpu w)"
  "execute_move_wide (cpu\<lparr>c_v := v\<rparr>) w = map_option (c_v_update (\<lambda>_. v)) (execute_move_wide cpu w)"
    apply (cases "flag w 29"; simp add: execute_add_sub_immediate_def vectors_commute set_nzcv_other Let_def split: prod.split)
   apply (cases "flag w 29"; simp add: execute_add_sub_shifted_register_def vectors_commute set_nzcv_other Let_def split: prod.split option.split)
  apply (simp add: execute_move_wide_def vectors_commute Let_def split: option.split)
  done

lemma run_block_instruction_vectors:
  "run_block_instruction (cpu\<lparr>c_v := v\<rparr>) w = set_vectors v (run_block_instruction cpu w)"
  unfolding run_block_instruction_def Let_def
  by (simp add: set_vectors_simps helpers_vectors vectors_commute if_vectors cong: if_cong split del: if_split)

lemma run_block_loop_vectors:
  "run_block_loop ws base_pc left steps (cpu\<lparr>c_v := v\<rparr>) =
    (case run_block_loop ws base_pc left steps cpu of (status, n, c) \<Rightarrow> (status, n, c\<lparr>c_v := v\<rparr>))"
proof (induction left arbitrary: steps cpu)
  case (Suc left)
  show ?case
    by (cases "run_block_instruction cpu (ws ! unat (shr (c_pc cpu - base_pc) 2))")
      (simp_all add: run_block_instruction_vectors set_vectors_simps Suc Let_def)
qed simp

text \<open>
  C15: The interpreter of undecoded words is refined by the engine for decoded blocks. Take a
  block without \<open>WFE\<close> and \<open>WFI\<close> of which the decoder accepts every word, and callbacks without
  a fill. When the entry point \<open>avz_native_run_block_registers\<close> does not give up on a word, the
  entry point \<open>avz_native_run_decoded_block_registers\<close>, called with the decoded block and the same
  registers, reports the same status after the same number of steps, leaves the same registers
  and does not touch the memory.
\<close>
theorem run_block_refines_decoded_block:
  fixes vec :: "'m executor"
  assumes "map avz_native_decode_instruction ws = map Some is"
    and "\<forall>w \<in> set ws. w \<noteq> 0xd503205f \<and> w \<noteq> 0xd503207f" and "k_fill_memory k = None"
    and "avz_native_run_block_registers ws base_pc max_steps registers = (status, steps, registers')"
    and "\<forall>w. status \<noteq> UNSUPPORTED w"
  shows "avz_native_run_decoded_block_registers vec k is base_pc max_steps registers m =
    (empty_result\<lparr>r_steps := steps, r_status := status\<rparr>, registers', m)"
proof -
  let ?start = "registers\<lparr>c_fpcr := 0, c_fpsr := 0, c_exclusive_address := 0, c_exclusive_generation := 0,
    c_exclusive_size := 0, c_exclusive_valid := 0\<rparr>"
  obtain c where c: "avz_native_run_block ws base_pc max_steps ?start = (status, steps, c)"
    "registers' = store_integer_registers c registers"
    using assms(4) by (auto simp: avz_native_run_block_registers_def split: prod.splits)
  have "avz_native_run_block ws base_pc max_steps (integer_registers registers) =
      (status, steps, c\<lparr>c_v := \<lambda>_. \<lparr>v_low = 0, v_high = 0\<rparr>\<rparr>)"
    using run_block_loop_vectors[where ws = ws and base_pc = base_pc and left = "unat max_steps" and steps = 0
        and cpu = ?start and v = "\<lambda>_. \<lparr>v_low = 0, v_high = 0\<rparr>"] c(1)
    by (cases registers) (simp add: avz_native_run_block_def integer_registers_def)
  moreover have "k_fill_memory (integer_callbacks k) = None" using assms(3) by (simp add: integer_callbacks_def)
  ultimately show ?thesis
    using run_block_refines_loop[OF assms(1,2) _ _ assms(5), where k = "integer_callbacks k" and base_pc = base_pc
        and max_steps = max_steps and cpu = "integer_registers registers" and steps = steps and vec = vec and m = m] c(2)
    by (simp add: avz_native_run_decoded_block_registers_def store_integer_registers_def)
qed

text \<open>Concrete states for the witnesses: a processor with zeroed registers.\<close>

definition zero_cpu :: "u64 \<Rightarrow> cpu" where
  "zero_cpu pc = \<lparr>c_x = (\<lambda>_. 0), c_v = (\<lambda>_. \<lparr>v_low = 0, v_high = 0\<rparr>), c_sp = 0, c_pc = pc, c_pstate = 0,
     c_fpcr = 0, c_fpsr = 0, c_exclusive_address = 0, c_exclusive_generation = 0, c_exclusive_size = 0,
     c_exclusive_valid = 0, c_halted = 0\<rparr>"

definition no_vector :: "'m executor" where
  "no_vector k i cpu m = (False, cpu, m)"

text \<open>\<open>nop; hlt #0\<close>\<close>

definition halting_words :: "u32 list" where
  "halting_words = [0xd503201f, 0xd4400000]"

lemmas run_block_loop_numeral =
  run_block_loop.simps(2)[of ws base_pc "pred_numeral v" steps cpu for ws base_pc v steps cpu, folded numeral_eq_Suc]

theorem run_block_refines_decoded_block_witness:
  "avz_native_run_decoded_block_registers no_vector no_callbacks
      (map (the \<circ> avz_native_decode_instruction) halting_words) 0x1000 9 (zero_cpu 0x1000) () =
     (empty_result\<lparr>r_steps := 2, r_status := HALTED\<rparr>, (zero_cpu 0x1000)\<lparr>c_pc := 0x1008, c_halted := 1\<rparr>, ())"
proof -
  have d: "map avz_native_decode_instruction halting_words =
      map Some (map (the \<circ> avz_native_decode_instruction) halting_words)" by code_simp
  have nine: "unat (9 :: u64) = 9" by simp
  have r: "avz_native_run_block_registers halting_words 0x1000 9 (zero_cpu 0x1000) =
      (HALTED, 2, (zero_cpu 0x1000)\<lparr>c_pc := 0x1008, c_halted := 1\<rparr>)"
    by (simp add: avz_native_run_block_registers_def avz_native_run_block_def nine run_block_loop_numeral halting_words_def
      zero_cpu_def run_block_instruction_def matches_def store_integer_registers_def)
  show ?thesis
    by (rule run_block_refines_decoded_block[OF d _ _ r]) (simp_all add: halting_words_def no_callbacks_def)
qed

theorem decoded_block_within_budget_witness:
  "let is = map (the \<circ> avz_native_decode_instruction) halting_words;
       (result, cpu, _) = avz_native_run_decoded_block_registers no_vector no_callbacks is 0x1000 1 (zero_cpu 0x1000) ()
   in r_status result = MAX_STEPS \<and> r_steps result = 1"
proof -
  let ?is = "map (the \<circ> avz_native_decode_instruction) halting_words"
  let ?out = "avz_native_run_decoded_block_registers no_vector no_callbacks ?is 0x1000 1 (zero_cpu 0x1000) ()"
  have "r_status (fst ?out) = MAX_STEPS" by code_simp
  with decoded_block_within_budget[of 1 ?is "0x1000" no_vector no_callbacks "zero_cpu 0x1000" "()"]
  show ?thesis by (simp add: case_prod_beta Let_def)
qed

end
