(* ===== verification/SemanticEquivalence.thy ===== *)
theory SemanticEquivalence
  imports BlockEngine
begin

text \<open>
  The semantic fast paths do what the interpreter does. The reference is the plain repetition
  of fetch, decode and execute (\<open>interpret_steps\<close>); each theorem says that a fast path that
  claims \<open>n\<close> executed steps leaves the processor as \<open>n\<close> interpreted steps would. Memory is
  compared through a \<open>view\<close> of the memory context, because translation caches may differ.
\<close>

subsection \<open>The reference: so many steps of the interpreter\<close>

fun interpret_steps ::
  "'m executor \<Rightarrow> 'm callbacks \<Rightarrow> instr list \<Rightarrow> u64 \<Rightarrow> nat \<Rightarrow> cpu \<Rightarrow> 'm \<Rightarrow> 'm step" where
  "interpret_steps vec k is base_pc 0 cpu m = (True, cpu, m)"
| "interpret_steps vec k is base_pc (Suc n) cpu m =
    (case block_fetch is base_pc (c_pc cpu) of
       None \<Rightarrow> (False, cpu, m)
     | Some i \<Rightarrow>
         (case execute_decoded_instruction vec k i cpu m of
            (False, cpu, m) \<Rightarrow> (False, cpu, m)
          | (True, cpu, m) \<Rightarrow> interpret_steps vec k is base_pc n cpu m))"

lemma interpret_steps_add:
  "interpret_steps vec k is base_pc (n + j) cpu m =
    (case interpret_steps vec k is base_pc n cpu m of
       (False, cpu, m) \<Rightarrow> (False, cpu, m)
     | (True, cpu, m) \<Rightarrow> interpret_steps vec k is base_pc j cpu m)"
  by (induction vec k "is" base_pc n cpu m rule: interpret_steps.induct)
    (auto split: option.splits prod.splits bool.splits)

text \<open>The instruction at index \<open>j\<close> of a block that does not wrap around the address space.\<close>

definition block_fits :: "instr list \<Rightarrow> u64 \<Rightarrow> bool" where
  "block_fits is base_pc \<longleftrightarrow> unat base_pc + 4 * length is < 2 ^ 64"

lemma fetch_index:
  assumes "block_fits is base_pc" "j < length is"
  shows "block_fetch is base_pc (base_pc + 4 * word_of_nat j) = Some (is ! j)"
proof -
  let ?o = "4 * word_of_nat j :: u64"
  have b: "unat base_pc + 4 * j < 2 ^ 64" using assms by (simp add: block_fits_def)
  then have u: "unat ?o = 4 * j" by (simp add: unat_word_ariths unsigned_of_nat take_bit_nat_eq_self)
  have "unat (shr ?o 2) = drop_bit 2 (take_bit 64 (unat ?o))"
    by (simp only: unsigned_drop_bit_eq drop_bit_take_bit) simp
  also have "\<dots> = j" using b by (simp only: u) (simp add: take_bit_nat_eq_self drop_bit_eq_div)
  finally have s: "unat (shr ?o 2) = j" .
  have "unat (?o AND mask 2) = 4 * j mod 4" by (simp only: take_bit_eq_mask[symmetric] unsigned_take_bit_eq u) (simp add: take_bit_eq_mod)
  then have "unat (?o AND mask 2) = 0" by simp
  then have "?o AND mask 2 = 0" by (simp only: unsigned_eq_0_iff)
  then have a: "?o AND 3 = 0" by (simp add: mask_eq_exp_minus_1)
  have "unat base_pc \<le> unat (base_pc + ?o)" using b u by (simp add: unat_word_ariths)
  then have "\<not> base_pc + ?o < base_pc" by (simp add: word_less_nat_alt)
  then show ?thesis using assms(2) s a by (simp add: block_fetch_def Let_def)
qed

lemma interpret_one:
  assumes "block_fits is base_pc" "c_pc cpu = base_pc + 4 * word_of_nat j" "j < length is"
    "execute_decoded_instruction vec k (is ! j) cpu m = (True, cpu', m')"
  shows "interpret_steps vec k is base_pc (Suc n) cpu m = interpret_steps vec k is base_pc n cpu' m'"
  using fetch_index[OF assms(1,3)] assms(2,4) by simp

text \<open>The integer cases by kind, for the instructions of a recognised sequence.\<close>

lemma execute_kind:
  "i_kind i = AVZ_NATIVE_OP_ADR \<Longrightarrow> execute_decoded_instruction vec k i cpu m = register_step exec_adr i cpu m"
  "i_kind i = AVZ_NATIVE_OP_CBZ \<Longrightarrow> execute_decoded_instruction vec k i cpu m = register_step exec_cbz i cpu m"
  "i_kind i = AVZ_NATIVE_OP_BCOND \<Longrightarrow> execute_decoded_instruction vec k i cpu m = register_step exec_bcond i cpu m"
  "i_kind i = AVZ_NATIVE_OP_ADD_SUB_IMMEDIATE \<Longrightarrow>
     execute_decoded_instruction vec k i cpu m = register_step exec_add_sub_immediate i cpu m"
  "i_kind i = AVZ_NATIVE_OP_ADD_SUB_SHIFTED_REGISTER \<Longrightarrow>
     execute_decoded_instruction vec k i cpu m = register_step exec_add_sub_shifted_register i cpu m"
  "i_kind i = AVZ_NATIVE_OP_ADD_SUB_EXTENDED_REGISTER \<Longrightarrow>
     execute_decoded_instruction vec k i cpu m = register_step exec_add_sub_extended_register i cpu m"
  "i_kind i = AVZ_NATIVE_OP_REGISTER_BRANCH \<Longrightarrow>
     execute_decoded_instruction vec k i cpu m = register_step exec_register_branch i cpu m"
  "i_kind i = AVZ_NATIVE_OP_LOAD_STORE_UNSIGNED_IMMEDIATE \<Longrightarrow>
     execute_decoded_instruction vec k i cpu m = exec_load_store_unsigned_immediate k i cpu m"
  "i_kind i = AVZ_NATIVE_OP_LOAD_STORE_REGISTER_OFFSET \<Longrightarrow>
     execute_decoded_instruction vec k i cpu m = exec_load_store_register_offset k i cpu m"
  "i_kind i = AVZ_NATIVE_OP_LOAD_STORE_PAIR \<Longrightarrow>
     execute_decoded_instruction vec k i cpu m = exec_load_store_pair k i cpu m"
  by (simp_all add: execute_decoded_instruction_def register_cases_def callback_cases_def)

subsection \<open>The PLT thunk\<close>

lemma mask_64 [simp]: "(w :: u64) AND mask 64 = w"
  by (rule bit_word_eqI) (simp add: bit_and_iff bit_mask_iff)

lemma add_with_carry_64: "snd (add_with_carry_nzcv a b False 64) = a + b"
  by (simp add: add_with_carry_nzcv_def Let_def of_flag_def)

lemma take_64 [simp]: "take_bit 64 (w :: u64) = w"
  by (simp add: take_bit_eq_mask)

lemma page_mask: "(0xfffffffffffff000 :: u64) = - 4096" by simp

lemma write_register_below [simp]: "i < 31 \<Longrightarrow> write_base_register i a c = write_register i a c"
  by (simp add: write_base_register_def write_register_def)

lemma read_register_below [simp]: "i < 31 \<Longrightarrow> read_base_register c i = read_register c i"
  by (simp add: read_base_register_def read_register_def)

text \<open>
  C14: The PLT thunk step is the four instructions. When the recogniser accepts a block, it
  executes either all four instructions, with exactly the processor and memory state of
  interpreting them one after the other, or, when the load faults, exactly the first one.
\<close>
theorem plt_thunk_equals_interpreter:
  fixes vec :: "'m executor"
  assumes "try_execute_elf_plt_thunk k is remaining cpu m = (Some n, cpu', m')"
    and "block_fits is (c_pc cpu)" "k_uses_fast_memory_context k = k_fast_read_memory k"
  shows "(n = 4 \<and> interpret_steps vec k is (c_pc cpu) 4 cpu m = (True, cpu', m')) \<or>
    (n = 1 \<and> interpret_steps vec k is (c_pc cpu) 1 cpu m = (True, cpu', m) \<and>
     interpret_steps vec k is (c_pc cpu) 2 cpu m = (False, cpu', m'))"
proof -
  note def = assms(1)[unfolded try_execute_elf_plt_thunk_def]
  have shape: "avz_native_is_elf_plt_thunk_shape is" "length is = 4"
    using def by (auto simp: avz_native_is_elf_plt_thunk_shape_def split: if_splits)
  obtain a l d b where "is": "is = [a, l, d, b]"
    using shape(2) by (auto simp: length_Suc_conv numeral_eq_Suc)
  have s: "i_kind a = AVZ_NATIVE_OP_ADR" "i_flags a AND 1 \<noteq> 0" "i_rd a < 31"
    "i_kind l = AVZ_NATIVE_OP_LOAD_STORE_UNSIGNED_IMMEDIATE" "i_flags l = 1" "i_width l = 8" "i_rn l = i_rd a"
    "i_rt l < 31" "i_rt l \<noteq> i_rd a" "i_kind d = AVZ_NATIVE_OP_ADD_SUB_IMMEDIATE" "i_flags d = 0" "i_bits d = 64"
    "i_rn d = i_rd a" "i_rd d = i_rd a" "i_kind b = AVZ_NATIVE_OP_REGISTER_BRANCH" "i_flags b = 0" "i_rn b = i_rt l"
    using shape(1) unfolding "is" by (simp_all add: avz_native_is_elf_plt_thunk_shape_def Let_def)
  have lt: "unat (i_rd a) < 31" "unat (i_rt l) < 31" "unat (i_rt l) \<noteq> unat (i_rd a)"
    using s by (simp_all add: word_less_nat_alt word_unat_eq_iff)
  let ?page = "add_signed_offset (c_pc cpu AND NOT 0xfff) (i_immediate a)"
  let ?c1 = "(write_register (unat (i_rd a)) ?page cpu)\<lparr>c_pc := c_pc cpu + 4\<rparr>"
  obtain t m1 where r: "avz_native_dispatch_memory_read k m (?page + i_immediate l) 8 = (t, m1)" by fastforce
  have k: "k\<lparr>k_uses_fast_memory_context := k_fast_read_memory k\<rparr> = k" using assms(3) by simp
  have e1: "execute_decoded_instruction vec k a cpu m = (True, ?c1, m)"
    using s by (simp add: execute_kind register_step_def exec_adr_def Let_def page_mask)
  have load: "execute_decoded_instruction vec k l ?c1 m = (case t of None \<Rightarrow> (False, ?c1, m1)
      | Some v \<Rightarrow> (True, (write_register (reg_t l) v ?c1)\<lparr>c_pc := c_pc cpu + 8\<rparr>, m1))"
    using s lt r by (simp add: execute_kind exec_load_store_unsigned_immediate_def load_or_store_def Let_def
      read_write_register extend_loaded_def read_register_def write_register_def set_x_def split: option.splits)
  have j: "c_pc cpu = c_pc cpu + 4 * word_of_nat 0" "c_pc ?c1 = c_pc cpu + 4 * word_of_nat 1" by simp_all
  have one: "interpret_steps vec k is (c_pc cpu) (Suc n) cpu m = interpret_steps vec k is (c_pc cpu) n ?c1 m" for n
    by (rule interpret_one[OF assms(2) j(1)]) (simp_all add: "is" e1)
  show ?thesis
  proof (cases t)
    case None
    then have "n = 1" "cpu' = ?c1" "m' = m1" using def shape(1) r s unfolding k "is" by (auto simp: Let_def k split: if_splits)
    moreover have "interpret_steps vec k is (c_pc cpu) (Suc 0) ?c1 m = (False, ?c1, m1)"
      using fetch_index[OF assms(2), of 1] load None by (simp add: "is")
    ultimately show ?thesis using one[of 0] one[of "Suc 0"] by (simp add: numeral_2_eq_2)
  next
    case (Some v)
    let ?c2 = "(write_register (reg_t l) v ?c1)\<lparr>c_pc := c_pc cpu + 8\<rparr>"
    let ?c3 = "(write_register (unat (i_rd a)) (?page + i_immediate d) ?c2)\<lparr>c_pc := c_pc cpu + 12\<rparr>"
    have e3: "execute_decoded_instruction vec k d ?c2 m1 = (True, ?c3, m1)"
      using s lt add_with_carry_64[of ?page "i_immediate d"]
      by (auto simp: execute_kind register_step_def exec_add_sub_immediate_def Let_def masked_operand_eq
        read_register_def write_register_def set_x_def add.commute[of 12] split: prod.splits)
    have e4: "execute_decoded_instruction vec k b ?c3 m1 = (True, ?c3\<lparr>c_pc := v\<rparr>, m1)"
      using s lt by (simp add: execute_kind register_step_def exec_register_branch_def read_register_def write_register_def set_x_def)
    have j: "c_pc ?c2 = c_pc cpu + 4 * word_of_nat 2" "c_pc ?c3 = c_pc cpu + 4 * word_of_nat 3" by simp_all
    have "interpret_steps vec k is (c_pc cpu) (Suc (Suc (Suc 0))) ?c1 m = (True, ?c3\<lparr>c_pc := v\<rparr>, m1)"
      using interpret_one[OF assms(2), of ?c1 1 vec k m ?c2 m1] interpret_one[OF assms(2) j(1), of vec k m1 ?c3 m1]
        interpret_one[OF assms(2) j(2), of vec k m1 "?c3\<lparr>c_pc := v\<rparr>" m1] load Some e3 e4 by (simp add: "is")
    moreover have "n = 4" "m' = m1" "cpu' = ?c3\<lparr>c_pc := v\<rparr>"
      using def shape(1) r s Some unfolding k "is"
      by (auto simp: Let_def k write_register_def set_x_def split: if_splits)
    ultimately show ?thesis using one[of "Suc (Suc (Suc 0))"] by (simp add: numeral_eq_Suc)
  qed
qed

text \<open>\<open>adrp x16, ...; ldr x17, [x16, #8]; add x16, x16, #8; br x17\<close> over a memory full of one word.\<close>

definition thunk_block :: "instr list" where
  "thunk_block = map (the \<circ> avz_native_decode_instruction) [0xb0000090, 0xf9400611, 0x91002210, 0xd61f0220]"

definition constant_memory :: "u64 \<Rightarrow> 'm callbacks" where
  "constant_memory v = no_callbacks\<lparr>k_read_memory := Some (\<lambda>m _ _. (Some v, m))\<rparr>"

theorem plt_thunk_equals_interpreter_witness:
  "\<exists>cpu'. try_execute_elf_plt_thunk (constant_memory 0x5000) thunk_block 9 (zero_cpu 0x1000) () = (Some 4, cpu', ()) \<and>
     interpret_steps no_vector (constant_memory 0x5000) thunk_block 0x1000 4 (zero_cpu 0x1000) () = (True, cpu', ())"
proof -
  obtain n cpu' where t: "try_execute_elf_plt_thunk (constant_memory 0x5000) thunk_block 9 (zero_cpu 0x1000) () = (n, cpu', ())"
    by (metis prod.exhaust old.unit.exhaust)
  moreover have "fst (try_execute_elf_plt_thunk (constant_memory 0x5000) thunk_block 9 (zero_cpu 0x1000) ()) = Some 4"
    by code_simp
  ultimately have n: "n = Some 4" by simp
  have "block_fits thunk_block 0x1000" by (simp add: block_fits_def thunk_block_def)
  moreover have "c_pc (zero_cpu 0x1000) = 0x1000" by (simp add: zero_cpu_def)
  moreover have "k_uses_fast_memory_context (constant_memory 0x5000) = k_fast_read_memory (constant_memory 0x5000)"
    by (simp add: constant_memory_def no_callbacks_def)
  ultimately show ?thesis using plt_thunk_equals_interpreter[OF t[unfolded n], of no_vector] t n by simp
qed

subsection \<open>Reading loops\<close>

text \<open>
  What the loops rely on: a byte load and a bulk read agree with one content, \<open>byte\<close>, of what
  the context shows, and leave what it shows alone. A byte without a content faults.
\<close>

definition reads_bytes :: "'m callbacks \<Rightarrow> ('m \<Rightarrow> 'v) \<Rightarrow> ('v \<Rightarrow> u64 \<Rightarrow> u8 option) \<Rightarrow> bool" where
  "reads_bytes k view byte \<longleftrightarrow>
     (\<forall>m a. \<exists>m'. avz_native_dispatch_memory_read k m a 1 = (map_option ucast (byte (view m) a), m') \<and> view m' = view m) \<and>
     (\<forall>m a n r m'. f_read_bytes (k_fast k) m a n = (r, m') \<longrightarrow> view m' = view m \<and>
        (\<forall>bs. r = Some bs \<longrightarrow> length bs = n \<and> (\<forall>j < n. byte (view m) (a + word_of_nat j) = Some (bs ! j))))"

lemma reads_byte:
  assumes "reads_bytes k view byte" "byte (view m) a = Some b"
  obtains m' where "avz_native_dispatch_memory_read k m a 1 = (Some (ucast b), m')" "view m' = view m"
  using assms unfolding reads_bytes_def by (metis option.map(2))

definition scan_block :: "instr list" where
  "scan_block = map (the \<circ> avz_native_decode_instruction) byte_string_scan_words"

lemma scan_block_decoded: "scan_block = [
  instr_init 0x91000421 \<lparr>i_kind := AVZ_NATIVE_OP_ADD_SUB_IMMEDIATE, i_rd := 1, i_rn := 1, i_bits := 64, i_immediate := 1\<rparr>,
  instr_init 0x39400022 \<lparr>i_kind := AVZ_NATIVE_OP_LOAD_STORE_UNSIGNED_IMMEDIATE, i_rn := 1, i_rt := 2, i_width := 1,
    i_bits := 8, i_flags := 1\<rparr>,
  instr_init 0x35ffffc2 \<lparr>i_kind := AVZ_NATIVE_OP_CBZ, i_rt := 2, i_bits := 32, i_flags := 1, i_immediate := - 8\<rparr>]"
  by code_simp

lemma unat_byte: "unat (ucast (b :: u8) :: u64) = unat b"
proof -
  have "unat b < 2 ^ 8" using unsigned_less[of b, where ?'a = nat] by simp
  then show ?thesis by (simp add: unsigned_ucast_eq take_bit_nat_eq_self)
qed

lemma ucast_byte_0: "(ucast (b :: u8) :: u64) = 0 \<longleftrightarrow> b = 0"
  using unat_byte[of b] by (metis unsigned_0 unsigned_eq_0_iff)

lemma ucast_byte_mask: "(ucast (b :: u8) :: u64) AND 0xffffffff = ucast b"
proof -
  have "(ucast b :: u64) AND mask 32 = ucast b"
    by (rule bit_word_eqI) (auto simp: bit_and_iff bit_ucast_iff bit_mask_iff dest: bit_imp_le_length)
  then show ?thesis by (simp add: mask_eq_exp_minus_1)
qed

lemma scan_iteration:
  fixes vec :: "'m executor"
  assumes "reads_bytes k view byte" "block_fits scan_block base_pc" "c_pc cpu = base_pc"
    "byte (view m) (c_x cpu 1 + 1) = Some b"
  obtains m' where "interpret_steps vec k scan_block base_pc (3 + n) cpu m = interpret_steps vec k scan_block base_pc n
      (cpu\<lparr>c_x := (c_x cpu)(1 := c_x cpu 1 + 1, 2 := ucast b), c_pc := if b = 0 then base_pc + 12 else base_pc\<rparr>) m'"
    "view m' = view m"
proof -
  let ?c1 = "cpu\<lparr>c_x := (c_x cpu)(1 := c_x cpu 1 + 1), c_pc := base_pc + 4\<rparr>"
  let ?c2 = "cpu\<lparr>c_x := (c_x cpu)(1 := c_x cpu 1 + 1, 2 := ucast b), c_pc := base_pc + 8\<rparr>"
  let ?c3 = "cpu\<lparr>c_x := (c_x cpu)(1 := c_x cpu 1 + 1, 2 := ucast b), c_pc := if b = 0 then base_pc + 12 else base_pc\<rparr>"
  obtain m' where r: "avz_native_dispatch_memory_read k m (c_x cpu 1 + 1) 1 = (Some (ucast b), m')" "view m' = view m"
    using reads_byte[OF assms(1,4)] .
  have e1: "execute_decoded_instruction vec k (scan_block ! 0) cpu m = (True, ?c1, m)"
    using add_with_carry_64[of "c_x cpu 1" 1]
    by (auto simp: scan_block_decoded execute_kind register_step_def exec_add_sub_immediate_def Let_def masked_operand_eq
      read_register_def write_register_def set_x_def assms(3) split: prod.splits)
  have e2: "execute_decoded_instruction vec k (scan_block ! 1) ?c1 m = (True, ?c2, m')"
    using r by (simp add: scan_block_decoded execute_kind exec_load_store_unsigned_immediate_def load_or_store_def Let_def
      extend_loaded_def read_register_def write_register_def set_x_def)
  have e3: "execute_decoded_instruction vec k (scan_block ! 2) ?c2 m' = (True, ?c3, m')"
    by (simp add: scan_block_decoded execute_kind register_step_def exec_cbz_def Let_def read_register_def
      add_signed_offset_def ucast_byte_mask ucast_byte_0)
  have l: "length scan_block = 3" by (simp add: scan_block_decoded)
  have pc: "c_pc cpu = base_pc + 4 * word_of_nat 0" "c_pc ?c1 = base_pc + 4 * word_of_nat 1"
    "c_pc ?c2 = base_pc + 4 * word_of_nat 2" using assms(3) by simp_all
  have run: "interpret_steps vec k scan_block base_pc (Suc (Suc (Suc n))) cpu m = interpret_steps vec k scan_block base_pc n ?c3 m'"
    using interpret_one[OF assms(2) pc(1), of vec k m ?c1 m] interpret_one[OF assms(2) pc(2), of vec k m ?c2 m']
      interpret_one[OF assms(2) pc(3), of vec k m' ?c3 m'] e1 e2 e3 by (simp add: l)
  have s: "3 + n = Suc (Suc (Suc n))" by simp
  show thesis by (rule that[OF _ r(2)]) (simp only: s run)
qed

text \<open>
  The bytes a loop consumes: up to the first zero, that one included. The loop body is \<open>w\<close>
  instructions, reads the byte at \<open>addr\<close> and has the effect \<open>step\<close>.
\<close>

fun taken :: "u8 list \<Rightarrow> u8 list" where
  "taken [] = []"
| "taken (b # bs) = (if b = 0 then [b] else b # taken bs)"

lemma taken_length: "length (taken bs) \<le> length bs" "bs \<noteq> [] \<Longrightarrow> taken bs \<noteq> []"
  by (induction bs) auto

lemma loop_run:
  fixes vec :: "'m executor"
  assumes body: "\<And>i cpu m b n. ready (Suc i) cpu \<Longrightarrow> c_pc cpu = base_pc \<Longrightarrow> byte (view m) (addr cpu) = Some b \<Longrightarrow>
      \<exists>m'. interpret_steps vec k is base_pc (w + n) cpu m = interpret_steps vec k is base_pc n (step b cpu) m' \<and> view m' = view m"
    and next_pc: "\<And>cpu b. b \<noteq> 0 \<Longrightarrow> c_pc cpu = base_pc \<Longrightarrow> c_pc (step b cpu) = base_pc"
    and next_ready: "\<And>i cpu b. ready (Suc i) cpu \<Longrightarrow> ready i (step b cpu)"
    and next_addr: "\<And>i cpu b. ready (Suc i) cpu \<Longrightarrow> addr (step b cpu) = addr cpu + 1"
  shows "ready (length bs) cpu \<Longrightarrow> c_pc cpu = base_pc \<Longrightarrow>
    (\<forall>j < length bs. byte (view m) (addr cpu + word_of_nat j) = Some (bs ! j)) \<Longrightarrow>
    \<exists>m'. interpret_steps vec k is base_pc (w * length (taken bs)) cpu m = (True, fold step (taken bs) cpu, m') \<and> view m' = view m"
proof (induction bs arbitrary: cpu m)
  case (Cons d bs)
  have rdy: "ready (Suc (length bs)) cpu" using Cons.prems(1) by simp
  have "byte (view m) (addr cpu) = Some d" using Cons.prems(3) by force
  note iteration = body[OF rdy Cons.prems(2) this]
  show ?case
  proof (cases "d = 0")
    case True
    then show ?thesis using iteration[of 0] by auto
  next
    case False
    obtain m' where i: "interpret_steps vec k is base_pc (w + w * length (taken bs)) cpu m =
        interpret_steps vec k is base_pc (w * length (taken bs)) (step d cpu) m'" "view m' = view m"
      using iteration by blast
    have "\<forall>j < length bs. byte (view m') (addr (step d cpu) + word_of_nat j) = Some (bs ! j)"
    proof (intro allI impI)
      fix j assume "j < length bs"
      then show "byte (view m') (addr (step d cpu) + word_of_nat j) = Some (bs ! j)"
        using Cons.prems(3)[rule_format, of "Suc j"] i(2) next_addr[OF rdy] by (simp add: add.assoc)
    qed
    from Cons.IH[OF next_ready[OF rdy] next_pc[OF False Cons.prems(2)] this] show ?thesis using i False by auto
  qed
qed simp

lemma reads_bulk:
  assumes "reads_bytes k view byte" "f_read_bytes (k_fast k) m a n = (Some bs, m')"
  shows "view m' = view m \<and> length bs = n \<and> (\<forall>j < length bs. byte (view m) (a + word_of_nat j) = Some (bs ! j))"
  using assms unfolding reads_bytes_def by metis

lemma bulk_size: "0 < w \<Longrightarrow> w \<le> remaining \<Longrightarrow> 0 < min (min (remaining div w) 64) (page_bytes a)"
proof -
  assume w: "0 < w" "w \<le> remaining"
  have "unat (a AND 4095) < 4096" using word_and_le1[of a 4095] by (simp add: word_le_nat_alt)
  then show ?thesis using w by (simp add: page_bytes_def div_greater_zero_iff)
qed

definition scan_step :: "u64 \<Rightarrow> u8 \<Rightarrow> cpu \<Rightarrow> cpu" where
  "scan_step base_pc b cpu = cpu\<lparr>c_x := (c_x cpu)(1 := c_x cpu 1 + 1, 2 := ucast b),
     c_pc := if b = 0 then base_pc + 12 else base_pc\<rparr>"

lemma scan_bytes_taken:
  "scan_bytes bs n0 c = (n0 + length (taken bs), last (c # taken bs), taken bs \<noteq> [] \<and> last (taken bs) = 0)"
  by (induction bs n0 c rule: scan_bytes.induct) auto

lemma fold_scan_step:
  "bs \<noteq> [] \<Longrightarrow> fold (scan_step base_pc) bs cpu = cpu\<lparr>c_x := (c_x cpu)(1 := c_x cpu 1 + word_of_nat (length bs),
     2 := ucast (last bs)), c_pc := if last bs = 0 then base_pc + 12 else base_pc\<rparr>"
proof (induction bs rule: rev_induct)
  case (snoc b bs)
  have u: "(f(1 := p, 2 := q))(1 := (f(1 := p, 2 := q)) 1 + 1, 2 := r) = f(1 := p + 1, 2 := r)"
    for f :: "nat \<Rightarrow> u64" and p q r
    by (rule ext) simp
  have w: "c_x cpu 1 + word_of_nat (length bs) + 1 = c_x cpu 1 + word_of_nat (length (bs @ [b]))"
    by simp
  show ?case
  proof (cases "bs = []")
    case True
    then have "fold (scan_step base_pc) (bs @ [b]) cpu = scan_step base_pc b cpu"
      "c_x cpu 1 + word_of_nat (length (bs @ [b])) = c_x cpu 1 + 1" "last (bs @ [b]) = b" by simp_all
    then show ?thesis unfolding scan_step_def by (simp only:)
  next
    case False
    let ?f = "cpu\<lparr>c_x := (c_x cpu)(1 := c_x cpu 1 + word_of_nat (length bs), 2 := ucast (last bs)),
        c_pc := if last bs = 0 then base_pc + 12 else base_pc\<rparr>"
    have "fold (scan_step base_pc) (bs @ [b]) cpu = scan_step base_pc b ?f"
      by (simp only: fold_append fold_simps comp_apply id_apply snoc.IH[OF False])
    also have "\<dots> = cpu\<lparr>c_x := (c_x ?f)(1 := c_x ?f 1 + 1, 2 := ucast b),
        c_pc := if b = 0 then base_pc + 12 else base_pc\<rparr>" unfolding scan_step_def by simp
    also have "c_x ?f = (c_x cpu)(1 := c_x cpu 1 + word_of_nat (length bs), 2 := ucast (last bs))" by simp
    also note u
    also note w
    finally show ?thesis unfolding last_snoc .
  qed
qed simp

text \<open>
  C13: The string scan step is the loop. When the recogniser accepts the three instruction loop
  that looks for a terminating zero byte and claims \<open>n\<close> steps, interpreting the block for
  \<open>n\<close> steps succeeds and ends in the same processor state, over memory that shows the same.
\<close>
theorem byte_scan_equals_interpreter:
  fixes vec :: "'m executor"
  assumes "try_execute_byte_string_scan_loop k scan_block base_pc remaining cpu m = (Some n, cpu', m')"
    and "reads_bytes k view byte" "block_fits scan_block base_pc"
  shows "n \<le> remaining \<and> (\<exists>m''. interpret_steps vec k scan_block base_pc n cpu m = (True, cpu', m'') \<and> view m'' = view m')"
proof -
  note def = assms(1)[unfolded try_execute_byte_string_scan_loop_def]
  let ?c = "c_x cpu 1"
  let ?i = "min (min (remaining div 3) 64) (page_bytes (?c + 1))"
  have pc: "c_pc cpu = base_pc" and rem: "3 \<le> remaining" using def by (auto split: if_splits)
  obtain bs where f: "f_read_bytes (k_fast k) m (?c + 1) ?i = (Some bs, m')"
    and res: "n = length (taken bs) * 3" "cpu' = cpu\<lparr>c_x := (c_x cpu)(1 := ?c + word_of_nat (length (taken bs)),
      2 := ucast (last (0 # taken bs))), c_pc := if taken bs \<noteq> [] \<and> last (taken bs) = 0 then base_pc + 12 else base_pc\<rparr>"
    using def by (auto simp: Let_def read_register_def write_register_def set_x_def scan_bytes_taken
      split: if_splits option.splits prod.splits)
  note bs = reads_bulk[OF assms(2) f]
  have "length bs = ?i" using bs by blast
  then have "0 < length bs" using bulk_size[of 3 remaining "?c + 1"] rem by linarith
  then have ne: "taken bs \<noteq> []" using taken_length(2)[of bs] by blast
  have "\<exists>m''. interpret_steps vec k scan_block base_pc (3 * length (taken bs)) cpu m =
      (True, fold (scan_step base_pc) (taken bs) cpu, m'') \<and> view m'' = view m"
  proof (rule loop_run[where ready = "\<lambda>_ _. True" and addr = "\<lambda>cpu. c_x cpu 1 + 1" and byte = byte])
    show "\<exists>m'. interpret_steps vec k scan_block base_pc (3 + n) cpu m =
        interpret_steps vec k scan_block base_pc n (scan_step base_pc b cpu) m' \<and> view m' = view m"
      if "c_pc cpu = base_pc" "byte (view m) (c_x cpu 1 + 1) = Some b" for cpu m b n
      using scan_iteration[OF assms(2,3) that, of vec n] unfolding scan_step_def by metis
  qed (use pc bs in \<open>simp_all add: scan_step_def\<close>)
  moreover have "fold (scan_step base_pc) (taken bs) cpu = cpu'" using ne res(2) by (simp add: fold_scan_step)
  moreover have "length (taken bs) \<le> remaining div 3" using taken_length(1)[of bs] bs by simp
  then have "n \<le> remaining" using res(1) by linarith
  ultimately show ?thesis using res(1) bs by (auto simp: mult.commute)
qed

text \<open>A memory full of zeros, for the witnesses.\<close>

definition zero_memory :: "unit callbacks" where
  "zero_memory = no_callbacks\<lparr>k_fast_read_memory := True, k_read_memory := Some (\<lambda>m _ _. (Some 0, m)),
     k_fast := no_fast_memory\<lparr>f_read_bytes := \<lambda>m _ n. (Some (replicate n 0), m)\<rparr>\<rparr>"

lemma zero_memory_reads: "reads_bytes zero_memory (\<lambda>m. m) (\<lambda>_ _. Some 0)"
  by (auto simp: reads_bytes_def zero_memory_def no_callbacks_def avz_native_dispatch_memory_read_def)

theorem byte_scan_equals_interpreter_witness:
  "\<exists>cpu'. try_execute_byte_string_scan_loop zero_memory scan_block 0x1000 9 (zero_cpu 0x1000) () = (Some 3, cpu', ()) \<and>
     interpret_steps no_vector zero_memory scan_block 0x1000 3 (zero_cpu 0x1000) () = (True, cpu', ())"
proof -
  obtain n cpu' where t: "try_execute_byte_string_scan_loop zero_memory scan_block 0x1000 9 (zero_cpu 0x1000) () = (n, cpu', ())"
    by (metis prod.exhaust old.unit.exhaust)
  moreover have "fst (try_execute_byte_string_scan_loop zero_memory scan_block 0x1000 9 (zero_cpu 0x1000) ()) = Some 3"
    by code_simp
  ultimately have n: "n = Some 3" by simp
  have "block_fits scan_block 0x1000" by (simp add: block_fits_def scan_block_decoded)
  from byte_scan_equals_interpreter[OF t[unfolded n] zero_memory_reads this, of no_vector] show ?thesis using t n by simp
qed

subsection \<open>The GLib string hash\<close>

definition djb2_block :: "instr list" where
  "djb2_block = map (the \<circ> avz_native_decode_instruction) glib_djb2_words"

lemma djb2_block_decoded: "djb2_block = [
  instr_init 0x11000718 \<lparr>i_kind := AVZ_NATIVE_OP_ADD_SUB_IMMEDIATE, i_rd := 24, i_rn := 24, i_bits := 32, i_immediate := 1\<rparr>,
  instr_init 0x0b1a175a \<lparr>i_kind := AVZ_NATIVE_OP_ADD_SUB_SHIFTED_REGISTER, i_rd := 26, i_rn := 26, i_rm := 26,
    i_bits := 32, i_shift_amount := 5\<rparr>,
  instr_init 0x0b22835a \<lparr>i_kind := AVZ_NATIVE_OP_ADD_SUB_EXTENDED_REGISTER, i_rd := 26, i_rn := 26, i_rm := 2,
    i_bits := 32, i_condition := 4\<rparr>,
  instr_init 0x38784822 \<lparr>i_kind := AVZ_NATIVE_OP_LOAD_STORE_REGISTER_OFFSET, i_rn := 1, i_rm := 24, i_rt := 2,
    i_width := 1, i_bits := 8, i_flags := 1, i_condition := 2\<rparr>,
  instr_init 0x35ffff82 \<lparr>i_kind := AVZ_NATIVE_OP_CBZ, i_rt := 2, i_bits := 32, i_flags := 1, i_immediate := - 16\<rparr>]"
  by code_simp

lemma lo32_bits: "zext64 (lo32 a) = a AND 0xffffffff" "zext64 (lo32 a) = take_bit 32 a"
proof -
  show t: "zext64 (lo32 a) = take_bit 32 a"
    by (rule bit_word_eqI) (auto simp: bit_take_bit_iff bit_ucast_iff)
  show "zext64 (lo32 a) = a AND 0xffffffff" unfolding t take_bit_eq_mask by (simp add: mask_eq_exp_minus_1)
qed

lemma lo32_add: "lo32 (a + b) = lo32 a + lo32 b" "lo32 (shl a n) = shl (lo32 a) n" "lo32 (take_bit 32 a) = lo32 a"
  "lo32 (zext64 c) = c"
proof -
  show "lo32 (a + b) = lo32 a + lo32 b"
    by (simp add: word_unat_eq_iff unsigned_ucast_eq unat_word_ariths take_bit_eq_mod mod_mod_cancel mod_simps)
qed (rule bit_word_eqI, auto simp: bit_ucast_iff bit_push_bit_iff bit_take_bit_iff)+

lemma zext64_mask: "zext64 c AND 0xffffffff = zext64 c"
  using lo32_bits(1)[of "zext64 c"] by (simp add: lo32_add(4))

lemma take_bit_32_add: "take_bit 32 (take_bit 32 a + take_bit 32 b) = take_bit 32 (a + b :: u64)"
  by (simp add: word_unat_eq_iff unsigned_take_bit_eq unat_word_ariths take_bit_eq_mod mod_mod_cancel mod_simps)

lemma add_with_carry_32: "snd (add_with_carry_nzcv (take_bit 32 a) (take_bit 32 b) False 32) = zext64 (lo32 a + lo32 b)"
proof -
  have "zext64 (lo32 a + lo32 b) = take_bit 32 (a + b)" by (simp only: lo32_add(1)[symmetric] lo32_bits(2))
  then show ?thesis
    by (simp add: add_with_carry_nzcv_def Let_def of_flag_def take_bit_eq_mask[symmetric] take_bit_32_add)
qed

lemma unat_zext64: "unat (zext64 c) = unat c"
  using unsigned_less[of c, where ?'a = nat] by (simp add: unsigned_ucast_eq take_bit_nat_eq_self)

lemma sign_extend_byte: "lo32 (sign_extend_loaded (v AND 0xff) 8) = scast (ucast v :: u8)"
proof -
  have "(0xff :: u64) = mask 8" by (simp add: mask_eq_exp_minus_1)
  then have "sign_extend_loaded (v AND 0xff) 8 = signed_take_bit 7 v"
    using sign_extend_loaded_eq[of 8 v] by (simp add: take_bit_eq_mask)
  moreover have "lo32 (signed_take_bit 7 v) = scast (ucast v :: u8)"
    by (rule bit_word_eqI)
      (auto simp: bit_ucast_iff bit_signed_take_bit_iff bit_signed_iff min_def)
  ultimately show ?thesis by simp
qed

definition djb2_of :: "cpu \<Rightarrow> djb2_state" where
  "djb2_of cpu = \<lparr>j_index = lo32 (c_x cpu 24), j_hash = lo32 (c_x cpu 26), j_current = ucast (c_x cpu 2)\<rparr>"

definition put_djb2 :: "djb2_state \<Rightarrow> u64 \<Rightarrow> cpu \<Rightarrow> cpu" where
  "put_djb2 s pc cpu = cpu\<lparr>c_x := (c_x cpu)(24 := zext64 (j_index s), 26 := zext64 (j_hash s), 2 := ucast (j_current s)),
     c_pc := pc\<rparr>"

definition djb2_step :: "u8 \<Rightarrow> djb2_state \<Rightarrow> djb2_state" where
  "djb2_step b s = \<lparr>j_index = j_index s + 1, j_hash = j_hash s * 33 + scast (j_current s), j_current = b\<rparr>"

definition djb2_cpu_step :: "u64 \<Rightarrow> u8 \<Rightarrow> cpu \<Rightarrow> cpu" where
  "djb2_cpu_step base_pc b cpu = put_djb2 (djb2_step b (djb2_of cpu)) (if b = 0 then base_pc + 20 else base_pc) cpu"

lemma djb2_of_put [simp]: "djb2_of (put_djb2 s pc cpu) = s"
proof -
  have "(ucast (ucast (b :: u8) :: u64) :: u8) = b" for b by (rule bit_word_eqI) (auto simp: bit_ucast_iff)
  then show ?thesis by (simp add: djb2_of_def put_djb2_def lo32_add(4))
qed

lemma put_put_djb2 [simp]: "put_djb2 s pc (put_djb2 s' pc' cpu) = put_djb2 s pc cpu"
proof -
  have "(f(24 := a, 26 := b, 2 := c))(24 := p, 26 := q, 2 := r) = f(24 := p, 26 := q, 2 := r)" for f :: "nat \<Rightarrow> u64" and a b c p q r
    by (rule ext) simp
  then show ?thesis by (simp add: put_djb2_def)
qed

lemma fold_djb2_step:
  "bs \<noteq> [] \<Longrightarrow> fold (djb2_cpu_step base_pc) bs cpu =
     put_djb2 (fold djb2_step bs (djb2_of cpu)) (if last bs = 0 then base_pc + 20 else base_pc) cpu"
proof (induction bs rule: rev_induct)
  case (snoc b bs)
  then show ?case by (cases "bs = []") (simp_all add: djb2_cpu_step_def del: if_split)
qed simp

lemma djb2_loop_taken:
  "djb2_loop bs n0 s = (n0 + length (taken bs), fold djb2_step (taken bs) s, taken bs \<noteq> [] \<and> last (taken bs) = 0)"
  by (induction bs n0 s rule: djb2_loop.induct) (auto simp: djb2_step_def Let_def)

lemma djb2_iteration:
  fixes vec :: "'m executor"
  assumes "reads_bytes k view byte" "block_fits djb2_block base_pc" "c_pc cpu = base_pc"
    "unat (lo32 (c_x cpu 24)) + 1 < 2 ^ 32" "byte (view m) (c_x cpu 1 + zext64 (lo32 (c_x cpu 24)) + 1) = Some b"
  shows "\<exists>m'. interpret_steps vec k djb2_block base_pc (5 + n) cpu m =
    interpret_steps vec k djb2_block base_pc n (djb2_cpu_step base_pc b cpu) m' \<and> view m' = view m"
proof -
  let ?i = "zext64 (lo32 (c_x cpu 24) + 1)" and ?h = "zext64 (lo32 (c_x cpu 26) * 33)"
  let ?h' = "zext64 (lo32 (c_x cpu 26) * 33 + scast (ucast (c_x cpu 2) :: u8))"
  let ?c1 = "cpu\<lparr>c_x := (c_x cpu)(24 := ?i), c_pc := base_pc + 4\<rparr>"
  let ?c2 = "cpu\<lparr>c_x := (c_x cpu)(24 := ?i, 26 := ?h), c_pc := base_pc + 8\<rparr>"
  let ?c3 = "cpu\<lparr>c_x := (c_x cpu)(24 := ?i, 26 := ?h'), c_pc := base_pc + 12\<rparr>"
  let ?c4 = "cpu\<lparr>c_x := (c_x cpu)(24 := ?i, 26 := ?h', 2 := ucast b), c_pc := base_pc + 16\<rparr>"
  have "unat (lo32 (c_x cpu 24) + 1) = unat (lo32 (c_x cpu 24)) + 1"
    using assms(4) by (simp add: unat_word_ariths)
  then have "?i = zext64 (lo32 (c_x cpu 24)) + 1"
    using assms(4) by (simp add: word_unat_eq_iff unat_zext64 unat_word_ariths)
  then have addr: "c_x cpu 1 + ?i = c_x cpu 1 + zext64 (lo32 (c_x cpu 24)) + 1" by (simp add: add.assoc)
  obtain m' where r: "avz_native_dispatch_memory_read k m (c_x cpu 1 + ?i) 1 = (Some (ucast b), m')" "view m' = view m"
    using reads_byte[OF assms(1,5)] unfolding addr .
  have e1: "execute_decoded_instruction vec k (djb2_block ! 0) cpu m = (True, ?c1, m)"
    using add_with_carry_32[of "c_x cpu 24" 1]
    by (auto simp: djb2_block_decoded execute_kind register_step_def exec_add_sub_immediate_def Let_def masked_operand_eq
      read_register_def write_register_def set_x_def assms(3) split: prod.splits)
  have e2: "execute_decoded_instruction vec k (djb2_block ! 1) ?c1 m = (True, ?c2, m)"
  proof -
    have "lo32 (c_x cpu 26) + lo32 (shl (take_bit 32 (c_x cpu 26)) 5) = lo32 (c_x cpu 26) * 33"
      by (simp only: lo32_add(2,3)) (simp add: push_bit_eq_mult)
    then show ?thesis using add_with_carry_32[of "c_x cpu 26" "shl (take_bit 32 (c_x cpu 26)) 5"]
      by (auto simp: djb2_block_decoded execute_kind register_step_def exec_add_sub_shifted_register_def Let_def masked_operand_eq
        read_register_def write_register_def set_x_def take_bit_eq_mask[symmetric] add.commute[of 8]
        mult.commute[of 33] split: prod.splits)
  qed
  have e3: "execute_decoded_instruction vec k (djb2_block ! 2) ?c2 m = (True, ?c3, m)"
    using add_with_carry_32[of ?h "sign_extend_loaded (c_x cpu 2 AND 0xff) 8"]
    by (auto simp: djb2_block_decoded execute_kind register_step_def exec_add_sub_extended_register_def Let_def masked_operand_eq
      read_register_def write_register_def set_x_def extended_register_value_def sign_extend_byte lo32_add(4) split: prod.splits)
  have e4: "execute_decoded_instruction vec k (djb2_block ! 3) ?c3 m = (True, ?c4, m')"
    using r by (simp add: djb2_block_decoded execute_kind exec_load_store_register_offset_def load_or_store_def Let_def
      extend_loaded_def read_register_def write_register_def set_x_def extended_register_value_def zext64_mask)
  have e5: "execute_decoded_instruction vec k (djb2_block ! 4) ?c4 m' = (True, djb2_cpu_step base_pc b cpu, m')"
    by (simp add: djb2_block_decoded execute_kind register_step_def exec_cbz_def Let_def read_register_def
      add_signed_offset_def ucast_byte_mask ucast_byte_0 djb2_cpu_step_def put_djb2_def djb2_step_def djb2_of_def)
  have l: "length djb2_block = 5" by (simp add: djb2_block_decoded)
  have pc: "c_pc cpu = base_pc + 4 * word_of_nat 0" "c_pc ?c1 = base_pc + 4 * word_of_nat 1"
    "c_pc ?c2 = base_pc + 4 * word_of_nat 2" "c_pc ?c3 = base_pc + 4 * word_of_nat 3" "c_pc ?c4 = base_pc + 4 * word_of_nat 4"
    using assms(3) by simp_all
  note one = interpret_one[OF assms(2)]
  have run: "interpret_steps vec k djb2_block base_pc (Suc (Suc (Suc (Suc (Suc n))))) cpu m =
      interpret_steps vec k djb2_block base_pc n (djb2_cpu_step base_pc b cpu) m'"
    using one[OF pc(1) _ e1] one[OF pc(2) _ e2] one[OF pc(3) _ e3] one[OF pc(4) _ e4] one[OF pc(5) _ e5] by (simp only: l)
  have s: "5 + n = Suc (Suc (Suc (Suc (Suc n))))" by simp
  show ?thesis unfolding s run using r(2) by blast
qed

text \<open>
  C12: The string hash step is the loop. When the recogniser accepts GLib's \<open>hash * 33 + c\<close> loop
  and claims \<open>n\<close> steps, interpreting the block for \<open>n\<close> steps ends in the same processor state,
  provided the 32-bit index cannot wrap within the 64 bytes of a snapshot.
\<close>
theorem djb2_equals_interpreter:
  fixes vec :: "'m executor"
  assumes "try_execute_glib_djb2_string_hash_loop k djb2_block base_pc remaining cpu m = (Some n, cpu', m')"
    and "reads_bytes k view byte" "block_fits djb2_block base_pc" "unat (lo32 (c_x cpu 24)) + 64 < 2 ^ 32"
  shows "n \<le> remaining \<and> (\<exists>m''. interpret_steps vec k djb2_block base_pc n cpu m = (True, cpu', m'') \<and> view m'' = view m')"
proof -
  note def = assms(1)[unfolded try_execute_glib_djb2_string_hash_loop_def]
  let ?a = "c_x cpu 1 + zext64 (lo32 (c_x cpu 24)) + 1"
  let ?i = "min (min (remaining div 5) 64) (page_bytes ?a)"
  have pc: "c_pc cpu = base_pc" and rem: "5 \<le> remaining" using def by (auto split: if_splits)
  obtain bs where f: "f_read_bytes (k_fast k) m ?a ?i = (Some bs, m')"
    and res: "n = length (taken bs) * 5" "cpu' = put_djb2 (fold djb2_step (taken bs) (djb2_of cpu))
      (if taken bs \<noteq> [] \<and> last (taken bs) = 0 then base_pc + 20 else base_pc) cpu"
    using def by (auto simp: Let_def read_register_def write_register_def set_x_def djb2_loop_taken djb2_of_def put_djb2_def
      split: if_splits option.splits prod.splits)
  note bs = reads_bulk[OF assms(2) f]
  have len: "length bs = ?i" using bs by blast
  then have "0 < length bs" using bulk_size[of 5 remaining ?a] rem by linarith
  then have ne: "taken bs \<noteq> []" using taken_length(2)[of bs] by blast
  let ?ready = "\<lambda>i cpu. unat (lo32 (c_x cpu 24)) + i < 2 ^ 32"
  have step24: "lo32 (c_x (djb2_cpu_step base_pc b c) 24) = lo32 (c_x c 24) + 1" "c_x (djb2_cpu_step base_pc b c) 1 = c_x c 1" for b c
    by (simp_all add: djb2_cpu_step_def put_djb2_def djb2_step_def djb2_of_def lo32_add(4))
  have inc: "unat (lo32 (c_x c 24) + 1) = unat (lo32 (c_x c 24)) + 1" if "?ready (Suc i) c" for i c
    using that by (simp add: unat_word_ariths)
  have "\<exists>m''. interpret_steps vec k djb2_block base_pc (5 * length (taken bs)) cpu m =
      (True, fold (djb2_cpu_step base_pc) (taken bs) cpu, m'') \<and> view m'' = view m"
  proof (rule loop_run[where ready = ?ready and addr = "\<lambda>cpu. c_x cpu 1 + zext64 (lo32 (c_x cpu 24)) + 1" and byte = byte])
    show "\<exists>m'. interpret_steps vec k djb2_block base_pc (5 + n) cpu m =
        interpret_steps vec k djb2_block base_pc n (djb2_cpu_step base_pc b cpu) m' \<and> view m' = view m"
      if "?ready (Suc i) cpu" "c_pc cpu = base_pc" "byte (view m) (c_x cpu 1 + zext64 (lo32 (c_x cpu 24)) + 1) = Some b" for i cpu m b n
      using djb2_iteration[OF assms(2,3) that(2) _ that(3), of vec n] that(1) by simp
    show "?ready i (djb2_cpu_step base_pc b c)" if "?ready (Suc i) c" for i c b
      using inc[OF that] that by (simp add: step24)
    show "c_x (djb2_cpu_step base_pc b c) 1 + zext64 (lo32 (c_x (djb2_cpu_step base_pc b c) 24)) + 1 =
        c_x c 1 + zext64 (lo32 (c_x c 24)) + 1 + 1" if "?ready (Suc i) c" for i c b
    proof -
      have "zext64 (lo32 (c_x c 24) + 1) = zext64 (lo32 (c_x c 24)) + 1"
        using inc[OF that] that by (simp add: word_unat_eq_iff unat_zext64 unat_word_ariths)
      then show ?thesis by (simp add: step24 del: One_nat_def)
    qed
    show "?ready (length bs) cpu" using assms(4) len by simp
  qed (use pc bs in \<open>simp_all add: djb2_cpu_step_def put_djb2_def\<close>)
  moreover have "fold (djb2_cpu_step base_pc) (taken bs) cpu = cpu'" using ne res(2) by (simp add: fold_djb2_step)
  moreover have "length (taken bs) \<le> remaining div 5" using taken_length(1)[of bs] bs by simp
  then have "n \<le> remaining" using res(1) by linarith
  ultimately show ?thesis using res(1) bs by (auto simp: mult.commute)
qed

theorem djb2_equals_interpreter_witness:
  "\<exists>cpu'. try_execute_glib_djb2_string_hash_loop zero_memory djb2_block 0x1000 9 (zero_cpu 0x1000) () = (Some 5, cpu', ()) \<and>
     interpret_steps no_vector zero_memory djb2_block 0x1000 5 (zero_cpu 0x1000) () = (True, cpu', ())"
proof -
  obtain n cpu' where t: "try_execute_glib_djb2_string_hash_loop zero_memory djb2_block 0x1000 9 (zero_cpu 0x1000) () = (n, cpu', ())"
    by (metis prod.exhaust old.unit.exhaust)
  moreover have "fst (try_execute_glib_djb2_string_hash_loop zero_memory djb2_block 0x1000 9 (zero_cpu 0x1000) ()) = Some 5"
    by code_simp
  ultimately have n: "n = Some 5" by simp
  have "block_fits djb2_block 0x1000" by (simp add: block_fits_def djb2_block_decoded)
  from djb2_equals_interpreter[OF t[unfolded n] zero_memory_reads this, of no_vector] show ?thesis
    using t n by (simp add: zero_cpu_def)
qed

text \<open>
  Without that condition the step is wrong: the index register wraps at \<open>2 ^ 32\<close> in the guest
  code, but the address of the snapshot does not. With the index at its maximum, the loop reads
  the byte at the string's start and the step reads the one 4 GB further on.
\<close>

definition far_memory :: "unit callbacks" where
  "far_memory = no_callbacks\<lparr>k_fast_read_memory := True,
     k_read_memory := Some (\<lambda>m a _. (Some (if a = 0x100000000 then 7 else 0), m)),
     k_fast := no_fast_memory\<lparr>f_read_bytes := \<lambda>m a n. (Some (map (\<lambda>j. if a + word_of_nat j = 0x100000000 then 7 else 0) [0 ..< n]), m)\<rparr>\<rparr>"

lemma djb2_index_wraps:
  "let cpu = write_register 24 0xffffffff (zero_cpu 0x1000);
       (fast, fast_cpu, _) = try_execute_glib_djb2_string_hash_loop far_memory djb2_block 0x1000 5 cpu ();
       (ok, cpu', _) = interpret_steps no_vector far_memory djb2_block 0x1000 5 cpu ()
   in fast = Some 5 \<and> ok \<and> read_register fast_cpu 2 = 7 \<and> read_register cpu' 2 = 0"
  by code_simp

lemma far_memory_reads: "reads_bytes far_memory (\<lambda>m. m) (\<lambda>_ a. Some (if a = 0x100000000 then 7 else 0))"
  by (auto simp: reads_bytes_def far_memory_def no_callbacks_def avz_native_dispatch_memory_read_def)

end
