(* ===== verification/FillLoop.thy ===== *)
theory FillLoop
  imports SemanticEquivalence
begin

text \<open>
  The fill loop of store pairs (\<open>try_execute_store_pair_fill_loop\<close>): the one semantic fast path
  that writes memory. The theorem says that its step is the interpreted loop, for a counter that
  is neither the stored register nor \<open>x31\<close>; the lemma at the end shows what goes wrong without
  the first condition.
\<close>

subsection \<open>The fill loop of store pairs\<close>

text \<open>What storing the same word twice at an address does to the memory, as the pair case does it.\<close>

definition store_pair :: "'m callbacks \<Rightarrow> 'm \<Rightarrow> u64 \<Rightarrow> u64 \<Rightarrow> bool \<times> 'm" where
  "store_pair k m a v =
    (let (fast_pair, m) = (if k_uses_fast_memory_context k then f_write_pair (k_fast k) m a 8 v v else (False, m))
     in if fast_pair then (True, m) else slow_write_pair k m a (a + 8) 8 v v)"

fun pair_stores :: "'m callbacks \<Rightarrow> nat \<Rightarrow> u64 \<Rightarrow> u64 \<Rightarrow> 'm \<Rightarrow> bool \<times> 'm" where
  "pair_stores k 0 a v m = (True, m)"
| "pair_stores k (Suc j) a v m =
    (case store_pair k m a v of (False, m) \<Rightarrow> (False, m) | (True, m) \<Rightarrow> pair_stores k j (a + 16) v m)"

lemma pair_stores_add:
  "pair_stores k (i + j) a v m = (case pair_stores k i a v m of (False, m) \<Rightarrow> (False, m)
     | (True, m) \<Rightarrow> pair_stores k j (a + 16 * word_of_nat i) v m)"
  by (induction k i a v m rule: pair_stores.induct) (auto simp: algebra_simps split: prod.splits bool.splits)

text \<open>
  What the loop relies on: a fill that succeeds shows the same memory as storing the pattern
  pair by pair, in ascending order, all of which succeed.
\<close>

definition fills_pairs :: "'m callbacks \<Rightarrow> ('m \<Rightarrow> 'v) \<Rightarrow> bool" where
  "fills_pairs k view \<longleftrightarrow> (\<forall>fill m a j v m'. k_fill_memory k = Some fill \<longrightarrow>
     fill m a (word_of_nat (16 * j)) v 8 = (True, m') \<longrightarrow> 16 * j < 2 ^ 64 \<longrightarrow>
     (\<exists>m''. pair_stores k j a v m = (True, m'') \<and> view m'' = view m'))"

definition stored :: "nat \<Rightarrow> u64 \<Rightarrow> u64 \<Rightarrow> cpu \<Rightarrow> cpu" where
  "stored b base pc cpu = (write_base_register b base (clear_exclusive_reservation cpu))\<lparr>c_pc := pc\<rparr>"

lemma stored_simps [simp]:
  "stored b x pc (stored b y pc' cpu) = stored b x pc cpu" "c_pc (stored b x pc cpu) = pc"
  "read_base_register (stored b x pc cpu) b = x" "f \<noteq> b \<Longrightarrow> read_register (stored b x pc cpu) f = read_register cpu f"
  "c_pstate (stored b x pc cpu) = c_pstate cpu"
  by (auto simp: stored_def write_base_register_def clear_exclusive_reservation_def set_x_def read_base_register_def
    read_register_def)

definition fill_store :: "u8 \<Rightarrow> u8 \<Rightarrow> instr \<Rightarrow> bool" where
  "fill_store b f s \<longleftrightarrow> i_kind s = AVZ_NATIVE_OP_LOAD_STORE_PAIR \<and> i_flags s AND 1 = 0 \<and> i_width s = 8 \<and>
     i_bits s = 64 \<and> i_rn s = b \<and> i_rt s = f \<and> i_rd s = f"

definition next_base :: "instr \<Rightarrow> u64 \<Rightarrow> u64" where
  "next_base s x = (if i_flags s AND 8 \<noteq> 0 then x + i_immediate2 s else x)"

lemma write_base_same: "read_base_register cpu b = x \<Longrightarrow> write_base_register b x cpu = cpu"
  by (auto simp: write_base_register_def read_base_register_def set_x_def)

lemma execute_fill_store:
  assumes "fill_store b f s" "f \<noteq> b" "read_base_register cpu (unat b) = x" "read_register cpu (unat f) = v"
  shows "execute_decoded_instruction vec k s cpu m = (case store_pair k m (x + i_immediate s) v of
     (False, m) \<Rightarrow> (False, cpu, m)
   | (True, m) \<Rightarrow> (True, stored (unat b) (next_base s x) (c_pc cpu + 4) cpu, m))"
proof -
  have s: "i_kind s = AVZ_NATIVE_OP_LOAD_STORE_PAIR" "i_flags s AND 1 = 0" "i_width s = 8" "i_bits s = 64"
    "i_rn s = b" "i_rt s = f" "i_rd s = f" using assms(1) by (simp_all add: fill_store_def)
  have "read_base_register (clear_exclusive_reservation cpu) (unat b) = x"
    using assms(3) by (auto simp: read_base_register_def clear_exclusive_reservation_def split: if_splits)
  note w = write_base_same[OF this]
  show ?thesis using assms(3,4)
    by (auto simp: execute_kind s exec_load_store_pair_def Let_def store_pair_def add_signed_offset_def next_base_def
      stored_def w split: prod.splits bool.splits if_splits)
qed

lemma interpret_stores:
  fixes vec :: "'m executor"
  assumes "block_fits is base_pc" "f \<noteq> b"
  shows "stores \<noteq> [] \<Longrightarrow> \<forall>s \<in> set stores. fill_store b f s \<Longrightarrow> i + length stores \<le> length is \<Longrightarrow>
    take (length stores) (drop i is) = stores \<Longrightarrow> c_pc cpu = base_pc + 4 * word_of_nat i \<Longrightarrow>
    read_base_register cpu (unat b) = x + rel \<Longrightarrow> read_register cpu (unat f) = v \<Longrightarrow>
    store_pair_scan b f stores rel span = Some (rel', Some (lo, hi)) \<Longrightarrow>
    (case span of None \<Rightarrow> True | Some (_, e) \<Rightarrow> start = e) \<Longrightarrow> (span = None \<longrightarrow> start = rel + i_immediate (hd stores)) \<Longrightarrow>
    pair_stores k (length stores) (x + start) v m = (True, m') \<Longrightarrow>
    hi = start + 16 * word_of_nat (length stores) \<and> (case span of None \<Rightarrow> lo = start | Some (l, _) \<Rightarrow> lo = l) \<and>
    interpret_steps vec k is base_pc (length stores + n) cpu m = interpret_steps vec k is base_pc n
      (stored (unat b) (x + rel') (base_pc + 4 * word_of_nat (i + length stores)) cpu) m'"
proof (induction stores arbitrary: i cpu rel span start m)
  case (Cons s stores)
  have fs: "fill_store b f s" "\<forall>s \<in> set stores. fill_store b f s" using Cons.prems(2) by simp_all
  have len: "i < length is" using Cons.prems(3) by simp
  have at_i: "is ! i = s" using Cons.prems(4) len by (metis Cons_nth_drop_Suc length_Cons nth_Cons_0 take_Suc_Cons)
  have rest: "take (length stores) (drop (Suc i) is) = stores"
    using Cons.prems(4) len by (metis Cons_nth_drop_Suc length_Cons list.inject take_Suc_Cons)
  have start: "start = rel + i_immediate s"
    using Cons.prems(8,9,10) fs(1) by (auto simp: fill_store_def Let_def split: option.splits if_splits prod.splits)
  let ?span = "case span of None \<Rightarrow> (start, start + 16) | Some (l, _) \<Rightarrow> (l, start + 16)"
  have sc: "store_pair_scan b f stores (next_base s rel) (Some ?span) = Some (rel', Some (lo, hi))"
    using Cons.prems(8) fs(1) start
    by (auto simp: fill_store_def next_base_def Let_def split: option.splits if_splits prod.splits)
  have ff: "f \<noteq> b" "unat f \<noteq> unat b" using assms(2) by (simp_all add: word_unat_eq_iff)
  obtain m1 where st: "store_pair k m (x + start) v = (True, m1)" "pair_stores k (length stores) (x + start + 16) v m1 = (True, m')"
    using Cons.prems(11) by (auto split: prod.splits bool.splits)
  let ?c = "stored (unat b) (next_base s (x + rel)) (c_pc cpu + 4) cpu"
  have nb: "next_base s (x + rel) = x + next_base s rel" by (simp add: next_base_def add.assoc)
  have ex: "execute_decoded_instruction vec k (is ! i) cpu m = (True, ?c, m1)"
    using execute_fill_store[OF fs(1) ff(1) Cons.prems(6,7), of vec k m] st(1) start at_i by (simp add: add.assoc)
  have one: "interpret_steps vec k is base_pc (Suc j) cpu m = interpret_steps vec k is base_pc j ?c m1" for j
    by (rule interpret_one[OF assms(1) Cons.prems(5) len ex])
  show ?case
  proof (cases stores)
    case Nil
    then show ?thesis using sc st(2) one[of n] Cons.prems(5) nb
      by (auto simp: algebra_simps split: option.splits)
  next
    case (Cons s' stores')
    have pc: "c_pc ?c = base_pc + 4 * word_of_nat (Suc i)" using Cons.prems(5) by (simp add: algebra_simps)
    have "hi = start + 16 + 16 * word_of_nat (length stores) \<and> (case Some ?span of None \<Rightarrow> lo = start + 16 | Some (l, _) \<Rightarrow> lo = l) \<and>
      interpret_steps vec k is base_pc (length stores + n) ?c m1 = interpret_steps vec k is base_pc n
        (stored (unat b) (x + rel') (base_pc + 4 * word_of_nat (Suc i + length stores)) ?c) m'"
      by (rule Cons.IH[OF _ fs(2) _ rest pc _ _ sc])
        (use Cons Cons.prems(3,7) ff st(2) nb in \<open>auto simp: add.assoc split: option.splits\<close>)
    then show ?thesis using one[of "length stores + n"] by (auto simp: algebra_simps split: option.splits)
  qed
qed simp

text \<open>The state after some iterations of the loop.\<close>

definition looped :: "nat \<Rightarrow> nat \<Rightarrow> u64 \<Rightarrow> u64 \<Rightarrow> u64 \<Rightarrow> u64 \<Rightarrow> cpu \<Rightarrow> cpu" where
  "looped b d base counter pstate pc cpu =
     (write_register d counter (stored b base pc cpu))\<lparr>c_pstate := pstate, c_pc := pc\<rparr>"

lemma looped_simps:
  assumes "d \<noteq> b" "d \<noteq> 31"
  shows "looped b d x c p pc (looped b d y c' p' pc' cpu) = looped b d x c p pc cpu"
    "c_pc (looped b d x c p pc cpu) = pc" "c_pstate (looped b d x c p pc cpu) = p"
    "read_base_register (looped b d x c p pc cpu) b = x" "read_register (looped b d x c p pc cpu) d = c"
    "f \<noteq> b \<Longrightarrow> f \<noteq> d \<Longrightarrow> read_register (looped b d x c p pc cpu) f = read_register cpu f"
proof -
  have "f(b := y, d := c', b := x, d := c) = f(b := x, d := c)" for f :: "nat \<Rightarrow> u64"
    using assms(1) by (auto simp: fun_eq_iff)
  then show "looped b d x c p pc (looped b d y c' p' pc' cpu) = looped b d x c p pc cpu"
    using assms by (auto simp: looped_def stored_def write_base_register_def write_register_def set_x_def
      clear_exclusive_reservation_def)
qed (use assms in \<open>auto simp: looped_def stored_def write_base_register_def write_register_def set_x_def
    read_base_register_def read_register_def clear_exclusive_reservation_def\<close>)

text \<open>A block of adjacent store pairs, a counter and a branch back to its head.\<close>

definition fill_block :: "instr list \<Rightarrow> instr list \<Rightarrow> instr \<Rightarrow> instr \<Rightarrow> u64 \<Rightarrow> bool" where
  "fill_block is stores subtract branch base_pc \<longleftrightarrow> is = stores @ [subtract, branch] \<and> stores \<noteq> [] \<and>
     i_kind branch = AVZ_NATIVE_OP_BCOND \<and>
     base_pc + (word_of_nat (length is) - 1) * 4 + i_immediate branch = base_pc \<and>
     i_kind subtract = AVZ_NATIVE_OP_ADD_SUB_IMMEDIATE \<and> i_flags subtract AND 3 = 3 \<and>
     i_rd subtract = i_rn subtract \<and> i_bits subtract = 64"

lemma interpret_iteration:
  fixes vec :: "'m executor"
  assumes "block_fits is base_pc" "fill_block is stores subtract branch base_pc"
    and "\<forall>s \<in> set stores. fill_store b f s" "f \<noteq> b" "i_rd subtract \<noteq> b" "i_rd subtract \<noteq> f" "i_rd subtract \<noteq> 31"
    and "store_pair_scan b f stores 0 None = Some (rel, Some (lo, hi))"
    and "c_pc cpu = base_pc" "read_base_register cpu (unat b) = x" "read_register cpu (unat f) = v"
    and "pair_stores k (length stores) (x + lo) v m = (True, m')"
    and "add_with_carry_nzcv (read_register cpu (reg_d subtract)) (NOT (i_immediate subtract)) True 64 = (flags, result)"
    and "p = (c_pstate cpu AND 0xffffffff0fffffff) OR (flags AND 0xf0000000)"
  shows "interpret_steps vec k is base_pc (length is + n) cpu m = interpret_steps vec k is base_pc n
     (looped (unat b) (reg_d subtract) (x + rel) result p
       (if condition_holds (i_condition branch) p then base_pc else base_pc + (word_of_nat (length is) - 1) * 4 + 4) cpu) m'"
proof -
  have "is": "is = stores @ [subtract, branch]" and ne: "stores \<noteq> []"
    and br: "i_kind branch = AVZ_NATIVE_OP_BCOND" "base_pc + (word_of_nat (length is) - 1) * 4 + i_immediate branch = base_pc"
    and su: "i_kind subtract = AVZ_NATIVE_OP_ADD_SUB_IMMEDIATE" "i_flags subtract AND 3 = 3" "i_rd subtract = i_rn subtract"
      "i_bits subtract = 64" using assms(2) unfolding fill_block_def by blast+
  have fl: "i_flags subtract AND 1 \<noteq> 0" "i_flags subtract AND 2 \<noteq> 0"
  proof -
    have "bit (i_flags subtract AND 3) 0" "bit (i_flags subtract AND 3) 1" by (simp_all add: su(2) numeral_3_eq_3 bit_simps)
    then have "bit (i_flags subtract AND 1) 0" "bit (i_flags subtract AND 2) 1" by (auto simp: bit_and_iff bit_simps)
    then show "i_flags subtract AND 1 \<noteq> 0" "i_flags subtract AND 2 \<noteq> 0" by (metis bit_0_eq bot_apply bot_bool_def)+
  qed
  let ?l = "length stores" and ?d = "reg_d subtract"
  let ?c1 = "stored (unat b) (x + rel) (base_pc + 4 * word_of_nat ?l) cpu"
  let ?c2 = "looped (unat b) ?d (x + rel) result p (base_pc + 4 * word_of_nat (?l + 1)) cpu"
  let ?pc = "if condition_holds (i_condition branch) p then base_pc else base_pc + (word_of_nat (length is) - 1) * 4 + 4"
  let ?c3 = "looped (unat b) ?d (x + rel) result p ?pc cpu"
  have d: "?d \<noteq> unat b" "?d \<noteq> 31" using assms(5,7) by (simp_all add: word_unat_eq_iff)
  obtain s0 ss where s0: "stores = s0 # ss" using ne by (cases stores) auto
  have lo: "lo = i_immediate (hd stores)"
  proof -
    have "store_pair_scan b f ss r (Some (u, w)) = Some (r', Some (lo, hi)) \<Longrightarrow> lo = u" for r u w r'
      by (induction ss arbitrary: r w) (auto simp: Let_def split: if_splits)
    then show ?thesis using assms(8) unfolding s0 by (auto simp: Let_def split: if_splits)
  qed
  have stores: "interpret_steps vec k is base_pc (?l + j) cpu m = interpret_steps vec k is base_pc j ?c1 m'" for j
    using interpret_stores[OF assms(1,4) ne assms(3), of 0 cpu x 0 v None rel lo hi lo k m m' vec j] assms(8-12) lo
    by (simp add: "is")
  have at: "is ! ?l = subtract" "is ! (?l + 1) = branch" "?l < length is" "?l + 1 < length is" "length is = ?l + 2"
    by (simp_all add: "is" nth_append)
  have r: "read_register ?c1 ?d = read_register cpu ?d" by (rule stored_simps(4)[OF d(1)])
  have r2: "read_base_register ?c1 ?d = read_register ?c1 ?d"
    using d(2) by (simp add: read_base_register_def read_register_def)
  have "execute_decoded_instruction vec k subtract ?c1 m' = (True,
      (write_register ?d result (set_nzcv flags ?c1))\<lparr>c_pc := c_pc ?c1 + 4\<rparr>, m')"
    using fl su assms(13) r r2
    by (simp add: execute_kind register_step_def exec_add_sub_immediate_def Let_def masked_operand_eq)
  also have "(write_register ?d result (set_nzcv flags ?c1))\<lparr>c_pc := c_pc ?c1 + 4\<rparr> = ?c2"
    using d assms(14) by (auto simp: looped_def set_nzcv_def write_register_def set_x_def stored_def write_base_register_def
      clear_exclusive_reservation_def algebra_simps)
  finally have e1: "execute_decoded_instruction vec k (is ! ?l) ?c1 m' = (True, ?c2, m')" unfolding at(1) .
  have pc4: "base_pc + 4 * word_of_nat (?l + 1) = base_pc + (word_of_nat (length is) - 1) * 4" by (simp add: at(5))
  define pcb where "pcb = base_pc + 4 * word_of_nat (?l + 1)"
  have pcb2: "base_pc + (word_of_nat (length is) - 1) * 4 = pcb" by (simp only: pcb_def pc4)
  have pcb1: "pcb + i_immediate branch = base_pc" using br(2) unfolding pcb2 .
  have "execute_decoded_instruction vec k branch ?c2 m' = (True, ?c2\<lparr>c_pc := ?pc\<rparr>, m')"
    unfolding pcb2 pcb_def[symmetric] using br(1) looped_simps(2,3)[OF d] pcb1
    by (simp add: execute_kind register_step_def exec_bcond_def Let_def add_signed_offset_def)
  also have "?c2\<lparr>c_pc := ?pc\<rparr> = ?c3" by (simp add: looped_def stored_def write_register_def set_x_def)
  finally have e2: "execute_decoded_instruction vec k (is ! (?l + 1)) ?c2 m' = (True, ?c3, m')" unfolding at(2) .
  have "length is + n = ?l + Suc (Suc n)" using at(5) by simp
  then have "interpret_steps vec k is base_pc (length is + n) cpu m = interpret_steps vec k is base_pc (Suc (Suc n)) ?c1 m'"
    using stores[of "Suc (Suc n)"] by (simp only:)
  also have "\<dots> = interpret_steps vec k is base_pc (Suc n) ?c2 m'"
    by (rule interpret_one[OF assms(1) _ at(3) e1]) simp
  also have "\<dots> = interpret_steps vec k is base_pc n ?c3 m'"
    by (rule interpret_one[OF assms(1) _ at(4) e2]) (simp add: looped_simps(2)[OF d])
  finally show ?thesis .
qed

lemma interpret_iterations:
  fixes vec :: "'m executor"
  assumes "block_fits is base_pc" "fill_block is stores subtract branch base_pc"
    and "\<forall>s \<in> set stores. fill_store b f s" "f \<noteq> b" "i_rd subtract \<noteq> b" "i_rd subtract \<noteq> f" "i_rd subtract \<noteq> 31"
    and "store_pair_scan b f stores 0 None = Some (rel, Some (lo, hi))" "lo + rel = hi"
    and "rel = 16 * word_of_nat (length stores)"
  shows "fill_iterations (i_immediate subtract) (i_condition branch) left n0 counter p0 = (it, cf, pf, fell) \<Longrightarrow> 0 < left \<Longrightarrow>
    c_pc cpu = base_pc \<Longrightarrow> c_pstate cpu = p0 \<Longrightarrow> read_register cpu (reg_d subtract) = counter \<Longrightarrow>
    read_base_register cpu (unat b) = x \<Longrightarrow> read_register cpu (unat f) = v \<Longrightarrow>
    pair_stores k (length stores * (it - n0)) (x + lo) v m = (True, m') \<Longrightarrow>
    interpret_steps vec k is base_pc (length is * (it - n0)) cpu m =
      (True, looped (unat b) (reg_d subtract) (x + rel * word_of_nat (it - n0)) cf pf
         (if fell then base_pc + (word_of_nat (length is) - 1) * 4 + 4 else base_pc) cpu, m')"
proof (induction left arbitrary: n0 counter p0 cpu x m)
  case (Suc left)
  obtain flags result where aw: "add_with_carry_nzcv counter (NOT (i_immediate subtract)) True 64 = (flags, result)" by fastforce
  let ?p = "(p0 AND 0xffffffff0fffffff) OR (flags AND 0xf0000000)"
  let ?again = "condition_holds (i_condition branch) ?p"
  let ?d = "reg_d subtract" and ?l = "length stores"
  have d: "?d \<noteq> unat b" "?d \<noteq> 31" "unat f \<noteq> unat b" "unat f \<noteq> ?d" using assms(4-7) by (simp_all add: word_unat_eq_iff)
  let ?c = "\<lambda>pc. looped (unat b) ?d (x + rel) result ?p pc cpu"
  have bound: "n0 < it" using fill_iterations_bound[OF Suc.prems(1)] by simp
  have split: "?l * (it - n0) = ?l + ?l * (it - (n0 + 1))" "length is * (it - n0) = length is + length is * (it - (n0 + 1))"
    "it - n0 = Suc (it - (n0 + 1))" using bound by (simp_all add: Suc_diff_Suc flip: mult_Suc_right)
  obtain m1 where ps: "pair_stores k ?l (x + lo) v m = (True, m1)"
    "pair_stores k (?l * (it - (n0 + 1))) (x + lo + 16 * word_of_nat ?l) v m1 = (True, m')"
    using Suc.prems(8) unfolding split(1) pair_stores_add by (auto split: prod.splits bool.splits)
  note iteration = interpret_iteration[OF assms(1-8) Suc.prems(3,6,7) ps(1), of flags result ?p vec]
  show ?case
  proof (cases ?again)
    case False
    then have res: "it = n0 + 1" "cf = result" "pf = ?p" "fell" using Suc.prems(1) aw by (simp_all add: Let_def)
    then have "m1 = m'" using ps(2) by simp
    then show ?thesis using iteration[of 0] aw False Suc.prems(4,5) res by simp
  next
    case True
    have rec: "fill_iterations (i_immediate subtract) (i_condition branch) left (n0 + 1) result ?p = (it, cf, pf, fell)"
      using Suc.prems(1) aw True by (simp add: Let_def)
    have step: "interpret_steps vec k is base_pc (length is * (it - n0)) cpu m =
        interpret_steps vec k is base_pc (length is * (it - (n0 + 1))) (?c base_pc) m1"
      unfolding split(2) using iteration[of "length is * (it - (n0 + 1))"] aw True Suc.prems(4,5) by simp
    have addr: "x + rel + lo = x + lo + 16 * word_of_nat ?l" using assms(10) by (simp add: algebra_simps)
    have tot: "x + rel + rel * word_of_nat (it - (n0 + 1)) = x + rel * word_of_nat (it - n0)"
      unfolding split(3) by (simp add: algebra_simps)
    show ?thesis
    proof (cases "left = 0")
      case True
      then have res: "it = n0 + 1" "cf = result" "pf = ?p" "\<not> fell" using rec by simp_all
      then have "m1 = m'" using ps(2) by simp
      then show ?thesis using step res by simp
    next
      case False
      have "interpret_steps vec k is base_pc (length is * (it - (n0 + 1))) (?c base_pc) m1 =
        (True, looped (unat b) ?d (x + rel + rel * word_of_nat (it - (n0 + 1))) cf pf
           (if fell then base_pc + (word_of_nat (length is) - 1) * 4 + 4 else base_pc) (?c base_pc), m')"
      proof (rule Suc.IH[OF rec])
        show "pair_stores k (?l * (it - (n0 + 1))) (x + rel + lo) v m1 = (True, m')" using ps(2) unfolding addr .
      qed (use False d looped_simps[of ?d "unat b"] Suc.prems(7) in simp_all)
      then show ?thesis unfolding step tot using looped_simps(1)[OF d(1,2)] by simp
    qed
  qed
qed simp

lemma scan_range:
  "store_pair_scan b f ss r (Some (l, e)) = Some (r', Some (lo, hi)) \<Longrightarrow> lo = l \<and> hi = e + 16 * word_of_nat (length ss)"
proof (induction ss arbitrary: r e)
  case (Cons s ss)
  obtain r1 where "r + i_immediate s = e" "store_pair_scan b f ss r1 (Some (l, r + i_immediate s + 16)) = Some (r', Some (lo, hi))"
    using Cons.prems by (auto simp: Let_def split: if_splits)
  then show ?case using Cons.IH[of r1 "e + 16"] by (simp add: algebra_simps)
qed simp

lemma scan_first_range:
  "store_pair_scan b f ss r None = Some (r', Some (lo, hi)) \<Longrightarrow> hi = lo + 16 * word_of_nat (length ss)"
proof (cases ss)
  case (Cons s ss')
  assume a: "store_pair_scan b f ss r None = Some (r', Some (lo, hi))"
  obtain r1 where "store_pair_scan b f ss' r1 (Some (r + i_immediate s, r + i_immediate s + 16)) = Some (r', Some (lo, hi))"
    using a unfolding Cons by (auto simp: Let_def split: if_splits)
  from scan_range[OF this] show ?thesis unfolding Cons by (simp add: algebra_simps)
qed simp

lemma scan_stores: "store_pair_scan b f ss r span = Some q \<Longrightarrow> \<forall>s \<in> set ss. fill_store b f s"
  by (induction ss arbitrary: r span) (auto simp: fill_store_def Let_def split: if_splits option.splits prod.splits)

text \<open>
  C11: The fill step is the loop of store pairs. When the recogniser accepts a block and claims
  \<open>n\<close> steps, interpreting the block for \<open>n\<close> steps succeeds, ends in the same processor state
  and leaves memory that shows the same, if filling is storing pairs. The counter must be a
  register other than \<open>x31\<close> and other than the one that is stored: the recogniser does not
  check that.
\<close>
theorem fill_loop_equals_interpreter:
  fixes vec :: "'m executor"
  assumes "try_execute_store_pair_fill_loop k is base_pc remaining cpu m = (Some n, cpu', m')"
    and "fills_pairs k view" "block_fits is base_pc"
    and "length is < 2 ^ 32" "i_rd (is ! (length is - 2)) \<noteq> 31" "i_rd (is ! (length is - 2)) \<noteq> i_rt (is ! 0)"
  shows "n \<le> remaining \<and> (\<exists>m''. interpret_steps vec k is base_pc n cpu m = (True, cpu', m'') \<and> view m'' = view m')"
proof -
  note def = assms(1)[unfolded try_execute_store_pair_fill_loop_def]
  define su where "su = is ! (length is - 2)"
  define br where "br = is ! (length is - 1)"
  define stores where "stores = take (length is - 2) is"
  define b where "b = i_rn (is ! 0)"
  define f where "f = i_rt (is ! 0)"
  let ?max = "remaining div length is"
  obtain fill rel lo hi it cf pf fell where
    g: "k_fill_memory k = Some fill" "c_pc cpu = base_pc" "3 \<le> length is" "i_kind br = AVZ_NATIVE_OP_BCOND"
      "base_pc + (word_of_nat (length is) - 1) * 4 + i_immediate br = base_pc" "i_kind su = AVZ_NATIVE_OP_ADD_SUB_IMMEDIATE"
      "i_flags su AND 3 = 3" "i_rd su = i_rn su" "i_bits su = 64" "f \<noteq> b" "i_rd su \<noteq> b"
    and sc: "store_pair_scan b f stores 0 None = Some (rel, Some (lo, hi))" "lo + rel = hi" "?max \<noteq> 0"
    and it: "fill_iterations (i_immediate su) (i_condition br) ?max 0 (read_register cpu (reg_n su)) (c_pstate cpu) = (it, cf, pf, fell)"
    and cnt: "int it \<le> (2 ^ 64 - 1) div uint (hi - lo)"
    and fl: "fill m (read_base_register cpu (unat b) + lo) (word_of_nat it * (hi - lo)) (read_register cpu (unat f)) 8 = (True, m')"
    and res: "n = it * length is" "cpu' = (write_register (reg_d su) cf (write_base_register (unat b)
        (read_base_register cpu (unat b) + rel * word_of_nat it) (clear_exclusive_reservation cpu)))\<lparr>c_pstate := pf,
        c_pc := if fell then base_pc + (word_of_nat (length is) - 1) * 4 + 4 else base_pc\<rparr>"
    using def unfolding su_def[symmetric] br_def[symmetric] stores_def[symmetric] b_def[symmetric] f_def[symmetric] Let_def
    by (auto simp: not_less split: option.splits if_splits prod.splits bool.splits)
  let ?l = "length stores" and ?x = "read_base_register cpu (unat b)" and ?v = "read_register cpu (unat f)"
  have "is": "is = stores @ [su, br]"
  proof -
    have "drop (length is - 2) is = [su, br]"
      using g(3) unfolding su_def br_def
      by (subst Cons_nth_drop_Suc[symmetric], simp, subst Cons_nth_drop_Suc[symmetric]) (auto simp: Suc_diff_Suc numeral_2_eq_2)
    then show ?thesis unfolding stores_def by (metis append_take_drop_id)
  qed
  have l: "?l = length is - 2" "0 < ?l" "stores \<noteq> []" using g(3) by (auto simp: stores_def)
  have hi: "hi - lo = 16 * word_of_nat ?l" using scan_first_range[OF sc(1)] by simp
  have bytes: "unat (hi - lo) = 16 * ?l"
    using assms(4) l(1) unfolding hi by (simp add: unat_word_ariths unsigned_of_nat take_bit_nat_eq_self)
  have rel: "rel = 16 * word_of_nat ?l" using hi sc(2) by (simp add: algebra_simps)
  have fb: "fill_block is stores su br base_pc" unfolding fill_block_def using "is" l g(4-9) by blast
  have "int it * uint (hi - lo) \<le> (2 ^ 64 - 1) div uint (hi - lo) * uint (hi - lo)"
    using cnt by (rule mult_right_mono) simp
  also have "\<dots> \<le> 2 ^ 64 - 1" using pos_mod_sign[of "uint (hi - lo)" "2 ^ 64 - 1"] bytes l(2)
    by (simp add: minus_mod_eq_div_mult[symmetric] uint_nat del: unsigned_0)
  finally have "int it * int (unat (hi - lo)) < 2 ^ 64" by (simp only: uint_nat)
  then have total: "16 * (?l * it) < 2 ^ 64" unfolding bytes by (simp add: algebra_simps flip: of_nat_mult)
  have n: "word_of_nat it * (hi - lo) = word_of_nat (16 * (?l * it))" unfolding hi by (simp add: algebra_simps)
  obtain m'' where m'': "pair_stores k (?l * it) (?x + lo) ?v m = (True, m'')" "view m'' = view m'"
    using assms(2) g(1) fl total unfolding n fills_pairs_def by blast
  have "interpret_steps vec k is base_pc (length is * (it - 0)) cpu m =
      (True, looped (unat b) (reg_d su) (?x + rel * word_of_nat (it - 0)) cf pf
         (if fell then base_pc + (word_of_nat (length is) - 1) * 4 + 4 else base_pc) cpu, m'')"
    using assms(5,6) g l m''(1) sc
    by - (rule interpret_iterations[OF assms(3) fb scan_stores[OF sc(1)] _ _ _ _ sc(1,2) rel it],
      simp_all add: su_def f_def)
  moreover have "looped (unat b) (reg_d su) (?x + rel * word_of_nat it) cf pf
      (if fell then base_pc + (word_of_nat (length is) - 1) * 4 + 4 else base_pc) cpu = cpu'"
    unfolding res looped_def stored_def by (simp add: write_register_def set_x_def)
  moreover have "it \<le> ?max" using fill_iterations_bound[OF it] by simp
  then have "n \<le> remaining" unfolding res(1) by (metis le_trans mult_le_mono1 div_times_less_eq_dividend)
  ultimately show ?thesis using m''(2) res(1) by (auto simp: mult.commute)
qed

text \<open>\<open>stp x1, x1, [x0], #16; subs x2, x2, #1; b.ne\<close> over a memory that shows nothing.\<close>

definition fill_words :: "instr list" where
  "fill_words = map (the \<circ> avz_native_decode_instruction) [0xa8810401, 0xf1000442, 0x54ffffc1]"

definition accepting_memory :: "unit callbacks" where
  "accepting_memory = no_callbacks\<lparr>k_fill_memory := Some (\<lambda>m _ _ _ _. (True, m)),
     k_write_memory := Some (\<lambda>m _ _ _. (True, m)), k_can_access_memory := Some (\<lambda>m _ _ _. (True, m))\<rparr>"

lemma accepting_memory_fills: "fills_pairs accepting_memory (\<lambda>m. m)"
proof -
  have "pair_stores accepting_memory j a v m = (True, m)" for j a v m
    by (induction j arbitrary: a) (simp_all add: store_pair_def accepting_memory_def no_callbacks_def slow_write_pair_def
      can_access_both_def can_access_def write_both_def slow_write_def)
  then show ?thesis by (simp add: fills_pairs_def)
qed

theorem fill_loop_equals_interpreter_witness:
  "\<exists>cpu'. try_execute_store_pair_fill_loop accepting_memory fill_words 0x1000 4 (zero_cpu 0x1000) () = (Some 3, cpu', ()) \<and>
     interpret_steps no_vector accepting_memory fill_words 0x1000 3 (zero_cpu 0x1000) () = (True, cpu', ())"
proof -
  obtain n cpu' where t: "try_execute_store_pair_fill_loop accepting_memory fill_words 0x1000 4 (zero_cpu 0x1000) () = (n, cpu', ())"
    by (metis prod.exhaust old.unit.exhaust)
  moreover have "fst (try_execute_store_pair_fill_loop accepting_memory fill_words 0x1000 4 (zero_cpu 0x1000) ()) = Some 3"
    by code_simp
  ultimately have n: "n = Some 3" by simp
  have fits: "block_fits fill_words 0x1000" "length fill_words < 2 ^ 32" by (simp_all add: block_fits_def fill_words_def)
  have "i_rd (fill_words ! (length fill_words - 2)) \<noteq> 31" "i_rd (fill_words ! (length fill_words - 2)) \<noteq> i_rt (fill_words ! 0)"
    by code_simp+
  from fill_loop_equals_interpreter[OF t[unfolded n] accepting_memory_fills fits this, of no_vector] show ?thesis using t n by simp
qed

text \<open>
  The recogniser accepts loops that store their own counter, where the two differ: over a memory
  that logs its writes, the guest code stores 2 and then 1, the step stores 2 throughout.
\<close>

definition logging_memory :: "(u64 \<times> u64) list callbacks" where
  "logging_memory = no_callbacks\<lparr>
     k_fill_memory := Some (\<lambda>m a n v _. (True, m @ map (\<lambda>j. (a + 8 * word_of_nat j, v)) [0 ..< unat n div 8])),
     k_write_memory := Some (\<lambda>m a _ v. (True, m @ [(a, v)])), k_can_access_memory := Some (\<lambda>m _ _ _. (True, m))\<rparr>"

definition counter_fill_words :: "instr list" where
  "counter_fill_words = map (the \<circ> avz_native_decode_instruction) [0xa8810802, 0xf1000442, 0x54ffffc1]"

lemma fill_loop_stores_stale_counter:
  "let cpu = write_register 2 2 (zero_cpu 0x1000);
       (fast, _, fast_writes) = try_execute_store_pair_fill_loop logging_memory counter_fill_words 0x1000 6 cpu [];
       (ok, _, writes) = interpret_steps no_vector logging_memory counter_fill_words 0x1000 6 cpu []
   in fast = Some 6 \<and> ok \<and> fast_writes = [(0, 2), (8, 2), (16, 2), (24, 2)] \<and>
      writes = [(0, 2), (8, 2), (16, 1), (24, 1)]"
  by code_simp

end
