(* ===== verification/ExecVector.thy ===== *)
theory ExecVector
  imports ExecInteger
begin

text \<open>
  The integer vector cases of \<open>execute_decoded_instruction\<close> and their helpers in
  \<open>ARM64VizNative.c\<close>, in the configuration without NEON intrinsics (the blocks under
  \<open>#if defined(__aarch64__) && defined(__ARM_NEON)\<close> try a host instruction first).

  The loops \<open>for (lane = 0; lane < n; lane++) write_vector_element(&result, ...)\<close> are
  \<open>write_lanes\<close>. Element sizes, shift amounts and lane numbers are \<open>nat\<close>; the decoder gives no
  kind of this theory an element size of zero, by which the code divides.
\<close>

subsection \<open>Elements\<close>

definition sign_extend_vector_element :: "cpu \<Rightarrow> nat \<Rightarrow> nat \<Rightarrow> nat \<Rightarrow> u64" where
  "sign_extend_vector_element cpu vector lane element_bits =
     sign_extend_u64 (read_vector_element cpu vector lane element_bits) element_bits"

definition duplicate_simd_element :: "u64 \<Rightarrow> nat \<Rightarrow> bool \<Rightarrow> vreg" where
  "duplicate_simd_element element element_bits writes_full_vector =
    (let low =
           if element_bits = 8 then (element AND 0xff) * 0x0101010101010101
           else if element_bits = 16 then (element AND 0xffff) * 0x0001000100010001
           else if element_bits = 32 then (element AND 0xffffffff) * 0x0000000100000001
           else if element_bits = 64 then element
           else if element_bits = 0 \<or> element_bits > 64 \<or> 64 mod element_bits \<noteq> 0 then 0
           else
             (let masked_element = element AND mask_for_bits element_bits
              in fold (\<lambda>lane low. low OR shl masked_element (lane * element_bits))
                   [0 ..< 64 div element_bits] 0)
     in \<lparr>v_low = low, v_high = if writes_full_vector then low else 0\<rparr>)"

definition zero_vector :: vreg where
  "zero_vector = \<lparr>v_low = 0, v_high = 0\<rparr>"

definition write_lanes :: "vreg \<Rightarrow> nat \<Rightarrow> nat \<Rightarrow> nat \<Rightarrow> (nat \<Rightarrow> u64) \<Rightarrow> vreg" where
  "write_lanes start first_lane lane_count element_bits f =
     fold (\<lambda>lane result. write_vector_element result (first_lane + lane) element_bits (f lane))
       [0 ..< lane_count] start"

text \<open>A test of the flags, and the size that the flag for full vectors selects.\<close>

abbreviation has_flag :: "instr \<Rightarrow> u8 \<Rightarrow> bool" where "has_flag i k \<equiv> i_flags i AND k \<noteq> 0"

abbreviation full_or_half :: "bool \<Rightarrow> nat" where
  "full_or_half full \<equiv> (if full then 128 else 64)"

abbreviation element_bits :: "instr \<Rightarrow> nat" where "element_bits i \<equiv> unat (i_bits i)"
abbreviation shift_of :: "instr \<Rightarrow> nat" where "shift_of i \<equiv> unat (i_shift_amount i)"

definition set_result :: "instr \<Rightarrow> vreg \<Rightarrow> cpu \<Rightarrow> cpu option" where
  "set_result i result cpu = Some ((set_v (reg_d i) result cpu)\<lparr>c_pc := c_pc cpu + 4\<rparr>)"

subsection \<open>Moves between elements\<close>

definition exec_simd_insert_general_to_element :: "instr \<Rightarrow> cpu \<Rightarrow> cpu option" where
  "exec_simd_insert_general_to_element i cpu =
     set_result i (write_vector_element (c_v cpu (reg_d i)) (unat (i_condition i)) (element_bits i)
       (read_register cpu (reg_n i))) cpu"

definition exec_simd_insert_vector_element :: "instr \<Rightarrow> cpu \<Rightarrow> cpu option" where
  "exec_simd_insert_vector_element i cpu =
    (let v = read_vector_element cpu (reg_n i) (shift_of i) (element_bits i)
     in set_result i (write_vector_element (c_v cpu (reg_d i)) (unat (i_condition i)) (element_bits i) v) cpu)"

definition exec_simd_duplicate_general :: "instr \<Rightarrow> cpu \<Rightarrow> cpu option" where
  "exec_simd_duplicate_general i cpu =
     set_result i (duplicate_simd_element (read_register cpu (reg_n i)) (element_bits i) (has_flag i 1)) cpu"

definition exec_simd_duplicate_vector_element :: "instr \<Rightarrow> cpu \<Rightarrow> cpu option" where
  "exec_simd_duplicate_vector_element i cpu =
    (let element = read_vector_element cpu (reg_n i) (unat (i_condition i)) (element_bits i)
     in set_result i
          (if has_flag i 2 then \<lparr>v_low = element, v_high = 0\<rparr>
           else duplicate_simd_element element (element_bits i) (has_flag i 1)) cpu)"

definition exec_simd_table_lookup :: "instr \<Rightarrow> cpu \<Rightarrow> cpu option" where
  "exec_simd_table_lookup i cpu =
    (let lane_count = (if has_flag i 1 then 16 else 8);
         table_byte_count = unat (i_condition i) * 16;
         preserve_destination = has_flag i 2;
         destination = c_v cpu (reg_d i);
         start = (if preserve_destination
                  then \<lparr>v_low = v_low destination, v_high = if lane_count = 16 then v_high destination else 0\<rparr>
                  else zero_vector);
         byte = (\<lambda>lane.
           let index = unat (read_vector_element cpu (reg_m i) lane 8)
           in if index < table_byte_count then
                read_vector_element cpu ((reg_n i + index div 16) mod 32) (index mod 16) 8
              else if preserve_destination then read_vector_element cpu (reg_d i) lane 8
              else 0)
     in set_result i (write_lanes start 0 lane_count 8 byte) cpu)"

definition extract_bytes :: "nat \<Rightarrow> nat \<Rightarrow> vreg \<Rightarrow> vreg \<Rightarrow> vreg" where
  "extract_bytes byte_count byte_offset a b =
    (if byte_count = 8 then
       (if byte_offset = 0 then \<lparr>v_low = v_low a, v_high = 0\<rparr>
        else let shift = byte_offset * 8
             in \<lparr>v_low = shr (v_low a) shift OR shl (v_low b) (64 - shift), v_high = 0\<rparr>)
     else if byte_offset = 0 then a
     else if byte_offset < 8 then
       (let shift = byte_offset * 8
        in \<lparr>v_low = shr (v_low a) shift OR shl (v_high a) (64 - shift),
            v_high = shr (v_high a) shift OR shl (v_low b) (64 - shift)\<rparr>)
     else if byte_offset = 8 then \<lparr>v_low = v_high a, v_high = v_low b\<rparr>
     else
       (let shift = (byte_offset - 8) * 8
        in \<lparr>v_low = shr (v_high a) shift OR shl (v_low b) (64 - shift),
            v_high = shr (v_low b) shift OR shl (v_high b) (64 - shift)\<rparr>))"

definition exec_simd_extract_vector :: "instr \<Rightarrow> cpu \<Rightarrow> cpu option" where
  "exec_simd_extract_vector i cpu =
     set_result i (extract_bytes (if has_flag i 1 then 16 else 8) (shift_of i)
       (c_v cpu (reg_n i)) (c_v cpu (reg_m i))) cpu"

text \<open>
  \<open>UZP\<close>, \<open>TRN\<close> and \<open>ZIP\<close>: the operation is in the low two bits of the flags and bit 2 asks
  for the second of the two vectors.
\<close>

definition permuted_lane :: "nat \<Rightarrow> nat \<Rightarrow> nat \<Rightarrow> nat \<Rightarrow> nat \<Rightarrow> nat \<Rightarrow> nat \<times> nat" where
  "permuted_lane operation second_part half_lane_count rn rm lane =
    (if operation = 1 then
       (if lane < half_lane_count then (rn, lane * 2 + second_part)
        else (rm, (lane - half_lane_count) * 2 + second_part))
     else if operation = 2 then
       (if even lane then rn else rm, (lane div 2) * 2 + second_part)
     else
       (if even lane then rn else rm, lane div 2 + (if second_part \<noteq> 0 then half_lane_count else 0)))"

definition exec_simd_permute_two_vector :: "instr \<Rightarrow> cpu \<Rightarrow> cpu option" where
  "exec_simd_permute_two_vector i cpu =
    (let vector_bits = full_or_half (i_condition i \<noteq> 0);
         lane_count = vector_bits div element_bits i;
         half_lane_count = lane_count div 2;
         operation = unat (i_flags i AND 3);
         second_part = (if has_flag i 4 then 1 else 0)
     in if lane_count < 2 \<or> operation = 0 then None
        else
          set_result i
            (write_lanes zero_vector 0 lane_count (element_bits i)
              (\<lambda>lane. let (source_register, source_lane) =
                            permuted_lane operation second_part half_lane_count (reg_n i) (reg_m i) lane
                      in read_vector_element cpu source_register source_lane (element_bits i))) cpu)"

definition exec_simd_reverse_elements :: "instr \<Rightarrow> cpu \<Rightarrow> cpu option" where
  "exec_simd_reverse_elements i cpu =
    (let vector_bits = full_or_half (has_flag i 1);
         elements_per_container = shift_of i div element_bits i
     in set_result i
          (write_lanes zero_vector 0 (vector_bits div element_bits i) (element_bits i)
            (\<lambda>lane. let container_start = (lane div elements_per_container) * elements_per_container;
                        offset = lane mod elements_per_container
                    in read_vector_element cpu (reg_n i)
                         (container_start + elements_per_container - 1 - offset) (element_bits i))) cpu)"

subsection \<open>Immediates and bitwise operations\<close>

definition exec_simd_movi_zero :: "instr \<Rightarrow> cpu \<Rightarrow> cpu option" where
  "exec_simd_movi_zero i cpu = set_result i zero_vector cpu"

definition exec_simd_movi_byte :: "instr \<Rightarrow> cpu \<Rightarrow> cpu option" where
  "exec_simd_movi_byte i cpu =
    (let byte = i_immediate i AND 0xff;
         repeated = fold (\<lambda>lane repeated. repeated OR shl byte (lane * 8)) [0 ..< 8] 0
     in set_result i \<lparr>v_low = repeated, v_high = if has_flag i 1 then repeated else 0\<rparr> cpu)"

definition exec_simd_movi_word_immediate :: "instr \<Rightarrow> cpu \<Rightarrow> cpu option" where
  "exec_simd_movi_word_immediate i cpu =
    (let immediate = duplicate_simd_element (i_immediate i) (element_bits i) (has_flag i 1);
         destination = c_v cpu (reg_d i)
     in set_result i
          (if has_flag i 2 then
             \<lparr>v_low = v_low destination OR v_low immediate,
              v_high = if has_flag i 1 then v_high destination OR v_high immediate else 0\<rparr>
           else if has_flag i 4 then
             \<lparr>v_low = v_low destination AND NOT (v_low immediate),
              v_high = if has_flag i 1 then v_high destination AND NOT (v_high immediate) else 0\<rparr>
           else immediate) cpu)"

definition exec_simd_mvni_immediate :: "instr \<Rightarrow> cpu \<Rightarrow> cpu option" where
  "exec_simd_mvni_immediate i cpu =
     set_result i (duplicate_simd_element (i_immediate i) (element_bits i) (has_flag i 1)) cpu"

definition exec_simd_movi_d_immediate :: "instr \<Rightarrow> cpu \<Rightarrow> cpu option" where
  "exec_simd_movi_d_immediate i cpu =
     set_result i \<lparr>v_low = i_immediate i, v_high = if has_flag i 1 then i_immediate i else 0\<rparr> cpu"

definition exec_simd_fp_immediate_move :: "instr \<Rightarrow> cpu \<Rightarrow> cpu option" where
  "exec_simd_fp_immediate_move i cpu =
     set_result i (duplicate_simd_element (i_immediate i) (element_bits i) (has_flag i 1)) cpu"

definition exec_simd_bitwise_not :: "instr \<Rightarrow> cpu \<Rightarrow> cpu option" where
  "exec_simd_bitwise_not i cpu =
     set_result i \<lparr>v_low = NOT (v_low (c_v cpu (reg_n i))),
       v_high = if has_flag i 1 then NOT (v_high (c_v cpu (reg_n i))) else 0\<rparr> cpu"

definition vector_logic :: "u8 \<Rightarrow> u64 \<Rightarrow> u64 \<Rightarrow> u64 \<Rightarrow> u64 option" where
  "vector_logic operation destination lhs rhs =
    (if operation = 0 then Some (lhs OR rhs)
     else if operation = 1 then Some (lhs XOR rhs)
     else if operation = 2 then Some ((destination AND lhs) OR (NOT destination AND rhs))
     else if operation = 3 then Some ((destination AND NOT rhs) OR (lhs AND rhs))
     else if operation = 4 then Some ((destination AND rhs) OR (lhs AND NOT rhs))
     else if operation = 5 then Some (lhs AND rhs)
     else if operation = 6 then Some (lhs AND NOT rhs)
     else if operation = 7 then Some (lhs OR NOT rhs)
     else None)"

definition exec_simd_orr_vector :: "instr \<Rightarrow> cpu \<Rightarrow> cpu option" where
  "exec_simd_orr_vector i cpu =
    (let operation = shr (i_flags i) 1;
         destination = c_v cpu (reg_d i); lhs = c_v cpu (reg_n i); rhs = c_v cpu (reg_m i)
     in case vector_logic operation (v_low destination) (v_low lhs) (v_low rhs) of
          None \<Rightarrow> None
        | Some low \<Rightarrow>
            let high = (if has_flag i 1
                        then (case vector_logic operation (v_high destination) (v_high lhs) (v_high rhs) of
                                None \<Rightarrow> 0 | Some high \<Rightarrow> high)
                        else 0)
            in set_result i \<lparr>v_low = low, v_high = high\<rparr> cpu)"

subsection \<open>Lane by lane arithmetic\<close>

abbreviation lanes_of :: "bool \<Rightarrow> instr \<Rightarrow> nat" where
  "lanes_of full i \<equiv> full_or_half full div element_bits i"

definition exec_simd_integer_minmax :: "instr \<Rightarrow> cpu \<Rightarrow> cpu option" where
  "exec_simd_integer_minmax i cpu =
    (let bits = element_bits i; is_unsigned = has_flag i 2; select_minimum = has_flag i 4
     in set_result i
          (write_lanes zero_vector 0 (lanes_of (has_flag i 1) i) bits (\<lambda>lane.
             let lhs = read_vector_element cpu (reg_n i) lane bits;
                 rhs = read_vector_element cpu (reg_m i) lane bits;
                 signed_lhs = sign_extend_vector_element cpu (reg_n i) lane bits;
                 signed_rhs = sign_extend_vector_element cpu (reg_m i) lane bits;
                 select_lhs =
                   if is_unsigned then (if select_minimum then lhs < rhs else lhs > rhs)
                   else (if select_minimum then signed_lhs <s signed_rhs else signed_rhs <s signed_lhs)
             in if select_lhs then lhs else rhs)) cpu)"

text \<open>\<open>SABD\<close>, \<open>UABD\<close>, \<open>SABA\<close> and \<open>UABA\<close>; the long and wide additions; plain additions.\<close>

definition absolute_difference_lanes :: "instr \<Rightarrow> cpu \<Rightarrow> vreg" where
  "absolute_difference_lanes i cpu =
    (let bits = element_bits i; is_unsigned = has_flag i 64;
         element = (\<lambda>r lane. if is_unsigned then read_vector_element cpu r lane bits
                             else sign_extend_vector_element cpu r lane bits)
     in write_lanes zero_vector 0 (lanes_of (has_flag i 1) i) bits (\<lambda>lane.
          let lhs = element (reg_n i) lane;
              rhs = element (reg_m i) lane;
              v = (if rhs \<le>s lhs then lhs - rhs else rhs - lhs);
              v = (if has_flag i 128 then v + read_vector_element cpu (reg_d i) lane bits else v)
          in v AND mask_for_bits bits))"

definition long_addition_lanes :: "instr \<Rightarrow> cpu \<Rightarrow> vreg" where
  "long_addition_lanes i cpu =
    (let bits = element_bits i;
         destination_bits = bits * 2;
         source_lane_base = (if has_flag i 1 then 64 div bits else 0);
         is_unsigned = has_flag i 8;
         element = (\<lambda>r lane. if is_unsigned then read_vector_element cpu r (source_lane_base + lane) bits
                             else sign_extend_vector_element cpu r (source_lane_base + lane) bits)
     in write_lanes zero_vector 0 (128 div destination_bits) destination_bits (\<lambda>lane.
          let lhs = (if has_flag i 16 then read_vector_element cpu (reg_n i) lane destination_bits
                     else element (reg_n i) lane);
              rhs = element (reg_m i) lane;
              v = (if has_flag i 2 then lhs - rhs else lhs + rhs)
          in v AND mask_for_bits destination_bits))"

definition exec_simd_add_vector :: "instr \<Rightarrow> cpu \<Rightarrow> cpu option" where
  "exec_simd_add_vector i cpu =
    (if has_flag i 32 then set_result i (absolute_difference_lanes i cpu) cpu
     else if has_flag i 4 then set_result i (long_addition_lanes i cpu) cpu
     else
       let bits = element_bits i; subtract = has_flag i 2
       in set_result i
            (write_lanes zero_vector 0 (lanes_of (has_flag i 1) i) bits (\<lambda>lane.
               let lhs = read_vector_element cpu (reg_n i) lane bits;
                   rhs = read_vector_element cpu (reg_m i) lane bits;
                   v = (if subtract then lhs - rhs else lhs + rhs)
               in v AND mask_for_bits bits)) cpu)"

definition exec_simd_unsigned_shift_register :: "instr \<Rightarrow> cpu \<Rightarrow> cpu option" where
  "exec_simd_unsigned_shift_register i cpu =
    (let bits = element_bits i; lane_mask = mask_for_bits bits
     in set_result i
          (write_lanes zero_vector 0 (lanes_of (has_flag i 1) i) bits (\<lambda>lane.
             let v = read_vector_element cpu (reg_n i) lane bits;
                 raw_shift = read_vector_element cpu (reg_m i) lane bits;
                 shift = sint (ucast (raw_shift AND 0xff) :: u8)
             in if 0 \<le> shift then
                  (if nat shift < bits then shl v (nat shift) AND lane_mask else 0)
                else
                  let magnitude = nat (- shift);
                      negative = (has_flag i 2 \<and> v AND shl 1 (bits - 1) \<noteq> 0)
                  in if bits \<le> magnitude then (if negative then lane_mask else 0)
                     else
                       let shifted = shr v magnitude
                       in if negative then shifted OR (lane_mask XOR shr lane_mask magnitude)
                          else shifted)) cpu)"

definition exec_simd_integer_negate :: "instr \<Rightarrow> cpu \<Rightarrow> cpu option" where
  "exec_simd_integer_negate i cpu =
    (let bits = element_bits i;
         full = (\<not> has_flag i 2 \<and> has_flag i 1)
     in set_result i
          (write_lanes zero_vector 0 (lanes_of full i) bits (\<lambda>lane.
             let source = read_vector_element cpu (reg_n i) lane bits
             in if has_flag i 4 \<and> shr source (bits - 1) = 0 then source
                else (0 - source) AND mask_for_bits bits)) cpu)"

definition execute_simd_shift_left_immediate_portable :: "instr \<Rightarrow> cpu \<Rightarrow> cpu option" where
  "execute_simd_shift_left_immediate_portable i cpu =
    (let bits = element_bits i; shift = shift_of i
     in if bits \<notin> {8, 16, 32, 64} \<or> bits \<le> shift then None
        else
          Some (set_v (reg_d i)
            (write_lanes zero_vector 0 (lanes_of (has_flag i 1) i) bits (\<lambda>lane.
               let v = shl (read_vector_element cpu (reg_n i) lane bits) shift AND mask_for_bits bits
               in if has_flag i 2 \<and> shift \<noteq> 0 then
                    v OR (read_vector_element cpu (reg_d i) lane bits AND (shl 1 shift - 1))
                  else v)) cpu))"

text \<open>The cases that call a helper and then advance the program counter.\<close>

definition advance :: "cpu option \<Rightarrow> cpu option" where
  "advance step = (case step of None \<Rightarrow> None | Some cpu \<Rightarrow> Some (cpu\<lparr>c_pc := c_pc cpu + 4\<rparr>))"

definition exec_simd_shift_left_immediate :: "instr \<Rightarrow> cpu \<Rightarrow> cpu option" where
  "exec_simd_shift_left_immediate i cpu = advance (execute_simd_shift_left_immediate_portable i cpu)"

definition exec_simd_scalar_shift_left_immediate :: "instr \<Rightarrow> cpu \<Rightarrow> cpu option" where
  "exec_simd_scalar_shift_left_immediate i cpu =
     set_result i \<lparr>v_low = shl (v_low (c_v cpu (reg_n i))) (shift_of i), v_high = 0\<rparr> cpu"

text \<open>\<open>__int128\<close> keeps the rounded sum exact before it is shifted back.\<close>

definition shifted_right_lane :: "instr \<Rightarrow> u64 \<Rightarrow> u64" where
  "shifted_right_lane i source =
    (let bits = element_bits i; shift = shift_of i; is_unsigned = has_flag i 2
     in if has_flag i 16 then
          (if is_unsigned then lo64 (shr (zext128 source + shl 1 (shift - 1)) shift)
           else lo64 (sar (sext128 (sign_extend_u64 source bits) + shl 1 (shift - 1)) shift))
        else if is_unsigned then (if shift = bits then 0 else shr source shift)
        else lo64 (sar (sext128 (sign_extend_u64 source bits)) shift))"

definition execute_simd_shift_right_immediate_portable :: "instr \<Rightarrow> cpu \<Rightarrow> cpu option" where
  "execute_simd_shift_right_immediate_portable i cpu =
    (let bits = element_bits i; shift = shift_of i;
         full = (\<not> has_flag i 4 \<and> has_flag i 1);
         element_mask = mask_for_bits bits
     in if bits = 0 \<or> shift = 0 \<or> bits < shift then None
        else
          Some (set_v (reg_d i)
            (write_lanes zero_vector 0 (lanes_of full i) bits (\<lambda>lane.
               let v = shifted_right_lane i (read_vector_element cpu (reg_n i) lane bits);
                   destination = read_vector_element cpu (reg_d i) lane bits;
                   v = (if has_flag i 8 then
                          v OR (destination AND
                            (if shift = bits then element_mask else element_mask XOR shr element_mask shift))
                        else if has_flag i 32 then v + destination
                        else v)
               in v AND element_mask)) cpu))"

definition exec_simd_shift_right_immediate :: "instr \<Rightarrow> cpu \<Rightarrow> cpu option" where
  "exec_simd_shift_right_immediate i cpu = advance (execute_simd_shift_right_immediate_portable i cpu)"

definition exec_simd_signed_shift_long :: "instr \<Rightarrow> cpu \<Rightarrow> cpu option" where
  "exec_simd_signed_shift_long i cpu =
    (let shift = shift_of i;
         source_lane_base = unat (i_condition i);
         source_bits = (if i_bits i \<noteq> 0 then element_bits i else 32);
         destination_bits = source_bits * 2
     in if source_bits \<notin> {8, 16, 32} \<or> source_bits < shift then None
        else
          set_result i
            (write_lanes zero_vector 0 (128 div destination_bits) destination_bits (\<lambda>lane.
               let source =
                     if has_flag i 1 then read_vector_element cpu (reg_n i) (source_lane_base + lane) source_bits
                     else sign_extend_vector_element cpu (reg_n i) (source_lane_base + lane) source_bits
               in shl source shift)) cpu)"

subsection \<open>Saturation\<close>

text \<open>One lane of \<open>SQADD\<close>, \<open>UQADD\<close>, \<open>SQSUB\<close> or \<open>UQSUB\<close>: the value and whether it saturated.\<close>

definition saturating_lane :: "instr \<Rightarrow> cpu \<Rightarrow> nat \<Rightarrow> u64 \<times> bool" where
  "saturating_lane i cpu lane =
    (let bits = element_bits i;
         element_mask = mask_for_bits bits;
         lhs_bits = read_vector_element cpu (reg_n i) lane bits;
         rhs_bits = read_vector_element cpu (reg_m i) lane bits
     in if has_flag i 2 then
          (if has_flag i 4 then
             (if lhs_bits < rhs_bits then (0, True) else (lhs_bits - rhs_bits, False))
           else if lhs_bits > element_mask - rhs_bits then (element_mask, True)
           else (lhs_bits + rhs_bits, False))
        else
          let lhs = sign_extend_vector_element cpu (reg_n i) lane bits;
              rhs = sign_extend_vector_element cpu (reg_m i) lane bits;
              signed_limit = sign_bit_for_bits bits;
              minimum = (if 64 \<le> bits then 0x8000000000000000 else - signed_limit);
              maximum = (if 64 \<le> bits then 0x7fffffffffffffff else signed_limit - 1);
              (signed_value, saturated) =
                if has_flag i 4 then
                  (if rhs <s 0 \<and> maximum + rhs <s lhs then (maximum, True)
                   else if 0 <s rhs \<and> lhs <s minimum + rhs then (minimum, True)
                   else (lhs - rhs, False))
                else if 0 <s rhs \<and> maximum - rhs <s lhs then (maximum, True)
                else if rhs <s 0 \<and> lhs <s minimum - rhs then (minimum, True)
                else (lhs + rhs, False)
          in (signed_value AND element_mask, saturated))"

text \<open>\<open>FPSR.QC\<close>\<close>

definition note_saturation :: "bool \<Rightarrow> cpu \<Rightarrow> cpu" where
  "note_saturation saturated cpu =
     (if saturated then cpu\<lparr>c_fpsr := c_fpsr cpu OR shl 1 27\<rparr> else cpu)"

definition execute_simd_saturating_add_subtract_portable :: "instr \<Rightarrow> cpu \<Rightarrow> cpu option" where
  "execute_simd_saturating_add_subtract_portable i cpu =
    (let bits = element_bits i;
         vector_bits = (if has_flag i 8 then bits else full_or_half (has_flag i 1));
         lane_count = vector_bits div bits;
         result = write_lanes zero_vector 0 lane_count bits (\<lambda>lane. fst (saturating_lane i cpu lane));
         saturated = list_ex (\<lambda>lane. snd (saturating_lane i cpu lane)) [0 ..< lane_count]
     in Some (set_v (reg_d i) result (note_saturation saturated cpu)))"

definition exec_simd_saturating_add_subtract :: "instr \<Rightarrow> cpu \<Rightarrow> cpu option" where
  "exec_simd_saturating_add_subtract i cpu =
     advance (execute_simd_saturating_add_subtract_portable i cpu)"

text \<open>One lane of \<open>SQXTN\<close>, \<open>UQXTN\<close>, \<open>SQXTUN\<close> and the shifts that narrow with saturation.\<close>

definition saturating_narrow_lane :: "instr \<Rightarrow> u64 \<Rightarrow> u64 \<times> bool" where
  "saturating_narrow_lane i element =
    (let source_bits = element_bits i;
         destination_bits = source_bits div 2;
         shift = shift_of i;
         maximum = (if i_condition i = 1 then shl 1 (destination_bits - 1) - 1
                    else mask_for_bits destination_bits);
         minimum = (if i_condition i = 1 then - shl 1 (destination_bits - 1) else 0)
     in if i_condition i = 2 then
          (let v = (if has_flag i 16 then
                      lo64 (shr (zext128 element + (if has_flag i 8 then shl 1 (shift - 1) else 0)) shift)
                    else element)
           in if v > maximum then (maximum, True) else (v, False))
        else
          let source = sign_extend_u64 element source_bits;
              source = (if has_flag i 16 then
                          lo64 (sar (sext128 source + (if has_flag i 8 then shl 1 (shift - 1) else 0)) shift)
                        else source)
          in if source <s minimum then (minimum, True)
             else if maximum <s source then (maximum, True)
             else (source, False))"

definition exec_simd_narrow_high :: "instr \<Rightarrow> cpu \<Rightarrow> cpu option" where
  "exec_simd_narrow_high i cpu =
    (let source_bits = element_bits i;
         destination_bits = source_bits div 2;
         upper = has_flag i 1;
         start = (if upper then c_v cpu (reg_d i) else zero_vector)
     in if has_flag i 64 then
          (let lanes = (if has_flag i 128 then 1 else 128 div source_bits);
               narrowed = (\<lambda>lane. saturating_narrow_lane i (read_vector_element cpu (reg_n i) lane source_bits));
               result = write_lanes start (if upper then lanes else 0) lanes destination_bits (fst \<circ> narrowed);
               saturated = list_ex (snd \<circ> narrowed) [0 ..< lanes]
           in set_result i result (note_saturation saturated cpu))
        else
          let lane_count = 128 div source_bits;
              source_mask = mask_for_bits source_bits;
              lhs = (\<lambda>lane. read_vector_element cpu (reg_n i) lane source_bits);
              rhs = (\<lambda>lane. read_vector_element cpu (reg_m i) lane source_bits);
              narrowed = (\<lambda>lane.
                if has_flag i 32 then lhs lane
                else if has_flag i 8 then
                  (let rounding = (if has_flag i 16 then shl 1 (shift_of i - 1) else 0)
                   in shr ((lhs lane + rounding) AND source_mask) (shift_of i))
                else
                  (let rounding = (if has_flag i 2 then shl 1 (destination_bits - 1) else 0);
                       wide_result = (if has_flag i 4 then lhs lane - rhs lane else lhs lane + rhs lane)
                   in shr ((wide_result + rounding) AND source_mask) destination_bits))
          in set_result i
               (write_lanes start (if upper then lane_count else 0) lane_count destination_bits narrowed) cpu)"

subsection \<open>Products\<close>

definition multiply_lanes :: "instr \<Rightarrow> cpu \<Rightarrow> vreg" where
  "multiply_lanes i cpu =
    (let bits = element_bits i;
         lane_mask = mask_for_bits bits;
         operation = shr (i_flags i) 4 AND 3;
         selected_rhs = read_vector_element cpu (reg_m i) (unat (i_condition i)) bits
     in write_lanes zero_vector 0 (lanes_of (has_flag i 8) i) bits (\<lambda>lane.
          let lhs = read_vector_element cpu (reg_n i) lane bits;
              rhs = (if has_flag i 64 then selected_rhs else read_vector_element cpu (reg_m i) lane bits);
              v = (lhs * rhs) AND lane_mask;
              accumulator = read_vector_element cpu (reg_d i) lane bits
          in if operation = 0 then v
             else if operation = 1 then (accumulator + v) AND lane_mask
             else (accumulator - v) AND lane_mask))"

definition multiply_long_lanes :: "instr \<Rightarrow> cpu \<Rightarrow> vreg" where
  "multiply_long_lanes i cpu =
    (let source_bits = element_bits i;
         destination_bits = source_bits * 2;
         source_lane_base = (if has_flag i 1 then 64 div source_bits else 0);
         by_element = has_flag i 64;
         selected_rhs = read_vector_element cpu (reg_m i) (unat (i_condition i)) source_bits;
         destination_mask = mask_for_bits destination_bits
     in write_lanes zero_vector 0 (128 div destination_bits) destination_bits (\<lambda>lane.
          let source_lane = source_lane_base + lane;
              product =
                if has_flag i 2 then
                  read_vector_element cpu (reg_n i) source_lane source_bits *
                  (if by_element then selected_rhs
                   else read_vector_element cpu (reg_m i) source_lane source_bits)
                else
                  sign_extend_vector_element cpu (reg_n i) source_lane source_bits *
                  (if by_element then sign_extend_u64 selected_rhs source_bits
                   else sign_extend_vector_element cpu (reg_m i) source_lane source_bits);
              accumulator = read_vector_element cpu (reg_d i) lane destination_bits
          in if \<not> has_flag i 8 then product
             else if has_flag i 16 then (accumulator - product) AND destination_mask
             else (accumulator + product) AND destination_mask))"

definition exec_simd_multiply_long :: "instr \<Rightarrow> cpu \<Rightarrow> cpu option" where
  "exec_simd_multiply_long i cpu =
     set_result i (if has_flag i 4 then multiply_lanes i cpu else multiply_long_lanes i cpu) cpu"

subsection \<open>Comparisons and counts\<close>

definition lane_matches :: "instr \<Rightarrow> cpu \<Rightarrow> u8 \<Rightarrow> nat \<Rightarrow> bool" where
  "lane_matches i cpu comparison lane =
    (let bits = element_bits i;
         lhs = read_vector_element cpu (reg_n i) lane bits;
         rhs = read_vector_element cpu (reg_m i) lane bits;
         signed_lhs = sign_extend_vector_element cpu (reg_n i) lane bits;
         signed_rhs = sign_extend_vector_element cpu (reg_m i) lane bits
     in if comparison = 0 then lhs = rhs
        else if comparison = 1 then lhs AND rhs \<noteq> 0
        else if comparison = 2 then lhs > rhs
        else if comparison = 3 then lhs \<ge> rhs
        else if comparison = 4 then lhs = 0
        else if comparison = 5 then 0 <s signed_lhs
        else if comparison = 6 then 0 \<le>s signed_lhs
        else if comparison = 7 then signed_lhs <s 0
        else if comparison = 8 then signed_lhs \<le>s 0
        else if comparison = 9 then signed_rhs <s signed_lhs
        else signed_rhs \<le>s signed_lhs)"

definition exec_simd_compare_equal_vector :: "instr \<Rightarrow> cpu \<Rightarrow> cpu option" where
  "exec_simd_compare_equal_vector i cpu =
    (let bits = element_bits i;
         lane_count = lanes_of (has_flag i 1) i;
         comparison = shr (i_flags i) 1
     in if 0 < lane_count \<and> 10 < comparison then None
        else set_result i
          (write_lanes zero_vector 0 lane_count bits
            (\<lambda>lane. if lane_matches i cpu comparison lane then mask_for_bits bits else 0)) cpu)"

definition exec_simd_count_set_bits :: "instr \<Rightarrow> cpu \<Rightarrow> cpu option" where
  "exec_simd_count_set_bits i cpu =
     set_result i
       (write_lanes zero_vector 0 (full_or_half (has_flag i 1) div 8) 8
         (\<lambda>lane. ucast (popcount_u8 (ucast (read_vector_element cpu (reg_n i) lane 8))))) cpu"

definition exec_simd_count_leading_zeros :: "instr \<Rightarrow> cpu \<Rightarrow> cpu option" where
  "exec_simd_count_leading_zeros i cpu =
    (let bits = element_bits i
     in set_result i
          (write_lanes zero_vector 0 (lanes_of (has_flag i 1) i) bits
            (\<lambda>lane. word_of_nat
              (count_leading_zeros_width (read_vector_element cpu (reg_n i) lane bits) bits))) cpu)"

subsection \<open>Pairs and sums of elements\<close>

text \<open>A loop that writes lane \<open>lane\<close> of each half of the result in turn.\<close>

definition write_two_halves :: "nat \<Rightarrow> nat \<Rightarrow> (nat \<Rightarrow> u64) \<Rightarrow> (nat \<Rightarrow> u64) \<Rightarrow> vreg" where
  "write_two_halves half_lanes bits f g =
     fold (\<lambda>lane result. write_vector_element (write_vector_element result lane bits (f lane))
             (half_lanes + lane) bits (g lane))
       [0 ..< half_lanes] zero_vector"

definition exec_simd_unsigned_max_pairwise :: "instr \<Rightarrow> cpu \<Rightarrow> cpu option" where
  "exec_simd_unsigned_max_pairwise i cpu =
    (let bits = element_bits i;
         half_lanes = lanes_of (has_flag i 1) i div 2;
         larger = (\<lambda>r lane.
           let e0 = read_vector_element cpu r (lane * 2) bits;
               e1 = read_vector_element cpu r (lane * 2 + 1) bits
           in if e0 > e1 then e0 else e1)
     in set_result i (write_two_halves half_lanes bits (larger (reg_n i)) (larger (reg_m i))) cpu)"

definition exec_simd_pairwise_add :: "instr \<Rightarrow> cpu \<Rightarrow> cpu option" where
  "exec_simd_pairwise_add i cpu =
    (if has_flag i 2 then
       set_result i \<lparr>v_low = v_low (c_v cpu (reg_n i)) + v_high (c_v cpu (reg_n i)), v_high = 0\<rparr> cpu
     else
       let bits = element_bits i;
           half_lanes = lanes_of (has_flag i 1) i div 2;
           pair_sum = (\<lambda>r lane.
             (read_vector_element cpu r (lane * 2) bits + read_vector_element cpu r (lane * 2 + 1) bits)
               AND mask_for_bits bits)
       in set_result i (write_two_halves half_lanes bits (pair_sum (reg_n i)) (pair_sum (reg_m i))) cpu)"

definition exec_simd_pairwise_add_long :: "instr \<Rightarrow> cpu \<Rightarrow> cpu option" where
  "exec_simd_pairwise_add_long i cpu =
    (let bits = element_bits i;
         destination_bits = bits * 2;
         element = (\<lambda>lane. if has_flag i 2 then read_vector_element cpu (reg_n i) lane bits
                           else sign_extend_vector_element cpu (reg_n i) lane bits)
     in set_result i
          (write_lanes zero_vector 0 (lanes_of (has_flag i 1) i div 2) destination_bits (\<lambda>lane.
             let sum = element (lane * 2) + element (lane * 2 + 1)
             in if has_flag i 4 then sum + read_vector_element cpu (reg_d i) lane destination_bits
                else sum)) cpu)"

definition exec_simd_add_across_vector :: "instr \<Rightarrow> cpu \<Rightarrow> cpu option" where
  "exec_simd_add_across_vector i cpu =
    (let bits = element_bits i;
         lane_count = lanes_of (has_flag i 1) i;
         widens = has_flag i 2;
         is_unsigned = has_flag i 4;
         is_minimum = has_flag i 16;
         result_bits = (if widens then bits * 2 else bits);
         element = (\<lambda>lane. read_vector_element cpu (reg_n i) lane bits);
         result =
           if has_flag i 8 then
             fold (\<lambda>lane result.
                 let e = element lane;
                     better =
                       if is_unsigned then (if is_minimum then e < result else e > result)
                       else
                         let signed_result = sign_extend_u64 result bits;
                             signed_element = sign_extend_u64 e bits
                         in if is_minimum then signed_element <s signed_result
                            else signed_result <s signed_element
                 in if better then e else result)
               [1 ..< lane_count] (element 0)
           else
             fold (\<lambda>lane result. result +
                 (if widens \<and> \<not> is_unsigned then sign_extend_vector_element cpu (reg_n i) lane bits
                  else element lane))
               [0 ..< lane_count] 0
     in set_result i \<lparr>v_low = result AND mask_for_bits result_bits, v_high = 0\<rparr> cpu)"

subsection \<open>Floating-point registers as bits\<close>

definition exec_fp_scalar_conditional_select :: "instr \<Rightarrow> cpu \<Rightarrow> cpu option" where
  "exec_fp_scalar_conditional_select i cpu =
    (let source = (if condition_holds (i_condition i) (c_pstate cpu) then c_v cpu (reg_n i)
                   else c_v cpu (reg_m i))
     in set_result i \<lparr>v_low = if has_flag i 1 then v_low source else v_low source AND 0xffffffff, v_high = 0\<rparr> cpu)"

text \<open>The cases of this theory in the order of the code.\<close>

definition vector_register_cases :: "(u16 \<times> (instr \<Rightarrow> cpu \<Rightarrow> cpu option)) list" where
  "vector_register_cases = [
     (AVZ_NATIVE_OP_SIMD_INTEGER_MINMAX, exec_simd_integer_minmax),
     (AVZ_NATIVE_OP_SIMD_FP_IMMEDIATE_MOVE, exec_simd_fp_immediate_move),
     (AVZ_NATIVE_OP_FP_SCALAR_CONDITIONAL_SELECT, exec_fp_scalar_conditional_select),
     (AVZ_NATIVE_OP_SIMD_INSERT_GENERAL_TO_ELEMENT, exec_simd_insert_general_to_element),
     (AVZ_NATIVE_OP_SIMD_INSERT_VECTOR_ELEMENT, exec_simd_insert_vector_element),
     (AVZ_NATIVE_OP_SIMD_SIGNED_SHIFT_LONG_S_TO_D, exec_simd_signed_shift_long),
     (AVZ_NATIVE_OP_SIMD_TABLE_LOOKUP, exec_simd_table_lookup),
     (AVZ_NATIVE_OP_SIMD_EXTRACT_VECTOR, exec_simd_extract_vector),
     (AVZ_NATIVE_OP_SIMD_PERMUTE_TWO_VECTOR, exec_simd_permute_two_vector),
     (AVZ_NATIVE_OP_SIMD_ADD_VECTOR, exec_simd_add_vector),
     (AVZ_NATIVE_OP_SIMD_UNSIGNED_SHIFT_REGISTER, exec_simd_unsigned_shift_register),
     (AVZ_NATIVE_OP_SIMD_INTEGER_NEGATE, exec_simd_integer_negate),
     (AVZ_NATIVE_OP_SIMD_SHIFT_LEFT_IMMEDIATE, exec_simd_shift_left_immediate),
     (AVZ_NATIVE_OP_SIMD_MULTIPLY_LONG, exec_simd_multiply_long),
     (AVZ_NATIVE_OP_SIMD_NARROW_HIGH, exec_simd_narrow_high),
     (AVZ_NATIVE_OP_SIMD_COMPARE_EQUAL_VECTOR, exec_simd_compare_equal_vector),
     (AVZ_NATIVE_OP_SIMD_REVERSE_ELEMENTS, exec_simd_reverse_elements),
     (AVZ_NATIVE_OP_SIMD_COUNT_SET_BITS, exec_simd_count_set_bits),
     (AVZ_NATIVE_OP_SIMD_COUNT_LEADING_ZEROS, exec_simd_count_leading_zeros),
     (AVZ_NATIVE_OP_SIMD_BITWISE_NOT, exec_simd_bitwise_not),
     (AVZ_NATIVE_OP_SIMD_SATURATING_ADD_SUBTRACT, exec_simd_saturating_add_subtract),
     (AVZ_NATIVE_OP_SIMD_SHIFT_RIGHT_IMMEDIATE, exec_simd_shift_right_immediate),
     (AVZ_NATIVE_OP_SIMD_ORR_VECTOR, exec_simd_orr_vector),
     (AVZ_NATIVE_OP_SIMD_UNSIGNED_MAX_PAIRWISE, exec_simd_unsigned_max_pairwise),
     (AVZ_NATIVE_OP_SIMD_DUPLICATE_GENERAL, exec_simd_duplicate_general),
     (AVZ_NATIVE_OP_SIMD_MOVI_ZERO, exec_simd_movi_zero),
     (AVZ_NATIVE_OP_SIMD_MOVI_BYTE, exec_simd_movi_byte),
     (AVZ_NATIVE_OP_SIMD_MOVI_WORD_IMMEDIATE, exec_simd_movi_word_immediate),
     (AVZ_NATIVE_OP_SIMD_MVNI_IMMEDIATE, exec_simd_mvni_immediate),
     (AVZ_NATIVE_OP_SIMD_MOVI_D_IMMEDIATE, exec_simd_movi_d_immediate),
     (AVZ_NATIVE_OP_SIMD_DUPLICATE_VECTOR_ELEMENT, exec_simd_duplicate_vector_element),
     (AVZ_NATIVE_OP_SIMD_SCALAR_SHIFT_LEFT_IMMEDIATE, exec_simd_scalar_shift_left_immediate),
     (AVZ_NATIVE_OP_SIMD_ADD_ACROSS_VECTOR, exec_simd_add_across_vector),
     (AVZ_NATIVE_OP_SIMD_PAIRWISE_ADD_LONG, exec_simd_pairwise_add_long),
     (AVZ_NATIVE_OP_SIMD_PAIRWISE_ADD, exec_simd_pairwise_add)]"

end
