(* ===== verification/ExecVectorMemory.thy ===== *)
theory ExecVectorMemory
  imports ExecVector ExecMemory
begin

text \<open>
  The vector loads and stores of \<open>execute_decoded_instruction\<close>: single registers and pairs,
  one lane of a structure, and the multiple structures of \<open>LD1\<close>..\<open>LD4\<close> and \<open>ST1\<close>..\<open>ST4\<close>
  with their bulk transfer (\<open>pack_interleaved_vectors\<close>, \<open>unpack_interleaved_vectors\<close> and
  \<open>try_execute_simd_multiple_structure_bulk\<close>).
\<close>

subsection \<open>One register\<close>

text \<open>Two dispatched accesses, the second only after the first has succeeded.\<close>

definition read_simd_fp_register_memory :: "'m callbacks \<Rightarrow> 'm \<Rightarrow> u64 \<Rightarrow> u8 \<Rightarrow> vreg option \<times> 'm" where
  "read_simd_fp_register_memory k m address byte_count =
    (if byte_count = 1 \<or> byte_count = 2 \<or> byte_count = 4 then
       (case avz_native_dispatch_memory_read k m address byte_count of
          (None, m) \<Rightarrow> (None, m)
        | (Some low, m) \<Rightarrow>
            (Some \<lparr>v_low = low AND mask_for_bits (unat byte_count * 8), v_high = 0\<rparr>, m))
     else if byte_count = 8 then
       (case avz_native_dispatch_memory_read k m address 8 of
          (None, m) \<Rightarrow> (None, m)
        | (Some low, m) \<Rightarrow> (Some \<lparr>v_low = low, v_high = 0\<rparr>, m))
     else if byte_count = 16 then
       (case avz_native_dispatch_memory_read k m address 8 of
          (None, m) \<Rightarrow> (None, m)
        | (Some low, m) \<Rightarrow>
            (case avz_native_dispatch_memory_read k m (address + 8) 8 of
               (None, m) \<Rightarrow> (None, m)
             | (Some high, m) \<Rightarrow> (Some \<lparr>v_low = low, v_high = high\<rparr>, m)))
     else (None, m))"

definition write_simd_fp_register_memory :: "'m callbacks \<Rightarrow> 'm \<Rightarrow> u64 \<Rightarrow> u8 \<Rightarrow> vreg \<Rightarrow> bool \<times> 'm" where
  "write_simd_fp_register_memory k m address byte_count v =
    (if byte_count = 1 \<or> byte_count = 2 \<or> byte_count = 4 then
       avz_native_dispatch_memory_write k m address byte_count
         (v_low v AND mask_for_bits (unat byte_count * 8))
     else if byte_count = 8 then avz_native_dispatch_memory_write k m address 8 (v_low v)
     else if byte_count = 16 then
       (case avz_native_dispatch_memory_write k m address 8 (v_low v) of
          (False, m) \<Rightarrow> (False, m)
        | (True, m) \<Rightarrow> avz_native_dispatch_memory_write k m (address + 8) 8 (v_high v))
     else (False, m))"

text \<open>The part that the immediate and the register offset form share, up to write-back.\<close>

definition simd_load_or_store :: "'m callbacks \<Rightarrow> u64 \<Rightarrow> instr \<Rightarrow> cpu \<Rightarrow> 'm \<Rightarrow> 'm step" where
  "simd_load_or_store k address i cpu m =
    (if has_flag i 1 then
       (case read_simd_fp_register_memory k m address (i_width i) of
          (None, m) \<Rightarrow> (False, cpu, m)
        | (Some v, m) \<Rightarrow> (True, set_v (reg_t i) v cpu, m))
     else
       (case write_simd_fp_register_memory k m address (i_width i) (c_v cpu (reg_t i)) of
          (False, m) \<Rightarrow> (False, cpu, m)
        | (True, m) \<Rightarrow> (True, clear_exclusive_reservation cpu, m)))"

definition write_back :: "instr \<Rightarrow> u64 \<Rightarrow> cpu \<Rightarrow> cpu" where
  "write_back i base cpu =
    (if has_flag i 8 then write_base_register (reg_n i) (add_signed_offset base (i_immediate2 i)) cpu
     else cpu)"

definition exec_simd_fp_load_store_immediate :: "'m callbacks \<Rightarrow> instr \<Rightarrow> cpu \<Rightarrow> 'm \<Rightarrow> 'm step" where
  "exec_simd_fp_load_store_immediate k i cpu m =
    (let pc = c_pc cpu;
         base = read_base_register cpu (reg_n i);
         address = add_signed_offset base (i_immediate i)
     in case simd_load_or_store k address i cpu m of
          (False, cpu, m) \<Rightarrow> (False, cpu, m)
        | (True, cpu, m) \<Rightarrow> (True, (write_back i base cpu)\<lparr>c_pc := pc + 4\<rparr>, m))"

definition exec_simd_fp_load_store_register_offset :: "'m callbacks \<Rightarrow> instr \<Rightarrow> cpu \<Rightarrow> 'm \<Rightarrow> 'm step" where
  "exec_simd_fp_load_store_register_offset k i cpu m =
    (let pc = c_pc cpu;
         offset = shl (extended_register_value (read_register cpu (reg_m i)) (i_condition i)) (shift_of i);
         address = read_base_register cpu (reg_n i) + offset
     in case simd_load_or_store k address i cpu m of
          (False, cpu, m) \<Rightarrow> (False, cpu, m)
        | (True, cpu, m) \<Rightarrow> (True, cpu\<lparr>c_pc := pc + 4\<rparr>, m))"

definition exec_simd_fp_load_store_pair :: "'m callbacks \<Rightarrow> instr \<Rightarrow> cpu \<Rightarrow> 'm \<Rightarrow> 'm step" where
  "exec_simd_fp_load_store_pair k i cpu m =
    (let pc = c_pc cpu;
         base = read_base_register cpu (reg_n i);
         first_address = add_signed_offset base (i_immediate i);
         second_address = first_address + ucast (i_width i);
         accessed =
           if has_flag i 1 then
             (case read_simd_fp_register_memory k m first_address (i_width i) of
                (None, m) \<Rightarrow> (False, cpu, m)
              | (Some v1, m) \<Rightarrow>
                  (case read_simd_fp_register_memory k m second_address (i_width i) of
                     (None, m) \<Rightarrow> (False, cpu, m)
                   | (Some v2, m) \<Rightarrow> (True, set_v (reg_d i) v2 (set_v (reg_t i) v1 cpu), m)))
           else
             (case write_simd_fp_register_memory k m first_address (i_width i) (c_v cpu (reg_t i)) of
                (False, m) \<Rightarrow> (False, cpu, m)
              | (True, m) \<Rightarrow>
                  (case write_simd_fp_register_memory k m second_address (i_width i) (c_v cpu (reg_d i)) of
                     (False, m) \<Rightarrow> (False, cpu, m)
                   | (True, m) \<Rightarrow> (True, clear_exclusive_reservation cpu, m)))
     in case accessed of
          (False, cpu, m) \<Rightarrow> (False, cpu, m)
        | (True, cpu, m) \<Rightarrow> (True, (write_back i base cpu)\<lparr>c_pc := pc + 4\<rparr>, m))"

subsection \<open>One lane of a structure\<close>

text \<open>The post-index write-back of the structure forms.\<close>

definition structure_write_back :: "instr \<Rightarrow> u64 \<Rightarrow> u64 \<Rightarrow> cpu \<Rightarrow> cpu" where
  "structure_write_back i base byte_count cpu =
    (if has_flag i 8 then
       write_base_register (reg_n i)
         (base + (if has_flag i 16 then read_register cpu (reg_m i) else byte_count)) cpu
     else cpu)"

text \<open>
  The loop over the registers: a load collects the new values, which are published only after
  every read has succeeded; a store writes at once and drops the reservation each time.
\<close>

fun lane_loads :: "'m callbacks \<Rightarrow> instr \<Rightarrow> u64 \<Rightarrow> cpu \<Rightarrow> nat list \<Rightarrow> 'm \<Rightarrow> vreg list option \<times> 'm" where
  "lane_loads k i base cpu [] m = (Some [], m)"
| "lane_loads k i base cpu (index # indices) m =
    (case avz_native_dispatch_memory_read k m (base + word_of_nat index * ucast (i_width i)) (i_width i) of
       (None, m) \<Rightarrow> (None, m)
     | (Some v, m) \<Rightarrow>
         let vector =
               if has_flag i 32 then duplicate_simd_element v (element_bits i) (has_flag i 64)
               else write_vector_element (c_v cpu ((reg_t i + index) mod 32)) (unat (i_condition i))
                      (element_bits i) v
         in case lane_loads k i base cpu indices m of
              (None, m) \<Rightarrow> (None, m)
            | (Some vectors, m) \<Rightarrow> (Some (vector # vectors), m))"

fun lane_stores :: "'m callbacks \<Rightarrow> instr \<Rightarrow> u64 \<Rightarrow> nat list \<Rightarrow> cpu \<Rightarrow> 'm \<Rightarrow> 'm step" where
  "lane_stores k i base [] cpu m = (True, cpu, m)"
| "lane_stores k i base (index # indices) cpu m =
    (case avz_native_dispatch_memory_write k m (base + word_of_nat index * ucast (i_width i)) (i_width i)
            (read_vector_element cpu ((reg_t i + index) mod 32) (unat (i_condition i)) (element_bits i)) of
       (False, m) \<Rightarrow> (False, cpu, m)
     | (True, m) \<Rightarrow> lane_stores k i base indices (clear_exclusive_reservation cpu) m)"

definition publish :: "nat \<Rightarrow> vreg list \<Rightarrow> cpu \<Rightarrow> cpu" where
  "publish first_register vectors cpu =
     fold (\<lambda>index. set_v ((first_register + index) mod 32) (vectors ! index)) [0 ..< length vectors] cpu"

definition execute_simd_load_store_single_structure_lane :: "'m callbacks \<Rightarrow> instr \<Rightarrow> cpu \<Rightarrow> 'm \<Rightarrow> 'm step" where
  "execute_simd_load_store_single_structure_lane k i cpu m =
    (let pc = c_pc cpu;
         base = read_base_register cpu (reg_n i);
         count = reg_d i
     in if count < 1 \<or> 4 < count then (False, cpu, m)
        else
          let accessed =
                if has_flag i 1 then
                  (case lane_loads k i base cpu [0 ..< count] m of
                     (None, m) \<Rightarrow> (False, cpu, m)
                   | (Some vectors, m) \<Rightarrow> (True, publish (reg_t i) vectors cpu, m))
                else lane_stores k i base [0 ..< count] cpu m
          in case accessed of
               (False, cpu, m) \<Rightarrow> (False, cpu, m)
             | (True, cpu, m) \<Rightarrow>
                 (True, (structure_write_back i base (word_of_nat count * ucast (i_width i)) cpu)\<lparr>c_pc := pc + 4\<rparr>, m))"

subsection \<open>Multiple structures\<close>

text \<open>A register as the 16 bytes of its object representation.\<close>

definition vector_byte :: "vreg \<Rightarrow> nat \<Rightarrow> u8" where
  "vector_byte v index =
     (if index < 8 then ucast (shr (v_low v) (index * 8)) else ucast (shr (v_high v) ((index - 8) * 8)))"

definition set_vector_byte :: "nat \<Rightarrow> u8 \<Rightarrow> vreg \<Rightarrow> vreg" where
  "set_vector_byte index byte v = write_vector_element v index 8 (ucast byte)"

definition transfer_invalid :: "nat \<Rightarrow> nat \<Rightarrow> nat \<Rightarrow> bool" where
  "transfer_invalid register_count lane_count element_bytes \<longleftrightarrow>
     register_count = 0 \<or> register_count > 4 \<or> lane_count = 0 \<or> element_bytes \<notin> {1, 2, 4, 8}"

definition pack_interleaved_vectors :: "vreg list \<Rightarrow> nat \<Rightarrow> nat \<Rightarrow> nat \<Rightarrow> u8 list option" where
  "pack_interleaved_vectors vectors register_count lane_count element_bytes =
    (if transfer_invalid register_count lane_count element_bytes then None
     else Some
       (concat (map (\<lambda>lane. concat (map (\<lambda>structure.
           map (\<lambda>byte. vector_byte (vectors ! structure) (lane * element_bytes + byte)) [0 ..< element_bytes])
         [0 ..< register_count])) [0 ..< lane_count])))"

definition unpack_interleaved_vectors ::
  "u8 list \<Rightarrow> nat \<Rightarrow> nat \<Rightarrow> nat \<Rightarrow> vreg list \<Rightarrow> vreg list option" where
  "unpack_interleaved_vectors source register_count lane_count element_bytes vectors =
    (if transfer_invalid register_count lane_count element_bytes then None
     else Some
       (fold (\<lambda>lane. fold (\<lambda>structure. fold (\<lambda>byte vectors.
            vectors[structure := set_vector_byte (lane * element_bytes + byte)
              (source ! ((lane * register_count + structure) * element_bytes + byte))
              (vectors ! structure)])
          [0 ..< element_bytes]) [0 ..< register_count]) [0 ..< lane_count] vectors))"

abbreviation registers_of :: "instr \<Rightarrow> nat \<Rightarrow> cpu \<Rightarrow> vreg list" where
  "registers_of i count cpu \<equiv> map (\<lambda>structure. c_v cpu ((reg_t i + structure) mod 32)) [0 ..< count]"

text \<open>
  The transfer through a buffer of up to 64 bytes. The result \<open>None\<close> says that the bulk
  access was not used (\<open>return 0\<close>); the processor is unchanged then.
\<close>

definition try_execute_simd_multiple_structure_bulk ::
  "'m callbacks \<Rightarrow> instr \<Rightarrow> cpu \<Rightarrow> 'm \<Rightarrow> cpu option \<times> 'm" where
  "try_execute_simd_multiple_structure_bulk k i cpu m =
    (let register_count = unat (i_condition i)
     in if \<not> has_flag i 32 \<or> register_count < 1 \<or> 4 < register_count \<or>
           (i_width i \<noteq> 8 \<and> i_width i \<noteq> 16) then (None, m)
     else
       let element_bytes = element_bits i div 8;
           lane_count = unat (i_width i) * 8 div element_bits i;
           transfer_size = lane_count * register_count * element_bytes;
           base = read_base_register cpu (reg_n i);
           accessed =
             if has_flag i 1 then
               (if \<not> k_fast_read_memory k then (None, m)
                else
                  case f_read_bytes (k_fast k) m base transfer_size of
                    (None, m) \<Rightarrow> (None, m)
                  | (Some transfer, m) \<Rightarrow>
                      (case unpack_interleaved_vectors transfer register_count lane_count element_bytes
                              (replicate 4 zero_vector) of
                         None \<Rightarrow> (None, m)
                       | Some vectors \<Rightarrow> (Some (publish (reg_t i) (take register_count vectors) cpu), m)))
             else if \<not> k_fast_write_memory k then (None, m)
             else
               (case pack_interleaved_vectors (registers_of i register_count cpu) register_count lane_count element_bytes of
                  None \<Rightarrow> (None, m)
                | Some transfer \<Rightarrow>
                    (case f_write_bytes (k_fast k) m base transfer of
                       (False, m) \<Rightarrow> (None, m)
                     | (True, m) \<Rightarrow> (Some (clear_exclusive_reservation cpu), m)))
       in case accessed of
            (None, m) \<Rightarrow> (None, m)
          | (Some cpu, m) \<Rightarrow>
              let cpu = structure_write_back i base (ucast (i_width i) * word_of_nat register_count) cpu
              in (Some (cpu\<lparr>c_pc := c_pc cpu + 4\<rparr>), m))"

text \<open>
  The second bulk attempt of the case itself, which asks for \<open>uses_fast_memory_context\<close>
  instead of comparing the callbacks.
\<close>

definition structure_bulk_access ::
  "'m callbacks \<Rightarrow> instr \<Rightarrow> nat \<Rightarrow> nat \<Rightarrow> nat \<Rightarrow> u64 \<Rightarrow> cpu \<Rightarrow> 'm \<Rightarrow> (cpu option) option \<times> 'm" where
  "structure_bulk_access k i register_count lane_count element_bytes base cpu m =
    (if \<not> k_uses_fast_memory_context k then (None, m)
     else if has_flag i 1 then
       (case f_read_bytes (k_fast k) m base (lane_count * register_count * element_bytes) of
          (None, m) \<Rightarrow> (None, m)
        | (Some transfer, m) \<Rightarrow>
            (Some (case unpack_interleaved_vectors transfer register_count lane_count element_bytes
                          (replicate 4 zero_vector) of
                     None \<Rightarrow> None
                   | Some vectors \<Rightarrow> Some (publish (reg_t i) (take register_count vectors) cpu)), m))
     else
       (case pack_interleaved_vectors (registers_of i register_count cpu) register_count lane_count element_bytes of
          None \<Rightarrow> (None, m)
        | Some transfer \<Rightarrow>
            (case f_write_bytes (k_fast k) m base transfer of
               (False, m) \<Rightarrow> (None, m)
             | (True, m) \<Rightarrow> (Some (Some (clear_exclusive_reservation cpu)), m))))"

text \<open>The element by element loop, lanes outside and structures inside.\<close>

fun element_loads ::
  "'m callbacks \<Rightarrow> nat \<Rightarrow> nat \<Rightarrow> u64 \<Rightarrow> (nat \<times> nat) list \<Rightarrow> vreg list \<Rightarrow> 'm \<Rightarrow> vreg list option \<times> 'm" where
  "element_loads k register_count bits base [] vectors m = (Some vectors, m)"
| "element_loads k register_count bits base ((lane, structure) # rest) vectors m =
    (case avz_native_dispatch_memory_read k m
            (base + word_of_nat ((lane * register_count + structure) * (bits div 8))) (word_of_nat (bits div 8)) of
       (None, m) \<Rightarrow> (None, m)
     | (Some v, m) \<Rightarrow>
         element_loads k register_count bits base rest
           (vectors[structure := write_vector_element (vectors ! structure) lane bits v]) m)"

fun element_stores ::
  "'m callbacks \<Rightarrow> instr \<Rightarrow> nat \<Rightarrow> nat \<Rightarrow> u64 \<Rightarrow> cpu \<Rightarrow> (nat \<times> nat) list \<Rightarrow> 'm \<Rightarrow> bool \<times> 'm" where
  "element_stores k i register_count bits base cpu [] m = (True, m)"
| "element_stores k i register_count bits base cpu ((lane, structure) # rest) m =
    (case avz_native_dispatch_memory_write k m
            (base + word_of_nat ((lane * register_count + structure) * (bits div 8))) (word_of_nat (bits div 8))
            (read_vector_element cpu ((reg_t i + structure) mod 32) lane bits) of
       (False, m) \<Rightarrow> (False, m)
     | (True, m) \<Rightarrow> element_stores k i register_count bits base cpu rest m)"

definition structure_elements :: "nat \<Rightarrow> nat \<Rightarrow> (nat \<times> nat) list" where
  "structure_elements lane_count register_count = List.product [0 ..< lane_count] [0 ..< register_count]"

definition structure_element_access ::
  "'m callbacks \<Rightarrow> instr \<Rightarrow> nat \<Rightarrow> nat \<Rightarrow> u64 \<Rightarrow> cpu \<Rightarrow> 'm \<Rightarrow> 'm step" where
  "structure_element_access k i register_count lane_count base cpu m =
    (if has_flag i 1 then
       (case element_loads k register_count (element_bits i) base
               (structure_elements lane_count register_count) (replicate 4 zero_vector) m of
          (None, m) \<Rightarrow> (False, cpu, m)
        | (Some vectors, m) \<Rightarrow> (True, publish (reg_t i) (take register_count vectors) cpu, m))
     else
       (case element_stores k i register_count (element_bits i) base cpu
               (structure_elements lane_count register_count) m of
          (False, m) \<Rightarrow> (False, cpu, m)
        | (True, m) \<Rightarrow> (True, clear_exclusive_reservation cpu, m)))"

text \<open>Whole registers one after the other; a load that fails keeps the registers already read.\<close>

fun register_transfers :: "'m callbacks \<Rightarrow> instr \<Rightarrow> u64 \<Rightarrow> nat list \<Rightarrow> cpu \<Rightarrow> 'm \<Rightarrow> 'm step" where
  "register_transfers k i base [] cpu m = (True, cpu, m)"
| "register_transfers k i base (index # indices) cpu m =
    (let vector_register = (reg_t i + index) mod 32;
         address = base + word_of_nat index * ucast (i_width i)
     in if has_flag i 1 then
          (case read_simd_fp_register_memory k m address (i_width i) of
             (None, m) \<Rightarrow> (False, cpu, m)
           | (Some v, m) \<Rightarrow> register_transfers k i base indices (set_v vector_register v cpu) m)
        else
          (case write_simd_fp_register_memory k m address (i_width i) (c_v cpu vector_register) of
             (False, m) \<Rightarrow> (False, cpu, m)
           | (True, m) \<Rightarrow> register_transfers k i base indices cpu m))"

definition exec_simd_load_store_multiple_structure :: "'m callbacks \<Rightarrow> instr \<Rightarrow> cpu \<Rightarrow> 'm \<Rightarrow> 'm step" where
  "exec_simd_load_store_multiple_structure k i cpu m =
    (let pc = c_pc cpu;
         base = read_base_register cpu (reg_n i);
         register_count = unat (i_condition i);
         finish = (\<lambda>cpu. (structure_write_back i base (ucast (i_width i) * word_of_nat register_count) cpu)
                           \<lparr>c_pc := pc + 4\<rparr>)
     in if register_count < 1 \<or> 4 < register_count \<or> (i_width i \<noteq> 8 \<and> i_width i \<noteq> 16) then (False, cpu, m)
     else
       case try_execute_simd_multiple_structure_bulk k i cpu m of
         (Some cpu, m) \<Rightarrow> (True, cpu, m)
       | (None, m) \<Rightarrow>
           if has_flag i 32 then
             (let lane_count = unat (i_width i) * 8 div element_bits i
              in case structure_bulk_access k i register_count lane_count (element_bits i div 8) base cpu m of
                   (Some None, m) \<Rightarrow> (False, cpu, m)
                 | (Some (Some cpu), m) \<Rightarrow> (True, finish cpu, m)
                 | (None, m) \<Rightarrow>
                     (case structure_element_access k i register_count lane_count base cpu m of
                        (False, cpu, m) \<Rightarrow> (False, cpu, m)
                      | (True, cpu, m) \<Rightarrow> (True, finish cpu, m)))
           else
             (case register_transfers k i base [0 ..< register_count] cpu m of
                (False, cpu, m) \<Rightarrow> (False, cpu, m)
              | (True, cpu, m) \<Rightarrow>
                  (True, finish (if has_flag i 1 then cpu else clear_exclusive_reservation cpu), m)))"

subsection \<open>All vector cases\<close>

text \<open>
  The vector part of the switch. The kinds that compute with C's \<open>float\<close> and \<open>double\<close> are the
  parameter \<open>fp\<close>; \<open>execute_decoded_instruction (exec_vector fp)\<close> is the whole executor.
\<close>

definition vector_memory_cases :: "(u16 \<times> ('m callbacks \<Rightarrow> instr \<Rightarrow> cpu \<Rightarrow> 'm \<Rightarrow> 'm step)) list" where
  "vector_memory_cases = [
     (AVZ_NATIVE_OP_SIMD_FP_LOAD_STORE_IMMEDIATE, exec_simd_fp_load_store_immediate),
     (AVZ_NATIVE_OP_SIMD_FP_LOAD_STORE_REGISTER_OFFSET, exec_simd_fp_load_store_register_offset),
     (AVZ_NATIVE_OP_SIMD_FP_LOAD_STORE_PAIR, exec_simd_fp_load_store_pair),
     (AVZ_NATIVE_OP_SIMD_LOAD_STORE_SINGLE_STRUCTURE_LANE, execute_simd_load_store_single_structure_lane),
     (AVZ_NATIVE_OP_SIMD_LOAD_STORE_MULTIPLE_STRUCTURE, exec_simd_load_store_multiple_structure)]"

definition exec_vector ::
  "('m callbacks \<Rightarrow> instr \<Rightarrow> cpu \<Rightarrow> 'm \<Rightarrow> 'm step) \<Rightarrow> 'm callbacks \<Rightarrow> instr \<Rightarrow> cpu \<Rightarrow> 'm \<Rightarrow> 'm step" where
  "exec_vector fp k i cpu m =
    (case map_of vector_register_cases (i_kind i) of
       Some f \<Rightarrow> register_step f i cpu m
     | None \<Rightarrow>
         (case map_of vector_memory_cases (i_kind i) of
            Some f \<Rightarrow> f k i cpu m
          | None \<Rightarrow> fp k i cpu m))"

end
