(* ===== verification/VectorLanes.thy ===== *)
theory VectorLanes
  imports ExecVector
begin

text \<open>
  What the vector cases compute, lane by lane. A register is read as 128 bits; writing and
  reading elements, and the loops over lanes, are described by the bits they set, and the
  saturating cases by the integers their lanes stand for.
\<close>

subsection \<open>A register as bits\<close>

definition vector_bit :: "vreg \<Rightarrow> nat \<Rightarrow> bool" where
  "vector_bit v n \<longleftrightarrow> (if n < 64 then bit (v_low v) n else bit (v_high v) (n - 64))"

definition lane_size :: "nat \<Rightarrow> bool" where
  "lane_size bits \<longleftrightarrow> bits \<in> {8, 16, 32, 64}"

lemma vector_eqI:
  assumes "\<And>n. n < 128 \<Longrightarrow> vector_bit v n = vector_bit w n"
  shows "v = (w :: vreg)"
proof -
  have "v_low v = v_low w"
  proof (intro bit_word_eqI)
    fix n assume "n < LENGTH(64)"
    then show "bit (v_low v) n = bit (v_low w) n"
      using assms[of n] by (simp add: vector_bit_def)
  qed
  moreover have "v_high v = v_high w"
  proof (intro bit_word_eqI)
    fix n assume "n < LENGTH(64)"
    then show "bit (v_high v) n = bit (v_high w) n"
      using assms[of "n + 64"] by (simp add: vector_bit_def)
  qed
  ultimately show ?thesis by simp
qed

lemma lane_inside:
  assumes "lane_size bits"
  shows "lane * bits < 64 \<Longrightarrow> lane * bits + bits \<le> 64" and "64 \<le> lane * bits \<or> lane * bits < 64"
proof -
  obtain k where "64 = k * bits"
    using assms unfolding lane_size_def by (auto simp: dvd_def dest: that[of 8] that[of 4] that[of 2] that[of 1])
  then show "lane * bits < 64 \<Longrightarrow> lane * bits + bits \<le> 64"
    by (metis Suc_leI mult_Suc mult_le_mono1 mult_less_cancel2 add.commute)
qed auto

lemma bit_mask_64: "bit (mask n :: u64) k \<longleftrightarrow> k < n \<and> k < 64"
  by (auto simp: bit_mask_iff)

lemma bit_read_vector_element:
  assumes "lane_size bits" "lane * bits < 128"
  shows "bit (read_vector_element cpu r lane bits) n \<longleftrightarrow> n < bits \<and> vector_bit (c_v cpu r) (lane * bits + n)"
proof -
  have "bits \<le> 64" using assms(1) by (auto simp: lane_size_def)
  then show ?thesis
    using lane_inside(1)[OF assms(1), of lane]
    by (cases "lane * bits < 64")
      (auto simp: read_vector_element_def vector_bit_def bit_and_iff bit_drop_bit_eq bit_mask_64 Let_def
        dest: bit_imp_le_length simp del: semiring_1_class.of_nat_mult)
qed

lemma bit_write_vector_element:
  assumes "lane_size bits" "lane * bits < 128" "n < 128"
  shows "vector_bit (write_vector_element v lane bits x) n \<longleftrightarrow>
    (if lane * bits \<le> n \<and> n < lane * bits + bits then bit x (n - lane * bits) else vector_bit v n)"
proof -
  have "bits \<le> 64" using assms(1) by (auto simp: lane_size_def)
  then show ?thesis
    using lane_inside(1)[OF assms(1), of lane] assms(2,3)
    by (cases "lane * bits < 64"; cases "n < 64")
      (auto simp: write_vector_element_def vector_bit_def bit_and_iff bit_or_iff bit_not_iff
        bit_push_bit_iff bit_mask_64 Let_def)
qed

lemma bit_write_lanes:
  assumes "lane_size bits" "(first_lane + count) * bits \<le> 128" "n < 128"
  shows "vector_bit (write_lanes start first_lane count bits f) n \<longleftrightarrow>
    (if first_lane * bits \<le> n \<and> n < (first_lane + count) * bits
     then bit (f (n div bits - first_lane)) (n mod bits) else vector_bit start n)"
  using assms(2)
proof (induction count)
  case 0
  then show ?case by (auto simp: write_lanes_def)
next
  case (Suc count)
  have b: "0 < bits" using assms(1) by (auto simp: lane_size_def)
  have step: "write_lanes start first_lane (Suc count) bits f =
      write_vector_element (write_lanes start first_lane count bits f) (first_lane + count) bits (f count)"
    by (simp add: write_lanes_def)
  have last: "(first_lane + count) * bits < 128" using Suc.prems b by simp
  let ?k = "(first_lane + count) * bits"
  show ?case
  proof (cases "?k \<le> n \<and> n < ?k + bits")
    case True
    then have d: "n div bits = first_lane + count"
      by (intro div_nat_eqI) (simp_all add: mult.commute)
    then have "n mod bits = n - ?k"
      using minus_mult_div_eq_mod[of n bits] by (simp add: mult.commute)
    moreover have "first_lane * bits \<le> n" using True by (meson le_add1 le_trans mult_le_mono1)
    moreover have "n < (first_lane + Suc count) * bits" using True by simp
    ultimately show ?thesis
      using True d by (simp add: step bit_write_vector_element[OF assms(1) last assms(3)])
  next
    case False
    moreover from this have "n < (first_lane + Suc count) * bits \<longleftrightarrow> n < ?k \<or> ?k + bits \<le> n \<and> n < ?k + bits" by auto
    ultimately show ?thesis
      using Suc by (auto simp add: step bit_write_vector_element[OF assms(1) last assms(3)])
  qed
qed

lemma read_result_lane:
  assumes "lane_size bits" "count * bits \<le> 128" "lane * bits < 128"
    and "c_v cpu r = write_lanes start 0 count bits f"
  shows "read_vector_element cpu r lane bits =
    (if lane < count then take_bit bits (f lane) else read_vector_element (cpu\<lparr>c_v := \<lambda>_. start\<rparr>) r lane bits)"
proof (rule bit_word_eqI)
  fix n
  have b: "0 < bits" using assms(1) by (auto simp: lane_size_def)
  have inside: "lane * bits + n < 128" if "n < bits"
  proof -
    have "Suc lane * bits \<le> 128"
      using assms(1,3) by (auto simp: lane_size_def)
    then show ?thesis using that by simp
  qed
  have "(lane * bits + n) div bits = lane" "(lane * bits + n) mod bits = n" if "n < bits"
    using that b by auto
  moreover have "lane * bits + n < count * bits \<longleftrightarrow> lane < count" if "n < bits"
    using that div_less_iff_less_mult[OF b, of "lane * bits + n" count] b by simp
  ultimately show "bit (read_vector_element cpu r lane bits) n =
      bit (if lane < count then take_bit bits (f lane)
           else read_vector_element (cpu\<lparr>c_v := \<lambda>_. start\<rparr>) r lane bits) n"
    using inside bit_write_lanes[OF assms(1), of 0 count "lane * bits + n" start f] assms
    by (auto simp: bit_read_vector_element bit_take_bit_iff)
qed

lemma set_result_lane:
  assumes "set_result i v cpu = Some cpu'"
  shows "c_v cpu' (reg_d i) = v" and "c_fpsr cpu' = c_fpsr cpu" and "c_pc cpu' = c_pc cpu + 4"
  using assms by (auto simp: set_result_def set_v_def)

subsection \<open>Lanes as integers\<close>

definition lane_value :: "bool \<Rightarrow> nat \<Rightarrow> u64 \<Rightarrow> int" where
  "lane_value is_unsigned bits v = (if is_unsigned then uint v else signed_take_bit (bits - 1) (uint v))"

definition lane_minimum :: "bool \<Rightarrow> nat \<Rightarrow> int" where
  "lane_minimum is_unsigned bits = (if is_unsigned then 0 else - (2 ^ (bits - 1)))"

definition lane_maximum :: "bool \<Rightarrow> nat \<Rightarrow> int" where
  "lane_maximum is_unsigned bits = (if is_unsigned then 2 ^ bits - 1 else 2 ^ (bits - 1) - 1)"

lemma uint_read_less:
  assumes "lane_size bits" "lane * bits < 128"
  shows "uint (read_vector_element cpu r lane bits) < 2 ^ bits"
proof -
  have "take_bit bits (read_vector_element cpu r lane bits) = read_vector_element cpu r lane bits"
    by (rule bit_word_eqI) (auto simp: bit_take_bit_iff bit_read_vector_element[OF assms])
  then have "take_bit bits (uint (read_vector_element cpu r lane bits)) = uint (read_vector_element cpu r lane bits)"
    by (metis unsigned_take_bit_eq)
  then show ?thesis using take_bit_int_eq_self_iff by auto
qed

lemma sint_in_range: "- (2 ^ 63) \<le> k \<Longrightarrow> k < 2 ^ 63 \<Longrightarrow> sint (word_of_int k :: u64) = k"
  by (simp add: signed_take_bit_int_eq_self sint_sbintrunc')

lemma sint_add_64: "- (2 ^ 63) \<le> sint a + sint b \<Longrightarrow> sint a + sint b < 2 ^ 63 \<Longrightarrow> sint (a + b :: u64) = sint a + sint b"
  using sint_in_range[of "sint a + sint b"] by (simp add: of_int_add)

lemma sint_sub_64: "- (2 ^ 63) \<le> sint a - sint b \<Longrightarrow> sint a - sint b < 2 ^ 63 \<Longrightarrow> sint (a - b :: u64) = sint a - sint b"
  using sint_in_range[of "sint a - sint b"] by simp

lemma sint_sign_extended:
  assumes "lane_size bits"
  shows "sint (sign_extend_u64 v bits) = signed_take_bit (bits - 1) (uint v)"
proof -
  have b: "0 < bits" "bits \<le> 64" using assms by (auto simp: lane_size_def)
  then have "sign_extend_u64 v bits = signed_take_bit (bits - 1) v" by (rule sign_extend_u64_eq)
  moreover have "sint (signed_take_bit (bits - 1) v) = signed_take_bit (bits - 1) (uint v)"
    using b by (intro bit_eqI) (auto simp: bit_sint_iff bit_signed_take_bit_iff bit_uint_iff min_def)
  ultimately show ?thesis by simp
qed

subsection \<open>Saturating sums and differences\<close>

lemma uint_take_bit_lane: "uint (take_bit n (w :: u64)) = take_bit n (uint w)"
  by (simp add: unsigned_take_bit_eq)

lemma uint_mask_64: "n \<le> 64 \<Longrightarrow> uint (mask n :: u64) = 2 ^ n - 1"
  using unat_mask_word[of n, where ?'a = 64] by (simp add: uint_nat of_nat_diff)

definition clamp :: "int \<Rightarrow> int \<Rightarrow> int \<Rightarrow> int" where
  "clamp lo hi x = max lo (min hi x)"

text \<open>The exact sum or difference of two lanes, before saturation.\<close>

definition exact_lane :: "instr \<Rightarrow> cpu \<Rightarrow> nat \<Rightarrow> int" where
  "exact_lane i cpu lane =
    (let v = (\<lambda>r. lane_value (has_flag i 2) (element_bits i) (read_vector_element cpu r lane (element_bits i)))
     in if has_flag i 4 then v (reg_n i) - v (reg_m i) else v (reg_n i) + v (reg_m i))"

lemma saturating_unsigned:
  assumes "n \<le> 64" "uint (x :: u64) < 2 ^ n" "uint y < 2 ^ n"
  shows "x > mask n - y \<longleftrightarrow> 2 ^ n - 1 < uint x + uint y"
    and "\<not> x > mask n - y \<Longrightarrow> uint (x + y) = uint x + uint y"
    and "\<not> x < y \<Longrightarrow> uint (x - y) = uint x - uint y"
proof -
  have p: "(2 :: int) ^ n \<le> 2 ^ 64" using assms(1) by (intro power_increasing) auto
  have m: "uint (mask n - y) = 2 ^ n - 1 - uint y"
    using assms(3) by (subst uint_sub_lem[THEN iffD1]) (simp_all add: uint_mask_64[OF assms(1)])
  then show 1: "x > mask n - y \<longleftrightarrow> 2 ^ n - 1 < uint x + uint y"
    by (auto simp: word_less_def)
  show "\<not> x > mask n - y \<Longrightarrow> uint (x + y) = uint x + uint y"
    using 1 p by (subst uint_add_lem[symmetric]) auto
  show "\<not> x < y \<Longrightarrow> uint (x - y) = uint x - uint y"
    by (subst uint_sub_lem[symmetric]) (simp add: word_less_def)
qed

lemma signed_limits:
  assumes "lane_size bits"
  shows "sint (if 64 \<le> bits then 0x8000000000000000 else - sign_bit_for_bits bits) = - (2 ^ (bits - 1))"
    and "sint (if 64 \<le> bits then 0x7fffffffffffffff else sign_bit_for_bits bits - 1) = 2 ^ (bits - 1) - 1"
  using assms by (auto simp: lane_size_def sign_bit_for_bits_def)

lemma signed_lane_bounds:
  assumes "lane_size bits"
  shows "- (2 ^ (bits - 1)) \<le> signed_take_bit (bits - 1) (k :: int)" "signed_take_bit (bits - 1) k < 2 ^ (bits - 1)"
  by (rule signed_take_bit_int_greater_eq_minus_exp signed_take_bit_int_less_exp)+

lemma lane_value_signed:
  assumes "lane_size bits" "- (2 ^ (bits - 1)) \<le> sint v" "sint v < 2 ^ (bits - 1)"
  shows "lane_value False bits (take_bit bits v) = sint v"
proof -
  have b: "0 < bits" "bits \<le> 64" using assms(1) by (auto simp: lane_size_def)
  have "lane_value False bits (take_bit bits v) = signed_take_bit (bits - 1) (sint v)"
    using b by (intro bit_eqI) (auto simp: lane_value_def uint_take_bit_lane bit_signed_take_bit_iff
      bit_take_bit_iff bit_uint_iff bit_sint_iff min_def)
  then show ?thesis using assms(2,3) by (simp add: signed_take_bit_int_eq_self)
qed

text \<open>The guards of the signed cases ask the right question without overflowing.\<close>

lemma saturating_signed:
  fixes x y lo hi :: u64 and h :: int
  assumes "h \<le> 2 ^ 63" "sint lo = - h" "sint hi = h - 1"
    and "- h \<le> sint x" "sint x < h" "- h \<le> sint y" "sint y < h"
  defines "difference \<equiv> (if y <s 0 \<and> hi + y <s x then (hi, True)
      else if 0 <s y \<and> x <s lo + y then (lo, True) else (x - y, False))"
    and "added \<equiv> (if 0 <s y \<and> hi - y <s x then (hi, True)
      else if y <s 0 \<and> x <s lo - y then (lo, True) else (x + y, False))"
  shows "sint (fst difference) = clamp (- h) (h - 1) (sint x - sint y)"
    and "snd difference \<longleftrightarrow> sint x - sint y < - h \<or> h - 1 < sint x - sint y"
    and "sint (fst added) = clamp (- h) (h - 1) (sint x + sint y)"
    and "snd added \<longleftrightarrow> sint x + sint y < - h \<or> h - 1 < sint x + sint y"
proof -
  have above: "sint y < 0 \<Longrightarrow> sint (hi + y) = h - 1 + sint y" "0 < sint y \<Longrightarrow> sint (hi - y) = h - 1 - sint y"
    using assms(1-7) by (simp_all add: sint_add_64 sint_sub_64)
  have below: "0 < sint y \<Longrightarrow> sint (lo + y) = sint y - h" "sint y < 0 \<Longrightarrow> sint (lo - y) = - h - sint y"
    using assms(1-7) by (simp_all add: sint_add_64 sint_sub_64)
  have exact: "- h \<le> sint x - sint y \<Longrightarrow> sint x - sint y < h \<Longrightarrow> sint (x - y) = sint x - sint y"
    "- h \<le> sint x + sint y \<Longrightarrow> sint x + sint y < h \<Longrightarrow> sint (x + y) = sint x + sint y"
    using assms(1) by (simp_all add: sint_add_64 sint_sub_64)
  have "difference = (if sint x - sint y > h - 1 then (hi, True)
      else if sint x - sint y < - h then (lo, True) else (x - y, False))"
    using assms(1-7) above below by (auto simp: difference_def word_sless_alt)
  moreover have "added = (if sint x + sint y > h - 1 then (hi, True)
      else if sint x + sint y < - h then (lo, True) else (x + y, False))"
    using assms(1-7) above below by (auto simp: added_def word_sless_alt)
  ultimately show "sint (fst difference) = clamp (- h) (h - 1) (sint x - sint y)"
    "snd difference \<longleftrightarrow> sint x - sint y < - h \<or> h - 1 < sint x - sint y"
    "sint (fst added) = clamp (- h) (h - 1) (sint x + sint y)"
    "snd added \<longleftrightarrow> sint x + sint y < - h \<or> h - 1 < sint x + sint y"
    using assms(2,3) exact assms(4,5) by (auto simp: clamp_def)
qed

lemma saturating_lane_exact:
  fixes i :: instr
  defines "bits \<equiv> element_bits i" and "u \<equiv> has_flag i 2"
  assumes "lane_size bits" "lane * bits < 128"
  shows "lane_value u bits (take_bit bits (fst (saturating_lane i cpu lane))) =
      clamp (lane_minimum u bits) (lane_maximum u bits) (exact_lane i cpu lane)" (is ?A)
    and "snd (saturating_lane i cpu lane) \<longleftrightarrow>
      exact_lane i cpu lane < lane_minimum u bits \<or> lane_maximum u bits < exact_lane i cpu lane" (is ?B)
proof -
  let ?x = "read_vector_element cpu (reg_n i) lane bits" and ?y = "read_vector_element cpu (reg_m i) lane bits"
  have n: "bits \<le> 64" "0 < bits" using assms(3) by (auto simp: lane_size_def)
  have ux: "uint ?x < 2 ^ bits" "uint ?y < 2 ^ bits" by (rule uint_read_less[OF assms(3,4)])+
  have self: "take_bit bits (w :: u64) = w" if "uint w < 2 ^ bits" for w
    using that by (metis take_bit_int_eq_self_iff uint_ge_0 uint_take_bit_lane word_uint_eq_iff)
  have "?A \<and> ?B"
  proof (cases u)
    case True
    note sat = saturating_unsigned[OF n(1) ux]
    note defs = saturating_lane_def exact_lane_def clamp_def lane_value_def lane_minimum_def lane_maximum_def
      u_def[symmetric] bits_def[symmetric] uint_take_bit_lane uint_mask_64[OF n(1)] Let_def
    have ge: "0 \<le> uint ?x" "0 \<le> uint ?y" "\<not> uint ?x + uint ?y < 0" by (simp_all add: not_less)
    show ?thesis
    proof (cases "has_flag i 4")
      case sub: True
      show ?thesis
      proof (cases "?x < ?y")
        case True
        then show ?thesis using \<open>u\<close> sub ux ge by (simp add: defs word_less_def)
      next
        case False
        then have "uint (?x - ?y) = uint ?x - uint ?y" "0 \<le> uint ?x - uint ?y"
          using sat(3) by (simp_all add: word_less_def)
        moreover have "uint ?x - uint ?y < 2 ^ bits" using ux(1) ge(2) by linarith
        ultimately show ?thesis using \<open>u\<close> sub False by (simp add: defs take_bit_int_eq_self)
      qed
    next
      case add: False
      then show ?thesis
        using \<open>u\<close> sat(1,2) ux ge by (cases "?x > mask bits - ?y") (simp_all add: defs take_bit_int_eq_self)
    qed
  next
    case False
    let ?X = "sign_extend_vector_element cpu (reg_n i) lane bits" and ?Y = "sign_extend_vector_element cpu (reg_m i) lane bits"
    let ?lo = "if 64 \<le> bits then 0x8000000000000000 else - sign_bit_for_bits bits :: u64"
    let ?hi = "if 64 \<le> bits then 0x7fffffffffffffff else sign_bit_for_bits bits - 1 :: u64"
    have X: "sint ?X = lane_value False bits ?x" "sint ?Y = lane_value False bits ?y"
      by (simp_all add: sign_extend_vector_element_def sint_sign_extended[OF assms(3)] lane_value_def)
    have h: "(2 :: int) ^ (bits - 1) \<le> 2 ^ 63" using n by (intro power_increasing) auto
    have r: "- (2 ^ (bits - 1)) \<le> sint ?X" "sint ?X < 2 ^ (bits - 1)"
        "- (2 ^ (bits - 1)) \<le> sint ?Y" "sint ?Y < 2 ^ (bits - 1)"
      by (simp_all only: X lane_value_def if_False signed_lane_bounds[OF assms(3)])
    note sat = saturating_signed[OF h signed_limits[OF assms(3)] r]
    let ?r = "if has_flag i 4
        then (if ?Y <s 0 \<and> ?hi + ?Y <s ?X then (?hi, True) else if 0 <s ?Y \<and> ?X <s ?lo + ?Y then (?lo, True) else (?X - ?Y, False))
        else (if 0 <s ?Y \<and> ?hi - ?Y <s ?X then (?hi, True) else if ?Y <s 0 \<and> ?X <s ?lo - ?Y then (?lo, True) else (?X + ?Y, False))"
    have lane: "saturating_lane i cpu lane = (fst ?r AND mask bits, snd ?r)"
      using False by (simp add: saturating_lane_def u_def[symmetric] bits_def[symmetric] Let_def case_prod_beta)
    have exact: "exact_lane i cpu lane = (if has_flag i 4 then sint ?X - sint ?Y else sint ?X + sint ?Y)"
      using False by (simp add: exact_lane_def X u_def[symmetric] bits_def[symmetric] Let_def)
    have v: "sint (fst ?r) = clamp (- (2 ^ (bits - 1))) (2 ^ (bits - 1) - 1) (exact_lane i cpu lane)"
      using sat(1,3) by (simp only: exact split: if_split) simp
    moreover have "snd ?r \<longleftrightarrow> exact_lane i cpu lane < - (2 ^ (bits - 1)) \<or> 2 ^ (bits - 1) - 1 < exact_lane i cpu lane"
      using sat(2,4) by (simp only: exact split: if_split) simp
    moreover have "lane_value False bits (take_bit bits (fst ?r)) = sint (fst ?r)"
      using v by (intro lane_value_signed[OF assms(3)]) (auto simp: clamp_def)
    moreover have "take_bit bits (fst ?r AND mask bits) = take_bit bits (fst ?r)" by (simp add: take_bit_eq_mask)
    ultimately show ?thesis
      using False by (simp only: lane fst_conv snd_conv lane_minimum_def lane_maximum_def if_False simp_thms)
  qed
  then show ?A ?B by auto
qed

lemma lane_fits: "lane < count \<Longrightarrow> count * bits \<le> 128 \<Longrightarrow> lane_size bits \<Longrightarrow> lane * bits < (128 :: nat)"
  by (rule less_le_trans[of _ "count * bits"]) (auto simp: lane_size_def)

lemma full_or_half_lanes:
  assumes "lane_size bits"
  shows "(full_or_half b div bits) * bits = full_or_half b"
  using assms by (auto simp: lane_size_def)

text \<open>
  C26: \<open>SQADD\<close>, \<open>UQADD\<close>, \<open>SQSUB\<close> and \<open>UQSUB\<close>: every lane of the destination is the exact sum or
  difference of the source lanes, as integers, clamped to the range of the lane, and the
  cumulative flag \<open>FPSR.QC\<close> is set exactly when some lane did not fit.
\<close>
theorem saturating_add_subtract_clamps:
  fixes i :: instr
  defines "bits \<equiv> element_bits i" and "u \<equiv> has_flag i 2"
    and "lane_count \<equiv> (if has_flag i 8 then 1 else full_or_half (has_flag i 1) div element_bits i)"
  assumes "lane_size bits" "exec_simd_saturating_add_subtract i cpu = Some cpu'"
  shows "(\<forall>lane < lane_count. lane_value u bits (read_vector_element cpu' (reg_d i) lane bits) =
      clamp (lane_minimum u bits) (lane_maximum u bits) (exact_lane i cpu lane)) \<and>
    (bit (c_fpsr cpu') 27 \<longleftrightarrow> bit (c_fpsr cpu) 27 \<or>
      (\<exists>lane < lane_count. exact_lane i cpu lane \<notin> {lane_minimum u bits .. lane_maximum u bits}))"
proof -
  have b: "0 < bits" using assms(4) by (auto simp: lane_size_def)
  have count: "lane_count = (if has_flag i 8 then bits else full_or_half (has_flag i 1)) div bits"
    using b by (simp add: lane_count_def bits_def)
  have fits: "lane_count * bits \<le> 128"
    using assms(4) by (auto simp: count lane_size_def)
  have cpu': "c_v cpu' (reg_d i) = write_lanes zero_vector 0 lane_count bits (\<lambda>lane. fst (saturating_lane i cpu lane))"
      "c_fpsr cpu' = c_fpsr (note_saturation (\<exists>lane < lane_count. snd (saturating_lane i cpu lane)) cpu)"
    using assms(5) by (auto simp: exec_simd_saturating_add_subtract_def advance_def set_v_def Let_def count bits_def
      execute_simd_saturating_add_subtract_portable_def list_ex_iff note_saturation_def)
  note lane = lane_fits[OF _ fits assms(4)]
  note exact = saturating_lane_exact[of i, folded bits_def u_def, OF assms(4) lane]
  have lanes: "\<forall>lane < lane_count. lane_value u bits (read_vector_element cpu' (reg_d i) lane bits) =
      clamp (lane_minimum u bits) (lane_maximum u bits) (exact_lane i cpu lane)"
    using exact(1) by (simp add: read_result_lane[OF assms(4) fits lane cpu'(1)])
  have "(\<exists>lane < lane_count. snd (saturating_lane i cpu lane)) \<longleftrightarrow>
      (\<exists>lane < lane_count. exact_lane i cpu lane \<notin> {lane_minimum u bits .. lane_maximum u bits})"
    using exact(2) by (auto simp: not_le)
  then have "bit (c_fpsr cpu') 27 \<longleftrightarrow> bit (c_fpsr cpu) 27 \<or>
      (\<exists>lane < lane_count. exact_lane i cpu lane \<notin> {lane_minimum u bits .. lane_maximum u bits})"
    by (auto simp: cpu'(2) note_saturation_def bit_or_iff bit_push_bit_iff)
  with lanes show ?thesis by (rule conjI)
qed

text \<open>A processor whose vector registers 1 and 2 hold the given values.\<close>

definition vectors_1_2 :: "vreg \<Rightarrow> vreg \<Rightarrow> cpu" where
  "vectors_1_2 a b = \<lparr>c_x = (\<lambda>_. 0), c_v = (\<lambda>r. if r = 1 then a else if r = 2 then b else zero_vector),
     c_sp = 0, c_pc = 0, c_pstate = 0, c_fpcr = 0, c_fpsr = 0, c_exclusive_address = 0,
     c_exclusive_generation = 0, c_exclusive_size = 0, c_exclusive_valid = 0, c_halted = 0\<rparr>"

definition vector_instr :: "u8 \<Rightarrow> u8 \<Rightarrow> u8 \<Rightarrow> u8 \<Rightarrow> instr" where
  "vector_instr rd bits flags condition = \<lparr>i_raw = 0, i_kind = 0, i_rd = rd, i_rn = 1, i_rm = 2, i_rt = 0,
     i_width = 0, i_bits = bits, i_flags = flags, i_condition = condition, i_shift_type = 0,
     i_shift_amount = 0, i_immediate = 0, i_immediate2 = 0\<rparr>"

text \<open>\<open>uqadd v0.8b, v1.8b, v2.8b\<close>: \<open>250 + 10\<close> saturates in lane 0, \<open>1 + 2\<close> fits in lane 1.\<close>

theorem saturating_add_subtract_clamps_witness:
  "let cpu = vectors_1_2 \<lparr>v_low = 0x01fa, v_high = 0\<rparr> \<lparr>v_low = 0x020a, v_high = 0\<rparr>;
       cpu' = the (exec_simd_saturating_add_subtract (vector_instr 0 8 2 0) cpu)
   in lane_value True 8 (read_vector_element cpu' 0 0 8) = 255 \<and>
      lane_value True 8 (read_vector_element cpu' 0 1 8) = 3 \<and> bit (c_fpsr cpu') 27"
proof -
  let ?i = "vector_instr 0 8 2 0"
  let ?cpu = "vectors_1_2 \<lparr>v_low = 0x01fa, v_high = 0\<rparr> \<lparr>v_low = 0x020a, v_high = 0\<rparr>"
  obtain cpu' where e: "exec_simd_saturating_add_subtract ?i ?cpu = Some cpu'"
    by (auto simp: exec_simd_saturating_add_subtract_def advance_def
      execute_simd_saturating_add_subtract_portable_def Let_def)
  have s: "element_bits ?i = 8" "has_flag ?i 2" "\<not> has_flag ?i 8" "\<not> has_flag ?i 1" "reg_d ?i = 0"
    by (simp_all add: vector_instr_def)
  have x: "exact_lane ?i ?cpu 0 = 260" "exact_lane ?i ?cpu 1 = 3" by code_simp+
  have "lane_size (element_bits ?i)" by (simp add: s lane_size_def)
  note both = saturating_add_subtract_clamps[OF this e]
  note clamps = conjunct1[OF both] conjunct2[OF both]
  have "lane_value True 8 (read_vector_element cpu' 0 0 8) = 255"
    using clamps(1)[rule_format, of 0] by (simp add: s x clamp_def lane_minimum_def lane_maximum_def)
  moreover have "lane_value True 8 (read_vector_element cpu' 0 1 8) = 3"
    using clamps(1)[rule_format, of 1] by (simp del: One_nat_def add: s x clamp_def lane_minimum_def lane_maximum_def)
  moreover have "bit (c_fpsr cpu') 27"
    unfolding clamps(2) by (intro disjI2 exI[of _ 0]) (simp add: s x lane_minimum_def lane_maximum_def)
  ultimately show ?thesis by (simp add: e)
qed

subsection \<open>Interleaving\<close>

text \<open>A register is determined by its lanes.\<close>

lemma read_vector_element_cong:
  "c_v c1 r = c_v c2 r \<Longrightarrow> read_vector_element c1 r lane bits = read_vector_element c2 r lane bits"
  by (simp only: read_vector_element_def)

lemma write_lanes_of_register:
  assumes "lane_size bits" "count * bits = full_or_half full"
    and "\<And>lane. lane < count \<Longrightarrow> f lane = read_vector_element cpu r lane bits"
  shows "write_lanes zero_vector 0 count bits f =
    (if full then c_v cpu r else \<lparr>v_low = v_low (c_v cpu r), v_high = 0\<rparr>)"
proof (rule vector_eqI)
  fix n :: nat assume n: "n < 128"
  have b: "0 < bits" using assms(1) by (auto simp: lane_size_def)
  have fits: "(0 + count) * bits \<le> 128" using assms(2) by (auto split: if_splits)
  have "bit (f (n div bits)) (n mod bits) = vector_bit (c_v cpu r) n" if "n < count * bits"
  proof -
    have l: "n div bits < count" using that by (simp add: less_mult_imp_div_less)
    moreover from this have "n div bits * bits < 128" using fits assms(1) by (simp add: lane_fits)
    ultimately show ?thesis
      using b by (simp add: assms(3) bit_read_vector_element[OF assms(1)])
  qed
  then show "vector_bit (write_lanes zero_vector 0 count bits f) n =
      vector_bit (if full then c_v cpu r else \<lparr>v_low = v_low (c_v cpu r), v_high = 0\<rparr>) n"
    using n assms(2) by (simp add: bit_write_lanes[OF assms(1) fits n]) (simp add: vector_bit_def zero_vector_def)
qed

abbreviation zip_first :: u8 where "zip_first \<equiv> 3"
abbreviation zip_second :: u8 where "zip_second \<equiv> 7"
abbreviation unzip_first :: u8 where "unzip_first \<equiv> 1"
abbreviation unzip_second :: u8 where "unzip_second \<equiv> 5"

lemma permute_lanes:
  fixes i :: instr
  defines "count \<equiv> full_or_half (i_condition i \<noteq> 0) div element_bits i"
  assumes "lane_size (element_bits i)" "exec_simd_permute_two_vector i cpu = Some cpu'"
  shows "c_v cpu' = (c_v cpu)(reg_d i := write_lanes zero_vector 0 count (element_bits i) (\<lambda>lane.
      case permuted_lane (unat (i_flags i AND 3)) (if has_flag i 4 then 1 else 0) (count div 2) (reg_n i) (reg_m i) lane
      of (r, source) \<Rightarrow> read_vector_element cpu r source (element_bits i)))"
  using assms(3) by (auto simp: exec_simd_permute_two_vector_def set_result_def set_v_def count_def Let_def
    split: if_splits)

lemma permuted_source:
  fixes i :: instr
  defines "bits \<equiv> element_bits i" and "count \<equiv> full_or_half (i_condition i \<noteq> 0) div element_bits i"
  assumes "lane_size bits" "exec_simd_permute_two_vector i cpu = Some cpu'" "lane < count"
    and "permuted_lane (unat (i_flags i AND 3)) (if has_flag i 4 then 1 else 0) (count div 2) (reg_n i) (reg_m i) lane = (r, source)"
    and "source < count"
  shows "read_vector_element cpu' (reg_d i) lane bits = read_vector_element cpu r source bits"
proof -
  have fits: "count * bits \<le> 128"
    using full_or_half_lanes[OF assms(3), of "i_condition i \<noteq> 0"] by (simp add: count_def bits_def)
  note inside = lane_fits[OF _ fits assms(3)]
  let ?f = "\<lambda>lane. case permuted_lane (unat (i_flags i AND 3)) (if has_flag i 4 then 1 else 0) (count div 2)
      (reg_n i) (reg_m i) lane of (r, source) \<Rightarrow> read_vector_element cpu r source bits"
  have "c_v cpu' (reg_d i) = write_lanes zero_vector 0 count bits ?f"
    by (simp only: permute_lanes[OF assms(3)[unfolded bits_def] assms(4)] fun_upd_same count_def bits_def)
  then have "read_vector_element cpu' (reg_d i) lane bits = take_bit bits (?f lane)"
    using assms(5) by (simp only: read_result_lane[OF assms(3) fits inside[OF assms(5)]] if_True)
  also have "?f lane = read_vector_element cpu r source bits"
    by (simp only: assms(6) case_prod_conv)
  also have "take_bit bits (read_vector_element cpu r source bits) = read_vector_element cpu r source bits"
    by (rule bit_word_eqI) (auto simp: bit_take_bit_iff bit_read_vector_element[OF assms(3) inside[OF assms(7)]])
  finally show ?thesis .
qed

text \<open>
  C27: \<open>UZP1\<close> and \<open>UZP2\<close> undo \<open>ZIP1\<close> and \<open>ZIP2\<close>. Zip two registers into \<open>a\<close> and \<open>b\<close> and unzip
  those: the lanes of the sources come back in order, for every lane size and for half
  vectors, whose upper half is cleared.
\<close>
theorem unzip_zip_round_trip:
  fixes i :: instr
  defines "whole \<equiv> (\<lambda>v. if i_condition i \<noteq> 0 then v else \<lparr>v_low = v_low v, v_high = 0\<rparr>)"
  assumes "lane_size (element_bits i)" "unat a \<notin> {reg_n i, reg_m i}" "a \<noteq> b"
    and "exec_simd_permute_two_vector (i\<lparr>i_flags := zip_first, i_rd := a\<rparr>) cpu = Some cpu1"
    and "exec_simd_permute_two_vector (i\<lparr>i_flags := zip_second, i_rd := b\<rparr>) cpu1 = Some cpu2"
    and "exec_simd_permute_two_vector (i\<lparr>i_flags := unzip_first, i_rn := a, i_rm := b\<rparr>) cpu2 = Some first_half"
    and "exec_simd_permute_two_vector (i\<lparr>i_flags := unzip_second, i_rn := a, i_rm := b\<rparr>) cpu2 = Some second_half"
  shows "c_v first_half (reg_d i) = whole (c_v cpu (reg_n i)) \<and>
    c_v second_half (reg_d i) = whole (c_v cpu (reg_m i))"
proof -
  let ?bits = "element_bits i" and ?count = "full_or_half (i_condition i \<noteq> 0) div element_bits i"
  let ?half = "?count div 2"
  have even: "?count = 2 * ?half"
    using assms(5) assms(2) by (auto simp: exec_simd_permute_two_vector_def lane_size_def)
  have b1: "read_vector_element cpu1 (unat a) lane ?bits =
      read_vector_element cpu (if even lane then reg_n i else reg_m i) (lane div 2) ?bits" if "lane < ?count" for lane
    using permuted_source[OF _ assms(5), of lane] assms(2) that by (simp add: permuted_lane_def)
  have b2: "read_vector_element cpu2 (unat b) lane ?bits =
      read_vector_element cpu1 (if even lane then reg_n i else reg_m i) (lane div 2 + ?half) ?bits" if "lane < ?count" for lane
    using permuted_source[OF _ assms(6), of lane] assms(2) that even by (simp add: permuted_lane_def)
  have kept: "c_v cpu1 (reg_n i) = c_v cpu (reg_n i)" "c_v cpu1 (reg_m i) = c_v cpu (reg_m i)"
      "c_v cpu2 (unat a) = c_v cpu1 (unat a)"
    using permute_lanes[OF _ assms(5)] permute_lanes[OF _ assms(6)] assms(2,3,4) by (auto simp: word_unat_eq_iff)
  have interleaved: "read_vector_element cpu2 (unat a) lane ?bits =
      read_vector_element cpu (if even lane then reg_n i else reg_m i) (lane div 2) ?bits"
      "read_vector_element cpu2 (unat b) lane ?bits =
      read_vector_element cpu (if even lane then reg_n i else reg_m i) (lane div 2 + ?half) ?bits" if "lane < ?count" for lane
    using b1[OF that] b2[OF that] kept by (simp_all add: kept[THEN read_vector_element_cong])
  have unzipped: "(case permuted_lane 1 second ?half (unat a) (unat b) lane of
        (r, source) \<Rightarrow> read_vector_element cpu2 r source ?bits) =
      read_vector_element cpu (if second = 0 then reg_n i else reg_m i) lane ?bits"
    if "lane < ?count" "second < 2" for lane second
    using that even interleaved[of "lane * 2 + second"] interleaved[of "(lane - ?half) * 2 + second"]
    by (cases "lane < ?half"; cases "second = 0") (simp_all add: permuted_lane_def less_2_cases_iff)
  note whole = write_lanes_of_register[OF assms(2) full_or_half_lanes[OF assms(2)], of _ _ cpu]
  have "c_v first_half (reg_d i) = whole (c_v cpu (reg_n i))"
    using permute_lanes[OF _ assms(7)] assms(2) unzipped[of _ 0]
    by (simp add: whole[of _ _ "reg_n i"] whole_def)
  moreover have "c_v second_half (reg_d i) = whole (c_v cpu (reg_m i))"
    using permute_lanes[OF _ assms(8)] assms(2) unzipped[of _ 1]
    by (simp add: whole[of _ _ "reg_m i"] whole_def)
  ultimately show ?thesis by (rule conjI)
qed

theorem unzip_zip_round_trip_witness:
  "\<exists>cpu1 cpu2 first_half second_half.
    let i = vector_instr 0 16 0 1; cpu = vectors_1_2 \<lparr>v_low = 1, v_high = 2\<rparr> \<lparr>v_low = 3, v_high = 4\<rparr>
    in exec_simd_permute_two_vector (i\<lparr>i_flags := zip_first, i_rd := 5\<rparr>) cpu = Some cpu1 \<and>
       exec_simd_permute_two_vector (i\<lparr>i_flags := zip_second, i_rd := 6\<rparr>) cpu1 = Some cpu2 \<and>
       exec_simd_permute_two_vector (i\<lparr>i_flags := unzip_first, i_rn := 5, i_rm := 6\<rparr>) cpu2 = Some first_half \<and>
       exec_simd_permute_two_vector (i\<lparr>i_flags := unzip_second, i_rn := 5, i_rm := 6\<rparr>) cpu2 = Some second_half \<and>
       c_v first_half 0 = \<lparr>v_low = 1, v_high = 2\<rparr> \<and> c_v second_half 0 = \<lparr>v_low = 3, v_high = 4\<rparr>"
proof -
  let ?i = "vector_instr 0 16 0 1" and ?cpu = "vectors_1_2 \<lparr>v_low = 1, v_high = 2\<rparr> \<lparr>v_low = 3, v_high = 4\<rparr>"
  have some: "\<exists>cpu'. exec_simd_permute_two_vector (?i\<lparr>i_flags := f, i_rd := d, i_rn := n, i_rm := m\<rparr>) c = Some cpu'"
    if "f AND 3 \<noteq> 0" for f d n m c
    using that by (simp add: exec_simd_permute_two_vector_def set_result_def vector_instr_def unat_eq_0 Let_def)
  obtain c1 where 1: "exec_simd_permute_two_vector (?i\<lparr>i_flags := zip_first, i_rd := 5\<rparr>) ?cpu = Some c1"
    using some[where f = zip_first and d = 5 and n = 1 and m = 2 and c = ?cpu] by (auto simp: vector_instr_def)
  obtain c2 where 2: "exec_simd_permute_two_vector (?i\<lparr>i_flags := zip_second, i_rd := 6\<rparr>) c1 = Some c2"
    using some[where f = zip_second and d = 6 and n = 1 and m = 2 and c = c1] by (auto simp: vector_instr_def)
  obtain f where 3: "exec_simd_permute_two_vector (?i\<lparr>i_flags := unzip_first, i_rn := 5, i_rm := 6\<rparr>) c2 = Some f"
    using some[where f = unzip_first and d = 0 and n = 5 and m = 6 and c = c2] by (auto simp: vector_instr_def)
  obtain s where 4: "exec_simd_permute_two_vector (?i\<lparr>i_flags := unzip_second, i_rn := 5, i_rm := 6\<rparr>) c2 = Some s"
    using some[where f = unzip_second and d = 0 and n = 5 and m = 6 and c = c2] by (auto simp: vector_instr_def)
  have "lane_size (element_bits ?i)" "unat (5 :: u8) \<notin> {reg_n ?i, reg_m ?i}" "(5 :: u8) \<noteq> 6"
    by (simp_all add: vector_instr_def lane_size_def)
  from unzip_zip_round_trip[OF this 1 2 3 4]
  have "c_v f 0 = \<lparr>v_low = 1, v_high = 2\<rparr> \<and> c_v s 0 = \<lparr>v_low = 3, v_high = 4\<rparr>"
    by (simp add: vector_instr_def vectors_1_2_def)
  with 1 2 3 4 show ?thesis unfolding Let_def by blast
qed

end
