(* ===== verification/StructureTransfer.thy ===== *)
theory StructureTransfer
  imports ExecVectorMemory VectorLanes GuestMemory
begin

text \<open>
  The bulk transfer of \<open>LD1\<close>..\<open>LD4\<close> and \<open>ST1\<close>..\<open>ST4\<close> against the element by element loop:
  interleaving registers into a buffer and back, and the equality of the two ways to load.
\<close>

lemma vector_byte_bit: "bit (vector_byte v index) n \<longleftrightarrow> n < 8 \<and> vector_bit v (index * 8 + n)" if "index < 16"
proof (cases "index < 8")
  case True
  then show ?thesis by (auto simp: vector_byte_def vector_bit_def bit_ucast_iff bit_drop_bit_eq)
next
  case False
  then have "index * 8 + n - 64 = (index - 8) * 8 + n" by simp
  with False that show ?thesis
    by (auto simp: vector_byte_def vector_bit_def bit_ucast_iff bit_drop_bit_eq)
qed

lemma set_vector_byte_bit:
  "index < 16 \<Longrightarrow> n < 128 \<Longrightarrow> vector_bit (set_vector_byte index b v) n =
     (if index * 8 \<le> n \<and> n < index * 8 + 8 then bit b (n - index * 8) else vector_bit v n)"
  by (auto simp: set_vector_byte_def bit_write_vector_element[unfolded lane_size_def] bit_ucast_iff
    dest: bit_imp_le_length)

text \<open>The three nested loops write every byte of the transfer once.\<close>

lemma fold_concat: "fold (\<lambda>x. fold (f x) (g x)) xs s = fold (\<lambda>(x, y). f x y) (concat (map (\<lambda>x. map (Pair x) (g x)) xs)) s"
  by (induction xs arbitrary: s) (simp_all add: fold_map comp_def)

text \<open>Byte \<open>index\<close> of register \<open>structure\<close> comes from this place of the buffer.\<close>

definition source_byte :: "nat \<Rightarrow> nat \<Rightarrow> nat \<Rightarrow> nat \<Rightarrow> nat" where
  "source_byte register_count element_bytes structure index =
     (index div element_bytes * register_count + structure) * element_bytes + index mod element_bytes"

lemma source_byte_lane:
  "b < element_bytes \<Longrightarrow> source_byte count element_bytes structure (lane * element_bytes + b) =
     (lane * count + structure) * element_bytes + b"
  by (simp add: source_byte_def)

lemma fold_write_bytes:
  fixes w :: "nat \<Rightarrow> nat \<Rightarrow> u8"
  assumes "\<forall>(s, j) \<in> set places. s < length vs \<and> j < 16" "s < length vs" "j < 16"
  shows "vector_byte (fold (\<lambda>(s, j) vs. vs[s := set_vector_byte j (w s j) (vs ! s)]) places vs ! s) j =
    (if (s, j) \<in> set places then w s j else vector_byte (vs ! s) j)"
    and "length (fold (\<lambda>(s, j) vs. vs[s := set_vector_byte j (w s j) (vs ! s)]) places vs) = length vs"
proof -
  have "(s < length vs \<longrightarrow> j < 16 \<longrightarrow>
      vector_byte (fold (\<lambda>(s, j) vs. vs[s := set_vector_byte j (w s j) (vs ! s)]) places vs ! s) j =
        (if (s, j) \<in> set places then w s j else vector_byte (vs ! s) j)) \<and>
      length (fold (\<lambda>(s, j) vs. vs[s := set_vector_byte j (w s j) (vs ! s)]) places vs) = length vs"
    if "\<forall>(s, j) \<in> set places. s < length vs \<and> j < 16" for places s j and vs :: "vreg list"
    using that
  proof (induction places arbitrary: vs)
    case (Cons p places)
    obtain s' j' where p: "p = (s', j')" by (cases p)
    have at: "s' < length vs" "j' < 16" using Cons.prems p by auto
    have "vector_byte (set_vector_byte j' x v) k = (if k = j' then x else vector_byte v k)" if "k < 16" for x v k
      by (rule bit_word_eqI) (use that at(2) in \<open>auto simp: vector_byte_bit set_vector_byte_bit dest: bit_imp_le_length\<close>)
    then show ?case
      using Cons.IH[of "vs[s' := set_vector_byte j' (w s' j') (vs ! s')]"] Cons.prems at
      by (auto simp: p nth_list_update)
  qed simp
  from this[OF assms(1)] show "vector_byte (fold (\<lambda>(s, j) vs. vs[s := set_vector_byte j (w s j) (vs ! s)]) places vs ! s) j =
    (if (s, j) \<in> set places then w s j else vector_byte (vs ! s) j)"
    "length (fold (\<lambda>(s, j) vs. vs[s := set_vector_byte j (w s j) (vs ! s)]) places vs) = length vs"
    using assms(2,3) by auto
qed

lemma mixed_less: "a < n \<Longrightarrow> b < m \<Longrightarrow> a * m + b < n * (m :: nat)"
  using mult_le_mono1[of "Suc a" n m] by simp

lemma nth_concat_uniform:
  assumes "\<And>x. x \<in> set xs \<Longrightarrow> length (f x) = n" "k < length xs * n"
  shows "concat (map f xs) ! k = f (xs ! (k div n)) ! (k mod n)"
  using assms
proof (induction xs arbitrary: k)
  case (Cons x xs)
  have n: "0 < n" using Cons.prems(2) by (cases n) auto
  show ?case
  proof (cases "k < n")
    case True
    then show ?thesis using Cons.prems by (simp add: nth_append)
  next
    case False
    then have "k div n = Suc ((k - n) div n)" "k mod n = (k - n) mod n"
      using n by (simp_all add: le_div_geq le_mod_geq)
    then show ?thesis using Cons False by (simp add: nth_append)
  qed
qed simp

lemma length_concat_uniform:
  "(\<And>x. x \<in> set xs \<Longrightarrow> length (f x) = n) \<Longrightarrow> length (concat (map f xs)) = length xs * n"
  by (induction xs) auto

lemma transfer_sizes:
  assumes "pack_interleaved_vectors vs count lanes bytes = Some transfer"
  shows "\<not> transfer_invalid count lanes bytes" "length transfer = lanes * (count * bytes)"
    and "s < count \<Longrightarrow> j < lanes * bytes \<Longrightarrow> transfer ! source_byte count bytes s j = vector_byte (vs ! s) j"
proof -
  show valid: "\<not> transfer_invalid count lanes bytes"
    using assms by (auto simp: pack_interleaved_vectors_def split: if_splits)
  let ?row = "\<lambda>lane s. map (\<lambda>b. vector_byte (vs ! s) (lane * bytes + b)) [0 ..< bytes]"
  have t: "transfer = concat (map (\<lambda>lane. concat (map (?row lane) [0 ..< count])) [0 ..< lanes])"
    using assms valid by (simp add: pack_interleaved_vectors_def)
  have len: "length (concat (map (?row lane) [0 ..< count])) = count * bytes" for lane
    by (subst length_concat_uniform[of _ _ bytes]) auto
  then show "length transfer = lanes * (count * bytes)"
    unfolding t by (subst length_concat_uniform[of _ _ "count * bytes"]) auto
  assume s: "s < count" and j: "j < lanes * bytes"
  have b: "0 < bytes" using j by (cases bytes) auto
  let ?k = "source_byte count bytes s j"
  have lane: "j div bytes < lanes" using j by (simp add: less_mult_imp_div_less)
  have rest: "s * bytes + j mod bytes < count * bytes"
    using s b by (simp add: mixed_less)
  have k: "?k = (j div bytes) * (count * bytes) + (s * bytes + j mod bytes)"
    by (simp add: source_byte_def algebra_simps)
  have c: "0 < count * bytes" using s b by simp
  have "?k < lanes * (count * bytes)"
    using lane rest unfolding k by (rule mixed_less)
  then have "transfer ! ?k = concat (map (?row (?k div (count * bytes))) [0 ..< count]) ! (?k mod (count * bytes))"
    unfolding t by (subst nth_concat_uniform[of _ _ "count * bytes"]) (auto simp: len less_mult_imp_div_less)
  also have "?k div (count * bytes) = j div bytes" using rest c by (simp add: k)
  also have "?k mod (count * bytes) = s * bytes + j mod bytes" using rest by (simp add: k)
  also have "concat (map (?row (j div bytes)) [0 ..< count]) ! (s * bytes + j mod bytes) = vector_byte (vs ! s) j"
    using rest b s by (subst nth_concat_uniform[of _ _ bytes]) auto
  finally show "transfer ! ?k = vector_byte (vs ! s) j" .
qed

text \<open>The loops of \<open>unpack_interleaved_vectors\<close> as one list of byte writes.\<close>

definition byte_places :: "nat \<Rightarrow> nat \<Rightarrow> nat \<Rightarrow> (nat \<times> nat) list" where
  "byte_places count lanes bytes =
     concat (map (\<lambda>lane. concat (map (\<lambda>s. map (\<lambda>b. (s, lane * bytes + b)) [0 ..< bytes]) [0 ..< count])) [0 ..< lanes])"

lemma set_byte_places: "0 < bytes \<Longrightarrow> set (byte_places count lanes bytes) = {0 ..< count} \<times> {0 ..< lanes * bytes}"
proof -
  assume b: "0 < bytes"
  have "\<exists>lane < lanes. \<exists>k < bytes. j = lane * bytes + k" if "j < lanes * bytes" for j
    using that b by (intro exI[of _ "j div bytes"] exI[of _ "j mod bytes"] conjI) (auto simp: less_mult_imp_div_less)
  then show ?thesis
    by (fastforce simp: byte_places_def mixed_less)
qed

lemma unpack_as_writes:
  assumes "\<not> transfer_invalid count lanes bytes"
  shows "unpack_interleaved_vectors transfer count lanes bytes vectors =
    Some (fold (\<lambda>(s, j) vs. vs[s := set_vector_byte j (transfer ! source_byte count bytes s j) (vs ! s)])
      (byte_places count lanes bytes) vectors)"
proof -
  have inner: "fold (\<lambda>b vs. vs[s := set_vector_byte (lane * bytes + b)
        (transfer ! ((lane * count + s) * bytes + b)) (vs ! s)]) [0 ..< bytes] =
      fold (\<lambda>(s, j) vs. vs[s := set_vector_byte j (transfer ! source_byte count bytes s j) (vs ! s)])
        (map (\<lambda>b. (s, lane * bytes + b)) [0 ..< bytes])" for lane s
    by (rule ext) (simp add: fold_map comp_def, intro fold_cong refl, simp add: source_byte_lane)
  have flat: "fold (\<lambda>x. fold g (f x)) xs = fold g (concat (map f xs))"
    for g :: "nat \<times> nat \<Rightarrow> vreg list \<Rightarrow> vreg list" and f and xs :: "nat list"
    by (rule ext) (induction xs, simp_all add: fold_append)
  show ?thesis
    using assms by (simp add: unpack_interleaved_vectors_def byte_places_def inner flat)
qed

lemma vector_bytes_eqI:
  assumes "\<And>j. j < 16 \<Longrightarrow> vector_byte v j = vector_byte w j"
  shows "v = w"
proof (rule vector_eqI)
  fix n :: nat assume n: "n < 128"
  then have "bit (vector_byte v (n div 8)) (n mod 8) = bit (vector_byte w (n div 8)) (n mod 8)"
    using assms[of "n div 8"] by simp
  then show "vector_bit v n = vector_bit w n" using n by (simp add: vector_byte_bit)
qed

text \<open>
  C28: Loading what was stored gives the registers back: \<open>unpack_interleaved_vectors\<close> inverts
  \<open>pack_interleaved_vectors\<close> for one to four registers, every element size and half or full
  registers, whose upper half comes back as zero. The buffer has exactly the size of the
  transfer.
\<close>
theorem interleaved_transfer_round_trip:
  assumes "pack_interleaved_vectors vs count lanes bytes = Some transfer"
    and "lanes * bytes = (if full then 16 else 8)"
  shows "\<exists>ws. unpack_interleaved_vectors transfer count lanes bytes (replicate 4 zero_vector) = Some ws \<and>
    take count ws = map (\<lambda>s. if full then vs ! s else \<lparr>v_low = v_low (vs ! s), v_high = 0\<rparr>) [0 ..< count] \<and>
    length transfer = lanes * count * bytes"
proof -
  note valid = transfer_sizes(1)[OF assms(1)]
  then have c: "count \<le> 4" "0 < bytes" by (auto simp: transfer_invalid_def)
  let ?ws = "fold (\<lambda>(s, j) vs. vs[s := set_vector_byte j (transfer ! source_byte count bytes s j) (vs ! s)])
      (byte_places count lanes bytes) (replicate 4 zero_vector)"
  have places: "\<forall>(s, j) \<in> set (byte_places count lanes bytes). s < length (replicate 4 zero_vector) \<and> j < 16"
    using c assms(2) by (auto simp: set_byte_places split: if_splits)
  note writes = fold_write_bytes[OF places, of _ _ "\<lambda>s j. transfer ! source_byte count bytes s j"]
  have len: "length ?ws = 4" using writes(2)[of 0 0] by simp
  have zero: "vector_byte zero_vector j = 0" for j by (simp add: vector_byte_def zero_vector_def)
  have "?ws ! s = (if full then vs ! s else \<lparr>v_low = v_low (vs ! s), v_high = 0\<rparr>)" if "s < count" for s
  proof (rule vector_bytes_eqI)
    fix j :: nat assume j: "j < 16"
    have "vector_byte (?ws ! s) j = (if j < lanes * bytes then vector_byte (vs ! s) j else 0)"
      using writes(1)[of s j] that j c transfer_sizes(3)[OF assms(1) that, of j]
      by (auto simp: set_byte_places zero)
    then show "vector_byte (?ws ! s) j = vector_byte (if full then vs ! s else \<lparr>v_low = v_low (vs ! s), v_high = 0\<rparr>) j"
      using j assms(2) by (auto simp: vector_byte_def)
  qed
  then have "take count ?ws = map (\<lambda>s. if full then vs ! s else \<lparr>v_low = v_low (vs ! s), v_high = 0\<rparr>) [0 ..< count]"
    using len c by (intro nth_equalityI) simp_all
  then show ?thesis
    using unpack_as_writes[OF valid] transfer_sizes(2)[OF assms(1)] by simp
qed

subsection \<open>The bulk load is the element by element load\<close>

text \<open>
  What the two ways to load rely on: an element load and a bulk read see the same bytes,
  \<open>byte\<close>, of what the context shows, and leave it alone. A byte without a content is unmapped.
\<close>

definition reads_memory :: "'m callbacks \<Rightarrow> ('m \<Rightarrow> 'v) \<Rightarrow> ('v \<Rightarrow> u64 \<Rightarrow> u8 option) \<Rightarrow> bool" where
  "reads_memory k view byte \<longleftrightarrow>
     (\<forall>m a w bs. unat w \<in> {1, 2, 4, 8} \<longrightarrow> length bs = unat w \<longrightarrow>
        (\<forall>j < unat w. byte (view m) (a + word_of_nat j) = Some (bs ! j)) \<longrightarrow>
        (\<exists>m'. avz_native_dispatch_memory_read k m a w = (Some (avz_fast_load ((!) bs) 0 (unat w)), m') \<and> view m' = view m)) \<and>
     (\<forall>m a n bs m'. f_read_bytes (k_fast k) m a n = (Some bs, m') \<longrightarrow> view m' = view m \<and>
        length bs = n \<and> (\<forall>j < n. byte (view m) (a + word_of_nat j) = Some (bs ! j)))"

lemma fold_list_update:
  "fold (\<lambda>b vs. vs[s := f b (vs ! s)]) bs vs = vs[s := fold f bs (vs ! s)]"
proof (cases "s < length vs")
  case True
  then show ?thesis by (induction bs arbitrary: vs) simp_all
next
  case False
  then show ?thesis by (induction bs arbitrary: vs) (simp_all add: list_update_beyond)
qed

lemma element_as_bytes:
  assumes "bytes \<in> {1, 2, 4, 8}" "(lane + 1) * bytes \<le> 16"
  shows "fold (\<lambda>b. set_vector_byte (lane * bytes + b) (bs ! b)) [0 ..< bytes] v =
    write_vector_element v lane (8 * bytes) (avz_fast_load ((!) bs) 0 bytes)"
proof (rule vector_eqI)
  fix n :: nat assume n: "n < 128"
  have size: "lane_size 8" "lane_size (8 * bytes)" using assms(1) by (auto simp: lane_size_def)
  have fits: "(lane * bytes + bytes) * 8 \<le> 128" "lane * (8 * bytes) < 128" using assms by auto
  have w: "fold (\<lambda>b. set_vector_byte (lane * bytes + b) (bs ! b)) [0 ..< bytes] v =
      write_lanes v (lane * bytes) bytes 8 (\<lambda>b. ucast (bs ! b))"
    by (simp add: write_lanes_def set_vector_byte_def[abs_def])
  let ?o = "lane * bytes * 8"
  have "n div 8 - lane * bytes = (n - ?o) div 8" "n mod 8 = (n - ?o) mod 8" if "?o \<le> n"
    using that by (auto simp: div_mult_self_is_m dest!: le_Suc_ex)
  moreover have "(8 * bytes :: nat) \<le> 64" using assms(1) by auto
  moreover have e: "lane * (8 * bytes) = ?o" "(lane * bytes + bytes) * 8 = ?o + 8 * bytes" by simp_all
  moreover have "?o \<le> n \<Longrightarrow> n < ?o + 8 * bytes \<Longrightarrow> n - ?o < 8 * bytes" "(n - ?o) mod 8 < 64"
    using mod_less_divisor[of 8 "n - ?o"] by linarith+
  ultimately show "vector_bit (fold (\<lambda>b. set_vector_byte (lane * bytes + b) (bs ! b)) [0 ..< bytes] v) n =
      vector_bit (write_vector_element v lane (8 * bytes) (avz_fast_load ((!) bs) 0 bytes)) n"
    unfolding w bit_write_lanes[OF size(1) fits(1) n] bit_write_vector_element[OF size(2) fits(2) n] e
    by (auto simp: bit_fast_load bit_ucast_iff dest: bit_imp_le_length)
qed

definition load_element :: "nat \<Rightarrow> nat \<Rightarrow> u8 list \<Rightarrow> nat \<times> nat \<Rightarrow> vreg list \<Rightarrow> vreg list" where
  "load_element count bytes transfer = (\<lambda>(lane, s) vs.
     vs[s := write_vector_element (vs ! s) lane (8 * bytes)
          (avz_fast_load ((!) (take bytes (drop ((lane * count + s) * bytes) transfer))) 0 bytes)])"

lemma element_loads_transfer:
  assumes "reads_memory k view byte" "bytes \<in> {1, 2, 4, 8}"
    and "length transfer = lanes * count * bytes"
    and "\<forall>j < length transfer. byte (view m) (base + word_of_nat j) = Some (transfer ! j)"
    and "\<forall>(lane, s) \<in> set elements. lane < lanes \<and> s < count"
  shows "\<exists>m'. element_loads k count (8 * bytes) base elements vs m =
    (Some (fold (load_element count bytes transfer) elements vs), m') \<and> view m' = view m"
  using assms(4,5)
proof (induction elements arbitrary: vs m)
  case (Cons e elements)
  obtain lane s where e: "e = (lane, s)" by (cases e)
  let ?o = "(lane * count + s) * bytes"
  let ?bs = "take bytes (drop ?o transfer)"
  have "lane * count + s < lanes * count" using Cons.prems(2) e by (auto intro: mixed_less)
  then have o: "?o + bytes \<le> length transfer"
    using assms(3) mult_le_mono1[of "Suc (lane * count + s)" "lanes * count" bytes] by simp
  have w: "unat (word_of_nat bytes :: u8) = bytes" using assms(2) by auto
  have "\<forall>j < bytes. byte (view m) (base + word_of_nat ?o + word_of_nat j) = Some (?bs ! j)"
  proof (intro allI impI)
    fix j assume "j < bytes"
    then show "byte (view m) (base + word_of_nat ?o + word_of_nat j) = Some (?bs ! j)"
      using Cons.prems(1)[rule_format, of "?o + j"] o by (simp add: add.assoc)
  qed
  then obtain m1 where m1: "avz_native_dispatch_memory_read k m (base + word_of_nat ?o) (word_of_nat bytes) =
      (Some (avz_fast_load ((!) ?bs) 0 bytes), m1)" "view m1 = view m"
    using assms(1)[unfolded reads_memory_def, THEN conjunct1, rule_format, of "word_of_nat bytes" ?bs m "base + word_of_nat ?o"]
      assms(2) o by (auto simp: w)
  show ?case
    using Cons.IH[of m1 "load_element count bytes transfer e vs"] Cons.prems m1
    by (simp add: e load_element_def)
qed simp

text \<open>
  C25: Loading structures through the buffer and loading them element by element leave the same
  processor, whenever the buffer could be filled: the bulk attempt of
  \<open>AVZ_NATIVE_OP_SIMD_LOAD_STORE_MULTIPLE_STRUCTURE\<close> is only faster. No element load of the
  range faults then.
\<close>
theorem structure_load_bulk_equals_elements:
  assumes "reads_memory k view byte" "k_uses_fast_memory_context k" "has_flag i 1"
    and "\<not> transfer_invalid count lanes bytes" "element_bits i = 8 * bytes" "lanes * bytes \<le> 16"
    and "f_read_bytes (k_fast k) m base (lanes * count * bytes) = (Some transfer, m1)"
  shows "\<exists>cpu' m2. structure_bulk_access k i count lanes bytes base cpu m = (Some (Some cpu'), m1) \<and>
    structure_element_access k i count lanes base cpu m = (True, cpu', m2) \<and> view m2 = view m1"
proof -
  have b: "bytes \<in> {1, 2, 4, 8}" using assms(4) by (auto simp: transfer_invalid_def)
  have t: "view m1 = view m" "length transfer = lanes * count * bytes"
      "\<forall>j < length transfer. byte (view m) (base + word_of_nat j) = Some (transfer ! j)"
    using assms(1,7) unfolding reads_memory_def by metis+
  let ?elements = "structure_elements lanes count"
  let ?vs = "fold (load_element count bytes transfer) ?elements (replicate 4 zero_vector)"
  have "\<forall>(lane, s) \<in> set ?elements. lane < lanes \<and> s < count" by (auto simp: structure_elements_def)
  from element_loads_transfer[OF assms(1) b t(2,3) this, of "replicate 4 zero_vector"]
  obtain m2 where m2: "element_loads k count (8 * bytes) base ?elements (replicate 4 zero_vector) m = (Some ?vs, m2)"
      "view m2 = view m" by blast
  have element: "fold (\<lambda>b vs. vs[s := set_vector_byte (lane * bytes + b) (transfer ! ((lane * count + s) * bytes + b)) (vs ! s)])
      [0 ..< bytes] vs = load_element count bytes transfer (lane, s) vs" if "lane < lanes" "s < count" for lane s vs
  proof -
    let ?o = "(lane * count + s) * bytes"
    have "lane * count + s < lanes * count" using that by (rule mixed_less)
    then have o: "?o + bytes \<le> length transfer"
      using t(2) mult_le_mono1[of "Suc (lane * count + s)" "lanes * count" bytes] by simp
    have "fold (\<lambda>b. set_vector_byte (lane * bytes + b) (transfer ! (?o + b))) [0 ..< bytes] v =
        fold (\<lambda>b. set_vector_byte (lane * bytes + b) (take bytes (drop ?o transfer) ! b)) [0 ..< bytes] v" for v
      by (intro fold_cong) (use o in auto)
    moreover have "(lane + 1) * bytes \<le> 16"
      using that(1) assms(6) mult_le_mono1[of "lane + 1" lanes bytes] by simp
    ultimately show ?thesis
      by (simp add: fold_list_update[of s "\<lambda>b. set_vector_byte (lane * bytes + b) (transfer ! (?o + b))"]
        load_element_def element_as_bytes[OF b])
  qed
  have "unpack_interleaved_vectors transfer count lanes bytes (replicate 4 zero_vector) = Some ?vs"
  proof -
    have "fold (\<lambda>lane. fold (\<lambda>s. fold (\<lambda>b vs. vs[s := set_vector_byte (lane * bytes + b)
          (transfer ! ((lane * count + s) * bytes + b)) (vs ! s)]) [0 ..< bytes]) [0 ..< count]) [0 ..< lanes] vs =
        fold (\<lambda>lane. fold (\<lambda>s. load_element count bytes transfer (lane, s)) [0 ..< count]) [0 ..< lanes] vs" for vs
      by (intro fold_cong refl ext) (simp_all add: element)
    also have "\<dots> vs = fold (load_element count bytes transfer) ?elements vs" for vs
      by (simp add: fold_concat structure_elements_def product_concat_map)
    finally show ?thesis using assms(4) by (simp add: unpack_interleaved_vectors_def)
  qed
  then show ?thesis
    using m2 t(1) assms(2,3,5,7) by (simp add: structure_bulk_access_def structure_element_access_def)
qed

text \<open>
  Witnesses: two half registers of 16-bit elements, and a memory in which every byte is its
  address modulo 256.
\<close>

theorem interleaved_transfer_round_trip_witness:
  "\<exists>transfer ws. pack_interleaved_vectors [\<lparr>v_low = 1, v_high = 7\<rparr>, \<lparr>v_low = 2, v_high = 7\<rparr>] 2 4 2 = Some transfer \<and>
     unpack_interleaved_vectors transfer 2 4 2 (replicate 4 zero_vector) = Some ws \<and>
     take 2 ws = [\<lparr>v_low = 1, v_high = 0\<rparr>, \<lparr>v_low = 2, v_high = 0\<rparr>]"
proof -
  obtain transfer where "pack_interleaved_vectors [\<lparr>v_low = 1, v_high = 7\<rparr>, \<lparr>v_low = 2, v_high = 7\<rparr>] 2 4 2 = Some transfer"
    by (simp add: pack_interleaved_vectors_def transfer_invalid_def)
  with interleaved_transfer_round_trip[OF this, of False] show ?thesis by (auto simp: upt_rec)
qed

definition address_memory :: "unit callbacks" where
  "address_memory = no_callbacks\<lparr>k_uses_fast_memory_context := True,
     k_fast := no_fast_memory\<lparr>
       f_read := \<lambda>m a w. (Some (avz_fast_load (\<lambda>j. ucast (a + word_of_nat j)) 0 (unat w)), m),
       f_read_bytes := \<lambda>m a n. (Some (map (\<lambda>j. ucast (a + word_of_nat j)) [0 ..< n]), m)\<rparr>\<rparr>"

lemma address_memory_reads: "reads_memory address_memory (\<lambda>m. m) (\<lambda>_ a. Some (ucast a))"
proof -
  have "avz_fast_load f 0 n = avz_fast_load g 0 n" if "\<forall>j < n. f j = g j" for f g n
    using that unfolding avz_fast_load_def by (intro fold_cong) auto
  then show ?thesis
    by (auto simp: reads_memory_def address_memory_def no_callbacks_def no_fast_memory_def avz_native_dispatch_memory_read_def)
qed

theorem structure_load_bulk_equals_elements_witness:
  "let i = (vector_instr 0 16 33 2)\<lparr>i_width := 8\<rparr>; cpu = vectors_1_2 zero_vector zero_vector
   in \<exists>cpu' m2. structure_bulk_access address_memory i 2 4 2 0x100 cpu () = (Some (Some cpu'), ()) \<and>
        structure_element_access address_memory i 2 4 0x100 cpu () = (True, cpu', m2)"
proof -
  let ?i = "(vector_instr 0 16 33 2)\<lparr>i_width := 8\<rparr>" and ?cpu = "vectors_1_2 zero_vector zero_vector"
  obtain transfer where "f_read_bytes (k_fast address_memory) () 0x100 (4 * 2 * 2) = (Some transfer, ())"
    by (simp add: address_memory_def)
  from structure_load_bulk_equals_elements[OF address_memory_reads _ _ _ _ _ this, of ?i ?cpu]
  show ?thesis by (auto simp: vector_instr_def transfer_invalid_def address_memory_def Let_def)
qed

end
