(* ===== verification/LinkedLists.thy ===== *)
theory LinkedLists
  imports Main
begin

text \<open>
  The doubly linked lists the caches thread through their arrays: every element of an array
  carries the index of its predecessor and of its successor, and a null index is \<open>None\<close>.
  The predicate \<open>linked\<close> says that two link fields spell a list of indices; the lemmas
  give the effect of the two list operations of the code, taking an element out and putting
  one in at either end.
\<close>

subsection \<open>Lists and their ends\<close>

definition first_of :: "'a list \<Rightarrow> 'a option \<Rightarrow> 'a option" where
  "first_of xs after = (case xs of [] \<Rightarrow> after | x # _ \<Rightarrow> Some x)"

definition final_of :: "'a option \<Rightarrow> 'a list \<Rightarrow> 'a option" where
  "final_of before xs = (if xs = [] then before else Some (List.last xs))"

lemma first_of_simps [simp]:
  "first_of [] q = q" "first_of (x # xs) q = Some x" "first_of (xs @ ys) q = first_of xs (first_of ys q)"
  by (simp_all add: first_of_def split: list.splits)

lemma final_of_simps [simp]:
  "final_of p [] = p" "final_of p (x # xs) = final_of (Some x) xs"
  "final_of p (xs @ ys) = final_of (final_of p xs) ys"
  by (auto simp: final_of_def)

lemma final_of_nonempty: "xs \<noteq> [] \<Longrightarrow> final_of p xs = Some (List.last xs)"
  by (simp add: final_of_def)

lemma first_of_None: "first_of xs None = None \<longleftrightarrow> xs = []"
  by (cases xs) auto

lemma final_of_None: "final_of None xs = None \<longleftrightarrow> xs = []"
  by (auto simp: final_of_def)

lemma first_of_SomeD: "first_of xs None = Some x \<Longrightarrow> \<exists>ys. xs = x # ys"
  by (cases xs) auto

lemma final_of_SomeD: "final_of None xs = Some x \<Longrightarrow> \<exists>ys. xs = ys @ [x]"
  by (cases xs rule: rev_cases) auto

lemma first_of_in: "first_of xs q = Some x \<Longrightarrow> x \<in> set xs \<or> q = Some x"
  by (cases xs) auto

lemma final_of_in: "final_of p xs = Some x \<Longrightarrow> x \<in> set xs \<or> p = Some x"
  by (auto simp: final_of_def split: if_splits)

subsection \<open>Linked segments\<close>

text \<open>
  \<open>linked nxt prv p xs q\<close>: the elements \<open>xs\<close> follow each other, the first one behind
  \<open>p\<close> and the last one before \<open>q\<close>.
\<close>

primrec linked ::
  "('a \<Rightarrow> 'a option) \<Rightarrow> ('a \<Rightarrow> 'a option) \<Rightarrow> 'a option \<Rightarrow> 'a list \<Rightarrow> 'a option \<Rightarrow> bool" where
  "linked nxt prv p [] q \<longleftrightarrow> True"
| "linked nxt prv p (x # xs) q \<longleftrightarrow>
     prv x = p \<and> nxt x = first_of xs q \<and> linked nxt prv (Some x) xs q"

lemma linked_append [simp]:
  "linked nxt prv p (xs @ ys) q \<longleftrightarrow>
     linked nxt prv p xs (first_of ys q) \<and> linked nxt prv (final_of p xs) ys q"
  by (induction xs arbitrary: p) auto

lemma linked_cong:
  "(\<And>x. x \<in> set xs \<Longrightarrow> nxt x = nxt' x \<and> prv x = prv' x) \<Longrightarrow>
     linked nxt prv p xs q = linked nxt' prv' p xs q"
  by (induction xs arbitrary: p) auto

lemma linked_other [simp]:
  "x \<notin> set xs \<Longrightarrow> linked (nxt(x := v)) prv p xs q = linked nxt prv p xs q"
  "x \<notin> set xs \<Longrightarrow> linked nxt (prv(x := v)) p xs q = linked nxt prv p xs q"
  by (rule linked_cong; auto)+

text \<open>The links at the two ends of a segment may be redirected.\<close>

lemma linked_redirect_final:
  "linked nxt prv p xs q \<Longrightarrow> distinct xs \<Longrightarrow> xs \<noteq> [] \<Longrightarrow>
     linked (nxt(List.last xs := q')) prv p xs q'"
proof (induction xs rule: rev_induct)
  case (snoc x xs)
  then show ?case by (simp add: fun_upd_def[symmetric])
qed simp

lemma linked_redirect_first:
  "linked nxt prv p xs q \<Longrightarrow> distinct xs \<Longrightarrow> xs \<noteq> [] \<Longrightarrow>
     linked nxt (prv(hd xs := p')) p' xs q"
  by (cases xs) auto

definition relink :: "'a option \<Rightarrow> 'b \<Rightarrow> ('a \<Rightarrow> 'b) \<Rightarrow> 'a \<Rightarrow> 'b" where
  "relink at v f = (case at of None \<Rightarrow> f | Some x \<Rightarrow> f(x := v))"

lemma relink_simps [simp]: "relink None v f = f" "relink (Some x) v f = f(x := v)"
  by (simp_all add: relink_def)

lemma relink_other: "at \<noteq> Some y \<Longrightarrow> relink at v f y = f y"
  by (cases at) auto

lemma linked_unlink:
  assumes l: "linked nxt prv None (as @ x # bs) None" and d: "distinct (as @ x # bs)"
  shows "linked (relink (prv x) (nxt x) nxt) (relink (nxt x) (prv x) prv) None (as @ bs) None"
proof -
  have x: "prv x = final_of None as" "nxt x = first_of bs None" using l by auto
  have as: "linked (relink (prv x) (nxt x) nxt) (relink (nxt x) (prv x) prv) None as (first_of bs None)"
  proof (cases as rule: rev_cases)
    case (snoc as' a)
    with l d x show ?thesis
      by (cases bs) (auto simp: relink_def)
  qed simp
  moreover have "linked (relink (prv x) (nxt x) nxt) (relink (nxt x) (prv x) prv) (final_of None as) bs None"
  proof (cases bs)
    case (Cons b bs')
    with l d x show ?thesis
      by (cases as rule: rev_cases) (auto simp: relink_def)
  qed simp
  ultimately show ?thesis by simp
qed

lemma linked_append_one:
  assumes "linked nxt prv None xs None" "distinct xs" "x \<notin> set xs"
  shows "linked ((relink (final_of None xs) (Some x) nxt)(x := None)) (prv(x := final_of None xs))
           None (xs @ [x]) None"
  using assms by (cases xs rule: rev_cases) auto

lemma linked_push_front:
  assumes "linked nxt prv None xs None" "distinct xs" "x \<notin> set xs"
  shows "linked (nxt(x := first_of xs None)) (relink (first_of xs None) (Some x) (prv(x := None)))
           None (x # xs) None"
  using assms by (cases xs) auto

lemma linked_next_None:
  "linked nxt prv None xs None \<Longrightarrow> x \<in> set xs \<Longrightarrow> distinct xs \<Longrightarrow> nxt x = None \<longleftrightarrow> x = List.last xs"
proof -
  assume l: "linked nxt prv None xs None" and x: "x \<in> set xs" and d: "distinct xs"
  obtain as bs where xs: "xs = as @ x # bs" using x by (meson split_list)
  with l have "nxt x = first_of bs None" by simp
  then show ?thesis using xs d by (cases bs rule: rev_cases) (auto simp: first_of_def split: list.splits)
qed

lemma linked_unique:
  "linked nxt prv p xs None \<Longrightarrow> linked nxt prv p ys None \<Longrightarrow> first_of xs None = first_of ys None \<Longrightarrow> xs = ys"
proof (induction xs arbitrary: p ys)
  case Nil
  then show ?case by (cases ys) auto
next
  case (Cons x xs)
  then show ?case by (cases ys) auto
qed

end
