(* ===== verification/AssemblyRetention.thy ===== *)
theory AssemblyRetention
  imports LinkedLists
begin

text \<open>
  The retention of assembly programs in the block cache: the functions \<open>avz_assembly_*\<close> of
  \<open>ARM64VizBlockCache.c\<close> up to \<open>avz_assembly_make_room\<close>, and the admission of a program in
  \<open>avz_assembly_cache_program\<close>. Every decoded entry carries an \<open>AVZAssemblyRetention\<close>;
  its links put the entries that own a program on one of two queues, probation and protected,
  which together form a segmented least recently used list with a budget in bytes.

  A program (\<open>AGProgram *\<close>) is a value of the type variable \<open>'p\<close>; the null pointer is
  \<open>None\<close>, and so is the null of the one-based queue indices. Sizes are \<open>nat\<close>: the budget
  keeps every sum the code forms far below \<open>SIZE_MAX\<close>. The diagnostic counters
  (\<open>AVZ_AC_COUNT\<close>) are compiled out, as in the default build.

  The abstract view is a pair of lists of programs. Every operation of the code is the obvious
  operation on these lists (\<open>retention_refines_queues\<close>), which also shows that no null index
  is ever dereferenced and that the loops end.
\<close>

subsection \<open>State\<close>

record 'p retention =
  r_program :: "'p option"
  r_bytes :: nat
  r_previous :: "nat option"
  r_next :: "nat option"
  r_queue :: nat
  r_reuse :: nat

definition no_retention :: "'p retention" where
  "no_retention = \<lparr>r_program = None, r_bytes = 0, r_previous = None, r_next = None,
     r_queue = 0, r_reuse = 0\<rparr>"

record 'p assembly_cache =
  a_retention :: "nat \<Rightarrow> 'p retention"
  a_capability :: "nat \<Rightarrow> nat"
  a_heads :: "nat \<Rightarrow> nat option"
  a_tails :: "nat \<Rightarrow> nat option"
  a_bytes :: "nat \<Rightarrow> nat"
  a_count :: nat

abbreviation BYTE_BUDGET :: nat where "BYTE_BUDGET \<equiv> 4 * 1024 * 1024"
abbreviation PROTECTED_BUDGET :: nat where "PROTECTED_BUDGET \<equiv> 3 * 1024 * 1024"
abbreviation MAX_RETIREMENTS :: nat where "MAX_RETIREMENTS \<equiv> 64"

definition empty_assembly_cache :: "'p assembly_cache" where
  "empty_assembly_cache = \<lparr>a_retention = \<lambda>_. no_retention, a_capability = \<lambda>_. 0,
     a_heads = \<lambda>_. None, a_tails = \<lambda>_. None, a_bytes = \<lambda>_. 0, a_count = 0\<rparr>"

subsection \<open>Operations\<close>

definition set_retention :: "nat \<Rightarrow> ('p retention \<Rightarrow> 'p retention) \<Rightarrow> 'p assembly_cache \<Rightarrow> 'p assembly_cache" where
  "set_retention entry f s = s\<lparr>a_retention := (a_retention s)(entry := f (a_retention s entry))\<rparr>"

definition avz_assembly_unlink :: "nat \<Rightarrow> 'p assembly_cache \<Rightarrow> 'p assembly_cache" where
  "avz_assembly_unlink entry s =
     (let r = a_retention s entry;
          queue = r_queue r - 1;
          s = (case r_previous r of
                 Some previous \<Rightarrow> set_retention previous (r_next_update (\<lambda>_. r_next r)) s
               | None \<Rightarrow> s\<lparr>a_heads := (a_heads s)(queue := r_next r)\<rparr>);
          s = (case r_next r of
                 Some following \<Rightarrow> set_retention following (r_previous_update (\<lambda>_. r_previous r)) s
               | None \<Rightarrow> s\<lparr>a_tails := (a_tails s)(queue := r_previous r)\<rparr>);
          s = s\<lparr>a_bytes := (a_bytes s)(queue := a_bytes s queue - r_bytes r)\<rparr>
      in set_retention entry (\<lambda>r. r\<lparr>r_queue := 0, r_previous := None, r_next := None\<rparr>) s)"

definition avz_assembly_append :: "nat \<Rightarrow> nat \<Rightarrow> 'p assembly_cache \<Rightarrow> 'p assembly_cache" where
  "avz_assembly_append entry queue s =
     (let tail = a_tails s queue;
          s = set_retention entry
                (\<lambda>r. r\<lparr>r_previous := tail, r_next := None, r_queue := queue + 1\<rparr>) s;
          s = (case tail of
                 Some t \<Rightarrow> set_retention t (r_next_update (\<lambda>_. Some entry)) s
               | None \<Rightarrow> s\<lparr>a_heads := (a_heads s)(queue := Some entry)\<rparr>);
          s = s\<lparr>a_tails := (a_tails s)(queue := Some entry)\<rparr>
      in s\<lparr>a_bytes := (a_bytes s)(queue := a_bytes s queue + r_bytes (a_retention s entry))\<rparr>)"

definition avz_assembly_release :: "nat \<Rightarrow> 'p assembly_cache \<Rightarrow> 'p assembly_cache" where
  "avz_assembly_release entry s =
     (if r_program (a_retention s entry) = None then s
      else let s = avz_assembly_unlink entry s;
               s = s\<lparr>a_count := a_count s - 1\<rparr>
           in set_retention entry (\<lambda>_. no_retention) s)"

definition avz_assembly_forget_entry :: "nat \<Rightarrow> 'p assembly_cache \<Rightarrow> 'p assembly_cache" where
  "avz_assembly_forget_entry entry s =
     (let s = (if r_program (a_retention s entry) \<noteq> None then avz_assembly_release entry s else s)
      in s\<lparr>a_capability := (a_capability s)(entry := 0)\<rparr>)"

text \<open>One \<open>while\<close> loop of \<open>avz_assembly_clear\<close>; \<open>None\<close> is a loop that does not return.\<close>

partial_function (option) release_queue :: "nat \<Rightarrow> 'p assembly_cache \<Rightarrow> 'p assembly_cache option" where
  "release_queue queue s =
     (case a_heads s queue of
        None \<Rightarrow> Some s
      | Some entry \<Rightarrow> release_queue queue (avz_assembly_release entry s))"

declare release_queue.simps [code]

definition avz_assembly_clear :: "'p assembly_cache \<Rightarrow> 'p assembly_cache option" where
  "avz_assembly_clear s = Option.bind (release_queue 0 s) (release_queue 1)"

text \<open>
  The reuse of a program. The head of the protected queue is dereferenced in the demotion;
  \<open>None\<close> stands for the null dereference.
\<close>

definition avz_assembly_record_reuse :: "nat \<Rightarrow> 'p assembly_cache \<Rightarrow> 'p assembly_cache option" where
  "avz_assembly_record_reuse entry s =
     (let r = a_retention s entry in
      if r_queue r = 2 then
        if r_next r = None then Some s
        else Some (avz_assembly_append entry 1 (avz_assembly_unlink entry s))
      else
        let s = (if r_reuse r < 2 then set_retention entry (\<lambda>r. r\<lparr>r_reuse := r_reuse r + 1\<rparr>) s else s);
            r = a_retention s entry
        in if r_reuse r < 2 \<or> r_bytes r > PROTECTED_BUDGET then Some s
        else
          Option.bind
            (if a_bytes s 1 > PROTECTED_BUDGET - r_bytes r then
               case a_heads s 1 of
                 None \<Rightarrow> None
               | Some old \<Rightarrow>
                   let s = avz_assembly_unlink old s;
                       s = set_retention old (\<lambda>r. r\<lparr>r_reuse := 0\<rparr>) s
                   in Some (avz_assembly_append old 0 s)
             else Some s)
            (\<lambda>s. if a_bytes s 1 > PROTECTED_BUDGET - r_bytes r then Some s
                  else Some (avz_assembly_append entry 1 (avz_assembly_unlink entry s))))"

text \<open>The eviction loop, with the number of retirements still allowed.\<close>

primrec make_room_loop :: "nat \<Rightarrow> nat \<Rightarrow> 'p assembly_cache \<Rightarrow> 'p assembly_cache option" where
  "make_room_loop 0 bytes s = Some s"
| "make_room_loop (Suc n) bytes s =
     (if a_bytes s 0 + a_bytes s 1 > BYTE_BUDGET - bytes then
        case (if a_heads s 0 \<noteq> None then a_heads s 0 else a_heads s 1) of
          None \<Rightarrow> None
        | Some victim \<Rightarrow> make_room_loop n bytes (avz_assembly_release victim s)
      else Some s)"

definition avz_assembly_make_room :: "nat \<Rightarrow> 'p assembly_cache \<Rightarrow> (bool \<times> 'p assembly_cache) option" where
  "avz_assembly_make_room bytes s =
     (if bytes > BYTE_BUDGET then Some (False, s)
      else map_option (\<lambda>s. (a_bytes s 0 + a_bytes s 1 \<le> BYTE_BUDGET - bytes, s))
             (make_room_loop MAX_RETIREMENTS bytes s))"

text \<open>The admission of a freshly prepared program at the end of \<open>avz_assembly_cache_program\<close>.\<close>

definition admit_program :: "nat \<Rightarrow> 'p \<Rightarrow> nat \<Rightarrow> 'p assembly_cache \<Rightarrow> ('p option \<times> 'p assembly_cache) option" where
  "admit_program entry program bytes s =
     map_option (\<lambda>(room, s).
       if \<not> room then (None, s)
       else let s = set_retention entry (\<lambda>r. r\<lparr>r_program := Some program, r_bytes := bytes\<rparr>) s;
                s = avz_assembly_append entry 0 s
            in (Some program, s\<lparr>a_count := a_count s + 1\<rparr>))
       (avz_assembly_make_room bytes s)"

subsection \<open>The two queues\<close>

record 'p item =
  i_entry :: nat
  i_program :: 'p
  i_bytes :: nat
  i_reuse :: nat

type_synonym 'p queues = "nat \<Rightarrow> 'p item list"

definition bytes_of :: "'p item list \<Rightarrow> nat" where
  "bytes_of xs = sum_list (map i_bytes xs)"

definition drop_entry :: "nat \<Rightarrow> 'p item list \<Rightarrow> 'p item list" where
  "drop_entry entry = filter (\<lambda>i. i_entry i \<noteq> entry)"

definition spec_release :: "nat \<Rightarrow> 'p queues \<Rightarrow> 'p queues" where
  "spec_release entry qs = (\<lambda>q. drop_entry entry (qs q))"

primrec spec_evict :: "nat \<Rightarrow> nat \<Rightarrow> 'p queues \<Rightarrow> 'p queues" where
  "spec_evict 0 bytes qs = qs"
| "spec_evict (Suc n) bytes qs =
     (if bytes_of (qs 0) + bytes_of (qs 1) + bytes \<le> BYTE_BUDGET then qs
      else spec_evict n bytes
             (if qs 0 \<noteq> [] then qs(0 := tl (qs 0)) else qs(1 := tl (qs 1))))"

definition spec_admit :: "nat \<Rightarrow> 'p \<Rightarrow> nat \<Rightarrow> 'p queues \<Rightarrow> 'p queues" where
  "spec_admit entry program bytes qs =
     (if bytes > BYTE_BUDGET then qs
      else let qs = spec_evict MAX_RETIREMENTS bytes qs
           in if bytes_of (qs 0) + bytes_of (qs 1) + bytes \<le> BYTE_BUDGET
              then qs(0 := qs 0 @ [\<lparr>i_entry = entry, i_program = program, i_bytes = bytes, i_reuse = 0\<rparr>])
              else qs)"

definition reused :: "nat \<Rightarrow> 'p item \<Rightarrow> 'p item" where
  "reused entry i = (if i_entry i = entry \<and> i_reuse i < 2 then i\<lparr>i_reuse := i_reuse i + 1\<rparr> else i)"

definition item_of :: "nat \<Rightarrow> 'p item list \<Rightarrow> 'p item" where
  "item_of entry xs = hd (filter (\<lambda>i. i_entry i = entry) xs)"

definition spec_reuse :: "nat \<Rightarrow> 'p queues \<Rightarrow> 'p queues" where
  "spec_reuse entry qs =
     (if entry \<in> i_entry ` set (qs 1) then
        qs(1 := drop_entry entry (qs 1) @ [item_of entry (qs 1)])
      else if entry \<notin> i_entry ` set (qs 0) then qs
      else
        let qs = qs(0 := map (reused entry) (qs 0));
            i = item_of entry (qs 0)
        in if i_reuse i < 2 \<or> i_bytes i > PROTECTED_BUDGET then qs
           else
             let qs = (if bytes_of (qs 1) + i_bytes i > PROTECTED_BUDGET
                       then qs(0 := qs 0 @ [(hd (qs 1))\<lparr>i_reuse := 0\<rparr>], 1 := tl (qs 1)) else qs)
             in if bytes_of (qs 1) + i_bytes i > PROTECTED_BUDGET then qs
                else qs(0 := drop_entry entry (qs 0), 1 := qs 1 @ [i]))"

subsection \<open>Representation\<close>

definition nxt :: "'p assembly_cache \<Rightarrow> nat \<Rightarrow> nat option" where
  "nxt s entry = r_next (a_retention s entry)"

definition prv :: "'p assembly_cache \<Rightarrow> nat \<Rightarrow> nat option" where
  "prv s entry = r_previous (a_retention s entry)"

definition holds :: "'p assembly_cache \<Rightarrow> nat \<Rightarrow> 'p item \<Rightarrow> bool" where
  "holds s queue i \<longleftrightarrow>
     (let r = a_retention s (i_entry i)
      in r_program r = Some (i_program i) \<and> r_bytes r = i_bytes i \<and> r_reuse r = i_reuse i \<and>
         r_queue r = queue)"

definition queue_ok :: "'p assembly_cache \<Rightarrow> nat \<Rightarrow> 'p item list \<Rightarrow> bool" where
  "queue_ok s q xs \<longleftrightarrow>
     linked (nxt s) (prv s) None (map i_entry xs) None \<and>
     a_heads s q = first_of (map i_entry xs) None \<and>
     a_tails s q = final_of None (map i_entry xs) \<and>
     a_bytes s q = bytes_of xs \<and>
     (\<forall>i \<in> set xs. holds s (q + 1) i)"

definition members :: "'p queues \<Rightarrow> nat list" where
  "members qs = map i_entry (qs 0 @ qs 1)"

text \<open>
  \<open>represents s qs\<close> when every owner of a program is on a queue, \<open>floats s qs i\<close> when
  the owner described by \<open>i\<close> has been taken off its queue.
\<close>

definition represents :: "'p assembly_cache \<Rightarrow> 'p queues \<Rightarrow> bool" where
  "represents s qs \<longleftrightarrow>
     queue_ok s 0 (qs 0) \<and> queue_ok s 1 (qs 1) \<and> distinct (members qs) \<and>
     a_count s = length (members qs) \<and>
     (\<forall>e. e \<notin> set (members qs) \<longrightarrow> a_retention s e = no_retention)"

definition floats :: "nat \<Rightarrow> 'p item \<Rightarrow> 'p assembly_cache \<Rightarrow> 'p queues \<Rightarrow> bool" where
  "floats count i s qs \<longleftrightarrow>
     queue_ok s 0 (qs 0) \<and> queue_ok s 1 (qs 1) \<and> distinct (members qs) \<and>
     a_count s = count \<and> i_entry i \<notin> set (members qs) \<and>
     a_retention s (i_entry i) = \<lparr>r_program = Some (i_program i), r_bytes = i_bytes i,
       r_previous = None, r_next = None, r_queue = 0, r_reuse = i_reuse i\<rparr> \<and>
     (\<forall>e. e \<notin> set (members qs) \<longrightarrow> e \<noteq> i_entry i \<longrightarrow> a_retention s e = no_retention)"

subsection \<open>Taking an owner off a queue and putting it on one\<close>

lemma set_retention_simps [simp]:
  "a_retention (set_retention e f s) = (a_retention s)(e := f (a_retention s e))"
  "a_heads (set_retention e f s) = a_heads s" "a_tails (set_retention e f s) = a_tails s"
  "a_bytes (set_retention e f s) = a_bytes s" "a_count (set_retention e f s) = a_count s"
  "a_capability (set_retention e f s) = a_capability s"
  by (simp_all add: set_retention_def)

lemma bytes_of_simps [simp]:
  "bytes_of [] = 0" "bytes_of (i # xs) = i_bytes i + bytes_of xs" "bytes_of (xs @ ys) = bytes_of xs + bytes_of ys"
  by (simp_all add: bytes_of_def)

lemma queue_ok_other:
  assumes "\<And>i. i \<in> set xs \<Longrightarrow> a_retention s' (i_entry i) = a_retention s (i_entry i)"
    "a_heads s' q = a_heads s q" "a_tails s' q = a_tails s q" "a_bytes s' q = a_bytes s q"
  shows "queue_ok s' q xs = queue_ok s q xs"
proof -
  have "linked (nxt s') (prv s') None (map i_entry xs) None = linked (nxt s) (prv s) None (map i_entry xs) None"
    by (rule linked_cong) (use assms in \<open>auto simp: nxt_def prv_def\<close>)
  moreover have "(\<forall>i \<in> set xs. holds s' (q + 1) i) = (\<forall>i \<in> set xs. holds s (q + 1) i)"
    using assms by (auto simp: holds_def)
  ultimately show ?thesis using assms by (simp add: queue_ok_def)
qed

lemma relink_fields:
  "nxt (case at of Some p \<Rightarrow> set_retention p (r_next_update (\<lambda>_. v)) s | None \<Rightarrow> s\<lparr>a_heads := h\<rparr>) = relink at v (nxt s)"
  "prv (case at of Some p \<Rightarrow> set_retention p (r_next_update (\<lambda>_. v)) s | None \<Rightarrow> s\<lparr>a_heads := h\<rparr>) = prv s"
  "nxt (case at of Some p \<Rightarrow> set_retention p (r_previous_update (\<lambda>_. v)) s | None \<Rightarrow> s\<lparr>a_tails := h\<rparr>) = nxt s"
  "prv (case at of Some p \<Rightarrow> set_retention p (r_previous_update (\<lambda>_. v)) s | None \<Rightarrow> s\<lparr>a_tails := h\<rparr>) = relink at v (prv s)"
  by (auto simp: nxt_def prv_def relink_def split: option.splits)

lemma unlink_fields:
  fixes s :: "'p assembly_cache" and e :: nat
  defines "s' \<equiv> avz_assembly_unlink e s"
  defines "r \<equiv> a_retention s e"
  assumes "r_previous r \<noteq> Some e" "r_next r \<noteq> Some e"
  shows "nxt s' = (relink (r_previous r) (r_next r) (nxt s))(e := None)"
    "prv s' = (relink (r_next r) (r_previous r) (prv s))(e := None)"
    "a_heads s' = (if r_previous r = None then (a_heads s)(r_queue r - 1 := r_next r) else a_heads s)"
    "a_tails s' = (if r_next r = None then (a_tails s)(r_queue r - 1 := r_previous r) else a_tails s)"
    "a_bytes s' = (a_bytes s)(r_queue r - 1 := a_bytes s (r_queue r - 1) - r_bytes r)"
    "a_count s' = a_count s"
    "a_retention s' e = r\<lparr>r_queue := 0, r_previous := None, r_next := None\<rparr>"
    "\<And>x. x \<noteq> e \<Longrightarrow> r_program (a_retention s' x) = r_program (a_retention s x)
       \<and> r_bytes (a_retention s' x) = r_bytes (a_retention s x)
       \<and> r_queue (a_retention s' x) = r_queue (a_retention s x)
       \<and> r_reuse (a_retention s' x) = r_reuse (a_retention s x)"
    "\<And>x. x \<noteq> e \<Longrightarrow> r_previous r \<noteq> Some x \<Longrightarrow> r_next r \<noteq> Some x \<Longrightarrow> a_retention s' x = a_retention s x"
    "a_capability s' = a_capability s"
  using assms by (auto simp: avz_assembly_unlink_def Let_def nxt_def prv_def relink_def fun_eq_iff
      split: option.splits)

lemma unlink_floats:
  assumes R: "represents s qs" and q: "q < 2" and xs: "qs q = as @ i # bs"
  shows "floats (a_count s) i (avz_assembly_unlink (i_entry i) s) (qs(q := as @ bs))"
proof -
  let ?e = "i_entry i" and ?s = "avz_assembly_unlink (i_entry i) s"
  let ?r = "a_retention s ?e"
  have ok: "queue_ok s 0 (qs 0)" "queue_ok s 1 (qs 1)" and d: "distinct (members qs)"
    and c: "a_count s = length (members qs)" and rest: "\<And>e. e \<notin> set (members qs) \<Longrightarrow> a_retention s e = no_retention"
    using R by (auto simp: represents_def)
  have okq: "queue_ok s q (qs q)" using ok q by (cases q) (auto simp: less_Suc_eq)
  then have l: "linked (nxt s) (prv s) None (map i_entry as @ ?e # map i_entry bs) None"
    and h: "holds s (q + 1) i" by (auto simp: queue_ok_def xs)
  have dq: "distinct (map i_entry (qs q))" using d q by (cases q) (auto simp: members_def less_Suc_eq)
  then have dl: "distinct (map i_entry as @ ?e # map i_entry bs)" by (simp add: xs)
  have p: "r_previous ?r = final_of None (map i_entry as)" and n: "r_next ?r = first_of (map i_entry bs) None"
    using l by (auto simp: nxt_def prv_def)
  have ne: "r_previous ?r \<noteq> Some ?e" "r_next ?r \<noteq> Some ?e"
    using dl p n final_of_in[of None "map i_entry as" ?e] first_of_in[of "map i_entry bs" None ?e] by auto
  have rq: "r_queue ?r = q + 1" "r_bytes ?r = i_bytes i" "r_program ?r = Some (i_program i)" "r_reuse ?r = i_reuse i"
    using h by (auto simp: holds_def Let_def)
  note f = unlink_fields[OF ne]
  have pq: "r_previous ?r = Some x \<Longrightarrow> x \<in> i_entry ` set as" for x
    using p final_of_in[of None "map i_entry as" x] by auto
  have nq: "r_next ?r = Some x \<Longrightarrow> x \<in> i_entry ` set bs" for x
    using n first_of_in[of "map i_entry bs" None x] by auto
  have new: "queue_ok ?s q (as @ bs)"
  proof -
    have "linked (nxt ?s) (prv ?s) None (map i_entry as @ map i_entry bs) None"
    proof -
      have "linked (relink (prv s ?e) (nxt s ?e) (nxt s)) (relink (nxt s ?e) (prv s ?e) (prv s)) None
              (map i_entry as @ map i_entry bs) None"
        by (rule linked_unlink[OF l dl])
      moreover have e: "?e \<notin> set (map i_entry as @ map i_entry bs)" using dl by auto
      ultimately show ?thesis
        unfolding f(1,2) linked_other(1)[OF e] linked_other(2)[OF e] by (simp only: nxt_def prv_def)
    qed
    moreover have "a_heads ?s q = first_of (map i_entry (as @ bs)) None"
      using okq p n by (auto simp: f(3) rq queue_ok_def xs final_of_None)
        (cases as; auto)
    moreover have "a_tails ?s q = final_of None (map i_entry (as @ bs))"
      using okq p n by (auto simp: f(4) rq queue_ok_def xs first_of_None)
        (cases bs rule: rev_cases; auto)
    moreover have "a_bytes ?s q = bytes_of (as @ bs)"
      using okq by (simp add: f(5) rq queue_ok_def xs)
    moreover have "holds ?s (q + 1) j" if "j \<in> set (as @ bs)" for j
    proof -
      have "i_entry j \<in> i_entry ` set (as @ bs)" using that by (rule imageI)
      then have "i_entry j \<noteq> ?e" using dl by auto
      moreover have "holds s (q + 1) j" using okq that by (auto simp: queue_ok_def xs)
      ultimately show ?thesis using f(8)[of "i_entry j"] by (auto simp: holds_def Let_def)
    qed
    ultimately show ?thesis by (simp add: queue_ok_def)
  qed
  have other: "queue_ok ?s (1 - q) (qs (1 - q))"
  proof -
    have ne1: "Suc 0 - q \<noteq> q" using q by presburger
    have "queue_ok ?s (1 - q) (qs (1 - q)) = queue_ok s (1 - q) (qs (1 - q))"
    proof (rule queue_ok_other)
      fix j assume j: "j \<in> set (qs (1 - q))"
      have "i_entry j \<in> i_entry ` set (qs (1 - q))" using j by (rule imageI)
      then have "i_entry j \<notin> set (map i_entry (qs q))"
        using d q by (cases q) (auto simp: members_def less_Suc_eq)
      then show "a_retention ?s (i_entry j) = a_retention s (i_entry j)"
        using pq nq by (intro f(9)) (auto simp: xs)
    qed (use ne1 in \<open>auto simp: f rq\<close>)
    then show ?thesis using ok q by (cases q) (auto simp: less_Suc_eq)
  qed
  have m: "set (members (qs(q := as @ bs))) = set (members qs) - {?e}" "distinct (members (qs(q := as @ bs)))"
    "length (members qs) = Suc (length (members (qs(q := as @ bs))))"
    using d q xs by (cases q; auto simp: members_def less_Suc_eq)+
  have "a_retention ?s e = no_retention" if "e \<notin> set (members (qs(q := as @ bs)))" "e \<noteq> ?e" for e
  proof -
    have "e \<notin> set (members qs)" using that m by auto
    moreover have "set (map i_entry (qs q)) \<subseteq> set (members qs)" using q by (cases q) (auto simp: members_def less_Suc_eq)
    moreover from this have "i_entry ` set as \<subseteq> set (members qs)" "i_entry ` set bs \<subseteq> set (members qs)"
      by (auto simp: xs)
    ultimately have "r_previous ?r \<noteq> Some e" "r_next ?r \<noteq> Some e" using pq[of e] nq[of e] by blast+
    with that \<open>e \<notin> set (members qs)\<close> show ?thesis by (simp add: f(9) rest)
  qed
  then show ?thesis
    using new other m q f(7) rq by (cases q) (auto simp: floats_def f(6) less_Suc_eq)
qed

lemma append_fields:
  assumes "a_tails s q \<noteq> Some e"
  shows "nxt (avz_assembly_append e q s) = relink (a_tails s q) (Some e) ((nxt s)(e := None))"
    "prv (avz_assembly_append e q s) = (prv s)(e := a_tails s q)"
    "a_heads (avz_assembly_append e q s) = (if a_tails s q = None then (a_heads s)(q := Some e) else a_heads s)"
    "a_tails (avz_assembly_append e q s) = (a_tails s)(q := Some e)"
    "a_bytes (avz_assembly_append e q s) = (a_bytes s)(q := a_bytes s q + r_bytes (a_retention s e))"
    "a_count (avz_assembly_append e q s) = a_count s"
    "a_retention (avz_assembly_append e q s) e =
       (a_retention s e)\<lparr>r_previous := a_tails s q, r_next := None, r_queue := q + 1\<rparr>"
    "\<And>x. x \<noteq> e \<Longrightarrow> a_tails s q \<noteq> Some x \<Longrightarrow> a_retention (avz_assembly_append e q s) x = a_retention s x"
    "\<And>x. x \<noteq> e \<Longrightarrow> holds (avz_assembly_append e q s) k i = holds s k i \<or> i_entry i \<noteq> x"
    "a_capability (avz_assembly_append e q s) = a_capability s"
  using assms by (auto simp: avz_assembly_append_def Let_def nxt_def prv_def relink_def fun_eq_iff holds_def
      split: option.splits)

lemma append_represents:
  assumes F: "floats count i s qs" and q: "q < 2"
    and s': "s' = (avz_assembly_append (i_entry i) q s)\<lparr>a_count := count'\<rparr>"
    and c: "count' = Suc (length (members qs))"
  shows "represents s' (qs(q := qs q @ [i]))"
proof -
  let ?e = "i_entry i" and ?s = "avz_assembly_append (i_entry i) q s"
  have ok: "queue_ok s 0 (qs 0)" "queue_ok s 1 (qs 1)" and d: "distinct (members qs)"
    and e: "?e \<notin> set (members qs)"
    and r: "a_retention s ?e = \<lparr>r_program = Some (i_program i), r_bytes = i_bytes i,
       r_previous = None, r_next = None, r_queue = 0, r_reuse = i_reuse i\<rparr>"
    and rest: "\<And>e. e \<notin> set (members qs) \<Longrightarrow> e \<noteq> ?e \<Longrightarrow> a_retention s e = no_retention"
    using F by (auto simp: floats_def)
  have okq: "queue_ok s q (qs q)" using ok q by (cases q) (auto simp: less_Suc_eq)
  have dq: "distinct (map i_entry (qs q))" and eq: "?e \<notin> set (map i_entry (qs q))"
    using d e q by (cases q; auto simp: members_def less_Suc_eq)+
  have t: "a_tails s q = final_of None (map i_entry (qs q))" using okq by (simp add: queue_ok_def)
  have tq: "a_tails s q = Some x \<Longrightarrow> x \<in> i_entry ` set (qs q)" for x
    using t final_of_in[of None "map i_entry (qs q)" x] by auto
  then have ne: "a_tails s q \<noteq> Some ?e" using eq by auto
  note f = append_fields[OF ne]
  have new: "queue_ok ?s q (qs q @ [i])"
  proof -
    have "linked (nxt ?s) (prv ?s) None (map i_entry (qs q) @ [?e]) None"
    proof -
      have "relink (a_tails s q) (Some ?e) ((nxt s)(?e := None)) = (relink (a_tails s q) (Some ?e) (nxt s))(?e := None)"
        using ne by (auto simp: relink_def fun_upd_twist split: option.splits)
      then show ?thesis
        unfolding f(1,2) t using linked_append_one[OF _ dq eq] okq by (simp only: queue_ok_def)
    qed
    moreover have "a_heads ?s q = first_of (map i_entry (qs q @ [i])) None"
      using okq t by (auto simp: f(3) queue_ok_def final_of_None) (cases "qs q"; auto)
    moreover have "holds ?s (q + 1) j" if "j \<in> set (qs q @ [i])" for j
    proof (cases "j = i")
      case True then show ?thesis by (simp add: holds_def f(7) r)
    next
      case False
      then have "holds s (q + 1) j" using okq that by (auto simp: queue_ok_def)
      moreover have "i_entry j \<in> i_entry ` set (qs q)" using that False by auto
      then have "i_entry j \<noteq> ?e" using eq by auto
      ultimately show ?thesis using f(9)[of "i_entry j" "q + 1" j] by simp
    qed
    ultimately show ?thesis using okq by (simp add: queue_ok_def f(4,5) r)
  qed
  have other: "queue_ok ?s (1 - q) (qs (1 - q))"
  proof -
    have ne1: "Suc 0 - q \<noteq> q" using q by presburger
    have "queue_ok ?s (1 - q) (qs (1 - q)) = queue_ok s (1 - q) (qs (1 - q))"
    proof (rule queue_ok_other)
      fix j assume j: "j \<in> set (qs (1 - q))"
      have "i_entry j \<in> i_entry ` set (qs (1 - q))" using j by (rule imageI)
      then have "i_entry j \<notin> i_entry ` set (qs q)" "i_entry j \<noteq> ?e"
        using d e q by (cases q; auto simp: members_def less_Suc_eq)+
      then show "a_retention ?s (i_entry j) = a_retention s (i_entry j)"
        using tq by (intro f(8)) auto
    qed (use ne1 in \<open>auto simp: f\<close>)
    then show ?thesis using ok q by (cases q) (auto simp: less_Suc_eq)
  qed
  have m: "set (members (qs(q := qs q @ [i]))) = insert ?e (set (members qs))"
    "distinct (members (qs(q := qs q @ [i])))"
    "length (members (qs(q := qs q @ [i]))) = Suc (length (members qs))"
    using d e q by (cases q; auto simp: members_def less_Suc_eq)+
  have "a_retention ?s e = no_retention" if "e \<notin> set (members (qs(q := qs q @ [i])))" for e
  proof -
    have "i_entry ` set (qs q) \<subseteq> set (members qs)" using q by (cases q) (auto simp: members_def less_Suc_eq)
    then have "a_tails s q \<noteq> Some e" using tq[of e] that m by blast
    then show ?thesis using that m by (simp add: f(8) rest)
  qed
  moreover have "queue_ok s' k xs = queue_ok ?s k xs" for k xs
    by (rule queue_ok_other) (auto simp: s')
  ultimately show ?thesis
    using new other m q c by (cases q) (auto simp: represents_def s' less_Suc_eq)
qed

lemma free_floats:
  assumes F: "floats count i s qs" and s': "s' = set_retention (i_entry i) (\<lambda>_. no_retention) (s\<lparr>a_count := count'\<rparr>)"
    and c: "count' = length (members qs)"
  shows "represents s' qs"
proof -
  have e: "i_entry j \<noteq> i_entry i" if "j \<in> set (qs q)" "q = 0 \<or> q = 1" for j q
    using F that by (auto simp: floats_def members_def) (metis imageI)+
  have "queue_ok s' 0 (qs 0) = queue_ok s 0 (qs 0)" "queue_ok s' 1 (qs 1) = queue_ok s 1 (qs 1)"
    by (rule queue_ok_other; use e in \<open>auto simp: s'\<close>)+
  then show ?thesis using F c by (auto simp: floats_def represents_def s')
qed

subsection \<open>The operations on the represented queues\<close>

lemma queue_ok_agree:
  "a_retention s' = a_retention s \<Longrightarrow> a_heads s' = a_heads s \<Longrightarrow> a_tails s' = a_tails s \<Longrightarrow>
     a_bytes s' = a_bytes s \<Longrightarrow> queue_ok s' q xs = queue_ok s q xs"
  by (rule queue_ok_other) auto

lemma represents_agree:
  "represents s qs \<Longrightarrow> qs' 0 = qs 0 \<Longrightarrow> qs' 1 = qs 1 \<Longrightarrow> represents s qs'"
  by (simp add: represents_def members_def)

lemma represents_facts:
  assumes "represents s qs"
  shows "a_heads s 0 = first_of (map i_entry (qs 0)) None" "a_heads s 1 = first_of (map i_entry (qs 1)) None"
    "a_bytes s 0 = bytes_of (qs 0)" "a_bytes s 1 = bytes_of (qs 1)" "distinct (members qs)"
    "a_count s = length (members qs)"
    "\<And>e. r_program (a_retention s e) = None \<longleftrightarrow> e \<notin> set (members qs)"
    "\<And>e. e \<notin> set (members qs) \<Longrightarrow> a_retention s e = no_retention"
    "\<And>i q. i \<in> set (qs q) \<Longrightarrow> q < 2 \<Longrightarrow> holds s (q + 1) i"
proof -
  have h: "holds s (q + 1) i" if "i \<in> set (qs q)" "q < 2" for i q
    using assms that by (cases q) (auto simp: represents_def queue_ok_def less_Suc_eq)
  then show "\<And>i q. i \<in> set (qs q) \<Longrightarrow> q < 2 \<Longrightarrow> holds s (q + 1) i" .
  show "r_program (a_retention s e) = None \<longleftrightarrow> e \<notin> set (members qs)" for e
  proof
    assume n: "r_program (a_retention s e) = None"
    show "e \<notin> set (members qs)"
    proof
      assume "e \<in> set (members qs)"
      then obtain i q where "i \<in> set (qs q)" "q < 2" "i_entry i = e" by (auto simp: members_def)
      with h[of i q] n show False by (auto simp: holds_def Let_def)
    qed
  next
    assume "e \<notin> set (members qs)"
    with assms have "a_retention s e = no_retention" by (auto simp: represents_def)
    then show "r_program (a_retention s e) = None" by (simp add: no_retention_def)
  qed
qed (use assms in \<open>auto simp: represents_def queue_ok_def\<close>)

lemma member_position:
  assumes "e \<in> set (members qs)"
  obtains q as i bs where "q < 2" "qs q = as @ i # bs" "i_entry i = e"
proof -
  consider (zero) i where "i \<in> set (qs 0)" "i_entry i = e" | (one) i where "i \<in> set (qs 1)" "i_entry i = e"
    using assms by (auto simp: members_def)
  then show ?thesis
  proof cases
    case zero then show ?thesis using that[of 0] by (metis split_list zero_less_numeral)
  next
    case one then show ?thesis using that[of 1] by (metis split_list one_less_numeral_iff semiring_norm(76))
  qed
qed

lemma drop_entry_other: "e \<notin> i_entry ` set xs \<Longrightarrow> drop_entry e xs = xs"
  unfolding drop_entry_def by (rule filter_True) (metis imageI)

lemma drop_entry_at:
  "distinct (map i_entry (as @ i # bs)) \<Longrightarrow> drop_entry (i_entry i) (as @ i # bs) = as @ bs"
  using drop_entry_other[of "i_entry i" as] drop_entry_other[of "i_entry i" bs] by (auto simp: drop_entry_def)

lemma spec_release_at:
  assumes "distinct (members qs)" "q < 2" "qs q = as @ i # bs" "k < 2"
  shows "spec_release (i_entry i) qs k = (qs(q := as @ bs)) k"
proof (cases "k = q")
  case True
  then have "distinct (map i_entry (as @ i # bs))" using assms by (cases q) (auto simp: members_def less_Suc_eq)
  then show ?thesis using True assms drop_entry_at by (metis fun_upd_same spec_release_def)
next
  case False
  have "i_entry i \<in> i_entry ` set (qs q)" using assms by auto
  then have "i_entry i \<notin> i_entry ` set (qs k)"
    using False assms by (cases q; cases k) (auto simp: members_def less_Suc_eq)
  then show ?thesis using False drop_entry_other by (simp add: spec_release_def)
qed

lemma release_represents:
  assumes R: "represents s qs"
  shows "represents (avz_assembly_release e s) (spec_release e qs)"
proof (cases "e \<in> set (members qs)")
  case True
  then obtain q as i bs where q: "q < 2" "qs q = as @ i # bs" "i_entry i = e" by (rule member_position)
  note f = represents_facts[OF R]
  have F: "floats (a_count s) i (avz_assembly_unlink e s) (qs(q := as @ bs))"
    using unlink_floats[OF R q(1,2)] q(3) by simp
  have c: "length (members qs) = Suc (length (members (qs(q := as @ bs))))"
    using q by (cases q) (auto simp: members_def less_Suc_eq)
  have "represents (avz_assembly_release e s) (qs(q := as @ bs))"
  proof (rule free_floats[OF F])
    show "avz_assembly_release e s = set_retention (i_entry i) (\<lambda>_. no_retention)
            (avz_assembly_unlink e s\<lparr>a_count := a_count (avz_assembly_unlink e s) - 1\<rparr>)"
      using f(7)[of e] True q(3) by (auto simp: avz_assembly_release_def Let_def)
    show "a_count (avz_assembly_unlink e s) - 1 = length (members (qs(q := as @ bs)))"
      using F c f(6) by (simp add: floats_def)
  qed
  then show ?thesis
    by (rule represents_agree) (use spec_release_at[OF f(5) q(1,2)] q(3) in auto)
next
  case False
  then have "avz_assembly_release e s = s" using represents_facts(7)[OF R] by (simp add: avz_assembly_release_def)
  moreover have "drop_entry e (qs q) = qs q" if "q < 2" for q
    by (rule drop_entry_other) (use False that in \<open>cases q; auto simp: members_def less_Suc_eq\<close>)
  ultimately show ?thesis using R by (auto intro: represents_agree simp: spec_release_def)
qed

lemma release_head:
  assumes R: "represents s qs" and q: "q < 2" and xs: "qs q = i # xs"
  shows "represents (avz_assembly_release (i_entry i) s) (qs(q := xs))"
  using release_represents[OF R, of "i_entry i"]
  by (rule represents_agree) (use spec_release_at[OF represents_facts(5)[OF R] q, of "[]" i xs] xs in auto)

lemma release_queue_ends:
  assumes "represents s qs" "q < 2"
  shows "\<exists>s'. release_queue q s = Some s' \<and> represents s' (qs(q := []))"
  using assms
proof (induction "qs q" arbitrary: s qs)
  case Nil
  then have "a_heads s q = None" using represents_facts(1,2)[OF Nil(2)] by (cases q) (auto simp: less_Suc_eq)
  moreover have "qs(q := []) = qs" using Nil by auto
  ultimately show ?case using Nil by (subst release_queue.simps) simp
next
  case (Cons i xs)
  have qs: "qs q = i # xs" using Cons(2) by simp
  have "a_heads s q = first_of (map i_entry (qs q)) None"
    using represents_facts(1,2)[OF Cons(3)] Cons(4) by (cases q) (auto simp: less_Suc_eq)
  then have "a_heads s q = Some (i_entry i)" by (simp add: qs)
  moreover have "represents (avz_assembly_release (i_entry i) s) (qs(q := xs))"
    by (rule release_head[OF Cons(3,4) Cons(2)[symmetric]])
  from Cons(1)[OF _ this Cons(4)] have
    "\<exists>s'. release_queue q (avz_assembly_release (i_entry i) s) = Some s' \<and> represents s' (qs(q := []))" by simp
  ultimately show ?case by (subst release_queue.simps) simp
qed

lemma clear_ends:
  assumes "represents s qs"
  shows "\<exists>s'. avz_assembly_clear s = Some s' \<and> represents s' (\<lambda>_. [])"
proof -
  obtain s0 where s0: "release_queue 0 s = Some s0" "represents s0 (qs(0 := []))"
    using release_queue_ends[OF assms, of 0] by auto
  obtain s1 where s1: "release_queue 1 s0 = Some s1" "represents s1 ((qs(0 := []))(1 := []))"
    using release_queue_ends[OF s0(2), of 1] by auto
  have "represents s1 (\<lambda>_. [])" using s1(2) by (rule represents_agree) auto
  then show ?thesis using s0 s1 by (simp add: avz_assembly_clear_def)
qed

lemma make_room_loop_evicts:
  assumes "represents s qs" "bytes \<le> BYTE_BUDGET"
  shows "\<exists>s'. make_room_loop n bytes s = Some s' \<and> represents s' (spec_evict n bytes qs)"
  using assms(1)
proof (induction n arbitrary: s qs)
  case (Suc n)
  note f = represents_facts[OF Suc.prems]
  show ?case
  proof (cases "bytes_of (qs 0) + bytes_of (qs 1) + bytes \<le> BYTE_BUDGET")
    case True
    then have "\<not> a_bytes s 0 + a_bytes s 1 > BYTE_BUDGET - bytes" using f(3,4) True by arith
    then show ?thesis using Suc.prems True by simp
  next
    case False
    then have over: "a_bytes s 0 + a_bytes s 1 > BYTE_BUDGET - bytes" using f(3,4) False assms(2) by arith
    show ?thesis
    proof (cases "qs 0")
      case (Cons i xs)
      have "represents (avz_assembly_release (i_entry i) s) (qs(0 := xs))"
        by (rule release_head[OF Suc.prems _ Cons]) simp
      from Suc.IH[OF this] obtain s' where "make_room_loop n bytes (avz_assembly_release (i_entry i) s) = Some s'"
        "represents s' (spec_evict n bytes (qs(0 := xs)))" by blast
      moreover have "a_heads s 0 = Some (i_entry i)" using f(1) Cons by simp
      ultimately show ?thesis using False over Cons by simp
    next
      case Nil
      show ?thesis
      proof (cases "qs 1")
        case (Cons i xs)
        have "represents (avz_assembly_release (i_entry i) s) (qs(1 := xs))"
          by (rule release_head[OF Suc.prems _ Cons]) simp
        from Suc.IH[OF this] obtain s' where "make_room_loop n bytes (avz_assembly_release (i_entry i) s) = Some s'"
          "represents s' (spec_evict n bytes (qs(1 := xs)))" by blast
        moreover have "a_heads s 0 = None" "a_heads s 1 = Some (i_entry i)" using f(1,2) Nil Cons by simp_all
        ultimately show ?thesis using False over Cons Nil by simp
      next
        case Nil
        with False assms(2) \<open>qs 0 = []\<close> show ?thesis by simp
      qed
    qed
  qed
qed simp

lemma evict_members: "set (members (spec_evict n bytes qs)) \<subseteq> set (members qs)"
proof (induction n arbitrary: qs)
  case (Suc n)
  have "set (members (if qs 0 \<noteq> [] then qs(0 := tl (qs 0)) else qs(1 := tl (qs 1)))) \<subseteq> set (members qs)"
    by (cases "qs 0"; cases "qs 1") (auto simp: members_def)
  from order.trans[OF Suc.IH this] show ?case unfolding spec_evict.simps by (simp only: order.refl split: if_split) simp
qed simp

lemma admit_represents:
  assumes R: "represents s qs" and e: "r_program (a_retention s e) = None"
  shows "\<exists>result s'. admit_program e program bytes s = Some (result, s') \<and> represents s' (spec_admit e program bytes qs)"
proof (cases "bytes \<le> BYTE_BUDGET")
  case True
  let ?qs = "spec_evict MAX_RETIREMENTS bytes qs" and ?i = "\<lparr>i_entry = e, i_program = program, i_bytes = bytes, i_reuse = 0\<rparr>"
  obtain s1 where s1: "make_room_loop MAX_RETIREMENTS bytes s = Some s1" "represents s1 ?qs"
    using make_room_loop_evicts[OF R True] by blast
  note f = represents_facts[OF s1(2)]
  have e1: "e \<notin> set (members ?qs)"
    using evict_members[of MAX_RETIREMENTS bytes qs] represents_facts(7)[OF R, of e] e by blast
  show ?thesis
  proof (cases "bytes_of (?qs 0) + bytes_of (?qs 1) + bytes \<le> BYTE_BUDGET")
    case fits: True
    let ?s2 = "set_retention e (\<lambda>r. r\<lparr>r_program := Some program, r_bytes := bytes\<rparr>) s1"
    let ?s3 = "(avz_assembly_append e 0 ?s2)\<lparr>a_count := a_count (avz_assembly_append e 0 ?s2) + 1\<rparr>"
    have "queue_ok ?s2 q (?qs q) = queue_ok s1 q (?qs q)" if "q < 2" for q
    proof (rule queue_ok_other)
      fix i assume i: "i \<in> set (?qs q)"
      have "i_entry i \<in> i_entry ` set (?qs q)" using i by (rule imageI)
      then have "i_entry i \<noteq> e" using e1 that by (cases q) (auto simp: members_def less_Suc_eq)
      then show "a_retention ?s2 (i_entry i) = a_retention s1 (i_entry i)" by simp
    qed simp_all
    from this[of 0] this[of 1] have F: "floats (length (members ?qs)) ?i ?s2 ?qs"
      using s1(2) e1 f(8)[OF e1] by (simp add: floats_def represents_def no_retention_def)
    have "a_tails ?s2 0 \<noteq> Some e"
    proof
      assume "a_tails ?s2 0 = Some e"
      moreover have "a_tails ?s2 0 = final_of None (map i_entry (?qs 0))" using s1(2) by (simp add: represents_def queue_ok_def)
      ultimately show False using e1 final_of_in[of None "map i_entry (?qs 0)" e] by (auto simp: members_def)
    qed
    then have "represents ?s3 (?qs(0 := ?qs 0 @ [?i]))"
      using f(6) by (intro append_represents[OF F]) (auto simp: append_fields(6))
    moreover have room: "a_bytes s1 0 + a_bytes s1 1 \<le> BYTE_BUDGET - bytes" using f(3,4) fits by arith
    moreover have "admit_program e program bytes s = Some (Some program, ?s3)"
      using True s1(1) room by (simp add: admit_program_def avz_assembly_make_room_def Let_def)
    moreover have "spec_admit e program bytes qs = ?qs(0 := ?qs 0 @ [?i])"
      using True fits by (simp add: spec_admit_def Let_def)
    ultimately show ?thesis by auto
  next
    case False
    then have "\<not> a_bytes s1 0 + a_bytes s1 1 \<le> BYTE_BUDGET - bytes" using f(3,4) True by arith
    then have "admit_program e program bytes s = Some (None, s1)" "spec_admit e program bytes qs = ?qs"
      using True False s1(1) by (simp_all add: admit_program_def avz_assembly_make_room_def spec_admit_def Let_def)
    then show ?thesis using s1(2) by auto
  qed
next
  case False
  then show ?thesis using R by (simp add: admit_program_def avz_assembly_make_room_def spec_admit_def)
qed

lemma queues_disjoint:
  "distinct (members qs) \<Longrightarrow> k < 2 \<Longrightarrow> q < 2 \<Longrightarrow> k \<noteq> q \<Longrightarrow> i_entry ` set (qs k) \<inter> i_entry ` set (qs q) = {}"
proof -
  assume d: "distinct (members qs)" and "k < 2" "q < 2" "k \<noteq> q"
  then consider "k = 0" "q = 1" | "k = 1" "q = 0" by linarith
  then show ?thesis by cases (use d in \<open>auto simp: members_def\<close>)
qed

lemma reuse_field_represents:
  assumes R: "represents s qs" and q: "q < 2" and xs: "qs q = as @ i # bs"
  shows "represents (set_retention (i_entry i) (\<lambda>r. r\<lparr>r_reuse := n\<rparr>) s) (qs(q := as @ i\<lparr>i_reuse := n\<rparr> # bs))"
proof -
  let ?s = "set_retention (i_entry i) (\<lambda>r. r\<lparr>r_reuse := n\<rparr>) s" and ?qs = "qs(q := as @ i\<lparr>i_reuse := n\<rparr> # bs)"
  have links: "nxt ?s = nxt s" "prv ?s = prv s" by (auto simp: nxt_def prv_def fun_eq_iff)
  have same: "map i_entry (?qs k) = map i_entry (qs k)" "bytes_of (?qs k) = bytes_of (qs k)" for k
    by (simp_all add: xs)
  have d: "distinct (members qs)" using R by (simp add: represents_def)
  have h: "holds ?s (k + 1) j" if k: "k < 2" and j: "j \<in> set (?qs k)" for k j
  proof (cases "k = q \<and> j = i\<lparr>i_reuse := n\<rparr>")
    case True
    have "holds s (q + 1) i" using represents_facts(9)[OF R, of i q] q xs by simp
    then show ?thesis using True by (auto simp: holds_def Let_def)
  next
    case False
    then have js: "j \<in> set (qs k)" using j by (cases "k = q") (auto simp: xs)
    have "i_entry j \<noteq> i_entry i"
    proof (cases "k = q")
      case True
      then have "j \<in> set (as @ bs)" using False j by auto
      then have "i_entry j \<in> i_entry ` set (as @ bs)" by (rule imageI)
      moreover have "distinct (map i_entry (qs q))" using d q by (cases q) (auto simp: members_def less_Suc_eq)
      ultimately show ?thesis by (auto simp: xs)
    next
      case False
      have "i_entry j \<in> i_entry ` set (qs k)" "i_entry i \<in> i_entry ` set (qs q)" using js xs by auto
      then show ?thesis using queues_disjoint[OF d k q False] by (metis disjoint_iff)
    qed
    then show ?thesis using represents_facts(9)[OF R js k] by (simp add: holds_def)
  qed
  have "queue_ok ?s k (?qs k)" if "k < 2" for k
  proof -
    have "queue_ok s k (qs k)" using R that by (cases k) (auto simp: represents_def less_Suc_eq)
    then show ?thesis unfolding queue_ok_def same links using h[OF that] by simp
  qed
  note this[of 0] this[of 1]
  moreover have "members ?qs = members qs" by (simp only: members_def map_append same)
  moreover have "i_entry i \<in> set (members qs)" using q xs by (cases q) (auto simp: members_def less_Suc_eq)
  ultimately show ?thesis using R unfolding represents_def by auto
qed

lemma move_represents:
  assumes R: "represents s qs" and p: "p < 2" and q: "q < 2" and xs: "qs p = as @ i # bs"
    and s': "s' = avz_assembly_append (i_entry i) q
               (set_retention (i_entry i) (\<lambda>r. r\<lparr>r_reuse := n\<rparr>) (avz_assembly_unlink (i_entry i) s))"
    and qs': "qs' = qs(p := as @ bs)"
  shows "represents s' (qs'(q := qs' q @ [i\<lparr>i_reuse := n\<rparr>]))"
proof -
  let ?i = "i\<lparr>i_reuse := n\<rparr>" and ?u = "set_retention (i_entry i) (\<lambda>r. r\<lparr>r_reuse := n\<rparr>) (avz_assembly_unlink (i_entry i) s)"
  have F0: "floats (a_count s) i (avz_assembly_unlink (i_entry i) s) qs'"
    unfolding qs' by (rule unlink_floats[OF R p xs])
  have ne: "i_entry j \<noteq> i_entry i" if "j \<in> set (qs' k)" "k < 2" for j k
  proof -
    have "i_entry j \<in> i_entry ` set (qs' k)" using that by simp
    then show ?thesis using F0 that(2) by (cases k) (auto simp: floats_def members_def less_Suc_eq)
  qed
  have "queue_ok ?u k (qs' k) = queue_ok (avz_assembly_unlink (i_entry i) s) k (qs' k)" if "k < 2" for k
    by (rule queue_ok_other) (use ne that in auto)
  from this[of 0] this[of 1] have F: "floats (a_count s) ?i ?u qs'" using F0 by (simp add: floats_def)
  have c: "a_count s = Suc (length (members qs'))"
    using represents_facts(6)[OF R] p xs qs' by (cases p) (auto simp: members_def less_Suc_eq)
  have "a_tails ?u q \<noteq> Some (i_entry i)"
  proof
    assume t: "a_tails ?u q = Some (i_entry i)"
    have "a_tails ?u q = final_of None (map i_entry (qs' q))"
      using F q by (cases q) (auto simp: floats_def queue_ok_def less_Suc_eq)
    then show False using t F0 q final_of_in[of None "map i_entry (qs' q)" "i_entry i"]
      by (cases q) (auto simp: floats_def members_def less_Suc_eq)
  qed
  then have "a_count s' = a_count ?u" unfolding s' by (rule append_fields(6))
  also have "\<dots> = a_count s" using F by (simp add: floats_def)
  finally have cs: "a_count s' = a_count s" .
  show ?thesis
  proof (rule append_represents[OF F q _ c])
    show "s' = avz_assembly_append (i_entry ?i) q ?u\<lparr>a_count := a_count s\<rparr>" using cs s' by simp
  qed
qed

lemma same_reuse:
  "r_reuse (a_retention s e) = n \<Longrightarrow> set_retention e (\<lambda>r. r\<lparr>r_reuse := n\<rparr>) s = s"
  by (auto simp: set_retention_def)

lemma unlink_keeps_reuse:
  "represents s qs \<Longrightarrow> q < 2 \<Longrightarrow> qs q = as @ i # bs \<Longrightarrow>
     r_reuse (a_retention (avz_assembly_unlink (i_entry i) s) (i_entry i)) = i_reuse i"
  using unlink_floats[of s qs q as i bs] by (simp add: floats_def)

lemma item_of_at:
  "distinct (map i_entry (as @ i # bs)) \<Longrightarrow> item_of (i_entry i) (as @ i # bs) = i"
proof -
  assume d: "distinct (map i_entry (as @ i # bs))"
  have "filter (\<lambda>j. i_entry j = i_entry i) as = []"
  proof (rule filter_False, rule ballI)
    fix j assume "j \<in> set as"
    then have "i_entry j \<in> i_entry ` set as" by (rule imageI)
    then show "i_entry j \<noteq> i_entry i" using d by auto
  qed
  then show ?thesis by (simp add: item_of_def)
qed

lemma protected_reuse:
  assumes R: "represents s qs" and xs: "qs 1 = as @ i # bs" and e: "i_entry i = e"
  shows "\<exists>s'. avz_assembly_record_reuse e s = Some s' \<and> represents s' (spec_reuse e qs)"
proof -
  have d: "distinct (map i_entry (as @ i # bs))"
    using represents_facts(5)[OF R] xs by (simp add: members_def)
  have sp: "spec_reuse e qs = qs(1 := (as @ bs) @ [i])"
    using drop_entry_at[OF d] item_of_at[OF d] xs e by (simp add: spec_reuse_def)
  have h: "holds s 2 i" using represents_facts(9)[OF R, of i 1] xs by (simp add: numeral_2_eq_2)
  then have rq: "r_queue (a_retention s e) = 2" by (auto simp: holds_def Let_def e)
  have n: "r_next (a_retention s e) = first_of (map i_entry bs) None"
    using R xs e by (auto simp: represents_def queue_ok_def nxt_def)
  show ?thesis
  proof (cases bs)
    case Nil
    then have "avz_assembly_record_reuse e s = Some s" using rq n by (simp add: avz_assembly_record_reuse_def)
    moreover have "represents s (spec_reuse e qs)" by (rule represents_agree[OF R]) (use sp xs Nil in auto)
    ultimately show ?thesis by blast
  next
    case (Cons b bs')
    have u: "r_reuse (a_retention (avz_assembly_unlink e s) e) = i_reuse i"
      using unlink_keeps_reuse[OF R _ xs] e by simp
    have "represents (avz_assembly_append e 1 (avz_assembly_unlink e s)) ((qs(1 := as @ bs))(1 := (qs(1 := as @ bs)) 1 @ [i\<lparr>i_reuse := i_reuse i\<rparr>]))"
      by (rule move_represents[OF R _ _ xs, of 1 _ "i_reuse i"]) (use same_reuse[OF u] e in auto)
    then have "represents (avz_assembly_append e 1 (avz_assembly_unlink e s)) (spec_reuse e qs)"
      by (rule represents_agree) (use sp in auto)
    then show ?thesis using rq n Cons by (simp add: avz_assembly_record_reuse_def)
  qed
qed

lemma promote_represents:
  assumes R: "represents s qs" and xs: "qs 0 = as @ i # bs"
  shows "represents (avz_assembly_append (i_entry i) 1 (avz_assembly_unlink (i_entry i) s))
           (qs(0 := as @ bs, 1 := qs 1 @ [i]))"
proof -
  have u: "r_reuse (a_retention (avz_assembly_unlink (i_entry i) s) (i_entry i)) = i_reuse i"
    using unlink_keeps_reuse[OF R _ xs] by simp
  have "represents (avz_assembly_append (i_entry i) 1 (avz_assembly_unlink (i_entry i) s))
          ((qs(0 := as @ bs))(1 := (qs(0 := as @ bs)) 1 @ [i\<lparr>i_reuse := i_reuse i\<rparr>]))"
    by (rule move_represents[OF R _ _ xs, of 1 _ "i_reuse i"]) (use same_reuse[OF u] in auto)
  then show ?thesis by simp
qed

lemma demote_represents:
  assumes R: "represents s qs" and xs: "qs 1 = j # js"
  shows "represents (avz_assembly_append (i_entry j) 0
             (set_retention (i_entry j) (\<lambda>r. r\<lparr>r_reuse := 0\<rparr>) (avz_assembly_unlink (i_entry j) s)))
           (qs(0 := qs 0 @ [j\<lparr>i_reuse := 0\<rparr>], 1 := js))"
proof -
  have "qs 1 = [] @ j # js" using xs by simp
  from move_represents[OF R _ _ this, of 0 _ 0] show ?thesis
    by (simp add: fun_upd_twist[of 0 1] del: One_nat_def)
qed

lemma probation_reuse:
  assumes R: "represents s qs" and xs: "qs 0 = as @ i # bs" and e: "i_entry i = e"
  shows "\<exists>s'. avz_assembly_record_reuse e s = Some s' \<and> represents s' (spec_reuse e qs)"
proof -
  define n where "n = (if i_reuse i < 2 then i_reuse i + 1 else i_reuse i)"
  let ?i = "i\<lparr>i_reuse := n\<rparr>"
  define s1 where "s1 = set_retention e (\<lambda>r. r\<lparr>r_reuse := n\<rparr>) s"
  define qs1 where "qs1 = qs(0 := as @ ?i # bs)"
  have d: "distinct (map i_entry (as @ i # bs))" "distinct (map i_entry (as @ ?i # bs))"
    and dm: "distinct (members qs)"
    using represents_facts(5)[OF R] xs by (auto simp: members_def)
  have R1: "represents s1 qs1" unfolding s1_def qs1_def e[symmetric] by (rule reuse_field_represents[OF R _ xs]) simp
  have qs10: "qs1 0 = as @ ?i # bs" and qs11: "qs1 1 = qs 1" by (simp_all add: qs1_def)
  have h: "holds s 1 i" using represents_facts(9)[OF R, of i 0] xs by simp
  then have r: "r_queue (a_retention s e) = 1" "r_reuse (a_retention s e) = i_reuse i"
    by (auto simp: holds_def Let_def e)
  have s1: "(if i_reuse i < 2 then set_retention e (\<lambda>r. r\<lparr>r_reuse := r_reuse r + 1\<rparr>) s else s) = s1"
  proof (cases "i_reuse i < 2")
    case True then show ?thesis using r by (simp add: s1_def n_def set_retention_def)
  next
    case False
    then have "n = r_reuse (a_retention s e)" using r by (simp add: n_def)
    then show ?thesis using False same_reuse[of s e n] by (simp add: s1_def)
  qed
  have r1: "r_reuse (a_retention s1 e) = n" "r_bytes (a_retention s1 e) = i_bytes i"
    using h by (auto simp: s1_def holds_def Let_def e)
  have in0: "e \<in> i_entry ` set (qs 0)" using xs e by auto
  then have not1: "e \<notin> i_entry ` set (qs 1)" using queues_disjoint[OF dm, of 0 1] by auto
  have reused_other: "map (reused e) ys = ys" if "e \<notin> i_entry ` set ys" for ys
    using that by (induction ys) (auto simp: reused_def)
  have ne: "e \<notin> i_entry ` set as" "e \<notin> i_entry ` set bs" using d(1) e by auto
  have qs1: "qs(0 := map (reused e) (qs 0)) = qs1"
    using ne e by (simp add: qs1_def xs reused_other reused_def n_def)
  have item: "item_of e (qs1 0) = ?i" using item_of_at[OF d(2)] e by (simp add: qs10)
  have b1: "a_bytes s1 1 = bytes_of (qs 1)" using represents_facts(4)[OF R1] qs11 by simp
  have code: "avz_assembly_record_reuse e s =
      (if n < 2 \<or> i_bytes i > PROTECTED_BUDGET then Some s1
       else Option.bind
            (if a_bytes s1 1 > PROTECTED_BUDGET - i_bytes i then
               case a_heads s1 1 of
                 None \<Rightarrow> None
               | Some old \<Rightarrow> Some (avz_assembly_append old 0
                   (set_retention old (\<lambda>r. r\<lparr>r_reuse := 0\<rparr>) (avz_assembly_unlink old s1)))
             else Some s1)
            (\<lambda>s. if a_bytes s 1 > PROTECTED_BUDGET - i_bytes i then Some s
                  else Some (avz_assembly_append e 1 (avz_assembly_unlink e s))))"
    unfolding avz_assembly_record_reuse_def Let_def r s1 r1 by simp
  have sp: "spec_reuse e qs = (if n < 2 \<or> i_bytes i > PROTECTED_BUDGET then qs1
           else
             let qs = (if bytes_of (qs1 1) + i_bytes i > PROTECTED_BUDGET
                       then qs1(0 := qs1 0 @ [(hd (qs1 1))\<lparr>i_reuse := 0\<rparr>], 1 := tl (qs1 1)) else qs1)
             in if bytes_of (qs 1) + i_bytes i > PROTECTED_BUDGET then qs
                else qs(0 := drop_entry e (qs 0), 1 := qs 1 @ [?i]))"
    using not1 in0 unfolding spec_reuse_def qs1 Let_def item by simp
  consider (stay) "n < 2 \<or> i_bytes i > PROTECTED_BUDGET"
    | (fits) "\<not> (n < 2 \<or> i_bytes i > PROTECTED_BUDGET)" "bytes_of (qs 1) + i_bytes i \<le> PROTECTED_BUDGET"
    | (over) "\<not> (n < 2 \<or> i_bytes i > PROTECTED_BUDGET)" "bytes_of (qs 1) + i_bytes i > PROTECTED_BUDGET"
    by linarith
  then show ?thesis
  proof cases
    case stay then show ?thesis using R1 by (auto simp: code sp)
  next
    case fits
    have "\<not> a_bytes s1 1 > PROTECTED_BUDGET - i_bytes i" using fits b1 by arith
    then have "avz_assembly_record_reuse e s = Some (avz_assembly_append e 1 (avz_assembly_unlink e s1))"
      using fits(1) by (simp add: code del: One_nat_def)
    moreover have "spec_reuse e qs = qs1(0 := as @ bs, 1 := qs1 1 @ [?i])"
      using fits drop_entry_at[OF d(2)] e qs10 qs11 unfolding sp by (simp add: Let_def del: One_nat_def)
    moreover have "represents (avz_assembly_append e 1 (avz_assembly_unlink e s1)) (qs1(0 := as @ bs, 1 := qs1 1 @ [?i]))"
      using promote_represents[OF R1 qs10] e by simp
    ultimately show ?thesis by auto
  next
    case over
    have "qs 1 \<noteq> []" using over by auto
    then obtain j js where js: "qs1 1 = j # js" using qs11 by (cases "qs 1") auto
    let ?j = "j\<lparr>i_reuse := 0\<rparr>"
    define s2 where "s2 = avz_assembly_append (i_entry j) 0
      (set_retention (i_entry j) (\<lambda>r. r\<lparr>r_reuse := 0\<rparr>) (avz_assembly_unlink (i_entry j) s1))"
    define qs2 where "qs2 = qs1(0 := qs1 0 @ [?j], 1 := js)"
    have R2: "represents s2 qs2" unfolding s2_def qs2_def by (rule demote_represents[OF R1 js])
    have b2: "a_bytes s2 1 = bytes_of js" using represents_facts(4)[OF R2] by (simp add: qs2_def)
    have hd1: "a_heads s1 1 = Some (i_entry j)" using represents_facts(2)[OF R1] js by simp
    have gt: "a_bytes s1 1 > PROTECTED_BUDGET - i_bytes i" using over b1 by arith
    have code2: "avz_assembly_record_reuse e s =
        (if a_bytes s2 1 > PROTECTED_BUDGET - i_bytes i then Some s2
         else Some (avz_assembly_append e 1 (avz_assembly_unlink e s2)))"
      using over(1) gt hd1 by (simp add: code s2_def del: One_nat_def)
    have sp2: "spec_reuse e qs = (if bytes_of js + i_bytes i > PROTECTED_BUDGET then qs2
        else qs2(0 := drop_entry e (qs2 0), 1 := qs2 1 @ [?i]))"
      using over js qs11 unfolding sp by (simp add: Let_def qs2_def del: One_nat_def)
    show ?thesis
    proof (cases "bytes_of js + i_bytes i > PROTECTED_BUDGET")
      case True
      then have "a_bytes s2 1 > PROTECTED_BUDGET - i_bytes i" using b2 over(1) by arith
      then show ?thesis using True R2 by (simp add: code2 sp2 del: One_nat_def)
    next
      case False
      then have "\<not> a_bytes s2 1 > PROTECTED_BUDGET - i_bytes i" using b2 by arith
      then have c: "avz_assembly_record_reuse e s = Some (avz_assembly_append e 1 (avz_assembly_unlink e s2))"
        by (simp add: code2)
      have q20: "qs2 0 = as @ ?i # (bs @ [?j])" by (simp add: qs2_def qs10)
      have dd: "distinct (map i_entry (as @ ?i # (bs @ [?j])))"
        using represents_facts(5)[OF R2] by (auto simp: members_def q20)
      have "spec_reuse e qs = qs2(0 := as @ bs @ [?j], 1 := qs2 1 @ [?i])"
        using False drop_entry_at[OF dd] e by (simp add: sp2 q20)
      then show ?thesis using c promote_represents[OF R2 q20] e by simp
    qed
  qed
qed

lemma reuse_represents:
  assumes R: "represents s qs" and e: "r_program (a_retention s e) \<noteq> None"
  shows "\<exists>s'. avz_assembly_record_reuse e s = Some s' \<and> represents s' (spec_reuse e qs)"
proof -
  have "e \<in> set (members qs)" using represents_facts(7)[OF R, of e] e by simp
  then obtain q as i bs where "q < 2" "qs q = as @ i # bs" "i_entry i = e" by (rule member_position)
  then show ?thesis
    using protected_reuse[OF R, of as i bs e] probation_reuse[OF R, of as i bs e] by (cases q) (auto simp: less_Suc_eq)
qed

subsection \<open>Runs\<close>

text \<open>
  The calls the cache makes: a request for the program of an entry, which reuses the program
  the entry owns or admits the freshly prepared one, the end of an entry, and the reset of
  the cache.
\<close>

datatype 'p retention_op = Request nat 'p nat | Forget nat | Reset

fun retention_step :: "'p retention_op \<Rightarrow> 'p assembly_cache \<Rightarrow> 'p assembly_cache option" where
  "retention_step (Request entry program bytes) s =
     (if r_program (a_retention s entry) \<noteq> None then avz_assembly_record_reuse entry s
      else map_option snd (admit_program entry program bytes s))"
| "retention_step (Forget entry) s = Some (avz_assembly_forget_entry entry s)"
| "retention_step Reset s = avz_assembly_clear s"

fun retention_run :: "'p retention_op list \<Rightarrow> 'p assembly_cache \<Rightarrow> 'p assembly_cache option" where
  "retention_run [] s = Some s"
| "retention_run (op # ops) s = Option.bind (retention_step op s) (retention_run ops)"

fun queue_step :: "'p retention_op \<Rightarrow> 'p queues \<Rightarrow> 'p queues" where
  "queue_step (Request entry program bytes) qs =
     (if entry \<in> set (members qs) then spec_reuse entry qs else spec_admit entry program bytes qs)"
| "queue_step (Forget entry) qs = spec_release entry qs"
| "queue_step Reset qs = (\<lambda>_. [])"

lemma forget_represents:
  assumes "represents s qs"
  shows "represents (avz_assembly_forget_entry e s) (spec_release e qs)"
proof -
  let ?s = "if r_program (a_retention s e) \<noteq> None then avz_assembly_release e s else s"
  have "?s = avz_assembly_release e s" by (simp add: avz_assembly_release_def)
  then have "represents ?s (spec_release e qs)" using release_represents[OF assms] by simp
  then show ?thesis
    unfolding avz_assembly_forget_entry_def Let_def represents_def
    by (subst (1 2) queue_ok_agree) auto
qed

lemma step_represents:
  assumes R: "represents s qs"
  shows "\<exists>s'. retention_step op s = Some s' \<and> represents s' (queue_step op qs)"
proof (cases op)
  case (Request e p b)
  then show ?thesis
    using reuse_represents[OF R, of e] admit_represents[OF R, of e p b] represents_facts(7)[OF R, of e] by auto
next
  case (Forget e)
  then show ?thesis using forget_represents[OF R] by simp
next
  case Reset
  then show ?thesis using clear_ends[OF R] by simp
qed

lemma run_represents:
  "represents s qs \<Longrightarrow> \<exists>s'. retention_run ops s = Some s' \<and> represents s' (fold queue_step ops qs)"
proof (induction ops arbitrary: s qs)
  case (Cons op ops)
  obtain s1 where "retention_step op s = Some s1" "represents s1 (queue_step op qs)"
    using step_represents[OF Cons.prems] by blast
  with Cons.IH show ?case by simp
qed simp

lemma empty_represents: "represents empty_assembly_cache (\<lambda>_. [])"
  by (simp add: represents_def queue_ok_def members_def empty_assembly_cache_def)

text \<open>The two budgets on the abstract queues.\<close>

definition in_budget :: "'p queues \<Rightarrow> bool" where
  "in_budget qs \<longleftrightarrow> bytes_of (qs 0) + bytes_of (qs 1) \<le> BYTE_BUDGET \<and> bytes_of (qs 1) \<le> PROTECTED_BUDGET"

lemma bytes_of_tl: "bytes_of (tl xs) \<le> bytes_of xs"
  by (cases xs) auto

lemma bytes_of_drop: "bytes_of (drop_entry e xs) \<le> bytes_of xs"
  by (induction xs) (auto simp: drop_entry_def)

lemma bytes_of_item:
  "distinct (map i_entry xs) \<Longrightarrow> e \<in> i_entry ` set xs \<Longrightarrow> bytes_of (drop_entry e xs) + i_bytes (item_of e xs) = bytes_of xs"
proof -
  assume d: "distinct (map i_entry xs)" and "e \<in> i_entry ` set xs"
  then obtain i as bs where xs: "xs = as @ i # bs" "i_entry i = e" by (auto simp: image_iff) (metis split_list)
  show ?thesis using drop_entry_at[of as i bs] item_of_at[of as i bs] d xs by simp
qed

lemma bytes_of_reused: "bytes_of (map (reused e) xs) = bytes_of xs"
  by (induction xs) (auto simp: reused_def)

lemma entries_of_reused: "map i_entry (map (reused e) xs) = map i_entry xs"
  by (induction xs) (auto simp: reused_def)

lemma evict_within: "in_budget qs \<Longrightarrow> in_budget (spec_evict n bytes qs)"
proof (induction n arbitrary: qs)
  case (Suc n)
  have "in_budget (if qs 0 \<noteq> [] then qs(0 := tl (qs 0)) else qs(1 := tl (qs 1)))"
    using Suc.prems bytes_of_tl[of "qs 0"] bytes_of_tl[of "qs 1"] by (auto simp: in_budget_def)
  from Suc.IH[OF this] Suc.prems show ?case unfolding spec_evict.simps by (simp only: split: if_split) simp
qed simp

lemma reuse_within:
  assumes w: "in_budget qs" and d: "distinct (members qs)"
  shows "in_budget (spec_reuse e qs)"
proof -
  have ds: "distinct (map i_entry (qs 0))" "distinct (map i_entry (qs 1))" using d by (auto simp: members_def)
  consider (protected) "e \<in> i_entry ` set (qs 1)"
    | (absent) "e \<notin> i_entry ` set (qs 1)" "e \<notin> i_entry ` set (qs 0)"
    | (probation) "e \<notin> i_entry ` set (qs 1)" "e \<in> i_entry ` set (qs 0)" by blast
  then show ?thesis
  proof cases
    case protected
    then show ?thesis using w bytes_of_item[OF ds(2) protected] by (simp add: spec_reuse_def in_budget_def)
  next
    case absent
    then show ?thesis using w by (simp add: spec_reuse_def)
  next
    case probation
    let ?q0 = "map (reused e) (qs 0)" and ?i = "item_of e (map (reused e) (qs 0))"
    have d0: "distinct (map i_entry ?q0)" unfolding entries_of_reused by (rule ds(1))
    have in0: "e \<in> i_entry ` set ?q0" using probation(2) entries_of_reused[of e "qs 0"] by (metis list.set_map)
    have b0: "bytes_of (drop_entry e ?q0) + i_bytes ?i = bytes_of (qs 0)"
      using bytes_of_item[OF d0 in0] bytes_of_reused by metis
    have drop: "bytes_of (drop_entry e (?q0 @ xs)) \<le> bytes_of (drop_entry e ?q0) + bytes_of xs" for xs
      using bytes_of_drop[of e xs] by (simp add: drop_entry_def)
    have qs1: "qs 1 \<noteq> [] \<Longrightarrow> i_bytes (hd (qs 1)) + bytes_of (tl (qs 1)) = bytes_of (qs 1)" by (cases "qs 1") auto
    have ne: "bytes_of (qs 1) + i_bytes ?i > PROTECTED_BUDGET \<Longrightarrow> i_bytes ?i \<le> PROTECTED_BUDGET \<Longrightarrow> qs 1 \<noteq> []" by auto
    show ?thesis
      using probation w b0 qs1 ne drop[of "[(hd (qs 1))\<lparr>i_reuse := 0\<rparr>]"] bytes_of_reused[of e "qs 0"]
      by (auto simp: spec_reuse_def Let_def in_budget_def)
  qed
qed

lemma release_within: "in_budget qs \<Longrightarrow> in_budget (spec_release e qs)"
  using bytes_of_drop[of e "qs 0"] bytes_of_drop[of e "qs 1"] by (auto simp: in_budget_def spec_release_def)

lemma admit_within: "in_budget qs \<Longrightarrow> in_budget (spec_admit e p b qs)"
  using evict_within[of qs MAX_RETIREMENTS b] by (auto simp: spec_admit_def Let_def in_budget_def)

lemma empty_within: "in_budget (\<lambda>_. [])"
  by (simp add: in_budget_def)

lemma queue_step_within: "in_budget qs \<Longrightarrow> distinct (members qs) \<Longrightarrow> in_budget (queue_step op qs)"
  using empty_within by (cases op) (auto intro: reuse_within release_within admit_within)

lemma run_within:
  "represents s qs \<Longrightarrow> in_budget qs \<Longrightarrow> in_budget (fold queue_step ops qs)"
proof (induction ops arbitrary: s qs)
  case (Cons op ops)
  obtain s1 where "represents s1 (queue_step op qs)" using step_represents[OF Cons.prems(1)] by blast
  then show ?case
    using Cons queue_step_within[OF Cons.prems(2) represents_facts(5)[OF Cons.prems(1)]] by simp
qed simp

subsection \<open>Properties\<close>

text \<open>
  C20: the linked queues refine two lists. From a cache that represents two queues every run of
  requests, ends of entries and resets returns, dereferences no null head, and ends in a cache
  that represents the queues obtained by the same operations on lists: admission at the end of
  probation after evicting from the front, promotion after the second reuse with the demotion
  of the oldest protected program, moving a reused protected program to the end.
\<close>
theorem retention_refines_queues:
  assumes "represents s qs"
  shows "\<exists>s'. retention_run ops s = Some s' \<and> represents s' (fold queue_step ops qs)"
  using assms by (rule run_represents)

definition demo_requests :: "nat retention_op list" where
  "demo_requests = [Request 3 30 1000, Request 3 31 0, Request 5 50 2000, Request 3 32 0, Forget 5]"

theorem retention_refines_queues_witness:
  "\<exists>s'. retention_run demo_requests empty_assembly_cache = Some s' \<and>
     represents s' (fold queue_step demo_requests (\<lambda>_. []))"
  by (rule retention_refines_queues[OF empty_represents])

text \<open>
  C22: every run from the empty cache terminates: the release loops and the eviction loop end,
  and then at most four megabytes of programs are retained, at most three of them protected.
\<close>
theorem retention_runs_terminate_within_budget:
  "\<exists>s. retention_run ops empty_assembly_cache = Some s \<and>
     a_bytes s 0 + a_bytes s 1 \<le> BYTE_BUDGET \<and> a_bytes s 1 \<le> PROTECTED_BUDGET"
proof -
  obtain s where s: "retention_run ops empty_assembly_cache = Some s" "represents s (fold queue_step ops (\<lambda>_. []))"
    using run_represents[OF empty_represents] by blast
  have "in_budget (fold queue_step ops (\<lambda>_. []))"
    by (rule run_within[OF empty_represents empty_within])
  then show ?thesis using s represents_facts(3,4)[OF s(2)] by (auto simp: in_budget_def)
qed

end
