(* ===== verification/ThreadedSlots.thy ===== *)
theory ThreadedSlots
  imports LinkedLists
begin

text \<open>
  The pool of threaded programs of the block cache: \<open>threaded_programs\<close> of
  \<open>ARM64VizBlockCache.c\<close>, 256 slots on a ring whose oldest slot is \<open>threaded_lru\<close>, and the
  functions \<open>avz_threaded_*\<close> that keep it. A slot owns a program (\<open>AVZThreadedPrototype *\<close>, a
  value of the type variable \<open>'p\<close>) on behalf of a decoded entry, which remembers its slot.

  The ring is a list of all slots, oldest first; empty slots come before live ones, so a
  program is evicted only when all 256 slots are live, and then it is the oldest.
\<close>

subsection \<open>State\<close>

record 'p threaded_slot =
  t_owner :: "nat option"
  t_program :: "'p option"
  t_previous :: nat
  t_next :: nat

record 'p threaded_pool =
  t_slots :: "nat \<Rightarrow> 'p threaded_slot"
  t_lru :: nat
  t_entry_slot :: "nat \<Rightarrow> nat option"
  t_eligibility :: "nat \<Rightarrow> nat"

abbreviation SLOT_COUNT :: nat where "SLOT_COUNT \<equiv> 256"

definition set_slot :: "nat \<Rightarrow> ('p threaded_slot \<Rightarrow> 'p threaded_slot) \<Rightarrow> 'p threaded_pool \<Rightarrow> 'p threaded_pool" where
  "set_slot slot f s = s\<lparr>t_slots := (t_slots s)(slot := f (t_slots s slot))\<rparr>"

subsection \<open>Operations\<close>

definition avz_threaded_initialize_lru :: "'p threaded_pool \<Rightarrow> 'p threaded_pool" where
  "avz_threaded_initialize_lru s =
     (fold (\<lambda>i. set_slot i (\<lambda>t. t\<lparr>t_previous := (i + 255) mod 256, t_next := (i + 1) mod 256\<rparr>))
        [0 ..< SLOT_COUNT] s)\<lparr>t_lru := 0\<rparr>"

definition avz_threaded_touch_slot :: "nat \<Rightarrow> 'p threaded_pool \<Rightarrow> 'p threaded_pool" where
  "avz_threaded_touch_slot slot s =
     (let head = t_lru s in
      if t_next (t_slots s slot) = head then s
      else if slot = head then s\<lparr>t_lru := t_next (t_slots s slot)\<rparr>
      else
        let previous = t_previous (t_slots s slot);
            following = t_next (t_slots s slot);
            s = set_slot previous (t_next_update (\<lambda>_. following)) s;
            s = set_slot following (t_previous_update (\<lambda>_. previous)) s;
            tail = t_previous (t_slots s head);
            s = set_slot tail (t_next_update (\<lambda>_. slot)) s;
            s = set_slot slot (t_previous_update (\<lambda>_. tail)) s;
            s = set_slot slot (t_next_update (\<lambda>_. head)) s
        in set_slot head (t_previous_update (\<lambda>_. slot)) s)"

definition avz_threaded_release_slot :: "nat \<Rightarrow> 'p threaded_pool \<Rightarrow> 'p threaded_pool" where
  "avz_threaded_release_slot slot s =
     (let s = (case t_owner (t_slots s slot) of
                 Some owner \<Rightarrow> s\<lparr>t_entry_slot := (t_entry_slot s)(owner := None)\<rparr>
               | None \<Rightarrow> s);
          s = set_slot slot (\<lambda>t. t\<lparr>t_owner := None, t_program := None\<rparr>) s;
          s = avz_threaded_touch_slot slot s
      in s\<lparr>t_lru := slot\<rparr>)"

definition avz_threaded_forget_entry :: "nat \<Rightarrow> 'p threaded_pool \<Rightarrow> 'p threaded_pool" where
  "avz_threaded_forget_entry entry s =
     (let s = (case t_entry_slot s entry of
                 Some slot \<Rightarrow> avz_threaded_release_slot slot s
               | None \<Rightarrow> s)
      in s\<lparr>t_eligibility := (t_eligibility s)(entry := 0)\<rparr>)"

text \<open>The loop over all slots of \<open>avz_native_block_cache_clear\<close> and the reset of the ring.\<close>

definition release_all_slots :: "'p threaded_pool \<Rightarrow> 'p threaded_pool" where
  "release_all_slots s =
     avz_threaded_initialize_lru (fold avz_threaded_release_slot [0 ..< SLOT_COUNT] s)"

text \<open>
  The miss of \<open>avz_native_block_cache_threaded_program_with_memory\<close>, from the choice of the
  slot on; \<open>program\<close> is what \<open>avz_tp_create\<close> returned.
\<close>

definition claim_slot :: "nat \<Rightarrow> 'p option \<Rightarrow> 'p threaded_pool \<Rightarrow> 'p option \<times> 'p threaded_pool" where
  "claim_slot entry program s =
     (let slot = t_lru s;
          s = (if t_program (t_slots s slot) \<noteq> None then avz_threaded_release_slot slot s else s);
          s = set_slot slot (\<lambda>t. t\<lparr>t_program := program\<rparr>) s
      in if program = None then (None, s\<lparr>t_eligibility := (t_eligibility s)(entry := 3)\<rparr>)
         else
           let s = set_slot slot (\<lambda>t. t\<lparr>t_owner := Some entry\<rparr>) s;
               s = avz_threaded_touch_slot slot s
           in (program, s\<lparr>t_entry_slot := (t_entry_slot s)(entry := Some slot)\<rparr>))"

subsection \<open>The ring\<close>

definition ring :: "'p threaded_pool \<Rightarrow> nat list \<Rightarrow> bool" where
  "ring s order \<longleftrightarrow>
     order \<noteq> [] \<and> distinct order \<and> t_lru s = hd order \<and>
     linked (\<lambda>x. Some (t_next (t_slots s x))) (\<lambda>x. Some (t_previous (t_slots s x)))
       (Some (List.last order)) order (Some (hd order))"

lemma set_slot_simps [simp]:
  "t_slots (set_slot x f s) = (t_slots s)(x := f (t_slots s x))" "t_lru (set_slot x f s) = t_lru s"
  "t_entry_slot (set_slot x f s) = t_entry_slot s" "t_eligibility (set_slot x f s) = t_eligibility s"
  by (simp_all add: set_slot_def)

lemma link_simps:
  "t_next (t_slots (set_slot z (t_next_update (\<lambda>_. v)) s) y) = (if y = z then v else t_next (t_slots s y))"
  "t_next (t_slots (set_slot z (t_previous_update (\<lambda>_. v)) s) y) = t_next (t_slots s y)"
  "t_previous (t_slots (set_slot z (t_next_update (\<lambda>_. v)) s) y) = t_previous (t_slots s y)"
  "t_previous (t_slots (set_slot z (t_previous_update (\<lambda>_. v)) s) y) = (if y = z then v else t_previous (t_slots s y))"
  "t_owner (t_slots (set_slot z (t_next_update (\<lambda>_. v)) s) y) = t_owner (t_slots s y)"
  "t_owner (t_slots (set_slot z (t_previous_update (\<lambda>_. v)) s) y) = t_owner (t_slots s y)"
  "t_program (t_slots (set_slot z (t_next_update (\<lambda>_. v)) s) y) = t_program (t_slots s y)"
  "t_program (t_slots (set_slot z (t_previous_update (\<lambda>_. v)) s) y) = t_program (t_slots s y)"
  by (simp_all add: set_slot_def)

lemma ring_links:
  assumes "\<And>x. t_next (t_slots s' x) = t_next (t_slots s x)" "\<And>x. t_previous (t_slots s' x) = t_previous (t_slots s x)"
    "t_lru s' = t_lru s"
  shows "ring s' order = ring s order"
  using assms by (simp add: ring_def)

lemma ring_rotate:
  assumes "ring s (x # xs)" "xs \<noteq> []"
  shows "ring (s\<lparr>t_lru := t_next (t_slots s x)\<rparr>) (xs @ [x])"
  using assms by (cases xs) (auto simp: ring_def final_of_nonempty)

lemma ring_rotate_back:
  assumes "ring s (xs @ [x])"
  shows "ring (s\<lparr>t_lru := x\<rparr>) (x # xs)"
  using assms by (cases xs) (auto simp: ring_def final_of_nonempty)

text \<open>Touching a slot makes it the youngest.\<close>

lemma touch_ring:
  assumes R: "ring s order" and x: "x \<in> set order"
  shows "ring (avz_threaded_touch_slot x s) (remove1 x order @ [x])"
proof -
  obtain as bs where o: "order = as @ x # bs" "x \<notin> set as" using split_list_first[OF x] by blast
  have d: "distinct order" and l: "t_lru s = hd order" using R by (auto simp: ring_def)
  have r1: "remove1 x order = as @ bs" using o by (simp add: remove1_append)
  have n: "t_next (t_slots s x) = (case bs of [] \<Rightarrow> hd order | b # _ \<Rightarrow> b)"
    using R by (auto simp: ring_def o split: list.splits)
  have p: "as \<noteq> [] \<Longrightarrow> t_previous (t_slots s x) = List.last as"
    using R by (auto simp: ring_def o final_of_def)
  show ?thesis
  proof (cases bs)
    case Nil
    then have "avz_threaded_touch_slot x s = s" using n l by (simp add: avz_threaded_touch_slot_def)
    then show ?thesis using R r1 o Nil by simp
  next
    case (Cons b bs')
    have nb: "t_next (t_slots s x) = b" using n Cons by simp
    show ?thesis
    proof (cases as)
      case Nil
      then have "b \<noteq> x" using d o Cons by auto
      then have "avz_threaded_touch_slot x s = s\<lparr>t_lru := t_next (t_slots s x)\<rparr>"
        using nb l o Nil by (simp add: avz_threaded_touch_slot_def)
      then show ?thesis using ring_rotate[of s x bs] R r1 o Nil Cons by simp
    next
      case (Cons h as')
      have hd: "t_lru s = h" using l o Cons by simp
      let ?a = "List.last as" and ?t = "List.last bs"
      have ends: "?a \<in> set as" "?t \<in> set bs" "h \<in> set as" "b \<in> set bs" using Cons \<open>bs = b # bs'\<close> by auto
      moreover have "x \<notin> set as" "x \<notin> set bs" "set as \<inter> set bs = {}" using d o by auto
      ultimately have ne: "b \<noteq> h" "x \<noteq> h" "?a \<noteq> x" "?t \<noteq> x" "?t \<noteq> h" "b \<noteq> x" "?a \<notin> set bs" "?t \<notin> set as"
        by auto
      have pa: "t_previous (t_slots s x) = ?a" using p Cons by simp
      have ph: "t_previous (t_slots s h) = ?t"
        using R o Cons \<open>bs = b # bs'\<close> by (simp add: ring_def)
      let ?s = "avz_threaded_touch_slot x s"
      have nx: "t_next (t_slots ?s y) = (if y = x then h else if y = ?t then x else if y = ?a then b else t_next (t_slots s y))"
        and pv: "t_previous (t_slots ?s y) = (if y = h then x else if y = x then ?t else if y = b then ?a else t_previous (t_slots s y))"
        and lru: "t_lru ?s = h" for y
        using nb hd ne pa ph
        by (simp_all only: avz_threaded_touch_slot_def Let_def link_simps set_slot_simps(2) if_False) auto
      have seg: "linked (\<lambda>y. Some (t_next (t_slots s y))) (\<lambda>y. Some (t_previous (t_slots s y))) (Some ?t) as (Some x)"
          "linked (\<lambda>y. Some (t_next (t_slots s y))) (\<lambda>y. Some (t_previous (t_slots s y))) (Some x) bs (Some h)"
        using R o Cons \<open>bs = b # bs'\<close> by (simp_all add: ring_def)
      have as: "linked (\<lambda>y. Some (t_next (t_slots ?s y))) (\<lambda>y. Some (t_previous (t_slots ?s y))) (Some x) as (Some b)"
      proof -
        have "linked ((\<lambda>y. Some (t_next (t_slots s y)))(?a := Some b)) (\<lambda>y. Some (t_previous (t_slots s y))) (Some ?t) as (Some b)"
          by (rule linked_redirect_final[OF seg(1)]) (use d o Cons in auto)
        then have "linked ((\<lambda>y. Some (t_next (t_slots s y)))(?a := Some b)) ((\<lambda>y. Some (t_previous (t_slots s y)))(h := Some x)) (Some x) as (Some b)"
          using linked_redirect_first[of _ _ "Some ?t" as "Some b" "Some x"] d o Cons by simp
        moreover have "y \<noteq> x" "y \<noteq> ?t" "y \<noteq> b" if "y \<in> set as" for y
          using that d o ne \<open>bs = b # bs'\<close> by auto
        ultimately show ?thesis
          by (subst linked_cong[where nxt' = "(\<lambda>y. Some (t_next (t_slots s y)))(?a := Some b)"
                and prv' = "(\<lambda>y. Some (t_previous (t_slots s y)))(h := Some x)"]) (auto simp: nx pv)
      qed
      have bs: "linked (\<lambda>y. Some (t_next (t_slots ?s y))) (\<lambda>y. Some (t_previous (t_slots ?s y))) (Some ?a) bs (Some x)"
      proof -
        have "linked ((\<lambda>y. Some (t_next (t_slots s y)))(?t := Some x)) (\<lambda>y. Some (t_previous (t_slots s y))) (Some x) bs (Some x)"
          by (rule linked_redirect_final[OF seg(2)]) (use d o \<open>bs = b # bs'\<close> in auto)
        then have "linked ((\<lambda>y. Some (t_next (t_slots s y)))(?t := Some x)) ((\<lambda>y. Some (t_previous (t_slots s y)))(b := Some ?a)) (Some ?a) bs (Some x)"
          using linked_redirect_first[of _ _ "Some x" bs "Some x" "Some ?a"] d o \<open>bs = b # bs'\<close> by simp
        moreover have "y \<noteq> x" "y \<noteq> ?a" "y \<noteq> h" if "y \<in> set bs" for y
          using that d o ne Cons by auto
        ultimately show ?thesis
          by (subst linked_cong[where nxt' = "(\<lambda>y. Some (t_next (t_slots s y)))(?t := Some x)"
                and prv' = "(\<lambda>y. Some (t_previous (t_slots s y)))(b := Some ?a)"]) (auto simp: nx pv)
      qed
      show ?thesis
        using as bs lru d o Cons \<open>bs = b # bs'\<close> ne unfolding r1 ring_def
        by (simp add: nx pv final_of_def)
    qed
  qed
qed

lemma touch_other [simp]:
  "t_owner (t_slots (avz_threaded_touch_slot x s) y) = t_owner (t_slots s y)"
  "t_program (t_slots (avz_threaded_touch_slot x s) y) = t_program (t_slots s y)"
  "t_entry_slot (avz_threaded_touch_slot x s) = t_entry_slot s"
  "t_eligibility (avz_threaded_touch_slot x s) = t_eligibility s"
  by (auto simp only: avz_threaded_touch_slot_def Let_def link_simps set_slot_simps(3,4)
      split: if_split) simp_all

text \<open>Releasing a slot empties it and makes it the oldest.\<close>

lemma release_fields [simp]:
  "t_owner (t_slots (avz_threaded_release_slot x s) y) = (if y = x then None else t_owner (t_slots s y))"
  "t_program (t_slots (avz_threaded_release_slot x s) y) = (if y = x then None else t_program (t_slots s y))"
  "t_entry_slot (avz_threaded_release_slot x s) =
     (case t_owner (t_slots s x) of Some e \<Rightarrow> (t_entry_slot s)(e := None) | None \<Rightarrow> t_entry_slot s)"
  "t_eligibility (avz_threaded_release_slot x s) = t_eligibility s"
  by (auto simp: avz_threaded_release_slot_def Let_def split: option.splits)

lemma release_ring:
  assumes R: "ring s order" and x: "x \<in> set order"
  shows "ring (avz_threaded_release_slot x s) (x # remove1 x order)"
proof -
  define s' where "s' = set_slot x (\<lambda>t. t\<lparr>t_owner := None, t_program := None\<rparr>)
    (case t_owner (t_slots s x) of Some owner \<Rightarrow> s\<lparr>t_entry_slot := (t_entry_slot s)(owner := None)\<rparr> | None \<Rightarrow> s)"
  have "ring s' order = ring s order" by (rule ring_links) (auto simp: s'_def split: option.splits)
  then have "ring s' order" using R by simp
  from ring_rotate_back[OF touch_ring[OF this x]]
  have "ring ((avz_threaded_touch_slot x s')\<lparr>t_lru := x\<rparr>) (x # remove1 x order)" .
  then show ?thesis unfolding avz_threaded_release_slot_def Let_def s'_def[symmetric] .
qed

definition all_slots :: "nat set" where
  "all_slots = {..<SLOT_COUNT}"

subsection \<open>Representation of the live programs, oldest first\<close>

definition pool_represents :: "'p threaded_pool \<Rightarrow> (nat \<times> 'p) list \<Rightarrow> bool" where
  "pool_represents s xs \<longleftrightarrow>
     (\<exists>free live. ring s (free @ live) \<and> set (free @ live) = all_slots \<and>
        (\<forall>k \<in> set free. t_owner (t_slots s k) = None \<and> t_program (t_slots s k) = None) \<and>
        map (\<lambda>k. (t_owner (t_slots s k), t_program (t_slots s k))) live =
          map (\<lambda>(e, p). (Some e, Some p)) xs \<and>
        distinct (map fst xs) \<and>
        (\<forall>e k. t_entry_slot s e = Some k \<longleftrightarrow> k \<in> set live \<and> t_owner (t_slots s k) = Some e))"

definition threaded_request :: "nat \<Rightarrow> 'p option \<Rightarrow> 'p threaded_pool \<Rightarrow> 'p option \<times> 'p threaded_pool" where
  "threaded_request entry program s =
     (case t_entry_slot s entry of
        Some slot \<Rightarrow> (t_program (t_slots s slot), s)
      | None \<Rightarrow> claim_slot entry program s)"

definition fifo_request :: "nat \<Rightarrow> 'p option \<Rightarrow> (nat \<times> 'p) list \<Rightarrow> (nat \<times> 'p) list" where
  "fifo_request entry program xs =
     (if entry \<in> fst ` set xs then xs
      else (if length xs = SLOT_COUNT then tl xs else xs) @
           (case program of Some p \<Rightarrow> [(entry, p)] | None \<Rightarrow> []))"

datatype 'p threaded_op = Threaded_request nat "'p option" | Threaded_forget nat | Threaded_reset

fun threaded_step :: "'p threaded_op \<Rightarrow> 'p threaded_pool \<Rightarrow> 'p threaded_pool" where
  "threaded_step (Threaded_request entry program) s = snd (threaded_request entry program s)"
| "threaded_step (Threaded_forget entry) s = avz_threaded_forget_entry entry s"
| "threaded_step Threaded_reset s = release_all_slots s"

fun fifo_step :: "'p threaded_op \<Rightarrow> (nat \<times> 'p) list \<Rightarrow> (nat \<times> 'p) list" where
  "fifo_step (Threaded_request entry program) xs = fifo_request entry program xs"
| "fifo_step (Threaded_forget entry) xs = filter (\<lambda>x. fst x \<noteq> entry) xs"
| "fifo_step Threaded_reset xs = []"

lemma live_position:
  assumes "map (\<lambda>k. (f k, g k)) live = map (\<lambda>(e, p). (Some e, Some p)) xs" "k \<in> set live"
  obtains as bs e p as' bs' where "live = as @ k # bs" "xs = as' @ (e, p) # bs'" "f k = Some e" "g k = Some p"
    "map (\<lambda>k. (f k, g k)) as = map (\<lambda>(e, p). (Some e, Some p)) as'"
    "map (\<lambda>k. (f k, g k)) bs = map (\<lambda>(e, p). (Some e, Some p)) bs'"
proof -
  obtain as bs where l: "live = as @ k # bs" using assms(2) by (meson split_list)
  with assms(1) show ?thesis
    using that by (auto simp: map_eq_append_conv append_eq_map_conv Cons_eq_map_conv)
qed

lemma owner_unique:
  assumes "map (\<lambda>k. (f k, g k)) live = map (\<lambda>(e, p). (Some e, Some p)) xs" "distinct (map fst xs)"
    "k \<in> set live" "k' \<in> set live" "f k = Some e" "f k' = Some e" "distinct live"
  shows "k = k'"
proof -
  have "map f live = map (\<lambda>x. Some (fst x)) xs"
    using arg_cong[OF assms(1), of "map fst"] by (simp add: comp_def case_prod_beta)
  moreover have "distinct (map (\<lambda>x. Some (fst x)) xs)"
    using assms(2) by (simp add: distinct_map inj_on_def)
  ultimately have "distinct (map f live)" by simp
  then have "inj_on f (set live)" by (simp add: distinct_map)
  then show ?thesis using assms(3-6) by (simp add: inj_on_def)
qed

lemma release_represents_pool:
  assumes R: "pool_represents s xs" and k: "t_owner (t_slots s k) = Some e" "k < SLOT_COUNT"
  shows "pool_represents (avz_threaded_release_slot k s) (filter (\<lambda>x. fst x \<noteq> e) xs)"
proof -
  obtain free live where r: "ring s (free @ live)" and all: "set (free @ live) = all_slots"
    and free: "\<And>j. j \<in> set free \<Longrightarrow> t_owner (t_slots s j) = None \<and> t_program (t_slots s j) = None"
    and live: "map (\<lambda>k. (t_owner (t_slots s k), t_program (t_slots s k))) live = map (\<lambda>(e, p). (Some e, Some p)) xs"
    and d: "distinct (map fst xs)"
    and es: "\<And>e k. t_entry_slot s e = Some k \<longleftrightarrow> k \<in> set live \<and> t_owner (t_slots s k) = Some e"
    using R by (auto simp: pool_represents_def)
  have dl: "distinct (free @ live)" using r by (simp add: ring_def)
  have "k \<in> set (free @ live)" unfolding all using k by (simp add: all_slots_def)
  then have kl: "k \<in> set live" using free[of k] k by auto
  obtain as bs e' p as' bs' where sp: "live = as @ k # bs" "xs = as' @ (e', p) # bs'" "t_owner (t_slots s k) = Some e'"
    "map (\<lambda>k. (t_owner (t_slots s k), t_program (t_slots s k))) as = map (\<lambda>(e, p). (Some e, Some p)) as'"
    "map (\<lambda>k. (t_owner (t_slots s k), t_program (t_slots s k))) bs = map (\<lambda>(e, p). (Some e, Some p)) bs'"
    by (rule live_position[OF live kl])
  have e': "e' = e" using sp(3) k by simp
  have nk: "k \<notin> set free" "k \<notin> set as" "k \<notin> set bs" using dl sp by auto
  let ?s = "avz_threaded_release_slot k s"
  have ring': "ring ?s ((k # free) @ (as @ bs))"
    using release_ring[OF r, of k] nk kl by (simp add: sp remove1_append)
  have xs': "filter (\<lambda>x. fst x \<noteq> e) xs = as' @ bs'"
  proof -
    have "x \<in> set (as' @ bs') \<Longrightarrow> fst x \<noteq> e" for x using d by (auto simp: sp e')
    then show ?thesis by (simp add: sp e')
  qed
  have "map (\<lambda>k. (t_owner (t_slots ?s k), t_program (t_slots ?s k))) (as @ bs) = map (\<lambda>(e, p). (Some e, Some p)) (as' @ bs')"
  proof -
    have "map (\<lambda>k. (t_owner (t_slots ?s k), t_program (t_slots ?s k))) (as @ bs) =
        map (\<lambda>k. (t_owner (t_slots s k), t_program (t_slots s k))) (as @ bs)"
      by (rule map_cong[OF refl]) (use nk in auto)
    then show ?thesis by (simp add: sp)
  qed
  moreover have "(t_entry_slot ?s e1 = Some k1) = (k1 \<in> set (as @ bs) \<and> t_owner (t_slots ?s k1) = Some e1)" for e1 k1
    using es[of e1 k1] owner_unique[OF live d kl, of k1 e] k dl nk by (auto simp: sp)
  moreover have "set ((k # free) @ (as @ bs)) = all_slots" using all by (auto simp: sp)
  moreover have "\<forall>j \<in> set (k # free). t_owner (t_slots ?s j) = None \<and> t_program (t_slots ?s j) = None" using free by simp
  moreover have "distinct (map fst (as' @ bs'))" using d by (auto simp: sp)
  ultimately show ?thesis using ring' unfolding pool_represents_def xs' by blast
qed

lemma pool_representsI:
  assumes "ring s (free @ live)" "set (free @ live) = all_slots"
    "\<And>k. k \<in> set free \<Longrightarrow> t_owner (t_slots s k) = None \<and> t_program (t_slots s k) = None"
    "map (\<lambda>k. (t_owner (t_slots s k), t_program (t_slots s k))) live = map (\<lambda>(e, p). (Some e, Some p)) xs"
    "distinct (map fst xs)"
    "\<And>e k. t_entry_slot s e = Some k \<longleftrightarrow> k \<in> set live \<and> t_owner (t_slots s k) = Some e"
  shows "pool_represents s xs"
  using assms unfolding pool_represents_def by blast

lemma pool_representsE:
  assumes "pool_represents s xs"
  obtains free live where "ring s (free @ live)" "set (free @ live) = all_slots" "distinct (free @ live)"
    "\<And>k. k \<in> set free \<Longrightarrow> t_owner (t_slots s k) = None \<and> t_program (t_slots s k) = None"
    "map (\<lambda>k. (t_owner (t_slots s k), t_program (t_slots s k))) live = map (\<lambda>(e, p). (Some e, Some p)) xs"
    "distinct (map fst xs)"
    "\<And>e k. t_entry_slot s e = Some k \<longleftrightarrow> k \<in> set live \<and> t_owner (t_slots s k) = Some e"
proof -
  obtain free live where r: "ring s (free @ live)"
    and rest: "set (free @ live) = all_slots"
      "\<forall>k \<in> set free. t_owner (t_slots s k) = None \<and> t_program (t_slots s k) = None"
      "map (\<lambda>k. (t_owner (t_slots s k), t_program (t_slots s k))) live = map (\<lambda>(e, p). (Some e, Some p)) xs"
      "distinct (map fst xs)"
      "\<forall>e k. t_entry_slot s e = Some k \<longleftrightarrow> k \<in> set live \<and> t_owner (t_slots s k) = Some e"
    using assms unfolding pool_represents_def by blast
  have "distinct (free @ live)" using r by (simp add: ring_def)
  with r rest show ?thesis by (intro that[of free live]) blast+
qed

lemma length_all_slots: "distinct xs \<Longrightarrow> set xs = all_slots \<Longrightarrow> length xs = SLOT_COUNT"
  by (metis all_slots_def card_lessThan distinct_card)

lemma slot_of_live:
  assumes "pool_represents s xs" "e \<in> fst ` set xs"
  shows "\<exists>k. t_entry_slot s e = Some k \<and> t_owner (t_slots s k) = Some e \<and> k < SLOT_COUNT"
proof -
  obtain free live where all: "set (free @ live) = all_slots"
    and live: "map (\<lambda>k. (t_owner (t_slots s k), t_program (t_slots s k))) live = map (\<lambda>(e, p). (Some e, Some p)) xs"
    and es: "\<And>e k. t_entry_slot s e = Some k \<longleftrightarrow> k \<in> set live \<and> t_owner (t_slots s k) = Some e"
    by (rule pool_representsE[OF assms(1)]) (rule that; assumption)
  have "(Some e) \<in> set (map fst (map (\<lambda>(e, p). (Some e, Some p)) xs))" using assms(2) by force
  then obtain k where k: "k \<in> set live" "t_owner (t_slots s k) = Some e"
    unfolding live[symmetric] by (auto simp: image_iff)
  moreover have "k \<in> set (free @ live)" using k by simp
  then have "k < SLOT_COUNT" unfolding all by (simp add: all_slots_def)
  ultimately show ?thesis using es by blast
qed

lemma no_slot_of_dead:
  assumes "pool_represents s xs" "e \<notin> fst ` set xs"
  shows "t_entry_slot s e = None"
proof (rule ccontr)
  assume "t_entry_slot s e \<noteq> None"
  then obtain k where k: "t_entry_slot s e = Some k" by auto
  obtain live where
    live: "map (\<lambda>k. (t_owner (t_slots s k), t_program (t_slots s k))) live = map (\<lambda>(e, p). (Some e, Some p)) xs"
    and es: "\<And>e k. t_entry_slot s e = Some k \<longleftrightarrow> k \<in> set live \<and> t_owner (t_slots s k) = Some e"
    by (rule pool_representsE[OF assms(1)]) (rule that; assumption)
  have "Some e \<in> fst ` set (map (\<lambda>k. (t_owner (t_slots s k), t_program (t_slots s k))) live)"
    using k es by force
  then show False unfolding live using assms(2) by force
qed

lemma eligibility_irrelevant [simp]:
  "pool_represents (s\<lparr>t_eligibility := x\<rparr>) xs = pool_represents s xs"
  by (simp add: pool_represents_def ring_def)

lemma forget_pool:
  assumes R: "pool_represents s xs"
  shows "pool_represents (avz_threaded_forget_entry e s) (filter (\<lambda>x. fst x \<noteq> e) xs)"
proof (cases "e \<in> fst ` set xs")
  case True
  then obtain k where "t_entry_slot s e = Some k" "t_owner (t_slots s k) = Some e" "k < SLOT_COUNT"
    using slot_of_live[OF R] by blast
  then show ?thesis using release_represents_pool[OF R, of k e] by (simp add: avz_threaded_forget_entry_def)
next
  case False
  then have "filter (\<lambda>x. fst x \<noteq> e) xs = xs" by (intro filter_True) force
  then show ?thesis using no_slot_of_dead[OF R False] R by (simp add: avz_threaded_forget_entry_def)
qed

text \<open>The oldest slot is free unless all slots are live, and then it holds the oldest program.\<close>

lemma oldest_slot:
  assumes R: "pool_represents s xs"
  shows "if t_program (t_slots s (t_lru s)) = None then length xs < SLOT_COUNT
         else length xs = SLOT_COUNT \<and> t_owner (t_slots s (t_lru s)) = Some (fst (hd xs)) \<and> t_lru s < SLOT_COUNT"
proof -
  obtain free live where r: "ring s (free @ live)" and all: "set (free @ live) = all_slots" and d: "distinct (free @ live)"
    and free: "\<And>j. j \<in> set free \<Longrightarrow> t_owner (t_slots s j) = None \<and> t_program (t_slots s j) = None"
    and live: "map (\<lambda>k. (t_owner (t_slots s k), t_program (t_slots s k))) live = map (\<lambda>(e, p). (Some e, Some p)) xs"
    by (rule pool_representsE[OF R]) (rule that; assumption)
  have n: "length free + length live = SLOT_COUNT" using length_all_slots[OF d all] by simp
  have lx: "length live = length xs" using arg_cong[OF live, of length] by simp
  show ?thesis
  proof (cases free)
    case (Cons f fs)
    then have "t_lru s = f" using r by (simp add: ring_def)
    then show ?thesis using free[of f] n lx Cons by simp
  next
    case Nil
    with n obtain k ks where lv: "live = k # ks" by (cases live) auto
    then obtain e p xs' where x: "xs = (e, p) # xs'" using lx by (cases xs) auto
    have "t_lru s = k" using r Nil lv by (simp add: ring_def)
    moreover have "t_owner (t_slots s k) = Some e" "t_program (t_slots s k) = Some p" using live lv x by auto
    moreover have "k \<in> set (free @ live)" using lv by simp
    then have "k < SLOT_COUNT" unfolding all by (simp add: all_slots_def)
    ultimately show ?thesis using n lx Nil x by simp
  qed
qed

lemma fill_oldest:
  assumes R: "pool_represents s xs" and e: "e \<notin> fst ` set xs" and n: "t_program (t_slots s (t_lru s)) = None"
    and s': "s' = avz_threaded_touch_slot (t_lru s)
               (set_slot (t_lru s) (\<lambda>t. t\<lparr>t_program := Some p, t_owner := Some e\<rparr>) s)"
  shows "pool_represents (s'\<lparr>t_entry_slot := (t_entry_slot s')(e := Some (t_lru s))\<rparr>) (xs @ [(e, p)])"
proof -
  obtain free live where r: "ring s (free @ live)" and all: "set (free @ live) = all_slots" and d: "distinct (free @ live)"
    and free: "\<And>j. j \<in> set free \<Longrightarrow> t_owner (t_slots s j) = None \<and> t_program (t_slots s j) = None"
    and live: "map (\<lambda>k. (t_owner (t_slots s k), t_program (t_slots s k))) live = map (\<lambda>(e, p). (Some e, Some p)) xs"
    and dx: "distinct (map fst xs)"
    and es: "\<And>e k. t_entry_slot s e = Some k \<longleftrightarrow> k \<in> set live \<and> t_owner (t_slots s k) = Some e"
    by (rule pool_representsE[OF R]) (rule that; assumption)
  have "length xs < SLOT_COUNT" using oldest_slot[OF R] n by simp
  moreover have "length free + length live = SLOT_COUNT" using length_all_slots[OF d all] by simp
  moreover have "length live = length xs" using arg_cong[OF live, of length] by simp
  ultimately obtain f fs where fr: "free = f # fs" by (cases free) auto
  have f: "t_lru s = f" using r fr by (simp add: ring_def)
  define s1 where "s1 = set_slot f (\<lambda>t. t\<lparr>t_program := Some p, t_owner := Some e\<rparr>) s"
  have "ring s1 (free @ live) = ring s (free @ live)" by (rule ring_links) (auto simp: s1_def)
  then have "ring (avz_threaded_touch_slot f s1) (remove1 f (free @ live) @ [f])" using r fr by (intro touch_ring) auto
  then have ring': "ring s' (fs @ (live @ [f]))" using fr by (simp add: s' s1_def f)
  have nf: "f \<notin> set live" "f \<notin> set fs" using d fr by auto
  have fields: "t_owner (t_slots s' k) = (if k = f then Some e else t_owner (t_slots s k))"
    "t_program (t_slots s' k) = (if k = f then Some p else t_program (t_slots s k))"
    "t_entry_slot s' = t_entry_slot s" for k by (simp_all add: s' f)
  have "map (\<lambda>k. (t_owner (t_slots s' k), t_program (t_slots s' k))) live =
      map (\<lambda>k. (t_owner (t_slots s k), t_program (t_slots s k))) live"
    by (rule map_cong[OF refl]) (use nf in \<open>auto simp: fields\<close>)
  then have lv': "map (\<lambda>k. (t_owner (t_slots s' k), t_program (t_slots s' k))) (live @ [f]) =
      map (\<lambda>(e, p). (Some e, Some p)) (xs @ [(e, p)])" using live by (simp add: fields)
  have nolive: "t_owner (t_slots s k) \<noteq> Some e" if "k \<in> set live" for k
    using es[of e k] no_slot_of_dead[OF R e] that by simp
  show ?thesis
  proof (rule pool_representsI[of _ fs "live @ [f]"])
    show "ring (s'\<lparr>t_entry_slot := (t_entry_slot s')(e := Some (t_lru s))\<rparr>) (fs @ (live @ [f]))"
      using ring' by (simp add: ring_def)
    show "set (fs @ live @ [f]) = all_slots" using all fr by auto
    show "distinct (map fst (xs @ [(e, p)]))" using dx e by auto
    fix e1 k1
    show "(t_entry_slot (s'\<lparr>t_entry_slot := (t_entry_slot s')(e := Some (t_lru s))\<rparr>) e1 = Some k1) =
        (k1 \<in> set (live @ [f]) \<and> t_owner (t_slots (s'\<lparr>t_entry_slot := (t_entry_slot s')(e := Some (t_lru s))\<rparr>) k1) = Some e1)"
      using es[of e1 k1] nf nolive by (auto simp: fields f)
  qed (use lv' free fr nf in \<open>auto simp: fields\<close>)
qed

lemma hit_program:
  assumes R: "pool_represents s xs" and e: "e \<in> fst ` set xs"
  shows "\<exists>k. t_entry_slot s e = Some k \<and> t_program (t_slots s k) = map_of xs e"
proof -
  obtain live where
    live: "map (\<lambda>k. (t_owner (t_slots s k), t_program (t_slots s k))) live = map (\<lambda>(e, p). (Some e, Some p)) xs"
    and d: "distinct (map fst xs)"
    and es: "\<And>e k. t_entry_slot s e = Some k \<longleftrightarrow> k \<in> set live \<and> t_owner (t_slots s k) = Some e"
    by (rule pool_representsE[OF R]) (rule that; assumption)
  obtain k where k: "t_entry_slot s e = Some k" "t_owner (t_slots s k) = Some e" using slot_of_live[OF R e] by blast
  then have "k \<in> set live" using es by blast
  then have "(t_owner (t_slots s k), t_program (t_slots s k)) \<in> set (map (\<lambda>k. (t_owner (t_slots s k), t_program (t_slots s k))) live)"
    by simp
  then obtain q where "(e, q) \<in> set xs" "t_program (t_slots s k) = Some q" unfolding live using k by auto
  then show ?thesis using d k by (auto intro: map_of_is_SomeI[symmetric])
qed

lemma empty_oldest:
  assumes R: "pool_represents s xs"
  defines "s1 \<equiv> (if t_program (t_slots s (t_lru s)) \<noteq> None then avz_threaded_release_slot (t_lru s) s else s)"
  shows "pool_represents s1 (if length xs = SLOT_COUNT then tl xs else xs)"
    "t_lru s1 = t_lru s" "t_program (t_slots s1 (t_lru s)) = None"
proof -
  show "t_lru s1 = t_lru s" by (simp add: s1_def avz_threaded_release_slot_def Let_def)
  show "t_program (t_slots s1 (t_lru s)) = None" by (simp add: s1_def)
  show "pool_represents s1 (if length xs = SLOT_COUNT then tl xs else xs)"
  proof (cases "t_program (t_slots s (t_lru s)) = None")
    case True
    then show ?thesis using R oldest_slot[OF R] by (simp add: s1_def)
  next
    case False
    have o: "length xs = SLOT_COUNT" "t_owner (t_slots s (t_lru s)) = Some (fst (hd xs))" "t_lru s < SLOT_COUNT"
      using oldest_slot[OF R] False by auto
    then obtain x xs' where x: "xs = x # xs'" by (cases xs) auto
    have "distinct (map fst xs)" using R by (auto simp: pool_represents_def)
    then have "filter (\<lambda>y. fst y \<noteq> fst x) xs = xs'" unfolding x by (auto intro!: filter_True simp: image_iff)
    then show ?thesis using release_represents_pool[OF R o(2,3)] False o(1) by (simp add: s1_def x)
  qed
qed

lemma request_pool:
  assumes R: "pool_represents s xs"
  shows "pool_represents (snd (threaded_request e program s)) (fifo_request e program xs)"
    "fst (threaded_request e program s) = (case map_of xs e of Some q \<Rightarrow> Some q | None \<Rightarrow> program)"
proof -
  let ?xs = "if length xs = SLOT_COUNT then tl xs else xs"
  have "pool_represents (snd (threaded_request e program s)) (fifo_request e program xs) \<and>
    fst (threaded_request e program s) = (case map_of xs e of Some q \<Rightarrow> Some q | None \<Rightarrow> program)"
  proof (cases "e \<in> fst ` set xs")
    case True
    then obtain k where "t_entry_slot s e = Some k" "t_program (t_slots s k) = map_of xs e"
      using hit_program[OF R] by blast
    moreover obtain q where "map_of xs e = Some q" using True by (cases "map_of xs e") (auto simp: map_of_eq_None_iff)
    ultimately show ?thesis using R True by (simp add: threaded_request_def fifo_request_def)
  next
    case False
    define s1 where "s1 = (if t_program (t_slots s (t_lru s)) \<noteq> None then avz_threaded_release_slot (t_lru s) s else s)"
    note s1 = empty_oldest[OF R, folded s1_def]
    have n: "t_entry_slot s e = None" by (rule no_slot_of_dead[OF R False])
    have m: "map_of xs e = None" using False by (simp add: map_of_eq_None_iff)
    have e': "e \<notin> fst ` set ?xs" using False by (cases xs) auto
    show ?thesis
    proof (cases program)
      case None
      have "t_slots s1 (t_lru s)\<lparr>t_program := None\<rparr> = t_slots s1 (t_lru s)"
        using s1(3) by (cases "t_slots s1 (t_lru s)") simp
      then have "set_slot (t_lru s) (\<lambda>t. t\<lparr>t_program := None\<rparr>) s1 = s1" by (simp add: set_slot_def)
      then have "threaded_request e program s = (None, s1\<lparr>t_eligibility := (t_eligibility s1)(e := 3)\<rparr>)"
        unfolding threaded_request_def claim_slot_def Let_def s1_def[symmetric] using n None by simp
      then show ?thesis using s1(1) False None m by (simp add: fifo_request_def)
    next
      case (Some p)
      let ?s2 = "avz_threaded_touch_slot (t_lru s) (set_slot (t_lru s) (\<lambda>t. t\<lparr>t_program := Some p, t_owner := Some e\<rparr>) s1)"
      have two: "set_slot (t_lru s) (\<lambda>t. t\<lparr>t_owner := Some e\<rparr>) (set_slot (t_lru s) (\<lambda>t. t\<lparr>t_program := Some p\<rparr>) s1) =
          set_slot (t_lru s) (\<lambda>t. t\<lparr>t_program := Some p, t_owner := Some e\<rparr>) s1" by (simp add: set_slot_def)
      have "threaded_request e program s = (Some p, ?s2\<lparr>t_entry_slot := (t_entry_slot ?s2)(e := Some (t_lru s))\<rparr>)"
        unfolding threaded_request_def claim_slot_def Let_def s1_def[symmetric] n Some option.case two by simp
      then show ?thesis using fill_oldest[OF s1(1) e', of ?s2 p] s1(2,3) False Some m by (simp add: fifo_request_def)
    qed
  qed
  then show "pool_represents (snd (threaded_request e program s)) (fifo_request e program xs)"
    "fst (threaded_request e program s) = (case map_of xs e of Some q \<Rightarrow> Some q | None \<Rightarrow> program)" by blast+
qed

subsection \<open>The fresh ring\<close>

lemma fold_set_slot:
  "distinct xs \<Longrightarrow> t_slots (fold (\<lambda>i. set_slot i (f i)) xs s) x = (if x \<in> set xs then f x (t_slots s x) else t_slots s x)"
  by (induction xs arbitrary: s) auto

lemma fold_set_slot_other [simp]:
  "t_lru (fold (\<lambda>i. set_slot i (f i)) xs s) = t_lru s"
  "t_entry_slot (fold (\<lambda>i. set_slot i (f i)) xs s) = t_entry_slot s"
  by (induction xs arbitrary: s) auto

lemma linked_upt:
  assumes "\<And>i. a \<le> i \<Longrightarrow> i < b \<Longrightarrow> nxt i = (if Suc i < b then Some (Suc i) else q)"
    "\<And>i. a \<le> i \<Longrightarrow> i < b \<Longrightarrow> prv i = (if i = a then p else Some (i - 1))"
  shows "linked nxt prv p [a ..< b] q"
  using assms
proof (induction "b - a" arbitrary: a p)
  case (Suc n)
  then have ab: "a < b" by simp
  have "linked nxt prv (Some a) [Suc a ..< b] q"
    by (rule Suc(1)) (use Suc in auto)
  moreover have "first_of [Suc a ..< b] q = (if Suc a < b then Some (Suc a) else q)"
    by (simp add: upt_rec[of "Suc a"])
  ultimately show ?case using Suc(3)[of a] Suc(4)[of a] ab by (simp add: upt_rec[of a b])
qed simp

lemma initialize_pool:
  assumes "\<And>k. k < SLOT_COUNT \<Longrightarrow> t_owner (t_slots s k) = None \<and> t_program (t_slots s k) = None"
    "\<And>e. t_entry_slot s e = None"
  shows "pool_represents (avz_threaded_initialize_lru s) []"
proof -
  let ?s = "avz_threaded_initialize_lru s"
  have f: "t_slots ?s k = (t_slots s k)\<lparr>t_previous := (k + 255) mod 256, t_next := (k + 1) mod 256\<rparr>" if "k < SLOT_COUNT" for k
    using that by (simp add: avz_threaded_initialize_lru_def fold_set_slot)
  have lru: "t_lru ?s = 0" and es: "t_entry_slot ?s = t_entry_slot s"
    by (simp_all add: avz_threaded_initialize_lru_def)
  have "linked (\<lambda>x. Some (t_next (t_slots ?s x))) (\<lambda>x. Some (t_previous (t_slots ?s x))) (Some 255) [0 ..< SLOT_COUNT] (Some 0)"
    by (rule linked_upt) (auto simp: f mod_if)
  moreover have "hd [0 ..< SLOT_COUNT] = 0" "List.last [0 ..< SLOT_COUNT] = 255" "[0 ..< SLOT_COUNT] \<noteq> []"
    by (simp_all add: hd_upt last_upt)
  ultimately have "ring ?s [0 ..< SLOT_COUNT]" using lru by (simp only: ring_def distinct_upt) simp
  then show ?thesis
    by (intro pool_representsI[of _ "[0 ..< SLOT_COUNT]" "[]"])
      (simp_all add: es assms f all_slots_def atLeast0LessThan del: upt_Suc)
qed

lemma release_keeps_pool:
  assumes R: "pool_represents s ys" and kb: "k < SLOT_COUNT"
  shows "\<exists>ys. pool_represents (avz_threaded_release_slot k s) ys"
proof (cases "t_owner (t_slots s k)")
  case (Some e)
  then show ?thesis using release_represents_pool[OF R Some kb] by blast
next
  case None
  obtain free live where r: "ring s (free @ live)" and all: "set (free @ live) = all_slots" and d: "distinct (free @ live)"
    and free: "\<And>j. j \<in> set free \<Longrightarrow> t_owner (t_slots s j) = None \<and> t_program (t_slots s j) = None"
    and live: "map (\<lambda>k. (t_owner (t_slots s k), t_program (t_slots s k))) live = map (\<lambda>(e, p). (Some e, Some p)) ys"
    and dx: "distinct (map fst ys)"
    and es: "\<And>e k. t_entry_slot s e = Some k \<longleftrightarrow> k \<in> set live \<and> t_owner (t_slots s k) = Some e"
    by (rule pool_representsE[OF R]) (rule that; assumption)
  have "k \<in> set (free @ live)" unfolding all using kb by (simp add: all_slots_def)
  moreover have nl: "k \<notin> set live"
  proof
    assume "k \<in> set live"
    then have "(t_owner (t_slots s k), t_program (t_slots s k)) \<in> set (map (\<lambda>k. (t_owner (t_slots s k), t_program (t_slots s k))) live)" by simp
    then show False unfolding live using None by auto
  qed
  ultimately have kf: "k \<in> set free" by simp
  let ?s = "avz_threaded_release_slot k s"
  have "map (\<lambda>k. (t_owner (t_slots ?s k), t_program (t_slots ?s k))) live = map (\<lambda>k. (t_owner (t_slots s k), t_program (t_slots s k))) live"
    by (rule map_cong[OF refl]) (use nl in auto)
  moreover have "ring ?s ((k # remove1 k free) @ live)" using release_ring[OF r, of k] kf by (simp add: remove1_append)
  moreover have "set ((k # remove1 k free) @ live) = all_slots" using all d kf by auto
  ultimately have "pool_represents ?s ys"
    using free live dx es nl None by (intro pool_representsI[of _ "k # remove1 k free" live]) (auto dest: set_remove1_subset[THEN subsetD])
  then show ?thesis by blast
qed

lemma release_all_pool:
  assumes R: "pool_represents s xs"
  shows "pool_represents (release_all_slots s) []"
proof -
  have all: "(\<exists>ys. pool_represents (fold avz_threaded_release_slot ks s) ys) \<and>
      (\<forall>k. k \<in> set ks \<or> t_program (t_slots s k) = None \<longrightarrow> t_program (t_slots (fold avz_threaded_release_slot ks s) k) = None)"
    if "\<exists>ys. pool_represents s ys" "set ks \<subseteq> {..<SLOT_COUNT}" for s :: "'a threaded_pool" and ks
    using that
  proof (induction ks arbitrary: s)
    case (Cons k ks)
    have "\<exists>ys. pool_represents (avz_threaded_release_slot k s) ys" using release_keeps_pool Cons.prems by auto
    from Cons.IH[OF this] Cons.prems(2) show ?case by auto
  qed simp
  let ?s = "fold avz_threaded_release_slot [0 ..< SLOT_COUNT] s"
  obtain ys where P: "pool_represents ?s ys" and none: "\<And>k. k < SLOT_COUNT \<Longrightarrow> t_program (t_slots ?s k) = None"
    using all[of s "[0 ..< SLOT_COUNT]"] R by (auto simp: atLeast0LessThan simp del: upt_Suc fold_simps)
  obtain free live where f: "set (free @ live) = all_slots"
    "\<And>j. j \<in> set free \<Longrightarrow> t_owner (t_slots ?s j) = None \<and> t_program (t_slots ?s j) = None"
    "map (\<lambda>k. (t_owner (t_slots ?s k), t_program (t_slots ?s k))) live = map (\<lambda>(e, p). (Some e, Some p)) ys"
    "\<And>e k. t_entry_slot ?s e = Some k \<longleftrightarrow> k \<in> set live \<and> t_owner (t_slots ?s k) = Some e"
    by (rule pool_representsE[OF P]) (rule that; assumption)
  have "live = []"
  proof (rule ccontr)
    assume "live \<noteq> []"
    then obtain k where k: "k \<in> set live" by (cases live) auto
    then have "k \<in> all_slots" using f(1) by auto
    then have "t_program (t_slots ?s k) = None" using none by (simp add: all_slots_def)
    moreover have "(t_owner (t_slots ?s k), t_program (t_slots ?s k)) \<in> set (map (\<lambda>(e, p). (Some e, Some p)) ys)"
      unfolding f(3)[symmetric] using k by simp
    ultimately show False by auto
  qed
  then show ?thesis unfolding release_all_slots_def
    using f by (intro initialize_pool) (auto simp: all_slots_def)
qed

subsection \<open>Property\<close>

lemma step_pool: "pool_represents s xs \<Longrightarrow> pool_represents (threaded_step op s) (fifo_step op xs)"
  by (cases op) (simp_all add: request_pool(1) forget_pool release_all_pool)

lemma run_pool: "pool_represents s xs \<Longrightarrow> pool_represents (fold threaded_step ops s) (fold fifo_step ops xs)"
  by (induction ops arbitrary: s xs) (simp_all add: step_pool)

definition empty_pool :: "'p threaded_pool" where
  "empty_pool = avz_threaded_initialize_lru
     \<lparr>t_slots = \<lambda>_. \<lparr>t_owner = None, t_program = None, t_previous = 0, t_next = 0\<rparr>, t_lru = 0,
      t_entry_slot = \<lambda>_. None, t_eligibility = \<lambda>_. 0\<rparr>"

lemma empty_pool_represents: "pool_represents empty_pool []"
  unfolding empty_pool_def by (rule initialize_pool) simp_all

text \<open>
  C21: the ring of slots is a bounded first-in first-out pool. After any run of requests, ends
  of entries and resets, a request returns the program the entry owns if it owns one and else
  the freshly prepared program; a new program evicts the oldest one when, and only when, all
  256 slots are live.
\<close>
theorem threaded_pool_refines_fifo:
  assumes "pool_represents s xs"
  shows "pool_represents (fold threaded_step ops s) (fold fifo_step ops xs) \<and>
    fst (threaded_request entry program (fold threaded_step ops s)) =
      (case map_of (fold fifo_step ops xs) entry of Some owned \<Rightarrow> Some owned | None \<Rightarrow> program)"
  using run_pool[OF assms] request_pool(2) by blast

theorem threaded_pool_refines_fifo_witness:
  "pool_represents (fold threaded_step [Threaded_request 7 (Some (70::nat))] empty_pool)
      (fold fifo_step [Threaded_request 7 (Some 70)] []) \<and>
   fst (threaded_request 7 (Some (71::nat)) (fold threaded_step [Threaded_request 7 (Some 70)] empty_pool)) = Some 70"
  using threaded_pool_refines_fifo[OF empty_pool_represents, of "[Threaded_request 7 (Some (70::nat))]" 7 "Some 71"]
  by (simp add: fifo_request_def)

end
