(* ===== verification/BlockIndex.thy ===== *)
theory BlockIndex
  imports Cpu GuestMemory AssemblyRetention ThreadedSlots
begin

text \<open>
  The state of the block cache of \<open>ARM64VizBlockCache.c\<close> and its bookkeeping: the index from
  physical code pages to decoded blocks, the reference counts and generations of the code
  pages, and the operations that retire blocks. Looking up and decoding blocks is theory
  \<open>BlockLookup\<close>.

  The cache works on a \<open>cache_world\<close>: the cache itself, the guest memory it is attached to and
  the context of the callbacks, so that a callback may change all three. Pointers into arrays
  of the cache are indices: a block is the index of its entry, a link the index of its slot,
  \<open>-1\<close> and \<open>NULL\<close> are \<open>None\<close>. The RAM the cache is bound to is the one of the guest memory;
  \<open>bc_ram\<close> is the identity of the bound buffer, which the code compares. Allocations succeed.
\<close>

subsection \<open>State\<close>

abbreviation SET_COUNT :: nat where "SET_COUNT \<equiv> 8192"
abbreviation WAY_COUNT :: nat where "WAY_COUNT \<equiv> 4"
abbreviation ENTRY_COUNT :: nat where "ENTRY_COUNT \<equiv> 32768"
abbreviation PAGE_BUCKET_COUNT :: nat where "PAGE_BUCKET_COUNT \<equiv> 16384"
abbreviation MAX_INSTRUCTIONS :: nat where "MAX_INSTRUCTIONS \<equiv> 16"
abbreviation MAX_CODE_PAGES :: nat where "MAX_CODE_PAGES \<equiv> 2"
abbreviation LINK_COUNT :: nat where "LINK_COUNT \<equiv> 65536"

record block_key =
  k_pc :: u64
  k_sctlr_el1 :: u64
  k_tcr_el1 :: u64
  k_ttbr0_el1 :: u64
  k_ttbr1_el1 :: u64
  k_current_el :: u8

text \<open>
  A successor remembers its target block and the serial number the target had. The code also
  keeps a pointer to the serial number, which is that of the target's entry.
\<close>

record successor =
  s_target :: "nat option"
  s_target_serial :: u64
  s_last_used :: u64

text \<open>One element of the parallel arrays \<open>physical_code_pages\<close> to \<open>shared_code_page_generations\<close>.\<close>

record code_page =
  p_physical :: u64
  p_host :: "nat option"
  p_token :: "nat option"
  p_generation :: u64
  p_shared_token :: "nat option"
  p_shared_generation :: u64

record decoded_block =
  b_key :: block_key
  b_instructions :: "instr list"
  b_physical_addresses :: "u64 list"
  b_semantic_candidates :: "u8 list"
  b_trace_semantic_candidates :: "u8 list"
  b_uses_vector_state :: bool
  b_chain_barrier :: bool
  b_requires_host_checkpoint :: bool
  b_code_pages :: "code_page list"
  b_successors :: "nat \<Rightarrow> successor"
  b_successor_clock :: u64

record cache_entry =
  n_block :: decoded_block
  n_serial :: u64
  n_validated_code_mutation_epoch :: u64
  n_validated_shared_code_mutation_epoch :: u64
  n_validated_translation_epoch :: u64
  n_last_used :: u64
  n_valid :: bool
  n_prefetched :: bool

record page_link =
  l_next :: "nat option"
  l_previous :: "nat option"
  l_page :: u64
  l_linked :: bool

record front_entry =
  f_hash :: u64
  f_entry_index :: nat
  f_valid :: bool

datatype cache_statistic =
  Hits | Misses | Decodes | Evictions | Invalidations | Invalidation_checks | Invalidation_skips
  | Front_hits | Code_page_generation_bumps | Stale_block_discards | Direct_code_fetches
  | Decode_window_hits | Decode_window_misses | Batch_prefetched_blocks | Batch_prefetch_hits
  | Batch_prefetch_unused | Batch_prefetch_limit_changes | Batch_prefetch_limit

text \<open>
  \<open>AVZNativeBlockCache\<close>. The three arrays \<open>code_page_refcounts\<close>, \<open>code_page_generations\<close>
  and \<open>trace_code_page_bits\<close> are allocated together; \<open>bc_tracked\<close> says that they are. The
  service chain is the list of the entries its programs were copied from.
\<close>

record ('p, 'q) block_cache =
  bc_chain :: "nat list option"
  bc_assembly :: "'p assembly_cache"
  bc_threaded :: "'q threaded_pool"
  bc_entries :: "nat \<Rightarrow> cache_entry"
  bc_page_links :: "nat \<Rightarrow> page_link"
  bc_page_bucket_heads :: "nat \<Rightarrow> nat option"
  bc_access_clock :: u64
  bc_front_entries :: "nat \<Rightarrow> front_entry"
  bc_last_context :: "(block_key \<times> u64) option"
  bc_tracked :: bool
  bc_code_page_refcounts :: "nat \<Rightarrow> u16"
  bc_code_page_generations :: "nat \<Rightarrow> u64"
  bc_trace_code_page_bits :: "nat \<Rightarrow> u8"
  bc_ram :: "nat option"
  bc_ram_base :: u64
  bc_ram_size :: u64
  bc_decode_window :: "(block_key \<times> u64 \<times> u64) option"
  bc_batch_prefetch_active :: bool
  bc_batch_prefetch_limit :: u8
  bc_batch_prefetch_window_hits :: u32
  bc_batch_prefetch_window_unused :: u32
  bc_tracked_first_page :: u64
  bc_tracked_page_count :: nat
  bc_next_serial :: u64
  bc_generation :: u64
  bc_mutation_epoch :: u64
  bc_code_mutation_epoch :: u64
  bc_reset_epoch :: u64
  bc_translation_epoch :: u64
  bc_has_guest_memory :: bool
  bc_statistics :: "cache_statistic \<Rightarrow> u64"

record ('p, 'q, 'x) cache_world =
  w_cache :: "('p, 'q) block_cache"
  w_memory :: guest_memory
  w_context :: 'x

definition on_cache ::
  "(('p, 'q) block_cache \<Rightarrow> ('p, 'q) block_cache) \<Rightarrow> ('p, 'q, 'x) cache_world \<Rightarrow> ('p, 'q, 'x) cache_world" where
  "on_cache f w = w\<lparr>w_cache := f (w_cache w)\<rparr>"

definition set_entry ::
  "nat \<Rightarrow> (cache_entry \<Rightarrow> cache_entry) \<Rightarrow> ('p, 'q) block_cache \<Rightarrow> ('p, 'q) block_cache" where
  "set_entry index f cache = cache\<lparr>bc_entries := (bc_entries cache)(index := f (bc_entries cache index))\<rparr>"

definition set_link ::
  "nat \<Rightarrow> (page_link \<Rightarrow> page_link) \<Rightarrow> ('p, 'q) block_cache \<Rightarrow> ('p, 'q) block_cache" where
  "set_link index f cache = cache\<lparr>bc_page_links := (bc_page_links cache)(index := f (bc_page_links cache index))\<rparr>"

definition count_statistic :: "cache_statistic \<Rightarrow> ('p, 'q) block_cache \<Rightarrow> ('p, 'q) block_cache" where
  "count_statistic x cache = cache\<lparr>bc_statistics := (bc_statistics cache)(x := bc_statistics cache x + 1)\<rparr>"

definition empty_link :: page_link where
  "empty_link = \<lparr>l_next = None, l_previous = None, l_page = 0, l_linked = False\<rparr>"

definition avz_advance_nonzero_counter :: "u64 \<Rightarrow> u64" where
  "avz_advance_nonzero_counter counter = (if counter + 1 = 0 then 1 else counter + 1)"

definition avz_mix_u64 :: "u64 \<Rightarrow> u64" where
  "avz_mix_u64 v =
     (let v = v XOR shr v 30;
          v = v * 0xbf58476d1ce4e5b9;
          v = v XOR shr v 27;
          v = v * 0x94d049bb133111eb
      in v XOR shr v 31)"

subsection \<open>Service chain\<close>

definition avz_assembly_chain_retire :: "('p, 'q) block_cache \<Rightarrow> ('p, 'q) block_cache" where
  "avz_assembly_chain_retire cache = cache\<lparr>bc_chain := None\<rparr>"

definition avz_assembly_chain_forget_entry :: "nat \<Rightarrow> ('p, 'q) block_cache \<Rightarrow> ('p, 'q) block_cache" where
  "avz_assembly_chain_forget_entry entry cache =
     (case bc_chain cache of
        None \<Rightarrow> cache
      | Some entries \<Rightarrow> if entry \<in> set entries then avz_assembly_chain_retire cache else cache)"

subsection \<open>Code pages\<close>

definition page_base :: "u64 \<Rightarrow> u64" where
  "page_base address = address AND NOT 0xfff"

definition avz_page_bucket :: "u64 \<Rightarrow> nat" where
  "avz_page_bucket page = unat (avz_mix_u64 (shr page 12) AND 16383)"

text \<open>The index of a page in the tracked arrays, where it is one of the tracked pages.\<close>

definition tracked_index :: "('p, 'q) block_cache \<Rightarrow> u64 \<Rightarrow> nat option" where
  "tracked_index cache page =
     (if \<not> bc_tracked cache \<or> page < bc_tracked_first_page cache then None
      else let page_index = unat (shr (page - bc_tracked_first_page cache) 12)
           in if page_index \<ge> bc_tracked_page_count cache then None else Some page_index)"

definition avz_track_code_page :: "u64 \<Rightarrow> ('p, 'q, 'x) cache_world \<Rightarrow> ('p, 'q, 'x) cache_world" where
  "avz_track_code_page page w =
     (let cache = w_cache w;
          w = (if bc_has_guest_memory cache
               then w\<lparr>w_memory := avz_guest_memory_mark_code_page page (bc_ram_base cache) (w_memory w)\<rparr> else w)
      in case tracked_index cache page of
           None \<Rightarrow> w
         | Some i \<Rightarrow>
             let refcounts = bc_code_page_refcounts cache
             in if refcounts i < 0xffff
                then w\<lparr>w_cache := cache\<lparr>bc_code_page_refcounts := refcounts(i := refcounts i + 1)\<rparr>\<rparr> else w)"

definition avz_untrack_code_page :: "u64 \<Rightarrow> ('p, 'q) block_cache \<Rightarrow> ('p, 'q) block_cache" where
  "avz_untrack_code_page page cache =
     (case tracked_index cache page of
        None \<Rightarrow> cache
      | Some i \<Rightarrow>
          let refcounts = bc_code_page_refcounts cache
          in if refcounts i > 0
             then cache\<lparr>bc_code_page_refcounts := refcounts(i := refcounts i - 1)\<rparr> else cache)"

definition avz_code_page_generation_token :: "('p, 'q) block_cache \<Rightarrow> u64 \<Rightarrow> nat option" where
  "avz_code_page_generation_token cache page = tracked_index cache page"

definition avz_trace_code_page_is_registered :: "('p, 'q) block_cache \<Rightarrow> nat \<Rightarrow> bool" where
  "avz_trace_code_page_is_registered cache page_index =
     (bc_tracked cache \<and> page_index < bc_tracked_page_count cache \<and>
      bc_trace_code_page_bits cache (page_index div 8) AND shl 1 (page_index mod 8) \<noteq> 0)"

definition avz_direct_physical_pointer :: "('p, 'q) block_cache \<Rightarrow> u64 \<Rightarrow> nat \<Rightarrow> nat option" where
  "avz_direct_physical_pointer cache physical_address byte_count =
     (if bc_ram cache = None \<or> byte_count = 0 \<or> physical_address < bc_ram_base cache then None
      else let offset = physical_address - bc_ram_base cache
           in if offset > bc_ram_size cache \<or> byte_count > unat (bc_ram_size cache - offset) then None
              else Some (unat offset))"

text \<open>The write generation token of a page of the guest memory, an index of its generations.\<close>

definition avz_guest_memory_page_write_generation_token :: "guest_memory \<Rightarrow> u64 \<Rightarrow> u64 \<Rightarrow> nat option" where
  "avz_guest_memory_page_write_generation_token memory physical_page ram_base =
     (case ram_offset physical_page ram_base of
        None \<Rightarrow> None
      | Some offset \<Rightarrow>
          if offset \<ge> g_size memory \<or> page_of offset \<ge> g_page_count memory then None
          else Some (page_of offset))"

definition avz_native_block_cache_shared_code_mutation_epoch :: "('p, 'q, 'x) cache_world \<Rightarrow> u64" where
  "avz_native_block_cache_shared_code_mutation_epoch w =
     (if bc_has_guest_memory (w_cache w) then g_code_mutation_epoch (w_memory w) else 0)"

definition avz_block_code_pages_are_current :: "('p, 'q) block_cache \<Rightarrow> decoded_block \<Rightarrow> bool" where
  "avz_block_code_pages_are_current cache block =
     list_all (\<lambda>p. case p_token p of None \<Rightarrow> True
                   | Some i \<Rightarrow> bc_code_page_generations cache i = p_generation p) (b_code_pages block)"

definition avz_block_shared_code_pages_are_current :: "('p, 'q, 'x) cache_world \<Rightarrow> decoded_block \<Rightarrow> bool" where
  "avz_block_shared_code_pages_are_current w block =
     (\<not> bc_has_guest_memory (w_cache w) \<or>
      list_all (\<lambda>p. case p_shared_token p of None \<Rightarrow> True
                    | Some i \<Rightarrow> g_page_write_generations (w_memory w) i = p_shared_generation p)
        (b_code_pages block))"

definition avz_range_may_contain_code :: "('p, 'q) block_cache \<Rightarrow> u64 \<Rightarrow> u64 \<Rightarrow> bool" where
  "avz_range_may_contain_code cache physical_address last_address =
     (if \<not> bc_tracked cache \<or> bc_tracked_page_count cache = 0 then True
      else
        let first_page = page_base physical_address;
            last_page = page_base last_address;
            tracked_last_page = bc_tracked_first_page cache +
              shl (word_of_nat (bc_tracked_page_count cache - 1)) 12
        in if first_page < bc_tracked_first_page cache \<or> last_page > tracked_last_page then True
           else
             let first_index = unat (shr (first_page - bc_tracked_first_page cache) 12);
                 last_index = unat (shr (last_page - bc_tracked_first_page cache) 12)
             in list_ex (\<lambda>i. bc_code_page_refcounts cache i \<noteq> 0 \<or> avz_trace_code_page_is_registered cache i)
                  [first_index ..< Suc last_index])"

subsection \<open>The page index\<close>

text \<open>Link \<open>entry * 2 + slot\<close> belongs to an entry; the links of a page hash to one bucket.\<close>

definition avz_unlink_page_link :: "nat \<Rightarrow> ('p, 'q) block_cache \<Rightarrow> ('p, 'q) block_cache" where
  "avz_unlink_page_link link_index cache =
     (let link = bc_page_links cache link_index in
      if \<not> l_linked link then cache
      else
        let cache = avz_untrack_code_page (l_page link) cache;
            bucket = avz_page_bucket (l_page link);
            cache = (case l_previous link of
                       Some previous \<Rightarrow> set_link previous (l_next_update (\<lambda>_. l_next link)) cache
                     | None \<Rightarrow> cache\<lparr>bc_page_bucket_heads := (bc_page_bucket_heads cache)(bucket := l_next link)\<rparr>);
            cache = (case l_next link of
                       Some following \<Rightarrow> set_link following (l_previous_update (\<lambda>_. l_previous link)) cache
                     | None \<Rightarrow> cache)
        in set_link link_index (\<lambda>_. empty_link) cache)"

definition avz_unindex_entry :: "nat \<Rightarrow> ('p, 'q) block_cache \<Rightarrow> ('p, 'q) block_cache" where
  "avz_unindex_entry entry_index cache =
     fold (\<lambda>slot. avz_unlink_page_link (entry_index * MAX_CODE_PAGES + slot)) [0 ..< MAX_CODE_PAGES]
       (avz_assembly_chain_forget_entry entry_index cache)"

definition avz_link_entry_page :: "nat \<Rightarrow> nat \<Rightarrow> u64 \<Rightarrow> ('p, 'q, 'x) cache_world \<Rightarrow> ('p, 'q, 'x) cache_world" where
  "avz_link_entry_page entry_index slot page w =
     (let link_index = entry_index * MAX_CODE_PAGES + slot;
          bucket = avz_page_bucket page;
          cache = w_cache w;
          old_head = bc_page_bucket_heads cache bucket;
          cache = set_link link_index
            (\<lambda>_. \<lparr>l_next = old_head, l_previous = None, l_page = page, l_linked = True\<rparr>) cache;
          cache = (case old_head of
                     Some head \<Rightarrow> set_link head (l_previous_update (\<lambda>_. Some link_index)) cache
                   | None \<Rightarrow> cache);
          cache = cache\<lparr>bc_page_bucket_heads := (bc_page_bucket_heads cache)(bucket := Some link_index)\<rparr>
      in avz_track_code_page page (w\<lparr>w_cache := cache\<rparr>))"

text \<open>The distinct pages of the instructions, at most two.\<close>

definition code_pages_of :: "u64 list \<Rightarrow> u64 list" where
  "code_pages_of addresses =
     fold (\<lambda>address pages. let page = page_base address
             in if page \<notin> set pages \<and> length pages < MAX_CODE_PAGES then pages @ [page] else pages)
       addresses []"

text \<open>One round of the loop that links a page and records its generations in the block.\<close>

definition index_page ::
  "nat \<Rightarrow> nat \<times> u64 \<Rightarrow> ('p, 'q, 'x) cache_world \<Rightarrow> ('p, 'q, 'x) cache_world" where
  "index_page entry_index = (\<lambda>(slot, page) w.
     let w = avz_link_entry_page entry_index slot page w;
         cache = w_cache w;
         token = avz_code_page_generation_token cache page;
         shared = (if bc_has_guest_memory cache
                   then avz_guest_memory_page_write_generation_token (w_memory w) page (bc_ram_base cache)
                   else None);
         p = \<lparr>p_physical = page, p_host = avz_direct_physical_pointer cache page 1, p_token = token,
              p_generation = (case token of None \<Rightarrow> 0 | Some i \<Rightarrow> bc_code_page_generations cache i),
              p_shared_token = shared,
              p_shared_generation = (case shared of None \<Rightarrow> 0 | Some i \<Rightarrow> g_page_write_generations (w_memory w) i)\<rparr>
     in on_cache (set_entry entry_index (n_block_update (b_code_pages_update (\<lambda>ps. ps @ [p])))) w)"

definition avz_index_entry :: "nat \<Rightarrow> ('p, 'q, 'x) cache_world \<Rightarrow> ('p, 'q, 'x) cache_world" where
  "avz_index_entry entry_index w =
     (let pages = code_pages_of (b_physical_addresses (n_block (bc_entries (w_cache w) entry_index)))
      in fold (index_page entry_index) (enumerate 0 pages)
           (on_cache (set_entry entry_index (n_block_update (b_code_pages_update (\<lambda>_. [])))) w))"

subsection \<open>Prefetch accounting\<close>

definition avz_record_prefetch_outcome :: "bool \<Rightarrow> ('p, 'q) block_cache \<Rightarrow> ('p, 'q) block_cache" where
  "avz_record_prefetch_outcome useful cache =
     (let cache = (if useful
            then cache\<lparr>bc_batch_prefetch_window_hits := bc_batch_prefetch_window_hits cache + 1\<rparr>
            else cache\<lparr>bc_batch_prefetch_window_unused := bc_batch_prefetch_window_unused cache + 1\<rparr>);
          hits = bc_batch_prefetch_window_hits cache;
          outcomes = hits + bc_batch_prefetch_window_unused cache
      in if outcomes < 4096 then cache
         else
           let next_limit =
                 (if zext64 hits * 100 \<ge> zext64 outcomes * 80 then 3
                  else if zext64 hits * 100 \<ge> zext64 outcomes * 65 then 2
                  else if zext64 hits * 100 \<ge> zext64 outcomes * 55 then 1 else 0);
               cache = (if next_limit \<noteq> bc_batch_prefetch_limit cache
                 then let cache = count_statistic Batch_prefetch_limit_changes
                                    (cache\<lparr>bc_batch_prefetch_limit := next_limit\<rparr>)
                      in cache\<lparr>bc_statistics := (bc_statistics cache)(Batch_prefetch_limit := ucast next_limit)\<rparr>
                 else cache)
           in cache\<lparr>bc_batch_prefetch_window_hits := 0, bc_batch_prefetch_window_unused := 0\<rparr>)"

definition avz_retire_unused_prefetch :: "nat \<Rightarrow> ('p, 'q) block_cache \<Rightarrow> ('p, 'q) block_cache" where
  "avz_retire_unused_prefetch entry_index cache =
     (let entry = bc_entries cache entry_index
      in if n_valid entry \<and> n_prefetched entry
         then avz_record_prefetch_outcome False
                (set_entry entry_index (n_prefetched_update (\<lambda>_. False))
                  (count_statistic Batch_prefetch_unused cache))
         else cache)"

definition avz_record_prefetch_hit :: "nat \<Rightarrow> ('p, 'q) block_cache \<Rightarrow> ('p, 'q) block_cache" where
  "avz_record_prefetch_hit entry_index cache =
     (if \<not> bc_batch_prefetch_active cache \<and> n_prefetched (bc_entries cache entry_index)
      then avz_record_prefetch_outcome True
             (set_entry entry_index (n_prefetched_update (\<lambda>_. False))
               (count_statistic Batch_prefetch_hits cache))
      else cache)"

definition avz_touch_entry :: "nat \<Rightarrow> ('p, 'q) block_cache \<Rightarrow> ('p, 'q) block_cache" where
  "avz_touch_entry entry_index cache =
     (let clock = avz_advance_nonzero_counter (bc_access_clock cache)
      in set_entry entry_index (n_last_used_update (\<lambda>_. clock)) (cache\<lparr>bc_access_clock := clock\<rparr>))"

subsection \<open>Retiring blocks\<close>

text \<open>The programs prepared from a decoded entry end with it.\<close>

definition forget_programs :: "nat \<Rightarrow> ('p, 'q) block_cache \<Rightarrow> ('p, 'q) block_cache" where
  "forget_programs entry_index cache =
     (let cache = cache\<lparr>bc_threaded := avz_threaded_forget_entry entry_index (bc_threaded cache)\<rparr>
      in cache\<lparr>bc_assembly := avz_assembly_forget_entry entry_index (bc_assembly cache)\<rparr>)"

definition advance_mutation_epoch :: "('p, 'q) block_cache \<Rightarrow> ('p, 'q) block_cache" where
  "advance_mutation_epoch cache =
     cache\<lparr>bc_mutation_epoch := avz_advance_nonzero_counter (bc_mutation_epoch cache)\<rparr>"

definition advance_code_mutation_epoch :: "('p, 'q) block_cache \<Rightarrow> ('p, 'q) block_cache" where
  "advance_code_mutation_epoch cache =
     cache\<lparr>bc_code_mutation_epoch := avz_advance_nonzero_counter (bc_code_mutation_epoch cache)\<rparr>"

definition avz_discard_stale_entry :: "nat \<Rightarrow> ('p, 'q) block_cache \<Rightarrow> ('p, 'q) block_cache" where
  "avz_discard_stale_entry entry_index cache =
     (if \<not> n_valid (bc_entries cache entry_index) then cache
      else
        let cache = avz_retire_unused_prefetch entry_index cache;
            cache = avz_unindex_entry entry_index cache;
            cache = forget_programs entry_index cache;
            cache = set_entry entry_index
              (\<lambda>n. n\<lparr>n_valid := False, n_serial := 0, n_validated_code_mutation_epoch := 0\<rparr>) cache;
            cache = advance_mutation_epoch cache
        in count_statistic Stale_block_discards (count_statistic Invalidations cache))"

definition avz_invalidate_entry :: "nat \<Rightarrow> ('p, 'q) block_cache \<Rightarrow> ('p, 'q) block_cache" where
  "avz_invalidate_entry entry_index cache =
     (if \<not> n_valid (bc_entries cache entry_index) then cache
      else
        let cache = avz_retire_unused_prefetch entry_index cache;
            cache = avz_unindex_entry entry_index cache;
            cache = forget_programs entry_index cache;
            cache = set_entry entry_index (\<lambda>n. n\<lparr>n_valid := False, n_serial := 0\<rparr>) cache;
            cache = cache\<lparr>bc_generation := avz_advance_nonzero_counter (bc_generation cache)\<rparr>;
            cache = advance_mutation_epoch cache
        in count_statistic Invalidations cache)"

definition avz_native_block_cache_invalidate_decode_window :: "('p, 'q) block_cache \<Rightarrow> ('p, 'q) block_cache" where
  "avz_native_block_cache_invalidate_decode_window cache = cache\<lparr>bc_decode_window := None\<rparr>"

definition avz_native_block_cache_invalidate_translation_mappings ::
  "('p, 'q) block_cache \<Rightarrow> ('p, 'q) block_cache" where
  "avz_native_block_cache_invalidate_translation_mappings cache =
     (let cache = avz_assembly_chain_retire cache;
          cache = cache\<lparr>bc_decode_window := None\<rparr>;
          cache = cache\<lparr>bc_translation_epoch := avz_advance_nonzero_counter (bc_translation_epoch cache)\<rparr>
      in advance_code_mutation_epoch cache)"

subsection \<open>Physical ranges\<close>

text \<open>The pages from \<open>first\<close> to \<open>last\<close>, in the order of the loops over them.\<close>

definition pages_between :: "u64 \<Rightarrow> u64 \<Rightarrow> u64 list" where
  "pages_between first_page last_page =
     map (\<lambda>i. first_page + word_of_nat (i * 4096)) [0 ..< Suc (unat (shr (last_page - first_page) 12))]"

text \<open>The generations of the tracked pages of the range that hold code.\<close>

definition bump_page :: "u64 \<Rightarrow> bool \<times> ('p, 'q) block_cache \<Rightarrow> bool \<times> ('p, 'q) block_cache" where
  "bump_page page = (\<lambda>(bumped, cache).
     let i = unat (shr (page - bc_tracked_first_page cache) 12)
     in if bc_code_page_refcounts cache i \<noteq> 0 \<or> avz_trace_code_page_is_registered cache i
        then (True, count_statistic Code_page_generation_bumps
               (cache\<lparr>bc_code_page_generations := (bc_code_page_generations cache)
                  (i := avz_advance_nonzero_counter (bc_code_page_generations cache i))\<rparr>))
        else (bumped, cache))"

definition block_overlaps :: "decoded_block \<Rightarrow> u64 \<Rightarrow> u64 \<Rightarrow> bool" where
  "block_overlaps block physical_address last_address =
     list_ex (\<lambda>instruction_address.
         let instruction_last = (if instruction_address > - 1 - 3 then - 1 else instruction_address + 3)
         in instruction_address \<le> last_address \<and> instruction_last \<ge> physical_address)
       (b_physical_addresses block)"

text \<open>
  The walk over the links of a bucket, with the number of links it may still visit; a bucket
  cannot hold more than all \<open>LINK_COUNT\<close> links.
\<close>

primrec walk_bucket ::
  "nat \<Rightarrow> u64 \<Rightarrow> u64 \<Rightarrow> u64 \<Rightarrow> nat option \<Rightarrow> ('p, 'q) block_cache \<Rightarrow> ('p, 'q) block_cache" where
  "walk_bucket 0 page physical_address last_address link_index cache = cache"
| "walk_bucket (Suc n) page physical_address last_address link_index cache =
     (case link_index of
        None \<Rightarrow> cache
      | Some i \<Rightarrow>
          let link = bc_page_links cache i;
              entry_index = i div MAX_CODE_PAGES;
              cache = (if l_linked link \<and> l_page link = page \<and>
                          block_overlaps (n_block (bc_entries cache entry_index)) physical_address last_address
                       then avz_invalidate_entry entry_index cache else cache)
          in walk_bucket n page physical_address last_address (l_next link) cache)"

definition avz_native_block_cache_invalidate_physical_range ::
  "u64 \<Rightarrow> u64 \<Rightarrow> ('p, 'q) block_cache \<Rightarrow> ('p, 'q) block_cache" where
  "avz_native_block_cache_invalidate_physical_range physical_address byte_count cache =
     (if byte_count = 0 then cache
      else
        let last_address = physical_address + (byte_count - 1);
            last_address = (if last_address < physical_address then - 1 else last_address);
            first_page = page_base physical_address;
            last_page = page_base last_address;
            cache = count_statistic Invalidation_checks cache
        in if \<not> avz_range_may_contain_code cache physical_address last_address
           then count_statistic Invalidation_skips cache
           else
             let cache = avz_assembly_chain_retire cache;
                 tracked_last_page =
                   (if bc_tracked_page_count cache = 0 then 0
                    else bc_tracked_first_page cache + shl (word_of_nat (bc_tracked_page_count cache - 1)) 12)
             in if bc_tracked cache \<and> first_page \<ge> bc_tracked_first_page cache \<and> last_page \<le> tracked_last_page
                then
                  let (bumped, cache) = fold bump_page (pages_between first_page last_page) (False, cache)
                  in if bumped then advance_code_mutation_epoch cache
                     else count_statistic Invalidation_skips cache
                else
                  fold (\<lambda>page cache. walk_bucket LINK_COUNT page physical_address last_address
                                       (bc_page_bucket_heads cache (avz_page_bucket page)) cache)
                    (pages_between first_page last_page) cache)"

subsection \<open>Creation, reset and configuration\<close>

definition empty_key :: block_key where
  "empty_key = \<lparr>k_pc = 0, k_sctlr_el1 = 0, k_tcr_el1 = 0, k_ttbr0_el1 = 0, k_ttbr1_el1 = 0, k_current_el = 0\<rparr>"

definition empty_block :: decoded_block where
  "empty_block = \<lparr>b_key = empty_key, b_instructions = [], b_physical_addresses = [],
     b_semantic_candidates = [], b_trace_semantic_candidates = [], b_uses_vector_state = False,
     b_chain_barrier = False, b_requires_host_checkpoint = False, b_code_pages = [],
     b_successors = \<lambda>_. \<lparr>s_target = None, s_target_serial = 0, s_last_used = 0\<rparr>, b_successor_clock = 0\<rparr>"

definition empty_entry :: cache_entry where
  "empty_entry = \<lparr>n_block = empty_block, n_serial = 0, n_validated_code_mutation_epoch = 0,
     n_validated_shared_code_mutation_epoch = 0, n_validated_translation_epoch = 0, n_last_used = 0,
     n_valid = False, n_prefetched = False\<rparr>"

definition avz_native_block_cache_create :: "('p, 'q) block_cache" where
  "avz_native_block_cache_create =
     \<lparr>bc_chain = None, bc_assembly = empty_assembly_cache, bc_threaded = empty_pool,
      bc_entries = \<lambda>_. empty_entry, bc_page_links = \<lambda>_. empty_link, bc_page_bucket_heads = \<lambda>_. None,
      bc_access_clock = 0, bc_front_entries = \<lambda>_. \<lparr>f_hash = 0, f_entry_index = 0, f_valid = False\<rparr>,
      bc_last_context = None, bc_tracked = False, bc_code_page_refcounts = \<lambda>_. 0,
      bc_code_page_generations = \<lambda>_. 0, bc_trace_code_page_bits = \<lambda>_. 0, bc_ram = None, bc_ram_base = 0,
      bc_ram_size = 0, bc_decode_window = None, bc_batch_prefetch_active = False,
      bc_batch_prefetch_limit = 3, bc_batch_prefetch_window_hits = 0, bc_batch_prefetch_window_unused = 0,
      bc_tracked_first_page = 0, bc_tracked_page_count = 0, bc_next_serial = 0, bc_generation = 1,
      bc_mutation_epoch = 1, bc_code_mutation_epoch = 1, bc_reset_epoch = 1, bc_translation_epoch = 0,
      bc_has_guest_memory = False, bc_statistics = (\<lambda>_. 0)(Batch_prefetch_limit := 3)\<rparr>"

text \<open>\<open>None\<close> is a reset that does not return, in the release loops of the assembly programs.\<close>

definition avz_native_block_cache_clear :: "('p, 'q) block_cache \<Rightarrow> ('p, 'q) block_cache option" where
  "avz_native_block_cache_clear cache =
     (let cache = avz_assembly_chain_retire cache in
      map_option (\<lambda>assembly.
        cache\<lparr>bc_assembly := assembly\<lparr>a_retention := \<lambda>_. no_retention, a_capability := \<lambda>_. 0\<rparr>,
          bc_threaded := (release_all_slots (bc_threaded cache))\<lparr>t_entry_slot := \<lambda>_. None, t_eligibility := \<lambda>_. 0\<rparr>,
          bc_generation := avz_advance_nonzero_counter (bc_generation cache),
          bc_mutation_epoch := avz_advance_nonzero_counter (bc_mutation_epoch cache),
          bc_code_mutation_epoch := avz_advance_nonzero_counter (bc_code_mutation_epoch cache),
          bc_reset_epoch := avz_advance_nonzero_counter (bc_reset_epoch cache),
          bc_entries := \<lambda>_. empty_entry,
          bc_access_clock := 0,
          bc_front_entries := \<lambda>_. \<lparr>f_hash = 0, f_entry_index = 0, f_valid = False\<rparr>,
          bc_last_context := None,
          bc_decode_window := None,
          bc_batch_prefetch_active := False,
          bc_code_page_refcounts := \<lambda>_. 0,
          bc_trace_code_page_bits := \<lambda>_. 0,
          bc_page_bucket_heads := \<lambda>_. None,
          bc_page_links := \<lambda>_. empty_link\<rparr>)
        (avz_assembly_clear (bc_assembly cache)))"

definition avz_native_block_cache_configure_physical_range ::
  "u64 \<Rightarrow> u64 \<Rightarrow> ('p, 'q) block_cache \<Rightarrow> (bool \<times> ('p, 'q) block_cache) option" where
  "avz_native_block_cache_configure_physical_range physical_address byte_count cache =
     (if byte_count = 0 then Some (False, cache)
      else
        let last_address = physical_address + (byte_count - 1)
        in if last_address < physical_address then Some (False, cache)
           else
             let first_page = page_base physical_address;
                 last_page = page_base last_address;
                 page_count = unat (shr (last_page - first_page) 12 + 1)
             in if bc_tracked cache \<and> bc_tracked_first_page cache = first_page \<and>
                   bc_tracked_page_count cache = page_count
                then Some (True, cache)
                else map_option (\<lambda>cache. (True, cache\<lparr>bc_tracked := True,
                       bc_code_page_refcounts := \<lambda>_. 0, bc_code_page_generations := \<lambda>_. 1,
                       bc_trace_code_page_bits := \<lambda>_. 0, bc_tracked_first_page := first_page,
                       bc_tracked_page_count := page_count, bc_ram := None, bc_ram_base := 0,
                       bc_ram_size := 0\<rparr>))
                     (avz_native_block_cache_clear cache))"

definition avz_native_block_cache_bind_physical_memory ::
  "nat \<Rightarrow> u64 \<Rightarrow> u64 \<Rightarrow> ('p, 'q) block_cache \<Rightarrow> (bool \<times> ('p, 'q) block_cache) option" where
  "avz_native_block_cache_bind_physical_memory ram physical_address byte_count cache =
     (if byte_count = 0 \<or> physical_address > - 1 - (byte_count - 1) then Some (False, cache)
      else
        let first_page = page_base physical_address;
            last_page = page_base (physical_address + byte_count - 1);
            page_count = unat (shr (last_page - first_page) 12 + 1);
            range_matches = (bc_tracked cache \<and> bc_tracked_first_page cache = first_page \<and>
              bc_tracked_page_count cache = page_count);
            bind = (\<lambda>cache. (True, cache\<lparr>bc_ram := Some ram, bc_ram_base := physical_address,
                      bc_ram_size := byte_count\<rparr>))
        in if bc_ram cache = Some ram \<and> bc_ram_base cache = physical_address \<and>
              bc_ram_size cache = byte_count \<and> range_matches
           then Some (True, cache)
           else if range_matches then map_option bind (avz_native_block_cache_clear cache)
           else map_option (\<lambda>(ok, cache). if ok then bind cache else (False, cache))
                  (avz_native_block_cache_configure_physical_range physical_address byte_count cache))"

text \<open>Attaching to the guest memory; the null pointer has no counterpart.\<close>

definition avz_native_block_cache_set_guest_memory :: "('p, 'q) block_cache \<Rightarrow> ('p, 'q) block_cache option" where
  "avz_native_block_cache_set_guest_memory cache =
     (if bc_has_guest_memory cache then Some cache
      else avz_native_block_cache_clear (cache\<lparr>bc_has_guest_memory := True\<rparr>))"

definition avz_native_block_cache_register_trace_code_page ::
  "u64 \<Rightarrow> ('p, 'q, 'x) cache_world \<Rightarrow> (nat \<times> u64) option \<times> ('p, 'q, 'x) cache_world" where
  "avz_native_block_cache_register_trace_code_page physical_code_page w =
     (let cache = w_cache w in
      if physical_code_page AND 0xfff \<noteq> 0 then (None, w)
      else
        case tracked_index cache physical_code_page of
          None \<Rightarrow> (None, w)
        | Some i \<Rightarrow>
            let bits = bc_trace_code_page_bits cache;
                w = w\<lparr>w_cache := cache\<lparr>bc_trace_code_page_bits :=
                       bits(i div 8 := bits (i div 8) OR shl 1 (i mod 8))\<rparr>\<rparr>;
                w = (if bc_has_guest_memory cache
                     then w\<lparr>w_memory := avz_guest_memory_mark_code_page physical_code_page
                            (bc_ram_base cache) (w_memory w)\<rparr> else w)
            in (Some (i, bc_code_page_generations cache i), w))"

end
