(* ===== verification/IndexInvariant.thy ===== *)
theory IndexInvariant
  imports BlockIndex
begin

text \<open>
  The invariant of the page index of the block cache: the links of every bucket form a doubly
  linked list, the reference count of a code page is the number of links to it, and the blocks
  in use are linked to the pages their instructions lie on. Every operation that indexes or
  retires a block keeps it. The abstract view of the index is \<open>link_page\<close>, the page each link
  stands for.
\<close>

subsection \<open>Pages\<close>

definition aligned :: "u64 \<Rightarrow> bool" where
  "aligned page \<longleftrightarrow> page_base page = page"

lemma page_base_arith: "unat (page_base a) = unat a div 4096 * 4096"
proof -
  have m: "(0xfff :: u64) = mask 12" by (simp add: mask_eq_exp_minus_1)
  have "page_base a = push_bit 12 (drop_bit 12 a)"
    unfolding page_base_def m
    by (rule bit_word_eqI) (auto simp: bit_simps)
  then have "unat (page_base a) = take_bit 64 (push_bit 12 (drop_bit 12 (unat a)))"
    using take_bit_nat_eq_self[OF unsigned_less, of a]
    by (simp add: unsigned_push_bit_eq unsigned_drop_bit_eq)
  also have "push_bit 12 (drop_bit 12 (unat a)) = unat a div 4096 * 4096"
    by (simp add: push_bit_eq_mult drop_bit_eq_div)
  also have "take_bit 64 (unat a div 4096 * 4096) = unat a div 4096 * 4096"
  proof (rule take_bit_nat_eq_self)
    have "unat a div 4096 * 4096 \<le> unat a" by simp
    also have "unat a < 2 ^ 64" using unsigned_less[of a] by simp
    finally show "unat a div 4096 * 4096 < 2 ^ 64" .
  qed
  finally show ?thesis .
qed

lemma aligned_iff: "aligned p \<longleftrightarrow> unat p mod 4096 = 0"
proof -
  have "aligned p \<longleftrightarrow> unat p div 4096 * 4096 = unat p"
    unfolding aligned_def by (metis page_base_arith word_unat_eq_iff)
  also have "\<dots> \<longleftrightarrow> unat p mod 4096 = 0"
    using div_mult_mod_eq[of "unat p" 4096] by linarith
  finally show ?thesis .
qed

lemma aligned_page_base [simp]: "aligned (page_base a)"
  by (simp add: aligned_iff page_base_arith)

lemma page_number:
  assumes "first \<le> p"
  shows "unat (shr (p - first) 12) = (unat p - unat (first :: u64)) div 4096"
proof -
  have "unat (shr (p - first) 12) = unat (p - first) div 2 ^ 12"
    by (subst unat_drop_bit_eq) (rule drop_bit_eq_div)
  also have "unat (p - first) = unat p - unat first" using assms by (rule unat_sub)
  finally show ?thesis by simp
qed

lemma page_number_inj:
  fixes p q f :: nat
  assumes "(p - f) div 4096 = (q - f) div 4096" "p mod 4096 = 0" "q mod 4096 = 0" "f mod 4096 = 0" "f \<le> p" "f \<le> q"
  shows "p = q"
proof -
  have "(4096 :: nat) dvd p" "(4096 :: nat) dvd q" "(4096 :: nat) dvd f" using assms by auto
  then have "4096 dvd p - f" "4096 dvd q - f" by (auto intro: dvd_diff_nat)
  then have "p - f = q - f" using assms(1) by (metis dvd_div_mult_self)
  then show ?thesis using assms(5,6) by linarith
qed

lemma tracked_index_inj:
  assumes "tracked_index cache p = Some k" "tracked_index cache q = Some k" "aligned p" "aligned q"
    "aligned (bc_tracked_first_page cache)"
  shows "p = q"
proof -
  let ?f = "bc_tracked_first_page cache"
  have le: "?f \<le> p" "?f \<le> q" and "unat (shr (p - ?f) 12) = unat (shr (q - ?f) 12)"
    using assms(1,2) by (auto simp: tracked_index_def Let_def split: if_splits)
  then have "(unat p - unat ?f) div 4096 = (unat q - unat ?f) div 4096" by (simp only: page_number)
  then have "unat p = unat q"
    by (rule page_number_inj) (use assms(3-5) le in \<open>simp_all add: aligned_iff word_le_nat_alt\<close>)
  then show ?thesis by (rule unsigned_word_eqI)
qed

subsection \<open>Invariant\<close>

definition link_page :: "('p, 'q) block_cache \<Rightarrow> nat \<Rightarrow> u64 option" where
  "link_page cache i =
     (if l_linked (bc_page_links cache i) then Some (l_page (bc_page_links cache i)) else None)"

definition next_link :: "('p, 'q) block_cache \<Rightarrow> nat \<Rightarrow> nat option" where
  "next_link cache i = l_next (bc_page_links cache i)"

definition previous_link :: "('p, 'q) block_cache \<Rightarrow> nat \<Rightarrow> nat option" where
  "previous_link cache i = l_previous (bc_page_links cache i)"

definition in_bucket :: "('p, 'q) block_cache \<Rightarrow> nat \<Rightarrow> nat set" where
  "in_bucket cache b = {i. \<exists>page. link_page cache i = Some page \<and> avz_page_bucket page = b}"

definition bucket_list :: "('p, 'q) block_cache \<Rightarrow> nat \<Rightarrow> nat list \<Rightarrow> bool" where
  "bucket_list cache b xs \<longleftrightarrow>
     linked (next_link cache) (previous_link cache) None xs None \<and>
     bc_page_bucket_heads cache b = first_of xs None \<and> distinct xs \<and> set xs = in_bucket cache b"

definition links_of_page :: "('p, 'q) block_cache \<Rightarrow> nat \<Rightarrow> nat set" where
  "links_of_page cache k =
     {i. \<exists>page. link_page cache i = Some page \<and> tracked_index cache page = Some k}"

text \<open>A link belongs to an entry of the cache, and the links of an entry have different pages.\<close>

definition links_ok :: "('p, 'q) block_cache \<Rightarrow> bool" where
  "links_ok cache \<longleftrightarrow>
     (\<forall>i page. link_page cache i = Some page \<longrightarrow> i < LINK_COUNT \<and> aligned page) \<and>
     (\<forall>i j page. link_page cache i = Some page \<longrightarrow> link_page cache j = Some page \<longrightarrow>
        i div MAX_CODE_PAGES = j div MAX_CODE_PAGES \<longrightarrow> i = j)"

definition page_index_ok :: "('p, 'q) block_cache \<Rightarrow> bool" where
  "page_index_ok cache \<longleftrightarrow>
     (\<forall>b. \<exists>xs. bucket_list cache b xs) \<and> links_ok cache \<and>
     aligned (bc_tracked_first_page cache) \<and>
     (\<forall>k. unat (bc_code_page_refcounts cache k) = card (links_of_page cache k))"

lemma page_index_okE:
  assumes "page_index_ok cache"
  obtains "\<And>b. \<exists>xs. bucket_list cache b xs" "links_ok cache" "aligned (bc_tracked_first_page cache)"
    "\<And>k. unat (bc_code_page_refcounts cache k) = card (links_of_page cache k)"
  using assms by (auto simp: page_index_ok_def)

lemma links_of_page_inj:
  assumes "page_index_ok cache"
  shows "inj_on (\<lambda>i. i div MAX_CODE_PAGES) (links_of_page cache k)"
proof (rule inj_onI)
  fix i j assume i: "i \<in> links_of_page cache k" and j: "j \<in> links_of_page cache k"
    and e: "i div MAX_CODE_PAGES = j div MAX_CODE_PAGES"
  obtain p where p: "link_page cache i = Some p" "tracked_index cache p = Some k"
    using i by (auto simp: links_of_page_def)
  obtain q where q: "link_page cache j = Some q" "tracked_index cache q = Some k"
    using j by (auto simp: links_of_page_def)
  have "aligned p" "aligned q" "aligned (bc_tracked_first_page cache)"
    using assms p(1) q(1) by (auto simp: page_index_ok_def links_ok_def)
  then have "p = q" using tracked_index_inj p(2) q(2) by blast
  then show "i = j" using assms p(1) q(1) e by (auto simp: page_index_ok_def links_ok_def)
qed

text \<open>A page has at most one link of each entry, so its 16-bit reference count never saturates.\<close>

lemma links_of_page_bound:
  assumes "page_index_ok cache"
  shows "finite (links_of_page cache k)" "card (links_of_page cache k) \<le> ENTRY_COUNT"
proof -
  have sub: "(\<lambda>i. i div MAX_CODE_PAGES) ` links_of_page cache k \<subseteq> {..<ENTRY_COUNT}"
    using assms by (fastforce simp: page_index_ok_def links_ok_def links_of_page_def)
  then show "finite (links_of_page cache k)"
    using links_of_page_inj[OF assms] by (meson finite_imageD finite_lessThan finite_subset)
  show "card (links_of_page cache k) \<le> ENTRY_COUNT"
    using card_inj_on_le[OF links_of_page_inj[OF assms] sub] by simp
qed


subsection \<open>Unlinking and linking\<close>

lemma link_page_simps [simp]:
  "link_page (cache\<lparr>bc_page_bucket_heads := h\<rparr>) = link_page cache"
  "link_page (cache\<lparr>bc_code_page_refcounts := r\<rparr>) = link_page cache"
  by (simp_all add: link_page_def fun_eq_iff)

lemma avz_untrack_code_page_frame [simp]:
  "bc_page_links (avz_untrack_code_page page cache) = bc_page_links cache"
  "bc_page_bucket_heads (avz_untrack_code_page page cache) = bc_page_bucket_heads cache"
  "bc_entries (avz_untrack_code_page page cache) = bc_entries cache"
  "tracked_index (avz_untrack_code_page page cache) = tracked_index cache"
  by (auto simp: avz_untrack_code_page_def Let_def tracked_index_def fun_eq_iff split: option.splits)

text \<open>The abstract effect of the unlink: the link stands for no page, the lists close around it.\<close>

lemma unlink_effect:
  assumes ok: "page_index_ok cache" and l: "l_linked (bc_page_links cache i)"
  defines "c \<equiv> avz_unlink_page_link i cache"
  shows "link_page c = (link_page cache)(i := None)"
    "next_link c = (relink (previous_link cache i) (next_link cache i) (next_link cache))(i := None)"
    "previous_link c = (relink (next_link cache i) (previous_link cache i) (previous_link cache))(i := None)"
  using l unfolding c_def avz_unlink_page_link_def
  by (auto simp: Let_def link_page_def next_link_def previous_link_def set_link_def empty_link_def relink_def
        fun_eq_iff split: option.splits)


lemma in_bucket_unique: "i \<in> in_bucket cache b \<Longrightarrow> i \<in> in_bucket cache b' \<Longrightarrow> b = b'"
  by (auto simp: in_bucket_def)

lemma unlink_heads:
  assumes "l_linked (bc_page_links cache i)"
  shows "bc_page_bucket_heads (avz_unlink_page_link i cache) =
     (if previous_link cache i = None
      then (bc_page_bucket_heads cache)(avz_page_bucket (l_page (bc_page_links cache i)) := next_link cache i)
      else bc_page_bucket_heads cache)"
  using assms unfolding avz_unlink_page_link_def
  by (auto simp: Let_def next_link_def previous_link_def set_link_def split: option.splits)

lemma unlink_frame [simp]:
  "bc_entries (avz_unlink_page_link i cache) = bc_entries cache"
  "tracked_index (avz_unlink_page_link i cache) = tracked_index cache"
  "bc_tracked_first_page (avz_unlink_page_link i cache) = bc_tracked_first_page cache"
  by (auto simp: avz_unlink_page_link_def avz_untrack_code_page_def Let_def set_link_def tracked_index_def
        fun_eq_iff split: option.splits)

lemma unlink_bucket_list:
  assumes ok: "page_index_ok cache" and l: "l_linked (bc_page_links cache i)"
  defines "c \<equiv> avz_unlink_page_link i cache"
  shows "\<exists>xs. bucket_list c b xs"
proof -
  let ?b = "avz_page_bucket (l_page (bc_page_links cache i))"
  note e = unlink_effect[OF ok l, folded c_def]
  obtain xs where xs: "bucket_list cache b xs" using ok by (auto simp: page_index_ok_def)
  obtain ys where ys: "bucket_list cache ?b ys" using ok by (auto simp: page_index_ok_def)
  have "i \<in> set ys" using ys l by (auto simp: bucket_list_def in_bucket_def link_page_def)
  then obtain as bs where sp: "ys = as @ i # bs" by (meson split_list)
  have p: "previous_link cache i = final_of None as" and n: "next_link cache i = first_of bs None"
    using ys sp by (auto simp: bucket_list_def)
  have members: "in_bucket c b = in_bucket cache b - {i}" for b by (auto simp: in_bucket_def e)
  show ?thesis
  proof (cases "b = ?b")
    case True
    have "linked (next_link c) (previous_link c) None (as @ bs) None"
      unfolding e using ys sp linked_unlink[of "next_link cache" "previous_link cache" as i bs]
      by (auto simp: bucket_list_def)
    moreover have "bc_page_bucket_heads c b = first_of (as @ bs) None"
      using ys sp n p True unfolding c_def unlink_heads[OF l]
      by (cases as) (auto simp: bucket_list_def final_of_def split: if_splits)
    ultimately show ?thesis
      using ys sp True by (intro exI[of _ "as @ bs"]) (auto simp: bucket_list_def members)
  next
    case False
    have other: "x \<notin> set ys" if "x \<in> set xs" for x
      using that False xs ys in_bucket_unique by (fastforce simp: bucket_list_def)
    have neq: "previous_link cache i \<noteq> Some x" "next_link cache i \<noteq> Some x" "x \<noteq> i" if "x \<in> set xs" for x
      using other[OF that] p n sp by (auto dest: first_of_in final_of_in)
    have "linked (next_link c) (previous_link c) None xs None"
      using xs neq unfolding e bucket_list_def
      by (subst linked_cong[where nxt' = "next_link cache" and prv' = "previous_link cache"])
        (auto simp: relink_other)
    moreover have "bc_page_bucket_heads c b = first_of xs None"
      using xs False unfolding c_def unlink_heads[OF l] by (auto simp: bucket_list_def)
    ultimately show ?thesis
      using xs neq by (intro exI[of _ xs]) (auto simp: bucket_list_def members)
  qed
qed

lemma unlink_refcounts:
  assumes "l_linked (bc_page_links cache i)"
  shows "bc_code_page_refcounts (avz_unlink_page_link i cache) =
    bc_code_page_refcounts (avz_untrack_code_page (l_page (bc_page_links cache i)) cache)"
  using assms unfolding avz_unlink_page_link_def by (auto simp: Let_def set_link_def split: option.splits)

lemma untrack_counts:
  assumes ok: "page_index_ok cache" and l: "link_page cache i = Some page"
  shows "unat (bc_code_page_refcounts (avz_untrack_code_page page cache) k) = card (links_of_page cache k - {i})"
proof -
  have r: "unat (bc_code_page_refcounts cache k) = card (links_of_page cache k)" for k
    using ok by (auto simp: page_index_ok_def)
  show ?thesis
  proof (cases "tracked_index cache page")
    case None
    then have "i \<notin> links_of_page cache k" using l by (auto simp: links_of_page_def)
    then show ?thesis using None r by (simp add: avz_untrack_code_page_def)
  next
    case (Some j)
    then have mem: "i \<in> links_of_page cache k \<longleftrightarrow> k = j" using l by (auto simp: links_of_page_def)
    have pos: "bc_code_page_refcounts cache j > 0"
      using r[of j] Some l links_of_page_bound(1)[OF ok, of j]
      by (auto simp: word_less_nat_alt card_gt_0_iff links_of_page_def)
    then have "unat (bc_code_page_refcounts cache j - 1) = unat (bc_code_page_refcounts cache j) - 1"
      by (metis unat_minus_one word_neq_0_conv)
    then show ?thesis using Some r pos mem by (auto simp: avz_untrack_code_page_def Let_def)
  qed
qed

lemma unlink_page_index_ok:
  assumes ok: "page_index_ok cache"
  shows "page_index_ok (avz_unlink_page_link i cache)"
proof (cases "l_linked (bc_page_links cache i)")
  case True
  let ?c = "avz_unlink_page_link i cache"
  note e = unlink_effect[OF ok True]
  have "unat (bc_code_page_refcounts ?c k) = card (links_of_page ?c k)" for k
  proof -
    have "links_of_page ?c k = links_of_page cache k - {i}" by (auto simp: links_of_page_def e)
    then show ?thesis
      using untrack_counts[OF ok, of i "l_page (bc_page_links cache i)" k] True
      by (simp add: unlink_refcounts link_page_def)
  qed
  moreover have "links_ok ?c" using ok by (auto simp: page_index_ok_def links_ok_def e split: if_splits)
  ultimately show ?thesis using unlink_bucket_list[OF ok True] ok by (simp add: page_index_ok_def)
qed (use ok in \<open>simp add: avz_unlink_page_link_def\<close>)

lemma unlink_link_page [simp]:
  "page_index_ok cache \<Longrightarrow> link_page (avz_unlink_page_link i cache) = (link_page cache)(i := None)"
proof (cases "l_linked (bc_page_links cache i)")
  case True
  then show "page_index_ok cache \<Longrightarrow> ?thesis" by (rule unlink_effect(1)[rotated])
next
  case False
  then show ?thesis by (simp add: avz_unlink_page_link_def link_page_def fun_eq_iff)
qed


text \<open>The link of an entry is put in front of its bucket.\<close>

definition link_front :: "nat \<Rightarrow> u64 \<Rightarrow> ('p, 'q) block_cache \<Rightarrow> ('p, 'q) block_cache" where
  "link_front i page cache =
     (let bucket = avz_page_bucket page;
          old_head = bc_page_bucket_heads cache bucket;
          cache = set_link i (\<lambda>_. \<lparr>l_next = old_head, l_previous = None, l_page = page, l_linked = True\<rparr>) cache;
          cache = (case old_head of
                     Some head \<Rightarrow> set_link head (l_previous_update (\<lambda>_. Some i)) cache
                   | None \<Rightarrow> cache)
      in cache\<lparr>bc_page_bucket_heads := (bc_page_bucket_heads cache)(bucket := Some i)\<rparr>)"

lemma avz_link_entry_page_front:
  "avz_link_entry_page entry_index slot page w =
     avz_track_code_page page (w\<lparr>w_cache := link_front (entry_index * MAX_CODE_PAGES + slot) page (w_cache w)\<rparr>)"
  by (simp add: avz_link_entry_page_def link_front_def Let_def)

lemma link_front_frame [simp]:
  "bc_entries (link_front i page cache) = bc_entries cache"
  "bc_tracked_first_page (link_front i page cache) = bc_tracked_first_page cache"
  "bc_code_page_refcounts (link_front i page cache) = bc_code_page_refcounts cache"
  "bc_code_page_generations (link_front i page cache) = bc_code_page_generations cache"
  "bc_has_guest_memory (link_front i page cache) = bc_has_guest_memory cache"
  "tracked_index (link_front i page cache) = tracked_index cache"
  by (auto simp: link_front_def Let_def set_link_def tracked_index_def fun_eq_iff split: option.splits)

definition may_link :: "('p, 'q) block_cache \<Rightarrow> nat \<Rightarrow> u64 \<Rightarrow> bool" where
  "may_link cache i page \<longleftrightarrow>
     i < LINK_COUNT \<and> aligned page \<and> link_page cache i = None \<and>
     (\<forall>j. j div MAX_CODE_PAGES = i div MAX_CODE_PAGES \<longrightarrow> link_page cache j \<noteq> Some page)"

lemma link_front_effect:
  assumes ok: "page_index_ok cache" and m: "may_link cache i page"
  defines "c \<equiv> link_front i page cache" and "h \<equiv> bc_page_bucket_heads cache (avz_page_bucket page)"
  shows "link_page c = (link_page cache)(i := Some page)"
    "next_link c = (next_link cache)(i := h)"
    "previous_link c = relink h (Some i) ((previous_link cache)(i := None))"
    "bc_page_bucket_heads c = (bc_page_bucket_heads cache)(avz_page_bucket page := Some i)"
proof -
  obtain xs where xs: "bucket_list cache (avz_page_bucket page) xs" using ok by (auto simp: page_index_ok_def)
  have "h \<noteq> Some i"
    using xs m unfolding h_def
    by (auto simp: bucket_list_def may_link_def in_bucket_def dest: first_of_in)
  then show "link_page c = (link_page cache)(i := Some page)" "next_link c = (next_link cache)(i := h)"
    "previous_link c = relink h (Some i) ((previous_link cache)(i := None))"
    "bc_page_bucket_heads c = (bc_page_bucket_heads cache)(avz_page_bucket page := Some i)"
    unfolding c_def link_front_def h_def
    by (auto simp: Let_def link_page_def next_link_def previous_link_def set_link_def relink_def
          fun_eq_iff split: option.splits)
qed

lemma link_bucket_list:
  assumes ok: "page_index_ok cache" and m: "may_link cache i page"
  defines "c \<equiv> link_front i page cache"
  shows "\<exists>xs. bucket_list c b xs"
proof -
  let ?b = "avz_page_bucket page"
  note e = link_front_effect[OF ok m, folded c_def]
  obtain xs where xs: "bucket_list cache b xs" using ok by (auto simp: page_index_ok_def)
  have fresh: "i \<notin> set xs" if "bucket_list cache b xs" for b xs
    using that m by (auto simp: bucket_list_def may_link_def in_bucket_def)
  have members: "in_bucket c b = (if b = ?b then insert i (in_bucket cache b) else in_bucket cache b)"
    using m by (auto simp: in_bucket_def e may_link_def)
  show ?thesis
  proof (cases "b = ?b")
    case True
    have h: "bc_page_bucket_heads cache ?b = first_of xs None" using xs True by (simp add: bucket_list_def)
    have "linked (next_link c) (previous_link c) None (i # xs) None"
      unfolding e h by (rule linked_push_front) (use xs fresh[OF xs] in \<open>simp_all add: bucket_list_def\<close>)
    moreover have "set (i # xs) = in_bucket c b" unfolding members using xs True by (simp add: bucket_list_def)
    moreover have "bc_page_bucket_heads c b = first_of (i # xs) None" "distinct (i # xs)"
      using xs fresh[OF xs] True by (simp_all add: bucket_list_def e)
    ultimately show ?thesis unfolding bucket_list_def by blast
  next
    case False
    obtain ys where ys: "bucket_list cache ?b ys" using ok by (auto simp: page_index_ok_def)
    have h: "bc_page_bucket_heads cache ?b \<noteq> Some x" if "x \<in> set xs" for x
    proof
      assume "bc_page_bucket_heads cache ?b = Some x"
      then have "first_of ys None = Some x" using ys by (simp add: bucket_list_def)
      then have "x \<in> set ys" using first_of_in[of ys None x] by simp
      then have "x \<in> in_bucket cache ?b" using ys by (simp add: bucket_list_def)
      moreover have "x \<in> in_bucket cache b" using that xs by (simp add: bucket_list_def)
      ultimately show False using False in_bucket_unique by blast
    qed
    have "linked (next_link c) (previous_link c) None xs None =
        linked (next_link cache) (previous_link cache) None xs None"
    proof (rule linked_cong)
      fix x assume x: "x \<in> set xs"
      then have "x \<noteq> i" using fresh[OF xs] by blast
      then show "next_link c x = next_link cache x \<and> previous_link c x = previous_link cache x"
        using h[OF x] by (simp add: e relink_other)
    qed
    moreover have "in_bucket c b = in_bucket cache b" using False by (simp add: members)
    moreover have "bc_page_bucket_heads c b = bc_page_bucket_heads cache b" using False by (simp add: e)
    ultimately have "bucket_list c b xs" using xs by (simp add: bucket_list_def)
    then show ?thesis by blast
  qed
qed

lemma avz_track_code_page_frame [simp]:
  "bc_page_links (w_cache (avz_track_code_page page w)) = bc_page_links (w_cache w)"
  "bc_page_bucket_heads (w_cache (avz_track_code_page page w)) = bc_page_bucket_heads (w_cache w)"
  "bc_entries (w_cache (avz_track_code_page page w)) = bc_entries (w_cache w)"
  "bc_tracked_first_page (w_cache (avz_track_code_page page w)) = bc_tracked_first_page (w_cache w)"
  "bc_code_page_generations (w_cache (avz_track_code_page page w)) = bc_code_page_generations (w_cache w)"
  "bc_has_guest_memory (w_cache (avz_track_code_page page w)) = bc_has_guest_memory (w_cache w)"
  "tracked_index (w_cache (avz_track_code_page page w)) = tracked_index (w_cache w)"
  by (auto simp: avz_track_code_page_def Let_def tracked_index_def fun_eq_iff split: option.splits)

lemma link_view_cong:
  "bc_page_links c = bc_page_links c' \<Longrightarrow> link_page c = link_page c'"
  "bc_page_links c = bc_page_links c' \<Longrightarrow> next_link c = next_link c'"
  "bc_page_links c = bc_page_links c' \<Longrightarrow> previous_link c = previous_link c'"
  by (simp_all add: link_page_def next_link_def previous_link_def fun_eq_iff)

lemma bucket_list_cong:
  "bc_page_links c = bc_page_links c' \<Longrightarrow> bc_page_bucket_heads c = bc_page_bucket_heads c' \<Longrightarrow>
     bucket_list c = bucket_list c'"
  by (simp add: bucket_list_def in_bucket_def fun_eq_iff link_view_cong[of c c'])

lemma track_counts:
  assumes ok: "page_index_ok cache" and m: "may_link cache i page"
    and c: "bc_code_page_refcounts (w_cache w) = bc_code_page_refcounts cache"
      "tracked_index (w_cache w) = tracked_index cache"
  shows "unat (bc_code_page_refcounts (w_cache (avz_track_code_page page w)) k) =
    card (if tracked_index cache page = Some k then insert i (links_of_page cache k) else links_of_page cache k)"
proof -
  have r: "unat (bc_code_page_refcounts cache k) = card (links_of_page cache k)" for k
    using ok by (auto simp: page_index_ok_def)
  have fresh: "i \<notin> links_of_page cache k" using m by (auto simp: may_link_def links_of_page_def)
  show ?thesis
  proof (cases "tracked_index cache page")
    case None
    then show ?thesis using c r by (simp add: avz_track_code_page_def Let_def)
  next
    case (Some j)
    have "unat (bc_code_page_refcounts cache j) \<le> ENTRY_COUNT" unfolding r by (rule links_of_page_bound(2)[OF ok])
    then have "bc_code_page_refcounts cache j < 0xffff"
      "unat (bc_code_page_refcounts cache j + 1) = Suc (unat (bc_code_page_refcounts cache j))"
      by (simp_all add: word_less_nat_alt unat_word_ariths(1))
    then show ?thesis
      using Some c r fresh links_of_page_bound(1)[OF ok] by (auto simp: avz_track_code_page_def Let_def)
  qed
qed

lemma links_ok_insert:
  assumes ok: "links_ok cache" and c: "link_page c = (link_page cache)(i := Some page)"
    and i: "i < LINK_COUNT" "aligned page"
    and fresh: "\<forall>j. j div MAX_CODE_PAGES = i div MAX_CODE_PAGES \<longrightarrow> link_page cache j \<noteq> Some page"
  shows "links_ok c"
  unfolding links_ok_def
proof (intro conjI allI impI)
  fix j k q assume j: "link_page c j = Some q" and k: "link_page c k = Some q"
    and e: "j div MAX_CODE_PAGES = k div MAX_CODE_PAGES"
  show "j = k"
  proof (rule ccontr)
    assume neq: "j \<noteq> k"
    consider "j = i" | "k = i" | "j \<noteq> i" "k \<noteq> i" by blast
    then show False
    proof cases
      case 1 then show False using j k e neq fresh unfolding c by (metis fun_upd_apply option.inject)
    next
      case 2 then show False using j k e neq fresh unfolding c by (metis fun_upd_apply option.inject)
    next
      case 3 then show False using j k e neq ok unfolding c links_ok_def by (metis fun_upd_apply)
    qed
  qed
qed (use ok i in \<open>auto simp: c links_ok_def split: if_splits\<close>)

lemma link_page_index_ok:
  assumes ok: "page_index_ok (w_cache w)" and m: "may_link (w_cache w) (entry_index * MAX_CODE_PAGES + slot) page"
  defines "c \<equiv> w_cache (avz_link_entry_page entry_index slot page w)"
  shows "page_index_ok c"
    "link_page c = (link_page (w_cache w))(entry_index * MAX_CODE_PAGES + slot := Some page)"
proof -
  let ?i = "entry_index * MAX_CODE_PAGES + slot"
  let ?f = "link_front ?i page (w_cache w)"
  have links: "bc_page_links c = bc_page_links ?f" "bc_page_bucket_heads c = bc_page_bucket_heads ?f"
    by (simp_all add: c_def avz_link_entry_page_front)
  show lp: "link_page c = (link_page (w_cache w))(?i := Some page)"
    using link_front_effect(1)[OF ok m] by (simp only: link_view_cong(1)[OF links(1)])
  have t: "tracked_index c = tracked_index (w_cache w)" by (simp add: c_def avz_link_entry_page_front)
  have "links_of_page c k = (if tracked_index (w_cache w) page = Some k
      then insert ?i (links_of_page (w_cache w) k) else links_of_page (w_cache w) k)" for k
    using m by (auto simp: links_of_page_def lp t may_link_def)
  then have "unat (bc_code_page_refcounts c k) = card (links_of_page c k)" for k
    using track_counts[OF ok m, of "w\<lparr>w_cache := ?f\<rparr>" k] by (simp add: c_def avz_link_entry_page_front)
  moreover have "links_ok c"
  proof (rule links_ok_insert[OF _ lp])
    show "links_ok (w_cache w)" using ok by (simp add: page_index_ok_def)
    show "?i < LINK_COUNT" "aligned page" "\<forall>j. j div MAX_CODE_PAGES = ?i div MAX_CODE_PAGES \<longrightarrow>
        link_page (w_cache w) j \<noteq> Some page"
      using m unfolding may_link_def by blast+
  qed
  moreover have "\<exists>xs. bucket_list c b xs" for b
    using link_bucket_list[OF ok m, of b] by (simp add: bucket_list_cong[OF links])
  ultimately show "page_index_ok c" using ok by (simp add: page_index_ok_def c_def avz_link_entry_page_front)
qed


subsection \<open>Indexing and unindexing an entry\<close>

text \<open>The fields that the invariant of the index reads.\<close>

definition same_index :: "('p, 'q) block_cache \<Rightarrow> ('p, 'q) block_cache \<Rightarrow> bool" where
  "same_index c cache \<longleftrightarrow>
     bc_page_links c = bc_page_links cache \<and> bc_page_bucket_heads c = bc_page_bucket_heads cache \<and>
     bc_code_page_refcounts c = bc_code_page_refcounts cache \<and> bc_tracked c = bc_tracked cache \<and>
     bc_tracked_first_page c = bc_tracked_first_page cache \<and>
     bc_tracked_page_count c = bc_tracked_page_count cache"

lemma same_index_views:
  assumes "same_index c cache"
  shows "link_page c = link_page cache" "tracked_index c = tracked_index cache"
    "page_index_ok c = page_index_ok cache"
proof -
  have l: "bc_page_links c = bc_page_links cache" and h: "bc_page_bucket_heads c = bc_page_bucket_heads cache"
    and r: "bc_code_page_refcounts c = bc_code_page_refcounts cache"
      "bc_tracked_first_page c = bc_tracked_first_page cache"
    using assms by (simp_all add: same_index_def)
  show p: "link_page c = link_page cache" by (rule link_view_cong(1)[OF l])
  show t: "tracked_index c = tracked_index cache"
    using assms by (simp add: same_index_def tracked_index_def fun_eq_iff)
  have "links_of_page c = links_of_page cache" by (simp add: links_of_page_def p t fun_eq_iff)
  moreover have "links_ok c = links_ok cache" by (simp add: links_ok_def p)
  ultimately show "page_index_ok c = page_index_ok cache"
    by (simp add: page_index_ok_def bucket_list_cong[OF l h] r)
qed

lemma chain_forget_same_index [simp]: "same_index (avz_assembly_chain_forget_entry e cache) cache"
  by (simp add: avz_assembly_chain_forget_entry_def avz_assembly_chain_retire_def same_index_def split: option.split)

lemma chain_forget_entries [simp]: "bc_entries (avz_assembly_chain_forget_entry e cache) = bc_entries cache"
  by (simp add: avz_assembly_chain_forget_entry_def avz_assembly_chain_retire_def split: option.split)

lemma same_slot: "j div MAX_CODE_PAGES = (e :: nat) \<longleftrightarrow> j = e * MAX_CODE_PAGES \<or> j = e * MAX_CODE_PAGES + 1"
  by presburger

lemma unindex_effect:
  fixes e :: nat
  assumes "page_index_ok cache"
  defines "c \<equiv> avz_unindex_entry e cache"
  shows "page_index_ok c"
    "link_page c = (\<lambda>i. if i div MAX_CODE_PAGES = e then None else link_page cache i)"
    "tracked_index c = tracked_index cache" "bc_entries c = bc_entries cache"
proof -
  let ?f = "avz_assembly_chain_forget_entry e cache"
  have ok: "page_index_ok ?f" and lp: "link_page ?f = link_page cache" and t: "tracked_index ?f = tracked_index cache"
    using same_index_views[OF chain_forget_same_index, of e cache] assms by simp_all
  have c: "c = avz_unlink_page_link (e * MAX_CODE_PAGES + 1) (avz_unlink_page_link (e * MAX_CODE_PAGES) ?f)"
    by (simp add: c_def avz_unindex_entry_def upt_rec)
  show "page_index_ok c" unfolding c by (intro unlink_page_index_ok ok)
  show "link_page c = (\<lambda>i. if i div MAX_CODE_PAGES = e then None else link_page cache i)"
    unfolding c by (simp add: ok unlink_page_index_ok lp fun_eq_iff same_slot)
  show "tracked_index c = tracked_index cache" "bc_entries c = bc_entries cache" by (simp_all add: c t)
qed

lemma code_pages_of_bounds:
  "distinct (code_pages_of as) \<and> length (code_pages_of as) \<le> MAX_CODE_PAGES \<and>
   (\<forall>p \<in> set (code_pages_of as). aligned p \<and> p \<in> page_base ` set as)"
proof -
  let ?f = "\<lambda>a ps. let page = page_base a in
              if page \<notin> set ps \<and> length ps < MAX_CODE_PAGES then ps @ [page] else ps"
  have "distinct (fold ?f as ps) \<and> length (fold ?f as ps) \<le> MAX_CODE_PAGES \<and>
      (\<forall>p \<in> set (fold ?f as ps). aligned p \<and> p \<in> page_base ` (set as \<union> B))"
    if "distinct ps" "length ps \<le> MAX_CODE_PAGES" "\<forall>p \<in> set ps. aligned p \<and> p \<in> page_base ` B" for ps B
    using that
  proof (induction as arbitrary: ps B)
    case (Cons a as)
    have "distinct (?f a ps)" "length (?f a ps) \<le> MAX_CODE_PAGES"
      "\<forall>p \<in> set (?f a ps). aligned p \<and> p \<in> page_base ` (insert a B)"
      using Cons.prems by (auto simp: Let_def)
    from Cons.IH[OF this] show ?case by simp
  qed simp
  from this[of "[]" "{}"] show ?thesis by (simp add: code_pages_of_def)
qed

definition block_of :: "('p, 'q) block_cache \<Rightarrow> nat \<Rightarrow> decoded_block" where
  "block_of cache e = n_block (bc_entries cache e)"

definition token_ok :: "('p, 'q) block_cache \<Rightarrow> code_page \<Rightarrow> bool" where
  "token_ok cache p \<longleftrightarrow> p_token p = tracked_index cache (p_physical p)"

text \<open>The first pages of an entry are linked.\<close>

definition pages_indexed :: "('p, 'q) block_cache \<Rightarrow> nat \<Rightarrow> u64 list \<Rightarrow> bool" where
  "pages_indexed cache e pages \<longleftrightarrow>
     map p_physical (b_code_pages (block_of cache e)) = pages \<and>
     list_all (token_ok cache) (b_code_pages (block_of cache e)) \<and>
     (\<forall>s < MAX_CODE_PAGES. link_page cache (e * MAX_CODE_PAGES + s) = (if s < length pages then Some (pages ! s) else None))"

text \<open>What indexing an entry leaves alone: every other entry and its links.\<close>

definition only_entry :: "nat \<Rightarrow> ('p, 'q) block_cache \<Rightarrow> ('p, 'q) block_cache \<Rightarrow> bool" where
  "only_entry e c cache \<longleftrightarrow>
     tracked_index c = tracked_index cache \<and>
     (\<forall>i. i div MAX_CODE_PAGES \<noteq> e \<longrightarrow> link_page c i = link_page cache i) \<and>
     (\<forall>e'. e' \<noteq> e \<longrightarrow> bc_entries c e' = bc_entries cache e') \<and>
     n_valid (bc_entries c e) = n_valid (bc_entries cache e) \<and>
     b_physical_addresses (block_of c e) = b_physical_addresses (block_of cache e)"

lemma only_entry_trans: "only_entry e c c' \<Longrightarrow> only_entry e c' c'' \<Longrightarrow> only_entry e c c''"
  by (simp add: only_entry_def)

lemma index_page_step:
  fixes e :: nat
  assumes ok: "page_index_ok (w_cache w)" and ix: "pages_indexed (w_cache w) e pages"
    and p: "page \<notin> set pages" "length pages < MAX_CODE_PAGES" "aligned page" "e < ENTRY_COUNT"
  defines "c \<equiv> w_cache (index_page e (length pages, page) w)"
  shows "page_index_ok c" "pages_indexed c e (pages @ [page])" "only_entry e c (w_cache w)"
proof -
  let ?i = "e * MAX_CODE_PAGES + length pages"
  let ?w = "avz_link_entry_page e (length pages) page w"
  have sl: "\<forall>s < MAX_CODE_PAGES. link_page (w_cache w) (e * MAX_CODE_PAGES + s) =
      (if s < length pages then Some (pages ! s) else None)"
    using ix by (simp add: pages_indexed_def)
  have slots: "link_page (w_cache w) (e * MAX_CODE_PAGES) = (if pages = [] then None else Some (hd pages))"
    "link_page (w_cache w) (e * MAX_CODE_PAGES + 1) = None"
    using sl[rule_format, of 0] sl[rule_format, of 1] p(2) by (cases pages; simp)+
  have "may_link (w_cache w) ?i page"
    unfolding may_link_def
  proof (intro conjI allI impI)
    show "?i < LINK_COUNT" using p by simp
    show "link_page (w_cache w) ?i = None" using ix p(2) by (simp add: pages_indexed_def)
    fix j assume "j div MAX_CODE_PAGES = ?i div MAX_CODE_PAGES"
    then have "j = e * MAX_CODE_PAGES \<or> j = e * MAX_CODE_PAGES + 1" using p(2) same_slot by simp
    then show "link_page (w_cache w) j \<noteq> Some page"
      using slots p(1) by (cases pages) auto
  qed (rule p)
  note l = link_page_index_ok[OF ok this]
  have same: "same_index c (w_cache ?w)"
    by (simp add: c_def index_page_def Let_def on_cache_def set_entry_def same_index_def)
  have t: "tracked_index (w_cache ?w) = tracked_index (w_cache w)" by (simp add: avz_link_entry_page_front)
  have entries: "bc_entries (w_cache ?w) = bc_entries (w_cache w)" by (simp add: avz_link_entry_page_front)
  show "page_index_ok c" using l(1) same_index_views(3)[OF same] by simp
  have lp: "link_page c = (link_page (w_cache w))(?i := Some page)" using l(2) same_index_views(1)[OF same] by simp
  have tc: "tracked_index c = tracked_index (w_cache w)" using t same_index_views(2)[OF same] by simp
  obtain q where q: "p_physical q = page" "p_token q = tracked_index (w_cache w) page"
    and ce: "bc_entries c = (bc_entries (w_cache w))
      (e := n_block_update (b_code_pages_update (\<lambda>ps. ps @ [q])) (bc_entries (w_cache w) e))"
    by (simp add: c_def index_page_def Let_def on_cache_def set_entry_def entries avz_code_page_generation_token_def t)
      (metis code_page.select_convs(1,3))
  show "pages_indexed c e (pages @ [page])"
    using ix q p(2) by (auto simp: pages_indexed_def block_of_def ce token_ok_def tc lp nth_append less_Suc_eq list_all_iff)
  show "only_entry e c (w_cache w)"
    using p(2) same_slot[of _ e] by (auto simp: only_entry_def lp tc ce block_of_def)
qed


lemma index_pages_steps:
  assumes "page_index_ok (w_cache w)" "pages_indexed (w_cache w) e ready" "distinct (ready @ pages)"
    "length (ready @ pages) \<le> MAX_CODE_PAGES" "list_all aligned pages" "e < ENTRY_COUNT"
  shows "page_index_ok (w_cache (fold (index_page e) (enumerate (length ready) pages) w)) \<and>
    pages_indexed (w_cache (fold (index_page e) (enumerate (length ready) pages) w)) e (ready @ pages) \<and>
    only_entry e (w_cache (fold (index_page e) (enumerate (length ready) pages) w)) (w_cache w)"
  using assms
proof (induction pages arbitrary: w ready)
  case Nil
  then show ?case by (simp add: only_entry_def)
next
  case (Cons page pages)
  note step = index_page_step[OF Cons.prems(1,2), of page]
  show ?case
    using Cons.IH[of "index_page e (length ready, page) w" "ready @ [page]"] step Cons.prems
    by (auto intro: only_entry_trans)
qed

definition indexable :: "('p, 'q) block_cache \<Rightarrow> nat \<Rightarrow> bool" where
  "indexable cache e \<longleftrightarrow> e < ENTRY_COUNT \<and> (\<forall>i. i div MAX_CODE_PAGES = e \<longrightarrow> link_page cache i = None)"

definition block_indexed :: "('p, 'q) block_cache \<Rightarrow> nat \<Rightarrow> bool" where
  "block_indexed cache e \<longleftrightarrow> pages_indexed cache e (code_pages_of (b_physical_addresses (block_of cache e)))"

lemma index_entry_effect:
  assumes ok: "page_index_ok (w_cache w)" and free: "indexable (w_cache w) e"
  shows "page_index_ok (w_cache (avz_index_entry e w))" "block_indexed (w_cache (avz_index_entry e w)) e"
    "only_entry e (w_cache (avz_index_entry e w)) (w_cache w)"
proof -
  let ?w = "on_cache (set_entry e (n_block_update (b_code_pages_update (\<lambda>_. [])))) w"
  let ?pages = "code_pages_of (b_physical_addresses (block_of (w_cache w) e))"
  have same: "same_index (w_cache ?w) (w_cache w)" by (simp add: same_index_def on_cache_def set_entry_def)
  have ok': "page_index_ok (w_cache ?w)" using ok same_index_views(3)[OF same] by simp
  have only: "only_entry e (w_cache ?w) (w_cache w)"
    using same_index_views[OF same] by (simp add: only_entry_def on_cache_def set_entry_def block_of_def)
  have "pages_indexed (w_cache ?w) e []"
    using free same_index_views(1)[OF same]
    by (auto simp: pages_indexed_def indexable_def block_of_def on_cache_def set_entry_def)
  from index_pages_steps[OF ok' this, of ?pages]
  have "page_index_ok (w_cache (avz_index_entry e w)) \<and> pages_indexed (w_cache (avz_index_entry e w)) e ?pages \<and>
      only_entry e (w_cache (avz_index_entry e w)) (w_cache ?w)"
    using free code_pages_of_bounds[of "b_physical_addresses (block_of (w_cache w) e)"]
    by (simp add: avz_index_entry_def block_of_def indexable_def list_all_iff)
  then show "page_index_ok (w_cache (avz_index_entry e w))" "block_indexed (w_cache (avz_index_entry e w)) e"
    "only_entry e (w_cache (avz_index_entry e w)) (w_cache w)"
    using only by (auto simp: block_indexed_def only_entry_def)
qed

subsection \<open>The invariant of the cache\<close>

definition cache_ok :: "('p, 'q) block_cache \<Rightarrow> bool" where
  "cache_ok cache \<longleftrightarrow>
     page_index_ok cache \<and>
     (\<forall>i page. link_page cache i = Some page \<longrightarrow> n_valid (bc_entries cache (i div MAX_CODE_PAGES))) \<and>
     (\<forall>e. n_valid (bc_entries cache e) \<longrightarrow> e < ENTRY_COUNT \<and> block_indexed cache e)"

text \<open>
  What an operation may change in the entries without touching the index or the blocks: the
  successors of a block and the accounting of its entry. The rest of a block is its core.
\<close>

definition block_core :: "decoded_block \<Rightarrow> decoded_block" where
  "block_core b = b\<lparr>b_successors := b_successors empty_block, b_successor_clock := 0\<rparr>"

lemma block_core_eq:
  "block_core a = block_core b \<longleftrightarrow>
     b_key a = b_key b \<and> b_instructions a = b_instructions b \<and>
     b_physical_addresses a = b_physical_addresses b \<and> b_semantic_candidates a = b_semantic_candidates b \<and>
     b_trace_semantic_candidates a = b_trace_semantic_candidates b \<and>
     b_uses_vector_state a = b_uses_vector_state b \<and> b_chain_barrier a = b_chain_barrier b \<and>
     b_requires_host_checkpoint a = b_requires_host_checkpoint b \<and> b_code_pages a = b_code_pages b"
  by (cases a; cases b) (auto simp: block_core_def)

definition same_blocks :: "('p, 'q) block_cache \<Rightarrow> ('p, 'q) block_cache \<Rightarrow> bool" where
  "same_blocks c cache \<longleftrightarrow>
     (\<forall>e. n_valid (bc_entries c e) = n_valid (bc_entries cache e) \<and>
          block_core (block_of c e) = block_core (block_of cache e))"

lemma same_trans:
  "same_index c c' \<Longrightarrow> same_index c' c'' \<Longrightarrow> same_index c c''"
  "same_blocks c c' \<Longrightarrow> same_blocks c' c'' \<Longrightarrow> same_blocks c c''"
  by (simp_all add: same_index_def same_blocks_def)

lemma cache_ok_same:
  assumes "cache_ok cache" "same_index c cache" "same_blocks c cache"
  shows "cache_ok c"
  using assms same_index_views[OF assms(2)]
  by (simp add: cache_ok_def same_blocks_def block_core_eq block_indexed_def pages_indexed_def list_all_iff token_ok_def)

text \<open>An entry leaves the index with its block.\<close>

lemma cache_ok_without:
  fixes e :: nat
  assumes ok: "cache_ok cache" and s: "same_index c (avz_unindex_entry e cache)"
    and v: "\<not> n_valid (bc_entries c e)"
    and f: "\<And>e'. e' \<noteq> e \<Longrightarrow> n_valid (bc_entries c e') = n_valid (bc_entries cache e') \<and> block_of c e' = block_of cache e'"
  shows "cache_ok c"
proof -
  have pok: "page_index_ok cache" using ok by (simp add: cache_ok_def)
  note u = unindex_effect[OF pok, of e] and sv = same_index_views[OF s]
  have lp: "link_page c = (\<lambda>i. if i div MAX_CODE_PAGES = e then None else link_page cache i)" using sv u by simp
  have t: "tracked_index c = tracked_index cache" using sv u by simp
  have "block_indexed c e'" if e': "n_valid (bc_entries c e')" for e'
  proof -
    have neq: "e' \<noteq> e" using e' v by blast
    then have "block_indexed cache e'" using ok f e' by (simp add: cache_ok_def)
    moreover have "(e' * MAX_CODE_PAGES + s) div MAX_CODE_PAGES = e'" if "s < MAX_CODE_PAGES" for s using that by simp
    ultimately show ?thesis
      using neq f[OF neq] by (simp add: block_indexed_def pages_indexed_def lp t list_all_iff token_ok_def)
  qed
  moreover have "n_valid (bc_entries c (i div MAX_CODE_PAGES))" if "link_page c i = Some page" for i page
    using that ok f[of "i div MAX_CODE_PAGES"] by (auto simp: cache_ok_def lp split: if_splits)
  moreover have "e' < ENTRY_COUNT" if "n_valid (bc_entries c e')" for e'
    using that v f[of e'] ok by (cases "e' = e") (auto simp: cache_ok_def)
  moreover have "page_index_ok c" using sv u by simp
  ultimately show ?thesis by (simp add: cache_ok_def)
qed

text \<open>An indexed entry joins them.\<close>

lemma cache_ok_join:
  fixes e :: nat
  assumes ok: "cache_ok cache" and p: "page_index_ok c" and i: "block_indexed c e"
    and e: "e < ENTRY_COUNT" "n_valid (bc_entries c e)" and t: "tracked_index c = tracked_index cache"
    and lp: "\<And>i. i div MAX_CODE_PAGES \<noteq> e \<Longrightarrow> link_page c i = link_page cache i"
    and bl: "\<And>e'. e' \<noteq> e \<Longrightarrow> bc_entries c e' = bc_entries cache e'"
  shows "cache_ok c"
proof -
  have "block_indexed c e'" if e': "n_valid (bc_entries c e')" for e'
  proof (cases "e' = e")
    case False
    then have "block_indexed cache e'" using ok bl e' by (simp add: cache_ok_def)
    then show ?thesis
      using False bl[OF False] lp
      by (simp add: block_indexed_def pages_indexed_def t list_all_iff token_ok_def block_of_def)
  qed (use i in simp)
  moreover have "n_valid (bc_entries c (i div MAX_CODE_PAGES))" if "link_page c i = Some page" for i page
    using that ok e bl lp by (cases "i div MAX_CODE_PAGES = e") (auto simp: cache_ok_def)
  moreover have "e' < ENTRY_COUNT" if "n_valid (bc_entries c e')" for e'
    using that e bl ok by (cases "e' = e") (auto simp: cache_ok_def)
  ultimately show ?thesis using p by (simp add: cache_ok_def)
qed

subsection \<open>Operations\<close>

text \<open>The cache an operation returns where it leaves the index and the blocks alone.\<close>

definition kept :: "('p, 'q) block_cache \<Rightarrow> ('p, 'q) block_cache \<Rightarrow> bool" where
  "kept c cache \<longleftrightarrow> same_index c cache \<and> same_blocks c cache"

named_theorems keeps \<open>operations that leave the index alone\<close>

lemma kept_ok: "cache_ok cache \<Longrightarrow> kept c cache \<Longrightarrow> cache_ok c"
  by (simp add: kept_def cache_ok_same)

lemma kept_refl [keeps]: "kept c c" by (simp add: kept_def same_index_def same_blocks_def)

lemma kept_if [keeps]: "kept x c \<Longrightarrow> kept y c \<Longrightarrow> kept (if b then x else y) c" by simp

lemma kept_let_cache [keeps]: "kept t c \<Longrightarrow> (\<And>x. kept x c \<Longrightarrow> kept (f x) c) \<Longrightarrow> kept (Let t f) c" by simp

lemma kept_let: "(\<And>x. kept (f x) c) \<Longrightarrow> kept (Let t f) c" by (simp add: Let_def)

lemma kept_updates [keeps]:
  "kept x c \<Longrightarrow> kept (x\<lparr>bc_batch_prefetch_limit := l\<rparr>) c"
  "kept x c \<Longrightarrow> kept (x\<lparr>bc_batch_prefetch_window_hits := h\<rparr>) c"
  "kept x c \<Longrightarrow> kept (x\<lparr>bc_batch_prefetch_window_unused := h\<rparr>) c"
  "kept x c \<Longrightarrow> kept (x\<lparr>bc_statistics := s\<rparr>) c"
  "kept x c \<Longrightarrow> kept (x\<lparr>bc_decode_window := w\<rparr>) c"
  "kept x c \<Longrightarrow> kept (x\<lparr>bc_chain := d\<rparr>) c"
  "kept x c \<Longrightarrow> kept (x\<lparr>bc_access_clock := k\<rparr>) c"
  "kept x c \<Longrightarrow> kept (x\<lparr>bc_translation_epoch := k\<rparr>) c"
  "kept x c \<Longrightarrow> kept (x\<lparr>bc_mutation_epoch := k\<rparr>) c"
  "kept x c \<Longrightarrow> kept (x\<lparr>bc_code_mutation_epoch := k\<rparr>) c"
  "kept x c \<Longrightarrow> kept (x\<lparr>bc_generation := k\<rparr>) c"
  by (simp_all add: kept_def same_index_def same_blocks_def block_of_def)

lemma kept_entry:
  assumes "kept x c" "\<And>n. n_valid (f n) = n_valid n" "\<And>n. block_core (n_block (f n)) = block_core (n_block n)"
  shows "kept (set_entry e f x) c"
  using assms by (simp add: kept_def same_index_def same_blocks_def block_of_def set_entry_def)

lemma kept_entry_updates [keeps]:
  "kept x c \<Longrightarrow> kept (set_entry e (n_prefetched_update p) x) c"
  "kept x c \<Longrightarrow> kept (set_entry e (n_last_used_update k) x) c"
  by (auto intro!: kept_entry)

lemma kept_count [keeps]: "kept x c \<Longrightarrow> kept (count_statistic s x) c"
  unfolding count_statistic_def by (rule keeps)

lemma kept_record_prefetch [keeps]: "kept x c \<Longrightarrow> kept (avz_record_prefetch_outcome useful x) c"
  unfolding avz_record_prefetch_outcome_def by (intro keeps kept_let; assumption?)

lemma kept_retire_unused [keeps]: "kept x c \<Longrightarrow> kept (avz_retire_unused_prefetch e x) c"
  unfolding avz_retire_unused_prefetch_def by (intro keeps kept_let; assumption?)

lemma kept_record_hit [keeps]: "kept x c \<Longrightarrow> kept (avz_record_prefetch_hit e x) c"
  unfolding avz_record_prefetch_hit_def by (intro keeps kept_let; assumption?)

lemma kept_touch [keeps]: "kept x c \<Longrightarrow> kept (avz_touch_entry e x) c"
  unfolding avz_touch_entry_def by (intro keeps kept_let; assumption?)

lemma kept_epochs [keeps]:
  "kept x c \<Longrightarrow> kept (advance_mutation_epoch x) c" "kept x c \<Longrightarrow> kept (advance_code_mutation_epoch x) c"
  "kept x c \<Longrightarrow> kept (avz_native_block_cache_invalidate_decode_window x) c"
  "kept x c \<Longrightarrow> kept (avz_assembly_chain_retire x) c"
  unfolding advance_mutation_epoch_def advance_code_mutation_epoch_def
    avz_native_block_cache_invalidate_decode_window_def avz_assembly_chain_retire_def
  by (intro keeps kept_let; assumption)+

lemma kept_invalidate_translations [keeps]:
  "kept x c \<Longrightarrow> kept (avz_native_block_cache_invalidate_translation_mappings x) c"
  unfolding avz_native_block_cache_invalidate_translation_mappings_def by (intro keeps kept_let; assumption?)

lemma retired_entry_ok:
  assumes ok: "cache_ok cache"
    and s: "same_index c (avz_unindex_entry e (avz_retire_unused_prefetch e cache))"
    and n: "\<And>e'. bc_entries c e' = (if e' = e then f (bc_entries (avz_retire_unused_prefetch e cache) e)
              else bc_entries (avz_retire_unused_prefetch e cache) e')"
    and f: "\<And>n. \<not> n_valid (f n)"
  shows "cache_ok c"
proof (rule cache_ok_without[OF _ s])
  show "cache_ok (avz_retire_unused_prefetch e cache)" by (rule kept_ok[OF ok kept_retire_unused[OF kept_refl]])
qed (simp_all add: n f block_of_def)

lemma forget_programs_frame [simp]:
  "bc_entries (forget_programs e cache) = bc_entries cache" "same_index (forget_programs e cache) cache"
  by (simp_all add: forget_programs_def Let_def same_index_def)

lemma discard_ok: "cache_ok cache \<Longrightarrow> cache_ok (avz_discard_stale_entry e cache)"
proof (cases "n_valid (bc_entries cache e)")
  case True
  assume ok: "cache_ok cache"
  then have pok: "page_index_ok (avz_retire_unused_prefetch e cache)"
    using kept_ok[OF ok kept_retire_unused[OF kept_refl]] by (simp add: cache_ok_def)
  show ?thesis
  proof (rule retired_entry_ok[OF ok,
      where f = "\<lambda>n. n\<lparr>n_valid := False, n_serial := 0, n_validated_code_mutation_epoch := 0\<rparr>"])
    show "same_index (avz_discard_stale_entry e cache) (avz_unindex_entry e (avz_retire_unused_prefetch e cache))"
      using True forget_programs_frame(2)[of e "avz_unindex_entry e (avz_retire_unused_prefetch e cache)"]
      by (simp add: avz_discard_stale_entry_def Let_def same_index_def advance_mutation_epoch_def count_statistic_def set_entry_def)
  qed (use True unindex_effect(4)[OF pok, of e] in \<open>simp_all add: avz_discard_stale_entry_def Let_def
        advance_mutation_epoch_def count_statistic_def set_entry_def\<close>)
qed (simp add: avz_discard_stale_entry_def)

lemma invalidate_ok: "cache_ok cache \<Longrightarrow> cache_ok (avz_invalidate_entry e cache)"
proof (cases "n_valid (bc_entries cache e)")
  case True
  assume ok: "cache_ok cache"
  then have pok: "page_index_ok (avz_retire_unused_prefetch e cache)"
    using kept_ok[OF ok kept_retire_unused[OF kept_refl]] by (simp add: cache_ok_def)
  show ?thesis
  proof (rule retired_entry_ok[OF ok, where f = "\<lambda>n. n\<lparr>n_valid := False, n_serial := 0\<rparr>"])
    show "same_index (avz_invalidate_entry e cache) (avz_unindex_entry e (avz_retire_unused_prefetch e cache))"
      using True forget_programs_frame(2)[of e "avz_unindex_entry e (avz_retire_unused_prefetch e cache)"]
      by (simp add: avz_invalidate_entry_def Let_def same_index_def advance_mutation_epoch_def count_statistic_def set_entry_def)
  qed (use True unindex_effect(4)[OF pok, of e] in \<open>simp_all add: avz_invalidate_entry_def Let_def
        advance_mutation_epoch_def count_statistic_def set_entry_def\<close>)
qed (simp add: avz_invalidate_entry_def)

lemma walk_bucket_ok: "cache_ok cache \<Longrightarrow> cache_ok (walk_bucket n page lo hi i cache)"
  by (induction n arbitrary: i cache) (auto simp: Let_def invalidate_ok split: option.split)

lemma keeps_bump: "same_index (snd (bump_page page (b, cache))) cache" "same_blocks (snd (bump_page page (b, cache))) cache"
  by (simp_all add: bump_page_def Let_def same_index_def same_blocks_def block_of_def count_statistic_def)

lemma bump_pages_ok: "cache_ok (snd s) \<Longrightarrow> cache_ok (snd (fold bump_page pages s))"
proof (induction pages arbitrary: s)
  case (Cons page pages)
  have "cache_ok (snd (bump_page page s))"
    using Cons.prems keeps_bump[of page "fst s" "snd s"] by (simp add: cache_ok_same)
  then show ?case using Cons.IH by simp
qed simp

lemma fold_ok: "(\<And>x s. x \<in> set xs \<Longrightarrow> P s \<Longrightarrow> P (f x s)) \<Longrightarrow> P s \<Longrightarrow> P (fold f xs s)"
  by (induction xs arbitrary: s) auto

lemma invalidate_range_ok:
  fixes cache :: "('a, 'b) block_cache"
  assumes "cache_ok cache"
  shows "cache_ok (avz_native_block_cache_invalidate_physical_range a n cache)"
proof -
  have k: "cache_ok (count_statistic x c)" "cache_ok (advance_code_mutation_epoch c)"
    "cache_ok (avz_assembly_chain_retire c)" if "cache_ok c" for c :: "('a, 'b) block_cache" and x
    by (rule kept_ok[OF that]; intro keeps)+
  have w: "cache_ok (fold (\<lambda>page cache. walk_bucket m page lo hi (bc_page_bucket_heads cache (avz_page_bucket page)) cache) ps c)"
    if "cache_ok c" for m lo hi ps c by (rule fold_ok) (simp_all add: that walk_bucket_ok)
  have b: "cache_ok c'" if "cache_ok c" "fold bump_page ps (b, c) = (b', c')" for ps b b' c c'
    using bump_pages_ok[of "(b, c)" ps] that by simp
  show ?thesis
    unfolding avz_native_block_cache_invalidate_physical_range_def Let_def
    using assms by (auto intro!: k w split: prod.split if_split) (erule b[rotated], intro k, assumption)+
qed


subsection \<open>Creation and reset\<close>

lemma empty_cache_ok:
  assumes "\<And>i. bc_page_links c i = empty_link" "\<And>b. bc_page_bucket_heads c b = None"
    "\<And>k. bc_code_page_refcounts c k = 0" "\<And>e. bc_entries c e = empty_entry" "aligned (bc_tracked_first_page c)"
  shows "cache_ok c"
proof -
  have lp: "link_page c = (\<lambda>_. None)" by (simp add: link_page_def assms empty_link_def fun_eq_iff)
  have "bucket_list c b []" for b by (simp add: bucket_list_def in_bucket_def lp assms)
  then show ?thesis
    using assms(5) by (auto simp: cache_ok_def page_index_ok_def links_ok_def links_of_page_def lp assms empty_entry_def)
qed

lemma create_ok: "cache_ok avz_native_block_cache_create"
  by (rule empty_cache_ok) (simp_all add: avz_native_block_cache_create_def aligned_def page_base_def)

lemma clear_ok:
  assumes "avz_native_block_cache_clear cache = Some c" "aligned (bc_tracked_first_page cache)"
  shows "cache_ok c"
  using assms by (intro empty_cache_ok) (auto simp: avz_native_block_cache_clear_def avz_assembly_chain_retire_def Let_def)

lemma cache_ok_aligned: "cache_ok cache \<Longrightarrow> aligned (bc_tracked_first_page cache)"
  by (simp add: cache_ok_def page_index_ok_def)

lemma cleared_tracking_ok:
  assumes "avz_native_block_cache_clear cache = Some c" "aligned first"
  shows "cache_ok (c\<lparr>bc_tracked := t, bc_code_page_refcounts := \<lambda>_. 0, bc_code_page_generations := g,
     bc_trace_code_page_bits := b, bc_tracked_first_page := first, bc_tracked_page_count := n,
     bc_ram := r, bc_ram_base := rb, bc_ram_size := rs\<rparr>)"
  using assms by (intro empty_cache_ok) (auto simp: avz_native_block_cache_clear_def avz_assembly_chain_retire_def Let_def)

lemma configure_ok:
  assumes ok: "cache_ok cache"
    and c: "avz_native_block_cache_configure_physical_range a n cache = Some (r, c)"
  shows "cache_ok c"
  using c ok
  by (auto simp: avz_native_block_cache_configure_physical_range_def Let_def intro: cleared_tracking_ok split: if_splits)

lemma kept_ram [keeps]:
  "kept x c \<Longrightarrow> kept (x\<lparr>bc_ram := r\<rparr>) c" "kept x c \<Longrightarrow> kept (x\<lparr>bc_ram_base := b\<rparr>) c"
  "kept x c \<Longrightarrow> kept (x\<lparr>bc_ram_size := z\<rparr>) c" "kept x c \<Longrightarrow> kept (x\<lparr>bc_has_guest_memory := g\<rparr>) c"
  "kept x c \<Longrightarrow> kept (x\<lparr>bc_trace_code_page_bits := t\<rparr>) c"
  "kept x c \<Longrightarrow> kept (x\<lparr>bc_ram := r, bc_ram_base := b, bc_ram_size := z\<rparr>) c"
  by (simp_all add: kept_def same_index_def same_blocks_def block_of_def)

lemma bind_ok:
  assumes ok: "cache_ok cache"
    and c: "avz_native_block_cache_bind_physical_memory ram a n cache = Some (r, c)"
  shows "cache_ok c"
proof -
  have ram: "cache_ok (x\<lparr>bc_ram := Some ram, bc_ram_base := a, bc_ram_size := n\<rparr>)" if "cache_ok x" for x :: "('a, 'b) block_cache"
    by (rule kept_ok[OF that]) (intro keeps)
  show ?thesis
    using c ok unfolding avz_native_block_cache_bind_physical_memory_def Let_def
    by (auto simp: cache_ok_aligned intro!: ram intro: clear_ok configure_ok split: if_splits)
qed

lemma set_guest_memory_ok:
  assumes "cache_ok cache" "avz_native_block_cache_set_guest_memory cache = Some c"
  shows "cache_ok c"
  using assms by (auto simp: avz_native_block_cache_set_guest_memory_def cache_ok_aligned intro: clear_ok split: if_splits)

lemma register_trace_ok:
  assumes "cache_ok (w_cache w)"
  shows "cache_ok (w_cache (snd (avz_native_block_cache_register_trace_code_page p w)))"
  by (rule kept_ok[OF assms])
    (auto simp: avz_native_block_cache_register_trace_code_page_def Let_def intro!: keeps split: option.split)

subsection \<open>A write makes the blocks of its pages stale\<close>

lemma advance_changes: "avz_advance_nonzero_counter g \<noteq> g"
  by (cases "g = - 1") (auto simp: avz_advance_nonzero_counter_def)

definition holds_code :: "('p, 'q) block_cache \<Rightarrow> nat \<Rightarrow> bool" where
  "holds_code cache i \<longleftrightarrow> bc_code_page_refcounts cache i \<noteq> 0 \<or> avz_trace_code_page_is_registered cache i"

definition page_slot :: "('p, 'q) block_cache \<Rightarrow> u64 \<Rightarrow> nat" where
  "page_slot cache page = unat (shr (page - bc_tracked_first_page cache) 12)"

lemma bump_page_cases:
  "bump_page page (b, cache) = (if holds_code cache (page_slot cache page)
     then (True, count_statistic Code_page_generation_bumps
            (cache\<lparr>bc_code_page_generations := (bc_code_page_generations cache)
               (page_slot cache page := avz_advance_nonzero_counter (bc_code_page_generations cache (page_slot cache page)))\<rparr>))
     else (b, cache))"
  by (simp add: bump_page_def holds_code_def page_slot_def Let_def)

lemma bump_page_frame:
  "holds_code (snd (bump_page page (b, cache))) = holds_code cache"
  "page_slot (snd (bump_page page (b, cache))) = page_slot cache"
  "bc_entries (snd (bump_page page (b, cache))) = bc_entries cache"
  by (simp_all add: bump_page_cases count_statistic_def holds_code_def page_slot_def
      avz_trace_code_page_is_registered_def fun_eq_iff)

lemma bump_pages_generations:
  assumes "distinct (map (page_slot cache) pages)"
  shows "bc_code_page_generations (snd (fold bump_page pages (b, cache))) k =
      (if k \<in> set (map (page_slot cache) pages) \<and> holds_code cache k
       then avz_advance_nonzero_counter (bc_code_page_generations cache k) else bc_code_page_generations cache k) \<and>
    bc_entries (snd (fold bump_page pages (b, cache))) = bc_entries cache"
  using assms
proof (induction pages arbitrary: b cache)
  case (Cons page pages)
  obtain b' c where bc: "bump_page page (b, cache) = (b', c)" by (cases "bump_page page (b, cache)")
  have f: "holds_code c = holds_code cache" "page_slot c = page_slot cache" "bc_entries c = bc_entries cache"
    using bump_page_frame[of page b cache] bc by simp_all
  have g: "bc_code_page_generations c j = (if j = page_slot cache page \<and> holds_code cache j
      then avz_advance_nonzero_counter (bc_code_page_generations cache j) else bc_code_page_generations cache j)" for j
    using bc unfolding bump_page_cases by (auto simp: count_statistic_def split: if_splits)
  show ?case using Cons.IH[of c b'] Cons.prems by (auto simp: bc f g)
qed simp


lemma page_slot_arith: "bc_tracked_first_page cache \<le> p \<Longrightarrow>
    page_slot cache p = (unat p - unat (bc_tracked_first_page cache)) div 4096"
  unfolding page_slot_def by (rule page_number)

lemma page_slot_mono: "bc_tracked_first_page cache \<le> p \<Longrightarrow> p \<le> q \<Longrightarrow> page_slot cache p \<le> page_slot cache q"
  using page_slot_arith[of cache p] page_slot_arith[of cache q]
  by (auto simp: word_le_nat_alt intro!: div_le_mono)

lemma unat_add_of_nat: "unat (a :: u64) + m < 2 ^ 64 \<Longrightarrow> unat (a + word_of_nat m) = unat a + m"
  by (simp add: unat_word_ariths(1) unat_of_nat take_bit_nat_eq_self)

lemma pages_between_slots:
  assumes t: "bc_tracked_first_page cache \<le> first" and le: "first \<le> final"
    and al: "aligned first" "aligned final" "aligned (bc_tracked_first_page cache)"
  shows "map (page_slot cache) (pages_between first final) = [page_slot cache first ..< Suc (page_slot cache final)]"
proof -
  let ?t = "unat (bc_tracked_first_page cache)" and ?n = "(unat final - unat first) div 4096"
  have n: "unat (shr (final - first) 12) = ?n" by (rule page_number[OF le])
  have d: "4096 dvd unat first" "4096 dvd unat final" "4096 dvd ?t" using al by (auto simp: aligned_iff)
  have o: "?t \<le> unat first" "unat first \<le> unat final" using t le by (simp_all add: word_le_nat_alt)
  have final_bound: "unat final < 2 ^ 64" using unsigned_less[of final, where ?'a = nat] by simp
  have slot: "page_slot cache (first + word_of_nat (i * 4096)) = page_slot cache first + i" if i: "i \<le> ?n" for i
  proof -
    have "i * 4096 \<le> unat final - unat first" using i by linarith
    then have b: "unat first + i * 4096 \<le> unat final" using o by linarith
    then have u: "unat (first + word_of_nat (i * 4096)) = unat first + i * 4096"
      using final_bound by (intro unat_add_of_nat) linarith
    have "bc_tracked_first_page cache \<le> first + word_of_nat (i * 4096)" using o u by (simp add: word_le_nat_alt)
    from page_slot_arith[OF this] u have "page_slot cache (first + word_of_nat (i * 4096)) =
        (unat first + i * 4096 - ?t) div 4096" by simp
    also have "unat first + i * 4096 - ?t = (unat first - ?t) + i * 4096" using o by linarith
    also have "\<dots> div 4096 = (unat first - ?t) div 4096 + i" by simp
    finally show ?thesis using page_slot_arith[OF t] by simp
  qed
  have "page_slot cache final = page_slot cache first + ?n"
  proof -
    have "bc_tracked_first_page cache \<le> final" using t le by (rule order_trans)
    from page_slot_arith[OF this] have "page_slot cache final = ((unat first - ?t) + (unat final - unat first)) div 4096"
      using o by simp
    also have "\<dots> = (unat first - ?t) div 4096 + ?n"
      using d by (metis div_plus_div_distrib_dvd_left dvd_diff_nat)
    finally show ?thesis using page_slot_arith[OF t] by simp
  qed
  moreover have "map (\<lambda>i. page_slot cache (first + word_of_nat (i * 4096))) [0 ..< Suc ?n] =
      map (\<lambda>i. i + page_slot cache first) [0 ..< Suc ?n]"
    by (rule map_cong[OF refl]) (use slot in \<open>auto simp del: of_nat_mult simp: add.commute\<close>)
  ultimately show ?thesis
    unfolding pages_between_def n map_map o_def by (simp only: map_add_upt add_Suc add_Suc_right add.commute)
qed

text \<open>A page with a valid block is counted.\<close>

lemma indexed_page_holds_code:
  assumes ok: "cache_ok cache" and v: "n_valid (bc_entries cache e)"
    and p: "p \<in> set (b_code_pages (block_of cache e))" and t: "tracked_index cache (p_physical p) = Some k"
  shows "holds_code cache k" "p_token p = Some k"
proof -
  have ix: "pages_indexed cache e (code_pages_of (b_physical_addresses (block_of cache e)))"
    using ok v by (simp add: cache_ok_def block_indexed_def)
  have pok: "page_index_ok cache" using ok by (simp add: cache_ok_def)
  obtain s where s: "s < length (b_code_pages (block_of cache e))" "p = b_code_pages (block_of cache e) ! s"
    using p by (auto simp: in_set_conv_nth)
  have "s < MAX_CODE_PAGES"
    using s(1) ix code_pages_of_bounds[of "b_physical_addresses (block_of cache e)"]
    unfolding pages_indexed_def by (metis length_map less_le_trans)
  then have "link_page cache (e * MAX_CODE_PAGES + s) = Some (p_physical p)"
    using ix s unfolding pages_indexed_def by (metis length_map nth_map)
  then have "e * MAX_CODE_PAGES + s \<in> links_of_page cache k" using t by (auto simp: links_of_page_def)
  then have "card (links_of_page cache k) \<noteq> 0"
    using links_of_page_bound(1)[OF pok, of k] by (auto simp: card_eq_0_iff)
  moreover have "unat (bc_code_page_refcounts cache k) = card (links_of_page cache k)"
    using pok by (simp add: page_index_ok_def)
  ultimately show "holds_code cache k" unfolding holds_code_def by (metis unsigned_0)
  show "p_token p = Some k" using ix p t by (auto simp: pages_indexed_def list_all_iff token_ok_def)
qed

definition tracked_final_page :: "('p, 'q) block_cache \<Rightarrow> u64" where
  "tracked_final_page cache = bc_tracked_first_page cache + shl (word_of_nat (bc_tracked_page_count cache - 1)) 12"

lemma written_range_pages:
  assumes n: "n \<noteq> 0" and fits: "a \<le> a + (n - 1)" and ne: "bc_tracked_page_count cache \<noteq> 0" and tr: "bc_tracked cache"
    and first: "bc_tracked_first_page cache \<le> page_base a"
    and final: "page_base (a + (n - 1)) \<le> tracked_final_page cache"
    and code: "holds_code cache k" "page_slot cache (page_base a) \<le> k" "k \<le> page_slot cache (page_base (a + (n - 1)))"
    and al: "aligned (bc_tracked_first_page cache)"
  shows "bc_code_page_generations (avz_native_block_cache_invalidate_physical_range a n cache) k =
      avz_advance_nonzero_counter (bc_code_page_generations cache k)"
    "bc_entries (avz_native_block_cache_invalidate_physical_range a n cache) = bc_entries cache"
proof -
  let ?first = "page_base a" and ?final = "page_base (a + (n - 1))"
  let ?c = "avz_assembly_chain_retire (count_statistic Invalidation_checks cache)"
  have le: "?first \<le> ?final"
    using fits by (simp add: word_le_nat_alt page_base_arith div_le_mono)
  have nfits: "\<not> a + (n - 1) < a" using fits by simp
  have h: "holds_code ?c = holds_code cache" "page_slot ?c = page_slot cache"
    "bc_code_page_generations ?c = bc_code_page_generations cache" "bc_entries ?c = bc_entries cache"
    "bc_tracked_first_page ?c = bc_tracked_first_page cache" "bc_tracked ?c = bc_tracked cache"
    "bc_tracked_page_count ?c = bc_tracked_page_count cache"
    by (simp_all add: holds_code_def page_slot_def avz_trace_code_page_is_registered_def
        avz_assembly_chain_retire_def count_statistic_def fun_eq_iff)
  have may: "avz_range_may_contain_code (count_statistic Invalidation_checks cache) a (a + (n - 1))"
    using code by (auto simp: avz_range_may_contain_code_def Let_def list_ex_iff holds_code_def page_slot_def
        avz_trace_code_page_is_registered_def count_statistic_def simp del: upt_Suc intro!: bexI[of _ k])
  have slots: "map (page_slot ?c) (pages_between ?first ?final) = [page_slot cache ?first ..< Suc (page_slot cache ?final)]"
    unfolding h(2) by (rule pages_between_slots) (use first le al in simp_all)
  obtain b c where f: "fold bump_page (pages_between ?first ?final) (False, ?c) = (b, c)" by fastforce
  have "k \<in> set (map (page_slot ?c) (pages_between ?first ?final))" "distinct (map (page_slot ?c) (pages_between ?first ?final))"
    using code unfolding slots by auto
  then have g: "bc_code_page_generations c k = avz_advance_nonzero_counter (bc_code_page_generations cache k)"
    "bc_entries c = bc_entries cache"
    using bump_pages_generations[of ?c "pages_between ?first ?final" False k] code(1) unfolding f snd_conv h(1,3,4)
    by simp_all
  have "avz_native_block_cache_invalidate_physical_range a n cache =
      (if b then advance_code_mutation_epoch c else count_statistic Invalidation_skips c)"
    using n nfits may first final ne tr f
    by (simp add: avz_native_block_cache_invalidate_physical_range_def Let_def h tracked_final_page_def)
  then show "bc_code_page_generations (avz_native_block_cache_invalidate_physical_range a n cache) k =
      avz_advance_nonzero_counter (bc_code_page_generations cache k)"
    "bc_entries (avz_native_block_cache_invalidate_physical_range a n cache) = bc_entries cache"
    using g by (simp_all add: advance_code_mutation_epoch_def count_statistic_def)
qed

text \<open>
  C16: a store into the tracked RAM makes every block of a page it touches stale: the code
  page generations recorded in the block, if they were current, are not current afterwards.
\<close>

theorem written_block_is_stale:
  assumes ok: "cache_ok cache" and tr: "bc_tracked cache"
    and v: "n_valid (bc_entries cache e)" and p: "p \<in> set (b_code_pages (block_of cache e))"
    and t: "tracked_index cache (p_physical p) \<noteq> None"
    and current: "avz_block_code_pages_are_current cache (block_of cache e)"
    and n: "n \<noteq> 0" "a \<le> a + (n - 1)"
    and ram: "bc_tracked_first_page cache \<le> page_base a" "page_base (a + (n - 1)) \<le> tracked_final_page cache"
    and touched: "page_base a \<le> p_physical p" "p_physical p \<le> page_base (a + (n - 1))"
  shows "\<not> avz_block_code_pages_are_current (avz_native_block_cache_invalidate_physical_range a n cache)
            (block_of (avz_native_block_cache_invalidate_physical_range a n cache) e)"
proof -
  let ?c = "avz_native_block_cache_invalidate_physical_range a n cache"
  obtain k where k: "tracked_index cache (p_physical p) = Some k" using t by blast
  note hp = indexed_page_holds_code[OF ok v p k]
  have slot: "k = page_slot cache (p_physical p)" "bc_tracked_first_page cache \<le> p_physical p"
    "bc_tracked_page_count cache \<noteq> 0"
    using k by (auto simp: tracked_index_def page_slot_def Let_def split: if_splits)
  have order: "page_slot cache (page_base a) \<le> k" "k \<le> page_slot cache (page_base (a + (n - 1)))"
    unfolding slot(1) by (rule page_slot_mono; use ram touched slot in simp)+
  note w = written_range_pages[OF n slot(3) tr ram hp(1) order cache_ok_aligned[OF ok]]
  have "block_of ?c e = block_of cache e" by (simp add: block_of_def w)
  moreover have "bc_code_page_generations cache k = p_generation p"
    using current p hp(2) by (auto simp: avz_block_code_pages_are_current_def list_all_iff)
  ultimately show ?thesis
    using p hp(2) w(1) advance_changes[of "bc_code_page_generations cache k"]
    by (auto simp: avz_block_code_pages_are_current_def list_all_iff intro!: bexI[of _ p])
qed


text \<open>A cache that tracks sixteen pages and holds one block, whose instruction lies on the second.\<close>

definition sample_memory :: guest_memory where
  "sample_memory = the (avz_guest_memory_create 0x10000)"

definition sample_tracked :: "(unit, unit) block_cache" where
  "sample_tracked = avz_native_block_cache_create\<lparr>bc_tracked := True, bc_tracked_page_count := 16\<rparr>"

definition sample_world :: "(unit, unit, unit) cache_world" where
  "sample_world = \<lparr>w_cache = set_entry 0 (n_block_update (b_physical_addresses_update (\<lambda>_. [0x1008]))) sample_tracked,
     w_memory = sample_memory, w_context = ()\<rparr>"

definition sample_cache :: "(unit, unit) block_cache" where
  "sample_cache = set_entry 0 (n_valid_update (\<lambda>_. True)) (w_cache (avz_index_entry 0 sample_world))"

lemma sample_cache_ok: "cache_ok sample_cache"
proof -
  have t: "cache_ok sample_tracked"
    by (rule empty_cache_ok) (simp_all add: sample_tracked_def avz_native_block_cache_create_def aligned_def page_base_def)
  have k: "cache_ok (w_cache sample_world)"
    using t by (rule cache_ok_without[OF _ _, of _ _ 0])
      (simp_all add: sample_world_def same_index_def set_entry_def sample_tracked_def avz_native_block_cache_create_def
        empty_entry_def block_of_def avz_unindex_entry_def avz_assembly_chain_forget_entry_def upt_rec avz_unlink_page_link_def empty_link_def)
  have f: "indexable (w_cache sample_world) 0"
    by (simp add: indexable_def sample_world_def link_page_def set_entry_def sample_tracked_def
        avz_native_block_cache_create_def empty_link_def)
  have pok: "page_index_ok (w_cache sample_world)" using k by (simp add: cache_ok_def)
  note i = index_entry_effect[OF pok f]
  let ?c = "w_cache (avz_index_entry 0 sample_world)"
  have same: "same_index sample_cache ?c" by (simp add: sample_cache_def same_index_def set_entry_def)
  have bl: "block_of sample_cache e = block_of ?c e" for e by (simp add: sample_cache_def block_of_def set_entry_def)
  show ?thesis
  proof (rule cache_ok_join[OF k, of _ 0])
    show "page_index_ok sample_cache" using i(1) same_index_views(3)[OF same] by simp
    show "block_indexed sample_cache 0"
      using i(2) same_index_views[OF same]
      by (simp add: block_indexed_def pages_indexed_def bl list_all_iff token_ok_def)
    show "tracked_index sample_cache = tracked_index (w_cache sample_world)"
      using i(3) same_index_views(2)[OF same] by (simp add: only_entry_def)
    show "link_page sample_cache j = link_page (w_cache sample_world) j" if "j div MAX_CODE_PAGES \<noteq> 0" for j
      using i(3) same_index_views(1)[OF same] that by (simp add: only_entry_def)
    show "bc_entries sample_cache e' = bc_entries (w_cache sample_world) e'" if "e' \<noteq> 0" for e'
      using i(3) that by (simp add: only_entry_def sample_cache_def set_entry_def)
  qed (simp_all add: sample_cache_def set_entry_def)
qed

lemma sample_cache_facts:
  "bc_tracked sample_cache" "n_valid (bc_entries sample_cache 0)" "bc_tracked_first_page sample_cache = 0"
  "bc_tracked_page_count sample_cache = 16" "b_code_pages (block_of sample_cache 0) =
    [\<lparr>p_physical = 0x1000, p_host = None, p_token = Some 1, p_generation = 0, p_shared_token = None, p_shared_generation = 0\<rparr>]"
  "bc_code_page_generations sample_cache = (\<lambda>_. 0)"
  by (simp_all add: sample_cache_def avz_index_entry_def sample_world_def set_entry_def on_cache_def code_pages_of_def
      page_base_def index_page_def avz_link_entry_page_def avz_track_code_page_def tracked_index_def sample_tracked_def
      avz_native_block_cache_create_def set_link_def empty_entry_def empty_block_def Let_def avz_direct_physical_pointer_def
      avz_code_page_generation_token_def block_of_def)

theorem written_block_is_stale_witness:
  "\<not> avz_block_code_pages_are_current (avz_native_block_cache_invalidate_physical_range 0x1004 8 sample_cache)
      (block_of (avz_native_block_cache_invalidate_physical_range 0x1004 8 sample_cache) 0)"
  by (rule written_block_is_stale[OF sample_cache_ok sample_cache_facts(1,2),
        where p = "\<lparr>p_physical = 0x1000, p_host = None, p_token = Some 1, p_generation = 0, p_shared_token = None, p_shared_generation = 0\<rparr>"])
    (simp_all add: sample_cache_facts tracked_index_def Let_def avz_block_code_pages_are_current_def page_base_def tracked_final_page_def)

end
