(* ===== verification/BlockLookup.thy ===== *)
theory BlockLookup
  imports IndexInvariant SemanticLoops Decode
begin

text \<open>
  Looking up and decoding blocks in \<open>ARM64VizBlockCache.c\<close>: the classification of a decoded
  block, the keys and their hashes, the check that the code of an entry is current, the
  decoder loop with its direct fetch window, the lookup with its front cache, its four ways and
  its prefetch of fall-through blocks, the successors a block remembers, and the programs
  prepared from a block.

  The fetch and the mapping validation are callbacks of the embedder. They take the whole
  \<open>cache_world\<close>, because a callback may retire translations of this very cache.
\<close>

subsection \<open>Classification\<close>

abbreviation SEMANTIC_NONE :: u8 where "SEMANTIC_NONE \<equiv> 0"

definition avz_musl_memcmp_body :: "u32 list" where
  "avz_musl_memcmp_body = [0x39400003, 0xd1000442, 0x39400024, 0x91000400, 0x91000421, 0x6b04007f, 0x54ffff20]"

definition avz_native_is_musl_memcmp_body_shape :: "instr list \<Rightarrow> bool" where
  "avz_native_is_musl_memcmp_body_shape is = (map i_raw is = avz_musl_memcmp_body)"

definition avz_native_classify_semantic_candidate :: "instr list \<Rightarrow> nat \<Rightarrow> bool \<Rightarrow> bool \<Rightarrow> u8" where
  "avz_native_classify_semantic_candidate is index is_block_start has_mapped_trace =
     (if index \<ge> length is then SEMANTIC_NONE
      else
        let i = is ! index;
            raw = i_raw i;
            block = (if is_block_start then drop index is else []);
            count = length block;
            follows = (\<lambda>w. index + 1 < length is \<and> i_raw (is ! (index + 1)) = w)
        in if is_block_start \<and> avz_native_is_elf_plt_thunk_shape block then 1
           else if has_mapped_trace \<and> (raw = 0x38616864 \<or> raw = 0x38616803) then 2
           else if is_block_start \<and> raw = 0x0cdf0104 then 3
           else if is_block_start \<and> raw = 0x5400004d then 4
           else if is_block_start \<and> count = 3 \<and> raw = 0x91000421 then 5
           else if is_block_start \<and> count = 5 \<and> raw = 0x11000718 then 6
           else if has_mapped_trace \<and> raw = 0xb94000a6 then 7
           else if is_block_start \<and> avz_native_is_musl_memcmp_body_shape block then 8
           else if has_mapped_trace \<and> raw = 0xa9011c66 \<and> follows 0xa9411c26 then 9
           else if has_mapped_trace \<and> raw = 0x0c9f2840 \<and> follows 0x0cdf2880 then 10
           else if is_block_start \<and> count = 3 \<and> i_kind i = AVZ_NATIVE_OP_SIMD_LOAD_STORE_MULTIPLE_STRUCTURE then 11
           else if is_block_start \<and> count \<ge> 3 \<and> i_kind i = AVZ_NATIVE_OP_LOAD_STORE_PAIR then 12
           else SEMANTIC_NONE)"

definition avz_is_coherent_cache_maintenance :: "u32 \<Rightarrow> bool" where
  "avz_is_coherent_cache_maintenance instruction =
     (let crn = fld instruction 12 0xf; crm = fld instruction 8 0xf
      in crn = 7 \<and> (crm = 5 \<or> crm = 6 \<or> 10 \<le> crm \<and> crm \<le> 14))"

definition is_instruction_barrier :: "u32 \<Rightarrow> bool" where
  "is_instruction_barrier raw = matches raw 0xfffff0ff 0xd50330df"

definition avz_record_block_exit_metadata :: "instr \<Rightarrow> decoded_block \<Rightarrow> decoded_block" where
  "avz_record_block_exit_metadata i block =
     (let kind = i_kind i; barrier = block\<lparr>b_chain_barrier := True\<rparr>
      in if kind = AVZ_NATIVE_OP_SYSTEM_REGISTER_READ \<or> kind = AVZ_NATIVE_OP_EXCEPTION_RETURN then barrier
         else if kind = AVZ_NATIVE_OP_SYNCHRONOUS_EXCEPTION then
           if \<not> matches (i_raw i) 0xffe0001f 0xd4000001
           then barrier\<lparr>b_requires_host_checkpoint := True\<rparr> else barrier
         else if kind = AVZ_NATIVE_OP_SYSTEM_INSTRUCTION then
           if avz_is_coherent_cache_maintenance (i_raw i) then block
           else barrier\<lparr>b_requires_host_checkpoint := True\<rparr>
         else if kind = AVZ_NATIVE_OP_SYSTEM_REGISTER_WRITE \<or> kind = AVZ_NATIVE_OP_PSTATE_IMMEDIATE \<or>
                 kind = AVZ_NATIVE_OP_WAIT \<or> kind = AVZ_NATIVE_OP_HALT
           then barrier\<lparr>b_requires_host_checkpoint := True\<rparr>
         else if kind = AVZ_NATIVE_OP_BARRIER \<and> is_instruction_barrier (i_raw i) then barrier
         else block)"

definition avz_classify_block_semantics :: "decoded_block \<Rightarrow> decoded_block" where
  "avz_classify_block_semantics block =
     (let is = b_instructions block;
          classes = (\<lambda>trace. map (\<lambda>i. avz_native_classify_semantic_candidate is i (i = 0) trace) [0 ..< length is])
      in block\<lparr>b_semantic_candidates := classes False, b_trace_semantic_candidates := classes True\<rparr>)"

definition avz_native_kind_uses_vector_state :: "u16 \<Rightarrow> bool" where
  "avz_native_kind_uses_vector_state kind = (kind \<in> set
     [AVZ_NATIVE_OP_SIMD_MOVE_VECTOR_ELEMENT_TO_GENERAL, AVZ_NATIVE_OP_FP_SCALAR_GENERAL_MOVE,
      AVZ_NATIVE_OP_FP_SCALAR_REGISTER_MOVE, AVZ_NATIVE_OP_FP_SCALAR_IMMEDIATE_MOVE,
      AVZ_NATIVE_OP_SIMD_SCALAR_SIGNED_INTEGER_TO_FP, AVZ_NATIVE_OP_SIMD_INSERT_GENERAL_TO_ELEMENT,
      AVZ_NATIVE_OP_SIMD_SIGNED_SHIFT_LONG_S_TO_D, AVZ_NATIVE_OP_SIMD_ADD_VECTOR,
      AVZ_NATIVE_OP_SIMD_ORR_VECTOR, AVZ_NATIVE_OP_SIMD_UNSIGNED_SHIFT_REGISTER,
      AVZ_NATIVE_OP_SIMD_DUPLICATE_GENERAL, AVZ_NATIVE_OP_SIMD_MOVI_ZERO, AVZ_NATIVE_OP_SIMD_MOVI_BYTE,
      AVZ_NATIVE_OP_SIMD_MVNI_IMMEDIATE, AVZ_NATIVE_OP_SIMD_MOVI_D_IMMEDIATE,
      AVZ_NATIVE_OP_SIMD_MOVI_WORD_IMMEDIATE, AVZ_NATIVE_OP_SIMD_TABLE_LOOKUP,
      AVZ_NATIVE_OP_SIMD_PERMUTE_TWO_VECTOR, AVZ_NATIVE_OP_SIMD_FP_LOAD_STORE_IMMEDIATE,
      AVZ_NATIVE_OP_SIMD_FP_LOAD_STORE_PAIR, AVZ_NATIVE_OP_SIMD_FP_LOAD_STORE_REGISTER_OFFSET,
      AVZ_NATIVE_OP_FP_INTEGER_TO_SCALAR_FP, AVZ_NATIVE_OP_FP_SCALAR_ARITHMETIC,
      AVZ_NATIVE_OP_FP_SCALAR_MINMAX, AVZ_NATIVE_OP_SIMD_INTEGER_MINMAX,
      AVZ_NATIVE_OP_FP_SCALAR_FUSED_MULTIPLY_ADD, AVZ_NATIVE_OP_FP_SCALAR_UNARY,
      AVZ_NATIVE_OP_FP_RECIPROCAL_ESTIMATE, AVZ_NATIVE_OP_FP_RECIPROCAL_STEP,
      AVZ_NATIVE_OP_SIMD_SCALAR_FP_ABSOLUTE_DIFFERENCE, AVZ_NATIVE_OP_SIMD_FP_IMMEDIATE_MOVE,
      AVZ_NATIVE_OP_FP_SCALAR_NEGATED_MULTIPLY, AVZ_NATIVE_OP_SIMD_PAIRWISE_ADD_LONG,
      AVZ_NATIVE_OP_SIMD_PAIRWISE_ADD, AVZ_NATIVE_OP_FP_SCALAR_CONDITIONAL_COMPARE,
      AVZ_NATIVE_OP_FP_SCALAR_ROUND_INTEGRAL, AVZ_NATIVE_OP_SIMD_INTEGER_NEGATE,
      AVZ_NATIVE_OP_SIMD_SHIFT_LEFT_IMMEDIATE, AVZ_NATIVE_OP_SIMD_MULTIPLY_LONG,
      AVZ_NATIVE_OP_SIMD_NARROW_HIGH, AVZ_NATIVE_OP_SIMD_BITWISE_NOT,
      AVZ_NATIVE_OP_SIMD_SATURATING_ADD_SUBTRACT, AVZ_NATIVE_OP_SIMD_SHIFT_RIGHT_IMMEDIATE,
      AVZ_NATIVE_OP_SIMD_INSERT_VECTOR_ELEMENT, AVZ_NATIVE_OP_FP_SCALAR_CONDITIONAL_SELECT,
      AVZ_NATIVE_OP_FP_SCALAR_COMPARE, AVZ_NATIVE_OP_FP_SCALAR_CONVERT_TO_INTEGER,
      AVZ_NATIVE_OP_SIMD_FP_CONVERT_TO_INTEGER, AVZ_NATIVE_OP_FP_SCALAR_CONVERT_PRECISION,
      AVZ_NATIVE_OP_SIMD_LOAD_STORE_SINGLE_STRUCTURE_LANE, AVZ_NATIVE_OP_SIMD_LOAD_STORE_MULTIPLE_STRUCTURE,
      AVZ_NATIVE_OP_SIMD_DUPLICATE_VECTOR_ELEMENT, AVZ_NATIVE_OP_SIMD_SCALAR_SHIFT_LEFT_IMMEDIATE,
      AVZ_NATIVE_OP_SIMD_ADD_ACROSS_VECTOR, AVZ_NATIVE_OP_SIMD_COMPARE_EQUAL_VECTOR,
      AVZ_NATIVE_OP_SIMD_COUNT_SET_BITS, AVZ_NATIVE_OP_SIMD_COUNT_LEADING_ZEROS,
      AVZ_NATIVE_OP_SIMD_UNSIGNED_MAX_PAIRWISE, AVZ_NATIVE_OP_SIMD_REVERSE_ELEMENTS,
      AVZ_NATIVE_OP_SIMD_EXTRACT_VECTOR, AVZ_NATIVE_OP_SIMD_FP_CONVERT_NARROW_WIDEN,
      AVZ_NATIVE_OP_SIMD_FP_COMPARE_VECTOR])"

definition avz_native_kind_terminates_block :: "u16 \<Rightarrow> bool" where
  "avz_native_kind_terminates_block kind = (kind \<in> set
     [AVZ_NATIVE_OP_CBZ, AVZ_NATIVE_OP_TBZ, AVZ_NATIVE_OP_BCOND, AVZ_NATIVE_OP_BRANCH,
      AVZ_NATIVE_OP_REGISTER_BRANCH, AVZ_NATIVE_OP_SYSTEM_REGISTER_WRITE, AVZ_NATIVE_OP_SYSTEM_INSTRUCTION,
      AVZ_NATIVE_OP_EXCEPTION_RETURN, AVZ_NATIVE_OP_PSTATE_IMMEDIATE, AVZ_NATIVE_OP_SYNCHRONOUS_EXCEPTION,
      AVZ_NATIVE_OP_WAIT])"

definition avz_native_kind_has_linear_fallthrough :: "u16 \<Rightarrow> bool" where
  "avz_native_kind_has_linear_fallthrough kind =
     (kind = AVZ_NATIVE_OP_CBZ \<or> kind = AVZ_NATIVE_OP_TBZ \<or> kind = AVZ_NATIVE_OP_BCOND)"

definition avz_instruction_requires_vm_exit :: "u32 \<Rightarrow> u16 \<Rightarrow> bool" where
  "avz_instruction_requires_vm_exit instruction kind =
     (matches instruction 0xfffff0ff 0xd503305f \<or> kind = AVZ_NATIVE_OP_HALT)"

subsection \<open>Keys\<close>

text \<open>The half of the address space of the program counter decides which table base matters.\<close>

definition avz_canonical_block_key :: "block_key \<Rightarrow> block_key" where
  "avz_canonical_block_key key =
     (if shr (k_pc key) 63 \<noteq> 0
      then key\<lparr>k_ttbr0_el1 := 0, k_ttbr1_el1 := k_ttbr1_el1 key AND 0x0000fffffffff000\<rparr>
      else key\<lparr>k_ttbr0_el1 := k_ttbr0_el1 key AND 0x0000fffffffff000, k_ttbr1_el1 := 0\<rparr>)"

definition avz_block_contexts_equal :: "block_key \<Rightarrow> block_key \<Rightarrow> bool" where
  "avz_block_contexts_equal left right \<longleftrightarrow>
     k_sctlr_el1 left = k_sctlr_el1 right \<and> k_tcr_el1 left = k_tcr_el1 right \<and>
     k_ttbr0_el1 left = k_ttbr0_el1 right \<and> k_ttbr1_el1 left = k_ttbr1_el1 right \<and>
     k_current_el left = k_current_el right"

definition avz_block_keys_equal :: "block_key \<Rightarrow> block_key \<Rightarrow> bool" where
  "avz_block_keys_equal left right \<longleftrightarrow> k_pc left = k_pc right \<and> avz_block_contexts_equal left right"

definition compute_context_hash :: "block_key \<Rightarrow> u64" where
  "compute_context_hash key =
     avz_mix_u64 (avz_mix_u64 (k_sctlr_el1 key) XOR avz_mix_u64 (k_tcr_el1 key) XOR
       avz_mix_u64 (k_ttbr0_el1 key) XOR avz_mix_u64 (k_ttbr1_el1 key) XOR avz_mix_u64 (ucast (k_current_el key)))"

definition avz_block_context_hash :: "block_key \<Rightarrow> ('p, 'q) block_cache \<Rightarrow> u64 \<times> ('p, 'q) block_cache" where
  "avz_block_context_hash key cache =
     (case bc_last_context cache of
        Some (context, hash) \<Rightarrow>
          if avz_block_contexts_equal context key then (hash, cache)
          else (compute_context_hash key, cache\<lparr>bc_last_context := Some (key, compute_context_hash key)\<rparr>)
      | None \<Rightarrow> (compute_context_hash key, cache\<lparr>bc_last_context := Some (key, compute_context_hash key)\<rparr>))"

definition avz_block_key_hash :: "block_key \<Rightarrow> ('p, 'q) block_cache \<Rightarrow> u64 \<times> ('p, 'q) block_cache" where
  "avz_block_key_hash key cache =
     (let (hash, cache) = avz_block_context_hash key cache
      in (avz_mix_u64 (avz_mix_u64 (k_pc key) XOR hash), cache))"

definition avz_entry_for_block :: "nat \<Rightarrow> nat option" where
  "avz_entry_for_block block = (if block < ENTRY_COUNT then Some block else None)"

definition avz_allocate_block_serial :: "('p, 'q) block_cache \<Rightarrow> u64 \<times> ('p, 'q) block_cache" where
  "avz_allocate_block_serial cache =
     (let serial = avz_advance_nonzero_counter (bc_next_serial cache)
      in (serial, cache\<lparr>bc_next_serial := serial\<rparr>))"

definition avz_block_set_index :: "u64 \<Rightarrow> nat" where
  "avz_block_set_index hash = unat (hash AND 8191)"

definition avz_update_front_cache :: "u64 \<Rightarrow> nat \<Rightarrow> ('p, 'q) block_cache \<Rightarrow> ('p, 'q) block_cache" where
  "avz_update_front_cache hash entry_index cache =
     cache\<lparr>bc_front_entries := (bc_front_entries cache)
       (unat (hash AND 8191) := \<lparr>f_hash = hash, f_entry_index = entry_index, f_valid = True\<rparr>)\<rparr>"


subsection \<open>The code of an entry is current\<close>

record ('p, 'q, 'x) cache_callbacks =
  c_fetch :: "u64 \<Rightarrow> ('p, 'q, 'x) cache_world \<Rightarrow> (u64 \<times> u32) option \<times> ('p, 'q, 'x) cache_world"
  c_validate_mapping :: "(u64 \<Rightarrow> u64 \<Rightarrow> ('p, 'q, 'x) cache_world \<Rightarrow> bool \<times> ('p, 'q, 'x) cache_world) option"

text \<open>The loop over the instructions that validates the mapping of each virtual page once.\<close>

primrec validate_pages ::
  "(u64 \<Rightarrow> u64 \<Rightarrow> ('p, 'q, 'x) cache_world \<Rightarrow> bool \<times> ('p, 'q, 'x) cache_world) \<Rightarrow> (u64 \<times> u64) list \<Rightarrow>
     u64 \<Rightarrow> ('p, 'q, 'x) cache_world \<Rightarrow> bool \<times> ('p, 'q, 'x) cache_world" where
  "validate_pages validate [] previous_page w = (True, w)"
| "validate_pages validate (a # as) previous_page w =
     (if shr (fst a) 12 = previous_page then validate_pages validate as previous_page w
      else let (ok, w) = validate (fst a) (snd a) w
           in if \<not> ok then (False, w) else validate_pages validate as (shr (fst a) 12) w)"

definition instruction_addresses :: "decoded_block \<Rightarrow> (u64 \<times> u64) list" where
  "instruction_addresses block =
     map (\<lambda>i. (k_pc (b_key block) + word_of_nat (i * 4), b_physical_addresses block ! i))
       [0 ..< length (b_instructions block)]"

definition revalidate_translation ::
  "('p, 'q, 'x) cache_callbacks \<Rightarrow> nat \<Rightarrow> ('p, 'q, 'x) cache_world \<Rightarrow> bool \<times> ('p, 'q, 'x) cache_world" where
  "revalidate_translation k entry w =
     (let epoch = bc_translation_epoch (w_cache w)
      in if n_validated_translation_epoch (bc_entries (w_cache w) entry) = epoch then (True, w)
         else
           case c_validate_mapping k of
             None \<Rightarrow> (False, w)
           | Some validate \<Rightarrow>
               let (ok, w) = validate_pages validate (instruction_addresses (block_of (w_cache w) entry)) (- 1) w
               in if \<not> ok \<or> epoch \<noteq> bc_translation_epoch (w_cache w) then (False, w)
                  else (True, on_cache (set_entry entry (n_validated_translation_epoch_update (\<lambda>_. epoch))) w))"

definition avz_entry_code_is_current ::
  "('p, 'q, 'x) cache_callbacks \<Rightarrow> nat \<Rightarrow> ('p, 'q, 'x) cache_world \<Rightarrow> bool \<times> ('p, 'q, 'x) cache_world" where
  "avz_entry_code_is_current k entry w =
     (let shared_epoch = avz_native_block_cache_shared_code_mutation_epoch w;
          shared_stale = (n_validated_shared_code_mutation_epoch (bc_entries (w_cache w) entry) \<noteq> shared_epoch)
      in if shared_stale \<and> \<not> avz_block_shared_code_pages_are_current w (block_of (w_cache w) entry) then (False, w)
         else
           let w = (if shared_stale
                    then on_cache (set_entry entry (n_validated_shared_code_mutation_epoch_update (\<lambda>_. shared_epoch))) w
                    else w)
           in if n_validated_code_mutation_epoch (bc_entries (w_cache w) entry) = bc_code_mutation_epoch (w_cache w)
              then (True, w)
              else
                let (ok, w) = revalidate_translation k entry w
                in if \<not> ok \<or> \<not> avz_block_code_pages_are_current (w_cache w) (block_of (w_cache w) entry) then (False, w)
                   else (True, on_cache (set_entry entry (n_validated_code_mutation_epoch_update
                                 (\<lambda>_. bc_code_mutation_epoch (w_cache w)))) w))"

subsection \<open>Decoding a block\<close>

datatype decode_status = DECODE_OK | DECODE_FETCH_FAULT | DECODE_UNSUPPORTED

text \<open>
  \<open>d_direct\<close> is \<open>direct_virtual_page\<close> and \<open>direct_physical_address\<close> where
  \<open>direct_fetch_valid\<close> is set.
\<close>

record decode_state =
  d_block :: decoded_block
  d_program_counter :: u64
  d_direct :: "(u64 \<times> u64) option"

text \<open>The window that the previous fetch left, where it covers the page of the key.\<close>

definition consult_decode_window ::
  "block_key \<Rightarrow> ('p, 'q) block_cache \<Rightarrow> (u64 \<times> u64) option \<times> ('p, 'q) block_cache" where
  "consult_decode_window key cache =
     (case bc_decode_window cache of
        None \<Rightarrow> (None, count_statistic Decode_window_misses cache)
      | Some (window_key, virtual_page, physical_page) \<Rightarrow>
          if virtual_page = shr (k_pc key) 12 \<and> avz_block_contexts_equal window_key key
          then
            let page_offset = k_pc key AND 0xfff;
                physical = physical_page + page_offset
            in if physical_page \<le> - 1 - page_offset \<and> avz_direct_physical_pointer cache physical 4 \<noteq> None
               then (Some (shr (k_pc key) 12, physical), count_statistic Decode_window_hits cache)
               else (None, count_statistic Decode_window_misses (cache\<lparr>bc_decode_window := None\<rparr>))
          else (None, count_statistic Decode_window_misses cache))"

text \<open>One fetch: directly from RAM where the window allows it, else through the callback.\<close>

definition fetch_raw ::
  "('p, 'q, 'x) cache_callbacks \<Rightarrow> u64 \<Rightarrow> (u64 \<times> u64) option \<Rightarrow> ('p, 'q, 'x) cache_world \<Rightarrow>
     (u64 \<times> u32) option \<times> ('p, 'q, 'x) cache_world" where
  "fetch_raw k pc direct w =
     (case direct of
        None \<Rightarrow> c_fetch k pc w
      | Some (virtual_page, physical) \<Rightarrow>
          if shr pc 12 \<noteq> virtual_page then c_fetch k pc w
          else case avz_direct_physical_pointer (w_cache w) physical 4 of
                 None \<Rightarrow> c_fetch k pc w
               | Some offset \<Rightarrow>
                   (Some (physical, ucast (avz_fast_load (g_bytes (w_memory w)) offset 4)),
                    on_cache (count_statistic Direct_code_fetches) w))"

text \<open>The window for the next fetch, which the cache also remembers.\<close>

definition advance_decode_window ::
  "block_key \<Rightarrow> u64 \<Rightarrow> u64 \<Rightarrow> ('p, 'q) block_cache \<Rightarrow> (u64 \<times> u64) option \<times> ('p, 'q) block_cache" where
  "advance_decode_window key pc physical_address cache =
     (if physical_address \<le> - 1 - 4 \<and> physical_address AND 0xfff = pc AND 0xfff \<and>
         avz_direct_physical_pointer cache physical_address 4 \<noteq> None
      then (Some (shr pc 12, physical_address + 4),
            cache\<lparr>bc_decode_window := Some (key, shr pc 12, physical_address - (pc AND 0xfff))\<rparr>)
      else (None, cache))"

definition append_instruction :: "instr \<Rightarrow> u64 \<Rightarrow> decoded_block \<Rightarrow> decoded_block" where
  "append_instruction i physical_address block =
     avz_record_block_exit_metadata i
       (block\<lparr>b_instructions := b_instructions block @ [i],
          b_physical_addresses := b_physical_addresses block @ [physical_address],
          b_uses_vector_state := b_uses_vector_state block \<or> avz_native_kind_uses_vector_state (i_kind i)\<rparr>)"

definition ends_block :: "u32 \<Rightarrow> u16 \<Rightarrow> bool" where
  "ends_block raw kind =
     (avz_native_kind_terminates_block kind \<or> kind = AVZ_NATIVE_OP_BARRIER \<and> is_instruction_barrier raw)"

text \<open>The loop, with the number of instructions the block may still take.\<close>

primrec decode_loop ::
  "nat \<Rightarrow> ('p, 'q, 'x) cache_callbacks \<Rightarrow> decode_state \<Rightarrow> ('p, 'q, 'x) cache_world \<Rightarrow>
     decode_status \<times> u32 \<times> decoded_block \<times> ('p, 'q, 'x) cache_world" where
  "decode_loop 0 k s w = (DECODE_OK, 0, avz_classify_block_semantics (d_block s), w)"
| "decode_loop (Suc n) k s w =
     (let block = d_block s; pc = d_program_counter s
      in case fetch_raw k pc (d_direct s) w of
           (None, w) \<Rightarrow>
             if b_instructions block = [] then (DECODE_FETCH_FAULT, 0, block, w)
             else (DECODE_OK, 0, avz_classify_block_semantics block, w)
         | (Some (physical_address, raw), w) \<Rightarrow>
             let (direct, cache) = advance_decode_window (b_key block) pc physical_address (w_cache w);
                 w = w\<lparr>w_cache := cache\<rparr>
             in case avz_native_decode_instruction raw of
                  Some i \<Rightarrow>
                    if avz_instruction_requires_vm_exit raw (i_kind i)
                    then if b_instructions block = [] then (DECODE_UNSUPPORTED, raw, block, w)
                         else (DECODE_OK, 0, avz_classify_block_semantics block, w)
                    else
                      let block = append_instruction i physical_address block
                      in if ends_block raw (i_kind i)
                         then (DECODE_OK, 0, avz_classify_block_semantics block, w)
                         else decode_loop n k \<lparr>d_block = block, d_program_counter = pc + 4, d_direct = direct\<rparr> w
                | None \<Rightarrow>
                    if b_instructions block = [] then (DECODE_UNSUPPORTED, raw, block, w)
                    else (DECODE_OK, 0, avz_classify_block_semantics block, w))"

definition avz_decode_block ::
  "('p, 'q, 'x) cache_callbacks \<Rightarrow> block_key \<Rightarrow> ('p, 'q, 'x) cache_world \<Rightarrow>
     decode_status \<times> u32 \<times> decoded_block \<times> ('p, 'q, 'x) cache_world" where
  "avz_decode_block k key w =
     (let (direct, cache) = consult_decode_window key (w_cache w)
      in decode_loop MAX_INSTRUCTIONS k
           \<lparr>d_block = empty_block\<lparr>b_key := key\<rparr>, d_program_counter = k_pc key, d_direct = direct\<rparr>
           (w\<lparr>w_cache := cache\<rparr>))"

subsection \<open>Lookup\<close>

text \<open>
  A probe of one entry: \<open>Some True\<close> is a hit, \<open>Some False\<close> an entry of this key that was stale
  and is discarded, \<open>None\<close> an entry of another key. The code tests an entry in two branches that
  both read its key; the second sees the code current.
\<close>

definition probe_entry ::
  "('p, 'q, 'x) cache_callbacks \<Rightarrow> block_key \<Rightarrow> nat \<Rightarrow> ('p, 'q, 'x) cache_world \<Rightarrow> bool \<times> ('p, 'q, 'x) cache_world" where
  "probe_entry k key entry w =
     (let matching = (\<lambda>w. n_valid (bc_entries (w_cache w) entry) \<and>
                          avz_block_keys_equal (b_key (block_of (w_cache w) entry)) key)
      in if \<not> matching w then (False, w)
         else let (current, w) = avz_entry_code_is_current k entry w
              in if \<not> current then (False, on_cache (avz_discard_stale_entry entry) w)
                 else (matching w, w))"

definition record_hit :: "nat \<Rightarrow> ('p, 'q) block_cache \<Rightarrow> ('p, 'q) block_cache" where
  "record_hit entry cache = avz_touch_entry entry (avz_record_prefetch_hit entry cache)"

definition probe_front ::
  "('p, 'q, 'x) cache_callbacks \<Rightarrow> block_key \<Rightarrow> u64 \<Rightarrow> ('p, 'q, 'x) cache_world \<Rightarrow>
     nat option \<times> ('p, 'q, 'x) cache_world" where
  "probe_front k key hash w =
     (let front = bc_front_entries (w_cache w) (unat (hash AND 8191));
          entry = f_entry_index front
      in if f_valid front \<and> f_hash front = hash \<and> entry < ENTRY_COUNT
         then let (hit, w) = probe_entry k key entry w
              in if hit then (Some entry, on_cache (\<lambda>cache. record_hit entry
                                (count_statistic Front_hits (count_statistic Hits cache))) w)
                 else (None, w)
         else (None, w))"

text \<open>The loop over the ways of a set: the entry found, else the first way that is free.\<close>

primrec probe_ways ::
  "('p, 'q, 'x) cache_callbacks \<Rightarrow> block_key \<Rightarrow> u64 \<Rightarrow> nat list \<Rightarrow> nat option \<Rightarrow> ('p, 'q, 'x) cache_world \<Rightarrow>
     nat option \<times> nat option \<times> ('p, 'q, 'x) cache_world" where
  "probe_ways k key hash [] first_invalid w = (None, first_invalid, w)"
| "probe_ways k key hash (entry # entries) first_invalid w =
     (let (hit, w) = probe_entry k key entry w
      in if hit then (Some entry, first_invalid,
                      on_cache (\<lambda>cache. avz_update_front_cache hash entry
                        (record_hit entry (count_statistic Hits cache))) w)
         else probe_ways k key hash entries
                (if \<not> n_valid (bc_entries (w_cache w) entry) \<and> first_invalid = None then Some entry else first_invalid) w)"

definition choose_victim :: "('p, 'q) block_cache \<Rightarrow> nat \<Rightarrow> nat" where
  "choose_victim cache base =
     fold (\<lambda>way entry_index.
         let candidate = bc_entries cache (base + way); victim = bc_entries cache entry_index
         in if n_prefetched candidate \<and> \<not> n_prefetched victim \<or>
               n_prefetched candidate = n_prefetched victim \<and> n_last_used candidate < n_last_used victim
            then base + way else entry_index)
       [1 ..< WAY_COUNT] base"

definition evict_entry :: "nat \<Rightarrow> ('p, 'q) block_cache \<Rightarrow> ('p, 'q) block_cache" where
  "evict_entry entry cache =
     (let cache = avz_retire_unused_prefetch entry cache;
          cache = avz_unindex_entry entry cache;
          cache = forget_programs entry cache;
          cache = set_entry entry (n_serial_update (\<lambda>_. 0)) cache
      in count_statistic Evictions (advance_mutation_epoch cache))"

definition install_block ::
  "nat \<Rightarrow> u64 \<Rightarrow> decoded_block \<Rightarrow> ('p, 'q, 'x) cache_world \<Rightarrow> ('p, 'q, 'x) cache_world" where
  "install_block entry hash decoded w =
     (let (serial, cache) = avz_allocate_block_serial (w_cache w);
          cache = set_entry entry (\<lambda>n. n\<lparr>n_block := decoded, n_serial := serial,
                    n_validated_code_mutation_epoch := bc_code_mutation_epoch cache,
                    n_validated_shared_code_mutation_epoch := avz_native_block_cache_shared_code_mutation_epoch w,
                    n_validated_translation_epoch := bc_translation_epoch cache,
                    n_valid := True, n_prefetched := bc_batch_prefetch_active cache\<rparr>) cache;
          w = avz_index_entry entry (w\<lparr>w_cache := avz_touch_entry entry cache\<rparr>)
      in on_cache (\<lambda>cache. count_statistic Decodes (avz_update_front_cache hash entry cache)) w)"

text \<open>The lookup up to the prefetch: the entry, the status, the unsupported word, and whether the
  block was decoded just now.\<close>

record lookup =
  u_entry :: "nat option"
  u_status :: decode_status
  u_unsupported :: u32
  u_fresh :: bool

definition lookup_or_decode ::
  "('p, 'q, 'x) cache_callbacks \<Rightarrow> block_key \<Rightarrow> ('p, 'q, 'x) cache_world \<Rightarrow> lookup \<times> ('p, 'q, 'x) cache_world" where
  "lookup_or_decode k key w =
     (let (hash, cache) = avz_block_key_hash key (w_cache w);
          hit = (\<lambda>entry. \<lparr>u_entry = Some entry, u_status = DECODE_OK, u_unsupported = 0, u_fresh = False\<rparr>)
      in case probe_front k key hash (w\<lparr>w_cache := cache\<rparr>) of
           (Some entry, w) \<Rightarrow> (hit entry, w)
         | (None, w) \<Rightarrow>
             let base = avz_block_set_index hash * WAY_COUNT
             in case probe_ways k key hash (map (\<lambda>way. base + way) [0 ..< WAY_COUNT]) None w of
                  (Some entry, _, w) \<Rightarrow> (hit entry, w)
                | (None, first_invalid, w) \<Rightarrow>
                    let (status, unsupported, decoded, w) = avz_decode_block k key (on_cache (count_statistic Misses) w)
                    in if status \<noteq> DECODE_OK \<or> b_instructions decoded = []
                       then (\<lparr>u_entry = None, u_status = status, u_unsupported = unsupported, u_fresh = False\<rparr>, w)
                       else
                         let (entry, w) = (case first_invalid of
                               Some entry \<Rightarrow> (entry, w)
                             | None \<Rightarrow> (let entry = choose_victim (w_cache w) base
                                       in (entry, on_cache (evict_entry entry) w)))
                         in (\<lparr>u_entry = Some entry, u_status = DECODE_OK, u_unsupported = 0, u_fresh = True\<rparr>,
                             install_block entry hash decoded w))"


text \<open>
  The prefetch decodes the blocks that follow by fall-through on the same page. It looks them up
  with the flag \<open>batch_prefetch_active\<close> set, which keeps the inner lookups from prefetching; a
  callback that clears the cache also clears the flag, so the lookups nest, and \<open>depth\<close> bounds
  how deep.
\<close>

definition next_prefetch_key :: "u64 \<Rightarrow> decoded_block \<Rightarrow> block_key option" where
  "next_prefetch_key pc current =
     (let count = length (b_instructions current);
          next_pc = k_pc (b_key current) + word_of_nat (count * 4)
      in if count = 0 \<or> \<not> avz_native_kind_has_linear_fallthrough (i_kind (b_instructions current ! (count - 1))) \<or>
            k_pc (b_key current) > - 1 - word_of_nat (count * 4)
         then None
         else if shr next_pc 12 \<noteq> shr pc 12 then None
         else Some (b_key current\<lparr>k_pc := next_pc\<rparr>))"

primrec prefetch_blocks ::
  "nat \<Rightarrow> (block_key \<Rightarrow> ('p, 'q, 'x) cache_world \<Rightarrow> lookup \<times> ('p, 'q, 'x) cache_world) \<Rightarrow>
     nat \<Rightarrow> u64 \<Rightarrow> nat \<Rightarrow> nat \<Rightarrow> ('p, 'q, 'x) cache_world \<Rightarrow> ('p, 'q, 'x) cache_world" where
  "prefetch_blocks 0 lookup protected_set pc batch_index current w = w"
| "prefetch_blocks (Suc n) lookup protected_set pc batch_index current w =
     (if batch_index \<ge> unat (bc_batch_prefetch_limit (w_cache w)) then w
      else
        case next_prefetch_key pc (block_of (w_cache w) current) of
          None \<Rightarrow> w
        | Some key \<Rightarrow>
            let (hash, cache) = avz_block_key_hash key (w_cache w);
                w = w\<lparr>w_cache := cache\<rparr>
            in if avz_block_set_index hash = protected_set then w
               else
                 let decodes_before = bc_statistics (w_cache w) Decodes;
                     (r, w) = lookup key w
                 in case u_entry r of
                      None \<Rightarrow> w
                    | Some following \<Rightarrow>
                        if u_status r \<noteq> DECODE_OK then w
                        else
                          let w = (if bc_statistics (w_cache w) Decodes \<noteq> decodes_before
                                   then on_cache (count_statistic Batch_prefetched_blocks) w else w)
                          in prefetch_blocks n lookup protected_set pc (Suc batch_index) following w)"

primrec get_or_decode ::
  "nat \<Rightarrow> ('p, 'q, 'x) cache_callbacks \<Rightarrow> block_key \<Rightarrow> ('p, 'q, 'x) cache_world \<Rightarrow>
     lookup \<times> ('p, 'q, 'x) cache_world" where
  "get_or_decode 0 k key w = lookup_or_decode k (avz_canonical_block_key key) w"
| "get_or_decode (Suc depth) k key w =
     (let key = avz_canonical_block_key key;
          (r, w) = lookup_or_decode k key w
      in case u_entry r of
           None \<Rightarrow> (r, w)
         | Some entry \<Rightarrow>
             let cache = w_cache w
             in if \<not> u_fresh r \<or> bc_batch_prefetch_active cache \<or> bc_ram cache = None \<or>
                   bc_batch_prefetch_limit cache = 0
                then (r, w)
                else
                  let protected_set = entry div WAY_COUNT;
                      w = on_cache (bc_batch_prefetch_active_update (\<lambda>_. True)) w;
                      w = prefetch_blocks 256 (get_or_decode depth k) protected_set (k_pc key) 0 entry w
                  in (r, on_cache (bc_batch_prefetch_active_update (\<lambda>_. False)) w))"

text \<open>No callback of the repository clears the cache, so that one level of nesting is reached.\<close>

definition avz_native_block_cache_get_or_decode ::
  "('p, 'q, 'x) cache_callbacks \<Rightarrow> block_key \<Rightarrow> ('p, 'q, 'x) cache_world \<Rightarrow> lookup \<times> ('p, 'q, 'x) cache_world" where
  "avz_native_block_cache_get_or_decode = get_or_decode 1"

subsection \<open>Blocks and their successors\<close>

definition avz_native_decoded_block_code_is_current ::
  "('p, 'q, 'x) cache_callbacks \<Rightarrow> nat \<Rightarrow> ('p, 'q, 'x) cache_world \<Rightarrow> bool \<times> ('p, 'q, 'x) cache_world" where
  "avz_native_decoded_block_code_is_current k block w =
     (case avz_entry_for_block block of
        None \<Rightarrow> (False, w)
      | Some entry \<Rightarrow> if \<not> n_valid (bc_entries (w_cache w) entry) then (False, w)
                      else avz_entry_code_is_current k entry w)"

definition avz_native_block_cache_validate_block ::
  "('p, 'q, 'x) cache_world \<Rightarrow> nat \<Rightarrow> u64 \<Rightarrow> block_key option \<Rightarrow> bool" where
  "avz_native_block_cache_validate_block w block serial key =
     (case avz_entry_for_block block of
        None \<Rightarrow> False
      | Some entry \<Rightarrow>
          let n = bc_entries (w_cache w) entry
          in n_valid n \<and> serial \<noteq> 0 \<and> n_serial n = serial \<and>
             avz_block_code_pages_are_current (w_cache w) (n_block n) \<and>
             avz_block_shared_code_pages_are_current w (n_block n) \<and>
             (case key of None \<Rightarrow> True | Some key \<Rightarrow> avz_block_keys_equal (b_key (n_block n)) key))"

definition avz_native_decoded_block_serial :: "('p, 'q) block_cache \<Rightarrow> nat \<Rightarrow> u64" where
  "avz_native_decoded_block_serial cache block =
     (case avz_entry_for_block block of
        None \<Rightarrow> 0
      | Some entry \<Rightarrow> if n_valid (bc_entries cache entry) then n_serial (bc_entries cache entry) else 0)"

definition avz_successor_is_current ::
  "('p, 'q, 'x) cache_callbacks \<Rightarrow> successor \<Rightarrow> ('p, 'q, 'x) cache_world \<Rightarrow> bool \<times> ('p, 'q, 'x) cache_world" where
  "avz_successor_is_current k s w =
     (case s_target s of
        None \<Rightarrow> (False, w)
      | Some target \<Rightarrow>
          if s_target_serial s \<noteq> 0 \<and> n_serial (bc_entries (w_cache w) target) = s_target_serial s
          then avz_native_decoded_block_code_is_current k target w else (False, w))"

definition set_block :: "nat \<Rightarrow> (decoded_block \<Rightarrow> decoded_block) \<Rightarrow> ('p, 'q) block_cache \<Rightarrow> ('p, 'q) block_cache" where
  "set_block entry f = set_entry entry (n_block_update f)"

text \<open>The source must be the block that the caller saw, and current.\<close>

definition source_is_current ::
  "('p, 'q, 'x) cache_callbacks \<Rightarrow> nat \<Rightarrow> u64 \<Rightarrow> ('p, 'q, 'x) cache_world \<Rightarrow> bool \<times> ('p, 'q, 'x) cache_world" where
  "source_is_current k source serial w =
     (if n_valid (bc_entries (w_cache w) source) \<and> serial \<noteq> 0 \<and> n_serial (bc_entries (w_cache w) source) = serial
      then avz_entry_code_is_current k source w else (False, w))"

text \<open>The better of the two successors that are current and match.\<close>

primrec best_successor ::
  "('p, 'q, 'x) cache_callbacks \<Rightarrow> nat \<Rightarrow> (block_key \<Rightarrow> bool) \<Rightarrow> nat list \<Rightarrow> nat option \<Rightarrow>
     ('p, 'q, 'x) cache_world \<Rightarrow> nat option \<times> ('p, 'q, 'x) cache_world" where
  "best_successor k source matching [] best w = (best, w)"
| "best_successor k source matching (i # is) best w =
     (let successors = (\<lambda>w. b_successors (block_of (w_cache w) source));
          (current, w) = avz_successor_is_current k (successors w i) w
      in if \<not> current then best_successor k source matching is best w
         else
           let target = the (s_target (successors w i));
               better = (case best of None \<Rightarrow> True
                         | Some j \<Rightarrow> s_last_used (successors w i) > s_last_used (successors w j))
           in best_successor k source matching is
                (if matching (b_key (block_of (w_cache w) target)) \<and> better then Some i else best) w)"

definition advance_successor_clock :: "decoded_block \<Rightarrow> decoded_block" where
  "advance_successor_clock block =
     block\<lparr>b_successor_clock := avz_advance_nonzero_counter (b_successor_clock block)\<rparr>"

definition avz_find_successor ::
  "('p, 'q, 'x) cache_callbacks \<Rightarrow> nat \<Rightarrow> u64 \<Rightarrow> block_key \<Rightarrow> bool \<Rightarrow> ('p, 'q, 'x) cache_world \<Rightarrow>
     (nat \<times> u64) option \<times> ('p, 'q, 'x) cache_world" where
  "avz_find_successor k source source_serial target_key match_pc w =
     (if avz_entry_for_block source = None then (None, w)
      else
        let (current, w) = source_is_current k source source_serial w
        in if \<not> current then (None, w)
           else
             let matching = (\<lambda>key. if match_pc then avz_block_keys_equal key target_key
                                   else avz_block_contexts_equal key target_key)
             in case best_successor k source matching [0, 1] None w of
                  (None, w) \<Rightarrow> (None, w)
                | (Some i, w) \<Rightarrow>
                    let w = on_cache (set_block source (\<lambda>block.
                              let block = advance_successor_clock block
                              in block\<lparr>b_successors := (b_successors block)(i := (b_successors block i)
                                   \<lparr>s_last_used := b_successor_clock block\<rparr>)\<rparr>)) w;
                        s = b_successors (block_of (w_cache w) source) i
                    in (map_option (\<lambda>target. (target, s_target_serial s)) (s_target s), w))"

definition avz_native_decoded_block_find_successor ::
  "('p, 'q, 'x) cache_callbacks \<Rightarrow> nat \<Rightarrow> u64 \<Rightarrow> block_key \<Rightarrow> ('p, 'q, 'x) cache_world \<Rightarrow>
     (nat \<times> u64) option \<times> ('p, 'q, 'x) cache_world" where
  "avz_native_decoded_block_find_successor k source source_serial target_key =
     avz_find_successor k source source_serial target_key True"

definition avz_native_decoded_block_find_recent_successor ::
  "('p, 'q, 'x) cache_callbacks \<Rightarrow> nat \<Rightarrow> u64 \<Rightarrow> block_key \<Rightarrow> ('p, 'q, 'x) cache_world \<Rightarrow>
     (nat \<times> u64) option \<times> ('p, 'q, 'x) cache_world" where
  "avz_native_decoded_block_find_recent_successor k source source_serial target_context =
     avz_find_successor k source source_serial target_context False"

text \<open>The slot a new successor takes: its own, else one that is not current, else the older one.\<close>

primrec successor_slot ::
  "('p, 'q, 'x) cache_callbacks \<Rightarrow> nat \<Rightarrow> nat \<Rightarrow> u64 \<Rightarrow> nat list \<Rightarrow> nat \<Rightarrow>
     ('p, 'q, 'x) cache_world \<Rightarrow> nat \<times> ('p, 'q, 'x) cache_world" where
  "successor_slot k source target target_serial [] oldest w = (oldest, w)"
| "successor_slot k source target target_serial (i # is) oldest w =
     (let successors = (\<lambda>w. b_successors (block_of (w_cache w) source));
          candidate = successors w i
      in if s_target candidate = Some target \<and> s_target_serial candidate = target_serial then (i, w)
         else
           let (current, w) = avz_successor_is_current k candidate w
           in if \<not> current then (i, w)
              else successor_slot k source target target_serial is
                     (if s_last_used (successors w i) < s_last_used (successors w oldest) then i else oldest) w)"

definition avz_native_decoded_block_record_successor ::
  "('p, 'q, 'x) cache_callbacks \<Rightarrow> nat \<Rightarrow> u64 \<Rightarrow> nat \<Rightarrow> u64 \<Rightarrow> ('p, 'q, 'x) cache_world \<Rightarrow> ('p, 'q, 'x) cache_world" where
  "avz_native_decoded_block_record_successor k source source_serial target target_serial w =
     (let entries = bc_entries (w_cache w)
      in if avz_entry_for_block source = None \<or> avz_entry_for_block target = None \<or>
            \<not> n_valid (entries source) \<or> \<not> n_valid (entries target) \<or>
            source_serial = 0 \<or> target_serial = 0 \<or>
            n_serial (entries source) \<noteq> source_serial \<or> n_serial (entries target) \<noteq> target_serial
         then w
         else
           let (current, w) = avz_entry_code_is_current k source w
           in if \<not> current then w
              else
                let (current, w) = avz_entry_code_is_current k target w
                in if \<not> current then w
                   else
                     let (i, w) = successor_slot k source target target_serial [0, 1] 0 w
                     in on_cache (set_block source (\<lambda>block.
                          let block = advance_successor_clock block
                          in block\<lparr>b_successors := (b_successors block)(i :=
                               \<lparr>s_target = Some target, s_target_serial = target_serial,
                                s_last_used = b_successor_clock block\<rparr>)\<rparr>)) w)"

subsection \<open>Reading a block\<close>

definition avz_native_decoded_block_semantic_candidates :: "decoded_block \<Rightarrow> u8 list" where
  "avz_native_decoded_block_semantic_candidates block = b_semantic_candidates block"

definition avz_native_decoded_block_trace_semantic_candidates :: "decoded_block \<Rightarrow> u8 list" where
  "avz_native_decoded_block_trace_semantic_candidates block = b_trace_semantic_candidates block"

definition avz_native_decoded_block_instruction_count :: "decoded_block \<Rightarrow> nat" where
  "avz_native_decoded_block_instruction_count block = length (b_instructions block)"

definition avz_native_decoded_block_pc :: "decoded_block \<Rightarrow> u64" where
  "avz_native_decoded_block_pc block = k_pc (b_key block)"

definition avz_native_decoded_block_uses_vector_state :: "decoded_block option \<Rightarrow> bool" where
  "avz_native_decoded_block_uses_vector_state block =
     (case block of None \<Rightarrow> False | Some b \<Rightarrow> b_uses_vector_state b)"

definition avz_native_decoded_block_is_chain_barrier :: "decoded_block option \<Rightarrow> bool" where
  "avz_native_decoded_block_is_chain_barrier block = (case block of None \<Rightarrow> True | Some b \<Rightarrow> b_chain_barrier b)"

definition avz_native_decoded_block_requires_host_checkpoint :: "decoded_block option \<Rightarrow> bool" where
  "avz_native_decoded_block_requires_host_checkpoint block =
     (case block of None \<Rightarrow> True | Some b \<Rightarrow> b_requires_host_checkpoint b)"

definition avz_native_decoded_block_physical_code_page :: "decoded_block \<Rightarrow> nat \<Rightarrow> u64" where
  "avz_native_decoded_block_physical_code_page block index =
     (if index \<ge> length (b_code_pages block) then 0 else p_physical (b_code_pages block ! index))"

definition avz_native_decoded_block_host_code_page :: "decoded_block \<Rightarrow> nat \<Rightarrow> nat option" where
  "avz_native_decoded_block_host_code_page block index =
     (if index \<ge> length (b_code_pages block) then None else p_host (b_code_pages block ! index))"

subsection \<open>Programs prepared from a block\<close>

text \<open>
  The two program builders are other components of the repository; they are parameters: what
  \<open>ag_create\<close> returns for the words of a block, what the program can do and how big it is, and
  the same for \<open>avz_tp_create\<close>. The null program has no capabilities.
\<close>

record 'p assembler =
  g_create :: "u32 list \<Rightarrow> u64 \<Rightarrow> 'p option"
  g_capabilities :: "'p \<Rightarrow> nat"
  g_program_bytes :: "'p \<Rightarrow> nat"

record 'q threader =
  h_create :: "u32 list \<Rightarrow> u64 \<Rightarrow> 'q option"
  h_supports_instruction :: "instr \<Rightarrow> bool"
  h_supports_instruction_with_memory :: "instr \<Rightarrow> bool"

definition on_assembly :: "('p assembly_cache \<Rightarrow> 'p assembly_cache) \<Rightarrow> ('p, 'q, 'x) cache_world \<Rightarrow> ('p, 'q, 'x) cache_world" where
  "on_assembly f = on_cache (\<lambda>cache. cache\<lparr>bc_assembly := f (bc_assembly cache)\<rparr>)"

definition on_threaded :: "('q threaded_pool \<Rightarrow> 'q threaded_pool) \<Rightarrow> ('p, 'q, 'x) cache_world \<Rightarrow> ('p, 'q, 'x) cache_world" where
  "on_threaded f = on_cache (\<lambda>cache. cache\<lparr>bc_threaded := f (bc_threaded cache)\<rparr>)"

definition set_capability :: "nat \<Rightarrow> nat \<Rightarrow> 'p assembly_cache \<Rightarrow> 'p assembly_cache" where
  "set_capability entry c s = s\<lparr>a_capability := (a_capability s)(entry := c)\<rparr>"

text \<open>The preparation and admission of a program that the cache does not hold.\<close>

definition prepare_program ::
  "'p assembler \<Rightarrow> nat \<Rightarrow> bool \<Rightarrow> ('p, 'q, 'x) cache_world \<Rightarrow> ('p option \<times> ('p, 'q, 'x) cache_world) option" where
  "prepare_program a entry allow_memory w =
     (let block = block_of (w_cache w) entry;
          program = g_create a (map i_raw (b_instructions block)) (k_pc (b_key block));
          capability = (case program of None \<Rightarrow> 0 | Some p \<Rightarrow> g_capabilities a p);
          w = on_assembly (set_capability entry (if capability \<noteq> 0 then capability else 3)) w
      in case program of
           None \<Rightarrow> Some (None, w)
         | Some p \<Rightarrow>
             if capability = 0 \<or> capability = 2 \<and> \<not> allow_memory then Some (None, w)
             else map_option (\<lambda>(result, s). (result, on_assembly (\<lambda>_. s) w))
                    (admit_program entry p (g_program_bytes a p) (bc_assembly (w_cache w))))"

text \<open>\<open>None\<close> is a call that does not return; the null program is \<open>Some (None, w)\<close>.\<close>

definition avz_assembly_cache_program ::
  "('p, 'q, 'x) cache_callbacks \<Rightarrow> 'p assembler \<Rightarrow> nat \<Rightarrow> bool \<Rightarrow> ('p, 'q, 'x) cache_world \<Rightarrow>
     ('p option \<times> ('p, 'q, 'x) cache_world) option" where
  "avz_assembly_cache_program k a entry allow_memory w =
     (let n = bc_entries (w_cache w) entry
      in if avz_entry_for_block entry = None \<or> \<not> n_valid n \<or> n_serial n = 0 \<or> b_instructions (n_block n) = []
         then Some (None, w)
         else
           let (current, w) = avz_entry_code_is_current k entry w
           in if \<not> current then Some (None, on_assembly (avz_assembly_forget_entry entry) w)
              else
                let capability = a_capability (bc_assembly (w_cache w)) entry;
                    block = block_of (w_cache w) entry
                in if capability = 3 \<or> capability = 2 \<and> \<not> allow_memory then Some (None, w)
                   else if capability = 0 \<and>
                           (list_ex (\<lambda>c. c \<noteq> 0) (b_semantic_candidates block) \<or>
                            list_ex (\<lambda>c. c \<noteq> 0) (b_trace_semantic_candidates block))
                     then Some (None, on_assembly (set_capability entry 3) w)
                   else
                     case r_program (a_retention (bc_assembly (w_cache w)) entry) of
                       Some program \<Rightarrow> map_option (\<lambda>s. (Some program, on_assembly (\<lambda>_. s) w))
                                         (avz_assembly_record_reuse entry (bc_assembly (w_cache w)))
                     | None \<Rightarrow> prepare_program a entry allow_memory w)"

text \<open>The scan stops at the first instruction that neither form of the builder supports.\<close>

definition threaded_eligibility :: "'q threader \<Rightarrow> instr list \<Rightarrow> nat" where
  "threaded_eligibility h is =
     (if list_ex (\<lambda>i. \<not> h_supports_instruction h i \<and> \<not> h_supports_instruction_with_memory h i) is then 2
      else if list_ex (\<lambda>i. \<not> h_supports_instruction h i) is then 4 else 1)"

definition set_eligibility :: "nat \<Rightarrow> nat \<Rightarrow> 'q threaded_pool \<Rightarrow> 'q threaded_pool" where
  "set_eligibility entry e s = s\<lparr>t_eligibility := (t_eligibility s)(entry := e)\<rparr>"

definition avz_native_block_cache_threaded_program_with_memory ::
  "('p, 'q, 'x) cache_callbacks \<Rightarrow> 'q threader \<Rightarrow> nat \<Rightarrow> bool \<Rightarrow> ('p, 'q, 'x) cache_world \<Rightarrow>
     'q option \<times> ('p, 'q, 'x) cache_world" where
  "avz_native_block_cache_threaded_program_with_memory k h entry allow_memory w =
     (let n = bc_entries (w_cache w) entry
      in if avz_entry_for_block entry = None \<or> \<not> n_valid n \<or> n_serial n = 0 \<or> length (b_instructions (n_block n)) < 2
         then (None, w)
         else
           let (current, w) = avz_entry_code_is_current k entry w
           in if \<not> current then (None, on_threaded (avz_threaded_forget_entry entry) w)
              else
                let pool = bc_threaded (w_cache w);
                    block = block_of (w_cache w) entry;
                    eligibility = t_eligibility pool entry
                in if eligibility = 2 \<or> eligibility = 3 \<or> eligibility = 4 \<and> \<not> allow_memory then (None, w)
                   else
                     case t_entry_slot pool entry of
                       Some slot \<Rightarrow> (t_program (t_slots pool slot), w)
                     | None \<Rightarrow>
                         let scanned = threaded_eligibility h (b_instructions block);
                             w = (if eligibility = 0 then on_threaded (set_eligibility entry scanned) w else w)
                         in if eligibility = 0 \<and> (scanned = 2 \<or> scanned = 4 \<and> \<not> allow_memory) then (None, w)
                            else
                              let program = h_create h (map i_raw (b_instructions block)) (k_pc (b_key block));
                                  (result, pool) = claim_slot entry program (bc_threaded (w_cache w))
                              in (result, on_threaded (\<lambda>_. pool) w))"

definition avz_native_block_cache_threaded_program ::
  "('p, 'q, 'x) cache_callbacks \<Rightarrow> 'q threader \<Rightarrow> nat \<Rightarrow> ('p, 'q, 'x) cache_world \<Rightarrow>
     'q option \<times> ('p, 'q, 'x) cache_world" where
  "avz_native_block_cache_threaded_program k h entry =
     avz_native_block_cache_threaded_program_with_memory k h entry False"

end
