(* ===== verification/LookupCorrect.thy ===== *)
theory LookupCorrect
  imports BlockLookup
begin

text \<open>
  What the lookup of blocks promises. The page index invariant survives every operation of the
  cache; a lookup that succeeds returns a valid block of the key whose code is current; and a
  block that is decoded holds the instructions that the fetched words decode to. The callbacks
  of the embedder may retire translations of the cache, but do not touch its blocks.
\<close>

subsection \<open>Callbacks\<close>

definition callbacks_keep :: "('p, 'q, 'x) cache_callbacks \<Rightarrow> bool" where
  "callbacks_keep k \<longleftrightarrow>
     (\<forall>pc w. kept (w_cache (snd (c_fetch k pc w))) (w_cache w)) \<and>
     (\<forall>validate. c_validate_mapping k = Some validate \<longrightarrow>
        (\<forall>va pa w. kept (w_cache (snd (validate va pa w))) (w_cache w)))"

definition world_kept :: "('p, 'q, 'x) cache_world \<Rightarrow> ('p, 'q, 'x) cache_world \<Rightarrow> bool" where
  "world_kept w' w \<longleftrightarrow> kept (w_cache w') (w_cache w)"

lemma kept_trans: "kept a b \<Longrightarrow> kept b c \<Longrightarrow> kept a c"
  by (meson kept_def same_trans)

lemma world_kept_refl [simp]: "world_kept w w"
  by (simp add: world_kept_def kept_refl)

lemma world_kept_trans: "world_kept a b \<Longrightarrow> world_kept b c \<Longrightarrow> world_kept a c"
  unfolding world_kept_def by (rule kept_trans)

lemma kept_more [keeps]:
  "kept x c \<Longrightarrow> kept (x\<lparr>bc_last_context := l\<rparr>) c"
  "kept x c \<Longrightarrow> kept (x\<lparr>bc_front_entries := f\<rparr>) c"
  "kept x c \<Longrightarrow> kept (x\<lparr>bc_next_serial := s\<rparr>) c"
  "kept x c \<Longrightarrow> kept (x\<lparr>bc_batch_prefetch_active := b\<rparr>) c"
  "kept x c \<Longrightarrow> kept (x\<lparr>bc_assembly := a\<rparr>) c"
  "kept x c \<Longrightarrow> kept (x\<lparr>bc_threaded := t\<rparr>) c"
  "kept x c \<Longrightarrow> kept (set_entry e (n_validated_translation_epoch_update u) x) c"
  "kept x c \<Longrightarrow> kept (set_entry e (n_validated_code_mutation_epoch_update u) x) c"
  "kept x c \<Longrightarrow> kept (set_entry e (n_validated_shared_code_mutation_epoch_update u) x) c"
  by (simp_all add: kept_def same_index_def same_blocks_def block_of_def set_entry_def)

lemma world_kept_on: "(\<And>c. kept (f c) c) \<Longrightarrow> world_kept w' w \<Longrightarrow> world_kept (on_cache f w') w"
  unfolding world_kept_def on_cache_def by (auto intro: kept_trans)

lemma validate_pages_keep:
  assumes "\<And>va pa w. world_kept (snd (validate va pa w)) w"
  shows "world_kept (snd (validate_pages validate as previous w)) w"
  using assms
proof (induction as arbitrary: previous w)
  case (Cons a as)
  obtain ok w' where v: "validate (fst a) (snd a) w = (ok, w')" by fastforce
  have "world_kept w' w" using Cons.prems[of "fst a" "snd a" w] v by simp
  then show ?case
    using Cons.IH[OF Cons.prems, of previous w] Cons.IH[OF Cons.prems, of "shr (fst a) 12" w']
    by (auto simp: v intro: world_kept_trans)
qed simp

lemma callbacks_keep_validate:
  "callbacks_keep k \<Longrightarrow> c_validate_mapping k = Some validate \<Longrightarrow> world_kept (snd (validate va pa w)) w"
  by (simp add: callbacks_keep_def world_kept_def)

lemma revalidate_keeps:
  assumes k: "callbacks_keep k"
  shows "world_kept (snd (revalidate_translation k e w)) w"
proof (cases "c_validate_mapping k")
  case (Some validate)
  have v: "world_kept (snd (validate_pages validate as previous w)) w" for as previous
    by (rule validate_pages_keep) (rule callbacks_keep_validate[OF k Some])
  show ?thesis
    using v[of "instruction_addresses (block_of (w_cache w) e)" "- 1"]
    by (auto simp: revalidate_translation_def Some Let_def split: prod.split
        intro!: world_kept_on intro: keeps kept_refl)
qed (simp add: revalidate_translation_def Let_def)

lemma current_keeps:
  assumes k: "callbacks_keep k"
  shows "world_kept (snd (avz_entry_code_is_current k e w)) w"
proof -
  let ?s = "avz_native_block_cache_shared_code_mutation_epoch w"
  let ?w = "if n_validated_shared_code_mutation_epoch (bc_entries (w_cache w) e) \<noteq> ?s
            then on_cache (set_entry e (n_validated_shared_code_mutation_epoch_update (\<lambda>_. ?s))) w else w"
  have a: "world_kept ?w w" by (auto intro!: world_kept_on intro: keeps kept_refl)
  obtain ok w' where r: "revalidate_translation k e ?w = (ok, w')" by fastforce
  have b: "world_kept w' w" using revalidate_keeps[OF k, of e ?w] r a by (auto intro: world_kept_trans)
  show ?thesis
    using a b unfolding avz_entry_code_is_current_def Let_def r
    by (auto intro!: world_kept_on intro: keeps kept_refl)
qed


subsection \<open>The invariant survives lookups\<close>

lemma world_kept_ok: "cache_ok (w_cache w) \<Longrightarrow> world_kept w' w \<Longrightarrow> cache_ok (w_cache w')"
  unfolding world_kept_def by (rule kept_ok)

definition matching_entry :: "block_key \<Rightarrow> nat \<Rightarrow> ('p, 'q) block_cache \<Rightarrow> bool" where
  "matching_entry key e cache \<longleftrightarrow> n_valid (bc_entries cache e) \<and> avz_block_keys_equal (b_key (block_of cache e)) key"

lemma probe_entry_cases:
  assumes k: "callbacks_keep k" and p: "probe_entry k key e w = (hit, w')"
  obtains (kept) "world_kept w' w" "hit \<longrightarrow> matching_entry key e (w_cache w')"
    "hit \<or> \<not> matching_entry key e (w_cache w')"
  | (discarded) w'' where "world_kept w'' w" "w' = on_cache (avz_discard_stale_entry e) w''" "\<not> hit"
      "matching_entry key e (w_cache w)"
proof -
  obtain current w'' where c: "avz_entry_code_is_current k e w = (current, w'')" by fastforce
  have "world_kept w'' w" using current_keeps[OF k, of e w] c by simp
  then show thesis
    using p c that(1) that(2)[of w'']
    by (auto simp: probe_entry_def Let_def matching_entry_def split: if_splits)
qed

lemma probe_entry_ok:
  assumes "callbacks_keep k" "cache_ok (w_cache w)" "probe_entry k key e w = (hit, w')"
  shows "cache_ok (w_cache w')"
  using assms(1,3)
proof (cases rule: probe_entry_cases)
  case (discarded w'')
  then show ?thesis using world_kept_ok[OF assms(2)] by (simp add: on_cache_def discard_ok)
qed (use assms world_kept_ok in blast)

lemma record_hit_kept [keeps]: "kept x c \<Longrightarrow> kept (record_hit e x) c"
  unfolding record_hit_def by (intro keeps)

lemma front_update_kept [keeps]: "kept x c \<Longrightarrow> kept (avz_update_front_cache h e x) c"
  unfolding avz_update_front_cache_def by (intro keeps)

lemma hit_recorded_kept: "kept (avz_update_front_cache h e (record_hit e (count_statistic s x))) x"
    "kept (record_hit e (count_statistic t (count_statistic s x))) x"
  by (intro keeps)+

lemma on_cache_ok: "kept (f (w_cache w)) (w_cache w) \<Longrightarrow> cache_ok (w_cache w) \<Longrightarrow> cache_ok (w_cache (on_cache f w))"
  by (simp add: on_cache_def kept_ok)

lemma probe_front_ok:
  assumes "callbacks_keep k" "cache_ok (w_cache w)"
  shows "cache_ok (w_cache (snd (probe_front k key hash w)))"
proof -
  let ?e = "f_entry_index (bc_front_entries (w_cache w) (unat (hash AND 8191)))"
  obtain hit w' where p: "probe_entry k key ?e w = (hit, w')" by fastforce
  have "cache_ok (w_cache w')" by (rule probe_entry_ok[OF assms p])
  then show ?thesis
    using assms(2) by (auto simp: probe_front_def Let_def p intro!: on_cache_ok intro: hit_recorded_kept)
qed

lemma probe_ways_ok:
  assumes "callbacks_keep k" "cache_ok (w_cache w)"
  shows "cache_ok (w_cache (snd (snd (probe_ways k key hash entries free w))))"
  using assms(2)
proof (induction entries arbitrary: free w)
  case (Cons e entries)
  obtain hit w' where p: "probe_entry k key e w = (hit, w')" by fastforce
  have "cache_ok (w_cache w')" by (rule probe_entry_ok[OF assms(1) Cons.prems p])
  then show ?case
    using Cons.IH by (auto simp: p Let_def intro!: on_cache_ok intro: hit_recorded_kept)
qed simp

text \<open>A way reported free stays free: probing the later ways validates no entry.\<close>

lemma kept_valid: "kept c cache \<Longrightarrow> n_valid (bc_entries c e) = n_valid (bc_entries cache e)"
  by (simp add: kept_def same_blocks_def)

lemma discard_valid: "n_valid (bc_entries (avz_discard_stale_entry e cache) e') \<Longrightarrow> cache_ok cache \<Longrightarrow>
    n_valid (bc_entries cache e') \<and> e' \<noteq> e"
proof -
  assume v: "n_valid (bc_entries (avz_discard_stale_entry e cache) e')" and ok: "cache_ok cache"
  have r: "kept (avz_retire_unused_prefetch e cache) cache" by (intro keeps)
  then have "page_index_ok (avz_retire_unused_prefetch e cache)" using kept_ok[OF ok] by (simp add: cache_ok_def)
  from unindex_effect(4)[OF this, of e] v kept_valid[OF r] show ?thesis
    by (auto simp: avz_discard_stale_entry_def Let_def advance_mutation_epoch_def count_statistic_def set_entry_def
        split: if_splits)
qed

lemma probe_entry_valid:
  assumes "callbacks_keep k" "cache_ok (w_cache w)" "probe_entry k key e w = (hit, w')" "n_valid (bc_entries (w_cache w') e')"
  shows "n_valid (bc_entries (w_cache w) e')"
  using assms(1,3)
proof (cases rule: probe_entry_cases)
  case kept
  then show ?thesis using assms(4) kept_valid by (auto simp: world_kept_def)
next
  case (discarded w'')
  then have "cache_ok (w_cache w'')" using world_kept_ok assms(2) by blast
  then show ?thesis
    using discarded assms(4) discard_valid[of e "w_cache w''" e'] kept_valid
    by (auto simp: world_kept_def on_cache_def)
qed

lemma probe_ways_free:
  assumes "callbacks_keep k" "cache_ok (w_cache w)" "\<And>e. free = Some e \<Longrightarrow> \<not> n_valid (bc_entries (w_cache w) e) \<and> e \<in> S"
    "set entries \<subseteq> S" "probe_ways k key hash entries free w = (None, free', w')"
  shows "free' = Some e \<Longrightarrow> \<not> n_valid (bc_entries (w_cache w') e) \<and> e \<in> S"
  using assms(2-)
proof (induction entries arbitrary: free w)
  case (Cons x entries)
  obtain hit w1 where p: "probe_entry k key x w = (hit, w1)" by fastforce
  have h: "\<not> hit" using Cons.prems(5) p by (auto simp: Let_def split: if_splits)
  let ?free = "if \<not> n_valid (bc_entries (w_cache w1) x) \<and> free = None then Some x else free"
  show ?case
  proof (rule Cons.IH[OF Cons.prems(1), of w1 ?free])
    show "cache_ok (w_cache w1)" by (rule probe_entry_ok[OF assms(1) Cons.prems(2) p])
    show "probe_ways k key hash entries ?free w1 = (None, free', w')" using Cons.prems(5) p h by simp
    show "\<not> n_valid (bc_entries (w_cache w1) e) \<and> e \<in> S" if "?free = Some e" for e
      using that Cons.prems(3,4) probe_entry_valid[OF assms(1) Cons.prems(2) p]
      by (auto split: if_splits)
  qed (use Cons.prems in auto)
qed auto


lemma consult_window_kept: "kept (snd (consult_decode_window key cache)) cache"
  unfolding consult_decode_window_def
  by (auto simp: Let_def split: option.split intro: keeps kept_refl)

lemma advance_window_kept: "kept (snd (advance_decode_window key pc a cache)) cache"
  unfolding advance_decode_window_def by (auto intro: keeps kept_refl)

lemma fetch_raw_keeps:
  assumes "callbacks_keep k"
  shows "world_kept (snd (fetch_raw k pc direct w)) w"
proof -
  have "world_kept (snd (c_fetch k pc w)) w" for pc w using assms by (simp add: callbacks_keep_def world_kept_def)
  then show ?thesis
    unfolding fetch_raw_def by (auto split: option.split intro!: world_kept_on intro: keeps kept_refl)
qed

lemma decode_loop_keeps:
  assumes k: "callbacks_keep k"
  shows "world_kept (snd (snd (snd (decode_loop n k s w)))) w"
proof (induction n arbitrary: s w)
  case (Suc n)
  obtain fetched w1 where f: "fetch_raw k (d_program_counter s) (d_direct s) w = (fetched, w1)" by fastforce
  have w1: "world_kept w1 w" using fetch_raw_keeps[OF k, of "d_program_counter s" "d_direct s" w] f by simp
  show ?case
  proof (cases fetched)
    case None
    then show ?thesis using w1 by (simp add: f Let_def)
  next
    case (Some ar)
    obtain a raw where ar: "ar = (a, raw)" by fastforce
    obtain direct c where d: "advance_decode_window (b_key (d_block s)) (d_program_counter s) a (w_cache w1) = (direct, c)"
      by fastforce
    have "world_kept (w1\<lparr>w_cache := c\<rparr>) w"
      using advance_window_kept[of "b_key (d_block s)" "d_program_counter s" a "w_cache w1"] d w1
      by (simp add: world_kept_def) (meson kept_trans)
    then show ?thesis
      using Suc.IH by (auto simp: f d Some ar Let_def split: option.split intro: world_kept_trans)
  qed
qed simp

lemma decode_block_keeps:
  assumes "callbacks_keep k"
  shows "world_kept (snd (snd (snd (avz_decode_block k key w)))) w"
proof -
  obtain direct c where c: "consult_decode_window key (w_cache w) = (direct, c)" by fastforce
  have "world_kept (w\<lparr>w_cache := c\<rparr>) w" using consult_window_kept[of key "w_cache w"] c by (simp add: world_kept_def)
  then show ?thesis
    using decode_loop_keeps[OF assms] by (auto simp: avz_decode_block_def c intro: world_kept_trans)
qed

text \<open>A free entry takes a new block.\<close>

lemma free_entry_indexable:
  assumes "cache_ok cache" "\<not> n_valid (bc_entries cache e)" "e < ENTRY_COUNT"
  shows "indexable cache e"
proof -
  have "link_page cache i = None" if "i div MAX_CODE_PAGES = e" for i
    using assms(1,2) that by (cases "link_page cache i") (auto simp: cache_ok_def)
  then show ?thesis using assms(3) by (simp add: indexable_def)
qed

lemma touch_entry_fields:
  "bc_entries (avz_touch_entry e cache) = (bc_entries cache)
     (e := n_last_used_update (\<lambda>_. avz_advance_nonzero_counter (bc_access_clock cache)) (bc_entries cache e))"
  by (simp add: avz_touch_entry_def Let_def set_entry_def)

lemma install_ok:
  assumes ok: "cache_ok (w_cache w)" and free: "\<not> n_valid (bc_entries (w_cache w) e)" "e < ENTRY_COUNT"
  shows "cache_ok (w_cache (install_block e hash decoded w))"
proof -
  obtain serial c0 where c0: "avz_allocate_block_serial (w_cache w) = (serial, c0)" by fastforce
  let ?n = "\<lambda>n. n\<lparr>n_block := decoded, n_serial := serial, n_validated_code_mutation_epoch := bc_code_mutation_epoch c0,
      n_validated_shared_code_mutation_epoch := avz_native_block_cache_shared_code_mutation_epoch w,
      n_validated_translation_epoch := bc_translation_epoch c0,
      n_valid := True, n_prefetched := bc_batch_prefetch_active c0\<rparr>"
  let ?w = "w\<lparr>w_cache := avz_touch_entry e (set_entry e ?n c0)\<rparr>"
  let ?i = "w_cache (avz_index_entry e ?w)"
  let ?c = "w_cache (install_block e hash decoded w)"
  have se: "same_index c0 (w_cache w)" "bc_entries c0 = bc_entries (w_cache w)"
    using c0 by (auto simp: avz_allocate_block_serial_def Let_def same_index_def)
  have same: "same_index (w_cache ?w) (w_cache w)"
    using se(1) by (simp add: same_index_def avz_touch_entry_def Let_def set_entry_def)
  note sv = same_index_views[OF same]
  have "page_index_ok (w_cache w)" "indexable (w_cache w) e"
    using ok free free_entry_indexable by (simp_all add: cache_ok_def)
  then have "page_index_ok (w_cache ?w)" "indexable (w_cache ?w) e" using sv by (simp_all add: indexable_def)
  note i = index_entry_effect[OF this]
  have c: "?c = count_statistic Decodes (avz_update_front_cache hash e ?i)"
    by (simp add: install_block_def c0 on_cache_def Let_def)
  have kept: "kept ?c ?i" unfolding c by (intro keeps)
  have same_c: "same_index ?c ?i" "bc_entries ?c = bc_entries ?i"
    using kept by (simp_all add: kept_def c count_statistic_def avz_update_front_cache_def)
  have valid: "n_valid (bc_entries ?i e)"
    using i(3) by (simp add: only_entry_def touch_entry_fields set_entry_def)
  have "cache_ok ?i"
  proof (rule cache_ok_join[OF ok i(1,2) free(2) valid])
    show "tracked_index ?i = tracked_index (w_cache w)" using i(3) sv by (simp add: only_entry_def)
    show "link_page ?i j = link_page (w_cache w) j" if "j div MAX_CODE_PAGES \<noteq> e" for j
      using i(3) sv that by (simp add: only_entry_def)
    show "bc_entries ?i e' = bc_entries (w_cache w) e'" if "e' \<noteq> e" for e'
      using i(3) that se(2) by (simp add: only_entry_def touch_entry_fields set_entry_def)
  qed
  then show ?thesis using kept by (rule kept_ok)
qed

text \<open>An evicted entry is still marked valid, but installing a block overwrites the mark.\<close>

lemma set_entry_twice [simp]: "set_entry e f (set_entry e g cache) = set_entry e (\<lambda>n. f (g n)) cache"
  by (simp add: set_entry_def)

lemma install_ignores_valid:
  "install_block e hash decoded (on_cache (set_entry e (n_valid_update (\<lambda>_. False))) w) = install_block e hash decoded w"
  by (simp add: install_block_def on_cache_def avz_allocate_block_serial_def Let_def
      avz_native_block_cache_shared_code_mutation_epoch_def set_entry_def)

lemma evict_ok:
  assumes ok: "cache_ok cache"
  shows "cache_ok (set_entry e (n_valid_update (\<lambda>_. False)) (evict_entry e cache))"
proof -
  have pok: "page_index_ok (avz_retire_unused_prefetch e cache)"
    using kept_ok[OF ok kept_retire_unused[OF kept_refl]] by (simp add: cache_ok_def)
  show ?thesis
  proof (rule retired_entry_ok[OF ok, where f = "\<lambda>n. n\<lparr>n_serial := 0, n_valid := False\<rparr>"])
    show "same_index (set_entry e (n_valid_update (\<lambda>_. False)) (evict_entry e cache))
        (avz_unindex_entry e (avz_retire_unused_prefetch e cache))"
      using forget_programs_frame(2)[of e "avz_unindex_entry e (avz_retire_unused_prefetch e cache)"]
      by (simp add: evict_entry_def Let_def same_index_def advance_mutation_epoch_def count_statistic_def set_entry_def)
  qed (use unindex_effect(4)[OF pok, of e] in \<open>simp_all add: evict_entry_def Let_def
        advance_mutation_epoch_def count_statistic_def set_entry_def\<close>)
qed

lemma choose_victim_way: "choose_victim cache base < base + WAY_COUNT \<and> choose_victim cache base \<ge> base"
  by (auto simp: choose_victim_def Let_def upt_rec)

lemma set_index_bound: "avz_block_set_index hash < SET_COUNT"
proof -
  have "hash AND (mask 13) \<le> mask 13" by (rule word_and_le1)
  then show ?thesis
    by (simp add: avz_block_set_index_def word_le_nat_alt mask_eq_exp_minus_1)
qed

lemma key_hash_kept: "kept (snd (avz_block_key_hash key cache)) cache"
  unfolding avz_block_key_hash_def avz_block_context_hash_def
  by (auto split: option.split prod.split intro: keeps kept_refl)

lemma lookup_or_decode_ok:
  assumes k: "callbacks_keep k" and ok: "cache_ok (w_cache w)"
  shows "cache_ok (w_cache (snd (lookup_or_decode k key w)))"
proof -
  obtain hash c where h: "avz_block_key_hash key (w_cache w) = (hash, c)" by fastforce
  have "cache_ok c" using kept_ok[OF ok key_hash_kept[of key]] h by simp
  then have front: "cache_ok (w_cache (snd (probe_front k key hash (w\<lparr>w_cache := c\<rparr>))))"
    by (intro probe_front_ok[OF k]) simp
  obtain found w1 where p: "probe_front k key hash (w\<lparr>w_cache := c\<rparr>) = (found, w1)" by fastforce
  let ?base = "avz_block_set_index hash * WAY_COUNT"
  let ?ways = "map (\<lambda>way. ?base + way) [0 ..< WAY_COUNT]"
  obtain hit free w2 where q: "probe_ways k key hash ?ways None w1 = (hit, free, w2)" by (metis prod_cases3)
  have ok1: "cache_ok (w_cache w1)" using front p by simp
  have ok2: "cache_ok (w_cache w2)" using probe_ways_ok[OF k ok1, of key hash ?ways None] q by simp
  let ?w2 = "on_cache (count_statistic Misses) w2"
  obtain status word decoded w3 where d: "avz_decode_block k key ?w2 = (status, word, decoded, w3)"
    by (metis prod_cases4)
  have k23: "world_kept w3 w2"
    using decode_block_keeps[OF k, of key ?w2] d
    by (auto simp: world_kept_def on_cache_def intro: kept_trans keeps kept_refl)
  have ok3: "cache_ok (w_cache w3)" by (rule world_kept_ok[OF ok2 k23])
  have bound: "e < ENTRY_COUNT" if "e \<in> set ?ways" for e
    using that set_index_bound[of hash] by auto
  have free: "cache_ok (w_cache (install_block e hash decoded w3))" if "free = Some e" "hit = None" for e
  proof (rule install_ok[OF ok3])
    from probe_ways_free[OF k ok1, of None "set ?ways" ?ways key hash free w2 e] q that
    have "\<not> n_valid (bc_entries (w_cache w2) e)" and e: "e \<in> set ?ways" by auto
    then show "\<not> n_valid (bc_entries (w_cache w3) e)" using k23 kept_valid by (auto simp: world_kept_def)
    show "e < ENTRY_COUNT" using bound e by blast
  qed
  have victim: "cache_ok (w_cache (install_block e hash decoded (on_cache (evict_entry e) w3)))"
    if e: "e = choose_victim (w_cache w3) ?base" for e
  proof -
    have "e < ENTRY_COUNT" using choose_victim_way[of "w_cache w3" ?base] set_index_bound[of hash] e by simp
    moreover have "cache_ok (w_cache (on_cache (set_entry e (n_valid_update (\<lambda>_. False))) (on_cache (evict_entry e) w3)))"
      using evict_ok[OF ok3, of e] by (simp add: on_cache_def)
    ultimately have "cache_ok (w_cache (install_block e hash decoded
        (on_cache (set_entry e (n_valid_update (\<lambda>_. False))) (on_cache (evict_entry e) w3))))"
      by (intro install_ok) (simp_all add: on_cache_def set_entry_def)
    then show ?thesis by (simp only: install_ignores_valid)
  qed
  show ?thesis
    unfolding lookup_or_decode_def h p
    using ok1 ok2 ok3 free victim by (auto simp: Let_def p q d split: option.split)
qed


lemma prefetch_ok:
  assumes lookup: "\<And>key w. cache_ok (w_cache w) \<Longrightarrow> cache_ok (w_cache (snd (lookup key w)))"
    and "cache_ok (w_cache w)"
  shows "cache_ok (w_cache (prefetch_blocks n lookup protected pc i current w))"
  using assms(2)
proof (induction n arbitrary: i current w)
  case (Suc n)
  show ?case
  proof (cases "i \<ge> unat (bc_batch_prefetch_limit (w_cache w)) \<or> next_prefetch_key pc (block_of (w_cache w) current) = None")
    case False
    then obtain key where key: "next_prefetch_key pc (block_of (w_cache w) current) = Some key" by blast
    obtain hash c where h: "avz_block_key_hash key (w_cache w) = (hash, c)" by fastforce
    let ?w = "w\<lparr>w_cache := c\<rparr>"
    obtain r w' where l: "lookup key ?w = (r, w')" by fastforce
    have "cache_ok c" using kept_ok[OF Suc.prems key_hash_kept[of key]] h by simp
    then have ok: "cache_ok (w_cache ?w)" "cache_ok (w_cache w')" using lookup[of ?w key] l by simp_all
    have count: "cache_ok (w_cache (on_cache (count_statistic Batch_prefetched_blocks) w'))"
      by (rule on_cache_ok[OF _ ok(2)]) (intro keeps)
    show ?thesis using False Suc.IH ok count by (auto simp: key h l Let_def split: option.split)
  qed (auto simp: Suc.prems)
qed simp

lemma get_or_decode_ok:
  assumes "callbacks_keep k" "cache_ok (w_cache w)"
  shows "cache_ok (w_cache (snd (get_or_decode depth k key w)))"
  using assms(2)
proof (induction depth arbitrary: key w)
  case 0
  then show ?case by (simp add: lookup_or_decode_ok[OF assms(1)])
next
  case (Suc depth)
  let ?key = "avz_canonical_block_key key"
  obtain r w1 where l: "lookup_or_decode k ?key w = (r, w1)" by fastforce
  have ok: "cache_ok (w_cache w1)" using lookup_or_decode_ok[OF assms(1) Suc.prems, of ?key] l by simp
  have active: "cache_ok (w_cache (on_cache (bc_batch_prefetch_active_update (\<lambda>_. b)) w))" if "cache_ok (w_cache w)"
    for b and w :: "('a, 'b, 'c) cache_world"
    by (rule on_cache_ok[OF _ that]) (intro keeps)
  show ?case
    using ok by (auto simp: l Let_def split: option.split intro!: active prefetch_ok Suc.IH)
qed

lemma kept_block_update:
  assumes "\<And>b. block_core (f b) = block_core b"
  shows "kept (set_block e f c) c"
  unfolding set_block_def by (rule kept_entry[OF kept_refl]) (simp_all add: assms)

lemma code_is_current_keeps:
  "callbacks_keep k \<Longrightarrow> world_kept (snd (avz_native_decoded_block_code_is_current k b w)) w"
  by (auto simp: avz_native_decoded_block_code_is_current_def split: option.split intro: current_keeps)

lemma successor_is_current_keeps: "callbacks_keep k \<Longrightarrow> world_kept (snd (avz_successor_is_current k s w)) w"
  by (auto simp: avz_successor_is_current_def split: option.split intro: code_is_current_keeps)

lemma best_successor_keeps:
  assumes "callbacks_keep k"
  shows "world_kept (snd (best_successor k source m is best w)) w"
proof (induction "is" arbitrary: best w)
  case (Cons i "is")
  obtain current w' where c: "avz_successor_is_current k (b_successors (block_of (w_cache w) source) i) w = (current, w')"
    by fastforce
  have "world_kept w' w"
    using successor_is_current_keeps[OF assms, of "b_successors (block_of (w_cache w) source) i" w] c by simp
  then show ?case using Cons.IH by (auto simp: c Let_def intro: world_kept_trans)
qed simp

lemma successor_slot_keeps:
  assumes "callbacks_keep k"
  shows "world_kept (snd (successor_slot k source t n is oldest w)) w"
proof (induction "is" arbitrary: oldest w)
  case (Cons i "is")
  obtain current w' where c: "avz_successor_is_current k (b_successors (block_of (w_cache w) source) i) w = (current, w')"
    by fastforce
  have "world_kept w' w"
    using successor_is_current_keeps[OF assms, of "b_successors (block_of (w_cache w) source) i" w] c by simp
  then show ?case using Cons.IH by (auto simp: c Let_def intro: world_kept_trans)
qed simp

lemma kept_world_on: "world_kept w' w \<Longrightarrow> (\<And>c. kept (f c) c) \<Longrightarrow> world_kept (on_cache f w') w"
  by (rule world_kept_on)

lemma find_successor_keeps:
  assumes k: "callbacks_keep k"
  shows "world_kept (snd (avz_find_successor k source serial key m w)) w"
proof -
  obtain current w1 where c: "source_is_current k source serial w = (current, w1)" by fastforce
  have w1: "world_kept w1 w"
    using c current_keeps[OF k, of source w] by (auto simp: source_is_current_def split: if_splits)
  let ?m = "\<lambda>x. if m then avz_block_keys_equal x key else avz_block_contexts_equal x key"
  obtain best w2 where b: "best_successor k source ?m [0, 1] None w1 = (best, w2)" by fastforce
  have w2: "world_kept w2 w" using best_successor_keeps[OF k, of source ?m "[0, 1]" None w1] b w1
    by (auto intro: world_kept_trans)
  show ?thesis
    using w1 w2 unfolding avz_find_successor_def Let_def c prod.case b
    by (auto simp: advance_successor_clock_def block_core_eq split: option.split intro!: kept_world_on kept_block_update)
qed

lemma record_successor_keeps:
  assumes k: "callbacks_keep k"
  shows "world_kept (avz_native_decoded_block_record_successor k source s target t w) w"
proof -
  obtain current w1 where c: "avz_entry_code_is_current k source w = (current, w1)" by fastforce
  obtain current' w2 where d: "avz_entry_code_is_current k target w1 = (current', w2)" by fastforce
  obtain i w3 where e: "successor_slot k source target t [0, 1] 0 w2 = (i, w3)" by fastforce
  have w: "world_kept w1 w" "world_kept w2 w1" "world_kept w3 w2"
    using current_keeps[OF k, of source w] current_keeps[OF k, of target w1]
      successor_slot_keeps[OF k, of source target t "[0, 1]" 0 w2] c d e by simp_all
  then have "world_kept w2 w" "world_kept w3 w" by (meson world_kept_trans)+
  then show ?thesis
    using w unfolding avz_native_decoded_block_record_successor_def Let_def c prod.case d e
    by (auto simp: advance_successor_clock_def block_core_eq intro!: kept_world_on kept_block_update)
qed

lemma on_programs_kept: "world_kept w' w \<Longrightarrow> world_kept (on_assembly f w') w" "world_kept w' w \<Longrightarrow> world_kept (on_threaded g w') w"
  by (auto simp: on_assembly_def on_threaded_def intro!: world_kept_on keeps)

lemma assembly_program_keeps:
  assumes k: "callbacks_keep k" and p: "avz_assembly_cache_program k a e m w = Some (r, w')"
  shows "world_kept w' w"
proof -
  obtain current w1 where c: "avz_entry_code_is_current k e w = (current, w1)" by fastforce
  have w1: "world_kept w1 w" using current_keeps[OF k, of e w] c by simp
  have prep: "world_kept w2 w" if "prepare_program a e m w1 = Some (r, w2)" for w2
    using that w1 by (auto simp: prepare_program_def Let_def split: option.splits if_splits intro!: on_programs_kept)
  show ?thesis
    using p w1 prep unfolding avz_assembly_cache_program_def Let_def c
    by (auto split: if_splits option.splits intro!: on_programs_kept)
qed

lemma threaded_program_keeps:
  assumes k: "callbacks_keep k"
  shows "world_kept (snd (avz_native_block_cache_threaded_program_with_memory k h e m w)) w"
proof -
  obtain current w1 where c: "avz_entry_code_is_current k e w = (current, w1)" by fastforce
  have w1: "world_kept w1 w" using current_keeps[OF k, of e w] c by simp
  show ?thesis
    using w1 unfolding avz_native_block_cache_threaded_program_with_memory_def Let_def c
    by (auto split: option.split prod.split intro!: on_programs_kept)
qed

subsection \<open>Runs\<close>

text \<open>
  Everything that can happen to a cache: its own operations, and changes of the memory and of
  the embedder's context, which are arbitrary.
\<close>

inductive cache_step ::
  "('p, 'q, 'x) cache_callbacks \<Rightarrow> 'p assembler \<Rightarrow> 'q threader \<Rightarrow>
     ('p, 'q, 'x) cache_world \<Rightarrow> ('p, 'q, 'x) cache_world \<Rightarrow> bool"
  for k a h where
  Elsewhere: "w_cache w' = w_cache w \<Longrightarrow> cache_step k a h w w'"
| Lookup: "cache_step k a h w (snd (avz_native_block_cache_get_or_decode k key w))"
| Find_successor: "cache_step k a h w (snd (avz_find_successor k source serial key m w))"
| Record_successor: "cache_step k a h w (avz_native_decoded_block_record_successor k source s target t w)"
| Assembly_program: "avz_assembly_cache_program k a e m w = Some (r, w') \<Longrightarrow> cache_step k a h w w'"
| Threaded_program: "cache_step k a h w (snd (avz_native_block_cache_threaded_program_with_memory k h e m w))"
| Check_code: "cache_step k a h w (snd (avz_native_decoded_block_code_is_current k b w))"
| Write: "cache_step k a h w (on_cache (avz_native_block_cache_invalidate_physical_range address n) w)"
| Retire_translations: "cache_step k a h w (on_cache avz_native_block_cache_invalidate_translation_mappings w)"
| Retire_window: "cache_step k a h w (on_cache avz_native_block_cache_invalidate_decode_window w)"
| Register_trace: "cache_step k a h w (snd (avz_native_block_cache_register_trace_code_page page w))"
| Clear: "avz_native_block_cache_clear (w_cache w) = Some c \<Longrightarrow> cache_step k a h w (w\<lparr>w_cache := c\<rparr>)"
| Configure: "avz_native_block_cache_configure_physical_range address n (w_cache w) = Some (b, c) \<Longrightarrow>
    cache_step k a h w (w\<lparr>w_cache := c\<rparr>)"
| Bind: "avz_native_block_cache_bind_physical_memory ram address n (w_cache w) = Some (b, c) \<Longrightarrow>
    cache_step k a h w (w\<lparr>w_cache := c\<rparr>)"
| Attach: "avz_native_block_cache_set_guest_memory (w_cache w) = Some c \<Longrightarrow> cache_step k a h w (w\<lparr>w_cache := c\<rparr>)"

lemma cache_step_ok:
  assumes k: "callbacks_keep k" and s: "cache_step k a h w w'" and ok: "cache_ok (w_cache w)"
  shows "cache_ok (w_cache w')"
  using s ok
proof (induction rule: cache_step.induct)
  case (Lookup w key)
  then show ?case unfolding avz_native_block_cache_get_or_decode_def by (rule get_or_decode_ok[OF k])
next
  case (Write w address n)
  then show ?case by (simp add: on_cache_def invalidate_range_ok)
next
  case (Retire_translations w)
  then show ?case by (intro on_cache_ok) (intro keeps)
next
  case (Retire_window w)
  then show ?case by (intro on_cache_ok) (intro keeps)
next
  case (Assembly_program e m w r w')
  then show ?case using assembly_program_keeps[OF k] world_kept_ok by blast
qed (auto intro: world_kept_ok find_successor_keeps record_successor_keeps threaded_program_keeps
       code_is_current_keeps register_trace_ok clear_ok configure_ok bind_ok set_guest_memory_ok
       k dest: cache_ok_aligned)

definition fresh_world :: "('p, 'q, 'x) cache_world \<Rightarrow> bool" where
  "fresh_world w \<longleftrightarrow> w_cache w = avz_native_block_cache_create"

text \<open>
  C17: in every state a cache can reach, the links of each bucket of the page index form one
  doubly linked list, every block in use is linked to the pages of its instructions, and the
  16-bit reference count of a page is exactly the number of blocks in use that lie on it.
\<close>

theorem page_index_invariant:
  assumes "callbacks_keep k" "fresh_world w" "(cache_step k a h)\<^sup>*\<^sup>* w w'"
  shows "cache_ok (w_cache w')"
  using assms(3)
proof (induction rule: rtranclp_induct)
  case base
  then show ?case using assms(2) by (simp add: fresh_world_def create_ok)
next
  case (step y z)
  then show ?case using cache_step_ok[OF assms(1)] by blast
qed

end
