(* ===== verification/LookupResult.thy ===== *)
theory LookupResult
  imports LookupCorrect
begin

text \<open>
  A lookup that succeeds returns a valid block of the key that was asked for, also after the
  prefetch it started: the prefetch looks up later addresses in other sets of the cache and so
  never evicts or discards the block it was started for.
\<close>

subsection \<open>A fresh block has the key\<close>

lemma record_exit_key [simp]:
  "b_key (avz_record_block_exit_metadata i b) = b_key b"
  "b_instructions (avz_record_block_exit_metadata i b) = b_instructions b"
  "b_physical_addresses (avz_record_block_exit_metadata i b) = b_physical_addresses b"
  by (auto simp: avz_record_block_exit_metadata_def Let_def)

lemma classify_key [simp]:
  "b_key (avz_classify_block_semantics b) = b_key b"
  "b_instructions (avz_classify_block_semantics b) = b_instructions b"
  "b_physical_addresses (avz_classify_block_semantics b) = b_physical_addresses b"
  by (simp_all add: avz_classify_block_semantics_def Let_def)

lemma decode_loop_key: "decode_loop n k s w = (status, word, block, w') \<Longrightarrow> b_key block = b_key (d_block s)"
proof (induction n arbitrary: s w)
  case (Suc n)
  then show ?case
    by (auto simp: Let_def append_instruction_def split: prod.splits option.splits if_splits dest!: Suc.IH)
qed auto

lemma decode_block_key: "avz_decode_block k key w = (status, word, block, w') \<Longrightarrow> b_key block = key"
  by (auto simp: avz_decode_block_def split: prod.splits dest: decode_loop_key)

text \<open>What a block is looked up by.\<close>

definition identity :: "decoded_block \<Rightarrow> decoded_block" where
  "identity b = block_core b\<lparr>b_code_pages := []\<rparr>"

lemma identity_eq:
  "identity a = identity b \<longleftrightarrow>
     b_key a = b_key b \<and> b_instructions a = b_instructions b \<and>
     b_physical_addresses a = b_physical_addresses b \<and> b_semantic_candidates a = b_semantic_candidates b \<and>
     b_trace_semantic_candidates a = b_trace_semantic_candidates b \<and>
     b_uses_vector_state a = b_uses_vector_state b \<and> b_chain_barrier a = b_chain_barrier b \<and>
     b_requires_host_checkpoint a = b_requires_host_checkpoint b"
  by (cases a; cases b) (auto simp: identity_def block_core_def)

lemma link_entry_page_entries: "bc_entries (w_cache (avz_link_entry_page e slot page w)) = bc_entries (w_cache w)"
  by (simp add: avz_link_entry_page_front)

lemma index_page_identity: "identity (block_of (w_cache (index_page e sp w)) e') = identity (block_of (w_cache w) e')"
  by (cases sp) (simp add: index_page_def Let_def on_cache_def set_entry_def block_of_def identity_eq link_entry_page_entries)

lemma index_entry_identity: "identity (block_of (w_cache (avz_index_entry e w)) e') = identity (block_of (w_cache w) e')"
proof -
  have f: "identity (block_of (w_cache (fold (index_page e) ps w)) e') = identity (block_of (w_cache w) e')" for ps w
    by (induction ps arbitrary: w) (simp_all add: index_page_identity)
  show ?thesis
    unfolding avz_index_entry_def Let_def f by (simp add: on_cache_def set_entry_def block_of_def identity_eq)
qed

definition same_identity :: "nat \<Rightarrow> ('p, 'q) block_cache \<Rightarrow> ('p, 'q) block_cache \<Rightarrow> bool" where
  "same_identity e c cache \<longleftrightarrow>
     n_valid (bc_entries c e) = n_valid (bc_entries cache e) \<and> identity (block_of c e) = identity (block_of cache e)"

lemma same_identity_refl [simp]: "same_identity e c c" by (simp add: same_identity_def)

lemma same_identity_trans: "same_identity e a b \<Longrightarrow> same_identity e b c \<Longrightarrow> same_identity e a c"
  by (simp add: same_identity_def)

lemma kept_identity: "kept c cache \<Longrightarrow> same_identity e c cache"
  by (simp add: kept_def same_blocks_def same_identity_def identity_eq block_core_eq)

lemma same_identity_matching: "same_identity e c cache \<Longrightarrow> matching_entry key e c = matching_entry key e cache"
  by (simp add: same_identity_def matching_entry_def identity_eq)

lemma install_fresh:
  assumes ok: "cache_ok (w_cache w)" and e: "\<not> n_valid (bc_entries (w_cache w) e)" "e < ENTRY_COUNT"
  shows "n_valid (bc_entries (w_cache (install_block e hash decoded w)) e)"
    "identity (block_of (w_cache (install_block e hash decoded w)) e) = identity decoded"
    "e' \<noteq> e \<Longrightarrow> same_identity e' (w_cache (install_block e hash decoded w)) (w_cache w)"
proof -
  obtain serial c0 where c0: "avz_allocate_block_serial (w_cache w) = (serial, c0)" by fastforce
  let ?n = "\<lambda>n. n\<lparr>n_block := decoded, n_serial := serial, n_validated_code_mutation_epoch := bc_code_mutation_epoch c0,
      n_validated_shared_code_mutation_epoch := avz_native_block_cache_shared_code_mutation_epoch w,
      n_validated_translation_epoch := bc_translation_epoch c0,
      n_valid := True, n_prefetched := bc_batch_prefetch_active c0\<rparr>"
  let ?w = "w\<lparr>w_cache := avz_touch_entry e (set_entry e ?n c0)\<rparr>"
  have se: "same_index c0 (w_cache w)" "bc_entries c0 = bc_entries (w_cache w)"
    using c0 by (auto simp: avz_allocate_block_serial_def Let_def same_index_def)
  have same: "same_index (w_cache ?w) (w_cache w)"
    using se(1) by (simp add: same_index_def avz_touch_entry_def Let_def set_entry_def)
  have "page_index_ok (w_cache w)" "indexable (w_cache w) e"
    using ok e free_entry_indexable by (simp_all add: cache_ok_def)
  then have "page_index_ok (w_cache ?w)" "indexable (w_cache ?w) e"
    using same_index_views[OF same] by (simp_all add: indexable_def)
  note o = index_entry_effect(3)[OF this]
  have c: "bc_entries (w_cache (install_block e hash decoded w)) = bc_entries (w_cache (avz_index_entry e ?w))"
    by (simp add: install_block_def c0 on_cache_def Let_def count_statistic_def avz_update_front_cache_def)
  have i: "identity (block_of (w_cache (install_block e hash decoded w)) x) = identity (block_of (w_cache ?w) x)" for x
    using index_entry_identity[of e ?w x] by (simp add: block_of_def c)
  have w: "bc_entries (w_cache ?w) x = (if x = e then n_last_used_update (\<lambda>_. avz_advance_nonzero_counter (bc_access_clock c0))
      (?n (bc_entries (w_cache w) e)) else bc_entries (w_cache w) x)" for x
    by (simp add: touch_entry_fields set_entry_def se(2))
  show "n_valid (bc_entries (w_cache (install_block e hash decoded w)) e)"
    using o unfolding only_entry_def c w[of e] by simp
  show "identity (block_of (w_cache (install_block e hash decoded w)) e) = identity decoded"
    unfolding i unfolding block_of_def w by simp
  show "same_identity e' (w_cache (install_block e hash decoded w)) (w_cache w)" if "e' \<noteq> e"
    using o that unfolding same_identity_def i unfolding block_of_def only_entry_def c w by simp
qed

subsection \<open>The effect of a lookup on the other entries\<close>

lemma discard_others:
  assumes "cache_ok cache" "e' \<noteq> e"
  shows "same_identity e' (avz_discard_stale_entry e cache) cache"
proof -
  have r: "kept (avz_retire_unused_prefetch e cache) cache" by (intro keeps)
  then have "page_index_ok (avz_retire_unused_prefetch e cache)" using kept_ok[OF assms(1)] by (simp add: cache_ok_def)
  from unindex_effect(4)[OF this, of e] kept_identity[OF r, of e'] assms(2) show ?thesis
    by (auto simp: avz_discard_stale_entry_def Let_def advance_mutation_epoch_def count_statistic_def set_entry_def
        same_identity_def block_of_def)
qed

lemma evict_others:
  assumes "cache_ok cache" "e' \<noteq> e"
  shows "same_identity e' (evict_entry e cache) cache"
proof -
  have r: "kept (avz_retire_unused_prefetch e cache) cache" by (intro keeps)
  then have "page_index_ok (avz_retire_unused_prefetch e cache)" using kept_ok[OF assms(1)] by (simp add: cache_ok_def)
  from unindex_effect(4)[OF this, of e] kept_identity[OF r, of e'] assms(2) show ?thesis
    by (auto simp: evict_entry_def Let_def advance_mutation_epoch_def count_statistic_def set_entry_def
        same_identity_def block_of_def)
qed

text \<open>An entry of another program counter is never discarded by a probe.\<close>

lemma probe_entry_others:
  assumes k: "callbacks_keep k" and ok: "cache_ok (w_cache w)" and p: "probe_entry k key x w = (hit, w')"
    and e: "matching_entry key' e (w_cache w)" "k_pc key' \<noteq> k_pc key"
  shows "same_identity e (w_cache w') (w_cache w)"
  using k p
proof (cases rule: probe_entry_cases)
  case kept
  then show ?thesis by (simp add: world_kept_def kept_identity)
next
  case (discarded w'')
  then have "x \<noteq> e" using e by (auto simp: matching_entry_def avz_block_keys_equal_def)
  then have "same_identity e (avz_discard_stale_entry x (w_cache w'')) (w_cache w'')"
    by (intro discard_others[OF world_kept_ok[OF ok discarded(1)]]) blast
  moreover have "same_identity e (w_cache w'') (w_cache w)" using discarded(1) by (simp add: world_kept_def kept_identity)
  ultimately have "same_identity e (avz_discard_stale_entry x (w_cache w'')) (w_cache w)" by (rule same_identity_trans)
  then show ?thesis by (simp add: discarded(2) on_cache_def)
qed

lemma on_cache_identity: "(\<And>c. kept (f c) c) \<Longrightarrow> same_identity e (w_cache (on_cache f w)) (w_cache w)"
  by (simp add: on_cache_def kept_identity)

lemma probe_front_others:
  assumes k: "callbacks_keep k" and ok: "cache_ok (w_cache w)" and p: "probe_front k key hash w = (found, w')"
    and e: "matching_entry key' e (w_cache w)" "k_pc key' \<noteq> k_pc key"
  shows "same_identity e (w_cache w') (w_cache w)"
proof -
  let ?x = "f_entry_index (bc_front_entries (w_cache w) (unat (hash AND 8191)))"
  obtain hit w1 where q: "probe_entry k key ?x w = (hit, w1)" by fastforce
  have "same_identity e (w_cache w1) (w_cache w)" by (rule probe_entry_others[OF k ok q e])
  moreover have "same_identity e (w_cache (on_cache (\<lambda>cache. record_hit x
      (count_statistic Front_hits (count_statistic Hits cache))) w1)) (w_cache w1)" for x
    by (rule on_cache_identity) (rule hit_recorded_kept)
  ultimately show ?thesis
    using p by (auto simp: probe_front_def Let_def q intro: same_identity_trans split: if_splits)
qed

lemma probe_ways_others:
  assumes k: "callbacks_keep k"
  shows "cache_ok (w_cache w) \<Longrightarrow> matching_entry key' e (w_cache w) \<Longrightarrow> k_pc key' \<noteq> k_pc key \<Longrightarrow>
    probe_ways k key hash entries free w = (found, free', w') \<Longrightarrow> same_identity e (w_cache w') (w_cache w)"
proof (induction entries arbitrary: free w)
  case (Cons x entries)
  obtain hit w1 where q: "probe_entry k key x w = (hit, w1)" by fastforce
  have s: "same_identity e (w_cache w1) (w_cache w)" by (rule probe_entry_others[OF k Cons.prems(1) q Cons.prems(2,3)])
  show ?case
  proof (cases hit)
    case True
    have "same_identity e (w_cache (on_cache (\<lambda>cache. avz_update_front_cache hash x (record_hit x (count_statistic Hits cache))) w1)) (w_cache w1)"
      by (rule on_cache_identity) (rule hit_recorded_kept)
    then show ?thesis using Cons.prems(4) s True by (auto simp: q intro: same_identity_trans)
  next
    case False
    have "cache_ok (w_cache w1)" by (rule probe_entry_ok[OF k Cons.prems(1) q])
    moreover have "matching_entry key' e (w_cache w1)" using Cons.prems(2) same_identity_matching[OF s] by simp
    ultimately have "same_identity e (w_cache w') (w_cache w1)"
      using Cons.IH[of w1] Cons.prems(3,4) False by (simp add: q split: if_splits)
    then show ?thesis using s by (rule same_identity_trans)
  qed
qed simp

lemma probe_found:
  assumes k: "callbacks_keep k"
  shows "probe_front k key hash w = (Some e, w') \<Longrightarrow> matching_entry key e (w_cache w')"
    and "probe_ways k key hash entries free w = (Some e, free', w') \<Longrightarrow> matching_entry key e (w_cache w')"
proof -
  have hit: "matching_entry key x (w_cache w1)" if "probe_entry k key x w0 = (True, w1)" for x w0 w1
    using k that by (cases rule: probe_entry_cases) auto
  assume p: "probe_front k key hash w = (Some e, w')"
  obtain w1 where q: "probe_entry k key e w = (True, w1)"
    and w': "w' = on_cache (\<lambda>cache. record_hit e (count_statistic Front_hits (count_statistic Hits cache))) w1"
    using p by (auto simp: probe_front_def Let_def split: prod.splits if_splits)
  have "same_identity e (w_cache w') (w_cache w1)"
    unfolding w' by (rule on_cache_identity) (rule hit_recorded_kept)
  then show "matching_entry key e (w_cache w')" using hit[OF q] same_identity_matching by blast
next
  have hit: "matching_entry key x (w_cache w1)" if "probe_entry k key x w0 = (True, w1)" for x w0 w1
    using k that by (cases rule: probe_entry_cases) auto
  assume "probe_ways k key hash entries free w = (Some e, free', w')"
  then show "matching_entry key e (w_cache w')"
  proof (induction entries arbitrary: free w)
    case (Cons x entries)
    obtain h w1 where q: "probe_entry k key x w = (h, w1)" by fastforce
    show ?case
    proof (cases h)
      case True
      have "same_identity e (w_cache (on_cache (\<lambda>cache. avz_update_front_cache hash e (record_hit e (count_statistic Hits cache))) w1)) (w_cache w1)"
        by (rule on_cache_identity) (rule hit_recorded_kept)
      moreover have "e = x" "w' = on_cache (\<lambda>cache. avz_update_front_cache hash e (record_hit e (count_statistic Hits cache))) w1"
        using Cons.prems True by (auto simp: q)
      moreover have "matching_entry key x (w_cache w1)" using hit q True by simp
      ultimately show ?thesis using same_identity_matching by blast
    next
      case False
      then show ?thesis using Cons by (simp add: q split: if_splits)
    qed
  qed simp
qed


subsection \<open>No block appears but by decoding\<close>

definition shrinks :: "('p, 'q) block_cache \<Rightarrow> ('p, 'q) block_cache \<Rightarrow> bool" where
  "shrinks c cache \<longleftrightarrow>
     (\<forall>e. n_valid (bc_entries c e) \<longrightarrow> n_valid (bc_entries cache e) \<and> identity (block_of c e) = identity (block_of cache e))"

lemma shrinks_refl [simp]: "shrinks c c" by (simp add: shrinks_def)

lemma shrinks_trans: "shrinks a b \<Longrightarrow> shrinks b c \<Longrightarrow> shrinks a c"
  unfolding shrinks_def by metis

lemma kept_shrinks: "kept c cache \<Longrightarrow> shrinks c cache"
  using kept_identity by (fastforce simp: shrinks_def same_identity_def)

lemma discard_shrinks:
  assumes "cache_ok cache"
  shows "shrinks (avz_discard_stale_entry e cache) cache"
  using discard_others[OF assms] discard_valid[OF _ assms] unfolding shrinks_def same_identity_def by blast

lemma world_kept_shrinks: "world_kept w' w \<Longrightarrow> shrinks (w_cache w') (w_cache w)"
  by (simp add: world_kept_def kept_shrinks)

lemma probe_entry_shrinks:
  assumes k: "callbacks_keep k" and ok: "cache_ok (w_cache w)" and p: "probe_entry k key x w = (hit, w')"
  shows "shrinks (w_cache w') (w_cache w)"
  using k p
proof (cases rule: probe_entry_cases)
  case kept
  then show ?thesis by (simp add: world_kept_shrinks)
next
  case (discarded w'')
  have "shrinks (w_cache w') (w_cache w'')"
    using discard_shrinks[OF world_kept_ok[OF ok discarded(1)]] by (simp add: discarded(2) on_cache_def)
  then show ?thesis using world_kept_shrinks[OF discarded(1)] by (rule shrinks_trans)
qed

lemma on_cache_shrinks: "(\<And>c. kept (f c) c) \<Longrightarrow> shrinks (w_cache w) c' \<Longrightarrow> shrinks (w_cache (on_cache f w)) c'"
  unfolding on_cache_def by (auto intro: shrinks_trans kept_shrinks)

lemma probe_front_shrinks:
  assumes k: "callbacks_keep k" and ok: "cache_ok (w_cache w)" and p: "probe_front k key hash w = (found, w')"
  shows "shrinks (w_cache w') (w_cache w)"
proof -
  let ?x = "f_entry_index (bc_front_entries (w_cache w) (unat (hash AND 8191)))"
  obtain hit w1 where q: "probe_entry k key ?x w = (hit, w1)" by fastforce
  have "shrinks (w_cache w1) (w_cache w)" by (rule probe_entry_shrinks[OF k ok q])
  then show ?thesis
    using p by (auto simp: probe_front_def Let_def q intro!: on_cache_shrinks hit_recorded_kept split: if_splits)
qed

lemma probe_ways_shrinks:
  assumes k: "callbacks_keep k"
  shows "cache_ok (w_cache w) \<Longrightarrow> probe_ways k key hash entries free w = (found, free', w') \<Longrightarrow>
    shrinks (w_cache w') (w_cache w)"
proof (induction entries arbitrary: free w)
  case (Cons x entries)
  obtain hit w1 where q: "probe_entry k key x w = (hit, w1)" by fastforce
  have s: "shrinks (w_cache w1) (w_cache w)" by (rule probe_entry_shrinks[OF k Cons.prems(1) q])
  have ok: "cache_ok (w_cache w1)" by (rule probe_entry_ok[OF k Cons.prems(1) q])
  show ?case
    using Cons.prems(2) Cons.IH[OF ok] s
    by (auto simp: q intro!: on_cache_shrinks hit_recorded_kept intro: shrinks_trans split: if_splits)
qed simp

definition decoded_by :: "('p, 'q, 'x) cache_callbacks \<Rightarrow> block_key \<Rightarrow> decoded_block \<Rightarrow> bool" where
  "decoded_by k key b \<longleftrightarrow>
     (\<exists>w word block w'. avz_decode_block k key w = (DECODE_OK, word, block, w') \<and> b_instructions block \<noteq> [] \<and>
        identity b = identity block)"

definition grows_by :: "(decoded_block \<Rightarrow> bool) \<Rightarrow> ('p, 'q) block_cache \<Rightarrow> ('p, 'q) block_cache \<Rightarrow> bool" where
  "grows_by fresh c cache \<longleftrightarrow>
     (\<forall>e. n_valid (bc_entries c e) \<longrightarrow>
        n_valid (bc_entries cache e) \<and> identity (block_of c e) = identity (block_of cache e) \<or> fresh (block_of c e))"

lemma shrinks_grows: "shrinks c cache \<Longrightarrow> grows_by P c cache"
  by (simp add: shrinks_def grows_by_def)

subsection \<open>Lookups\<close>

lemma victim_in_set: "choose_victim cache (b * WAY_COUNT) div WAY_COUNT = b"
  using choose_victim_way[of cache "b * WAY_COUNT"] by linarith

text \<open>
  A lookup that finds a block returns an entry of the key, in its set when it was decoded just
  now; the other sets keep their blocks of other addresses.
\<close>

definition lookup_sound ::
  "('p, 'q, 'x) cache_callbacks \<Rightarrow> block_key \<Rightarrow> nat \<Rightarrow> ('p, 'q, 'x) cache_world \<Rightarrow> lookup \<Rightarrow> ('p, 'q, 'x) cache_world \<Rightarrow> bool" where
  "lookup_sound k key chosen w r w' \<longleftrightarrow>
     (\<forall>e. u_entry r = Some e \<longrightarrow> u_status r = DECODE_OK \<and> matching_entry key e (w_cache w') \<and>
        (u_fresh r \<longrightarrow> e div WAY_COUNT = chosen)) \<and>
     (\<forall>key' e'. k_pc key' \<noteq> k_pc key \<longrightarrow> matching_entry key' e' (w_cache w) \<longrightarrow> e' div WAY_COUNT \<noteq> chosen \<longrightarrow>
        same_identity e' (w_cache w') (w_cache w)) \<and>
     grows_by (decoded_by k key) (w_cache w') (w_cache w)"

lemma lookup_is_sound:
  assumes k: "callbacks_keep k" and ok: "cache_ok (w_cache w)" and l: "lookup_or_decode k key w = (r, w')"
  shows "lookup_sound k key (avz_block_set_index (fst (avz_block_key_hash key (w_cache w)))) w r w'"
proof -
  obtain hash c where h: "avz_block_key_hash key (w_cache w) = (hash, c)" by fastforce
  let ?w0 = "w\<lparr>w_cache := c\<rparr>"
  have k0: "kept c (w_cache w)" using key_hash_kept[of key "w_cache w"] h by simp
  have ok0: "cache_ok (w_cache ?w0)" using kept_ok[OF ok k0] by simp
  obtain found w1 where p: "probe_front k key hash ?w0 = (found, w1)" by fastforce
  let ?base = "avz_block_set_index hash * WAY_COUNT"
  let ?ways = "map (\<lambda>way. ?base + way) [0 ..< WAY_COUNT]"
  have ok1: "cache_ok (w_cache w1)" using probe_front_ok[OF k ok0, of key hash] p by simp
  obtain hit free w2 where q: "probe_ways k key hash ?ways None w1 = (hit, free, w2)" by (metis prod_cases3)
  have ok2: "cache_ok (w_cache w2)" using probe_ways_ok[OF k ok1, of key hash ?ways None] q by simp
  obtain status word decoded w3 where d: "avz_decode_block k key (on_cache (count_statistic Misses) w2) = (status, word, decoded, w3)"
    by (metis prod_cases4)
  have k23: "world_kept w3 w2"
    using decode_block_keeps[OF k, of key "on_cache (count_statistic Misses) w2"] d
    by (auto simp: world_kept_def on_cache_def intro: kept_trans keeps kept_refl)
  have ok3: "cache_ok (w_cache w3)" by (rule world_kept_ok[OF ok2 k23])
  have key: "b_key decoded = key" by (rule decode_block_key[OF d])
  have others: "same_identity e' (w_cache w1) (w_cache w)" "same_identity e' (w_cache w2) (w_cache w)"
      "same_identity e' (w_cache w3) (w_cache w)"
    if "k_pc key' \<noteq> k_pc key" "matching_entry key' e' (w_cache w)" for key' e'
  proof -
    have s0: "same_identity e' (w_cache ?w0) (w_cache w)" using kept_identity[OF k0] by simp
    have "same_identity e' (w_cache w1) (w_cache ?w0)"
      using probe_front_others[OF k ok0 p, of key' e'] that same_identity_matching[OF s0] by simp
    then show s1: "same_identity e' (w_cache w1) (w_cache w)" using s0 by (rule same_identity_trans)
    have "same_identity e' (w_cache w2) (w_cache w1)"
      using probe_ways_others[OF k ok1 _ _ q, of key' e'] that same_identity_matching[OF s1] by simp
    then show s2: "same_identity e' (w_cache w2) (w_cache w)" using s1 by (rule same_identity_trans)
    show "same_identity e' (w_cache w3) (w_cache w)"
      using same_identity_trans[OF kept_identity s2, of "w_cache w3"] k23 by (simp add: world_kept_def)
  qed
  have g1: "shrinks (w_cache w1) (w_cache w)"
    using probe_front_shrinks[OF k ok0 p] kept_shrinks[OF k0] by (auto intro: shrinks_trans)
  have g2: "shrinks (w_cache w2) (w_cache w)"
    using probe_ways_shrinks[OF k ok1 q] g1 by (rule shrinks_trans)
  have g3: "shrinks (w_cache w3) (w_cache w)" using world_kept_shrinks[OF k23] g2 by (rule shrinks_trans)
  let ?victim = "choose_victim (w_cache w3) ?base"
  let ?evicted = "on_cache (set_entry ?victim (n_valid_update (\<lambda>_. False))) (on_cache (evict_entry ?victim) w3)"
  have free_way: "\<not> n_valid (bc_entries (w_cache w3) x)" "x < ENTRY_COUNT" "x div WAY_COUNT = avz_block_set_index hash"
    if "free = Some x" "hit = None" for x
  proof -
    from probe_ways_free[OF k ok1, of None "set ?ways" ?ways key hash free w2 x] q that
    have f: "\<not> n_valid (bc_entries (w_cache w2) x)" and x: "x \<in> set ?ways" by auto
    show "\<not> n_valid (bc_entries (w_cache w3) x)" using f k23 kept_valid by (auto simp: world_kept_def)
    show "x < ENTRY_COUNT" "x div WAY_COUNT = avz_block_set_index hash" using x set_index_bound[of hash] by auto
  qed
  have vb: "?victim < ENTRY_COUNT" using choose_victim_way[of "w_cache w3" ?base] set_index_bound[of hash] by simp
  have vok: "cache_ok (w_cache ?evicted)" "\<not> n_valid (bc_entries (w_cache ?evicted) ?victim)"
    using evict_ok[OF ok3, of ?victim] by (simp_all add: on_cache_def set_entry_def)
  have ev: "same_identity e' (w_cache ?evicted) (w_cache w3)" if "e' \<noteq> ?victim" for e'
    using evict_others[OF ok3 that] that by (simp add: on_cache_def set_entry_def same_identity_def block_of_def)
  consider (front) x where "found = Some x" "r = \<lparr>u_entry = Some x, u_status = DECODE_OK, u_unsupported = 0, u_fresh = False\<rparr>" "w' = w1"
    | (ways) x where "found = None" "hit = Some x" "r = \<lparr>u_entry = Some x, u_status = DECODE_OK, u_unsupported = 0, u_fresh = False\<rparr>" "w' = w2"
    | (fault) "found = None" "hit = None" "u_entry r = None" "w' = w3"
    | (free) x where "found = None" "hit = None" "free = Some x" "w' = install_block x hash decoded w3" "status = DECODE_OK \<and> b_instructions decoded \<noteq> []"
        "r = \<lparr>u_entry = Some x, u_status = DECODE_OK, u_unsupported = 0, u_fresh = True\<rparr>"
    | (victim) "found = None" "hit = None" "free = None" "w' = install_block ?victim hash decoded ?evicted" "status = DECODE_OK \<and> b_instructions decoded \<noteq> []"
        "r = \<lparr>u_entry = Some ?victim, u_status = DECODE_OK, u_unsupported = 0, u_fresh = True\<rparr>"
    using l unfolding lookup_or_decode_def h p install_ignores_valid
    by (auto simp: Let_def p q d split: option.splits if_splits)
  then show ?thesis
  proof cases
    case front
    then show ?thesis using p probe_found(1)[OF k] others(1) shrinks_grows[OF g1] by (auto simp: lookup_sound_def)
  next
    case ways
    then show ?thesis using q probe_found(2)[OF k] others(2) shrinks_grows[OF g2] by (auto simp: lookup_sound_def)
  next
    case fault
    then show ?thesis using others(3) shrinks_grows[OF g3] by (auto simp: lookup_sound_def)
  next
    case (free x)
    note i = install_fresh[OF ok3 free_way(1,2)[OF free(3,2)], where hash = hash and decoded = decoded]
    have "matching_entry key x (w_cache w')"
      using i(1,2) key by (simp add: free(4) matching_entry_def identity_eq avz_block_keys_equal_def avz_block_contexts_equal_def)
    moreover have "same_identity e' (w_cache w') (w_cache w)"
      if "k_pc key' \<noteq> k_pc key" "matching_entry key' e' (w_cache w)" "e' div WAY_COUNT \<noteq> avz_block_set_index hash" for key' e'
    proof -
      have "e' \<noteq> x" using that(3) free_way(3)[OF free(3,2)] by blast
      from i(3)[OF this] others(3)[OF that(1,2)] show ?thesis unfolding free(4) by (rule same_identity_trans)
    qed
    moreover have grow: "grows_by (decoded_by k key) (w_cache w') (w_cache w)"
      unfolding grows_by_def
    proof (intro allI impI)
      fix e' assume v: "n_valid (bc_entries (w_cache w') e')"
      show "n_valid (bc_entries (w_cache w) e') \<and> identity (block_of (w_cache w') e') = identity (block_of (w_cache w) e') \<or>
          decoded_by k key (block_of (w_cache w') e')"
      proof (cases "e' = x")
        case True
        then show ?thesis using i(2) free(5) d unfolding decoded_by_def free(4) by blast
      next
        case False
        then show ?thesis using i(3)[OF False] g3 v unfolding free(4) by (simp add: same_identity_def shrinks_def)
      qed
    qed
    ultimately show ?thesis using free_way(3)[OF free(3,2)] free(6) grow by (simp add: lookup_sound_def h)
  next
    case victim
    note i = install_fresh[OF vok vb, where hash = hash and decoded = decoded]
    have "matching_entry key ?victim (w_cache w')"
      using i(1,2) key by (simp add: victim(4) matching_entry_def identity_eq avz_block_keys_equal_def avz_block_contexts_equal_def)
    moreover have "same_identity e' (w_cache w') (w_cache w)"
      if "k_pc key' \<noteq> k_pc key" "matching_entry key' e' (w_cache w)" "e' div WAY_COUNT \<noteq> avz_block_set_index hash" for key' e'
    proof -
      have n: "e' \<noteq> ?victim" using that(3) victim_in_set by metis
      from i(3)[OF n] ev[OF n] have "same_identity e' (w_cache w') (w_cache w3)" unfolding victim(4) by (rule same_identity_trans)
      then show ?thesis using others(3)[OF that(1,2)] by (rule same_identity_trans)
    qed
    moreover have grow: "grows_by (decoded_by k key) (w_cache w') (w_cache w)"
      unfolding grows_by_def
    proof (intro allI impI)
      fix e' assume v: "n_valid (bc_entries (w_cache w') e')"
      show "n_valid (bc_entries (w_cache w) e') \<and> identity (block_of (w_cache w') e') = identity (block_of (w_cache w) e') \<or>
          decoded_by k key (block_of (w_cache w') e')"
      proof (cases "e' = ?victim")
        case True
        then show ?thesis using i(2) victim(5) d unfolding decoded_by_def victim(4) by blast
      next
        case False
        then show ?thesis using i(3)[OF False] ev[OF False] g3 v unfolding victim(4)
          by (simp add: same_identity_def shrinks_def)
      qed
    qed
    ultimately show ?thesis using victim(6) victim_in_set grow by (simp add: lookup_sound_def h)
  qed
qed


subsection \<open>The shape of a block\<close>

text \<open>
  The instructions decode from their words, one physical address belongs to each, only the last
  may end a block, and the summary fields agree with them.
\<close>

definition block_wf :: "decoded_block \<Rightarrow> bool" where
  "block_wf b \<longleftrightarrow>
     (let is = b_instructions b in
      is \<noteq> [] \<and> length is \<le> MAX_INSTRUCTIONS \<and> length (b_physical_addresses b) = length is \<and>
      list_all (\<lambda>i. avz_native_decode_instruction (i_raw i) = Some i \<and> \<not> avz_instruction_requires_vm_exit (i_raw i) (i_kind i)) is \<and>
      list_all (\<lambda>i. \<not> ends_block (i_raw i) (i_kind i)) (butlast is) \<and>
      b_uses_vector_state b = list_ex (\<lambda>i. avz_native_kind_uses_vector_state (i_kind i)) is \<and>
      b_semantic_candidates b = map (\<lambda>i. avz_native_classify_semantic_candidate is i (i = 0) False) [0 ..< length is] \<and>
      b_trace_semantic_candidates b = map (\<lambda>i. avz_native_classify_semantic_candidate is i (i = 0) True) [0 ..< length is])"

definition prefix_wf :: "decoded_block \<Rightarrow> bool" where
  "prefix_wf b \<longleftrightarrow>
     (let is = b_instructions b in
      length (b_physical_addresses b) = length is \<and>
      list_all (\<lambda>i. avz_native_decode_instruction (i_raw i) = Some i \<and> \<not> avz_instruction_requires_vm_exit (i_raw i) (i_kind i)) is \<and>
      list_all (\<lambda>i. \<not> ends_block (i_raw i) (i_kind i)) (butlast is) \<and>
      b_uses_vector_state b = list_ex (\<lambda>i. avz_native_kind_uses_vector_state (i_kind i)) is)"

lemma record_exit_vector [simp]: "b_uses_vector_state (avz_record_block_exit_metadata i b) = b_uses_vector_state b"
  by (auto simp: avz_record_block_exit_metadata_def Let_def)

lemma classified_wf:
  "prefix_wf b \<Longrightarrow> b_instructions b \<noteq> [] \<Longrightarrow> length (b_instructions b) \<le> MAX_INSTRUCTIONS \<Longrightarrow>
     block_wf (avz_classify_block_semantics b)"
  by (simp add: block_wf_def prefix_wf_def Let_def avz_classify_block_semantics_def)

lemma append_instruction_wf:
  assumes "prefix_wf b" "list_all (\<lambda>i. \<not> ends_block (i_raw i) (i_kind i)) (b_instructions b)"
    "avz_native_decode_instruction raw = Some i" "\<not> avz_instruction_requires_vm_exit raw (i_kind i)"
  shows "prefix_wf (append_instruction i a b)"
  using assms decode_wf[OF assms(3)] by (auto simp: prefix_wf_def append_instruction_def Let_def instr_wf_def)

lemma append_instruction_fields:
  "b_instructions (append_instruction i a b) = b_instructions b @ [i]" by (simp add: append_instruction_def)

lemma decode_loop_wf:
  "decode_loop n k s w = (DECODE_OK, word, block, w') \<Longrightarrow> prefix_wf (d_block s) \<Longrightarrow>
     list_all (\<lambda>i. \<not> ends_block (i_raw i) (i_kind i)) (b_instructions (d_block s)) \<Longrightarrow>
     length (b_instructions (d_block s)) + n \<le> MAX_INSTRUCTIONS \<Longrightarrow> b_instructions block \<noteq> [] \<Longrightarrow> block_wf block"
proof (induction n arbitrary: s w)
  case 0
  then show ?case using classified_wf[of "d_block s"] by auto
next
  case (Suc n)
  obtain fetched w1 where f: "fetch_raw k (d_program_counter s) (d_direct s) w = (fetched, w1)" by fastforce
  have here: "block_wf block" if "block = avz_classify_block_semantics (d_block s)"
    using that classified_wf[of "d_block s"] Suc.prems by simp
  show ?case
  proof (cases fetched)
    case None
    then show ?thesis using Suc.prems(1) here by (auto simp: f Let_def split: if_splits)
  next
    case (Some ar)
    obtain a raw where ar: "ar = (a, raw)" by fastforce
    obtain direct c where d: "advance_decode_window (b_key (d_block s)) (d_program_counter s) a (w_cache w1) = (direct, c)"
      by fastforce
    show ?thesis
    proof (cases "\<exists>i. avz_native_decode_instruction raw = Some i \<and> \<not> avz_instruction_requires_vm_exit raw (i_kind i)")
      case True
      then obtain i where i: "avz_native_decode_instruction raw = Some i" "\<not> avz_instruction_requires_vm_exit raw (i_kind i)" by blast
      let ?b = "append_instruction i a (d_block s)"
      have raw: "i_raw i = raw" using decode_wf[OF i(1)] by (simp add: instr_wf_def)
      have b: "prefix_wf ?b" by (rule append_instruction_wf[OF Suc.prems(2,3) i])
      show ?thesis
      proof (cases "ends_block raw (i_kind i)")
        case True
        then have "block = avz_classify_block_semantics ?b"
          using Suc.prems(1) i by (simp add: f Some ar d Let_def)
        then show ?thesis using classified_wf[OF b] Suc.prems(4) by (simp add: append_instruction_fields)
      next
        case False
        let ?s = "\<lparr>d_block = ?b, d_program_counter = d_program_counter s + 4, d_direct = direct\<rparr>"
        have "decode_loop n k ?s (w1\<lparr>w_cache := c\<rparr>) = (DECODE_OK, word, block, w')"
          using Suc.prems(1) i False by (simp add: f Some ar d Let_def)
        from Suc.IH[OF this] show ?thesis
          using b Suc.prems False raw by (simp add: append_instruction_fields)
      qed
    next
      case False
      then have "block = avz_classify_block_semantics (d_block s)"
        using Suc.prems(1) by (auto simp: f Some ar d Let_def split: option.splits if_splits)
      then show ?thesis by (rule here)
    qed
  qed
qed

lemma decode_block_wf:
  assumes "avz_decode_block k key w = (DECODE_OK, word, block, w')" "b_instructions block \<noteq> []"
  shows "block_wf block"
proof -
  obtain direct c where c: "consult_decode_window key (w_cache w) = (direct, c)" by fastforce
  have "decode_loop MAX_INSTRUCTIONS k \<lparr>d_block = empty_block\<lparr>b_key := key\<rparr>, d_program_counter = k_pc key, d_direct = direct\<rparr>
      (w\<lparr>w_cache := c\<rparr>) = (DECODE_OK, word, block, w')"
    using assms(1) unfolding avz_decode_block_def c by simp
  from decode_loop_wf[OF this] show ?thesis using assms(2) by (simp add: prefix_wf_def empty_block_def)
qed

lemma identity_wf: "identity a = identity b \<Longrightarrow> block_wf a = block_wf b"
  unfolding identity_eq block_wf_def Let_def by simp

definition blocks_wf :: "('p, 'q) block_cache \<Rightarrow> bool" where
  "blocks_wf cache \<longleftrightarrow> (\<forall>e. n_valid (bc_entries cache e) \<longrightarrow> block_wf (block_of cache e))"

lemma grows_wf:
  assumes "grows_by (decoded_by k key) c cache" "blocks_wf cache"
  shows "blocks_wf c"
  unfolding blocks_wf_def
proof (intro allI impI)
  fix e assume v: "n_valid (bc_entries c e)"
  then consider "n_valid (bc_entries cache e)" "identity (block_of c e) = identity (block_of cache e)"
    | "decoded_by k key (block_of c e)"
    using assms(1) by (auto simp: grows_by_def)
  then show "block_wf (block_of c e)"
  proof cases
    case 1
    then show ?thesis using assms(2) identity_wf[OF 1(2)] by (simp add: blocks_wf_def)
  next
    case 2
    then show ?thesis using decode_block_wf identity_wf unfolding decoded_by_def by metis
  qed
qed

lemma shrinks_wf: "shrinks c cache \<Longrightarrow> blocks_wf cache \<Longrightarrow> blocks_wf c"
  using grows_wf shrinks_grows by blast

lemma kept_wf: "kept c cache \<Longrightarrow> blocks_wf cache \<Longrightarrow> blocks_wf c"
  using shrinks_wf kept_shrinks by blast

lemma lookup_wf:
  assumes "callbacks_keep k" "cache_ok (w_cache w)" "blocks_wf (w_cache w)"
  shows "blocks_wf (w_cache (snd (lookup_or_decode k key w)))"
proof -
  obtain r w' where l: "lookup_or_decode k key w = (r, w')" by fastforce
  from lookup_is_sound[OF assms(1,2) l] show ?thesis using assms(3) grows_wf by (auto simp: l lookup_sound_def)
qed


lemma prefetch_wf:
  assumes lookup: "\<And>key w. cache_ok (w_cache w) \<Longrightarrow> blocks_wf (w_cache w) \<Longrightarrow>
      cache_ok (w_cache (snd (lookup key w))) \<and> blocks_wf (w_cache (snd (lookup key w)))"
    and "cache_ok (w_cache w)" "blocks_wf (w_cache w)"
  shows "blocks_wf (w_cache (prefetch_blocks n lookup protected pc i current w))"
  using assms(2,3)
proof (induction n arbitrary: i current w)
  case (Suc n)
  show ?case
  proof (cases "i \<ge> unat (bc_batch_prefetch_limit (w_cache w)) \<or> next_prefetch_key pc (block_of (w_cache w) current) = None")
    case False
    then obtain key where key: "next_prefetch_key pc (block_of (w_cache w) current) = Some key" by blast
    obtain hash c where h: "avz_block_key_hash key (w_cache w) = (hash, c)" by fastforce
    let ?w = "w\<lparr>w_cache := c\<rparr>"
    obtain r w' where l: "lookup key ?w = (r, w')" by fastforce
    have kept: "kept c (w_cache w)" using key_hash_kept[of key "w_cache w"] h by simp
    have ok: "cache_ok (w_cache ?w)" "blocks_wf (w_cache ?w)"
      using kept_ok[OF Suc.prems(1) kept] kept_wf[OF kept Suc.prems(2)] by simp_all
    have ok': "cache_ok (w_cache w')" "blocks_wf (w_cache w')" using lookup[OF ok, of key] l by simp_all
    have count: "kept (w_cache (on_cache (count_statistic Batch_prefetched_blocks) w')) (w_cache w')"
      unfolding on_cache_def by (simp, intro keeps)
    note ok'' = kept_ok[OF ok'(1) count] kept_wf[OF count ok'(2)]
    show ?thesis using False Suc.IH ok ok' ok'' by (auto simp: key h l Let_def split: option.split)
  qed (auto simp: Suc.prems)
qed simp

lemma get_or_decode_wf:
  assumes "callbacks_keep k" "cache_ok (w_cache w)" "blocks_wf (w_cache w)"
  shows "blocks_wf (w_cache (snd (get_or_decode depth k key w)))"
  using assms(2,3)
proof (induction depth arbitrary: key w)
  case 0
  then show ?case by (simp add: lookup_wf[OF assms(1)])
next
  case (Suc depth)
  let ?key = "avz_canonical_block_key key"
  obtain r w1 where l: "lookup_or_decode k ?key w = (r, w1)" by fastforce
  have ok: "cache_ok (w_cache w1)" "blocks_wf (w_cache w1)"
    using lookup_or_decode_ok[OF assms(1) Suc.prems(1), of ?key] lookup_wf[OF assms(1) Suc.prems, of ?key] l by simp_all
  have active: "kept (w_cache (on_cache (bc_batch_prefetch_active_update (\<lambda>_. b)) w)) (w_cache w)"
    for b and w :: "('a, 'b, 'c) cache_world"
    unfolding on_cache_def by (simp, intro keeps)
  have inner: "cache_ok (w_cache (snd (get_or_decode depth k key w))) \<and> blocks_wf (w_cache (snd (get_or_decode depth k key w)))"
    if "cache_ok (w_cache w)" "blocks_wf (w_cache w)" for key w
    using Suc.IH[OF that] get_or_decode_ok[OF assms(1) that(1)] by simp
  show ?case
    using ok kept_ok[OF ok(1) active] kept_wf[OF active ok(2)]
    by (auto simp: l Let_def split: option.split intro!: kept_wf[OF active] prefetch_wf[OF inner])
qed

lemma invalidate_shrinks:
  assumes "cache_ok cache"
  shows "shrinks (avz_invalidate_entry e cache) cache"
proof -
  have r: "kept (avz_retire_unused_prefetch e cache) cache" by (intro keeps)
  then have "page_index_ok (avz_retire_unused_prefetch e cache)" using kept_ok[OF assms] by (simp add: cache_ok_def)
  from unindex_effect(4)[OF this, of e] kept_shrinks[OF r] show ?thesis
    by (auto simp: avz_invalidate_entry_def Let_def advance_mutation_epoch_def count_statistic_def set_entry_def
        shrinks_def block_of_def)
qed

lemma walk_bucket_shrinks: "cache_ok cache \<Longrightarrow> shrinks (walk_bucket n page lo hi i cache) cache"
proof (induction n arbitrary: i cache)
  case (Suc n)
  have s: "shrinks (walk_bucket n page lo hi j (avz_invalidate_entry e cache)) cache" for j e
    using Suc.IH[OF invalidate_ok[OF Suc.prems]] invalidate_shrinks[OF Suc.prems] by (rule shrinks_trans)
  then show ?case using Suc.IH[OF Suc.prems] by (auto simp: Let_def split: option.split)
qed simp

lemma invalidate_range_shrinks:
  fixes cache :: "('a, 'b) block_cache"
  assumes ok: "cache_ok cache"
  shows "shrinks (avz_native_block_cache_invalidate_physical_range a n cache) cache"
proof -
  have w: "shrinks (fold (\<lambda>page cache. walk_bucket m page lo hi (bc_page_bucket_heads cache (avz_page_bucket page)) cache) ps c) c"
    if "cache_ok c" for m lo hi ps and c :: "('a, 'b) block_cache"
    using that
  proof (induction ps arbitrary: c)
    case (Cons p ps)
    show ?case
      using shrinks_trans[OF Cons.IH[OF walk_bucket_ok[OF Cons.prems]] walk_bucket_shrinks[OF Cons.prems]] by simp
  qed simp
  have b: "shrinks (snd (fold bump_page ps s)) (snd s)" for ps and s :: "bool \<times> ('a, 'b) block_cache"
  proof (induction ps arbitrary: s)
    case (Cons p ps)
    have "shrinks (snd (bump_page p s)) (snd s)"
      using keeps_bump[of p "fst s" "snd s"] by (intro kept_shrinks) (simp add: kept_def)
    then show ?case using Cons.IH[of "bump_page p s"] by (auto intro: shrinks_trans)
  qed simp
  have k: "shrinks (count_statistic x c) c'" "shrinks (advance_code_mutation_epoch c) c'" "shrinks (avz_assembly_chain_retire c) c'"
    if "shrinks c c'" for c c' :: "('a, 'b) block_cache" and x
    by (rule shrinks_trans[OF kept_shrinks that]; intro keeps)+
  have ok': "cache_ok (avz_assembly_chain_retire (count_statistic Invalidation_checks cache))"
    by (rule kept_ok[OF ok]) (intro keeps)
  have b': "shrinks c' cache" if "fold bump_page ps (False, avz_assembly_chain_retire (count_statistic Invalidation_checks cache)) = (bumped, c')"
    for ps bumped c'
  proof -
    have "shrinks c' (avz_assembly_chain_retire (count_statistic Invalidation_checks cache))"
      using b[of ps "(False, avz_assembly_chain_retire (count_statistic Invalidation_checks cache))"] that by simp
    then show ?thesis by (rule shrinks_trans) (intro k shrinks_refl)
  qed
  have w': "shrinks (fold (\<lambda>page cache. walk_bucket m page lo hi (bc_page_bucket_heads cache (avz_page_bucket page)) cache) ps
      (avz_assembly_chain_retire (count_statistic Invalidation_checks cache))) cache" for m lo hi ps
    by (rule shrinks_trans[OF w[OF ok']]) (intro k shrinks_refl)
  show ?thesis
    unfolding avz_native_block_cache_invalidate_physical_range_def Let_def
    by (auto intro!: k shrinks_refl w' split: prod.split if_split intro: b')
qed

lemma clear_shrinks: "avz_native_block_cache_clear cache = Some c \<Longrightarrow> blocks_wf c"
  by (auto simp: avz_native_block_cache_clear_def Let_def blocks_wf_def empty_entry_def)

lemma cache_step_wf:
  assumes k: "callbacks_keep k" and s: "cache_step k a h w w'" and ok: "cache_ok (w_cache w)" and wf: "blocks_wf (w_cache w)"
  shows "blocks_wf (w_cache w')"
proof -
  have world: "blocks_wf (w_cache w')" if "world_kept w' w" for w'
    using that kept_wf[OF _ wf] by (simp add: world_kept_def)
  have ram: "blocks_wf c \<Longrightarrow> blocks_wf (c\<lparr>bc_ram := r, bc_ram_base := rb, bc_ram_size := rs\<rparr>)" for c :: "('a, 'b) block_cache" and r rb rs
    by (simp add: blocks_wf_def block_of_def)
  have tracking: "blocks_wf c \<Longrightarrow> blocks_wf (c\<lparr>bc_tracked := True, bc_code_page_refcounts := \<lambda>_. 0, bc_code_page_generations := \<lambda>_. 1,
      bc_trace_code_page_bits := \<lambda>_. 0, bc_tracked_first_page := f, bc_tracked_page_count := n, bc_ram := None, bc_ram_base := 0,
      bc_ram_size := 0\<rparr>)" for c :: "('a, 'b) block_cache" and f n
    by (simp add: blocks_wf_def block_of_def)
  have configure: "blocks_wf c" if "avz_native_block_cache_configure_physical_range address n cache = Some (b, c)" "blocks_wf cache"
    for address n cache b and c :: "('a, 'b) block_cache"
    using that by (auto simp: avz_native_block_cache_configure_physical_range_def Let_def split: if_splits
        intro!: tracking intro: clear_shrinks)
  show ?thesis
    using s
  proof cases
    case (Lookup key)
    then show ?thesis
      using get_or_decode_wf[OF k ok wf, of 1 key] by (simp only: avz_native_block_cache_get_or_decode_def)
  next
    case (Write address n)
    then show ?thesis using shrinks_wf[OF invalidate_range_shrinks[OF ok] wf] by (simp add: on_cache_def)
  next
    case Retire_translations
    have "kept (avz_native_block_cache_invalidate_translation_mappings (w_cache w)) (w_cache w)" by (intro keeps)
    then show ?thesis using Retire_translations kept_wf[OF _ wf] by (simp add: on_cache_def)
  next
    case Retire_window
    have "kept (avz_native_block_cache_invalidate_decode_window (w_cache w)) (w_cache w)" by (intro keeps)
    then show ?thesis using Retire_window kept_wf[OF _ wf] by (simp add: on_cache_def)
  next
    case (Register_trace page)
    have "world_kept (snd (avz_native_block_cache_register_trace_code_page page w)) w"
      by (auto simp: world_kept_def avz_native_block_cache_register_trace_code_page_def Let_def intro!: keeps split: option.split)
    then show ?thesis using Register_trace world by simp
  next
    case (Bind ram address n b c)
    then show ?thesis
      using wf by (auto simp: avz_native_block_cache_bind_physical_memory_def Let_def split: if_splits
          intro!: ram intro: clear_shrinks configure)
  next
    case (Attach c)
    then show ?thesis using wf by (auto simp: avz_native_block_cache_set_guest_memory_def split: if_splits intro: clear_shrinks)
  qed (use wf in \<open>auto intro: world find_successor_keeps[OF k] record_successor_keeps[OF k] threaded_program_keeps[OF k]
        code_is_current_keeps[OF k] assembly_program_keeps[OF k] clear_shrinks configure\<close>)
qed

text \<open>
  C19: every valid block that a cache can hold, in any state it can reach, is well formed: it has
  between one and sixteen instructions, each decoded from its own word and none of a kind that
  must leave the machine, with one physical address each; only the last instruction ends a block;
  and the vector flag and both lists of semantic candidates are those of its instructions.
\<close>

theorem reachable_blocks_well_formed:
  assumes "callbacks_keep k" "fresh_world w" "(cache_step k a h)\<^sup>*\<^sup>* w w'" "n_valid (bc_entries (w_cache w') e)"
  shows "block_wf (block_of (w_cache w') e)"
proof -
  have "cache_ok (w_cache w') \<and> blocks_wf (w_cache w')"
    using assms(3)
  proof (induction rule: rtranclp_induct)
    case base
    have "blocks_wf (w_cache w)"
      using assms(2) by (simp add: fresh_world_def blocks_wf_def avz_native_block_cache_create_def empty_entry_def)
    then show ?case using assms(2) by (simp add: fresh_world_def create_ok)
  next
    case (step y z)
    then show ?case using cache_step_ok[OF assms(1)] cache_step_wf[OF assms(1)] by blast
  qed
  then show ?thesis using assms(4) by (simp add: blocks_wf_def)
qed


subsection \<open>The block survives the prefetch\<close>

lemma keys_equal_iff [simp]: "avz_block_keys_equal a b \<longleftrightarrow> a = b"
  by (cases a; cases b) (auto simp: avz_block_keys_equal_def avz_block_contexts_equal_def)

lemma matching_key: "matching_entry key e cache \<longleftrightarrow> n_valid (bc_entries cache e) \<and> b_key (block_of cache e) = key"
  by (simp add: matching_entry_def)

lemma context_equal_hash: "avz_block_contexts_equal a b \<Longrightarrow> compute_context_hash a = compute_context_hash b"
  by (simp add: avz_block_contexts_equal_def compute_context_hash_def)

lemma key_hash_again: "avz_block_key_hash key cache = (hash, c) \<Longrightarrow> fst (avz_block_key_hash key c) = hash"
proof -
  obtain h c' where ctx: "avz_block_context_hash key cache = (h, c')" by fastforce
  have "avz_block_context_hash key c' = (h, c')"
  proof (cases "bc_last_context cache")
    case None
    then show ?thesis using ctx by (auto simp: avz_block_context_hash_def avz_block_contexts_equal_def)
  next
    case (Some ch)
    then show ?thesis
      using ctx by (cases ch) (auto simp: avz_block_context_hash_def avz_block_contexts_equal_def split: if_splits)
  qed
  then show "avz_block_key_hash key cache = (hash, c) \<Longrightarrow> ?thesis" using ctx by (auto simp: avz_block_key_hash_def)
qed

definition canonical :: "block_key \<Rightarrow> bool" where
  "canonical key \<longleftrightarrow> avz_canonical_block_key key = key"

lemma canonical_canonical: "canonical (avz_canonical_block_key key)"
  by (simp add: canonical_def avz_canonical_block_key_def and.assoc)

lemma shr_63: "shr (a :: u64) 12 = shr b 12 \<Longrightarrow> shr a 63 = shr b 63"
proof -
  assume e: "shr a 12 = shr b 12"
  have "shr (shr a 12) 51 = shr (shr b 12) 51" by (simp only: e)
  then show ?thesis by (simp only: drop_bit_drop_bit) simp
qed

lemma canonical_pc: "canonical key \<Longrightarrow> shr pc 12 = shr (k_pc key) 12 \<Longrightarrow> canonical (key\<lparr>k_pc := pc\<rparr>)"
  using shr_63[of pc "k_pc key"] by (cases key) (auto simp: canonical_def avz_canonical_block_key_def split: if_splits)

lemma next_prefetch_key_facts:
  assumes "next_prefetch_key pc b = Some key" "length (b_instructions b) \<le> MAX_INSTRUCTIONS"
  shows "key = b_key b\<lparr>k_pc := k_pc key\<rparr>" "k_pc (b_key b) < k_pc key" "shr (k_pc key) 12 = shr pc 12"
proof -
  let ?n = "length (b_instructions b)"
  have key: "key = b_key b\<lparr>k_pc := k_pc (b_key b) + word_of_nat (?n * 4)\<rparr>" and n: "?n \<noteq> 0"
    and le: "k_pc (b_key b) \<le> - 1 - word_of_nat (?n * 4)" and page: "shr (k_pc key) 12 = shr pc 12"
    using assms(1) by (auto simp: next_prefetch_key_def Let_def split: if_splits)
  have u: "unat (word_of_nat (?n * 4) :: u64) = ?n * 4"
    using assms(2) by (simp add: unat_of_nat take_bit_nat_eq_self del: of_nat_mult)
  have "unat (- 1 - word_of_nat (?n * 4) :: u64) = 2 ^ 64 - 1 - ?n * 4"
  proof -
    have "unat (- 1 - word_of_nat (?n * 4) :: u64) = unat (- 1 :: u64) - unat (word_of_nat (?n * 4) :: u64)"
      by (rule unat_sub) simp
    then show ?thesis unfolding u by (simp add: unsigned_minus_1_eq_mask mask_eq_exp_minus_1)
  qed
  then have "unat (k_pc (b_key b)) \<le> 2 ^ 64 - 1 - ?n * 4" using le by (simp only: word_le_nat_alt)
  then have "unat (k_pc (b_key b)) + ?n * 4 < 2 ^ 64" using assms(2) by simp
  then have "unat (k_pc (b_key b) + word_of_nat (?n * 4)) = unat (k_pc (b_key b)) + ?n * 4" by (rule unat_add_of_nat)
  then show "k_pc (b_key b) < k_pc key" using n by (subst key) (simp add: word_less_nat_alt)
  show "shr (k_pc key) 12 = shr pc 12" by (rule page)
  show "key = b_key b\<lparr>k_pc := k_pc key\<rparr>" by (subst key) (simp add: key[symmetric], subst key, simp)
qed

text \<open>The prefetch loop over plain lookups, for a block at or before the ones it walks over.\<close>

lemma prefetch_keeps_block:
  assumes k: "callbacks_keep k"
  shows "cache_ok (w_cache w) \<Longrightarrow> blocks_wf (w_cache w) \<Longrightarrow> matching_entry key e (w_cache w) \<Longrightarrow>
    e div WAY_COUNT = protected \<Longrightarrow>
    n_valid (bc_entries (w_cache w) current) \<Longrightarrow> canonical (b_key (block_of (w_cache w) current)) \<Longrightarrow>
    shr (k_pc (b_key (block_of (w_cache w) current))) 12 = shr pc 12 \<Longrightarrow>
    k_pc key \<le> k_pc (b_key (block_of (w_cache w) current)) \<Longrightarrow>
    same_identity e (w_cache (prefetch_blocks n (get_or_decode 0 k) protected pc i current w)) (w_cache w)"
proof (induction n arbitrary: i current w)
  case (Suc n)
  let ?b = "block_of (w_cache w) current"
  show ?case
  proof (cases "i \<ge> unat (bc_batch_prefetch_limit (w_cache w)) \<or> next_prefetch_key pc ?b = None")
    case False
    then obtain key' where key': "next_prefetch_key pc ?b = Some key'" by blast
    have "length (b_instructions ?b) \<le> MAX_INSTRUCTIONS"
      using Suc.prems(2,5) by (simp add: blocks_wf_def block_wf_def Let_def)
    note next_key = next_prefetch_key_facts[OF key' this]
    have "shr (k_pc key') 12 = shr (k_pc (b_key ?b)) 12" using next_key(3) Suc.prems(7) by simp
    then have canon: "canonical key'" using canonical_pc[OF Suc.prems(6)] next_key(1) by metis
    obtain hash c where h: "avz_block_key_hash key' (w_cache w) = (hash, c)" by fastforce
    have kept: "kept c (w_cache w)" using key_hash_kept[of key' "w_cache w"] h by simp
    let ?w = "w\<lparr>w_cache := c\<rparr>"
    have id0: "same_identity e (w_cache ?w) (w_cache w)" using kept_identity[OF kept] by simp
    have ok: "cache_ok (w_cache ?w)" "blocks_wf (w_cache ?w)" "matching_entry key e (w_cache ?w)"
      using kept_ok[OF Suc.prems(1) kept] kept_wf[OF kept Suc.prems(2)] Suc.prems(3) same_identity_matching[OF id0] by simp_all
    obtain r w1 where l: "lookup_or_decode k key' ?w = (r, w1)" by fastforce
    have l0: "get_or_decode 0 k key' ?w = (r, w1)" using l canon by (simp add: canonical_def)
    have sound: "lookup_sound k key' (avz_block_set_index hash) ?w r w1"
      using lookup_is_sound[OF k ok(1) l] key_hash_again[OF h] by simp
    have ok1: "cache_ok (w_cache w1)" "blocks_wf (w_cache w1)"
      using lookup_or_decode_ok[OF k ok(1), of key'] lookup_wf[OF k ok(1,2), of key'] l by simp_all
    have neq: "k_pc key \<noteq> k_pc key'" using next_key(2) Suc.prems(8) by auto
    show ?thesis
    proof (cases "avz_block_set_index hash = protected")
      case True
      then show ?thesis using False id0 by (simp add: key' h Let_def)
    next
      case other: False
      have id1: "same_identity e (w_cache w1) (w_cache w)"
        using sound neq ok(3) other Suc.prems(4) same_identity_trans[OF _ id0] unfolding lookup_sound_def by metis
      define w2 where "w2 = (if bc_statistics (w_cache w1) Decodes \<noteq> bc_statistics (w_cache ?w) Decodes
          then on_cache (count_statistic Batch_prefetched_blocks) w1 else w1)"
      have kept2: "kept (w_cache w2) (w_cache w1)"
        by (auto simp: w2_def on_cache_def intro: keeps kept_refl)
      have id2: "same_identity e (w_cache w2) (w_cache w)" using kept_identity[OF kept2] id1 by (rule same_identity_trans)
      show ?thesis
      proof (cases "u_entry r")
        case None
        then show ?thesis using False other id1 by (simp add: key' h l0 Let_def del: get_or_decode.simps)
      next
        case (Some following)
        have f: "u_status r = DECODE_OK" "matching_entry key' following (w_cache w1)"
          using sound Some by (auto simp: lookup_sound_def)
        have m: "matching_entry key' following (w_cache w2)" using f(2) same_identity_matching[OF kept_identity[OF kept2]] by simp
        have "same_identity e (w_cache (prefetch_blocks n (get_or_decode 0 k) protected pc (Suc i) following w2)) (w_cache w2)"
        proof (rule Suc.IH)
          show "cache_ok (w_cache w2)" "blocks_wf (w_cache w2)" using kept_ok[OF ok1(1) kept2] kept_wf[OF kept2 ok1(2)] by simp_all
          show "matching_entry key e (w_cache w2)" using Suc.prems(3) same_identity_matching[OF id2] by simp
          show "e div WAY_COUNT = protected" by (rule Suc.prems(4))
        qed (use m canon next_key Suc.prems(8) in \<open>auto simp: matching_key\<close>)
        from same_identity_trans[OF this id2] show ?thesis
          using False other Some f(1) by (simp add: key' h l0 Let_def w2_def del: get_or_decode.simps)
      qed
    qed
  qed auto
qed simp

lemma get_or_decode_result:
  assumes k: "callbacks_keep k" and ok: "cache_ok (w_cache w)" "blocks_wf (w_cache w)"
    and l: "avz_native_block_cache_get_or_decode k key w = (r, w')" and r: "u_entry r = Some e"
  shows "u_status r = DECODE_OK \<and> matching_entry (avz_canonical_block_key key) e (w_cache w') \<and>
    blocks_wf (w_cache w') \<and> cache_ok (w_cache w')"
proof -
  let ?key = "avz_canonical_block_key key"
  obtain r1 w1 where l1: "lookup_or_decode k ?key w = (r1, w1)" by fastforce
  have r1: "r1 = r" using l unfolding avz_native_block_cache_get_or_decode_def One_nat_def get_or_decode.simps(2)
    by (auto simp: l1 Let_def simp del: get_or_decode.simps split: option.splits if_splits)
  note sound = lookup_is_sound[OF k ok(1) l1, unfolded r1 lookup_sound_def]
  have m: "u_status r = DECODE_OK" "matching_entry ?key e (w_cache w1)" using sound r by auto
  have ok1: "cache_ok (w_cache w1)" "blocks_wf (w_cache w1)"
    using lookup_or_decode_ok[OF k ok(1), of ?key] lookup_wf[OF k ok, of ?key] l1 by simp_all
  have "matching_entry ?key e (w_cache w') \<and> blocks_wf (w_cache w') \<and> cache_ok (w_cache w')"
  proof (cases "\<not> u_fresh r \<or> bc_batch_prefetch_active (w_cache w1) \<or> bc_ram (w_cache w1) = None \<or> bc_batch_prefetch_limit (w_cache w1) = 0")
    case True
    then have "w' = w1"
      using l r unfolding avz_native_block_cache_get_or_decode_def One_nat_def get_or_decode.simps(2)
      by (auto simp: l1 r1 Let_def simp del: get_or_decode.simps)
    then show ?thesis using m ok1 by simp
  next
    case False
    define w2 where "w2 = on_cache (bc_batch_prefetch_active_update (\<lambda>_. True)) w1"
    define w3 where "w3 = prefetch_blocks 256 (get_or_decode 0 k) (e div WAY_COUNT) (k_pc ?key) 0 e w2"
    have w': "w' = on_cache (bc_batch_prefetch_active_update (\<lambda>_. False)) w3"
      using l r False unfolding avz_native_block_cache_get_or_decode_def One_nat_def get_or_decode.simps(2)
      by (auto simp: l1 r1 Let_def w2_def w3_def simp del: get_or_decode.simps)
    have k2: "kept (w_cache w2) (w_cache w1)" unfolding w2_def on_cache_def by (simp, intro keeps)
    have k3: "kept (w_cache w') (w_cache w3)" unfolding w' on_cache_def by (simp, intro keeps)
    have ok2: "cache_ok (w_cache w2)" "blocks_wf (w_cache w2)" using kept_ok[OF ok1(1) k2] kept_wf[OF k2 ok1(2)] by simp_all
    have m2: "matching_entry ?key e (w_cache w2)" using m(2) same_identity_matching[OF kept_identity[OF k2]] by simp
    have "same_identity e (w_cache w3) (w_cache w2)"
      unfolding w3_def
      by (rule prefetch_keeps_block[OF k ok2 m2 refl]) (use m2 canonical_canonical in \<open>auto simp: matching_key\<close>)
    then have "matching_entry ?key e (w_cache w3)" using m2 same_identity_matching by blast
    moreover have "cache_ok (w_cache w3)"
      unfolding w3_def by (rule prefetch_ok[OF get_or_decode_ok[OF k] ok2(1)])
    moreover have "blocks_wf (w_cache w3)"
      unfolding w3_def by (rule prefetch_wf[OF _ ok2]) (use get_or_decode_ok[OF k] get_or_decode_wf[OF k] in blast)
    ultimately show ?thesis
      using same_identity_matching[OF kept_identity[OF k3]] kept_ok[OF _ k3] kept_wf[OF k3] by blast
  qed
  then show ?thesis using m(1) by blast
qed

text \<open>
  C18: a lookup that succeeds returns an entry that is valid when the call returns, with the
  serial number of that entry and a block of at least one instruction for the canonical key that
  was asked for, also after the lookups and decodings of the following blocks that it runs ahead
  of the guest: they neither evict nor discard it.
\<close>

theorem lookup_returns_block_of_key:
  assumes k: "callbacks_keep k" and ok: "cache_ok (w_cache w)" "blocks_wf (w_cache w)"
    and l: "avz_native_block_cache_get_or_decode k key w = (r, w')" and r: "u_entry r = Some e"
  shows "u_status r = DECODE_OK \<and> n_valid (bc_entries (w_cache w') e) \<and>
    avz_native_decoded_block_serial (w_cache w') e = n_serial (bc_entries (w_cache w') e) \<and>
    b_key (block_of (w_cache w') e) = avz_canonical_block_key key \<and> b_instructions (block_of (w_cache w') e) \<noteq> []"
  using get_or_decode_result[OF assms]
  by (auto simp: matching_key matching_entry_def avz_native_decoded_block_serial_def avz_entry_for_block_def blocks_wf_def
      block_wf_def Let_def cache_ok_def)

subsection \<open>A concrete run\<close>

text \<open>
  Sixteen pages of RAM with a \<open>RET\<close> at address \<open>0x1008\<close>, an embedder that maps every address
  to itself, and a cache that is bound to that RAM.
\<close>

definition demo_bytes :: "nat \<Rightarrow> u8" where
  "demo_bytes = (\<lambda>_. 0)(0x1008 := 0xc0, 0x1009 := 0x03, 0x100a := 0x5f, 0x100b := 0xd6)"

definition demo_fetch ::
  "u64 \<Rightarrow> (unit, unit, unit) cache_world \<Rightarrow> (u64 \<times> u32) option \<times> (unit, unit, unit) cache_world" where
  "demo_fetch pc w = (Some (pc, ucast (avz_fast_load (g_bytes (w_memory w)) (unat pc) 4)), w)"

definition demo_callbacks :: "(unit, unit, unit) cache_callbacks" where
  "demo_callbacks = \<lparr>c_fetch = demo_fetch, c_validate_mapping = Some (\<lambda>va pa w. (va = pa, w))\<rparr>"

definition demo_assembler :: "unit assembler" where
  "demo_assembler = \<lparr>g_create = \<lambda>_ _. None, g_capabilities = \<lambda>_. 0, g_program_bytes = \<lambda>_. 0\<rparr>"

definition demo_threader :: "unit threader" where
  "demo_threader = \<lparr>h_create = \<lambda>_ _. None, h_supports_instruction = \<lambda>_. False,
     h_supports_instruction_with_memory = \<lambda>_. False\<rparr>"

definition demo_key :: block_key where
  "demo_key = \<lparr>k_pc = 0x1008, k_sctlr_el1 = 0, k_tcr_el1 = 0, k_ttbr0_el1 = 0, k_ttbr1_el1 = 0, k_current_el = 1\<rparr>"

definition demo_fresh :: "(unit, unit, unit) cache_world" where
  "demo_fresh = \<lparr>w_cache = avz_native_block_cache_create, w_memory = sample_memory\<lparr>g_bytes := demo_bytes\<rparr>, w_context = ()\<rparr>"

definition demo_bound :: "(unit, unit, unit) cache_world" where
  "demo_bound = demo_fresh\<lparr>w_cache := snd (the (avz_native_block_cache_bind_physical_memory 0 0 0x10000 (w_cache demo_fresh)))\<rparr>"

definition demo_lookup :: "lookup \<times> (unit, unit, unit) cache_world" where
  "demo_lookup = avz_native_block_cache_get_or_decode demo_callbacks demo_key demo_bound"

lemma demo_callbacks_keep: "callbacks_keep demo_callbacks"
  by (simp add: callbacks_keep_def demo_callbacks_def demo_fetch_def kept_refl)

lemma demo_bind: "avz_native_block_cache_bind_physical_memory 0 0 0x10000 (w_cache demo_fresh) = Some (True, w_cache demo_bound)"
proof -
  have c: "avz_assembly_clear empty_assembly_cache = Some empty_assembly_cache"
    by (simp add: avz_assembly_clear_def release_queue.simps empty_assembly_cache_def)
  then show ?thesis
    by (simp add: demo_bound_def demo_fresh_def avz_native_block_cache_bind_physical_memory_def Let_def
        avz_native_block_cache_configure_physical_range_def avz_native_block_cache_clear_def avz_assembly_chain_retire_def
        avz_native_block_cache_create_def c)
qed

lemma demo_steps:
  "cache_step demo_callbacks demo_assembler demo_threader demo_fresh demo_bound"
  "cache_step demo_callbacks demo_assembler demo_threader demo_bound (snd demo_lookup)"
  using Bind[OF demo_bind] unfolding demo_lookup_def by (simp add: demo_bound_def demo_fresh_def, intro Lookup)

theorem page_index_invariant_witness: "cache_ok (w_cache (snd demo_lookup))"
proof (rule page_index_invariant[OF demo_callbacks_keep, where w = demo_fresh and a = demo_assembler and h = demo_threader])
  show "fresh_world demo_fresh" by (simp add: fresh_world_def demo_fresh_def)
  show "(cache_step demo_callbacks demo_assembler demo_threader)\<^sup>*\<^sup>* demo_fresh (snd demo_lookup)"
    using demo_steps by (simp add: converse_rtranclp_into_rtranclp r_into_rtranclp)
qed

lemma demo_decode:
  assumes "bc_decode_window (w_cache w) = None" "g_bytes (w_memory w) = demo_bytes"
  shows "\<exists>block w'. avz_decode_block demo_callbacks demo_key w = (DECODE_OK, 0, block, w') \<and> b_instructions block \<noteq> []"
proof -
  let ?i = "(instr_init 0xd65f03c0)\<lparr>i_kind := AVZ_NATIVE_OP_REGISTER_BRANCH, i_rn := 30\<rparr>"
  have d: "avz_native_decode_instruction 0xd65f03c0 = Some ?i" by code_simp
  have f: "avz_fast_load demo_bytes 0x1008 4 = 0xd65f03c0" by (simp add: avz_fast_load_def demo_bytes_def upt_rec)
  have e: "\<not> avz_instruction_requires_vm_exit 0xd65f03c0 AVZ_NATIVE_OP_REGISTER_BRANCH"
    "ends_block 0xd65f03c0 AVZ_NATIVE_OP_REGISTER_BRANCH"
    by (simp_all add: avz_instruction_requires_vm_exit_def matches_def ends_block_def avz_native_kind_terminates_block_def)
  have sixteen: "(16 :: nat) = Suc 15" by simp
  have none: "b_instructions empty_block = []" by (simp add: empty_block_def)
  show ?thesis
    using assms unfolding avz_decode_block_def sixteen decode_loop.simps(2)
    by (simp add: consult_decode_window_def fetch_raw_def demo_callbacks_def demo_fetch_def demo_key_def count_statistic_def
        f d e none append_instruction_fields Let_def split: prod.split)
qed


lemma key_hash_fields:
  "bc_entries (snd (avz_block_key_hash key cache)) = bc_entries cache"
  "bc_front_entries (snd (avz_block_key_hash key cache)) = bc_front_entries cache"
  "bc_decode_window (snd (avz_block_key_hash key cache)) = bc_decode_window cache"
  by (auto simp: avz_block_key_hash_def avz_block_context_hash_def split: option.split prod.split)

lemma demo_bound_fields:
  "bc_entries (w_cache demo_bound) e = empty_entry"
  "bc_front_entries (w_cache demo_bound) i = \<lparr>f_hash = 0, f_entry_index = 0, f_valid = False\<rparr>"
  "bc_decode_window (w_cache demo_bound) = None" "g_bytes (w_memory demo_bound) = demo_bytes"
  using demo_bind
  by (auto simp: avz_native_block_cache_bind_physical_memory_def Let_def demo_fresh_def demo_bound_def
      avz_native_block_cache_configure_physical_range_def avz_native_block_cache_clear_def avz_assembly_chain_retire_def
      avz_native_block_cache_create_def split: if_splits)

lemma demo_found: "\<exists>e. u_entry (fst demo_lookup) = Some e"
proof -
  have key: "avz_canonical_block_key demo_key = demo_key" by (simp add: avz_canonical_block_key_def demo_key_def)
  obtain hash c where h: "avz_block_key_hash demo_key (w_cache demo_bound) = (hash, c)" by fastforce
  have kept: "kept c (w_cache demo_bound)" using key_hash_kept[of demo_key "w_cache demo_bound"] h by simp
  let ?w = "demo_bound\<lparr>w_cache := c\<rparr>"
  have same: "bc_entries c = bc_entries (w_cache demo_bound)" "bc_front_entries c = bc_front_entries (w_cache demo_bound)"
    "bc_decode_window c = bc_decode_window (w_cache demo_bound)"
    using key_hash_fields[of demo_key "w_cache demo_bound"] h by simp_all
  have empty: "\<not> n_valid (bc_entries c e)" "bc_front_entries c i = \<lparr>f_hash = 0, f_entry_index = 0, f_valid = False\<rparr>"
    "bc_decode_window c = None" "g_bytes (w_memory ?w) = demo_bytes" for e i
    by (simp_all add: same demo_bound_fields empty_entry_def)
  have p: "probe_front demo_callbacks demo_key hash ?w = (None, ?w)" by (simp add: probe_front_def empty)
  have q: "probe_ways demo_callbacks demo_key hash (map (\<lambda>way. b + way) [0 ..< WAY_COUNT]) None ?w = (None, Some b, ?w)" for b
    by (simp add: upt_rec probe_entry_def empty Let_def)
  obtain block w' where d: "avz_decode_block demo_callbacks demo_key (on_cache (count_statistic Misses) ?w) = (DECODE_OK, 0, block, w')"
    "b_instructions block \<noteq> []"
    using demo_decode[of "on_cache (count_statistic Misses) ?w"] empty by (auto simp: on_cache_def count_statistic_def)
  have "u_entry (fst (lookup_or_decode demo_callbacks demo_key demo_bound)) = Some (avz_block_set_index hash * WAY_COUNT)"
    using d by (simp add: lookup_or_decode_def h p q Let_def)
  then show ?thesis
    unfolding demo_lookup_def avz_native_block_cache_get_or_decode_def One_nat_def get_or_decode.simps(2) key
    by (auto simp: Let_def split: prod.split option.split)
qed

theorem lookup_returns_block_of_key_witness:
  "\<exists>e. u_entry (fst demo_lookup) = Some e \<and> n_valid (bc_entries (w_cache (snd demo_lookup)) e) \<and>
     b_key (block_of (w_cache (snd demo_lookup)) e) = avz_canonical_block_key demo_key"
proof -
  obtain e where e: "u_entry (fst demo_lookup) = Some e" using demo_found by blast
  have w: "w_cache demo_fresh = avz_native_block_cache_create" by (simp add: demo_fresh_def)
  have "cache_ok (w_cache demo_bound)" using bind_ok[OF create_ok] demo_bind unfolding w by blast
  moreover have "blocks_wf (w_cache demo_bound)" by (simp add: blocks_wf_def demo_bound_fields empty_entry_def)
  ultimately have "n_valid (bc_entries (w_cache (snd demo_lookup)) e) \<and>
      b_key (block_of (w_cache (snd demo_lookup)) e) = avz_canonical_block_key demo_key"
    using lookup_returns_block_of_key[OF demo_callbacks_keep, of demo_bound demo_key "fst demo_lookup" "snd demo_lookup" e] e
    by (simp add: demo_lookup_def)
  then show ?thesis using e by blast
qed

theorem reachable_blocks_well_formed_witness:
  "\<exists>e. n_valid (bc_entries (w_cache (snd demo_lookup)) e) \<and> block_wf (block_of (w_cache (snd demo_lookup)) e)"
proof -
  obtain e where e: "u_entry (fst demo_lookup) = Some e" using demo_found by blast
  have "cache_ok (w_cache demo_bound)" using cache_step_ok[OF demo_callbacks_keep demo_steps(1)] create_ok by (simp add: demo_fresh_def)
  moreover have "blocks_wf (w_cache demo_bound)" by (simp add: blocks_wf_def demo_bound_fields empty_entry_def)
  ultimately have v: "n_valid (bc_entries (w_cache (snd demo_lookup)) e)"
    using get_or_decode_result[OF demo_callbacks_keep, of demo_bound demo_key "fst demo_lookup" "snd demo_lookup" e] e
    by (simp add: demo_lookup_def matching_entry_def)
  have "(cache_step demo_callbacks demo_assembler demo_threader)\<^sup>*\<^sup>* demo_fresh (snd demo_lookup)"
    using demo_steps by (simp add: converse_rtranclp_into_rtranclp r_into_rtranclp)
  from reachable_blocks_well_formed[OF demo_callbacks_keep _ this v] v show ?thesis
    by (auto simp: fresh_world_def demo_fresh_def)
qed

end
