(* ===== verification/FastPath.thy ===== *)
theory FastPath
  imports BlockLookup
begin

text \<open>
  The fast memory path of one processor, \<open>AVZNativeMemoryFastPath\<close> of
  \<open>ARM64VizGuestMemoryInternal.h\<close>, and the part of \<open>ARM64VizGuestMemory.c\<close> that translates guest
  addresses: the set-associative TLBs with their small hot tables in front, the invalidation
  of their entries by time stamps, the journal of invalidations published by other processors,
  the stage 1 walk of the page tables in guest RAM, and the translations of data and
  instruction addresses built on them.

  The three TLBs of the code (\<open>read_tlb\<close>, \<open>write_tlb\<close>, \<open>instruction_tlb\<close>) and their hot tables are
  one field each, indexed by the kind of access. A pointer into the RAM is its offset from
  the start of the RAM, and \<open>None\<close> when it is null. A fast path lives in the context of a
  \<open>cache_world\<close>, beside the block cache and the guest memory that it shares. The callbacks that
  translate an address or report a fault see the context of their embedder only.
\<close>

subsection \<open>State\<close>

datatype memory_access = Access_Instruction | Access_Read | Access_Write

record tlb_entry =
  tlb_virtual_page :: u64
  tlb_physical_page :: u64
  tlb_host_page :: "nat option"
  tlb_contiguous_span :: u16
  tlb_context_tag :: u64
  tlb_generation :: u64
  tlb_tlbi_epoch :: u64
  tlb_asid :: u16
  tlb_global :: bool
  tlb_leaf_shift :: u8
  tlb_valid :: bool

definition empty_tlb_entry :: tlb_entry where
  "empty_tlb_entry = \<lparr>tlb_virtual_page = 0, tlb_physical_page = 0, tlb_host_page = None,
     tlb_contiguous_span = 0, tlb_context_tag = 0, tlb_generation = 0, tlb_tlbi_epoch = 0,
     tlb_asid = 0, tlb_global = False, tlb_leaf_shift = 0, tlb_valid = False\<rparr>"

record stage1_state =
  st_sctlr_el1 :: u64
  st_tcr_el1 :: u64
  st_ttbr0_el1 :: u64
  st_ttbr1_el1 :: u64
  st_current_el :: u8

record thread_registers =
  th_tpidr_el0 :: u64
  th_tpidrro_el0 :: u64
  th_tpidr_el1 :: u64
  th_contextidr_el1 :: u64
  th_dirty_mask :: u32

record architectural_state =
  ar_sp_el0 :: u64
  ar_sp_el1 :: u64
  ar_spsr_el1 :: u64
  ar_elr_el1 :: u64
  ar_esr_el1 :: u64
  ar_far_el1 :: u64
  ar_vbar_el1 :: u64
  ar_counter_ticks :: u64
  ar_cntp_ctl_el0 :: u64
  ar_cntp_cval_el0 :: u64
  ar_cntv_ctl_el0 :: u64
  ar_cntv_cval_el0 :: u64
  ar_timer_cycles_per_instruction :: u64
  ar_dirty_mask :: u32
  ar_pending_irq :: u8

record counter_clock =
  ck_host_anchor :: u64
  ck_counter_anchor :: u64
  ck_frequency :: u32
  ck_numerator :: u32
  ck_denominator :: u32

datatype memory_statistic =
  Read_Hits | Write_Hits | Read_TLB_Hits | Read_TLB_Misses | Write_TLB_Hits | Write_TLB_Misses
| Fill_Hits | Fill_Misses | Local_System_Register_Reads | Local_System_Register_Writes
| Instruction_Fetch_Hits | Instruction_TLB_Hits | Instruction_TLB_Misses
| Instruction_TLB_Hot_Hits | Instruction_TLB_Cold_Misses | Instruction_TLB_Conflict_Misses
| Instruction_TLB_Invalidation_Misses | Native_Page_Table_Walks | Native_Page_Table_Faults
| Translation_Callback_Walks | Physical_Device_Reads | Physical_Device_Writes

type_synonym 'c ram_translator = "'c \<Rightarrow> u64 \<Rightarrow> u8 \<Rightarrow> bool \<Rightarrow> u64 option \<times> 'c"
type_synonym 'c fault_reporter = "'c \<Rightarrow> u64 \<Rightarrow> memory_access \<Rightarrow> u8 \<Rightarrow> u8 \<Rightarrow> 'c"

record 'c fast_path =
  fp_ram :: "nat option"
  fp_ram_base :: u64
  fp_ram_size :: u64
  fp_slow_context :: 'c
  fp_translate_ram :: "'c ram_translator option"
  fp_translate_instruction_ram :: "'c ram_translator option"
  fp_report_translation_fault :: "'c fault_reporter option"
  fp_tlb :: "memory_access \<Rightarrow> nat \<Rightarrow> tlb_entry"
  fp_hot :: "memory_access \<Rightarrow> nat \<Rightarrow> tlb_entry"
  fp_replacement :: "memory_access \<Rightarrow> nat \<Rightarrow> u8"
  fp_instruction_hot_replacement :: u8
  fp_dirty_hot :: "nat \<Rightarrow> dirty_hot_entry"
  fp_thread_registers :: thread_registers
  fp_architectural_state :: architectural_state
  fp_counter_clock :: counter_clock
  fp_counter_refresh_instructions :: u64
  fp_translation_state :: stage1_state
  fp_low_translation_context_tag :: u64
  fp_high_translation_context_tag :: u64
  fp_low_translation_context_hash :: u64
  fp_high_translation_context_hash :: u64
  fp_translation_generation :: u64
  fp_hot_translation_generation :: u64
  fp_tlbi_epoch :: u64
  fp_asid_tlbi_epochs :: "u16 \<Rightarrow> u64"
  fp_va_asid_tlbi_epochs :: "nat \<Rightarrow> u64"
  fp_va_all_tlbi_epochs :: "nat \<Rightarrow> u64"
  fp_va_global_tlbi_epochs :: "nat \<Rightarrow> u64"
  fp_observed_shared_translation_epoch :: u64
  fp_translation_asid :: u16
  fp_native_translation_enabled :: bool
  fp_translation_fault_pending :: bool
  fp_detailed_statistics_enabled :: bool
  fp_direct_bulk_mapping_enabled :: bool
  fp_exclusive_expected :: "(u64 \<times> u8 \<times> u8 \<times> u64 \<times> u64) option"
  fp_statistics :: "memory_statistic \<Rightarrow> u64"
  fp_has_guest_memory :: bool

type_synonym ('p, 'q, 'c) fast_world = "('p, 'q, 'c fast_path) cache_world"

definition count_memory_statistic :: "memory_statistic \<Rightarrow> 'c fast_path \<Rightarrow> 'c fast_path" where
  "count_memory_statistic field fp =
     (if fp_detailed_statistics_enabled fp
      then fp\<lparr>fp_statistics := (fp_statistics fp)(field := fp_statistics fp field + 1)\<rparr> else fp)"

definition on_path :: "('c fast_path \<Rightarrow> 'c fast_path) \<Rightarrow> ('p, 'q, 'c) fast_world \<Rightarrow> ('p, 'q, 'c) fast_world" where
  "on_path f w = w\<lparr>w_context := f (w_context w)\<rparr>"

abbreviation (input) FAST_PAGE_SIZE :: u64 where "FAST_PAGE_SIZE \<equiv> 4096"
abbreviation (input) TLB_WAYS :: "nat list" where "TLB_WAYS \<equiv> [0 ..< 4]"

subsection \<open>Invalidation\<close>

definition avz_fast_clear_hot_tlbs :: "'c fast_path \<Rightarrow> 'c fast_path" where
  "avz_fast_clear_hot_tlbs fp =
     (let generation = fp_hot_translation_generation fp + 1
      in if generation = 0
         then fp\<lparr>fp_hot := \<lambda>_ _. empty_tlb_entry, fp_hot_translation_generation := 1\<rparr>
         else fp\<lparr>fp_hot_translation_generation := generation\<rparr>)"

definition avz_fast_clear_tlbs :: "'c fast_path \<Rightarrow> 'c fast_path" where
  "avz_fast_clear_tlbs fp =
     (let fp = avz_fast_clear_hot_tlbs fp;
          fp = fp\<lparr>fp_translation_generation := fp_translation_generation fp + 1\<rparr>
      in if fp_translation_generation fp = 0
         then fp\<lparr>fp_tlb := \<lambda>_ _. empty_tlb_entry, fp_translation_generation := 1,
                 fp_hot := \<lambda>_ _. empty_tlb_entry\<rparr>
         else fp)"

definition avz_tlbi_va_slot :: "u64 \<Rightarrow> u8 \<Rightarrow> u16 \<Rightarrow> nat" where
  "avz_tlbi_va_slot address shift asid =
     (let key = shr (address AND 0x00ffffffffffffff) (unat shift);
          key = key XOR (ucast asid * 0x9e3779b97f4a7c15);
          key = key XOR (ucast shift * 0xbf58476d1ce4e5b9);
          key = key XOR shr key 23;
          key = key XOR shr key 12
      in unat (key AND (4096 - 1)))"

definition tlb_entry_stale :: "'c fast_path \<Rightarrow> tlb_entry \<Rightarrow> bool" where
  "tlb_entry_stale fp entry =
     (let epoch = tlb_tlbi_epoch entry;
          address = shl (tlb_virtual_page entry) 12;
          va_slot = avz_tlbi_va_slot address (tlb_leaf_shift entry) 0;
          stale = (tlb_leaf_shift entry = 0 \<or> fp_va_all_tlbi_epochs fp va_slot > epoch)
      in if tlb_global entry then stale \<or> fp_va_global_tlbi_epochs fp va_slot > epoch
         else stale \<or> fp_asid_tlbi_epochs fp (tlb_asid entry) > epoch \<or>
              fp_va_asid_tlbi_epochs fp
                (avz_tlbi_va_slot address (tlb_leaf_shift entry) (tlb_asid entry)) > epoch)"

definition avz_native_fast_revalidate_tlb_entry ::
  "'c fast_path \<Rightarrow> tlb_entry \<Rightarrow> bool \<times> tlb_entry" where
  "avz_native_fast_revalidate_tlb_entry fp entry =
     (if tlb_entry_stale fp entry then (False, entry\<lparr>tlb_valid := False\<rparr>)
      else (True, entry\<lparr>tlb_tlbi_epoch := fp_tlbi_epoch fp\<rparr>))"

definition avz_native_fast_tlb_entry_is_current ::
  "'c fast_path \<Rightarrow> tlb_entry \<Rightarrow> bool \<times> tlb_entry" where
  "avz_native_fast_tlb_entry_is_current fp entry =
     (if \<not> tlb_global entry \<and> tlb_asid entry \<noteq> fp_translation_asid fp then (False, entry)
      else if tlb_tlbi_epoch entry = fp_tlbi_epoch fp then (True, entry)
      else avz_native_fast_revalidate_tlb_entry fp entry)"

text \<open>The extents of pages and blocks, with and without the contiguous hint.\<close>

definition tlbi_shifts :: "u8 list" where
  "tlbi_shifts = [12, 16, 21, 25, 30, 34, 39, 43]"

definition record_va_tlbi :: "tlbi \<Rightarrow> u64 \<Rightarrow> u8 \<Rightarrow> 'c fast_path \<Rightarrow> 'c fast_path" where
  "record_va_tlbi invalidation epoch shift fp =
     (let slot = avz_tlbi_va_slot (tlbi_virtual_address invalidation) shift 0
      in if tlbi_kind invalidation = TLBI_VA_ALL_ASIDS
         then fp\<lparr>fp_va_all_tlbi_epochs := (fp_va_all_tlbi_epochs fp)(slot := epoch)\<rparr>
         else
           let fp = fp\<lparr>fp_va_global_tlbi_epochs := (fp_va_global_tlbi_epochs fp)(slot := epoch)\<rparr>;
               slot = avz_tlbi_va_slot (tlbi_virtual_address invalidation) shift (tlbi_asid invalidation)
           in fp\<lparr>fp_va_asid_tlbi_epochs := (fp_va_asid_tlbi_epochs fp)(slot := epoch)\<rparr>)"

definition advance_tlbi_epoch :: "'c fast_path \<Rightarrow> 'c fast_path" where
  "advance_tlbi_epoch fp =
     (let fp = fp\<lparr>fp_tlbi_epoch := fp_tlbi_epoch fp + 1\<rparr>
      in if fp_tlbi_epoch fp = 0
         then (avz_fast_clear_tlbs fp)\<lparr>fp_asid_tlbi_epochs := \<lambda>_. 0, fp_va_asid_tlbi_epochs := \<lambda>_. 0,
                fp_va_all_tlbi_epochs := \<lambda>_. 0, fp_va_global_tlbi_epochs := \<lambda>_. 0, fp_tlbi_epoch := 1\<rparr>
         else fp)"

definition avz_fast_apply_tlbi_entries :: "tlbi \<Rightarrow> 'c fast_path \<Rightarrow> 'c fast_path" where
  "avz_fast_apply_tlbi_entries invalidation fp =
     (if tlbi_kind invalidation = TLBI_ALL \<or> tlbi_kind invalidation > TLBI_VA_ALL_ASIDS
      then avz_fast_clear_tlbs fp
      else
        let fp = advance_tlbi_epoch (avz_fast_clear_hot_tlbs fp);
            epoch = fp_tlbi_epoch fp
        in if tlbi_kind invalidation = TLBI_ASID
           then fp\<lparr>fp_asid_tlbi_epochs := (fp_asid_tlbi_epochs fp)(tlbi_asid invalidation := epoch)\<rparr>
           else fold (record_va_tlbi invalidation epoch) tlbi_shifts fp)"

definition avz_fast_invalidate_decoded_mappings ::
  "('p, 'q, 'c) fast_world \<Rightarrow> ('p, 'q, 'c) fast_world" where
  "avz_fast_invalidate_decoded_mappings =
     on_cache avz_native_block_cache_invalidate_translation_mappings"

definition avz_native_memory_fast_path_apply_tlbi ::
  "tlbi \<Rightarrow> ('p, 'q, 'c) fast_world \<Rightarrow> ('p, 'q, 'c) fast_world" where
  "avz_native_memory_fast_path_apply_tlbi invalidation w =
     (let w = on_path (avz_fast_apply_tlbi_entries invalidation) w;
          w = avz_fast_invalidate_decoded_mappings w
      in on_path (fp_translation_fault_pending_update (\<lambda>_. False)) w)"

text \<open>The invalidations that this processor has not observed yet; everything when it lags too far.\<close>

definition pending_tlbis :: "guest_memory \<Rightarrow> u64 \<Rightarrow> tlbi list" where
  "pending_tlbis memory observed =
     (let epoch = g_translation_epoch memory
      in if epoch < observed \<or> epoch - observed > 64 then [empty_tlbi]
         else map (\<lambda>index. g_translation_journal memory (unat ((observed + word_of_nat index) mod 64)))
                [1 ..< Suc (unat (epoch - observed))])"

fun apply_tlbis :: "tlbi list \<Rightarrow> 'c fast_path \<Rightarrow> 'c fast_path" where
  "apply_tlbis [] fp = fp"
| "apply_tlbis (invalidation # pending) fp =
     (let fp = avz_fast_apply_tlbi_entries invalidation fp
      in if tlbi_kind invalidation = TLBI_ALL then fp else apply_tlbis pending fp)"

definition avz_fast_synchronize_shared_translation_epoch ::
  "('p, 'q, 'c) fast_world \<Rightarrow> ('p, 'q, 'c) fast_world" where
  "avz_fast_synchronize_shared_translation_epoch w =
     (let epoch = g_translation_epoch (w_memory w);
          observed = fp_observed_shared_translation_epoch (w_context w)
      in if \<not> fp_has_guest_memory (w_context w) \<or> epoch = observed then w
         else
           let pending = pending_tlbis (w_memory w) observed;
               w = on_path (apply_tlbis pending) w;
               w = (if pending \<noteq> [] then avz_fast_invalidate_decoded_mappings w else w)
           in on_path (fp_observed_shared_translation_epoch_update (\<lambda>_. epoch)) w)"

subsection \<open>Translation contexts\<close>

definition avz_stage1_translation_geometry_equal :: "stage1_state \<Rightarrow> stage1_state \<Rightarrow> bool" where
  "avz_stage1_translation_geometry_equal lhs rhs =
     (st_sctlr_el1 lhs = st_sctlr_el1 rhs \<and> st_tcr_el1 lhs = st_tcr_el1 rhs)"

definition avz_stage1_translation_state_equal :: "stage1_state \<Rightarrow> stage1_state \<Rightarrow> bool" where
  "avz_stage1_translation_state_equal lhs rhs =
     (st_sctlr_el1 lhs = st_sctlr_el1 rhs \<and> st_tcr_el1 lhs = st_tcr_el1 rhs \<and>
      st_ttbr0_el1 lhs = st_ttbr0_el1 rhs \<and> st_ttbr1_el1 lhs = st_ttbr1_el1 rhs \<and>
      st_current_el lhs = st_current_el rhs)"

definition avz_fast_mix_u64 :: "u64 \<Rightarrow> u64" where
  "avz_fast_mix_u64 v =
     (let v = v XOR shr v 30;
          v = v * 0xbf58476d1ce4e5b9;
          v = v XOR shr v 27;
          v = v * 0x94d049bb133111eb
      in v XOR shr v 31)"

definition avz_stage1_asid :: "stage1_state \<Rightarrow> u16" where
  "avz_stage1_asid state =
     (let ttbr = (if st_tcr_el1 state AND shl 1 22 \<noteq> 0 then st_ttbr1_el1 state else st_ttbr0_el1 state);
          asid = ucast (shr ttbr 48) :: u16
      in if st_tcr_el1 state AND shl 1 36 \<noteq> 0 then asid else asid AND 0xff)"

abbreviation (input) STAGE1_OUTPUT_ADDRESS_MASK :: u64 where "STAGE1_OUTPUT_ADDRESS_MASK \<equiv> 0x0000fffffffff000"

definition avz_fast_translation_context_tag_for_ttbr :: "stage1_state \<Rightarrow> u64 \<Rightarrow> u64" where
  "avz_fast_translation_context_tag_for_ttbr state ttbr =
     (let hash = avz_fast_mix_u64 (st_sctlr_el1 state);
          hash = hash XOR avz_fast_mix_u64 (st_tcr_el1 state);
          hash = hash XOR avz_fast_mix_u64 (ttbr AND STAGE1_OUTPUT_ADDRESS_MASK);
          hash = hash XOR avz_fast_mix_u64 (ucast (st_current_el state))
      in avz_fast_mix_u64 hash)"

definition avz_fast_refresh_translation_context_tags :: "'c fast_path \<Rightarrow> 'c fast_path" where
  "avz_fast_refresh_translation_context_tags fp =
     (let state = fp_translation_state fp;
          asid = avz_stage1_asid state;
          fp = (if asid \<noteq> fp_translation_asid fp then avz_fast_clear_hot_tlbs fp else fp);
          low = avz_fast_translation_context_tag_for_ttbr state (st_ttbr0_el1 state);
          high = avz_fast_translation_context_tag_for_ttbr state (st_ttbr1_el1 state)
      in fp\<lparr>fp_translation_asid := asid,
            fp_low_translation_context_tag := low,
            fp_high_translation_context_tag := high,
            fp_low_translation_context_hash := avz_fast_mix_u64 low,
            fp_high_translation_context_hash := avz_fast_mix_u64 high\<rparr>)"

definition avz_fast_translation_context_tag :: "'c fast_path \<Rightarrow> u64 \<Rightarrow> u64" where
  "avz_fast_translation_context_tag fp virtual_address =
     (if \<not> fp_native_translation_enabled fp then 0
      else if shr virtual_address 63 \<noteq> 0 then fp_high_translation_context_tag fp
      else fp_low_translation_context_tag fp)"

definition avz_fast_translation_context_hash :: "'c fast_path \<Rightarrow> u64 \<Rightarrow> u64" where
  "avz_fast_translation_context_hash fp virtual_address =
     (if \<not> fp_native_translation_enabled fp then 0
      else if shr virtual_address 63 \<noteq> 0 then fp_high_translation_context_hash fp
      else fp_low_translation_context_hash fp)"

subsection \<open>The stage 1 walk\<close>

text \<open>
  A walk answers \<open>Inr (address, global, leaf_shift)\<close>, or \<open>Inl (level, status)\<close> where the code
  returns \<open>avz_stage1_fault\<close> with that level and status code.
\<close>

type_synonym walk = "(u8 \<times> u8) + (u64 \<times> bool \<times> u8)"

definition avz_stage1_read_descriptor :: "'c fast_path \<Rightarrow> (nat \<Rightarrow> u8) \<Rightarrow> u64 \<Rightarrow> u64 option" where
  "avz_stage1_read_descriptor fp bytes physical_address =
     (if physical_address < fp_ram_base fp then None
      else
        let offset = physical_address - fp_ram_base fp
        in if offset > fp_ram_size fp \<or> 8 > fp_ram_size fp - offset then None
           else Some (avz_fast_load bytes (unat offset) 8))"

abbreviation (input) FAULT_ADDRESS_SIZE :: u8 where "FAULT_ADDRESS_SIZE \<equiv> 0x00"
abbreviation (input) FAULT_TRANSLATION :: u8 where "FAULT_TRANSLATION \<equiv> 0x04"
abbreviation (input) FAULT_ACCESS_FLAG :: u8 where "FAULT_ACCESS_FLAG \<equiv> 0x08"
abbreviation (input) FAULT_PERMISSION :: u8 where "FAULT_PERMISSION \<equiv> 0x0c"

text \<open>The fault of a leaf descriptor, if it does not allow the access.\<close>

definition avz_stage1_validate_leaf :: "stage1_state \<Rightarrow> u64 \<Rightarrow> memory_access \<Rightarrow> nat \<Rightarrow> (u8 \<times> u8) option" where
  "avz_stage1_validate_leaf state descriptor access level =
     (if descriptor AND shl 1 10 = 0 then Some (word_of_nat level, FAULT_ACCESS_FLAG + word_of_nat level)
      else if (st_current_el state = 0 \<and> descriptor AND shl 1 6 = 0) \<or>
              (access = Access_Write \<and> descriptor AND shl 1 7 \<noteq> 0)
      then Some (word_of_nat level, FAULT_PERMISSION + word_of_nat level)
      else if access = Access_Instruction \<and>
              descriptor AND (if st_current_el state = 0 then shl 1 54 else shl 1 53) \<noteq> 0
      then Some (word_of_nat level, FAULT_PERMISSION + word_of_nat level)
      else None)"

definition stage1_leaf ::
  "stage1_state \<Rightarrow> u64 \<Rightarrow> memory_access \<Rightarrow> nat \<Rightarrow> u64 \<Rightarrow> u8 \<Rightarrow> walk" where
  "stage1_leaf state descriptor access level physical leaf_shift =
     (case avz_stage1_validate_leaf state descriptor access level of
        Some fault \<Rightarrow> Inl fault
      | None \<Rightarrow> Inr (physical, descriptor AND shl 1 11 = 0, leaf_shift))"

fun stage1_levels ::
  "'c fast_path \<Rightarrow> (nat \<Rightarrow> u8) \<Rightarrow> u64 \<Rightarrow> memory_access \<Rightarrow> nat list \<Rightarrow> u64 \<Rightarrow> walk" where
  "stage1_levels fp bytes effective_address access [] current_table = Inl (3, FAULT_TRANSLATION + 3)"
| "stage1_levels fp bytes effective_address access (level # levels) current_table =
     (let shift = 39 - level * 9;
          index = shr effective_address shift AND 0x1ff;
          fault = Inl (word_of_nat level, FAULT_TRANSLATION + word_of_nat level);
          state = fp_translation_state fp
      in if current_table > - 1 - index * 8 then fault
         else case avz_stage1_read_descriptor fp bytes (current_table + index * 8) of
           None \<Rightarrow> fault
         | Some descriptor \<Rightarrow>
             if descriptor AND 1 = 0 then fault
             else if level = 3 then
               if descriptor AND 3 \<noteq> 3 then fault
               else stage1_leaf state descriptor access level
                      ((descriptor AND STAGE1_OUTPUT_ADDRESS_MASK) OR (effective_address AND 4095))
                      (if descriptor AND shl 1 52 \<noteq> 0 then 16 else 12)
             else if descriptor AND 3 = 1 then
               let offset_mask = shl 1 shift - 1
               in stage1_leaf state descriptor access level
                    ((descriptor AND STAGE1_OUTPUT_ADDRESS_MASK AND NOT offset_mask) OR
                     (effective_address AND offset_mask))
                    (word_of_nat shift + (if descriptor AND shl 1 52 \<noteq> 0 then 4 else 0))
             else if descriptor AND 3 \<noteq> 3 then fault
             else stage1_levels fp bytes effective_address access levels
                    (descriptor AND STAGE1_OUTPUT_ADDRESS_MASK))"

definition stage1_walk :: "'c fast_path \<Rightarrow> (nat \<Rightarrow> u8) \<Rightarrow> u64 \<Rightarrow> memory_access \<Rightarrow> walk" where
  "stage1_walk fp bytes virtual_address access =
     (let state = fp_translation_state fp;
          uses_ttbr1 = (shr virtual_address 63 \<noteq> 0);
          tsz = unat (shr (st_tcr_el1 state) (if uses_ttbr1 then 16 else 0) AND 0x3f);
          input_address_size = 64 - tsz
      in if input_address_size = 0 \<or> input_address_size > 48 then Inl (0, FAULT_ADDRESS_SIZE)
         else
           let ttbr = (if uses_ttbr1 then st_ttbr1_el1 state else st_ttbr0_el1 state);
               current_table = ttbr AND STAGE1_OUTPUT_ADDRESS_MASK
           in if current_table = 0 then Inl (0, FAULT_TRANSLATION)
              else stage1_levels fp bytes (virtual_address AND (shl 1 input_address_size - 1))
                     access [0, 1, 2, 3] current_table)"

datatype stage1_result = Stage1_Fault | Stage1_Success u64 bool u8 | Stage1_Unavailable

definition avz_stage1_fault ::
  "u64 \<Rightarrow> memory_access \<Rightarrow> u8 \<Rightarrow> u8 \<Rightarrow> 'c fast_path \<Rightarrow> 'c fast_path" where
  "avz_stage1_fault virtual_address access level status_code fp =
     (let fp = count_memory_statistic Native_Page_Table_Faults (fp\<lparr>fp_translation_fault_pending := True\<rparr>)
      in case fp_report_translation_fault fp of
           None \<Rightarrow> fp
         | Some report \<Rightarrow>
             fp\<lparr>fp_slow_context := report (fp_slow_context fp) virtual_address access level status_code\<rparr>)"

definition avz_stage1_translate ::
  "(nat \<Rightarrow> u8) \<Rightarrow> u64 \<Rightarrow> memory_access \<Rightarrow> 'c fast_path \<Rightarrow> stage1_result \<times> 'c fast_path" where
  "avz_stage1_translate bytes virtual_address access fp =
     (if \<not> fp_native_translation_enabled fp then (Stage1_Unavailable, fp)
      else if st_sctlr_el1 (fp_translation_state fp) AND 1 = 0
      then (Stage1_Success virtual_address False 0, fp)
      else
        let fp = count_memory_statistic Native_Page_Table_Walks fp
        in case stage1_walk fp bytes virtual_address access of
             Inl (level, status_code) \<Rightarrow>
               (Stage1_Fault, avz_stage1_fault virtual_address access level status_code fp)
           | Inr (physical, global, leaf_shift) \<Rightarrow> (Stage1_Success physical global leaf_shift, fp))"

text \<open>The physical address with the ASID, the global flag and the extent of its mapping.\<close>

definition avz_resolve_translation ::
  "(nat \<Rightarrow> u8) \<Rightarrow> u64 \<Rightarrow> u8 \<Rightarrow> memory_access \<Rightarrow> 'c ram_translator option \<Rightarrow> 'c fast_path \<Rightarrow>
   (u64 \<times> u16 \<times> bool \<times> u8) option \<times> 'c fast_path" where
  "avz_resolve_translation bytes virtual_address width access fallback fp =
     (let asid = avz_stage1_asid (fp_translation_state fp)
      in case avz_stage1_translate bytes virtual_address access fp of
           (Stage1_Success physical global leaf_shift, fp) \<Rightarrow> (Some (physical, asid, global, leaf_shift), fp)
         | (Stage1_Fault, fp) \<Rightarrow> (None, fp)
         | (Stage1_Unavailable, fp) \<Rightarrow>
             let fp = count_memory_statistic Translation_Callback_Walks fp
             in case fallback of
                  None \<Rightarrow> (None, fp)
                | Some translate \<Rightarrow>
                    let (physical, context) =
                          translate (fp_slow_context fp) virtual_address width (access = Access_Write);
                        fp = fp\<lparr>fp_slow_context := context\<rparr>
                    in (map_option (\<lambda>physical. (physical, asid, False, 0)) physical, fp))"

subsection \<open>Translation of data addresses\<close>

definition avz_fast_width_supported :: "u8 \<Rightarrow> bool" where
  "avz_fast_width_supported width = (width = 1 \<or> width = 2 \<or> width = 4 \<or> width = 8)"

datatype fast_translation =
  Translation_Failed
| Translation_RAM (ram_physical: u64) (ram_host: nat)
| Translation_Physical u64

definition set_tlb :: "memory_access \<Rightarrow> nat \<Rightarrow> tlb_entry \<Rightarrow> 'c fast_path \<Rightarrow> 'c fast_path" where
  "set_tlb access slot entry fp =
     fp\<lparr>fp_tlb := (fp_tlb fp)(access := (fp_tlb fp access)(slot := entry))\<rparr>"

definition set_hot :: "memory_access \<Rightarrow> nat \<Rightarrow> tlb_entry \<Rightarrow> 'c fast_path \<Rightarrow> 'c fast_path" where
  "set_hot access slot entry fp =
     fp\<lparr>fp_hot := (fp_hot fp)(access := (fp_hot fp access)(slot := entry))\<rparr>"

definition set_replacement :: "memory_access \<Rightarrow> nat \<Rightarrow> u8 \<Rightarrow> 'c fast_path \<Rightarrow> 'c fast_path" where
  "set_replacement access slot way fp =
     fp\<lparr>fp_replacement := (fp_replacement fp)(access := (fp_replacement fp access)(slot := way))\<rparr>"

definition page_offset_of :: "u64 \<Rightarrow> u64" where
  "page_offset_of virtual_address = virtual_address AND (FAST_PAGE_SIZE - 1)"

definition hot_index_of :: "u64 \<Rightarrow> u64 \<Rightarrow> nat" where
  "hot_index_of virtual_page context_tag =
     unat ((virtual_page XOR shr context_tag 12) AND (1024 - 1))"

definition tlb_set_of :: "'c fast_path \<Rightarrow> u64 \<Rightarrow> nat" where
  "tlb_set_of fp virtual_address =
     (let virtual_page = shr virtual_address 12;
          page_hash = virtual_page XOR shr virtual_page 11 XOR shr virtual_page 23 XOR
            avz_fast_translation_context_hash fp virtual_address
      in unat (page_hash AND (4096 - 1)))"

text \<open>The comparison of a hot entry, and of a way of the TLB, with an access of the page.\<close>

definition entry_matches :: "tlb_entry \<Rightarrow> u64 \<Rightarrow> u64 \<Rightarrow> u64 \<Rightarrow> u64 \<Rightarrow> bool" where
  "entry_matches entry generation span virtual_page context_tag =
     (tlb_valid entry \<and> tlb_generation entry = generation \<and>
      ucast (tlb_contiguous_span entry) \<ge> span \<and> tlb_virtual_page entry = virtual_page \<and>
      tlb_context_tag entry = context_tag)"

definition data_hits :: "memory_access \<Rightarrow> memory_statistic" where
  "data_hits access = (if access = Access_Write then Write_TLB_Hits else Read_TLB_Hits)"

definition data_misses :: "memory_access \<Rightarrow> memory_statistic" where
  "data_misses access = (if access = Access_Write then Write_TLB_Misses else Read_TLB_Misses)"

text \<open>The ways of a set: the way that hits, else the first invalid way.\<close>

fun search_ways ::
  "memory_access \<Rightarrow> nat \<Rightarrow> u64 \<Rightarrow> u64 \<Rightarrow> u64 \<Rightarrow> nat list \<Rightarrow> nat option \<Rightarrow> 'c fast_path \<Rightarrow>
   nat option \<times> nat option \<times> 'c fast_path" where
  "search_ways access base span virtual_page context_tag [] first_invalid fp = (None, first_invalid, fp)"
| "search_ways access base span virtual_page context_tag (way # ways) first_invalid fp =
     (let slot = base + way;
          candidate = fp_tlb fp access slot;
          (hit, candidate) =
            (if entry_matches candidate (fp_translation_generation fp) span virtual_page context_tag
             then avz_native_fast_tlb_entry_is_current fp candidate else (False, candidate));
          fp = set_tlb access slot candidate fp
      in if hit then (Some slot, first_invalid, fp)
         else
           let first_invalid = (if \<not> tlb_valid candidate \<and> first_invalid = None then Some slot else first_invalid)
           in search_ways access base span virtual_page context_tag ways first_invalid fp)"

definition choose_way ::
  "memory_access \<Rightarrow> nat \<Rightarrow> nat option \<Rightarrow> 'c fast_path \<Rightarrow> nat \<times> 'c fast_path" where
  "choose_way access tlb_set first_invalid fp =
     (case first_invalid of
        Some slot \<Rightarrow> (slot, fp)
      | None \<Rightarrow>
          let way = fp_replacement fp access tlb_set AND (4 - 1)
          in (tlb_set * 4 + unat way, set_replacement access tlb_set ((way + 1) AND (4 - 1)) fp))"

definition host_of_page :: "'c fast_path \<Rightarrow> u64 \<Rightarrow> nat option" where
  "host_of_page fp physical_page =
     (if physical_page \<ge> fp_ram_base fp \<and> physical_page - fp_ram_base fp < fp_ram_size fp
      then Some (unat (physical_page - fp_ram_base fp)) else None)"

definition contiguous_span_of :: "'c fast_path \<Rightarrow> u64 \<Rightarrow> u16" where
  "contiguous_span_of fp physical_page =
     (if host_of_page fp physical_page = None then 4096
      else
        let ram_remaining = fp_ram_size fp - (physical_page - fp_ram_base fp)
        in ucast (if FAST_PAGE_SIZE > ram_remaining then ram_remaining else FAST_PAGE_SIZE))"

definition new_tlb_entry ::
  "'c fast_path \<Rightarrow> u64 \<Rightarrow> u64 \<Rightarrow> u64 \<Rightarrow> nat option \<Rightarrow> u16 \<Rightarrow> u16 \<times> bool \<times> u8 \<Rightarrow> tlb_entry" where
  "new_tlb_entry fp virtual_page context_tag physical_page host_page span metadata =
     \<lparr>tlb_virtual_page = virtual_page, tlb_physical_page = physical_page, tlb_host_page = host_page,
      tlb_contiguous_span = span, tlb_context_tag = context_tag,
      tlb_generation = fp_translation_generation fp, tlb_tlbi_epoch = fp_tlbi_epoch fp,
      tlb_asid = fst metadata, tlb_global = fst (snd metadata), tlb_leaf_shift = snd (snd metadata),
      tlb_valid = True\<rparr>"

text \<open>What follows the label \<open>translated\<close>.\<close>

definition finish_translation ::
  "'c fast_path \<Rightarrow> u64 \<Rightarrow> u8 \<Rightarrow> u64 \<Rightarrow> nat option \<Rightarrow> fast_translation" where
  "finish_translation fp page_offset width physical_page host_page =
     (if physical_page > - 1 - page_offset then Translation_Failed
      else
        let physical_address = physical_page + page_offset
        in case host_page of
             None \<Rightarrow> Translation_Physical physical_address
           | Some host \<Rightarrow>
               if physical_page < fp_ram_base fp then Translation_Physical physical_address
               else
                 let offset = physical_page - fp_ram_base fp + page_offset
                 in if offset > fp_ram_size fp \<or> ucast width > fp_ram_size fp - offset
                    then Translation_Physical physical_address
                    else Translation_RAM physical_address (host + unat page_offset))"

text \<open>
  A miss of the hot table: search the set, else resolve the address and fill a way; either way
  the entry is copied into the hot table.
\<close>

definition fill_data_way ::
  "(nat \<Rightarrow> u8) \<Rightarrow> u64 \<Rightarrow> u8 \<Rightarrow> memory_access \<Rightarrow> u64 \<Rightarrow> nat option \<Rightarrow> 'c fast_path \<Rightarrow>
   nat option \<times> 'c fast_path" where
  "fill_data_way bytes virtual_address width access context_tag first_invalid fp =
     (let page_offset = page_offset_of virtual_address;
          tlb_set = tlb_set_of fp virtual_address;
          fp = count_memory_statistic (data_misses access) fp
      in case avz_resolve_translation bytes virtual_address width access (fp_translate_ram fp) fp of
           (None, fp) \<Rightarrow> (None, fp)
         | (Some (translated, metadata), fp) \<Rightarrow>
             if translated < page_offset then (None, fp)
             else
               let physical_page = translated - page_offset;
                   (slot, fp) = choose_way access tlb_set first_invalid fp;
                   entry = new_tlb_entry fp (shr virtual_address 12) context_tag physical_page
                     (host_of_page fp physical_page) (contiguous_span_of fp physical_page) metadata
               in (Some slot, set_tlb access slot entry fp))"

definition avz_fast_translate_cold ::
  "(nat \<Rightarrow> u8) \<Rightarrow> u64 \<Rightarrow> u8 \<Rightarrow> memory_access \<Rightarrow> 'c fast_path \<Rightarrow> fast_translation \<times> 'c fast_path" where
  "avz_fast_translate_cold bytes virtual_address width access fp =
     (if fp_ram fp = None \<or> \<not> avz_fast_width_supported width then (Translation_Failed, fp)
      else
        let page_offset = page_offset_of virtual_address;
            span = page_offset + ucast width
        in if span > FAST_PAGE_SIZE then (Translation_Failed, fp)
           else
             let virtual_page = shr virtual_address 12;
                 context_tag = avz_fast_translation_context_tag fp virtual_address;
                 hot_index = hot_index_of virtual_page context_tag;
                 hot = fp_hot fp access hot_index
             in if entry_matches hot (fp_hot_translation_generation fp) span virtual_page context_tag
                then
                  (finish_translation fp page_offset width (tlb_physical_page hot) (tlb_host_page hot),
                   count_memory_statistic (data_hits access) fp)
                else
                  let (found, first_invalid, fp) =
                        search_ways access (tlb_set_of fp virtual_address * 4) span virtual_page
                          context_tag TLB_WAYS None fp;
                      (slot, fp) =
                        (case found of
                           Some slot \<Rightarrow> (Some slot, count_memory_statistic (data_hits access) fp)
                         | None \<Rightarrow>
                             fill_data_way bytes virtual_address width access context_tag first_invalid fp)
                  in case slot of
                       None \<Rightarrow> (Translation_Failed, fp)
                     | Some slot \<Rightarrow>
                         let entry = fp_tlb fp access slot;
                             fp = set_hot access hot_index
                               (entry\<lparr>tlb_generation := fp_hot_translation_generation fp\<rparr>) fp
                         in (finish_translation fp page_offset width (tlb_physical_page entry)
                               (tlb_host_page entry), fp))"

definition translate_on_path ::
  "((nat \<Rightarrow> u8) \<Rightarrow> 'c fast_path \<Rightarrow> 'r \<times> 'c fast_path) \<Rightarrow> ('p, 'q, 'c) fast_world \<Rightarrow> 'r \<times> ('p, 'q, 'c) fast_world" where
  "translate_on_path f w =
     (let (r, fp) = f (g_bytes (w_memory w)) (w_context w) in (r, w\<lparr>w_context := fp\<rparr>))"

definition fast_translate_hot ::
  "(nat \<Rightarrow> u8) \<Rightarrow> u64 \<Rightarrow> u8 \<Rightarrow> memory_access \<Rightarrow> 'c fast_path \<Rightarrow> fast_translation \<times> 'c fast_path" where
  "fast_translate_hot bytes virtual_address width access fp =
     (let page_offset = page_offset_of virtual_address;
          span = page_offset + ucast width
      in if span > FAST_PAGE_SIZE then (Translation_Failed, fp)
         else
           let virtual_page = shr virtual_address 12;
               context_tag = avz_fast_translation_context_tag fp virtual_address;
               hot = fp_hot fp access (hot_index_of virtual_page context_tag)
           in if entry_matches hot (fp_hot_translation_generation fp) span virtual_page context_tag
              then
                let fp = count_memory_statistic (data_hits access) fp
                in (case tlb_host_page hot of
                      Some host \<Rightarrow>
                        (Translation_RAM (tlb_physical_page hot + page_offset) (host + unat page_offset), fp)
                    | None \<Rightarrow>
                        if tlb_physical_page hot > - 1 - page_offset then (Translation_Failed, fp)
                        else (Translation_Physical (tlb_physical_page hot + page_offset), fp))
              else avz_fast_translate_cold bytes virtual_address width access fp)"

definition avz_fast_translate ::
  "u64 \<Rightarrow> u8 \<Rightarrow> memory_access \<Rightarrow> ('p, 'q, 'c) fast_world \<Rightarrow> fast_translation \<times> ('p, 'q, 'c) fast_world" where
  "avz_fast_translate virtual_address width access w =
     (if fp_ram (w_context w) = None \<or> \<not> avz_fast_width_supported width then (Translation_Failed, w)
      else translate_on_path (\<lambda>bytes. fast_translate_hot bytes virtual_address width access)
             (avz_fast_synchronize_shared_translation_epoch w))"

subsection \<open>Translation of instruction addresses\<close>

text \<open>The hot entries are searched in order; the instruction TLB by ways, as above.\<close>

definition find_hot_instruction :: "'c fast_path \<Rightarrow> u64 \<Rightarrow> u64 \<Rightarrow> u64 \<Rightarrow> nat option" where
  "find_hot_instruction fp span virtual_page context_tag =
     find (\<lambda>index. entry_matches (fp_hot fp Access_Instruction index)
             (fp_hot_translation_generation fp) span virtual_page context_tag) [0 ..< 16]"

fun search_instruction_ways ::
  "nat \<Rightarrow> u64 \<Rightarrow> u64 \<Rightarrow> nat list \<Rightarrow> nat option \<Rightarrow> bool \<Rightarrow> 'c fast_path \<Rightarrow>
   nat option \<times> nat option \<times> bool \<times> 'c fast_path" where
  "search_instruction_ways base virtual_page context_tag [] first_invalid invalidated fp =
     (None, first_invalid, invalidated, fp)"
| "search_instruction_ways base virtual_page context_tag (way # ways) first_invalid invalidated fp =
     (let slot = base + way;
          generation = fp_translation_generation fp;
          candidate = fp_tlb fp Access_Instruction slot;
          same = (tlb_virtual_page candidate = virtual_page \<and> tlb_context_tag candidate = context_tag);
          (hit, candidate) =
            (if tlb_valid candidate \<and> tlb_generation candidate = generation \<and> same
             then avz_native_fast_tlb_entry_is_current fp candidate else (False, candidate));
          fp = set_tlb Access_Instruction slot candidate fp
      in if hit then (Some slot, first_invalid, invalidated, fp)
         else
           let first_invalid =
                 (if (\<not> tlb_valid candidate \<or> tlb_generation candidate \<noteq> generation) \<and> first_invalid = None
                  then Some slot else first_invalid);
               invalidated =
                 (invalidated \<or> tlb_valid candidate \<and> tlb_generation candidate \<noteq> generation \<and> same)
           in search_instruction_ways base virtual_page context_tag ways first_invalid invalidated fp)"

definition fill_instruction_way ::
  "(nat \<Rightarrow> u8) \<Rightarrow> u64 \<Rightarrow> u64 \<Rightarrow> nat option \<Rightarrow> bool \<Rightarrow> 'c fast_path \<Rightarrow> nat option \<times> 'c fast_path" where
  "fill_instruction_way bytes virtual_address context_tag first_invalid invalidated fp =
     (let page_offset = page_offset_of virtual_address;
          tlb_set = tlb_set_of fp virtual_address;
          fp = count_memory_statistic Instruction_TLB_Misses fp;
          fp = count_memory_statistic
            (if invalidated then Instruction_TLB_Invalidation_Misses
             else if first_invalid \<noteq> None then Instruction_TLB_Cold_Misses
             else Instruction_TLB_Conflict_Misses) fp
      in case avz_resolve_translation bytes virtual_address 4 Access_Instruction
                (fp_translate_instruction_ram fp) fp of
           (None, fp) \<Rightarrow> (None, fp)
         | (Some (translated, metadata), fp) \<Rightarrow>
             if translated < page_offset then (None, fp)
             else
               let physical_page = translated - page_offset
               in case host_of_page fp physical_page of
                    None \<Rightarrow> (None, fp)
                  | Some host_page \<Rightarrow>
                      let (slot, fp) = choose_way Access_Instruction tlb_set first_invalid fp
                      in (Some slot, set_tlb Access_Instruction slot
                            (new_tlb_entry fp (shr virtual_address 12) context_tag physical_page
                               (Some host_page) 4096 metadata) fp))"

text \<open>The entry copied into the next hot slot.\<close>

definition note_hot_instruction :: "tlb_entry \<Rightarrow> 'c fast_path \<Rightarrow> 'c fast_path" where
  "note_hot_instruction entry fp =
     (let hot_slot = fp_instruction_hot_replacement fp AND (16 - 1);
          fp = fp\<lparr>fp_instruction_hot_replacement := (hot_slot + 1) AND (16 - 1)\<rparr>
      in set_hot Access_Instruction (unat hot_slot)
           (entry\<lparr>tlb_generation := fp_hot_translation_generation fp\<rparr>) fp)"

definition lookup_instruction_entry ::
  "(nat \<Rightarrow> u8) \<Rightarrow> u64 \<Rightarrow> 'c fast_path \<Rightarrow> tlb_entry option \<times> 'c fast_path" where
  "lookup_instruction_entry bytes virtual_address fp =
     (let virtual_page = shr virtual_address 12;
          context_tag = avz_fast_translation_context_tag fp virtual_address
      in case find_hot_instruction fp (page_offset_of virtual_address + 4) virtual_page context_tag of
           Some index \<Rightarrow>
             (Some (fp_hot fp Access_Instruction index),
              count_memory_statistic Instruction_TLB_Hot_Hits (count_memory_statistic Instruction_TLB_Hits fp))
         | None \<Rightarrow>
             let (found, first_invalid, invalidated, fp) =
                   search_instruction_ways (tlb_set_of fp virtual_address * 4) virtual_page context_tag
                     TLB_WAYS None False fp;
                 (slot, fp) =
                   (case found of
                      Some slot \<Rightarrow> (Some slot, count_memory_statistic Instruction_TLB_Hits fp)
                    | None \<Rightarrow> fill_instruction_way bytes virtual_address context_tag first_invalid invalidated fp)
             in case slot of
                  None \<Rightarrow> (None, fp)
                | Some slot \<Rightarrow>
                    let entry = fp_tlb fp Access_Instruction slot
                    in (Some entry, note_hot_instruction entry fp))"

definition translate_instruction_entry ::
  "(nat \<Rightarrow> u8) \<Rightarrow> u64 \<Rightarrow> 'c fast_path \<Rightarrow> (u64 \<times> nat) option \<times> 'c fast_path" where
  "translate_instruction_entry bytes virtual_address fp =
     (let page_offset = page_offset_of virtual_address
      in if page_offset > FAST_PAGE_SIZE - 4 then (None, fp)
         else case lookup_instruction_entry bytes virtual_address fp of
           (None, fp) \<Rightarrow> (None, fp)
         | (Some entry, fp) \<Rightarrow>
             if tlb_physical_page entry < fp_ram_base fp then (None, fp)
             else
               let offset = tlb_physical_page entry - fp_ram_base fp + page_offset
               in if offset > fp_ram_size fp \<or> 4 > fp_ram_size fp - offset then (None, fp)
                  else (Some (fp_ram_base fp + offset,
                          (case tlb_host_page entry of None \<Rightarrow> 0 | Some host \<Rightarrow> host) + unat page_offset), fp))"

definition avz_fast_translate_instruction ::
  "u64 \<Rightarrow> ('p, 'q, 'c) fast_world \<Rightarrow> (u64 \<times> nat) option \<times> ('p, 'q, 'c) fast_world" where
  "avz_fast_translate_instruction virtual_address w =
     (let fp = w_context w
      in if fp_ram fp = None \<or>
            (\<not> fp_native_translation_enabled fp \<and> fp_translate_instruction_ram fp = None) \<or>
            virtual_address AND 3 \<noteq> 0
         then (None, w)
         else translate_on_path (\<lambda>bytes. translate_instruction_entry bytes virtual_address)
                (avz_fast_synchronize_shared_translation_epoch w))"

text \<open>The validation of a link between blocks must not deliver a fault to the guest.\<close>

definition avz_fast_instruction_mapping_is_current ::
  "u64 \<Rightarrow> u64 \<Rightarrow> ('p, 'q, 'c) fast_world \<Rightarrow> bool \<times> ('p, 'q, 'c) fast_world" where
  "avz_fast_instruction_mapping_is_current virtual_address expected_physical_address w =
     (let fp = w_context w
      in if \<not> fp_native_translation_enabled fp then (False, w)
         else
           let report = fp_report_translation_fault fp;
               pending = fp_translation_fault_pending fp;
               w = on_path (fp_report_translation_fault_update (\<lambda>_. None)) w;
               (r, w) = avz_fast_translate_instruction virtual_address w;
               w = on_path (fp_report_translation_fault_update (\<lambda>_. report)) w;
               w = on_path (fp_translation_fault_pending_update (\<lambda>_. pending)) w
           in (case r of None \<Rightarrow> False | Some (physical, _) \<Rightarrow> physical = expected_physical_address, w))"

definition avz_native_fast_fetch_instruction ::
  "u64 \<Rightarrow> ('p, 'q, 'c) fast_world \<Rightarrow> (u64 \<times> u32) option \<times> ('p, 'q, 'c) fast_world" where
  "avz_native_fast_fetch_instruction virtual_address w =
     (case avz_fast_translate_instruction virtual_address w of
        (None, w) \<Rightarrow> (None, w)
      | (Some (physical, host), w) \<Rightarrow>
          (Some (physical, ucast (avz_fast_load (g_bytes (w_memory w)) host 4)),
           on_path (count_memory_statistic Instruction_Fetch_Hits) w))"

subsection \<open>Configuration\<close>

definition avz_native_memory_fast_path_create ::
  "nat option \<Rightarrow> u64 \<Rightarrow> u64 \<Rightarrow> 'c \<Rightarrow> 'c ram_translator \<Rightarrow> 'c fast_path option" where
  "avz_native_memory_fast_path_create ram ram_base ram_size slow_context translate_ram =
     (if ram_size = 0 then None
      else Some \<lparr>fp_ram = ram, fp_ram_base = ram_base, fp_ram_size = ram_size,
        fp_slow_context = slow_context, fp_translate_ram = Some translate_ram,
        fp_translate_instruction_ram = None, fp_report_translation_fault = None,
        fp_tlb = \<lambda>_ _. empty_tlb_entry, fp_hot = \<lambda>_ _. empty_tlb_entry,
        fp_replacement = \<lambda>_ _. 0, fp_instruction_hot_replacement = 0,
        fp_dirty_hot = \<lambda>_. \<lparr>d_page = 0, d_epoch = 0, d_valid = 0\<rparr>,
        fp_thread_registers = \<lparr>th_tpidr_el0 = 0, th_tpidrro_el0 = 0, th_tpidr_el1 = 0,
          th_contextidr_el1 = 0, th_dirty_mask = 0\<rparr>,
        fp_architectural_state = \<lparr>ar_sp_el0 = 0, ar_sp_el1 = 0, ar_spsr_el1 = 0, ar_elr_el1 = 0,
          ar_esr_el1 = 0, ar_far_el1 = 0, ar_vbar_el1 = 0, ar_counter_ticks = 0,
          ar_cntp_ctl_el0 = 0, ar_cntp_cval_el0 = 0, ar_cntv_ctl_el0 = 0, ar_cntv_cval_el0 = 0,
          ar_timer_cycles_per_instruction = 0, ar_dirty_mask = 0, ar_pending_irq = 0\<rparr>,
        fp_counter_clock = \<lparr>ck_host_anchor = 0, ck_counter_anchor = 0, ck_frequency = 0,
          ck_numerator = 0, ck_denominator = 0\<rparr>,
        fp_counter_refresh_instructions = 0,
        fp_translation_state = \<lparr>st_sctlr_el1 = 0, st_tcr_el1 = 0, st_ttbr0_el1 = 0,
          st_ttbr1_el1 = 0, st_current_el = 0\<rparr>,
        fp_low_translation_context_tag = 0, fp_high_translation_context_tag = 0,
        fp_low_translation_context_hash = 0, fp_high_translation_context_hash = 0,
        fp_translation_generation = 1, fp_hot_translation_generation = 1, fp_tlbi_epoch = 0,
        fp_asid_tlbi_epochs = \<lambda>_. 0, fp_va_asid_tlbi_epochs = \<lambda>_. 0,
        fp_va_all_tlbi_epochs = \<lambda>_. 0, fp_va_global_tlbi_epochs = \<lambda>_. 0,
        fp_observed_shared_translation_epoch = 0, fp_translation_asid = 0,
        fp_native_translation_enabled = False, fp_translation_fault_pending = False,
        fp_detailed_statistics_enabled = True, fp_direct_bulk_mapping_enabled = True,
        fp_exclusive_expected = None, fp_statistics = \<lambda>_. 0, fp_has_guest_memory = False\<rparr>)"

definition avz_native_memory_fast_path_set_guest_memory ::
  "nat \<Rightarrow> ('p, 'q, 'c) fast_world \<Rightarrow> (bool \<times> ('p, 'q, 'c) fast_world) option" where
  "avz_native_memory_fast_path_set_guest_memory bytes w =
     (let fp = w_context w
      in if fp_ram fp \<noteq> Some bytes \<or> g_size (w_memory w) \<noteq> unat (fp_ram_size fp) then Some (False, w)
         else
           let w = on_path (\<lambda>fp. fp\<lparr>fp_has_guest_memory := True,
                     fp_observed_shared_translation_epoch := g_translation_epoch (w_memory w)\<rparr>) w
           in map_option (\<lambda>cache. (True, w\<lparr>w_cache := cache\<rparr>))
                (avz_native_block_cache_set_guest_memory (w_cache w)))"

definition avz_native_memory_fast_path_set_instruction_translator ::
  "'c ram_translator option \<Rightarrow> ('p, 'q, 'c) fast_world \<Rightarrow> ('p, 'q, 'c) fast_world" where
  "avz_native_memory_fast_path_set_instruction_translator translate w =
     on_path (\<lambda>fp. fp\<lparr>fp_translate_instruction_ram := translate,
         fp_tlb := (fp_tlb fp)(Access_Instruction := \<lambda>_. empty_tlb_entry),
         fp_hot := (fp_hot fp)(Access_Instruction := \<lambda>_. empty_tlb_entry),
         fp_replacement := (fp_replacement fp)(Access_Instruction := \<lambda>_. 0)\<rparr>)
       (avz_fast_invalidate_decoded_mappings w)"

definition avz_native_memory_fast_path_set_stage1_translation ::
  "stage1_state option \<Rightarrow> 'c fault_reporter option \<Rightarrow> ('p, 'q, 'c) fast_world \<Rightarrow> ('p, 'q, 'c) fast_world" where
  "avz_native_memory_fast_path_set_stage1_translation state report_fault w =
     (let w = on_path (\<lambda>fp. fp\<lparr>fp_report_translation_fault := report_fault,
                fp_translation_fault_pending := False\<rparr>) w;
          was_enabled = fp_native_translation_enabled (w_context w);
          previous = fp_translation_state (w_context w)
      in case state of
           None \<Rightarrow>
             if was_enabled
             then on_path avz_fast_clear_tlbs (avz_fast_invalidate_decoded_mappings
                    (on_path (fp_native_translation_enabled_update (\<lambda>_. False)) w))
             else w
         | Some state \<Rightarrow>
             if was_enabled \<and> avz_stage1_translation_state_equal previous state then w
             else
               let geometry_changed =
                     (\<not> was_enabled \<or> \<not> avz_stage1_translation_geometry_equal previous state);
                   w = on_path (\<lambda>fp. avz_fast_refresh_translation_context_tags
                         (fp\<lparr>fp_translation_state := state, fp_native_translation_enabled := True\<rparr>)) w;
                   w = avz_fast_invalidate_decoded_mappings w
               in if geometry_changed then on_path avz_fast_clear_tlbs w else w)"

definition avz_native_memory_fast_path_clear_translation_fault :: "'c fast_path \<Rightarrow> 'c fast_path" where
  "avz_native_memory_fast_path_clear_translation_fault fp = fp\<lparr>fp_translation_fault_pending := False\<rparr>"

definition avz_native_memory_fast_path_invalidate_translation ::
  "('p, 'q, 'c) fast_world \<Rightarrow> ('p, 'q, 'c) fast_world" where
  "avz_native_memory_fast_path_invalidate_translation w =
     on_path (\<lambda>fp. avz_fast_clear_tlbs (fp\<lparr>fp_translation_fault_pending := False\<rparr>))
       (avz_fast_invalidate_decoded_mappings w)"

definition avz_native_fast_set_current_el :: "u64 \<Rightarrow> 'c fast_path \<Rightarrow> 'c fast_path" where
  "avz_native_fast_set_current_el pstate fp =
     (let current_el = ucast (shr pstate 2 AND 3) :: u8
      in if st_current_el (fp_translation_state fp) = current_el then fp
         else
           let fp = fp\<lparr>fp_translation_state := (fp_translation_state fp)\<lparr>st_current_el := current_el\<rparr>\<rparr>;
               fp = avz_fast_refresh_translation_context_tags fp
           in fp\<lparr>fp_hot := (fp_hot fp)(Access_Instruction := \<lambda>_. empty_tlb_entry)\<rparr>)"

end
