(* ===== verification/TlbInvalidation.thy ===== *)
theory TlbInvalidation
  imports FastPath
begin

text \<open>
  What the time stamps of the TLBs promise. An entry is live when the next access of its page
  may use it. Applying an invalidation leaves no live entry that the invalidation covers, makes
  no entry live, and keeps the order between the stamps of the entries and of the tables.
\<close>

subsection \<open>Live mappings\<close>

text \<open>What an entry of a TLB or of a hot table says, without its stamps.\<close>

definition core :: "tlb_entry \<Rightarrow> tlb_entry" where
  "core e = e\<lparr>tlb_generation := 0, tlb_tlbi_epoch := 0, tlb_valid := True\<rparr>"

lemma core_fields [simp]:
  "tlb_virtual_page (core e) = tlb_virtual_page e" "tlb_physical_page (core e) = tlb_physical_page e"
  "tlb_host_page (core e) = tlb_host_page e" "tlb_contiguous_span (core e) = tlb_contiguous_span e"
  "tlb_context_tag (core e) = tlb_context_tag e" "tlb_asid (core e) = tlb_asid e"
  "tlb_global (core e) = tlb_global e" "tlb_leaf_shift (core e) = tlb_leaf_shift e"
  by (simp_all add: core_def)

lemma core_stamps [simp]:
  "core (e\<lparr>tlb_generation := g\<rparr>) = core e" "core (e\<lparr>tlb_tlbi_epoch := t\<rparr>) = core e"
  "core (e\<lparr>tlb_valid := v\<rparr>) = core e"
  by (simp_all add: core_def)

definition tlb_live :: "'c fast_path \<Rightarrow> tlb_entry \<Rightarrow> bool" where
  "tlb_live fp e \<longleftrightarrow> tlb_valid e \<and> tlb_generation e = fp_translation_generation fp \<and>
     (tlb_tlbi_epoch e = fp_tlbi_epoch fp \<or> \<not> tlb_entry_stale fp e)"

definition hot_live :: "'c fast_path \<Rightarrow> tlb_entry \<Rightarrow> bool" where
  "hot_live fp e \<longleftrightarrow> tlb_valid e \<and> tlb_generation e = fp_hot_translation_generation fp"

definition mappings :: "'c fast_path \<Rightarrow> memory_access \<Rightarrow> tlb_entry set" where
  "mappings fp a = {core (fp_tlb fp a i) | i. tlb_live fp (fp_tlb fp a i)} \<union>
     {core (fp_hot fp a i) | i. hot_live fp (fp_hot fp a i)}"

lemma mappingsI:
  "tlb_live fp (fp_tlb fp a i) \<Longrightarrow> core (fp_tlb fp a i) \<in> mappings fp a"
  "hot_live fp (fp_hot fp a i) \<Longrightarrow> core (fp_hot fp a i) \<in> mappings fp a"
  by (auto simp: mappings_def)

lemma mappingsE:
  assumes "m \<in> mappings fp a"
  obtains i where "m = core (fp_tlb fp a i)" "tlb_live fp (fp_tlb fp a i)"
  | i where "m = core (fp_hot fp a i)" "hot_live fp (fp_hot fp a i)"
  using assms by (auto simp: mappings_def)

text \<open>The extent that an invalidation by address names, at the size of a leaf.\<close>

definition same_extent :: "u8 \<Rightarrow> u64 \<Rightarrow> u64 \<Rightarrow> bool" where
  "same_extent leaf_shift a b \<longleftrightarrow>
     shr (a AND 0x00ffffffffffffff) (unat leaf_shift) = shr (b AND 0x00ffffffffffffff) (unat leaf_shift)"

text \<open>
  The architectural reach of an invalidation: everything, the non-global mappings of an ASID, or
  the mappings of one extent, in one ASID together with the global ones, or in all. A mapping of
  unknown extent is covered by every invalidation.
\<close>

definition tlbi_covers :: "tlbi \<Rightarrow> u64 \<Rightarrow> u16 \<Rightarrow> bool \<Rightarrow> u8 \<Rightarrow> bool" where
  "tlbi_covers t virtual_page asid global leaf_shift \<longleftrightarrow>
     tlbi_kind t = TLBI_ALL \<or> tlbi_kind t > TLBI_VA_ALL_ASIDS \<or> leaf_shift = 0 \<or>
     (if tlbi_kind t = TLBI_ASID then \<not> global \<and> asid = tlbi_asid t
      else same_extent leaf_shift (shl virtual_page 12) (tlbi_virtual_address t) \<and>
           (tlbi_kind t = TLBI_VA_ALL_ASIDS \<or> global \<or> asid = tlbi_asid t))"

definition covers :: "tlbi \<Rightarrow> tlb_entry \<Rightarrow> bool" where
  "covers t e = tlbi_covers t (tlb_virtual_page e) (tlb_asid e) (tlb_global e) (tlb_leaf_shift e)"

subsection \<open>The order of the stamps\<close>

definition stamps_ok :: "'c fast_path \<Rightarrow> bool" where
  "stamps_ok fp \<longleftrightarrow>
     (\<forall>a i. tlb_valid (fp_tlb fp a i) \<longrightarrow>
        tlb_generation (fp_tlb fp a i) \<le> fp_translation_generation fp) \<and>
     (\<forall>a i. tlb_valid (fp_tlb fp a i) \<and> tlb_generation (fp_tlb fp a i) = fp_translation_generation fp \<longrightarrow>
        tlb_tlbi_epoch (fp_tlb fp a i) \<le> fp_tlbi_epoch fp \<and>
        (tlb_leaf_shift (fp_tlb fp a i) = 0 \<or> tlb_leaf_shift (fp_tlb fp a i) \<in> set tlbi_shifts)) \<and>
     (\<forall>a i. tlb_valid (fp_hot fp a i) \<longrightarrow>
        tlb_generation (fp_hot fp a i) \<le> fp_hot_translation_generation fp) \<and>
     (\<forall>a i. hot_live fp (fp_hot fp a i) \<longrightarrow>
        tlb_global (fp_hot fp a i) \<or> tlb_asid (fp_hot fp a i) = fp_translation_asid fp) \<and>
     (\<forall>x. fp_asid_tlbi_epochs fp x \<le> fp_tlbi_epoch fp) \<and>
     (\<forall>x. fp_va_asid_tlbi_epochs fp x \<le> fp_tlbi_epoch fp) \<and>
     (\<forall>x. fp_va_all_tlbi_epochs fp x \<le> fp_tlbi_epoch fp) \<and>
     (\<forall>x. fp_va_global_tlbi_epochs fp x \<le> fp_tlbi_epoch fp)"

lemma stamps_okD:
  assumes "stamps_ok fp"
  shows "tlb_valid (fp_tlb fp a i) \<Longrightarrow> tlb_generation (fp_tlb fp a i) \<le> fp_translation_generation fp"
    "tlb_live fp (fp_tlb fp a i) \<Longrightarrow> tlb_tlbi_epoch (fp_tlb fp a i) \<le> fp_tlbi_epoch fp"
    "tlb_live fp (fp_tlb fp a i) \<Longrightarrow>
       tlb_leaf_shift (fp_tlb fp a i) = 0 \<or> tlb_leaf_shift (fp_tlb fp a i) \<in> set tlbi_shifts"
    "tlb_valid (fp_hot fp a i) \<Longrightarrow> tlb_generation (fp_hot fp a i) \<le> fp_hot_translation_generation fp"
    "hot_live fp (fp_hot fp a i) \<Longrightarrow> tlb_global (fp_hot fp a i) \<or> tlb_asid (fp_hot fp a i) = fp_translation_asid fp"
  using assms by (auto simp: stamps_ok_def tlb_live_def)

lemma word_less_step: "(g :: u64) + 1 \<noteq> 0 \<Longrightarrow> g < g + 1"
  using unatSuc[of g] by (simp add: word_less_nat_alt add.commute)

lemma word_step_up: "(x :: u64) \<le> g \<Longrightarrow> g + 1 \<noteq> 0 \<Longrightarrow> x \<noteq> g + 1"
  using word_less_step[of g] by auto

lemma word_le_step: "(x :: u64) \<le> g \<Longrightarrow> g + 1 \<noteq> 0 \<Longrightarrow> x \<le> g + 1"
  using word_less_step[of g] by auto

text \<open>Clearing the hot tables, and then everything.\<close>

lemma clear_hot_fields [simp]:
  "fp_tlb (avz_fast_clear_hot_tlbs fp) = fp_tlb fp"
  "fp_translation_generation (avz_fast_clear_hot_tlbs fp) = fp_translation_generation fp"
  "fp_tlbi_epoch (avz_fast_clear_hot_tlbs fp) = fp_tlbi_epoch fp"
  "fp_asid_tlbi_epochs (avz_fast_clear_hot_tlbs fp) = fp_asid_tlbi_epochs fp"
  "fp_va_asid_tlbi_epochs (avz_fast_clear_hot_tlbs fp) = fp_va_asid_tlbi_epochs fp"
  "fp_va_all_tlbi_epochs (avz_fast_clear_hot_tlbs fp) = fp_va_all_tlbi_epochs fp"
  "fp_va_global_tlbi_epochs (avz_fast_clear_hot_tlbs fp) = fp_va_global_tlbi_epochs fp"
  "fp_translation_asid (avz_fast_clear_hot_tlbs fp) = fp_translation_asid fp"
  by (simp_all add: avz_fast_clear_hot_tlbs_def Let_def)

lemma stale_clear_hot [simp]: "tlb_entry_stale (avz_fast_clear_hot_tlbs fp) = tlb_entry_stale fp"
  by (simp add: tlb_entry_stale_def fun_eq_iff)

lemma live_clear_hot [simp]: "tlb_live (avz_fast_clear_hot_tlbs fp) = tlb_live fp"
  by (simp add: tlb_live_def fun_eq_iff)

lemma clear_hot_none:
  assumes "stamps_ok fp"
  shows "\<not> hot_live (avz_fast_clear_hot_tlbs fp) (fp_hot (avz_fast_clear_hot_tlbs fp) a i)"
  using stamps_okD(4)[OF assms, of a i]
  by (auto simp: avz_fast_clear_hot_tlbs_def hot_live_def Let_def empty_tlb_entry_def dest: word_step_up)

lemma clear_hot_mappings:
  assumes "stamps_ok fp"
  shows "mappings (avz_fast_clear_hot_tlbs fp) a = {core (fp_tlb fp a i) | i. tlb_live fp (fp_tlb fp a i)}"
  using clear_hot_none[OF assms, of a] by (simp add: mappings_def)

lemma clear_hot_ok:
  assumes "stamps_ok fp"
  shows "stamps_ok (avz_fast_clear_hot_tlbs fp)"
proof -
  have "tlb_generation (fp_hot (avz_fast_clear_hot_tlbs fp) a i) \<le> fp_hot_translation_generation (avz_fast_clear_hot_tlbs fp)"
    if "tlb_valid (fp_hot (avz_fast_clear_hot_tlbs fp) a i)" for a i
    using that stamps_okD(4)[OF assms, of a i]
    by (auto simp: avz_fast_clear_hot_tlbs_def Let_def empty_tlb_entry_def split: if_splits intro: word_le_step)
  then show ?thesis
    using assms clear_hot_none[OF assms] by (simp add: stamps_ok_def)
qed

lemma clear_tlbs_fields [simp]:
  "fp_tlbi_epoch (avz_fast_clear_tlbs fp) = fp_tlbi_epoch fp"
  "fp_asid_tlbi_epochs (avz_fast_clear_tlbs fp) = fp_asid_tlbi_epochs fp"
  "fp_va_asid_tlbi_epochs (avz_fast_clear_tlbs fp) = fp_va_asid_tlbi_epochs fp"
  "fp_va_all_tlbi_epochs (avz_fast_clear_tlbs fp) = fp_va_all_tlbi_epochs fp"
  "fp_va_global_tlbi_epochs (avz_fast_clear_tlbs fp) = fp_va_global_tlbi_epochs fp"
  "fp_translation_asid (avz_fast_clear_tlbs fp) = fp_translation_asid fp"
  by (simp_all add: avz_fast_clear_tlbs_def Let_def)

lemma clear_tlbs_dead:
  assumes "stamps_ok fp"
  shows "tlb_valid (fp_tlb (avz_fast_clear_tlbs fp) a i) \<Longrightarrow>
      tlb_generation (fp_tlb (avz_fast_clear_tlbs fp) a i) \<noteq> fp_translation_generation (avz_fast_clear_tlbs fp)"
    "\<not> hot_live (avz_fast_clear_tlbs fp) (fp_hot (avz_fast_clear_tlbs fp) a i)"
  using stamps_okD(1)[OF assms, of a i] clear_hot_none[OF assms, of a i]
  by (auto simp: avz_fast_clear_tlbs_def Let_def empty_tlb_entry_def hot_live_def split: if_splits dest: word_step_up)

lemma clear_tlbs_mappings: "stamps_ok fp \<Longrightarrow> mappings (avz_fast_clear_tlbs fp) a = {}"
  using clear_tlbs_dead[of fp a] by (auto simp: mappings_def tlb_live_def)

lemma clear_tlbs_ok:
  assumes "stamps_ok fp"
  shows "stamps_ok (avz_fast_clear_tlbs fp)"
proof -
  let ?fp = "avz_fast_clear_tlbs fp"
  note hot = clear_hot_ok[OF assms]
  have "tlb_generation (fp_tlb ?fp a i) \<le> fp_translation_generation ?fp" if "tlb_valid (fp_tlb ?fp a i)" for a i
    using that stamps_okD(1)[OF assms, of a i]
    by (auto simp: avz_fast_clear_tlbs_def Let_def empty_tlb_entry_def split: if_splits intro: word_le_step)
  moreover have "tlb_generation (fp_hot ?fp a i) \<le> fp_hot_translation_generation ?fp" if "tlb_valid (fp_hot ?fp a i)" for a i
    using that stamps_okD(4)[OF hot, of a i]
    by (auto simp: avz_fast_clear_tlbs_def Let_def empty_tlb_entry_def split: if_splits)
  ultimately show ?thesis
    using assms clear_tlbs_dead[OF assms] by (auto simp: stamps_ok_def)
qed

subsection \<open>Applying an invalidation\<close>

text \<open>Two states that differ in the stamps of the invalidations only.\<close>

definition same_entries :: "'c fast_path \<Rightarrow> 'c fast_path \<Rightarrow> bool" where
  "same_entries fp' fp \<longleftrightarrow> fp_tlb fp' = fp_tlb fp \<and> fp_hot fp' = fp_hot fp \<and>
     fp_translation_generation fp' = fp_translation_generation fp \<and>
     fp_hot_translation_generation fp' = fp_hot_translation_generation fp \<and>
     fp_translation_asid fp' = fp_translation_asid fp"

lemma record_va_same: "same_entries (record_va_tlbi t e s fp) fp \<and>
    fp_tlbi_epoch (record_va_tlbi t e s fp) = fp_tlbi_epoch fp \<and>
    fp_asid_tlbi_epochs (record_va_tlbi t e s fp) = fp_asid_tlbi_epochs fp"
  by (simp add: record_va_tlbi_def same_entries_def Let_def)

lemma fold_record_same: "same_entries (fold (record_va_tlbi t e) ss fp) fp \<and>
    fp_tlbi_epoch (fold (record_va_tlbi t e) ss fp) = fp_tlbi_epoch fp \<and>
    fp_asid_tlbi_epochs (fold (record_va_tlbi t e) ss fp) = fp_asid_tlbi_epochs fp"
proof (induction ss arbitrary: fp)
  case (Cons s ss)
  show ?case using Cons[of "record_va_tlbi t e s fp"] record_va_same[of t e s fp] by (simp add: same_entries_def)
qed (simp add: same_entries_def)

lemma fold_record_tables:
  "fp_va_all_tlbi_epochs (fold (record_va_tlbi t e) ss fp) x =
     (if tlbi_kind t = TLBI_VA_ALL_ASIDS \<and> x \<in> (\<lambda>s. avz_tlbi_va_slot (tlbi_virtual_address t) s 0) ` set ss
      then e else fp_va_all_tlbi_epochs fp x)"
  "fp_va_global_tlbi_epochs (fold (record_va_tlbi t e) ss fp) x =
     (if tlbi_kind t \<noteq> TLBI_VA_ALL_ASIDS \<and> x \<in> (\<lambda>s. avz_tlbi_va_slot (tlbi_virtual_address t) s 0) ` set ss
      then e else fp_va_global_tlbi_epochs fp x)"
  "fp_va_asid_tlbi_epochs (fold (record_va_tlbi t e) ss fp) x =
     (if tlbi_kind t \<noteq> TLBI_VA_ALL_ASIDS \<and>
         x \<in> (\<lambda>s. avz_tlbi_va_slot (tlbi_virtual_address t) s (tlbi_asid t)) ` set ss
      then e else fp_va_asid_tlbi_epochs fp x)"
  by (induction ss arbitrary: fp) (simp_all add: record_va_tlbi_def Let_def)

lemma same_extent_slot:
  "same_extent s a b \<Longrightarrow> avz_tlbi_va_slot a s asid = avz_tlbi_va_slot b s asid"
  by (simp add: same_extent_def avz_tlbi_va_slot_def)

text \<open>Raising stamps to a new epoch keeps the order and makes no entry live.\<close>

lemma raised_ok:
  assumes ok: "stamps_ok fp" and none: "\<And>a i. \<not> hot_live fp (fp_hot fp a i)"
    and same: "same_entries fp' fp" and up: "fp_tlbi_epoch fp \<le> fp_tlbi_epoch fp'"
    and tables: "\<And>x. fp_asid_tlbi_epochs fp' x \<in> {fp_asid_tlbi_epochs fp x, fp_tlbi_epoch fp'}"
      "\<And>x. fp_va_asid_tlbi_epochs fp' x \<in> {fp_va_asid_tlbi_epochs fp x, fp_tlbi_epoch fp'}"
      "\<And>x. fp_va_all_tlbi_epochs fp' x \<in> {fp_va_all_tlbi_epochs fp x, fp_tlbi_epoch fp'}"
      "\<And>x. fp_va_global_tlbi_epochs fp' x \<in> {fp_va_global_tlbi_epochs fp x, fp_tlbi_epoch fp'}"
  shows "stamps_ok fp'"
proof -
  have le: "fp_asid_tlbi_epochs fp x \<le> fp_tlbi_epoch fp'" "fp_va_asid_tlbi_epochs fp y \<le> fp_tlbi_epoch fp'"
    "fp_va_all_tlbi_epochs fp y \<le> fp_tlbi_epoch fp'" "fp_va_global_tlbi_epochs fp y \<le> fp_tlbi_epoch fp'" for x y
    using ok up by (auto simp: stamps_ok_def intro: order.trans)
  have "fp_asid_tlbi_epochs fp' x \<le> fp_tlbi_epoch fp'" "fp_va_asid_tlbi_epochs fp' y \<le> fp_tlbi_epoch fp'"
    "fp_va_all_tlbi_epochs fp' y \<le> fp_tlbi_epoch fp'" "fp_va_global_tlbi_epochs fp' y \<le> fp_tlbi_epoch fp'" for x y
    using tables(1)[of x] tables(2-4)[of y] le(1)[of x] le(2-4)[of y] by auto
  moreover have "tlb_tlbi_epoch (fp_tlb fp a i) \<le> fp_tlbi_epoch fp'"
    if "tlb_valid (fp_tlb fp a i)" "tlb_generation (fp_tlb fp a i) = fp_translation_generation fp" for a i
    by (rule order.trans[OF _ up]) (use ok that in \<open>simp add: stamps_ok_def\<close>)
  ultimately show ?thesis
    using ok none same by (simp add: stamps_ok_def same_entries_def hot_live_def)
qed

lemma raised_stale:
  assumes ok: "stamps_ok fp" and up: "fp_tlbi_epoch fp \<le> fp_tlbi_epoch fp'"
    and tables: "\<And>x. fp_asid_tlbi_epochs fp' x \<in> {fp_asid_tlbi_epochs fp x, fp_tlbi_epoch fp'}"
      "\<And>x. fp_va_asid_tlbi_epochs fp' x \<in> {fp_va_asid_tlbi_epochs fp x, fp_tlbi_epoch fp'}"
      "\<And>x. fp_va_all_tlbi_epochs fp' x \<in> {fp_va_all_tlbi_epochs fp x, fp_tlbi_epoch fp'}"
      "\<And>x. fp_va_global_tlbi_epochs fp' x \<in> {fp_va_global_tlbi_epochs fp x, fp_tlbi_epoch fp'}"
  shows "tlb_entry_stale fp e \<Longrightarrow> tlb_entry_stale fp' e"
proof -
  have le: "fp_asid_tlbi_epochs fp x \<le> fp_tlbi_epoch fp'" "fp_va_asid_tlbi_epochs fp y \<le> fp_tlbi_epoch fp'"
    "fp_va_all_tlbi_epochs fp y \<le> fp_tlbi_epoch fp'" "fp_va_global_tlbi_epochs fp y \<le> fp_tlbi_epoch fp'" for x y
    using ok up by (auto simp: stamps_ok_def intro: order.trans)
  have ge: "fp_asid_tlbi_epochs fp x \<le> fp_asid_tlbi_epochs fp' x" "fp_va_asid_tlbi_epochs fp y \<le> fp_va_asid_tlbi_epochs fp' y"
    "fp_va_all_tlbi_epochs fp y \<le> fp_va_all_tlbi_epochs fp' y" "fp_va_global_tlbi_epochs fp y \<le> fp_va_global_tlbi_epochs fp' y" for x y
    using tables(1)[of x] tables(2-4)[of y] le(1)[of x] le(2-4)[of y] by auto
  assume "tlb_entry_stale fp e"
  then show "tlb_entry_stale fp' e"
    using ge by (auto simp: tlb_entry_stale_def Let_def split: if_splits intro: less_le_trans)
qed

text \<open>The state after the stamps of one invalidation other than of everything.\<close>

definition stamped :: "tlbi \<Rightarrow> 'c fast_path \<Rightarrow> 'c fast_path" where
  "stamped t fp =
     (if tlbi_kind t = TLBI_ASID
      then fp\<lparr>fp_asid_tlbi_epochs := (fp_asid_tlbi_epochs fp)(tlbi_asid t := fp_tlbi_epoch fp)\<rparr>
      else fold (record_va_tlbi t (fp_tlbi_epoch fp)) tlbi_shifts fp)"

lemma stamped_same: "same_entries (stamped t fp) fp" "fp_tlbi_epoch (stamped t fp) = fp_tlbi_epoch fp"
  using fold_record_same[of t "fp_tlbi_epoch fp" tlbi_shifts fp]
  by (simp_all add: stamped_def same_entries_def)

lemma stamped_tables:
  "fp_asid_tlbi_epochs (stamped t fp) x \<in> {fp_asid_tlbi_epochs fp x, fp_tlbi_epoch fp}"
  "fp_va_asid_tlbi_epochs (stamped t fp) y \<in> {fp_va_asid_tlbi_epochs fp y, fp_tlbi_epoch fp}"
  "fp_va_all_tlbi_epochs (stamped t fp) y \<in> {fp_va_all_tlbi_epochs fp y, fp_tlbi_epoch fp}"
  "fp_va_global_tlbi_epochs (stamped t fp) y \<in> {fp_va_global_tlbi_epochs fp y, fp_tlbi_epoch fp}"
  using fold_record_same[of t "fp_tlbi_epoch fp" tlbi_shifts fp]
  by (simp_all add: stamped_def fold_record_tables)

lemma stamped_covered:
  assumes "covers t e" "\<not> (tlbi_kind t = TLBI_ALL \<or> tlbi_kind t > TLBI_VA_ALL_ASIDS)"
    and "tlb_leaf_shift e = 0 \<or> tlb_leaf_shift e \<in> set tlbi_shifts" and "tlb_tlbi_epoch e < fp_tlbi_epoch fp"
  shows "tlb_entry_stale (stamped t fp) e"
proof (cases "tlb_leaf_shift e = 0")
  case True
  then show ?thesis by (simp add: tlb_entry_stale_def Let_def)
next
  case False
  then have s: "tlb_leaf_shift e \<in> set tlbi_shifts" using assms(3) by simp
  show ?thesis
  proof (cases "tlbi_kind t = TLBI_ASID")
    case True
    then show ?thesis using assms(1,2,4) False
      by (auto simp: covers_def tlbi_covers_def stamped_def tlb_entry_stale_def Let_def)
  next
    case other: False
    then have x: "same_extent (tlb_leaf_shift e) (shl (tlb_virtual_page e) 12) (tlbi_virtual_address t)"
      and a: "tlbi_kind t = TLBI_VA_ALL_ASIDS \<or> tlb_global e \<or> tlb_asid e = tlbi_asid t"
      using assms(1,2) False by (auto simp: covers_def tlbi_covers_def)
    note slot = same_extent_slot[OF x]
    show ?thesis using a s other assms(4)
      by (auto simp: stamped_def tlb_entry_stale_def Let_def fold_record_tables slot)
  qed
qed

lemma apply_entries:
  assumes ok: "stamps_ok fp"
  shows "stamps_ok (avz_fast_apply_tlbi_entries t fp) \<and>
    (\<forall>a. mappings (avz_fast_apply_tlbi_entries t fp) a \<subseteq> {m \<in> mappings fp a. \<not> covers t m})"
proof (cases "tlbi_kind t = TLBI_ALL \<or> tlbi_kind t > TLBI_VA_ALL_ASIDS")
  case True
  then show ?thesis using clear_tlbs_ok[OF ok] clear_tlbs_mappings[OF ok]
    by (simp add: avz_fast_apply_tlbi_entries_def)
next
  case False
  let ?hot = "avz_fast_clear_hot_tlbs fp"
  let ?new = "advance_tlbi_epoch ?hot"
  have app: "avz_fast_apply_tlbi_entries t fp = stamped t ?new"
    using False by (simp add: avz_fast_apply_tlbi_entries_def stamped_def Let_def)
  note hot = clear_hot_ok[OF ok] and none = clear_hot_none[OF ok]
  note same = stamped_same[of t ?new] and tables = stamped_tables[of t ?new]
  show ?thesis
  proof (cases "fp_tlbi_epoch ?hot + 1 = 0")
    case wrap: True
    have new: "?new = (avz_fast_clear_tlbs (?hot\<lparr>fp_tlbi_epoch := 0\<rparr>))\<lparr>fp_asid_tlbi_epochs := \<lambda>_. 0,
        fp_va_asid_tlbi_epochs := \<lambda>_. 0, fp_va_all_tlbi_epochs := \<lambda>_. 0, fp_va_global_tlbi_epochs := \<lambda>_. 0, fp_tlbi_epoch := 1\<rparr>"
      using wrap by (simp add: advance_tlbi_epoch_def Let_def)
    have eq: "avz_fast_clear_tlbs (?hot\<lparr>fp_tlbi_epoch := 0\<rparr>) = (avz_fast_clear_tlbs ?hot)\<lparr>fp_tlbi_epoch := 0\<rparr>"
      by (simp add: avz_fast_clear_tlbs_def avz_fast_clear_hot_tlbs_def Let_def)
    have s: "fp_tlb ?new = fp_tlb (avz_fast_clear_tlbs ?hot)" "fp_hot ?new = fp_hot (avz_fast_clear_tlbs ?hot)"
      "fp_translation_generation ?new = fp_translation_generation (avz_fast_clear_tlbs ?hot)"
      "fp_hot_translation_generation ?new = fp_hot_translation_generation (avz_fast_clear_tlbs ?hot)"
      by (simp_all add: new eq)
    note dead = clear_tlbs_dead[OF hot] and cok = clear_tlbs_ok[OF hot]
    have newok: "stamps_ok ?new"
      using cok dead unfolding stamps_ok_def hot_live_def s by (auto simp: new)
    have nonehot: "\<not> hot_live ?new (fp_hot ?new a i)" for a i
      using dead(2)[of a i] by (simp add: hot_live_def s)
    have "stamps_ok (stamped t ?new)"
      by (rule raised_ok[OF newok nonehot same(1)]) (use tables same(2) in auto)
    moreover have "mappings (stamped t ?new) a = {}" for a
      using dead(1)[of a] dead(2)[of a] same(1) s
      by (auto simp: mappings_def tlb_live_def hot_live_def same_entries_def)
    ultimately show ?thesis by (simp add: app)
  next
    case up: False
    have new: "?new = ?hot\<lparr>fp_tlbi_epoch := fp_tlbi_epoch fp + 1\<rparr>"
      using up by (simp add: advance_tlbi_epoch_def Let_def)
    have less: "fp_tlbi_epoch fp < fp_tlbi_epoch ?new" using up word_less_step by (simp add: new)
    have newsame: "same_entries ?new ?hot" by (simp add: same_entries_def new)
    have newok: "stamps_ok ?new"
      by (rule raised_ok[OF hot none newsame]) (use less in \<open>simp_all add: new\<close>)
    have nonehot: "\<not> hot_live ?new (fp_hot ?new a i)" for a i
      using none[of a i] by (simp add: hot_live_def new)
    have tables': "fp_asid_tlbi_epochs (stamped t ?new) x \<in> {fp_asid_tlbi_epochs fp x, fp_tlbi_epoch (stamped t ?new)}"
      "fp_va_asid_tlbi_epochs (stamped t ?new) y \<in> {fp_va_asid_tlbi_epochs fp y, fp_tlbi_epoch (stamped t ?new)}"
      "fp_va_all_tlbi_epochs (stamped t ?new) y \<in> {fp_va_all_tlbi_epochs fp y, fp_tlbi_epoch (stamped t ?new)}"
      "fp_va_global_tlbi_epochs (stamped t ?new) y \<in> {fp_va_global_tlbi_epochs fp y, fp_tlbi_epoch (stamped t ?new)}" for x y
      using tables(1)[of x] tables(2-4)[of y] by (simp_all add: same(2)) (simp_all add: new)
    have ok': "stamps_ok (stamped t ?new)"
      by (rule raised_ok[OF newok nonehot same(1)]) (use tables same(2) in auto)
    have "m \<in> mappings fp a \<and> \<not> covers t m" if m: "m \<in> mappings (stamped t ?new) a" for m a
    proof -
      have "\<not> hot_live (stamped t ?new) (fp_hot (stamped t ?new) a i)" for i
        using nonehot[of a i] same(1) by (simp add: hot_live_def same_entries_def)
      then obtain i where i: "m = core (fp_tlb (stamped t ?new) a i)" "tlb_live (stamped t ?new) (fp_tlb (stamped t ?new) a i)"
        using m by (auto elim: mappingsE)
      have e: "fp_tlb (stamped t ?new) a i = fp_tlb fp a i"
        and g: "fp_translation_generation (stamped t ?new) = fp_translation_generation fp"
        using same(1) by (simp_all add: same_entries_def new)
      let ?e = "fp_tlb fp a i"
      have "tlb_tlbi_epoch ?e \<le> fp_tlbi_epoch fp \<and> (tlb_leaf_shift ?e = 0 \<or> tlb_leaf_shift ?e \<in> set tlbi_shifts)"
        using ok i(2) by (simp add: stamps_ok_def tlb_live_def e g)
      then have below: "tlb_tlbi_epoch ?e < fp_tlbi_epoch ?new"
        and shift: "tlb_leaf_shift ?e = 0 \<or> tlb_leaf_shift ?e \<in> set tlbi_shifts" using less by auto
      have fresh: "\<not> tlb_entry_stale (stamped t ?new) ?e"
        using i(2) below by (auto simp: tlb_live_def e same(2))
      have "\<not> covers t ?e" using stamped_covered[OF _ False shift below] fresh by blast
      moreover have "\<not> tlb_entry_stale fp ?e"
        using raised_stale[OF ok _ tables'] fresh less same(2) by fastforce
      then have "tlb_live fp ?e" using i(2) by (simp add: tlb_live_def e g)
      ultimately show ?thesis using mappingsI(1)[of fp a i] by (simp add: i(1) e covers_def)
    qed
    then show ?thesis using ok' by (auto simp: app)
  qed
qed

lemma apply_tlbis_covers:
  "stamps_ok fp \<Longrightarrow> stamps_ok (apply_tlbis ts fp) \<and>
     (\<forall>a. mappings (apply_tlbis ts fp) a \<subseteq> {m \<in> mappings fp a. \<forall>t \<in> set ts. \<not> covers t m})"
proof (induction ts arbitrary: fp)
  case (Cons t ts)
  let ?fp = "avz_fast_apply_tlbi_entries t fp"
  note one = apply_entries[OF Cons.prems, of t]
  show ?case
  proof (cases "tlbi_kind t = TLBI_ALL")
    case True
    then have "mappings ?fp a = {}" for a using one by (auto simp: covers_def tlbi_covers_def)
    then show ?thesis using one True by (simp add: Let_def)
  next
    case False
    then show ?thesis using one Cons.IH[of ?fp] by (fastforce simp: Let_def)
  qed
qed simp

end
