(* ===== verification/PageWalk.thy ===== *)
theory PageWalk
  imports TlbInvalidation
begin

text \<open>
  What the stage 1 walk answers, as a function of the address, the page tables and the state of
  the translation. A walk only depends on the page of the address, and keeps the offset in the
  page; it depends on the state through the control registers, the exception level and the
  table base of the half of the address space, which is what the context tags of the TLB hash.
\<close>

subsection \<open>Offsets and pages\<close>

lemma mask_12: "(4095 :: u64) = mask 12"
  by (simp add: mask_eq_exp_minus_1)

lemma output_mask: "(0x0000fffffffff000 :: u64) = push_bit 12 (mask 36)"
  by (simp add: mask_eq_exp_minus_1 push_bit_eq_mult)

lemma bit_4095 [simp]: "bit (4095 :: int) n \<longleftrightarrow> n < 12"
proof -
  have "(4095 :: int) = mask 12" by (simp add: mask_eq_exp_minus_1)
  then show ?thesis by (simp only: bit_mask_iff possible_bit_int) simp
qed

lemma shl_mask: "(2 ^ n - 1 :: u64) = mask n"
  by (simp add: mask_eq_exp_minus_1)

lemma shr_12_bit: "shr a 12 = shr (b :: u64) 12 \<Longrightarrow> 12 \<le> n \<Longrightarrow> bit a n = bit b n"
  by (drule arg_cong[where f = "\<lambda>w. bit w (n - 12)"]) (simp add: bit_drop_bit_eq)

text \<open>The first address of the page.\<close>

definition page_start :: "u64 \<Rightarrow> u64" where
  "page_start a = shl (shr a 12) 12"

lemma page_offset_take: "page_offset_of a = take_bit 12 a"
  by (simp add: page_offset_of_def mask_12[simplified] take_bit_eq_mask)

lemma bit_page_offset [simp]: "bit (page_offset_of a) n \<longleftrightarrow> n < 12 \<and> bit a n"
  by (simp add: page_offset_take bit_take_bit_iff)

lemma bit_page_start [simp]: "bit (page_start a) n \<longleftrightarrow> 12 \<le> n \<and> bit a n"
  by (auto simp: page_start_def bit_push_bit_iff bit_drop_bit_eq dest: bit_imp_le_length)

lemma page_offset_less: "unat (page_offset_of a) < 4096"
  using take_bit_nat_less_exp[of 12 "unat a"] by (simp add: page_offset_take unsigned_take_bit_eq)

lemma page_parts: "page_start a + page_offset_of a = a"
  by (simp add: page_start_def page_offset_take bits_ident)

lemma page_part: "page_offset_of pa = page_offset_of va \<Longrightarrow> pa - page_offset_of va = page_start pa"
  using page_parts[of pa] by (metis add_diff_cancel_right')

lemma page_part_le: "page_offset_of a \<le> a"
  by (simp add: page_offset_of_def word_and_le2)

lemma page_offset_base [simp]: "page_offset_of (page_start a) = 0"
  by (rule bit_word_eqI) auto

lemma page_start_base [simp]: "page_start (page_start a) = page_start a"
  by (rule bit_word_eqI) auto

lemma aligned_bound:
  assumes "page_offset_of p = 0"
  shows "unat p + 4096 \<le> 2 ^ 64"
proof -
  have "take_bit 12 (unat p) = 0"
    using assms by (metis page_offset_take unsigned_take_bit_eq unsigned_0)
  then have "unat p mod 4096 = 0" by (simp add: take_bit_eq_mod)
  then obtain k where "unat p = 4096 * k" by auto
  moreover have "unat p < 2 ^ LENGTH(64)" by (rule unsigned_less)
  ultimately show ?thesis by simp
qed

lemma aligned_no_overflow:
  assumes "page_offset_of p = 0"
  shows "\<not> p > - 1 - page_offset_of a" "unat (p + page_offset_of a) = unat p + unat (page_offset_of a)"
proof -
  note le = aligned_bound[OF assms]
  then show "unat (p + page_offset_of a) = unat p + unat (page_offset_of a)"
    using page_offset_less[of a] by (intro unat_add_lem[THEN iffD1]) simp
  have "unat (- 1 - page_offset_of a) = 2 ^ 64 - 1 - unat (page_offset_of a)"
    by (subst unat_sub) (simp_all add: unsigned_minus_1_eq_mask mask_eq_exp_minus_1)
  then show "\<not> p > - 1 - page_offset_of a"
    using le page_offset_less[of a] by (simp add: word_less_nat_alt)
qed

lemma page_start_offset [simp]: "page_offset_of p = 0 \<Longrightarrow> page_start (p + page_offset_of a) = p"
proof -
  assume p: "page_offset_of p = 0"
  have low: "\<not> bit p n" if "n < 12" for n
    using arg_cong[OF p, of "\<lambda>w. bit w n"] that by simp
  then have "\<not> (bit p n \<and> bit (page_offset_of a) n)" for n by auto
  then have "p + page_offset_of a = p OR page_offset_of a"
    by (intro disjunctive_add) (simp)
  moreover have "page_start (p OR page_offset_of a) = p"
    using low by (intro bit_word_eqI) (auto simp: bit_or_iff not_le[symmetric])
  ultimately show ?thesis by simp
qed

lemma shr_page [simp]: "shr (page_start a) 12 = shr a 12"
  by (rule bit_word_eqI) (auto simp: bit_drop_bit_eq)

subsection \<open>The walk of one page\<close>

text \<open>The answer of a walk moved to another offset in the same page.\<close>

definition rebase :: "u64 \<Rightarrow> walk \<Rightarrow> walk" where
  "rebase va = map_sum id (\<lambda>(pa, global, leaf_shift). (page_start pa + page_offset_of va, global, leaf_shift))"

definition keeps_offset :: "u64 \<Rightarrow> walk \<Rightarrow> bool" where
  "keeps_offset va r \<longleftrightarrow> (\<forall>pa g s. r = Inr (pa, g, s) \<longrightarrow> page_offset_of pa = page_offset_of va)"

lemma leaf_rebase:
  assumes "page_offset_of pa = page_offset_of va" "page_offset_of pa' = page_offset_of va'" "page_start pa = page_start pa'"
  shows "stage1_leaf st d a l pa' sh = rebase va' (stage1_leaf st d a l pa sh)" "keeps_offset va (stage1_leaf st d a l pa sh)"
  using assms page_parts[of pa'] by (auto simp: stage1_leaf_def rebase_def keeps_offset_def split: option.splits)

lemma levels_rebase:
  assumes "shr eff' 12 = shr eff 12" "set levels \<subseteq> {0, 1, 2, 3}"
  shows "stage1_levels fp bytes eff' a levels table = rebase eff' (stage1_levels fp bytes eff a levels table) \<and>
    keeps_offset eff (stage1_levels fp bytes eff a levels table)"
  using assms(2)
proof (induction levels arbitrary: table)
  case (Cons level levels)
  let ?shift = "39 - level * 9"
  have shift: "12 \<le> ?shift" using Cons.prems by auto
  have index: "shr eff' ?shift = shr eff ?shift"
  proof -
    have "shr eff' ?shift = shr (shr eff' 12) (?shift - 12)" using shift by (simp add: drop_bit_drop_bit)
    also have "\<dots> = shr eff ?shift" using shift by (simp add: assms(1) drop_bit_drop_bit)
    finally show ?thesis .
  qed
  note same = shr_12_bit[OF assms(1)]
  have leaf3: "page_offset_of ((d AND 0x0000fffffffff000) OR (e AND 4095)) = page_offset_of e"
    "page_start ((d AND 0x0000fffffffff000) OR (e AND 4095)) = d AND 0x0000fffffffff000" for d e :: u64
    by (auto intro!: bit_word_eqI simp: bit_or_iff bit_and_iff output_mask bit_push_bit_iff)
  have block: "page_offset_of ((d AND 0x0000fffffffff000 AND NOT (shl 1 ?shift - 1)) OR (e AND (shl 1 ?shift - 1))) = page_offset_of e" for d e :: u64
    using shift by (auto intro!: bit_word_eqI simp: bit_or_iff bit_and_iff output_mask bit_push_bit_iff shl_mask bit_mask_iff)
  have block': "page_start ((d AND 0x0000fffffffff000 AND NOT (shl 1 ?shift - 1)) OR (eff AND (shl 1 ?shift - 1))) =
      page_start ((d AND 0x0000fffffffff000 AND NOT (shl 1 ?shift - 1)) OR (eff' AND (shl 1 ?shift - 1)))" for d :: u64
    by (rule bit_word_eqI) (auto simp: bit_or_iff bit_and_iff same)
  define leaf where "leaf d e = (if level = 3
      then stage1_leaf (fp_translation_state fp) d a level ((d AND 0x0000fffffffff000) OR (e AND 4095))
             (if d AND shl 1 52 \<noteq> 0 then 16 else 12)
      else stage1_leaf (fp_translation_state fp) d a level
             ((d AND 0x0000fffffffff000 AND NOT (shl 1 ?shift - 1)) OR (e AND (shl 1 ?shift - 1)))
             (word_of_nat ?shift + (if d AND shl 1 52 \<noteq> 0 then 4 else 0)))" for d e :: u64
  have moved: "leaf d eff' = rebase eff' (leaf d eff) \<and> keeps_offset eff (leaf d eff)" for d
    unfolding leaf_def using leaf_rebase[OF leaf3(1) leaf3(1) trans[OF leaf3(2) leaf3(2)[symmetric]]] leaf_rebase[OF block block block']
    by (cases "level = 3") (simp_all only: if_True if_False simp_thms)
  define fault :: walk where "fault = Inl (word_of_nat level, 4 + word_of_nat level)"
  have fault: "rebase v fault = fault" "keeps_offset v fault" for v
    by (simp_all add: fault_def rebase_def keeps_offset_def)
  define index where "index = shr eff ?shift AND 0x1ff"
  have step: "stage1_levels fp bytes e a (level # levels) table =
      (if table > - 1 - index * 8 then fault
       else case avz_stage1_read_descriptor fp bytes (table + index * 8) of None \<Rightarrow> fault
         | Some d \<Rightarrow> if d AND 1 = 0 then fault
             else if level = 3 then if d AND 3 \<noteq> 3 then fault else leaf d e
             else if d AND 3 = 1 then leaf d e
             else if d AND 3 \<noteq> 3 then fault
             else stage1_levels fp bytes e a levels (d AND 0x0000fffffffff000))"
    if "shr e ?shift = shr eff ?shift" for e
    unfolding stage1_levels.simps(2) Let_def that index_def leaf_def fault_def by (simp cong: if_cong option.case_cong)
  have ih: "stage1_levels fp bytes eff' a levels t = rebase eff' (stage1_levels fp bytes eff a levels t) \<and>
      keeps_offset eff (stage1_levels fp bytes eff a levels t)" for t
    using Cons by simp
  show ?case
    unfolding step[OF index] step[OF refl] using moved ih fault by (simp split: option.split)
qed (simp_all add: rebase_def keeps_offset_def)

text \<open>
  The outcome of a translation, with the identity when the MMU is off. A control register whose
  input size is below a page makes the code drop offset bits, so the size is bounded.
\<close>

definition stage1_outcome :: "'c fast_path \<Rightarrow> (nat \<Rightarrow> u8) \<Rightarrow> u64 \<Rightarrow> memory_access \<Rightarrow> walk" where
  "stage1_outcome fp bytes va access =
     (if st_sctlr_el1 (fp_translation_state fp) AND 1 = 0 then Inr (va, False, 0)
      else stage1_walk fp bytes va access)"

definition regime_ok :: "stage1_state \<Rightarrow> bool" where
  "regime_ok s \<longleftrightarrow> unat (st_tcr_el1 s AND 0x3f) \<le> 52 \<and> unat (shr (st_tcr_el1 s) 16 AND 0x3f) \<le> 52"

lemma masked_page:
  assumes "12 \<le> n"
  shows "page_offset_of (va AND (shl 1 n - 1)) = page_offset_of va"
    "shr va' 12 = shr va 12 \<Longrightarrow> shr (va' AND (shl 1 n - 1)) 12 = shr (va AND (shl 1 n - 1)) 12"
  using assms by (auto intro!: bit_word_eqI dest: shr_12_bit simp: shl_mask bit_and_iff bit_mask_iff bit_drop_bit_eq)

lemma rebase_offset: "page_offset_of a = page_offset_of b \<Longrightarrow> rebase a = rebase b"
  by (simp add: rebase_def)

declare stage1_levels.simps(2) [simp del]

lemma outcome_rebase:
  assumes "regime_ok (fp_translation_state fp)" "shr va' 12 = shr va 12"
  shows "stage1_outcome fp bytes va' a = rebase va' (stage1_outcome fp bytes va a) \<and>
    keeps_offset va (stage1_outcome fp bytes va a)"
proof -
  have half: "shr va' 63 = shr va 63"
    using arg_cong[OF assms(2), of "\<lambda>w. shr w 51"] by simp
  let ?n = "64 - unat (shr (st_tcr_el1 (fp_translation_state fp)) (if shr va 63 \<noteq> 0 then 16 else 0) AND 0x3f)"
  have n: "12 \<le> ?n" using assms(1) by (auto simp: regime_ok_def)
  note eff = masked_page[OF n]
  have levels: "stage1_levels fp bytes (va' AND (shl 1 ?n - 1)) a [0, 1, 2, 3] t =
      rebase va' (stage1_levels fp bytes (va AND (shl 1 ?n - 1)) a [0, 1, 2, 3] t) \<and>
      keeps_offset va (stage1_levels fp bytes (va AND (shl 1 ?n - 1)) a [0, 1, 2, 3] t)" for t
    using levels_rebase[OF eff(2)[OF assms(2)], of "[0, 1, 2, 3]" fp bytes a t] rebase_offset[OF eff(1)[of va']] eff(1)[of va]
    by (simp add: keeps_offset_def)
  have fault: "rebase v (Inl f) = Inl f" "keeps_offset v (Inl f)" for v f
    by (simp_all add: rebase_def keeps_offset_def)
  have off: "rebase va' (Inr (va, False, 0)) = Inr (va', False, 0)" "keeps_offset va (Inr (va, False, 0))"
  proof -
    have "page_start va = page_start va'" by (simp add: page_start_def assms(2))
    then show "rebase va' (Inr (va, False, 0)) = Inr (va', False, 0)"
      using page_parts[of va'] by (simp add: rebase_def)
  qed (simp add: keeps_offset_def)
  show ?thesis
    unfolding stage1_outcome_def stage1_walk_def Let_def half using levels fault off
    by (simp split: if_splits)
qed

lemma levels_cong:
  assumes "fp_ram_base fp' = fp_ram_base fp" "fp_ram_size fp' = fp_ram_size fp"
    "st_current_el (fp_translation_state fp') = st_current_el (fp_translation_state fp)"
  shows "stage1_levels fp' bytes eff a levels table = stage1_levels fp bytes eff a levels table"
proof (induction levels arbitrary: table)
  case (Cons level levels)
  have "avz_stage1_read_descriptor fp' bytes p = avz_stage1_read_descriptor fp bytes p" for p
    by (simp add: avz_stage1_read_descriptor_def assms(1,2))
  moreover have "stage1_leaf (fp_translation_state fp') d a l p sh = stage1_leaf (fp_translation_state fp) d a l p sh" for d l p sh
    by (simp add: stage1_leaf_def avz_stage1_validate_leaf_def assms(3))
  ultimately show ?case by (simp only: stage1_levels.simps Cons Let_def)
qed simp

text \<open>The table base of the half of the address space, and the tag that stands for the context.\<close>

definition state_ttbr :: "stage1_state \<Rightarrow> u64 \<Rightarrow> u64" where
  "state_ttbr s va = (if shr va 63 \<noteq> 0 then st_ttbr1_el1 s else st_ttbr0_el1 s)"

definition state_tag :: "stage1_state \<Rightarrow> u64 \<Rightarrow> u64" where
  "state_tag s va = avz_fast_translation_context_tag_for_ttbr s (state_ttbr s va)"

definition same_regime :: "stage1_state \<Rightarrow> stage1_state \<Rightarrow> u64 \<Rightarrow> bool" where
  "same_regime s s' va \<longleftrightarrow> st_sctlr_el1 s = st_sctlr_el1 s' \<and> st_tcr_el1 s = st_tcr_el1 s' \<and>
     st_current_el s = st_current_el s' \<and>
     state_ttbr s va AND 0x0000fffffffff000 = state_ttbr s' va AND 0x0000fffffffff000"

lemma outcome_regime:
  assumes "same_regime s s' va"
  shows "stage1_outcome (fp\<lparr>fp_translation_state := s\<rparr>) bytes va a = stage1_outcome (fp\<lparr>fp_translation_state := s'\<rparr>) bytes va a"
proof -
  have "stage1_levels (fp\<lparr>fp_translation_state := s\<rparr>) bytes e a l t = stage1_levels (fp\<lparr>fp_translation_state := s'\<rparr>) bytes e a l t" for e l t
    by (rule levels_cong) (use assms in \<open>simp_all add: same_regime_def\<close>)
  then show ?thesis
    using assms
    by (simp add: stage1_outcome_def stage1_walk_def Let_def same_regime_def state_ttbr_def
        split: if_splits)
qed

lemma outcome_context:
  "fp_ram_base fp' = fp_ram_base fp \<Longrightarrow> fp_ram_size fp' = fp_ram_size fp \<Longrightarrow>
   stage1_outcome (fp'\<lparr>fp_translation_state := s\<rparr>) bytes va a = stage1_outcome (fp\<lparr>fp_translation_state := s\<rparr>) bytes va a"
  by (simp add: stage1_outcome_def stage1_walk_def Let_def
      levels_cong[of "fp'\<lparr>fp_translation_state := s\<rparr>" "fp\<lparr>fp_translation_state := s\<rparr>"])

lemma leaf_shifts:
  assumes "stage1_outcome fp bytes va a = Inr (pa, g, sh)"
  shows "sh = 0 \<or> sh \<in> set tlbi_shifts"
proof -
  have leaf: "stage1_leaf st d a l p s' = Inr (pa, g, sh) \<Longrightarrow> sh = s'" for st d l p s'
    by (auto simp: stage1_leaf_def split: option.splits)
  have "stage1_levels fp bytes e a levels t = Inr (pa, g, sh) \<Longrightarrow> set levels \<subseteq> {0, 1, 2, 3} \<Longrightarrow> sh \<in> set tlbi_shifts" for e levels t
  proof (induction levels arbitrary: t)
    case (Cons l levels)
    have "l \<in> {0, 1, 2, 3}" using Cons.prems by auto
    then show ?case using Cons.prems Cons.IH
      by (auto simp: Let_def tlbi_shifts_def stage1_levels.simps(2) split: if_splits option.splits dest!: leaf)
  qed simp
  note levels = this
  show ?thesis
    using assms levels[of _ "[0, 1, 2, 3]"]
    by (auto simp: stage1_outcome_def stage1_walk_def Let_def split: if_splits)
qed

subsection \<open>Context tags\<close>

lemma xorshift_inj:
  assumes "a XOR shr a k = b XOR shr (b :: u64) k" "0 < k"
  shows "a = b"
proof (rule bit_word_eqI)
  have b: "bit a n \<noteq> bit a (n + k) \<longleftrightarrow> bit b n \<noteq> bit b (n + k)" for n
    using arg_cong[OF assms(1), of "\<lambda>w. bit w n"] by (simp add: bit_xor_iff bit_drop_bit_eq add.commute)
  have "bit a (64 - j) = bit b (64 - j)" if "j \<le> 64" for j
    using that
  proof (induction j rule: less_induct)
    case (less j)
    show ?case
    proof (cases "64 - j + k < 64")
      case True
      then have "64 - j + k = 64 - (j - k)" "j - k < j" "j - k \<le> 64" using assms(2) less.prems by auto
      then have "bit a (64 - j + k) = bit b (64 - j + k)" using less.IH[of "j - k"] by simp
      then show ?thesis using b[of "64 - j"] by blast
    next
      case False
      then have "\<not> bit a (64 - j + k)" "\<not> bit b (64 - j + k)" by (auto dest: bit_imp_le_length)
      then show ?thesis using b[of "64 - j"] by blast
    qed
  qed
  note down = this
  show "bit a n = bit b n" if "n < LENGTH(64)" for n
    using down[of "64 - n"] that by simp
qed

lemma mix_inj:
  assumes "avz_fast_mix_u64 a = avz_fast_mix_u64 b"
  shows "a = b"
proof -
  have times: "x = y" if "x * c = y * c" "c * d = 1" for x y c d :: u64
    using arg_cong[OF that(1), of "\<lambda>w. w * d"] by (simp add: mult.assoc that(2))
  have c: "(0xbf58476d1ce4e5b9 :: u64) * 0x96de1b173f119089 = 1" "(0x94d049bb133111eb :: u64) * 0x319642b2d24d8ec3 = 1"
    by simp_all
  define f where "f = (\<lambda>v :: u64. (v XOR shr v 30) * 0xbf58476d1ce4e5b9)"
  define g where "g = (\<lambda>v :: u64. (v XOR shr v 27) * 0x94d049bb133111eb)"
  have "avz_fast_mix_u64 v = g (f v) XOR shr (g (f v)) 31" for v
    by (simp only: avz_fast_mix_u64_def f_def g_def Let_def)
  then have "g (f a) = g (f b)" using xorshift_inj[of "g (f a)" 31 "g (f b)"] assms by simp
  then have "f a XOR shr (f a) 27 = f b XOR shr (f b) 27" unfolding g_def by (rule times[OF _ c(2)])
  then have "f a = f b" by (rule xorshift_inj) simp
  then have "a XOR shr a 30 = b XOR shr b 30" unfolding f_def by (rule times[OF _ c(1)])
  then show ?thesis by (rule xorshift_inj) simp
qed

lemma xor_cancel: "a XOR c = b XOR c \<longleftrightarrow> a = (b :: u64)" "c XOR a = c XOR b \<longleftrightarrow> a = b"
proof -
  have undo: "(v XOR c) XOR c = v" for v :: u64 by (simp add: xor.assoc)
  show "a XOR c = b XOR c \<longleftrightarrow> a = b" using undo[of a] undo[of b] by (metis)
  then show "c XOR a = c XOR b \<longleftrightarrow> a = b" by (simp add: xor.commute)
qed

text \<open>In one exception level and geometry, the tag identifies the table.\<close>

lemma tag_identifies_table:
  assumes "state_tag s va = state_tag s' va" "st_sctlr_el1 s = st_sctlr_el1 s'" "st_tcr_el1 s = st_tcr_el1 s'"
    "st_current_el s = st_current_el s'"
  shows "same_regime s s' va"
  using mix_inj[of "state_ttbr s va AND 0x0000fffffffff000" "state_ttbr s' va AND 0x0000fffffffff000"] assms
  by (auto simp: same_regime_def state_tag_def avz_fast_translation_context_tag_for_ttbr_def Let_def xor_cancel dest!: mix_inj)

end
