(* ===== verification/TranslationCoherence.thy ===== *)
theory TranslationCoherence
  imports PageWalk
begin

text \<open>
  The TLBs are transparent. Between two page-table states the embedder must invalidate the
  mappings that change, on this processor or by publishing the invalidation; then every
  translation answers what the walk of the current page tables answers.
\<close>

subsection \<open>What a translation does not change\<close>

definition same_context :: "'c fast_path \<Rightarrow> 'c fast_path \<Rightarrow> bool" where
  "same_context fp' fp \<longleftrightarrow>
     fp_ram fp' = fp_ram fp \<and> fp_ram_base fp' = fp_ram_base fp \<and> fp_ram_size fp' = fp_ram_size fp \<and>
     fp_translation_state fp' = fp_translation_state fp \<and>
     fp_low_translation_context_tag fp' = fp_low_translation_context_tag fp \<and>
     fp_high_translation_context_tag fp' = fp_high_translation_context_tag fp \<and>
     fp_low_translation_context_hash fp' = fp_low_translation_context_hash fp \<and>
     fp_high_translation_context_hash fp' = fp_high_translation_context_hash fp \<and>
     fp_translation_generation fp' = fp_translation_generation fp \<and>
     fp_hot_translation_generation fp' = fp_hot_translation_generation fp \<and>
     fp_tlbi_epoch fp' = fp_tlbi_epoch fp \<and> fp_asid_tlbi_epochs fp' = fp_asid_tlbi_epochs fp \<and>
     fp_va_asid_tlbi_epochs fp' = fp_va_asid_tlbi_epochs fp \<and>
     fp_va_all_tlbi_epochs fp' = fp_va_all_tlbi_epochs fp \<and>
     fp_va_global_tlbi_epochs fp' = fp_va_global_tlbi_epochs fp \<and>
     fp_observed_shared_translation_epoch fp' = fp_observed_shared_translation_epoch fp \<and>
     fp_translation_asid fp' = fp_translation_asid fp \<and>
     fp_native_translation_enabled fp' = fp_native_translation_enabled fp \<and>
     fp_has_guest_memory fp' = fp_has_guest_memory fp \<and>
     fp_translate_ram fp' = fp_translate_ram fp \<and>
     fp_translate_instruction_ram fp' = fp_translate_instruction_ram fp"

lemma same_context_refl [simp]: "same_context fp fp"
  by (simp add: same_context_def)

lemma same_context_trans: "same_context a b \<Longrightarrow> same_context b c \<Longrightarrow> same_context a c"
  unfolding same_context_def by (elim conjE, intro conjI; erule (1) trans)

lemma same_context_updates [simp]:
  "same_context (set_tlb a i e fp) fp" "same_context (set_hot a i e fp) fp" "same_context (set_replacement a i y fp) fp"
  "same_context (count_memory_statistic f fp) fp" "same_context (fp\<lparr>fp_slow_context := c\<rparr>) fp"
  "same_context (fp\<lparr>fp_instruction_hot_replacement := y\<rparr>) fp" "same_context (avz_stage1_fault va x l st fp) fp"
  by (simp_all add: same_context_def set_tlb_def set_hot_def set_replacement_def count_memory_statistic_def
      avz_stage1_fault_def Let_def split: option.split)

lemma context_views:
  assumes "same_context fp' fp"
  shows "tlb_entry_stale fp' = tlb_entry_stale fp" "tlb_live fp' = tlb_live fp" "hot_live fp' = hot_live fp"
    "host_of_page fp' = host_of_page fp" "contiguous_span_of fp' = contiguous_span_of fp"
    "new_tlb_entry fp' = new_tlb_entry fp" "tlb_set_of fp' = tlb_set_of fp"
    "avz_fast_translation_context_tag fp' = avz_fast_translation_context_tag fp"
    "finish_translation fp' = finish_translation fp"
    "stage1_outcome (fp'\<lparr>fp_translation_state := s\<rparr>) bytes va a = stage1_outcome (fp\<lparr>fp_translation_state := s\<rparr>) bytes va a"
proof -
  show 1: "tlb_entry_stale fp' = tlb_entry_stale fp"
    using assms by (simp add: fun_eq_iff tlb_entry_stale_def same_context_def)
  show "tlb_live fp' = tlb_live fp" "hot_live fp' = hot_live fp"
    using assms 1 by (simp_all add: fun_eq_iff tlb_live_def hot_live_def same_context_def)
  show 2: "host_of_page fp' = host_of_page fp"
    using assms by (simp add: fun_eq_iff host_of_page_def same_context_def)
  show "contiguous_span_of fp' = contiguous_span_of fp" "new_tlb_entry fp' = new_tlb_entry fp"
    "avz_fast_translation_context_tag fp' = avz_fast_translation_context_tag fp"
    "finish_translation fp' = finish_translation fp"
    by (intro ext; simp only: contiguous_span_of_def new_tlb_entry_def 2
      avz_fast_translation_context_tag_def finish_translation_def assms[unfolded same_context_def])+
  have "avz_fast_translation_context_hash fp' = avz_fast_translation_context_hash fp"
    using assms by (simp add: fun_eq_iff avz_fast_translation_context_hash_def same_context_def)
  then show "tlb_set_of fp' = tlb_set_of fp" by (simp add: fun_eq_iff tlb_set_of_def)
  show "stage1_outcome (fp'\<lparr>fp_translation_state := s\<rparr>) bytes va a = stage1_outcome (fp\<lparr>fp_translation_state := s\<rparr>) bytes va a"
    by (rule outcome_context) (use assms in \<open>simp_all add: same_context_def\<close>)
qed

text \<open>The TLBs and hot tables of two states agree; only statistics and the like differ.\<close>

definition same_tables :: "'c fast_path \<Rightarrow> 'c fast_path \<Rightarrow> bool" where
  "same_tables fp' fp \<longleftrightarrow> same_context fp' fp \<and> fp_tlb fp' = fp_tlb fp \<and> fp_hot fp' = fp_hot fp"

lemma same_tables_refl [simp]: "same_tables fp fp"
  by (simp add: same_tables_def)

lemma same_tables_trans: "same_tables a b \<Longrightarrow> same_tables b c \<Longrightarrow> same_tables a c"
  by (auto simp: same_tables_def intro: same_context_trans)

lemma same_tables_updates [simp]:
  "same_tables (set_replacement a i y fp) fp" "same_tables (count_memory_statistic f fp) fp"
  "same_tables (fp\<lparr>fp_slow_context := c\<rparr>) fp" "same_tables (fp\<lparr>fp_instruction_hot_replacement := y\<rparr>) fp"
  "same_tables (avz_stage1_fault va x l st fp) fp"
  by (simp_all add: same_tables_def)
    (simp_all add: set_replacement_def count_memory_statistic_def avz_stage1_fault_def Let_def split: option.split)

lemma tables_views:
  assumes "same_tables fp' fp"
  shows "mappings fp' = mappings fp" "stamps_ok fp' = stamps_ok fp"
proof -
  have c: "same_context fp' fp" and t: "fp_tlb fp' = fp_tlb fp" "fp_hot fp' = fp_hot fp"
    using assms by (simp_all add: same_tables_def)
  show "mappings fp' = mappings fp" by (simp add: fun_eq_iff mappings_def t context_views[OF c])
  have "fp_translation_generation fp' = fp_translation_generation fp" "fp_hot_translation_generation fp' = fp_hot_translation_generation fp"
    "fp_tlbi_epoch fp' = fp_tlbi_epoch fp" "fp_asid_tlbi_epochs fp' = fp_asid_tlbi_epochs fp"
    "fp_va_asid_tlbi_epochs fp' = fp_va_asid_tlbi_epochs fp" "fp_va_all_tlbi_epochs fp' = fp_va_all_tlbi_epochs fp"
    "fp_va_global_tlbi_epochs fp' = fp_va_global_tlbi_epochs fp" "fp_translation_asid fp' = fp_translation_asid fp"
    using c by (simp_all add: same_context_def)
  then show "stamps_ok fp' = stamps_ok fp" by (simp add: stamps_ok_def t context_views[OF c])
qed

subsection \<open>Writing one entry\<close>

definition entry_ok :: "'c fast_path \<Rightarrow> tlb_entry \<Rightarrow> bool" where
  "entry_ok fp e \<longleftrightarrow> (tlb_valid e \<longrightarrow> tlb_generation e \<le> fp_translation_generation fp) \<and>
     (tlb_valid e \<and> tlb_generation e = fp_translation_generation fp \<longrightarrow>
        tlb_tlbi_epoch e \<le> fp_tlbi_epoch fp \<and> (tlb_leaf_shift e = 0 \<or> tlb_leaf_shift e \<in> set tlbi_shifts))"

lemma stamps_entry_ok: "stamps_ok fp \<Longrightarrow> entry_ok fp (fp_tlb fp a i)"
  by (simp add: stamps_ok_def entry_ok_def)

lemma set_tlb_ok:
  assumes ok: "stamps_ok fp" and e: "entry_ok fp e"
  shows "stamps_ok (set_tlb a i e fp) \<and>
    (\<forall>b. mappings (set_tlb a i e fp) b \<subseteq> mappings fp b \<union> (if b = a \<and> tlb_live fp e then {core e} else {}))"
proof -
  let ?fp = "set_tlb a i e fp"
  have c: "same_context ?fp fp" by simp
  have t: "fp_tlb ?fp b j = (if b = a \<and> j = i then e else fp_tlb fp b j)" "fp_hot ?fp = fp_hot fp" for b j
    by (simp_all add: set_tlb_def)
  have s: "fp_translation_generation ?fp = fp_translation_generation fp" "fp_hot_translation_generation ?fp = fp_hot_translation_generation fp"
    "fp_tlbi_epoch ?fp = fp_tlbi_epoch fp" "fp_asid_tlbi_epochs ?fp = fp_asid_tlbi_epochs fp"
    "fp_va_asid_tlbi_epochs ?fp = fp_va_asid_tlbi_epochs fp" "fp_va_all_tlbi_epochs ?fp = fp_va_all_tlbi_epochs fp"
    "fp_va_global_tlbi_epochs ?fp = fp_va_global_tlbi_epochs fp" "fp_translation_asid ?fp = fp_translation_asid fp"
    by (simp_all add: set_tlb_def)
  have "stamps_ok ?fp"
    using ok e unfolding stamps_ok_def entry_ok_def s t context_views[OF c] by auto
  moreover have "mappings ?fp b \<subseteq> mappings fp b \<union> (if b = a \<and> tlb_live fp e then {core e} else {})" for b
    by (auto simp: mappings_def t context_views[OF c])
  ultimately show ?thesis by blast
qed

lemma set_hot_ok:
  assumes ok: "stamps_ok fp" and e: "tlb_generation e = fp_hot_translation_generation fp"
    and live: "tlb_valid e \<Longrightarrow> core e \<in> mappings fp a \<and> (tlb_global e \<or> tlb_asid e = fp_translation_asid fp)"
  shows "stamps_ok (set_hot a i e fp) \<and> (\<forall>b. mappings (set_hot a i e fp) b \<subseteq> mappings fp b)"
proof -
  let ?fp = "set_hot a i e fp"
  have c: "same_context ?fp fp" by simp
  have t: "fp_hot ?fp b j = (if b = a \<and> j = i then e else fp_hot fp b j)" "fp_tlb ?fp = fp_tlb fp" for b j
    by (simp_all add: set_hot_def)
  have s: "fp_translation_generation ?fp = fp_translation_generation fp" "fp_hot_translation_generation ?fp = fp_hot_translation_generation fp"
    "fp_tlbi_epoch ?fp = fp_tlbi_epoch fp" "fp_asid_tlbi_epochs ?fp = fp_asid_tlbi_epochs fp"
    "fp_va_asid_tlbi_epochs ?fp = fp_va_asid_tlbi_epochs fp" "fp_va_all_tlbi_epochs ?fp = fp_va_all_tlbi_epochs fp"
    "fp_va_global_tlbi_epochs ?fp = fp_va_global_tlbi_epochs fp" "fp_translation_asid ?fp = fp_translation_asid fp"
    by (simp_all add: set_hot_def)
  have "stamps_ok ?fp"
    using ok e live unfolding stamps_ok_def s t context_views[OF c] by (auto simp: hot_live_def)
  moreover have "mappings ?fp b \<subseteq> mappings fp b" for b
    using live by (auto simp: mappings_def t context_views[OF c] hot_live_def)
  ultimately show ?thesis by blast
qed

text \<open>Validating an entry makes nothing live; an entry found current is live, in this ASID.\<close>

lemma current_entry:
  assumes "avz_native_fast_tlb_entry_is_current fp e = (hit, e')" "entry_ok fp e" "tlb_valid e"
    "tlb_generation e = fp_translation_generation fp"
  shows "entry_ok fp e'" "core e' = core e" "tlb_live fp e' \<Longrightarrow> tlb_live fp e"
    "hit \<Longrightarrow> tlb_live fp e' \<and> (tlb_global e' \<or> tlb_asid e' = fp_translation_asid fp)"
proof -
  have stale: "tlb_entry_stale fp (e\<lparr>tlb_valid := v\<rparr>) = tlb_entry_stale fp e" for v
    by (simp add: tlb_entry_stale_def)
  show "entry_ok fp e'" "core e' = core e" "tlb_live fp e' \<Longrightarrow> tlb_live fp e"
    "hit \<Longrightarrow> tlb_live fp e' \<and> (tlb_global e' \<or> tlb_asid e' = fp_translation_asid fp)"
    using assms by (auto simp: avz_native_fast_tlb_entry_is_current_def avz_native_fast_revalidate_tlb_entry_def
        entry_ok_def tlb_live_def stale split: if_splits)
qed

subsection \<open>Searching a set\<close>

definition found_entry :: "'c fast_path \<Rightarrow> memory_access \<Rightarrow> nat \<Rightarrow> u64 \<Rightarrow> u64 \<Rightarrow> bool" where
  "found_entry fp a slot vp tag \<longleftrightarrow>
     (let e = fp_tlb fp a slot
      in tlb_live fp e \<and> tlb_virtual_page e = vp \<and> tlb_context_tag e = tag \<and>
         (tlb_global e \<or> tlb_asid e = fp_translation_asid fp))"

definition shrunk :: "'c fast_path \<Rightarrow> 'c fast_path \<Rightarrow> bool" where
  "shrunk fp' fp \<longleftrightarrow> stamps_ok fp' \<and> same_context fp' fp \<and> (\<forall>b. mappings fp' b \<subseteq> mappings fp b)"

lemma shrunk_refl: "stamps_ok fp \<Longrightarrow> shrunk fp fp"
  by (simp add: shrunk_def)

lemma shrunk_trans: "shrunk a b \<Longrightarrow> shrunk b c \<Longrightarrow> shrunk a c"
  unfolding shrunk_def using same_context_trans by blast

lemma shrunk_tables: "same_tables fp' fp \<Longrightarrow> stamps_ok fp \<Longrightarrow> shrunk fp' fp"
  by (simp add: shrunk_def tables_views) (simp add: same_tables_def)

lemma write_validated:
  assumes ok: "stamps_ok fp"
    and cur: "(if P (fp_tlb fp a slot) then avz_native_fast_tlb_entry_is_current fp (fp_tlb fp a slot)
        else (False, fp_tlb fp a slot)) = (hit, e)"
    and P: "P (fp_tlb fp a slot) \<Longrightarrow> tlb_valid (fp_tlb fp a slot) \<and>
      tlb_generation (fp_tlb fp a slot) = fp_translation_generation fp \<and>
      tlb_virtual_page (fp_tlb fp a slot) = vp \<and> tlb_context_tag (fp_tlb fp a slot) = tag"
  shows "shrunk (set_tlb a slot e fp) fp" "hit \<Longrightarrow> found_entry (set_tlb a slot e fp) a slot vp tag"
proof -
  let ?e = "fp_tlb fp a slot"
  have c: "same_context (set_tlb a slot e fp) fp" by simp
  have e: "entry_ok fp e \<and> core e = core ?e \<and> (tlb_live fp e \<longrightarrow> tlb_live fp ?e) \<and>
      (hit \<longrightarrow> tlb_live fp e \<and> (tlb_global e \<or> tlb_asid e = fp_translation_asid fp) \<and>
         tlb_virtual_page e = vp \<and> tlb_context_tag e = tag)"
  proof (cases "P ?e")
    case True
    then have "avz_native_fast_tlb_entry_is_current fp ?e = (hit, e)" using cur by simp
    note entry = current_entry[OF this stamps_entry_ok[OF ok]]
    have "core e = core ?e" using entry(2) P[OF True] by blast
    then have "tlb_virtual_page e = tlb_virtual_page ?e" "tlb_context_tag e = tlb_context_tag ?e"
      by (metis core_fields(1), metis core_fields(5))
    then show ?thesis using entry P[OF True] by blast
  next
    case False
    then show ?thesis using cur stamps_entry_ok[OF ok, of a slot] by simp
  qed
  have "mappings (set_tlb a slot e fp) b \<subseteq> mappings fp b" for b
    using set_tlb_ok[OF ok, of e a slot] e mappingsI(1)[of fp a slot] by (auto split: if_splits)
  then show "shrunk (set_tlb a slot e fp) fp"
    using set_tlb_ok[OF ok, of e a slot] e by (simp add: shrunk_def)
  have "fp_translation_asid (set_tlb a slot e fp) = fp_translation_asid fp" "fp_tlb (set_tlb a slot e fp) a slot = e"
    by (simp_all add: set_tlb_def)
  then show "hit \<Longrightarrow> found_entry (set_tlb a slot e fp) a slot vp tag"
    using e by (simp add: found_entry_def context_views[OF c] Let_def)
qed

lemma search_ways_sound:
  "search_ways a base span vp tag ways fi fp = (found, fi', fp') \<Longrightarrow> stamps_ok fp \<Longrightarrow>
   shrunk fp' fp \<and> (\<forall>slot. found = Some slot \<longrightarrow> found_entry fp' a slot vp tag)"
proof (induction ways arbitrary: fi fp)
  case (Cons way ways)
  let ?slot = "base + way"
  obtain hit e where cur: "(if entry_matches (fp_tlb fp a ?slot) (fp_translation_generation fp) span vp tag
      then avz_native_fast_tlb_entry_is_current fp (fp_tlb fp a ?slot) else (False, fp_tlb fp a ?slot)) = (hit, e)"
    by fastforce
  note w = write_validated[of fp "\<lambda>e. entry_matches e (fp_translation_generation fp) span vp tag",
      OF Cons.prems(2) cur, of vp tag]
  have w1: "shrunk (set_tlb a ?slot e fp) fp" and w2: "hit \<Longrightarrow> found_entry (set_tlb a ?slot e fp) a ?slot vp tag"
    by (rule w; simp add: entry_matches_def)+
  show ?case
  proof (cases hit)
    case True
    then show ?thesis using Cons.prems(1) w1 w2 by (auto simp: Let_def cur)
  next
    case False
    then have "search_ways a base span vp tag ways (if \<not> tlb_valid e \<and> fi = None then Some ?slot else fi)
        (set_tlb a ?slot e fp) = (found, fi', fp')"
      using Cons.prems(1) by (simp add: Let_def cur)
    from Cons.IH[OF this] show ?thesis using w1 by (auto simp: shrunk_def intro: shrunk_trans[unfolded shrunk_def] same_context_trans)
  qed
qed (simp add: shrunk_refl)

lemma search_instruction_ways_sound:
  "search_instruction_ways base vp tag ways fi inv0 fp = (found, fi', inv', fp') \<Longrightarrow> stamps_ok fp \<Longrightarrow>
   shrunk fp' fp \<and> (\<forall>slot. found = Some slot \<longrightarrow> found_entry fp' Access_Instruction slot vp tag)"
proof (induction ways arbitrary: fi inv0 fp)
  case (Cons way ways)
  let ?a = Access_Instruction and ?slot = "base + way"
  let ?P = "\<lambda>e. tlb_valid e \<and> tlb_generation e = fp_translation_generation fp \<and>
      (tlb_virtual_page e = vp \<and> tlb_context_tag e = tag)"
  obtain hit e where cur: "(if ?P (fp_tlb fp ?a ?slot)
      then avz_native_fast_tlb_entry_is_current fp (fp_tlb fp ?a ?slot) else (False, fp_tlb fp ?a ?slot)) = (hit, e)"
    by fastforce
  note w = write_validated[of fp ?P, OF Cons.prems(2) cur, of vp tag]
  have w1: "shrunk (set_tlb ?a ?slot e fp) fp" and w2: "hit \<Longrightarrow> found_entry (set_tlb ?a ?slot e fp) ?a ?slot vp tag"
    by (rule w; blast)+
  show ?case
  proof (cases hit)
    case True
    then show ?thesis using Cons.prems(1) w1 w2 by (auto simp: Let_def cur)
  next
    case False
    obtain fi1 inv1 where "search_instruction_ways base vp tag ways fi1 inv1 (set_tlb ?a ?slot e fp) = (found, fi', inv', fp')"
      using Cons.prems(1) False by (simp add: Let_def cur)
    from Cons.IH[OF this] show ?thesis using w1 by (auto simp: shrunk_def intro: same_context_trans)
  qed
qed (simp add: shrunk_refl)

subsection \<open>Mappings that agree with the page tables\<close>

text \<open>
  The states the guest switches between: each with a sane input size, and no two of them with
  one tag for different tables. The second condition holds of itself for states of one exception
  level and geometry (\<open>tag_identifies_table\<close>).
\<close>

definition contexts_ok :: "stage1_state set \<Rightarrow> bool" where
  "contexts_ok S \<longleftrightarrow> (\<forall>s\<in>S. regime_ok s) \<and>
     (\<forall>s\<in>S. \<forall>s'\<in>S. \<forall>va. state_tag s va = state_tag s' va \<longrightarrow> same_regime s s' va)"

definition path_ok :: "stage1_state set \<Rightarrow> 'c fast_path \<Rightarrow> bool" where
  "path_ok S fp \<longleftrightarrow> fp_native_translation_enabled fp \<and> fp_translation_state fp \<in> S \<and>
     fp_translation_asid fp = avz_stage1_asid (fp_translation_state fp) \<and>
     (\<forall>va. avz_fast_translation_context_tag fp va = state_tag (fp_translation_state fp) va)"

definition mapping_shape :: "'c fast_path \<Rightarrow> memory_access \<Rightarrow> tlb_entry \<Rightarrow> bool" where
  "mapping_shape fp a m \<longleftrightarrow> page_offset_of (tlb_physical_page m) = 0 \<and>
     tlb_host_page m = host_of_page fp (tlb_physical_page m) \<and>
     (if a = Access_Instruction then tlb_host_page m \<noteq> None \<and> tlb_contiguous_span m = 4096
      else tlb_contiguous_span m = contiguous_span_of fp (tlb_physical_page m))"

definition walk_agrees :: "stage1_state set \<Rightarrow> 'c fast_path \<Rightarrow> (nat \<Rightarrow> u8) \<Rightarrow> memory_access \<Rightarrow> tlb_entry \<Rightarrow> bool" where
  "walk_agrees S fp bytes a m \<longleftrightarrow>
     (\<forall>s\<in>S. \<forall>va. shr va 12 = tlb_virtual_page m \<and> state_tag s va = tlb_context_tag m \<and>
        (tlb_global m \<or> tlb_asid m = avz_stage1_asid s) \<longrightarrow>
        stage1_outcome (fp\<lparr>fp_translation_state := s\<rparr>) bytes va a =
          Inr (tlb_physical_page m + page_offset_of va, tlb_global m, tlb_leaf_shift m))"

text \<open>Every live mapping that no invalidation in \<open>T\<close> covers agrees with the page tables.\<close>

definition sound :: "stage1_state set \<Rightarrow> 'c fast_path \<Rightarrow> (nat \<Rightarrow> u8) \<Rightarrow> tlbi set \<Rightarrow> bool" where
  "sound S fp bytes T \<longleftrightarrow> (\<forall>a. \<forall>m \<in> mappings fp a.
     mapping_shape fp a m \<and> ((\<forall>t\<in>T. \<not> covers t m) \<longrightarrow> walk_agrees S fp bytes a m))"

lemma soundD:
  "sound S fp bytes {} \<Longrightarrow> m \<in> mappings fp a \<Longrightarrow> mapping_shape fp a m \<and> walk_agrees S fp bytes a m"
  by (simp add: sound_def)

lemma context_sound:
  assumes "same_context fp' fp"
  shows "mapping_shape fp' = mapping_shape fp" "walk_agrees S fp' = walk_agrees S fp" "path_ok S fp' = path_ok S fp"
proof -
  note v = context_views[OF assms]
  show "mapping_shape fp' = mapping_shape fp" by (intro ext) (simp only: mapping_shape_def v)
  show "walk_agrees S fp' = walk_agrees S fp" by (intro ext) (simp only: walk_agrees_def v)
  have f: "fp_native_translation_enabled fp' = fp_native_translation_enabled fp"
    "fp_translation_state fp' = fp_translation_state fp" "fp_translation_asid fp' = fp_translation_asid fp"
    using assms by (simp_all add: same_context_def)
  show "path_ok S fp' = path_ok S fp" by (simp only: path_ok_def f v)
qed

lemma sound_shrunk: "shrunk fp' fp \<Longrightarrow> sound S fp bytes T \<Longrightarrow> sound S fp' bytes T"
  using context_sound[where fp' = fp' and fp = fp] unfolding shrunk_def sound_def by (metis subsetD)

lemma outcome_same_context:
  assumes "same_context fp' fp"
  shows "stage1_outcome fp' bytes va a = stage1_outcome fp bytes va a"
proof -
  have s: "fp_translation_state fp' = fp_translation_state fp" using assms by (simp add: same_context_def)
  have "fp'\<lparr>fp_translation_state := fp_translation_state fp\<rparr> = fp'" by (simp flip: s)
  then show ?thesis using context_views(10)[OF assms, of "fp_translation_state fp" bytes va a] by simp
qed

text \<open>What a live entry of the page answers.\<close>

lemma entry_answers:
  assumes "sound S fp bytes {}" "path_ok S fp" "core e \<in> mappings fp a"
    "tlb_virtual_page e = shr va 12" "tlb_context_tag e = avz_fast_translation_context_tag fp va"
    "tlb_global e \<or> tlb_asid e = fp_translation_asid fp"
  shows "stage1_outcome fp bytes va a = Inr (tlb_physical_page e + page_offset_of va, tlb_global e, tlb_leaf_shift e)"
    "mapping_shape fp a (core e)"
proof -
  note m = soundD[OF assms(1,3)]
  show "mapping_shape fp a (core e)" using m by blast
  have "fp\<lparr>fp_translation_state := fp_translation_state fp\<rparr> = fp" by simp
  then show "stage1_outcome fp bytes va a = Inr (tlb_physical_page e + page_offset_of va, tlb_global e, tlb_leaf_shift e)"
    using m[THEN conjunct2, unfolded walk_agrees_def, rule_format, of "fp_translation_state fp" va] assms(2,4,5,6)
    by (simp add: path_ok_def)
qed

text \<open>A new entry agrees with the walk that filled it, in every context that has its tag.\<close>

lemma filled_agrees:
  assumes S: "contexts_ok S" and p: "path_ok S fp" and walk: "stage1_outcome fp bytes va a = Inr (pa, g, sh)"
    and m: "tlb_virtual_page m = shr va 12" "tlb_context_tag m = avz_fast_translation_context_tag fp va"
      "tlb_physical_page m = page_start pa" "tlb_global m = g" "tlb_leaf_shift m = sh"
  shows "walk_agrees S fp bytes a m"
  unfolding walk_agrees_def
proof (intro ballI allI impI)
  let ?s = "fp_translation_state fp"
  fix s va' assume s: "s \<in> S"
    and va': "shr va' 12 = tlb_virtual_page m \<and> state_tag s va' = tlb_context_tag m \<and> (tlb_global m \<or> tlb_asid m = avz_stage1_asid s)"
  have page: "shr va' 12 = shr va 12" using va' m(1) by simp
  have half: "shr va' 63 = shr va 63"
    using arg_cong[OF page, of "\<lambda>w. shr w 51"] by simp
  have "state_tag ?s va' = state_tag ?s va" by (simp add: state_tag_def state_ttbr_def half)
  moreover have "tlb_context_tag m = state_tag ?s va" using p m(2) by (simp add: path_ok_def)
  ultimately have "same_regime s ?s va'"
    using S s p va' by (simp add: contexts_ok_def path_ok_def)
  then have "stage1_outcome (fp\<lparr>fp_translation_state := s\<rparr>) bytes va' a = stage1_outcome fp bytes va' a"
    using outcome_regime[of s ?s va' fp bytes a] by simp
  also have "\<dots> = rebase va' (stage1_outcome fp bytes va a)"
    using outcome_rebase[OF _ page, of fp bytes a] S p by (simp add: contexts_ok_def path_ok_def)
  finally show "stage1_outcome (fp\<lparr>fp_translation_state := s\<rparr>) bytes va' a =
      Inr (tlb_physical_page m + page_offset_of va', tlb_global m, tlb_leaf_shift m)"
    by (simp add: walk rebase_def m)
qed

lemma outcome_offset:
  assumes "contexts_ok S" "path_ok S fp" "stage1_outcome fp bytes va a = Inr (pa, g, sh)"
  shows "page_offset_of pa = page_offset_of va"
  using outcome_rebase[of fp va va bytes a] assms by (simp add: contexts_ok_def path_ok_def keeps_offset_def)

lemma resolve_outcome:
  assumes "fp_native_translation_enabled fp" "avz_resolve_translation bytes va w a fallback fp = (r, fp')"
  shows "same_tables fp' fp"
    "r = (case stage1_outcome fp bytes va a of Inl _ \<Rightarrow> None
          | Inr (pa, g, sh) \<Rightarrow> Some (pa, avz_stage1_asid (fp_translation_state fp), g, sh))"
proof -
  let ?c = "count_memory_statistic Native_Page_Table_Walks fp"
  have st: "fp_translation_state ?c = fp_translation_state fp" by (simp add: count_memory_statistic_def)
  have "stage1_outcome ?c bytes va a = stage1_outcome fp bytes va a"
    by (rule outcome_same_context) simp
  then have walk: "st_sctlr_el1 (fp_translation_state fp) AND 1 \<noteq> 0 \<Longrightarrow> stage1_walk ?c bytes va a = stage1_outcome fp bytes va a"
    using st by (simp add: stage1_outcome_def)
  show "same_tables fp' fp"
    "r = (case stage1_outcome fp bytes va a of Inl _ \<Rightarrow> None
          | Inr (pa, g, sh) \<Rightarrow> Some (pa, avz_stage1_asid (fp_translation_state fp), g, sh))"
  proof (atomize (full), cases "st_sctlr_el1 (fp_translation_state fp) AND 1 = 0")
    case True
    then show "same_tables fp' fp \<and> r = (case stage1_outcome fp bytes va a of Inl _ \<Rightarrow> None
        | Inr (pa, g, sh) \<Rightarrow> Some (pa, avz_stage1_asid (fp_translation_state fp), g, sh))"
      using assms by (auto simp: avz_resolve_translation_def avz_stage1_translate_def stage1_outcome_def)
  next
    case False
    then show "same_tables fp' fp \<and> r = (case stage1_outcome fp bytes va a of Inl _ \<Rightarrow> None
        | Inr (pa, g, sh) \<Rightarrow> Some (pa, avz_stage1_asid (fp_translation_state fp), g, sh))"
      using assms walk[OF False] same_tables_trans[OF same_tables_updates(5) same_tables_updates(2), of va a _ _ _ fp]
      by (cases "stage1_outcome fp bytes va a")
        (auto simp: avz_resolve_translation_def avz_stage1_translate_def Let_def)
  qed
qed

subsection \<open>Data translations are transparent\<close>

text \<open>The answer without any TLB: walk the page tables, then locate the page.\<close>

definition uncached_translation :: "'c fast_path \<Rightarrow> (nat \<Rightarrow> u8) \<Rightarrow> u64 \<Rightarrow> u8 \<Rightarrow> memory_access \<Rightarrow> fast_translation" where
  "uncached_translation fp bytes va width a =
     (case stage1_outcome fp bytes va a of
        Inl _ \<Rightarrow> Translation_Failed
      | Inr (pa, _, _) \<Rightarrow>
          finish_translation fp (page_offset_of va) width (page_start pa) (host_of_page fp (page_start pa)))"

definition inside_page :: "u64 \<Rightarrow> u8 \<Rightarrow> bool" where
  "inside_page va width \<longleftrightarrow> unat (page_offset_of va) + unat width \<le> 4096"

lemma inside_page_span:
  "(page_offset_of va + ucast width > (4096 :: u64)) \<longleftrightarrow> \<not> inside_page va width"
  "inside_page va width \<Longrightarrow> unat (page_offset_of va + ucast width) = unat (page_offset_of va) + unat width"
proof -
  have w: "unat (ucast width :: u64) = unat width" by (simp add: unsigned_ucast_eq take_bit_nat_eq_self_iff order.strict_trans[OF unsigned_less])
  have "unat (page_offset_of va + ucast width) = unat (page_offset_of va) + unat width"
    using page_offset_less[of va] unsigned_less[of width, where ?'a = nat]
    by (subst unat_add_lem[THEN iffD1]) (simp_all add: w)
  then show "(page_offset_of va + ucast width > (4096 :: u64)) \<longleftrightarrow> \<not> inside_page va width"
    "inside_page va width \<Longrightarrow> unat (page_offset_of va + ucast width) = unat (page_offset_of va) + unat width"
    by (auto simp: word_less_nat_alt inside_page_def)
qed

lemma hot_finish:
  assumes m: "mapping_shape fp a m" and a: "a \<noteq> Access_Instruction" and inside: "inside_page va width"
    and span: "ucast (tlb_contiguous_span m) \<ge> page_offset_of va + ucast width"
  shows "(case tlb_host_page m of
      Some host \<Rightarrow> Translation_RAM (tlb_physical_page m + page_offset_of va) (host + unat (page_offset_of va))
    | None \<Rightarrow> if tlb_physical_page m > - 1 - page_offset_of va then Translation_Failed
        else Translation_Physical (tlb_physical_page m + page_offset_of va)) =
    finish_translation fp (page_offset_of va) width (tlb_physical_page m) (tlb_host_page m)"
proof (cases "tlb_host_page m")
  case None
  then show ?thesis by (simp add: finish_translation_def)
next
  case (Some host)
  let ?p = "tlb_physical_page m" and ?off = "page_offset_of va"
  have p: "page_offset_of ?p = 0" and h: "host_of_page fp ?p = Some host"
    and sp: "tlb_contiguous_span m = contiguous_span_of fp ?p"
    using m a Some by (auto simp: mapping_shape_def)
  have base: "fp_ram_base fp \<le> ?p" and less: "?p - fp_ram_base fp < fp_ram_size fp"
    using h by (auto simp: host_of_page_def split: if_splits)
  let ?d = "?p - fp_ram_base fp"
  let ?rem = "fp_ram_size fp - ?d"
  have rem: "unat ?rem = unat (fp_ram_size fp) - unat ?d" using less by (simp add: unat_sub)
  let ?s = "if 4096 > ?rem then ?rem else 4096"
  have s: "unat ?s \<le> 4096" "unat ?s \<le> unat ?rem" by (auto simp: word_less_nat_alt not_less)
  have "tlb_contiguous_span m = ucast ?s" using h by (simp add: sp contiguous_span_of_def)
  then have "unat (ucast (tlb_contiguous_span m) :: u64) \<le> unat ?s"
    by (simp only: order.trans[OF unat_ucast_le unat_ucast_le])
  then have fits: "unat ?off + unat width \<le> unat ?rem"
    using span s inside_page_span(2)[OF inside] by (simp add: word_le_nat_alt)
  have d: "unat ?d < unat (fp_ram_size fp)" using less by (simp add: word_less_nat_alt)
  have sum: "unat (?d + ?off) = unat ?d + unat ?off"
    using fits rem d unsigned_less[of "fp_ram_size fp", where ?'a = nat]
    by (intro unat_add_lem[THEN iffD1]) simp
  have "\<not> ?d + ?off > fp_ram_size fp" using fits rem d by (simp add: word_less_nat_alt sum)
  moreover have "\<not> ucast width > fp_ram_size fp - (?d + ?off)"
  proof -
    have "unat (fp_ram_size fp - (?d + ?off)) = unat (fp_ram_size fp) - (unat ?d + unat ?off)"
      using fits rem d by (subst unat_sub) (simp_all add: word_le_nat_alt sum)
    moreover have "unat (ucast width :: u64) = unat width"
      by (simp add: unsigned_ucast_eq take_bit_nat_eq_self_iff order.strict_trans[OF unsigned_less])
    ultimately show ?thesis using fits rem d by (simp add: word_less_nat_alt)
  qed
  ultimately show ?thesis
    using Some base aligned_no_overflow(1)[OF p, of va] by (simp add: finish_translation_def not_less Let_def)
qed

lemma uncached_context:
  assumes "same_context fp' fp"
  shows "uncached_translation fp' bytes va width a = uncached_translation fp bytes va width a"
  by (simp only: uncached_translation_def outcome_same_context[OF assms] context_views[OF assms])

text \<open>A live entry of the page answers like the walk.\<close>

lemma entry_uncached:
  assumes "sound S fp bytes {}" "path_ok S fp" "core e \<in> mappings fp a"
    "tlb_virtual_page e = shr va 12" "tlb_context_tag e = avz_fast_translation_context_tag fp va"
    "tlb_global e \<or> tlb_asid e = fp_translation_asid fp"
  shows "finish_translation fp (page_offset_of va) width (tlb_physical_page e) (tlb_host_page e) =
    uncached_translation fp bytes va width a"
  using entry_answers[OF assms] by (simp add: uncached_translation_def mapping_shape_def)

lemma hot_entry:
  assumes "stamps_ok fp" "entry_matches (fp_hot fp a i) (fp_hot_translation_generation fp) span vp tag"
  shows "core (fp_hot fp a i) \<in> mappings fp a" "tlb_virtual_page (fp_hot fp a i) = vp"
    "tlb_context_tag (fp_hot fp a i) = tag"
    "tlb_global (fp_hot fp a i) \<or> tlb_asid (fp_hot fp a i) = fp_translation_asid fp"
  using assms stamps_okD(5)[OF assms(1), of a i] mappingsI(2)[of fp a i]
  by (simp_all add: entry_matches_def hot_live_def)

text \<open>Filling a way: the new entry is live, agrees with the walk and answers like it.\<close>

lemma choose_way_tables: "same_tables (snd (choose_way a s fi fp)) fp"
  by (simp add: choose_way_def Let_def split: option.split)

lemma install_entry:
  assumes S: "contexts_ok S" and p: "path_ok S fp" and ok: "stamps_ok fp" and so: "sound S fp bytes {}"
    and walk: "stage1_outcome fp bytes va a = Inr (pa, g, sh)"
    and e: "e = new_tlb_entry fp (shr va 12) (avz_fast_translation_context_tag fp va) (pa - page_offset_of va)
        host span (avz_stage1_asid (fp_translation_state fp), g, sh)"
    and shape: "mapping_shape fp a (core e)"
  shows "stamps_ok (set_tlb a slot e fp)" "sound S (set_tlb a slot e fp) bytes {}" "core e \<in> mappings (set_tlb a slot e fp) a"
    "found_entry (set_tlb a slot e fp) a slot (shr va 12) (avz_fast_translation_context_tag fp va)"
proof -
  let ?fp = "set_tlb a slot e fp"
  have c: "same_context ?fp fp" by simp
  have eok: "entry_ok fp e" using leaf_shifts[OF walk] by (simp add: e entry_ok_def new_tlb_entry_def)
  have live: "tlb_live fp e" by (simp add: e tlb_live_def new_tlb_entry_def)
  note off = outcome_offset[OF S p walk]
  have agree: "walk_agrees S fp bytes a (core e)"
    by (rule filled_agrees[OF S p walk]) (simp_all add: e new_tlb_entry_def page_part[OF off])
  show "stamps_ok ?fp" using set_tlb_ok[OF ok eok] by blast
  have entry: "fp_tlb ?fp a slot = e" by (simp add: set_tlb_def)
  show "core e \<in> mappings ?fp a" using mappingsI(1)[of ?fp a slot] live by (simp add: entry context_views[OF c])
  have "mapping_shape fp b m \<and> walk_agrees S fp bytes b m" if "m \<in> mappings ?fp b" for b m
    using that set_tlb_ok[OF ok eok, of a slot] soundD[OF so] agree shape by (fastforce split: if_splits)
  then show "sound S ?fp bytes {}" by (simp add: sound_def context_sound[OF c])
  have "fp_translation_asid ?fp = avz_stage1_asid (fp_translation_state fp)" using p by (simp add: path_ok_def set_tlb_def)
  then show "found_entry ?fp a slot (shr va 12) (avz_fast_translation_context_tag fp va)"
    using live by (simp add: found_entry_def Let_def entry context_views[OF c]) (simp add: e new_tlb_entry_def)
qed

definition good :: "stage1_state set \<Rightarrow> 'c fast_path \<Rightarrow> (nat \<Rightarrow> u8) \<Rightarrow> bool" where
  "good S fp bytes \<longleftrightarrow> path_ok S fp \<and> stamps_ok fp \<and> sound S fp bytes {}"

lemma good_shrunk: "shrunk fp' fp \<Longrightarrow> good S fp bytes \<Longrightarrow> good S fp' bytes"
  using sound_shrunk[of fp' fp S bytes "{}"] by (auto simp: good_def shrunk_def context_sound)

lemma good_tables: "same_tables fp' fp \<Longrightarrow> good S fp bytes \<Longrightarrow> good S fp' bytes"
  using good_shrunk[OF shrunk_tables] by (auto simp: good_def)

lemma found_good:
  assumes "good S fp bytes" "found_entry fp a slot (shr va 12) (avz_fast_translation_context_tag fp va)"
  shows "finish_translation fp (page_offset_of va) width (tlb_physical_page (fp_tlb fp a slot)) (tlb_host_page (fp_tlb fp a slot)) =
      uncached_translation fp bytes va width a"
    "good S (set_hot a i ((fp_tlb fp a slot)\<lparr>tlb_generation := fp_hot_translation_generation fp\<rparr>) fp) bytes"
proof -
  let ?e = "fp_tlb fp a slot" and ?h = "(fp_tlb fp a slot)\<lparr>tlb_generation := fp_hot_translation_generation fp\<rparr>"
  have m: "core ?e \<in> mappings fp a" using assms(2) mappingsI(1)[of fp a slot] by (simp add: found_entry_def Let_def)
  show "finish_translation fp (page_offset_of va) width (tlb_physical_page ?e) (tlb_host_page ?e) =
      uncached_translation fp bytes va width a"
    by (rule entry_uncached[OF _ _ m]) (use assms in \<open>auto simp: good_def found_entry_def Let_def\<close>)
  have "stamps_ok (set_hot a i ?h fp) \<and> (\<forall>b. mappings (set_hot a i ?h fp) b \<subseteq> mappings fp b)"
    by (rule set_hot_ok) (use assms m in \<open>auto simp: good_def found_entry_def Let_def\<close>)
  then have "shrunk (set_hot a i ?h fp) fp" by (simp add: shrunk_def)
  then show "good S (set_hot a i ?h fp) bytes" using assms(1) by (rule good_shrunk)
qed

lemma fill_data_way_good:
  assumes S: "contexts_ok S" and g: "good S fp bytes" and a: "a \<noteq> Access_Instruction"
    and fill: "fill_data_way bytes va width a (avz_fast_translation_context_tag fp va) fi fp = (r, fp')"
  shows "same_context fp' fp" "good S fp' bytes" "r = None \<Longrightarrow> uncached_translation fp bytes va width a = Translation_Failed"
    "r = Some slot \<Longrightarrow> found_entry fp' a slot (shr va 12) (avz_fast_translation_context_tag fp va)"
proof -
  let ?tag = "avz_fast_translation_context_tag fp va"
  let ?fp0 = "count_memory_statistic (data_misses a) fp"
  obtain x fp1 where res: "avz_resolve_translation bytes va width a (fp_translate_ram ?fp0) ?fp0 = (x, fp1)"
    by fastforce
  have t0: "same_tables ?fp0 fp" by simp
  then have c0: "same_context ?fp0 fp" by (simp add: same_tables_def)
  have en: "fp_native_translation_enabled ?fp0" and st: "fp_translation_state ?fp0 = fp_translation_state fp"
    using g by (simp_all add: good_def path_ok_def count_memory_statistic_def)
  have t1: "same_tables fp1 fp" using resolve_outcome(1)[OF en res] t0 by (rule same_tables_trans)
  then have c1: "same_context fp1 fp" by (simp add: same_tables_def)
  have x: "x = (case stage1_outcome fp bytes va a of Inl _ \<Rightarrow> None
      | Inr (pa, g, sh) \<Rightarrow> Some (pa, avz_stage1_asid (fp_translation_state fp), g, sh))"
    using resolve_outcome(2)[OF en res] by (simp only: outcome_same_context[OF c0] st)
  have "same_context fp' fp \<and> good S fp' bytes \<and> (r = None \<longrightarrow> uncached_translation fp bytes va width a = Translation_Failed) \<and>
      (\<forall>slot. r = Some slot \<longrightarrow> found_entry fp' a slot (shr va 12) ?tag)"
  proof (cases "stage1_outcome fp bytes va a")
    case (Inl f)
    then have "r = None" "fp' = fp1" using fill res x by (simp_all add: fill_data_way_def Let_def)
    then show ?thesis using c1 good_tables[OF t1 g] Inl by (simp add: uncached_translation_def)
  next
    case (Inr y)
    obtain pa gl sh where y: "stage1_outcome fp bytes va a = Inr (pa, gl, sh)" using Inr by (cases y) auto
    have p: "path_ok S fp" using g by (simp add: good_def)
    note off = outcome_offset[OF S p y]
    have le: "\<not> pa < page_offset_of va" using page_part_le[of pa] off by (simp add: not_less)
    obtain i fp2 where way: "choose_way a (tlb_set_of fp va) fi fp1 = (i, fp2)" by fastforce
    have t2: "same_tables fp2 fp" using choose_way_tables[of a "tlb_set_of fp va" fi fp1] t1 by (simp add: way same_tables_trans)
    then have c2: "same_context fp2 fp" by (simp add: same_tables_def)
    have g2: "good S fp2 bytes" using t2 g by (rule good_tables)
    let ?e = "new_tlb_entry fp2 (shr va 12) ?tag (pa - page_offset_of va) (host_of_page fp2 (pa - page_offset_of va))
        (contiguous_span_of fp2 (pa - page_offset_of va)) (avz_stage1_asid (fp_translation_state fp), gl, sh)"
    have r: "r = Some i" and fp': "fp' = set_tlb a i ?e fp2"
      using fill res x y le way by (simp_all add: fill_data_way_def Let_def context_views[OF c0])
    have tag: "avz_fast_translation_context_tag fp2 va = ?tag" by (simp add: context_views[OF c2])
    have y2: "stage1_outcome fp2 bytes va a = Inr (pa, gl, sh)" by (simp add: outcome_same_context[OF c2] y)
    have e: "?e = new_tlb_entry fp2 (shr va 12) (avz_fast_translation_context_tag fp2 va) (pa - page_offset_of va)
        (host_of_page fp2 (pa - page_offset_of va)) (contiguous_span_of fp2 (pa - page_offset_of va))
        (avz_stage1_asid (fp_translation_state fp2), gl, sh)"
      using c2 by (simp add: tag same_context_def)
    have shape: "mapping_shape fp2 a (core ?e)"
      using a by (simp add: mapping_shape_def new_tlb_entry_def page_part[OF off])
    have 2: "path_ok S fp2" "stamps_ok fp2" "sound S fp2 bytes {}" using g2 by (simp_all add: good_def)
    note inst = install_entry[OF S 2 y2 e shape, of i]
    have c': "same_context fp' fp" unfolding fp' by (rule same_context_trans[OF same_context_updates(1) c2])
    then have "path_ok S fp'" using p by (simp add: context_sound)
    then have "good S fp' bytes" using inst(1,2) by (simp add: good_def fp')
    moreover have "found_entry fp' a i (shr va 12) ?tag" using inst(4) by (simp add: fp' tag)
    ultimately show ?thesis using c' r by simp
  qed
  then show "same_context fp' fp" "good S fp' bytes" "r = None \<Longrightarrow> uncached_translation fp bytes va width a = Translation_Failed"
    "r = Some slot \<Longrightarrow> found_entry fp' a slot (shr va 12) ?tag" by blast+
qed

lemma cold_transparent:
  assumes S: "contexts_ok S" and g: "good S fp bytes" and a: "a \<noteq> Access_Instruction"
    and ram: "fp_ram fp \<noteq> None" and width: "avz_fast_width_supported width" and inside: "inside_page va width"
  shows "\<exists>fp'. avz_fast_translate_cold bytes va width a fp = (uncached_translation fp bytes va width a, fp') \<and>
    same_context fp' fp \<and> good S fp' bytes"
proof -
  let ?tag = "avz_fast_translation_context_tag fp va" and ?vp = "shr va 12"
  let ?span = "page_offset_of va + ucast width" and ?i = "hot_index_of ?vp ?tag"
  have ok: "stamps_ok fp" "path_ok S fp" "sound S fp bytes {}" using g by (simp_all add: good_def)
  have page: "\<not> ?span > 4096" using inside by (simp add: inside_page_span(1))
  show ?thesis
  proof (cases "entry_matches (fp_hot fp a ?i) (fp_hot_translation_generation fp) ?span ?vp ?tag")
    case True
    note h = hot_entry[OF ok(1) True]
    have "finish_translation fp (page_offset_of va) width (tlb_physical_page (fp_hot fp a ?i)) (tlb_host_page (fp_hot fp a ?i)) =
        uncached_translation fp bytes va width a"
      by (rule entry_uncached[OF ok(3,2) h(1)]) (use h in auto)
    moreover have "avz_fast_translate_cold bytes va width a fp =
        (finish_translation fp (page_offset_of va) width (tlb_physical_page (fp_hot fp a ?i)) (tlb_host_page (fp_hot fp a ?i)),
         count_memory_statistic (data_hits a) fp)"
      using True ram width page by (auto simp: avz_fast_translate_cold_def Let_def)
    ultimately show ?thesis using good_tables[OF same_tables_updates(2) g, of "data_hits a"] by simp
  next
    case False
    obtain found fi fp1 where s: "search_ways a (tlb_set_of fp va * 4) ?span ?vp ?tag [0 ..< 4] None fp = (found, fi, fp1)"
      by (metis prod_cases3)
    have shr1: "shrunk fp1 fp" and f1: "\<And>slot. found = Some slot \<Longrightarrow> found_entry fp1 a slot ?vp ?tag"
      using search_ways_sound[OF s ok(1)] by auto
    have c1: "same_context fp1 fp" using shr1 by (simp add: shrunk_def)
    have g1: "good S fp1 bytes" using shr1 g by (rule good_shrunk)
    have tag1: "avz_fast_translation_context_tag fp1 va = ?tag" by (simp add: context_views[OF c1])
    let ?next = "case found of Some slot \<Rightarrow> (Some slot, count_memory_statistic (data_hits a) fp1)
        | None \<Rightarrow> fill_data_way bytes va width a ?tag fi fp1"
    obtain slot fp2 where n: "?next = (slot, fp2)" by fastforce
    have 2: "same_context fp2 fp \<and> good S fp2 bytes \<and>
        (slot = None \<longrightarrow> uncached_translation fp bytes va width a = Translation_Failed) \<and>
        (\<forall>i. slot = Some i \<longrightarrow> found_entry fp2 a i ?vp ?tag)"
    proof (cases found)
      case None
      then have "fill_data_way bytes va width a (avz_fast_translation_context_tag fp1 va) fi fp1 = (slot, fp2)"
        using n by (simp add: tag1)
      note fill = fill_data_way_good[OF S g1 a this]
      then show ?thesis using same_context_trans[OF fill(1) c1] by (simp add: tag1 uncached_context[OF c1])
    next
      case (Some i)
      let ?fp2 = "count_memory_statistic (data_hits a) fp1"
      have eq: "slot = Some i" "fp2 = ?fp2" using n Some by auto
      have t: "same_tables ?fp2 fp1" by simp
      then have c2: "same_context ?fp2 fp1" and tt: "fp_tlb ?fp2 = fp_tlb fp1" by (simp_all add: same_tables_def)
      have "fp_translation_asid ?fp2 = fp_translation_asid fp1" using c2 by (simp add: same_context_def)
      then have "found_entry ?fp2 a i ?vp ?tag" using f1[OF Some] by (simp add: found_entry_def tt context_views[OF c2])
      then show ?thesis using eq same_context_trans[OF c2 c1] good_tables[OF t g1] by simp
    qed
    then have c2: "same_context fp2 fp" and g2: "good S fp2 bytes" by blast+
    have tag2: "avz_fast_translation_context_tag fp2 va = ?tag" by (simp add: context_views[OF c2])
    let ?cold = "avz_fast_translate_cold bytes va width a fp"
    have cold: "?cold = (case slot of None \<Rightarrow> (Translation_Failed, fp2)
        | Some i \<Rightarrow> (finish_translation fp2 (page_offset_of va) width (tlb_physical_page (fp_tlb fp2 a i)) (tlb_host_page (fp_tlb fp2 a i)),
            set_hot a ?i ((fp_tlb fp2 a i)\<lparr>tlb_generation := fp_hot_translation_generation fp2\<rparr>) fp2))"
    proof -
      have "finish_translation (set_hot a j e fp2) = finish_translation fp2" for j e
        by (rule context_views) simp
      then show ?thesis using False ram width page n
        by (simp add: avz_fast_translate_cold_def Let_def s split: option.splits)
    qed
    show ?thesis
    proof (cases slot)
      case None
      then show ?thesis using cold 2 by simp
    next
      case (Some i)
      then have f: "found_entry fp2 a i (shr va 12) (avz_fast_translation_context_tag fp2 va)" using 2 tag2 by simp
      note fg = found_good[OF g2 f]
      show ?thesis using cold Some fg(1)[of width] fg(2)[of ?i] same_context_trans[OF same_context_updates(2) c2]
        by (simp add: uncached_context[OF c2])
    qed
  qed
qed

lemma hot_transparent:
  assumes S: "contexts_ok S" and g: "good S fp bytes" and a: "a \<noteq> Access_Instruction"
    and ram: "fp_ram fp \<noteq> None" and width: "avz_fast_width_supported width" and inside: "inside_page va width"
  shows "\<exists>fp'. fast_translate_hot bytes va width a fp = (uncached_translation fp bytes va width a, fp') \<and>
    same_context fp' fp \<and> good S fp' bytes"
proof -
  let ?tag = "avz_fast_translation_context_tag fp va" and ?vp = "shr va 12"
  let ?span = "page_offset_of va + ucast width"
  let ?hot = "fp_hot fp a (hot_index_of ?vp ?tag)"
  have page: "\<not> ?span > 4096" using inside by (simp add: inside_page_span(1))
  show ?thesis
  proof (cases "entry_matches ?hot (fp_hot_translation_generation fp) ?span ?vp ?tag")
    case False
    then have "fast_translate_hot bytes va width a fp = avz_fast_translate_cold bytes va width a fp"
      using page by (simp add: fast_translate_hot_def Let_def)
    then show ?thesis using cold_transparent[OF assms] by simp
  next
    case True
    have ok: "stamps_ok fp" "path_ok S fp" "sound S fp bytes {}" using g by (simp_all add: good_def)
    note h = hot_entry[OF ok(1) True]
    have shape: "mapping_shape fp a (core ?hot)" using soundD[OF ok(3) h(1)] by blast
    have span: "ucast (tlb_contiguous_span (core ?hot)) \<ge> ?span" using True by (simp add: entry_matches_def)
    have fin: "finish_translation fp (page_offset_of va) width (tlb_physical_page ?hot) (tlb_host_page ?hot) =
        uncached_translation fp bytes va width a"
      by (rule entry_uncached[OF ok(3,2) h(1)]) (use h in auto)
    have "fast_translate_hot bytes va width a fp = (case tlb_host_page (core ?hot) of
        Some host \<Rightarrow> Translation_RAM (tlb_physical_page (core ?hot) + page_offset_of va) (host + unat (page_offset_of va))
      | None \<Rightarrow> if tlb_physical_page (core ?hot) > - 1 - page_offset_of va then Translation_Failed
          else Translation_Physical (tlb_physical_page (core ?hot) + page_offset_of va), count_memory_statistic (data_hits a) fp)"
      using True page by (simp add: fast_translate_hot_def Let_def split: option.split)
    then have "fast_translate_hot bytes va width a fp =
        (uncached_translation fp bytes va width a, count_memory_statistic (data_hits a) fp)"
      unfolding hot_finish[OF shape a inside span] by (simp only: core_fields fin)
    then show ?thesis using good_tables[OF same_tables_updates(2) g, of "data_hits a"] by simp
  qed
qed

subsection \<open>Instruction translations are transparent\<close>

definition uncached_instruction :: "'c fast_path \<Rightarrow> (nat \<Rightarrow> u8) \<Rightarrow> u64 \<Rightarrow> (u64 \<times> nat) option" where
  "uncached_instruction fp bytes va =
     (case uncached_translation fp bytes va 4 Access_Instruction of
        Translation_RAM physical host \<Rightarrow> Some (physical, host) | _ \<Rightarrow> None)"

lemma finish_instruction:
  assumes "mapping_shape fp Access_Instruction (core e)"
  shows "(if tlb_physical_page e < fp_ram_base fp then None
      else let offset = tlb_physical_page e - fp_ram_base fp + page_offset_of va
           in if offset > fp_ram_size fp \<or> 4 > fp_ram_size fp - offset then None
              else Some (fp_ram_base fp + offset, (case tlb_host_page e of None \<Rightarrow> 0 | Some host \<Rightarrow> host) + unat (page_offset_of va))) =
    (case finish_translation fp (page_offset_of va) 4 (tlb_physical_page e) (tlb_host_page e) of
       Translation_RAM physical host \<Rightarrow> Some (physical, host) | _ \<Rightarrow> None)"
proof -
  have p: "page_offset_of (tlb_physical_page e) = 0" using assms by (simp add: mapping_shape_def)
  have "tlb_host_page e \<noteq> None" using assms by (metis core_fields(3) mapping_shape_def)
  then obtain h where h: "tlb_host_page e = Some h" by blast
  show ?thesis
    using aligned_no_overflow(1)[OF p, of va] by (simp add: finish_translation_def Let_def h)
qed

lemma fill_instruction_way_good:
  assumes S: "contexts_ok S" and g: "good S fp bytes"
    and fill: "fill_instruction_way bytes va (avz_fast_translation_context_tag fp va) fi inv0 fp = (r, fp')"
  shows "same_context fp' fp" "good S fp' bytes" "r = None \<Longrightarrow> uncached_instruction fp bytes va = None"
    "r = Some slot \<Longrightarrow> found_entry fp' Access_Instruction slot (shr va 12) (avz_fast_translation_context_tag fp va)"
proof -
  let ?a = Access_Instruction and ?tag = "avz_fast_translation_context_tag fp va"
  let ?stat = "if inv0 then Instruction_TLB_Invalidation_Misses
      else if fi \<noteq> None then Instruction_TLB_Cold_Misses else Instruction_TLB_Conflict_Misses"
  let ?fp0 = "count_memory_statistic ?stat (count_memory_statistic Instruction_TLB_Misses fp)"
  obtain x fp1 where res: "avz_resolve_translation bytes va 4 ?a (fp_translate_instruction_ram ?fp0) ?fp0 = (x, fp1)"
    by fastforce
  have t0: "same_tables ?fp0 fp" by (rule same_tables_trans[OF same_tables_updates(2) same_tables_updates(2)])
  then have c0: "same_context ?fp0 fp" by (simp add: same_tables_def)
  have st: "fp_translation_state ?fp0 = fp_translation_state fp" and "fp_native_translation_enabled ?fp0 = fp_native_translation_enabled fp"
    using c0 by (simp_all add: same_context_def)
  then have en: "fp_native_translation_enabled ?fp0" using g by (simp add: good_def path_ok_def)
  have t1: "same_tables fp1 fp" using resolve_outcome(1)[OF en res] t0 by (rule same_tables_trans)
  then have c1: "same_context fp1 fp" by (simp add: same_tables_def)
  have x: "x = (case stage1_outcome fp bytes va ?a of Inl _ \<Rightarrow> None
      | Inr (pa, g, sh) \<Rightarrow> Some (pa, avz_stage1_asid (fp_translation_state fp), g, sh))"
    using resolve_outcome(2)[OF en res] by (simp only: outcome_same_context[OF c0] st)
  have "same_context fp' fp \<and> good S fp' bytes \<and> (r = None \<longrightarrow> uncached_instruction fp bytes va = None) \<and>
      (\<forall>slot. r = Some slot \<longrightarrow> found_entry fp' ?a slot (shr va 12) ?tag)"
  proof (cases "stage1_outcome fp bytes va ?a")
    case (Inl f)
    then have "r = None" "fp' = fp1" using fill res x by (simp_all add: fill_instruction_way_def Let_def)
    then show ?thesis using c1 good_tables[OF t1 g] Inl by (simp add: uncached_instruction_def uncached_translation_def)
  next
    case (Inr y)
    obtain pa gl sh where y: "stage1_outcome fp bytes va ?a = Inr (pa, gl, sh)" using Inr by (cases y) auto
    have p: "path_ok S fp" using g by (simp add: good_def)
    note off = outcome_offset[OF S p y]
    have le: "\<not> pa < page_offset_of va" using page_part_le[of pa] off by (simp add: not_less)
    have x': "x = Some (pa, avz_stage1_asid (fp_translation_state fp), gl, sh)" using x y by simp
    show ?thesis
    proof (cases "host_of_page fp (pa - page_offset_of va)")
      case None
      then have "r = None" "fp' = fp1"
        using fill res x' le by (simp_all add: fill_instruction_way_def Let_def context_views[OF c1])
      moreover have "uncached_instruction fp bytes va = None"
        using None by (auto simp: uncached_instruction_def uncached_translation_def y page_part[OF off] finish_translation_def Let_def)
      ultimately show ?thesis using c1 good_tables[OF t1 g] by simp
    next
      case (Some host)
      obtain i fp2 where way: "choose_way ?a (tlb_set_of fp va) fi fp1 = (i, fp2)" by fastforce
      have t2: "same_tables fp2 fp" using choose_way_tables[of ?a "tlb_set_of fp va" fi fp1] t1 by (simp add: way same_tables_trans)
      then have c2: "same_context fp2 fp" by (simp add: same_tables_def)
      have g2: "good S fp2 bytes" using t2 g by (rule good_tables)
      have tag: "avz_fast_translation_context_tag fp2 va = ?tag" by (simp add: context_views[OF c2])
      let ?e = "new_tlb_entry fp2 (shr va 12) (avz_fast_translation_context_tag fp2 va) (pa - page_offset_of va)
          (Some host) 4096 (avz_stage1_asid (fp_translation_state fp2), gl, sh)"
      have "fp_translation_state fp2 = fp_translation_state fp" using c2 by (simp add: same_context_def)
      then have r: "r = Some i" and fp': "fp' = set_tlb ?a i ?e fp2"
        using fill res x' le way Some by (simp_all add: fill_instruction_way_def Let_def context_views[OF c0] context_views[OF c1] tag)
      have y2: "stage1_outcome fp2 bytes va ?a = Inr (pa, gl, sh)" by (simp add: outcome_same_context[OF c2] y)
      have shape: "mapping_shape fp2 ?a (core ?e)"
        using Some by (simp add: mapping_shape_def new_tlb_entry_def page_part[OF off] context_views[OF c2])
      have 2: "path_ok S fp2" "stamps_ok fp2" "sound S fp2 bytes {}" using g2 by (simp_all add: good_def)
      note inst = install_entry[OF S 2 y2 refl shape, of i]
      have c': "same_context fp' fp" unfolding fp' by (rule same_context_trans[OF same_context_updates(1) c2])
      then have "path_ok S fp'" using p by (simp add: context_sound)
      then have "good S fp' bytes" using inst(1,2) by (simp add: good_def fp')
      moreover have "found_entry fp' ?a i (shr va 12) ?tag" using inst(4) by (simp add: fp' tag)
      ultimately show ?thesis using c' r by simp
    qed
  qed
  then show "same_context fp' fp" "good S fp' bytes" "r = None \<Longrightarrow> uncached_instruction fp bytes va = None"
    "r = Some slot \<Longrightarrow> found_entry fp' ?a slot (shr va 12) ?tag" by blast+
qed

lemma found_instruction:
  assumes "good S fp bytes" "found_entry fp Access_Instruction slot (shr va 12) (avz_fast_translation_context_tag fp va)"
  shows "finish_translation fp (page_offset_of va) 4 (tlb_physical_page (fp_tlb fp Access_Instruction slot))
      (tlb_host_page (fp_tlb fp Access_Instruction slot)) = uncached_translation fp bytes va 4 Access_Instruction"
    "mapping_shape fp Access_Instruction (core (fp_tlb fp Access_Instruction slot))"
    "good S (note_hot_instruction (fp_tlb fp Access_Instruction slot) fp) bytes"
    "same_context (note_hot_instruction (fp_tlb fp Access_Instruction slot) fp) fp"
proof -
  let ?e = "fp_tlb fp Access_Instruction slot"
  show "finish_translation fp (page_offset_of va) 4 (tlb_physical_page ?e) (tlb_host_page ?e) =
      uncached_translation fp bytes va 4 Access_Instruction"
    by (rule found_good(1)[OF assms])
  have "core ?e \<in> mappings fp Access_Instruction"
    using assms(2) mappingsI(1)[of fp Access_Instruction slot] by (simp add: found_entry_def Let_def)
  then show "mapping_shape fp Access_Instruction (core ?e)" using assms(1) soundD[THEN conjunct1] unfolding good_def by blast
  define i where "i = fp_instruction_hot_replacement fp AND (16 - 1)"
  define fp1 where "fp1 = fp\<lparr>fp_instruction_hot_replacement := (i + 1) AND (16 - 1)\<rparr>"
  have t: "same_tables fp1 fp" by (simp add: fp1_def)
  then have c: "same_context fp1 fp" and tt: "fp_tlb fp1 = fp_tlb fp" by (simp_all add: same_tables_def)
  have "fp_translation_asid fp1 = fp_translation_asid fp" using c by (simp add: same_context_def)
  then have "found_entry fp1 Access_Instruction slot (shr va 12) (avz_fast_translation_context_tag fp1 va)"
    using assms(2) by (simp add: found_entry_def Let_def tt context_views[OF c])
  note f = found_good(2)[OF good_tables[OF t assms(1)] this, of "unat i"]
  have n: "note_hot_instruction ?e fp =
      set_hot Access_Instruction (unat i) ((fp_tlb fp1 Access_Instruction slot)\<lparr>tlb_generation := fp_hot_translation_generation fp1\<rparr>) fp1"
    by (simp only: note_hot_instruction_def Let_def i_def[symmetric] fp1_def[symmetric] tt)
  show "good S (note_hot_instruction ?e fp) bytes" unfolding n by (rule f)
  show "same_context (note_hot_instruction ?e fp) fp"
    unfolding n by (rule same_context_trans[OF same_context_updates(2) c])
qed

lemma lookup_instruction_good:
  assumes S: "contexts_ok S" and g: "good S fp bytes"
  shows "\<exists>r fp'. lookup_instruction_entry bytes va fp = (r, fp') \<and> same_context fp' fp \<and> good S fp' bytes \<and>
    (case r of None \<Rightarrow> uncached_instruction fp bytes va = None
     | Some e \<Rightarrow> mapping_shape fp Access_Instruction (core e) \<and>
         finish_translation fp (page_offset_of va) 4 (tlb_physical_page e) (tlb_host_page e) =
           uncached_translation fp bytes va 4 Access_Instruction)"
proof -
  let ?a = Access_Instruction and ?tag = "avz_fast_translation_context_tag fp va" and ?vp = "shr va 12"
  have ok: "stamps_ok fp" "path_ok S fp" "sound S fp bytes {}" using g by (simp_all add: good_def)
  show ?thesis
  proof (cases "find_hot_instruction fp (page_offset_of va + 4) ?vp ?tag")
    case (Some i)
    then have "entry_matches (fp_hot fp ?a i) (fp_hot_translation_generation fp) (page_offset_of va + 4) ?vp ?tag"
      by (auto simp: find_hot_instruction_def find_Some_iff)
    note h = hot_entry[OF ok(1) this]
    have "finish_translation fp (page_offset_of va) 4 (tlb_physical_page (fp_hot fp ?a i)) (tlb_host_page (fp_hot fp ?a i)) =
        uncached_translation fp bytes va 4 ?a"
      by (rule entry_uncached[OF ok(3,2) h(1)]) (use h in auto)
    moreover have "mapping_shape fp ?a (core (fp_hot fp ?a i))" using soundD[OF ok(3) h(1)] by blast
    moreover have "same_tables (count_memory_statistic Instruction_TLB_Hot_Hits (count_memory_statistic Instruction_TLB_Hits fp)) fp"
      by (rule same_tables_trans[OF same_tables_updates(2) same_tables_updates(2)])
    ultimately show ?thesis using Some good_tables[OF _ g]
      by (auto simp: lookup_instruction_entry_def Let_def same_tables_def)
  next
    case None
    obtain found fi inv1 fp1 where s: "search_instruction_ways (tlb_set_of fp va * 4) ?vp ?tag [0 ..< 4] None False fp = (found, fi, inv1, fp1)"
      by (metis prod_cases4)
    have shr1: "shrunk fp1 fp" and f1: "\<And>slot. found = Some slot \<Longrightarrow> found_entry fp1 ?a slot ?vp ?tag"
      using search_instruction_ways_sound[OF s ok(1)] by auto
    have c1: "same_context fp1 fp" using shr1 by (simp add: shrunk_def)
    have g1: "good S fp1 bytes" using shr1 g by (rule good_shrunk)
    have tag1: "avz_fast_translation_context_tag fp1 va = ?tag" by (simp add: context_views[OF c1])
    have un: "same_context x fp \<Longrightarrow> uncached_instruction x bytes va = uncached_instruction fp bytes va" for x
      by (simp only: uncached_instruction_def uncached_context)
    obtain slot fp2 where n: "(case found of Some slot \<Rightarrow> (Some slot, count_memory_statistic Instruction_TLB_Hits fp1)
        | None \<Rightarrow> fill_instruction_way bytes va ?tag fi inv1 fp1) = (slot, fp2)" by fastforce
    have 2: "same_context fp2 fp \<and> good S fp2 bytes \<and> (slot = None \<longrightarrow> uncached_instruction fp bytes va = None) \<and>
        (\<forall>i. slot = Some i \<longrightarrow> found_entry fp2 ?a i ?vp ?tag)"
    proof (cases found)
      case None
      then have "fill_instruction_way bytes va (avz_fast_translation_context_tag fp1 va) fi inv1 fp1 = (slot, fp2)"
        using n by (simp add: tag1)
      note fill = fill_instruction_way_good[OF S g1 this]
      then show ?thesis using same_context_trans[OF fill(1) c1] by (simp add: tag1 un[OF c1])
    next
      case (Some i)
      let ?fp2 = "count_memory_statistic Instruction_TLB_Hits fp1"
      have eq: "slot = Some i" "fp2 = ?fp2" using n Some by auto
      have t: "same_tables ?fp2 fp1" by simp
      then have c2: "same_context ?fp2 fp1" and tt: "fp_tlb ?fp2 = fp_tlb fp1" by (simp_all add: same_tables_def)
      have "fp_translation_asid ?fp2 = fp_translation_asid fp1" using c2 by (simp add: same_context_def)
      then have "found_entry ?fp2 ?a i ?vp ?tag" using f1[OF Some] by (simp add: found_entry_def tt context_views[OF c2])
      then show ?thesis using eq same_context_trans[OF c2 c1] good_tables[OF t g1] by simp
    qed
    then have c2: "same_context fp2 fp" and g2: "good S fp2 bytes" by blast+
    have look: "lookup_instruction_entry bytes va fp = (case slot of None \<Rightarrow> (None, fp2)
        | Some i \<Rightarrow> (Some (fp_tlb fp2 ?a i), note_hot_instruction (fp_tlb fp2 ?a i) fp2))"
      using None n by (simp add: lookup_instruction_entry_def Let_def s split: option.splits)
    show ?thesis
    proof (cases slot)
      case None
      then show ?thesis using look 2 by simp
    next
      case (Some i)
      then have "found_entry fp2 ?a i (shr va 12) (avz_fast_translation_context_tag fp2 va)"
        using 2 by (simp add: context_views[OF c2])
      note f = found_instruction[OF g2 this]
      show ?thesis using look Some f(1-3) same_context_trans[OF f(4) c2]
        by (simp add: uncached_context[OF c2] context_views[OF c2] context_sound[OF c2])
    qed
  qed
qed

lemma instruction_transparent:
  assumes S: "contexts_ok S" and g: "good S fp bytes" and va: "va AND 3 = 0"
  shows "\<exists>fp'. translate_instruction_entry bytes va fp = (uncached_instruction fp bytes va, fp') \<and>
    same_context fp' fp \<and> good S fp' bytes"
proof -
  have inside: "\<not> page_offset_of va > (4096 - 4 :: u64)"
  proof -
    have "(3 :: u64) = mask 2" by (simp add: mask_eq_exp_minus_1)
    then have "take_bit 2 va = 0" using va by (simp add: take_bit_eq_mask)
    then have "take_bit 2 (page_offset_of va) = 0" by (simp add: page_offset_take)
    then have "take_bit 2 (unat (page_offset_of va)) = 0" by (metis unsigned_0 unsigned_take_bit_eq)
    then have "unat (page_offset_of va) mod 4 = 0" by (simp add: take_bit_eq_mod)
    then have "unat (page_offset_of va) \<le> 4092" using page_offset_less[of va] by presburger
    then show ?thesis by (simp add: word_less_nat_alt)
  qed
  obtain r fp' where l: "lookup_instruction_entry bytes va fp = (r, fp')" "same_context fp' fp" "good S fp' bytes"
    "case r of None \<Rightarrow> uncached_instruction fp bytes va = None
     | Some e \<Rightarrow> mapping_shape fp Access_Instruction (core e) \<and>
         finish_translation fp (page_offset_of va) 4 (tlb_physical_page e) (tlb_host_page e) =
           uncached_translation fp bytes va 4 Access_Instruction"
    using lookup_instruction_good[OF S g] by blast
  have b: "fp_ram_base fp' = fp_ram_base fp" "fp_ram_size fp' = fp_ram_size fp"
    using l(2) by (simp_all add: same_context_def)
  show ?thesis
  proof (cases r)
    case None
    then show ?thesis using l inside by (simp add: translate_instruction_entry_def Let_def)
  next
    case (Some e)
    have fin: "(if tlb_physical_page e < fp_ram_base fp then None
      else let offset = tlb_physical_page e - fp_ram_base fp + page_offset_of va
           in if offset > fp_ram_size fp \<or> 4 > fp_ram_size fp - offset then None
              else Some (fp_ram_base fp + offset, (case tlb_host_page e of None \<Rightarrow> 0 | Some host \<Rightarrow> host) + unat (page_offset_of va))) =
        uncached_instruction fp bytes va"
      using finish_instruction[of fp e va] l(4) Some by (simp add: uncached_instruction_def)
    have "translate_instruction_entry bytes va fp = (uncached_instruction fp bytes va, fp')"
      using l(1) Some inside fin[symmetric] by (auto simp: translate_instruction_entry_def Let_def b)
    then show ?thesis using l by simp
  qed
qed

end
