(* ===== verification/TranslationJournal.thy ===== *)
theory TranslationJournal
  imports TranslationCoherence
begin

text \<open>
  The journal of published invalidations: a publication extends what every observer has pending,
  until the epoch comes round, and a processor that synchronizes keeps no mapping that a
  published invalidation covers.
\<close>

subsection \<open>The journal\<close>

definition pending_set :: "('p, 'q, 'c) fast_world \<Rightarrow> tlbi set" where
  "pending_set w =
     (if fp_has_guest_memory (w_context w)
      then set (pending_tlbis (w_memory w) (fp_observed_shared_translation_epoch (w_context w))) else {})"

definition reaches :: "tlbi set \<Rightarrow> tlb_entry \<Rightarrow> bool" where
  "reaches T m \<longleftrightarrow> (\<exists>t\<in>T. covers t m)"

lemma reaches_simps [simp]:
  "\<not> reaches {} m" "reaches (insert t T) m \<longleftrightarrow> covers t m \<or> reaches T m" "reaches (A \<union> B) m \<longleftrightarrow> reaches A m \<or> reaches B m"
  by (auto simp: reaches_def)

lemma everything_covers [simp]: "tlbi_kind t = TLBI_ALL \<Longrightarrow> covers t m"
  by (simp add: covers_def tlbi_covers_def)

lemma pending_here [simp]: "pending_tlbis memory (g_translation_epoch memory) = []"
  by (simp add: pending_tlbis_def)

text \<open>
  A publication extends what an observer has pending, until the epoch comes round to the epoch
  that the observer saw last.
\<close>

lemma slot_mod: "unat ((x :: u64) mod 64) = unat x mod 64"
  by (simp add: unat_mod_distrib)

lemma unat_plus_mod: "unat ((x :: u64) + word_of_nat k) mod 64 = (unat x + k) mod 64"
proof -
  have "unat (x + word_of_nat k) = (unat x + k) mod 2 ^ 64"
    by (simp add: unat_word_ariths unat_of_nat mod_add_right_eq)
  moreover have "(n :: nat) mod 2 ^ 64 mod 64 = n mod 64" for n by (simp add: mod_mod_cancel)
  ultimately show ?thesis by simp
qed

lemma publish_pending:
  fixes observed :: u64 and memory :: guest_memory and t :: tlbi
  defines "m' \<equiv> avz_guest_memory_publish_tlbi t memory"
  assumes "g_translation_epoch m' \<noteq> observed"
  shows "reaches (insert t (set (pending_tlbis memory observed))) e \<Longrightarrow> reaches (set (pending_tlbis m' observed)) e"
proof -
  let ?epoch = "g_translation_epoch memory"
  have all: "reaches (set (pending_tlbis m' observed)) e" if "g_translation_epoch m' < observed \<or> g_translation_epoch m' - observed > 64"
    using that by (simp add: pending_tlbis_def empty_tlbi_def)
  assume r: "reaches (insert t (set (pending_tlbis memory observed))) e"
  show ?thesis
  proof (cases "?epoch + 1 = 0")
    case True
    then have m': "g_translation_epoch m' = 1" "g_translation_journal m' 1 = t\<lparr>tlbi_kind := TLBI_ALL\<rparr>"
      by (simp_all add: m'_def avz_guest_memory_publish_tlbi_def Let_def)
    show ?thesis
    proof (cases "observed = 0")
      case True
      then show ?thesis using m' by (simp add: pending_tlbis_def)
    next
      case False
      moreover have "observed \<noteq> 1" using assms(2) m'(1) by (simp add: m'_def)
      ultimately have "unat observed \<noteq> 0" "unat observed \<noteq> 1"
        by (simp_all add: unat_eq_0) (metis unat_1 word_unat_eq_iff One_nat_def)
      then have "1 < observed" by (simp add: word_less_nat_alt)
      then show ?thesis using all m'(1) by simp
    qed
  next
    case False
    then have e': "g_translation_epoch m' = ?epoch + 1"
      and j': "g_translation_journal m' i = (if i = unat ((?epoch + 1) mod 64) then t else g_translation_journal memory i)" for i
      by (simp_all add: m'_def avz_guest_memory_publish_tlbi_def Let_def)
    have up: "unat (?epoch + 1) = unat ?epoch + 1" using unatSuc[of ?epoch] False by (simp add: add.commute)
    show ?thesis
    proof (cases "?epoch + 1 < observed \<or> ?epoch + 1 - observed > 64")
      case True
      then show ?thesis using all by (simp add: e')
    next
      case near: False
      then have le: "unat observed \<le> unat ?epoch" using assms(2) up e'
        by (simp add: word_less_nat_alt not_less) (metis le_SucE up Suc_eq_plus1 word_unat_eq_iff)
      let ?n = "unat ?epoch - unat observed"
      have n: "unat (?epoch - observed) = ?n" "unat (?epoch + 1 - observed) = Suc ?n"
        using le up by (simp_all add: unat_sub word_le_nat_alt Suc_diff_le)
      have n64: "Suc ?n \<le> 64" using near n(2) by (simp add: word_less_nat_alt not_less)
      have old: "pending_tlbis memory observed = map (\<lambda>i. g_translation_journal memory (unat ((observed + word_of_nat i) mod 64))) [1 ..< Suc ?n]"
        using le n64 n(1) by (simp add: pending_tlbis_def Let_def word_less_nat_alt not_less)
      have new: "pending_tlbis m' observed = map (\<lambda>i. g_translation_journal m' (unat ((observed + word_of_nat i) mod 64))) [1 ..< Suc (Suc ?n)]"
        using near n(2) by (simp add: pending_tlbis_def Let_def e')
      have slot: "unat ((observed + word_of_nat i) mod 64) = (unat observed + i) mod 64" for i
        by (simp add: slot_mod unat_plus_mod)
      have last: "unat ((?epoch + 1) mod 64) = (unat observed + Suc ?n) mod 64"
        using le by (simp add: slot_mod up)
      have keep: "g_translation_journal m' (unat ((observed + word_of_nat i) mod 64)) =
          g_translation_journal memory (unat ((observed + word_of_nat i) mod 64))" if "i \<in> {1 ..< Suc ?n}" for i
      proof -
        have "(unat observed + i) mod 64 \<noteq> (unat observed + Suc ?n) mod 64"
        proof
          assume "(unat observed + i) mod 64 = (unat observed + Suc ?n) mod 64"
          then have "64 dvd (unat observed + Suc ?n) - (unat observed + i)"
            by (intro mod_eq_dvd_iff_nat[THEN iffD1]) (use that in auto)
          then show False using that n64 by (auto dest: dvd_imp_le)
        qed
        then show ?thesis by (simp add: j' last slot)
      qed
      have "pending_tlbis m' observed = pending_tlbis memory observed @ [t]"
      proof -
        let ?f' = "\<lambda>i. g_translation_journal m' (unat ((observed + word_of_nat i) mod 64))"
        have "map ?f' [1 ..< Suc ?n] = pending_tlbis memory observed"
          unfolding old by (rule map_cong[OF refl]) (use keep in auto)
        moreover have "?f' (Suc ?n) = t" by (simp only: j' last slot if_True refl simp_thms)
        moreover have "[1 ..< Suc (Suc ?n)] = [1 ..< Suc ?n] @ [Suc ?n]" by simp
        ultimately show ?thesis unfolding new by (simp only: map_append list.map)
      qed
      then show ?thesis using r by (auto simp: reaches_def)
    qed
  qed
qed

text \<open>Counting: fewer than \<open>2^64 - 1\<close> publications do not come round.\<close>

lemma publish_epoch:
  "g_translation_epoch (avz_guest_memory_publish_tlbi t memory) =
     (if g_translation_epoch memory + 1 = 0 then 1 else g_translation_epoch memory + 1)"
  by (simp add: avz_guest_memory_publish_tlbi_def Let_def)

lemma published_epoch:
  assumes "length ts < 2 ^ 64 - 1"
  shows "unat (g_translation_epoch (fold avz_guest_memory_publish_tlbi ts memory)) =
    (if unat (g_translation_epoch memory) + length ts < 2 ^ 64 then unat (g_translation_epoch memory) + length ts
     else unat (g_translation_epoch memory) + length ts - (2 ^ 64 - 1))"
  using assms
proof (induction ts rule: rev_induct)
  case (snoc t ts)
  let ?e = "g_translation_epoch (fold avz_guest_memory_publish_tlbi ts memory)"
  have ih: "unat ?e = (if unat (g_translation_epoch memory) + length ts < 2 ^ 64 then unat (g_translation_epoch memory) + length ts
     else unat (g_translation_epoch memory) + length ts - (2 ^ 64 - 1))"
    using snoc by simp
  have e: "unat (g_translation_epoch memory) < 2 ^ 64" using unsigned_less[of "g_translation_epoch memory", where ?'a = nat] by simp
  have zero: "?e + 1 = 0 \<longleftrightarrow> unat ?e = 2 ^ 64 - 1"
  proof -
    have "?e + 1 = 0 \<longleftrightarrow> ?e = - 1" by (simp add: add_eq_0_iff2)
    also have "\<dots> \<longleftrightarrow> unat ?e = unat (- 1 :: u64)" by (simp add: word_unat_eq_iff)
    finally show ?thesis by (simp add: unsigned_minus_1_eq_mask mask_eq_exp_minus_1)
  qed
  have "unat (?e + 1) = unat ?e + 1" if "?e + 1 \<noteq> 0" using unatSuc[of ?e] that by (simp add: add.commute)
  then show ?case
    using ih zero e snoc.prems by (auto simp: publish_epoch split: if_splits)
qed (use unsigned_less[of "g_translation_epoch memory", where ?'a = nat] in simp)

lemma fold_publish_pending:
  assumes "\<And>n. 0 < n \<Longrightarrow> n \<le> length ts \<Longrightarrow>
      g_translation_epoch (fold avz_guest_memory_publish_tlbi (take n ts) memory) \<noteq> observed"
  shows "reaches (set ts \<union> set (pending_tlbis memory observed)) e \<Longrightarrow>
    reaches (set (pending_tlbis (fold avz_guest_memory_publish_tlbi ts memory) observed)) e"
  using assms
proof (induction ts rule: rev_induct)
  case (snoc t ts)
  let ?m = "fold avz_guest_memory_publish_tlbi ts memory"
  have "g_translation_epoch (fold avz_guest_memory_publish_tlbi (take n ts) memory) \<noteq> observed" if "0 < n" "n \<le> length ts" for n
    using snoc.prems(2)[of n] that by simp
  then have ih: "reaches (set ts \<union> set (pending_tlbis memory observed)) e \<Longrightarrow> reaches (set (pending_tlbis ?m observed)) e"
    using snoc.IH by blast
  have ne: "g_translation_epoch (avz_guest_memory_publish_tlbi t ?m) \<noteq> observed"
    using snoc.prems(2)[of "Suc (length ts)"] by simp
  have "reaches (insert t (set (pending_tlbis ?m observed))) e" using snoc.prems(1) ih by auto
  from publish_pending[OF ne this] show ?case by simp
qed simp

lemma not_come_round:
  assumes "length ts < 2 ^ 64 - 1" "0 < n" "n \<le> length ts"
  shows "g_translation_epoch (fold avz_guest_memory_publish_tlbi (take n ts) memory) \<noteq> g_translation_epoch memory"
proof -
  have "unat (g_translation_epoch memory) < 2 ^ 64" using unsigned_less[of "g_translation_epoch memory", where ?'a = nat] by simp
  then have "unat (g_translation_epoch (fold avz_guest_memory_publish_tlbi (take n ts) memory)) \<noteq> unat (g_translation_epoch memory)"
    using published_epoch[of "take n ts" memory] assms by (auto split: if_splits)
  then show ?thesis by metis
qed

text \<open>Synchronizing applies what is pending.\<close>

lemma synchronize_path:
  "w_context (avz_fast_synchronize_shared_translation_epoch w) =
     (if fp_has_guest_memory (w_context w)
      then (apply_tlbis (pending_tlbis (w_memory w) (fp_observed_shared_translation_epoch (w_context w))) (w_context w))
             \<lparr>fp_observed_shared_translation_epoch := g_translation_epoch (w_memory w)\<rparr>
      else w_context w)"
  "w_memory (avz_fast_synchronize_shared_translation_epoch w) = w_memory w"
proof -
  have same: "apply_tlbis (pending_tlbis m e) fp\<lparr>fp_observed_shared_translation_epoch := e\<rparr> = fp"
    if "e = g_translation_epoch m" "e = fp_observed_shared_translation_epoch fp" for m e and fp :: "'d fast_path"
    using that by simp
  show "w_context (avz_fast_synchronize_shared_translation_epoch w) =
     (if fp_has_guest_memory (w_context w)
      then (apply_tlbis (pending_tlbis (w_memory w) (fp_observed_shared_translation_epoch (w_context w))) (w_context w))
             \<lparr>fp_observed_shared_translation_epoch := g_translation_epoch (w_memory w)\<rparr>
      else w_context w)"
    using same[of "g_translation_epoch (w_memory w)" "w_memory w" "w_context w"]
    by (auto simp: avz_fast_synchronize_shared_translation_epoch_def Let_def on_path_def on_cache_def avz_fast_invalidate_decoded_mappings_def)
  show "w_memory (avz_fast_synchronize_shared_translation_epoch w) = w_memory w"
    by (simp add: avz_fast_synchronize_shared_translation_epoch_def Let_def on_path_def on_cache_def avz_fast_invalidate_decoded_mappings_def)
qed

lemma observed_update [simp]:
  "mappings (fp\<lparr>fp_observed_shared_translation_epoch := e\<rparr>) = mappings fp"
  "stamps_ok (fp\<lparr>fp_observed_shared_translation_epoch := e\<rparr>) = stamps_ok fp"
proof -
  have s: "tlb_entry_stale (fp\<lparr>fp_observed_shared_translation_epoch := e\<rparr>) = tlb_entry_stale fp"
    by (simp add: fun_eq_iff tlb_entry_stale_def)
  then show "mappings (fp\<lparr>fp_observed_shared_translation_epoch := e\<rparr>) = mappings fp"
    by (simp add: fun_eq_iff mappings_def tlb_live_def hot_live_def)
  show "stamps_ok (fp\<lparr>fp_observed_shared_translation_epoch := e\<rparr>) = stamps_ok fp"
    by (simp add: stamps_ok_def hot_live_def)
qed

text \<open>
  C9: A processor that has observed the epoch of the guest memory, and synchronizes after any
  processor has published invalidations, fewer than the epoch counts, holds no live mapping that
  one of them covers, in any of its TLBs and hot tables.
\<close>
theorem no_published_invalidation_is_missed:
  fixes w :: "('p, 'q, 'c) fast_world"
  assumes "stamps_ok (w_context w)" "fp_has_guest_memory (w_context w)"
    and "fp_observed_shared_translation_epoch (w_context w) = g_translation_epoch (w_memory w)"
    and "length ts < 2 ^ 64 - 1" "t \<in> set ts"
    and "m \<in> mappings (w_context (avz_fast_synchronize_shared_translation_epoch
           (w\<lparr>w_memory := fold avz_guest_memory_publish_tlbi ts (w_memory w)\<rparr>))) a"
  shows "\<not> covers t m"
proof
  assume "covers t m"
  then have r: "reaches (set ts \<union> set (pending_tlbis (w_memory w) (g_translation_epoch (w_memory w)))) m"
    using assms(5) by (auto simp: reaches_def)
  let ?m = "fold avz_guest_memory_publish_tlbi ts (w_memory w)"
  have "reaches (set (pending_tlbis ?m (g_translation_epoch (w_memory w)))) m"
    by (rule fold_publish_pending[OF not_come_round[OF assms(4)] r])
  then show False
    using assms(6) apply_tlbis_covers[OF assms(1), of "pending_tlbis ?m (g_translation_epoch (w_memory w))"]
    by (auto simp: synchronize_path assms(2,3) reaches_def)
qed

text \<open>A live entry of a page, and the invalidation of its address published by another processor.\<close>

definition journal_entry :: tlb_entry where
  "journal_entry = empty_tlb_entry\<lparr>tlb_valid := True, tlb_generation := 1, tlb_virtual_page := 5,
     tlb_context_tag := 7, tlb_asid := 3, tlb_leaf_shift := 12\<rparr>"

definition journal_world :: "(unit, unit, unit) fast_world" where
  "journal_world = \<lparr>w_cache = avz_native_block_cache_create, w_memory = sample_memory,
     w_context = (the (avz_native_memory_fast_path_create (Some 0) 0 0x10000 () (\<lambda>c _ _ _. (None, c))))
       \<lparr>fp_tlb := \<lambda>a i. if a = Access_Read \<and> i = 0 then journal_entry else empty_tlb_entry,
        fp_has_guest_memory := True, fp_observed_shared_translation_epoch := g_translation_epoch sample_memory\<rparr>\<rparr>"

definition journal_tlbi :: tlbi where
  "journal_tlbi = empty_tlbi\<lparr>tlbi_kind := TLBI_VA_ASID, tlbi_virtual_address := 0x5000, tlbi_asid := 3\<rparr>"

theorem no_published_invalidation_is_missed_witness:
  "core journal_entry \<in> mappings (w_context journal_world) Access_Read \<and>
   core journal_entry \<notin> mappings (w_context (avz_fast_synchronize_shared_translation_epoch
      (journal_world\<lparr>w_memory := fold avz_guest_memory_publish_tlbi [journal_tlbi] (w_memory journal_world)\<rparr>))) Access_Read"
proof
  have path: "fp_translation_generation (w_context journal_world) = 1" "fp_tlbi_epoch (w_context journal_world) = 0"
    "fp_tlb (w_context journal_world) = (\<lambda>a i. if a = Access_Read \<and> i = 0 then journal_entry else empty_tlb_entry)"
    "fp_hot (w_context journal_world) = (\<lambda>_ _. empty_tlb_entry)" "fp_has_guest_memory (w_context journal_world)"
    "fp_observed_shared_translation_epoch (w_context journal_world) = g_translation_epoch (w_memory journal_world)"
    by (simp_all add: journal_world_def avz_native_memory_fast_path_create_def)
  have ok: "stamps_ok (w_context journal_world)"
    by (simp add: stamps_ok_def hot_live_def path journal_entry_def empty_tlb_entry_def tlbi_shifts_def)
      (simp add: journal_world_def avz_native_memory_fast_path_create_def)
  have "tlb_live (w_context journal_world) (fp_tlb (w_context journal_world) Access_Read 0)"
    by (simp add: tlb_live_def path journal_entry_def empty_tlb_entry_def)
  from mappingsI(1)[OF this] show "core journal_entry \<in> mappings (w_context journal_world) Access_Read" by (simp add: path)
  have "covers journal_tlbi (core journal_entry)"
    by (simp add: covers_def tlbi_covers_def same_extent_def journal_tlbi_def journal_entry_def empty_tlbi_def empty_tlb_entry_def)
  then show "core journal_entry \<notin> mappings (w_context (avz_fast_synchronize_shared_translation_epoch
      (journal_world\<lparr>w_memory := fold avz_guest_memory_publish_tlbi [journal_tlbi] (w_memory journal_world)\<rparr>))) Access_Read"
    using no_published_invalidation_is_missed[OF ok path(5,6), of "[journal_tlbi]" journal_tlbi "core journal_entry" Access_Read] by auto
qed

end
