(* ===== verification/TlbTransparency.thy ===== *)
theory TlbTransparency
  imports TranslationJournal ExclusiveAtomicity
begin

text \<open>
  The runs of a guest that invalidates what it remaps. Its processor translates, switches
  contexts and exception levels, and applies invalidations; any processor publishes
  invalidations or writes the page tables together with the invalidations that the change needs.
  In every such run a translation answers what the walk of the current page tables answers,
  whatever the TLBs hold.
\<close>

subsection \<open>What an invalidation keeps\<close>

definition same_path :: "'c fast_path \<Rightarrow> 'c fast_path \<Rightarrow> bool" where
  "same_path fp' fp \<longleftrightarrow>
     fp_ram fp' = fp_ram fp \<and> fp_ram_base fp' = fp_ram_base fp \<and> fp_ram_size fp' = fp_ram_size fp \<and>
     fp_translation_state fp' = fp_translation_state fp \<and>
     fp_low_translation_context_tag fp' = fp_low_translation_context_tag fp \<and>
     fp_high_translation_context_tag fp' = fp_high_translation_context_tag fp \<and>
     fp_translation_asid fp' = fp_translation_asid fp \<and>
     fp_native_translation_enabled fp' = fp_native_translation_enabled fp \<and>
     fp_has_guest_memory fp' = fp_has_guest_memory fp \<and>
     fp_observed_shared_translation_epoch fp' = fp_observed_shared_translation_epoch fp"

lemma same_path_refl [simp]: "same_path fp fp"
  by (simp add: same_path_def)

lemma same_path_trans: "same_path a b \<Longrightarrow> same_path b c \<Longrightarrow> same_path a c"
  unfolding same_path_def by (elim conjE, intro conjI; erule (1) trans)

lemma clear_same_path [simp]:
  "same_path (avz_fast_clear_hot_tlbs fp) fp" "same_path (avz_fast_clear_tlbs fp) fp" "same_path (record_va_tlbi t e s fp) fp"
  by (simp_all add: same_path_def avz_fast_clear_hot_tlbs_def avz_fast_clear_tlbs_def record_va_tlbi_def Let_def)

lemma apply_entries_path: "same_path (avz_fast_apply_tlbi_entries t fp) fp"
proof -
  have recs: "same_path (fold (record_va_tlbi t e) ss fp) fp" for e ss fp
  proof (induction ss arbitrary: fp)
    case (Cons s ss)
    show ?case using same_path_trans[OF Cons clear_same_path(3)] by simp
  qed simp
  have adv: "same_path (advance_tlbi_epoch fp) fp" for fp
    by (simp add: advance_tlbi_epoch_def Let_def avz_fast_clear_hot_tlbs_def avz_fast_clear_tlbs_def same_path_def)
  have asid: "same_path (fp\<lparr>fp_asid_tlbi_epochs := f\<rparr>) fp" for fp f by (simp add: same_path_def)
  let ?fp = "advance_tlbi_epoch (avz_fast_clear_hot_tlbs fp)"
  have start: "same_path ?fp fp" by (rule same_path_trans[OF adv clear_same_path(1)])
  consider "tlbi_kind t = TLBI_ALL \<or> tlbi_kind t > TLBI_VA_ALL_ASIDS"
    | "avz_fast_apply_tlbi_entries t fp = ?fp\<lparr>fp_asid_tlbi_epochs := (fp_asid_tlbi_epochs ?fp)(tlbi_asid t := fp_tlbi_epoch ?fp)\<rparr>"
    | "avz_fast_apply_tlbi_entries t fp = fold (record_va_tlbi t (fp_tlbi_epoch ?fp)) tlbi_shifts ?fp"
    unfolding avz_fast_apply_tlbi_entries_def Let_def by presburger
  then show ?thesis
  proof cases
    case 1
    then show ?thesis by (simp add: avz_fast_apply_tlbi_entries_def)
  next
    case 2
    show ?thesis unfolding 2 by (rule same_path_trans[OF asid start])
  next
    case 3
    show ?thesis unfolding 3 by (rule same_path_trans[OF recs start])
  qed
qed

lemma apply_tlbis_path: "same_path (apply_tlbis ts fp) fp"
proof (induction ts arbitrary: fp)
  case (Cons t ts)
  have "same_path (apply_tlbis ts (avz_fast_apply_tlbi_entries t fp)) fp"
    by (rule same_path_trans[OF Cons apply_entries_path])
  then show ?case using apply_entries_path[of t fp] by (simp add: Let_def)
qed simp

lemma path_views:
  assumes "same_path fp' fp"
  shows "host_of_page fp' = host_of_page fp" "mapping_shape fp' = mapping_shape fp"
    "walk_agrees S fp' = walk_agrees S fp" "path_ok S fp' = path_ok S fp"
    "uncached_translation fp' = uncached_translation fp"
proof -
  have b: "fp_ram_base fp' = fp_ram_base fp" "fp_ram_size fp' = fp_ram_size fp" "fp_translation_state fp' = fp_translation_state fp"
    "fp_native_translation_enabled fp' = fp_native_translation_enabled fp" "fp_translation_asid fp' = fp_translation_asid fp"
    "fp_low_translation_context_tag fp' = fp_low_translation_context_tag fp" "fp_high_translation_context_tag fp' = fp_high_translation_context_tag fp"
    using assms by (simp_all add: same_path_def)
  show 1: "host_of_page fp' = host_of_page fp" by (simp add: fun_eq_iff host_of_page_def b)
  show "mapping_shape fp' = mapping_shape fp" by (intro ext) (simp only: mapping_shape_def contiguous_span_of_def 1 b)
  have out: "stage1_outcome (fp'\<lparr>fp_translation_state := s\<rparr>) bytes va a = stage1_outcome (fp\<lparr>fp_translation_state := s\<rparr>) bytes va a" for s bytes va a
    by (rule outcome_context) (simp_all add: b)
  show "walk_agrees S fp' = walk_agrees S fp" by (intro ext) (simp only: walk_agrees_def out)
  show "path_ok S fp' = path_ok S fp" by (simp only: path_ok_def avz_fast_translation_context_tag_def b)
  have "stage1_outcome fp' bytes va a = stage1_outcome fp bytes va a" for bytes va a
  proof -
    have "fp'\<lparr>fp_translation_state := fp_translation_state fp\<rparr> = fp'" by (simp flip: b(3))
    then show ?thesis using out[of "fp_translation_state fp" bytes va a] by simp
  qed
  then show "uncached_translation fp' = uncached_translation fp"
    by (intro ext) (simp only: uncached_translation_def finish_translation_def 1 b)
qed

text \<open>The observed epoch is no part of what a translation answers.\<close>

lemma observed_views [simp]:
  "mapping_shape (fp\<lparr>fp_observed_shared_translation_epoch := e\<rparr>) = mapping_shape fp"
  "walk_agrees S (fp\<lparr>fp_observed_shared_translation_epoch := e\<rparr>) = walk_agrees S fp"
  "path_ok S (fp\<lparr>fp_observed_shared_translation_epoch := e\<rparr>) = path_ok S fp"
  "uncached_translation (fp\<lparr>fp_observed_shared_translation_epoch := e\<rparr>) = uncached_translation fp"
proof -
  let ?fp = "fp\<lparr>fp_observed_shared_translation_epoch := e\<rparr>"
  have b: "host_of_page ?fp = host_of_page fp" by (simp add: fun_eq_iff host_of_page_def)
  have out: "stage1_outcome (?fp\<lparr>fp_translation_state := s\<rparr>) bytes va a = stage1_outcome (fp\<lparr>fp_translation_state := s\<rparr>) bytes va a" for s bytes va a
    by (rule outcome_context) simp_all
  show "mapping_shape ?fp = mapping_shape fp"
    by (intro ext) (simp add: mapping_shape_def contiguous_span_of_def b)
  show "walk_agrees S ?fp = walk_agrees S fp" by (intro ext) (simp only: walk_agrees_def out)
  show "path_ok S ?fp = path_ok S fp" by (simp add: path_ok_def avz_fast_translation_context_tag_def)
  have "stage1_outcome ?fp bytes va a = stage1_outcome fp bytes va a" for bytes va a
    using out[of "fp_translation_state fp" bytes va a] by simp
  moreover have "fp_ram_base ?fp = fp_ram_base fp" "fp_ram_size ?fp = fp_ram_size fp" by simp_all
  then have "finish_translation ?fp = finish_translation fp" by (intro ext) (simp only: finish_translation_def)
  ultimately show "uncached_translation ?fp = uncached_translation fp"
    by (intro ext) (simp only: uncached_translation_def b)
qed

subsection \<open>Coherent worlds\<close>

text \<open>Every live mapping agrees with the page tables, unless a pending invalidation covers it.\<close>

definition clean :: "stage1_state set \<Rightarrow> 'c fast_path \<Rightarrow> (nat \<Rightarrow> u8) \<Rightarrow> tlbi set \<Rightarrow> bool" where
  "clean S fp bytes T \<longleftrightarrow> path_ok S fp \<and> stamps_ok fp \<and> sound S fp bytes T"

definition coherent :: "stage1_state set \<Rightarrow> ('p, 'q, 'c) fast_world \<Rightarrow> bool" where
  "coherent S w \<longleftrightarrow> clean S (w_context w) (g_bytes (w_memory w)) (pending_set w)"

lemma good_clean: "good S fp bytes \<longleftrightarrow> clean S fp bytes {}"
  by (simp add: good_def clean_def)

lemma clean_more: "clean S fp bytes T \<Longrightarrow> (\<And>m. reaches T m \<Longrightarrow> reaches T' m) \<Longrightarrow> clean S fp bytes T'"
  unfolding clean_def sound_def reaches_def by blast

lemma sound_less:
  assumes "sound S fp bytes T" "\<And>a. mappings fp' a \<subseteq> mappings fp a"
    and "mapping_shape fp' = mapping_shape fp" "walk_agrees S fp' = walk_agrees S fp"
    and "\<And>m a. m \<in> mappings fp' a \<Longrightarrow> reaches T m \<Longrightarrow> reaches T' m"
  shows "sound S fp' bytes T'"
  unfolding sound_def
proof (intro allI ballI)
  fix a m assume m: "m \<in> mappings fp' a"
  then have "m \<in> mappings fp a" using assms(2) by blast
  then show "mapping_shape fp' a m \<and> ((\<forall>t\<in>T'. \<not> covers t m) \<longrightarrow> walk_agrees S fp' bytes a m)"
    using assms(1,3,4) assms(5)[OF m] unfolding sound_def reaches_def by metis
qed

lemma clean_tables: "same_tables fp' fp \<Longrightarrow> clean S fp bytes T \<Longrightarrow> clean S fp' bytes T"
  using sound_less[of S fp bytes T fp' T] tables_views[of fp' fp] context_sound[where fp' = fp' and fp = fp]
  by (simp add: clean_def) (simp add: same_tables_def)

text \<open>Applying invalidations, one or a list.\<close>

lemma clean_apply:
  assumes "clean S fp bytes (insert t T)"
  shows "clean S (avz_fast_apply_tlbi_entries t fp) bytes T"
proof -
  have ok: "stamps_ok fp" using assms by (simp add: clean_def)
  note views = path_views[OF apply_entries_path[of t fp]] and applied = apply_entries[OF ok, of t]
  have "sound S (avz_fast_apply_tlbi_entries t fp) bytes T"
  proof (rule sound_less)
    show "sound S fp bytes (insert t T)" using assms by (simp add: clean_def)
    show "mappings (avz_fast_apply_tlbi_entries t fp) a \<subseteq> mappings fp a" for a using applied by blast
    show "reaches T m" if "m \<in> mappings (avz_fast_apply_tlbi_entries t fp) a" "reaches (insert t T) m" for m a
      using that applied by auto
  qed (rule views)+
  then show ?thesis using assms applied by (simp add: clean_def views)
qed

lemma clean_apply_more: "clean S fp bytes T \<Longrightarrow> clean S (avz_fast_apply_tlbi_entries t fp) bytes T"
  by (rule clean_apply, rule clean_more) auto

lemma clean_pending:
  assumes "clean S fp bytes (set ts)"
  shows "clean S (apply_tlbis ts fp) bytes {}"
  using assms
proof (induction ts arbitrary: fp)
  case (Cons t ts)
  have one: "clean S (avz_fast_apply_tlbi_entries t fp) bytes (set ts)"
    by (rule clean_apply) (use Cons.prems in simp)
  show ?case
  proof (cases "tlbi_kind t = TLBI_ALL")
    case True
    have "stamps_ok fp" using Cons.prems by (simp add: clean_def)
    then have "mappings (avz_fast_apply_tlbi_entries t fp) a = {}" for a
      using apply_entries[THEN conjunct2, THEN spec, of fp t a] True by auto
    then show ?thesis using one True by (simp add: clean_def sound_def)
  next
    case False
    then show ?thesis using Cons.IH[OF one] by (simp add: Let_def)
  qed
qed simp

lemma synchronize_views:
  "uncached_translation (w_context (avz_fast_synchronize_shared_translation_epoch w)) = uncached_translation (w_context w)"
  "fp_ram (w_context (avz_fast_synchronize_shared_translation_epoch w)) = fp_ram (w_context w)"
proof -
  let ?ts = "pending_tlbis (w_memory w) (fp_observed_shared_translation_epoch (w_context w))"
  have p: "same_path (apply_tlbis ?ts (w_context w)) (w_context w)" by (rule apply_tlbis_path)
  then have r: "fp_ram (apply_tlbis ?ts (w_context w)) = fp_ram (w_context w)" by (simp add: same_path_def)
  show "uncached_translation (w_context (avz_fast_synchronize_shared_translation_epoch w)) = uncached_translation (w_context w)"
    "fp_ram (w_context (avz_fast_synchronize_shared_translation_epoch w)) = fp_ram (w_context w)"
    by (simp_all add: synchronize_path path_views(5)[OF p] r)
qed

lemma coherent_synchronize:
  assumes "coherent S w"
  shows "good S (w_context (avz_fast_synchronize_shared_translation_epoch w)) (g_bytes (w_memory w))"
proof (cases "fp_has_guest_memory (w_context w)")
  case False
  then show ?thesis using assms by (simp add: synchronize_path good_clean coherent_def pending_set_def)
next
  case True
  let ?ts = "pending_tlbis (w_memory w) (fp_observed_shared_translation_epoch (w_context w))"
  have "clean S (apply_tlbis ?ts (w_context w)) (g_bytes (w_memory w)) {}"
    by (rule clean_pending) (use assms in \<open>simp add: coherent_def pending_set_def True\<close>)
  then show ?thesis using True by (simp add: synchronize_path good_clean) (simp add: clean_def sound_def)
qed

lemma good_coherent: "good S (w_context w) (g_bytes (w_memory w)) \<Longrightarrow> coherent S w"
  using clean_more[of S "w_context w" "g_bytes (w_memory w)" "{}" "pending_set w"] by (simp add: good_clean coherent_def)

subsection \<open>Steps\<close>

text \<open>
  The invalidations that a change of the page tables needs: they cover every mapping of every
  context that the change takes away or alters.
\<close>

definition invalidates :: "stage1_state set \<Rightarrow> 'c fast_path \<Rightarrow> (nat \<Rightarrow> u8) \<Rightarrow> (nat \<Rightarrow> u8) \<Rightarrow> tlbi list \<Rightarrow> bool" where
  "invalidates S fp bytes bytes' ts \<longleftrightarrow>
     (\<forall>s\<in>S. \<forall>va a pa g sh. stage1_outcome (fp\<lparr>fp_translation_state := s\<rparr>) bytes va a = Inr (pa, g, sh) \<longrightarrow>
        stage1_outcome (fp\<lparr>fp_translation_state := s\<rparr>) bytes' va a = Inr (pa, g, sh) \<or>
        (\<exists>t\<in>set ts. tlbi_covers t (shr va 12) (avz_stage1_asid s) g sh))"

definition store_tables :: "(nat \<Rightarrow> u8) \<Rightarrow> ('p, 'q, 'c) fast_world \<Rightarrow> ('p, 'q, 'c) fast_world" where
  "store_tables bytes w = w\<lparr>w_memory := (w_memory w)\<lparr>g_bytes := bytes\<rparr>\<rparr>"

definition publish :: "tlbi \<Rightarrow> ('p, 'q, 'c) fast_world \<Rightarrow> ('p, 'q, 'c) fast_world" where
  "publish t w = w\<lparr>w_memory := avz_guest_memory_publish_tlbi t (w_memory w)\<rparr>"

inductive guest_step :: "stage1_state set \<Rightarrow> ('p, 'q, 'c) fast_world \<Rightarrow> ('p, 'q, 'c) fast_world \<Rightarrow> bool"
  for S where
  Translate: "a \<noteq> Access_Instruction \<Longrightarrow> guest_step S w (snd (avz_fast_translate va width a w))"
| Fetch: "guest_step S w (snd (avz_native_fast_fetch_instruction va w))"
| Validate: "guest_step S w (snd (avz_fast_instruction_mapping_is_current va pa w))"
| Apply: "guest_step S w (avz_native_memory_fast_path_apply_tlbi t w)"
| Invalidate: "guest_step S w (avz_native_memory_fast_path_invalidate_translation w)"
| Clear_Fault: "guest_step S w (on_path avz_native_memory_fast_path_clear_translation_fault w)"
| Switch: "s \<in> S \<Longrightarrow> guest_step S w (avz_native_memory_fast_path_set_stage1_translation (Some s) report w)"
| Enter_EL: "fp_translation_state (avz_native_fast_set_current_el pstate (w_context w)) \<in> S \<Longrightarrow>
    guest_step S w (on_path (avz_native_fast_set_current_el pstate) w)"
| Attach: "\<not> fp_has_guest_memory (w_context w) \<Longrightarrow>
    avz_native_memory_fast_path_set_guest_memory ram w = Some (ok, w') \<Longrightarrow> guest_step S w w'"
| Publish: "g_translation_epoch (avz_guest_memory_publish_tlbi t (w_memory w)) \<noteq>
      fp_observed_shared_translation_epoch (w_context w) \<Longrightarrow> guest_step S w (publish t w)"
| Remap: "fp_has_guest_memory (w_context w) \<Longrightarrow>
    invalidates S (w_context w) (g_bytes (w_memory w)) bytes ts \<Longrightarrow>
    (\<And>n. 0 < n \<Longrightarrow> n \<le> length ts \<Longrightarrow> g_translation_epoch (w_memory (fold publish (take n ts) w)) \<noteq>
      fp_observed_shared_translation_epoch (w_context w)) \<Longrightarrow>
    guest_step S w (fold publish ts (store_tables bytes w))"
| Remap_Locally: "invalidates S (w_context w) (g_bytes (w_memory w)) bytes ts \<Longrightarrow>
    guest_step S w (fold avz_native_memory_fast_path_apply_tlbi ts (store_tables bytes w))"

text \<open>
  Runs start when the embedder enables the native translation of a fresh fast path, with one of
  the states of \<open>S\<close>.
\<close>

inductive guest_run :: "stage1_state set \<Rightarrow> ('p, 'q, 'c) fast_world \<Rightarrow> bool" for S where
  Start: "avz_native_memory_fast_path_create ram base sz c tr = Some (w_context w) \<Longrightarrow> s \<in> S \<Longrightarrow>
    guest_run S (avz_native_memory_fast_path_set_stage1_translation (Some s) report w)"
| Step: "guest_run S w \<Longrightarrow> guest_step S w w' \<Longrightarrow> guest_run S w'"

subsection \<open>Every step keeps coherence\<close>

lemma pending_cong:
  "w_memory w' = w_memory w \<Longrightarrow> fp_has_guest_memory (w_context w') = fp_has_guest_memory (w_context w) \<Longrightarrow>
   fp_observed_shared_translation_epoch (w_context w') = fp_observed_shared_translation_epoch (w_context w) \<Longrightarrow>
   pending_set w' = pending_set w"
  by (simp add: pending_set_def)

lemma coherent_tables:
  assumes "coherent S w" "same_tables (w_context w') (w_context w)" "w_memory w' = w_memory w"
  shows "coherent S w'"
proof -
  have "pending_set w' = pending_set w"
    by (rule pending_cong) (use assms in \<open>simp_all add: same_tables_def same_context_def\<close>)
  then show ?thesis using assms clean_tables[OF assms(2)] by (simp add: coherent_def)
qed

lemma step_translate:
  assumes S: "contexts_ok S" and c: "coherent S w" and a: "a \<noteq> Access_Instruction"
  shows "coherent S (snd (avz_fast_translate va width a w))"
proof -
  let ?w = "avz_fast_synchronize_shared_translation_epoch w"
  note g = coherent_synchronize[OF c]
  have "fp_ram (w_context ?w) = fp_ram (w_context w)" by (rule synchronize_views)
  then have "coherent S (snd (translate_on_path (\<lambda>bytes. fast_translate_hot bytes va width a) ?w))"
    if ram: "fp_ram (w_context w) \<noteq> None" "avz_fast_width_supported width"
  proof (cases "inside_page va width")
    case True
    then obtain fp where "fast_translate_hot (g_bytes (w_memory w)) va width a (w_context ?w) =
        (uncached_translation (w_context ?w) (g_bytes (w_memory w)) va width a, fp)" "good S fp (g_bytes (w_memory w))"
      using hot_transparent[OF S g a] \<open>fp_ram (w_context ?w) = fp_ram (w_context w)\<close> ram by auto
    then show ?thesis by (intro good_coherent) (simp add: translate_on_path_def synchronize_path(2))
  next
    case False
    then have "fast_translate_hot bytes va width a fp = (Translation_Failed, fp)" for bytes and fp :: "'c fast_path"
      by (simp add: fast_translate_hot_def inside_page_span(1) Let_def)
    then show ?thesis using g by (intro good_coherent) (simp add: translate_on_path_def synchronize_path(2))
  qed
  then show ?thesis using c by (simp add: avz_fast_translate_def)
qed

lemma translate_answer:
  assumes S: "contexts_ok S" and c: "coherent S w" and a: "a \<noteq> Access_Instruction"
    and "fp_ram (w_context w) \<noteq> None" "avz_fast_width_supported width" "inside_page va width"
  shows "fst (avz_fast_translate va width a w) = uncached_translation (w_context w) (g_bytes (w_memory w)) va width a"
proof -
  let ?w = "avz_fast_synchronize_shared_translation_epoch w"
  obtain fp where "fast_translate_hot (g_bytes (w_memory w)) va width a (w_context ?w) =
      (uncached_translation (w_context ?w) (g_bytes (w_memory w)) va width a, fp)"
    using hot_transparent[OF S coherent_synchronize[OF c] a] assms(4-6) synchronize_views(2)[of w] by auto
  then show ?thesis using assms(4,5) by (auto simp: avz_fast_translate_def translate_on_path_def synchronize_path(2) synchronize_views)
qed

lemma translate_on_path_memory: "w_memory (snd (translate_on_path f w)) = w_memory w"
  by (simp add: translate_on_path_def split_beta)

lemma translate_instruction_answer:
  assumes S: "contexts_ok S" and c: "coherent S w"
  shows "coherent S (snd (avz_fast_translate_instruction va w))"
    "fp_ram (w_context w) \<noteq> None \<Longrightarrow> va AND 3 = 0 \<Longrightarrow>
       fst (avz_fast_translate_instruction va w) = uncached_instruction (w_context w) (g_bytes (w_memory w)) va"
    "w_memory (snd (avz_fast_translate_instruction va w)) = w_memory w"
proof -
  let ?w = "avz_fast_synchronize_shared_translation_epoch w"
  note g = coherent_synchronize[OF c]
  have en: "fp_native_translation_enabled (w_context w)" using c by (simp add: coherent_def clean_def path_ok_def)
  have un: "uncached_instruction (w_context ?w) = uncached_instruction (w_context w)"
    by (intro ext) (simp only: uncached_instruction_def synchronize_views)
  obtain fp where t: "translate_instruction_entry (g_bytes (w_memory w)) va (w_context ?w) =
      (uncached_instruction (w_context ?w) (g_bytes (w_memory w)) va, fp)" "good S fp (g_bytes (w_memory w))" if "va AND 3 = 0"
    using instruction_transparent[OF S g] by blast
  have "coherent S (snd (translate_on_path (\<lambda>bytes. translate_instruction_entry bytes va) ?w))" if "va AND 3 = 0"
    using t[OF that] by (intro good_coherent) (simp add: translate_on_path_def synchronize_path(2))
  then show "coherent S (snd (avz_fast_translate_instruction va w))"
    using c by (simp add: avz_fast_translate_instruction_def Let_def)
  show "fp_ram (w_context w) \<noteq> None \<Longrightarrow> va AND 3 = 0 \<Longrightarrow>
       fst (avz_fast_translate_instruction va w) = uncached_instruction (w_context w) (g_bytes (w_memory w)) va"
    using t en by (auto simp: avz_fast_translate_instruction_def translate_on_path_def synchronize_path(2) un)
  show "w_memory (snd (avz_fast_translate_instruction va w)) = w_memory w"
    by (simp add: avz_fast_translate_instruction_def Let_def synchronize_path(2) translate_on_path_memory)
qed

lemma step_validate:
  assumes S: "contexts_ok S" and c: "coherent S w"
  shows "coherent S (snd (avz_fast_instruction_mapping_is_current va pa w))"
    "fp_ram (w_context w) \<noteq> None \<Longrightarrow> va AND 3 = 0 \<Longrightarrow>
       fst (avz_fast_instruction_mapping_is_current va pa w) =
         (case uncached_instruction (w_context w) (g_bytes (w_memory w)) va of None \<Rightarrow> False | Some (p, _) \<Rightarrow> p = pa)"
proof -
  let ?w = "on_path (fp_report_translation_fault_update (\<lambda>_. None)) w"
  have en: "fp_native_translation_enabled (w_context w)" using c by (simp add: coherent_def clean_def path_ok_def)
  have t: "same_tables (w_context ?w) (w_context w)"
    by (simp add: on_path_def same_tables_def same_context_def)
  have c1: "coherent S ?w" by (rule coherent_tables[OF c t]) (simp add: on_path_def)
  have un: "uncached_instruction (w_context ?w) bytes va = uncached_instruction (w_context w) bytes va" for bytes
    by (simp only: uncached_instruction_def uncached_context[OF t[unfolded same_tables_def, THEN conjunct1]])
  note answer = translate_instruction_answer[OF S c1, of va]
  obtain r w2 where r: "avz_fast_translate_instruction va ?w = (r, w2)" by fastforce
  let ?w3 = "on_path (fp_translation_fault_pending_update (\<lambda>_. fp_translation_fault_pending (w_context w)))
      (on_path (fp_report_translation_fault_update (\<lambda>_. fp_report_translation_fault (w_context w))) w2)"
  have v: "avz_fast_instruction_mapping_is_current va pa w =
      (case r of None \<Rightarrow> False | Some (physical, _) \<Rightarrow> physical = pa, ?w3)"
    using en r by (simp add: avz_fast_instruction_mapping_is_current_def Let_def)
  have c2: "coherent S w2" using answer(1) r by simp
  have t3: "same_tables (w_context ?w3) (w_context w2)" by (simp add: on_path_def same_tables_def same_context_def)
  show "coherent S (snd (avz_fast_instruction_mapping_is_current va pa w))"
    unfolding v snd_conv by (rule coherent_tables[OF c2 t3]) (simp add: on_path_def)
  show "fst (avz_fast_instruction_mapping_is_current va pa w) =
      (case uncached_instruction (w_context w) (g_bytes (w_memory w)) va of None \<Rightarrow> False | Some (p, _) \<Rightarrow> p = pa)"
    if "fp_ram (w_context w) \<noteq> None" "va AND 3 = 0"
  proof -
    have "r = uncached_instruction (w_context w) (g_bytes (w_memory w)) va"
      using answer(2) that r un by (simp add: on_path_def)
    then show ?thesis by (simp add: v)
  qed
qed

lemma step_fetch:
  assumes S: "contexts_ok S" and c: "coherent S w"
  shows "coherent S (snd (avz_native_fast_fetch_instruction va w))"
    "fp_ram (w_context w) \<noteq> None \<Longrightarrow> va AND 3 = 0 \<Longrightarrow>
       fst (avz_native_fast_fetch_instruction va w) =
         map_option (\<lambda>(physical, host). (physical, ucast (avz_fast_load (g_bytes (w_memory w)) host 4)))
           (uncached_instruction (w_context w) (g_bytes (w_memory w)) va)"
proof -
  note answer = translate_instruction_answer[OF S c, of va]
  obtain r w1 where r: "avz_fast_translate_instruction va w = (r, w1)" by fastforce
  have c1: "coherent S w1" and m: "w_memory w1 = w_memory w" using answer r by simp_all
  have "coherent S (on_path (count_memory_statistic f) w1)" for f
    by (rule coherent_tables[OF c1]) (simp_all add: on_path_def)
  then show "coherent S (snd (avz_native_fast_fetch_instruction va w))"
    using c1 by (simp add: avz_native_fast_fetch_instruction_def r split: option.split)
  show "fp_ram (w_context w) \<noteq> None \<Longrightarrow> va AND 3 = 0 \<Longrightarrow>
       fst (avz_native_fast_fetch_instruction va w) =
         map_option (\<lambda>(physical, host). (physical, ucast (avz_fast_load (g_bytes (w_memory w)) host 4)))
           (uncached_instruction (w_context w) (g_bytes (w_memory w)) va)"
    using answer(2) by (auto simp: avz_native_fast_fetch_instruction_def r m split: option.split)
qed

text \<open>Applying an invalidation on this processor.\<close>

lemma apply_tlbi_world:
  "w_memory (avz_native_memory_fast_path_apply_tlbi t w) = w_memory w"
  "same_tables (w_context (avz_native_memory_fast_path_apply_tlbi t w)) (avz_fast_apply_tlbi_entries t (w_context w))"
  by (simp_all add: avz_native_memory_fast_path_apply_tlbi_def on_path_def on_cache_def avz_fast_invalidate_decoded_mappings_def
      same_tables_def same_context_def)

lemma apply_tlbi_pending: "pending_set (avz_native_memory_fast_path_apply_tlbi t w) = pending_set w"
proof (rule pending_cong)
  have "same_path (avz_fast_apply_tlbi_entries t (w_context w)) (w_context w)" by (rule apply_entries_path)
  then show "fp_has_guest_memory (w_context (avz_native_memory_fast_path_apply_tlbi t w)) = fp_has_guest_memory (w_context w)"
    "fp_observed_shared_translation_epoch (w_context (avz_native_memory_fast_path_apply_tlbi t w)) =
     fp_observed_shared_translation_epoch (w_context w)"
    using apply_tlbi_world(2)[of t w] by (simp_all add: same_tables_def same_context_def same_path_def)
qed (rule apply_tlbi_world)

lemma apply_tlbis_coherent:
  assumes "clean S (w_context w) (g_bytes (w_memory w)) (set ts \<union> pending_set w)"
  shows "coherent S (fold avz_native_memory_fast_path_apply_tlbi ts w)"
  using assms
proof (induction ts arbitrary: w)
  case (Cons t ts)
  have "clean S (avz_fast_apply_tlbi_entries t (w_context w)) (g_bytes (w_memory w)) (set ts \<union> pending_set w)"
    by (rule clean_apply) (use Cons.prems in simp)
  from clean_tables[OF apply_tlbi_world(2) this] show ?case
    using Cons.IH[of "avz_native_memory_fast_path_apply_tlbi t w"] by (simp add: apply_tlbi_world(1) apply_tlbi_pending)
qed (simp add: coherent_def)

text \<open>Writing page tables: what changes is covered by the invalidations.\<close>

lemma covers_context:
  assumes "tlbi_covers t (tlb_virtual_page m) asid (tlb_global m) (tlb_leaf_shift m)" "tlb_global m \<or> tlb_asid m = asid"
  shows "covers t m"
  using assms by (auto simp: covers_def tlbi_covers_def split: if_splits)

lemma clean_store:
  assumes c: "clean S fp bytes T" and i: "invalidates S fp bytes bytes' ts"
  shows "clean S fp bytes' (set ts \<union> T)"
proof -
  have "walk_agrees S fp bytes' a m" if m: "m \<in> mappings fp a" "\<not> reaches (set ts \<union> T) m" for a m
    unfolding walk_agrees_def
  proof (intro ballI allI impI)
    fix s va assume s: "s \<in> S" and va: "shr va 12 = tlb_virtual_page m \<and> state_tag s va = tlb_context_tag m \<and>
        (tlb_global m \<or> tlb_asid m = avz_stage1_asid s)"
    have "walk_agrees S fp bytes a m" using c m unfolding clean_def sound_def reaches_def by blast
    then have old: "stage1_outcome (fp\<lparr>fp_translation_state := s\<rparr>) bytes va a =
        Inr (tlb_physical_page m + page_offset_of va, tlb_global m, tlb_leaf_shift m)"
      using s va by (simp add: walk_agrees_def)
    show "stage1_outcome (fp\<lparr>fp_translation_state := s\<rparr>) bytes' va a =
        Inr (tlb_physical_page m + page_offset_of va, tlb_global m, tlb_leaf_shift m)"
    proof (rule ccontr)
      assume "stage1_outcome (fp\<lparr>fp_translation_state := s\<rparr>) bytes' va a \<noteq>
          Inr (tlb_physical_page m + page_offset_of va, tlb_global m, tlb_leaf_shift m)"
      then obtain t where "t \<in> set ts" "tlbi_covers t (shr va 12) (avz_stage1_asid s) (tlb_global m) (tlb_leaf_shift m)"
        using i s old unfolding invalidates_def by blast
      then show False using m(2) va covers_context[of t m "avz_stage1_asid s"] by (auto simp: reaches_def)
    qed
  qed
  then show ?thesis using c unfolding clean_def sound_def reaches_def by blast
qed

text \<open>Switching the translation context.\<close>

lemma refreshed:
  assumes "stamps_ok fp" "s = fp_translation_state fp" "s \<in> S" "fp_native_translation_enabled fp"
  shows "path_ok S (avz_fast_refresh_translation_context_tags fp)"
    "stamps_ok (avz_fast_refresh_translation_context_tags fp)"
    "mappings (avz_fast_refresh_translation_context_tags fp) a \<subseteq> mappings fp a"
    "mapping_shape (avz_fast_refresh_translation_context_tags fp) = mapping_shape fp"
    "walk_agrees S (avz_fast_refresh_translation_context_tags fp) = walk_agrees S fp"
proof -
  let ?clear = "if avz_stage1_asid s \<noteq> fp_translation_asid fp then avz_fast_clear_hot_tlbs fp else fp"
  let ?fp = "avz_fast_refresh_translation_context_tags fp"
  have same: "same_path ?clear fp" by simp
  have ok: "stamps_ok ?clear" using clear_hot_ok[OF assms(1)] assms(1) by simp
  have hot: "hot_live ?clear (fp_hot ?clear a i) \<Longrightarrow> avz_stage1_asid s = fp_translation_asid fp" for a i
    using clear_hot_none[OF assms(1), of a i] by (auto split: if_splits)
  have fields: "fp_tlb ?fp = fp_tlb ?clear" "fp_hot ?fp = fp_hot ?clear" "fp_translation_generation ?fp = fp_translation_generation ?clear"
    "fp_hot_translation_generation ?fp = fp_hot_translation_generation ?clear" "fp_tlbi_epoch ?fp = fp_tlbi_epoch ?clear"
    "fp_asid_tlbi_epochs ?fp = fp_asid_tlbi_epochs ?clear" "fp_va_asid_tlbi_epochs ?fp = fp_va_asid_tlbi_epochs ?clear"
    "fp_va_all_tlbi_epochs ?fp = fp_va_all_tlbi_epochs ?clear" "fp_va_global_tlbi_epochs ?fp = fp_va_global_tlbi_epochs ?clear"
    "fp_translation_asid ?fp = avz_stage1_asid s"
    "fp_ram_base ?fp = fp_ram_base ?clear" "fp_ram_size ?fp = fp_ram_size ?clear"
    "fp_translation_state ?fp = fp_translation_state ?clear"
    "fp_native_translation_enabled ?fp = fp_native_translation_enabled ?clear"
    "fp_low_translation_context_tag ?fp = avz_fast_translation_context_tag_for_ttbr s (st_ttbr0_el1 s)"
    "fp_high_translation_context_tag ?fp = avz_fast_translation_context_tag_for_ttbr s (st_ttbr1_el1 s)"
    unfolding avz_fast_refresh_translation_context_tags_def Let_def by (simp_all add: assms(2))
  have stale: "tlb_entry_stale ?fp = tlb_entry_stale ?clear"
    by (intro ext) (simp only: tlb_entry_stale_def fields)
  have live: "tlb_live ?fp = tlb_live ?clear" "hot_live ?fp = hot_live ?clear"
    by (intro ext; simp only: tlb_live_def hot_live_def fields stale)+
  have hot_asid: "tlb_global (fp_hot ?clear a i) \<or> tlb_asid (fp_hot ?clear a i) = avz_stage1_asid s"
    if h: "hot_live ?clear (fp_hot ?clear a i)" for a i
    using stamps_okD(5)[OF ok h] hot[OF h] same by (simp add: same_path_def)
  show "stamps_ok ?fp"
    using ok hot_asid unfolding stamps_ok_def fields live by blast
  have "mappings ?fp a = mappings ?clear a" for a by (simp only: mappings_def fields live)
  moreover have "mappings ?clear a \<subseteq> mappings fp a" for a
    using clear_hot_mappings[OF assms(1), of a] by (auto simp: mappings_def)
  ultimately show "mappings ?fp a \<subseteq> mappings fp a" by simp
  have b: "host_of_page ?fp = host_of_page fp" "contiguous_span_of ?fp = contiguous_span_of fp"
    and r: "fp_ram_base ?fp = fp_ram_base fp" "fp_ram_size ?fp = fp_ram_size fp"
    using same by (simp_all add: fun_eq_iff host_of_page_def contiguous_span_of_def fields same_path_def)
  show "mapping_shape ?fp = mapping_shape fp" by (intro ext) (simp only: mapping_shape_def b)
  show "walk_agrees S ?fp = walk_agrees S fp"
    by (intro ext) (simp only: walk_agrees_def outcome_context[OF r])
  show "path_ok S ?fp" using assms(2-4) same
    by (simp add: path_ok_def avz_fast_translation_context_tag_def fields state_tag_def state_ttbr_def same_path_def)
qed

lemma clean_refresh:
  assumes "clean S fp bytes T" "s \<in> S"
  shows "clean S (avz_fast_refresh_translation_context_tags (fp\<lparr>fp_translation_state := s, fp_native_translation_enabled := True\<rparr>)) bytes T"
proof -
  let ?fp = "fp\<lparr>fp_translation_state := s, fp_native_translation_enabled := True\<rparr>"
  have stale: "tlb_entry_stale ?fp = tlb_entry_stale fp" by (simp add: fun_eq_iff tlb_entry_stale_def)
  then have live: "tlb_live ?fp = tlb_live fp" "hot_live ?fp = hot_live fp"
    by (simp_all add: fun_eq_iff tlb_live_def hot_live_def)
  have ok: "stamps_ok ?fp" using assms(1) by (simp add: clean_def stamps_ok_def hot_live_def)
  have b: "host_of_page ?fp = host_of_page fp" "contiguous_span_of ?fp = contiguous_span_of fp"
    by (simp_all add: fun_eq_iff host_of_page_def contiguous_span_of_def)
  have shape: "mapping_shape ?fp = mapping_shape fp" by (intro ext) (simp only: mapping_shape_def b)
  have "fp_ram_base ?fp = fp_ram_base fp" "fp_ram_size ?fp = fp_ram_size fp" by simp_all
  note out = outcome_context[OF this]
  have agree: "walk_agrees S ?fp = walk_agrees S fp" by (intro ext) (simp only: walk_agrees_def out)
  have maps: "mappings ?fp a = mappings fp a" for a by (simp add: mappings_def live)
  note r = refreshed[OF ok, of s S]
  have "sound S (avz_fast_refresh_translation_context_tags ?fp) bytes T"
    by (rule sound_less[of S fp bytes T]) (use assms r maps shape agree in \<open>auto simp: clean_def\<close>)
  then show ?thesis using r assms(2) by (simp add: clean_def)
qed

lemma clear_clean:
  assumes "stamps_ok fp" "path_ok S fp"
  shows "clean S (avz_fast_clear_tlbs fp) bytes T"
  using clear_tlbs_ok[OF assms(1)] clear_tlbs_mappings[OF assms(1)] path_views(4)[OF clear_same_path(2)[of fp], of S] assms(2)
  by (simp add: clean_def sound_def)

lemma switch_world:
  fixes w :: "('p, 'q, 'c) fast_world"
  assumes "stamps_ok (w_context w)" "s \<in> S" "fp_native_translation_enabled (w_context w) \<Longrightarrow> coherent S w"
  shows "coherent S (avz_native_memory_fast_path_set_stage1_translation (Some s) report w)"
proof -
  define w1 where "w1 = avz_native_memory_fast_path_set_stage1_translation (Some s) report w"
  let ?fp0 = "(w_context w)\<lparr>fp_report_translation_fault := report, fp_translation_fault_pending := False\<rparr>"
  let ?en = "fp_native_translation_enabled (w_context w)"
  let ?same = "avz_stage1_translation_state_equal (fp_translation_state (w_context w)) s"
  let ?fp1 = "avz_fast_refresh_translation_context_tags (?fp0\<lparr>fp_translation_state := s, fp_native_translation_enabled := True\<rparr>)"
  let ?fp2 = "if ?en \<and> ?same then ?fp0
      else if \<not> ?en \<or> \<not> avz_stage1_translation_geometry_equal (fp_translation_state (w_context w)) s
      then avz_fast_clear_tlbs ?fp1 else ?fp1"
  have w1: "w_context (w1) = ?fp2" "w_memory (w1) = w_memory w"
    by (simp_all add: w1_def avz_native_memory_fast_path_set_stage1_translation_def Let_def on_path_def
        avz_fast_invalidate_decoded_mappings_def on_cache_def)
  have t: "same_tables ?fp0 (w_context w)" by (simp add: same_tables_def same_context_def)
  have refresh: "fp_has_guest_memory (avz_fast_refresh_translation_context_tags fp) = fp_has_guest_memory fp \<and>
      fp_observed_shared_translation_epoch (avz_fast_refresh_translation_context_tags fp) = fp_observed_shared_translation_epoch fp" for fp :: "'c fast_path"
    by (simp add: avz_fast_refresh_translation_context_tags_def avz_fast_clear_hot_tlbs_def Let_def)
  have clear: "fp_has_guest_memory (avz_fast_clear_tlbs fp) = fp_has_guest_memory fp \<and>
      fp_observed_shared_translation_epoch (avz_fast_clear_tlbs fp) = fp_observed_shared_translation_epoch fp" for fp :: "'c fast_path"
    using clear_same_path(2)[of fp] by (simp add: same_path_def)
  have "pending_set (w1) = pending_set w"
    by (rule pending_cong) (simp_all add: w1 refresh clear)
  moreover have "clean S ?fp2 (g_bytes (w_memory w)) (pending_set w)"
  proof (cases ?en)
    case True
    then have "clean S ?fp0 (g_bytes (w_memory w)) (pending_set w)"
      using clean_tables[OF t] assms(3) by (simp add: coherent_def)
    moreover from clean_refresh[OF this assms(2)] have "clean S ?fp1 (g_bytes (w_memory w)) (pending_set w)" .
    ultimately show ?thesis using clear_clean[of ?fp1 S "g_bytes (w_memory w)" "pending_set w"] True
      by (auto simp: clean_def)
  next
    case False
    let ?fp = "?fp0\<lparr>fp_translation_state := s, fp_native_translation_enabled := True\<rparr>"
    have "stamps_ok ?fp" using assms(1) by (simp add: stamps_ok_def hot_live_def)
    from refreshed[OF this, of s S] have "stamps_ok ?fp1" "path_ok S ?fp1" using assms(2) by simp_all
    then show ?thesis using clear_clean False by simp
  qed
  ultimately show ?thesis by (simp add: coherent_def w1 flip: w1_def)
qed

text \<open>Changing the exception level.\<close>

lemma clean_empty_hot:
  assumes "clean S fp bytes T"
  shows "clean S (fp\<lparr>fp_hot := (fp_hot fp)(a := \<lambda>_. empty_tlb_entry)\<rparr>) bytes T"
proof -
  let ?fp = "fp\<lparr>fp_hot := (fp_hot fp)(a := \<lambda>_. empty_tlb_entry)\<rparr>"
  have c: "same_context ?fp fp" by (simp add: same_context_def)
  have s: "fp_translation_generation ?fp = fp_translation_generation fp" "fp_hot_translation_generation ?fp = fp_hot_translation_generation fp"
    "fp_tlbi_epoch ?fp = fp_tlbi_epoch fp" "fp_asid_tlbi_epochs ?fp = fp_asid_tlbi_epochs fp"
    "fp_va_asid_tlbi_epochs ?fp = fp_va_asid_tlbi_epochs fp" "fp_va_all_tlbi_epochs ?fp = fp_va_all_tlbi_epochs fp"
    "fp_va_global_tlbi_epochs ?fp = fp_va_global_tlbi_epochs fp" "fp_translation_asid ?fp = fp_translation_asid fp"
    "fp_tlb ?fp = fp_tlb fp" by simp_all
  have dead: "\<not> tlb_valid empty_tlb_entry" "\<not> hot_live fp empty_tlb_entry"
    by (simp_all add: empty_tlb_entry_def hot_live_def)
  have "stamps_ok fp" using assms by (simp add: clean_def)
  then have ok: "stamps_ok ?fp" unfolding stamps_ok_def s context_views[OF c] by (simp add: dead)
  have "mappings ?fp b \<subseteq> mappings fp b" for b
    unfolding mappings_def s context_views[OF c] by (auto simp: dead split: if_splits)
  then have "shrunk ?fp fp" using ok c by (simp add: shrunk_def)
  then show ?thesis using assms sound_shrunk[of ?fp fp S bytes T] ok by (simp add: clean_def context_sound[OF c])
qed

lemma step_enter_el:
  assumes "coherent S w" "fp_translation_state (avz_native_fast_set_current_el pstate (w_context w)) \<in> S"
  shows "coherent S (on_path (avz_native_fast_set_current_el pstate) w)"
proof (cases "st_current_el (fp_translation_state (w_context w)) = ucast (shr pstate 2 AND 3)")
  case True
  then show ?thesis using assms(1) by (simp add: avz_native_fast_set_current_el_def on_path_def)
next
  case False
  define s where "s = (fp_translation_state (w_context w))\<lparr>st_current_el := ucast (shr pstate 2 AND 3)\<rparr>"
  define fp where "fp = avz_fast_refresh_translation_context_tags ((w_context w)\<lparr>fp_translation_state := s, fp_native_translation_enabled := True\<rparr>)"
  have en: "(w_context w)\<lparr>fp_native_translation_enabled := True\<rparr> = w_context w"
    using assms(1) by (simp add: coherent_def clean_def path_ok_def)
  have el: "avz_native_fast_set_current_el pstate (w_context w) = fp\<lparr>fp_hot := (fp_hot fp)(Access_Instruction := \<lambda>_. empty_tlb_entry)\<rparr>"
  proof -
    have "(w_context w)\<lparr>fp_translation_state := s, fp_native_translation_enabled := True\<rparr> = (w_context w)\<lparr>fp_translation_state := s\<rparr>"
      by (subst (2) en[symmetric]) simp
    then show ?thesis using False by (simp add: avz_native_fast_set_current_el_def Let_def fp_def s_def)
  qed
  let ?fp = "fp\<lparr>fp_hot := (fp_hot fp)(Access_Instruction := \<lambda>_. empty_tlb_entry)\<rparr>"
  have "fp_translation_state fp = s"
    by (simp add: fp_def avz_fast_refresh_translation_context_tags_def avz_fast_clear_hot_tlbs_def Let_def)
  then have "s \<in> S" using assms(2) by (simp add: el)
  then have c: "clean S fp (g_bytes (w_memory w)) (pending_set w)"
    unfolding fp_def using assms(1) by (intro clean_refresh) (simp_all add: coherent_def)
  have "clean S ?fp (g_bytes (w_memory w)) (pending_set w)" using c by (rule clean_empty_hot)
  moreover have "pending_set (on_path (avz_native_fast_set_current_el pstate) w) = pending_set w"
    by (rule pending_cong) (simp_all add: on_path_def el fp_def avz_fast_refresh_translation_context_tags_def avz_fast_clear_hot_tlbs_def Let_def)
  ultimately show ?thesis by (simp add: coherent_def on_path_def el)
qed

text \<open>The other steps.\<close>

lemma publish_memory [simp]:
  "w_context (publish t w) = w_context w" "w_memory (publish t w) = avz_guest_memory_publish_tlbi t (w_memory w)"
  "w_context (fold publish ts w) = w_context w"
  "w_memory (fold publish ts w) = fold avz_guest_memory_publish_tlbi ts (w_memory w)"
proof -
  show one: "w_context (publish t w) = w_context w" "w_memory (publish t w) = avz_guest_memory_publish_tlbi t (w_memory w)" for t w
    by (simp_all add: publish_def)
  show "w_context (fold publish ts w) = w_context w"
    "w_memory (fold publish ts w) = fold avz_guest_memory_publish_tlbi ts (w_memory w)"
    by (induction ts arbitrary: w) (simp_all add: one)
qed

lemma publish_bytes [simp]:
  "g_bytes (avz_guest_memory_publish_tlbi t m) = g_bytes m"
  "g_bytes (fold avz_guest_memory_publish_tlbi ts m) = g_bytes m"
  "g_translation_epoch (fold avz_guest_memory_publish_tlbi ts (m\<lparr>g_bytes := b\<rparr>)) =
     g_translation_epoch (fold avz_guest_memory_publish_tlbi ts m)"
proof -
  show one: "g_bytes (avz_guest_memory_publish_tlbi t m) = g_bytes m" for t m
    by (simp add: avz_guest_memory_publish_tlbi_def Let_def)
  show "g_bytes (fold avz_guest_memory_publish_tlbi ts m) = g_bytes m" by (induction ts arbitrary: m) (simp_all add: one)
  have "avz_guest_memory_publish_tlbi t (m\<lparr>g_bytes := b\<rparr>) = (avz_guest_memory_publish_tlbi t m)\<lparr>g_bytes := b\<rparr>" for t m
    by (simp add: avz_guest_memory_publish_tlbi_def Let_def)
  then have "fold avz_guest_memory_publish_tlbi ts (m\<lparr>g_bytes := b\<rparr>) = (fold avz_guest_memory_publish_tlbi ts m)\<lparr>g_bytes := b\<rparr>"
    by (induction ts arbitrary: m) simp_all
  then show "g_translation_epoch (fold avz_guest_memory_publish_tlbi ts (m\<lparr>g_bytes := b\<rparr>)) =
     g_translation_epoch (fold avz_guest_memory_publish_tlbi ts m)" by simp
qed

lemma pending_store [simp]: "pending_tlbis (m\<lparr>g_bytes := b\<rparr>) e = pending_tlbis m e"
proof -
  have "g_translation_journal (m\<lparr>g_bytes := b\<rparr>) = g_translation_journal m" "g_translation_epoch (m\<lparr>g_bytes := b\<rparr>) = g_translation_epoch m"
    by simp_all
  then show ?thesis by (simp only: pending_tlbis_def)
qed

lemma store_tables_views [simp]:
  "w_context (store_tables b w) = w_context w" "g_bytes (w_memory (store_tables b w)) = b"
  "pending_set (store_tables b w) = pending_set w"
  by (simp_all add: store_tables_def pending_set_def)

lemma clean_attached:
  assumes "clean S fp bytes T"
  shows "clean S (fp\<lparr>fp_has_guest_memory := True, fp_observed_shared_translation_epoch := e\<rparr>) bytes T"
proof -
  let ?fp = "fp\<lparr>fp_has_guest_memory := True\<rparr>"
  have "tlb_entry_stale ?fp = tlb_entry_stale fp" by (simp add: fun_eq_iff tlb_entry_stale_def)
  then have live: "tlb_live ?fp = tlb_live fp" "hot_live ?fp = hot_live fp"
    by (simp_all add: fun_eq_iff tlb_live_def hot_live_def)
  have b: "host_of_page ?fp = host_of_page fp" "contiguous_span_of ?fp = contiguous_span_of fp"
    by (simp_all add: fun_eq_iff host_of_page_def contiguous_span_of_def)
  have shape: "mapping_shape ?fp = mapping_shape fp" by (intro ext) (simp only: mapping_shape_def b)
  have "fp_ram_base ?fp = fp_ram_base fp" "fp_ram_size ?fp = fp_ram_size fp" by simp_all
  note out = outcome_context[OF this]
  have agree: "walk_agrees S ?fp = walk_agrees S fp" by (intro ext) (simp only: walk_agrees_def out)
  have maps: "mappings ?fp = mappings fp" by (intro ext) (simp add: mappings_def live)
  have "path_ok S ?fp = path_ok S fp" by (simp add: path_ok_def avz_fast_translation_context_tag_def)
  moreover have "stamps_ok ?fp = stamps_ok fp" by (simp add: stamps_ok_def live)
  ultimately have "clean S ?fp bytes T" using assms by (simp add: clean_def sound_def maps shape agree)
  then show ?thesis unfolding clean_def sound_def by simp
qed

lemma step_remap:
  assumes c: "coherent S w" and g: "fp_has_guest_memory (w_context w)"
    and i: "invalidates S (w_context w) (g_bytes (w_memory w)) bytes ts"
    and e: "\<And>n. 0 < n \<Longrightarrow> n \<le> length ts \<Longrightarrow> g_translation_epoch (w_memory (fold publish (take n ts) w)) \<noteq>
      fp_observed_shared_translation_epoch (w_context w)"
  shows "coherent S (fold publish ts (store_tables bytes w))"
proof -
  let ?e = "fp_observed_shared_translation_epoch (w_context w)"
  let ?m = "fold avz_guest_memory_publish_tlbi ts ((w_memory w)\<lparr>g_bytes := bytes\<rparr>)"
  have "clean S (w_context w) bytes (set ts \<union> pending_set w)"
    by (rule clean_store[OF _ i]) (use c in \<open>simp add: coherent_def\<close>)
  moreover have "reaches (set (pending_tlbis ?m ?e)) m" if "reaches (set ts \<union> pending_set w) m" for m
  proof (rule fold_publish_pending)
    show "reaches (set ts \<union> set (pending_tlbis ((w_memory w)\<lparr>g_bytes := bytes\<rparr>) ?e)) m"
      using that g by (simp add: pending_set_def)
  qed (use e in simp)
  ultimately have "clean S (w_context w) bytes (set (pending_tlbis ?m ?e))" by (rule clean_more)
  then show ?thesis by (simp add: coherent_def store_tables_def pending_set_def g)
qed

lemma step_coherent:
  assumes S: "contexts_ok S" and c: "coherent S w" and step: "guest_step S w w'"
  shows "coherent S w'"
  using step
proof cases
  case (Translate a va width)
  then show ?thesis using step_translate[OF S c] by simp
next
  case (Fetch va)
  then show ?thesis using step_fetch[OF S c] by simp
next
  case (Validate va pa)
  then show ?thesis using step_validate[OF S c] by simp
next
  case (Apply t)
  have "clean S (w_context w) (g_bytes (w_memory w)) (set [t] \<union> pending_set w)"
    using c unfolding coherent_def by (rule clean_more) simp
  from apply_tlbis_coherent[OF this] show ?thesis using Apply by simp
next
  case Invalidate
  let ?fp = "(w_context w)\<lparr>fp_translation_fault_pending := False\<rparr>"
  have "same_tables ?fp (w_context w)" by (simp add: same_tables_def same_context_def)
  from clean_tables[OF this] have "clean S ?fp (g_bytes (w_memory w)) (pending_set w)" using c by (simp add: coherent_def)
  then have "clean S (avz_fast_clear_tlbs ?fp) (g_bytes (w_memory w)) (pending_set w)"
    by (intro clear_clean) (simp_all add: clean_def)
  moreover have "pending_set w' = pending_set w"
    by (rule pending_cong) (use clear_same_path(2)[of ?fp] in \<open>simp_all add: Invalidate avz_native_memory_fast_path_invalidate_translation_def
        on_path_def on_cache_def avz_fast_invalidate_decoded_mappings_def same_path_def\<close>)
  ultimately show ?thesis
    by (simp add: Invalidate coherent_def avz_native_memory_fast_path_invalidate_translation_def
        on_path_def on_cache_def avz_fast_invalidate_decoded_mappings_def)
next
  case Clear_Fault
  show ?thesis unfolding Clear_Fault
    by (rule coherent_tables[OF c]) (simp_all add: on_path_def avz_native_memory_fast_path_clear_translation_fault_def same_tables_def same_context_def)
next
  case (Switch s report)
  then show ?thesis using switch_world[of w s S report] c by (simp add: coherent_def clean_def)
next
  case (Enter_EL pstate)
  then show ?thesis using step_enter_el[OF c] by simp
next
  case (Attach ram ok)
  have "w_memory w' = w_memory w \<and> (w_context w' = w_context w \<or> w_context w' = (w_context w)\<lparr>fp_has_guest_memory := True,
      fp_observed_shared_translation_epoch := g_translation_epoch (w_memory w)\<rparr>)"
    using Attach(2) by (auto simp: avz_native_memory_fast_path_set_guest_memory_def Let_def on_path_def split: if_splits)
  moreover have "clean S ((w_context w)\<lparr>fp_has_guest_memory := True, fp_observed_shared_translation_epoch := e\<rparr>) (g_bytes (w_memory w)) {}" for e
    using c Attach(1) by (intro clean_attached) (simp add: coherent_def pending_set_def)
  ultimately show ?thesis using c Attach(1) by (auto simp: coherent_def pending_set_def)
next
  case (Publish t)
  have "reaches (pending_set (publish t w)) m" if "reaches (pending_set w) m" for m
    using that publish_pending[OF Publish(2), of m] by (simp add: pending_set_def split: if_splits)
  from clean_more[OF _ this] show ?thesis using c Publish by (simp add: coherent_def)
next
  case (Remap bytes ts)
  then show ?thesis using step_remap[OF c] by simp
next
  case (Remap_Locally bytes ts)
  have "clean S (w_context w) bytes (set ts \<union> pending_set w)"
    by (rule clean_store[OF _ Remap_Locally(2)]) (use c in \<open>simp add: coherent_def\<close>)
  then show ?thesis unfolding Remap_Locally(1)
    by (intro apply_tlbis_coherent) simp
qed

lemma run_coherent:
  assumes S: "contexts_ok S" and "guest_run S w"
  shows "coherent S w"
  using assms(2)
proof induction
  case (Start ram base sz c tr w s report)
  have fresh: "stamps_ok (w_context w)" "\<not> fp_native_translation_enabled (w_context w)"
    using Start(1)[symmetric] by (auto simp: avz_native_memory_fast_path_create_def stamps_ok_def hot_live_def empty_tlb_entry_def split: if_splits)
  then show ?case using Start(2) by (intro switch_world) simp_all
next
  case (Step w w')
  then show ?case using step_coherent[OF S] by blast
qed

subsection \<open>Transparency\<close>

text \<open>
  C1: In every run of a guest that invalidates the mappings that it changes, on its own processor
  or by publishing the invalidations to the others, the fast translation of a data access inside
  a page answers exactly what the walk of the current page tables answers: the same RAM location,
  the same device address or the same failure, whatever the TLBs and hot tables hold.
\<close>
theorem tlb_is_transparent:
  fixes w :: "('p, 'q, 'c) fast_world"
  assumes "contexts_ok S" "guest_run S w" "a \<noteq> Access_Instruction"
    and "fp_ram (w_context w) \<noteq> None" "avz_fast_width_supported width" "inside_page va width"
  shows "fst (avz_fast_translate va width a w) = uncached_translation (w_context w) (g_bytes (w_memory w)) va width a"
  by (rule translate_answer[OF assms(1) run_coherent[OF assms(1,2)] assms(3-6)])

text \<open>
  C2: In every such run an instruction fetch from an aligned address returns the physical address
  that the walk of the current page tables gives, with the instruction word stored there, and
  fails exactly when the walk does or leaves the RAM; and the validation of a cached block
  accepts an address exactly when a fetch would deliver it from the expected physical address.
\<close>
theorem fetch_is_transparent:
  fixes w :: "('p, 'q, 'c) fast_world"
  assumes "contexts_ok S" "guest_run S w" "fp_ram (w_context w) \<noteq> None" "va AND 3 = 0"
  shows "fst (avz_native_fast_fetch_instruction va w) =
      map_option (\<lambda>(physical, host). (physical, ucast (avz_fast_load (g_bytes (w_memory w)) host 4)))
        (uncached_instruction (w_context w) (g_bytes (w_memory w)) va) \<and>
    (fst (avz_fast_instruction_mapping_is_current va expected w) \<longleftrightarrow>
      map_option fst (fst (avz_native_fast_fetch_instruction va w)) = Some expected)"
  using step_fetch(2)[OF assms(1) run_coherent[OF assms(1,2)] assms(3,4)]
    step_validate(2)[OF assms(1) run_coherent[OF assms(1,2)] assms(3,4)]
  by (auto split: option.splits)

text \<open>
  A run: two levels of tables map the first gigabyte to the start of the RAM; after an access
  the table is changed to another gigabyte, and the invalidation of everything is published.
\<close>

definition demo_tables :: "u64 \<Rightarrow> nat \<Rightarrow> u8" where
  "demo_tables leaf = avz_fast_store_value 0x2000 8 leaf (avz_fast_store_value 0x1000 8 0x40002003 (\<lambda>_. 0))"

definition demo_state :: stage1_state where
  "demo_state = \<lparr>st_sctlr_el1 = 1, st_tcr_el1 = 0x100010, st_ttbr0_el1 = 0x40001000, st_ttbr1_el1 = 0, st_current_el = 1\<rparr>"

definition demo_path :: "unit fast_path" where
  "demo_path = the (avz_native_memory_fast_path_create (Some 0) 0x40000000 0x10000 () (\<lambda>c _ _ _. (None, c)))"

definition demo_start :: "(unit, unit, unit) fast_world" where
  "demo_start = avz_native_memory_fast_path_set_stage1_translation (Some demo_state) None
     \<lparr>w_cache = avz_native_block_cache_create, w_memory = sample_memory\<lparr>g_bytes := demo_tables 0x40000401\<rparr>, w_context = demo_path\<rparr>"

definition demo_attached :: "(unit, unit, unit) fast_world" where
  "demo_attached = snd (the (avz_native_memory_fast_path_set_guest_memory 0 demo_start))"

definition demo_touched :: "(unit, unit, unit) fast_world" where
  "demo_touched = snd (avz_fast_translate 0x100 8 Access_Read demo_attached)"

definition demo_remapped :: "(unit, unit, unit) fast_world" where
  "demo_remapped = fold publish [empty_tlbi] (store_tables (demo_tables 0x80000401) demo_touched)"

lemma demo_contexts: "contexts_ok {demo_state}"
  by (simp add: contexts_ok_def regime_ok_def demo_state_def same_regime_def)

lemma demo_start_run: "guest_run {demo_state} demo_start"
  unfolding demo_start_def
  by (rule Start[of "Some 0" "0x40000000" "0x10000" "()" "\<lambda>c _ _ _. (None, c)"])
    (simp_all add: demo_path_def avz_native_memory_fast_path_create_def)

lemma demo_start_context:
  "fp_ram (w_context demo_start) = Some 0" "fp_ram_base (w_context demo_start) = 0x40000000"
  "fp_ram_size (w_context demo_start) = 0x10000" "fp_translation_state (w_context demo_start) = demo_state"
  "\<not> fp_has_guest_memory (w_context demo_start)"
  by (simp_all add: demo_start_def demo_path_def avz_native_memory_fast_path_create_def on_path_def on_cache_def
      avz_native_memory_fast_path_set_stage1_translation_def avz_fast_invalidate_decoded_mappings_def Let_def
      avz_fast_clear_tlbs_def avz_fast_clear_hot_tlbs_def avz_fast_refresh_translation_context_tags_def)

lemma demo_start_memory:
  "g_size (w_memory demo_start) = 0x10000" "g_translation_epoch (w_memory demo_start) = 1"
  "g_bytes (w_memory demo_start) = demo_tables 0x40000401"
proof -
  have "w_memory demo_start = sample_memory\<lparr>g_bytes := demo_tables 0x40000401\<rparr>"
    by (simp add: demo_start_def on_path_def on_cache_def avz_native_memory_fast_path_set_stage1_translation_def
        avz_fast_invalidate_decoded_mappings_def Let_def demo_path_def avz_native_memory_fast_path_create_def)
  then show "g_size (w_memory demo_start) = 0x10000" "g_translation_epoch (w_memory demo_start) = 1"
    "g_bytes (w_memory demo_start) = demo_tables 0x40000401"
    by (simp_all add: sample_memory_def avz_guest_memory_create_def avz_next_power_of_two_def Let_def)
qed

lemma demo_attach: "avz_native_memory_fast_path_set_guest_memory 0 demo_start = Some (True, demo_attached)"
proof -
  have c: "avz_assembly_clear empty_assembly_cache = Some empty_assembly_cache"
    by (simp add: avz_assembly_clear_def release_queue.simps empty_assembly_cache_def)
  have cache: "w_cache demo_start = avz_native_block_cache_invalidate_translation_mappings avz_native_block_cache_create"
    by (simp add: demo_start_def on_path_def on_cache_def avz_native_memory_fast_path_set_stage1_translation_def
        avz_fast_invalidate_decoded_mappings_def Let_def demo_path_def avz_native_memory_fast_path_create_def)
  have "avz_native_block_cache_set_guest_memory (w_cache demo_start) \<noteq> None"
    by (simp add: cache avz_native_block_cache_set_guest_memory_def avz_native_block_cache_invalidate_translation_mappings_def
        avz_native_block_cache_clear_def avz_assembly_chain_retire_def avz_native_block_cache_create_def advance_code_mutation_epoch_def c Let_def)
  then show ?thesis
    by (auto simp: demo_attached_def avz_native_memory_fast_path_set_guest_memory_def demo_start_context demo_start_memory on_path_def Let_def)
qed

lemma demo_attached_context:
  "w_context demo_attached = (w_context demo_start)\<lparr>fp_has_guest_memory := True,
     fp_observed_shared_translation_epoch := g_translation_epoch (w_memory demo_start)\<rparr>"
  "w_memory demo_attached = w_memory demo_start"
proof -
  have "\<exists>z. demo_start\<lparr>w_context := (w_context demo_start)\<lparr>fp_has_guest_memory := True,
     fp_observed_shared_translation_epoch := g_translation_epoch (w_memory demo_start)\<rparr>, w_cache := z\<rparr> = demo_attached"
    using demo_attach
    by (auto simp: avz_native_memory_fast_path_set_guest_memory_def Let_def on_path_def split: if_splits)
  then obtain z where z: "demo_attached = demo_start\<lparr>w_context := (w_context demo_start)\<lparr>fp_has_guest_memory := True,
     fp_observed_shared_translation_epoch := g_translation_epoch (w_memory demo_start)\<rparr>, w_cache := z\<rparr>" by metis
  show "w_context demo_attached = (w_context demo_start)\<lparr>fp_has_guest_memory := True,
     fp_observed_shared_translation_epoch := g_translation_epoch (w_memory demo_start)\<rparr>"
    "w_memory demo_attached = w_memory demo_start" by (simp_all add: z)
qed

lemma demo_attached_run: "guest_run {demo_state} demo_attached"
  by (rule Step[OF demo_start_run Attach[OF _ demo_attach]]) (simp add: demo_start_context)

lemma demo_touched_run: "guest_run {demo_state} demo_touched"
  unfolding demo_touched_def by (rule Step[OF demo_attached_run Translate]) simp

lemma demo_touched_world:
  "same_context (w_context demo_touched) (w_context demo_attached)" "w_memory demo_touched = w_memory demo_attached"
proof -
  have sync: "avz_fast_synchronize_shared_translation_epoch demo_attached = demo_attached"
    by (simp add: avz_fast_synchronize_shared_translation_epoch_def demo_attached_context demo_start_memory Let_def)
  have ram: "fp_ram (w_context demo_attached) \<noteq> None" by (simp add: demo_attached_context demo_start_context demo_start_memory)
  have g: "good {demo_state} (w_context demo_attached) (g_bytes (w_memory demo_attached))"
    using coherent_synchronize[OF run_coherent[OF demo_contexts demo_attached_run]] by (simp add: sync)
  have inside: "inside_page 0x100 8" by (simp add: inside_page_def page_offset_of_def)
  obtain fp where "fast_translate_hot (g_bytes (w_memory demo_attached)) 0x100 8 Access_Read (w_context demo_attached) =
      (uncached_translation (w_context demo_attached) (g_bytes (w_memory demo_attached)) 0x100 8 Access_Read, fp)"
    "same_context fp (w_context demo_attached)"
    using hot_transparent[OF demo_contexts g _ ram _ inside, of Access_Read] by (auto simp: avz_fast_width_supported_def)
  then show "same_context (w_context demo_touched) (w_context demo_attached)" "w_memory demo_touched = w_memory demo_attached"
    using ram by (simp_all add: demo_touched_def avz_fast_translate_def avz_fast_width_supported_def sync translate_on_path_def)
qed

lemma demo_remapped_run: "guest_run {demo_state} demo_remapped"
  unfolding demo_remapped_def
proof (rule Step[OF demo_touched_run Remap])
  have c: "same_context (w_context demo_touched) (w_context demo_attached)" by (rule demo_touched_world)
  then show "fp_has_guest_memory (w_context demo_touched)" by (simp add: same_context_def demo_attached_context demo_start_memory)
  show "invalidates {demo_state} (w_context demo_touched) (g_bytes (w_memory demo_touched)) (demo_tables 0x80000401) [empty_tlbi]"
    by (simp add: invalidates_def tlbi_covers_def empty_tlbi_def)
  have "fp_observed_shared_translation_epoch (w_context demo_touched) = 1"
    using c by (simp add: same_context_def demo_attached_context demo_start_memory)
  moreover have "g_translation_epoch (w_memory demo_touched) = 1" by (simp add: demo_touched_world demo_attached_context demo_start_memory)
  ultimately show "g_translation_epoch (w_memory (fold publish (take n [empty_tlbi]) demo_touched)) \<noteq>
      fp_observed_shared_translation_epoch (w_context demo_touched)" if "0 < n" "n \<le> length [empty_tlbi]" for n
    using that by (simp add: publish_epoch le_Suc_eq)
qed

lemma demo_remapped_context:
  "fp_ram (w_context demo_remapped) = Some 0" "fp_ram_base (w_context demo_remapped) = 0x40000000"
  "fp_ram_size (w_context demo_remapped) = 0x10000" "fp_translation_state (w_context demo_remapped) = demo_state"
  "g_bytes (w_memory demo_remapped) = demo_tables 0x80000401"
  using demo_touched_world(1)
  by (simp_all add: demo_remapped_def same_context_def demo_attached_context demo_start_context demo_start_memory)

lemma demo_walk:
  assumes "fp_ram_base fp = 0x40000000" "fp_ram_size fp = 0x10000" "fp_translation_state fp = demo_state"
  shows "stage1_outcome fp (demo_tables 0x80000401) 0x108 Access_Read = Inr (0x80000108, True, 30)"
    "stage1_outcome fp (demo_tables 0x40000401) 0x108 Access_Instruction = Inr (0x40000108, True, 30)"
proof -
  have l: "avz_fast_load (demo_tables leaf) 0x1000 8 = 0x40002003" "avz_fast_load (demo_tables leaf) 0x2000 8 = leaf" for leaf
  proof -
    have m: "mask 64 = (- 1 :: u64)" by (simp add: mask_eq_exp_minus_1)
    have "avz_fast_load (avz_fast_store_value 0x2000 8 leaf b) 0x1000 8 = avz_fast_load b 0x1000 8" for b
      by (rule bit_eqI) (auto simp: bit_fast_load store_value_at byte_range_def)
    then show "avz_fast_load (demo_tables leaf) 0x1000 8 = 0x40002003" "avz_fast_load (demo_tables leaf) 0x2000 8 = leaf"
      using load_store_value[of 8] by (simp_all add: demo_tables_def m)
  qed
  show "stage1_outcome fp (demo_tables 0x80000401) 0x108 Access_Read = Inr (0x80000108, True, 30)"
    "stage1_outcome fp (demo_tables 0x40000401) 0x108 Access_Instruction = Inr (0x40000108, True, 30)"
    using assms by (simp_all add: stage1_outcome_def stage1_walk_def demo_state_def stage1_levels.simps(2) avz_stage1_read_descriptor_def l
      stage1_leaf_def avz_stage1_validate_leaf_def Let_def)
qed

theorem tlb_is_transparent_witness:
  "fst (avz_fast_translate 0x108 8 Access_Read demo_remapped) = Translation_Physical 0x80000108"
proof -
  have "fst (avz_fast_translate 0x108 8 Access_Read demo_remapped) =
      uncached_translation (w_context demo_remapped) (g_bytes (w_memory demo_remapped)) 0x108 8 Access_Read"
    by (rule tlb_is_transparent[OF demo_contexts demo_remapped_run])
      (simp_all add: demo_remapped_context avz_fast_width_supported_def inside_page_def page_offset_of_def)
  then show ?thesis
    by (simp add: demo_remapped_context uncached_translation_def demo_walk finish_translation_def host_of_page_def
        page_start_def page_offset_of_def Let_def)
qed

theorem fetch_is_transparent_witness:
  "map_option fst (fst (avz_native_fast_fetch_instruction 0x108 demo_start)) = Some 0x40000108 \<and>
   fst (avz_fast_instruction_mapping_is_current 0x108 0x40000108 demo_start)"
proof -
  note fetch = fetch_is_transparent[OF demo_contexts demo_start_run, where va = "0x108" and expected = "0x40000108"]
  have "uncached_instruction (w_context demo_start) (g_bytes (w_memory demo_start)) 0x108 = Some (0x40000108, 0x108)"
    by (simp add: demo_start_context demo_start_memory uncached_instruction_def uncached_translation_def demo_walk
        finish_translation_def host_of_page_def page_start_def page_offset_of_def Let_def)
  then show ?thesis using fetch by (simp add: demo_start_context)
qed

end
