(* ===== verification/FastMemory.thy ===== *)
theory FastMemory
  imports PageWalk
begin

text \<open>
  The memory callbacks of \<open>ARM64VizGuestMemory.c\<close>: what the interpreter calls for loads, stores,
  pairs, exclusives, bulk reads and writes and fills, on the fast path of its processor. An
  access translates its address, works on the RAM directly when the page is RAM, calls the
  device when it is not, and otherwise falls back to the slow callback of the embedder, unless
  the translation has already delivered a fault.

  The slow callbacks and the devices are parameters; they see and may change the whole world.
  Page locks are not modelled, so that an operation under its locks is one step.
\<close>

subsection \<open>Callbacks\<close>

record ('p, 'q, 'c) slow_memory =
  k_slow_read :: "(u64 \<Rightarrow> u8 \<Rightarrow> ('p, 'q, 'c) fast_world \<Rightarrow> u64 option \<times> ('p, 'q, 'c) fast_world) option"
  k_slow_write :: "(u64 \<Rightarrow> u8 \<Rightarrow> u64 \<Rightarrow> ('p, 'q, 'c) fast_world \<Rightarrow> bool \<times> ('p, 'q, 'c) fast_world) option"
  k_read_physical :: "(u64 \<Rightarrow> u8 \<Rightarrow> ('p, 'q, 'c) fast_world \<Rightarrow> u64 option \<times> ('p, 'q, 'c) fast_world) option"
  k_write_physical :: "(u64 \<Rightarrow> u8 \<Rightarrow> u64 \<Rightarrow> ('p, 'q, 'c) fast_world \<Rightarrow> bool \<times> ('p, 'q, 'c) fast_world) option"
  k_slow_can_access :: "(u64 \<Rightarrow> u8 \<Rightarrow> bool \<Rightarrow> ('p, 'q, 'c) fast_world \<Rightarrow> bool \<times> ('p, 'q, 'c) fast_world) option"
  k_slow_fill :: "(u64 \<Rightarrow> u64 \<Rightarrow> u64 \<Rightarrow> u8 \<Rightarrow> ('p, 'q, 'c) fast_world \<Rightarrow> bool \<times> ('p, 'q, 'c) fast_world) option"

definition access_of :: "bool \<Rightarrow> memory_access" where
  "access_of is_write = (if is_write then Access_Write else Access_Read)"

definition slow_path ::
  "'r \<Rightarrow> (('p, 'q, 'c) fast_world \<Rightarrow> 'r \<times> ('p, 'q, 'c) fast_world) option \<Rightarrow> ('p, 'q, 'c) fast_world \<Rightarrow>
   'r \<times> ('p, 'q, 'c) fast_world" where
  "slow_path failure callback w =
     (if fp_translation_fault_pending (w_context w) then (failure, w)
      else case callback of None \<Rightarrow> (failure, w) | Some f \<Rightarrow> f w)"

subsection \<open>Writing RAM\<close>

definition mark_dirty_on_path :: "u64 \<Rightarrow> nat \<Rightarrow> ('p, 'q, 'c) fast_world \<Rightarrow> bool \<times> ('p, 'q, 'c) fast_world" where
  "mark_dirty_on_path physical_address byte_count w =
     (let fp = w_context w
      in if \<not> fp_has_guest_memory fp \<or> byte_count = 0 then (False, w)
         else
           let (contains_code, hot, memory) =
                 avz_fast_mark_dirty (fp_ram_base fp) physical_address byte_count (fp_dirty_hot fp) (w_memory w)
           in (contains_code, w\<lparr>w_context := fp\<lparr>fp_dirty_hot := hot\<rparr>, w_memory := memory\<rparr>))"

definition avz_fast_invalidate_code_after_write ::
  "u64 \<Rightarrow> nat \<Rightarrow> bool \<Rightarrow> ('p, 'q, 'c) fast_world \<Rightarrow> ('p, 'q, 'c) fast_world" where
  "avz_fast_invalidate_code_after_write physical_address byte_count range_contains_code w =
     (if byte_count = 0 \<or> (fp_has_guest_memory (w_context w) \<and> \<not> range_contains_code) then w
      else on_cache (avz_native_block_cache_invalidate_physical_range physical_address (word_of_nat byte_count)) w)"

definition on_bytes :: "((nat \<Rightarrow> u8) \<Rightarrow> nat \<Rightarrow> u8) \<Rightarrow> ('p, 'q, 'c) fast_world \<Rightarrow> ('p, 'q, 'c) fast_world" where
  "on_bytes f w = w\<lparr>w_memory := (w_memory w)\<lparr>g_bytes := f (g_bytes (w_memory w))\<rparr>\<rparr>"

text \<open>Marking the pages dirty and retiring the code on them, after the bytes have been written.\<close>

definition avz_native_fast_memory_commit_write_span ::
  "u64 \<Rightarrow> nat \<Rightarrow> ('p, 'q, 'c) fast_world \<Rightarrow> ('p, 'q, 'c) fast_world" where
  "avz_native_fast_memory_commit_write_span physical_address byte_count w =
     (if byte_count = 0 then w
      else let (contains_code, w) = mark_dirty_on_path physical_address byte_count w
           in avz_fast_invalidate_code_after_write physical_address byte_count contains_code w)"

definition store_on_path ::
  "nat \<Rightarrow> u64 \<Rightarrow> u8 \<Rightarrow> u64 \<Rightarrow> ('p, 'q, 'c) fast_world \<Rightarrow> ('p, 'q, 'c) fast_world" where
  "store_on_path host physical_address width v w =
     avz_native_fast_memory_commit_write_span physical_address (unat width)
       (on_bytes (avz_fast_store_value host (unat width) v) w)"

subsection \<open>Single accesses\<close>

definition avz_native_fast_memory_read ::
  "('p, 'q, 'c) slow_memory \<Rightarrow> u64 \<Rightarrow> u8 \<Rightarrow> ('p, 'q, 'c) fast_world \<Rightarrow> u64 option \<times> ('p, 'q, 'c) fast_world" where
  "avz_native_fast_memory_read k virtual_address width w =
     (let slow = slow_path None (map_option (\<lambda>f. f virtual_address width) (k_slow_read k))
      in case avz_fast_translate virtual_address width Access_Read w of
           (Translation_RAM _ host, w) \<Rightarrow>
             (Some (avz_fast_load (g_bytes (w_memory w)) host (unat width)), on_path (count_memory_statistic Read_Hits) w)
         | (Translation_Physical physical_address, w) \<Rightarrow>
             (case k_read_physical k of
                None \<Rightarrow> slow w
              | Some device \<Rightarrow>
                  let (r, w) = device physical_address width w
                  in (r, if r \<noteq> None then on_path (count_memory_statistic Physical_Device_Reads) w else w))
         | (Translation_Failed, w) \<Rightarrow> slow w)"

definition avz_native_fast_memory_write ::
  "('p, 'q, 'c) slow_memory \<Rightarrow> u64 \<Rightarrow> u8 \<Rightarrow> u64 \<Rightarrow> ('p, 'q, 'c) fast_world \<Rightarrow> bool \<times> ('p, 'q, 'c) fast_world" where
  "avz_native_fast_memory_write k virtual_address width v w =
     (let slow = slow_path False (map_option (\<lambda>f. f virtual_address width v) (k_slow_write k))
      in case avz_fast_translate virtual_address width Access_Write w of
           (Translation_RAM physical_address host, w) \<Rightarrow>
             (True, on_path (count_memory_statistic Write_Hits) (store_on_path host physical_address width v w))
         | (Translation_Physical physical_address, w) \<Rightarrow>
             (case k_write_physical k of
                None \<Rightarrow> slow w
              | Some device \<Rightarrow>
                  let (success, w) = device physical_address width v w
                  in (success, if success then on_path (count_memory_statistic Physical_Device_Writes) w else w))
         | (Translation_Failed, w) \<Rightarrow> slow w)"

definition avz_native_fast_memory_can_access ::
  "('p, 'q, 'c) slow_memory \<Rightarrow> u64 \<Rightarrow> u8 \<Rightarrow> bool \<Rightarrow> ('p, 'q, 'c) fast_world \<Rightarrow> bool \<times> ('p, 'q, 'c) fast_world" where
  "avz_native_fast_memory_can_access k virtual_address width is_write w =
     (case avz_fast_translate virtual_address width (access_of is_write) w of
        (Translation_RAM _ _, w) \<Rightarrow> (True, w)
      | (_, w) \<Rightarrow>
          slow_path False (map_option (\<lambda>f. f virtual_address width is_write) (k_slow_can_access k)) w)"

text \<open>The translation of an access that must be RAM.\<close>

definition translate_ram ::
  "u64 \<Rightarrow> u8 \<Rightarrow> memory_access \<Rightarrow> ('p, 'q, 'c) fast_world \<Rightarrow> (u64 \<times> nat) option \<times> ('p, 'q, 'c) fast_world" where
  "translate_ram virtual_address width access w =
     (case avz_fast_translate virtual_address width access w of
        (Translation_RAM physical_address host, w) \<Rightarrow> (Some (physical_address, host), w)
      | (_, w) \<Rightarrow> (None, w))"

subsection \<open>Pairs\<close>

text \<open>The hot entry that covers both halves of a pair of eight bytes.\<close>

definition pair_hot_entry ::
  "u64 \<Rightarrow> memory_access \<Rightarrow> ('p, 'q, 'c) fast_world \<Rightarrow> tlb_entry option" where
  "pair_hot_entry virtual_address access w =
     (let fp = w_context w;
          page_offset = page_offset_of virtual_address;
          virtual_page = shr virtual_address 12;
          context_tag = avz_fast_translation_context_tag fp virtual_address;
          hot = fp_hot fp access (hot_index_of virtual_page context_tag)
      in if entry_matches hot (fp_hot_translation_generation fp) (page_offset + 16) virtual_page context_tag \<and>
            tlb_host_page hot \<noteq> None \<and> tlb_physical_page hot \<le> - 1 - page_offset - 8
         then Some hot else None)"

definition translate_halves ::
  "u64 \<Rightarrow> u8 \<Rightarrow> memory_access \<Rightarrow> ('p, 'q, 'c) fast_world \<Rightarrow>
   ((u64 \<times> nat) \<times> (u64 \<times> nat)) option \<times> ('p, 'q, 'c) fast_world" where
  "translate_halves virtual_address width access w =
     (case translate_ram virtual_address width access w of
        (None, w) \<Rightarrow> (None, w)
      | (Some first, w) \<Rightarrow>
          (case translate_ram (virtual_address + ucast width) width access w of
             (None, w) \<Rightarrow> (None, w)
           | (Some second, w) \<Rightarrow> (Some (first, second), w)))"

definition avz_native_fast_memory_translate_pair ::
  "u64 \<Rightarrow> u8 \<Rightarrow> memory_access \<Rightarrow> ('p, 'q, 'c) fast_world \<Rightarrow>
   ((u64 \<times> nat) \<times> (u64 \<times> nat)) option \<times> ('p, 'q, 'c) fast_world" where
  "avz_native_fast_memory_translate_pair virtual_address width access w =
     (if \<not> avz_fast_width_supported width \<or> virtual_address > - 1 - ucast width then (None, w)
      else
        let page_offset = unat (page_offset_of virtual_address);
            inside = (unat width * 2 \<le> 4096 - page_offset);
            wide = (fp_ram (w_context w) \<noteq> None \<and> width = 8 \<and> inside);
            w = (if wide then avz_fast_synchronize_shared_translation_epoch w else w)
        in case (if wide then pair_hot_entry virtual_address access w else None) of
             Some hot \<Rightarrow>
               let physical = tlb_physical_page hot + page_offset_of virtual_address;
                   host = (case tlb_host_page hot of None \<Rightarrow> 0 | Some host \<Rightarrow> host) + page_offset
               in (Some ((physical, host), (physical + ucast width, host + unat width)),
                   on_path (count_memory_statistic (data_hits access)) w)
           | None \<Rightarrow>
               (case (if inside then translate_ram virtual_address (width * 2) access w else (None, w)) of
                  (Some (physical, host), w) \<Rightarrow>
                    (Some ((physical, host), (physical + ucast width, host + unat width)), w)
                | (None, w) \<Rightarrow> translate_halves virtual_address width access w))"

text \<open>
  The locks of the stripes of two small ranges; they cannot be taken when a range leaves the memory.
\<close>

definition avz_fast_access_is_naturally_atomic :: "nat \<Rightarrow> u8 \<Rightarrow> bool" where
  "avz_fast_access_is_naturally_atomic host width =
     (width = 1 \<or> (width = 2 \<and> host mod 2 = 0) \<or> (width = 4 \<and> host mod 4 = 0) \<or> (width = 8 \<and> host mod 8 = 0))"

definition offset_on_path :: "'c fast_path \<Rightarrow> u64 \<Rightarrow> nat" where
  "offset_on_path fp physical_address = unat (physical_address - fp_ram_base fp)"

definition small_pair_lockable :: "guest_memory \<Rightarrow> nat \<Rightarrow> nat \<Rightarrow> nat \<Rightarrow> bool" where
  "small_pair_lockable memory first_offset second_offset width =
     (avz_guest_memory_page_range memory first_offset width \<noteq> None \<and>
      avz_guest_memory_page_range memory second_offset width \<noteq> None)"

definition read_pair_requires_lock :: "('p, 'q, 'c) fast_world \<Rightarrow> nat \<Rightarrow> nat \<Rightarrow> nat \<Rightarrow> nat \<Rightarrow> u8 \<Rightarrow> bool" where
  "read_pair_requires_lock w first_host second_host first_offset second_offset width =
     (let memory = w_memory w;
          observed = (\<lambda>offset. avz_guest_memory_range_may_have_observation memory offset (unat width) OBSERVATION_HOST)
      in fp_has_guest_memory (w_context w) \<and>
         (\<not> avz_fast_access_is_naturally_atomic first_host width \<or>
          \<not> avz_fast_access_is_naturally_atomic second_host width \<or>
          observed first_offset \<or> observed second_offset))"

definition write_pair_requires_lock :: "('p, 'q, 'c) fast_world \<Rightarrow> nat \<Rightarrow> nat \<Rightarrow> nat \<Rightarrow> nat \<Rightarrow> u8 \<Rightarrow> bool" where
  "write_pair_requires_lock w first_host second_host first_offset second_offset width =
     (let memory = w_memory w;
          either = (\<lambda>observed. observed first_offset (unat width) \<or> observed second_offset (unat width))
      in fp_has_guest_memory (w_context w) \<and>
         (\<not> avz_fast_access_is_naturally_atomic first_host width \<or>
          \<not> avz_fast_access_is_naturally_atomic second_host width \<or>
          (either (\<lambda>offset count. avz_guest_memory_range_may_have_observation memory offset count 0xff) \<and>
           (either (avz_guest_memory_range_has_host_observer memory) \<or>
            either (avz_guest_memory_range_has_bulk_reader memory) \<or>
            either (avz_guest_memory_range_has_exclusive_observer memory)))))"

definition avz_native_fast_memory_read_pair ::
  "u64 \<Rightarrow> u8 \<Rightarrow> ('p, 'q, 'c) fast_world \<Rightarrow> (u64 \<times> u64) option \<times> ('p, 'q, 'c) fast_world" where
  "avz_native_fast_memory_read_pair virtual_address width w =
     (case avz_native_fast_memory_translate_pair virtual_address width Access_Read w of
        (None, w) \<Rightarrow> (None, w)
      | (Some ((first_physical, first_host), (second_physical, second_host)), w) \<Rightarrow>
          let first_offset = offset_on_path (w_context w) first_physical;
              second_offset = offset_on_path (w_context w) second_physical;
              bytes = g_bytes (w_memory w)
          in if read_pair_requires_lock w first_host second_host first_offset second_offset width \<and>
                \<not> small_pair_lockable (w_memory w) first_offset second_offset (unat width)
             then (None, w)
             else
               (Some (avz_fast_load bytes first_host (unat width), avz_fast_load bytes second_host (unat width)),
                on_path (count_memory_statistic Read_Hits) (on_path (count_memory_statistic Read_Hits) w)))"

definition avz_native_fast_memory_write_pair ::
  "u64 \<Rightarrow> u8 \<Rightarrow> u64 \<Rightarrow> u64 \<Rightarrow> ('p, 'q, 'c) fast_world \<Rightarrow> bool \<times> ('p, 'q, 'c) fast_world" where
  "avz_native_fast_memory_write_pair virtual_address width first_value second_value w =
     (case avz_native_fast_memory_translate_pair virtual_address width Access_Write w of
        (None, w) \<Rightarrow> (False, w)
      | (Some ((first_physical, first_host), (second_physical, second_host)), w) \<Rightarrow>
          let first_offset = offset_on_path (w_context w) first_physical;
              second_offset = offset_on_path (w_context w) second_physical
          in if write_pair_requires_lock w first_host second_host first_offset second_offset width \<and>
                \<not> small_pair_lockable (w_memory w) first_offset second_offset (unat width)
             then (False, w)
             else
               let w = on_bytes (avz_fast_store_value first_host (unat width) first_value) w;
                   w = on_bytes (avz_fast_store_value second_host (unat width) second_value) w;
                   w = (if second_physical = first_physical + ucast width
                        then avz_native_fast_memory_commit_write_span first_physical (unat width * 2) w
                        else avz_native_fast_memory_commit_write_span second_physical (unat width)
                               (avz_native_fast_memory_commit_write_span first_physical (unat width) w))
               in (True, on_path (count_memory_statistic Write_Hits) (on_path (count_memory_statistic Write_Hits) w)))"

subsection \<open>Bytes in atomic chunks\<close>

text \<open>
  Bulk copies use the widest aligned access that fits. The copy loops of the code repeat the
  eight byte access without asking again, because the address stays aligned. A pointer into the
  RAM is an offset from a start that the allocator aligns to a page.
\<close>

definition avz_fast_atomic_chunk_width :: "nat \<Rightarrow> nat \<Rightarrow> nat" where
  "avz_fast_atomic_chunk_width address remaining =
     (if remaining \<ge> 8 \<and> address mod 8 = 0 then 8
      else if remaining \<ge> 4 \<and> address mod 4 = 0 then 4
      else if remaining \<ge> 2 \<and> address mod 2 = 0 then 2 else 1)"

lemma chunk_width: "0 < remaining \<Longrightarrow> avz_fast_atomic_chunk_width address remaining \<in> {1 .. min 8 remaining}"
  by (simp add: avz_fast_atomic_chunk_width_def)

definition value_bytes :: "nat \<Rightarrow> u64 \<Rightarrow> u8 list" where
  "value_bytes width v = map (\<lambda>offset. ucast (shr v (offset * 8))) [0 ..< width]"

function avz_fast_atomic_read_bytes :: "(nat \<Rightarrow> u8) \<Rightarrow> nat \<Rightarrow> nat \<Rightarrow> u8 list" where
  "avz_fast_atomic_read_bytes bytes host byte_count =
     (if byte_count = 0 then []
      else let width = avz_fast_atomic_chunk_width host byte_count
           in value_bytes width (avz_fast_load bytes host width) @
              avz_fast_atomic_read_bytes bytes (host + width) (byte_count - width))"
  by pat_completeness auto
termination
  by (relation "measure (\<lambda>(_, _, byte_count). byte_count)") (auto simp: avz_fast_atomic_chunk_width_def)

function avz_fast_atomic_write_bytes :: "nat \<Rightarrow> u8 list \<Rightarrow> (nat \<Rightarrow> u8) \<Rightarrow> nat \<Rightarrow> u8" where
  "avz_fast_atomic_write_bytes host source bytes =
     (if source = [] then bytes
      else let width = avz_fast_atomic_chunk_width host (length source);
               v = avz_fast_load (\<lambda>index. source ! index) 0 width
           in avz_fast_atomic_write_bytes (host + width) (drop width source)
                (avz_fast_store_value host width v bytes))"
  by pat_completeness auto
termination
  by (relation "measure (\<lambda>(_, source, _). length source)") (auto simp: avz_fast_atomic_chunk_width_def)

function avz_fast_atomic_fill_bytes ::
  "nat \<Rightarrow> nat \<Rightarrow> u8 list \<Rightarrow> nat \<Rightarrow> nat \<Rightarrow> (nat \<Rightarrow> u8) \<Rightarrow> nat \<Rightarrow> u8" where
  "avz_fast_atomic_fill_bytes host byte_count pattern pattern_width phase bytes =
     (if byte_count = 0 then bytes
      else let width = avz_fast_atomic_chunk_width host byte_count;
               v = avz_fast_load (\<lambda>index. pattern ! ((phase + index) mod pattern_width)) 0 width
           in avz_fast_atomic_fill_bytes (host + width) (byte_count - width) pattern pattern_width
                (phase + width) (avz_fast_store_value host width v bytes))"
  by pat_completeness auto
termination
  by (relation "measure (\<lambda>(_, byte_count, _). byte_count)") (auto simp: avz_fast_atomic_chunk_width_def)

declare avz_fast_atomic_read_bytes.simps [simp del] avz_fast_atomic_write_bytes.simps [simp del]
  avz_fast_atomic_fill_bytes.simps [simp del]

subsection \<open>Bulk reads and writes\<close>

text \<open>
  The pages of a range, each translated for one byte at its first address: the place in RAM and
  the part of the range that lies in the page. The code has room for two.
\<close>

record span =
  sp_host :: nat
  sp_physical :: u64
  sp_offset :: nat
  sp_count :: nat

definition chunk_of :: "u64 \<Rightarrow> nat \<Rightarrow> nat" where
  "chunk_of address remaining =
     (let page_remaining = 4096 - unat (page_offset_of address)
      in if remaining < page_remaining then remaining else page_remaining)"

fun collect_spans ::
  "nat \<Rightarrow> u64 \<Rightarrow> nat \<Rightarrow> memory_access \<Rightarrow> nat \<Rightarrow> ('p, 'q, 'c) fast_world \<Rightarrow>
   span list option \<times> ('p, 'q, 'c) fast_world" where
  "collect_spans slots virtual_address byte_count access checked w =
     (if checked \<ge> byte_count then (Some [], w)
      else case slots of
        0 \<Rightarrow> (None, w)
      | Suc slots \<Rightarrow>
          let address = virtual_address + word_of_nat checked;
              chunk = chunk_of address (byte_count - checked)
          in case translate_ram address 1 access w of
               (None, w) \<Rightarrow> (None, w)
             | (Some (physical, host), w) \<Rightarrow>
                 (case collect_spans slots virtual_address byte_count access (checked + chunk) w of
                    (None, w) \<Rightarrow> (None, w)
                  | (Some spans, w) \<Rightarrow>
                      (Some (\<lparr>sp_host = host, sp_physical = physical, sp_offset = checked, sp_count = chunk\<rparr> # spans), w)))"

declare collect_spans.simps [simp del]

text \<open>
  A bulk read locks the stripes of the observed spans, with room for two; it fails when a span
  leaves the memory or needs more.
\<close>

definition read_spans_lockable :: "('p, 'q, 'c) fast_world \<Rightarrow> span list \<Rightarrow> bool" where
  "read_spans_lockable w spans =
     (let memory = w_memory w;
          observed = filter (\<lambda>s. avz_guest_memory_range_may_have_observation memory
            (offset_on_path (w_context w) (sp_physical s)) (sp_count s) OBSERVATION_HOST) spans;
          ranges = map (\<lambda>s. avz_guest_memory_page_range memory
            (offset_on_path (w_context w) (sp_physical s)) (sp_count s)) observed;
          stripes = concat (map (\<lambda>(lo, hi). map (\<lambda>page. page mod 4096) [lo ..< Suc hi]) (map the ranges))
      in \<not> fp_has_guest_memory (w_context w) \<or> (None \<notin> set ranges \<and> length (remdups stripes) \<le> 2))"

definition avz_native_fast_memory_read_bytes ::
  "u64 \<Rightarrow> nat \<Rightarrow> ('p, 'q, 'c) fast_world \<Rightarrow> u8 list option \<times> ('p, 'q, 'c) fast_world" where
  "avz_native_fast_memory_read_bytes virtual_address byte_count w =
     (if byte_count = 0 \<or> byte_count > 4096 \<or> virtual_address > - 1 - (word_of_nat byte_count - 1) then (None, w)
      else case collect_spans 2 virtual_address byte_count Access_Read 0 w of
        (None, w) \<Rightarrow> (None, w)
      | (Some spans, w) \<Rightarrow>
          if \<not> read_spans_lockable w spans then (None, w)
          else
          (Some (concat (map (\<lambda>s. avz_fast_atomic_read_bytes (g_bytes (w_memory w)) (sp_host s) (sp_count s)) spans)),
           on_path (count_memory_statistic Read_Hits) w))"

definition write_span :: "u8 list \<Rightarrow> span \<Rightarrow> ('p, 'q, 'c) fast_world \<Rightarrow> ('p, 'q, 'c) fast_world" where
  "write_span input s w =
     avz_native_fast_memory_commit_write_span (sp_physical s) (sp_count s)
       (on_bytes (avz_fast_atomic_write_bytes (sp_host s) (take (sp_count s) (drop (sp_offset s) input))) w)"

definition avz_native_fast_memory_write_bytes ::
  "u64 \<Rightarrow> u8 list \<Rightarrow> ('p, 'q, 'c) fast_world \<Rightarrow> bool \<times> ('p, 'q, 'c) fast_world" where
  "avz_native_fast_memory_write_bytes virtual_address input w =
     (let byte_count = length input
      in if byte_count = 0 \<or> byte_count > 64 \<or> virtual_address > - 1 - (word_of_nat byte_count - 1) then (False, w)
         else case collect_spans 2 virtual_address byte_count Access_Write 0 w of
           (None, w) \<Rightarrow> (False, w)
         | (Some spans, w) \<Rightarrow>
             (True, on_path (count_memory_statistic Write_Hits) (fold (write_span input) spans w)))"

text \<open>A span handed out to a host pointer is observed from then on.\<close>

definition avz_native_fast_memory_map_span ::
  "u64 \<Rightarrow> nat \<Rightarrow> bool \<Rightarrow> ('p, 'q, 'c) fast_world \<Rightarrow> (nat \<times> u64) option \<times> ('p, 'q, 'c) fast_world" where
  "avz_native_fast_memory_map_span virtual_address byte_count is_write w =
     (if \<not> fp_direct_bulk_mapping_enabled (w_context w) \<or> byte_count = 0 \<or> byte_count > 64 \<or>
         virtual_address > - 1 - (word_of_nat byte_count - 1) \<or>
         byte_count > 4096 - unat (page_offset_of virtual_address) then (None, w)
      else case translate_ram virtual_address 1 (access_of is_write) w of
        (None, w) \<Rightarrow> (None, w)
      | (Some (physical_address, host), w) \<Rightarrow>
          let ram_offset = physical_address - fp_ram_base (w_context w);
              ram_size = fp_ram_size (w_context w)
          in if ram_offset > ram_size \<or> word_of_nat byte_count > ram_size - ram_offset then (None, w)
             else
               let w = (if \<not> fp_has_guest_memory (w_context w) then w
                        else w\<lparr>w_memory :=
                          (if is_write then avz_guest_memory_note_host_observation (unat ram_offset) byte_count (w_memory w)
                           else avz_guest_memory_note_bulk_read (unat ram_offset) byte_count (w_memory w))\<rparr>)
               in (Some (host, physical_address),
                   on_path (count_memory_statistic (if is_write then Write_Hits else Read_Hits)) w))"

subsection \<open>Fills\<close>

text \<open>The first pass checks that every page is RAM, the second translates again and writes.\<close>

function check_fill ::
  "u64 \<Rightarrow> nat \<Rightarrow> nat \<Rightarrow> ('p, 'q, 'c) fast_world \<Rightarrow> bool \<times> ('p, 'q, 'c) fast_world" where
  "check_fill virtual_address byte_count checked w =
     (if checked \<ge> byte_count then (True, w)
      else
        let address = virtual_address + word_of_nat checked
        in case translate_ram address 1 Access_Write w of
             (None, w) \<Rightarrow> (False, w)
           | (Some _, w) \<Rightarrow>
               check_fill virtual_address byte_count (checked + chunk_of address (byte_count - checked)) w)"
  by pat_completeness auto
termination
  by (relation "measure (\<lambda>(_, byte_count, checked, _). byte_count - checked)")
    (use page_offset_less in \<open>auto simp: chunk_of_def Let_def not_le intro!: diff_less_mono2\<close>)

function write_fill ::
  "u64 \<Rightarrow> nat \<Rightarrow> u8 list \<Rightarrow> nat \<Rightarrow> nat \<Rightarrow> ('p, 'q, 'c) fast_world \<Rightarrow> bool \<times> ('p, 'q, 'c) fast_world" where
  "write_fill virtual_address byte_count pattern pattern_width written w =
     (if written \<ge> byte_count then (True, w)
      else
        let address = virtual_address + word_of_nat written;
            chunk = chunk_of address (byte_count - written)
        in case translate_ram address 1 Access_Write w of
             (None, w) \<Rightarrow> (False, w)
           | (Some (physical_address, host), w) \<Rightarrow>
               let w = on_bytes (avz_fast_atomic_fill_bytes host chunk pattern pattern_width (written mod pattern_width)) w;
                   w = avz_native_fast_memory_commit_write_span physical_address chunk w
               in write_fill virtual_address byte_count pattern pattern_width (written + chunk) w)"
  by pat_completeness auto
termination
  by (relation "measure (\<lambda>(_, byte_count, _, _, written, _). byte_count - written)")
    (use page_offset_less in \<open>auto simp: chunk_of_def Let_def not_le intro!: diff_less_mono2\<close>)

declare check_fill.simps [simp del] write_fill.simps [simp del]

definition avz_native_fast_memory_fill ::
  "('p, 'q, 'c) slow_memory \<Rightarrow> u64 \<Rightarrow> u64 \<Rightarrow> u64 \<Rightarrow> u8 \<Rightarrow> ('p, 'q, 'c) fast_world \<Rightarrow>
   bool \<times> ('p, 'q, 'c) fast_world" where
  "avz_native_fast_memory_fill k virtual_address byte_count pattern pattern_width w =
     (let slow = slow_path False (map_option (\<lambda>f. f virtual_address byte_count pattern pattern_width) (k_slow_fill k))
      in if byte_count \<noteq> 0 \<and> avz_fast_width_supported pattern_width \<and>
            virtual_address \<le> - 1 - (byte_count - 1)
         then
           case check_fill virtual_address (unat byte_count) 0 w of
             (False, w) \<Rightarrow> slow (on_path (count_memory_statistic Fill_Misses) w)
           | (True, w) \<Rightarrow>
               (case write_fill virtual_address (unat byte_count) (value_bytes (unat pattern_width) pattern)
                       (unat pattern_width) 0 w of
                  (False, w) \<Rightarrow> (False, on_path (count_memory_statistic Fill_Misses) w)
                | (True, w) \<Rightarrow> (True, on_path (count_memory_statistic Fill_Hits) w))
         else slow w)"

subsection \<open>Exclusives\<close>

text \<open>
  The load exclusives of the fast path observe the granules that they read and remember their
  generation; the store exclusives succeed when it has not changed.
\<close>

definition avz_native_fast_memory_reservation_generation ::
  "u64 \<Rightarrow> u8 \<Rightarrow> ('p, 'q, 'c) fast_world \<Rightarrow> u64 option \<times> ('p, 'q, 'c) fast_world" where
  "avz_native_fast_memory_reservation_generation virtual_address width w =
     (if \<not> fp_has_guest_memory (w_context w) then (None, w)
      else case translate_ram virtual_address width Access_Read w of
        (None, w) \<Rightarrow> (None, w)
      | (Some (physical_address, _), w) \<Rightarrow>
          let base = fp_ram_base (w_context w);
              memory = avz_guest_memory_note_exclusive_observation (unat (physical_address - base)) (unat width) (w_memory w)
          in (Some (avz_guest_memory_exclusive_write_generation memory physical_address base (unat width)),
              w\<lparr>w_memory := memory\<rparr>))"

definition avz_native_fast_memory_exclusive_read ::
  "u64 \<Rightarrow> u8 \<Rightarrow> ('p, 'q, 'c) fast_world \<Rightarrow> (u64 \<times> u64) option \<times> ('p, 'q, 'c) fast_world" where
  "avz_native_fast_memory_exclusive_read virtual_address width w =
     (if \<not> fp_has_guest_memory (w_context w) then (None, w)
      else case translate_ram virtual_address width Access_Read w of
        (None, w) \<Rightarrow> (None, w)
      | (Some (physical_address, host), w) \<Rightarrow>
          let base = fp_ram_base (w_context w);
              memory = avz_guest_memory_note_exclusive_observation (unat (physical_address - base)) (unat width) (w_memory w);
              v = avz_fast_load (g_bytes memory) host (unat width);
              memory = memory\<lparr>g_exclusive_reads := g_exclusive_reads memory + 1\<rparr>;
              memory = (if v \<noteq> 0 then memory\<lparr>g_exclusive_nonzero_reads := g_exclusive_nonzero_reads memory + 1\<rparr> else memory)
          in (Some (v, avz_guest_memory_exclusive_write_generation memory physical_address base (unat width)),
              w\<lparr>w_memory := memory,
                w_context := (w_context w)\<lparr>fp_exclusive_expected := Some (physical_address, width, 1, v, 0)\<rparr>\<rparr>))"

definition avz_native_fast_memory_exclusive_read_pair ::
  "u64 \<Rightarrow> u8 \<Rightarrow> ('p, 'q, 'c) fast_world \<Rightarrow> (u64 \<times> u64 \<times> u64) option \<times> ('p, 'q, 'c) fast_world" where
  "avz_native_fast_memory_exclusive_read_pair virtual_address width w =
     (if \<not> fp_has_guest_memory (w_context w) then (None, w)
      else case translate_halves virtual_address width Access_Read w of
        (None, w) \<Rightarrow> (None, w)
      | (Some ((first_physical, first_host), (second_physical, second_host)), w) \<Rightarrow>
          let base = fp_ram_base (w_context w);
              first_offset = unat (first_physical - base);
              second_offset = unat (second_physical - base)
          in if \<not> small_pair_lockable (w_memory w) first_offset second_offset (unat width) then (None, w)
             else
               let memory = avz_guest_memory_note_exclusive_observation first_offset (unat width) (w_memory w);
                   memory = avz_guest_memory_note_exclusive_observation second_offset (unat width) memory;
                   first_value = avz_fast_load (g_bytes memory) first_host (unat width);
                   second_value = avz_fast_load (g_bytes memory) second_host (unat width);
                   first_generation = avz_guest_memory_exclusive_write_generation memory first_physical base (unat width);
                   second_generation = avz_guest_memory_exclusive_write_generation memory second_physical base (unat width)
               in (Some (first_value, second_value,
                     if first_generation > second_generation then first_generation else second_generation),
                   w\<lparr>w_memory := memory,
                     w_context := (w_context w)\<lparr>fp_exclusive_expected :=
                       Some (first_physical, width, 2, first_value, second_value)\<rparr>\<rparr>))"

definition avz_native_fast_memory_exclusive_write ::
  "u64 \<Rightarrow> u8 \<Rightarrow> u64 \<Rightarrow> u64 \<Rightarrow> ('p, 'q, 'c) fast_world \<Rightarrow> exclusive_result \<times> ('p, 'q, 'c) fast_world" where
  "avz_native_fast_memory_exclusive_write virtual_address width v expected_generation w =
     (if \<not> fp_has_guest_memory (w_context w) then (Invalid, w)
      else case translate_ram virtual_address width Access_Write w of
        (None, w) \<Rightarrow> (Invalid, w)
      | (Some (physical_address, host), w) \<Rightarrow>
          let w = on_path (fp_exclusive_expected_update (\<lambda>_. None)) w;
              memory = w_memory w
          in if avz_guest_memory_exclusive_write_generation memory physical_address (fp_ram_base (w_context w)) (unat width)
                  \<noteq> expected_generation
             then (Conflict, w\<lparr>w_memory := memory\<lparr>g_exclusive_write_conflicts := g_exclusive_write_conflicts memory + 1\<rparr>\<rparr>)
             else
               let w = store_on_path host physical_address width v w
               in (Stored, w\<lparr>w_memory := (w_memory w)\<lparr>g_exclusive_write_successes :=
                     g_exclusive_write_successes (w_memory w) + 1\<rparr>\<rparr>))"

definition avz_native_fast_memory_exclusive_write_pair ::
  "u64 \<Rightarrow> u8 \<Rightarrow> u64 \<Rightarrow> u64 \<Rightarrow> u64 \<Rightarrow> ('p, 'q, 'c) fast_world \<Rightarrow> exclusive_result \<times> ('p, 'q, 'c) fast_world" where
  "avz_native_fast_memory_exclusive_write_pair virtual_address width first_value second_value expected_generation w =
     (if \<not> fp_has_guest_memory (w_context w) then (Invalid, w)
      else case translate_halves virtual_address width Access_Write w of
        (None, w) \<Rightarrow> (Invalid, w)
      | (Some ((first_physical, first_host), (second_physical, second_host)), w) \<Rightarrow>
          let base = fp_ram_base (w_context w)
          in if \<not> small_pair_lockable (w_memory w) (unat (first_physical - base)) (unat (second_physical - base)) (unat width)
             then (Invalid, w)
             else
               let w = on_path (fp_exclusive_expected_update (\<lambda>_. None)) w;
                   memory = w_memory w;
                   first_generation = avz_guest_memory_exclusive_write_generation memory first_physical base (unat width);
                   second_generation = avz_guest_memory_exclusive_write_generation memory second_physical base (unat width)
               in if (if first_generation > second_generation then first_generation else second_generation) \<noteq> expected_generation
                  then (Conflict, w\<lparr>w_memory := memory\<lparr>g_exclusive_write_conflicts := g_exclusive_write_conflicts memory + 1\<rparr>\<rparr>)
                  else
                    let w = on_bytes (avz_fast_store_value first_host (unat width) first_value) w;
                        w = on_bytes (avz_fast_store_value second_host (unat width) second_value) w;
                        (first_contains_code, w) = mark_dirty_on_path first_physical (unat width) w;
                        (second_contains_code, w) = mark_dirty_on_path second_physical (unat width) w;
                        w = avz_fast_invalidate_code_after_write first_physical (unat width) first_contains_code w;
                        w = avz_fast_invalidate_code_after_write second_physical (unat width) second_contains_code w
                    in (Stored, w\<lparr>w_memory := (w_memory w)\<lparr>g_exclusive_write_successes :=
                          g_exclusive_write_successes (w_memory w) + 1\<rparr>\<rparr>))"

end
