(* ===== verification/FastMemoryCorrect.thy ===== *)
theory FastMemoryCorrect
  imports FastMemory TlbTransparency
begin

text \<open>
  The memory callbacks are correct: the chunked copies are plain copies, a store reaches
  the location that the page tables give and nothing else, and a load returns what was stored.
\<close>

subsection \<open>Chunked copies\<close>

lemma bit_u8: "bit (x :: u8) n \<Longrightarrow> n < 8"
  using bit_imp_le_length[of x n] by simp

lemma value_bytes_load:
  assumes "w \<le> 8"
  shows "value_bytes w (avz_fast_load b o1 w) = map b [o1 ..< o1 + w]"
proof (rule nth_equalityI)
  fix i assume "i < length (value_bytes w (avz_fast_load b o1 w))"
  then have i: "i < w" by (simp add: value_bytes_def)
  have "ucast (shr (avz_fast_load b o1 w) (i * 8)) = b (o1 + i)"
    by (rule bit_word_eqI) (use i assms in \<open>auto simp: bit_ucast_iff bit_drop_bit_eq bit_fast_load\<close>)
  then show "value_bytes w (avz_fast_load b o1 w) ! i = map b [o1 ..< o1 + w] ! i"
    using i by (simp add: value_bytes_def)
qed (simp add: value_bytes_def)

lemma store_value_load:
  assumes "w \<le> 8"
  shows "avz_fast_store_value o1 w (avz_fast_load s 0 w) b a = (if a \<in> byte_range o1 w then s (a - o1) else b a)"
proof -
  have "ucast (shr (avz_fast_load s 0 w) ((a - o1) * 8)) = s (a - o1)" if "a \<in> byte_range o1 w"
    by (rule bit_word_eqI) (use that assms in \<open>auto simp: byte_range_def bit_ucast_iff bit_drop_bit_eq bit_fast_load\<close>)
  then show ?thesis by (simp add: store_value_at)
qed

lemma store_bytes_at:
  "store_bytes o1 src b a = (if a \<in> byte_range o1 (length src) then src ! (a - o1) else b a)"
proof -
  have "fold (\<lambda>i b. b(o1 + i := src ! i)) [0 ..< n] b a = (if a \<in> byte_range o1 n then src ! (a - o1) else b a)" for n
    by (induction n arbitrary: a) (auto simp: byte_range_def)
  then show ?thesis by (simp add: store_bytes_def)
qed

lemma read_bytes_map: "avz_fast_atomic_read_bytes b host n = map b [host ..< host + n]"
proof (induction b host n rule: avz_fast_atomic_read_bytes.induct)
  case (1 b host n)
  show ?case
  proof (cases "n = 0")
    case False
    let ?w = "avz_fast_atomic_chunk_width host n"
    have w: "?w \<in> {1 .. min 8 n}" using False by (intro chunk_width) simp
    have "[host ..< host + n] = [host ..< host + ?w] @ [host + ?w ..< host + n]"
      using w upt_add_eq_append[of host "host + ?w" "n - ?w"] by simp
    then show ?thesis
      using 1[OF False refl] w by (subst avz_fast_atomic_read_bytes.simps) (simp add: False Let_def value_bytes_load)
  qed (simp add: avz_fast_atomic_read_bytes.simps)
qed

lemma write_bytes_at:
  "avz_fast_atomic_write_bytes host src b a = (if a \<in> byte_range host (length src) then src ! (a - host) else b a)"
proof (induction host src b rule: avz_fast_atomic_write_bytes.induct)
  case (1 host src b)
  show ?case
  proof (cases "src = []")
    case False
    let ?w = "avz_fast_atomic_chunk_width host (length src)"
    have w: "?w \<in> {1 .. min 8 (length src)}" using False by (intro chunk_width) simp
    let ?b = "avz_fast_store_value host ?w (avz_fast_load (\<lambda>index. src ! index) 0 ?w) b"
    have b: "?b a = (if a \<in> byte_range host ?w then src ! (a - host) else b a)" for a
      using w by (simp add: store_value_load)
    have "avz_fast_atomic_write_bytes host src b a = avz_fast_atomic_write_bytes (host + ?w) (drop ?w src) ?b a"
      by (subst avz_fast_atomic_write_bytes.simps) (simp add: False Let_def)
    also have "\<dots> = (if a \<in> byte_range (host + ?w) (length (drop ?w src)) then drop ?w src ! (a - (host + ?w)) else ?b a)"
      by (rule 1[OF False refl refl])
    also have "\<dots> = (if a \<in> byte_range host (length src) then src ! (a - host) else b a)"
      using w by (auto simp: b byte_range_def)
    finally show ?thesis .
  qed (simp add: avz_fast_atomic_write_bytes.simps byte_range_def)
qed

lemma fill_bytes_at:
  "avz_fast_atomic_fill_bytes host n pattern pw phase b a =
    (if a \<in> byte_range host n then pattern ! ((phase + (a - host)) mod pw) else b a)"
proof (induction host n pattern pw phase b rule: avz_fast_atomic_fill_bytes.induct)
  case (1 host n pattern pw phase b)
  show ?case
  proof (cases "n = 0")
    case False
    let ?w = "avz_fast_atomic_chunk_width host n"
    have w: "?w \<in> {1 .. min 8 n}" using False by (intro chunk_width) simp
    let ?b = "avz_fast_store_value host ?w (avz_fast_load (\<lambda>index. pattern ! ((phase + index) mod pw)) 0 ?w) b"
    have b: "?b a = (if a \<in> byte_range host ?w then pattern ! ((phase + (a - host)) mod pw) else b a)" for a
      using w by (simp add: store_value_load)
    have "avz_fast_atomic_fill_bytes host n pattern pw phase b a =
        avz_fast_atomic_fill_bytes (host + ?w) (n - ?w) pattern pw (phase + ?w) ?b a"
      by (subst avz_fast_atomic_fill_bytes.simps) (simp add: False Let_def)
    also have "\<dots> = (if a \<in> byte_range (host + ?w) (n - ?w) then pattern ! ((phase + ?w + (a - (host + ?w))) mod pw) else ?b a)"
      by (rule 1[OF False refl refl])
    also have "\<dots> = (if a \<in> byte_range host n then pattern ! ((phase + (a - host)) mod pw) else b a)"
    proof -
      have "phase + ?w + (a - (host + ?w)) = phase + (a - host)" if "host + ?w \<le> a" using that by simp
      then show ?thesis using w by (auto simp: b byte_range_def)
    qed
    finally show ?thesis .
  qed (simp add: avz_fast_atomic_fill_bytes.simps byte_range_def)
qed

subsection \<open>What marking pages leaves alone\<close>

definition same_contents :: "guest_memory \<Rightarrow> guest_memory \<Rightarrow> bool" where
  "same_contents m' m \<longleftrightarrow> g_bytes m' = g_bytes m \<and> g_size m' = g_size m \<and>
     g_translation_epoch m' = g_translation_epoch m \<and> g_translation_journal m' = g_translation_journal m"

lemma same_contents_refl [simp]: "same_contents m m"
  by (simp add: same_contents_def)

lemma same_contents_trans: "same_contents a b \<Longrightarrow> same_contents b c \<Longrightarrow> same_contents a c"
  by (simp add: same_contents_def)

lemma mark_pages_contents: "same_contents (snd (for_each lo hi (mark_dirty_page e) (hot, m))) m"
  by (rule for_each_induct[where P = "\<lambda>s. same_contents (snd s) m"])
    (auto simp: mark_dirty_page_def same_contents_def Let_def)

lemma note_exclusive_contents: "same_contents (avz_guest_memory_note_exclusive_write_generation o1 n m) m"
proof (cases "in_range m o1 n")
  case True
  then show ?thesis by (simp add: note_exclusive_closed notified_def same_contents_def)
next
  case False
  then show ?thesis by (auto simp: avz_guest_memory_note_exclusive_write_generation_def)
qed

lemma fast_mark_dirty_contents: "same_contents (snd (snd (avz_fast_mark_dirty base p n hot m))) m"
proof -
  have "same_contents (note_code_write o1 n m) m" for o1 m
    by (simp add: note_code_write_def avz_guest_memory_advance_code_mutation_epoch_def
      avz_guest_memory_note_page_write_generation_def next_ticket Let_def same_contents_def)
  note code = same_contents_trans[OF this same_contents_trans[OF note_exclusive_contents mark_pages_contents]]
  note plain = same_contents_trans[OF note_exclusive_contents mark_pages_contents]
  show ?thesis
    using code plain by (auto simp: avz_fast_mark_dirty_def Let_def split_beta split: option.split)
qed

text \<open>A store on the path writes its bytes and leaves the translations alone.\<close>

lemma commit_world:
  "same_contents (w_memory (avz_native_fast_memory_commit_write_span p n w)) (w_memory w)"
  "same_tables (w_context (avz_native_fast_memory_commit_write_span p n w)) (w_context w)"
proof -
  have inv: "w_memory (avz_fast_invalidate_code_after_write p n c w) = w_memory w"
    "w_context (avz_fast_invalidate_code_after_write p n c w) = w_context w" for c and w :: "('a, 'b, 'c) fast_world"
    by (simp_all add: avz_fast_invalidate_code_after_write_def on_cache_def)
  have hot: "same_tables (fp\<lparr>fp_dirty_hot := h\<rparr>) fp" for fp :: "'c fast_path" and h
    by (simp add: same_tables_def same_context_def)
  have "same_contents (w_memory (snd (mark_dirty_on_path p n w))) (w_memory w)"
    "same_tables (w_context (snd (mark_dirty_on_path p n w))) (w_context w)"
    using fast_mark_dirty_contents[of "fp_ram_base (w_context w)" p n "fp_dirty_hot (w_context w)" "w_memory w"] hot
    by (simp_all add: mark_dirty_on_path_def Let_def split_beta)
  then show "same_contents (w_memory (avz_native_fast_memory_commit_write_span p n w)) (w_memory w)"
    "same_tables (w_context (avz_native_fast_memory_commit_write_span p n w)) (w_context w)"
    by (simp_all add: avz_native_fast_memory_commit_write_span_def inv split_beta)
qed

lemma store_world:
  "g_bytes (w_memory (store_on_path host p width v w)) = avz_fast_store_value host (unat width) v (g_bytes (w_memory w))"
  "same_tables (w_context (store_on_path host p width v w)) (w_context w)"
  "pending_set (store_on_path host p width v w) = pending_set w"
proof -
  let ?w = "on_bytes (avz_fast_store_value host (unat width) v) w"
  note commit = commit_world[of p "unat width" ?w]
  show "g_bytes (w_memory (store_on_path host p width v w)) = avz_fast_store_value host (unat width) v (g_bytes (w_memory w))"
    using commit(1) by (simp add: store_on_path_def same_contents_def on_bytes_def)
  show t: "same_tables (w_context (store_on_path host p width v w)) (w_context w)"
    using commit(2) by (simp add: store_on_path_def on_bytes_def)
  have m: "g_translation_epoch (w_memory (store_on_path host p width v w)) = g_translation_epoch (w_memory w)"
    "g_translation_journal (w_memory (store_on_path host p width v w)) = g_translation_journal (w_memory w)"
    using commit(1) by (simp_all add: store_on_path_def same_contents_def on_bytes_def)
  then have "pending_tlbis (w_memory (store_on_path host p width v w)) = pending_tlbis (w_memory w)"
    by (intro ext) (simp only: pending_tlbis_def m)
  then show "pending_set (store_on_path host p width v w) = pending_set w"
    using t by (simp add: pending_set_def same_tables_def same_context_def)
qed

lemma store_coherent:
  assumes "coherent S w"
    and "invalidates S (w_context w) (g_bytes (w_memory w)) (avz_fast_store_value host (unat width) v (g_bytes (w_memory w))) []"
  shows "coherent S (store_on_path host p width v w)"
proof -
  have "clean S (w_context w) (avz_fast_store_value host (unat width) v (g_bytes (w_memory w))) (set [] \<union> pending_set w)"
    by (rule clean_store[OF _ assms(2)]) (use assms(1) in \<open>simp add: coherent_def\<close>)
  from clean_tables[OF store_world(2)[of host p width v w] this] show ?thesis by (simp add: coherent_def store_world)
qed

subsection \<open>Loads and stores\<close>

definition same_views :: "'c fast_path \<Rightarrow> 'c fast_path \<Rightarrow> bool" where
  "same_views fp' fp \<longleftrightarrow> fp_ram fp' = fp_ram fp \<and> fp_ram_base fp' = fp_ram_base fp \<and> fp_ram_size fp' = fp_ram_size fp \<and>
     fp_translation_state fp' = fp_translation_state fp"

lemma same_views_uncached:
  assumes "same_views fp' fp"
  shows "uncached_translation fp' = uncached_translation fp" "invalidates S fp' = invalidates S fp"
proof -
  have b: "fp_ram_base fp' = fp_ram_base fp" "fp_ram_size fp' = fp_ram_size fp" "fp_translation_state fp' = fp_translation_state fp"
    using assms by (simp_all add: same_views_def)
  note out = outcome_context[OF b(1,2)]
  have "stage1_outcome fp' bytes va a = stage1_outcome fp bytes va a" for bytes va a
  proof -
    have "fp'\<lparr>fp_translation_state := fp_translation_state fp\<rparr> = fp'" by (simp flip: b(3))
    then show ?thesis using out[of "fp_translation_state fp" bytes va a] by simp
  qed
  moreover have "host_of_page fp' = host_of_page fp" by (simp add: fun_eq_iff host_of_page_def b)
  ultimately show "uncached_translation fp' = uncached_translation fp"
    by (intro ext) (simp only: uncached_translation_def finish_translation_def b)
  show "invalidates S fp' = invalidates S fp" by (intro ext) (simp only: invalidates_def out)
qed

lemma translate_world:
  assumes S: "contexts_ok S" and c: "coherent S w" and a: "a \<noteq> Access_Instruction"
    and "fp_ram (w_context w) \<noteq> None" "avz_fast_width_supported width" "inside_page va width"
  obtains w1 where
    "avz_fast_translate va width a w = (uncached_translation (w_context w) (g_bytes (w_memory w)) va width a, w1)"
    "coherent S w1" "w_memory w1 = w_memory w" "same_views (w_context w1) (w_context w)"
proof -
  let ?w = "avz_fast_synchronize_shared_translation_epoch w"
  let ?ts = "pending_tlbis (w_memory w) (fp_observed_shared_translation_epoch (w_context w))"
  obtain fp where fp: "fast_translate_hot (g_bytes (w_memory w)) va width a (w_context ?w) =
      (uncached_translation (w_context ?w) (g_bytes (w_memory w)) va width a, fp)"
      "same_context fp (w_context ?w)" "good S fp (g_bytes (w_memory w))"
    using hot_transparent[OF S coherent_synchronize[OF c] a] assms(4-6) synchronize_views(2)[of w] by auto
  let ?w1 = "?w\<lparr>w_context := fp\<rparr>"
  have "same_path (apply_tlbis ?ts (w_context w)) (w_context w)" by (rule apply_tlbis_path)
  then have "same_views (w_context ?w) (w_context w)"
    by (simp add: synchronize_path same_views_def same_path_def)
  then have v: "same_views fp (w_context w)" using fp(2) by (simp add: same_views_def same_context_def)
  show ?thesis
  proof (rule that[of ?w1])
    show "avz_fast_translate va width a w = (uncached_translation (w_context w) (g_bytes (w_memory w)) va width a, ?w1)"
      using assms(4,5) fp(1) by (auto simp: avz_fast_translate_def translate_on_path_def synchronize_path(2) synchronize_views(1))
    show "coherent S ?w1" using fp(3) by (intro good_coherent) (simp add: synchronize_path(2))
  qed (simp_all add: synchronize_path(2) v)
qed

text \<open>
  C3: In every run of a guest that invalidates what it remaps, a store to a page that the current
  page tables map to RAM for both kinds of access succeeds, writes exactly the bytes of the
  location that the tables give and no other byte of the memory, and a load of the same address
  returns the value stored, cut to the width, provided the bytes written are no page tables
  whose mappings they change.
\<close>
theorem fast_store_then_load:
  fixes w :: "('p, 'q, 'c) fast_world"
  assumes "contexts_ok S" "guest_run S w"
    and "fp_ram (w_context w) \<noteq> None" "avz_fast_width_supported width" "inside_page va width"
    and "uncached_translation (w_context w) (g_bytes (w_memory w)) va width Access_Write = Translation_RAM p host"
    and "uncached_translation (w_context w) (avz_fast_store_value host (unat width) v (g_bytes (w_memory w))) va width Access_Read
      = Translation_RAM p host"
    and "invalidates S (w_context w) (g_bytes (w_memory w)) (avz_fast_store_value host (unat width) v (g_bytes (w_memory w))) []"
  shows "\<exists>w'. avz_native_fast_memory_write k va width v w = (True, w') \<and>
    fst (avz_native_fast_memory_read k va width w') = Some (v AND mask (8 * unat width)) \<and>
    (\<forall>a. a \<notin> byte_range host (unat width) \<longrightarrow> g_bytes (w_memory w') a = g_bytes (w_memory w) a)"
proof -
  let ?bytes = "avz_fast_store_value host (unat width) v (g_bytes (w_memory w))"
  have c: "coherent S w" by (rule run_coherent[OF assms(1,2)])
  obtain w1 where w1: "avz_fast_translate va width Access_Write w = (Translation_RAM p host, w1)"
    "coherent S w1" "w_memory w1 = w_memory w" "same_views (w_context w1) (w_context w)"
    using translate_world[OF assms(1) c _ assms(3-5), of Access_Write] assms(6) by auto
  define w2 where "w2 = store_on_path host p width v w1"
  define w3 where "w3 = on_path (count_memory_statistic Write_Hits) w2"
  have stored: "avz_native_fast_memory_write k va width v w = (True, w3)"
    by (simp add: avz_native_fast_memory_write_def w1(1) w2_def w3_def Let_def)
  have c2: "coherent S w2" unfolding w2_def
    by (rule store_coherent[OF w1(2)]) (use assms(8) w1(3) same_views_uncached(2)[OF w1(4)] in simp)
  then have c3: "coherent S w3" by (rule coherent_tables) (simp_all add: w3_def on_path_def)
  have bytes: "g_bytes (w_memory w3) = ?bytes" by (simp add: w3_def on_path_def w2_def store_world w1(3))
  have "same_views (w_context w3) (w_context w1)"
    using same_tables_trans[OF same_tables_updates(2) store_world(2)[of host p width v w1], of Write_Hits]
    by (simp add: w3_def w2_def on_path_def same_views_def same_tables_def same_context_def)
  then have v: "same_views (w_context w3) (w_context w)" using w1(4) by (simp add: same_views_def)
  have ram: "fp_ram (w_context w3) \<noteq> None" using assms(3) v by (simp add: same_views_def)
  obtain w4 where "avz_fast_translate va width Access_Read w3 = (Translation_RAM p host, w4)" "w_memory w4 = w_memory w3"
    using translate_world[OF assms(1) c3 _ ram assms(4,5), of Access_Read] assms(7) bytes same_views_uncached(1)[OF v] by auto
  moreover have "8 * unat width \<le> 64" using assms(4) by (auto simp: avz_fast_width_supported_def)
  ultimately have "fst (avz_native_fast_memory_read k va width w3) = Some (v AND mask (8 * unat width))"
    by (simp add: avz_native_fast_memory_read_def bytes load_store_value)
  then show ?thesis using stored by (auto simp: bytes store_value_at)
qed

text \<open>A guest that has not switched its MMU on yet, with a RAM at \<open>0x40000000\<close>.\<close>

definition flat_state :: stage1_state where
  "flat_state = demo_state\<lparr>st_sctlr_el1 := 0\<rparr>"

definition flat_start :: "(unit, unit, unit) fast_world" where
  "flat_start = avz_native_memory_fast_path_set_stage1_translation (Some flat_state) None
     \<lparr>w_cache = avz_native_block_cache_create, w_memory = sample_memory, w_context = demo_path\<rparr>"

definition no_slow_memory :: "(unit, unit, unit) slow_memory" where
  "no_slow_memory = \<lparr>k_slow_read = None, k_slow_write = None, k_read_physical = None, k_write_physical = None,
     k_slow_can_access = None, k_slow_fill = None\<rparr>"

lemma flat_contexts: "contexts_ok {flat_state}"
  by (simp add: contexts_ok_def regime_ok_def flat_state_def demo_state_def same_regime_def)

lemma flat_run: "guest_run {flat_state} flat_start"
  unfolding flat_start_def
  by (rule Start[of "Some 0" "0x40000000" "0x10000" "()" "\<lambda>c _ _ _. (None, c)"])
    (simp_all add: demo_path_def avz_native_memory_fast_path_create_def)

lemma flat_context:
  "fp_ram (w_context flat_start) = Some 0" "fp_ram_base (w_context flat_start) = 0x40000000"
  "fp_ram_size (w_context flat_start) = 0x10000" "fp_translation_state (w_context flat_start) = flat_state"
  by (simp_all add: flat_start_def demo_path_def avz_native_memory_fast_path_create_def on_path_def on_cache_def
      avz_native_memory_fast_path_set_stage1_translation_def avz_fast_invalidate_decoded_mappings_def Let_def
      avz_fast_clear_tlbs_def avz_fast_clear_hot_tlbs_def avz_fast_refresh_translation_context_tags_def)

theorem fast_store_then_load_witness:
  "\<exists>w'. avz_native_fast_memory_write no_slow_memory 0x40001234 2 0xabcde flat_start = (True, w') \<and>
    fst (avz_native_fast_memory_read no_slow_memory 0x40001234 2 w') = Some 0xbcde"
proof -
  have off: "st_sctlr_el1 flat_state = 0" by (simp add: flat_state_def demo_state_def)
  have u: "uncached_translation (w_context flat_start) bytes 0x40001234 2 a = Translation_RAM 0x40001234 0x1234" for bytes a
    by (simp add: uncached_translation_def stage1_outcome_def flat_context off finish_translation_def host_of_page_def
        page_start_def page_offset_of_def Let_def)
  have i: "invalidates {flat_state} (w_context flat_start) bytes bytes' []" for bytes bytes'
    by (simp add: invalidates_def stage1_outcome_def off)
  have "\<exists>w'. avz_native_fast_memory_write no_slow_memory 0x40001234 2 0xabcde flat_start = (True, w') \<and>
    fst (avz_native_fast_memory_read no_slow_memory 0x40001234 2 w') = Some (0xabcde AND mask (8 * unat (2 :: u8))) \<and>
    (\<forall>a. a \<notin> byte_range 0x1234 (unat (2 :: u8)) \<longrightarrow> g_bytes (w_memory w') a = g_bytes (w_memory flat_start) a)"
    by (rule fast_store_then_load[OF flat_contexts flat_run _ _ _ u u i])
      (simp_all add: flat_context avz_fast_width_supported_def inside_page_def page_offset_of_def)
  then show ?thesis by (auto simp: mask_eq_exp_minus_1)
qed

end
