(* ===== verification/HotAccess.thy ===== *)
theory HotAccess
  imports FastMemory TlbInvalidation
begin

text \<open>
  The inlined accesses of \<open>ARM64VizGuestMemoryInternal.h\<close>, which the interpreter tries before
  it calls \<open>avz_native_fast_memory_read\<close> or \<open>avz_native_fast_memory_write\<close>: a hit in the hot table
  on RAM that nobody observes is completed in place. Trying them first changes nothing.
\<close>

subsection \<open>Definitions\<close>

text \<open>
  The entry of the hot table that an inlined access may use, with the offset of the access in
  the RAM.
\<close>

definition hot_ram_entry ::
  "u64 \<Rightarrow> u8 \<Rightarrow> memory_access \<Rightarrow> ('p, 'q, 'c) fast_world \<Rightarrow> (tlb_entry \<times> nat \<times> nat) option" where
  "hot_ram_entry virtual_address width access w =
     (let fp = w_context w;
          page_offset = page_offset_of virtual_address;
          virtual_page = shr virtual_address 12;
          context_tag = avz_fast_translation_context_tag fp virtual_address;
          entry = fp_hot fp access (hot_index_of virtual_page context_tag);
          ram_page_offset = tlb_physical_page entry - fp_ram_base fp
      in if fp_ram fp = None \<or> \<not> avz_fast_width_supported width \<or>
            fp_has_guest_memory fp \<and>
              g_translation_epoch (w_memory w) \<noteq> fp_observed_shared_translation_epoch fp \<or>
            page_offset + ucast width > FAST_PAGE_SIZE \<or>
            \<not> entry_matches entry (fp_hot_translation_generation fp) (page_offset + ucast width) virtual_page context_tag \<or>
            tlb_physical_page entry < fp_ram_base fp \<or>
            ram_page_offset > fp_ram_size fp \<or> page_offset > fp_ram_size fp - ram_page_offset \<or>
            ucast width > fp_ram_size fp - ram_page_offset - page_offset
         then None
         else case tlb_host_page entry of
                None \<Rightarrow> None
              | Some host \<Rightarrow> Some (entry, host + unat page_offset, unat (ram_page_offset + page_offset)))"

definition avz_native_fast_memory_try_read_hot ::
  "u64 \<Rightarrow> u8 \<Rightarrow> ('p, 'q, 'c) fast_world \<Rightarrow> u64 option \<times> ('p, 'q, 'c) fast_world" where
  "avz_native_fast_memory_try_read_hot virtual_address width w =
     (case hot_ram_entry virtual_address width Access_Read w of
        None \<Rightarrow> (None, w)
      | Some (entry, host, memory_offset) \<Rightarrow>
          let memory = w_memory w;
              page = page_of memory_offset
          in if fp_has_guest_memory (w_context w) \<and>
                (page \<ge> g_page_count memory \<or> g_page_observation_flags memory page AND OBSERVATION_HOST \<noteq> 0) \<or>
                \<not> avz_fast_access_is_naturally_atomic host width
             then (None, w)
             else (Some (avz_fast_load (g_bytes memory) host (unat width)),
                   on_path (count_memory_statistic Read_Hits \<circ> count_memory_statistic Read_TLB_Hits) w))"

definition avz_native_fast_memory_commit_unobserved_write_hot ::
  "nat \<Rightarrow> u64 \<Rightarrow> nat \<Rightarrow> ('p, 'q, 'c) fast_world \<Rightarrow> ('p, 'q, 'c) fast_world" where
  "avz_native_fast_memory_commit_unobserved_write_hot page physical_address byte_count w =
     (let fp = w_context w;
          memory = w_memory w
      in if \<not> fp_has_guest_memory fp \<or> page \<ge> g_page_count memory \<or> is_code_page memory page
         then avz_native_fast_memory_commit_write_span physical_address byte_count w
         else
           let (hot, memory) = mark_dirty_page (g_current_epoch memory) page (fp_dirty_hot fp, memory)
           in w\<lparr>w_context := fp\<lparr>fp_dirty_hot := hot\<rparr>, w_memory := memory\<rparr>)"

definition avz_native_fast_memory_try_write_hot ::
  "u64 \<Rightarrow> u8 \<Rightarrow> u64 \<Rightarrow> ('p, 'q, 'c) fast_world \<Rightarrow> bool \<times> ('p, 'q, 'c) fast_world" where
  "avz_native_fast_memory_try_write_hot virtual_address width v w =
     (case hot_ram_entry virtual_address width Access_Write w of
        None \<Rightarrow> (False, w)
      | Some (entry, host, memory_offset) \<Rightarrow>
          let memory = w_memory w;
              page = page_of memory_offset
          in if fp_has_guest_memory (w_context w) \<and>
                (page \<ge> g_page_count memory \<or> g_page_observation_flags memory page \<noteq> 0) \<or>
                \<not> avz_fast_access_is_naturally_atomic host width
             then (False, w)
             else (True, on_path (count_memory_statistic Write_Hits \<circ> count_memory_statistic Write_TLB_Hits)
                    (avz_native_fast_memory_commit_unobserved_write_hot page
                      (tlb_physical_page entry + page_offset_of virtual_address) (unat width)
                      (on_bytes (avz_fast_store_value host (unat width) v) w))))"

subsection \<open>A hot entry is what the translation answers\<close>

lemma hot_ram_translate:
  assumes "hot_ram_entry va width a w = Some (entry, host, offset)"
  shows "avz_fast_translate va width a w =
    (Translation_RAM (tlb_physical_page entry + page_offset_of va) host, on_path (count_memory_statistic (data_hits a)) w)"
  using assms
  by (auto simp: hot_ram_entry_def avz_fast_translate_def translate_on_path_def fast_translate_hot_def on_path_def
      avz_fast_synchronize_shared_translation_epoch_def Let_def split: if_splits option.splits)

lemma hot_read_full:
  assumes "avz_native_fast_memory_try_read_hot va width w = (Some v, w')"
  shows "avz_native_fast_memory_read k va width w = (Some v, w')"
proof -
  obtain entry host offset where e: "hot_ram_entry va width Access_Read w = Some (entry, host, offset)"
    using assms by (auto simp: avz_native_fast_memory_try_read_hot_def split: option.splits)
  have "v = avz_fast_load (g_bytes (w_memory w)) host (unat width)"
    "w' = on_path (count_memory_statistic Read_Hits \<circ> count_memory_statistic Read_TLB_Hits) w"
    using assms by (auto simp: avz_native_fast_memory_try_read_hot_def e Let_def split: if_splits)
  then show ?thesis
    by (simp add: avz_native_fast_memory_read_def hot_ram_translate[OF e] data_hits_def on_path_def)
qed

lemma hot_read_miss: "avz_native_fast_memory_try_read_hot va width w = (None, w') \<Longrightarrow> w' = w"
  by (auto simp: avz_native_fast_memory_try_read_hot_def Let_def split: option.splits if_splits)

subsection \<open>Committing a write that nobody observes\<close>

text \<open>A page with an exclusive observer carries a flag.\<close>

definition observers_flagged :: "guest_memory \<Rightarrow> bool" where
  "observers_flagged m \<longleftrightarrow> (\<forall>page. g_page_exclusive_observation_epochs m page \<noteq> 0 \<longrightarrow>
     g_page_observation_flags m page AND OBSERVATION_EXCLUSIVE \<noteq> 0)"

lemma observers_flagged_keeps:
  "observers_flagged m \<Longrightarrow> observers_flagged (avz_guest_memory_note_exclusive_observation o1 n m)"
  "observers_flagged m \<Longrightarrow> observers_flagged (m\<lparr>g_bytes := b\<rparr>)"
  "avz_guest_memory_create sz = Some m \<Longrightarrow> observers_flagged m"
proof -
  have or4: "(v OR 4) AND 4 \<noteq> (0 :: u8)" for v
    by (simp add: bit.conj_disj_distrib2)
  show "observers_flagged m \<Longrightarrow> observers_flagged (avz_guest_memory_note_exclusive_observation o1 n m)"
    by (auto simp: observers_flagged_def avz_guest_memory_note_exclusive_observation_def or_pages_apply Let_def or4)
  show "observers_flagged m \<Longrightarrow> observers_flagged (m\<lparr>g_bytes := b\<rparr>)" by (simp add: observers_flagged_def)
  show "avz_guest_memory_create sz = Some m \<Longrightarrow> observers_flagged m"
    by (auto simp: observers_flagged_def avz_guest_memory_create_def Let_def split: if_splits)
qed

lemma count_dirty [simp]:
  "fp_dirty_hot (count_memory_statistic s fp) = fp_dirty_hot fp"
  "fp_has_guest_memory (count_memory_statistic s fp) = fp_has_guest_memory fp"
  "fp_ram_base (count_memory_statistic s fp) = fp_ram_base fp"
  "(count_memory_statistic s fp)\<lparr>fp_dirty_hot := hot\<rparr> = count_memory_statistic s (fp\<lparr>fp_dirty_hot := hot\<rparr>)"
  by (simp_all add: count_memory_statistic_def)

lemma invalidate_code_counted:
  "avz_fast_invalidate_code_after_write physical n code (on_path (count_memory_statistic s) w) =
   on_path (count_memory_statistic s) (avz_fast_invalidate_code_after_write physical n code w)"
  by (simp add: avz_fast_invalidate_code_after_write_def on_path_def on_cache_def)

lemma commit_counted:
  "avz_native_fast_memory_commit_write_span physical n (on_path (count_memory_statistic s) w) =
   on_path (count_memory_statistic s) (avz_native_fast_memory_commit_write_span physical n w)"
proof -
  let ?count = "on_path (count_memory_statistic s)"
  have dirty: "mark_dirty_on_path physical n (?count w) = map_prod id ?count (mark_dirty_on_path physical n w)"
    by (cases "avz_fast_mark_dirty (fp_ram_base (w_context w)) physical n (fp_dirty_hot (w_context w)) (w_memory w)")
      (simp add: mark_dirty_on_path_def on_path_def Let_def)
  then show ?thesis
    by (cases "mark_dirty_on_path physical n w") (simp add: avz_native_fast_memory_commit_write_span_def dirty invalidate_code_counted)
qed

lemma note_generation_unobserved:
  assumes "g_page_exclusive_observation_epochs m (page_of offset) = 0" "page_of (offset + n - 1) = page_of offset"
  shows "avz_guest_memory_note_exclusive_write_generation offset n m = m"
proof -
  have "granule_of x div 256 = page_of x" for x :: nat
    by (simp add: drop_bit_eq_div flip: div_mult2_eq)
  then show ?thesis
    using assms by (simp add: avz_guest_memory_note_exclusive_write_generation_def for_each_def note_page_granules_def)
qed

lemma commit_unobserved:
  fixes w :: "('p, 'q, 'c) fast_world"
  defines "base \<equiv> fp_ram_base (w_context w)" and "m \<equiv> w_memory w"
  assumes n: "0 < n" and off: "base \<le> physical" "offset = unat (physical - base)" "offset + n \<le> g_size m"
    and page: "page_of (offset + n - 1) = page_of offset"
    and free: "g_page_exclusive_observation_epochs m (page_of offset) = 0"
  shows "avz_native_fast_memory_commit_unobserved_write_hot (page_of offset) physical n w =
    avz_native_fast_memory_commit_write_span physical n w"
proof (cases "\<not> fp_has_guest_memory (w_context w) \<or> page_of offset \<ge> g_page_count m \<or> is_code_page m (page_of offset)")
  case True
  then show ?thesis by (simp add: avz_native_fast_memory_commit_unobserved_write_hot_def m_def Let_def)
next
  case False
  define page where "page = page_of offset"
  have le: "push_bit 12 page \<le> offset" by (simp add: page_def push_bit_eq_mult drop_bit_eq_div)
  have range: "in_range m offset n" "in_range m (push_bit 12 page) 1"
    using n off le by (auto simp: in_range_def)
  have sum: "unat base + offset = unat physical"
    using off(1,2) by (simp add: unat_sub word_le_nat_alt)
  have "unat base + push_bit 12 page < 2 ^ 64" using sum le unsigned_less[of physical, where ?'a = nat] by simp
  moreover have small: "push_bit 12 page < 2 ^ 64" using calculation by linarith
  ultimately have w64: "unat (base + word_of_nat (push_bit 12 page)) = unat base + push_bit 12 page"
    by (simp add: unat_word_ariths(1) unat_of_nat)
  have word: "push_bit 12 (word_of_nat page) = (word_of_nat (push_bit 12 page) :: u64)"
    by (simp add: push_bit_eq_mult)
  have "ram_offset (base + push_bit 12 (word_of_nat page)) base = Some (push_bit 12 page)"
    using w64 small by (simp add: ram_offset_def word word_le_nat_alt word_less_nat_alt unat_of_nat)
  moreover have page_again: "page_of (push_bit 12 page) = page" by (simp add: push_bit_eq_mult drop_bit_eq_div)
  ultimately have code: "\<not> avz_guest_memory_range_may_contain_code m (base + push_bit 12 (word_of_nat page)) 1 base"
    using False page_again by (simp add: avz_guest_memory_range_may_contain_code_def exists_page_def) (simp add: page_def)
  have ro: "ram_offset physical base = Some offset" using off by (simp add: ram_offset_def)
  obtain hot m' where md: "mark_dirty_page (g_current_epoch m) page (fp_dirty_hot (w_context w), m) = (hot, m')"
    by (cases "mark_dirty_page (g_current_epoch m) page (fp_dirty_hot (w_context w), m)")
  have m': "g_page_exclusive_observation_epochs m' = g_page_exclusive_observation_epochs m"
    using md by (auto simp: mark_dirty_page_def Let_def split: if_splits)
  have note_free: "avz_guest_memory_note_exclusive_write_generation offset n m' = m'"
    by (rule note_generation_unobserved) (use free page in \<open>simp_all add: m'\<close>)
  have "avz_fast_mark_dirty base physical n (fp_dirty_hot (w_context w)) m = (False, hot, m')"
    using n range code page md note_free
    by (auto simp: avz_fast_mark_dirty_def ro for_each_def page_def Let_def dest!: order.antisym)
  then show ?thesis
    using False n md
    by (simp add: avz_native_fast_memory_commit_unobserved_write_hot_def avz_native_fast_memory_commit_write_span_def
        mark_dirty_on_path_def avz_fast_invalidate_code_after_write_def m_def base_def page_def Let_def)
qed

subsection \<open>Trying the hot table first\<close>

text \<open>
  The RAM does not wrap around the address space and starts on a page; an attached guest memory
  is that RAM, and flags the pages with an exclusive observer.
\<close>

definition plain_ram :: "('p, 'q, 'c) fast_world \<Rightarrow> bool" where
  "plain_ram w \<longleftrightarrow>
     (let fp = w_context w; m = w_memory w
      in unat (fp_ram_base fp) + unat (fp_ram_size fp) \<le> 2 ^ 64 \<and> page_offset_of (fp_ram_base fp) = 0 \<and>
         (fp_has_guest_memory fp \<longrightarrow> g_size m = unat (fp_ram_size fp) \<and> observers_flagged m))"

lemma page_offset_unat: "unat (page_offset_of va) = unat va mod 4096"
proof -
  have "page_offset_of va = take_bit 12 va" by (simp add: page_offset_of_def take_bit_eq_mask mask_eq_exp_minus_1)
  then show ?thesis by (simp add: unsigned_take_bit_eq take_bit_eq_mod unat_mod)
qed

lemma hot_write_full:
  assumes ok: "plain_ram w"
    and aligned: "\<And>index. hot_live (w_context w) (fp_hot (w_context w) Access_Write index) \<Longrightarrow>
      page_offset_of (tlb_physical_page (fp_hot (w_context w) Access_Write index)) = 0"
    and hit: "avz_native_fast_memory_try_write_hot va width v w = (True, w')"
  shows "avz_native_fast_memory_write k va width v w = (True, w')"
proof -
  obtain entry host offset where e: "hot_ram_entry va width Access_Write w = Some (entry, host, offset)"
    using hit by (auto simp: avz_native_fast_memory_try_write_hot_def split: option.splits)
  define fp where "fp = w_context w"
  define m where "m = w_memory w"
  define po where "po = page_offset_of va"
  define rel where "rel = tlb_physical_page entry - fp_ram_base fp"
  define physical where "physical = tlb_physical_page entry + po"
  let ?store = "on_bytes (avz_fast_store_value host (unat width) v)"
  have free: "fp_has_guest_memory fp \<Longrightarrow> page_of offset < g_page_count m \<and> g_page_observation_flags m (page_of offset) = 0"
    and w': "w' = on_path (count_memory_statistic Write_Hits \<circ> count_memory_statistic Write_TLB_Hits)
      (avz_native_fast_memory_commit_unobserved_write_hot (page_of offset) physical (unat width) (?store w))"
    using hit by (auto simp: avz_native_fast_memory_try_write_hot_def e fp_def m_def physical_def po_def Let_def split: if_splits)
  have live: "hot_live fp entry" using e by (auto simp: hot_ram_entry_def entry_matches_def hot_live_def fp_def Let_def split: if_splits option.splits)
  have entry: "entry = fp_hot fp Access_Write (hot_index_of (shr va 12) (avz_fast_translation_context_tag fp va))"
    and width: "avz_fast_width_supported width" and inside: "po + ucast width \<le> 4096"
    and above: "fp_ram_base fp \<le> tlb_physical_page entry" and rels: "rel \<le> fp_ram_size fp" "po \<le> fp_ram_size fp - rel"
      "ucast width \<le> fp_ram_size fp - rel - po" and offset: "offset = unat (rel + po)"
    using e by (auto simp: hot_ram_entry_def fp_def po_def rel_def Let_def not_le not_less split: if_splits option.splits)
  have width_nat: "unat (ucast width :: u64) = unat width" "0 < unat width" "unat width \<le> 8"
    using width by (auto simp: avz_fast_width_supported_def)
  have commit: "avz_native_fast_memory_commit_unobserved_write_hot (page_of offset) physical (unat width) (?store w) =
      avz_native_fast_memory_commit_write_span physical (unat width) (?store w)"
  proof (cases "fp_has_guest_memory fp")
    case False
    then show ?thesis
      by (simp add: avz_native_fast_memory_commit_unobserved_write_hot_def on_bytes_def fp_def Let_def)
  next
    case True
    have page0: "page_offset_of (tlb_physical_page entry) = 0"
      using aligned live unfolding entry fp_def .
    have ram: "unat (fp_ram_base fp) + unat (fp_ram_size fp) \<le> 2 ^ 64" "unat (fp_ram_base fp) mod 4096 = 0"
      "unat (tlb_physical_page entry) mod 4096 = 0" "g_size m = unat (fp_ram_size fp)" "observers_flagged m"
      using ok True page0 by (simp_all add: plain_ram_def fp_def m_def Let_def flip: page_offset_unat)
    have s1: "unat (fp_ram_size fp - rel) = unat (fp_ram_size fp) - unat rel"
      by (rule unat_sub) (rule rels(1))
    have s2: "unat (fp_ram_size fp - rel - po) = unat (fp_ram_size fp) - unat rel - unat po"
      unfolding s1[symmetric] by (rule unat_sub) (rule rels(2))
    have bounds: "unat rel + unat po + unat width \<le> unat (fp_ram_size fp)"
      using rels width_nat(1) by (simp add: word_le_nat_alt s1 s2)
    have small: "unat (fp_ram_size fp) < 2 ^ 64" using unsigned_less[of "fp_ram_size fp", where ?'a = nat] by simp
    have off: "offset = unat rel + unat po"
      using bounds small by (simp add: offset unat_word_ariths(1))
    have rel: "unat rel = unat (tlb_physical_page entry) - unat (fp_ram_base fp)"
      unfolding rel_def by (rule unat_sub) (rule above)
    have base: "unat (fp_ram_base fp) \<le> unat (tlb_physical_page entry)" using above by (simp add: word_le_nat_alt)
    have phys: "unat physical = unat (fp_ram_base fp) + offset"
      using bounds ram(1) base rel width_nat(2) by (simp add: physical_def unat_word_ariths(1) off)
    have po: "unat po = unat va mod 4096" by (simp add: po_def page_offset_unat)
    have "unat (po + ucast width) = unat po + unat width"
      using width_nat po by (simp add: unat_word_ariths(1))
    then have in_page: "unat po + unat width \<le> 4096" using inside by (simp add: word_le_nat_alt)
    have "unat rel mod 4096 = 0" using ram(2,3) base by (simp add: rel mod_eq_0_iff_dvd dvd_diff_nat)
    then obtain p where p: "unat rel = 4096 * p" by (auto simp: mod_eq_0_iff_dvd)
    have page: "page_of (offset + unat width - 1) = page_of offset"
      using in_page width_nat(2) by (simp add: off p drop_bit_eq_div div_nat_eqI)
    have "g_page_exclusive_observation_epochs m (page_of offset) = 0"
      using ram(5) free[OF True] by (auto simp: observers_flagged_def)
    moreover have "offset = unat (physical - fp_ram_base fp)"
      using phys by (simp add: unat_sub word_le_nat_alt)
    ultimately show ?thesis
      using width_nat bounds ram(4) page phys off
      by (intro commit_unobserved) (simp_all add: on_bytes_def fp_def m_def word_le_nat_alt)
  qed
  have store: "?store (on_path (count_memory_statistic c) w) = on_path (count_memory_statistic c) (?store w)" for c
    by (simp add: on_bytes_def on_path_def)
  have "avz_native_fast_memory_write k va width v w =
      (True, on_path (count_memory_statistic Write_Hits) (store_on_path host physical width v (on_path (count_memory_statistic Write_TLB_Hits) w)))"
    by (simp add: avz_native_fast_memory_write_def hot_ram_translate[OF e] data_hits_def physical_def po_def)
  then show ?thesis
    by (simp add: w' commit store_on_path_def store commit_counted) (simp add: on_path_def)
qed

lemma hot_write_miss: "avz_native_fast_memory_try_write_hot va width v w = (False, w') \<Longrightarrow> w' = w"
  by (auto simp: avz_native_fast_memory_try_write_hot_def Let_def split: option.splits if_splits)

end
