(* ===== verification/SystemState.thy ===== *)
theory SystemState
  imports FastPath
begin

text \<open>
  The system state that the fast path of a processor keeps itself: thread registers, the
  exception registers, the counter and its two timers; the callbacks for system registers,
  system instructions, exceptions and waiting; and the advance of time between blocks. The
  ticks of the host clock are an argument.
\<close>

subsection \<open>The counter\<close>

definition avz_native_counter_clock_read :: "u64 \<Rightarrow> counter_clock \<Rightarrow> u64" where
  "avz_native_counter_clock_read now clock =
     (if ck_frequency clock = 0 \<or> ck_denominator clock = 0 then 0
      else
        let elapsed = (if now \<ge> ck_host_anchor clock then now - ck_host_anchor clock else 0);
            ticks = (ucast elapsed :: 128 word) * ucast (ck_numerator clock) * ucast (ck_frequency clock);
            ticks = ticks div ucast ((ucast (ck_denominator clock) :: u64) * 1000000000)
        in ck_counter_anchor clock + ucast ticks)"

text \<open>
  The host gives its ticks and the ratio of a tick to a nanosecond, which is 1 where the clock
  counts nanoseconds; \<open>None\<close> is a host whose clock fails.
\<close>

definition avz_native_counter_clock_initialize ::
  "(u64 \<times> u32 \<times> u32) option \<Rightarrow> u64 \<Rightarrow> u32 \<Rightarrow> counter_clock option" where
  "avz_native_counter_clock_initialize host counter_anchor frequency =
     (if frequency = 0 then None
      else
        case host of
          None \<Rightarrow> None
        | Some (now, numerator, denominator) \<Rightarrow>
            if denominator = 0 then None
            else Some \<lparr>ck_host_anchor = now, ck_counter_anchor = counter_anchor, ck_frequency = frequency,
                   ck_numerator = numerator, ck_denominator = denominator\<rparr>)"

definition avz_native_memory_fast_path_set_counter_clock :: "counter_clock option \<Rightarrow> 'c fast_path \<Rightarrow> 'c fast_path" where
  "avz_native_memory_fast_path_set_counter_clock clock fp =
     fp\<lparr>fp_counter_clock := (case clock of Some clock \<Rightarrow> clock
          | None \<Rightarrow> \<lparr>ck_host_anchor = 0, ck_counter_anchor = 0, ck_frequency = 0, ck_numerator = 0, ck_denominator = 0\<rparr>),
        fp_counter_refresh_instructions := 0\<rparr>"

definition on_arch :: "(architectural_state \<Rightarrow> architectural_state) \<Rightarrow> 'c fast_path \<Rightarrow> 'c fast_path" where
  "on_arch f fp = fp\<lparr>fp_architectural_state := f (fp_architectural_state fp)\<rparr>"

definition on_thread :: "(thread_registers \<Rightarrow> thread_registers) \<Rightarrow> 'c fast_path \<Rightarrow> 'c fast_path" where
  "on_thread f fp = fp\<lparr>fp_thread_registers := f (fp_thread_registers fp)\<rparr>"

definition avz_native_refresh_shared_counter :: "u64 \<Rightarrow> 'c fast_path \<Rightarrow> 'c fast_path" where
  "avz_native_refresh_shared_counter now fp =
     (if ck_frequency (fp_counter_clock fp) \<noteq> 0
      then (on_arch (ar_counter_ticks_update (\<lambda>_. avz_native_counter_clock_read now (fp_counter_clock fp))) fp)
             \<lparr>fp_counter_refresh_instructions := 0\<rparr>
      else fp)"

subsection \<open>Thread registers and architectural state\<close>

definition avz_native_memory_fast_path_set_thread_registers :: "thread_registers \<Rightarrow> 'c fast_path \<Rightarrow> 'c fast_path" where
  "avz_native_memory_fast_path_set_thread_registers state = on_thread (\<lambda>_. state\<lparr>th_dirty_mask := 0\<rparr>)"

definition avz_native_memory_fast_path_get_thread_registers :: "'c fast_path \<Rightarrow> thread_registers" where
  "avz_native_memory_fast_path_get_thread_registers fp = fp_thread_registers fp"

definition avz_native_memory_fast_path_set_architectural_state :: "architectural_state \<Rightarrow> 'c fast_path \<Rightarrow> 'c fast_path" where
  "avz_native_memory_fast_path_set_architectural_state state = on_arch (\<lambda>_. state\<lparr>ar_dirty_mask := 0\<rparr>)"

definition avz_native_memory_fast_path_get_architectural_state :: "'c fast_path \<Rightarrow> architectural_state" where
  "avz_native_memory_fast_path_get_architectural_state fp = fp_architectural_state fp"

subsection \<open>Timers\<close>

definition avz_native_timer_asserted :: "u64 \<Rightarrow> u64 \<Rightarrow> u64 \<Rightarrow> bool" where
  "avz_native_timer_asserted control compare counter =
     (control AND 1 \<noteq> 0 \<and> control AND 2 = 0 \<and> counter \<ge> compare)"

definition avz_native_timer_control :: "u64 \<Rightarrow> u64 \<Rightarrow> u64 \<Rightarrow> u64" where
  "avz_native_timer_control control compare counter =
     (control AND 3) OR (if counter \<ge> compare then 4 else 0)"

definition avz_native_timer_value :: "u64 \<Rightarrow> u64 \<Rightarrow> u64" where
  "avz_native_timer_value compare counter = ucast (ucast (compare - counter) :: u32)"

definition avz_native_timer_compare_from_value :: "u64 \<Rightarrow> u64 \<Rightarrow> u64" where
  "avz_native_timer_compare_from_value v counter = counter + scast (ucast v :: u32)"

text \<open>The answer says whether an interrupt is to be taken.\<close>

definition avz_native_memory_fast_path_advance_time ::
  "u64 \<Rightarrow> u64 \<Rightarrow> u64 \<Rightarrow> ('p, 'q, 'c) fast_world \<Rightarrow> bool \<times> ('p, 'q, 'c) fast_world" where
  "avz_native_memory_fast_path_advance_time now instruction_count pstate w =
     (let w = avz_fast_synchronize_shared_translation_epoch w;
          fp = w_context w;
          fp = (if ck_frequency (fp_counter_clock fp) \<noteq> 0
                then
                  let fp = fp\<lparr>fp_counter_refresh_instructions := fp_counter_refresh_instructions fp + instruction_count\<rparr>
                  in if fp_counter_refresh_instructions fp \<ge> 1024 then avz_native_refresh_shared_counter now fp else fp
                else on_arch (\<lambda>state. state\<lparr>ar_counter_ticks := ar_counter_ticks state +
                       instruction_count * ar_timer_cycles_per_instruction state\<rparr>) fp);
          state = fp_architectural_state fp;
          irq = (pstate AND 0x80 = 0 \<and>
                 (ar_pending_irq state \<noteq> 0 \<or>
                  avz_native_timer_asserted (ar_cntp_ctl_el0 state) (ar_cntp_cval_el0 state) (ar_counter_ticks state) \<or>
                  avz_native_timer_asserted (ar_cntv_ctl_el0 state) (ar_cntv_cval_el0 state) (ar_counter_ticks state)))
      in (irq, w\<lparr>w_context := fp\<rparr>))"

subsection \<open>System registers\<close>

text \<open>The registers that are read and written without the embedder.\<close>

datatype local_register =
  SPSR_EL1 | ELR_EL1 | SP_EL0 | ESR_EL1 | FAR_EL1 | VBAR_EL1 | CONTEXTIDR_EL1 | TPIDR_EL1 | TPIDR_EL0
| TPIDRRO_EL0 | CNTPCT_EL0 | CNTVCT_EL0 | CNTP_TVAL_EL0 | CNTP_CTL_EL0 | CNTP_CVAL_EL0
| CNTV_TVAL_EL0 | CNTV_CTL_EL0 | CNTV_CVAL_EL0

definition local_registers :: "local_register list" where
  "local_registers = [SPSR_EL1, ELR_EL1, SP_EL0, ESR_EL1, FAR_EL1, VBAR_EL1, CONTEXTIDR_EL1, TPIDR_EL1, TPIDR_EL0,
     TPIDRRO_EL0, CNTPCT_EL0, CNTVCT_EL0, CNTP_TVAL_EL0, CNTP_CTL_EL0, CNTP_CVAL_EL0, CNTV_TVAL_EL0, CNTV_CTL_EL0,
     CNTV_CVAL_EL0]"

definition SYSTEM_REGISTER_KEY :: "u16 \<Rightarrow> u16 \<Rightarrow> u16 \<Rightarrow> u16 \<Rightarrow> u16 \<Rightarrow> u16" where
  "SYSTEM_REGISTER_KEY op0 op1 crn crm op2 =
     shl op0 14 OR shl op1 11 OR shl crn 7 OR shl crm 3 OR op2"

definition avz_system_register_key :: "u32 \<Rightarrow> u16" where
  "avz_system_register_key instruction =
     SYSTEM_REGISTER_KEY (ucast (shr instruction 19 AND 0x3)) (ucast (shr instruction 16 AND 0x7))
       (ucast (shr instruction 12 AND 0xf)) (ucast (shr instruction 8 AND 0xf)) (ucast (shr instruction 5 AND 0x7))"

primrec local_register_key :: "local_register \<Rightarrow> u16" where
  "local_register_key SPSR_EL1 = SYSTEM_REGISTER_KEY 3 0 4 0 0"
| "local_register_key ELR_EL1 = SYSTEM_REGISTER_KEY 3 0 4 0 1"
| "local_register_key SP_EL0 = SYSTEM_REGISTER_KEY 3 0 4 1 0"
| "local_register_key ESR_EL1 = SYSTEM_REGISTER_KEY 3 0 5 2 0"
| "local_register_key FAR_EL1 = SYSTEM_REGISTER_KEY 3 0 6 0 0"
| "local_register_key VBAR_EL1 = SYSTEM_REGISTER_KEY 3 0 12 0 0"
| "local_register_key CONTEXTIDR_EL1 = SYSTEM_REGISTER_KEY 3 0 13 0 1"
| "local_register_key TPIDR_EL1 = SYSTEM_REGISTER_KEY 3 0 13 0 4"
| "local_register_key TPIDR_EL0 = SYSTEM_REGISTER_KEY 3 3 13 0 2"
| "local_register_key TPIDRRO_EL0 = SYSTEM_REGISTER_KEY 3 3 13 0 3"
| "local_register_key CNTPCT_EL0 = SYSTEM_REGISTER_KEY 3 3 14 0 1"
| "local_register_key CNTVCT_EL0 = SYSTEM_REGISTER_KEY 3 3 14 0 2"
| "local_register_key CNTP_TVAL_EL0 = SYSTEM_REGISTER_KEY 3 3 14 2 0"
| "local_register_key CNTP_CTL_EL0 = SYSTEM_REGISTER_KEY 3 3 14 2 1"
| "local_register_key CNTP_CVAL_EL0 = SYSTEM_REGISTER_KEY 3 3 14 2 2"
| "local_register_key CNTV_TVAL_EL0 = SYSTEM_REGISTER_KEY 3 3 14 3 0"
| "local_register_key CNTV_CTL_EL0 = SYSTEM_REGISTER_KEY 3 3 14 3 1"
| "local_register_key CNTV_CVAL_EL0 = SYSTEM_REGISTER_KEY 3 3 14 3 2"

text \<open>The \<open>switch\<close> of the two accessors.\<close>

definition local_register_of :: "u32 \<Rightarrow> local_register option" where
  "local_register_of instruction =
     find (\<lambda>r. local_register_key r = avz_system_register_key instruction) local_registers"

fun read_local_register ::
  "local_register \<Rightarrow> u64 \<Rightarrow> u64 \<Rightarrow> u64 \<Rightarrow> 'c fast_path \<Rightarrow> u64 \<times> 'c fast_path" where
  "read_local_register r now pstate sp fp =
     (let state = fp_architectural_state fp;
          threads = fp_thread_registers fp;
          refreshed = avz_native_refresh_shared_counter now fp;
          clocked = fp_architectural_state refreshed
      in case r of
           SPSR_EL1 \<Rightarrow> (ar_spsr_el1 state, fp)
         | ELR_EL1 \<Rightarrow> (ar_elr_el1 state, fp)
         | SP_EL0 \<Rightarrow> (if pstate AND 1 = 0 then sp else ar_sp_el0 state, fp)
         | ESR_EL1 \<Rightarrow> (ar_esr_el1 state, fp)
         | FAR_EL1 \<Rightarrow> (ar_far_el1 state, fp)
         | VBAR_EL1 \<Rightarrow> (ar_vbar_el1 state, fp)
         | TPIDR_EL0 \<Rightarrow> (th_tpidr_el0 threads, fp)
         | TPIDRRO_EL0 \<Rightarrow> (th_tpidrro_el0 threads, fp)
         | TPIDR_EL1 \<Rightarrow> (th_tpidr_el1 threads, fp)
         | CONTEXTIDR_EL1 \<Rightarrow> (th_contextidr_el1 threads, fp)
         | CNTPCT_EL0 \<Rightarrow> (ar_counter_ticks clocked, refreshed)
         | CNTVCT_EL0 \<Rightarrow> (ar_counter_ticks clocked, refreshed)
         | CNTP_TVAL_EL0 \<Rightarrow> (avz_native_timer_value (ar_cntp_cval_el0 clocked) (ar_counter_ticks clocked), refreshed)
         | CNTP_CTL_EL0 \<Rightarrow>
             (avz_native_timer_control (ar_cntp_ctl_el0 clocked) (ar_cntp_cval_el0 clocked) (ar_counter_ticks clocked), refreshed)
         | CNTP_CVAL_EL0 \<Rightarrow> (ar_cntp_cval_el0 state, fp)
         | CNTV_TVAL_EL0 \<Rightarrow> (avz_native_timer_value (ar_cntv_cval_el0 clocked) (ar_counter_ticks clocked), refreshed)
         | CNTV_CTL_EL0 \<Rightarrow>
             (avz_native_timer_control (ar_cntv_ctl_el0 clocked) (ar_cntv_cval_el0 clocked) (ar_counter_ticks clocked), refreshed)
         | CNTV_CVAL_EL0 \<Rightarrow> (ar_cntv_cval_el0 state, fp))"

text \<open>
  The counters cannot be written here: their keys have no case in the \<open>switch\<close> of the writes,
  and go to the slow callback. The answer is the stack pointer with the fast path.
\<close>

definition mark_arch :: "u32 \<Rightarrow> architectural_state \<Rightarrow> architectural_state" where
  "mark_arch bits state = state\<lparr>ar_dirty_mask := ar_dirty_mask state OR bits\<rparr>"

definition mark_thread :: "u32 \<Rightarrow> thread_registers \<Rightarrow> thread_registers" where
  "mark_thread bits threads = threads\<lparr>th_dirty_mask := th_dirty_mask threads OR bits\<rparr>"

abbreviation (input) ARCH_SP_EL0 :: u32 where "ARCH_SP_EL0 \<equiv> 0x1"
abbreviation (input) ARCH_SP_EL1 :: u32 where "ARCH_SP_EL1 \<equiv> 0x2"
abbreviation (input) ARCH_SPSR_EL1 :: u32 where "ARCH_SPSR_EL1 \<equiv> 0x4"
abbreviation (input) ARCH_ELR_EL1 :: u32 where "ARCH_ELR_EL1 \<equiv> 0x8"
abbreviation (input) ARCH_ESR_EL1 :: u32 where "ARCH_ESR_EL1 \<equiv> 0x10"
abbreviation (input) ARCH_FAR_EL1 :: u32 where "ARCH_FAR_EL1 \<equiv> 0x20"
abbreviation (input) ARCH_VBAR_EL1 :: u32 where "ARCH_VBAR_EL1 \<equiv> 0x40"
abbreviation (input) ARCH_CNTP_CTL_EL0 :: u32 where "ARCH_CNTP_CTL_EL0 \<equiv> 0x80"
abbreviation (input) ARCH_CNTP_CVAL_EL0 :: u32 where "ARCH_CNTP_CVAL_EL0 \<equiv> 0x100"
abbreviation (input) ARCH_CNTV_CTL_EL0 :: u32 where "ARCH_CNTV_CTL_EL0 \<equiv> 0x200"
abbreviation (input) ARCH_CNTV_CVAL_EL0 :: u32 where "ARCH_CNTV_CVAL_EL0 \<equiv> 0x400"

fun write_local_register ::
  "local_register \<Rightarrow> u64 \<Rightarrow> u64 \<Rightarrow> u64 \<Rightarrow> u64 \<Rightarrow> 'c fast_path \<Rightarrow> (u64 \<times> 'c fast_path) option" where
  "write_local_register r now v pstate sp fp =
     (let arch = (\<lambda>bits f. Some (sp, on_arch (\<lambda>state. mark_arch bits (f state)) fp));
          thread = (\<lambda>bits f. Some (sp, on_thread (\<lambda>threads. mark_thread bits (f threads)) fp));
          timer = (\<lambda>bits f. Some (sp, on_arch (\<lambda>state. mark_arch bits
                      (f (avz_native_timer_compare_from_value v (ar_counter_ticks state)) state))
                    (avz_native_refresh_shared_counter now fp)))
      in case r of
           SPSR_EL1 \<Rightarrow> arch ARCH_SPSR_EL1 (ar_spsr_el1_update (\<lambda>_. v))
         | ELR_EL1 \<Rightarrow> arch ARCH_ELR_EL1 (ar_elr_el1_update (\<lambda>_. v))
         | SP_EL0 \<Rightarrow>
             (if pstate AND 1 = 0 then Some (v, on_arch (mark_arch ARCH_SP_EL0) fp)
              else arch ARCH_SP_EL0 (ar_sp_el0_update (\<lambda>_. v)))
         | ESR_EL1 \<Rightarrow> arch ARCH_ESR_EL1 (ar_esr_el1_update (\<lambda>_. v))
         | FAR_EL1 \<Rightarrow> arch ARCH_FAR_EL1 (ar_far_el1_update (\<lambda>_. v))
         | VBAR_EL1 \<Rightarrow> arch ARCH_VBAR_EL1 (ar_vbar_el1_update (\<lambda>_. v))
         | TPIDR_EL0 \<Rightarrow> thread 1 (th_tpidr_el0_update (\<lambda>_. v))
         | TPIDRRO_EL0 \<Rightarrow> thread 2 (th_tpidrro_el0_update (\<lambda>_. v))
         | TPIDR_EL1 \<Rightarrow> thread 4 (th_tpidr_el1_update (\<lambda>_. v))
         | CONTEXTIDR_EL1 \<Rightarrow> thread 8 (th_contextidr_el1_update (\<lambda>_. v))
         | CNTPCT_EL0 \<Rightarrow> None
         | CNTVCT_EL0 \<Rightarrow> None
         | CNTP_TVAL_EL0 \<Rightarrow> timer ARCH_CNTP_CVAL_EL0 (\<lambda>compare. ar_cntp_cval_el0_update (\<lambda>_. compare))
         | CNTP_CTL_EL0 \<Rightarrow> arch ARCH_CNTP_CTL_EL0 (ar_cntp_ctl_el0_update (\<lambda>_. v AND 3))
         | CNTP_CVAL_EL0 \<Rightarrow> arch ARCH_CNTP_CVAL_EL0 (ar_cntp_cval_el0_update (\<lambda>_. v))
         | CNTV_TVAL_EL0 \<Rightarrow> timer ARCH_CNTV_CVAL_EL0 (\<lambda>compare. ar_cntv_cval_el0_update (\<lambda>_. compare))
         | CNTV_CTL_EL0 \<Rightarrow> arch ARCH_CNTV_CTL_EL0 (ar_cntv_ctl_el0_update (\<lambda>_. v AND 3))
         | CNTV_CVAL_EL0 \<Rightarrow> arch ARCH_CNTV_CVAL_EL0 (ar_cntv_cval_el0_update (\<lambda>_. v)))"

subsection \<open>The callbacks for the system\<close>

text \<open>
  The slow callbacks of the embedder, which see the whole world. The pointer \<open>x31\<close> of a
  synchronous exception is the array of general registers.
\<close>

record ('p, 'q, 'c) slow_system =
  k_slow_read_system_register ::
    "(u32 \<Rightarrow> u64 \<Rightarrow> u64 \<Rightarrow> u64 \<Rightarrow> ('p, 'q, 'c) fast_world \<Rightarrow> u64 option \<times> ('p, 'q, 'c) fast_world) option"
  k_slow_write_system_register ::
    "(u32 \<Rightarrow> u64 \<Rightarrow> u64 \<Rightarrow> u64 \<Rightarrow> u64 \<Rightarrow> ('p, 'q, 'c) fast_world \<Rightarrow>
      bool \<times> u64 \<times> u64 \<times> ('p, 'q, 'c) fast_world) option"
  k_slow_system_instruction ::
    "(u32 \<Rightarrow> u64 \<Rightarrow> ('p, 'q, 'c) fast_world \<Rightarrow> bool \<times> ('p, 'q, 'c) fast_world) option"
  k_slow_exception_return ::
    "(u64 \<Rightarrow> u64 \<Rightarrow> u64 \<Rightarrow> ('p, 'q, 'c) fast_world \<Rightarrow> bool \<times> u64 \<times> u64 \<times> u64 \<times> ('p, 'q, 'c) fast_world) option"
  k_slow_synchronous_exception ::
    "(u32 \<Rightarrow> (nat \<Rightarrow> u64) \<Rightarrow> u64 \<Rightarrow> u64 \<Rightarrow> u64 \<Rightarrow> ('p, 'q, 'c) fast_world \<Rightarrow>
      bool \<times> (nat \<Rightarrow> u64) \<times> u64 \<times> u64 \<times> u64 \<times> ('p, 'q, 'c) fast_world) option"
  k_slow_wait :: "(u32 \<Rightarrow> u64 \<Rightarrow> ('p, 'q, 'c) fast_world \<Rightarrow> bool \<times> u64 \<times> ('p, 'q, 'c) fast_world) option"

definition avz_native_fast_read_system_register ::
  "('p, 'q, 'c) slow_system \<Rightarrow> u64 \<Rightarrow> u32 \<Rightarrow> u64 \<Rightarrow> u64 \<Rightarrow> u64 \<Rightarrow> ('p, 'q, 'c) fast_world \<Rightarrow>
   u64 option \<times> ('p, 'q, 'c) fast_world" where
  "avz_native_fast_read_system_register k now instruction pc pstate sp w =
     (case local_register_of instruction of
        Some r \<Rightarrow>
          let (v, fp) = read_local_register r now pstate sp (w_context w)
          in (Some v, w\<lparr>w_context := count_memory_statistic Local_System_Register_Reads fp\<rparr>)
      | None \<Rightarrow>
          case k_slow_read_system_register k of
            None \<Rightarrow> (None, w)
          | Some slow \<Rightarrow> slow instruction pc pstate sp w)"

definition avz_native_fast_write_system_register ::
  "('p, 'q, 'c) slow_system \<Rightarrow> u64 \<Rightarrow> u32 \<Rightarrow> u64 \<Rightarrow> u64 \<Rightarrow> u64 \<Rightarrow> u64 \<Rightarrow> ('p, 'q, 'c) fast_world \<Rightarrow>
   bool \<times> u64 \<times> u64 \<times> ('p, 'q, 'c) fast_world" where
  "avz_native_fast_write_system_register k now instruction pc v pstate sp w =
     (case Option.bind (local_register_of instruction)
             (\<lambda>r. write_local_register r now v pstate sp (w_context w)) of
        Some (sp, fp) \<Rightarrow>
          (True, pstate, sp, w\<lparr>w_context := count_memory_statistic Local_System_Register_Writes fp\<rparr>)
      | None \<Rightarrow>
          case k_slow_write_system_register k of
            None \<Rightarrow> (False, pstate, sp, w)
          | Some slow \<Rightarrow> slow instruction pc v pstate sp w)"

definition avz_native_fast_execute_system_instruction ::
  "('p, 'q, 'c) slow_system \<Rightarrow> u32 \<Rightarrow> u64 \<Rightarrow> ('p, 'q, 'c) fast_world \<Rightarrow> bool \<times> ('p, 'q, 'c) fast_world" where
  "avz_native_fast_execute_system_instruction k instruction operand w =
     (if avz_is_coherent_cache_maintenance instruction then (True, w)
      else case k_slow_system_instruction k of
             None \<Rightarrow> (False, w)
           | Some slow \<Rightarrow> slow instruction operand w)"

text \<open>The stack pointer is kept in the bank that the processor state selects.\<close>

definition bank_sp :: "u64 \<Rightarrow> u64 \<Rightarrow> architectural_state \<Rightarrow> architectural_state" where
  "bank_sp pstate sp state =
     (if pstate AND 1 = 0 then mark_arch ARCH_SP_EL0 (state\<lparr>ar_sp_el0 := sp\<rparr>)
      else mark_arch ARCH_SP_EL1 (state\<lparr>ar_sp_el1 := sp\<rparr>))"

text \<open>Both answer the new processor state, stack pointer and program counter.\<close>

definition avz_native_fast_exception_return ::
  "u64 \<Rightarrow> u64 \<Rightarrow> u64 \<Rightarrow> ('p, 'q, 'c) fast_world \<Rightarrow> bool \<times> u64 \<times> u64 \<times> u64 \<times> ('p, 'q, 'c) fast_world" where
  "avz_native_fast_exception_return pstate sp pc w =
     (let fp = on_arch (bank_sp pstate sp) (w_context w);
          state = fp_architectural_state fp;
          new_pstate = ar_spsr_el1 state;
          new_sp = (if new_pstate AND 1 = 0 then ar_sp_el0 state else ar_sp_el1 state)
      in (True, new_pstate, new_sp, ar_elr_el1 state,
          w\<lparr>w_context := avz_native_fast_set_current_el new_pstate fp\<rparr>))"

definition avz_native_fast_synchronous_exception ::
  "('p, 'q, 'c) slow_system \<Rightarrow> u32 \<Rightarrow> (nat \<Rightarrow> u64) \<Rightarrow> u64 \<Rightarrow> u64 \<Rightarrow> u64 \<Rightarrow> ('p, 'q, 'c) fast_world \<Rightarrow>
   bool \<times> (nat \<Rightarrow> u64) \<times> u64 \<times> u64 \<times> u64 \<times> ('p, 'q, 'c) fast_world" where
  "avz_native_fast_synchronous_exception k instruction x pstate sp pc w =
     (if instruction AND 0xffe0001f = 0xd4000001 then
        let current_el = shr pstate 2 AND 3;
            vector_offset = (if current_el = 0 then 0x400 else if pstate AND 1 = 0 then 0 else 0x200);
            fp = on_arch (bank_sp pstate sp) (w_context w);
            fp = on_arch (\<lambda>state. mark_arch (ARCH_SPSR_EL1 OR ARCH_ELR_EL1 OR ARCH_ESR_EL1)
                   (state\<lparr>ar_spsr_el1 := pstate, ar_elr_el1 := pc + 4,
                     ar_esr_el1 := shl 0x15 26 OR ucast (shr instruction 5 AND 0xffff)\<rparr>)) fp;
            state = fp_architectural_state fp
        in (True, x, 0x3c5, ar_sp_el1 state, ar_vbar_el1 state + vector_offset,
            w\<lparr>w_context := avz_native_fast_set_current_el 0x3c5 fp\<rparr>)
      else
        case k_slow_synchronous_exception k of
          None \<Rightarrow> (False, x, pstate, sp, pc, w)
        | Some slow \<Rightarrow> slow instruction x pstate sp pc w)"

definition avz_native_fast_wait ::
  "('p, 'q, 'c) slow_system \<Rightarrow> u32 \<Rightarrow> u64 \<Rightarrow> ('p, 'q, 'c) fast_world \<Rightarrow> bool \<times> u64 \<times> ('p, 'q, 'c) fast_world" where
  "avz_native_fast_wait k instruction pc w =
     (case k_slow_wait k of None \<Rightarrow> (False, pc, w) | Some slow \<Rightarrow> slow instruction pc w)"

end
