(* ===== verification/FastCallbacks.thy ===== *)
theory FastCallbacks
  imports HotAccess SystemState FastMemoryCorrect
begin

text \<open>
  The interpreter on the fast path: the callbacks of \<open>ARM64VizGuestMemory.c\<close> as the interface
  that the executor calls, and what its instructions then do.
\<close>

definition exclusive_answer :: "exclusive_result \<Rightarrow> int" where
  "exclusive_answer r = (case r of Invalid \<Rightarrow> - 1 | Conflict \<Rightarrow> 0 | Stored \<Rightarrow> 1)"

definition fast_memory_of :: "('p, 'q, 'c) slow_memory \<Rightarrow> ('p, 'q, 'c) fast_world fast_memory" where
  "fast_memory_of k = \<lparr>
     f_try_read_hot = \<lambda>w va width. avz_native_fast_memory_try_read_hot va width w,
     f_read = \<lambda>w va width. avz_native_fast_memory_read k va width w,
     f_try_write_hot = \<lambda>w va width v. avz_native_fast_memory_try_write_hot va width v w,
     f_write = \<lambda>w va width v. avz_native_fast_memory_write k va width v w,
     f_read_pair = \<lambda>w va width. avz_native_fast_memory_read_pair va width w,
     f_write_pair = \<lambda>w va width v v'. avz_native_fast_memory_write_pair va width v v' w,
     f_exclusive_read = \<lambda>w va width g.
       (case avz_native_fast_memory_exclusive_read va width w of
          (None, w) \<Rightarrow> (None, g, w) | (Some (v, g), w) \<Rightarrow> (Some v, g, w)),
     f_exclusive_write = \<lambda>w va width v g.
       apfst exclusive_answer (avz_native_fast_memory_exclusive_write va width v g w),
     f_exclusive_read_pair = \<lambda>w va width g.
       (case avz_native_fast_memory_exclusive_read_pair va width w of
          (None, w) \<Rightarrow> (None, g, w) | (Some (v, v', g), w) \<Rightarrow> (Some (v, v'), g, w)),
     f_exclusive_write_pair = \<lambda>w va width v v' g.
       apfst exclusive_answer (avz_native_fast_memory_exclusive_write_pair va width v v' g w),
     f_read_bytes = \<lambda>w va byte_count. avz_native_fast_memory_read_bytes va byte_count w,
     f_write_bytes = \<lambda>w va source. avz_native_fast_memory_write_bytes va source w\<rparr>"

definition fast_callbacks ::
  "('p, 'q, 'c) slow_memory \<Rightarrow> ('p, 'q, 'c) slow_system \<Rightarrow> u64 \<Rightarrow> ('p, 'q, 'c) fast_world callbacks" where
  "fast_callbacks k s now = \<lparr>k_fast_read_memory = True, k_fast_write_memory = True,
     k_fill_memory = Some (\<lambda>w va byte_count pattern width. avz_native_fast_memory_fill k va byte_count pattern width w),
     k_read_memory = Some (\<lambda>w va width. avz_native_fast_memory_read k va width w),
     k_write_memory = Some (\<lambda>w va width v. avz_native_fast_memory_write k va width v w),
     k_can_access_memory = Some (\<lambda>w va width is_write. avz_native_fast_memory_can_access k va width is_write w),
     k_read_system_register = Some (\<lambda>w raw pc pstate sp. avz_native_fast_read_system_register s now raw pc pstate sp w),
     k_fast_read_register = True,
     k_write_system_register = Some (\<lambda>w raw pc v pstate sp. avz_native_fast_write_system_register s now raw pc v pstate sp w),
     k_fast_write_register = True,
     k_system_instruction = Some (\<lambda>w raw operand. avz_native_fast_execute_system_instruction s raw operand w),
     k_exception_return = Some (\<lambda>w pstate sp pc. avz_native_fast_exception_return pstate sp pc w),
     k_synchronous_exception = Some (\<lambda>w raw x pstate sp pc. avz_native_fast_synchronous_exception s raw x pstate sp pc w),
     k_wait = Some (\<lambda>w raw pc. avz_native_fast_wait s raw pc w),
     k_uses_fast_memory_context = True, k_fast = fast_memory_of k\<rparr>"

subsection \<open>The inlined accesses are invisible\<close>

lemma coherent_aligned:
  assumes "coherent S w" "hot_live (w_context w) (fp_hot (w_context w) a index)"
  shows "page_offset_of (tlb_physical_page (fp_hot (w_context w) a index)) = 0"
proof -
  have "core (fp_hot (w_context w) a index) \<in> mappings (w_context w) a" by (rule mappingsI(2)) (rule assms(2))
  then have "mapping_shape (w_context w) a (core (fp_hot (w_context w) a index))"
    using assms(1) by (simp add: coherent_def clean_def sound_def)
  then show ?thesis by (simp add: mapping_shape_def core_def)
qed

text \<open>
  C4: The interpreter completes a load or store in place when the hot table of the fast path
  has the page in RAM and nobody observes it. In every run of a guest that invalidates what it
  remaps this shortcut is invisible: with and without it a load returns the same value and
  leaves the same world, and so does a store, down to dirty pages, retired code, reservations
  and statistics.
\<close>
theorem hot_accesses_are_invisible:
  fixes w :: "('p, 'q, 'c) fast_world"
  assumes "contexts_ok S" "guest_run S w" "plain_ram w"
  shows "avz_native_dispatch_memory_read (fast_callbacks k s now) w va width = avz_native_fast_memory_read k va width w \<and>
    avz_native_dispatch_memory_write (fast_callbacks k s now) w va width v = avz_native_fast_memory_write k va width v w"
proof
  show "avz_native_dispatch_memory_read (fast_callbacks k s now) w va width = avz_native_fast_memory_read k va width w"
    by (simp add: avz_native_dispatch_memory_read_def fast_callbacks_def fast_memory_of_def hot_read_full split: prod.split option.split)
      (blast dest: hot_read_miss)
  note aligned = coherent_aligned[OF run_coherent[OF assms(1,2)], where a = Access_Write]
  show "avz_native_dispatch_memory_write (fast_callbacks k s now) w va width v = avz_native_fast_memory_write k va width v w"
    using hot_write_full[OF assms(3) aligned]
    by (auto simp: avz_native_dispatch_memory_write_def fast_callbacks_def fast_memory_of_def split: prod.split bool.split
        dest: hot_write_miss)
qed

definition no_slow_system :: "(unit, unit, unit) slow_system" where
  "no_slow_system = \<lparr>k_slow_read_system_register = None, k_slow_write_system_register = None,
     k_slow_system_instruction = None, k_slow_exception_return = None, k_slow_synchronous_exception = None,
     k_slow_wait = None\<rparr>"

lemma demo_plain: "plain_ram demo_touched"
proof -
  have "observers_flagged sample_memory"
    by (simp add: observers_flagged_def sample_memory_def avz_guest_memory_create_def avz_next_power_of_two_def Let_def)
  moreover have "w_memory demo_start = sample_memory\<lparr>g_bytes := demo_tables 0x40000401\<rparr>"
    by (simp add: demo_start_def on_path_def on_cache_def avz_native_memory_fast_path_set_stage1_translation_def
        avz_fast_invalidate_decoded_mappings_def Let_def demo_path_def avz_native_memory_fast_path_create_def)
  ultimately have "observers_flagged (w_memory demo_touched)"
    by (simp add: demo_touched_world demo_attached_context observers_flagged_keeps)
  moreover have "g_size (w_memory demo_touched) = 0x10000"
    by (simp add: demo_touched_world demo_attached_context demo_start_memory)
  moreover have "fp_ram_base (w_context demo_touched) = 0x40000000" "fp_ram_size (w_context demo_touched) = 0x10000"
    using demo_touched_world(1) by (simp_all add: same_context_def demo_attached_context demo_start_context)
  ultimately show ?thesis by (simp add: plain_ram_def page_offset_of_def Let_def)
qed

theorem hot_accesses_are_invisible_witness:
  "avz_native_dispatch_memory_read (fast_callbacks no_slow_memory no_slow_system 0) demo_touched 0x100 8 =
     avz_native_fast_memory_read no_slow_memory 0x100 8 demo_touched \<and>
   avz_native_dispatch_memory_write (fast_callbacks no_slow_memory no_slow_system 0) demo_touched 0x100 8 0x77 =
     avz_native_fast_memory_write no_slow_memory 0x100 8 0x77 demo_touched"
  by (rule hot_accesses_are_invisible[OF demo_contexts demo_touched_run demo_plain])

end
