(* ===== verification/SystemCorrect.thy ===== *)
theory SystemCorrect
  imports FastCallbacks BlockEngine
begin

text \<open>
  What the system state promises: a supervisor call and its exception return are balanced, the
  registers read back what was written to them, and a timer fires at the first check after its
  time.
\<close>

subsection \<open>Registers\<close>

lemma local_key_inj [simp]: "local_register_key r = local_register_key r' \<longleftrightarrow> r = r'"
  by (cases r; cases r') (simp_all add: SYSTEM_REGISTER_KEY_def)

lemma local_register_of_iff:
  "local_register_of i = Some r \<longleftrightarrow> local_register_key r = avz_system_register_key i"
proof -
  have all: "r \<in> set local_registers" for r by (cases r) (simp_all add: local_registers_def)
  show ?thesis
  proof (cases "find (\<lambda>r. local_register_key r = avz_system_register_key i) local_registers")
    case None
    then have "local_register_key r \<noteq> avz_system_register_key i" using all[of r] by (simp add: find_None_iff)
    then show ?thesis unfolding local_register_of_def None by simp
  next
    case (Some r')
    then have k: "local_register_key r' = avz_system_register_key i" by (auto simp: find_Some_iff)
    moreover have "local_register_of i = Some r'" by (simp add: local_register_of_def Some)
    ultimately show ?thesis by (metis local_key_inj option.inject)
  qed
qed

text \<open>
  What a register reads back, when \<open>c\<close> was the counter at the write and \<open>state\<close> is the state at
  the read: a timer value has run down by the ticks since.
\<close>

fun register_view :: "local_register \<Rightarrow> u64 \<Rightarrow> u64 \<Rightarrow> architectural_state \<Rightarrow> u64" where
  "register_view CNTP_TVAL_EL0 v c state = take_bit 32 (v - (ar_counter_ticks state - c))"
| "register_view CNTV_TVAL_EL0 v c state = take_bit 32 (v - (ar_counter_ticks state - c))"
| "register_view CNTP_CTL_EL0 v c state =
     (v AND 3) OR (if ar_cntp_cval_el0 state \<le> ar_counter_ticks state then 4 else 0)"
| "register_view CNTV_CTL_EL0 v c state =
     (v AND 3) OR (if ar_cntv_cval_el0 state \<le> ar_counter_ticks state then 4 else 0)"
| "register_view r v c state = v"

lemma timer_value_compare:
  "avz_native_timer_value (avz_native_timer_compare_from_value v c) c' = take_bit 32 (v - (c' - c))"
proof -
  have z: "zext64 (ucast x :: u32) = take_bit 32 x" for x :: u64
    by (rule bit_eqI) (auto simp: bit_simps)
  have "take_bit 32 (scast (ucast v :: u32) :: u64) = take_bit 32 v"
    by (rule bit_eqI) (auto simp: bit_simps)
  then have "take_bit 32 (c - c' + scast (ucast v :: u32)) = take_bit 32 (c - c' + v)"
    using take_bit_add_word[of 32 "c - c'" "scast (ucast v :: u32)"] take_bit_add_word[of 32 "c - c'" v] by simp
  then show ?thesis
    by (simp add: avz_native_timer_value_def avz_native_timer_compare_from_value_def z algebra_simps)
qed

text \<open>Between two instructions of a processor only the counter of its system state moves.\<close>

definition time_passes :: "'c fast_path \<Rightarrow> 'c fast_path \<Rightarrow> bool" where
  "time_passes fp fp' \<longleftrightarrow>
     (\<exists>c. fp_architectural_state fp' = (fp_architectural_state fp)\<lparr>ar_counter_ticks := c\<rparr>) \<and>
     fp_counter_clock fp' = fp_counter_clock fp \<and> fp_thread_registers fp' = fp_thread_registers fp"

lemma refresh_views [simp]:
  "fp_counter_clock (avz_native_refresh_shared_counter now fp) = fp_counter_clock fp"
  "fp_thread_registers (avz_native_refresh_shared_counter now fp) = fp_thread_registers fp"
  "fp_counter_clock (on_arch f fp) = fp_counter_clock fp" "fp_counter_clock (on_thread g fp) = fp_counter_clock fp"
  "fp_architectural_state (on_arch f fp) = f (fp_architectural_state fp)"
  "fp_architectural_state (on_thread g fp) = fp_architectural_state fp"
  "fp_thread_registers (on_thread g fp) = g (fp_thread_registers fp)"
  "fp_thread_registers (on_arch f fp) = fp_thread_registers fp"
  by (simp_all add: avz_native_refresh_shared_counter_def on_arch_def on_thread_def)

lemma refresh_arch:
  "fp_architectural_state (avz_native_refresh_shared_counter now fp) =
     (if ck_frequency (fp_counter_clock fp) = 0 then fp_architectural_state fp
      else (fp_architectural_state fp)\<lparr>ar_counter_ticks := avz_native_counter_clock_read now (fp_counter_clock fp)\<rparr>)"
  by (simp add: avz_native_refresh_shared_counter_def on_arch_def)

lemma read_back:
  assumes "write_local_register r now v pstate sp fp = Some (sp', fp')" "time_passes fp' fp1"
  shows "fst (read_local_register r now' pstate sp' fp1) =
    register_view r v (ar_counter_ticks (fp_architectural_state fp'))
      (fp_architectural_state (avz_native_refresh_shared_counter now' fp1))"
proof -
  from assms(2) obtain c where fp1: "fp_architectural_state fp1 = (fp_architectural_state fp')\<lparr>ar_counter_ticks := c\<rparr>"
    "fp_counter_clock fp1 = fp_counter_clock fp'" "fp_thread_registers fp1 = fp_thread_registers fp'"
    by (auto simp: time_passes_def)
  show ?thesis
  proof (cases r)
    case CNTP_TVAL_EL0
    with assms(1) fp1 show ?thesis by (auto simp: refresh_arch mark_arch_def timer_value_compare Let_def)
  next
    case CNTV_TVAL_EL0
    with assms(1) fp1 show ?thesis by (auto simp: refresh_arch mark_arch_def timer_value_compare Let_def)
  next
    case CNTP_CTL_EL0
    with assms(1) fp1 show ?thesis by (auto simp: refresh_arch mark_arch_def avz_native_timer_control_def and.assoc Let_def)
  next
    case CNTV_CTL_EL0
    with assms(1) fp1 show ?thesis by (auto simp: refresh_arch mark_arch_def avz_native_timer_control_def and.assoc Let_def)
  qed (use assms(1) fp1 in \<open>auto simp: mark_arch_def mark_thread_def Let_def split: if_splits\<close>)
qed

lemma counted_arch [simp]:
  "fp_architectural_state (count_memory_statistic c fp) = fp_architectural_state fp"
  "fp_thread_registers (count_memory_statistic c fp) = fp_thread_registers fp"
  "fp_counter_clock (count_memory_statistic c fp) = fp_counter_clock fp"
  by (simp_all add: count_memory_statistic_def)

lemma decoded_key: "decoded_system_register_key raw = avz_system_register_key raw"
proof -
  have shift: "(ucast (shl x n) :: u16) = shl (ucast x) n" for x :: u32 and n
    by (rule bit_eqI) (auto simp: bit_unsigned_iff bit_push_bit_iff)
  show ?thesis
    unfolding decoded_system_register_key_def avz_system_register_key_def SYSTEM_REGISTER_KEY_def fld_def unsigned_or_eq shift ..
qed

lemma local_key_not_executor:
  "local_register_key r \<noteq> KEY_CURRENT_EL" "local_register_key r \<noteq> KEY_NZCV" "local_register_key r \<noteq> KEY_DAIF"
  "local_register_key r \<noteq> KEY_FPCR" "local_register_key r \<noteq> KEY_FPSR"
  by (cases r; simp add: SYSTEM_REGISTER_KEY_def)+

lemma system_register_written:
  assumes "local_register_of (i_raw iw) = Some r"
    and "write_local_register r now (read_register cpu (reg_t iw)) (c_pstate cpu) (c_sp cpu) (w_context w) = Some (sp, fp)"
  shows "exec_system_register_write (fast_callbacks k s now) iw cpu w = (True, cpu\<lparr>c_sp := sp, c_pc := c_pc cpu + 4\<rparr>,
    w\<lparr>w_context := count_memory_statistic Local_System_Register_Writes fp\<rparr>)"
proof -
  have "decoded_system_register_key (i_raw iw) = local_register_key r"
    using assms(1) by (simp add: local_register_of_iff decoded_key)
  with assms show ?thesis
    by (simp add: exec_system_register_write_def fast_callbacks_def local_key_not_executor
        avz_native_fast_write_system_register_def Let_def)
qed

text \<open>
  C8: System registers read back. On the fast path, an instruction that writes one of the system
  registers kept there (the counter itself is not writable) and a later one that reads it never
  reach the embedder, whatever time passes between them and whatever the host clock shows at
  either. The second returns the value that the first has written, except that a timer control
  register keeps only its two writable bits and adds the condition of its timer at the read, and
  a timer value is cut to 32 bits and has run down by the ticks of the counter since the write.
\<close>
theorem system_register_reads_back:
  fixes w :: "('p, 'q, 'c) fast_world"
  assumes "local_register_of (i_raw iw) = Some r" "local_register_of (i_raw ir) = Some r"
    and "r \<noteq> CNTPCT_EL0" "r \<noteq> CNTVCT_EL0"
  shows "\<exists>cpu' w'. exec_system_register_write (fast_callbacks k s now) iw cpu w = (True, cpu', w') \<and>
    c_pc cpu' = c_pc cpu + 4 \<and>
    (\<forall>w1. time_passes (w_context w') (w_context w1) \<longrightarrow>
      (\<exists>w''. exec_system_register_read (fast_callbacks k s now') ir cpu' w1 =
        (True, (write_register (reg_t ir)
           (register_view r (read_register cpu (reg_t iw)) (ar_counter_ticks (fp_architectural_state (w_context w')))
             (fp_architectural_state (avz_native_refresh_shared_counter now' (w_context w1)))) cpu')\<lparr>c_pc := c_pc cpu' + 4\<rparr>, w'')))"
proof -
  let ?k = "fast_callbacks k s now" and ?k' = "fast_callbacks k s now'"
  let ?v = "read_register cpu (reg_t iw)"
  have keys: "decoded_system_register_key (i_raw ir) = local_register_key r"
    using assms(2) by (simp add: local_register_of_iff decoded_key)
  have "write_local_register r now ?v (c_pstate cpu) (c_sp cpu) (w_context w) \<noteq> None"
    using assms(3,4) by (cases r) (auto simp: Let_def)
  then obtain sp fp where wr: "write_local_register r now ?v (c_pstate cpu) (c_sp cpu) (w_context w) = Some (sp, fp)"
    by auto
  let ?cpu = "cpu\<lparr>c_sp := sp, c_pc := c_pc cpu + 4\<rparr>"
  let ?w = "w\<lparr>w_context := count_memory_statistic Local_System_Register_Writes fp\<rparr>"
  have written: "exec_system_register_write ?k iw cpu w = (True, ?cpu, ?w)"
    by (rule system_register_written[OF assms(1) wr])
  have "\<exists>w''. exec_system_register_read ?k' ir ?cpu w1 =
      (True, (write_register (reg_t ir) (register_view r ?v (ar_counter_ticks (fp_architectural_state fp))
         (fp_architectural_state (avz_native_refresh_shared_counter now' (w_context w1)))) ?cpu)\<lparr>c_pc := c_pc ?cpu + 4\<rparr>, w'')"
    if passes: "time_passes (w_context ?w) (w_context w1)" for w1
  proof -
    obtain v fp' where rd: "read_local_register r now' (c_pstate cpu) sp (w_context w1) = (v, fp')" by fastforce
    let ?w'' = "w1\<lparr>w_context := count_memory_statistic Local_System_Register_Reads fp'\<rparr>"
    have "time_passes fp (w_context w1)" using passes by (simp add: time_passes_def)
    from read_back[OF wr this, of now'] have "v = register_view r ?v (ar_counter_ticks (fp_architectural_state fp))
        (fp_architectural_state (avz_native_refresh_shared_counter now' (w_context w1)))"
      by (simp add: rd del: read_local_register.simps)
    then show ?thesis
      using assms(2) rd
      by (intro exI[of _ ?w'']) (simp add: exec_system_register_read_def fast_callbacks_def keys local_key_not_executor
          avz_native_fast_read_system_register_def Let_def del: read_local_register.simps)
  qed
  with written show ?thesis by (intro exI[of _ ?cpu] exI[of _ ?w]) simp
qed

subsection \<open>Supervisor calls\<close>

text \<open>
  What a handler of the exception keeps for the return: the saved state, the return address, the
  stack pointer of the caller and the balance of its own stack; everything else is free.
\<close>

definition handler_keeps ::
  "cpu \<Rightarrow> ('p, 'q, 'c) fast_world \<Rightarrow> cpu \<Rightarrow> ('p, 'q, 'c) fast_world \<Rightarrow> bool" where
  "handler_keeps cpu w cpu' w' \<longleftrightarrow>
     (let state = fp_architectural_state (w_context w); state' = fp_architectural_state (w_context w')
      in ar_spsr_el1 state' = ar_spsr_el1 state \<and> ar_elr_el1 state' = ar_elr_el1 state \<and>
         ar_sp_el0 state' = ar_sp_el0 state \<and> c_sp cpu' = c_sp cpu \<and> c_pstate cpu' AND 1 = 1)"

lemma current_el_set [simp]:
  "st_current_el (fp_translation_state (avz_native_fast_set_current_el pstate fp)) = ucast (shr pstate 2 AND 3)"
  "fp_architectural_state (avz_native_fast_set_current_el pstate fp) = fp_architectural_state fp"
  by (auto simp: avz_native_fast_set_current_el_def avz_fast_refresh_translation_context_tags_def avz_fast_clear_hot_tlbs_def Let_def)

text \<open>
  C6: A supervisor call executed on the fast path enters the vector of the exception table that
  belongs to the level and stack of the caller, at level 1 with interrupts masked, with no
  exclusive reservation left, and with the syndrome that this path builds: the class of the call
  and its 16-bit number, but not the bit \<open>IL\<close>, which the slow path of the machine sets. When the handler has kept what
  it must, its exception return resumes the caller after the call, with the processor state,
  stack pointer and exception level that it had.
\<close>
theorem supervisor_call_returns:
  fixes w :: "('p, 'q, 'c) fast_world"
  assumes "i_raw i AND 0xffe0001f = 0xd4000001"
  shows "\<exists>cpu1 w1. exec_synchronous_exception (fast_callbacks k s now) i cpu w = (True, cpu1, w1) \<and>
    c_pc cpu1 = ar_vbar_el1 (fp_architectural_state (w_context w)) +
      (if shr (c_pstate cpu) 2 AND 3 = 0 then 0x400 else if c_pstate cpu AND 1 = 0 then 0 else 0x200) \<and>
    c_pstate cpu1 = 0x3c5 \<and> st_current_el (fp_translation_state (w_context w1)) = 1 \<and>
    ar_esr_el1 (fp_architectural_state (w_context w1)) = 0x54000000 OR ucast (shr (i_raw i) 5 AND 0xffff) \<and>
    c_exclusive_valid cpu1 = 0 \<and>
    (\<forall>cpu2 w2. handler_keeps cpu1 w1 cpu2 w2 \<longrightarrow>
      (\<exists>w3. exec_exception_return (fast_callbacks k s now) i' cpu2 w2 =
          (True, cpu2\<lparr>c_pstate := c_pstate cpu, c_sp := c_sp cpu, c_pc := c_pc cpu + 4\<rparr>, w3) \<and>
        st_current_el (fp_translation_state (w_context w3)) = ucast (shr (c_pstate cpu) 2 AND 3)))"
  using assms
  by (simp add: exec_synchronous_exception_def fast_callbacks_def avz_native_fast_synchronous_exception_def
      exec_exception_return_def avz_native_fast_exception_return_def handler_keeps_def clear_exclusive_reservation_def
      bank_sp_def mark_arch_def Let_def)

subsection \<open>Timers\<close>

definition same_time :: "'c fast_path \<Rightarrow> 'c fast_path \<Rightarrow> bool" where
  "same_time fp' fp \<longleftrightarrow> fp_architectural_state fp' = fp_architectural_state fp \<and>
     fp_counter_clock fp' = fp_counter_clock fp \<and> fp_thread_registers fp' = fp_thread_registers fp"

lemma same_time_trans: "same_time a b \<Longrightarrow> same_time b c \<Longrightarrow> same_time a c"
  by (simp add: same_time_def)

lemma invalidation_time:
  "same_time (avz_fast_clear_hot_tlbs fp) fp" "same_time (avz_fast_clear_tlbs fp) fp" "same_time (record_va_tlbi t e s fp) fp"
  "same_time (advance_tlbi_epoch fp) fp" "same_time (fp\<lparr>fp_asid_tlbi_epochs := f\<rparr>) fp"
  "same_time (fp\<lparr>fp_observed_shared_translation_epoch := o1\<rparr>) fp"
  by (simp_all add: same_time_def avz_fast_clear_hot_tlbs_def avz_fast_clear_tlbs_def record_va_tlbi_def advance_tlbi_epoch_def Let_def)

lemma apply_entries_time: "same_time (avz_fast_apply_tlbi_entries t fp) fp"
proof -
  have recs: "same_time (fold (record_va_tlbi t e) ss fp) fp" for e ss fp
  proof (induction ss arbitrary: fp)
    case (Cons s ss)
    show ?case using same_time_trans[OF Cons invalidation_time(3)] by simp
  qed (simp add: same_time_def)
  have start: "same_time (advance_tlbi_epoch (avz_fast_clear_hot_tlbs fp)) fp"
    by (rule same_time_trans[OF invalidation_time(4,1)])
  show ?thesis
    using same_time_trans[OF recs start] same_time_trans[OF invalidation_time(5) start]
    by (simp add: avz_fast_apply_tlbi_entries_def invalidation_time(2) Let_def)
qed

lemma apply_tlbis_time: "same_time (apply_tlbis ts fp) fp"
proof (induction ts arbitrary: fp)
  case (Cons t ts)
  show ?case using same_time_trans[OF Cons apply_entries_time] by (simp add: apply_entries_time Let_def)
qed (simp add: same_time_def)

lemma synchronize_time [simp]:
  "fp_architectural_state (w_context (avz_fast_synchronize_shared_translation_epoch w)) = fp_architectural_state (w_context w)"
  "fp_counter_clock (w_context (avz_fast_synchronize_shared_translation_epoch w)) = fp_counter_clock (w_context w)"
  "fp_thread_registers (w_context (avz_fast_synchronize_shared_translation_epoch w)) = fp_thread_registers (w_context w)"
  by (simp_all add: synchronize_path apply_tlbis_time[unfolded same_time_def])

text \<open>The checks after each of a sequence of blocks, given by their numbers of instructions.\<close>

definition blocks_executed :: "u64 \<Rightarrow> u64 \<Rightarrow> u64 list \<Rightarrow> ('p, 'q, 'c) fast_world \<Rightarrow> ('p, 'q, 'c) fast_world" where
  "blocks_executed now pstate ns w =
     fold (\<lambda>n w. snd (avz_native_memory_fast_path_advance_time now n pstate w)) ns w"

lemma advance_unclocked:
  assumes "ck_frequency (fp_counter_clock (w_context w)) = 0"
  defines "state \<equiv> fp_architectural_state (w_context w)"
  shows "fp_architectural_state (w_context (snd (avz_native_memory_fast_path_advance_time now n pstate w))) =
      state\<lparr>ar_counter_ticks := ar_counter_ticks state + n * ar_timer_cycles_per_instruction state\<rparr>"
    "fp_counter_clock (w_context (snd (avz_native_memory_fast_path_advance_time now n pstate w))) = fp_counter_clock (w_context w)"
  using assms(1) by (simp_all add: avz_native_memory_fast_path_advance_time_def state_def on_arch_def Let_def)

text \<open>Whatever the clock of the counter, the end of a block only lets time pass.\<close>

lemma advance_passes:
  "time_passes (w_context w) (w_context (snd (avz_native_memory_fast_path_advance_time now n pstate w)))"
  by (auto simp: time_passes_def avz_native_memory_fast_path_advance_time_def on_arch_def refresh_arch Let_def
      intro: exI[of _ "ar_counter_ticks (fp_architectural_state (w_context w))"])

lemma blocks_unclocked:
  assumes "ck_frequency (fp_counter_clock (w_context w)) = 0"
  defines "state \<equiv> fp_architectural_state (w_context w)"
  shows "fp_architectural_state (w_context (blocks_executed now pstate ns w)) =
      state\<lparr>ar_counter_ticks := ar_counter_ticks state + sum_list ns * ar_timer_cycles_per_instruction state\<rparr>"
    "fp_counter_clock (w_context (blocks_executed now pstate ns w)) = fp_counter_clock (w_context w)"
proof -
  have "fp_architectural_state (w_context (blocks_executed now pstate ns w)) =
      (fp_architectural_state (w_context w))\<lparr>ar_counter_ticks := ar_counter_ticks (fp_architectural_state (w_context w)) +
         sum_list ns * ar_timer_cycles_per_instruction (fp_architectural_state (w_context w))\<rparr> \<and>
      fp_counter_clock (w_context (blocks_executed now pstate ns w)) = fp_counter_clock (w_context w)"
    using assms(1)
  proof (induction ns arbitrary: w)
    case (Cons n ns)
    note one = advance_unclocked[OF Cons.prems, of now n pstate]
    show ?case using Cons.IH[of "snd (avz_native_memory_fast_path_advance_time now n pstate w)"] Cons.prems one
      by (simp add: blocks_executed_def algebra_simps)
  qed (simp add: blocks_executed_def)
  then show "fp_architectural_state (w_context (blocks_executed now pstate ns w)) =
      state\<lparr>ar_counter_ticks := ar_counter_ticks state + sum_list ns * ar_timer_cycles_per_instruction state\<rparr>"
    "fp_counter_clock (w_context (blocks_executed now pstate ns w)) = fp_counter_clock (w_context w)"
    by (simp_all add: state_def)
qed

lemma sum_list_word: "sum_list ns = (word_of_nat (sum_list (map unat ns)) :: u64)"
  by (induction ns) simp_all

text \<open>
  C7: Without a host clock, when the counter is driven by the executed instructions, the virtual
  timer is punctual. Let the physical timer be off and no interrupt pending. After the guest has
  set the virtual timer to a value below \<open>2 ^ 31\<close> and enabled it, the check after a block reports
  an interrupt exactly when the processor has interrupts unmasked and the instructions executed
  since, over all blocks together, make up at least that many ticks, as long as the counter does
  not wrap: the timer is never early, and never late by more than the block in which its time runs
  out. With a host clock the code looks at the clock only every 1024 instructions, and the check
  after the deadline can miss it; that case is not covered.
\<close>
theorem timer_fires_on_time:
  fixes w :: "('p, 'q, 'c) fast_world"
  defines "state \<equiv> fp_architectural_state (w_context w)"
  assumes "ck_frequency (fp_counter_clock (w_context w)) = 0"
    and "ar_pending_irq state = 0" "ar_cntp_ctl_el0 state AND 1 = 0"
    and "local_register_of set_value = Some CNTV_TVAL_EL0" "local_register_of set_control = Some CNTV_CTL_EL0"
    and "avz_native_fast_write_system_register s now set_value pc v pstate sp w = (ok, ps, sp1, w1)"
    and "avz_native_fast_write_system_register s now set_control pc' 1 ps sp1 w1 = (ok', ps', sp2, w2)"
    and "v < 0x80000000" "unat (ar_counter_ticks state) + unat v < 2 ^ 64"
    and "unat (ar_counter_ticks state) +
      sum_list (map unat (ns @ [n])) * unat (ar_timer_cycles_per_instruction state) < 2 ^ 64"
  shows "fst (avz_native_memory_fast_path_advance_time now n ps (blocks_executed now ps ns w2)) \<longleftrightarrow>
    ps AND 0x80 = 0 \<and> unat v \<le> sum_list (map unat (ns @ [n])) * unat (ar_timer_cycles_per_instruction state)"
proof -
  let ?c = "ar_counter_ticks state" and ?r = "ar_timer_cycles_per_instruction state"
  let ?total = "sum_list (map unat (ns @ [n]))"
  have small: "scast (ucast v :: u32) = v"
  proof -
    have bits: "j < 31" if "bit v j" for j
    proof -
      have "unat v < 2 ^ 31" using assms(9) by (simp add: word_less_nat_alt)
      then have "(2 :: nat) ^ j < 2 ^ 31" using bit_imp_exp_le[OF that] by linarith
      then show ?thesis by (rule power_less_imp_less_exp[rotated]) simp
    qed
    show ?thesis by (rule bit_eqI) (auto simp: bit_simps min_def dest: bits)
  qed
  have w2: "fp_architectural_state (w_context w2) = state\<lparr>ar_cntv_cval_el0 := ?c + v, ar_cntv_ctl_el0 := 1,
      ar_dirty_mask := ar_dirty_mask state OR 0x400 OR 0x200\<rparr>"
    "fp_counter_clock (w_context w2) = fp_counter_clock (w_context w)"
    using assms(2,5-8) by (auto simp: avz_native_fast_write_system_register_def mark_arch_def state_def refresh_arch
        avz_native_timer_compare_from_value_def small or.assoc Let_def)
  note run = blocks_unclocked[of w2 now ps ns, unfolded w2, OF assms(2)]
  have irq: "fst (avz_native_memory_fast_path_advance_time now n ps (blocks_executed now ps ns w2)) \<longleftrightarrow>
      ps AND 0x80 = 0 \<and> ?c + v \<le> ?c + (sum_list ns + n) * ?r"
    using assms(2-4)
    by (simp add: avz_native_memory_fast_path_advance_time_def run on_arch_def avz_native_timer_asserted_def algebra_simps Let_def)
  have ticks: "?c + (sum_list ns + n) * ?r = word_of_nat (unat ?c + ?total * unat ?r)"
    by (simp add: sum_list_word[of ns])
  have "unat (?c + (sum_list ns + n) * ?r) = unat ?c + ?total * unat ?r"
    unfolding ticks unat_of_nat using assms(11) by (intro mod_less) simp
  moreover have "unat (?c + v) = unat ?c + unat v"
    using assms(10) by (simp add: unat_word_ariths(1))
  ultimately show ?thesis unfolding irq by (simp add: word_le_nat_alt)
qed

subsection \<open>Witnesses\<close>

definition move_instr :: "u32 \<Rightarrow> u8 \<Rightarrow> instr" where
  "move_instr raw rt = (instr_init raw)\<lparr>i_rt := rt\<rparr>"

abbreviation MSR_CNTV_TVAL :: u32 where "MSR_CNTV_TVAL \<equiv> 0xd51be301"
abbreviation MRS_CNTV_TVAL :: u32 where "MRS_CNTV_TVAL \<equiv> 0xd53be302"
abbreviation MSR_CNTV_CTL :: u32 where "MSR_CNTV_CTL \<equiv> 0xd51be321"

lemma timer_instructions:
  "local_register_of MSR_CNTV_TVAL = Some CNTV_TVAL_EL0" "local_register_of MRS_CNTV_TVAL = Some CNTV_TVAL_EL0"
  "local_register_of MSR_CNTV_CTL = Some CNTV_CTL_EL0"
  by (simp_all add: local_register_of_iff avz_system_register_key_def SYSTEM_REGISTER_KEY_def)

lemma flat_state_words:
  "fp_architectural_state (w_context flat_start) = \<lparr>ar_sp_el0 = 0, ar_sp_el1 = 0, ar_spsr_el1 = 0, ar_elr_el1 = 0,
     ar_esr_el1 = 0, ar_far_el1 = 0, ar_vbar_el1 = 0, ar_counter_ticks = 0, ar_cntp_ctl_el0 = 0, ar_cntp_cval_el0 = 0,
     ar_cntv_ctl_el0 = 0, ar_cntv_cval_el0 = 0, ar_timer_cycles_per_instruction = 0, ar_dirty_mask = 0, ar_pending_irq = 0\<rparr>"
  "ck_frequency (fp_counter_clock (w_context flat_start)) = 0"
  by (simp_all add: flat_start_def demo_path_def avz_native_memory_fast_path_create_def on_path_def on_cache_def
      avz_native_memory_fast_path_set_stage1_translation_def avz_fast_invalidate_decoded_mappings_def Let_def
      avz_fast_clear_tlbs_def avz_fast_clear_hot_tlbs_def avz_fast_refresh_translation_context_tags_def)

theorem supervisor_call_returns_witness:
  "\<exists>cpu1 w1 w3. exec_synchronous_exception (fast_callbacks no_slow_memory no_slow_system 0) (instr_init 0xd4000541)
      ((zero_cpu 0x1000)\<lparr>c_sp := 0x9000\<rparr>) flat_start = (True, cpu1, w1) \<and> c_pc cpu1 = 0x400 \<and>
    ar_esr_el1 (fp_architectural_state (w_context w1)) = 0x5400002a \<and>
    exec_exception_return (fast_callbacks no_slow_memory no_slow_system 0) (instr_init 0xd69f03e0) cpu1 w1 =
      (True, cpu1\<lparr>c_pstate := 0, c_sp := 0x9000, c_pc := 0x1004\<rparr>, w3)"
proof -
  have raw: "i_raw (instr_init 0xd4000541) = 0xd4000541" by (simp add: instr_init_def)
  then have "i_raw (instr_init 0xd4000541) AND 0xffe0001f = 0xd4000001" by simp
  from supervisor_call_returns[OF this, of no_slow_memory no_slow_system 0 "(zero_cpu 0x1000)\<lparr>c_sp := 0x9000\<rparr>" flat_start "instr_init 0xd69f03e0"]
  obtain cpu1 w1 where e: "exec_synchronous_exception (fast_callbacks no_slow_memory no_slow_system 0) (instr_init 0xd4000541)
      ((zero_cpu 0x1000)\<lparr>c_sp := 0x9000\<rparr>) flat_start = (True, cpu1, w1)"
    "c_pc cpu1 = 0x400" "c_pstate cpu1 = 0x3c5" "ar_esr_el1 (fp_architectural_state (w_context w1)) = 0x5400002a"
    and resumes: "\<And>cpu2 w2. handler_keeps cpu1 w1 cpu2 w2 \<Longrightarrow>
      \<exists>w3. exec_exception_return (fast_callbacks no_slow_memory no_slow_system 0) (instr_init 0xd69f03e0) cpu2 w2 =
        (True, cpu2\<lparr>c_pstate := 0, c_sp := 0x9000, c_pc := 0x1004\<rparr>, w3)"
    by (simp add: raw zero_cpu_def flat_state_words) blast
  have "handler_keeps cpu1 w1 cpu1 w1" using e(3) by (simp add: handler_keeps_def)
  then show ?thesis using resumes e by blast
qed

definition ticking_start :: "(unit, unit, unit) fast_world" where
  "ticking_start = on_path (\<lambda>fp. avz_native_memory_fast_path_set_architectural_state
     ((avz_native_memory_fast_path_get_architectural_state fp)\<lparr>ar_timer_cycles_per_instruction := 2\<rparr>) fp) flat_start"

lemma ticking_state:
  "ck_frequency (fp_counter_clock (w_context ticking_start)) = 0"
  "fp_architectural_state (w_context ticking_start) =
     (fp_architectural_state (w_context flat_start))\<lparr>ar_timer_cycles_per_instruction := 2, ar_dirty_mask := 0\<rparr>"
  by (simp_all add: ticking_start_def on_path_def avz_native_memory_fast_path_set_architectural_state_def on_arch_def
      avz_native_memory_fast_path_get_architectural_state_def flat_state_words)

text \<open>The timer value written is 10; six ticks later, after a block of three instructions, it reads 4.\<close>

theorem system_register_reads_back_witness:
  "\<exists>cpu1 cpu2 w1 w2. exec_system_register_write (fast_callbacks no_slow_memory no_slow_system 0) (move_instr MSR_CNTV_TVAL 1)
      ((zero_cpu 0)\<lparr>c_x := \<lambda>_. 10\<rparr>) ticking_start = (True, cpu1, w1) \<and>
    exec_system_register_read (fast_callbacks no_slow_memory no_slow_system 7) (move_instr MRS_CNTV_TVAL 2) cpu1
      (snd (avz_native_memory_fast_path_advance_time 5 3 0 w1)) = (True, cpu2, w2) \<and> read_register cpu2 2 = 4"
proof -
  have i: "local_register_of (i_raw (move_instr MSR_CNTV_TVAL 1)) = Some CNTV_TVAL_EL0"
    "local_register_of (i_raw (move_instr MRS_CNTV_TVAL 2)) = Some CNTV_TVAL_EL0"
    "reg_t (move_instr MSR_CNTV_TVAL 1) = 1" "reg_t (move_instr MRS_CNTV_TVAL 2) = 2"
    by (simp_all add: move_instr_def instr_init_def timer_instructions)
  let ?cpu = "(zero_cpu 0)\<lparr>c_x := \<lambda>_. 10\<rparr>"
  have v: "read_register ?cpu 1 = 10" by (simp add: read_register_def)
  obtain cpu1 w1 where written: "exec_system_register_write (fast_callbacks no_slow_memory no_slow_system 0)
      (move_instr MSR_CNTV_TVAL 1) ?cpu ticking_start = (True, cpu1, w1)"
    and reads: "\<And>w. time_passes (w_context w1) (w_context w) \<Longrightarrow>
      \<exists>w2. exec_system_register_read (fast_callbacks no_slow_memory no_slow_system 7) (move_instr MRS_CNTV_TVAL 2) cpu1 w =
        (True, (write_register 2 (take_bit 32 (10 - (ar_counter_ticks (fp_architectural_state
           (avz_native_refresh_shared_counter 7 (w_context w))) - ar_counter_ticks (fp_architectural_state (w_context w1)))))
           cpu1)\<lparr>c_pc := c_pc cpu1 + 4\<rparr>, w2)"
    using system_register_reads_back[OF i(1,2), of no_slow_memory no_slow_system 0 ?cpu ticking_start 7]
    unfolding i(3,4) register_view.simps v by auto
  let ?w = "snd (avz_native_memory_fast_path_advance_time 5 3 0 w1)"
  obtain fp where fp: "write_local_register CNTV_TVAL_EL0 0 10 (c_pstate ?cpu) (c_sp ?cpu) (w_context ticking_start) = Some (c_sp ?cpu, fp)"
    "ck_frequency (fp_counter_clock fp) = 0" "ar_timer_cycles_per_instruction (fp_architectural_state fp) = 2"
    by (simp add: mark_arch_def refresh_arch ticking_state flat_state_words Let_def)
  have w1: "ck_frequency (fp_counter_clock (w_context w1)) = 0"
    "ar_timer_cycles_per_instruction (fp_architectural_state (w_context w1)) = 2"
    using written system_register_written[OF i(1), of 0 ?cpu ticking_start, unfolded i(3) v, OF fp(1)] fp(2,3) by auto
  have "time_passes (w_context w1) (w_context ?w)" by (rule advance_passes)
  from reads[OF this] advance_unclocked[OF w1(1), of 5 3 0] w1 obtain w2 where
    "exec_system_register_read (fast_callbacks no_slow_memory no_slow_system 7) (move_instr MRS_CNTV_TVAL 2) cpu1 ?w =
      (True, (write_register 2 4 cpu1)\<lparr>c_pc := c_pc cpu1 + 4\<rparr>, w2)"
    by (auto simp: refresh_arch)
  moreover have "read_register ((write_register 2 4 cpu1)\<lparr>c_pc := c_pc cpu1 + 4\<rparr>) 2 = 4"
    by (simp add: read_register_def write_register_def set_x_def)
  ultimately show ?thesis using written by blast
qed

theorem timer_fires_on_time_witness:
  "\<exists>w. (\<exists>w1. avz_native_fast_write_system_register no_slow_system 0 MSR_CNTV_TVAL 0 10 0 0 ticking_start = (True, 0, 0, w1) \<and>
      avz_native_fast_write_system_register no_slow_system 0 MSR_CNTV_CTL 4 1 0 0 w1 = (True, 0, 0, w)) \<and>
    \<not> fst (avz_native_memory_fast_path_advance_time 0 1 0 (blocks_executed 0 0 [3] w)) \<and>
    fst (avz_native_memory_fast_path_advance_time 0 1 0 (blocks_executed 0 0 [3, 1] w))"
proof -
  obtain w1 w2 where w: "avz_native_fast_write_system_register no_slow_system 0 MSR_CNTV_TVAL 0 10 0 0 ticking_start = (True, 0, 0, w1)"
    "avz_native_fast_write_system_register no_slow_system 0 MSR_CNTV_CTL 4 1 0 0 w1 = (True, 0, 0, w2)"
    by (simp add: avz_native_fast_write_system_register_def timer_instructions Let_def)
  note fires = timer_fires_on_time[OF _ _ _ timer_instructions(1,3) w]
  have "\<not> fst (avz_native_memory_fast_path_advance_time 0 1 0 (blocks_executed 0 0 [3] w2))"
    by (subst fires) (simp_all add: ticking_state flat_state_words)
  moreover have "fst (avz_native_memory_fast_path_advance_time 0 1 0 (blocks_executed 0 0 [3, 1] w2))"
    by (subst fires) (simp_all add: ticking_state flat_state_words)
  ultimately show ?thesis using w by blast
qed

end
