(* ===== verification/SemanticTraces.thy ===== *)
theory SemanticTraces
  imports BlockLookup
begin

text \<open>
  The semantic fast paths of \<open>ARM64VizNative.c\<close> that look beyond one decoded block: the solid
  fill with vector stores, the memory compare, the walk of a GNU hash chain, the compare of
  symbol names, and the two copy loops. A mapped trace keeps one byte per instruction, the hint,
  in which a fast path remembers that it has checked the code around it; a caller without a
  trace passes a null pointer, \<open>None\<close>.

  The two pixman blend loops exist only in a build with NEON intrinsics; in the portable build
  their functions return 0.
\<close>

type_synonym 'm hinted_step = "u8 option \<times> 'm fast_step"

abbreviation fast_context :: "'m callbacks \<Rightarrow> 'm callbacks" where
  "fast_context k \<equiv> k\<lparr>k_uses_fast_memory_context := True\<rparr>"

subsection \<open>Little-endian bytes\<close>

text \<open>What \<open>memcpy\<close> between bytes and integers does on the little-endian hosts of the code.\<close>

definition le_word :: "u8 list \<Rightarrow> 'a::len word" where
  "le_word bytes = foldr (\<lambda>b w. ucast b OR shl w 8) bytes 0"

definition le_bytes :: "nat \<Rightarrow> 'a::len word \<Rightarrow> u8 list" where
  "le_bytes n w = map (\<lambda>j. ucast (shr w (8 * j))) [0 ..< n]"

text \<open>A buffer of bytes as an array of integers of \<open>n\<close> bytes, and back.\<close>

fun le_words :: "nat \<Rightarrow> nat \<Rightarrow> u8 list \<Rightarrow> 'a::len word list" where
  "le_words n 0 bytes = []"
| "le_words n (Suc count) bytes = le_word (take n bytes) # le_words n count (drop n bytes)"

definition le_buffer :: "nat \<Rightarrow> 'a::len word list \<Rightarrow> u8 list" where
  "le_buffer n ws = concat (map (le_bytes n) ws)"

subsection \<open>The checks of the code around a loop\<close>

definition trace_contains_raw_instruction :: "instr list \<Rightarrow> u64 list \<Rightarrow> u64 \<Rightarrow> u32 \<Rightarrow> bool" where
  "trace_contains_raw_instruction is pcs pc raw =
     list_ex (\<lambda>(p, i). p = pc \<and> i_raw i = raw) (zip pcs is)"

text \<open>The words of the code at an address, read through the memory of the guest.\<close>

fun code_words_are :: "'m callbacks \<Rightarrow> u64 \<Rightarrow> u32 list \<Rightarrow> 'm \<Rightarrow> bool \<times> 'm" where
  "code_words_are k pc [] m = (True, m)"
| "code_words_are k pc (w # ws) m =
    (case avz_native_dispatch_memory_read (fast_context k) m pc 4 of
       (None, m) \<Rightarrow> (False, m)
     | (Some code_word, m) \<Rightarrow>
         if lo32 code_word \<noteq> w then (False, m) else code_words_are k (pc + 4) ws m)"

abbreviation validated :: "u8 option \<Rightarrow> bool" where
  "validated hint \<equiv> (case hint of None \<Rightarrow> False | Some h \<Rightarrow> h \<noteq> 0)"

text \<open>A hint is set after the checks it stands for; a null hint stays null.\<close>

definition remember :: "u8 \<Rightarrow> u8 option \<Rightarrow> u8 option" where
  "remember v hint = map_option (\<lambda>_. v) hint"

subsection \<open>The solid fill with vector stores\<close>

definition solid_fill_shape :: "instr list \<Rightarrow> u64 \<Rightarrow> bool" where
  "solid_fill_shape is base_pc =
    (let store = is ! 0; subtract = is ! 1; branch = is ! 2;
         branch_pc = base_pc + 8;
         register_count = unat (i_condition store)
     in i_kind store = AVZ_NATIVE_OP_SIMD_LOAD_STORE_MULTIPLE_STRUCTURE \<and>
        i_flags store AND (1 OR 16 OR 32) = 0 \<and> i_flags store AND 8 \<noteq> 0 \<and> i_width store = 8 \<and>
        1 \<le> register_count \<and> register_count \<le> 4 \<and>
        i_kind subtract = AVZ_NATIVE_OP_ADD_SUB_IMMEDIATE \<and> i_flags subtract AND 3 = 3 \<and>
        i_rd subtract = i_rn subtract \<and> i_bits subtract = 64 \<and> 0 < sint (i_immediate subtract) \<and>
        i_rd subtract \<noteq> i_rn store \<and>
        i_kind branch = AVZ_NATIVE_OP_BCOND \<and> branch_pc + i_immediate branch = base_pc)"

definition try_execute_simd_solid_fill_loop ::
  "'m callbacks \<Rightarrow> instr list \<Rightarrow> u64 \<Rightarrow> nat \<Rightarrow> cpu \<Rightarrow> 'm \<Rightarrow> 'm fast_step" where
  "try_execute_simd_solid_fill_loop k is base_pc remaining_steps cpu m =
    (case k_fill_memory k of
       None \<Rightarrow> (None, cpu, m)
     | Some fill_memory \<Rightarrow>
    if remaining_steps < 3 \<or> c_pc cpu \<noteq> base_pc \<or> length is \<noteq> 3 \<or> \<not> solid_fill_shape is base_pc
    then (None, cpu, m)
    else
      let store = is ! 0; subtract = is ! 1; branch = is ! 2;
          register_count = unat (i_condition store);
          pattern = v_low (c_v cpu (reg_t store))
      in if \<exists>index \<in> set [0 ..< register_count]. v_low (c_v cpu ((reg_t store + index) mod 32)) \<noteq> pattern
         then (None, cpu, m)
      else
        let (iterations, final_counter, final_pstate, fell_through) =
              fill_iterations (i_immediate subtract) (i_condition branch) (remaining_steps div length is) 0
                (read_register cpu (reg_n subtract)) (c_pstate cpu);
            bytes_per_iteration = ucast (i_width store) * word_of_nat register_count :: u64
        in if iterations = 0 \<or> int iterations > (2 ^ 64 - 1) div uint bytes_per_iteration then (None, cpu, m)
        else
          let byte_count = word_of_nat iterations * bytes_per_iteration;
              virtual_start = read_base_register cpu (reg_n store)
          in case fill_memory m virtual_start byte_count pattern 8 of
               (False, m) \<Rightarrow> (None, cpu, m)
             | (True, m) \<Rightarrow>
                 let cpu = clear_exclusive_reservation cpu;
                     cpu = write_base_register (reg_n store) (virtual_start + byte_count) cpu;
                     cpu = write_register (reg_d subtract) final_counter cpu
                 in (Some (iterations * length is),
                     cpu\<lparr>c_pstate := final_pstate,
                         c_pc := if fell_through then base_pc + 12 else base_pc\<rparr>, m))"

subsection \<open>The memory compare\<close>

text \<open>The compare needs the \<open>CBZ X2\<close> before its body, in the trace or in the guest's memory.\<close>

definition memcmp_context ::
  "'m callbacks \<Rightarrow> instr list \<Rightarrow> u64 list option \<Rightarrow> nat \<Rightarrow> u64 \<Rightarrow> 'm \<Rightarrow> bool \<times> 'm" where
  "memcmp_context k is pcs index base_pc m =
    (case pcs of
       Some pcs \<Rightarrow>
         (\<not> (index = 0 \<or> index > length is \<or> length is - index < length avz_musl_memcmp_body \<or>
             pcs ! (index - 1) \<noteq> base_pc - 4 \<or> i_raw (is ! (index - 1)) \<noteq> 0xb4000142) \<and>
          (\<forall>j \<in> set [0 ..< length avz_musl_memcmp_body].
             pcs ! (index + j) = base_pc + word_of_nat j * 4 \<and>
             i_raw (is ! (index + j)) = avz_musl_memcmp_body ! j), m)
     | None \<Rightarrow>
         (case avz_native_dispatch_memory_read (fast_context k) m (base_pc - 4) 4 of
            (None, m) \<Rightarrow> (False, m)
          | (Some code_word, m) \<Rightarrow>
              (lo32 code_word = 0xb4000142 \<and> avz_native_is_musl_memcmp_body_shape is, m)))"

text \<open>
  The bytes compared up to the first difference: how many, the last pair, and whether it
  differs. Equal buffers are found with one \<open>memcmp\<close>.
\<close>

fun mismatch_loop :: "u8 list \<Rightarrow> u8 list \<Rightarrow> nat \<Rightarrow> u8 \<Rightarrow> u8 \<Rightarrow> nat \<times> u8 \<times> u8 \<times> bool" where
  "mismatch_loop (a # as) (b # bs) completed left_byte right_byte =
    (if a \<noteq> b then (completed + 1, a, b, True) else mismatch_loop as bs (completed + 1) a b)"
| "mismatch_loop _ _ completed left_byte right_byte = (completed, left_byte, right_byte, False)"

definition compare_buffers :: "u8 list \<Rightarrow> u8 list \<Rightarrow> nat \<times> u8 \<times> u8 \<times> bool" where
  "compare_buffers left right =
    (if left = right then (length left, last left, last right, False) else mismatch_loop left right 0 0 0)"

text \<open>The flags of the 32-bit compare of two bytes, \<open>CMP W3, W4\<close>.\<close>

definition byte_compare_flags :: "u8 \<Rightarrow> u8 \<Rightarrow> u64" where
  "byte_compare_flags left_byte right_byte =
     fst (add_with_carry_nzcv (ucast left_byte) (NOT (ucast right_byte) AND 0xffffffff) True 32)"

definition try_execute_musl_memcmp_loop ::
  "'m callbacks \<Rightarrow> instr list \<Rightarrow> u64 list option \<Rightarrow> nat \<Rightarrow> u8 option \<Rightarrow> u64 \<Rightarrow> nat \<Rightarrow> cpu \<Rightarrow> 'm \<Rightarrow> 'm hinted_step" where
  "try_execute_musl_memcmp_loop k is pcs index hint base_pc remaining_steps cpu m =
    (if c_pc cpu \<noteq> base_pc \<or> remaining_steps < 7 \<or> \<not> k_fast_read_memory k then (hint, None, cpu, m)
     else
       let (in_context, m) =
             if validated hint then (True, m) else memcmp_context k is pcs index base_pc m
       in if \<not> in_context then (hint, None, cpu, m)
       else
         let hint = (if validated hint then hint else remember 1 hint);
             left_address = read_register cpu 0;
             right_address = read_register cpu 1;
             remaining = read_register cpu 2;
             iterations = min (min (min (min ((remaining_steps + 1) div 8) (unat remaining)) 64)
                            (page_bytes left_address)) (page_bytes right_address)
         in if iterations = 0 then (hint, None, cpu, m)
         else
           case f_read_bytes (k_fast k) m left_address iterations of
             (None, m) \<Rightarrow> (hint, None, cpu, m)
           | (Some left, m) \<Rightarrow>
               (case f_read_bytes (k_fast k) m right_address iterations of
                  (None, m) \<Rightarrow> (hint, None, cpu, m)
                | (Some right, m) \<Rightarrow>
                    let (completed, left_byte, right_byte, mismatch) = compare_buffers left right;
                        cpu = write_register 0 (left_address + word_of_nat completed) cpu;
                        cpu = write_register 1 (right_address + word_of_nat completed) cpu;
                        cpu = write_register 2 (remaining - word_of_nat completed) cpu;
                        cpu = write_register 3 (ucast left_byte) cpu;
                        cpu = write_register 4 (ucast right_byte) cpu;
                        cpu = set_nzcv (byte_compare_flags left_byte right_byte) cpu
                    in (hint, Some (completed * 7 + (completed - 1)),
                        cpu\<lparr>c_pc := if mismatch then base_pc + 0x1c else base_pc - 4\<rparr>, m)))"

subsection \<open>The walk of a GNU hash chain\<close>

text \<open>The words at signed 16-bit offsets from the head of the loop.\<close>

definition gnu_hash_words :: "(u16 \<times> u32) list" where
  "gnu_hash_words = [(0x00, 0xb94000a6), (0x04, 0x320000c0), (0x08, 0x6b00015f), (0x0c, 0x54ffff41),
     (0xfff4, 0x37000346), (0xfff8, 0x910010a5), (0xfffc, 0x11000508)]"

definition trace_contains_all :: "instr list \<Rightarrow> u64 list \<Rightarrow> u64 \<Rightarrow> (u16 \<times> u32) list \<Rightarrow> bool" where
  "trace_contains_all is pcs base_pc expected =
     list_all (\<lambda>(offset, raw). trace_contains_raw_instruction is pcs (base_pc + scast offset) raw) expected"

datatype chain_exit = Chain_Matched | Chain_Ended | Chain_Continues

record chain_walk =
  w_address :: u64
  w_index :: u32
  w_hash :: u32
  w_candidate :: u32
  w_flags :: u64
  w_steps :: nat

fun hash_chain_loop :: "u32 \<Rightarrow> u32 list \<Rightarrow> chain_walk \<Rightarrow> chain_exit \<times> chain_walk" where
  "hash_chain_loop target [] s = (Chain_Continues, s)"
| "hash_chain_loop target (chain_hash # entries) s =
    (let candidate = chain_hash OR 1;
         flags = fst (add_with_carry_nzcv (zext64 target) (NOT (zext64 candidate) AND 0xffffffff) True 32);
         s = s\<lparr>w_hash := chain_hash, w_candidate := candidate, w_flags := flags\<rparr>
     in if target = candidate then (Chain_Matched, s\<lparr>w_steps := w_steps s + 4\<rparr>)
        else if chain_hash AND 1 \<noteq> 0 then (Chain_Ended, s\<lparr>w_steps := w_steps s + 5\<rparr>)
        else hash_chain_loop target entries
               (s\<lparr>w_address := w_address s + 4, w_index := w_index s + 1, w_steps := w_steps s + 7\<rparr>))"

definition try_execute_musl_gnu_hash_chain_loop ::
  "'m callbacks \<Rightarrow> instr list \<Rightarrow> u64 list option \<Rightarrow> u8 option \<Rightarrow> u64 \<Rightarrow> nat \<Rightarrow> cpu \<Rightarrow> 'm \<Rightarrow> 'm hinted_step" where
  "try_execute_musl_gnu_hash_chain_loop k is pcs hint base_pc remaining_steps cpu m =
    (case pcs of
       None \<Rightarrow> (hint, None, cpu, m)
     | Some pcs \<Rightarrow>
    if remaining_steps < 7 \<or> \<not> k_fast_read_memory k \<or> c_pc cpu \<noteq> base_pc then (hint, None, cpu, m)
    else if \<not> validated hint \<and> \<not> trace_contains_all is pcs base_pc gnu_hash_words then (hint, None, cpu, m)
    else
      let hint = (if validated hint then hint else remember 1 hint);
          chain_address = read_base_register cpu 5;
          entry_count = min (min (remaining_steps div 7) 16) (page_bytes chain_address div 4)
      in if entry_count = 0 then (hint, None, cpu, m)
      else
        case f_read_bytes (k_fast k) m chain_address (entry_count * 4) of
          (None, m) \<Rightarrow> (hint, None, cpu, m)
        | (Some chain, m) \<Rightarrow>
            let (exit_kind, s) = hash_chain_loop (lo32 (read_register cpu 10)) (le_words 4 entry_count chain)
                  \<lparr>w_address = chain_address, w_index = lo32 (read_register cpu 8), w_hash = 0,
                   w_candidate = 0, w_flags = c_pstate cpu, w_steps = 0\<rparr>;
                cpu = write_register 0 (zext64 (w_candidate s)) cpu;
                cpu = write_register 5 (w_address s) cpu;
                cpu = write_register 6 (zext64 (w_hash s)) cpu;
                cpu = write_register 8 (zext64 (w_index s)) cpu;
                cpu = set_nzcv (w_flags s) cpu
            in (hint, Some (w_steps s),
                cpu\<lparr>c_pc := (case exit_kind of Chain_Matched \<Rightarrow> base_pc + 0x10
                             | Chain_Ended \<Rightarrow> base_pc + 0x5c | Chain_Continues \<Rightarrow> base_pc)\<rparr>, m))"

subsection \<open>The compare of symbol names\<close>

text \<open>The two loops of musl: the words, the registers, and where a difference leads.\<close>

record symbol_compare =
  y_words :: "u32 list"
  y_left_base :: nat
  y_right_base :: nat
  y_left_value :: nat
  y_right_value :: nat
  y_mismatch_offset :: u64

definition gnu_symbol_compare :: symbol_compare where
  "gnu_symbol_compare = \<lparr>y_words = [0x38616864, 0x38616927, 0x6b07009f, 0x54fffd41, 0x91000421, 0x35ffff64],
     y_left_base = 3, y_right_base = 9, y_left_value = 4, y_right_value = 7, y_mismatch_offset = - 0x4c\<rparr>"

definition sysv_symbol_compare :: symbol_compare where
  "sysv_symbol_compare = \<lparr>y_words = [0x38616803, 0x386168c4, 0x6b04007f, 0x54fffe21, 0x91000421, 0x35ffff63],
     y_left_base = 0, y_right_base = 6, y_left_value = 3, y_right_value = 4, y_mismatch_offset = - 0x30\<rparr>"

definition symbol_compare_variant ::
  "instr list \<Rightarrow> u64 list \<Rightarrow> u8 option \<Rightarrow> u64 \<Rightarrow> (symbol_compare \<times> u8) option" where
  "symbol_compare_variant is pcs hint base_pc =
    (let variant = (case hint of None \<Rightarrow> 0 | Some h \<Rightarrow> h);
         starts = (\<lambda>y. trace_contains_raw_instruction is pcs base_pc (y_words y ! 0))
     in if variant = 1 \<or> variant = 0 \<and> starts gnu_symbol_compare then Some (gnu_symbol_compare, 1)
        else if variant = 2 \<or> variant = 0 \<and> starts sysv_symbol_compare then Some (sysv_symbol_compare, 2)
        else None)"

text \<open>
  The bytes compared: how many, how many were equal, the last pair, whether it differs and
  whether it ends both strings.
\<close>

fun symbol_loop :: "u8 list \<Rightarrow> u8 list \<Rightarrow> nat \<Rightarrow> nat \<Rightarrow> u8 \<Rightarrow> u8 \<Rightarrow> nat \<times> nat \<times> u8 \<times> u8 \<times> bool \<times> bool" where
  "symbol_loop (a # as) (b # bs) completed equal_bytes left_byte right_byte =
    (if a \<noteq> b then (completed + 1, equal_bytes, a, b, True, False)
     else if a = 0 then (completed + 1, equal_bytes + 1, a, b, False, True)
     else symbol_loop as bs (completed + 1) (equal_bytes + 1) a b)"
| "symbol_loop _ _ completed equal_bytes left_byte right_byte =
    (completed, equal_bytes, left_byte, right_byte, False, False)"

definition try_execute_musl_symbol_name_compare_loop ::
  "'m callbacks \<Rightarrow> instr list \<Rightarrow> u64 list option \<Rightarrow> u8 option \<Rightarrow> u64 \<Rightarrow> nat \<Rightarrow> cpu \<Rightarrow> 'm \<Rightarrow> 'm hinted_step" where
  "try_execute_musl_symbol_name_compare_loop k is pcs hint base_pc remaining_steps cpu m =
    (case pcs of
       None \<Rightarrow> (hint, None, cpu, m)
     | Some pcs \<Rightarrow>
    if remaining_steps < 6 \<or> \<not> k_fast_read_memory k \<or> c_pc cpu \<noteq> base_pc then (hint, None, cpu, m)
    else
      case symbol_compare_variant is pcs hint base_pc of
        None \<Rightarrow> (hint, None, cpu, m)
      | Some (y, variant) \<Rightarrow>
    if \<not> validated hint \<and> \<not> list_all (\<lambda>j. trace_contains_raw_instruction is pcs
          (base_pc + word_of_nat j * 4) (y_words y ! j)) [0 ..< 6] then (hint, None, cpu, m)
    else
      let hint = (if validated hint then hint else remember variant hint);
          string_index = read_register cpu 1;
          left_base = read_register cpu (y_left_base y);
          right_base = read_register cpu (y_right_base y)
      in if string_index > - 1 - left_base \<or> string_index > - 1 - right_base then (hint, None, cpu, m)
      else
        let left_address = left_base + string_index;
            right_address = right_base + string_index;
            iterations = min (min (min (remaining_steps div 6) 64) (page_bytes left_address))
                           (page_bytes right_address)
        in case f_read_bytes (k_fast k) m left_address iterations of
             (None, m) \<Rightarrow> (hint, None, cpu, m)
           | (Some left, m) \<Rightarrow>
               (case f_read_bytes (k_fast k) m right_address iterations of
                  (None, m) \<Rightarrow> (hint, None, cpu, m)
                | (Some right, m) \<Rightarrow>
                    let (completed, equal_bytes, left_byte, right_byte, mismatch, completed_string) =
                          symbol_loop left right 0 0 0 0;
                        cpu = write_register 1 (string_index + word_of_nat equal_bytes) cpu;
                        cpu = write_register (y_left_value y) (ucast left_byte) cpu;
                        cpu = write_register (y_right_value y) (ucast right_byte) cpu;
                        cpu = set_nzcv (byte_compare_flags left_byte right_byte) cpu
                    in if mismatch then
                         (hint, Some ((completed - 1) * 6 + 4), cpu\<lparr>c_pc := base_pc + y_mismatch_offset y\<rparr>, m)
                       else
                         (hint, Some (completed * 6),
                          cpu\<lparr>c_pc := if completed_string then base_pc + 0x18 else base_pc\<rparr>, m)))"

subsection \<open>The copy loops\<close>

text \<open>
  Both loops of the guest store what the last iteration loaded and load the next part. The fast
  path predicts the number of iterations and then copies them one after the other: a write of
  the pipeline, a read of the next. A failure abandons the fast path, with the writes done.
\<close>

fun copy_pipeline ::
  "'m callbacks \<Rightarrow> nat \<Rightarrow> u64 \<Rightarrow> u64 \<Rightarrow> nat \<Rightarrow> u8 list \<Rightarrow> 'm \<Rightarrow> u8 list option \<times> 'm" where
  "copy_pipeline k bytes source destination 0 pipeline m = (Some pipeline, m)"
| "copy_pipeline k bytes source destination (Suc iterations) pipeline m =
    (case f_write_bytes (k_fast k) m destination pipeline of
       (False, m) \<Rightarrow> (None, m)
     | (True, m) \<Rightarrow>
         (case f_read_bytes (k_fast k) m source bytes of
            (None, m) \<Rightarrow> (None, m)
          | (Some pipeline, m) \<Rightarrow>
              copy_pipeline k bytes (source + word_of_nat bytes) (destination + word_of_nat bytes)
                iterations pipeline m))"

definition musl_memcpy_64_words :: "u32 list" where
  "musl_memcpy_64_words = [0xa9011c66, 0xa9411c26, 0xa9022468, 0xa9422428, 0xa9032c6a, 0xa9432c2a,
     0xa984346c, 0xa9c4342c, 0xf1010042, 0x54fffee8]"

text \<open>The copy loop ends when its \<open>SUBS X2, X2, #64\<close> clears the condition \<open>HI\<close>.\<close>

definition try_execute_musl_memcpy_64_loop ::
  "'m callbacks \<Rightarrow> u8 option \<Rightarrow> u64 \<Rightarrow> nat \<Rightarrow> cpu \<Rightarrow> 'm \<Rightarrow> 'm hinted_step" where
  "try_execute_musl_memcpy_64_loop k hint base_pc remaining_steps cpu m =
    (if c_pc cpu \<noteq> base_pc \<or> remaining_steps < 10 \<or> \<not> k_fast_read_memory k \<or> \<not> k_fast_write_memory k
     then (hint, None, cpu, m)
     else
       let (in_context, m) =
             if validated hint then (True, m) else code_words_are k base_pc musl_memcpy_64_words m
       in if \<not> in_context then (hint, None, cpu, m)
       else
         let hint = (if validated hint then hint else remember 1 hint);
             source_base = read_base_register cpu 1;
             destination_base = read_base_register cpu 3
         in if source_base > - 1 - 16 \<or> destination_base > - 1 - 16 then (hint, None, cpu, m)
         else
           let source_address = source_base + 16;
               destination_address = destination_base + 16;
               bound = min (min (min (remaining_steps div 10) 64) (page_bytes source_address div 64))
                         (page_bytes destination_address div 64)
           in if bound = 0 then (hint, None, cpu, m)
           else
             let (iterations, counter, final_flags, exits_loop) =
                   fill_iterations 64 8 bound 0 (read_register cpu 2) (c_pstate cpu);
                 pipeline = le_buffer 8 (map (\<lambda>j. read_register cpu (6 + j)) [0 ..< 8])
             in case copy_pipeline k 64 source_address destination_address iterations pipeline m of
                  (None, m) \<Rightarrow> (hint, None, cpu, m)
                | (Some pipeline, m) \<Rightarrow>
                    let values = le_words 8 8 pipeline;
                        cpu = clear_exclusive_reservation cpu;
                        cpu = write_base_register 1 (source_base + word_of_nat iterations * 64) cpu;
                        cpu = write_register 2 counter cpu;
                        cpu = write_base_register 3 (destination_base + word_of_nat iterations * 64) cpu;
                        cpu = fold (\<lambda>j. write_register (6 + j) (values ! j)) [0 ..< 8] cpu
                    in (hint, Some (iterations * 10),
                        (set_nzcv final_flags cpu)\<lparr>c_pc := if exits_loop then base_pc + 40 else base_pc\<rparr>, m))"

text \<open>The copy of pixman walks a prefetch pointer along, so its iterations differ in length.\<close>

definition pixman_neon_copy_words :: "u32 list" where
  "pixman_neon_copy_words = [0x0c9f2840, 0x0cdf2880, 0x9100214a, 0xf2400d3f, 0x54000060, 0x9100214a,
     0xd1000529, 0xeb0e015f, 0xd37ef54f, 0xf8af6960, 0x540000cd, 0xcb0e014a, 0xf1004129, 0x5400006d,
     0x8b05096b, 0x3980016f, 0xf1002000, 0x54fffdea]"

record copy_walk =
  z_x0 :: u64
  z_x9 :: u64
  z_x10 :: u64
  z_x11 :: u64
  z_x15 :: u64
  z_flags :: u64
  z_steps :: nat
  z_iterations :: nat

text \<open>
  One predicted iteration: the state after it and its steps, or \<open>None\<close> when the probe of the
  prefetched row fails. \<open>SUBS\<close> of \<open>b\<close> from \<open>a\<close> adds the complement with carry.
\<close>

abbreviation subs64 :: "u64 \<Rightarrow> u64 \<Rightarrow> u64 \<times> u64" where
  "subs64 a b \<equiv> add_with_carry_nzcv a (NOT b) True 64"

definition predict_copy_iteration ::
  "'m callbacks \<Rightarrow> u64 \<Rightarrow> u64 \<Rightarrow> copy_walk \<Rightarrow> 'm \<Rightarrow> (copy_walk \<times> nat) option \<times> 'm" where
  "predict_copy_iteration k x5 x14 s m =
    (let unaligned = (z_x9 s AND 15 \<noteq> 0);
         x10 = (if unaligned then z_x10 s + 8 + 8 else z_x10 s + 8);
         x9 = (if unaligned then z_x9 s - 1 else z_x9 s);
         steps = (if unaligned then 5 + 2 else 5) + 4;
         x15 = shl x10 2;
         (compare_flags, _) = subs64 x10 x14;
         finish = (\<lambda>x9 x10 x11 x15 steps.
           let (x0_flags, x0) = subs64 (z_x0 s) 8
           in (s\<lparr>z_x0 := x0, z_x9 := x9, z_x10 := x10, z_x11 := x11, z_x15 := x15, z_flags := x0_flags\<rparr>,
               steps + 2))
     in if condition_holds 13 compare_flags then (Some (finish x9 x10 (z_x11 s) x15 steps), m)
        else
          let x10 = x10 - x14;
              (x9_flags, x9) = subs64 x9 16;
              steps = steps + 3
          in if condition_holds 13 x9_flags then (Some (finish x9 x10 (z_x11 s) x15 steps), m)
             else
               let x11 = z_x11 s + shl x5 2
               in case avz_native_dispatch_memory_read (fast_context k) m x11 1 of
                    (None, m) \<Rightarrow> (None, m)
                  | (Some probe_value, m) \<Rightarrow>
                      (Some (finish x9 x10 x11 (scast (ucast probe_value :: u8)) (steps + 2)), m))"

text \<open>The prediction stops at the limit, at the step budget, or where the loop exits (\<open>True\<close>).\<close>

fun predict_copy ::
  "'m callbacks \<Rightarrow> u64 \<Rightarrow> u64 \<Rightarrow> nat \<Rightarrow> nat \<Rightarrow> copy_walk \<Rightarrow> 'm \<Rightarrow> (copy_walk \<times> bool) option \<times> 'm" where
  "predict_copy k x5 x14 remaining_steps 0 s m = (Some (s, False), m)"
| "predict_copy k x5 x14 remaining_steps (Suc left) s m =
    (case predict_copy_iteration k x5 x14 s m of
       (None, m) \<Rightarrow> (None, m)
     | (Some (next_s, iteration_steps), m) \<Rightarrow>
         if iteration_steps > remaining_steps - z_steps s then (Some (s, False), m)
         else
           let s = next_s\<lparr>z_steps := z_steps s + iteration_steps, z_iterations := z_iterations s + 1\<rparr>
           in if \<not> condition_holds 10 (z_flags s) then (Some (s, True), m)
              else predict_copy k x5 x14 remaining_steps left s m)"

definition try_execute_pixman_neon_copy_loop ::
  "'m callbacks \<Rightarrow> u8 option \<Rightarrow> u64 \<Rightarrow> nat \<Rightarrow> cpu \<Rightarrow> 'm \<Rightarrow> 'm hinted_step" where
  "try_execute_pixman_neon_copy_loop k hint base_pc remaining_steps cpu m =
    (if c_pc cpu \<noteq> base_pc \<or> remaining_steps < 11 \<or> \<not> k_fast_read_memory k \<or> \<not> k_fast_write_memory k
     then (hint, None, cpu, m)
     else
       let (in_context, m) =
             if validated hint then (True, m) else code_words_are k base_pc pixman_neon_copy_words m
       in if \<not> in_context then (hint, None, cpu, m)
       else
         let hint = (if validated hint then hint else remember 1 hint);
             source_address = read_base_register cpu 4;
             destination_address = read_base_register cpu 2;
             max_iterations = min (min (min (remaining_steps div 11) 1024) (page_bytes source_address div 32))
                                (page_bytes destination_address div 32)
         in if max_iterations = 0 then (hint, None, cpu, m)
         else
           case predict_copy k (read_register cpu 5) (read_register cpu 14) remaining_steps max_iterations
                  \<lparr>z_x0 = read_register cpu 0, z_x9 = read_register cpu 9, z_x10 = read_register cpu 10,
                   z_x11 = read_register cpu 11, z_x15 = read_register cpu 15, z_flags = c_pstate cpu,
                   z_steps = 0, z_iterations = 0\<rparr> m of
             (None, m) \<Rightarrow> (hint, None, cpu, m)
           | (Some (s, exits_loop), m) \<Rightarrow>
               let byte_count = word_of_nat (z_iterations s) * 32 :: u64
               in if z_iterations s = 0 \<or> source_address > - 1 - byte_count \<or>
                     destination_address > - 1 - byte_count then (hint, None, cpu, m)
               else
                 case copy_pipeline k 32 source_address destination_address (z_iterations s)
                        (le_buffer 8 (map (\<lambda>j. v_low (c_v cpu j)) [0 ..< 4])) m of
                   (None, m) \<Rightarrow> (hint, None, cpu, m)
                 | (Some pipeline, m) \<Rightarrow>
                     let vectors = le_words 8 4 pipeline;
                         cpu = clear_exclusive_reservation cpu;
                         cpu = write_base_register 2 (destination_address + byte_count) cpu;
                         cpu = write_base_register 4 (source_address + byte_count) cpu;
                         cpu = write_register 0 (z_x0 s) cpu;
                         cpu = write_register 9 (z_x9 s) cpu;
                         cpu = write_register 10 (z_x10 s) cpu;
                         cpu = write_register 11 (z_x11 s) cpu;
                         cpu = write_register 15 (z_x15 s) cpu;
                         cpu = fold (\<lambda>j. set_v j \<lparr>v_low = vectors ! j, v_high = 0\<rparr>) [0 ..< 4] cpu
                     in (hint, Some (z_steps s),
                         (set_nzcv (z_flags s) cpu)\<lparr>c_pc := if exits_loop then base_pc + 0x48 else base_pc\<rparr>, m))"

subsection \<open>The blend loops\<close>

text \<open>Without NEON intrinsics both parts return 0, and so does the loop over them.\<close>

definition try_execute_pixman_source_over_prefix :: "u8 option \<Rightarrow> cpu \<Rightarrow> 'm \<Rightarrow> 'm hinted_step" where
  "try_execute_pixman_source_over_prefix hint cpu m = (hint, None, cpu, m)"

definition try_execute_pixman_source_over_tail :: "u8 option \<Rightarrow> cpu \<Rightarrow> 'm \<Rightarrow> 'm hinted_step" where
  "try_execute_pixman_source_over_tail hint cpu m = (hint, None, cpu, m)"

text \<open>At most 256 iterations of a prefix and a tail, while the loop returns to its head.\<close>

fun source_over_iterations ::
  "nat \<Rightarrow> u64 \<Rightarrow> nat \<Rightarrow> nat \<Rightarrow> u8 option \<Rightarrow> u8 option \<Rightarrow> cpu \<Rightarrow> 'm \<Rightarrow> nat \<times> u8 option \<times> cpu \<times> 'm" where
  "source_over_iterations 0 loop_pc remaining_steps total_steps hint tail_hint cpu m = (total_steps, hint, cpu, m)"
| "source_over_iterations (Suc left) loop_pc remaining_steps total_steps hint tail_hint cpu m =
    (if total_steps \<ge> remaining_steps \<or> c_pc cpu \<noteq> loop_pc then (total_steps, hint, cpu, m)
     else
       case try_execute_pixman_source_over_prefix hint cpu m of
         (hint, None, cpu, m) \<Rightarrow> (total_steps, hint, cpu, m)
       | (hint, Some prefix_steps, cpu, m) \<Rightarrow>
           (case try_execute_pixman_source_over_tail tail_hint cpu m of
              (tail_hint, None, cpu, m) \<Rightarrow> (total_steps + prefix_steps, hint, cpu, m)
            | (tail_hint, Some tail_steps, cpu, m) \<Rightarrow>
                source_over_iterations left loop_pc remaining_steps (total_steps + prefix_steps + tail_steps)
                  hint tail_hint cpu m))"

definition try_execute_pixman_source_over_loop ::
  "u8 option \<Rightarrow> nat \<Rightarrow> cpu \<Rightarrow> 'm \<Rightarrow> 'm hinted_step" where
  "try_execute_pixman_source_over_loop hint remaining_steps cpu m =
    (let (total_steps, hint, cpu, m) = source_over_iterations 256 (c_pc cpu) remaining_steps 0 hint (Some 0) cpu m
     in (hint, if total_steps = 0 then None else Some total_steps, cpu, m))"

lemma source_over_loop_portable [simp]:
  "try_execute_pixman_source_over_loop hint remaining_steps cpu m = (hint, None, cpu, m)"
  by (simp add: try_execute_pixman_source_over_loop_def numeral_eq_Suc try_execute_pixman_source_over_prefix_def)

end
