(* ===== verification/ThreadedHandlers.thy ===== *)
theory ThreadedHandlers
  imports SemanticTraces ExecVectorMemory
begin

text \<open>
  The handlers of the threaded engine, \<open>op_nop\<close> to \<open>op_simd_load_store_single_structure_lane\<close>
  in \<open>avz_native_run_threaded_decoded_block_cpu_mapped_span\<close>: its own code for the frequent
  kinds of instruction, in the build without NEON intrinsics. What a handler jumps to at its
  end is a value of type \<open>handler_outcome\<close>.
\<close>

text \<open>
  \<open>Step\<close> is \<open>AVZ_THREADED_STEP\<close>, \<open>Callback_Step\<close> the label \<open>callback_step\<close>, \<open>Generic\<close> the label
  \<open>op_generic\<close>, \<open>Finish\<close> is \<open>AVZ_THREADED_FINISH\<close>, and \<open>Step_Finish\<close> counts a step before it.
\<close>

datatype handler_outcome = Step | Callback_Step | Generic | Finish block_status | Step_Finish block_status

type_synonym 'm handled = "handler_outcome \<times> cpu \<times> 'm"

text \<open>\<open>cpu.pc += 4\<close> before the two ways to continue, and the two ways to give up.\<close>

definition linear_step :: "cpu \<Rightarrow> 'm \<Rightarrow> 'm handled" where
  "linear_step cpu m = (Step, cpu\<lparr>c_pc := c_pc cpu + 4\<rparr>, m)"

definition linear_callback_step :: "cpu \<Rightarrow> 'm \<Rightarrow> 'm handled" where
  "linear_callback_step cpu m = (Callback_Step, cpu\<lparr>c_pc := c_pc cpu + 4\<rparr>, m)"

definition refuse :: "instr \<Rightarrow> cpu \<Rightarrow> 'm \<Rightarrow> 'm handled" where
  "refuse i cpu m = (Finish (UNSUPPORTED (i_raw i)), cpu, m)"

definition leave :: "cpu \<Rightarrow> 'm \<Rightarrow> 'm handled" where
  "leave cpu m = (Finish OUTSIDE_BLOCK, cpu, m)"

subsection \<open>Control flow\<close>

definition op_nop :: "instr \<Rightarrow> cpu \<Rightarrow> 'm \<Rightarrow> 'm handled" where
  "op_nop i cpu m = linear_step cpu m"

definition op_halt :: "instr \<Rightarrow> cpu \<Rightarrow> 'm \<Rightarrow> 'm handled" where
  "op_halt i cpu m = (Step_Finish HALTED, cpu\<lparr>c_pc := c_pc cpu + 4, c_halted := 1\<rparr>, m)"

definition op_adr :: "instr \<Rightarrow> cpu \<Rightarrow> 'm \<Rightarrow> 'm handled" where
  "op_adr i cpu m =
    (let current_pc = c_pc cpu;
         base = (if i_flags i AND 1 \<noteq> 0 then current_pc AND 0xfffffffffffff000 else current_pc)
     in (Step, (write_register (reg_d i) (add_signed_offset base (i_immediate i)) cpu)\<lparr>c_pc := current_pc + 4\<rparr>, m))"

definition op_cbz :: "instr \<Rightarrow> cpu \<Rightarrow> 'm \<Rightarrow> 'm handled" where
  "op_cbz i cpu m =
    (let current_pc = c_pc cpu;
         v = (if i_bits i = 64 then read_register cpu (reg_t i) else read_register cpu (reg_t i) AND 0xffffffff);
         branch_non_zero = (i_flags i AND 1 \<noteq> 0)
     in (Step, cpu\<lparr>c_pc := if (v \<noteq> 0) = branch_non_zero then add_signed_offset current_pc (i_immediate i)
                           else current_pc + 4\<rparr>, m))"

definition op_tbz :: "instr \<Rightarrow> cpu \<Rightarrow> 'm \<Rightarrow> 'm handled" where
  "op_tbz i cpu m =
    (let current_pc = c_pc cpu;
         bit_set = (shr (read_register cpu (reg_t i)) (unat (i_shift_amount i)) AND 1 \<noteq> 0);
         branch_non_zero = (i_flags i AND 1 \<noteq> 0)
     in (Step, cpu\<lparr>c_pc := if bit_set = branch_non_zero then add_signed_offset current_pc (i_immediate i)
                           else current_pc + 4\<rparr>, m))"

definition op_bcond :: "instr \<Rightarrow> cpu \<Rightarrow> 'm \<Rightarrow> 'm handled" where
  "op_bcond i cpu m =
    (let current_pc = c_pc cpu
     in (Step, cpu\<lparr>c_pc := if condition_holds (i_condition i) (c_pstate cpu)
                           then add_signed_offset current_pc (i_immediate i) else current_pc + 4\<rparr>, m))"

definition op_branch :: "instr \<Rightarrow> cpu \<Rightarrow> 'm \<Rightarrow> 'm handled" where
  "op_branch i cpu m =
    (let current_pc = c_pc cpu;
         cpu = (if i_flags i AND 1 \<noteq> 0 then set_x 30 (current_pc + 4) cpu else cpu)
     in (Step, cpu\<lparr>c_pc := add_signed_offset current_pc (i_immediate i)\<rparr>, m))"

definition op_register_branch :: "instr \<Rightarrow> cpu \<Rightarrow> 'm \<Rightarrow> 'm handled" where
  "op_register_branch i cpu m =
    (let target = read_register cpu (reg_n i);
         cpu = (if i_flags i AND 1 \<noteq> 0 then set_x 30 (c_pc cpu + 4) cpu else cpu)
     in (Step, cpu\<lparr>c_pc := target\<rparr>, m))"

subsection \<open>Addition and subtraction\<close>

text \<open>
  The immediate form computes the flags of both widths without the carry chain: from the signs
  of the operands and the result, and by comparing.
\<close>

definition direct_flags :: "bool \<Rightarrow> u64 \<Rightarrow> u64 \<Rightarrow> u64 \<Rightarrow> nat \<Rightarrow> u64" where
  "direct_flags subtract lhs rhs v bits =
    (let sign = shl 1 (bits - 1);
         overflow = (lhs XOR v) AND (if subtract then lhs XOR rhs else NOT (lhs XOR rhs))
     in (if v AND sign \<noteq> 0 then 0x80000000 else 0) OR
        (if v = 0 then 0x40000000 else 0) OR
        (if (if subtract then lhs \<ge> rhs else v < lhs) then 0x20000000 else 0) OR
        (if overflow AND sign \<noteq> 0 then 0x10000000 else 0))"

definition op_add_sub_immediate :: "instr \<Rightarrow> cpu \<Rightarrow> 'm \<Rightarrow> 'm handled" where
  "op_add_sub_immediate i cpu m =
    (let bits = unat (i_bits i);
         subtract = (i_flags i AND 1 \<noteq> 0);
         set_flags = (i_flags i AND 2 \<noteq> 0);
         lhs = masked_operand (read_base_register cpu (reg_n i)) bits;
         rhs = masked_operand (i_immediate i) bits;
         (flags, v) =
           if bits = 32 \<or> bits = 64 then
             (let v = masked_operand (if subtract then lhs - rhs else lhs + rhs) bits
              in (if set_flags then direct_flags subtract lhs rhs v bits else 0, v))
           else
             add_with_carry_nzcv lhs (if subtract then NOT rhs AND mask_for_bits bits else rhs) subtract bits
     in linear_step
          (if set_flags then write_register (reg_d i) v (set_nzcv flags cpu)
           else write_base_register (reg_d i) v cpu) m)"

definition op_move_wide :: "instr \<Rightarrow> cpu \<Rightarrow> 'm \<Rightarrow> 'm handled" where
  "op_move_wide i cpu m =
    (let msk = mask_for_bits (unat (i_bits i));
         imm = i_immediate i;
         field_mask = shl 0xffff (unat (i_shift_amount i)) AND msk
     in if i_flags i = 0 then linear_step (write_register (reg_d i) (NOT imm AND msk) cpu) m
        else if i_flags i = 2 then linear_step (write_register (reg_d i) (imm AND msk) cpu) m
        else if i_flags i = 3 then
          linear_step (write_register (reg_d i)
            (((read_register cpu (reg_d i) AND NOT field_mask) OR (imm AND field_mask)) AND msk) cpu) m
        else refuse i cpu m)"

definition op_add_sub_shifted_register :: "instr \<Rightarrow> cpu \<Rightarrow> 'm \<Rightarrow> 'm handled" where
  "op_add_sub_shifted_register i cpu m =
    (let bits = unat (i_bits i);
         msk = mask_for_bits bits;
         amount = unat (i_shift_amount i);
         lhs = masked_operand (read_register cpu (reg_n i)) bits;
         rhs = masked_operand (read_register cpu (reg_m i)) bits
     in if i_shift_type i > 2 then refuse i cpu m
        else
          let rhs = (if i_shift_type i = 0 then shl rhs amount AND msk
                     else if i_shift_type i = 1 then shr rhs amount
                     else if amount > 0 then
                       (if bits = 64 then sar rhs amount else sext64 (sar (lo32 rhs) amount)) AND msk
                     else rhs AND msk);
              subtract = (i_flags i AND 1 \<noteq> 0);
              set_flags = (i_flags i AND 2 \<noteq> 0);
              (flags, v) =
                if set_flags then
                  add_with_carry_nzcv lhs (if subtract then NOT rhs AND msk else rhs) subtract bits
                else (0, (if subtract then lhs - rhs else lhs + rhs) AND msk);
              cpu = (if set_flags then set_nzcv flags cpu else cpu)
          in linear_step (write_register (reg_d i) v cpu) m)"

definition op_add_sub_extended_register :: "instr \<Rightarrow> cpu \<Rightarrow> 'm \<Rightarrow> 'm handled" where
  "op_add_sub_extended_register i cpu m =
    (let bits = unat (i_bits i);
         lhs = masked_operand (read_base_register cpu (reg_n i)) bits;
         rhs = masked_operand (shl (extended_register_value (read_register cpu (reg_m i)) (i_condition i))
                 (unat (i_shift_amount i))) bits;
         subtract = (i_flags i AND 1 \<noteq> 0);
         (flags, v) = add_with_carry_nzcv lhs (if subtract then NOT rhs AND mask_for_bits bits else rhs) subtract bits
     in linear_step
          (if i_flags i AND 2 \<noteq> 0 then write_register (reg_d i) v (set_nzcv flags cpu)
           else write_base_register (reg_d i) v cpu) m)"

definition op_add_sub_carry :: "instr \<Rightarrow> cpu \<Rightarrow> 'm \<Rightarrow> 'm handled" where
  "op_add_sub_carry i cpu m =
    (let bits = unat (i_bits i);
         lhs = masked_operand (read_register cpu (reg_n i)) bits;
         rhs = masked_operand (read_register cpu (reg_m i)) bits;
         carry_in = (c_pstate cpu AND 0x20000000 \<noteq> 0);
         rhs = (if i_flags i AND 1 \<noteq> 0 then NOT rhs AND mask_for_bits bits else rhs);
         (flags, v) = add_with_carry_nzcv lhs rhs carry_in bits;
         cpu = (if i_flags i AND 2 \<noteq> 0 then set_nzcv flags cpu else cpu)
     in linear_step (write_register (reg_d i) v cpu) m)"

text \<open>Both forms of the conditional compare share a handler.\<close>

definition op_conditional_compare :: "instr \<Rightarrow> cpu \<Rightarrow> 'm \<Rightarrow> 'm handled" where
  "op_conditional_compare i cpu m =
    (let bits = unat (i_bits i);
         from_register = (i_kind i = AVZ_NATIVE_OP_CONDITIONAL_COMPARE_REGISTER);
         flags =
           if condition_holds (i_condition i) (c_pstate cpu) then
             (let lhs = masked_operand (read_register cpu (reg_n i)) bits;
                  rhs = (if from_register then masked_operand (read_register cpu (reg_m i)) bits
                         else masked_operand (i_immediate i) bits);
                  subtract = (i_flags i AND 1 \<noteq> 0)
              in fst (add_with_carry_nzcv lhs (if subtract then NOT rhs AND mask_for_bits bits else rhs) subtract bits))
           else if from_register then i_immediate i
           else i_immediate2 i
     in linear_step (set_nzcv flags cpu) m)"

subsection \<open>Logic, bit fields and selection\<close>

definition op_conditional_select :: "instr \<Rightarrow> cpu \<Rightarrow> 'm \<Rightarrow> 'm handled" where
  "op_conditional_select i cpu m =
    (let bits = unat (i_bits i);
         operation = i_flags i AND 3;
         invert_or_negate = (i_flags i AND 4 \<noteq> 0);
         fallback = read_register cpu (reg_m i);
         select = (\<lambda>v. linear_step (write_register (reg_d i) (masked_operand v bits) cpu) m)
     in if condition_holds (i_condition i) (c_pstate cpu) then select (read_register cpu (reg_n i))
        else if operation = 0 then select (if invert_or_negate then NOT fallback else fallback)
        else if operation = 1 then select (if invert_or_negate then 0 - fallback else fallback + 1)
        else refuse i cpu m)"

definition op_bitfield_move :: "instr \<Rightarrow> cpu \<Rightarrow> 'm \<Rightarrow> 'm handled" where
  "op_bitfield_move i cpu m =
    (let bits = unat (i_bits i);
         msk = mask_for_bits bits;
         opcode = i_flags i AND 3;
         immr = i_shift_amount i;
         imms = i_condition i;
         source = masked_operand (read_register cpu (reg_n i)) bits;
         rotated = rotate_right_width source (unat immr) bits;
         write_mask = i_immediate i AND msk;
         top_mask = i_immediate2 i AND msk;
         move = (\<lambda>v. linear_step (write_register (reg_d i) (v AND msk) cpu) m)
     in if opcode = 0 then
          (let sign_bit = shr source (unat (zext32 imms AND (word_of_nat bits - 1))) AND 1
           in move (((if sign_bit \<noteq> 0 then msk else 0) AND NOT top_mask) OR ((rotated AND write_mask) AND top_mask)))
        else if opcode = 1 then
          (let (insert_value, insert_mask) = bitfield_insert source immr imms bits
           in move ((read_register cpu (reg_d i) AND NOT insert_mask AND msk) OR (insert_value AND insert_mask)))
        else if opcode = 2 then move ((rotated AND write_mask) AND top_mask)
        else refuse i cpu m)"

definition op_logical_shifted_register :: "instr \<Rightarrow> cpu \<Rightarrow> 'm \<Rightarrow> 'm handled" where
  "op_logical_shifted_register i cpu m =
    (let bits = unat (i_bits i);
         msk = mask_for_bits bits;
         lhs = masked_operand (read_register cpu (reg_n i)) bits;
         rhs = shifted_register_value (read_register cpu (reg_m i)) (unat (i_shift_type i))
                 (unat (i_shift_amount i)) bits;
         opcode = i_flags i AND 3;
         rhs = (if i_flags i AND 4 \<noteq> 0 then NOT rhs AND msk else rhs);
         v = logical_result opcode lhs rhs;
         cpu = (if opcode = 3 then set_logical_flags v bits cpu else cpu)
     in linear_step (write_register (reg_d i) (v AND msk) cpu) m)"

definition op_logical_immediate :: "instr \<Rightarrow> cpu \<Rightarrow> 'm \<Rightarrow> 'm handled" where
  "op_logical_immediate i cpu m =
    (let bits = unat (i_bits i);
         msk = mask_for_bits bits;
         lhs = masked_operand (read_register cpu (reg_n i)) bits;
         imm = i_immediate i AND msk;
         opcode = i_flags i AND 3;
         v = logical_result opcode lhs imm
     in linear_step
          (if opcode = 3 then write_register (reg_d i) (v AND msk) (set_logical_flags v bits cpu)
           else write_base_register (reg_d i) (v AND msk) cpu) m)"

definition op_data_processing_one_source :: "instr \<Rightarrow> cpu \<Rightarrow> 'm \<Rightarrow> 'm handled" where
  "op_data_processing_one_source i cpu m =
    (let bits = unat (i_bits i);
         source = masked_operand (read_register cpu (reg_n i)) bits;
         put = (\<lambda>v. linear_step (write_register (reg_d i) v cpu) m)
     in if i_flags i = 0 then put (reverse_bits_width source bits)
        else if i_flags i = 1 then put (reverse_bytes_group source 2 bits)
        else if i_flags i = 2 then put (reverse_bytes_group source 4 bits)
        else if i_flags i = 3 then
          (if bits \<noteq> 64 then refuse i cpu m else put (reverse_bytes_group source 8 bits))
        else if i_flags i = 4 then put (word_of_nat (count_leading_zeros_width source bits))
        else if i_flags i = 5 then put (word_of_nat (count_leading_sign_bits_width source bits))
        else refuse i cpu m)"

definition op_data_processing_two_source :: "instr \<Rightarrow> cpu \<Rightarrow> 'm \<Rightarrow> 'm handled" where
  "op_data_processing_two_source i cpu m =
    (let bits = unat (i_bits i);
         source = read_register cpu (reg_n i);
         rhs = read_register cpu (reg_m i);
         amount = rhs AND zext64 (word_of_nat bits - 1);
         put = (\<lambda>v. linear_step (write_register (reg_d i) (masked_operand v bits) cpu) m)
     in if i_flags i = 0x02 then
          (let source = masked_operand source bits; rhs = masked_operand rhs bits
           in put (if rhs = 0 then 0 else source div rhs))
        else if i_flags i = 0x03 then put (signed_divide_width source rhs bits)
        else if i_flags i = 0x08 then put (shifted_register_value source 0 (unat (amount AND 0xff)) bits)
        else if i_flags i = 0x09 then put (shifted_register_value source 1 (unat (amount AND 0xff)) bits)
        else if i_flags i = 0x0a then put (shifted_register_value source 2 (unat (amount AND 0xff)) bits)
        else if i_flags i = 0x0b then put (rotate_right_width source (unat (lo32 amount)) bits)
        else refuse i cpu m)"

subsection \<open>Multiplication\<close>

definition op_multiply_add_subtract :: "instr \<Rightarrow> cpu \<Rightarrow> 'm \<Rightarrow> 'm handled" where
  "op_multiply_add_subtract i cpu m =
    (let bits = unat (i_bits i);
         lhs = masked_operand (read_register cpu (reg_n i)) bits;
         rhs = masked_operand (read_register cpu (reg_m i)) bits;
         addend = masked_operand (read_register cpu (reg_t i)) bits;
         product = (lhs * rhs) AND mask_for_bits bits;
         v = (if i_flags i AND 1 \<noteq> 0 then addend - product else addend + product)
     in linear_step (write_register (reg_d i) (masked_operand v bits) cpu) m)"

definition op_signed_multiply_long_add_subtract :: "instr \<Rightarrow> cpu \<Rightarrow> 'm \<Rightarrow> 'm handled" where
  "op_signed_multiply_long_add_subtract i cpu m =
    (let product = sext64 (lo32 (read_register cpu (reg_n i))) * sext64 (lo32 (read_register cpu (reg_m i)));
         addend = read_register cpu (reg_t i)
     in linear_step (write_register (reg_d i)
          (if i_flags i AND 1 \<noteq> 0 then addend - product else addend + product) cpu) m)"

definition op_unsigned_multiply_long_add_subtract :: "instr \<Rightarrow> cpu \<Rightarrow> 'm \<Rightarrow> 'm handled" where
  "op_unsigned_multiply_long_add_subtract i cpu m =
    (let product = (read_register cpu (reg_n i) AND 0xffffffff) * (read_register cpu (reg_m i) AND 0xffffffff);
         addend = read_register cpu (reg_t i)
     in linear_step (write_register (reg_d i)
          (if i_flags i AND 1 \<noteq> 0 then addend - product else addend + product) cpu) m)"

definition op_signed_multiply_high :: "instr \<Rightarrow> cpu \<Rightarrow> 'm \<Rightarrow> 'm handled" where
  "op_signed_multiply_high i cpu m =
    (let product = sext128 (read_register cpu (reg_n i)) * sext128 (read_register cpu (reg_m i))
     in linear_step (write_register (reg_d i) (lo64 (sar product 64)) cpu) m)"

definition op_unsigned_multiply_high :: "instr \<Rightarrow> cpu \<Rightarrow> 'm \<Rightarrow> 'm handled" where
  "op_unsigned_multiply_high i cpu m =
    (let product = zext128 (read_register cpu (reg_n i)) * zext128 (read_register cpu (reg_m i))
     in linear_step (write_register (reg_d i) (lo64 (shr product 64)) cpu) m)"

subsection \<open>System state of the processor\<close>

text \<open>The fence of a barrier has no effect on one thread.\<close>

definition op_barrier :: "instr \<Rightarrow> cpu \<Rightarrow> 'm \<Rightarrow> 'm handled" where
  "op_barrier i cpu m = linear_step cpu m"

definition op_pstate_immediate :: "instr \<Rightarrow> cpu \<Rightarrow> 'm \<Rightarrow> 'm handled" where
  "op_pstate_immediate i cpu m =
     linear_step (cpu\<lparr>c_pstate := if i_flags i = 6 then c_pstate cpu OR i_immediate i
                                  else c_pstate cpu AND NOT (i_immediate i)\<rparr>) m"

subsection \<open>Vectors\<close>

definition op_simd_move_vector_element_to_general :: "instr \<Rightarrow> cpu \<Rightarrow> 'm \<Rightarrow> 'm handled" where
  "op_simd_move_vector_element_to_general i cpu m =
     linear_step (write_register (reg_d i) (vector_element_to_general cpu i) cpu) m"

definition op_simd_bitwise_not :: "instr \<Rightarrow> cpu \<Rightarrow> 'm \<Rightarrow> 'm handled" where
  "op_simd_bitwise_not i cpu m =
     linear_step (set_v (reg_d i) \<lparr>v_low = NOT (v_low (c_v cpu (reg_n i))),
       v_high = if has_flag i 1 then NOT (v_high (c_v cpu (reg_n i))) else 0\<rparr> cpu) m"

text \<open>A portable helper that refuses or changes the vector registers.\<close>

definition vector_helper :: "(instr \<Rightarrow> cpu \<Rightarrow> cpu option) \<Rightarrow> instr \<Rightarrow> cpu \<Rightarrow> 'm \<Rightarrow> 'm handled" where
  "vector_helper helper i cpu m =
     (case helper i cpu of None \<Rightarrow> refuse i cpu m | Some cpu \<Rightarrow> linear_step cpu m)"

definition op_simd_saturating_add_subtract :: "instr \<Rightarrow> cpu \<Rightarrow> 'm \<Rightarrow> 'm handled" where
  "op_simd_saturating_add_subtract = vector_helper execute_simd_saturating_add_subtract_portable"

definition op_simd_shift_left_immediate :: "instr \<Rightarrow> cpu \<Rightarrow> 'm \<Rightarrow> 'm handled" where
  "op_simd_shift_left_immediate = vector_helper execute_simd_shift_left_immediate_portable"

definition op_simd_shift_right_immediate :: "instr \<Rightarrow> cpu \<Rightarrow> 'm \<Rightarrow> 'm handled" where
  "op_simd_shift_right_immediate = vector_helper execute_simd_shift_right_immediate_portable"

text \<open>The helpers of the two duplications advance the program counter themselves.\<close>

definition op_simd_duplicate_general :: "instr \<Rightarrow> cpu \<Rightarrow> 'm \<Rightarrow> 'm handled" where
  "op_simd_duplicate_general i cpu m =
     linear_step (set_v (reg_d i)
       (duplicate_simd_element (read_register cpu (reg_n i)) (element_bits i) (has_flag i 1)) cpu) m"

definition op_simd_duplicate_vector_element :: "instr \<Rightarrow> cpu \<Rightarrow> 'm \<Rightarrow> 'm handled" where
  "op_simd_duplicate_vector_element i cpu m =
    (let element = read_vector_element cpu (reg_n i) (unat (i_condition i)) (element_bits i)
     in linear_step (set_v (reg_d i)
          (if has_flag i 2 then \<lparr>v_low = element, v_high = 0\<rparr>
           else duplicate_simd_element element (element_bits i) (has_flag i 1)) cpu) m)"

text \<open>The comparison of one lane; \<open>None\<close> for a comparison that does not exist.\<close>

definition compare_lane :: "instr \<Rightarrow> cpu \<Rightarrow> u8 \<Rightarrow> nat \<Rightarrow> bool option" where
  "compare_lane i cpu comparison lane =
    (let bits = element_bits i;
         lhs = read_vector_element cpu (reg_n i) lane bits;
         rhs = read_vector_element cpu (reg_m i) lane bits;
         slhs = sint (sign_extend_vector_element cpu (reg_n i) lane bits);
         srhs = sint (sign_extend_vector_element cpu (reg_m i) lane bits)
     in if comparison = 0 then Some (lhs = rhs)
        else if comparison = 1 then Some (lhs AND rhs \<noteq> 0)
        else if comparison = 2 then Some (lhs > rhs)
        else if comparison = 3 then Some (lhs \<ge> rhs)
        else if comparison = 4 then Some (lhs = 0)
        else if comparison = 5 then Some (slhs > 0)
        else if comparison = 6 then Some (slhs \<ge> 0)
        else if comparison = 7 then Some (slhs < 0)
        else if comparison = 8 then Some (slhs \<le> 0)
        else if comparison = 9 then Some (slhs > srhs)
        else if comparison = 10 then Some (slhs \<ge> srhs)
        else None)"

fun compare_lanes :: "instr \<Rightarrow> cpu \<Rightarrow> u8 \<Rightarrow> nat list \<Rightarrow> vreg \<Rightarrow> vreg option" where
  "compare_lanes i cpu comparison [] result = Some result"
| "compare_lanes i cpu comparison (lane # lanes) result =
    (case compare_lane i cpu comparison lane of
       None \<Rightarrow> None
     | Some is_match \<Rightarrow>
         compare_lanes i cpu comparison lanes
           (write_vector_element result lane (element_bits i)
              (if is_match then mask_for_bits (element_bits i) else 0)))"

definition op_simd_compare_equal_vector :: "instr \<Rightarrow> cpu \<Rightarrow> 'm \<Rightarrow> 'm handled" where
  "op_simd_compare_equal_vector i cpu m =
    (case compare_lanes i cpu (shr (i_flags i) 1) [0 ..< lanes_of (has_flag i 1) i] zero_vector of
       None \<Rightarrow> refuse i cpu m
     | Some result \<Rightarrow> linear_step (set_v (reg_d i) result cpu) m)"

definition op_simd_count_set_bits :: "instr \<Rightarrow> cpu \<Rightarrow> 'm \<Rightarrow> 'm handled" where
  "op_simd_count_set_bits i cpu m =
     linear_step (set_v (reg_d i)
       (write_lanes zero_vector 0 (full_or_half (has_flag i 1) div 8) 8
          (\<lambda>lane. ucast (popcount_u8 (ucast (read_vector_element cpu (reg_n i) lane 8))))) cpu) m"

definition op_simd_count_leading_zeros :: "instr \<Rightarrow> cpu \<Rightarrow> 'm \<Rightarrow> 'm handled" where
  "op_simd_count_leading_zeros i cpu m =
    (let bits = element_bits i
     in linear_step (set_v (reg_d i)
          (write_lanes zero_vector 0 (lanes_of (has_flag i 1) i) bits
             (\<lambda>lane. word_of_nat (count_leading_zeros_width (read_vector_element cpu (reg_n i) lane bits) bits))) cpu) m)"

subsection \<open>Loads and stores\<close>

text \<open>An access that fails leaves the block, so that the fault is taken outside.\<close>

definition op_load_literal :: "'m callbacks \<Rightarrow> instr \<Rightarrow> cpu \<Rightarrow> 'm \<Rightarrow> 'm handled" where
  "op_load_literal k i cpu m =
    (if i_flags i = 3 then linear_step cpu m
     else
       case avz_native_dispatch_memory_read k m (add_signed_offset (c_pc cpu) (i_immediate i)) (i_width i) of
         (None, m) \<Rightarrow> leave cpu m
       | (Some v, m) \<Rightarrow>
           linear_callback_step
             (write_register (reg_t i) (if i_flags i = 2 then sign_extend_loaded v 32 else v) cpu) m)"

text \<open>The body that the three forms of single loads and stores repeat.\<close>

definition access_memory :: "'m callbacks \<Rightarrow> u64 \<Rightarrow> instr \<Rightarrow> cpu \<Rightarrow> 'm \<Rightarrow> cpu option \<times> 'm" where
  "access_memory k address i cpu m =
    (if i_flags i AND 1 \<noteq> 0 then
       (case avz_native_dispatch_memory_read k m address (i_width i) of
          (None, m) \<Rightarrow> (None, m)
        | (Some v, m) \<Rightarrow>
            let v = (if i_flags i AND 2 \<noteq> 0 then
                       (let v = sign_extend_loaded v (unat (i_bits i))
                        in if i_flags i AND 4 \<noteq> 0 then v AND 0xffffffff else v)
                     else v)
            in (Some (write_register (reg_t i) v cpu), m))
     else
       (case avz_native_dispatch_memory_write k m address (i_width i)
               (read_register cpu (reg_t i) AND mask_for_bits (unat (i_bits i))) of
          (False, m) \<Rightarrow> (None, m)
        | (True, m) \<Rightarrow> (Some (clear_exclusive_reservation cpu), m)))"

definition op_load_store_unsigned_immediate :: "'m callbacks \<Rightarrow> instr \<Rightarrow> cpu \<Rightarrow> 'm \<Rightarrow> 'm handled" where
  "op_load_store_unsigned_immediate k i cpu m =
    (case access_memory k (read_base_register cpu (reg_n i) + i_immediate i) i cpu m of
       (None, m) \<Rightarrow> leave cpu m
     | (Some cpu, m) \<Rightarrow> linear_callback_step cpu m)"

definition op_load_store_register_offset :: "'m callbacks \<Rightarrow> instr \<Rightarrow> cpu \<Rightarrow> 'm \<Rightarrow> 'm handled" where
  "op_load_store_register_offset k i cpu m =
    (let offset = shl (extended_register_value (read_register cpu (reg_m i)) (i_condition i))
                      (unat (i_shift_amount i))
     in case access_memory k (read_base_register cpu (reg_n i) + offset) i cpu m of
          (None, m) \<Rightarrow> leave cpu m
        | (Some cpu, m) \<Rightarrow> linear_callback_step cpu m)"

definition op_load_store_signed_immediate :: "'m callbacks \<Rightarrow> instr \<Rightarrow> cpu \<Rightarrow> 'm \<Rightarrow> 'm handled" where
  "op_load_store_signed_immediate k i cpu m =
    (let base = read_base_register cpu (reg_n i)
     in case access_memory k (add_signed_offset base (i_immediate i)) i cpu m of
          (None, m) \<Rightarrow> leave cpu m
        | (Some cpu, m) \<Rightarrow>
            linear_callback_step
              (if i_flags i AND 8 \<noteq> 0
               then write_base_register (reg_n i) (add_signed_offset base (i_immediate2 i)) cpu else cpu) m)"

definition op_load_acquire_store_release :: "'m callbacks \<Rightarrow> instr \<Rightarrow> cpu \<Rightarrow> 'm \<Rightarrow> 'm handled" where
  "op_load_acquire_store_release k i cpu m =
    (let address = read_base_register cpu (reg_n i)
     in if i_flags i AND 1 \<noteq> 0 then
          (case avz_native_dispatch_memory_read k m address (i_width i) of
             (None, m) \<Rightarrow> leave cpu m
           | (Some v, m) \<Rightarrow> linear_callback_step (write_register (reg_t i) v cpu) m)
        else
          (case avz_native_dispatch_memory_write k m address (i_width i)
                  (read_register cpu (reg_t i) AND mask_for_bits (unat (i_bits i))) of
             (False, m) \<Rightarrow> leave cpu m
           | (True, m) \<Rightarrow> linear_callback_step (clear_exclusive_reservation cpu) m))"

definition op_load_store_exclusive :: "'m callbacks \<Rightarrow> instr \<Rightarrow> cpu \<Rightarrow> 'm \<Rightarrow> 'm handled" where
  "op_load_store_exclusive k i cpu m =
    (let address = read_base_register cpu (reg_n i);
         msk = mask_for_bits (unat (i_bits i))
     in if i_flags i AND 1 \<noteq> 0 then
          (let (answer, generation, m) =
                 if k_uses_fast_memory_context k
                 then f_exclusive_read (k_fast k) m address (i_width i) (c_exclusive_generation cpu)
                 else (let (answer, m) = slow_read k m address (i_width i)
                       in (answer, c_exclusive_generation cpu, m));
               cpu = cpu\<lparr>c_exclusive_generation := generation\<rparr>
           in case answer of
                None \<Rightarrow> leave cpu m
              | Some v \<Rightarrow> linear_callback_step (reserve address (i_width i) (write_register (reg_t i) (v AND msk) cpu)) m)
        else if \<not> reservation_matches address (i_width i) cpu then
          linear_callback_step (clear_exclusive_reservation (write_register (reg_d i) 1 cpu)) m
        else
          let store_value = read_register cpu (reg_t i) AND msk
          in if k_uses_fast_memory_context k then
               (let (exclusive_result, m) = f_exclusive_write (k_fast k) m address (i_width i) store_value
                      (c_exclusive_generation cpu)
                in if exclusive_result < 0 then leave cpu m
                   else linear_callback_step (clear_exclusive_reservation
                          (write_register (reg_d i) (if exclusive_result \<noteq> 0 then 0 else 1) cpu)) m)
             else
               (case slow_write k m address (i_width i) store_value of
                  (False, m) \<Rightarrow> leave cpu m
                | (True, m) \<Rightarrow> linear_callback_step (clear_exclusive_reservation (write_register (reg_d i) 0 cpu)) m))"

definition op_load_store_pair :: "'m callbacks \<Rightarrow> instr \<Rightarrow> cpu \<Rightarrow> 'm \<Rightarrow> 'm handled" where
  "op_load_store_pair k i cpu m =
    (let base = read_base_register cpu (reg_n i);
         first_address = add_signed_offset base (i_immediate i);
         second_address = first_address + zext64 (zext32 (i_width i));
         finish = (\<lambda>cpu m. linear_callback_step
           (if i_flags i AND 8 \<noteq> 0
            then write_base_register (reg_n i) (add_signed_offset base (i_immediate2 i)) cpu else cpu) m)
     in if i_flags i AND 1 \<noteq> 0 then
          (let (pair, m) =
                 if k_uses_fast_memory_context k then f_read_pair (k_fast k) m first_address (i_width i) else (None, m);
               (loaded, m) =
                 case pair of
                   Some loaded \<Rightarrow> (Some loaded, m)
                 | None \<Rightarrow> slow_read_pair k m first_address second_address (i_width i)
           in case loaded of
                None \<Rightarrow> leave cpu m
              | Some (first, second) \<Rightarrow>
                  let extend = (\<lambda>v. if i_flags i AND 2 \<noteq> 0 then sign_extend_loaded v 32 else v)
                  in finish (write_register (reg_d i) (extend second)
                       (write_register (reg_t i) (extend first) cpu)) m)
        else
          (let msk = mask_for_bits (unat (i_bits i));
               first = read_register cpu (reg_t i) AND msk;
               second = read_register cpu (reg_d i) AND msk;
               (used_fast_pair, m) =
                 if k_uses_fast_memory_context k
                 then f_write_pair (k_fast k) m first_address (i_width i) first second else (False, m);
               (stored, m) =
                 if used_fast_pair then (True, m)
                 else slow_write_pair k m first_address second_address (i_width i) first second
           in if stored then finish (clear_exclusive_reservation cpu) m else leave cpu m))"

definition op_simd_load_store_single_structure_lane :: "'m callbacks \<Rightarrow> instr \<Rightarrow> cpu \<Rightarrow> 'm \<Rightarrow> 'm handled" where
  "op_simd_load_store_single_structure_lane k i cpu m =
    (case execute_simd_load_store_single_structure_lane k i cpu m of
       (False, cpu, m) \<Rightarrow> refuse i cpu m
     | (True, cpu, m) \<Rightarrow> (Callback_Step, cpu, m))"

definition op_simd_load_store_multiple_structure :: "'m callbacks \<Rightarrow> instr \<Rightarrow> cpu \<Rightarrow> 'm \<Rightarrow> 'm handled" where
  "op_simd_load_store_multiple_structure k i cpu m =
    (case try_execute_simd_multiple_structure_bulk k i cpu m of
       (Some cpu, m) \<Rightarrow> (Callback_Step, cpu, m)
     | (None, m) \<Rightarrow> (Generic, cpu, m))"

subsection \<open>System registers, exceptions and waiting\<close>

definition op_system_register_read :: "'m callbacks \<Rightarrow> instr \<Rightarrow> cpu \<Rightarrow> 'm \<Rightarrow> 'm handled" where
  "op_system_register_read k i cpu m =
    (let use_local = (k_read_system_register k = None \<or> k_fast_read_register k);
         key = (if use_local then decoded_system_register_key (i_raw i) else 0xffff);
         put = (\<lambda>v m. linear_callback_step (write_register (reg_t i) v cpu) m)
     in if key = KEY_CURRENT_EL then put (c_pstate cpu AND 0xc) m
        else if key = KEY_NZCV then put (c_pstate cpu AND 0xf0000000) m
        else if key = KEY_DAIF then put (c_pstate cpu AND 0x3c0) m
        else if key = KEY_FPCR then put (c_fpcr cpu) m
        else if key = KEY_FPSR then put (c_fpsr cpu) m
        else
          case k_read_system_register k of
            None \<Rightarrow> leave cpu m
          | Some read \<Rightarrow>
              (case read m (i_raw i) (c_pc cpu) (c_pstate cpu) (c_sp cpu) of
                 (None, m) \<Rightarrow> leave cpu m
               | (Some v, m) \<Rightarrow> put v m))"

definition op_system_register_write :: "'m callbacks \<Rightarrow> instr \<Rightarrow> cpu \<Rightarrow> 'm \<Rightarrow> 'm handled" where
  "op_system_register_write k i cpu m =
    (let v = read_register cpu (reg_t i);
         use_local = (k_write_system_register k = None \<or> k_fast_write_register k);
         key = (if use_local then decoded_system_register_key (i_raw i) else 0xffff)
     in if key = KEY_CURRENT_EL then linear_callback_step cpu m
        else if key = KEY_NZCV then
          linear_callback_step (cpu\<lparr>c_pstate := (c_pstate cpu AND 0xffffffff0fffffff) OR (v AND 0xf0000000)\<rparr>) m
        else if key = KEY_DAIF then
          linear_callback_step (cpu\<lparr>c_pstate := (c_pstate cpu AND NOT 0x3c0) OR (v AND 0x3c0)\<rparr>) m
        else if key = KEY_FPCR then linear_callback_step (cpu\<lparr>c_fpcr := v\<rparr>) m
        else if key = KEY_FPSR then linear_callback_step (cpu\<lparr>c_fpsr := v\<rparr>) m
        else
          case k_write_system_register k of
            None \<Rightarrow> leave cpu m
          | Some write \<Rightarrow>
              let (accepted, pstate, sp, m) = write m (i_raw i) (c_pc cpu) v (c_pstate cpu) (c_sp cpu);
                  cpu = cpu\<lparr>c_pstate := pstate, c_sp := sp\<rparr>
              in if accepted then linear_callback_step cpu m else leave cpu m)"

definition op_system_instruction :: "'m callbacks \<Rightarrow> instr \<Rightarrow> cpu \<Rightarrow> 'm \<Rightarrow> 'm handled" where
  "op_system_instruction k i cpu m =
    (case k_system_instruction k of
       None \<Rightarrow> refuse i cpu m
     | Some run \<Rightarrow>
         (case run m (i_raw i) (read_register cpu (reg_t i)) of
            (False, m) \<Rightarrow> refuse i cpu m
          | (True, m) \<Rightarrow> linear_callback_step cpu m))"

definition op_exception_return :: "'m callbacks \<Rightarrow> instr \<Rightarrow> cpu \<Rightarrow> 'm \<Rightarrow> 'm handled" where
  "op_exception_return k i cpu m =
    (case k_exception_return k of
       None \<Rightarrow> refuse i cpu m
     | Some eret \<Rightarrow>
         let (returned, pstate, sp, pc, m) = eret m (c_pstate cpu) (c_sp cpu) (c_pc cpu);
             cpu = cpu\<lparr>c_pstate := pstate, c_sp := sp, c_pc := pc\<rparr>
         in if returned then (Callback_Step, cpu, m) else refuse i cpu m)"

definition op_synchronous_exception :: "'m callbacks \<Rightarrow> instr \<Rightarrow> cpu \<Rightarrow> 'm \<Rightarrow> 'm handled" where
  "op_synchronous_exception k i cpu m =
    (case k_synchronous_exception k of
       None \<Rightarrow> refuse i cpu m
     | Some raise \<Rightarrow>
         let (taken, x, pstate, sp, pc, m) = raise m (i_raw i) (c_x cpu) (c_pstate cpu) (c_sp cpu) (c_pc cpu);
             cpu = cpu\<lparr>c_x := x, c_pstate := pstate, c_sp := sp, c_pc := pc\<rparr>
         in if taken then (Callback_Step, clear_exclusive_reservation cpu, m) else refuse i cpu m)"

text \<open>
  The engine tells apart the three answers of the wait callback, which is therefore an argument
  of its own here; \<open>with_wait\<close> is what the executor sees of it.
\<close>

datatype wait_answer = Wait_Unsupported | Wait_Continue | Wait_Yield

type_synonym 'm waiter = "('m \<Rightarrow> u32 \<Rightarrow> u64 \<Rightarrow> wait_answer \<times> u64 \<times> 'm) option"

definition with_wait :: "'m waiter \<Rightarrow> 'm callbacks \<Rightarrow> 'm callbacks" where
  "with_wait wait k = k\<lparr>k_wait := map_option (\<lambda>wait m raw pc.
     let (answer, pc, m) = wait m raw pc in (answer \<noteq> Wait_Unsupported, pc, m)) wait\<rparr>"

definition op_wait :: "'m waiter \<Rightarrow> instr \<Rightarrow> cpu \<Rightarrow> 'm \<Rightarrow> 'm handled" where
  "op_wait wait i cpu m =
    (case wait of
       None \<Rightarrow> refuse i cpu m
     | Some wait \<Rightarrow>
         let (answer, pc, m) = wait m (i_raw i) (c_pc cpu);
             cpu = cpu\<lparr>c_pc := pc\<rparr>
         in case answer of
              Wait_Unsupported \<Rightarrow> refuse i cpu m
            | Wait_Yield \<Rightarrow> (Step_Finish YIELDED, cpu, m)
            | Wait_Continue \<Rightarrow> (Callback_Step, cpu, m))"

subsection \<open>Dispatch\<close>

definition pure_handlers :: "(u16 \<times> (instr \<Rightarrow> cpu \<Rightarrow> 'm \<Rightarrow> 'm handled)) list" where
  "pure_handlers = [
     (AVZ_NATIVE_OP_NOP, op_nop),
     (AVZ_NATIVE_OP_HALT, op_halt),
     (AVZ_NATIVE_OP_ADR, op_adr),
     (AVZ_NATIVE_OP_CBZ, op_cbz),
     (AVZ_NATIVE_OP_TBZ, op_tbz),
     (AVZ_NATIVE_OP_BCOND, op_bcond),
     (AVZ_NATIVE_OP_ADD_SUB_IMMEDIATE, op_add_sub_immediate),
     (AVZ_NATIVE_OP_MOVE_WIDE, op_move_wide),
     (AVZ_NATIVE_OP_ADD_SUB_SHIFTED_REGISTER, op_add_sub_shifted_register),
     (AVZ_NATIVE_OP_BRANCH, op_branch),
     (AVZ_NATIVE_OP_LOGICAL_SHIFTED_REGISTER, op_logical_shifted_register),
     (AVZ_NATIVE_OP_LOGICAL_IMMEDIATE, op_logical_immediate),
     (AVZ_NATIVE_OP_REGISTER_BRANCH, op_register_branch),
     (AVZ_NATIVE_OP_CONDITIONAL_SELECT, op_conditional_select),
     (AVZ_NATIVE_OP_BITFIELD_MOVE, op_bitfield_move),
     (AVZ_NATIVE_OP_DATA_PROCESSING_ONE_SOURCE, op_data_processing_one_source),
     (AVZ_NATIVE_OP_DATA_PROCESSING_TWO_SOURCE, op_data_processing_two_source),
     (AVZ_NATIVE_OP_CONDITIONAL_COMPARE_REGISTER, op_conditional_compare),
     (AVZ_NATIVE_OP_CONDITIONAL_COMPARE_IMMEDIATE, op_conditional_compare),
     (AVZ_NATIVE_OP_ADD_SUB_EXTENDED_REGISTER, op_add_sub_extended_register),
     (AVZ_NATIVE_OP_MULTIPLY_ADD_SUBTRACT, op_multiply_add_subtract),
     (AVZ_NATIVE_OP_SIGNED_MULTIPLY_LONG_ADD_SUBTRACT, op_signed_multiply_long_add_subtract),
     (AVZ_NATIVE_OP_UNSIGNED_MULTIPLY_LONG_ADD_SUBTRACT, op_unsigned_multiply_long_add_subtract),
     (AVZ_NATIVE_OP_ADD_SUB_CARRY, op_add_sub_carry),
     (AVZ_NATIVE_OP_SIGNED_MULTIPLY_HIGH, op_signed_multiply_high),
     (AVZ_NATIVE_OP_UNSIGNED_MULTIPLY_HIGH, op_unsigned_multiply_high),
     (AVZ_NATIVE_OP_BARRIER, op_barrier),
     (AVZ_NATIVE_OP_PSTATE_IMMEDIATE, op_pstate_immediate),
     (AVZ_NATIVE_OP_SIMD_MOVE_VECTOR_ELEMENT_TO_GENERAL, op_simd_move_vector_element_to_general),
     (AVZ_NATIVE_OP_SIMD_BITWISE_NOT, op_simd_bitwise_not),
     (AVZ_NATIVE_OP_SIMD_SATURATING_ADD_SUBTRACT, op_simd_saturating_add_subtract),
     (AVZ_NATIVE_OP_SIMD_SHIFT_LEFT_IMMEDIATE, op_simd_shift_left_immediate),
     (AVZ_NATIVE_OP_SIMD_SHIFT_RIGHT_IMMEDIATE, op_simd_shift_right_immediate),
     (AVZ_NATIVE_OP_SIMD_DUPLICATE_GENERAL, op_simd_duplicate_general),
     (AVZ_NATIVE_OP_SIMD_DUPLICATE_VECTOR_ELEMENT, op_simd_duplicate_vector_element),
     (AVZ_NATIVE_OP_SIMD_COMPARE_EQUAL_VECTOR, op_simd_compare_equal_vector),
     (AVZ_NATIVE_OP_SIMD_COUNT_SET_BITS, op_simd_count_set_bits),
     (AVZ_NATIVE_OP_SIMD_COUNT_LEADING_ZEROS, op_simd_count_leading_zeros)]"

definition callback_handlers :: "(u16 \<times> ('m callbacks \<Rightarrow> instr \<Rightarrow> cpu \<Rightarrow> 'm \<Rightarrow> 'm handled)) list" where
  "callback_handlers = [
     (AVZ_NATIVE_OP_LOAD_STORE_UNSIGNED_IMMEDIATE, op_load_store_unsigned_immediate),
     (AVZ_NATIVE_OP_LOAD_STORE_SIGNED_IMMEDIATE, op_load_store_signed_immediate),
     (AVZ_NATIVE_OP_LOAD_STORE_REGISTER_OFFSET, op_load_store_register_offset),
     (AVZ_NATIVE_OP_LOAD_STORE_PAIR, op_load_store_pair),
     (AVZ_NATIVE_OP_LOAD_LITERAL, op_load_literal),
     (AVZ_NATIVE_OP_LOAD_ACQUIRE_STORE_RELEASE, op_load_acquire_store_release),
     (AVZ_NATIVE_OP_LOAD_STORE_EXCLUSIVE, op_load_store_exclusive),
     (AVZ_NATIVE_OP_SYSTEM_REGISTER_READ, op_system_register_read),
     (AVZ_NATIVE_OP_SYSTEM_REGISTER_WRITE, op_system_register_write),
     (AVZ_NATIVE_OP_SYSTEM_INSTRUCTION, op_system_instruction),
     (AVZ_NATIVE_OP_EXCEPTION_RETURN, op_exception_return),
     (AVZ_NATIVE_OP_SYNCHRONOUS_EXCEPTION, op_synchronous_exception),
     (AVZ_NATIVE_OP_SIMD_LOAD_STORE_SINGLE_STRUCTURE_LANE, op_simd_load_store_single_structure_lane),
     (AVZ_NATIVE_OP_SIMD_LOAD_STORE_MULTIPLE_STRUCTURE, op_simd_load_store_multiple_structure)]"

definition ordinary_instruction_dispatch :: "'m waiter \<Rightarrow> 'm callbacks \<Rightarrow> instr \<Rightarrow> cpu \<Rightarrow> 'm \<Rightarrow> 'm handled" where
  "ordinary_instruction_dispatch wait k i cpu m =
    (case map_of pure_handlers (i_kind i) of
       Some f \<Rightarrow> f i cpu m
     | None \<Rightarrow>
         (case map_of callback_handlers (i_kind i) of
            Some f \<Rightarrow> f k i cpu m
          | None \<Rightarrow> if i_kind i = AVZ_NATIVE_OP_WAIT then op_wait wait i cpu m else (Generic, cpu, m)))"

end
