(* ===== verification/ThreadedEngine.thy ===== *)
theory ThreadedEngine
  imports ThreadedHandlers BlockEngine
begin

text \<open>
  The threaded engine \<open>avz_native_run_threaded_decoded_block_cpu_mapped_span\<close>: it runs one
  decoded block, found by its base address, or a mapped trace, several blocks laid end to end
  with the address of each instruction. Before an instruction it may try a semantic fast path;
  after a callback it asks the block cache whether the code it runs is still current.
\<close>

subsection \<open>What a run gets and keeps\<close>

text \<open>\<open>instruction_pcs\<close>, \<open>block_offsets\<close> and \<open>fused_block_count\<close>.\<close>

record mapped_trace =
  tr_pcs :: "u64 list"
  tr_offsets :: "nat list"
  tr_fused :: nat

text \<open>
  The arguments of the call. The code epochs a run carries have the type \<open>'e\<close>; \<open>t_current\<close> is
  \<open>avz_native_execution_span_is_current\<close>, which reads the tokens of the cache and may bring the
  epochs up to date; \<open>t_mutation_epoch\<close> is \<open>avz_native_block_cache_mutation_epoch\<close>.
\<close>

record ('m, 'e) threaded_run =
  t_instructions :: "instr list"
  t_base_pc :: u64
  t_max_steps :: nat
  t_candidates :: "u8 list option"
  t_trace :: "mapped_trace option"
  t_has_cache :: bool
  t_has_span :: bool
  t_current :: "'m \<Rightarrow> 'e \<Rightarrow> 'e option"
  t_mutation_epoch :: "'m \<Rightarrow> u64"

text \<open>The counters of the result and the locals of the loop.\<close>

record 'e engine =
  e_steps :: nat
  e_generic_dispatches :: nat
  e_fast_path_steps :: nat
  e_fast_path_hits :: nat
  e_mapped_blocks :: nat
  e_index :: nat
  e_cursor :: nat
  e_epochs :: 'e
  e_entry_epoch :: u64
  e_hints :: "u8 list option"

definition count_step :: "('m, 'e) threaded_run \<Rightarrow> 'e engine \<Rightarrow> 'e engine" where
  "count_step p s =
    (let s = s\<lparr>e_steps := e_steps s + 1\<rparr>
     in if t_trace p \<noteq> None then s\<lparr>e_index := e_index s + 1\<rparr> else s)"

text \<open>The check behind a callback, only made when a cache was given; \<open>None\<close> ends the run.\<close>

definition recheck :: "('m, 'e) threaded_run \<Rightarrow> 'e engine \<Rightarrow> 'm \<Rightarrow> 'e engine option" where
  "recheck p s m =
    (if \<not> t_has_cache p then Some s
     else
       case t_current p m (e_epochs s) of
         None \<Rightarrow> None
       | Some epochs \<Rightarrow>
           if \<not> t_has_span p \<and> t_trace p = None \<and> e_entry_epoch s \<noteq> t_mutation_epoch p m then None
           else Some (s\<lparr>e_epochs := epochs\<rparr>))"

subsection \<open>Finding the instruction\<close>

text \<open>
  In a trace the index advances by itself and is checked against the program counter at the
  entry and at every boundary between two blocks, where the code must also still be current.
  In a block the index is computed from the program counter.
\<close>

definition locate :: "('m, 'e) threaded_run \<Rightarrow> 'e engine \<Rightarrow> cpu \<Rightarrow> 'm \<Rightarrow> 'e engine option" where
  "locate p s cpu m =
    (case t_trace p of
       Some tr \<Rightarrow>
         (let index = e_index s;
              at_block_boundary = (e_cursor s < tr_fused tr \<and> index = tr_offsets tr ! e_cursor s)
          in if length (t_instructions p) \<le> index then None
             else if index = 0 then
               (if tr_pcs tr ! index \<noteq> c_pc cpu then None else Some (s\<lparr>e_mapped_blocks := 1\<rparr>))
             else if at_block_boundary then
               (if tr_pcs tr ! index \<noteq> c_pc cpu then None
                else
                  case t_current p m (e_epochs s) of
                    None \<Rightarrow> None
                  | Some epochs \<Rightarrow>
                      Some (s\<lparr>e_epochs := epochs, e_mapped_blocks := e_mapped_blocks s + 1,
                              e_cursor := e_cursor s + 1\<rparr>))
             else Some s)
     | None \<Rightarrow>
         (let pc = c_pc cpu
          in if pc < t_base_pc p \<or> (pc - t_base_pc p) AND 3 \<noteq> 0 then None
             else
               let index = unat (shr (pc - t_base_pc p) 2)
               in if length (t_instructions p) \<le> index then None else Some (s\<lparr>e_index := index\<rparr>)))"

subsection \<open>The semantic fast paths\<close>

text \<open>
  The block a fast path may take as a whole: in a trace only the block that starts at the
  current index, otherwise the block of the run.
\<close>

definition fast_block :: "('m, 'e) threaded_run \<Rightarrow> 'e engine \<Rightarrow> instr list \<times> u64" where
  "fast_block p s =
    (case t_trace p of
       None \<Rightarrow> (t_instructions p, t_base_pc p)
     | Some tr \<Rightarrow>
         let block_start = tr_offsets tr ! (e_cursor s - 1);
             block_end = tr_offsets tr ! e_cursor s
         in if e_index s = block_start \<and> block_start < block_end
            then (take (block_end - block_start) (drop block_start (t_instructions p)), tr_pcs tr ! block_start)
            else ([], t_base_pc p))"

definition semantic_candidate :: "('m, 'e) threaded_run \<Rightarrow> 'e engine \<Rightarrow> u8" where
  "semantic_candidate p s =
    (case t_candidates p of
       Some candidates \<Rightarrow> candidates ! e_index s
     | None \<Rightarrow>
         let is = fst (fast_block p s)
         in avz_native_classify_semantic_candidate is 0 (0 < length is) (t_trace p \<noteq> None))"

text \<open>The switch over the candidates, with the hint byte of the instruction.\<close>

definition semantic_fast_path ::
  "'m callbacks \<Rightarrow> ('m, 'e) threaded_run \<Rightarrow> 'e engine \<Rightarrow> cpu \<Rightarrow> 'm \<Rightarrow> 'm hinted_step" where
  "semantic_fast_path k p s cpu m =
    (let candidate = semantic_candidate p s;
         remaining = t_max_steps p - e_steps s;
         (block, block_pc) = fast_block p s;
         pcs = map_option tr_pcs (t_trace p);
         is = t_instructions p;
         hint = map_option (\<lambda>hints. hints ! e_index s) (e_hints s);
         plain = (\<lambda>result. (hint, result))
     in if candidate = 1 then plain (try_execute_elf_plt_thunk k block remaining cpu m)
        else if candidate = 2 then
          try_execute_musl_symbol_name_compare_loop k is pcs hint (c_pc cpu) remaining cpu m
        else if candidate = 3 then try_execute_pixman_source_over_loop hint remaining cpu m
        else if candidate = 4 then try_execute_pixman_source_over_tail hint cpu m
        else if candidate = 5 then plain (try_execute_byte_string_scan_loop k block block_pc remaining cpu m)
        else if candidate = 6 then plain (try_execute_glib_djb2_string_hash_loop k block block_pc remaining cpu m)
        else if candidate = 7 then
          try_execute_musl_gnu_hash_chain_loop k is pcs hint (c_pc cpu) remaining cpu m
        else if candidate = 8 then
          try_execute_musl_memcmp_loop k is pcs (e_index s) hint (c_pc cpu) remaining cpu m
        else if candidate = 9 then try_execute_musl_memcpy_64_loop k hint (c_pc cpu) remaining cpu m
        else if candidate = 10 then try_execute_pixman_neon_copy_loop k hint (c_pc cpu) remaining cpu m
        else if candidate = 11 then plain (try_execute_simd_solid_fill_loop k block block_pc remaining cpu m)
        else if candidate = 12 then plain (try_execute_store_pair_fill_loop k block block_pc remaining cpu m)
        else plain (None, cpu, m))"

definition store_hint :: "u8 option \<Rightarrow> 'e engine \<Rightarrow> 'e engine" where
  "store_hint hint s =
    (case (hint, e_hints s) of
       (Some h, Some hints) \<Rightarrow> s\<lparr>e_hints := Some (hints[e_index s := h])\<rparr>
     | _ \<Rightarrow> s)"

text \<open>
  Where a used fast path goes on: at the same instruction of the trace when its loop is not
  finished, at the next block of the trace when the program counter is there, or out of the run.
\<close>

definition resume_trace :: "('m, 'e) threaded_run \<Rightarrow> 'e engine \<Rightarrow> cpu \<Rightarrow> 'e engine option" where
  "resume_trace p s cpu =
    (case t_trace p of
       None \<Rightarrow> None
     | Some tr \<Rightarrow>
         if e_index s < length (t_instructions p) \<and> tr_pcs tr ! e_index s = c_pc cpu then Some s
         else if e_cursor s < tr_fused tr then
           (let next_index = tr_offsets tr ! e_cursor s
            in if next_index < length (t_instructions p) \<and> tr_pcs tr ! next_index = c_pc cpu
               then Some (s\<lparr>e_index := next_index\<rparr>) else None)
         else None)"

subsection \<open>The loop\<close>

text \<open>A turn of the loop ends the run with a status or goes back to \<open>dispatch\<close>.\<close>

type_synonym ('m, 'e) turn = "block_status option \<times> 'e engine \<times> cpu \<times> 'm"

text \<open>The label \<open>callback_step\<close>.\<close>

definition callback_step :: "('m, 'e) threaded_run \<Rightarrow> 'e engine \<Rightarrow> cpu \<Rightarrow> 'm \<Rightarrow> ('m, 'e) turn" where
  "callback_step p s cpu m =
    (case recheck p (count_step p s) m of
       None \<Rightarrow> (Some OUTSIDE_BLOCK, count_step p s, cpu, m)
     | Some s \<Rightarrow> (None, s, cpu, m))"

text \<open>
  The label \<open>op_generic\<close>. The executor answers with a truth value, so its comparison with
  \<open>AVZ_NATIVE_WAIT_YIELD\<close> never holds.
\<close>

definition op_generic ::
  "'m executor \<Rightarrow> 'm callbacks \<Rightarrow> ('m, 'e) threaded_run \<Rightarrow> instr \<Rightarrow> 'e engine \<Rightarrow> cpu \<Rightarrow> 'm \<Rightarrow> ('m, 'e) turn" where
  "op_generic vec k p i s cpu m =
    (case recheck p s m of
       None \<Rightarrow> (Some OUTSIDE_BLOCK, s, cpu, m)
     | Some s \<Rightarrow>
         let s = s\<lparr>e_generic_dispatches := e_generic_dispatches s + 1\<rparr>
         in case execute_decoded_instruction vec k i cpu m of
              (False, cpu, m) \<Rightarrow> (Some (UNSUPPORTED (i_raw i)), s, cpu, m)
            | (True, cpu, m) \<Rightarrow> callback_step p s cpu m)"

definition ordinary_instruction ::
  "'m executor \<Rightarrow> 'm waiter \<Rightarrow> 'm callbacks \<Rightarrow> ('m, 'e) threaded_run \<Rightarrow> 'e engine \<Rightarrow> cpu \<Rightarrow> 'm \<Rightarrow> ('m, 'e) turn" where
  "ordinary_instruction vec wait k p s cpu m =
    (let i = t_instructions p ! e_index s
     in case ordinary_instruction_dispatch wait k i cpu m of
          (Step, cpu, m) \<Rightarrow> (None, count_step p s, cpu, m)
        | (Callback_Step, cpu, m) \<Rightarrow> callback_step p s cpu m
        | (Generic, cpu, m) \<Rightarrow> op_generic vec k p i s cpu m
        | (Finish status, cpu, m) \<Rightarrow> (Some status, s, cpu, m)
        | (Step_Finish status, cpu, m) \<Rightarrow> (Some status, s\<lparr>e_steps := e_steps s + 1\<rparr>, cpu, m))"

definition dispatch ::
  "'m executor \<Rightarrow> 'm waiter \<Rightarrow> 'm callbacks \<Rightarrow> ('m, 'e) threaded_run \<Rightarrow> 'e engine \<Rightarrow> cpu \<Rightarrow> 'm \<Rightarrow> ('m, 'e) turn" where
  "dispatch vec wait k p s cpu m =
    (if t_max_steps p \<le> e_steps s then (Some MAX_STEPS, s, cpu, m)
     else
       case locate p s cpu m of
         None \<Rightarrow> (Some OUTSIDE_BLOCK, s, cpu, m)
       | Some s \<Rightarrow>
           if t_candidates p \<noteq> None \<and> semantic_candidate p s = SEMANTIC_NONE
           then ordinary_instruction vec wait k p s cpu m
           else
             let (hint, used, cpu, m) = semantic_fast_path k p s cpu m;
                 s = store_hint hint s;
                 fast_steps = (case used of None \<Rightarrow> 0 | Some n \<Rightarrow> n);
                 counted = s\<lparr>e_steps := e_steps s + fast_steps, e_fast_path_steps := e_fast_path_steps s + fast_steps,
                             e_fast_path_hits := e_fast_path_hits s + (if used \<noteq> None then 1 else 0)\<rparr>
             in case recheck p s m of
                  None \<Rightarrow> (Some OUTSIDE_BLOCK, counted, cpu, m)
                | Some s' \<Rightarrow>
                    let counted = counted\<lparr>e_epochs := e_epochs s'\<rparr>
                    in if used = None then ordinary_instruction vec wait k p counted cpu m
                       else case resume_trace p counted cpu of
                              None \<Rightarrow> (Some OUTSIDE_BLOCK, counted, cpu, m)
                            | Some s \<Rightarrow> (None, s, cpu, m))"

text \<open>
  The result of a run. The loop of the code is the recursion on \<open>fuel\<close>, the number of turns;
  \<open>None\<close> says that it did not end within it.
\<close>

record threaded_result =
  res_steps :: nat
  res_generic_dispatches :: nat
  res_fast_path_steps :: nat
  res_fast_path_hits :: nat
  res_mapped_blocks :: nat
  res_status :: block_status

definition result_of :: "block_status \<Rightarrow> 'e engine \<Rightarrow> threaded_result" where
  "result_of status s = \<lparr>res_steps = e_steps s, res_generic_dispatches = e_generic_dispatches s,
     res_fast_path_steps = e_fast_path_steps s, res_fast_path_hits = e_fast_path_hits s,
     res_mapped_blocks = e_mapped_blocks s, res_status = status\<rparr>"

fun threaded_loop ::
  "nat \<Rightarrow> 'm executor \<Rightarrow> 'm waiter \<Rightarrow> 'm callbacks \<Rightarrow> ('m, 'e) threaded_run \<Rightarrow> 'e engine \<Rightarrow> cpu \<Rightarrow> 'm \<Rightarrow>
   (threaded_result \<times> 'e engine \<times> cpu \<times> 'm) option" where
  "threaded_loop 0 vec wait k p s cpu m = None"
| "threaded_loop (Suc fuel) vec wait k p s cpu m =
    (case dispatch vec wait k p s cpu m of
       (Some status, s, cpu, m) \<Rightarrow> Some (result_of status s, s, cpu, m)
     | (None, s, cpu, m) \<Rightarrow> threaded_loop fuel vec wait k p s cpu m)"

definition entry_engine :: "'e \<Rightarrow> u64 \<Rightarrow> u8 list option \<Rightarrow> 'e engine" where
  "entry_engine epochs entry_epoch hints = \<lparr>e_steps = 0, e_generic_dispatches = 0, e_fast_path_steps = 0,
     e_fast_path_hits = 0, e_mapped_blocks = 0, e_index = 0, e_cursor = 1, e_epochs = epochs,
     e_entry_epoch = entry_epoch, e_hints = hints\<rparr>"

text \<open>
  A run of at most \<open>t_max_steps\<close> instructions; every turn but the last takes at least one, so
  \<open>t_max_steps + 1\<close> turns are enough. The hints of the trace and the last epochs are returned.
\<close>

definition avz_native_run_threaded_decoded_block_cpu_mapped_span ::
  "'m executor \<Rightarrow> 'm waiter \<Rightarrow> 'm callbacks \<Rightarrow> ('m, 'e) threaded_run \<Rightarrow> 'e \<Rightarrow> u8 list option \<Rightarrow> cpu \<Rightarrow> 'm \<Rightarrow>
   (threaded_result \<times> 'e engine \<times> cpu \<times> 'm) option" where
  "avz_native_run_threaded_decoded_block_cpu_mapped_span vec wait k p epochs hints cpu m =
    (let entry = entry_engine epochs 0 hints
     in case (if t_trace p \<noteq> None \<or> t_has_cache p then t_current p m epochs else Some epochs) of
          None \<Rightarrow> Some (result_of OUTSIDE_BLOCK entry, entry, cpu, m)
        | Some epochs \<Rightarrow>
            threaded_loop (t_max_steps p + 1) vec wait (with_wait wait k) p
              (entry_engine epochs (if t_has_span p then 0 else t_mutation_epoch p m) hints) cpu m)"

end
