(* ===== verification/HandlerAgreement.thy ===== *)
theory HandlerAgreement
  imports ThreadedEngine
begin

text \<open>
  Every handler of the threaded engine does what the executor does with the same instruction:
  it reaches the same state, and it goes on exactly when the executor succeeds. The executor
  in turn moves every instruction that does not end a block to the next one.
\<close>

subsection \<open>Flags without the carry chain\<close>

lemma sub_mod_arith:
  fixes A B N M :: nat
  assumes "A < N" "B < N" "N dvd M" "0 < M"
  shows "(A + (N - 1 - B) + 1) mod N = (if B \<le> A then A - B else A + M - B) mod N"
proof (cases "B \<le> A")
  case True
  then have "A + (N - 1 - B) + 1 = (A - B) + N" using assms by simp
  then show ?thesis using True by (simp only: if_True mod_add_self2)
next
  case False
  obtain q where q: "M = N * q" using assms(3) by blast
  show ?thesis
  proof (cases q)
    case 0
    then show ?thesis using q assms by simp
  next
    case (Suc p)
    then have "A + M - B = (A + (N - 1 - B) + 1) + N * p" using q False assms by (simp add: algebra_simps)
    with False show ?thesis by simp
  qed
qed

lemma awc_sub_result:
  assumes n: "n = 32 \<or> n = 64" and lt: "unat (lhs :: u64) < 2 ^ n" "unat (rhs :: u64) < 2 ^ n"
  shows "snd (add_with_carry_nzcv lhs (NOT rhs AND mask_for_bits n) True n) = take_bit n (lhs - rhs)"
proof -
  have n1: "n \<le> 64" using n by auto
  have "unat (snd (add_with_carry_nzcv lhs (NOT rhs AND mask_for_bits n) True n)) =
      (unat lhs + (2 ^ n - 1 - unat rhs) + 1) mod 2 ^ n"
    by (simp only: awc_result[OF n1] unat_not_mask[OF n1 lt(2)]) simp
  also have "\<dots> = unat (lhs - rhs) mod 2 ^ n"
  proof -
    have d: "(2 :: nat) ^ n dvd 2 ^ 64" by (rule le_imp_power_dvd) (rule n1)
    have u: "unat (lhs - rhs) = (if unat rhs \<le> unat lhs then unat lhs - unat rhs else unat lhs + 2 ^ 64 - unat rhs)"
      by (simp add: unat_sub_if')
    show ?thesis unfolding u by (rule sub_mod_arith[OF lt d]) simp
  qed
  also have "\<dots> = unat (take_bit n (lhs - rhs))" by (simp only: unsigned_take_bit_eq) (simp only: take_bit_eq_mod)
  finally show ?thesis by (simp only: word_unat_eq_iff)
qed

lemma bit_direct_flags:
  assumes "n = 32 \<or> n = 64"
  shows "bit (direct_flags subtract lhs rhs v n) k \<longleftrightarrow>
    k = 31 \<and> bit v (n - 1) \<or> k = 30 \<and> v = 0 \<or>
    k = 29 \<and> (if subtract then rhs \<le> lhs else v < lhs) \<or>
    k = 28 \<and> bit lhs (n - 1) \<noteq> bit v (n - 1) \<and> (if subtract then bit lhs (n - 1) \<noteq> bit rhs (n - 1) else bit lhs (n - 1) = bit rhs (n - 1))"
proof -
  have n1: "0 < n" "n \<le> 64" using assms by auto
  have "shl 1 (n - 1) = sign_bit_for_bits n" using n1 by (simp add: sign_bit_for_bits_def)
  then have s: "x AND shl 1 (n - 1) \<noteq> 0 \<longleftrightarrow> bit x (n - 1)" for x :: u64
    by (simp only: and_sign_bit_eq_0_iff[OF n1] not_not)
  have l: "n - 1 < 64" using n1 by simp
  have o: "bit ((lhs XOR v) AND (if subtract then lhs XOR rhs else NOT (lhs XOR rhs))) (n - 1) \<longleftrightarrow>
      bit lhs (n - 1) \<noteq> bit v (n - 1) \<and> (if subtract then bit lhs (n - 1) \<noteq> bit rhs (n - 1) else bit lhs (n - 1) = bit rhs (n - 1))"
    using l by (auto simp: bit_and_iff bit_xor_iff bit_not_iff_eq)
  have f: "bit (if c then f else 0 :: u64) k \<longleftrightarrow> c \<and> bit f k" for c f by simp
  show ?thesis
    by (simp only: direct_flags_def Let_def bit_or_iff f s o flag_bits_code) blast
qed

lemma direct_add_sub:
  fixes lhs rhs :: u64 and subtract :: bool
  assumes n: "n = 32 \<or> n = 64" and lt: "unat lhs < 2 ^ n" "unat rhs < 2 ^ n"
  defines "v \<equiv> masked_operand (if subtract then lhs - rhs else lhs + rhs) n"
  shows "add_with_carry_nzcv lhs (if subtract then NOT rhs AND mask_for_bits n else rhs) subtract n =
    (direct_flags subtract lhs rhs v n, v)"
proof -
  let ?b = "if subtract then NOT rhs AND mask_for_bits n else rhs"
  obtain flags result where r: "add_with_carry_nzcv lhs ?b subtract n = (flags, result)" by fastforce
  have res: "result = v"
    using awc_sub_result[OF n lt] r n
    by (cases subtract) (auto simp: v_def masked_operand_eq add_with_carry_nzcv_def Let_def of_flag_def simp flip: take_bit_eq_mask)
  have n1: "n \<le> 64" using n by auto
  have b: "unat ?b = (if subtract then 2 ^ n - 1 - unat rhs else unat rhs)"
    using unat_not_mask[OF n1 lt(2)] by simp
  have u: "unat v = (unat lhs + unat ?b + of_bool subtract) mod 2 ^ n"
    using awc_result[OF n1, of lhs ?b subtract] by (simp only: r res snd_conv)
  have carry: "2 ^ n \<le> unat lhs + unat ?b + of_bool subtract \<longleftrightarrow> (if subtract then rhs \<le> lhs else v < lhs)"
  proof (cases subtract)
    case True
    then show ?thesis using lt b by (auto simp: word_le_nat_alt)
  next
    case False
    then have "unat v = (if unat lhs + unat rhs < 2 ^ n then unat lhs + unat rhs else unat lhs + unat rhs - 2 ^ n)"
      using u lt by (simp add: mod_if le_mod_geq)
    with False show ?thesis using lt by (auto simp: word_less_nat_alt split: if_splits)
  qed
  have top: "bit ?b (n - 1) = (if subtract then \<not> bit rhs (n - 1) else bit rhs (n - 1))"
    using n by (auto simp: bit_simps)
  have "flags = direct_flags subtract lhs rhs v n"
    by (rule bit_word_eqI) (simp only: awc_flag_bits[OF r n] bit_direct_flags[OF n] carry top res, auto split: if_splits)
  with r res show ?thesis by simp
qed

lemma masked_operand_bound:
  "n = 32 \<or> n = 64 \<Longrightarrow> unat (masked_operand v n) < 2 ^ n"
  by (auto simp: masked_operand_eq unsigned_take_bit_eq)


lemma sub_as_carry: "(lhs + (NOT rhs AND mask n) + 1) AND mask n = (lhs - rhs :: 'a::len word) AND mask n"
proof -
  have "take_bit n ((lhs + 1) + take_bit n (NOT rhs)) = take_bit n (lhs + 1 + NOT rhs)" by (rule take_bit_add_word)
  also have "lhs + 1 + NOT rhs = lhs - rhs" by (simp add: not_eq_complement)
  finally show ?thesis by (simp add: take_bit_eq_mask ac_simps)
qed

subsection \<open>One instruction\<close>

definition succeeds :: "handler_outcome \<Rightarrow> bool" where
  "succeeds out = (case out of Finish s \<Rightarrow> False | _ \<Rightarrow> True)"

definition handled_as :: "'m handled \<Rightarrow> 'm step \<Rightarrow> bool" where
  "handled_as h s = (case (h, s) of ((out, cpu, m), (ok, cpu', m')) \<Rightarrow>
     cpu = cpu' \<and> m = m' \<and> out \<noteq> Generic \<and> ok = succeeds out)"

named_theorems handled_defs \<open>outcomes and steps unfolded\<close>
named_theorems handler_agrees \<open>a handler and its case of the executor\<close>

lemma write_base_register_pc: "c_pc (write_base_register r v cpu) = c_pc cpu"
  by (simp add: write_base_register_def set_x_def)

lemma reservation_pc: "c_pc (clear_exclusive_reservation cpu) = c_pc cpu"
  by (simp add: clear_exclusive_reservation_def)

lemma load_or_store_access:
  "load_or_store k address i cpu m =
    (case access_memory k address i cpu m of (None, m) \<Rightarrow> (False, cpu, m) | (Some cpu, m) \<Rightarrow> (True, cpu, m))"
  by (simp add: load_or_store_def access_memory_def extend_loaded_def Let_def split: prod.split option.split bool.split)

lemma access_memory_pc: "access_memory k address i cpu m = (Some c, m') \<Longrightarrow> c_pc c = c_pc cpu"
  by (auto simp: access_memory_def reservation_pc Let_def split: prod.splits option.splits bool.splits if_splits)

lemmas [handled_defs] = handled_as_def succeeds_def linear_step_def linear_callback_step_def refuse_def leave_def
  register_step_def


lemma op_nop_agrees [handler_agrees]:
  "handled_as (op_nop i cpu m) (register_step exec_nop i cpu m)"
  by (simp add: op_nop_def exec_nop_def handled_defs)

lemma op_halt_agrees [handler_agrees]:
  "handled_as (op_halt i cpu m) (register_step exec_halt i cpu m)"
  by (simp add: op_halt_def exec_halt_def handled_defs)

lemma op_adr_agrees [handler_agrees]:
  "handled_as (op_adr i cpu m) (register_step exec_adr i cpu m)"
  by (simp add: op_adr_def exec_adr_def handled_defs Let_def)

lemma op_cbz_agrees [handler_agrees]:
  "handled_as (op_cbz i cpu m) (register_step exec_cbz i cpu m)"
  by (simp add: op_cbz_def exec_cbz_def handled_defs Let_def)

lemma op_tbz_agrees [handler_agrees]:
  "handled_as (op_tbz i cpu m) (register_step exec_tbz i cpu m)"
  by (simp add: op_tbz_def exec_tbz_def handled_defs Let_def)

lemma op_bcond_agrees [handler_agrees]:
  "handled_as (op_bcond i cpu m) (register_step exec_bcond i cpu m)"
  by (simp add: op_bcond_def exec_bcond_def handled_defs Let_def)

lemma op_branch_agrees [handler_agrees]:
  "handled_as (op_branch i cpu m) (register_step exec_branch i cpu m)"
  by (simp add: op_branch_def exec_branch_def handled_defs Let_def)

lemma op_register_branch_agrees [handler_agrees]:
  "handled_as (op_register_branch i cpu m) (register_step exec_register_branch i cpu m)"
  by (simp add: op_register_branch_def exec_register_branch_def handled_defs Let_def)

lemma op_move_wide_agrees [handler_agrees]:
  "handled_as (op_move_wide i cpu m) (register_step exec_move_wide i cpu m)"
  by (simp add: op_move_wide_def exec_move_wide_def handled_defs Let_def)

lemma op_add_sub_extended_register_agrees [handler_agrees]:
  "handled_as (op_add_sub_extended_register i cpu m) (register_step exec_add_sub_extended_register i cpu m)"
  by (simp add: op_add_sub_extended_register_def exec_add_sub_extended_register_def handled_defs Let_def set_nzcv_def write_base_register_def set_x_def split: prod.split)

lemma op_add_sub_carry_agrees [handler_agrees]:
  "handled_as (op_add_sub_carry i cpu m) (register_step exec_add_sub_carry i cpu m)"
  by (simp add: op_add_sub_carry_def exec_add_sub_carry_def handled_defs Let_def set_nzcv_def split: prod.split)

lemma op_conditional_select_agrees [handler_agrees]:
  "handled_as (op_conditional_select i cpu m) (register_step exec_conditional_select i cpu m)"
  by (simp add: op_conditional_select_def exec_conditional_select_def handled_defs Let_def)

lemma op_bitfield_move_agrees [handler_agrees]:
  "handled_as (op_bitfield_move i cpu m) (register_step exec_bitfield_move i cpu m)"
  by (simp add: op_bitfield_move_def exec_bitfield_move_def handled_defs Let_def and.assoc split: prod.split)

lemma op_logical_shifted_register_agrees [handler_agrees]:
  "handled_as (op_logical_shifted_register i cpu m) (register_step exec_logical_shifted_register i cpu m)"
  by (simp add: op_logical_shifted_register_def exec_logical_shifted_register_def handled_defs Let_def set_logical_flags_def)

lemma op_logical_immediate_agrees [handler_agrees]:
  "handled_as (op_logical_immediate i cpu m) (register_step exec_logical_immediate i cpu m)"
  by (simp add: op_logical_immediate_def exec_logical_immediate_def handled_defs Let_def set_logical_flags_def write_base_register_def set_x_def)

lemma op_data_processing_one_source_agrees [handler_agrees]:
  "handled_as (op_data_processing_one_source i cpu m) (register_step exec_data_processing_one_source i cpu m)"
  by (simp add: op_data_processing_one_source_def exec_data_processing_one_source_def handled_defs Let_def)

lemma op_data_processing_two_source_agrees [handler_agrees]:
  "handled_as (op_data_processing_two_source i cpu m) (register_step exec_data_processing_two_source i cpu m)"
  by (simp add: op_data_processing_two_source_def exec_data_processing_two_source_def handled_defs Let_def)

lemma op_multiply_add_subtract_agrees [handler_agrees]:
  "handled_as (op_multiply_add_subtract i cpu m) (register_step exec_multiply_add_subtract i cpu m)"
  by (simp add: op_multiply_add_subtract_def exec_multiply_add_subtract_def handled_defs Let_def)

lemma op_signed_multiply_long_add_subtract_agrees [handler_agrees]:
  "handled_as (op_signed_multiply_long_add_subtract i cpu m) (register_step exec_signed_multiply_long_add_subtract i cpu m)"
  by (simp add: op_signed_multiply_long_add_subtract_def exec_signed_multiply_long_add_subtract_def handled_defs Let_def)

lemma op_unsigned_multiply_long_add_subtract_agrees [handler_agrees]:
  "handled_as (op_unsigned_multiply_long_add_subtract i cpu m) (register_step exec_unsigned_multiply_long_add_subtract i cpu m)"
  by (simp add: op_unsigned_multiply_long_add_subtract_def exec_unsigned_multiply_long_add_subtract_def handled_defs Let_def)

lemma op_signed_multiply_high_agrees [handler_agrees]:
  "handled_as (op_signed_multiply_high i cpu m) (register_step exec_signed_multiply_high i cpu m)"
  by (simp add: op_signed_multiply_high_def exec_signed_multiply_high_def handled_defs Let_def)

lemma op_unsigned_multiply_high_agrees [handler_agrees]:
  "handled_as (op_unsigned_multiply_high i cpu m) (register_step exec_unsigned_multiply_high i cpu m)"
  by (simp add: op_unsigned_multiply_high_def exec_unsigned_multiply_high_def handled_defs Let_def)

lemma op_barrier_agrees [handler_agrees]:
  "handled_as (op_barrier i cpu m) (register_step exec_barrier i cpu m)"
  by (simp add: op_barrier_def exec_barrier_def handled_defs Let_def)

lemma op_pstate_immediate_agrees [handler_agrees]:
  "handled_as (op_pstate_immediate i cpu m) (register_step exec_pstate_immediate i cpu m)"
  by (simp add: op_pstate_immediate_def exec_pstate_immediate_def handled_defs Let_def)

lemma op_simd_move_vector_element_to_general_agrees [handler_agrees]:
  "handled_as (op_simd_move_vector_element_to_general i cpu m) (register_step exec_simd_move_vector_element_to_general i cpu m)"
  by (simp add: op_simd_move_vector_element_to_general_def exec_simd_move_vector_element_to_general_def handled_defs Let_def)

lemma op_conditional_compare_register_agrees [handler_agrees]:
  "i_kind i = AVZ_NATIVE_OP_CONDITIONAL_COMPARE_REGISTER \<Longrightarrow> handled_as (op_conditional_compare i cpu m) (register_step exec_conditional_compare_register i cpu m)"
  by (simp add: op_conditional_compare_def exec_conditional_compare_register_def handled_defs Let_def set_nzcv_def split: prod.split)

lemma op_conditional_compare_immediate_agrees [handler_agrees]:
  "i_kind i = AVZ_NATIVE_OP_CONDITIONAL_COMPARE_IMMEDIATE \<Longrightarrow> handled_as (op_conditional_compare i cpu m) (register_step exec_conditional_compare_immediate i cpu m)"
  by (simp add: op_conditional_compare_def exec_conditional_compare_immediate_def handled_defs Let_def set_nzcv_def split: prod.split)

lemma op_simd_bitwise_not_agrees [handler_agrees]:
  "handled_as (op_simd_bitwise_not i cpu m) (register_step exec_simd_bitwise_not i cpu m)"
  by (simp add: op_simd_bitwise_not_def exec_simd_bitwise_not_def handled_defs Let_def set_result_def set_v_def)

lemma op_simd_duplicate_general_agrees [handler_agrees]:
  "handled_as (op_simd_duplicate_general i cpu m) (register_step exec_simd_duplicate_general i cpu m)"
  by (simp add: op_simd_duplicate_general_def exec_simd_duplicate_general_def handled_defs Let_def set_result_def set_v_def)

lemma op_simd_duplicate_vector_element_agrees [handler_agrees]:
  "handled_as (op_simd_duplicate_vector_element i cpu m) (register_step exec_simd_duplicate_vector_element i cpu m)"
  by (simp add: op_simd_duplicate_vector_element_def exec_simd_duplicate_vector_element_def handled_defs Let_def set_result_def set_v_def)

lemma op_simd_count_set_bits_agrees [handler_agrees]:
  "handled_as (op_simd_count_set_bits i cpu m) (register_step exec_simd_count_set_bits i cpu m)"
  by (simp add: op_simd_count_set_bits_def exec_simd_count_set_bits_def handled_defs Let_def set_result_def set_v_def)

lemma op_simd_count_leading_zeros_agrees [handler_agrees]:
  "handled_as (op_simd_count_leading_zeros i cpu m) (register_step exec_simd_count_leading_zeros i cpu m)"
  by (simp add: op_simd_count_leading_zeros_def exec_simd_count_leading_zeros_def handled_defs Let_def set_result_def set_v_def)

lemma vector_helper_agrees [handler_agrees]:
  "handled_as (vector_helper f i cpu m) (register_step (\<lambda>i cpu. advance (f i cpu)) i cpu m)"
  by (simp add: vector_helper_def advance_def handled_defs split: option.split)

lemma op_load_literal_agrees [handler_agrees]:
  "handled_as (op_load_literal k i cpu m) (exec_load_literal k i cpu m)"
  by (simp add: op_load_literal_def exec_load_literal_def handled_defs Let_def split: prod.split option.split)

lemma op_load_store_unsigned_immediate_agrees [handler_agrees]:
  "handled_as (op_load_store_unsigned_immediate k i cpu m) (exec_load_store_unsigned_immediate k i cpu m)"
  by (auto simp: op_load_store_unsigned_immediate_def exec_load_store_unsigned_immediate_def load_or_store_access handled_defs Let_def
    write_base_register_pc dest: access_memory_pc split: prod.splits option.splits)

lemma op_load_store_register_offset_agrees [handler_agrees]:
  "handled_as (op_load_store_register_offset k i cpu m) (exec_load_store_register_offset k i cpu m)"
  by (auto simp: op_load_store_register_offset_def exec_load_store_register_offset_def load_or_store_access handled_defs Let_def
    write_base_register_pc dest: access_memory_pc split: prod.splits option.splits)

lemma op_load_store_signed_immediate_agrees [handler_agrees]:
  "handled_as (op_load_store_signed_immediate k i cpu m) (exec_load_store_signed_immediate k i cpu m)"
  by (auto simp: op_load_store_signed_immediate_def exec_load_store_signed_immediate_def load_or_store_access handled_defs Let_def
    write_base_register_pc dest: access_memory_pc split: prod.splits option.splits)

lemma op_load_acquire_store_release_agrees [handler_agrees]:
  "handled_as (op_load_acquire_store_release k i cpu m) (exec_load_acquire_store_release k i cpu m)"
  by (simp add: op_load_acquire_store_release_def exec_load_acquire_store_release_def clear_exclusive_reservation_def handled_defs Let_def split: prod.split option.split bool.split)

lemma op_load_store_exclusive_agrees [handler_agrees]:
  "handled_as (op_load_store_exclusive k i cpu m) (exec_load_store_exclusive k i cpu m)"
  by (cases "k_uses_fast_memory_context k"; cases "i_flags i AND 1 = 0"; cases "reservation_matches (read_base_register cpu (reg_n i)) (i_width i) cpu")
    (simp_all add: op_load_store_exclusive_def exec_load_store_exclusive_def reserve_def clear_exclusive_reservation_def handled_defs Let_def split: prod.split option.split)

lemma op_load_store_pair_agrees [handler_agrees]:
  "handled_as (op_load_store_pair k i cpu m) (exec_load_store_pair k i cpu m)"
  by (cases "k_uses_fast_memory_context k"; cases "i_flags i AND 1 = 0")
    (simp_all add: op_load_store_pair_def exec_load_store_pair_def handled_defs Let_def write_base_register_pc
      reservation_pc split: prod.split option.split)

lemma op_system_register_read_agrees [handler_agrees]:
  "handled_as (op_system_register_read k i cpu m) (exec_system_register_read k i cpu m)"
  by (simp add: op_system_register_read_def exec_system_register_read_def handled_defs Let_def split: prod.split option.split bool.split)

lemma op_system_register_write_agrees [handler_agrees]:
  "handled_as (op_system_register_write k i cpu m) (exec_system_register_write k i cpu m)"
  by (simp add: op_system_register_write_def exec_system_register_write_def handled_defs Let_def split: prod.split option.split bool.split)

lemma op_system_instruction_agrees [handler_agrees]:
  "handled_as (op_system_instruction k i cpu m) (exec_system_instruction k i cpu m)"
  by (simp add: op_system_instruction_def exec_system_instruction_def handled_defs Let_def split: prod.split option.split bool.split)

lemma op_exception_return_agrees [handler_agrees]:
  "handled_as (op_exception_return k i cpu m) (exec_exception_return k i cpu m)"
  by (simp add: op_exception_return_def exec_exception_return_def handled_defs Let_def split: prod.split option.split bool.split)

lemma op_synchronous_exception_agrees [handler_agrees]:
  "handled_as (op_synchronous_exception k i cpu m) (exec_synchronous_exception k i cpu m)"
  by (simp add: op_synchronous_exception_def exec_synchronous_exception_def handled_defs Let_def split: prod.split option.split bool.split)

lemma op_wait_agrees [handler_agrees]:
  "handled_as (op_wait wait i cpu m) (exec_wait (with_wait wait k) i cpu m)"
  by (simp add: op_wait_def exec_wait_def with_wait_def handled_defs Let_def split: prod.split option.split bool.split wait_answer.split)

lemma op_simd_load_store_single_structure_lane_agrees [handler_agrees]:
  "handled_as (op_simd_load_store_single_structure_lane k i cpu m) (execute_simd_load_store_single_structure_lane k i cpu m)"
  by (simp add: op_simd_load_store_single_structure_lane_def handled_defs Let_def split: prod.split option.split bool.split)


lemma op_add_sub_immediate_agrees [handler_agrees]:
  "handled_as (op_add_sub_immediate i cpu m) (register_step exec_add_sub_immediate i cpu m)"
proof (cases "element_bits i = 32 \<or> element_bits i = 64")
  case True
  note d = direct_add_sub[OF True masked_operand_bound[OF True] masked_operand_bound[OF True]]
  show ?thesis
    using True d[where subtract = "has_flag i 1"]
    by (simp add: op_add_sub_immediate_def exec_add_sub_immediate_def handled_defs Let_def write_base_register_pc
      set_nzcv_def del: mask_for_bits_eq split: prod.split)
next
  case False
  then show ?thesis
    by (simp add: op_add_sub_immediate_def exec_add_sub_immediate_def handled_defs Let_def write_base_register_pc
      set_nzcv_def split: prod.split)
qed

lemma op_add_sub_shifted_register_agrees [handler_agrees]:
  "handled_as (op_add_sub_shifted_register i cpu m) (register_step exec_add_sub_shifted_register i cpu m)"
proof (cases "i_shift_type i > 2")
  case True
  then have "i_shift_type i \<noteq> 0" "i_shift_type i \<noteq> 1" "i_shift_type i \<noteq> 2" by auto
  with True show ?thesis
    by (simp add: op_add_sub_shifted_register_def exec_add_sub_shifted_register_def handled_defs Let_def)
next
  case False
  then have "i_shift_type i \<in> {0, 1, 2}" by (simp add: word_less_nat_alt word_unat_eq_iff not_less) arith
  moreover have "snd (add_with_carry_nzcv lhs (NOT rhs AND mask_for_bits n) True n) = (lhs - rhs) AND mask_for_bits n"
    "snd (add_with_carry_nzcv lhs rhs False n) = (lhs + rhs) AND mask_for_bits n" for lhs rhs :: u64 and n
    by (simp_all add: add_with_carry_nzcv_def Let_def of_flag_def sub_as_carry)
  ultimately show ?thesis
    by (cases "i_flags i AND 2 = 0"; cases "i_flags i AND 1 = 0")
      (auto simp: op_add_sub_shifted_register_def exec_add_sub_shifted_register_def handled_defs Let_def set_nzcv_def
        case_prod_beta simp del: mask_for_bits_eq bit.de_Morgan_conj)
qed

lemma compare_lane_matches:
  "compare_lane i cpu comparison lane = (if 10 < comparison then None else Some (lane_matches i cpu comparison lane))"
proof (cases "10 < comparison")
  case True
  then show ?thesis by (auto simp: compare_lane_def Let_def)
next
  case False
  then have "unat comparison \<in> {0, 1, 2, 3, 4, 5, 6, 7, 8, 9, 10}" by (simp add: word_less_nat_alt not_less) arith
  then have "comparison \<in> {0, 1, 2, 3, 4, 5, 6, 7, 8, 9, 10}" by (simp add: word_unat_eq_iff)
  with False show ?thesis
    by (auto simp: compare_lane_def lane_matches_def Let_def word_sless_alt word_sle_eq)
qed

lemma compare_lanes_all:
  "compare_lanes i cpu comparison lanes result =
    (if lanes \<noteq> [] \<and> 10 < comparison then None
     else Some (fold (\<lambda>lane result. write_vector_element result lane (element_bits i)
       (if lane_matches i cpu comparison lane then mask_for_bits (element_bits i) else 0)) lanes result))"
  by (induction lanes arbitrary: result) (simp_all add: compare_lane_matches)

lemma op_simd_compare_equal_vector_agrees [handler_agrees]:
  "handled_as (op_simd_compare_equal_vector i cpu m) (register_step exec_simd_compare_equal_vector i cpu m)"
  by (simp add: op_simd_compare_equal_vector_def exec_simd_compare_equal_vector_def compare_lanes_all handled_defs
    Let_def set_result_def set_v_def write_lanes_def)

lemma op_simd_portable_agrees [handler_agrees]:
  "handled_as (op_simd_saturating_add_subtract i cpu m) (register_step exec_simd_saturating_add_subtract i cpu m)"
  "handled_as (op_simd_shift_left_immediate i cpu m) (register_step exec_simd_shift_left_immediate i cpu m)"
  "handled_as (op_simd_shift_right_immediate i cpu m) (register_step exec_simd_shift_right_immediate i cpu m)"
  by (simp_all add: op_simd_saturating_add_subtract_def exec_simd_saturating_add_subtract_def
    op_simd_shift_left_immediate_def exec_simd_shift_left_immediate_def op_simd_shift_right_immediate_def
    exec_simd_shift_right_immediate_def vector_helper_def advance_def handled_defs split: option.split)

subsection \<open>The tables\<close>

lemma pure_handlers_agree:
  "(kind, f) \<in> set pure_handlers \<Longrightarrow> i_kind i = kind \<Longrightarrow>
   handled_as (f i cpu m) (execute_decoded_instruction (exec_vector fp) k i cpu m)"
  unfolding pure_handlers_def
  by (simp only: list.set insert_iff empty_iff prod.inject, elim disjE conjE)
    (simp_all add: execute_decoded_instruction_def register_cases_def callback_cases_def exec_vector_def
      vector_register_cases_def handler_agrees)

lemma callback_handlers_agree:
  "(kind, f) \<in> set callback_handlers \<Longrightarrow> kind \<noteq> AVZ_NATIVE_OP_SIMD_LOAD_STORE_MULTIPLE_STRUCTURE \<Longrightarrow>
   i_kind i = kind \<Longrightarrow> handled_as (f k i cpu m) (execute_decoded_instruction (exec_vector fp) k i cpu m)"
  unfolding callback_handlers_def
  by (simp only: list.set insert_iff empty_iff prod.inject, elim disjE conjE)
    (simp_all add: execute_decoded_instruction_def register_cases_def callback_cases_def exec_vector_def
      vector_register_cases_def vector_memory_cases_def handler_agrees)

end
