(* ===== verification/LinearSteps.thy ===== *)
theory LinearSteps
  imports HandlerAgreement
begin

text \<open>
  Every instruction that does not end a block leads to the next one: whatever case of the
  executor runs it, when it succeeds the program counter has moved by four. This is what lets a
  trace follow its own index instead of the program counter.
\<close>

definition advances :: "(instr \<Rightarrow> cpu \<Rightarrow> cpu option) \<Rightarrow> bool" where
  "advances f = (\<forall>i cpu c. f i cpu = Some c \<longrightarrow> c_pc c = c_pc cpu + 4)"

definition step_advances :: "'m executor \<Rightarrow> bool" where
  "step_advances f = (\<forall>k i cpu m c m'. f k i cpu m = (True, c, m') \<longrightarrow> c_pc c = c_pc cpu + 4)"

lemma set_result_pc: "set_result i v cpu = Some c \<Longrightarrow> c_pc c = c_pc cpu + 4"
  by (auto simp: set_result_def)

lemma register_cases_advance:
  "(kind, f) \<in> set register_cases \<Longrightarrow> \<not> avz_native_kind_terminates_block kind \<Longrightarrow> advances f"
  unfolding register_cases_def
  by (simp only: list.set insert_iff empty_iff prod.inject, elim disjE conjE, simp_all add: avz_native_kind_terminates_block_def advances_def)
    (auto simp: advances_def exec_nop_def exec_halt_def exec_barrier_def exec_adr_def exec_conditional_compare_register_def
     exec_conditional_compare_immediate_def exec_add_sub_immediate_def exec_move_wide_def exec_add_sub_shifted_register_def
     exec_add_sub_carry_def exec_add_sub_extended_register_def exec_logical_shifted_register_def exec_extract_register_def
     exec_logical_immediate_def exec_conditional_select_def exec_bitfield_move_def exec_data_processing_one_source_def
     exec_data_processing_two_source_def exec_multiply_add_subtract_def exec_signed_multiply_long_add_subtract_def
     exec_unsigned_multiply_long_add_subtract_def exec_signed_multiply_high_def exec_unsigned_multiply_high_def
     exec_simd_move_vector_element_to_general_def exec_fp_scalar_general_move_def exec_fp_scalar_register_move_def
     Let_def split: option.splits prod.splits)

lemma vector_register_cases_advance:
  "(kind, f) \<in> set vector_register_cases \<Longrightarrow> advances f"
  unfolding vector_register_cases_def
  by (simp only: list.set insert_iff empty_iff prod.inject, elim disjE conjE)
    (auto simp: advances_def advance_def set_v_def note_saturation_def Let_def
     exec_simd_insert_general_to_element_def exec_simd_insert_vector_element_def
     exec_simd_duplicate_general_def exec_simd_duplicate_vector_element_def exec_simd_table_lookup_def
     exec_simd_extract_vector_def exec_simd_permute_two_vector_def exec_simd_reverse_elements_def
     exec_simd_movi_zero_def exec_simd_movi_byte_def exec_simd_movi_word_immediate_def
     exec_simd_mvni_immediate_def exec_simd_movi_d_immediate_def exec_simd_fp_immediate_move_def
     exec_simd_bitwise_not_def exec_simd_orr_vector_def exec_simd_integer_minmax_def
     exec_simd_add_vector_def exec_simd_unsigned_shift_register_def exec_simd_integer_negate_def
     exec_simd_shift_left_immediate_def exec_simd_scalar_shift_left_immediate_def
     exec_simd_shift_right_immediate_def exec_simd_signed_shift_long_def
     exec_simd_saturating_add_subtract_def exec_simd_narrow_high_def exec_simd_multiply_long_def
     exec_simd_compare_equal_vector_def exec_simd_count_set_bits_def exec_simd_count_leading_zeros_def
     exec_simd_unsigned_max_pairwise_def exec_simd_pairwise_add_def exec_simd_pairwise_add_long_def
     exec_simd_add_across_vector_def exec_fp_scalar_conditional_select_def
     execute_simd_saturating_add_subtract_portable_def execute_simd_shift_left_immediate_portable_def
     execute_simd_shift_right_immediate_portable_def dest!: set_result_pc split: option.splits
     prod.splits if_splits)

lemma callback_cases_advance:
  "(kind, f) \<in> set callback_cases \<Longrightarrow> \<not> avz_native_kind_terminates_block kind \<Longrightarrow> step_advances f"
  unfolding callback_cases_def
  by (simp only: list.set insert_iff empty_iff prod.inject, elim disjE conjE, simp_all add: avz_native_kind_terminates_block_def step_advances_def)
    (auto simp: exec_system_register_read_def exec_load_literal_def exec_load_store_unsigned_immediate_def
    exec_load_store_signed_immediate_def exec_load_store_register_offset_def exec_load_store_pair_def
    exec_load_acquire_store_release_def exec_load_store_exclusive_def exec_load_store_exclusive_pair_def Let_def
    split: option.splits prod.splits bool.splits if_splits)

lemma publish_pc: "c_pc (publish r vs cpu) = c_pc cpu"
proof -
  have "c_pc (fold (\<lambda>index. set_v (g index) (vs ! index)) xs cpu) = c_pc cpu" for g xs
    by (induction xs arbitrary: cpu) (simp_all add: set_v_def)
  then show ?thesis by (simp add: publish_def)
qed

lemma structure_write_back_pc: "c_pc (structure_write_back i b n cpu) = c_pc cpu"
  by (simp add: structure_write_back_def write_base_register_pc)

lemma bulk_pc: "try_execute_simd_multiple_structure_bulk k i cpu m = (Some c, m') \<Longrightarrow> c_pc c = c_pc cpu + 4"
  by (auto simp: try_execute_simd_multiple_structure_bulk_def Let_def structure_write_back_pc publish_pc reservation_pc
    split: if_splits option.splits prod.splits bool.splits)

lemma vector_memory_cases_advance:
  "(kind, f) \<in> set vector_memory_cases \<Longrightarrow> step_advances f"
  unfolding vector_memory_cases_def
  by (simp only: list.set insert_iff empty_iff prod.inject, elim disjE conjE, simp_all add: step_advances_def)
    (auto simp: exec_simd_fp_load_store_immediate_def exec_simd_fp_load_store_register_offset_def
    exec_simd_fp_load_store_pair_def execute_simd_load_store_single_structure_lane_def
    exec_simd_load_store_multiple_structure_def Let_def dest: bulk_pc
    split: if_splits option.splits prod.splits bool.splits)

lemma linear_instruction_advances:
  assumes "step_advances fp" "\<not> avz_native_kind_terminates_block (i_kind i)"
    "execute_decoded_instruction (exec_vector fp) k i cpu m = (True, c, m')"
  shows "c_pc c = c_pc cpu + 4"
proof -
  consider (reg) f where "map_of register_cases (i_kind i) = Some f" "f i cpu = Some c"
    | (call) f where "map_of callback_cases (i_kind i) = Some f" "f k i cpu m = (True, c, m')"
    | (vec) f where "map_of vector_register_cases (i_kind i) = Some f" "f i cpu = Some c"
    | (mem) f where "map_of vector_memory_cases (i_kind i) = Some f" "f k i cpu m = (True, c, m')"
    | (fp) "fp k i cpu m = (True, c, m')"
    using assms(3) by (auto simp: execute_decoded_instruction_def exec_vector_def register_step_def split: option.splits if_splits)
  then show ?thesis
  proof cases
    case reg
    with register_cases_advance[OF map_of_SomeD assms(2)] show ?thesis by (simp add: advances_def)
  next
    case call
    from callback_cases_advance[OF map_of_SomeD[OF call(1)] assms(2)] call(2) show ?thesis
      unfolding step_advances_def by blast
  next
    case vec
    with vector_register_cases_advance[OF map_of_SomeD] show ?thesis by (simp add: advances_def)
  next
    case mem
    from vector_memory_cases_advance[OF map_of_SomeD[OF mem(1)]] mem(2) show ?thesis
      unfolding step_advances_def by blast
  next
    case fp
    with assms(1) show ?thesis unfolding step_advances_def by blast
  qed
qed

end
