(* ===== verification/ThreadedCorrect.thy ===== *)
theory ThreadedCorrect
  imports LinearSteps
begin

text \<open>
  The threaded engine against the interpreter. The guest's code is a map from addresses to
  decoded instructions, which may depend on the memory; the interpreter fetches at the program
  counter and executes, one instruction after the other.
\<close>

type_synonym 'm guest_code = "'m \<Rightarrow> u64 \<Rightarrow> instr option"

inductive interprets ::
  "'m executor \<Rightarrow> 'm callbacks \<Rightarrow> 'm guest_code \<Rightarrow> nat \<Rightarrow> cpu \<times> 'm \<Rightarrow> cpu \<times> 'm \<Rightarrow> bool"
  for vec :: "'m executor" and k :: "'m callbacks" and code :: "'m guest_code" where
  interprets_none: "interprets vec k code 0 s s"
| interprets_step: "interprets vec k code (Suc n) (cpu, m) s"
    if "code m (c_pc cpu) = Some i" "execute_decoded_instruction vec k i cpu m = (True, cpu1, m1)"
      "interprets vec k code n (cpu1, m1) s"

inductive_simps interprets_0: "interprets vec k code 0 s s'"
inductive_simps interprets_Suc: "interprets vec k code (Suc n) s s'"

text \<open>The instruction at the program counter does not complete.\<close>

definition fails_at :: "'m executor \<Rightarrow> 'm callbacks \<Rightarrow> 'm guest_code \<Rightarrow> cpu \<times> 'm \<Rightarrow> instr \<Rightarrow> cpu \<times> 'm \<Rightarrow> bool" where
  "fails_at vec k code s i s' \<longleftrightarrow> code (snd s) (c_pc (fst s)) = Some i \<and>
     execute_decoded_instruction vec k i (fst s) (snd s) = (False, fst s', snd s')"

subsection \<open>What a run relies on\<close>

text \<open>The instructions of a run are those of the guest's code, at the addresses the run gives them.\<close>

definition code_agrees :: "('m, 'e) threaded_run \<Rightarrow> 'm guest_code \<Rightarrow> 'm \<Rightarrow> bool" where
  "code_agrees p code m \<longleftrightarrow>
    (case t_trace p of
       None \<Rightarrow> (\<forall>pc i. block_fetch (t_instructions p) (t_base_pc p) pc = Some i \<longrightarrow> code m pc = Some i)
     | Some tr \<Rightarrow> (\<forall>j < length (t_instructions p). code m (tr_pcs tr ! j) = Some (t_instructions p ! j)))"

text \<open>
  The promise of the block cache: what it calls current is the code of the guest. A block that
  is not protected by a serial is only current while the cache has not changed. Without a cache
  the code must not change at all.
\<close>

definition current_code :: "('m, 'e) threaded_run \<Rightarrow> 'm guest_code \<Rightarrow> u64 \<Rightarrow> bool" where
  "current_code p code entry_epoch \<longleftrightarrow>
    (\<forall>m epochs. t_current p m epochs \<noteq> None \<longrightarrow>
       (\<not> t_has_span p \<and> t_trace p = None \<longrightarrow> t_mutation_epoch p m = entry_epoch) \<longrightarrow> code_agrees p code m) \<and>
    (t_has_cache p \<or> (\<forall>m. code_agrees p code m))"

text \<open>
  A trace is a sequence of blocks: the offsets are those of its blocks, and inside a block the
  addresses are consecutive and no instruction ends a block.
\<close>

definition well_formed_trace :: "instr list \<Rightarrow> mapped_trace \<Rightarrow> bool" where
  "well_formed_trace is tr \<longleftrightarrow>
    length (tr_pcs tr) = length is \<and> 0 < tr_fused tr \<and> length (tr_offsets tr) = tr_fused tr + 1 \<and>
    tr_offsets tr ! 0 = 0 \<and> tr_offsets tr ! tr_fused tr = length is \<and>
    (\<forall>b < tr_fused tr. tr_offsets tr ! b < tr_offsets tr ! (b + 1)) \<and>
    (\<forall>j. j + 1 < length is \<longrightarrow> j + 1 \<notin> set (tr_offsets tr) \<longrightarrow>
       tr_pcs tr ! (j + 1) = tr_pcs tr ! j + 4 \<and> \<not> avz_native_kind_terminates_block (i_kind (is ! j)))"

definition no_semantic_candidates :: "('m, 'e) threaded_run \<Rightarrow> bool" where
  "no_semantic_candidates p \<longleftrightarrow> t_candidates p = Some (replicate (length (t_instructions p)) SEMANTIC_NONE)"

text \<open>
  The engine tries the bulk transfer of a structure load before it calls the executor, which
  tries it again; a refused transfer must not leave a trace.
\<close>

definition quiet_bulk :: "'m callbacks \<Rightarrow> bool" where
  "quiet_bulk k \<longleftrightarrow>
    (\<forall>i cpu m m'. try_execute_simd_multiple_structure_bulk k i cpu m = (None, m') \<longrightarrow> m' = m)"

definition bulk_ok :: "'m callbacks \<Rightarrow> instr list \<Rightarrow> bool" where
  "bulk_ok k is \<longleftrightarrow> quiet_bulk k \<or>
     (\<forall>i \<in> set is. i_kind i \<noteq> AVZ_NATIVE_OP_SIMD_LOAD_STORE_MULTIPLE_STRUCTURE)"

subsection \<open>One instruction\<close>

lemma interprets_last:
  "interprets vec k code n s (cpu, m) \<Longrightarrow> code m (c_pc cpu) = Some i \<Longrightarrow>
   execute_decoded_instruction vec k i cpu m = (True, cpu1, m1) \<Longrightarrow> interprets vec k code (Suc n) s (cpu1, m1)"
  by (induction n s "(cpu, m)" rule: interprets.induct) (auto intro: interprets.intros)

lemma interprets_append:
  "interprets vec k code n s s1 \<Longrightarrow> interprets vec k code n' s1 s2 \<Longrightarrow> interprets vec k code (n + n') s s2"
  by (induction rule: interprets.induct) (auto intro: interprets.intros)

lemma bulk_executes:
  assumes "try_execute_simd_multiple_structure_bulk k i cpu m = (Some c, m')"
    "i_kind i = AVZ_NATIVE_OP_SIMD_LOAD_STORE_MULTIPLE_STRUCTURE"
  shows "execute_decoded_instruction (exec_vector fp) k i cpu m = (True, c, m')"
proof -
  have "\<not> (unat (i_condition i) < 1 \<or> 4 < unat (i_condition i) \<or> (i_width i \<noteq> 8 \<and> i_width i \<noteq> 16))"
    using assms(1) by (auto simp: try_execute_simd_multiple_structure_bulk_def Let_def split: if_splits)
  then have "exec_simd_load_store_multiple_structure k i cpu m = (True, c, m')"
    using assms(1) by (simp add: exec_simd_load_store_multiple_structure_def Let_def)
  then show ?thesis
    using assms(2) by (simp add: execute_decoded_instruction_def register_cases_def callback_cases_def exec_vector_def
      vector_register_cases_def vector_memory_cases_def)
qed

lemma wait_executes:
  "i_kind i = AVZ_NATIVE_OP_WAIT \<Longrightarrow> execute_decoded_instruction vec k i cpu m = exec_wait k i cpu m"
  by (simp add: execute_decoded_instruction_def register_cases_def callback_cases_def)

text \<open>What the handlers decide, they decide as the executor does; the rest they leave to it.\<close>

lemma ordinary_dispatch_agrees:
  assumes "ordinary_instruction_dispatch wait (with_wait wait k) i cpu m = (out, c, m')"
    "quiet_bulk (with_wait wait k) \<or> i_kind i \<noteq> AVZ_NATIVE_OP_SIMD_LOAD_STORE_MULTIPLE_STRUCTURE"
  shows "(out = Generic \<longrightarrow> c = cpu \<and> m' = m) \<and>
    (out \<noteq> Generic \<longrightarrow> execute_decoded_instruction (exec_vector fp) (with_wait wait k) i cpu m = (succeeds out, c, m'))"
proof -
  let ?k = "with_wait wait k"
  consider (pure) f where "map_of pure_handlers (i_kind i) = Some f" "f i cpu m = (out, c, m')"
    | (bulk) "i_kind i = AVZ_NATIVE_OP_SIMD_LOAD_STORE_MULTIPLE_STRUCTURE"
        "op_simd_load_store_multiple_structure ?k i cpu m = (out, c, m')"
    | (call) f where "map_of callback_handlers (i_kind i) = Some f" "f ?k i cpu m = (out, c, m')"
        "i_kind i \<noteq> AVZ_NATIVE_OP_SIMD_LOAD_STORE_MULTIPLE_STRUCTURE"
    | (wait) "i_kind i = AVZ_NATIVE_OP_WAIT" "op_wait wait i cpu m = (out, c, m')"
    | (generic) "out = Generic" "c = cpu" "m' = m"
  proof (cases "i_kind i = AVZ_NATIVE_OP_SIMD_LOAD_STORE_MULTIPLE_STRUCTURE")
    case True
    then have "op_simd_load_store_multiple_structure ?k i cpu m = (out, c, m')"
      using assms(1) by (simp add: ordinary_instruction_dispatch_def pure_handlers_def callback_handlers_def)
    with True show ?thesis by (rule that(2))
  next
    case False
    then show ?thesis
      using assms(1) that by (auto simp: ordinary_instruction_dispatch_def split: option.splits if_splits)
  qed
  then show ?thesis
  proof cases
    case pure
    then show ?thesis
      using pure_handlers_agree[OF map_of_SomeD[OF pure(1)] refl, of cpu m fp ?k] by (auto simp: handled_as_def)
  next
    case bulk
    then show ?thesis
      using assms(2) bulk_executes[OF _ bulk(1)]
      by (auto simp: op_simd_load_store_multiple_structure_def quiet_bulk_def succeeds_def split: prod.splits option.splits)
  next
    case call
    then show ?thesis
      using callback_handlers_agree[OF map_of_SomeD[OF call(1)] call(3) refl, of ?k cpu m fp] by (auto simp: handled_as_def)
  next
    case wait
    then show ?thesis
      using op_wait_agrees[of wait i cpu m k] by (auto simp: handled_as_def wait_executes)
  next
    case generic
    then show ?thesis by simp
  qed
qed

text \<open>Only a handler that goes through a callback changes the memory.\<close>

lemma pure_handlers_memory:
  "(kind, f) \<in> set pure_handlers \<Longrightarrow> f i cpu m = (out, c, m') \<Longrightarrow> m' = m"
  unfolding pure_handlers_def
  by (simp only: list.set insert_iff empty_iff prod.inject, elim disjE conjE)
    (auto simp: op_nop_def op_halt_def op_adr_def op_cbz_def op_tbz_def op_bcond_def op_add_sub_immediate_def
    op_move_wide_def op_add_sub_shifted_register_def op_branch_def op_logical_shifted_register_def
    op_logical_immediate_def op_register_branch_def op_conditional_select_def op_bitfield_move_def
    op_data_processing_one_source_def op_data_processing_two_source_def op_conditional_compare_def
    op_add_sub_extended_register_def op_multiply_add_subtract_def op_signed_multiply_long_add_subtract_def
    op_unsigned_multiply_long_add_subtract_def op_add_sub_carry_def op_signed_multiply_high_def
    op_unsigned_multiply_high_def op_barrier_def op_pstate_immediate_def
    op_simd_move_vector_element_to_general_def op_simd_bitwise_not_def op_simd_saturating_add_subtract_def
    op_simd_shift_left_immediate_def op_simd_shift_right_immediate_def op_simd_duplicate_general_def
    op_simd_duplicate_vector_element_def op_simd_compare_equal_vector_def op_simd_count_set_bits_def
    op_simd_count_leading_zeros_def vector_helper_def linear_step_def refuse_def Let_def
    split: if_splits option.splits prod.splits)

lemma callback_handlers_step:
  "(kind, f) \<in> set callback_handlers \<Longrightarrow> f k i cpu m = (Step, c, m') \<Longrightarrow> m' = m"
  unfolding callback_handlers_def
  by (simp only: list.set insert_iff empty_iff prod.inject, elim disjE conjE)
    (auto simp: op_load_store_unsigned_immediate_def op_load_store_signed_immediate_def op_load_store_register_offset_def
    op_load_store_pair_def op_load_literal_def op_load_acquire_store_release_def op_load_store_exclusive_def
    op_system_register_read_def op_system_register_write_def op_system_instruction_def op_exception_return_def
    op_synchronous_exception_def op_simd_load_store_single_structure_lane_def op_simd_load_store_multiple_structure_def
    linear_step_def linear_callback_step_def refuse_def leave_def Let_def
    split: if_splits option.splits prod.splits bool.splits)

lemma step_keeps_memory:
  assumes "ordinary_instruction_dispatch wait k i cpu m = (Step, c, m')"
  shows "m' = m"
  using assms pure_handlers_memory callback_handlers_step
  by (fastforce simp: ordinary_instruction_dispatch_def op_wait_def refuse_def Let_def dest: map_of_SomeD
    split: option.splits if_splits prod.splits wait_answer.splits)

text \<open>Which statuses a handler may finish with.\<close>

definition proper :: "instr \<Rightarrow> 'm handled \<Rightarrow> bool" where
  "proper i h = (case h of (out, c, _) \<Rightarrow>
     (case out of Finish status \<Rightarrow> status = OUTSIDE_BLOCK \<or> status = UNSUPPORTED (i_raw i)
      | Step_Finish status \<Rightarrow> status = HALTED \<and> c_halted c = 1 \<or> status = YIELDED | _ \<Rightarrow> True))"

lemma proper_intros:
  "proper i (linear_step c m)" "proper i (linear_callback_step c m)" "proper i (refuse i c m)" "proper i (leave c m)"
  "proper i (Step, c, m)" "proper i (Callback_Step, c, m)" "proper i (Generic, c, m)"
  by (simp_all add: proper_def linear_step_def linear_callback_step_def refuse_def leave_def)

lemma pure_handlers_proper:
  "(kind, f) \<in> set pure_handlers \<Longrightarrow> proper i (f i cpu m)"
  unfolding pure_handlers_def
  by (simp only: list.set insert_iff empty_iff prod.inject, elim disjE conjE)
    (auto simp: op_halt_def proper_intros op_nop_def op_adr_def op_cbz_def op_tbz_def op_bcond_def op_add_sub_immediate_def
    op_move_wide_def op_add_sub_shifted_register_def op_branch_def op_logical_shifted_register_def
    op_logical_immediate_def op_register_branch_def op_conditional_select_def op_bitfield_move_def
    op_data_processing_one_source_def op_data_processing_two_source_def op_conditional_compare_def
    op_add_sub_extended_register_def op_multiply_add_subtract_def op_signed_multiply_long_add_subtract_def
    op_unsigned_multiply_long_add_subtract_def op_add_sub_carry_def op_signed_multiply_high_def
    op_unsigned_multiply_high_def op_barrier_def op_pstate_immediate_def
    op_simd_move_vector_element_to_general_def op_simd_bitwise_not_def op_simd_saturating_add_subtract_def
    op_simd_shift_left_immediate_def op_simd_shift_right_immediate_def op_simd_duplicate_general_def
    op_simd_duplicate_vector_element_def op_simd_compare_equal_vector_def op_simd_count_set_bits_def
    op_simd_count_leading_zeros_def vector_helper_def Let_def
    split: option.split prod.split,
      simp_all add: proper_def)

lemma callback_handlers_proper:
  "(kind, f) \<in> set callback_handlers \<Longrightarrow> proper i (f k i cpu m)"
  unfolding callback_handlers_def
  by (simp only: list.set insert_iff empty_iff prod.inject, elim disjE conjE)
    (auto simp: proper_intros op_load_store_unsigned_immediate_def op_load_store_signed_immediate_def op_load_store_register_offset_def
    op_load_store_pair_def op_load_literal_def op_load_acquire_store_release_def op_load_store_exclusive_def
    op_system_register_read_def op_system_register_write_def op_system_instruction_def op_exception_return_def
    op_synchronous_exception_def op_simd_load_store_single_structure_lane_def op_simd_load_store_multiple_structure_def
    Let_def
    split: option.split prod.split bool.split)

lemma ordinary_dispatch_proper: "proper i (ordinary_instruction_dispatch wait k i cpu m)"
proof -
  have "proper i (op_wait wait i cpu m)"
    by (auto simp: op_wait_def proper_intros Let_def split: option.split prod.split wait_answer.split) (simp add: proper_def)
  then show ?thesis
    by (auto simp: ordinary_instruction_dispatch_def proper_intros dest!: map_of_SomeD
      intro: pure_handlers_proper callback_handlers_proper split: option.split)
qed

subsection \<open>Positions in a trace\<close>

definition in_position :: "('m, 'e) threaded_run \<Rightarrow> 'e engine \<Rightarrow> cpu \<Rightarrow> bool" where
  "in_position p s cpu \<longleftrightarrow>
    (case t_trace p of
       None \<Rightarrow> True
     | Some tr \<Rightarrow>
         0 < e_cursor s \<and> e_cursor s \<le> tr_fused tr \<and> tr_offsets tr ! (e_cursor s - 1) \<le> e_index s \<and>
         e_index s \<le> tr_offsets tr ! e_cursor s \<and>
         (0 < e_index s \<longrightarrow> e_index s < tr_offsets tr ! e_cursor s \<longrightarrow> tr_pcs tr ! e_index s = c_pc cpu))"

lemma offsets_increase:
  assumes "well_formed_trace is tr" "b < b'" "b' \<le> tr_fused tr"
  shows "tr_offsets tr ! b < tr_offsets tr ! b'"
  using assms(2,3)
proof (induction b')
  case (Suc b')
  have "tr_offsets tr ! b' < tr_offsets tr ! Suc b'" using assms(1) Suc.prems(2) by (auto simp: well_formed_trace_def)
  with Suc show ?case by (cases "b = b'") (auto dest: less_trans)
qed simp

lemma inside_block:
  assumes "well_formed_trace is tr" "b < tr_fused tr" "tr_offsets tr ! b < j" "j < tr_offsets tr ! (b + 1)"
  shows "j \<notin> set (tr_offsets tr)"
proof
  assume "j \<in> set (tr_offsets tr)"
  then obtain b' where b': "b' \<le> tr_fused tr" "j = tr_offsets tr ! b'"
    using assms(1) unfolding well_formed_trace_def in_set_conv_nth by (metis Suc_eq_plus1 less_Suc_eq_le)
  have "b < b'" using offsets_increase[OF assms(1), of b' b] assms(2,3) b' by (cases "b' < b") (auto simp: not_less le_less)
  moreover have "b' < b + 1"
    using offsets_increase[OF assms(1), of "b + 1" b'] assms(2,4) b' by (cases "b + 1 < b'") (auto simp: not_less le_less)
  ultimately show False by simp
qed

lemma offsets_le:
  assumes "well_formed_trace is tr" "b \<le> tr_fused tr"
  shows "tr_offsets tr ! b \<le> length is"
  using offsets_increase[OF assms(1), of b "tr_fused tr"] assms by (cases "b = tr_fused tr") (auto simp: well_formed_trace_def)

definition located :: "('m, 'e) threaded_run \<Rightarrow> 'e engine \<Rightarrow> cpu \<Rightarrow> bool" where
  "located p s cpu \<longleftrightarrow> e_index s < length (t_instructions p) \<and>
    (case t_trace p of
       None \<Rightarrow> block_fetch (t_instructions p) (t_base_pc p) (c_pc cpu) = Some (t_instructions p ! e_index s)
     | Some tr \<Rightarrow>
         0 < e_cursor s \<and> e_cursor s \<le> tr_fused tr \<and> tr_offsets tr ! (e_cursor s - 1) \<le> e_index s \<and>
         e_index s < tr_offsets tr ! e_cursor s \<and> tr_pcs tr ! e_index s = c_pc cpu)"

abbreviation trace_ok :: "('m, 'e) threaded_run \<Rightarrow> bool" where
  "trace_ok p \<equiv> (\<forall>tr. t_trace p = Some tr \<longrightarrow> well_formed_trace (t_instructions p) tr)"

lemma locate_located:
  assumes "trace_ok p" "in_position p s cpu" "locate p s cpu m = Some s'"
  shows "located p s' cpu \<and> e_steps s' = e_steps s \<and> e_entry_epoch s' = e_entry_epoch s"
proof (cases "t_trace p")
  case None
  then show ?thesis
    using assms(3) by (auto simp: locate_def located_def block_fetch_def Let_def split: if_splits)
next
  case (Some tr)
  note wf = assms(1)[rule_format, OF Some]
  have l: "tr_offsets tr ! e_cursor s \<le> length (t_instructions p)"
    using offsets_le[OF wf] assms(2) by (simp add: in_position_def Some)
  have top: "tr_offsets tr ! tr_fused tr = length (t_instructions p)" using wf by (simp add: well_formed_trace_def)
  have nxt: "e_cursor s < tr_fused tr \<Longrightarrow> tr_offsets tr ! e_cursor s < tr_offsets tr ! Suc (e_cursor s)"
    using offsets_increase[OF wf, of "e_cursor s" "Suc (e_cursor s)"] by simp
  have first: "0 < tr_offsets tr ! e_cursor s"
    using offsets_increase[OF wf, of 0 "e_cursor s"] wf assms(2) by (simp add: in_position_def Some well_formed_trace_def)
  show ?thesis
    using assms(2,3) l top nxt first
    by (auto simp: locate_def located_def in_position_def Some Let_def le_less split: if_splits option.splits)
qed

lemma located_code:
  assumes "located p s cpu" "code_agrees p code m"
  shows "code m (c_pc cpu) = Some (t_instructions p ! e_index s)"
  using assms by (auto simp: located_def code_agrees_def split: option.splits)

lemma count_step_position:
  assumes "trace_ok p" "located p s cpu" "\<not> avz_native_kind_terminates_block (i_kind (t_instructions p ! e_index s)) \<longrightarrow> c_pc c = c_pc cpu + 4"
  shows "in_position p (count_step p s) c"
proof (cases "t_trace p")
  case (Some tr)
  note wf = assms(1)[rule_format, OF Some]
  have b: "tr_pcs tr ! Suc (e_index s) = c_pc c" if "Suc (e_index s) < tr_offsets tr ! e_cursor s"
  proof -
    have "Suc (e_index s) \<notin> set (tr_offsets tr)"
      using inside_block[OF wf, of "e_cursor s - 1" "Suc (e_index s)"] that assms(2)
      by (cases "e_cursor s") (auto simp: located_def Some)
    moreover have "Suc (e_index s) < length (t_instructions p)"
      using that offsets_le[OF wf, of "e_cursor s"] assms(2) by (auto simp: located_def Some)
    ultimately show ?thesis
      using wf assms(2,3) by (auto simp: well_formed_trace_def located_def Some)
  qed
  show ?thesis
    using assms(2) b by (auto simp: in_position_def count_step_def located_def Some Let_def)
qed (simp add: in_position_def)

subsection \<open>The run\<close>

text \<open>How a run may end: after a completed instruction, or on one that does not complete.\<close>

definition ended :: "'m executor \<Rightarrow> 'm callbacks \<Rightarrow> 'm guest_code \<Rightarrow> block_status \<Rightarrow> cpu \<times> 'm \<Rightarrow> cpu \<times> 'm \<Rightarrow> bool" where
  "ended vec k code status s s' \<longleftrightarrow>
    (s' = s \<and> (status = HALTED \<longrightarrow> c_halted (fst s) = 1) \<and> (\<forall>w. status \<noteq> UNSUPPORTED w)) \<or>
    (\<exists>i. fails_at vec k code s i s' \<and> (status = OUTSIDE_BLOCK \<or> status = UNSUPPORTED (i_raw i)))"

lemma recheck_code:
  assumes "current_code p code entry" "recheck p s m = Some s'" "e_entry_epoch s = entry"
  shows "code_agrees p code m"
proof (cases "t_has_cache p")
  case True
  with assms(2,3) have "t_current p m (e_epochs s) \<noteq> None"
    "\<not> t_has_span p \<and> t_trace p = None \<longrightarrow> t_mutation_epoch p m = entry"
    by (auto simp: recheck_def split: if_splits option.splits)
  with assms(1) show ?thesis unfolding current_code_def by blast
next
  case False
  with assms(1) show ?thesis by (simp add: current_code_def)
qed

lemma recheck_other:
  assumes "recheck p s m = Some s'"
  shows "e_steps s' = e_steps s" "e_index s' = e_index s" "e_cursor s' = e_cursor s" "e_entry_epoch s' = e_entry_epoch s"
    "in_position p s' c = in_position p s c" 
  using assms by (auto simp: recheck_def in_position_def split: if_splits option.splits)

lemma count_step_other: "e_steps (count_step p s) = e_steps s + 1" "e_entry_epoch (count_step p s) = e_entry_epoch s"
  by (simp_all add: count_step_def Let_def)

text \<open>The assumptions on a run together, and the invariant of its loop.\<close>

definition faithful_run ::
  "('m, 'e) threaded_run \<Rightarrow> 'm guest_code \<Rightarrow> u64 \<Rightarrow> 'm callbacks \<Rightarrow> 'm executor \<Rightarrow> bool" where
  "faithful_run p code entry k fp \<longleftrightarrow> trace_ok p \<and> current_code p code entry \<and> no_semantic_candidates p \<and>
     bulk_ok k (t_instructions p) \<and> step_advances fp"

definition position :: "('m, 'e) threaded_run \<Rightarrow> 'm guest_code \<Rightarrow> u64 \<Rightarrow> 'e engine \<Rightarrow> cpu \<Rightarrow> 'm \<Rightarrow> bool" where
  "position p code entry s cpu m \<longleftrightarrow> in_position p s cpu \<and> code_agrees p code m \<and> e_entry_epoch s = entry"

abbreviation interpreter :: "'m executor \<Rightarrow> 'm callbacks \<Rightarrow> instr \<Rightarrow> cpu \<Rightarrow> 'm \<Rightarrow> 'm step" where
  "interpreter fp k \<equiv> execute_decoded_instruction (exec_vector fp) k"

abbreviation reaches :: "'m executor \<Rightarrow> 'm callbacks \<Rightarrow> 'm guest_code \<Rightarrow> nat \<Rightarrow> cpu \<times> 'm \<Rightarrow> cpu \<times> 'm \<Rightarrow> bool" where
  "reaches fp k code \<equiv> interprets (exec_vector fp) k code"

text \<open>
  A turn that goes on has interpreted one instruction; one that ends has interpreted at most one
  and reports why.
\<close>

definition good_turn ::
  "('m, 'e) threaded_run \<Rightarrow> 'm guest_code \<Rightarrow> u64 \<Rightarrow> 'm callbacks \<Rightarrow> 'm executor \<Rightarrow> nat \<Rightarrow> cpu \<times> 'm \<Rightarrow> ('m, 'e) turn \<Rightarrow> bool" where
  "good_turn p code entry k fp steps st turn = (case turn of
     (None, s, c, m) \<Rightarrow> e_steps s = steps + 1 \<and> position p code entry s c m \<and> reaches fp k code 1 st (c, m)
   | (Some status, s, c, m) \<Rightarrow>
       (\<exists>n st1. n \<le> 1 \<and> e_steps s = steps + n \<and> reaches fp k code n st st1 \<and>
          ended (exec_vector fp) k code status st1 (c, m) \<and> status \<noteq> MAX_STEPS))"

lemma faithfulD:
  assumes "faithful_run p code entry k fp"
  shows "trace_ok p" "current_code p code entry" "no_semantic_candidates p" "bulk_ok k (t_instructions p)"
    "step_advances fp"
  using assms by (simp_all add: faithful_run_def)

lemma reaches_one:
  "code m (c_pc cpu) = Some i \<Longrightarrow> interpreter fp k i cpu m = (True, c, m') \<Longrightarrow> reaches fp k code (Suc 0) (cpu, m) (c, m')"
  by (auto intro: interprets.intros)

lemma callback_step_good:
  assumes faithful: "faithful_run p code entry (with_wait wait k) fp"
    and facts: "located p s cpu" "code_agrees p code m" "e_entry_epoch s = entry"
    "interpreter fp (with_wait wait k) (t_instructions p ! e_index s) cpu m = (True, c, m')"
  shows "good_turn p code entry (with_wait wait k) fp (e_steps s) (cpu, m) (callback_step p s c m')"
proof -
  note c = located_code[OF facts(1,2)]
  note pos = count_step_position[OF faithfulD(1)[OF faithful] facts(1), of c] linear_instruction_advances[OF faithfulD(5)[OF faithful] _ facts(4)]
  show ?thesis
  proof (cases "recheck p (count_step p s) m'")
    case None
    with reaches_one[where code = code and m = m, OF c facts(4)] show ?thesis
      by (auto simp: callback_step_def good_turn_def count_step_other ended_def intro!: exI[of _ "Suc 0"])
  next
    case (Some s')
    with reaches_one[where code = code and m = m, OF c facts(4)] recheck_code[OF faithfulD(2)[OF faithful] Some] recheck_other[OF Some] pos facts(3) show ?thesis
      by (auto simp: callback_step_def good_turn_def count_step_other position_def)
  qed
qed

lemma generic_good:
  assumes faithful: "faithful_run p code entry (with_wait wait k) fp"
    and facts: "located p s cpu" "code_agrees p code m" "e_entry_epoch s = entry"
  shows "good_turn p code entry (with_wait wait k) fp (e_steps s) (cpu, m) (op_generic (exec_vector fp) (with_wait wait k) p (t_instructions p ! e_index s) s cpu m)"
proof (cases "recheck p s m")
  case None
  then show ?thesis
    by (auto simp: op_generic_def good_turn_def ended_def intro!: exI[of _ "0 :: nat"] interprets.intros)
next
  case (Some s')
  let ?s = "s'\<lparr>e_generic_dispatches := e_generic_dispatches s' + 1\<rparr>"
  obtain ok c m' where e: "interpreter fp (with_wait wait k) (t_instructions p ! e_index s) cpu m = (ok, c, m')" by (metis prod.exhaust)
  have l: "located p ?s cpu" "e_index ?s = e_index s" "e_steps ?s = e_steps s" "e_entry_epoch ?s = entry"
    using facts(1,3) recheck_other[OF Some] by (auto simp: located_def split: option.split)
  show ?thesis
  proof (cases ok)
    case True
    have "good_turn p code entry (with_wait wait k) fp (e_steps ?s) (cpu, m) (callback_step p ?s c m')"
      by (rule callback_step_good[OF faithful]) (use l facts(2) e True in auto)
    then have "good_turn p code entry (with_wait wait k) fp (e_steps s) (cpu, m) (callback_step p ?s c m')" by (simp add: good_turn_def recheck_other(1)[OF Some])
    with Some e True show ?thesis by (simp add: op_generic_def Let_def)
  next
    case False
    have "fails_at (exec_vector fp) (with_wait wait k) code (cpu, m) (t_instructions p ! e_index s) (c, m')"
      using located_code[OF facts(1,2)] e False by (simp add: fails_at_def)
    with Some e False l show ?thesis
      by (auto simp: op_generic_def Let_def good_turn_def ended_def recheck_other[OF Some] intro!: exI[of _ "0 :: nat"] interprets.intros)
  qed
qed

lemma ordinary_good:
  assumes faithful: "faithful_run p code entry (with_wait wait k) fp"
    and facts: "located p s cpu" "code_agrees p code m" "e_entry_epoch s = entry"
  shows "good_turn p code entry (with_wait wait k) fp (e_steps s) (cpu, m) (ordinary_instruction (exec_vector fp) wait (with_wait wait k) p s cpu m)"
proof -
  let ?i = "t_instructions p ! e_index s"
  obtain out c m' where d: "ordinary_instruction_dispatch wait (with_wait wait k) ?i cpu m = (out, c, m')"
    by (metis prod.exhaust)
  have q: "quiet_bulk (with_wait wait k) \<or> i_kind ?i \<noteq> AVZ_NATIVE_OP_SIMD_LOAD_STORE_MULTIPLE_STRUCTURE"
    using faithfulD(4)[OF faithful] facts(1) by (auto simp: bulk_ok_def located_def)
  note a = ordinary_dispatch_agrees[OF d q, where fp = fp]
  note c = located_code[OF facts(1,2)]
  have pr: "proper ?i (out, c, m')" using ordinary_dispatch_proper[of ?i wait "with_wait wait k" cpu m] d by simp
  show ?thesis
  proof (cases out)
    case Step
    have e: "interpreter fp (with_wait wait k) ?i cpu m = (True, c, m')" using a Step by (simp add: succeeds_def)
    have "m' = m" using step_keeps_memory d by (simp add: Step)
    then show ?thesis
      using reaches_one[where code = code and m = m, OF c e] count_step_position[OF faithfulD(1)[OF faithful] facts(1), of c] linear_instruction_advances[OF faithfulD(5)[OF faithful] _ e] facts(2,3) d Step
      by (auto simp: ordinary_instruction_def good_turn_def count_step_other position_def Let_def)
  next
    case Callback_Step
    then show ?thesis
      using callback_step_good[OF faithful facts, of c m'] a d by (simp add: ordinary_instruction_def succeeds_def Let_def)
  next
    case Generic
    then show ?thesis using generic_good[OF faithful facts] a d by (simp add: ordinary_instruction_def Let_def)
  next
    case (Finish status)
    then have "fails_at (exec_vector fp) (with_wait wait k) code (cpu, m) ?i (c, m')"
      using c a by (simp add: fails_at_def succeeds_def)
    with Finish pr d show ?thesis
      by (auto simp: ordinary_instruction_def Let_def good_turn_def ended_def proper_def intro!: exI[of _ "0 :: nat"] interprets.intros)
  next
    case (Step_Finish status)
    then have "interpreter fp (with_wait wait k) ?i cpu m = (True, c, m')" using a by (simp add: succeeds_def)
    from reaches_one[where code = code and m = m, OF c this] Step_Finish pr d show ?thesis
      by (auto simp: ordinary_instruction_def Let_def good_turn_def ended_def proper_def intro!: exI[of _ "Suc 0"])
  qed
qed

lemma dispatch_good:
  assumes faithful: "faithful_run p code entry (with_wait wait k) fp"
    and facts: "position p code entry s cpu m" "e_steps s < t_max_steps p"
  shows "good_turn p code entry (with_wait wait k) fp (e_steps s) (cpu, m) (dispatch (exec_vector fp) wait (with_wait wait k) p s cpu m)"
proof (cases "locate p s cpu m")
  case None
  with facts(2) show ?thesis
    by (auto simp: dispatch_def good_turn_def ended_def intro!: exI[of _ "0 :: nat"] interprets.intros)
next
  case (Some s')
  from facts(1) have pos: "in_position p s cpu" "code_agrees p code m" "e_entry_epoch s = entry"
    by (simp_all add: position_def)
  from locate_located[OF faithfulD(1)[OF faithful] pos(1) Some] pos(3)
  have l: "located p s' cpu" "e_steps s' = e_steps s" "e_entry_epoch s' = entry" by simp_all
  have n: "t_candidates p \<noteq> None \<and> semantic_candidate p s' = SEMANTIC_NONE"
    using faithfulD(3)[OF faithful] l(1) by (simp add: no_semantic_candidates_def semantic_candidate_def located_def)
  have "good_turn p code entry (with_wait wait k) fp (e_steps s') (cpu, m) (ordinary_instruction (exec_vector fp) wait (with_wait wait k) p s' cpu m)"
    by (rule ordinary_good[OF faithful l(1) pos(2) l(3)])
  with facts(2) Some n l(2) show ?thesis by (simp add: dispatch_def good_turn_def)
qed

lemma loop_runs:
  assumes faithful: "faithful_run p code entry (with_wait wait k) fp"
    and facts: "position p code entry s cpu m" "e_steps s \<le> t_max_steps p" "t_max_steps p - e_steps s < fuel"
  shows "\<exists>r s' c m' n st1. threaded_loop fuel (exec_vector fp) wait (with_wait wait k) p s cpu m = Some (r, s', c, m') \<and>
    res_steps r = e_steps s + n \<and> res_steps r \<le> t_max_steps p \<and> reaches fp (with_wait wait k) code n (cpu, m) st1 \<and>
    ended (exec_vector fp) (with_wait wait k) code (res_status r) st1 (c, m') \<and>
    (res_status r = MAX_STEPS \<longrightarrow> res_steps r = t_max_steps p)"
  using facts
proof (induction fuel arbitrary: s cpu m)
  case (Suc fuel)
  show ?case
  proof (cases "e_steps s < t_max_steps p")
    case False
    with Suc.prems(2) show ?thesis
      by (auto simp: dispatch_def result_of_def ended_def intro!: exI[of _ "0 :: nat"] interprets.intros)
  next
    case True
    obtain st s' c m' where t: "dispatch (exec_vector fp) wait (with_wait wait k) p s cpu m = (st, s', c, m')"
      by (metis prod.exhaust)
    note g = dispatch_good[OF faithful Suc.prems(1) True, unfolded t]
    show ?thesis
    proof (cases st)
      case None
      with g have g': "e_steps s' = e_steps s + 1" "position p code entry s' c m'" "reaches fp (with_wait wait k) code 1 (cpu, m) (c, m')"
        by (simp_all add: good_turn_def)
      have "e_steps s' \<le> t_max_steps p" "t_max_steps p - e_steps s' < fuel" using g'(1) True Suc.prems(3) by auto
      from Suc.IH[OF g'(2) this] obtain r s2 c2 m2 n st1 where
        "threaded_loop fuel (exec_vector fp) wait (with_wait wait k) p s' c m' = Some (r, s2, c2, m2)"
        "res_steps r = e_steps s' + n" "res_steps r \<le> t_max_steps p" "reaches fp (with_wait wait k) code n (c, m') st1"
        "ended (exec_vector fp) (with_wait wait k) code (res_status r) st1 (c2, m2)"
        "res_status r = MAX_STEPS \<longrightarrow> res_steps r = t_max_steps p" by blast
      with t None g'(1) interprets_append[OF g'(3), of n st1] show ?thesis
        by (intro exI[of _ r] exI[of _ s2] exI[of _ c2] exI[of _ m2] exI[of _ "1 + n"] exI[of _ st1]) simp
    next
      case (Some status)
      with g obtain n st1 where "n \<le> 1" "e_steps s' = e_steps s + n" "reaches fp (with_wait wait k) code n (cpu, m) st1"
        "ended (exec_vector fp) (with_wait wait k) code status st1 (c, m')" "status \<noteq> MAX_STEPS"
        by (auto simp: good_turn_def)
      with t Some True show ?thesis
        by (intro exI[of _ "result_of status s'"] exI[of _ s'] exI[of _ c] exI[of _ m'] exI[of _ n] exI[of _ st1])
          (simp add: result_of_def)
    qed
  qed
qed simp


subsection \<open>The property\<close>

text \<open>
  C5: The threaded engine without its fast paths is the interpreter. Give it a decoded block or a
  trace of blocks in which no instruction is a candidate of a semantic fast path; what the block
  cache calls current must be the guest's code (\<open>t_current\<close>, a parameter that stands for the
  validation of an execution span), the trace a sequence of blocks, a refused bulk transfer
  without effect, and the floating-point executor must advance the program counter. Then the
  engine returns, within its budget, and what it has done is to interpret the guest's code one
  instruction after the other, exactly as many as it reports, starting at the program counter. It
  stops after a completed instruction, halted, yielded, out of budget or out of the block, or on
  an instruction that the interpreter does not complete either, in the state the interpreter
  leaves. With candidates the engine runs the fast paths, which are not always the interpreter.
\<close>
theorem threaded_engine_refines_interpreter:
  fixes p :: "('m, 'e) threaded_run"
  assumes "faithful_run p code (if t_has_span p then 0 else t_mutation_epoch p m) (with_wait wait k) fp"
  shows "\<exists>r s c m' st. avz_native_run_threaded_decoded_block_cpu_mapped_span (exec_vector fp) wait k p epochs hints cpu m =
      Some (r, s, c, m') \<and>
    res_steps r \<le> t_max_steps p \<and> (res_status r = MAX_STEPS \<longrightarrow> res_steps r = t_max_steps p) \<and>
    interprets (exec_vector fp) (with_wait wait k) code (res_steps r) (cpu, m) st \<and>
    ended (exec_vector fp) (with_wait wait k) code (res_status r) st (c, m')"
proof (cases "(t_trace p \<noteq> None \<or> t_has_cache p) \<and> t_current p m epochs = None")
  case True
  then show ?thesis
    by (auto simp: avz_native_run_threaded_decoded_block_cpu_mapped_span_def Let_def result_of_def entry_engine_def
      ended_def intro!: exI[of _ cpu] exI[of _ m] interprets.intros)
next
  case False
  let ?entry = "if t_has_span p then 0 else t_mutation_epoch p m"
  let ?epochs = "if t_trace p \<noteq> None \<or> t_has_cache p then the (t_current p m epochs) else epochs"
  let ?s = "entry_engine ?epochs ?entry hints"
  have agrees: "code_agrees p code m"
    using faithfulD(2)[OF assms] False unfolding current_code_def by (cases "t_has_cache p") auto
  have "in_position p ?s cpu"
    using faithfulD(1)[OF assms]
    by (auto simp: in_position_def entry_engine_def well_formed_trace_def split: option.split)
  with agrees have pos: "position p code ?entry ?s cpu m" by (simp add: position_def entry_engine_def)
  have run: "avz_native_run_threaded_decoded_block_cpu_mapped_span (exec_vector fp) wait k p epochs hints cpu m =
      threaded_loop (t_max_steps p + 1) (exec_vector fp) wait (with_wait wait k) p ?s cpu m"
    using False by (auto simp: avz_native_run_threaded_decoded_block_cpu_mapped_span_def Let_def)
  have "e_steps ?s = 0" by (simp add: entry_engine_def)
  then have "e_steps ?s \<le> t_max_steps p" "t_max_steps p - e_steps ?s < t_max_steps p + 1" by simp_all
  from loop_runs[OF assms pos this] \<open>e_steps ?s = 0\<close> show ?thesis unfolding run by fastforce
qed

text \<open>\<open>nop; b .+0x1004\<close> at \<open>0x1000\<close> and \<open>nop; hlt #0\<close> at \<open>0x2008\<close>, laid out as one trace.\<close>

definition two_blocks :: "(u64 \<times> u32) list" where
  "two_blocks = [(0x1000, 0xd503201f), (0x1004, 0x14000401), (0x2008, 0xd503201f), (0x200c, 0xd4400000)]"

definition two_block_run :: "(unit, unit) threaded_run" where
  "two_block_run =
    (let is = map (the \<circ> avz_native_decode_instruction \<circ> snd) two_blocks
     in \<lparr>t_instructions = is, t_base_pc = 0x1000, t_max_steps = 9, t_candidates = Some (replicate 4 0),
         t_trace = Some \<lparr>tr_pcs = map fst two_blocks, tr_offsets = [0, 2, 4], tr_fused = 2\<rparr>,
         t_has_cache = True, t_has_span = True, t_current = \<lambda>_ e. Some e, t_mutation_epoch = \<lambda>_. 0\<rparr>)"

lemma two_block_shape:
  "length (t_instructions two_block_run) = 4"
  "map i_kind (t_instructions two_block_run) = [1, 10, 1, 2]"
  "t_trace two_block_run = Some \<lparr>tr_pcs = map fst two_blocks, tr_offsets = [0, 2, 4], tr_fused = 2\<rparr>"
  "t_instructions two_block_run = map (the \<circ> avz_native_decode_instruction \<circ> snd) two_blocks"
     apply (simp add: two_block_run_def two_blocks_def)
    apply code_simp
   apply (simp_all add: two_block_run_def)
  done

lemma two_block_kinds:
  "i \<in> set (t_instructions two_block_run) \<Longrightarrow> i_kind i \<in> {1, 10, 2}"
proof -
  assume "i \<in> set (t_instructions two_block_run)"
  then have "i_kind i \<in> set (map i_kind (t_instructions two_block_run))" by simp
  then show ?thesis unfolding two_block_shape(2) by auto
qed

lemma two_block_faithful:
  "faithful_run two_block_run (\<lambda>_ pc. map_option (the \<circ> avz_native_decode_instruction) (map_of two_blocks pc)) 0
     (with_wait None no_callbacks) no_vector"
proof -
  let ?code = "\<lambda>_ pc. map_option (the \<circ> avz_native_decode_instruction) (map_of two_blocks pc)"
  let ?tr = "\<lparr>tr_pcs = map fst two_blocks, tr_offsets = [0, 2, 4], tr_fused = 2\<rparr>"
  have kind: "i_kind (t_instructions two_block_run ! j) = 1" if "j = 0 \<or> j = 2" for j
  proof -
    have "i_kind (t_instructions two_block_run ! j) = map i_kind (t_instructions two_block_run) ! j"
      using that two_block_shape(1) by auto
    also have "\<dots> = 1" unfolding two_block_shape(2) using that by auto
    finally show ?thesis .
  qed
  have inside: "tr_pcs ?tr ! (j + 1) = tr_pcs ?tr ! j + 4 \<and> \<not> avz_native_kind_terminates_block (i_kind (t_instructions two_block_run ! j))"
    if "j + 1 < 4" "j + 1 \<notin> {0, 2, 4}" for j
  proof -
    have j: "j = 0 \<or> j = 2" using that by auto
    show ?thesis
      unfolding kind[OF j] using j by (auto simp: two_blocks_def avz_native_kind_terminates_block_def)
  qed
  have blocks: "[0, 2, 4] ! b < [0, 2, 4 :: nat] ! (b + 1)" if "b < 2" for b :: nat
    using that by (cases b) auto
  have "well_formed_trace (t_instructions two_block_run) ?tr"
    using inside blocks unfolding well_formed_trace_def two_block_shape(1) by (simp add: two_blocks_def)
  moreover have agrees: "code_agrees two_block_run ?code m" for m
    by (auto simp: code_agrees_def two_block_shape(3,4) two_blocks_def less_Suc_eq)
  moreover have "no_semantic_candidates two_block_run"
    by (simp add: no_semantic_candidates_def two_block_shape(1)) (simp add: two_block_run_def)
  moreover have "bulk_ok (with_wait None no_callbacks) (t_instructions two_block_run)"
    using two_block_kinds by (fastforce simp: bulk_ok_def)
  moreover have "step_advances no_vector"
    by (simp add: step_advances_def no_vector_def)
  ultimately show ?thesis
    by (simp add: faithful_run_def two_block_shape(3) current_code_def)
qed

theorem threaded_engine_refines_interpreter_witness:
  "\<exists>c. c_halted c = 1 \<and>
     interprets (exec_vector no_vector) (with_wait None no_callbacks)
       (\<lambda>_ pc. map_option (the \<circ> avz_native_decode_instruction) (map_of two_blocks pc)) 4
       (zero_cpu 0x1000, ()) (c, ())"
proof -
  let ?code = "\<lambda>_ pc. map_option (the \<circ> avz_native_decode_instruction) (map_of two_blocks pc)"
  have f: "faithful_run two_block_run ?code 0 (with_wait None no_callbacks) no_vector"
    by (rule two_block_faithful)
  have r: "map_option (\<lambda>(r, _). (res_steps r, res_status r))
      (avz_native_run_threaded_decoded_block_cpu_mapped_span (exec_vector no_vector) None no_callbacks two_block_run
        () None (zero_cpu 0x1000) ()) = Some (4, HALTED)" by code_simp
  show ?thesis
    using threaded_engine_refines_interpreter[of two_block_run ?code "()" None no_callbacks no_vector "()" None "zero_cpu 0x1000"]
      f r by (auto simp: ended_def two_block_run_def)
qed

end
