(* ===== verification/Spec2Isabelle.thy ===== *)
theory Spec2Isabelle
  imports Prelude Bits Decode RunBlock Execute ExclusiveMonitor DirtyTracking FillLoop StructureTransfer
  AssemblyRetention ThreadedSlots LookupResult TlbTransparency
  FastMemoryCorrect SystemCorrect ThreadedCorrect
begin

text \<open>
  A verification library for the native ARM64 interpreter of Pinecone
  (\<open>src/Sources/ARM64VizNative\<close>).

  The program. Pinecone runs an ARM64 Linux guest. \<open>ARM64VizNative.c\<close> decodes instruction
  words into \<open>AVZNativeInstruction\<close>s (\<open>avz_native_decode_instruction\<close>) and executes them on an
  \<open>AVZNativeCPU\<close> (\<open>execute_decoded_instruction\<close>), one block at a time; in front of the executor
  stand recognisers that replace a hot guest loop by one native operation. Loads, stores,
  exclusives, system registers and exceptions go through callbacks, whose fast implementation
  is \<open>ARM64VizGuestMemory.c\<close>: the shared RAM with its dirty epochs, its code pages and the
  global exclusive monitor.

  The theories, in the order of the code.

  \<^item> \<open>Prelude\<close>, \<open>Bits\<close>: the unsigned types, shifts and fields of C on \<open>w word\<close>; the bit-level
    helpers at the top of \<open>ARM64VizNative.c\<close>, with the lemmas that give them their meaning: sums
    and carries, the condition codes, counted zeros, rotated runs of ones.
  \<^item> \<open>Cpu\<close>: \<open>AVZNativeCPU\<close>, \<open>AVZNativeInstruction\<close> and the register accessors.
  \<^item> \<open>DecodeBase\<close>, \<open>DecodeScalar\<close>, \<open>DecodeVector\<close>, \<open>DecodeFloat\<close>, \<open>DecodeVector2\<close>, \<open>Decode\<close>: each
    of the 159 blocks \<open>if ((instruction & mask) == value) { ... }\<close> of
    \<open>avz_native_decode_instruction\<close> is one definition \<open>dec_...\<close>, and the function tries them in the
    order of the code. The lemmas say what a decoded instruction can look like, which block
    decodes which class, and that branch offsets round-trip.
  \<^item> \<open>ExecInteger\<close>, \<open>ExecMemory\<close>, \<open>Execute\<close>: the cases of \<open>execute_decoded_instruction\<close>. A case
    that only touches the processor is \<open>instr => cpu => cpu option\<close> (\<open>None\<close> for \<open>return 0\<close>);
    one that calls a callback also takes the record of callbacks and the memory context.
  \<^item> \<open>ExecVector\<close>, \<open>ExecVectorMemory\<close>: the integer vector cases and the vector loads and stores, in the
    configuration without NEON intrinsics. \<open>VectorLanes\<close> reads a register as bits and lanes: saturating
    sums are clamped integers, unzipping undoes zipping. \<open>StructureTransfer\<close>: the bulk form of \<open>LD1\<close>..\<open>LD4\<close>
    is the element by element form, and loading undoes storing.
  \<^item> \<open>RunBlock\<close>, \<open>BlockEngine\<close>: \<open>avz_native_run_block\<close>, which interprets words, and the engines that run
    decoded blocks; refinement of the first by the second at their entry points, the step budget.
  \<^item> \<open>SemanticLoops\<close>, \<open>SemanticEquivalence\<close>, \<open>FillLoop\<close>: the recognised loops, each proved equal to
    the executor run instruction by instruction on the same state, under the conditions that the
    recogniser does not check and the theorem names.
  \<^item> \<open>GuestMemory\<close>: \<open>AVZGuestMemory\<close> and its operations. \<open>ExclusiveMonitor\<close> holds the contract of the
    monitor as locales and \<open>ExclusiveAtomicity\<close> interprets them on the operations of the code: no
    store exclusive succeeds over a foreign write, and one without interference succeeds.
    \<open>DirtyTracking\<close>: the reported ranges are exactly the dirty pages whenever they fit, and no write
    is lost between reports.
  \<^item> \<open>LinkedLists\<close>: doubly linked lists in index fields, the shape of the queues of the block cache.
    \<open>AssemblyRetention\<close>: the two queues of prepared assembly programs (\<open>avz_assembly_...\<close> of
    \<open>ARM64VizBlockCache.c\<close>) behave as two lists with a byte budget. \<open>ThreadedSlots\<close>: the ring of
    threaded programs behaves as a bounded first-in first-out list.
  \<^item> \<open>BlockIndex\<close>, \<open>IndexInvariant\<close>: \<open>AVZNativeBlockCache\<close>, the links from physical pages to blocks and
    the generations of code pages; the links, the reference counts and the entries agree, and a
    store makes every block of the page stale. \<open>BlockLookup\<close>, \<open>LookupCorrect\<close>, \<open>LookupResult\<close>: decoding
    a block, \<open>avz_native_block_cache_get_or_decode\<close> with its front cache, ways, victim and prefetch, the
    successors; the invariant in every reachable state, and what a lookup returns.
  \<^item> \<open>FastPath\<close>: \<open>AVZNativeMemoryFastPath\<close>, the state of one processor in \<open>ARM64VizGuestMemory.c\<close>: its
    TLBs and hot tables, the invalidations by time stamps, the journal of published invalidations,
    the stage 1 walk of the page tables in RAM and the translations of data and instruction
    addresses. \<open>TlbInvalidation\<close>, \<open>PageWalk\<close>, \<open>TranslationCoherence\<close>: an invalidation removes exactly what
    it covers, the walk reads only its tables, the live entries agree with the walk.
    \<open>TranslationJournal\<close>: no published invalidation is missed. \<open>TlbTransparency\<close>: in every run of a
    guest that invalidates what it remaps (\<open>guest_run\<close>), translations and fetches answer what the walk
    of the current tables answers.
  \<^item> \<open>FastMemory\<close>, \<open>FastMemoryCorrect\<close>: the callbacks \<open>avz_native_fast_memory_...\<close> for loads, stores, pairs,
    exclusives, bulk transfers and fills; a load returns what the store before it wrote, at the
    location that the tables give. \<open>HotAccess\<close>: the inlined accesses of
    \<open>ARM64VizGuestMemoryInternal.h\<close>, which are the full accesses.
  \<^item> \<open>SystemState\<close>: counter, timers, exception and thread registers, the callbacks for system registers
    and exceptions. \<open>FastCallbacks\<close> joins memory and system state to the interface of the executor;
    \<open>SystemCorrect\<close>: registers read back, a supervisor call and its return are balanced, and without
    a host clock the virtual timer is neither early nor late.
  \<^item> \<open>SemanticTraces\<close>: the fast paths that look at a whole trace or at the code in memory: solid fill,
    memory compare, GNU hash chain, symbol names, the two copies. \<open>ThreadedHandlers\<close>: the handlers
    \<open>op_...\<close> of the threaded engine; \<open>ThreadedEngine\<close>: its loop over a block or a mapped trace
    (\<open>avz_native_run_threaded_decoded_block_cpu_mapped_span\<close>). \<open>HandlerAgreement\<close>, \<open>LinearSteps\<close>: each
    handler does what the executor does, and an instruction that ends no block advances the program
    counter by 4. \<open>ThreadedCorrect\<close>: the engine interprets the code of the guest.

  Correspondence. A C integer of w bits is a \<open>w word\<close>. Offsets, counts and indices that the
  code bounds before use are \<open>nat\<close>. A \<open>while\<close> loop with a step budget recurses on the budget, so
  that every engine is total without fuel; the other loops recurse over a list or with a
  \<open>measure\<close>. The walks along links of the block cache take the number of links as their fuel, which
  is enough because a chain never repeats a link; the prefetch of a lookup recurses over its
  remaining depth. The threaded loop has one turn per step of its budget and one more as its fuel,
  which \<open>threaded_engine_refines_interpreter\<close> shows to be enough. An out parameter is part of the
  result, and a null callback is \<open>None\<close>.

  Assumptions. The callbacks are parameters. What a loop relies on (a bulk read returns the bytes
  that single reads return, a bulk fill does what the stores do) is a hypothesis of its theorem,
  and the witness discharges it for a concrete memory. The callbacks of the block cache may change
  the code generations and statistics; the hypothesis \<open>callbacks_keep\<close> says they leave its index alone.
  The theorems about translation range over the contexts that a guest uses: \<open>contexts_ok\<close> asks that
  each translates at least a page (\<open>regime_ok\<close>) and that two with the same tag walk the same tables,
  which the code only makes likely, since a tag is a hash. A run of the threaded engine is faithful
  (\<open>faithful_run\<close>) when its trace is a sequence of blocks, what the block cache calls current
  (\<open>t_current\<close>, a parameter) is the code of the guest, no instruction is a candidate of a fast path,
  a refused bulk transfer leaves the memory alone and the floating-point executor advances the
  program counter. The callbacks that translate when the native walk is off see
  the context of the embedder only; the slow callbacks and the devices see the whole world. The
  ticks of the host clock are an argument of each callback; \<open>system_register_reads_back\<close> takes
  different ones for the write and for the read, with any time between. Each operation on the
  shared memory is one atomic step, also the plain store, which the code makes without a lock when
  it has seen no observer, and the store with its dirty mark: the theorems about the exclusive
  monitor and the dirty epochs are about sequences of such steps, and \<open>late_mark_is_missed\<close> and
  \<open>late_mark_breaks_the_other_table\<close> show what a mark does that comes after the end of its epoch.

  Not modelled. The cases that compute with C's \<open>float\<close> and \<open>double\<close> are the parameter \<open>fp\<close> of
  \<open>exec_vector\<close>. The theorems about the scalar cases hold for every vector executor \<open>vec\<close> of
  \<open>execute_decoded_instruction vec\<close>. The
  chained engine of \<open>ARM64VizNative.c\<close>, with its direct links, traces and superblocks, the validation
  of an execution span and the variant of the threaded engine without computed goto are not
  modelled, nor is the code that needs NEON intrinsics, the pixman blend loops among it. Of the
  fast paths of \<open>SemanticTraces\<close> there is no theorem that they equal the interpreter: the copy of
  64 bytes does not when its ranges overlap. A trace always has its block offsets. In
  \<open>ARM64VizGuestMemory.c\<close> the page locks are not: an operation that the code runs under its page
  locks is one step here. Nor are the transfers of devices over lists of pages. In
  \<open>ARM64VizBlockCache.c\<close> the chain of assembly programs and the diagnostics counters are not. The frame
  buffer, the block device, the assembly executor, the threaded prototype, the Swift layers and the
  guest scripts are not modelled.
\<close>

end
